(* ===== verification/Prelude.thy ===== *)
theory Prelude
  imports Main "HOL-Library.Sublist" "HOL-Library.List_Lexorder" "HOL-Library.Char_ord"
    "HOL-Library.AList" "HOL-Library.Word"
begin

text \<open>
  Shared vocabulary of the development.

  Rust strings are HOL strings holding the UTF-8 bytes of the Rust value, one \<^typ>\<open>char\<close>
  per byte; the lexicographic order of the library is then Rust's byte-wise order on
  \<^verbatim>\<open>str\<close>. Unicode scalar values, where the code iterates over them, are the byte groups
  of \<open>utf8_chars\<close>.

  A Rust \<^verbatim>\<open>Result\<close> is a \<open>result\<close>. Unsigned integers are natural numbers with
  their width written out where the code checks it.

  Ordered maps (\<^verbatim>\<open>crossbeam_skiplist::SkipMap\<close>) are association lists sorted by key;
  their interface is the locale \<open>ordered_map\<close>, which collects what the clients of an
  ordered map use.
\<close>

named_theorems smap_simps \<open>laws of the ordered association lists\<close>
named_theorems str_simps \<open>evaluation of the string operations\<close>

section \<open>Results\<close>

datatype ('e, 'a) result = Ok 'a | Err 'e

type_synonym byte = "8 word"
type_synonym bytes = "byte list"

fun bind_result :: "('e, 'a) result \<Rightarrow> ('a \<Rightarrow> ('e, 'b) result) \<Rightarrow> ('e, 'b) result" where
  "bind_result (Ok a) f = f a"
| "bind_result (Err e) f = Err e"

fun ok_or :: "'e \<Rightarrow> 'a option \<Rightarrow> ('e, 'a) result" where
  "ok_or e None = Err e"
| "ok_or e (Some a) = Ok a"

fun is_ok :: "('e, 'a) result \<Rightarrow> bool" where
  "is_ok (Ok _) = True"
| "is_ok (Err _) = False"

fun mapM_result :: "('a \<Rightarrow> ('e, 'b) result) \<Rightarrow> 'a list \<Rightarrow> ('e, 'b list) result" where
  "mapM_result f [] = Ok []"
| "mapM_result f (x # xs) =
     bind_result (f x) (\<lambda>y. bind_result (mapM_result f xs) (\<lambda>ys. Ok (y # ys)))"

lemma bind_result_Ok: "bind_result r f = Ok y \<longleftrightarrow> (\<exists>a. r = Ok a \<and> f a = Ok y)"
  by (cases r) auto

lemma bind_result_Err: "bind_result r f = Err e \<longleftrightarrow> r = Err e \<or> (\<exists>a. r = Ok a \<and> f a = Err e)"
  by (cases r) auto

lemma mapM_result_Ok: "mapM_result f xs = Ok ys \<longleftrightarrow> list_all2 (\<lambda>x y. f x = Ok y) xs ys"
  by (induction xs arbitrary: ys) (auto simp: list_all2_Cons1 bind_result_Ok)

lemma mapM_result_Err:
  assumes "\<And>x e. f x = Err e \<Longrightarrow> e = e0"
  shows "mapM_result f xs = Err e \<longleftrightarrow> e = e0 \<and> (\<exists>x \<in> set xs. f x = Err e0)"
proof (induction xs)
  case (Cons x xs)
  then show ?case using assms [of x] by (cases "f x") (auto simp: bind_result_Err)
qed simp

section \<open>Machine integers\<close>

definition u64_max :: nat where
  "u64_max = 2 ^ 64 - 1"

definition checked_add_u64 :: "nat \<Rightarrow> nat \<Rightarrow> nat option" where
  "checked_add_u64 a b = (if a + b \<le> u64_max then Some (a + b) else None)"

definition checked_mul_u64 :: "nat \<Rightarrow> nat \<Rightarrow> nat option" where
  "checked_mul_u64 a b = (if a * b \<le> u64_max then Some (a * b) else None)"

definition saturating_add_usize :: "nat \<Rightarrow> nat \<Rightarrow> nat" where
  "saturating_add_usize a b = min (a + b) u64_max"

section \<open>Strings\<close>

definition is_digit :: "char \<Rightarrow> bool" where
  "is_digit c \<longleftrightarrow> 48 \<le> (of_char c :: nat) \<and> (of_char c :: nat) \<le> 57"

definition is_lower :: "char \<Rightarrow> bool" where
  "is_lower c \<longleftrightarrow> 97 \<le> (of_char c :: nat) \<and> (of_char c :: nat) \<le> 122"

definition is_upper :: "char \<Rightarrow> bool" where
  "is_upper c \<longleftrightarrow> 65 \<le> (of_char c :: nat) \<and> (of_char c :: nat) \<le> 90"

definition is_alphanumeric :: "char \<Rightarrow> bool" where
  "is_alphanumeric c \<longleftrightarrow> is_digit c \<or> is_lower c \<or> is_upper c"

definition ascii_lower_char :: "char \<Rightarrow> char" where
  "ascii_lower_char c = (if is_upper c then char_of ((of_char c :: nat) + 32) else c)"

definition to_ascii_lowercase :: "string \<Rightarrow> string" where
  "to_ascii_lowercase = map ascii_lower_char"

definition eq_ignore_ascii_case :: "string \<Rightarrow> string \<Rightarrow> bool" where
  "eq_ignore_ascii_case a b \<longleftrightarrow> to_ascii_lowercase a = to_ascii_lowercase b"

fun split_on :: "char \<Rightarrow> string \<Rightarrow> string list" where
  "split_on c [] = [[]]"
| "split_on c (x # xs) =
     (if x = c then [] # split_on c xs
      else (case split_on c xs of [] \<Rightarrow> [[x]] | y # ys \<Rightarrow> (x # y) # ys))"

fun split_once :: "char \<Rightarrow> string \<Rightarrow> (string \<times> string) option" where
  "split_once c [] = None"
| "split_once c (x # xs) =
     (if x = c then Some ([], xs)
      else map_option (\<lambda>(a, b). (x # a, b)) (split_once c xs))"

definition strip_prefix :: "string \<Rightarrow> string \<Rightarrow> string option" where
  "strip_prefix p s = (if prefix p s then Some (drop (length p) s) else None)"

definition strip_suffix :: "string \<Rightarrow> string \<Rightarrow> string option" where
  "strip_suffix p s = (if suffix p s then Some (take (length s - length p) s) else None)"

function trim_start_matches :: "string \<Rightarrow> string \<Rightarrow> string" where
  "trim_start_matches p s =
     (if p \<noteq> [] \<and> prefix p s then trim_start_matches p (drop (length p) s) else s)"
  by pat_completeness auto
termination
  by (relation "measure (\<lambda>(p, s). length s)") (auto simp: prefix_def)

definition trim_end_char :: "char \<Rightarrow> string \<Rightarrow> string" where
  "trim_end_char c s = rev (dropWhile (\<lambda>x. x = c) (rev s))"

definition is_utf8_cont :: "char \<Rightarrow> bool" where
  "is_utf8_cont c \<longleftrightarrow> 128 \<le> (of_char c :: nat) \<and> (of_char c :: nat) < 192"

function utf8_chars :: "string \<Rightarrow> string list" where
  "utf8_chars [] = []"
| "utf8_chars (c # s) =
     (c # takeWhile is_utf8_cont s) # utf8_chars (dropWhile is_utf8_cont s)"
  by pat_completeness auto
termination
  by (relation "measure length") (auto simp: le_imp_less_Suc length_dropWhile_le)

text \<open>The code points with the Unicode property \<^verbatim>\<open>White_Space\<close>, as their UTF-8 bytes.\<close>

definition is_whitespace :: "string \<Rightarrow> bool" where
  "is_whitespace g \<longleftrightarrow>
     (let b = map (\<lambda>c. of_char c :: nat) g in
      b \<in> set [[9], [10], [11], [12], [13], [32], [0xC2, 0x85], [0xC2, 0xA0],
              [0xE1, 0x9A, 0x80], [0xE2, 0x80, 0xA8], [0xE2, 0x80, 0xA9], [0xE2, 0x80, 0xAF],
              [0xE2, 0x81, 0x9F], [0xE3, 0x80, 0x80]]
      \<or> b \<in> set (map (\<lambda>i. [0xE2, 0x80, i]) [0x80 ..< 0x8B]))"

definition str_trim :: "string \<Rightarrow> string" where
  "str_trim s =
     concat (rev (dropWhile is_whitespace (rev (dropWhile is_whitespace (utf8_chars s)))))"

fun digits_value :: "nat \<Rightarrow> string \<Rightarrow> nat" where
  "digits_value acc [] = acc"
| "digits_value acc (c # s) = digits_value (acc * 10 + (of_char c - 48)) s"

text \<open>\<^verbatim>\<open>str::parse\<close> for an unsigned type whose largest value is \<open>m\<close>.\<close>

definition parse_uint :: "nat \<Rightarrow> string \<Rightarrow> nat option" where
  "parse_uint m s =
     (let ds = (case s of [] \<Rightarrow> [] | c # r \<Rightarrow> if c = CHR ''+'' then r else s) in
      if ds = [] \<or> \<not> list_all is_digit ds then None
      else if digits_value 0 ds \<le> m then Some (digits_value 0 ds) else None)"

abbreviation parse_u64 :: "string \<Rightarrow> nat option" where
  "parse_u64 \<equiv> parse_uint u64_max"

fun show_nat :: "nat \<Rightarrow> string" where
  "show_nat n =
     (if n < 10 then [char_of (48 + n)] else show_nat (n div 10) @ [char_of (48 + n mod 10)])"

declare trim_start_matches.simps [simp del]
declare show_nat.simps [simp del]

lemma split_once_Some: "split_once c s = Some (a, b) \<Longrightarrow> s = a @ c # b"
  by (induction s arbitrary: a b) (auto split: if_splits)

lemma split_on_not_Nil [simp]: "split_on c s \<noteq> []"
  by (induction s) (auto split: list.split)

lemma split_on_free: "c \<notin> set s \<Longrightarrow> split_on c s = [s]"
  by (induction s) auto

lemma split_on_append: "c \<notin> set s \<Longrightarrow> split_on c (s @ c # t) = s # split_on c t"
  by (induction s) auto

lemma split_once_first: "c \<notin> set k \<Longrightarrow> split_once c (k @ c # v) = Some (k, v)"
  by (induction k) auto

lemma split_on_cases: "\<exists>y x. split_on c s = y # x"
  by (induction s) (auto split: list.split)

lemma digits_value_append: "digits_value a (s @ t) = digits_value (digits_value a s) t"
  by (induction s arbitrary: a) auto

lemma digits_value_zeros: "digits_value 0 (replicate n (CHR ''0'') @ s) = digits_value 0 s"
  by (induction n) auto

lemma of_char_digit: "d < 10 \<Longrightarrow> (of_char (char_of (48 + d)) :: nat) = 48 + d"
  by simp

lemma show_nat_digits: "digits_value 0 (show_nat n) = n \<and> list_all is_digit (show_nat n) \<and> show_nat n \<noteq> []"
proof (induction n rule: show_nat.induct)
  case (1 n)
  show ?case
  proof (cases "n < 10")
    case True
    then show ?thesis by (subst (1 2 3) show_nat.simps) (simp add: is_digit_def)
  next
    case False
    have m: "n mod 10 \<le> 9" by simp
    then have "is_digit (char_of (48 + n mod 10))" "48 + n mod 10 < 256" by (simp_all add: is_digit_def)
    with False 1 show ?thesis
      by (subst (1 2 3) show_nat.simps) (simp add: digits_value_append)
  qed
qed

lemma parse_show_nat: "n \<le> m \<Longrightarrow> parse_uint m (show_nat n) = Some n"
proof -
  assume n: "n \<le> m"
  obtain c r where s: "show_nat n = c # r" using show_nat_digits [of n] by (cases "show_nat n") auto
  have "c \<noteq> CHR ''+''" using show_nat_digits [of n] by (auto simp: s is_digit_def)
  with n show ?thesis using show_nat_digits [of n] by (simp add: parse_uint_def s)
qed

lemma show_nat_inj: "show_nat n = show_nat m \<Longrightarrow> n = m"
  using show_nat_digits by metis

section \<open>Ordered association lists\<close>

type_synonym ('k, 'v) smap = "('k \<times> 'v) list"

abbreviation (input) sm_empty :: "('k, 'v) smap" where
  "sm_empty \<equiv> []"

abbreviation (input) sm_get :: "('k, 'v) smap \<Rightarrow> 'k \<Rightarrow> 'v option" where
  "sm_get \<equiv> map_of"

fun sm_insert :: "'k::linorder \<Rightarrow> 'v \<Rightarrow> ('k, 'v) smap \<Rightarrow> ('k, 'v) smap" where
  "sm_insert k v [] = [(k, v)]"
| "sm_insert k v ((k', v') # m) =
     (if k < k' then (k, v) # (k', v') # m
      else if k = k' then (k, v) # m
      else (k', v') # sm_insert k v m)"

definition sm_remove :: "'k \<Rightarrow> ('k, 'v) smap \<Rightarrow> ('k, 'v) smap" where
  "sm_remove k m = filter (\<lambda>e. fst e \<noteq> k) m"

text \<open>
  The entries reached by stepping with \<^verbatim>\<open>next\<close> from \<^verbatim>\<open>lower_bound(Included(b))\<close> and
  from \<^verbatim>\<open>lower_bound(Excluded(b))\<close>.
\<close>

definition sm_from_incl :: "'k::linorder \<Rightarrow> ('k, 'v) smap \<Rightarrow> ('k, 'v) smap" where
  "sm_from_incl b m = dropWhile (\<lambda>e. fst e < b) m"

definition sm_from_excl :: "'k::linorder \<Rightarrow> ('k, 'v) smap \<Rightarrow> ('k, 'v) smap" where
  "sm_from_excl b m = dropWhile (\<lambda>e. fst e \<le> b) m"

definition sm_inv :: "('k::linorder, 'v) smap \<Rightarrow> bool" where
  "sm_inv m \<longleftrightarrow> sorted_wrt (<) (map fst m)"

lemma sm_remove_Nil [smap_simps, simp]: "sm_remove k [] = []"
  by (simp add: sm_remove_def)

lemma sm_get_insert [smap_simps, simp]: "sm_get (sm_insert k v m) = (sm_get m)(k \<mapsto> v)"
  by (induction m) auto

lemma sm_get_remove [smap_simps, simp]: "sm_get (sm_remove k m) = (sm_get m)(k := None)"
  by (induction m) (auto simp: sm_remove_def)

lemma sm_inv_Nil [smap_simps, simp]: "sm_inv []"
  by (simp add: sm_inv_def)

lemma sm_insert_keys: "fst ` set (sm_insert k v m) = insert k (fst ` set m)"
  by (induction k v m rule: sm_insert.induct) (simp_all add: insert_commute)

lemma sm_inv_insert [smap_simps, simp]: "sm_inv m \<Longrightarrow> sm_inv (sm_insert k v m)"
proof (induction m)
  case Nil
  then show ?case by (simp add: sm_inv_def)
next
  case (Cons e m)
  obtain k' v' where e: "e = (k', v')" by force
  from Cons.prems e have inv: "sm_inv m" and above: "\<forall>x \<in> fst ` set m. k' < x"
    by (auto simp: sm_inv_def)
  then have "sm_inv (sm_insert k v m)" by (simp add: Cons.IH)
  then show ?case
    using inv above sm_insert_keys [of k v m] e by (fastforce simp: sm_inv_def)
qed

lemma sm_inv_remove [smap_simps, simp]: "sm_inv m \<Longrightarrow> sm_inv (sm_remove k m)"
  by (induction m) (auto simp: sm_inv_def sm_remove_def)

lemma sm_inv_distinct: "sm_inv m \<Longrightarrow> distinct (map fst m)"
  by (auto simp: sm_inv_def strict_sorted_iff)

lemma sm_get_iff: "sm_inv m \<Longrightarrow> sm_get m k = Some v \<longleftrightarrow> (k, v) \<in> set m"
  by (simp add: map_of_eq_Some_iff sm_inv_distinct)

section \<open>Scanning sorted keys\<close>

lemma sorted_list_of_set_sorted: "sorted_wrt (<) xs \<Longrightarrow> sorted_list_of_set (set xs) = (xs :: 'a::linorder list)"
  by (simp add: strict_sorted_iff sorted_list_of_set.idem_if_sorted_distinct)

lemma dropWhile_sorted_less:
  "sorted_wrt (<) xs \<Longrightarrow> dropWhile (\<lambda>x. x < (b::'a::linorder)) xs = filter (\<lambda>x. b \<le> x) xs"
  by (induction xs) (auto simp: not_less intro!: filter_True [symmetric])

lemma dropWhile_sorted_le:
  "sorted_wrt (<) xs \<Longrightarrow> dropWhile (\<lambda>x. x \<le> (b::'a::linorder)) xs = filter (\<lambda>x. b < x) xs"
  by (induction xs) (auto simp: not_le intro!: filter_True [symmetric])

lemma dropWhile_keys_le:
  "sorted_wrt (<) (map fst es) \<Longrightarrow>
   dropWhile (\<lambda>e. fst e \<le> (b::'a::linorder)) es = filter (\<lambda>e. b < fst e) es"
  by (induction es) (auto simp: not_le intro!: filter_True [symmetric])

lemma prefix_imp_le: "prefix p s \<Longrightarrow> p \<le> (s :: 'a::linorder list)"
proof (induction p arbitrary: s)
  case Nil
  then show ?case by simp
next
  case (Cons a p)
  then show ?case by (cases s) (auto simp: less_le)
qed

text \<open>The keys with a given prefix form an interval of the lexicographic order.\<close>

lemma prefix_convex:
  "prefix p s \<Longrightarrow> p \<le> t \<Longrightarrow> t \<le> s \<Longrightarrow> prefix p (t :: 'a::linorder list)"
proof (induction p arbitrary: s t)
  case Nil
  then show ?case by simp
next
  case (Cons a p)
  from Cons.prems obtain s' where s: "s = a # s'" and ps: "prefix p s'"
    by (cases s) auto
  from Cons.prems s obtain t' where "t = a # t'" "p \<le> t'" "t' \<le> s'"
    by (cases t) (auto simp: less_le)
  with Cons.IH [OF ps] show ?case by simp
qed

lemma takeWhile_prefix_sorted:
  assumes "sorted_wrt (<) ks" and "\<forall>k \<in> set ks. p \<le> k"
  shows "takeWhile (prefix p) ks = filter (prefix p) (ks :: 'a::linorder list list)"
  using assms
proof (induction ks)
  case Nil
  then show ?case by simp
next
  case (Cons k ks)
  show ?case
  proof (cases "prefix p k")
    case True
    with Cons show ?thesis by simp
  next
    case False
    have "\<not> prefix p k'" if "k' \<in> set ks" for k'
      using prefix_convex [of p k' k] that Cons.prems False by (auto dest: less_imp_le)
    with False show ?thesis by simp
  qed
qed

lemma prefix_scan:
  assumes "sorted_wrt (<) ks"
  shows "takeWhile (prefix p) (filter (\<lambda>k. p \<le> k) ks) = filter (prefix p) (ks :: 'a::linorder list list)"
proof -
  have "takeWhile (prefix p) (filter (\<lambda>k. p \<le> k) ks) = filter (prefix p) (filter (\<lambda>k. p \<le> k) ks)"
    using assms by (intro takeWhile_prefix_sorted) (auto simp: sorted_wrt_filter)
  also have "\<dots> = filter (prefix p) ks"
    by (auto simp: prefix_imp_le intro: filter_cong)
  finally show ?thesis .
qed

section \<open>The interface of an ordered map\<close>

text \<open>
  What a client of an ordered map relies on: the map operations, and that stepping through
  the entries from a lower bound visits the keys in increasing order.
\<close>

locale ordered_map =
  fixes empty :: "'m"
    and get :: "'m \<Rightarrow> 'k::linorder \<Rightarrow> 'v option"
    and ins :: "'k \<Rightarrow> 'v \<Rightarrow> 'm \<Rightarrow> 'm"
    and rm :: "'k \<Rightarrow> 'm \<Rightarrow> 'm"
    and entries :: "'m \<Rightarrow> ('k \<times> 'v) list"
    and from_incl :: "'k \<Rightarrow> 'm \<Rightarrow> ('k \<times> 'v) list"
    and from_excl :: "'k \<Rightarrow> 'm \<Rightarrow> ('k \<times> 'v) list"
    and invar :: "'m \<Rightarrow> bool"
  assumes invar_empty: "invar empty"
    and invar_ins: "invar m \<Longrightarrow> invar (ins k v m)"
    and invar_rm: "invar m \<Longrightarrow> invar (rm k m)"
    and get_empty: "get empty k = None"
    and get_ins: "invar m \<Longrightarrow> get (ins k v m) k' = (if k' = k then Some v else get m k')"
    and get_rm: "invar m \<Longrightarrow> get (rm k m) k' = (if k' = k then None else get m k')"
    and entries_sorted: "invar m \<Longrightarrow> sorted_wrt (<) (map fst (entries m))"
    and entries_get: "invar m \<Longrightarrow> (k, v) \<in> set (entries m) \<longleftrightarrow> get m k = Some v"
    and from_incl_dropWhile: "invar m \<Longrightarrow> from_incl b m = dropWhile (\<lambda>e. fst e < b) (entries m)"
    and from_excl_dropWhile: "invar m \<Longrightarrow> from_excl b m = dropWhile (\<lambda>e. fst e \<le> b) (entries m)"
begin

lemma keys_dom: "invar m \<Longrightarrow> set (map fst (entries m)) = dom (get m)"
  by (force simp: entries_get [symmetric] dom_def image_iff)

lemma keys_distinct: "invar m \<Longrightarrow> distinct (map fst (entries m))"
  using entries_sorted strict_sorted_iff by blast

lemma keys_from_incl:
  assumes "invar m"
  shows "map fst (from_incl b m) = filter (\<lambda>k. b \<le> k) (map fst (entries m))"
proof -
  have "map fst (from_incl b m) = dropWhile (\<lambda>k. k < b) (map fst (entries m))"
    by (simp add: from_incl_dropWhile [OF assms] dropWhile_map comp_def)
  with dropWhile_sorted_less [OF entries_sorted [OF assms]] show ?thesis by simp
qed

lemma keys_from_excl:
  assumes "invar m"
  shows "map fst (from_excl b m) = filter (\<lambda>k. b < k) (map fst (entries m))"
proof -
  have "map fst (from_excl b m) = dropWhile (\<lambda>k. k \<le> b) (map fst (entries m))"
    by (simp add: from_excl_dropWhile [OF assms] dropWhile_map comp_def)
  with dropWhile_sorted_le [OF entries_sorted [OF assms]] show ?thesis by simp
qed

lemma entries_from_excl:
  assumes "invar m"
  shows "from_excl b m = filter (\<lambda>e. b < fst e) (entries m)"
  using dropWhile_keys_le [OF entries_sorted [OF assms]] from_excl_dropWhile [OF assms] by simp

text \<open>Two maps with the same lookups have the same traversal.\<close>

lemma entries_unique:
  assumes "invar m" and "invar m'" and "get m = get m'"
  shows "map fst (entries m) = map fst (entries m')"
  using assms strict_sorted_equal [OF entries_sorted entries_sorted] keys_dom by metis

end

interpretation sm: ordered_map "sm_empty :: ('k::linorder, 'v) smap" sm_get sm_insert sm_remove
    "\<lambda>m. m" sm_from_incl sm_from_excl sm_inv
  by unfold_locales
    (auto simp: sm_get_iff sm_inv_def [symmetric] sm_from_incl_def sm_from_excl_def)

section \<open>Paging\<close>

text \<open>The requests of a client that follows the markers, and what it collects.\<close>

fun follow :: "(string option \<Rightarrow> 'a list \<times> string option) \<Rightarrow> nat \<Rightarrow> string option \<Rightarrow> 'a list option" where
  "follow fetch 0 marker = None"
| "follow fetch (Suc fuel) marker =
     (case fetch marker of
        (page, None) \<Rightarrow> Some page
      | (page, Some m) \<Rightarrow> map_option (\<lambda>rest. page @ rest) (follow fetch fuel (Some m)))"

end
