(* ===== verification/Errors.thy ===== *)
theory Errors
  imports Prelude
begin

text \<open>
  The error type shared by every layer (\<^verbatim>\<open>src/src/error.rs\<close>), the HTTP status it maps to and
  the S3 error code sent to the client.
\<close>

datatype error =
    BucketAlreadyExists | BucketNotFound | BucketNotEmpty | KeyNotFound
  | InvalidRequest string | MethodNotAllowed string | RouteNotFound string
  | AccessDenied | InvalidUploadId | NoSuchUpload | InvalidPartNumber | InvalidPartOrder
  | EntityTooSmall | EntityTooLarge | IncompleteMultipartUpload | BadDigest
  | PreconditionFailed | NoSuchVersion | NoSuchLifecycleConfiguration
  | InvalidPolicy string | InternalError string | SignatureDoesNotMatch
  | MessageNotFound | CaptureTooLarge

type_synonym 'a res = "(error, 'a) result"

text \<open>Status codes are the numbers of \<^verbatim>\<open>http::StatusCode\<close>.\<close>

fun status_code :: "error \<Rightarrow> nat" where
  "status_code PreconditionFailed = 412"
| "status_code CaptureTooLarge = 413"
| "status_code BucketAlreadyExists = 409"
| "status_code BucketNotEmpty = 409"
| "status_code BucketNotFound = 404"
| "status_code KeyNotFound = 404"
| "status_code (RouteNotFound _) = 404"
| "status_code InvalidUploadId = 404"
| "status_code NoSuchUpload = 404"
| "status_code NoSuchVersion = 404"
| "status_code NoSuchLifecycleConfiguration = 404"
| "status_code MessageNotFound = 404"
| "status_code BadDigest = 400"
| "status_code (InvalidRequest _) = 400"
| "status_code InvalidPartNumber = 400"
| "status_code InvalidPartOrder = 400"
| "status_code EntityTooSmall = 400"
| "status_code EntityTooLarge = 400"
| "status_code IncompleteMultipartUpload = 400"
| "status_code (InvalidPolicy _) = 400"
| "status_code (MethodNotAllowed _) = 405"
| "status_code AccessDenied = 403"
| "status_code SignatureDoesNotMatch = 403"
| "status_code (InternalError _) = 500"

fun error_code :: "error \<Rightarrow> string" where
  "error_code BadDigest = ''BadDigest''"
| "error_code PreconditionFailed = ''PreconditionFailed''"
| "error_code CaptureTooLarge = ''RequestEntityTooLarge''"
| "error_code BucketAlreadyExists = ''BucketAlreadyExists''"
| "error_code BucketNotFound = ''NoSuchBucket''"
| "error_code BucketNotEmpty = ''BucketNotEmpty''"
| "error_code KeyNotFound = ''NoSuchKey''"
| "error_code (InvalidRequest _) = ''InvalidRequest''"
| "error_code (MethodNotAllowed _) = ''MethodNotAllowed''"
| "error_code (RouteNotFound _) = ''NotFound''"
| "error_code AccessDenied = ''AccessDenied''"
| "error_code InvalidUploadId = ''NoSuchUpload''"
| "error_code NoSuchUpload = ''NoSuchUpload''"
| "error_code InvalidPartNumber = ''InvalidPartNumber''"
| "error_code InvalidPartOrder = ''InvalidPartOrder''"
| "error_code EntityTooSmall = ''EntityTooSmall''"
| "error_code EntityTooLarge = ''EntityTooLarge''"
| "error_code IncompleteMultipartUpload = ''IncompleteMultipartUpload''"
| "error_code NoSuchVersion = ''NoSuchVersion''"
| "error_code NoSuchLifecycleConfiguration = ''NoSuchLifecycleConfiguration''"
| "error_code (InvalidPolicy _) = ''MalformedPolicy''"
| "error_code SignatureDoesNotMatch = ''SignatureDoesNotMatch''"
| "error_code MessageNotFound = ''MessageNotFound''"
| "error_code (InternalError _) = ''InternalError''"

text \<open>The text of an error (\<^verbatim>\<open>Display\<close>, derived from the \<^verbatim>\<open>#[error(...)]\<close> attributes).\<close>

fun error_text :: "error \<Rightarrow> string" where
  "error_text BucketAlreadyExists = ''Bucket already exists''"
| "error_text BucketNotFound = ''Bucket not found''"
| "error_text BucketNotEmpty = ''Bucket not empty''"
| "error_text KeyNotFound = ''Key not found''"
| "error_text (InvalidRequest _) = ''Invalid request''"
| "error_text (MethodNotAllowed _) = ''Method not allowed''"
| "error_text (RouteNotFound _) = ''Route not found''"
| "error_text AccessDenied = ''Access denied''"
| "error_text InvalidUploadId = ''Invalid multipart upload ID''"
| "error_text NoSuchUpload = ''No such upload''"
| "error_text InvalidPartNumber = ''Invalid part number''"
| "error_text InvalidPartOrder = ''Invalid part order''"
| "error_text EntityTooSmall = ''Your proposed upload is smaller than the minimum allowed object size''"
| "error_text EntityTooLarge = ''Your proposed upload exceeds the maximum allowed object size''"
| "error_text IncompleteMultipartUpload = ''Incomplete multipart upload''"
| "error_text BadDigest = ''The checksum does not match the uploaded bytes''"
| "error_text PreconditionFailed = ''The publication precondition failed''"
| "error_text NoSuchVersion = ''No such version''"
| "error_text NoSuchLifecycleConfiguration = ''No such lifecycle configuration''"
| "error_text (InvalidPolicy _) = ''Invalid policy''"
| "error_text (InternalError _) = ''Internal server error''"
| "error_text SignatureDoesNotMatch = ''Signature does not match''"
| "error_text MessageNotFound = ''Message not found''"
| "error_text CaptureTooLarge = ''Projected materialized capture exceeds the local 64 MiB aggregate limit''"

text \<open>
  The error code determines the status: two errors that a client cannot tell apart by code
  are never sent with different statuses.
\<close>

lemma error_code_determines_status:
  "error_code e = error_code e' \<Longrightarrow> status_code e = status_code e'"
  by (cases e; cases e') simp_all

end
