(* ===== verification/Models.thy ===== *)
theory Models
  imports Errors
begin

text \<open>
  The data model (\<^verbatim>\<open>src/src/models\<close>): buckets, objects, multipart uploads, ACLs, policy
  documents and lifecycle rules, and the record \<open>externs\<close> of the library functions the code
  calls (hashes, UUIDs, the clock, text codecs). Those functions are not part of the repository;
  they stay parameters everywhere and carry no assumption unless a statement names one.

  A \<^verbatim>\<open>HashMap\<close> is a partial function. A \<^verbatim>\<open>DateTime<Utc>\<close> is the number of nanoseconds since the
  Unix epoch.
\<close>

type_synonym datetime = int
type_synonym strmap = "string \<rightharpoonup> string"
type_synonym f64 = "64 word" \<comment> \<open>the IEEE bit pattern\<close>

record upload_cancellation =
  uc_session_id :: string
  uc_bucket :: string
  uc_bucket_created_at :: datetime
  uc_expires_at :: datetime

record externs =
  ext_now :: "nat \<Rightarrow> datetime"            \<comment> \<open>the n-th reading of the clock\<close>
  ext_uuid :: "nat \<Rightarrow> string"             \<comment> \<open>the n-th \<open>Uuid::new_v4()\<close>, as text\<close>
  ext_is_uuid :: "string \<Rightarrow> bool"         \<comment> \<open>\<open>Uuid::parse_str(_).is_ok()\<close>\<close>
  ext_md5 :: "bytes \<Rightarrow> bytes"
  ext_sha256_hex :: "string \<Rightarrow> string"
  ext_hash64 :: "string \<Rightarrow> string \<Rightarrow> nat"   \<comment> \<open>\<open>DefaultHasher\<close> of a pair\<close>
  ext_crc32c_append :: "nat \<Rightarrow> bytes \<Rightarrow> nat"
  ext_base64 :: "bytes \<Rightarrow> string"
  ext_json_strmap :: "string \<Rightarrow> strmap option"
  ext_url_decode :: "string \<Rightarrow> string option"
  ext_to_lowercase :: "string \<Rightarrow> string"
  ext_parse_f64 :: "string \<Rightarrow> f64 option"
  ext_parse_rfc3339 :: "string \<Rightarrow> datetime option"
  ext_parse_rfc2822 :: "string \<Rightarrow> datetime option"
  ext_parse_ymd :: "string \<Rightarrow> datetime option" \<comment> \<open>midnight UTC of a \<open>%Y-%m-%d\<close> date\<close>
  ext_json_cancellation :: "bytes \<Rightarrow> upload_cancellation option"
  ext_file_time :: "string list \<Rightarrow> datetime option" \<comment> \<open>creation or modification time of a file\<close>

section \<open>Access control lists and policy documents\<close>

datatype canned_acl =
  Private | PublicRead | PublicReadWrite | AuthenticatedRead | BucketOwnerRead
  | BucketOwnerFullControl

datatype permission = Read | Write | ReadAcp | WriteAcp | FullControl

datatype grantee = CanonicalUser string "string option" | Group string

record grant =
  grantee :: grantee
  permission :: permission

record acl =
  canned :: canned_acl
  grants :: "grant list"

definition acl_default :: acl where
  "acl_default = \<lparr>canned = Private, grants = []\<rparr>"

text \<open>A \<^verbatim>\<open>serde_json::Value\<close>; a number is its rendering, all the code ever takes of it.\<close>

datatype json =
    JNull | JBool bool | JNumber string | JString string | JArray "json list"
  | JObject "(string \<times> json) list"

datatype string_or_array = Single string | Multiple "string list"
datatype principal = AllPrincipals string | AWS string_or_array

record policy_statement_document =
  sid :: "string option"
  effect :: string
  principal :: principal
  action :: string_or_array
  resource :: string_or_array
  condition :: "json option"

record bucket_policy_document =
  policy_version :: string
  statement :: "policy_statement_document list"

section \<open>Lifecycle configuration\<close>

datatype rule_status = Enabled | Disabled
datatype storage_class = Standard | Glacier | DeepArchive

record tag =
  tag_key :: string
  tag_value :: string

record lifecycle_filter =
  filter_prefix :: "string option"
  filter_tags :: "tag list"

record expiration =
  exp_days :: "nat option"
  exp_date :: "string option"
  exp_delete_marker :: "bool option"

record transition =
  tr_days :: "nat option"
  tr_date :: "string option"
  tr_storage_class :: storage_class

record noncurrent_version_expiration =
  noncurrent_days :: nat

record rule =
  rule_id :: "string option"
  rule_status :: rule_status
  rule_filter :: "lifecycle_filter option"
  rule_expiration :: "expiration option"
  rule_noncurrent :: "noncurrent_version_expiration option"
  rule_transitions :: "transition list"

record lifecycle_configuration =
  rules :: "rule list"

fun tags_match :: "strmap \<Rightarrow> tag list \<Rightarrow> bool" where
  "tags_match tags [] = True"
| "tags_match tags (t # ts) =
     (case tags (tag_key t) of
        Some value \<Rightarrow> if value = tag_value t then tags_match tags ts else False
      | None \<Rightarrow> False)"

definition filter_matches :: "lifecycle_filter \<Rightarrow> string \<Rightarrow> strmap \<Rightarrow> bool" where
  "filter_matches f key tags =
     (case filter_prefix f of
        Some p \<Rightarrow> if \<not> prefix p key then False else tags_match tags (filter_tags f)
      | None \<Rightarrow> tags_match tags (filter_tags f))"

section \<open>Objects, buckets and uploads\<close>

record object =
  obj_key :: string
  obj_data :: bytes
  obj_size :: nat
  obj_etag :: string
  obj_content_type :: string
  obj_last_modified :: datetime
  obj_version_id :: "string option"
  obj_storage_class :: string
  obj_metadata :: strmap
  obj_tags :: strmap
  obj_acl :: "acl option"
  obj_provider_metadata :: strmap

text \<open>\<^verbatim>\<open>#[serde(skip_serializing)]\<close> drops the payload from the metadata document.\<close>

definition serialize_object :: "object \<Rightarrow> object" where
  "serialize_object ob = ob\<lparr>obj_data := []\<rparr>"

record policy_statement =
  ps_effect :: string
  ps_principal :: string
  ps_action :: "string list"
  ps_resource :: "string list"
  ps_condition :: "(string \<rightharpoonup> string \<rightharpoonup> string list) option"

record bucket_policy =
  bp_version :: string
  bp_statements :: "policy_statement list"

record lifecycle_expiration =
  le_days :: nat
  le_date :: "datetime option"
  le_expired_object_delete_marker :: bool

record lifecycle_rule =
  lr_id :: string
  lr_prefix :: string
  lr_status :: string
  lr_expiration :: "lifecycle_expiration option"

record bucket =
  bucket_name :: string
  created_at :: datetime
  modified_at :: datetime
  versioning_enabled :: bool
  bucket_policy :: "bucket_policy option"
  bucket_lifecycle_rules :: "lifecycle_rule list"
  bucket_metadata :: strmap
  bucket_acl :: "acl option"

record part =
  part_number :: nat
  part_etag :: string
  part_size :: nat
  part_crc32c :: "nat option"
  part_last_modified :: datetime

record multipart_upload =
  upload_id :: string
  upload_key :: string
  initiated :: datetime
  upload_content_type :: "string option"
  upload_metadata :: strmap
  upload_provider_metadata :: strmap
  parts :: "part list"

record list_objects_result =
  common_prefixes :: "string list"
  objects :: "object list"
  is_truncated :: bool
  next_marker :: "string option"

section \<open>Hexadecimal text\<close>

definition hex_digit :: "nat \<Rightarrow> char" where
  "hex_digit d = char_of (if d < 10 then 48 + d else 87 + d)"

definition hex_byte :: "byte \<Rightarrow> string" where
  "hex_byte b = [hex_digit (unat b div 16), hex_digit (unat b mod 16)]"

definition hex_encode :: "bytes \<Rightarrow> string" where
  "hex_encode bs = concat (map hex_byte bs)"

definition hex_value :: "char \<Rightarrow> nat option" where
  "hex_value c =
     (let n = of_char c in
      if 48 \<le> n \<and> n \<le> 57 then Some (n - 48)
      else if 97 \<le> n \<and> n \<le> 102 then Some (n - 87)
      else if 65 \<le> n \<and> n \<le> 70 then Some (n - 55)
      else None)"

fun hex_decode :: "string \<Rightarrow> bytes option" where
  "hex_decode [] = Some []"
| "hex_decode [c] = None"
| "hex_decode (a # b # s) =
     (case (hex_value a, hex_value b, hex_decode s) of
        (Some x, Some y, Some bs) \<Rightarrow> Some (word_of_nat (x * 16 + y) # bs)
      | _ \<Rightarrow> None)"

text \<open>\<^verbatim>\<open>format!("{:x}", n)\<close> of an unsigned integer.\<close>

fun lower_hex :: "nat \<Rightarrow> string" where
  "lower_hex n = (if n < 16 then [hex_digit n] else lower_hex (n div 16) @ [hex_digit (n mod 16)])"

declare lower_hex.simps [simp del]

definition compute_etag :: "externs \<Rightarrow> bytes \<Rightarrow> string" where
  "compute_etag x data = hex_encode (ext_md5 x data)"

definition new_with_metadata_and_etag ::
    "string \<Rightarrow> bytes \<Rightarrow> string \<Rightarrow> strmap \<Rightarrow> string \<Rightarrow> datetime \<Rightarrow> object" where
  "new_with_metadata_and_etag key data content_type metadata etag now =
     \<lparr>obj_key = key, obj_data = data, obj_size = length data, obj_etag = etag,
      obj_content_type = content_type, obj_last_modified = now, obj_version_id = None,
      obj_storage_class = ''STANDARD'', obj_metadata = metadata, obj_tags = Map.empty,
      obj_acl = None, obj_provider_metadata = Map.empty\<rparr>"

definition new_with_metadata ::
    "externs \<Rightarrow> string \<Rightarrow> bytes \<Rightarrow> string \<Rightarrow> strmap \<Rightarrow> datetime \<Rightarrow> object" where
  "new_with_metadata x key data content_type metadata now =
     new_with_metadata_and_etag key data content_type metadata (compute_etag x data) now"

definition new_object :: "externs \<Rightarrow> string \<Rightarrow> bytes \<Rightarrow> string \<Rightarrow> datetime \<Rightarrow> object" where
  "new_object x key data content_type now =
     new_with_metadata x key data content_type Map.empty now"

definition new_multipart_upload ::
    "string \<Rightarrow> string \<Rightarrow> datetime \<Rightarrow> string option \<Rightarrow> strmap \<Rightarrow> strmap \<Rightarrow> multipart_upload" where
  "new_multipart_upload uid key now content_type metadata provider_metadata =
     \<lparr>upload_id = uid, upload_key = key, initiated = now, upload_content_type = content_type,
      upload_metadata = metadata, upload_provider_metadata = provider_metadata, parts = []\<rparr>"

definition new_bucket :: "string \<Rightarrow> datetime \<Rightarrow> bucket" where
  "new_bucket name now =
     \<lparr>bucket_name = name, created_at = now, modified_at = now, versioning_enabled = False,
      bucket_policy = None, bucket_lifecycle_rules = [], bucket_metadata = Map.empty,
      bucket_acl = None\<rparr>"

section \<open>Lemmas\<close>

lemma tags_match_iff: "tags_match tags ts \<longleftrightarrow> (\<forall>t \<in> set ts. tags (tag_key t) = Some (tag_value t))"
  by (induction ts) (auto split: option.splits)

lemma filter_matches_iff:
  "filter_matches f key tags \<longleftrightarrow>
     (\<forall>p. filter_prefix f = Some p \<longrightarrow> prefix p key) \<and>
     (\<forall>t \<in> set (filter_tags f). tags (tag_key t) = Some (tag_value t))"
  by (auto simp: filter_matches_def tags_match_iff split: option.splits)

lemma hex_value_digit: "d < 16 \<Longrightarrow> hex_value (hex_digit d) = Some d"
  by (auto simp: hex_value_def hex_digit_def Let_def)

lemma hex_roundtrip: "hex_decode (hex_encode bs) = Some bs"
proof (induction bs)
  case Nil
  then show ?case by (simp add: hex_encode_def)
next
  case (Cons b bs)
  have "unat b < 2 ^ LENGTH(8)" by (rule unsigned_less)
  then have "unat b div 16 < 16" by simp
  with Cons show ?case
    by (simp add: hex_encode_def hex_byte_def hex_value_digit)
qed

lemma hex_encode_inj: "hex_encode a = hex_encode b \<Longrightarrow> a = b"
  by (metis hex_roundtrip option.inject)

end
