(* ===== verification/Policy.thy ===== *)
theory Policy
  imports Models
begin

text \<open>
  The authorizer (\<^verbatim>\<open>src/src/models/policy.rs\<close>): canned ACLs and grants, and the evaluation of
  bucket policy documents with their principals, actions, resources and condition operators.

  The iterative wildcard matcher is kept with its index variables and its backtracking state, and
  compared with a declarative relation \<open>glob_matches\<close>. Floating-point comparison works on IEEE
  bit patterns.
\<close>

section \<open>Access control lists\<close>

definition all_users :: string where
  "all_users = ''http://acs.amazonaws.com/groups/global/AllUsers''"

definition authenticated_users :: string where
  "authenticated_users = ''http://acs.amazonaws.com/groups/global/AuthenticatedUsers''"

definition to_grants :: "acl \<Rightarrow> string \<Rightarrow> grant list" where
  "to_grants a owner_id =
     (if grants a \<noteq> [] then grants a
      else let owner = \<lparr>grantee = CanonicalUser owner_id None, permission = FullControl\<rparr> in
       case canned a of
         Private \<Rightarrow> [owner]
       | BucketOwnerRead \<Rightarrow> [owner]
       | BucketOwnerFullControl \<Rightarrow> [owner]
       | PublicRead \<Rightarrow> [owner, \<lparr>grantee = Group all_users, permission = Read\<rparr>]
       | PublicReadWrite \<Rightarrow>
           [owner, \<lparr>grantee = Group all_users, permission = Read\<rparr>,
            \<lparr>grantee = Group all_users, permission = Write\<rparr>]
       | AuthenticatedRead \<Rightarrow> [owner, \<lparr>grantee = Group authenticated_users, permission = Read\<rparr>])"

record auth_context =
  ctx_principal :: string
  ctx_is_authenticated :: bool
  ctx_action :: string
  ctx_resource :: string
  ctx_bucket_owner :: "string option"
  ctx_object_owner :: "string option"
  ctx_request_headers :: strmap
  ctx_query_params :: strmap
  ctx_existing_object_tags :: strmap

definition anonymous :: "string \<Rightarrow> string \<Rightarrow> auth_context" where
  "anonymous act res =
     \<lparr>ctx_principal = ''*'', ctx_is_authenticated = False, ctx_action = act, ctx_resource = res,
      ctx_bucket_owner = None, ctx_object_owner = None, ctx_request_headers = Map.empty,
      ctx_query_params = Map.empty, ctx_existing_object_tags = Map.empty\<rparr>"

definition authenticated :: "string \<Rightarrow> string \<Rightarrow> string \<Rightarrow> auth_context" where
  "authenticated prin act res =
     \<lparr>ctx_principal = prin, ctx_is_authenticated = True, ctx_action = act, ctx_resource = res,
      ctx_bucket_owner = None, ctx_object_owner = None, ctx_request_headers = Map.empty,
      ctx_query_params = Map.empty, ctx_existing_object_tags = Map.empty\<rparr>"

fun permission_covers_action :: "permission \<Rightarrow> string \<Rightarrow> bool" where
  "permission_covers_action FullControl act = True"
| "permission_covers_action Read act = (sublist ''GetObject'' act \<or> sublist ''ListBucket'' act)"
| "permission_covers_action Write act = (sublist ''PutObject'' act \<or> sublist ''DeleteObject'' act)"
| "permission_covers_action ReadAcp act = (sublist ''GetObjectAcl'' act \<or> sublist ''GetBucketAcl'' act)"
| "permission_covers_action WriteAcp act = (sublist ''PutObjectAcl'' act \<or> sublist ''PutBucketAcl'' act)"

definition grant_matches :: "grant \<Rightarrow> auth_context \<Rightarrow> bool" where
  "grant_matches g ctx =
     (let grantee_matches =
        (case grantee g of
           CanonicalUser i _ \<Rightarrow> ctx_principal ctx = i
         | Group uri \<Rightarrow>
             if uri = all_users then True
             else if uri = authenticated_users then ctx_is_authenticated ctx
             else False)
      in if \<not> grantee_matches then False else permission_covers_action (permission g) (ctx_action ctx))"

definition check_acl_permission :: "acl \<Rightarrow> string \<Rightarrow> auth_context \<Rightarrow> bool" where
  "check_acl_permission a owner_id ctx = list_ex (\<lambda>g. grant_matches g ctx) (to_grants a owner_id)"

section \<open>Wildcards\<close>

text \<open>
  The matcher works on vectors of scalar values; \<open>pi\<close>, \<open>vi\<close>, \<open>star\<close> and \<open>mi\<close> are
  \<^verbatim>\<open>pattern_index\<close>, \<^verbatim>\<open>value_index\<close>, \<^verbatim>\<open>star_index\<close> and \<^verbatim>\<open>match_index\<close>.
\<close>

definition skip_stars :: "string list \<Rightarrow> nat \<Rightarrow> nat" where
  "skip_stars p pi = pi + length (takeWhile (\<lambda>c. c = ''*'') (drop pi p))"

function wildcard_loop ::
    "string list \<Rightarrow> string list \<Rightarrow> nat \<Rightarrow> nat \<Rightarrow> nat option \<Rightarrow> nat \<Rightarrow> bool" where
  "wildcard_loop p v pi vi star mi =
     (if vi < length v then
        if pi < length p \<and> (p ! pi = ''?'' \<or> p ! pi = v ! vi) then
          wildcard_loop p v (pi + 1) (vi + 1) star mi
        else if pi < length p \<and> p ! pi = ''*'' then
          wildcard_loop p v (pi + 1) vi (Some pi) vi
        else (case star of
                Some s \<Rightarrow> wildcard_loop p v (s + 1) (mi + 1) star (mi + 1)
              | None \<Rightarrow> False)
      else skip_stars p pi = length p)"
  by pat_completeness auto
termination
  by (relation "measures [\<lambda>(p, v, pi, vi, star, mi). if mi \<le> vi then 0 else 1,
        \<lambda>(p, v, pi, vi, star, mi). length v - mi, \<lambda>(p, v, pi, vi, star, mi). length p - pi]")
    (auto split: if_splits)

declare wildcard_loop.simps [simp del]

definition wildcard_match :: "string \<Rightarrow> string \<Rightarrow> bool" where
  "wildcard_match pattern value = wildcard_loop (utf8_chars pattern) (utf8_chars value) 0 0 None 0"

section \<open>Condition operators\<close>

definition f64_magnitude :: "f64 \<Rightarrow> nat" where
  "f64_magnitude w = unat w mod 2 ^ 63"

definition f64_is_nan :: "f64 \<Rightarrow> bool" where
  "f64_is_nan w \<longleftrightarrow> 0x7FF0000000000000 < f64_magnitude w"

definition f64_order :: "f64 \<Rightarrow> int" where
  "f64_order w = (if 2 ^ 63 \<le> unat w then - int (f64_magnitude w) else int (f64_magnitude w))"

definition f64_lt :: "f64 \<Rightarrow> f64 \<Rightarrow> bool" where
  "f64_lt a b \<longleftrightarrow> \<not> f64_is_nan a \<and> \<not> f64_is_nan b \<and> f64_order a < f64_order b"

definition f64_le :: "f64 \<Rightarrow> f64 \<Rightarrow> bool" where
  "f64_le a b \<longleftrightarrow> \<not> f64_is_nan a \<and> \<not> f64_is_nan b \<and> f64_order a \<le> f64_order b"

text \<open>\<^verbatim>\<open>total_cmp\<close> answers \<^verbatim>\<open>Equal\<close> on identical bit patterns only.\<close>

abbreviation f64_total_eq :: "f64 \<Rightarrow> f64 \<Rightarrow> bool" where
  "f64_total_eq a b \<equiv> a = b"

datatype numeric_condition =
  Equals | NotEquals | LessThan | LessThanEquals | GreaterThan | GreaterThanEquals

definition parse_bool :: "string \<Rightarrow> bool option" where
  "parse_bool value =
     (let s = to_ascii_lowercase (str_trim value) in
      if s = ''true'' \<or> s = ''1'' \<or> s = ''on'' then Some True
      else if s = ''false'' \<or> s = ''0'' \<or> s = ''off'' then Some False
      else None)"

definition null_condition_matches :: "string list \<Rightarrow> string list \<Rightarrow> bool" where
  "null_condition_matches request_values expected_values =
     (let is_missing = (request_values = []) in
      list_ex (\<lambda>expected_missing. expected_missing = is_missing)
        (List.map_filter parse_bool expected_values))"

definition bool_condition_matches :: "string list \<Rightarrow> string list \<Rightarrow> bool" where
  "bool_condition_matches request_values expected_values =
     (if request_values = [] then False
      else let expected_bools = List.map_filter parse_bool expected_values in
           list_ex (\<lambda>r. case parse_bool r of Some b \<Rightarrow> b \<in> set expected_bools | None \<Rightarrow> False)
             request_values)"

definition string_condition_matches :: "string list \<Rightarrow> string list \<Rightarrow> bool \<Rightarrow> bool" where
  "string_condition_matches request_values expected_values negated =
     (if request_values = [] then negated
      else if negated then
        list_all (\<lambda>r. list_all (\<lambda>e. r \<noteq> e) expected_values) request_values
      else list_ex (\<lambda>r. list_ex (\<lambda>e. r = e) expected_values) request_values)"

definition wildcard_condition_matches :: "string list \<Rightarrow> string list \<Rightarrow> bool \<Rightarrow> bool" where
  "wildcard_condition_matches request_values expected_values negated =
     (if request_values = [] then negated
      else if negated then
        list_all (\<lambda>r. list_all (\<lambda>e. \<not> wildcard_match e r) expected_values) request_values
      else list_ex (\<lambda>r. list_ex (\<lambda>e. wildcard_match e r) expected_values) request_values)"

definition is_some_and :: "('a \<Rightarrow> bool) \<Rightarrow> 'a option \<Rightarrow> bool" where
  "is_some_and P m = (case m of Some a \<Rightarrow> P a | None \<Rightarrow> False)"

definition numeric_condition_matches ::
    "externs \<Rightarrow> string list \<Rightarrow> string list \<Rightarrow> numeric_condition \<Rightarrow> bool" where
  "numeric_condition_matches x request_values expected_values cond =
     (if request_values = [] then cond = NotEquals
      else let expected_numbers = List.map_filter (ext_parse_f64 x) expected_values in
       if expected_numbers = [] then False
       else case cond of
         Equals \<Rightarrow> list_ex (\<lambda>r. is_some_and (\<lambda>n. list_ex (\<lambda>e. f64_total_eq n e) expected_numbers)
                      (ext_parse_f64 x r)) request_values
       | NotEquals \<Rightarrow> list_all (\<lambda>r. is_some_and (\<lambda>n. list_all (\<lambda>e. \<not> f64_total_eq n e) expected_numbers)
                      (ext_parse_f64 x r)) request_values
       | LessThan \<Rightarrow> list_ex (\<lambda>r. is_some_and (\<lambda>n. list_ex (\<lambda>e. f64_lt n e) expected_numbers)
                      (ext_parse_f64 x r)) request_values
       | LessThanEquals \<Rightarrow> list_ex (\<lambda>r. is_some_and (\<lambda>n. list_ex (\<lambda>e. f64_le n e) expected_numbers)
                      (ext_parse_f64 x r)) request_values
       | GreaterThan \<Rightarrow> list_ex (\<lambda>r. is_some_and (\<lambda>n. list_ex (\<lambda>e. f64_lt e n) expected_numbers)
                      (ext_parse_f64 x r)) request_values
       | GreaterThanEquals \<Rightarrow> list_ex (\<lambda>r. is_some_and (\<lambda>n. list_ex (\<lambda>e. f64_le e n) expected_numbers)
                      (ext_parse_f64 x r)) request_values)"

fun json_scalar_to_string :: "json \<Rightarrow> string option" where
  "json_scalar_to_string (JString s) = Some s"
| "json_scalar_to_string (JBool b) = Some (if b then ''true'' else ''false'')"
| "json_scalar_to_string (JNumber s) = Some s"
| "json_scalar_to_string _ = None"

fun json_scalars_to_strings :: "json list \<Rightarrow> string list \<Rightarrow> string list option" where
  "json_scalars_to_strings [] strings = Some strings"
| "json_scalars_to_strings (v # vs) strings =
     (case json_scalar_to_string v of
        Some s \<Rightarrow> json_scalars_to_strings vs (strings @ [s])
      | None \<Rightarrow> None)"

definition json_values_to_strings :: "json \<Rightarrow> string list option" where
  "json_values_to_strings value =
     (case value of
        JArray values \<Rightarrow> json_scalars_to_strings values []
      | v \<Rightarrow> map_option (\<lambda>s. [s]) (json_scalar_to_string v))"

definition url_decode_or_default :: "externs \<Rightarrow> string \<Rightarrow> string" where
  "url_decode_or_default x s = (case ext_url_decode x s of Some t \<Rightarrow> t | None \<Rightarrow> '''')"

fun insert_pairs :: "externs \<Rightarrow> string list \<Rightarrow> strmap \<Rightarrow> strmap" where
  "insert_pairs x [] values = values"
| "insert_pairs x (pair # ps) values =
     (if pair = '''' then insert_pairs x ps values
      else case split_once (CHR ''='') pair of
        None \<Rightarrow> insert_pairs x ps values
      | Some (key, raw_value) \<Rightarrow>
          insert_pairs x ps
            (values(url_decode_or_default x key \<mapsto> url_decode_or_default x raw_value)))"

definition parse_key_value_pairs :: "externs \<Rightarrow> string \<Rightarrow> strmap" where
  "parse_key_value_pairs x input = insert_pairs x (split_on (CHR ''&'') input) Map.empty"

abbreviation first_field :: "string \<Rightarrow> string" where
  "first_field value \<equiv> hd (split_on (CHR '','') value)"

definition secure_transport_value :: "auth_context \<Rightarrow> bool" where
  "secure_transport_value ctx =
     (case ctx_request_headers ctx ''x-forwarded-proto'' of
        Some value \<Rightarrow> eq_ignore_ascii_case (str_trim (first_field value)) ''https''
      | None \<Rightarrow>
     (case ctx_request_headers ctx ''x-forwarded-ssl'' of
        Some value \<Rightarrow> eq_ignore_ascii_case value ''on'' \<or> eq_ignore_ascii_case value ''true'' \<or> value = ''1''
      | None \<Rightarrow>
     (case ctx_request_headers ctx ''x-forwarded-scheme'' of
        Some value \<Rightarrow> eq_ignore_ascii_case value ''https''
      | None \<Rightarrow> False)))"

definition or_else :: "'a option \<Rightarrow> 'a option \<Rightarrow> 'a option" where
  "or_else a b = (case a of Some v \<Rightarrow> Some v | None \<Rightarrow> b)"

definition option_list :: "'a option \<Rightarrow> 'a list" where
  "option_list a = (case a of Some v \<Rightarrow> [v] | None \<Rightarrow> [])"

definition source_ip_values :: "auth_context \<Rightarrow> string list" where
  "source_ip_values ctx =
     (case or_else (ctx_request_headers ctx ''x-forwarded-for'') (ctx_request_headers ctx ''x-real-ip'') of
        Some value \<Rightarrow>
          (let v = str_trim (first_field value) in if v \<noteq> '''' then [v] else [])
      | None \<Rightarrow> [])"

definition request_object_tag_values :: "externs \<Rightarrow> auth_context \<Rightarrow> string \<Rightarrow> string list" where
  "request_object_tag_values x ctx tk =
     (case ctx_request_headers ctx ''x-amz-tagging'' of
        Some tagging \<Rightarrow> option_list (parse_key_value_pairs x tagging tk)
      | None \<Rightarrow> [])"

definition values_for_condition_key :: "externs \<Rightarrow> string \<Rightarrow> auth_context \<Rightarrow> string list" where
  "values_for_condition_key x key ctx =
     (if key = ''aws:PrincipalArn'' \<or> key = ''aws:userid'' then [ctx_principal ctx]
      else if key = ''aws:PrincipalType'' then
        [if ctx_is_authenticated ctx then ''Authenticated'' else ''Anonymous'']
      else if key = ''aws:SecureTransport'' then
        [if secure_transport_value ctx then ''true'' else ''false'']
      else if key = ''aws:SourceIp'' then source_ip_values ctx
      else if prefix ''s3:ExistingObjectTag/'' key then
        option_list (ctx_existing_object_tags ctx (trim_start_matches ''s3:ExistingObjectTag/'' key))
      else if prefix ''s3:RequestObjectTag/'' key then
        request_object_tag_values x ctx (trim_start_matches ''s3:RequestObjectTag/'' key)
      else if prefix ''s3:'' key then
        (let suffix = ext_to_lowercase x (trim_start_matches ''s3:'' key) in
         option_list (or_else (ctx_query_params ctx suffix) (ctx_request_headers ctx suffix)))
      else
        (let lowered = ext_to_lowercase x key in
         option_list (or_else (ctx_request_headers ctx lowered) (ctx_query_params ctx lowered))))"

definition condition_key_matches :: "externs \<Rightarrow> string \<Rightarrow> string \<Rightarrow> json \<Rightarrow> auth_context \<Rightarrow> bool" where
  "condition_key_matches x operator key expected ctx =
     (let request_values = values_for_condition_key x key ctx in
      case json_values_to_strings expected of
        None \<Rightarrow> False
      | Some expected_values \<Rightarrow>
         if expected_values = [] then False
         else if operator = ''Null'' then null_condition_matches request_values expected_values
         else if operator = ''Bool'' then bool_condition_matches request_values expected_values
         else if operator = ''StringEquals'' \<or> operator = ''ArnEquals'' then
           string_condition_matches request_values expected_values False
         else if operator = ''StringNotEquals'' \<or> operator = ''ArnNotEquals'' then
           string_condition_matches request_values expected_values True
         else if operator = ''StringLike'' \<or> operator = ''ArnLike'' then
           wildcard_condition_matches request_values expected_values False
         else if operator = ''StringNotLike'' \<or> operator = ''ArnNotLike'' then
           wildcard_condition_matches request_values expected_values True
         else if operator = ''NumericEquals'' then
           numeric_condition_matches x request_values expected_values Equals
         else if operator = ''NumericNotEquals'' then
           numeric_condition_matches x request_values expected_values NotEquals
         else if operator = ''NumericLessThan'' then
           numeric_condition_matches x request_values expected_values LessThan
         else if operator = ''NumericLessThanEquals'' then
           numeric_condition_matches x request_values expected_values LessThanEquals
         else if operator = ''NumericGreaterThan'' then
           numeric_condition_matches x request_values expected_values GreaterThan
         else if operator = ''NumericGreaterThanEquals'' then
           numeric_condition_matches x request_values expected_values GreaterThanEquals
         else False)"

definition condition_operator_matches :: "externs \<Rightarrow> string \<Rightarrow> json \<Rightarrow> auth_context \<Rightarrow> bool" where
  "condition_operator_matches x operator operands ctx =
     (case operands of
        JObject operand_map \<Rightarrow>
          list_all (\<lambda>(key, expected). condition_key_matches x operator key expected ctx) operand_map
      | _ \<Rightarrow> False)"

definition conditions_match :: "externs \<Rightarrow> json option \<Rightarrow> auth_context \<Rightarrow> bool" where
  "conditions_match x cond ctx =
     (case cond of
        None \<Rightarrow> True
      | Some (JObject condition_map) \<Rightarrow>
          list_all (\<lambda>(operator, operands). condition_operator_matches x operator operands ctx) condition_map
      | Some _ \<Rightarrow> False)"

section \<open>Statements and policies\<close>

fun principal_matches :: "principal \<Rightarrow> auth_context \<Rightarrow> bool" where
  "principal_matches (AllPrincipals s) ctx = (s = ''*'')"
| "principal_matches (AWS (Single p)) ctx = (p = ctx_principal ctx \<or> p = ''*'')"
| "principal_matches (AWS (Multiple ps)) ctx = (ctx_principal ctx \<in> set ps \<or> ''*'' \<in> set ps)"

definition ends_with_star :: "string \<Rightarrow> bool" where
  "ends_with_star s \<longleftrightarrow> suffix ''*'' s"

definition check_action :: "string \<Rightarrow> string \<Rightarrow> bool" where
  "check_action context_action act =
     (if act = ''*'' \<or> act = ''s3:*'' then True
      else if ends_with_star act then prefix (trim_end_char (CHR ''*'') act) context_action
      else act = context_action)"

fun action_matches :: "string_or_array \<Rightarrow> string \<Rightarrow> bool" where
  "action_matches (Single act) context_action = check_action context_action act"
| "action_matches (Multiple acts) context_action = list_ex (check_action context_action) acts"

definition check_resource :: "string \<Rightarrow> string \<Rightarrow> bool" where
  "check_resource context_resource res =
     (if res = ''*'' then True
      else if ends_with_star res then prefix (trim_end_char (CHR ''*'') res) context_resource
      else res = context_resource)"

fun resource_matches :: "string_or_array \<Rightarrow> string \<Rightarrow> bool" where
  "resource_matches (Single res) context_resource = check_resource context_resource res"
| "resource_matches (Multiple ress) context_resource = list_ex (check_resource context_resource) ress"

definition statement_applies :: "externs \<Rightarrow> policy_statement_document \<Rightarrow> auth_context \<Rightarrow> bool" where
  "statement_applies x st ctx =
     (if \<not> principal_matches (principal st) ctx then False
      else if \<not> action_matches (action st) (ctx_action ctx) then False
      else if \<not> resource_matches (resource st) (ctx_resource ctx) then False
      else if \<not> conditions_match x (condition st) ctx then False
      else True)"

datatype policy_effect = Allow | Deny | Neutral

fun evaluate_statements ::
    "externs \<Rightarrow> auth_context \<Rightarrow> policy_statement_document list \<Rightarrow> bool \<Rightarrow> bool \<Rightarrow> bool \<times> bool" where
  "evaluate_statements x ctx [] has_allow has_deny = (has_allow, has_deny)"
| "evaluate_statements x ctx (st # sts) has_allow has_deny =
     (if \<not> statement_applies x st ctx then evaluate_statements x ctx sts has_allow has_deny
      else if effect st = ''Allow'' then evaluate_statements x ctx sts True has_deny
      else if effect st = ''Deny'' then evaluate_statements x ctx sts has_allow True
      else evaluate_statements x ctx sts has_allow has_deny)"

definition evaluate_policy :: "externs \<Rightarrow> bucket_policy_document \<Rightarrow> auth_context \<Rightarrow> policy_effect" where
  "evaluate_policy x policy ctx =
     (let (has_allow, has_deny) = evaluate_statements x ctx (statement policy) False False in
      if has_deny then Deny else if has_allow then Allow else Neutral)"

section \<open>Declarative glob patterns\<close>

inductive glob_matches :: "string list \<Rightarrow> string list \<Rightarrow> bool" where
  glob_empty: "glob_matches [] []"
| glob_any: "glob_matches p v \<Longrightarrow> glob_matches (''?'' # p) (c # v)"
| glob_char: "glob_matches p v \<Longrightarrow> glob_matches (c # p) (c # v)"
| glob_star: "glob_matches p v \<Longrightarrow> glob_matches (''*'' # p) (w @ v)"

inductive_cases glob_NilE: "glob_matches [] v"
inductive_cases glob_ConsE: "glob_matches (x # p) v"

lemma glob_Nil [simp]: "glob_matches [] v \<longleftrightarrow> v = []"
  by (auto elim: glob_NilE intro: glob_matches.intros)

lemma glob_star_iff: "glob_matches (''*'' # p) v \<longleftrightarrow> (\<exists>k \<le> length v. glob_matches p (drop k v))"
proof
  assume "glob_matches (''*'' # p) v"
  then show "\<exists>k \<le> length v. glob_matches p (drop k v)"
  proof (rule glob_ConsE)
    fix v' assume "v = ''*'' # v'" "glob_matches p v'"
    then show ?thesis by (intro exI [of _ 1]) simp
  next
    fix w v' assume "v = w @ v'" "glob_matches p v'"
    then show ?thesis by (intro exI [of _ "length w"]) simp
  qed simp
next
  assume "\<exists>k \<le> length v. glob_matches p (drop k v)"
  then obtain k where "glob_matches p (drop k v)" by blast
  from glob_star [OF this, of "take k v"] show "glob_matches (''*'' # p) v" by simp
qed

lemma glob_char_iff:
  "x \<noteq> ''*'' \<Longrightarrow>
   glob_matches (x # p) v \<longleftrightarrow> (\<exists>c v'. v = c # v' \<and> (x = ''?'' \<or> x = c) \<and> glob_matches p v')"
  by (auto elim: glob_ConsE intro: glob_matches.intros)

text \<open>The pattern from \<open>pi\<close> on matches the value from \<open>vi\<close> on.\<close>

abbreviation glob_at :: "string list \<Rightarrow> string list \<Rightarrow> nat \<Rightarrow> nat \<Rightarrow> bool" where
  "glob_at p v pi vi \<equiv> glob_matches (drop pi p) (drop vi v)"

lemma glob_at_end: "pi \<ge> length p \<Longrightarrow> glob_at p v pi vi \<longleftrightarrow> length v \<le> vi"
  by simp

lemma glob_at_char:
  assumes "pi < length p" and "p ! pi \<noteq> ''*''"
  shows "glob_at p v pi vi \<longleftrightarrow>
           vi < length v \<and> (p ! pi = ''?'' \<or> p ! pi = v ! vi) \<and> glob_at p v (Suc pi) (Suc vi)"
proof -
  have "drop pi p = p ! pi # drop (Suc pi) p" using assms by (simp add: Cons_nth_drop_Suc)
  then show ?thesis
    using assms by (cases "vi < length v") (auto simp: glob_char_iff Cons_nth_drop_Suc [symmetric])
qed

lemma glob_at_star:
  assumes "pi < length p" and "p ! pi = ''*''" and "vi \<le> length v"
  shows "glob_at p v pi vi \<longleftrightarrow> (\<exists>k. vi \<le> k \<and> k \<le> length v \<and> glob_at p v (Suc pi) k)"
proof -
  have "drop pi p = ''*'' # drop (Suc pi) p" using assms by (metis Cons_nth_drop_Suc)
  then have "glob_at p v pi vi \<longleftrightarrow> (\<exists>k \<le> length v - vi. glob_at p v (Suc pi) (k + vi))"
    by (simp add: glob_star_iff)
  also have "\<dots> \<longleftrightarrow> (\<exists>k. vi \<le> k \<and> k \<le> length v \<and> glob_at p v (Suc pi) k)"
  proof
    assume "\<exists>k \<le> length v - vi. glob_at p v (Suc pi) (k + vi)"
    then obtain k where "k \<le> length v - vi" "glob_at p v (Suc pi) (k + vi)" by blast
    with assms(3) show "\<exists>k. vi \<le> k \<and> k \<le> length v \<and> glob_at p v (Suc pi) k"
      by (intro exI [of _ "k + vi"]) simp
  next
    assume "\<exists>k. vi \<le> k \<and> k \<le> length v \<and> glob_at p v (Suc pi) k"
    then obtain k where "vi \<le> k" "k \<le> length v" "glob_at p v (Suc pi) k" by blast
    then show "\<exists>k \<le> length v - vi. glob_at p v (Suc pi) (k + vi)"
      by (intro exI [of _ "k - vi"]) simp
  qed
  finally show ?thesis .
qed

lemma glob_at_literal:
  assumes "pi < length p" "vi < length v" "p ! pi = ''?'' \<or> p ! pi = v ! vi"
    and "glob_at p v (Suc pi) (Suc vi)"
  shows "glob_at p v pi vi"
proof -
  have "drop pi p = p ! pi # drop (Suc pi) p" "drop vi v = v ! vi # drop (Suc vi) v"
    using assms by (simp_all add: Cons_nth_drop_Suc)
  with assms(3,4) show ?thesis by (auto intro: glob_any glob_char)
qed

lemma length_takeWhile_all: "length (takeWhile P xs) = length xs \<longleftrightarrow> (\<forall>x \<in> set xs. P x)"
  by (induction xs) auto

lemma skip_stars_eq:
  "pi \<le> length p \<Longrightarrow> skip_stars p pi = length p \<longleftrightarrow> (\<forall>c \<in> set (drop pi p). c = ''*'')"
  using length_takeWhile_all [of "\<lambda>c. c = ''*''" "drop pi p"] by (auto simp: skip_stars_def)

lemma glob_empty_value: "glob_matches p [] \<longleftrightarrow> (\<forall>c \<in> set p. c = ''*'')"
proof (induction p)
  case (Cons x p)
  then show ?case by (cases "x = ''*''") (auto simp: glob_star_iff glob_char_iff)
qed simp

text \<open>A run of pattern characters that are not stars consumes as many characters of the value.\<close>

lemma glob_at_segment:
  assumes "glob_at p v i k" and "\<forall>j. i \<le> j \<and> j < i + n \<longrightarrow> p ! j \<noteq> ''*''"
    and "i + n \<le> length p" and "k \<le> length v"
  shows "k + n \<le> length v \<and> glob_at p v (i + n) (k + n)"
  using assms
proof (induction n)
  case (Suc n)
  then have "k + n \<le> length v \<and> glob_at p v (i + n) (k + n)" by simp
  moreover have "i + n < length p" "p ! (i + n) \<noteq> ''*''" using Suc.prems by auto
  ultimately show ?case using glob_at_char [of "i + n" p "k + n" v] by simp
qed simp

text \<open>What the loop computes from any of its states.\<close>

definition star_retry :: "string list \<Rightarrow> string list \<Rightarrow> nat option \<Rightarrow> nat \<Rightarrow> bool" where
  "star_retry p v star mi \<longleftrightarrow>
     (\<exists>s k. star = Some s \<and> mi < k \<and> k \<le> length v \<and> glob_at p v (Suc s) k)"

lemma wildcard_loop_end:
  "length v \<le> vi \<Longrightarrow> wildcard_loop p v pi vi star mi \<longleftrightarrow> skip_stars p pi = length p"
  by (simp add: wildcard_loop.simps)

lemma wildcard_loop_char:
  "vi < length v \<Longrightarrow> pi < length p \<Longrightarrow> p ! pi = ''?'' \<or> p ! pi = v ! vi \<Longrightarrow>
   wildcard_loop p v pi vi star mi = wildcard_loop p v (Suc pi) (Suc vi) star mi"
  by (subst wildcard_loop.simps) simp

lemma wildcard_loop_star:
  "vi < length v \<Longrightarrow> pi < length p \<Longrightarrow> p ! pi = ''*'' \<Longrightarrow> v ! vi \<noteq> ''*'' \<Longrightarrow>
   wildcard_loop p v pi vi star mi = wildcard_loop p v (Suc pi) vi (Some pi) vi"
  by (subst wildcard_loop.simps) simp

lemma wildcard_loop_retry:
  "vi < length v \<Longrightarrow> \<not> (pi < length p \<and> (p ! pi = ''?'' \<or> p ! pi = v ! vi)) \<Longrightarrow>
   \<not> (pi < length p \<and> p ! pi = ''*'') \<Longrightarrow>
   wildcard_loop p v pi vi star mi =
     (case star of Some s \<Rightarrow> wildcard_loop p v (Suc s) (Suc mi) star (Suc mi) | None \<Rightarrow> False)"
  by (subst wildcard_loop.simps) (simp del: de_Morgan_conj split: option.split)

lemma wildcard_cases:
  assumes "vi \<le> length v"
  obtains (finish) "vi = length v"
    | (char) "vi < length v" "pi < length p" "p ! pi = ''?'' \<or> p ! pi = v ! vi"
    | (star) "vi < length v" "pi < length p" "p ! pi = ''*''" "v ! vi \<noteq> ''*''"
    | (retry) "vi < length v" "\<not> (pi < length p \<and> (p ! pi = ''?'' \<or> p ! pi = v ! vi))"
        "\<not> (pi < length p \<and> p ! pi = ''*'')"
  using assms by (metis le_neq_implies_less)

lemma wildcard_loop_sound:
  "pi \<le> length p \<Longrightarrow> vi \<le> length v \<Longrightarrow> (\<forall>s. star = Some s \<longrightarrow> s < length p \<and> mi \<le> vi) \<Longrightarrow>
   wildcard_loop p v pi vi star mi \<Longrightarrow> glob_at p v pi vi \<or> star_retry p v star mi"
proof (induction p v pi vi star mi rule: wildcard_loop.induct)
  case (1 p v pi vi star mi)
  from "1.prems"(2) show ?case
  proof (cases rule: wildcard_cases [where pi = pi and p = p])
    case finish
    with "1.prems" show ?thesis
      by (simp add: wildcard_loop_end skip_stars_eq glob_empty_value)
  next
    case char
    have "\<forall>s. star = Some s \<longrightarrow> s < length p \<and> mi \<le> Suc vi" using "1.prems"(3) by auto
    with char "1.prems" have "glob_at p v (Suc pi) (Suc vi) \<or> star_retry p v star mi"
      using "1.IH"(1) by (simp add: wildcard_loop_char)
    then show ?thesis using glob_at_literal char by blast
  next
    case star
    with "1.prems" have "glob_at p v (Suc pi) vi \<or> star_retry p v (Some pi) vi"
      using "1.IH"(2) by (simp add: wildcard_loop_star)
    then have "\<exists>k. vi \<le> k \<and> k \<le> length v \<and> glob_at p v (Suc pi) k"
      using "1.prems"(2) by (auto simp: star_retry_def dest: less_imp_le)
    with glob_at_star [of pi p vi v] star show ?thesis by simp
  next
    case retry
    note step = wildcard_loop_retry [OF retry]
    with "1.prems" obtain s where s: "star = Some s" by (auto split: option.splits)
    with "1.IH"(3) [OF retry s] step "1.prems" retry
    have "glob_at p v (Suc s) (Suc mi) \<or> star_retry p v star (Suc mi)" by simp
    then have "star_retry p v star mi"
      using s "1.prems" retry by (fastforce simp: star_retry_def)
    then show ?thesis ..
  qed
qed

text \<open>
  The state of the backtracking loop: the pattern between the last star and \<open>pi\<close> has no star
  and has been matched against the value between \<open>mi\<close> and \<open>vi\<close>.
\<close>

definition star_state :: "string list \<Rightarrow> nat \<Rightarrow> nat \<Rightarrow> nat option \<Rightarrow> nat \<Rightarrow> bool" where
  "star_state p pi vi star mi \<longleftrightarrow>
     (\<forall>s. star = Some s \<longrightarrow>
        s < pi \<and> mi \<le> vi \<and> vi - mi = pi - Suc s \<and> (\<forall>j. s < j \<and> j < pi \<longrightarrow> p ! j \<noteq> ''*''))"

text \<open>A later start after the last star leaves no room for a match that an earlier one misses.\<close>

lemma star_retry_segment:
  assumes "star_state p pi vi star mi" and "star_retry p v star mi" and "pi \<le> length p" "vi \<le> length v"
  shows "\<exists>k. vi < k \<and> k \<le> length v \<and> glob_at p v pi k"
proof -
  from assms(2) obtain s k where sk: "star = Some s" "mi < k" "k \<le> length v" "glob_at p v (Suc s) k"
    by (auto simp: star_retry_def)
  with assms(1) have st: "s < pi" "mi \<le> vi" "vi - mi = pi - Suc s" "\<forall>j. s < j \<and> j < pi \<longrightarrow> p ! j \<noteq> ''*''"
    by (auto simp: star_state_def)
  have "k + (pi - Suc s) \<le> length v \<and> glob_at p v (Suc s + (pi - Suc s)) (k + (pi - Suc s))"
    using sk st assms(3) by (intro glob_at_segment) auto
  with st sk show ?thesis by (intro exI [of _ "k + (pi - Suc s)"]) auto
qed

lemma wildcard_loop_complete:
  "''*'' \<notin> set v \<Longrightarrow> pi \<le> length p \<Longrightarrow> vi \<le> length v \<Longrightarrow> star_state p pi vi star mi \<Longrightarrow>
   glob_at p v pi vi \<or> star_retry p v star mi \<Longrightarrow> wildcard_loop p v pi vi star mi"
proof (induction p v pi vi star mi rule: wildcard_loop.induct)
  case (1 p v pi vi star mi)
  note later = star_retry_segment [OF "1.prems"(4) _ "1.prems"(2,3)]
  from "1.prems"(3) show ?case
  proof (cases rule: wildcard_cases [where pi = pi and p = p])
    case finish
    with "1.prems"(5) later have "glob_at p v pi vi" by auto
    with finish "1.prems"(2) show ?thesis
      by (simp add: wildcard_loop_end skip_stars_eq glob_empty_value)
  next
    case char
    have "v ! vi \<noteq> ''*''" using "1.prems"(1) nth_mem [OF char(1)] by metis
    with char(3) have "p ! pi \<noteq> ''*''" by auto
    then have "glob_at p v pi vi \<longleftrightarrow> glob_at p v (Suc pi) (Suc vi)"
      and "star_state p (Suc pi) (Suc vi) star mi"
      using char glob_at_char [of pi p vi v] "1.prems"(4) by (auto simp: star_state_def less_Suc_eq)
    with "1.IH"(1) "1.prems" char show ?thesis by (simp add: wildcard_loop_char)
  next
    case star
    have "\<exists>k. vi \<le> k \<and> k \<le> length v \<and> glob_at p v (Suc pi) k"
    proof (cases "glob_at p v pi vi")
      case True
      with glob_at_star [of pi p vi v] star show ?thesis by simp
    next
      case False
      with "1.prems"(5) later obtain k where "vi < k" "k \<le> length v" "glob_at p v pi k" by auto
      with glob_at_star [of pi p k v] star show ?thesis by (metis less_imp_le order_trans)
    qed
    then have "glob_at p v (Suc pi) vi \<or> star_retry p v (Some pi) vi"
      by (auto simp: star_retry_def le_less)
    moreover have "star_state p (Suc pi) vi (Some pi) vi" by (auto simp: star_state_def)
    ultimately show ?thesis using "1.IH"(2) "1.prems" star by (simp add: wildcard_loop_star)
  next
    case retry
    then have "\<not> glob_at p v pi vi"
      using glob_at_char [of pi p vi v] "1.prems"(2,3) by (cases "pi < length p") auto
    with "1.prems"(5) obtain s k where s: "star = Some s" "mi < k" "k \<le> length v" "glob_at p v (Suc s) k"
      by (auto simp: star_retry_def)
    then have "glob_at p v (Suc s) (Suc mi) \<or> star_retry p v star (Suc mi)"
      by (metis star_retry_def Suc_leI le_less)
    moreover have "star_state p (Suc s) (Suc mi) star (Suc mi)" "s < length p"
      using s "1.prems"(2,4) by (auto simp: star_state_def)
    ultimately show ?thesis
      using "1.IH"(3) [OF retry s(1)] "1.prems" retry s by (simp add: wildcard_loop_retry [OF retry])
  qed
qed

section \<open>Evaluation of policies\<close>

lemma evaluate_statements_eq:
  "evaluate_statements x ctx sts a d =
     (a \<or> (\<exists>st \<in> set sts. statement_applies x st ctx \<and> effect st = ''Allow''),
      d \<or> (\<exists>st \<in> set sts. statement_applies x st ctx \<and> effect st = ''Deny''))"
  by (induction x ctx sts a d rule: evaluate_statements.induct) auto

lemma json_scalars_eq:
  "json_scalars_to_strings vs acc =
     (if None \<in> json_scalar_to_string ` set vs then None
      else Some (acc @ map (the \<circ> json_scalar_to_string) vs))"
  by (induction vs acc rule: json_scalars_to_strings.induct) (auto split: option.splits)

section \<open>Properties\<close>

text \<open>
  The iterative wildcard matcher never accepts a value the pattern does not describe, for any
  pattern and value; it terminates on every input.
\<close>

theorem wildcard_match_sound:
  assumes "wildcard_match pattern value"
  shows "glob_matches (utf8_chars pattern) (utf8_chars value)"
  using wildcard_loop_sound [of 0 "utf8_chars pattern" 0 "utf8_chars value" None 0] assms
  by (simp add: wildcard_match_def star_retry_def)

theorem wildcard_match_sound_witness: "glob_matches (utf8_chars ''a*c?'') (utf8_chars ''abbcd'')"
  by (rule wildcard_match_sound) code_simp

text \<open>
  C17. On values without a literal star the matcher is exactly the declarative pattern language:
  the single backtracking point loses no match.
\<close>

theorem wildcard_match_complete:
  assumes "''*'' \<notin> set (utf8_chars value)"
  shows "wildcard_match pattern value \<longleftrightarrow> glob_matches (utf8_chars pattern) (utf8_chars value)"
  using wildcard_loop_complete [of "utf8_chars value" 0 "utf8_chars pattern" 0 None 0]
    wildcard_loop_sound [of 0 "utf8_chars pattern" 0 "utf8_chars value" None 0] assms
  by (auto simp: wildcard_match_def star_retry_def star_state_def)

theorem wildcard_match_complete_witness:
  "\<not> wildcard_match ''a*b'' ''aXbY'' \<and> \<not> glob_matches (utf8_chars ''a*b'') (utf8_chars ''aXbY'')
   \<and> wildcard_match ''*.log'' ''x.log.log''"
proof -
  have "\<not> wildcard_match ''a*b'' ''aXbY''" "wildcard_match ''*.log'' ''x.log.log''"
    "''*'' \<notin> set (utf8_chars ''aXbY'')"
    by code_simp+
  with wildcard_match_complete [of "''aXbY''" "''a*b''"] show ?thesis by simp
qed

text \<open>
  C35. The hypothesis of the previous property is needed: the literal comparison is tried before
  the wildcard, so a star in the value consumes the star of the pattern and the backtracking point
  is lost. The pattern \<open>*a\<close> describes the value \<open>*xa\<close> and the matcher rejects it.
\<close>

theorem wildcard_match_star_in_value:
  "\<not> wildcard_match ''*a'' ''*xa'' \<and> glob_matches (utf8_chars ''*a'') (utf8_chars ''*xa'')"
proof
  show "\<not> wildcard_match ''*a'' ''*xa''" by code_simp
  have "glob_matches [''a''] [''a'']" by (intro glob_matches.intros)
  from glob_star [OF this, of "[''*'', ''x'']"]
  show "glob_matches (utf8_chars ''*a'') (utf8_chars ''*xa'')"
    by (simp add: is_utf8_cont_def)
qed

text \<open>
  C15. Explicit deny wins: the evaluation is \<open>Deny\<close> exactly when some applying statement denies,
  \<open>Allow\<close> exactly when some applying statement allows and none denies, and \<open>Neutral\<close> otherwise;
  the order of the statements is irrelevant.
\<close>

theorem evaluate_policy_effect:
  "(evaluate_policy x policy ctx = Deny \<longleftrightarrow>
      (\<exists>st \<in> set (statement policy). statement_applies x st ctx \<and> effect st = ''Deny'')) \<and>
   (evaluate_policy x policy ctx = Allow \<longleftrightarrow>
      (\<exists>st \<in> set (statement policy). statement_applies x st ctx \<and> effect st = ''Allow'') \<and>
      \<not> (\<exists>st \<in> set (statement policy). statement_applies x st ctx \<and> effect st = ''Deny''))"
  by (auto simp: evaluate_policy_def evaluate_statements_eq)

definition known_operators :: "string list" where
  "known_operators =
     [''Null'', ''Bool'', ''StringEquals'', ''ArnEquals'', ''StringNotEquals'', ''ArnNotEquals'',
      ''StringLike'', ''ArnLike'', ''StringNotLike'', ''ArnNotLike'', ''NumericEquals'',
      ''NumericNotEquals'', ''NumericLessThan'', ''NumericLessThanEquals'', ''NumericGreaterThan'',
      ''NumericGreaterThanEquals'']"

text \<open>
  Malformed or unsupported conditions fail closed: a condition entry whose operator is
  unknown, or whose expected value is null, an object, an empty array or an array holding such a
  value, keeps the whole statement from applying.
\<close>

theorem statement_bad_condition:
  assumes "condition st = Some (JObject cs)" and "(operator, JObject operands) \<in> set cs"
    and "(key, expected) \<in> set operands"
    and "operator \<notin> set known_operators \<or> expected = JNull \<or> (\<exists>kvs. expected = JObject kvs) \<or>
         expected = JArray [] \<or> (\<exists>vs. expected = JArray vs \<and> None \<in> json_scalar_to_string ` set vs)"
  shows "\<not> statement_applies x st ctx"
proof -
  have "\<not> condition_key_matches x operator key expected ctx"
  proof (cases "operator \<in> set known_operators")
    case True
    with assms(4) have "json_values_to_strings expected = None \<or> json_values_to_strings expected = Some []"
      by (auto simp: json_values_to_strings_def json_scalars_eq)
    then show ?thesis by (elim disjE) (simp_all add: condition_key_matches_def)
  next
    case False
    then show ?thesis
      by (cases "json_values_to_strings expected") (simp_all add: condition_key_matches_def known_operators_def)
  qed
  then have "\<not> condition_operator_matches x operator (JObject operands) ctx"
    using assms(3) by (auto simp: condition_operator_matches_def list_all_iff)
  then have "\<not> conditions_match x (condition st) ctx"
    using assms(1,2) by (auto simp: conditions_match_def list_all_iff)
  then show ?thesis by (simp add: statement_applies_def)
qed

theorem statement_bad_condition_witness:
  "\<forall>x. \<not> statement_applies x
      \<lparr>sid = None, effect = ''Allow'', principal = AllPrincipals ''*'', action = Single ''*'',
       resource = Single ''*'',
       condition = Some (JObject [(''IpAddress'', JObject [(''aws:SourceIp'', JString ''10.0.0.1'')])])\<rparr>
      (anonymous ''s3:GetObject'' ''arn:aws:s3:::b/k'')
   \<and> statement_applies x
      \<lparr>sid = None, effect = ''Allow'', principal = AllPrincipals ''*'', action = Single ''*'',
       resource = Single ''*'', condition = None\<rparr>
      (anonymous ''s3:GetObject'' ''arn:aws:s3:::b/k'')"
proof (intro allI conjI)
  fix x
  show "\<not> statement_applies x
      \<lparr>sid = None, effect = ''Allow'', principal = AllPrincipals ''*'', action = Single ''*'',
       resource = Single ''*'',
       condition = Some (JObject [(''IpAddress'', JObject [(''aws:SourceIp'', JString ''10.0.0.1'')])])\<rparr>
      (anonymous ''s3:GetObject'' ''arn:aws:s3:::b/k'')"
    by (rule statement_bad_condition [where operator = "''IpAddress''" and key = "''aws:SourceIp''"
          and expected = "JString ''10.0.0.1''" and operands = "[(''aws:SourceIp'', JString ''10.0.0.1'')]"
          and cs = "[(''IpAddress'', JObject [(''aws:SourceIp'', JString ''10.0.0.1'')])]"])
      (simp_all add: known_operators_def)
qed (simp add: statement_applies_def check_action_def check_resource_def conditions_match_def)

text \<open>
  C28. An ACL without explicit grants: only the owner may act on a private resource, anyone may
  read a public one, any authenticated caller may read an \<open>AuthenticatedRead\<close> one, and the owner
  may always act.
\<close>

theorem canned_acl_permission:
  assumes "grants a = []"
  shows "check_acl_permission a owner ctx \<longleftrightarrow>
     ctx_principal ctx = owner \<or>
     (canned a \<in> {PublicRead, PublicReadWrite} \<and> permission_covers_action Read (ctx_action ctx)) \<or>
     (canned a = PublicReadWrite \<and> permission_covers_action Write (ctx_action ctx)) \<or>
     (canned a = AuthenticatedRead \<and> ctx_is_authenticated ctx \<and>
        permission_covers_action Read (ctx_action ctx))"
  using assms
  by (cases "canned a")
    (auto simp: check_acl_permission_def to_grants_def grant_matches_def Let_def
      all_users_def authenticated_users_def)

theorem canned_acl_permission_witness:
  "check_acl_permission \<lparr>canned = PublicRead, grants = []\<rparr> ''alice'' (anonymous ''s3:GetObject'' ''r'')
   \<and> \<not> check_acl_permission acl_default ''alice'' (anonymous ''s3:GetObject'' ''r'')"
proof -
  have "sublist ''GetObject'' ''s3:GetObject''" by code_simp
  then show ?thesis
    using canned_acl_permission [of "\<lparr>canned = PublicRead, grants = []\<rparr>" "''alice''" "anonymous ''s3:GetObject'' ''r''"]
      canned_acl_permission [of acl_default "''alice''" "anonymous ''s3:GetObject'' ''r''"]
    by (simp add: acl_default_def anonymous_def)
qed

text \<open>
  C29. The separation of the READ and READ\_ACP permissions is not kept: because actions are
  compared by substring, a READ grant also covers \<open>GetObjectAcl\<close> and a WRITE grant also covers
  \<open>PutObjectAcl\<close>.
\<close>

theorem read_grant_covers_acl:
  "(sublist ''GetObjectAcl'' act \<longrightarrow> permission_covers_action Read act) \<and>
   (sublist ''PutObjectAcl'' act \<longrightarrow> permission_covers_action Write act)"
proof -
  have "sublist ''GetObject'' ''GetObjectAcl''" "sublist ''PutObject'' ''PutObjectAcl''" by code_simp+
  then have "sublist ''GetObjectAcl'' act \<Longrightarrow> sublist ''GetObject'' act"
    "sublist ''PutObjectAcl'' act \<Longrightarrow> sublist ''PutObject'' act"
    using sublist_order.order_trans by blast+
  then show ?thesis by auto
qed

theorem read_grant_covers_acl_witness: "permission_covers_action Read ''s3:GetObjectAcl''"
proof -
  have "sublist ''GetObjectAcl'' ''s3:GetObjectAcl''" by code_simp
  with read_grant_covers_acl show ?thesis by blast
qed

end
