(* ===== verification/Key_Index.thy ===== *)
theory Key_Index
  imports Prelude
begin

text \<open>
  The in-memory key index (\<^verbatim>\<open>src/src/storage/lockfree_index.rs\<close>): for every bucket the ordered
  set of object keys, and for every directory prefix (a prefix of a key that ends in a slash, or
  the empty prefix) the ordered map of its immediate children.

  The model is sequential: one operation at a time, each running to completion.

  The abstraction of a bucket index is the set of its keys; \<open>index_inv\<close> says that the children
  maps are exactly what the keys determine. Every operation keeps it, so the listing operations
  have specifications in terms of the keys alone.
\<close>

section \<open>State and operations\<close>

datatype directory_entry_kind = ObjectEntry | CommonPrefix

record directory_entry =
  path :: string
  kind :: directory_entry_kind

type_synonym children_map = "(string, (string, directory_entry_kind) smap) smap"

record bucket_index =
  bi_objects :: "(string, unit) smap"
  bi_children :: children_map

definition bucket_index_new :: bucket_index where
  "bucket_index_new = \<lparr>bi_objects = sm_empty, bi_children = sm_insert '''' sm_empty sm_empty\<rparr>"

record lock_free_index =
  buckets :: "(string, bucket_index) smap"

definition index_new :: lock_free_index where
  "index_new = \<lparr>buckets = sm_empty\<rparr>"

text \<open>The prefixes of a key that end in a slash, shortest first.\<close>

definition parent_prefixes :: "string \<Rightarrow> string list" where
  "parent_prefixes key =
     map (\<lambda>i. take (Suc i) key) (filter (\<lambda>i. key ! i = CHR ''/'') [0 ..< length key])"

definition insert_child ::
    "children_map \<Rightarrow> string \<Rightarrow> string \<Rightarrow> directory_entry_kind \<Rightarrow> children_map" where
  "insert_child children parent p k =
     (let children = (if sm_get children parent = None then sm_insert parent sm_empty children
                      else children) in
      case sm_get children parent of
        Some parent_entry \<Rightarrow> sm_insert parent (sm_insert p k parent_entry) children
      | None \<Rightarrow> children)"

definition remove_child :: "children_map \<Rightarrow> string \<Rightarrow> string \<Rightarrow> children_map" where
  "remove_child children parent p =
     (case sm_get children parent of
        Some parent_entry \<Rightarrow> sm_insert parent (sm_remove p parent_entry) children
      | None \<Rightarrow> children)"

definition has_object_with_prefix :: "(string, unit) smap \<Rightarrow> string \<Rightarrow> bool" where
  "has_object_with_prefix objs p =
     (case sm_from_incl p objs of [] \<Rightarrow> False | (k, _) # _ \<Rightarrow> prefix p k)"

fun insert_prefixes :: "children_map \<Rightarrow> string \<Rightarrow> string list \<Rightarrow> children_map \<times> string" where
  "insert_prefixes children parent [] = (children, parent)"
| "insert_prefixes children parent (p # ps) =
     insert_prefixes (insert_child children parent p CommonPrefix) p ps"

definition insert_directory_children :: "bucket_index \<Rightarrow> string \<Rightarrow> bucket_index" where
  "insert_directory_children bi key =
     (let (children, parent) = insert_prefixes (bi_children bi) '''' (parent_prefixes key) in
      bi\<lparr>bi_children := insert_child children parent key ObjectEntry\<rparr>)"

fun prefix_pairs :: "string \<Rightarrow> string list \<Rightarrow> (string \<times> string) list" where
  "prefix_pairs parent [] = []"
| "prefix_pairs parent (p # ps) = (parent, p) # prefix_pairs p ps"

fun prune_prefixes ::
    "(string, unit) smap \<Rightarrow> (string \<times> string) list \<Rightarrow> children_map \<Rightarrow> children_map" where
  "prune_prefixes objs [] children = children"
| "prune_prefixes objs ((parent, p) # ps) children =
     prune_prefixes objs ps
       (if has_object_with_prefix objs p then children
        else sm_remove p (remove_child children parent p))"

definition remove_directory_children :: "bucket_index \<Rightarrow> string \<Rightarrow> bucket_index" where
  "remove_directory_children bi key =
     (let pairs = prefix_pairs '''' (parent_prefixes key);
          parent = (if pairs = [] then '''' else snd (last pairs));
          children = remove_child (bi_children bi) parent key
      in bi\<lparr>bi_children := prune_prefixes (bi_objects bi) (rev pairs) children\<rparr>)"

definition get_or_create_bucket :: "lock_free_index \<Rightarrow> string \<Rightarrow> lock_free_index" where
  "get_or_create_bucket ix b =
     (if sm_get (buckets ix) b = None
      then ix\<lparr>buckets := sm_insert b bucket_index_new (buckets ix)\<rparr> else ix)"

text \<open>The body of \<^verbatim>\<open>insert\<close> and of one round of \<^verbatim>\<open>rebuild\<close>.\<close>

definition insert_key :: "bucket_index \<Rightarrow> string \<Rightarrow> bucket_index" where
  "insert_key bi key =
     insert_directory_children (bi\<lparr>bi_objects := sm_insert key () (bi_objects bi)\<rparr>) key"

definition index_insert :: "lock_free_index \<Rightarrow> string \<Rightarrow> string \<Rightarrow> lock_free_index" where
  "index_insert ix b key =
     (let ix = get_or_create_bucket ix b in
      case sm_get (buckets ix) b of
        Some bi \<Rightarrow> ix\<lparr>buckets := sm_insert b (insert_key bi key) (buckets ix)\<rparr>
      | None \<Rightarrow> ix)"

definition remove_key :: "bucket_index \<Rightarrow> string \<Rightarrow> bucket_index \<times> bool" where
  "remove_key bi key =
     (let removed = (sm_get (bi_objects bi) key \<noteq> None);
          bi = bi\<lparr>bi_objects := sm_remove key (bi_objects bi)\<rparr>
      in (if removed then remove_directory_children bi key else bi, removed))"

definition index_remove :: "lock_free_index \<Rightarrow> string \<Rightarrow> string \<Rightarrow> lock_free_index \<times> bool" where
  "index_remove ix b key =
     (case sm_get (buckets ix) b of
        Some bi \<Rightarrow> (let (bi', removed) = remove_key bi key in
                     (ix\<lparr>buckets := sm_insert b bi' (buckets ix)\<rparr>, removed))
      | None \<Rightarrow> (ix, False))"

definition index_contains :: "lock_free_index \<Rightarrow> string \<Rightarrow> string \<Rightarrow> bool" where
  "index_contains ix b key =
     (case sm_get (buckets ix) b of
        Some bi \<Rightarrow> sm_get (bi_objects bi) key \<noteq> None
      | None \<Rightarrow> False)"

fun scan_prefix :: "string \<Rightarrow> (string, unit) smap \<Rightarrow> string list \<Rightarrow> string list" where
  "scan_prefix p [] result = result"
| "scan_prefix p ((key, _) # es) result =
     (if prefix p key then scan_prefix p es (result @ [key]) else result)"

definition index_list :: "lock_free_index \<Rightarrow> string \<Rightarrow> string option \<Rightarrow> string list" where
  "index_list ix b pre =
     (case sm_get (buckets ix) b of
        Some bi \<Rightarrow>
          (case pre of
             Some p \<Rightarrow> scan_prefix p (sm_from_incl p (bi_objects bi)) []
           | None \<Rightarrow> map fst (bi_objects bi))
      | None \<Rightarrow> [])"

fun scan_keys ::
    "string option \<Rightarrow> nat option \<Rightarrow> (string, unit) smap \<Rightarrow> string list \<Rightarrow> string list" where
  "scan_keys pre mx [] result = result"
| "scan_keys pre mx ((key, _) # es) result =
     (if (case pre of Some p \<Rightarrow> \<not> prefix p key | None \<Rightarrow> False) then result
      else let result = result @ [key] in
           if (case mx of Some m \<Rightarrow> m \<le> length result | None \<Rightarrow> False) then result
           else scan_keys pre mx es result)"

definition start_entries ::
    "(string, unit) smap \<Rightarrow> string option \<Rightarrow> string option \<Rightarrow> (string, unit) smap" where
  "start_entries objs pre marker =
     (case (pre, marker) of
        (Some p, Some m) \<Rightarrow> if p \<le> m then sm_from_excl m objs else sm_from_incl p objs
      | (Some p, None) \<Rightarrow> sm_from_incl p objs
      | (None, Some m) \<Rightarrow> sm_from_excl m objs
      | (None, None) \<Rightarrow> objs)"

definition list_prefix_marker ::
    "lock_free_index \<Rightarrow> string \<Rightarrow> string option \<Rightarrow> string option \<Rightarrow> nat option \<Rightarrow> string list" where
  "list_prefix_marker ix b pre marker max_keys =
     (case sm_get (buckets ix) b of
        Some bi \<Rightarrow> scan_keys pre max_keys (start_entries (bi_objects bi) pre marker) []
      | None \<Rightarrow> [])"

fun scan_entries ::
    "nat option \<Rightarrow> (string, directory_entry_kind) smap \<Rightarrow> directory_entry list \<Rightarrow> directory_entry list"
  where
  "scan_entries mx [] result = result"
| "scan_entries mx ((p, k) # es) result =
     (let result = result @ [\<lparr>path = p, kind = k\<rparr>] in
      if (case mx of Some m \<Rightarrow> m \<le> length result | None \<Rightarrow> False) then result
      else scan_entries mx es result)"

definition list_child_entries ::
    "lock_free_index \<Rightarrow> string \<Rightarrow> string \<Rightarrow> string option \<Rightarrow> nat option \<Rightarrow> directory_entry list" where
  "list_child_entries ix b parent_prefix marker max_entries =
     (case sm_get (buckets ix) b of
        None \<Rightarrow> []
      | Some bi \<Rightarrow>
          (case sm_get (bi_children bi) parent_prefix of
             None \<Rightarrow> []
           | Some children_entry \<Rightarrow>
               scan_entries max_entries
                 (case marker of Some m \<Rightarrow> sm_from_excl m children_entry | None \<Rightarrow> children_entry)
                 []))"

definition clear_bucket :: "lock_free_index \<Rightarrow> string \<Rightarrow> lock_free_index" where
  "clear_bucket ix b = ix\<lparr>buckets := sm_remove b (buckets ix)\<rparr>"

definition bucket_indexed :: "lock_free_index \<Rightarrow> string \<Rightarrow> bool" where
  "bucket_indexed ix b \<longleftrightarrow> sm_get (buckets ix) b \<noteq> None"

fun index_rebuild :: "lock_free_index \<Rightarrow> (string \<times> string list) list \<Rightarrow> lock_free_index" where
  "index_rebuild ix [] = ix"
| "index_rebuild ix ((b, keys) # es) =
     index_rebuild
       (ix\<lparr>buckets := sm_insert b (foldl insert_key bucket_index_new keys) (buckets ix)\<rparr>) es"

section \<open>What the keys determine\<close>

definition parents :: "string \<Rightarrow> string list" where
  "parents k = '''' # parent_prefixes k"

text \<open>The entry under which key \<open>k\<close> appears in the directory \<open>q\<close>.\<close>

definition child_of :: "string \<Rightarrow> string \<Rightarrow> string \<times> directory_entry_kind" where
  "child_of q k =
     (let r = drop (length q) k in
      if CHR ''/'' \<in> set r then (q @ takeWhile (\<lambda>c. c \<noteq> CHR ''/'') r @ ''/'', CommonPrefix)
      else (k, ObjectEntry))"

definition keys_of :: "bucket_index \<Rightarrow> string set" where
  "keys_of bi = dom (sm_get (bi_objects bi))"

definition child_get :: "children_map \<Rightarrow> string \<Rightarrow> string \<Rightarrow> directory_entry_kind option" where
  "child_get c q p = (case sm_get c q of None \<Rightarrow> None | Some cm \<Rightarrow> sm_get cm p)"

definition children_inv :: "string set \<Rightarrow> children_map \<Rightarrow> bool" where
  "children_inv K c \<longleftrightarrow>
     sm_inv c \<and> (\<forall>q cm. sm_get c q = Some cm \<longrightarrow> sm_inv cm) \<and>
     (\<forall>q. sm_get c q \<noteq> None \<longleftrightarrow> q = '''' \<or> (\<exists>k \<in> K. q \<in> set (parents k))) \<and>
     (\<forall>q p kd. child_get c q p = Some kd \<longleftrightarrow>
        (\<exists>k \<in> K. q \<in> set (parents k) \<and> child_of q k = (p, kd)))"

definition index_inv :: "bucket_index \<Rightarrow> bool" where
  "index_inv bi \<longleftrightarrow> sm_inv (bi_objects bi) \<and> children_inv (keys_of bi) (bi_children bi)"

definition lfi_inv :: "lock_free_index \<Rightarrow> bool" where
  "lfi_inv ix \<longleftrightarrow> sm_inv (buckets ix) \<and> (\<forall>b bi. sm_get (buckets ix) b = Some bi \<longrightarrow> index_inv bi)"

definition lfi_keys :: "lock_free_index \<Rightarrow> string \<Rightarrow> string set" where
  "lfi_keys ix b = (case sm_get (buckets ix) b of None \<Rightarrow> {} | Some bi \<Rightarrow> keys_of bi)"

section \<open>Directory prefixes of a key\<close>

lemma parent_prefixes_Nil [simp]: "parent_prefixes [] = []"
  by (simp add: parent_prefixes_def)

lemma parent_prefixes_Cons:
  "parent_prefixes (c # s) =
     (if c = CHR ''/'' then [[c]] else []) @ map ((#) c) (parent_prefixes s)"
proof -
  have "[0 ..< length (c # s)] = 0 # map Suc [0 ..< length s]"
    by (simp add: map_Suc_upt upt_conv_Cons del: upt_Suc)
  then show ?thesis by (simp add: parent_prefixes_def filter_map comp_def del: upt_Suc)
qed

lemma set_parent_prefixes:
  "q \<in> set (parent_prefixes k) \<longleftrightarrow> prefix q k \<and> q \<noteq> [] \<and> last q = CHR ''/''"
proof (induction k arbitrary: q)
  case Nil
  then show ?case by auto
next
  case (Cons c s)
  then show ?case by (cases q) (auto simp: parent_prefixes_Cons)
qed

lemma set_parents: "q \<in> set (parents k) \<longleftrightarrow> prefix q k \<and> (q = [] \<or> last q = CHR ''/'')"
  by (auto simp: parents_def set_parent_prefixes)

lemma parents_prefix: "q \<in> set (parents k) \<Longrightarrow> prefix q k"
  by (simp add: set_parents)

lemma distinct_parent_prefixes: "distinct (parent_prefixes k)"
  by (induction k) (auto simp: parent_prefixes_Cons distinct_map set_parent_prefixes)

lemma distinct_parents: "distinct (parents k)"
  by (auto simp: parents_def distinct_parent_prefixes set_parent_prefixes)

lemma child_of_append [simp]:
  "child_of q (q @ r) =
     (if CHR ''/'' \<in> set r then (q @ takeWhile (\<lambda>c. c \<noteq> CHR ''/'') r @ ''/'', CommonPrefix)
      else (q @ r, ObjectEntry))"
  by (simp add: child_of_def)

lemma takeWhile_first:
  "x \<in> set xs \<Longrightarrow> \<exists>a t. xs = a @ x # t \<and> takeWhile (\<lambda>c. c \<noteq> x) xs = a"
  by (induction xs) auto

lemma child_of_kind:
  assumes "prefix q k" and "child_of q k = (p, kd)"
  shows "kd = (if CHR ''/'' \<in> set (drop (length q) p) then CommonPrefix else ObjectEntry)"
    and "prefix p k" and "prefix q p"
proof -
  from assms(1) obtain r where k: "k = q @ r" by (auto simp: prefix_def)
  show "kd = (if CHR ''/'' \<in> set (drop (length q) p) then CommonPrefix else ObjectEntry)"
    using assms(2) k by (auto split: if_splits)
  show "prefix q p" using assms(2) k by (auto split: if_splits)
  show "prefix p k"
  proof (cases "CHR ''/'' \<in> set r")
    case True
    obtain a t where r: "r = a @ CHR ''/'' # t" "takeWhile (\<lambda>c. c \<noteq> CHR ''/'') r = a"
      using takeWhile_first [OF True] by blast
    from True assms(2) k r(2) have "p = q @ a @ ''/''" by simp
    moreover from k r(1) have "k = q @ a @ CHR ''/'' # t" by simp
    ultimately show ?thesis by simp
  next
    case False
    with assms(2) k show ?thesis by auto
  qed
qed

lemma child_of_object: "child_of q k = (p, ObjectEntry) \<Longrightarrow> p = k"
  by (auto simp: child_of_def Let_def split: if_splits)

lemma child_of_common_shared:
  assumes "q \<in> set (parents k)" and "child_of q k = (p, CommonPrefix)" and "prefix p k'"
  shows "q \<in> set (parents k') \<and> child_of q k' = (p, CommonPrefix)"
proof -
  from assms(1) obtain r where k: "k = q @ r" and q: "q = [] \<or> last q = CHR ''/''"
    by (auto simp: set_parents prefix_def)
  let ?seg = "takeWhile (\<lambda>c. c \<noteq> CHR ''/'') r"
  from assms(2) k have p: "p = q @ ?seg @ ''/''" by (auto split: if_splits)
  with assms(3) obtain t where k': "k' = q @ ?seg @ CHR ''/'' # t" by (auto simp: prefix_def)
  have "takeWhile (\<lambda>c. c \<noteq> CHR ''/'') (?seg @ CHR ''/'' # t) = ?seg"
    by (subst takeWhile_append2) (auto dest: set_takeWhileD)
  then have "child_of q k' = (p, CommonPrefix)" using k' p by simp
  with q k' show ?thesis by (simp add: set_parents)
qed

text \<open>Walking down the directories of a key visits, in each, exactly the key's entry.\<close>

definition walk_ok :: "string \<Rightarrow> string \<Rightarrow> string list \<Rightarrow> bool" where
  "walk_ok k q ps \<longleftrightarrow>
     prefix_pairs q ps = map (\<lambda>d. (d, fst (child_of d k))) (butlast (q # ps))
     \<and> (\<forall>d \<in> set (butlast (q # ps)). snd (child_of d k) = CommonPrefix)
     \<and> child_of (last (q # ps)) k = (k, ObjectEntry)"

lemma walk_ok_Cons: "child_of q k = (p, CommonPrefix) \<Longrightarrow> walk_ok k p ps \<Longrightarrow> walk_ok k q (p # ps)"
  by (simp add: walk_ok_def)

lemma walk_ok_key:
  "CHR ''/'' \<notin> set seg \<Longrightarrow> walk_ok (q @ seg @ s) q (map ((@) (q @ seg)) (parent_prefixes s))"
proof (induction s arbitrary: q seg)
  case Nil
  then show ?case by (simp add: walk_ok_def)
next
  case (Cons c s)
  show ?case
  proof (cases "c = CHR ''/''")
    case False
    with Cons.IH [of "seg @ [c]" q] Cons.prems show ?thesis
      by (simp add: parent_prefixes_Cons comp_def)
  next
    case True
    let ?q = "q @ seg @ ''/''"
    have tw: "takeWhile (\<lambda>c. c \<noteq> CHR ''/'') (seg @ CHR ''/'' # s) = seg"
      using Cons.prems by (subst takeWhile_append2) auto
    have "walk_ok (?q @ [] @ s) ?q (map ((@) (?q @ [])) (parent_prefixes s))"
      by (rule Cons.IH) simp
    moreover have "child_of q (?q @ [] @ s) = (?q, CommonPrefix)" using tw by simp
    ultimately have "walk_ok (?q @ [] @ s) q (?q # map ((@) (?q @ [])) (parent_prefixes s))"
      by (intro walk_ok_Cons)
    moreover have "map ((@) (?q @ [])) (parent_prefixes s) =
        map (\<lambda>x. q @ seg @ CHR ''/'' # x) (parent_prefixes s)" by simp
    ultimately have "walk_ok (?q @ [] @ s) q (?q # map (\<lambda>x. q @ seg @ CHR ''/'' # x) (parent_prefixes s))"
      by (simp only:)
    with True show ?thesis by (simp add: parent_prefixes_Cons comp_def)
  qed
qed

lemma walk: "walk_ok k '''' (parent_prefixes k)"
  using walk_ok_key [of "[]" "[]" k] by (simp add: map_idI)

lemmas walk_facts = walk [unfolded walk_ok_def, folded parents_def]
lemmas prefix_pairs_eq = walk_facts [THEN conjunct1]
lemmas butlast_parents_common = walk_facts [THEN conjunct2, THEN conjunct1, rule_format]
lemmas last_parent_object = walk_facts [THEN conjunct2, THEN conjunct2]

lemma snd_last_prefix_pairs:
  "(if prefix_pairs q ps = [] then q else snd (last (prefix_pairs q ps))) = last (q # ps)"
  by (induction q ps rule: prefix_pairs.induct) (auto split: if_splits)

lemma parents_split: "set (parents k) = set (butlast (parents k)) \<union> {last (parents k)}"
proof -
  have "parents k = butlast (parents k) @ [last (parents k)]" by (simp add: parents_def)
  then show ?thesis by (metis list.set(1) list.set(2) set_append)
qed

section \<open>Inserting a key\<close>

lemma sm_get_insert_child:
  "sm_get (insert_child c q p kd) =
     (sm_get c)(q \<mapsto> sm_insert p kd (case sm_get c q of None \<Rightarrow> [] | Some cm \<Rightarrow> cm))"
  by (auto simp: insert_child_def Let_def split: option.splits)

lemma sm_inv_insert_child: "sm_inv c \<Longrightarrow> sm_inv (insert_child c q p kd)"
  by (auto simp: insert_child_def Let_def split: option.splits)

definition insert_all :: "string \<Rightarrow> children_map \<Rightarrow> string list \<Rightarrow> children_map" where
  "insert_all k = foldl (\<lambda>c d. insert_child c d (fst (child_of d k)) (snd (child_of d k)))"

lemma insert_prefixes_foldl:
  "insert_prefixes c q ps =
     (foldl (\<lambda>c (d, p). insert_child c d p CommonPrefix) c (prefix_pairs q ps), last (q # ps))"
  by (induction c q ps rule: insert_prefixes.induct) auto

lemma foldl_common_eq:
  "(\<And>d. d \<in> set ds \<Longrightarrow> snd (child_of d k) = CommonPrefix) \<Longrightarrow>
   foldl (\<lambda>c (d, p). insert_child c d p CommonPrefix) c (map (\<lambda>d. (d, fst (child_of d k))) ds)
     = insert_all k c ds"
  by (induction ds arbitrary: c) (auto simp: insert_all_def)

lemma insert_directory_children_eq:
  "insert_directory_children bi k = bi\<lparr>bi_children := insert_all k (bi_children bi) (parents k)\<rparr>"
proof -
  have "insert_prefixes (bi_children bi) '''' (parent_prefixes k) =
        (insert_all k (bi_children bi) (butlast (parents k)), last (parents k))"
    unfolding insert_prefixes_foldl prefix_pairs_eq
    by (simp add: foldl_common_eq butlast_parents_common parents_def)
  moreover have "parents k = butlast (parents k) @ [last (parents k)]" by (simp add: parents_def)
  then have "insert_all k c (parents k) =
      insert_child (insert_all k c (butlast (parents k))) (last (parents k)) k ObjectEntry" for c
    by (metis (no_types, lifting) foldl_Cons foldl_Nil foldl_append fst_conv insert_all_def
        last_parent_object snd_conv)
  ultimately show ?thesis by (simp add: insert_directory_children_def)
qed

lemma sm_get_insert_all:
  "distinct ds \<Longrightarrow>
   sm_get (insert_all k c ds) q =
     (if q \<in> set ds then Some (sm_insert (fst (child_of q k)) (snd (child_of q k))
                                (case sm_get c q of None \<Rightarrow> [] | Some cm \<Rightarrow> cm))
      else sm_get c q)"
  by (induction ds arbitrary: c) (auto simp: insert_all_def sm_get_insert_child)

lemma sm_inv_insert_all: "sm_inv c \<Longrightarrow> sm_inv (insert_all k c ds)"
  by (induction ds arbitrary: c) (auto simp: insert_all_def sm_inv_insert_child)

lemma child_get_insert_all:
  "child_get (insert_all k c (parents k)) q p =
     (if q \<in> set (parents k) \<and> p = fst (child_of q k) then Some (snd (child_of q k))
      else child_get c q p)"
  by (auto simp: child_get_def sm_get_insert_all distinct_parents split: option.splits)

lemma children_inv_insert:
  assumes inv: "children_inv K c"
  shows "children_inv (insert k K) (insert_all k c (parents k))"
  unfolding children_inv_def
proof (intro conjI allI impI)
  show "sm_inv (insert_all k c (parents k))"
    using inv by (simp add: children_inv_def sm_inv_insert_all)
  fix q
  show "sm_inv cm" if "sm_get (insert_all k c (parents k)) q = Some cm" for cm
    using inv that
    by (auto simp: children_inv_def sm_get_insert_all distinct_parents simp del: sm_insert.simps(1)
        split: if_splits option.splits)
  show "(sm_get (insert_all k c (parents k)) q \<noteq> None) \<longleftrightarrow>
        q = '''' \<or> (\<exists>k' \<in> insert k K. q \<in> set (parents k'))"
    using inv by (auto simp: children_inv_def sm_get_insert_all distinct_parents)
  fix p kd
  have old: "child_get c q p = Some kd \<longleftrightarrow> (\<exists>k \<in> K. q \<in> set (parents k) \<and> child_of q k = (p, kd))"
    using inv by (simp add: children_inv_def)
  have same: "kd = snd (child_of q k)"
    if "k' \<in> K" "q \<in> set (parents k')" "child_of q k' = (p, kd)"
       "q \<in> set (parents k)" "p = fst (child_of q k)" for k'
    using child_of_kind(1) [of q k' p kd] child_of_kind(1) [of q k p "snd (child_of q k)"]
      that parents_prefix by simp
  show "(child_get (insert_all k c (parents k)) q p = Some kd) \<longleftrightarrow>
        (\<exists>k' \<in> insert k K. q \<in> set (parents k') \<and> child_of q k' = (p, kd))"
    unfolding child_get_insert_all using old same by (auto simp: prod_eq_iff)
qed

lemma index_inv_new: "index_inv bucket_index_new" "keys_of bucket_index_new = {}"
  by (auto simp: index_inv_def bucket_index_new_def keys_of_def children_inv_def child_get_def sm_inv_def
      split: option.splits)

lemma insert_key_inv:
  assumes "index_inv bi"
  shows "index_inv (insert_key bi k)" and "keys_of (insert_key bi k) = insert k (keys_of bi)"
proof -
  show "keys_of (insert_key bi k) = insert k (keys_of bi)"
    by (auto simp: insert_key_def insert_directory_children_eq keys_of_def)
  with assms show "index_inv (insert_key bi k)"
    by (simp add: index_inv_def insert_key_def insert_directory_children_eq keys_of_def children_inv_insert)
qed

section \<open>Removing a key\<close>

lemma has_object_with_prefix_iff:
  assumes "sm_inv objs"
  shows "has_object_with_prefix objs p \<longleftrightarrow> (\<exists>k \<in> dom (sm_get objs). prefix p k)"
proof -
  let ?ks = "map fst (sm_from_incl p objs)"
  have ks: "?ks = filter (\<lambda>k. p \<le> k) (map fst objs)"
    using sm.keys_from_incl [OF assms] by simp
  then have sorted: "sorted_wrt (<) ?ks" and above: "\<forall>k \<in> set ?ks. p \<le> k"
    using assms by (auto simp: sm_inv_def sorted_wrt_filter)
  have "has_object_with_prefix objs p \<longleftrightarrow> takeWhile (prefix p) ?ks \<noteq> []"
    by (auto simp: has_object_with_prefix_def split: list.splits)
  also have "\<dots> \<longleftrightarrow> filter (prefix p) (map fst objs) \<noteq> []"
    using prefix_scan [of "map fst objs" p] assms ks by (simp add: sm_inv_def)
  also have "\<dots> \<longleftrightarrow> (\<exists>k \<in> dom (sm_get objs). prefix p k)"
    using sm.keys_dom [OF assms] by (auto simp: filter_empty_conv)
  finally show ?thesis .
qed

lemma sm_get_remove_child:
  "sm_get (remove_child c q p) q' =
     (if q' = q then map_option (sm_remove p) (sm_get c q) else sm_get c q')"
  by (auto simp: remove_child_def split: option.splits)

lemma sm_inv_remove_child: "sm_inv c \<Longrightarrow> sm_inv (remove_child c q p)"
  by (auto simp: remove_child_def split: option.splits)

lemma child_get_remove_child:
  "child_get (remove_child c q p) q' x = (if q' = q \<and> x = p then None else child_get c q' x)"
  by (auto simp: child_get_def sm_get_remove_child split: option.splits)

lemma child_get_sm_remove:
  "child_get (sm_remove p c) q x = (if q = p then None else child_get c q x)"
  by (simp add: child_get_def)

lemma sm_get_prune:
  "sm_get (prune_prefixes objs ps c) q \<noteq> None \<longleftrightarrow>
     sm_get c q \<noteq> None \<and> (\<forall>(d, p) \<in> set ps. p = q \<longrightarrow> has_object_with_prefix objs p)"
  by (induction objs ps c rule: prune_prefixes.induct) (auto simp: sm_get_remove_child)

lemma child_get_prune:
  "child_get (prune_prefixes objs ps c) q x =
     (if \<exists>(d, p) \<in> set ps. \<not> has_object_with_prefix objs p \<and> (p = q \<or> d = q \<and> p = x) then None
      else child_get c q x)"
  by (induction objs ps c rule: prune_prefixes.induct)
    (auto simp: child_get_remove_child child_get_sm_remove)

lemma sm_inv_prune: "sm_inv c \<Longrightarrow> sm_inv (prune_prefixes objs ps c)"
  by (induction objs ps c rule: prune_prefixes.induct) (auto simp: sm_inv_remove_child)

lemma values_inv_prune:
  "(\<And>q cm. sm_get c q = Some cm \<Longrightarrow> sm_inv cm) \<Longrightarrow>
   sm_get (prune_prefixes objs ps c) q = Some cm \<Longrightarrow> sm_inv cm"
proof (induction objs ps c arbitrary: q cm rule: prune_prefixes.induct)
  case (2 objs d p ps c)
  show ?case
    by (rule "2.IH" [OF _ "2.prems"(2) [unfolded prune_prefixes.simps]])
      (auto simp: sm_get_remove_child "2.prems"(1) split: if_splits)
qed simp

text \<open>The children after the key \<open>k\<close> has left the set \<open>objs\<close> of keys.\<close>

definition removed_children :: "(string, unit) smap \<Rightarrow> children_map \<Rightarrow> string \<Rightarrow> children_map" where
  "removed_children objs c k =
     prune_prefixes objs (rev (map (\<lambda>d. (d, fst (child_of d k))) (butlast (parents k))))
       (remove_child c (last (parents k)) k)"

lemma remove_directory_children_eq:
  "remove_directory_children bi k =
     bi\<lparr>bi_children := removed_children (bi_objects bi) (bi_children bi) k\<rparr>"
  unfolding remove_directory_children_def Let_def snd_last_prefix_pairs removed_children_def
  by (simp only: prefix_pairs_eq parents_def [symmetric])

lemma removed_children_dirs:
  "sm_get (removed_children objs c k) q \<noteq> None \<longleftrightarrow>
     sm_get c q \<noteq> None \<and>
     (\<forall>d \<in> set (butlast (parents k)). fst (child_of d k) = q \<longrightarrow> has_object_with_prefix objs q)"
  unfolding removed_children_def sm_get_prune by (auto simp: sm_get_remove_child)

lemma removed_children_entries:
  "child_get (removed_children objs c k) q x =
     (if (\<exists>d \<in> set (butlast (parents k)). \<not> has_object_with_prefix objs (fst (child_of d k)) \<and>
             (fst (child_of d k) = q \<or> d = q \<and> fst (child_of d k) = x))
          \<or> q = last (parents k) \<and> x = k
       then None else child_get c q x)"
  unfolding removed_children_def child_get_prune child_get_remove_child by auto

lemma removed_children_values:
  assumes "\<And>q cm. sm_get c q = Some cm \<Longrightarrow> sm_inv cm"
    and "sm_get (removed_children objs c k) q = Some cm"
  shows "sm_inv cm"
  using assms(2) unfolding removed_children_def
  by (rule values_inv_prune [rotated]) (auto simp: sm_get_remove_child assms(1) split: if_splits)

lemma common_child_parent:
  assumes "q \<in> set (parents k)" and "snd (child_of q k) = CommonPrefix"
  shows "fst (child_of q k) \<in> set (parents k) \<and> fst (child_of q k) \<noteq> ''''"
proof -
  from assms(2) have "last (fst (child_of q k)) = CHR ''/''" "fst (child_of q k) \<noteq> ''''"
    by (auto simp: child_of_def Let_def split: if_splits)
  moreover have "prefix (fst (child_of q k)) k"
    using child_of_kind(2) [OF parents_prefix [OF assms(1)] prod.collapse [symmetric]] .
  ultimately show ?thesis by (simp add: set_parents)
qed

lemma prefix_pairs_snd: "map snd (prefix_pairs q ps) = ps"
  by (induction q ps rule: prefix_pairs.induct) auto

lemma parent_is_child:
  assumes "q \<in> set (parents k)" and "q \<noteq> ''''"
  shows "\<exists>d \<in> set (butlast (parents k)). fst (child_of d k) = q"
proof -
  have "set (parent_prefixes k) = (\<lambda>d. fst (child_of d k)) ` set (butlast (parents k))"
    using arg_cong [OF prefix_pairs_snd [of "''''" "parent_prefixes k"], of set]
    unfolding prefix_pairs_eq by (simp add: image_image)
  with assms show ?thesis by (auto simp: parents_def)
qed

text \<open>
  In the next two lemmas \<open>K\<close> is the set of keys before the removal, and \<open>has\<close> tells which
  prefixes still have a key.
\<close>

lemma removed_dirs_spec:
  assumes inv: "children_inv K c"
    and has: "\<And>p. has_object_with_prefix objs p \<longleftrightarrow> (\<exists>k' \<in> K - {k}. prefix p k')"
  shows "sm_get (removed_children objs c k) q \<noteq> None \<longleftrightarrow>
           q = '''' \<or> (\<exists>k' \<in> K - {k}. q \<in> set (parents k'))"
proof -
  have old: "sm_get c q \<noteq> None \<longleftrightarrow> q = '''' \<or> (\<exists>k' \<in> K. q \<in> set (parents k'))"
    using inv by (simp add: children_inv_def)
  have up: "q \<noteq> '''' \<and> q \<in> set (parents k)" if "d \<in> set (butlast (parents k))" "fst (child_of d k) = q" for d
    using common_child_parent [of d k] that by (auto simp: in_set_butlastD butlast_parents_common)
  have down: "\<exists>d \<in> set (butlast (parents k)). fst (child_of d k) = q" if "q \<noteq> ''''" "q \<in> set (parents k)"
    using parent_is_child that by blast
  have slash: "q \<in> set (parents k')" if "q \<noteq> ''''" "q \<in> set (parents k)" "prefix q k'" for k'
    using that by (auto simp: set_parents)
  show ?thesis
    unfolding removed_children_dirs old has using up down slash parents_prefix by blast
qed

lemma removed_entries_spec:
  assumes inv: "children_inv K c"
    and has: "\<And>p. has_object_with_prefix objs p \<longleftrightarrow> (\<exists>k' \<in> K - {k}. prefix p k')"
  shows "child_get (removed_children objs c k) q x = Some kd \<longleftrightarrow>
           (\<exists>k' \<in> K - {k}. q \<in> set (parents k') \<and> child_of q k' = (x, kd))" (is "?L \<longleftrightarrow> ?R")
proof
  have old: "child_get c q x = Some kd \<longleftrightarrow> (\<exists>k' \<in> K. q \<in> set (parents k') \<and> child_of q k' = (x, kd))"
    using inv by (simp add: children_inv_def)
  assume ?L
  then have "child_get c q x = Some kd" and not_last: "\<not> (q = last (parents k) \<and> x = k)"
    and kept: "q \<in> set (butlast (parents k)) \<Longrightarrow> fst (child_of q k) = x \<Longrightarrow>
                 has_object_with_prefix objs x"
    by (auto simp: removed_children_entries split: if_splits)
  then obtain k' where k': "k' \<in> K" "q \<in> set (parents k')" "child_of q k' = (x, kd)"
    using old by blast
  show ?R
  proof (cases "k' = k")
    case True
    with k' not_last have q: "q \<in> set (butlast (parents k))"
      using parents_split [of k] last_parent_object [of k] by auto
    then have common: "child_of q k = (x, CommonPrefix)"
      using butlast_parents_common [of q k] k' True by simp
    with kept [OF q] has obtain k'' where "k'' \<in> K - {k}" "prefix x k''" by auto
    with child_of_common_shared [OF _ common] k' True common show ?thesis by auto
  qed (use k' in blast)
next
  assume ?R
  then obtain k' where k': "k' \<in> K" "k' \<noteq> k" "q \<in> set (parents k')" "child_of q k' = (x, kd)"
    by blast
  note kind = child_of_kind [OF parents_prefix [OF k'(3)] k'(4)]
  have "has_object_with_prefix objs q" "has_object_with_prefix objs x"
    using k' has parents_prefix kind(2) by blast+
  moreover have "\<not> (q = last (parents k) \<and> x = k)"
  proof
    assume eq: "q = last (parents k) \<and> x = k"
    then have "child_of q k = (x, ObjectEntry)" using last_parent_object by simp
    moreover have "prefix q k" using eq parents_split [of k] by (auto intro: parents_prefix)
    ultimately have "kd = ObjectEntry" using child_of_kind(1) [of q k x ObjectEntry] kind(1) by simp
    with k' eq show False using child_of_object by blast
  qed
  moreover have "child_get c q x = Some kd" using inv k' by (auto simp: children_inv_def)
  ultimately show ?L by (auto simp: removed_children_entries)
qed

lemma children_inv_remove:
  assumes inv: "children_inv K c" and objs: "sm_inv objs" "dom (sm_get objs) = K - {k}"
  shows "children_inv (K - {k}) (removed_children objs c k)"
proof -
  have has: "has_object_with_prefix objs p \<longleftrightarrow> (\<exists>k' \<in> K - {k}. prefix p k')" for p
    using has_object_with_prefix_iff [OF objs(1)] objs(2) by simp
  have "sm_inv (removed_children objs c k)"
    using inv by (simp add: children_inv_def removed_children_def sm_inv_prune sm_inv_remove_child)
  moreover have "sm_inv cm" if "sm_get (removed_children objs c k) q = Some cm" for q cm
    using removed_children_values [OF _ that] inv by (auto simp: children_inv_def)
  ultimately show ?thesis
    unfolding children_inv_def
    using removed_dirs_spec [OF inv has] removed_entries_spec [OF inv has] by simp
qed

lemma remove_key_inv:
  assumes "index_inv bi"
  shows "index_inv (fst (remove_key bi k))" and "keys_of (fst (remove_key bi k)) = keys_of bi - {k}"
    and "snd (remove_key bi k) \<longleftrightarrow> k \<in> keys_of bi"
proof -
  show keys: "keys_of (fst (remove_key bi k)) = keys_of bi - {k}"
    by (auto simp: remove_key_def keys_of_def Let_def remove_directory_children_eq split: if_splits)
  show "snd (remove_key bi k) \<longleftrightarrow> k \<in> keys_of bi"
    by (auto simp: remove_key_def keys_of_def Let_def)
  have objs: "sm_inv (sm_remove k (bi_objects bi))" using assms by (simp add: index_inv_def)
  show "index_inv (fst (remove_key bi k))"
  proof (cases "k \<in> keys_of bi")
    case True
    then have "fst (remove_key bi k) =
        remove_directory_children (bi\<lparr>bi_objects := sm_remove k (bi_objects bi)\<rparr>) k"
      by (auto simp: remove_key_def keys_of_def Let_def)
    moreover have "children_inv (keys_of bi - {k})
        (removed_children (sm_remove k (bi_objects bi)) (bi_children bi) k)"
      using assms objs by (intro children_inv_remove) (auto simp: index_inv_def keys_of_def)
    ultimately show ?thesis
      using keys objs by (simp add: index_inv_def remove_directory_children_eq)
  next
    case False
    then have "fst (remove_key bi k) = bi\<lparr>bi_objects := sm_remove k (bi_objects bi)\<rparr>"
      by (auto simp: remove_key_def keys_of_def Let_def)
    with assms objs keys False show ?thesis by (simp add: index_inv_def)
  qed
qed

section \<open>The whole index\<close>

lemma lfi_inv_new: "lfi_inv index_new"
  by (simp add: lfi_inv_def index_new_def)

lemma get_or_create_bucket_inv:
  assumes "lfi_inv ix"
  shows "lfi_inv (get_or_create_bucket ix b)" and "lfi_keys (get_or_create_bucket ix b) = lfi_keys ix"
  using assms index_inv_new
  by (auto simp: lfi_inv_def lfi_keys_def get_or_create_bucket_def fun_eq_iff split: option.splits)

lemma bucket_indexed_create: "sm_get (buckets (get_or_create_bucket ix b)) b \<noteq> None"
  by (simp add: get_or_create_bucket_def)

lemma index_insert_inv:
  assumes "lfi_inv ix"
  shows "lfi_inv (index_insert ix b k)"
    and "lfi_keys (index_insert ix b k) = (lfi_keys ix)(b := insert k (lfi_keys ix b))"
proof -
  let ?ix = "get_or_create_bucket ix b"
  obtain bi where bi: "sm_get (buckets ?ix) b = Some bi"
    using bucket_indexed_create by blast
  note create = get_or_create_bucket_inv [OF assms]
  from create(1) bi have "index_inv bi" by (simp add: lfi_inv_def)
  note ins = insert_key_inv [OF this]
  have eq: "index_insert ix b k = ?ix\<lparr>buckets := sm_insert b (insert_key bi k) (buckets ?ix)\<rparr>"
    using bi by (simp add: index_insert_def Let_def)
  show "lfi_inv (index_insert ix b k)"
    using create(1) ins(1) by (auto simp: eq lfi_inv_def)
  have "lfi_keys (index_insert ix b k) = (lfi_keys ?ix)(b := insert k (lfi_keys ?ix b))"
    using bi ins(2) by (auto simp: eq lfi_keys_def fun_eq_iff)
  then show "lfi_keys (index_insert ix b k) = (lfi_keys ix)(b := insert k (lfi_keys ix b))"
    by (simp only: create(2))
qed

lemma index_remove_inv:
  assumes "lfi_inv ix"
  shows "lfi_inv (fst (index_remove ix b k))"
    and "lfi_keys (fst (index_remove ix b k)) = (lfi_keys ix)(b := lfi_keys ix b - {k})"
    and "snd (index_remove ix b k) \<longleftrightarrow> k \<in> lfi_keys ix b"
proof -
  have "lfi_inv (fst (index_remove ix b k)) \<and>
        lfi_keys (fst (index_remove ix b k)) = (lfi_keys ix)(b := lfi_keys ix b - {k}) \<and>
        snd (index_remove ix b k) = (k \<in> lfi_keys ix b)"
  proof (cases "sm_get (buckets ix) b")
    case None
    then show ?thesis using assms by (auto simp: index_remove_def lfi_keys_def fun_eq_iff)
  next
    case (Some bi)
    then have "index_inv bi" using assms by (simp add: lfi_inv_def)
    note rm = remove_key_inv [OF this, of k]
    with Some assms show ?thesis
      by (auto simp: index_remove_def lfi_inv_def lfi_keys_def fun_eq_iff split: prod.splits)
  qed
  then show "lfi_inv (fst (index_remove ix b k))"
    and "lfi_keys (fst (index_remove ix b k)) = (lfi_keys ix)(b := lfi_keys ix b - {k})"
    and "snd (index_remove ix b k) \<longleftrightarrow> k \<in> lfi_keys ix b" by blast+
qed

lemma clear_bucket_inv:
  assumes "lfi_inv ix"
  shows "lfi_inv (clear_bucket ix b)" and "lfi_keys (clear_bucket ix b) = (lfi_keys ix)(b := {})"
  using assms by (auto simp: lfi_inv_def clear_bucket_def lfi_keys_def fun_eq_iff)

lemma foldl_insert_key:
  "index_inv bi \<Longrightarrow> index_inv (foldl insert_key bi ks) \<and> keys_of (foldl insert_key bi ks) = keys_of bi \<union> set ks"
  by (induction ks arbitrary: bi) (auto simp: insert_key_inv)

lemma index_rebuild_inv:
  "lfi_inv ix \<Longrightarrow>
   lfi_inv (index_rebuild ix es) \<and>
   lfi_keys (index_rebuild ix es) = foldl (\<lambda>K (b, ks). K(b := set ks)) (lfi_keys ix) es"
proof (induction ix es rule: index_rebuild.induct)
  case (2 ix b ks es)
  let ?ix = "ix\<lparr>buckets := sm_insert b (foldl insert_key bucket_index_new ks) (buckets ix)\<rparr>"
  have new: "index_inv (foldl insert_key bucket_index_new ks)"
      "keys_of (foldl insert_key bucket_index_new ks) = set ks"
    using foldl_insert_key [OF index_inv_new(1), of ks] index_inv_new(2) by simp_all
  then have "lfi_inv ?ix" and "lfi_keys ?ix = (lfi_keys ix)(b := set ks)"
    using "2.prems" by (auto simp: lfi_inv_def lfi_keys_def fun_eq_iff)
  with "2.IH" show ?case by simp
qed simp

section \<open>Listings\<close>

text \<open>The code stops after pushing, so a limit of zero still yields one entry.\<close>

definition take_limit :: "nat option \<Rightarrow> 'a list \<Rightarrow> 'a list" where
  "take_limit mx xs = (case mx of None \<Rightarrow> xs | Some m \<Rightarrow> take (max 1 m) xs)"

definition key_selected :: "string option \<Rightarrow> string option \<Rightarrow> string \<Rightarrow> bool" where
  "key_selected pre marker k \<longleftrightarrow>
     (case pre of Some p \<Rightarrow> prefix p k | None \<Rightarrow> True) \<and>
     (case marker of Some m \<Rightarrow> m < k | None \<Rightarrow> True)"

lemma scan_keys_eq:
  "scan_keys pre mx es r =
     r @ (let ks = takeWhile (\<lambda>k. case pre of Some p \<Rightarrow> prefix p k | None \<Rightarrow> True) (map fst es) in
          case mx of None \<Rightarrow> ks | Some m \<Rightarrow> take (max 1 (m - length r)) ks)"
proof (induction pre mx es r rule: scan_keys.induct)
  case (2 pre mx key u es r)
  show ?case
  proof (cases mx)
    case None
    with 2 show ?thesis by (auto simp: Let_def split: option.splits)
  next
    case (Some m)
    show ?thesis
    proof (cases "m \<le> Suc (length r)")
      case True
      then have "max 1 (m - length r) = 1" by simp
      with Some True show ?thesis by (auto simp: Let_def take_Suc split: option.splits)
    next
      case False
      then have "max 1 (m - length r) = Suc (m - Suc (length r))"
        and "max 1 (m - Suc (length r)) = m - Suc (length r)" by auto
      with 2 Some False show ?thesis by (auto simp: Let_def split: option.splits)
    qed
  qed
qed (simp split: option.splits)

lemma start_entries_eq:
  assumes "sm_inv objs"
  shows "takeWhile (\<lambda>k. case pre of Some p \<Rightarrow> prefix p k | None \<Rightarrow> True)
           (map fst (start_entries objs pre marker)) = filter (key_selected pre marker) (map fst objs)"
proof -
  have sorted: "sorted_wrt (<) (map fst objs)" using assms by (simp add: sm_inv_def)
  note excl = sm.keys_from_excl [OF assms] and incl = sm.keys_from_incl [OF assms]
  show ?thesis
  proof (cases pre)
    case None
    then show ?thesis
      by (cases marker) (simp_all add: start_entries_def excl key_selected_def [abs_def] takeWhile_eq_all_conv)
  next
    case (Some p)
    show ?thesis
    proof (cases "\<exists>m. marker = Some m \<and> p \<le> m")
      case True
      then obtain m where m: "marker = Some m" "p \<le> m" by blast
      have "takeWhile (prefix p) (filter (\<lambda>k. m < k) (map fst objs)) =
            filter (prefix p) (filter (\<lambda>k. m < k) (map fst objs))"
        using sorted m by (intro takeWhile_prefix_sorted) (auto simp: sorted_wrt_filter)
      with Some m show ?thesis
        by (simp add: start_entries_def excl key_selected_def [abs_def] conj_commute)
    next
      case False
      then have "map fst (start_entries objs pre marker) = filter (\<lambda>k. p \<le> k) (map fst objs)"
        using Some by (auto simp: start_entries_def incl split: option.splits)
      moreover have "filter (key_selected pre marker) (map fst objs) = filter (prefix p) (map fst objs)"
        using Some False prefix_imp_le
        by (intro filter_cong) (auto simp: key_selected_def not_le split: option.splits dest: order.strict_trans2)
      ultimately show ?thesis using prefix_scan [OF sorted] Some by simp
    qed
  qed
qed

lemma keys_sorted_list:
  assumes "index_inv bi"
  shows "map fst (bi_objects bi) = sorted_list_of_set (keys_of bi)"
proof -
  have "sm_inv (bi_objects bi)" using assms by (simp add: index_inv_def)
  then show ?thesis
    using sorted_list_of_set_sorted [OF sm.entries_sorted] sm.keys_dom by (metis keys_of_def)
qed

lemma list_prefix_marker_eq:
  assumes "lfi_inv ix"
  shows "list_prefix_marker ix b pre marker mx =
           take_limit mx (filter (key_selected pre marker) (sorted_list_of_set (lfi_keys ix b)))"
proof (cases "sm_get (buckets ix) b")
  case None
  then show ?thesis by (simp add: list_prefix_marker_def lfi_keys_def take_limit_def split: option.splits)
next
  case (Some bi)
  with assms have inv: "index_inv bi" by (simp add: lfi_inv_def)
  then have "sm_inv (bi_objects bi)" by (simp add: index_inv_def)
  note start_entries_eq [OF this, of pre marker, unfolded keys_sorted_list [OF inv]]
  with Some show ?thesis
    by (simp add: list_prefix_marker_def lfi_keys_def scan_keys_eq take_limit_def Let_def split: option.splits)
qed

lemma scan_prefix_eq: "scan_prefix p es r = r @ takeWhile (prefix p) (map fst es)"
  by (induction p es r rule: scan_prefix.induct) auto

lemma index_list_eq:
  assumes "lfi_inv ix"
  shows "index_list ix b pre = filter (key_selected pre None) (sorted_list_of_set (lfi_keys ix b))"
proof (cases "sm_get (buckets ix) b")
  case (Some bi)
  with assms have inv: "index_inv bi" by (simp add: lfi_inv_def)
  then have objs: "sm_inv (bi_objects bi)" by (simp add: index_inv_def)
  note keys_sorted_list [OF inv, symmetric]
  with Some start_entries_eq [OF objs, of pre None] show ?thesis
    by (cases pre) (simp_all add: index_list_def lfi_keys_def scan_prefix_eq start_entries_def
        key_selected_def [abs_def] takeWhile_eq_all_conv)
qed (simp add: index_list_def lfi_keys_def)

lemma index_contains_iff: "index_contains ix b k \<longleftrightarrow> k \<in> lfi_keys ix b"
  by (auto simp: index_contains_def lfi_keys_def keys_of_def split: option.splits)

definition entry_at :: "string \<Rightarrow> string \<Rightarrow> directory_entry" where
  "entry_at q p =
     \<lparr>path = p, kind = (if CHR ''/'' \<in> set (drop (length q) p) then CommonPrefix else ObjectEntry)\<rparr>"

lemma path_entry_at [simp]: "path (entry_at q p) = p"
  by (simp add: entry_at_def)

text \<open>The paths of the immediate children of directory \<open>q\<close>.\<close>

definition child_paths :: "string set \<Rightarrow> string \<Rightarrow> string set" where
  "child_paths K q = (\<lambda>k. fst (child_of q k)) ` {k \<in> K. prefix q k}"

lemma children_inv_dirs:
  "children_inv K c \<Longrightarrow> sm_get c q \<noteq> None \<longleftrightarrow> q = '''' \<or> (\<exists>k \<in> K. q \<in> set (parents k))"
  by (simp add: children_inv_def)

lemma children_inv_entries:
  "children_inv K c \<Longrightarrow>
   child_get c q p = Some kd \<longleftrightarrow> (\<exists>k \<in> K. q \<in> set (parents k) \<and> child_of q k = (p, kd))"
  by (simp add: children_inv_def)

lemma scan_entries_eq:
  "scan_entries mx es r =
     r @ (case mx of None \<Rightarrow> map (\<lambda>(p, kd). \<lparr>path = p, kind = kd\<rparr>) es
          | Some m \<Rightarrow> take (max 1 (m - length r)) (map (\<lambda>(p, kd). \<lparr>path = p, kind = kd\<rparr>) es))"
proof (induction mx es r rule: scan_entries.induct)
  case (2 mx p kd es r)
  show ?case
  proof (cases mx)
    case None
    with 2 show ?thesis by (simp add: Let_def)
  next
    case (Some m)
    show ?thesis
    proof (cases "m \<le> Suc (length r)")
      case True
      then have "max 1 (m - length r) = 1" by simp
      with Some True show ?thesis by (simp add: Let_def take_Suc)
    next
      case False
      then have "max 1 (m - length r) = Suc (m - Suc (length r))"
        and "max 1 (m - Suc (length r)) = m - Suc (length r)" by auto
      with 2 Some False show ?thesis by (simp add: Let_def)
    qed
  qed
qed (simp split: option.splits)

lemma child_map_eq:
  assumes inv: "index_inv bi" and q: "q = '''' \<or> last q = CHR ''/''" and cm: "sm_get (bi_children bi) q = Some cm"
  shows "map (\<lambda>(p, kd). \<lparr>path = p, kind = kd\<rparr>) cm = map (entry_at q) (sorted_list_of_set (child_paths (keys_of bi) q))"
proof -
  let ?K = "keys_of bi"
  from inv have c: "children_inv ?K (bi_children bi)" by (simp add: index_inv_def)
  then have sorted: "sm_inv cm" using cm by (auto simp: children_inv_def)
  have get: "sm_get cm p = Some kd \<longleftrightarrow> (\<exists>k \<in> ?K. prefix q k \<and> child_of q k = (p, kd))" for p kd
    using children_inv_entries [OF c, of q p kd] cm q by (auto simp: child_get_def set_parents)
  have kinds: "kd = kind (entry_at q p)" if "(p, kd) \<in> set cm" for p kd
    using that get sm_get_iff [OF sorted] child_of_kind(1) by (fastforce simp: entry_at_def)
  have "(case e of (p, kd) \<Rightarrow> \<lparr>path = p, kind = kd\<rparr>) = entry_at q (fst e)" if "e \<in> set cm" for e
    using kinds [of "fst e" "snd e"] that by (simp add: entry_at_def split_def)
  then have "map (\<lambda>(p, kd). \<lparr>path = p, kind = kd\<rparr>) cm = map (entry_at q) (map fst cm)"
    by simp
  moreover have "set (map fst cm) = child_paths ?K q"
  proof (intro set_eqI)
    fix p
    have "p \<in> set (map fst cm) \<longleftrightarrow> (\<exists>kd. sm_get cm p = Some kd)"
      using sm.keys_dom [OF sorted] by (auto simp: dom_def)
    also have "\<dots> \<longleftrightarrow> (\<exists>k \<in> ?K. prefix q k \<and> fst (child_of q k) = p)"
      unfolding get by (metis prod.collapse fst_conv)
    finally show "p \<in> set (map fst cm) \<longleftrightarrow> p \<in> child_paths ?K q"
      by (auto simp: child_paths_def)
  qed
  then have "map fst cm = sorted_list_of_set (child_paths ?K q)"
    using sorted_list_of_set_sorted [OF sm.entries_sorted [OF sorted]] by simp
  ultimately show ?thesis by simp
qed

lemma list_child_entries_eq:
  assumes "lfi_inv ix" and q: "q = '''' \<or> last q = CHR ''/''"
  shows "list_child_entries ix b q marker mx =
           take_limit mx (map (entry_at q)
             (filter (\<lambda>p. case marker of Some m \<Rightarrow> m < p | None \<Rightarrow> True)
               (sorted_list_of_set (child_paths (lfi_keys ix b) q))))"
proof (cases "sm_get (buckets ix) b")
  case None
  then show ?thesis
    by (simp add: list_child_entries_def lfi_keys_def child_paths_def take_limit_def split: option.splits)
next
  case bi: (Some bi)
  with assms have inv: "index_inv bi" by (simp add: lfi_inv_def)
  then have c: "children_inv (keys_of bi) (bi_children bi)" by (simp add: index_inv_def)
  show ?thesis
  proof (cases "sm_get (bi_children bi) q")
    case None
    then have "\<forall>k \<in> keys_of bi. q \<notin> set (parents k)"
      using children_inv_dirs [OF c, of q] by auto
    then have "child_paths (keys_of bi) q = {}"
      using q by (auto simp: child_paths_def set_parents)
    with bi None show ?thesis
      by (simp add: list_child_entries_def lfi_keys_def take_limit_def split: option.splits)
  next
    case (Some cm)
    then have cm: "sm_inv cm" using c by (auto simp: children_inv_def)
    let ?f = "\<lambda>(p, kd). \<lparr>path = p, kind = kd\<rparr>"
    have "map ?f (case marker of Some m \<Rightarrow> sm_from_excl m cm | None \<Rightarrow> cm) =
          filter (\<lambda>e. case marker of Some m \<Rightarrow> m < path e | None \<Rightarrow> True) (map ?f cm)"
      using sm.entries_from_excl [OF cm]
      by (cases marker) (auto simp: filter_map comp_def split_def)
    also have "\<dots> = map (entry_at q) (filter (\<lambda>p. case marker of Some m \<Rightarrow> m < p | None \<Rightarrow> True)
        (sorted_list_of_set (child_paths (keys_of bi) q)))"
      unfolding child_map_eq [OF inv q Some] by (cases marker) (simp_all add: filter_map comp_def)
    finally show ?thesis
      using bi Some
      by (simp add: list_child_entries_def lfi_keys_def scan_entries_eq take_limit_def split: option.splits)
  qed
qed

section \<open>The interface offered to the store\<close>

text \<open>
  The store relies on the index for the set of keys of each bucket and for ordered pages of
  them. Reading page after page, each starting after the last key of the one before, returns
  every selected key once, in order.
\<close>

locale key_index =
  fixes ix_insert :: "'i \<Rightarrow> string \<Rightarrow> string \<Rightarrow> 'i"
    and ix_remove :: "'i \<Rightarrow> string \<Rightarrow> string \<Rightarrow> 'i"
    and ix_clear :: "'i \<Rightarrow> string \<Rightarrow> 'i"
    and ix_page :: "'i \<Rightarrow> string \<Rightarrow> string option \<Rightarrow> string option \<Rightarrow> nat option \<Rightarrow> string list"
    and ix_keys :: "'i \<Rightarrow> string \<Rightarrow> string set"
    and ix_inv :: "'i \<Rightarrow> bool"
  assumes inv_insert: "ix_inv i \<Longrightarrow> ix_inv (ix_insert i b k)"
    and inv_remove: "ix_inv i \<Longrightarrow> ix_inv (ix_remove i b k)"
    and inv_clear: "ix_inv i \<Longrightarrow> ix_inv (ix_clear i b)"
    and keys_insert: "ix_inv i \<Longrightarrow> ix_keys (ix_insert i b k) = (ix_keys i)(b := insert k (ix_keys i b))"
    and keys_remove: "ix_inv i \<Longrightarrow> ix_keys (ix_remove i b k) = (ix_keys i)(b := ix_keys i b - {k})"
    and keys_clear: "ix_inv i \<Longrightarrow> ix_keys (ix_clear i b) = (ix_keys i)(b := {})"
    and keys_finite: "ix_inv i \<Longrightarrow> finite (ix_keys i b)"
    and page_eq: "ix_inv i \<Longrightarrow> ix_page i b pre marker mx =
        take_limit mx (filter (key_selected pre marker) (sorted_list_of_set (ix_keys i b)))"
begin

lemma page_all:
  "ix_inv i \<Longrightarrow> set (ix_page i b pre marker None) = {k \<in> ix_keys i b. key_selected pre marker k}"
  by (auto simp: page_eq take_limit_def keys_finite)

lemma page_sorted: "ix_inv i \<Longrightarrow> sorted_wrt (<) (ix_page i b pre marker mx)"
  by (auto simp: page_eq take_limit_def sorted_wrt_filter sorted_wrt_take split: option.splits)

text \<open>The page after marker \<open>m\<close> continues exactly where the page that ended in \<open>m\<close> stopped.\<close>

lemma page_continues:
  assumes inv: "ix_inv i" and n: "0 < n" and page: "ix_page i b pre marker (Some n) = ks @ [m]"
  shows "ix_page i b pre marker None = ks @ [m] @ ix_page i b pre (Some m) None"
proof -
  let ?all = "filter (key_selected pre marker) (sorted_list_of_set (ix_keys i b))"
  have sorted: "sorted_wrt (<) ?all" by (simp add: sorted_wrt_filter)
  have "take n ?all = ks @ [m]" using page n by (simp add: page_eq [OF inv] take_limit_def max_def split: if_splits)
  then have all: "?all = ks @ m # drop n ?all" by (metis append_Cons append_Nil append_assoc append_take_drop_id)
  have "filter (\<lambda>k. m < k) ?all = drop n ?all"
  proof -
    have below: "\<forall>k \<in> set (ks @ [m]). \<not> m < k" and above: "\<forall>k \<in> set (drop n ?all). m < k"
      using sorted unfolding all [THEN arg_cong, of "sorted_wrt (<)"]
      by (auto simp: sorted_wrt_append dest: less_asym)
    then have "filter (\<lambda>k. m < k) (ks @ m # drop n ?all) = drop n ?all" by simp
    then show ?thesis by (subst all) simp
  qed
  moreover have "m \<in> set ?all" by (subst all) simp
  then have "key_selected pre (Some m) = (\<lambda>k. key_selected pre marker k \<and> m < k)"
    by (auto simp: fun_eq_iff key_selected_def split: option.splits dest: order.strict_trans)
  ultimately have "ix_page i b pre (Some m) None = drop n ?all"
    by (simp add: page_eq [OF inv] take_limit_def conj_commute)
  then show ?thesis using all by (simp add: page_eq [OF inv] take_limit_def)
qed

end

interpretation lfi: key_index index_insert "\<lambda>i b k. fst (index_remove i b k)" clear_bucket
    list_prefix_marker lfi_keys lfi_inv
proof unfold_locales
  fix i b
  assume "lfi_inv i"
  then show "finite (lfi_keys i b)"
    by (auto simp: lfi_inv_def lfi_keys_def keys_of_def finite_dom_map_of split: option.splits)
qed (simp_all add: index_insert_inv index_remove_inv clear_bucket_inv list_prefix_marker_eq)

section \<open>Sequences of operations\<close>

datatype index_op =
    OpInsert string string
  | OpRemove string string
  | OpClear string
  | OpRebuild "(string \<times> string list) list"

fun index_step :: "lock_free_index \<Rightarrow> index_op \<Rightarrow> lock_free_index" where
  "index_step ix (OpInsert b k) = index_insert ix b k"
| "index_step ix (OpRemove b k) = fst (index_remove ix b k)"
| "index_step ix (OpClear b) = clear_bucket ix b"
| "index_step ix (OpRebuild es) = index_rebuild ix es"

definition index_run :: "index_op list \<Rightarrow> lock_free_index" where
  "index_run = foldl index_step index_new"

text \<open>The abstract specification: one set of keys per bucket.\<close>

fun keys_step :: "(string \<Rightarrow> string set) \<Rightarrow> index_op \<Rightarrow> (string \<Rightarrow> string set)" where
  "keys_step K (OpInsert b k) = K(b := insert k (K b))"
| "keys_step K (OpRemove b k) = K(b := K b - {k})"
| "keys_step K (OpClear b) = K(b := {})"
| "keys_step K (OpRebuild es) = foldl (\<lambda>K (b, ks). K(b := set ks)) K es"

definition keys_run :: "index_op list \<Rightarrow> string \<Rightarrow> string set" where
  "keys_run = foldl keys_step (\<lambda>_. {})"

lemma index_step_refines:
  "lfi_inv ix \<Longrightarrow> lfi_inv (index_step ix a) \<and> lfi_keys (index_step ix a) = keys_step (lfi_keys ix) a"
  by (cases a) (simp_all add: index_insert_inv index_remove_inv clear_bucket_inv index_rebuild_inv)

lemma index_run_from:
  "lfi_inv ix \<Longrightarrow>
   lfi_inv (foldl index_step ix ops) \<and>
   lfi_keys (foldl index_step ix ops) = foldl keys_step (lfi_keys ix) ops"
  by (induction ops arbitrary: ix) (auto simp: index_step_refines)

lemma lfi_keys_new: "lfi_keys index_new = (\<lambda>_. {})"
  by (simp add: fun_eq_iff lfi_keys_def index_new_def)

lemma index_run_inv: "lfi_inv (index_run ops)" "lfi_keys (index_run ops) = keys_run ops"
  using index_run_from [OF lfi_inv_new, of ops]
  by (simp_all add: index_run_def keys_run_def lfi_keys_new)

section \<open>Properties\<close>

text \<open>
  C16. Refinement. After any sequence of insertions, removals, clears and rebuilds, the index
  answers membership as the abstract sets of keys do, and a removal reports whether the key was
  there.
\<close>

theorem index_refines_key_sets:
  "(index_contains (index_run ops) b k \<longleftrightarrow> k \<in> keys_run ops b) \<and>
   (snd (index_remove (index_run ops) b k) \<longleftrightarrow> k \<in> keys_run ops b)"
  by (simp_all add: index_contains_iff index_run_inv index_remove_inv)

text \<open>
  A page of keys is computed by a seek and a scan, but is exactly the sorted list of the keys
  with the given prefix that lie after the marker, cut at the limit (a limit of zero acts as one).
\<close>

theorem list_prefix_marker_spec:
  "list_prefix_marker (index_run ops) b pre marker mx =
     take_limit mx (filter (key_selected pre marker) (sorted_list_of_set (keys_run ops b)))"
  by (simp add: list_prefix_marker_eq index_run_inv)

text \<open>
  The incrementally maintained directory index agrees with the keys: the children listed for
  a directory (the root or a prefix ending in a slash) are the objects directly in it and the
  common prefixes one level down, each once, in order, after the marker, cut at the limit.
\<close>

theorem list_child_entries_spec:
  assumes "q = '''' \<or> last q = CHR ''/''"
  shows "list_child_entries (index_run ops) b q marker mx =
           take_limit mx (map (entry_at q)
             (filter (\<lambda>p. case marker of Some m \<Rightarrow> m < p | None \<Rightarrow> True)
               (sorted_list_of_set (child_paths (keys_run ops b) q))))"
  using list_child_entries_eq [OF index_run_inv(1) assms] by (simp add: index_run_inv)

theorem list_child_entries_spec_witness:
  "list_child_entries (index_run [OpInsert ''b'' ''a/x'', OpInsert ''b'' ''a/y/z'', OpRemove ''b'' ''a/x''])
       ''b'' ''a/'' None None =
     map (entry_at ''a/'')
       (sorted_list_of_set (child_paths (keys_run [OpInsert ''b'' ''a/x'', OpInsert ''b'' ''a/y/z'',
          OpRemove ''b'' ''a/x'']  ''b'') ''a/''))
   \<and> list_child_entries (index_run [OpInsert ''b'' ''a/x'', OpInsert ''b'' ''a/y/z'', OpRemove ''b'' ''a/x''])
       ''b'' ''a/'' None None = [\<lparr>path = ''a/y/'', kind = CommonPrefix\<rparr>]"
proof
  show "list_child_entries (index_run [OpInsert ''b'' ''a/x'', OpInsert ''b'' ''a/y/z'', OpRemove ''b'' ''a/x''])
       ''b'' ''a/'' None None = [\<lparr>path = ''a/y/'', kind = CommonPrefix\<rparr>]"
    by code_simp
qed (simp add: list_child_entries_spec take_limit_def)

text \<open>
  Pages compose: the page that starts after the last key of the previous page continues
  exactly where it stopped, so reading page after page returns every selected key once.
\<close>

theorem list_prefix_marker_continues:
  assumes "0 < n" and "list_prefix_marker (index_run ops) b pre marker (Some n) = ks @ [m]"
  shows "list_prefix_marker (index_run ops) b pre marker None =
           ks @ [m] @ list_prefix_marker (index_run ops) b pre (Some m) None"
  using lfi.page_continues [OF index_run_inv(1) assms] .

theorem list_prefix_marker_continues_witness:
  "list_prefix_marker (index_run [OpInsert ''b'' ''k2'', OpInsert ''b'' ''k1'', OpInsert ''b'' ''z''])
      ''b'' (Some ''k'') None None =
    [''k1''] @ list_prefix_marker (index_run [OpInsert ''b'' ''k2'', OpInsert ''b'' ''k1'', OpInsert ''b'' ''z''])
      ''b'' (Some ''k'') (Some ''k1'') None"
proof -
  have "list_prefix_marker (index_run [OpInsert ''b'' ''k2'', OpInsert ''b'' ''k1'', OpInsert ''b'' ''z''])
      ''b'' (Some ''k'') None (Some 1) = [] @ [''k1'']"
    by code_simp
  from list_prefix_marker_continues [OF _ this] show ?thesis by simp
qed

end
