(* ===== verification/Capture_Models.thy ===== *)
theory Capture_Models
  imports Models
begin

text \<open>
  The data of the capture stores: replay records of provider requests
  (\<^verbatim>\<open>src/src/capture.rs\<close>), captured mail (\<^verbatim>\<open>src/src/mail/model.rs\<close>) and captured text
  messages (\<^verbatim>\<open>src/src/sms/model.rs\<close>). A \<^verbatim>\<open>HashMap<String, Value>\<close> is a map to \<^typ>\<open>json\<close>.
\<close>

type_synonym jsonmap = "string \<rightharpoonup> json"

section \<open>Replay records\<close>

record repeatability_record =
  rr_key :: string
  rr_request_hash :: string
  rr_first_sent :: string
  rr_status :: nat
  rr_result :: json
  rr_transaction_id :: string

section \<open>Mail\<close>

datatype source_protocol = Smtp | SendGrid | Ses | Acs

record address =
  addr_email :: string
  addr_name :: "string option"

definition new_address :: "string \<Rightarrow> address" where
  "new_address email = \<lparr>addr_email = email, addr_name = None\<rparr>"

definition mailbox_key :: "address \<Rightarrow> string" where
  "mailbox_key a = to_ascii_lowercase (str_trim (addr_email a))"

record attachment =
  att_filename :: string
  att_content_type :: string
  att_content :: bytes
  att_disposition :: "string option"
  att_content_id :: "string option"

datatype delivery_state = Accepted | Delivered | Bounced | Rejected

record delivery_status =
  ds_state :: delivery_state
  ds_detail :: "string option"
  ds_updated_at :: datetime

definition accepted :: "datetime \<Rightarrow> delivery_status" where
  "accepted now = \<lparr>ds_state = Accepted, ds_detail = None, ds_updated_at = now\<rparr>"

record message =
  msg_source_protocol :: source_protocol
  msg_from :: address
  msg_to :: "address list"
  msg_cc :: "address list"
  msg_bcc :: "address list"
  msg_reply_to :: "address list"
  msg_subject :: string
  msg_headers :: strmap
  msg_body_text :: "string option"
  msg_body_html :: "string option"
  msg_attachments :: "attachment list"
  msg_tracking_disabled :: "bool option"
  msg_provider_metadata :: jsonmap
  msg_raw_mime :: "bytes option"
  msg_thread_id :: "string option"

definition recipients :: "message \<Rightarrow> address list" where
  "recipients m = msg_to m @ msg_cc m @ msg_bcc m"

record stored_message =
  stm_message_id :: string
  stm_mailbox :: string
  stm_message :: message
  stm_delivery_status :: delivery_status
  stm_received_at :: datetime

record list_messages_params =
  lmp_marker :: "string option"
  lmp_limit :: "nat option"

record list_messages_result =
  lmr_messages :: "stored_message list"
  lmr_next_marker :: "string option"

record mailbox_info =
  mbi_address :: string
  mbi_message_count :: nat
  mbi_last_received_at :: "datetime option"

section \<open>Text messages\<close>

datatype sms_provider = Twilio | Sns | AwsSmsVoiceV2 | AcsSms

fun sms_provider_as_str :: "sms_provider \<Rightarrow> string" where
  "sms_provider_as_str Twilio = ''twilio''"
| "sms_provider_as_str Sns = ''sns''"
| "sms_provider_as_str AwsSmsVoiceV2 = ''aws-sms-voice-v2''"
| "sms_provider_as_str AcsSms = ''acs''"

definition sms_provider_from_str :: "string \<Rightarrow> (string, sms_provider) result" where
  "sms_provider_from_str value =
     (let v = to_ascii_lowercase (str_trim value) in
      if v = ''twilio'' then Ok Twilio
      else if v = ''sns'' then Ok Sns
      else if v \<in> {''aws-sms-voice-v2'', ''sms-voice'', ''pinpoint-sms-voice-v2''} then Ok AwsSmsVoiceV2
      else if v \<in> {''acs'', ''azure''} then Ok AcsSms
      else Err (''unsupported SMS provider: '' @ value))"

datatype sms_direction = Inbound | Outbound
datatype sms_channel = Sms | Mms
datatype sms_delivery_state = SmsAccepted | SmsDelivered | SmsFailed

record sms_media =
  med_media_id :: string
  med_filename :: string
  med_content_type :: string
  med_size :: "nat option"
  med_external_url :: "string option"

record sms_message =
  sms_message_id :: string
  sms_batch_id :: "string option"
  sms_provider_of :: sms_provider
  sms_provider_message_id :: string
  sms_direction_of :: sms_direction
  sms_channel_of :: sms_channel
  sms_from :: string
  sms_to :: string
  sms_body :: string
  sms_media_of :: "sms_media list"
  sms_metadata :: jsonmap
  sms_peer :: string
  sms_delivery_state_of :: sms_delivery_state
  sms_created_at :: datetime
  sms_updated_at :: datetime

record new_sms_media =
  nmed_filename :: string
  nmed_content_type :: string
  nmed_content :: "bytes option"
  nmed_external_url :: "string option"

record new_sms_message =
  nsms_batch_id :: "string option"
  nsms_provider :: sms_provider
  nsms_provider_message_id :: "string option"
  nsms_direction :: sms_direction
  nsms_channel :: sms_channel
  nsms_from :: string
  nsms_to :: string
  nsms_body :: string
  nsms_media :: "new_sms_media list"
  nsms_metadata :: jsonmap

record sms_conversation =
  conv_peer :: string
  conv_message_count :: nat
  conv_last_message_at :: datetime
  conv_last_message_body :: string
  conv_last_direction :: sms_direction
  conv_provider :: sms_provider

record list_sms_params =
  lsp_marker :: "string option"
  lsp_limit :: "nat option"

record list_sms_messages_result =
  lsr_messages :: "sms_message list"
  lsr_next_marker :: "string option"

record text_destination =
  td_provider :: sms_provider
  td_local_number :: string
  td_callback_url :: string
  td_created_at :: datetime
  td_updated_at :: datetime

datatype callback_kind = InboundCallback | DeliveryCallback
datatype callback_attempt_state = CallbackSucceeded | CallbackFailed

record callback_attempt =
  cb_attempt_id :: string
  cb_message_id :: string
  cb_kind :: callback_kind
  cb_provider :: sms_provider
  cb_url :: string
  cb_request_headers :: strmap
  cb_request_body :: string
  cb_response_status :: "nat option"
  cb_response_body :: "string option"
  cb_error :: "string option"
  cb_state :: callback_attempt_state
  cb_attempted_at :: datetime
  cb_retry_of :: "string option"

definition is_e164 :: "string \<Rightarrow> bool" where
  "is_e164 value \<longleftrightarrow>
     8 \<le> length value \<and> length value \<le> 16 \<and> hd value = CHR ''+'' \<and> list_all is_digit (tl value)"

definition valid_sender :: "string \<Rightarrow> bool" where
  "valid_sender value \<longleftrightarrow>
     str_trim value \<noteq> [] \<and> length value \<le> 64 \<and>
     CHR 0x0D \<notin> set value \<and> CHR 0x0A \<notin> set value \<and>
     (is_e164 value \<or>
      list_all (\<lambda>c. is_alphanumeric c \<or> c = CHR '' '' \<or> c = CHR ''-'' \<or> c = CHR ''_'') value)"

end
