(* ===== verification/Fs.thy ===== *)
theory Fs
  imports Models Capture_Models Key_Index
begin

text \<open>
  The file system under the store, and the monad in which the store runs.

  A path is its list of components. A file is a directory or a file with a typed content: a JSON
  document is the value it encodes, so that reading back what was written is the identity and
  reading a document of another type fails. A file whose write was interrupted is \<open>Torn\<close>.

  Every call that changes the file system or flushes it consults an oracle: the call proceeds, or
  fails with an I/O error, or the process stops there. A recursive removal or a write that does not
  proceed may have done part of its work. An exhausted oracle lets every call proceed. Reads do not
  fail on their own, only when the file is missing or has the wrong type. Process termination loses
  no completed call; power loss is outside the model, as it is outside the qualification stated in
  \<^verbatim>\<open>src/src/storage/filesystem/publication.rs\<close>.

  The mutexes of the code order concurrent calls; the model runs one call at a time and has none.
\<close>

section \<open>Files\<close>

type_synonym path = "string list"

record publication =
  pub_stage :: string
  pub_publish :: bool
  pub_clear_current :: bool
  pub_remove_versions :: "string list"
  pub_marker :: "object option"

record bucket_identity =
  id_created_at :: datetime
  id_modified_at :: datetime

datatype content =
    Bytes bytes
  | ObjectJson object
  | PublicationJson publication
  | IdentityJson bucket_identity
  | UploadJson multipart_upload
  | UploadsJson "(string \<times> multipart_upload) list"
  | StrMapJson strmap
  | AclJson acl
  | PolicyJson bucket_policy_document
  | LifecycleJson lifecycle_configuration
  | IntentJson "string list list"
  | RecordJson repeatability_record
  | MailJson stored_message
  | SmsJson sms_message
  | DestinationJson text_destination
  | CallbackJson callback_attempt
  | Torn

datatype node = Dir | File content

text \<open>The length of a payload; only payload files are ever measured.\<close>

fun content_len :: "content \<Rightarrow> nat" where
  "content_len (Bytes b) = length b"
| "content_len _ = 0"

datatype fault = Proceed | Fail "path \<Rightarrow> bool" | Crash "path \<Rightarrow> bool"

section \<open>The state and the monad\<close>

text \<open>
  Maps from strings that the code iterates over are association lists, in an order the code leaves open.

  The state of the storage process: the file system with its oracle, the library functions with the
  number of UUIDs drawn and clock readings taken so far, and the fields of \<^verbatim>\<open>FilesystemStorage\<close>.
\<close>

record world =
  files :: "(path \<times> node) list"
  faults :: "fault list"
  uuid_count :: nat
  clock_count :: nat
  ext :: externs
  base_path :: path
  st_index :: lock_free_index
  uploads_cache :: "string \<rightharpoonup> (string \<times> multipart_upload) list"
  azure_protection_possible :: "string \<rightharpoonup> bool"

datatype 'a outcome = Done 'a | Failed error | Halted

type_synonym 'a io = "world \<Rightarrow> 'a outcome \<times> world"

definition return :: "'a \<Rightarrow> 'a io" where
  "return a s = (Done a, s)"

definition throw :: "error \<Rightarrow> 'a io" where
  "throw e s = (Failed e, s)"

definition bind_io :: "'a io \<Rightarrow> ('a \<Rightarrow> 'b io) \<Rightarrow> 'b io" where
  "bind_io m f s =
     (case m s of
        (Done a, s') \<Rightarrow> f a s'
      | (Failed e, s') \<Rightarrow> (Failed e, s')
      | (Halted, s') \<Rightarrow> (Halted, s'))"

abbreviation then_io :: "'a io \<Rightarrow> 'b io \<Rightarrow> 'b io" where
  "then_io m k \<equiv> bind_io m (\<lambda>_. k)"

text \<open>\<open>try m\<close> turns the error of \<open>m\<close> into a value; a stopped process stays stopped.\<close>

definition try_io :: "'a io \<Rightarrow> 'a res io" where
  "try_io m s =
     (case m s of
        (Done a, s') \<Rightarrow> (Done (Ok a), s')
      | (Failed e, s') \<Rightarrow> (Done (Err e), s')
      | (Halted, s') \<Rightarrow> (Halted, s'))"

definition of_result :: "'a res \<Rightarrow> 'a io" where
  "of_result r = (case r of Ok a \<Rightarrow> return a | Err e \<Rightarrow> throw e)"

definition ignore_errors :: "'a io \<Rightarrow> unit io" where
  "ignore_errors m = bind_io (try_io m) (\<lambda>_. return ())"

text \<open>Run \<open>h\<close> when \<open>m\<close> fails, ignoring its own errors, and report the error of \<open>m\<close>.\<close>

definition on_error :: "'a io \<Rightarrow> unit io \<Rightarrow> 'a io" where
  "on_error m h =
     bind_io (try_io m) (\<lambda>r. case r of Ok a \<Rightarrow> return a | Err e \<Rightarrow> then_io (ignore_errors h) (throw e))"

definition map_error :: "(error \<Rightarrow> error) \<Rightarrow> 'a io \<Rightarrow> 'a io" where
  "map_error f m = bind_io (try_io m) (\<lambda>r. case r of Ok a \<Rightarrow> return a | Err e \<Rightarrow> throw (f e))"

definition gets :: "(world \<Rightarrow> 'a) \<Rightarrow> 'a io" where
  "gets f s = (Done (f s), s)"

definition modify :: "(world \<Rightarrow> world) \<Rightarrow> unit io" where
  "modify f s = (Done (), f s)"

fun for_each :: "'a list \<Rightarrow> ('a \<Rightarrow> unit io) \<Rightarrow> unit io" where
  "for_each [] f = return ()"
| "for_each (x # xs) f = then_io (f x) (for_each xs f)"

text \<open>The results a loop pushes, in order.\<close>

fun collect_io :: "'a list \<Rightarrow> ('a \<Rightarrow> 'b option io) \<Rightarrow> 'b list io" where
  "collect_io [] f = return []"
| "collect_io (x # xs) f =
     bind_io (f x) (\<lambda>y. bind_io (collect_io xs f) (\<lambda>ys.
     return (case y of Some b \<Rightarrow> b # ys | None \<Rightarrow> ys)))"

fun fold_io :: "('b \<Rightarrow> 'a \<Rightarrow> 'b io) \<Rightarrow> 'b \<Rightarrow> 'a list \<Rightarrow> 'b io" where
  "fold_io f acc [] = return acc"
| "fold_io f acc (x # xs) = bind_io (f acc x) (\<lambda>acc'. fold_io f acc' xs)"

definition guard_io :: "bool \<Rightarrow> error \<Rightarrow> unit io" where
  "guard_io b e = (if b then return () else throw e)"

definition when_io :: "bool \<Rightarrow> unit io \<Rightarrow> unit io" where
  "when_io b m = (if b then m else return ())"

section \<open>Reading\<close>

definition fs_get :: "world \<Rightarrow> path \<Rightarrow> node option" where
  "fs_get s p = (if p = [] then Some Dir else map_of (files s) p)"

definition path_exists :: "world \<Rightarrow> path \<Rightarrow> bool" where
  "path_exists s p \<longleftrightarrow> fs_get s p \<noteq> None"

definition is_dir :: "world \<Rightarrow> path \<Rightarrow> bool" where
  "is_dir s p \<longleftrightarrow> fs_get s p = Some Dir"

definition file_content :: "world \<Rightarrow> path \<Rightarrow> content option" where
  "file_content s p = (case fs_get s p of Some (File c) \<Rightarrow> Some c | _ \<Rightarrow> None)"

definition child_name :: "path \<Rightarrow> path \<Rightarrow> string option" where
  "child_name d p = (if p \<noteq> [] \<and> butlast p = d then Some (last p) else None)"

definition dir_entries :: "world \<Rightarrow> path \<Rightarrow> string list" where
  "dir_entries s d = remdups (List.map_filter (\<lambda>e. child_name d (fst e)) (files s))"

definition read_file :: "path \<Rightarrow> string \<Rightarrow> content io" where
  "read_file p msg s =
     (case file_content s p of
        Some c \<Rightarrow> (Done c, s)
      | None \<Rightarrow> (Failed (InternalError msg), s))"

definition read_dir :: "path \<Rightarrow> string \<Rightarrow> string list io" where
  "read_dir d msg s =
     (if is_dir s d then (Done (dir_entries s d), s) else (Failed (InternalError msg), s))"

text \<open>Text and payload files; the other contents are never read as bytes.\<close>

definition text_bytes :: "string \<Rightarrow> bytes" where
  "text_bytes = map (\<lambda>c. word_of_nat (of_char c))"

definition bytes_text :: "bytes \<Rightarrow> string" where
  "bytes_text = map (\<lambda>b. char_of (unat b))"

lemma unat_text_byte: "unat (word_of_nat (of_char c) :: byte) = of_char c"
  using nat_of_char_less_256 [of c] by (simp add: unat_of_nat take_bit_nat_eq_self)

lemma bytes_text_bytes [simp]: "bytes_text (text_bytes s) = s"
  by (simp add: bytes_text_def text_bytes_def comp_def unat_text_byte)

definition read_bytes :: "path \<Rightarrow> string \<Rightarrow> bytes io" where
  "read_bytes p msg =
     bind_io (read_file p msg) (\<lambda>c. case c of Bytes b \<Rightarrow> return b | _ \<Rightarrow> throw (InternalError msg))"

section \<open>Calls that may fail or stop\<close>

definition next_fault :: "world \<Rightarrow> fault \<times> world" where
  "next_fault s =
     (case faults s of
        [] \<Rightarrow> (Proceed, s)
      | f # fs \<Rightarrow> (f, s\<lparr>faults := fs\<rparr>))"

text \<open>
  \<open>eff\<close> is the effect of the call, undefined where the operating system refuses it; \<open>part\<close> is what
  an interrupted call may have done.
\<close>

definition syscall :: "(world \<Rightarrow> world option) \<Rightarrow> ((path \<Rightarrow> bool) \<Rightarrow> world \<Rightarrow> world) \<Rightarrow> string \<Rightarrow> unit io" where
  "syscall eff part msg s =
     (case next_fault s of
        (Proceed, s1) \<Rightarrow>
          (case eff s1 of
             Some s2 \<Rightarrow> (Done (), s2)
           | None \<Rightarrow> (Failed (InternalError msg), s1))
      | (Fail q, s1) \<Rightarrow> (Failed (InternalError msg), part q s1)
      | (Crash q, s1) \<Rightarrow> (Halted, part q s1))"

definition untouched :: "(path \<Rightarrow> bool) \<Rightarrow> world \<Rightarrow> world" where
  "untouched q s = s"

definition fs_put :: "path \<Rightarrow> node \<Rightarrow> world \<Rightarrow> world" where
  "fs_put p n s = s\<lparr>files := AList.update p n (files s)\<rparr>"

definition fs_delete :: "(path \<Rightarrow> bool) \<Rightarrow> world \<Rightarrow> world" where
  "fs_delete q s = s\<lparr>files := filter (\<lambda>e. \<not> q (fst e)) (files s)\<rparr>"

definition parent :: "path \<Rightarrow> path" where
  "parent p = butlast p"

definition is_file :: "world \<Rightarrow> path \<Rightarrow> bool" where
  "is_file s p \<longleftrightarrow> file_content s p \<noteq> None"

definition sync_path :: "path \<Rightarrow> string \<Rightarrow> unit io" where
  "sync_path p msg = syscall (\<lambda>s. if path_exists s p then Some s else None) untouched msg"

definition create_dir :: "path \<Rightarrow> string \<Rightarrow> unit io" where
  "create_dir p msg =
     syscall (\<lambda>s. if p \<noteq> [] \<and> is_dir s (parent p) \<and> \<not> path_exists s p then Some (fs_put p Dir s) else None)
       untouched msg"

text \<open>\<^verbatim>\<open>File::create\<close> truncates an existing file.\<close>

definition create_file :: "path \<Rightarrow> string \<Rightarrow> unit io" where
  "create_file p msg =
     syscall (\<lambda>s. if p \<noteq> [] \<and> is_dir s (parent p) \<and> \<not> is_dir s p then Some (fs_put p (File (Bytes [])) s)
                  else None)
       untouched msg"

definition tear :: "path \<Rightarrow> (path \<Rightarrow> bool) \<Rightarrow> world \<Rightarrow> world" where
  "tear p q s = (if q p then fs_put p (File Torn) s else s)"

definition write_all :: "path \<Rightarrow> content \<Rightarrow> string \<Rightarrow> unit io" where
  "write_all p c msg =
     syscall (\<lambda>s. if is_file s p then Some (fs_put p (File c) s) else None) (tear p) msg"

text \<open>Further writes to an open file.\<close>

definition append_bytes :: "path \<Rightarrow> bytes \<Rightarrow> string \<Rightarrow> unit io" where
  "append_bytes p b msg =
     syscall (\<lambda>s. case file_content s p of
                    Some (Bytes a) \<Rightarrow> Some (fs_put p (File (Bytes (a @ b))) s)
                  | _ \<Rightarrow> None)
       (tear p) msg"

text \<open>A file replaces a file; a directory moves with everything below it to a free path.\<close>

definition move_path :: "path \<Rightarrow> path \<Rightarrow> path \<Rightarrow> path" where
  "move_path src dst p = (if prefix src p then dst @ drop (length src) p else p)"

definition rename_effect :: "path \<Rightarrow> path \<Rightarrow> world \<Rightarrow> world option" where
  "rename_effect src dst s =
     (if dst = [] \<or> src = [] \<or> \<not> is_dir s (parent dst) then None
      else case fs_get s src of
        None \<Rightarrow> None
      | Some (File c) \<Rightarrow>
          if is_dir s dst then None
          else if src = dst then Some s
          else Some (fs_put dst (File c) (fs_delete (\<lambda>p. p = src) s))
      | Some Dir \<Rightarrow>
          if path_exists s dst \<or> prefix src dst then None
          else Some (s\<lparr>files := map (\<lambda>(p, n). (move_path src dst p, n)) (files s)\<rparr>))"

definition rename :: "path \<Rightarrow> path \<Rightarrow> string \<Rightarrow> unit io" where
  "rename src dst msg = syscall (rename_effect src dst) untouched msg"

definition hard_link :: "path \<Rightarrow> path \<Rightarrow> unit io" where
  "hard_link src dst =
     syscall (\<lambda>s. case file_content s src of
                    Some c \<Rightarrow> if dst \<noteq> [] \<and> is_dir s (parent dst) \<and> \<not> path_exists s dst
                              then Some (fs_put dst (File c) s) else None
                  | None \<Rightarrow> None)
       untouched ''hard link''"

definition copy_file :: "path \<Rightarrow> path \<Rightarrow> string \<Rightarrow> unit io" where
  "copy_file src dst msg =
     syscall (\<lambda>s. case file_content s src of
                    Some c \<Rightarrow> if dst \<noteq> [] \<and> is_dir s (parent dst) \<and> \<not> is_dir s dst
                              then Some (fs_put dst (File c) s) else None
                  | None \<Rightarrow> None)
       (tear dst) msg"

definition remove_file :: "path \<Rightarrow> string \<Rightarrow> unit io" where
  "remove_file p msg =
     syscall (\<lambda>s. if is_file s p then Some (fs_delete (\<lambda>q. q = p) s) else None) untouched msg"

definition remove_dir :: "path \<Rightarrow> string \<Rightarrow> unit io" where
  "remove_dir p msg =
     syscall (\<lambda>s. if p \<noteq> [] \<and> is_dir s p \<and> dir_entries s p = [] then Some (fs_delete (\<lambda>q. q = p) s) else None)
       untouched msg"

definition remove_dir_all :: "path \<Rightarrow> string \<Rightarrow> unit io" where
  "remove_dir_all p msg =
     syscall (\<lambda>s. if p \<noteq> [] \<and> is_dir s p then Some (fs_delete (prefix p) s) else None)
       (\<lambda>q. fs_delete (\<lambda>r. strict_prefix p r \<and> q r)) msg"

section \<open>UUIDs and the clock\<close>

definition new_uuid :: "string io" where
  "new_uuid s = (Done (ext_uuid (ext s) (uuid_count s)), s\<lparr>uuid_count := uuid_count s + 1\<rparr>)"

definition now_io :: "datetime io" where
  "now_io s = (Done (ext_now (ext s) (clock_count s)), s\<lparr>clock_count := clock_count s + 1\<rparr>)"

section \<open>Durable helpers\<close>

text \<open>
  \<^verbatim>\<open>sync_directory\<close>, \<^verbatim>\<open>create_directory_durable\<close>, \<^verbatim>\<open>atomic_write\<close>, \<^verbatim>\<open>atomic_copy\<close> and
  \<^verbatim>\<open>atomic_move\<close>. Error texts keep their fixed part.
\<close>

definition sync_directory :: "path \<Rightarrow> unit io" where
  "sync_directory p = sync_path p ''Failed to sync directory''"

function create_directory_durable :: "path \<Rightarrow> unit io" where
  "create_directory_durable p s =
     (if is_dir s p then (Done (), s)
      else if p = [] then (Failed (InternalError ''Invalid directory path''), s)
      else bind_io (create_directory_durable (parent p)) (\<lambda>_.
           bind_io (try_io (create_dir p ''Failed to create directory'')) (\<lambda>r.
           bind_io (gets (\<lambda>s. is_dir s p)) (\<lambda>there.
           bind_io (case r of Ok _ \<Rightarrow> return () | Err e \<Rightarrow> if there then return () else throw e) (\<lambda>_.
           sync_directory (parent p))))) s)"
  by pat_completeness auto
termination
  by (relation "measure (\<lambda>(p, s). length p)") (auto simp: parent_def)

declare create_directory_durable.simps [simp del]

definition temp_name :: "string \<Rightarrow> string \<Rightarrow> string" where
  "temp_name file_name uuid = ''.'' @ file_name @ ''.'' @ uuid @ ''.tmp''"

definition atomic_write :: "path \<Rightarrow> content \<Rightarrow> unit io" where
  "atomic_write p c =
     (if p = [] then throw (InternalError ''Invalid file path'')
      else
        bind_io (create_directory_durable (parent p)) (\<lambda>_.
        bind_io new_uuid (\<lambda>uuid.
        let temp_path = parent p @ [temp_name (last p) uuid] in
        on_error
          (then_io (create_file temp_path ''Failed to create temp file'')
          (then_io (write_all temp_path c ''Failed to write temp file'')
          (then_io (sync_path temp_path ''Failed to sync temp file'')
          (then_io (rename temp_path p ''Failed to commit temp file'')
          (sync_directory (parent p))))))
          (remove_file temp_path ''remove''))))"

definition atomic_copy :: "path \<Rightarrow> path \<Rightarrow> unit io" where
  "atomic_copy src dest =
     (if dest = [] then throw (InternalError ''Invalid copy destination'')
      else
        bind_io (create_directory_durable (parent dest)) (\<lambda>_.
        bind_io new_uuid (\<lambda>uuid.
        let temp = parent dest @ [''.copy-'' @ uuid @ ''.tmp''] in
        on_error
          (then_io (copy_file src temp ''Failed to copy staged payload'')
          (then_io (sync_path temp ''Failed to sync copied payload'')
          (then_io (rename temp dest ''Failed to publish copied payload'')
          (sync_directory (parent dest)))))
          (remove_file temp ''remove''))))"

definition atomic_move :: "path \<Rightarrow> path \<Rightarrow> unit io" where
  "atomic_move src dest =
     (if dest = [] then throw (InternalError ''Invalid file path'')
      else
        then_io (create_directory_durable (parent dest))
        (then_io (sync_path src ''Failed to sync spooled payload'')
        (bind_io (try_io (rename src dest ''rename'')) (\<lambda>renamed.
         then_io
           (case renamed of
              Ok _ \<Rightarrow> return ()
            | Err _ \<Rightarrow> then_io (atomic_copy src dest) (remove_file src ''Failed to remove spooled payload''))
           (then_io (sync_directory (parent dest))
             (when_io (src \<noteq> [] \<and> parent src \<noteq> parent dest) (sync_directory (parent src))))))))"

text \<open>
  \<^verbatim>\<open>fs::create_dir_all\<close>: the missing directories on the way to \<open>p\<close>, outermost first.
\<close>

definition create_dir_all :: "path \<Rightarrow> string \<Rightarrow> unit io" where
  "create_dir_all p msg =
     for_each (tl (prefixes p)) (\<lambda>q.
       bind_io (gets (\<lambda>s. is_dir s q)) (\<lambda>there. when_io (\<not> there) (create_dir q msg)))"

end
