(* ===== verification/Publication.thy ===== *)
theory Publication
  imports Fs
begin

text \<open>
  Crash-safe publication of object generations (\<^verbatim>\<open>src/src/storage/filesystem/publication.rs\<close>).

  A change to an object directory is staged in a private subdirectory, decided by writing the
  journal \<^verbatim>\<open>.publication.json\<close>, applied to the public files, and retired by removing the journal.
\<close>

section \<open>Operations\<close>

definition JOURNAL :: string where "JOURNAL = ''.publication.json''"
definition STAGE_PREFIX :: string where "STAGE_PREFIX = ''.publication-stage-''"
definition BLOB :: string where "BLOB = ''object.blob''"
definition META :: string where "META = ''object.meta.json''"
definition VERSIONS :: string where "VERSIONS = ''versions''"

datatype object_payload = InMemory | Spooled path | Stored path

text \<open>
  \<^verbatim>\<open>Path::components\<close> of the identifier is one normal component and it holds no separator.
\<close>

definition version_id_ok :: "string \<Rightarrow> bool" where
  "version_id_ok v \<longleftrightarrow>
     v \<noteq> '''' \<and> v \<noteq> ''.'' \<and> v \<noteq> ''..'' \<and>
     list_all (\<lambda>c. c \<noteq> CHR ''/'' \<and> c \<noteq> CHR 0x5C \<and> c \<noteq> CHR 0x00) v"

definition validate_version_id :: "string \<Rightarrow> unit io" where
  "validate_version_id v = guard_io (version_id_ok v) NoSuchVersion"

definition write_object_metadata :: "path \<Rightarrow> object \<Rightarrow> unit io" where
  "write_object_metadata p ob = atomic_write p (ObjectJson (serialize_object ob))"

definition read_object_metadata :: "path \<Rightarrow> object io" where
  "read_object_metadata p =
     bind_io (read_file p ''Failed to read metadata'') (\<lambda>c.
     case c of
       ObjectJson ob \<Rightarrow> return ob
     | _ \<Rightarrow> throw (InternalError ''Failed to parse metadata''))"

definition is_stage :: "externs \<Rightarrow> string \<Rightarrow> bool" where
  "is_stage x name =
     (case strip_prefix STAGE_PREFIX name of Some sfx \<Rightarrow> ext_is_uuid x sfx | None \<Rightarrow> False)"

definition temp_prefixes :: "string list" where
  "temp_prefixes =
     [''.published-'', ''.copy-'', ''.object.blob.'', ''.object.meta.json.'', ''..publication.json.'']"

definition publication_temp :: "externs \<Rightarrow> string \<Rightarrow> bool" where
  "publication_temp x name =
     list_ex (\<lambda>p.
       case strip_prefix p name of
         None \<Rightarrow> False
       | Some rest \<Rightarrow>
           (case strip_suffix ''.tmp'' rest of
              None \<Rightarrow> False
            | Some sfx \<Rightarrow> ext_is_uuid x sfx)) temp_prefixes"

definition clean_uncommitted_stages :: "path \<Rightarrow> unit io" where
  "clean_uncommitted_stages directory =
     bind_io (read_dir directory ''read_dir'') (\<lambda>names.
     bind_io (gets ext) (\<lambda>x.
     for_each names (\<lambda>name.
       if is_stage x name then
         then_io (remove_dir_all (directory @ [name]) ''Failed to remove uncommitted publication'')
           (sync_directory directory)
       else if publication_temp x name then
         then_io (remove_file (directory @ [name]) ''remove_file'') (sync_directory directory)
       else return ())))"

definition validate_publication :: "publication \<Rightarrow> path \<Rightarrow> unit io" where
  "validate_publication record stage =
     then_io (guard_io (\<not> (pub_publish record \<and> (pub_clear_current record \<or> pub_marker record \<noteq> None)))
               (InternalError ''Conflicting publication actions''))
     (then_io (for_each (pub_remove_versions record) validate_version_id)
     (then_io
       (case pub_marker record of
          None \<Rightarrow> return ()
        | Some marker \<Rightarrow>
            bind_io (of_result (ok_or (InternalError ''Missing delete marker identity'') (obj_version_id marker))) (\<lambda>v.
            then_io (validate_version_id v)
              (guard_io (\<not> (obj_size marker \<noteq> 0 \<or> \<not> pub_clear_current record))
                (InternalError ''Invalid delete marker publication''))))
       (when_io (pub_publish record)
         (bind_io (read_file (stage @ [META]) ''Cannot recover staged metadata'') (\<lambda>json.
          bind_io (case json of
                     ObjectJson ob \<Rightarrow> return ob
                   | _ \<Rightarrow> throw (InternalError ''Invalid staged metadata'')) (\<lambda>ob.
          bind_io (read_file (stage @ [BLOB]) ''Cannot recover staged body'') (\<lambda>body.
          guard_io (content_len body = obj_size ob)
            (InternalError ''Staged object body and metadata sizes disagree''))))))))"

definition stage_stored_payload :: "path \<Rightarrow> path \<Rightarrow> unit io" where
  "stage_stored_payload source destination =
     bind_io (try_io (hard_link source destination)) (\<lambda>linked.
     then_io (case linked of Ok _ \<Rightarrow> return () | Err _ \<Rightarrow> atomic_copy source destination)
     (then_io (sync_path destination ''Failed to sync stored generation'')
       (sync_directory (parent destination))))"

definition publish_staged_file :: "path \<Rightarrow> path \<Rightarrow> unit io" where
  "publish_staged_file source destination =
     bind_io new_uuid (\<lambda>uuid.
     let temp = parent destination @ [''.published-'' @ uuid @ ''.tmp''] in
     bind_io (try_io (hard_link source temp)) (\<lambda>linked.
     then_io (case linked of Ok _ \<Rightarrow> return () | Err _ \<Rightarrow> atomic_copy source temp)
     (then_io (rename temp destination ''Failed to publish staged object generation'')
       (sync_directory (parent destination)))))"

definition retire_version :: "path \<Rightarrow> string \<Rightarrow> unit io" where
  "retire_version directory v =
     then_io (validate_version_id v)
     (let path = directory @ [VERSIONS, v] in
      bind_io (gets (\<lambda>s. path_exists s path)) (\<lambda>there.
      when_io there
        (bind_io (gets (\<lambda>s. path_exists s (path @ [BLOB]))) (\<lambda>body.
         then_io (when_io body (then_io (remove_file (path @ [BLOB]) ''remove_file'') (sync_directory path)))
         (then_io (remove_dir_all path ''Failed to retire historical version'')
           (sync_directory (directory @ [VERSIONS])))))))"

definition write_marker :: "path \<Rightarrow> object \<Rightarrow> unit io" where
  "write_marker directory marker =
     bind_io (of_result (ok_or (InternalError ''Missing marker version identity'') (obj_version_id marker))) (\<lambda>v.
     then_io (validate_version_id v)
     (let path = directory @ [VERSIONS, v] in
      then_io (create_directory_durable path)
      (then_io (atomic_write (path @ [BLOB]) (Bytes []))
        (write_object_metadata (path @ [META]) marker))))"

definition clear_current_files :: "path \<Rightarrow> unit io" where
  "clear_current_files directory =
     for_each [BLOB, META] (\<lambda>name.
       bind_io (gets (\<lambda>s. path_exists s (directory @ [name]))) (\<lambda>there.
       when_io there
         (then_io (remove_file (directory @ [name]) ''remove_file'') (sync_directory directory))))"

definition apply_history_changes :: "path \<Rightarrow> publication \<Rightarrow> unit io" where
  "apply_history_changes directory record =
     then_io (for_each (pub_remove_versions record) (retire_version directory))
     (then_io (case pub_marker record of None \<Rightarrow> return () | Some marker \<Rightarrow> write_marker directory marker)
       (when_io (pub_clear_current record) (clear_current_files directory)))"

definition apply_publication :: "path \<Rightarrow> unit io" where
  "apply_publication directory =
     bind_io (read_file (directory @ [JOURNAL]) ''read journal'') (\<lambda>json.
     bind_io (case json of
                PublicationJson r \<Rightarrow> return r
              | _ \<Rightarrow> throw (InternalError ''Invalid object publication journal'')) (\<lambda>record.
     bind_io (gets ext) (\<lambda>x.
     then_io (guard_io (is_stage x (pub_stage record))
               (InternalError ''Invalid object publication staging identity''))
     (let stage = directory @ [pub_stage record] in
      then_io (validate_publication record stage)
      (then_io (when_io (pub_publish record)
                 (then_io (publish_staged_file (stage @ [BLOB]) (directory @ [BLOB]))
                   (publish_staged_file (stage @ [META]) (directory @ [META]))))
      (then_io (apply_history_changes directory record)
      (then_io (remove_file (directory @ [JOURNAL]) ''Failed to retire publication journal'')
      (then_io (sync_directory directory)
      (then_io (remove_dir_all stage ''Failed to clean committed publication'')
        (sync_directory directory))))))))))"

definition recover_publication :: "path \<Rightarrow> unit io" where
  "recover_publication directory =
     bind_io (gets (\<lambda>s. path_exists s directory)) (\<lambda>there.
     if \<not> there then return ()
     else
       bind_io (gets (\<lambda>s. path_exists s (directory @ [JOURNAL]))) (\<lambda>journal.
       then_io (when_io journal (apply_publication directory))
         (clean_uncommitted_stages directory)))"

definition serialize_publication :: "publication \<Rightarrow> publication" where
  "serialize_publication record = record\<lparr>pub_marker := map_option serialize_object (pub_marker record)\<rparr>"

definition commit_publication :: "path \<Rightarrow> publication \<Rightarrow> unit io" where
  "commit_publication directory record =
     bind_io (try_io (validate_publication record (directory @ [pub_stage record]))) (\<lambda>valid.
     case valid of
       Err e \<Rightarrow> then_io (clean_uncommitted_stages directory) (throw e)
     | Ok _ \<Rightarrow>
         bind_io (try_io
           (then_io (atomic_write (directory @ [JOURNAL]) (PublicationJson (serialize_publication record)))
             (apply_publication directory))) (\<lambda>outcome.
         bind_io (gets (\<lambda>s. path_exists s (directory @ [JOURNAL]))) (\<lambda>journal.
         case outcome of
           Ok _ \<Rightarrow> return ()
         | Err e \<Rightarrow>
             if journal then
               bind_io (try_io (recover_publication directory)) (\<lambda>r.
               case r of
                 Ok _ \<Rightarrow> return ()
               | Err _ \<Rightarrow> throw (InternalError ''Publication failed; recovery required before reads''))
             else then_io (clean_uncommitted_stages directory) (throw e))))"

definition stage_payload :: "object_payload \<Rightarrow> object \<Rightarrow> path \<Rightarrow> unit io" where
  "stage_payload payload ob dest =
     (case payload of
        InMemory \<Rightarrow> atomic_write dest (Bytes (obj_data ob))
      | Spooled p \<Rightarrow> atomic_move p dest
      | Stored p \<Rightarrow> stage_stored_payload p dest)"

text \<open>Whether the directory is not itself a version directory.\<close>

definition current_directory :: "path \<Rightarrow> bool" where
  "current_directory directory \<longleftrightarrow> parent directory = [] \<or> last (parent directory) \<noteq> VERSIONS"

definition publish_pair :: "path \<Rightarrow> object \<Rightarrow> object_payload \<Rightarrow> unit io" where
  "publish_pair directory ob payload =
     then_io (recover_publication directory)
     (then_io (create_directory_durable directory)
     (bind_io new_uuid (\<lambda>uuid.
      let record = \<lparr>pub_stage = STAGE_PREFIX @ uuid, pub_publish = True, pub_clear_current = False,
                    pub_remove_versions =
                      (if obj_version_id ob = Some ''null'' \<and> current_directory directory then [''null''] else []),
                    pub_marker = None\<rparr>;
          stage = directory @ [pub_stage record]
      in
      then_io (create_directory_durable stage)
      (then_io (stage_payload payload ob (stage @ [BLOB]))
      (then_io (write_object_metadata (stage @ [META]) ob)
        (commit_publication directory record))))))"

definition change_history ::
    "path \<Rightarrow> (object \<times> path) option \<Rightarrow> string list \<Rightarrow> object option \<Rightarrow> bool \<Rightarrow> unit io" where
  "change_history directory promoted remove_versions marker clear_current =
     then_io (recover_publication directory)
     (then_io (create_directory_durable directory)
     (bind_io new_uuid (\<lambda>uuid.
      let record = \<lparr>pub_stage = STAGE_PREFIX @ uuid, pub_publish = (promoted \<noteq> None),
                    pub_clear_current = clear_current, pub_remove_versions = remove_versions,
                    pub_marker = marker\<rparr>;
          stage = directory @ [pub_stage record]
      in
      then_io (create_directory_durable stage)
      (then_io
        (case promoted of
           None \<Rightarrow> return ()
         | Some (ob, p) \<Rightarrow>
             then_io (stage_stored_payload p (stage @ [BLOB])) (write_object_metadata (stage @ [META]) ob))
        (commit_publication directory record)))))"

section \<open>Recovery of a whole storage root\<close>

definition remove_empty_recovered_object :: "path \<Rightarrow> unit io" where
  "remove_empty_recovered_object directory =
     (let versions = directory @ [VERSIONS] in
      bind_io (gets (\<lambda>s. is_dir s versions \<and> dir_entries s versions = [])) (\<lambda>empty_versions.
      then_io (when_io empty_versions (then_io (remove_dir versions ''remove_dir'') (sync_directory directory)))
      (bind_io (read_dir directory ''read_dir'') (\<lambda>names.
       when_io (names = [])
         (then_io (remove_dir directory ''remove_dir'')
           (when_io (directory \<noteq> []) (sync_directory (parent directory))))))))"

definition clean_retired_uploads :: "path \<Rightarrow> unit io" where
  "clean_retired_uploads bucket =
     (let root = bucket @ [''.multipart''] in
      bind_io (gets (\<lambda>s. is_dir s root)) (\<lambda>there.
      when_io there
        (bind_io (read_dir root ''read_dir'') (\<lambda>names.
         bind_io (gets ext) (\<lambda>x.
         for_each names (\<lambda>name.
           when_io (case strip_prefix ''.retired-upload-'' name of
                      Some sfx \<Rightarrow> ext_is_uuid x sfx
                    | None \<Rightarrow> False)
             (then_io (remove_dir_all (root @ [name]) ''remove_dir_all'') (sync_directory root))))))))"

definition recover_version :: "path \<Rightarrow> string \<Rightarrow> unit io" where
  "recover_version versions name =
     bind_io (gets (\<lambda>s. is_dir s (versions @ [name]))) (\<lambda>d.
     when_io d
       (then_io (recover_publication (versions @ [name]))
         (remove_empty_recovered_object (versions @ [name]))))"

definition recover_object_directory :: "path \<Rightarrow> string \<Rightarrow> unit io" where
  "recover_object_directory bucket name =
     bind_io (gets (\<lambda>s. is_dir s (bucket @ [name]))) (\<lambda>d.
     when_io (d \<and> \<not> prefix ''.'' name)
       (let object = bucket @ [name]; versions = object @ [VERSIONS] in
        then_io (recover_publication object)
        (bind_io (gets (\<lambda>s. is_dir s versions)) (\<lambda>v.
         then_io (when_io v (bind_io (read_dir versions ''read_dir'') (\<lambda>names. for_each names (recover_version versions))))
           (remove_empty_recovered_object object)))))"

definition recover_bucket_directory :: "path \<Rightarrow> string \<Rightarrow> unit io" where
  "recover_bucket_directory root name =
     (let bucket = root @ [name] in
      bind_io (gets (\<lambda>s. is_dir s bucket \<and> is_file s (bucket @ [''.bucket.name'']))) (\<lambda>b.
      when_io b
        (then_io (clean_retired_uploads bucket)
          (bind_io (read_dir bucket ''read_dir'') (\<lambda>names. for_each names (recover_object_directory bucket))))))"

definition recover_publications :: "path \<Rightarrow> unit io" where
  "recover_publications root =
     bind_io (read_dir root ''Failed to inspect storage recovery root'') (\<lambda>names.
     for_each names (recover_bucket_directory root))"

end
