(* ===== verification/Store.thy ===== *)
theory Store
  imports Publication
begin

text \<open>
  The object store on the file system (\<^verbatim>\<open>src/src/storage/filesystem.rs\<close> and the layout and helper
  functions of \<^verbatim>\<open>src/src/storage/filesystem/io.rs\<close>): buckets, conditional writes, objects and
  deletes. Locks are left out; \<^verbatim>\<open>_locked\<close> and unlocked entry points that differ only in the
  lock share one definition.
\<close>

section \<open>Layout\<close>

definition bucket_dir :: "world \<Rightarrow> string \<Rightarrow> path" where
  "bucket_dir s bucket = base_path s @ [''b-'' @ ext_sha256_hex (ext s) bucket]"

definition compute_object_id :: "externs \<Rightarrow> string \<Rightarrow> string \<Rightarrow> string" where
  "compute_object_id x bucket key = lower_hex (ext_hash64 x bucket key)"

definition object_id_dir :: "world \<Rightarrow> string \<Rightarrow> string \<Rightarrow> path" where
  "object_id_dir s bucket object_id = bucket_dir s bucket @ [object_id]"

definition object_dir :: "world \<Rightarrow> string \<Rightarrow> string \<Rightarrow> path" where
  "object_dir s bucket key = object_id_dir s bucket (compute_object_id (ext s) bucket key)"

definition bucket_acl_path :: "world \<Rightarrow> string \<Rightarrow> path" where
  "bucket_acl_path s bucket = bucket_dir s bucket @ [''bucket.acl.json'']"

definition bucket_metadata_path :: "world \<Rightarrow> string \<Rightarrow> path" where
  "bucket_metadata_path s bucket = bucket_dir s bucket @ [''.bucket.meta.json'']"

definition versioning_marker :: "world \<Rightarrow> string \<Rightarrow> path" where
  "versioning_marker s bucket = bucket_dir s bucket @ [''.versioning-enabled'']"

definition is_versioning_enabled :: "world \<Rightarrow> string \<Rightarrow> bool" where
  "is_versioning_enabled s bucket \<longleftrightarrow>
     path_exists s (versioning_marker s bucket) \<and>
     (case file_content s (versioning_marker s bucket) of
        Some state \<Rightarrow> state \<noteq> Bytes (text_bytes ''suspended'')
      | None \<Rightarrow> True)"

definition is_versioning_suspended :: "world \<Rightarrow> string \<Rightarrow> bool" where
  "is_versioning_suspended s bucket \<longleftrightarrow>
     file_content s (versioning_marker s bucket) = Some (Bytes (text_bytes ''suspended''))"

definition bucket_exists :: "world \<Rightarrow> string \<Rightarrow> bool" where
  "bucket_exists s bucket \<longleftrightarrow> path_exists s (bucket_dir s bucket)"

definition is_bucket_control_entry :: "world \<Rightarrow> path \<Rightarrow> string \<Rightarrow> bool" where
  "is_bucket_control_entry s directory name \<longleftrightarrow>
     name \<in> set [''.bucket.meta.json'', ''.bucket.identity.json'', ''.bucket.name'', ''.versioning-enabled'',
                 ''.lifecycle.json'', ''.policy.json'', ''bucket.acl.json''] \<or>
     name \<in> set [''.multipart'', ''.spool''] \<and>
       is_dir s (directory @ [name]) \<and> dir_entries s (directory @ [name]) = []"

text \<open>Fail with \<^verbatim>\<open>BucketNotFound\<close> unless the bucket directory exists.\<close>

definition require_bucket :: "string \<Rightarrow> unit io" where
  "require_bucket bucket =
     bind_io (gets (\<lambda>s. bucket_exists s bucket)) (\<lambda>there. guard_io there BucketNotFound)"

section \<open>Bucket identity and metadata\<close>

definition write_bucket_identity :: "string \<Rightarrow> bucket_identity \<Rightarrow> unit io" where
  "write_bucket_identity bucket identity =
     bind_io (gets (\<lambda>s. bucket_dir s bucket)) (\<lambda>dir.
     atomic_write (dir @ [''.bucket.identity.json'']) (IdentityJson identity))"

text \<open>
  Buckets older than the identity file take the creation time of the name file, which the operating
  system reports.
\<close>

definition read_bucket_identity_locked :: "string \<Rightarrow> bucket_identity io" where
  "read_bucket_identity_locked bucket =
     bind_io (gets (\<lambda>s. bucket_dir s bucket)) (\<lambda>dir.
     bind_io (gets (\<lambda>s. path_exists s (dir @ [''.bucket.identity.json'']))) (\<lambda>there.
     if there then
       bind_io (read_file (dir @ [''.bucket.identity.json'']) ''Failed to read bucket identity'') (\<lambda>c.
       case c of
         IdentityJson identity \<Rightarrow> return identity
       | _ \<Rightarrow> throw (InternalError ''Invalid bucket identity''))
     else
       bind_io (gets (\<lambda>s. path_exists s (dir @ [''.bucket.name'']))) (\<lambda>named.
       then_io (guard_io named (InternalError ''Failed to inspect legacy bucket identity''))
       (bind_io (gets (\<lambda>s. ext_file_time (ext s) (dir @ [''.bucket.name'']))) (\<lambda>time.
        case time of
          None \<Rightarrow> throw (InternalError ''Failed to derive legacy bucket creation'')
        | Some created \<Rightarrow>
            let identity = \<lparr>id_created_at = created, id_modified_at = created\<rparr> in
            then_io (write_bucket_identity bucket identity) (return identity))))))"

definition touch_bucket_identity :: "string \<Rightarrow> unit io" where
  "touch_bucket_identity bucket =
     bind_io (read_bucket_identity_locked bucket) (\<lambda>identity.
     bind_io now_io (\<lambda>now.
     write_bucket_identity bucket (identity\<lparr>id_modified_at := now\<rparr>)))"

definition read_bucket_metadata :: "string \<Rightarrow> strmap io" where
  "read_bucket_metadata bucket =
     bind_io (gets (\<lambda>s. bucket_metadata_path s bucket)) (\<lambda>path.
     bind_io (gets (\<lambda>s. path_exists s path)) (\<lambda>there.
     if \<not> there then return Map.empty
     else
       bind_io (read_file path ''Failed to read bucket metadata'') (\<lambda>c.
       case c of
         StrMapJson m \<Rightarrow> return m
       | _ \<Rightarrow> throw (InternalError ''Failed to parse bucket metadata''))))"

definition write_bucket_metadata :: "string \<Rightarrow> strmap \<Rightarrow> unit io" where
  "write_bucket_metadata bucket metadata =
     bind_io (gets (\<lambda>s. bucket_metadata_path s bucket)) (\<lambda>path. atomic_write path (StrMapJson metadata))"

section \<open>Buckets\<close>

definition create_bucket :: "string \<Rightarrow> unit io" where
  "create_bucket name =
     bind_io (gets (\<lambda>s. bucket_dir s name)) (\<lambda>dir.
     bind_io (gets (\<lambda>s. path_exists s dir)) (\<lambda>there.
     then_io (guard_io (\<not> there) BucketAlreadyExists)
     (then_io (create_directory_durable dir)
     (then_io (map_error (\<lambda>_. InternalError ''Failed to persist bucket identity'')
               (atomic_write (dir @ [''.bucket.name'']) (Bytes (text_bytes name))))
     (bind_io now_io (\<lambda>now.
      bind_io (try_io (write_bucket_identity name \<lparr>id_created_at = now, id_modified_at = now\<rparr>)) (\<lambda>written.
      then_io
        (case written of
           Ok _ \<Rightarrow> return ()
         | Err e \<Rightarrow> then_io (remove_dir_all dir ''failed to roll back bucket creation'') (throw e))
        (then_io
          (modify (\<lambda>s. s\<lparr>azure_protection_possible :=
             (case azure_protection_possible s name of
                Some p \<Rightarrow> azure_protection_possible s
              | None \<Rightarrow> (azure_protection_possible s)(name \<mapsto> False))\<rparr>))
          (modify (\<lambda>s. s\<lparr>st_index := get_or_create_bucket (st_index s) name\<rparr>))))))))))"

definition delete_bucket :: "string \<Rightarrow> unit io" where
  "delete_bucket name =
     bind_io (gets (\<lambda>s. bucket_dir s name)) (\<lambda>dir.
     bind_io (gets (\<lambda>s. path_exists s dir)) (\<lambda>there.
     then_io (guard_io there BucketNotFound)
     (bind_io (read_dir dir ''Failed to read bucket'') (\<lambda>names.
      bind_io (gets (\<lambda>s. list_all (is_bucket_control_entry s dir) names)) (\<lambda>empty.
      then_io (guard_io empty BucketNotEmpty)
      (then_io (remove_dir_all dir ''Failed to delete bucket'')
        (modify (\<lambda>s. s\<lparr>st_index := clear_bucket (st_index s) name\<rparr>))))))))"

definition get_bucket :: "string \<Rightarrow> bucket io" where
  "get_bucket name =
     then_io (require_bucket name)
     (bind_io (read_bucket_identity_locked name) (\<lambda>identity.
      bind_io now_io (\<lambda>now.
      bind_io (gets (\<lambda>s. is_versioning_enabled s name)) (\<lambda>enabled.
      bind_io (read_bucket_metadata name) (\<lambda>metadata.
      return ((new_bucket name now)\<lparr>created_at := id_created_at identity, modified_at := id_modified_at identity,
                versioning_enabled := enabled, bucket_metadata := metadata\<rparr>))))))"

definition list_buckets :: "bucket list io" where
  "list_buckets =
     bind_io (gets base_path) (\<lambda>base.
     bind_io (read_dir base ''Failed to read base path'') (\<lambda>names.
     bind_io (collect_io names (\<lambda>name.
       bind_io (gets (\<lambda>s. is_dir s (base @ [name]))) (\<lambda>dir.
       if dir then
         bind_io (try_io (read_bytes (base @ [name, ''.bucket.name'']) ''read_to_string'')) (\<lambda>r.
         case r of
           Ok b \<Rightarrow> bind_io (get_bucket (bytes_text b)) (\<lambda>bucket. return (Some bucket))
         | Err _ \<Rightarrow> return None)
       else return None))) (\<lambda>buckets.
     return (sort_key bucket_name buckets))))"

definition update_bucket_metadata :: "string \<Rightarrow> strmap \<Rightarrow> bucket io" where
  "update_bucket_metadata bucket metadata =
     then_io (require_bucket bucket)
     (bind_io (get_bucket bucket) (\<lambda>record.
      if bucket_metadata record \<noteq> metadata then
        then_io (write_bucket_metadata bucket metadata)
        (bind_io now_io (\<lambda>now.
         then_io (write_bucket_identity bucket \<lparr>id_created_at = created_at record, id_modified_at = now\<rparr>)
           (return (record\<lparr>bucket_metadata := metadata, modified_at := now\<rparr>))))
      else return record))"

section \<open>Reading the current object\<close>

definition read_object_metadata_locked :: "string \<Rightarrow> string \<Rightarrow> object io" where
  "read_object_metadata_locked bucket key =
     bind_io (gets (\<lambda>s. object_dir s bucket key)) (\<lambda>dir.
     then_io (recover_publication dir)
     (bind_io (gets (\<lambda>s. path_exists s (dir @ [BLOB]))) (\<lambda>there.
      then_io (guard_io there KeyNotFound) (read_object_metadata (dir @ [META])))))"

definition read_object_locked :: "string \<Rightarrow> string \<Rightarrow> object io" where
  "read_object_locked bucket key =
     bind_io (gets (\<lambda>s. object_dir s bucket key)) (\<lambda>dir.
     then_io (recover_publication dir)
     (bind_io (gets (\<lambda>s. path_exists s (dir @ [BLOB]))) (\<lambda>there.
      then_io (guard_io there KeyNotFound)
      (bind_io (read_object_metadata (dir @ [META])) (\<lambda>ob.
       bind_io (read_bytes (dir @ [BLOB]) ''Failed to read object'') (\<lambda>data.
       return (ob\<lparr>obj_data := data\<rparr>)))))))"

text \<open>
  \<^verbatim>\<open>seek\<close> and \<^verbatim>\<open>read_exact\<close> of \<open>length\<close> bytes; the conversion of the length to \<^verbatim>\<open>usize\<close>
  cannot fail on a 64-bit target.
\<close>

definition read_exact_at :: "path \<Rightarrow> nat \<Rightarrow> nat \<Rightarrow> bytes io" where
  "read_exact_at p start len =
     bind_io (read_bytes p ''Failed to open object file'') (\<lambda>data.
     then_io (guard_io (start + len \<le> length data) (InternalError ''Failed to read range''))
       (return (take len (drop start data))))"

definition read_object_range_locked :: "string \<Rightarrow> string \<Rightarrow> nat \<Rightarrow> nat option \<Rightarrow> (object \<times> bytes) io" where
  "read_object_range_locked bucket key start end_opt =
     bind_io (gets (\<lambda>s. object_dir s bucket key)) (\<lambda>dir.
     then_io (recover_publication dir)
     (bind_io (gets (\<lambda>s. path_exists s (dir @ [BLOB]))) (\<lambda>there.
      then_io (guard_io there KeyNotFound)
      (bind_io (read_object_metadata (dir @ [META])) (\<lambda>ob.
       then_io (guard_io (\<not> obj_size ob \<le> start) (InvalidRequest ''Range start beyond file size''))
       (let actual_end = (case end_opt of None \<Rightarrow> obj_size ob - 1 | Some e \<Rightarrow> min e (obj_size ob - 1)) in
        then_io (guard_io (\<not> actual_end < start) (InvalidRequest ''Invalid range: end < start''))
        (bind_io (read_exact_at (dir @ [BLOB]) start (actual_end - start + 1)) (\<lambda>buffer.
         return (ob, buffer)))))))))"

definition object_exists :: "string \<Rightarrow> string \<Rightarrow> bool io" where
  "object_exists bucket key =
     bind_io (gets (\<lambda>s. object_dir s bucket key)) (\<lambda>dir.
     then_io (recover_publication dir) (gets (\<lambda>s. path_exists s (dir @ [BLOB]))))"

text \<open>The public readers take the lock of the object around these.\<close>

definition get_object :: "string \<Rightarrow> string \<Rightarrow> object io" where
  "get_object bucket key = read_object_locked bucket key"

definition get_object_metadata :: "string \<Rightarrow> string \<Rightarrow> object io" where
  "get_object_metadata bucket key = read_object_metadata_locked bucket key"

definition get_object_range :: "string \<Rightarrow> string \<Rightarrow> nat \<Rightarrow> nat option \<Rightarrow> (object \<times> bytes) io" where
  "get_object_range bucket key start end_opt = read_object_range_locked bucket key start end_opt"

section \<open>Conditions\<close>

datatype object_condition =
    All "object_condition list"
  | Missing
  | Etag string
  | EtagIn "string list"
  | EtagNotIn "string list"
  | MissingOrEtagNotIn "string list"
  | Metadata string string
  | MetadataNot string string

text \<open>The table of the code, on the result of reading the metadata; conjunctions never reach it.\<close>

definition match_condition :: "object_condition \<Rightarrow> object res \<Rightarrow> bool res" where
  "match_condition cond r =
     (case r of
        Err e \<Rightarrow>
          if e = KeyNotFound then
            Ok (case cond of Missing \<Rightarrow> True | MissingOrEtagNotIn _ \<Rightarrow> True | _ \<Rightarrow> False)
          else Err e
      | Ok ob \<Rightarrow>
          Ok (case cond of
                Missing \<Rightarrow> False
              | Etag expected \<Rightarrow> obj_etag ob = expected
              | EtagIn expected \<Rightarrow> list_ex (\<lambda>e. e = obj_etag ob) expected
              | EtagNotIn rejected \<Rightarrow> \<not> list_ex (\<lambda>e. e = obj_etag ob) rejected
              | MissingOrEtagNotIn rejected \<Rightarrow> \<not> list_ex (\<lambda>e. e = obj_etag ob) rejected
              | Metadata key v \<Rightarrow> obj_metadata ob key = Some v
              | MetadataNot key v \<Rightarrow> obj_metadata ob key \<noteq> Some v
              | All _ \<Rightarrow> True))"

fun all_io :: "bool io list \<Rightarrow> bool io" where
  "all_io [] = return True"
| "all_io (m # ms) = bind_io m (\<lambda>b. if b then all_io ms else return False)"

fun object_condition_matches :: "string \<Rightarrow> string \<Rightarrow> object_condition \<Rightarrow> bool io" where
  "object_condition_matches bucket key (All conditions) =
     all_io (map (object_condition_matches bucket key) conditions)"
| "object_condition_matches bucket key cond =
     bind_io (try_io (read_object_metadata_locked bucket key)) (\<lambda>r. of_result (match_condition cond r))"

section \<open>Writing\<close>

definition azure_protection_keys :: "string list" where
  "azure_protection_keys =
     [''azure_immutability_until'', ''azure_legal_hold'', ''azure_immutability_mode'', ''azure_lease_status'']"

definition object_has_azure_protection_metadata :: "object \<Rightarrow> bool" where
  "object_has_azure_protection_metadata ob \<longleftrightarrow>
     list_ex (\<lambda>k. obj_provider_metadata ob k \<noteq> None) azure_protection_keys"

definition admit_azure_protection :: "string \<Rightarrow> object \<Rightarrow> unit io" where
  "admit_azure_protection bucket ob =
     when_io (object_has_azure_protection_metadata ob)
       (modify (\<lambda>s. s\<lparr>azure_protection_possible := (azure_protection_possible s)(bucket \<mapsto> True)\<rparr>))"

definition azure_object_protection_absent :: "world \<Rightarrow> string \<Rightarrow> bool" where
  "azure_object_protection_absent s bucket \<longleftrightarrow> azure_protection_possible s bucket = Some False"

definition index_add :: "string \<Rightarrow> string \<Rightarrow> unit io" where
  "index_add bucket key = modify (\<lambda>s. s\<lparr>st_index := index_insert (st_index s) bucket key\<rparr>)"

definition index_drop :: "string \<Rightarrow> string \<Rightarrow> unit io" where
  "index_drop bucket key = modify (\<lambda>s. s\<lparr>st_index := fst (index_remove (st_index s) bucket key)\<rparr>)"

definition write_version_snapshot :: "path \<Rightarrow> string \<Rightarrow> object \<Rightarrow> unit io" where
  "write_version_snapshot dir v ob =
     publish_pair (dir @ [VERSIONS, v]) (ob\<lparr>obj_version_id := Some v\<rparr>) (Stored (dir @ [BLOB]))"

definition version_name :: "object \<Rightarrow> string" where
  "version_name ob = (case obj_version_id ob of Some v \<Rightarrow> v | None \<Rightarrow> ''null'')"

text \<open>Keep the current object as a version before it is replaced or deleted.\<close>

definition snapshot_current :: "string \<Rightarrow> string \<Rightarrow> bool \<Rightarrow> unit io" where
  "snapshot_current bucket key enabled =
     bind_io (try_io (read_object_metadata_locked bucket key)) (\<lambda>r.
     case r of
       Ok current \<Rightarrow>
         when_io (enabled \<or> version_name current \<noteq> ''null'')
           (bind_io (gets (\<lambda>s. object_dir s bucket key)) (\<lambda>dir.
            write_version_snapshot dir (version_name current) current))
     | Err e \<Rightarrow> if e = KeyNotFound then return () else throw e)"

definition put_object_locked_with_payload :: "string \<Rightarrow> string \<Rightarrow> object \<Rightarrow> object_payload \<Rightarrow> unit io" where
  "put_object_locked_with_payload bucket key ob payload =
     then_io (require_bucket bucket)
     (then_io (admit_azure_protection bucket ob)
     (bind_io (gets (\<lambda>s. object_dir s bucket key)) (\<lambda>dir.
      bind_io (gets (\<lambda>s. is_versioning_enabled s bucket)) (\<lambda>enabled.
      bind_io (gets (\<lambda>s. is_versioning_suspended s bucket)) (\<lambda>suspended.
      bind_io
        (if enabled \<or> suspended then
           then_io (snapshot_current bucket key enabled)
             (if suspended then return (Some ''null'') else bind_io new_uuid (\<lambda>u. return (Some u)))
         else return None) (\<lambda>version.
      bind_io (try_io (publish_pair dir (ob\<lparr>obj_version_id := version\<rparr>) payload)) (\<lambda>outcome.
      bind_io (gets (\<lambda>s. path_exists s (dir @ [JOURNAL]) \<or> path_exists s (dir @ [BLOB]))) (\<lambda>there.
      then_io (when_io (is_ok outcome \<or> there) (index_add bucket key))
        (of_result outcome)))))))))"

definition put_object :: "string \<Rightarrow> string \<Rightarrow> object \<Rightarrow> unit io" where
  "put_object bucket key ob = put_object_locked_with_payload bucket key ob InMemory"

definition put_object_streamed :: "string \<Rightarrow> string \<Rightarrow> object \<Rightarrow> path \<Rightarrow> unit io" where
  "put_object_streamed bucket key ob payload_path =
     put_object_locked_with_payload bucket key ob (Spooled payload_path)"

definition put_object_if :: "string \<Rightarrow> string \<Rightarrow> object \<Rightarrow> object_condition \<Rightarrow> bool io" where
  "put_object_if bucket key ob cond =
     bind_io (object_condition_matches bucket key cond) (\<lambda>matches.
     if \<not> matches then return False
     else then_io (put_object bucket key ob) (return True))"

definition put_object_streamed_if :: "string \<Rightarrow> string \<Rightarrow> object \<Rightarrow> path \<Rightarrow> object_condition \<Rightarrow> bool io" where
  "put_object_streamed_if bucket key ob payload_path cond =
     bind_io (object_condition_matches bucket key cond) (\<lambda>matches.
     if \<not> matches then return False
     else then_io (put_object_streamed bucket key ob payload_path) (return True))"

section \<open>Deleting\<close>

definition delete_marker :: "externs \<Rightarrow> string \<Rightarrow> string \<Rightarrow> datetime \<Rightarrow> object" where
  "delete_marker x key version now =
     (new_object x key [] ''application/x-sqrzl-delete-marker'' now)
       \<lparr>obj_version_id := Some version, obj_provider_metadata := [''s3_delete_marker'' \<mapsto> ''true'']\<rparr>"

definition delete_object :: "string \<Rightarrow> string \<Rightarrow> unit io" where
  "delete_object bucket key =
     bind_io (gets (\<lambda>s. object_dir s bucket key)) (\<lambda>dir.
     bind_io (gets (\<lambda>s. is_versioning_enabled s bucket)) (\<lambda>enabled.
     bind_io (gets (\<lambda>s. is_versioning_suspended s bucket)) (\<lambda>suspended.
     then_io
       (if enabled \<or> suspended then
          then_io (require_bucket bucket)
          (then_io (snapshot_current bucket key enabled)
          (bind_io (if suspended then return ''null'' else new_uuid) (\<lambda>marker_id.
           bind_io now_io (\<lambda>now.
           bind_io (gets ext) (\<lambda>x.
           change_history dir None (if suspended then [''null''] else [])
             (Some (delete_marker x key marker_id now)) True)))))
        else
          then_io (read_object_metadata_locked bucket key)
          (then_io (change_history dir None [] None True)
          (then_io (remove_dir_all dir ''Failed to remove retired object directory'')
          (bind_io (gets (\<lambda>s. bucket_dir s bucket)) sync_directory))))
       (index_drop bucket key))))"

definition delete_object_if :: "string \<Rightarrow> string \<Rightarrow> object_condition \<Rightarrow> bool io" where
  "delete_object_if bucket key cond =
     bind_io (object_condition_matches bucket key cond) (\<lambda>matches.
     if \<not> matches then return False
     else then_io (delete_object bucket key) (return True))"

section \<open>Metadata of the current object\<close>

text \<open>
  The common body of the functions that rewrite the metadata document: the current metadata is read
  and written back changed.
\<close>

definition modify_object_metadata :: "string \<Rightarrow> string \<Rightarrow> (object \<Rightarrow> object) \<Rightarrow> unit io" where
  "modify_object_metadata bucket key f =
     bind_io (gets (\<lambda>s. object_dir s bucket key)) (\<lambda>dir.
     then_io (recover_publication dir)
     (bind_io (gets (\<lambda>s. path_exists s (dir @ [META]))) (\<lambda>there.
      then_io (guard_io there KeyNotFound)
      (bind_io (read_object_metadata (dir @ [META])) (\<lambda>ob.
       write_object_metadata (dir @ [META]) (f ob))))))"

definition update_object_storage_class :: "string \<Rightarrow> string \<Rightarrow> string \<Rightarrow> unit io" where
  "update_object_storage_class bucket key storage_class =
     modify_object_metadata bucket key (obj_storage_class_update (\<lambda>_. storage_class))"

definition put_object_acl :: "string \<Rightarrow> string \<Rightarrow> acl \<Rightarrow> unit io" where
  "put_object_acl bucket key a = modify_object_metadata bucket key (obj_acl_update (\<lambda>_. Some a))"

definition get_object_acl :: "string \<Rightarrow> string \<Rightarrow> acl io" where
  "get_object_acl bucket key =
     bind_io (read_object_metadata_locked bucket key) (\<lambda>ob.
     return (case obj_acl ob of Some a \<Rightarrow> a | None \<Rightarrow> acl_default))"

definition put_object_tags :: "string \<Rightarrow> string \<Rightarrow> strmap \<Rightarrow> unit io" where
  "put_object_tags bucket key tags = modify_object_metadata bucket key (obj_tags_update (\<lambda>_. tags))"

definition delete_object_tags :: "string \<Rightarrow> string \<Rightarrow> unit io" where
  "delete_object_tags bucket key = modify_object_metadata bucket key (obj_tags_update (\<lambda>_. Map.empty))"

definition get_object_tags :: "string \<Rightarrow> string \<Rightarrow> strmap io" where
  "get_object_tags bucket key =
     bind_io (read_object_metadata_locked bucket key) (\<lambda>ob. return (obj_tags ob))"

definition replace_object_metadata_if_unchanged :: "string \<Rightarrow> string \<Rightarrow> object \<Rightarrow> object \<Rightarrow> bool io" where
  "replace_object_metadata_if_unchanged bucket key observed updated =
     bind_io (gets (\<lambda>s. object_dir s bucket key)) (\<lambda>dir.
     then_io (recover_publication dir)
     (bind_io (gets (\<lambda>s. path_exists s (dir @ [META]))) (\<lambda>there.
      if \<not> there then return False
      else
        bind_io (read_object_metadata (dir @ [META])) (\<lambda>current.
        if obj_etag current \<noteq> obj_etag observed
          \<or> obj_last_modified current \<noteq> obj_last_modified observed
          \<or> obj_version_id current \<noteq> obj_version_id observed
          \<or> obj_content_type current \<noteq> obj_content_type observed
          \<or> obj_metadata current \<noteq> obj_metadata observed
          \<or> obj_provider_metadata current \<noteq> obj_provider_metadata observed
        then return False
        else
          let current = current\<lparr>obj_content_type := obj_content_type updated,
                obj_metadata := obj_metadata updated, obj_provider_metadata := obj_provider_metadata updated\<rparr> in
          then_io (admit_azure_protection bucket current)
          (then_io (write_object_metadata (dir @ [META]) current) (return True))))))"

end
