(* ===== verification/Store_Config.thy ===== *)
theory Store_Config
  imports Store
begin

text \<open>
  Bucket configuration documents, provider state and provider upload sessions
  (\<^verbatim>\<open>AclStore\<close>, \<^verbatim>\<open>LifecycleStore\<close>, \<^verbatim>\<open>PolicyStore\<close>, \<^verbatim>\<open>ProviderStateStore\<close> and \<^verbatim>\<open>UploadStore\<close> of
  \<^verbatim>\<open>src/src/storage/filesystem.rs\<close>).
\<close>

section \<open>Access control list, lifecycle configuration and policy of a bucket\<close>

definition get_bucket_acl :: "string \<Rightarrow> acl io" where
  "get_bucket_acl bucket =
     then_io (require_bucket bucket)
     (bind_io (gets (\<lambda>s. bucket_acl_path s bucket)) (\<lambda>path.
      bind_io (gets (\<lambda>s. path_exists s path)) (\<lambda>there.
      if \<not> there then return acl_default
      else
        bind_io (read_file path ''Failed to read bucket ACL'') (\<lambda>c.
        case c of
          AclJson a \<Rightarrow> return a
        | _ \<Rightarrow> throw (InternalError ''Failed to parse bucket ACL'')))))"

definition put_bucket_acl :: "string \<Rightarrow> acl \<Rightarrow> unit io" where
  "put_bucket_acl bucket a =
     then_io (require_bucket bucket)
     (bind_io (gets (\<lambda>s. bucket_acl_path s bucket)) (\<lambda>path.
      then_io (atomic_write path (AclJson a)) (touch_bucket_identity bucket)))"

definition lifecycle_path :: "world \<Rightarrow> string \<Rightarrow> path" where
  "lifecycle_path s bucket = bucket_dir s bucket @ [''.lifecycle.json'']"

definition get_bucket_lifecycle :: "string \<Rightarrow> lifecycle_configuration io" where
  "get_bucket_lifecycle bucket =
     then_io (require_bucket bucket)
     (bind_io (gets (\<lambda>s. lifecycle_path s bucket)) (\<lambda>path.
      bind_io (gets (\<lambda>s. path_exists s path)) (\<lambda>there.
      then_io (guard_io there KeyNotFound)
      (bind_io (read_file path ''Failed to read lifecycle config'') (\<lambda>c.
       case c of
         LifecycleJson config \<Rightarrow> return config
       | _ \<Rightarrow> throw (InternalError ''Failed to parse lifecycle config''))))))"

definition put_bucket_lifecycle :: "string \<Rightarrow> lifecycle_configuration \<Rightarrow> unit io" where
  "put_bucket_lifecycle bucket config =
     then_io (require_bucket bucket)
     (bind_io (gets (\<lambda>s. lifecycle_path s bucket)) (\<lambda>path.
      then_io (atomic_write path (LifecycleJson config)) (touch_bucket_identity bucket)))"

definition delete_bucket_lifecycle :: "string \<Rightarrow> unit io" where
  "delete_bucket_lifecycle bucket =
     then_io (require_bucket bucket)
     (bind_io (gets (\<lambda>s. lifecycle_path s bucket)) (\<lambda>path.
      bind_io (gets (\<lambda>s. path_exists s path)) (\<lambda>there.
      when_io there
        (then_io (remove_file path ''Failed to delete lifecycle config'') (touch_bucket_identity bucket)))))"

definition policy_path :: "world \<Rightarrow> string \<Rightarrow> path" where
  "policy_path s bucket = bucket_dir s bucket @ [''.policy.json'']"

definition get_bucket_policy :: "string \<Rightarrow> bucket_policy_document io" where
  "get_bucket_policy bucket =
     then_io (require_bucket bucket)
     (bind_io (gets (\<lambda>s. policy_path s bucket)) (\<lambda>path.
      bind_io (gets (\<lambda>s. path_exists s path)) (\<lambda>there.
      then_io (guard_io there KeyNotFound)
      (bind_io (read_file path ''Failed to read policy'') (\<lambda>c.
       case c of
         PolicyJson policy \<Rightarrow> return policy
       | _ \<Rightarrow> throw (InternalError ''Failed to parse policy''))))))"

definition put_bucket_policy :: "string \<Rightarrow> bucket_policy_document \<Rightarrow> unit io" where
  "put_bucket_policy bucket policy =
     then_io (require_bucket bucket)
     (bind_io (gets (\<lambda>s. policy_path s bucket)) (\<lambda>path.
      then_io (atomic_write path (PolicyJson policy)) (touch_bucket_identity bucket)))"

definition delete_bucket_policy :: "string \<Rightarrow> unit io" where
  "delete_bucket_policy bucket =
     then_io (require_bucket bucket)
     (bind_io (gets (\<lambda>s. policy_path s bucket)) (\<lambda>path.
      bind_io (gets (\<lambda>s. path_exists s path)) (\<lambda>there.
      when_io there
        (then_io (remove_file path ''Failed to delete policy'') (touch_bucket_identity bucket)))))"

section \<open>Provider state\<close>

definition provider_state_path :: "world \<Rightarrow> string \<Rightarrow> string \<Rightarrow> path" where
  "provider_state_path s provider key =
     base_path s @ [''.provider-state'', provider, compute_object_id (ext s) provider key @ ''.json'']"

definition put_provider_state :: "string \<Rightarrow> string \<Rightarrow> bytes \<Rightarrow> unit io" where
  "put_provider_state provider key data =
     bind_io (gets (\<lambda>s. provider_state_path s provider key)) (\<lambda>path. atomic_write path (Bytes data))"

definition get_provider_state :: "string \<Rightarrow> string \<Rightarrow> bytes io" where
  "get_provider_state provider key =
     bind_io (gets (\<lambda>s. provider_state_path s provider key)) (\<lambda>path.
     bind_io (gets (\<lambda>s. path_exists s path)) (\<lambda>there.
     then_io (guard_io there KeyNotFound) (read_bytes path ''Failed to read provider state'')))"

definition delete_provider_state :: "string \<Rightarrow> string \<Rightarrow> unit io" where
  "delete_provider_state provider key =
     bind_io (gets (\<lambda>s. provider_state_path s provider key)) (\<lambda>path.
     bind_io (gets (\<lambda>s. path_exists s path)) (\<lambda>there.
     when_io there (remove_file path ''Failed to delete provider state'')))"

section \<open>Provider upload sessions\<close>

definition provider_upload_session_dir :: "world \<Rightarrow> string \<Rightarrow> string \<Rightarrow> path" where
  "provider_upload_session_dir s provider session =
     base_path s @ [''.provider-uploads'', ext_sha256_hex (ext s) provider, ext_sha256_hex (ext s) session]"

definition provider_upload_item_path :: "world \<Rightarrow> string \<Rightarrow> string \<Rightarrow> string \<Rightarrow> path" where
  "provider_upload_item_path s provider session item =
     provider_upload_session_dir s provider session @ [ext_sha256_hex (ext s) item @ ''.blob'']"

text \<open>The name of the staged copy: the extension \<^verbatim>\<open>blob\<close> of the destination is replaced.\<close>

definition staged_copy_path :: "world \<Rightarrow> string \<Rightarrow> string \<Rightarrow> string \<Rightarrow> string \<Rightarrow> path" where
  "staged_copy_path s provider session item uuid =
     provider_upload_session_dir s provider session @ [ext_sha256_hex (ext s) item @ ''.tmp-'' @ uuid]"

definition stage_upload_payload :: "string \<Rightarrow> string \<Rightarrow> string \<Rightarrow> path \<Rightarrow> nat \<Rightarrow> nat \<Rightarrow> unit io" where
  "stage_upload_payload provider session item payload_path source_offset len =
     bind_io (gets (\<lambda>s. provider_upload_item_path s provider session item)) (\<lambda>destination.
     bind_io (read_bytes payload_path ''Failed to inspect upload payload'') (\<lambda>source.
     bind_io (of_result (ok_or EntityTooLarge (checked_add_u64 source_offset len))) (\<lambda>range_end.
     then_io (guard_io (\<not> length source < range_end)
               (InvalidRequest ''Staged upload range exceeds the request payload''))
     (if source_offset = 0 \<and> len = length source then atomic_move payload_path destination
      else
        then_io (create_dir_all (parent destination) ''Failed to create upload session directory'')
        (bind_io new_uuid (\<lambda>uuid.
         bind_io (gets (\<lambda>s. staged_copy_path s provider session item uuid)) (\<lambda>temporary.
         on_error
           (bind_io (read_bytes payload_path ''Failed to open upload payload'') (\<lambda>source.
            then_io (create_file temporary ''Failed to create staged upload payload'')
            (let copied = take len (drop source_offset source) in
             then_io (write_all temporary (Bytes copied) ''Failed to stage upload payload'')
             (then_io (guard_io (length copied = len)
                        (InvalidRequest ''Upload payload ended before the selected range''))
             (then_io (sync_path temporary ''Failed to sync staged upload payload'')
               (rename temporary destination ''Failed to commit staged upload payload''))))))
           (remove_file temporary ''remove_file''))))))))"

definition compose_upload_payloads ::
    "string \<Rightarrow> string \<Rightarrow> string list \<Rightarrow> string \<Rightarrow> string \<Rightarrow> object \<Rightarrow> object_condition option \<Rightarrow> bool io" where
  "compose_upload_payloads provider session items bucket key ob cond =
     bind_io (gets (\<lambda>s. base_path s @ [''.spool''])) (\<lambda>spool_dir.
     then_io (create_dir_all spool_dir ''Failed to create composition directory'')
     (bind_io new_uuid (\<lambda>uuid.
      let scratch = spool_dir @ [''.compose-'' @ uuid @ ''.tmp''] in
      then_io
        (on_error
          (then_io (create_file scratch ''Failed to create composed payload'')
          (then_io
            (for_each items (\<lambda>item.
               bind_io (gets (\<lambda>s. provider_upload_item_path s provider session item)) (\<lambda>path.
               bind_io (read_bytes path ''Failed to open staged upload item'') (\<lambda>data.
               append_bytes scratch data ''Failed to compose upload item''))))
            (sync_path scratch ''Failed to sync composed upload'')))
          (remove_file scratch ''remove_file''))
        (bind_io
          (case cond of
             Some c \<Rightarrow> put_object_streamed_if bucket key ob scratch c
           | None \<Rightarrow> then_io (put_object_streamed bucket key ob scratch) (return True)) (\<lambda>written.
         bind_io (gets (\<lambda>s. path_exists s scratch)) (\<lambda>there.
         then_io (when_io there (ignore_errors (remove_file scratch ''remove_file'')))
           (return written)))))))"

definition delete_upload_session :: "string \<Rightarrow> string \<Rightarrow> unit io" where
  "delete_upload_session provider session =
     bind_io (gets (\<lambda>s. provider_upload_session_dir s provider session)) (\<lambda>path.
     bind_io (gets (\<lambda>s. path_exists s path)) (\<lambda>there.
     when_io there (remove_dir_all path ''Failed to remove upload session'')))"

definition retain_upload_items :: "string \<Rightarrow> string \<Rightarrow> string list \<Rightarrow> unit io" where
  "retain_upload_items provider session items =
     bind_io (gets (\<lambda>s. provider_upload_session_dir s provider session)) (\<lambda>session_path.
     bind_io (gets (\<lambda>s. path_exists s session_path)) (\<lambda>there.
     when_io there
       (bind_io (gets (\<lambda>s. map (provider_upload_item_path s provider session) items)) (\<lambda>retained.
        bind_io (read_dir session_path ''Failed to inspect upload session'') (\<lambda>names.
        then_io
          (for_each names (\<lambda>name.
             bind_io (gets (\<lambda>s. is_file s (session_path @ [name]))) (\<lambda>file.
             when_io (file \<and> session_path @ [name] \<notin> set retained)
               (remove_file (session_path @ [name]) ''Failed to remove unreferenced upload item''))))
          (bind_io (gets (\<lambda>s. is_dir s session_path \<and> dir_entries s session_path = [])) (\<lambda>empty.
           when_io empty (remove_dir session_path ''Failed to remove empty upload session''))))))))"

end
