(* ===== verification/Fs_Logic.thy ===== *)
theory Fs_Logic
  imports Fs
begin

text \<open>
  A program logic for the file-system monad.

  \<open>runs x nf I t m Q\<close>: started in any state whose file tree is \<open>t\<close> and whose library is \<open>x\<close>, the
  program \<open>m\<close> leaves a tree that satisfies \<open>I\<close>, whatever the faults and wherever it stops; if it
  returns a value the tree satisfies \<open>Q\<close>; and it fails or stops only if there were faults
  (\<open>nf\<close> says that there are none). So one derivation gives the crash invariant and the total
  correctness of the fault-free run.
\<close>

type_synonym tree = "path \<Rightarrow> node option"

definition rest_same :: "world \<Rightarrow> world \<Rightarrow> bool" where
  "rest_same s s' \<longleftrightarrow>
     ext s' = ext s \<and> base_path s' = base_path s \<and> st_index s' = st_index s \<and>
     uploads_cache s' = uploads_cache s \<and> azure_protection_possible s' = azure_protection_possible s"

definition runs :: "externs \<Rightarrow> bool \<Rightarrow> (tree \<Rightarrow> bool) \<Rightarrow> tree \<Rightarrow> 'a io \<Rightarrow> ('a \<Rightarrow> tree \<Rightarrow> bool) \<Rightarrow> bool" where
  "runs x nf I t m Q \<longleftrightarrow>
     (\<forall>s. fs_get s = t \<longrightarrow> ext s = x \<longrightarrow> (nf \<longrightarrow> faults s = []) \<longrightarrow>
       (case m s of (r, s') \<Rightarrow>
          rest_same s s' \<and> (nf \<longrightarrow> faults s' = []) \<and> I (fs_get s') \<and>
          (case r of Done a \<Rightarrow> Q a (fs_get s') | Failed e \<Rightarrow> \<not> nf | Halted \<Rightarrow> \<not> nf)))"

lemma runsI:
  assumes "\<And>s r s'. fs_get s = t \<Longrightarrow> ext s = x \<Longrightarrow> (nf \<longrightarrow> faults s = []) \<Longrightarrow> m s = (r, s') \<Longrightarrow>
     rest_same s s' \<and> (nf \<longrightarrow> faults s' = []) \<and> I (fs_get s') \<and>
     (case r of Done a \<Rightarrow> Q a (fs_get s') | Failed e \<Rightarrow> \<not> nf | Halted \<Rightarrow> \<not> nf)"
  shows "runs x nf I t m Q"
  unfolding runs_def
proof (intro allI impI)
  fix s
  assume s: "fs_get s = t" "ext s = x" "nf \<longrightarrow> faults s = []"
  obtain r s' where "m s = (r, s')" by force
  with assms [OF s this] show "case m s of (r, s') \<Rightarrow>
      rest_same s s' \<and> (nf \<longrightarrow> faults s' = []) \<and> I (fs_get s') \<and>
      (case r of Done a \<Rightarrow> Q a (fs_get s') | Failed e \<Rightarrow> \<not> nf | Halted \<Rightarrow> \<not> nf)"
    by simp
qed

lemma runsD:
  assumes "runs x nf I t m Q" and "fs_get s = t" and "ext s = x" and "nf \<longrightarrow> faults s = []" and "m s = (r, s')"
  shows "rest_same s s'" and "nf \<longrightarrow> faults s' = []" and "I (fs_get s')"
    and "\<And>a. r = Done a \<Longrightarrow> Q a (fs_get s')" and "nf \<Longrightarrow> \<exists>a. r = Done a"
proof -
  have *: "rest_same s s' \<and> (nf \<longrightarrow> faults s' = []) \<and> I (fs_get s') \<and>
      (case r of Done a \<Rightarrow> Q a (fs_get s') | Failed e \<Rightarrow> \<not> nf | Halted \<Rightarrow> \<not> nf)"
    using assms unfolding runs_def by fastforce
  from * show "rest_same s s'" and "nf \<longrightarrow> faults s' = []" and "I (fs_get s')" by blast+
  from * show "Q a (fs_get s')" if "r = Done a" for a using that by simp
  from * show "\<exists>a. r = Done a" if nf using that by (cases r) auto
qed

lemma fs_get_fields [simp]:
  "fs_get (s\<lparr>faults := f\<rparr>) = fs_get s" "fs_get (s\<lparr>uuid_count := n\<rparr>) = fs_get s"
  "fs_get (s\<lparr>clock_count := n\<rparr>) = fs_get s" "fs_get (s\<lparr>st_index := i\<rparr>) = fs_get s"
  "fs_get (s\<lparr>uploads_cache := u\<rparr>) = fs_get s" "fs_get (s\<lparr>azure_protection_possible := z\<rparr>) = fs_get s"
  by (simp_all add: fs_get_def fun_eq_iff)

lemma rest_same_refl [simp]: "rest_same s s"
  by (simp add: rest_same_def)

lemma rest_same_trans: "rest_same s s' \<Longrightarrow> rest_same s' s'' \<Longrightarrow> rest_same s s''"
  by (simp add: rest_same_def)

section \<open>Structural rules\<close>

lemma runs_conseq:
  assumes "runs x nf I t m Q" and "\<And>t'. I t' \<Longrightarrow> I' t'" and "\<And>a t'. Q a t' \<Longrightarrow> I t' \<Longrightarrow> Q' a t'"
  shows "runs x nf I' t m Q'"
proof (rule runsI)
  fix s r s'
  assume "fs_get s = t" "ext s = x" "nf \<longrightarrow> faults s = []" "m s = (r, s')"
  note d = runsD [OF assms(1) this]
  with assms(2,3) show "rest_same s s' \<and> (nf \<longrightarrow> faults s' = []) \<and> I' (fs_get s') \<and>
     (case r of Done a \<Rightarrow> Q' a (fs_get s') | Failed e \<Rightarrow> \<not> nf | Halted \<Rightarrow> \<not> nf)"
    by (cases r) auto
qed

lemma runs_return: "I t \<Longrightarrow> Q a t \<Longrightarrow> runs x nf I t (return a) Q"
  by (auto simp: runs_def return_def)

lemma runs_throw: "I t \<Longrightarrow> \<not> nf \<Longrightarrow> runs x nf I t (throw e) Q"
  by (auto simp: runs_def throw_def)

lemma runs_bind:
  assumes m: "runs x nf I t m Q" and f: "\<And>a t'. Q a t' \<Longrightarrow> I t' \<Longrightarrow> runs x nf I t' (f a) R"
  shows "runs x nf I t (bind_io m f) R"
proof (rule runsI)
  fix s r s'
  assume s: "fs_get s = t" "ext s = x" "nf \<longrightarrow> faults s = []" and run: "bind_io m f s = (r, s')"
  obtain r1 s1 where m1: "m s = (r1, s1)" by force
  note d = runsD [OF m s m1]
  show "rest_same s s' \<and> (nf \<longrightarrow> faults s' = []) \<and> I (fs_get s') \<and>
     (case r of Done a \<Rightarrow> R a (fs_get s') | Failed e \<Rightarrow> \<not> nf | Halted \<Rightarrow> \<not> nf)"
  proof (cases r1)
    case (Done a)
    have x1: "ext s1 = x" using d(1) s(2) by (simp add: rest_same_def)
    from Done run m1 have "f a s1 = (r, s')" by (simp add: bind_io_def)
    then have e: "rest_same s1 s'" "nf \<longrightarrow> faults s' = []" "I (fs_get s')"
      "\<And>b. r = Done b \<Longrightarrow> R b (fs_get s')" "nf \<Longrightarrow> \<exists>b. r = Done b"
      using runsD [OF f [OF d(4) [OF Done] d(3)] refl x1 d(2)] by blast+
    with d(1) show ?thesis by (cases r) (auto intro: rest_same_trans)
  qed (use run m1 d in \<open>auto simp: bind_io_def\<close>)
qed

lemma runs_then:
  assumes "runs x nf I t m (\<lambda>_ t'. t' = t1)" and "runs x nf I t1 k Q"
  shows "runs x nf I t (then_io m k) Q"
  by (rule runs_bind [OF assms(1)]) (use assms(2) in simp)

lemma runs_try:
  assumes m: "runs x nf I t m Q" and ok: "\<And>a t'. Q a t' \<Longrightarrow> I t' \<Longrightarrow> R (Ok a) t'"
    and err: "\<And>e t'. \<not> nf \<Longrightarrow> I t' \<Longrightarrow> R (Err e) t'"
  shows "runs x nf I t (try_io m) R"
proof (rule runsI)
  fix s r s'
  assume s: "fs_get s = t" "ext s = x" "nf \<longrightarrow> faults s = []" and run: "try_io m s = (r, s')"
  obtain r1 s1 where m1: "m s = (r1, s1)" by force
  note d = runsD [OF m s m1]
  show "rest_same s s' \<and> (nf \<longrightarrow> faults s' = []) \<and> I (fs_get s') \<and>
     (case r of Done a \<Rightarrow> R a (fs_get s') | Failed e \<Rightarrow> \<not> nf | Halted \<Rightarrow> \<not> nf)"
    using run m1 d ok err by (cases r1) (auto simp: try_io_def, blast)
qed

lemma runs_gets:
  assumes "I t" and "\<And>s. fs_get s = t \<Longrightarrow> ext s = x \<Longrightarrow> Q (f s) t"
  shows "runs x nf I t (gets f) Q"
  using assms by (auto simp: runs_def gets_def)

lemma runs_new_uuid: "I t \<Longrightarrow> (\<And>n. Q (ext_uuid x n) t) \<Longrightarrow> runs x nf I t new_uuid Q"
  by (auto simp: runs_def new_uuid_def rest_same_def)

lemma runs_guard: "I t \<Longrightarrow> b \<Longrightarrow> Q () t \<Longrightarrow> runs x nf I t (guard_io b e) Q"
  by (simp add: guard_io_def runs_return)

lemma runs_when:
  "(b \<Longrightarrow> runs x nf I t m Q) \<Longrightarrow> (\<not> b \<Longrightarrow> I t \<and> Q () t) \<Longrightarrow> runs x nf I t (when_io b m) Q"
  by (auto simp: when_io_def intro: runs_return)

text \<open>A loop keeps an assertion indexed by the elements still to come.\<close>

lemma runs_for_each:
  assumes "P xs t" and "\<And>t. P xs t \<Longrightarrow> I t"
    and "\<And>y ys t. suffix (y # ys) xs \<Longrightarrow> P (y # ys) t \<Longrightarrow> runs x nf I t (f y) (\<lambda>_. P ys)"
  shows "runs x nf I t (for_each xs f) (\<lambda>_. P [])"
proof -
  have "runs x nf I t (for_each ys f) (\<lambda>_. P [])" if "suffix ys xs" "P ys t" "I t" for ys t
    using that
  proof (induction ys arbitrary: t)
    case (Cons y ys)
    then have "runs x nf I t (f y) (\<lambda>_. P ys)" by (intro assms(3))
    moreover have "suffix ys xs" using Cons.prems(1) by (metis suffix_ConsD)
    ultimately show ?case using Cons.IH by (auto intro: runs_bind)
  qed (simp add: runs_return)
  with assms show ?thesis by blast
qed

section \<open>File-system calls\<close>

lemma fs_get_put [simp]: "p \<noteq> [] \<Longrightarrow> fs_get (fs_put p n s) = (fs_get s)(p \<mapsto> n)"
  by (auto simp: fs_get_def fs_put_def fun_eq_iff update_conv')

lemma map_of_filter_key: "map_of (filter (\<lambda>e. \<not> q (fst e)) xs) k = (if q k then None else map_of xs k)"
  by (induction xs) auto

lemma fs_get_delete [simp]:
  "\<not> q [] \<Longrightarrow> fs_get (fs_delete q s) = (\<lambda>p. if q p then None else fs_get s p)"
  by (auto simp: fs_get_def fs_delete_def fun_eq_iff map_of_filter_key)

lemma put_fields [simp]:
  "faults (fs_put p n s) = faults s" "ext (fs_put p n s) = ext s"
  "faults (fs_delete q s) = faults s" "ext (fs_delete q s) = ext s"
  by (simp_all add: fs_put_def fs_delete_def)

lemma put_rest [simp]: "rest_same s (fs_put p n s)" "rest_same s (fs_delete q s)"
  by (simp_all add: rest_same_def fs_put_def fs_delete_def)

text \<open>
  A call on tree \<open>t\<close>: \<open>t'\<close> is the tree after it, and \<open>part q\<close> the tree after an interruption.
\<close>

lemma runs_syscall:
  assumes eff: "\<And>s. fs_get s = t \<Longrightarrow> \<exists>s'. eff s = Some s' \<and> fs_get s' = t' \<and> rest_same s s' \<and> faults s' = faults s"
    and part: "\<And>q s. fs_get s = t \<Longrightarrow> I (fs_get (part q s)) \<and> rest_same s (part q s)"
    and post: "I t'" "Q () t'"
  shows "runs x nf I t (syscall eff part msg) Q"
proof (rule runsI)
  fix s r s'
  assume s: "fs_get s = t" "ext s = x" "nf \<longrightarrow> faults s = []" and run: "syscall eff part msg s = (r, s')"
  obtain f s1 where f: "next_fault s = (f, s1)" by force
  then have s1: "fs_get s1 = t" "rest_same s s1" "nf \<longrightarrow> f = Proceed \<and> faults s1 = []"
    using s by (auto simp: next_fault_def rest_same_def split: list.splits)
  show "rest_same s s' \<and> (nf \<longrightarrow> faults s' = []) \<and> I (fs_get s') \<and>
     (case r of Done a \<Rightarrow> Q a (fs_get s') | Failed e \<Rightarrow> \<not> nf | Halted \<Rightarrow> \<not> nf)"
  proof (cases f)
    case Proceed
    with eff [OF s1(1)] f run s1 post show ?thesis by (auto simp: syscall_def intro: rest_same_trans)
  next
    case (Fail q)
    with part [OF s1(1), of q] f run s1 show ?thesis by (auto simp: syscall_def intro: rest_same_trans)
  next
    case (Crash q)
    with part [OF s1(1), of q] f run s1 show ?thesis by (auto simp: syscall_def intro: rest_same_trans)
  qed
qed

lemmas node_simps = path_exists_def is_dir_def is_file_def file_content_def

lemma runs_sync_path: "t p \<noteq> None \<Longrightarrow> I t \<Longrightarrow> Q () t \<Longrightarrow> runs x nf I t (sync_path p msg) Q"
  unfolding sync_path_def by (rule runs_syscall [where t' = t]) (auto simp: node_simps untouched_def)

lemma runs_create_dir:
  "p \<noteq> [] \<Longrightarrow> t (parent p) = Some Dir \<Longrightarrow> t p = None \<Longrightarrow> I t \<Longrightarrow> I (t(p \<mapsto> Dir)) \<Longrightarrow> Q () (t(p \<mapsto> Dir)) \<Longrightarrow>
   runs x nf I t (create_dir p msg) Q"
  unfolding create_dir_def by (rule runs_syscall [where t' = "t(p \<mapsto> Dir)"]) (auto simp: node_simps untouched_def)

lemma runs_create_file:
  "p \<noteq> [] \<Longrightarrow> t (parent p) = Some Dir \<Longrightarrow> t p \<noteq> Some Dir \<Longrightarrow> I t \<Longrightarrow> I (t(p \<mapsto> File (Bytes []))) \<Longrightarrow>
   Q () (t(p \<mapsto> File (Bytes []))) \<Longrightarrow> runs x nf I t (create_file p msg) Q"
  unfolding create_file_def
  by (rule runs_syscall [where t' = "t(p \<mapsto> File (Bytes []))"]) (auto simp: node_simps untouched_def)

lemma runs_write_all:
  "p \<noteq> [] \<Longrightarrow> t p = Some (File c0) \<Longrightarrow> I t \<Longrightarrow> I (t(p \<mapsto> File Torn)) \<Longrightarrow> I (t(p \<mapsto> File c)) \<Longrightarrow>
   Q () (t(p \<mapsto> File c)) \<Longrightarrow> runs x nf I t (write_all p c msg) Q"
  unfolding write_all_def
  by (rule runs_syscall [where t' = "t(p \<mapsto> File c)"]) (auto simp: node_simps tear_def)

lemma runs_rename_file:
  assumes "src \<noteq> []" "dst \<noteq> []" "src \<noteq> dst" "t (parent dst) = Some Dir" "t src = Some (File c)" "t dst \<noteq> Some Dir"
    and "I t" "I (t(src := None, dst \<mapsto> File c))" "Q () (t(src := None, dst \<mapsto> File c))"
  shows "runs x nf I t (rename src dst msg) Q"
  unfolding rename_def
proof (rule runs_syscall [where t' = "t(src := None, dst \<mapsto> File c)"])
  fix s
  assume "fs_get s = t"
  moreover from this have "fs_get (fs_delete (\<lambda>p. p = src) s) = t(src := None)"
    using assms(1) by (simp add: fun_eq_iff)
  ultimately show "\<exists>s'. rename_effect src dst s = Some s' \<and> fs_get s' = t(src := None, dst \<mapsto> File c) \<and>
      rest_same s s' \<and> faults s' = faults s"
    using assms by (auto simp: rename_effect_def node_simps intro: rest_same_trans [OF put_rest(2) put_rest(1)])
qed (use assms in \<open>auto simp: untouched_def\<close>)

lemma runs_hard_link:
  "t src = Some (File c) \<Longrightarrow> dst \<noteq> [] \<Longrightarrow> t (parent dst) = Some Dir \<Longrightarrow> t dst = None \<Longrightarrow> I t \<Longrightarrow>
   I (t(dst \<mapsto> File c)) \<Longrightarrow> Q () (t(dst \<mapsto> File c)) \<Longrightarrow> runs x nf I t (hard_link src dst) Q"
  unfolding hard_link_def
  by (rule runs_syscall [where t' = "t(dst \<mapsto> File c)"]) (auto simp: node_simps untouched_def)

lemma runs_copy_file:
  "t src = Some (File c) \<Longrightarrow> dst \<noteq> [] \<Longrightarrow> t (parent dst) = Some Dir \<Longrightarrow> t dst \<noteq> Some Dir \<Longrightarrow> I t \<Longrightarrow>
   I (t(dst \<mapsto> File Torn)) \<Longrightarrow> I (t(dst \<mapsto> File c)) \<Longrightarrow> Q () (t(dst \<mapsto> File c)) \<Longrightarrow>
   runs x nf I t (copy_file src dst msg) Q"
  unfolding copy_file_def
  by (rule runs_syscall [where t' = "t(dst \<mapsto> File c)"]) (auto simp: node_simps tear_def)

lemma fun_upd_None_eq: "(\<lambda>q. if q = p then None else t q) = t(p := None)"
  by auto

lemma runs_remove_file:
  "p \<noteq> [] \<Longrightarrow> t p = Some (File c) \<Longrightarrow> I t \<Longrightarrow> I (t(p := None)) \<Longrightarrow> Q () (t(p := None)) \<Longrightarrow>
   runs x nf I t (remove_file p msg) Q"
  unfolding remove_file_def
  by (rule runs_syscall [where t' = "t(p := None)"]) (auto simp: node_simps untouched_def fun_upd_None_eq)

definition without :: "(path \<Rightarrow> bool) \<Rightarrow> tree \<Rightarrow> tree" where
  "without q t = (\<lambda>p. if q p then None else t p)"

lemma runs_remove_dir_all:
  assumes "p \<noteq> []" "t p = Some Dir" and "\<And>q. I (without (\<lambda>r. strict_prefix p r \<and> q r) t)"
    and "I (without (prefix p) t)" "Q () (without (prefix p) t)"
  shows "runs x nf I t (remove_dir_all p msg) Q"
  unfolding remove_dir_all_def
  by (rule runs_syscall [where t' = "without (prefix p) t"])
    (use assms in \<open>auto simp: node_simps without_def [abs_def]\<close>)

text \<open>A call whose error is ignored: only the invariant survives an error.\<close>

lemma runs_ignore:
  assumes "runs x nf I t m (\<lambda>_. Q)" and "\<And>t'. \<not> nf \<Longrightarrow> I t' \<Longrightarrow> Q t'"
  shows "runs x nf I t (ignore_errors m) (\<lambda>_. Q)"
  unfolding ignore_errors_def
  by (rule runs_bind [OF runs_try [OF assms(1), where R = "\<lambda>_. Q"]]) (use assms in \<open>auto intro: runs_return\<close>)

lemma set_map_filter_eq: "set (List.map_filter f xs) = {y. \<exists>e \<in> set xs. f e = Some y}"
  by (force simp: List.map_filter_def)

lemma set_dir_entries: "fs_get s = t \<Longrightarrow> set (dir_entries s d) = {n. t (d @ [n]) \<noteq> None}"
proof -
  assume t: "fs_get s = t"
  have name: "child_name d p = Some n \<longleftrightarrow> p = d @ [n]" for p n
    by (cases p rule: rev_cases) (auto simp: child_name_def)
  have "n \<in> set (dir_entries s d) \<longleftrightarrow> (\<exists>e \<in> set (files s). child_name d (fst e) = Some n)" for n
    unfolding dir_entries_def set_remdups set_map_filter_eq by blast
  then have "n \<in> set (dir_entries s d) \<longleftrightarrow> d @ [n] \<in> fst ` set (files s)" for n
    unfolding name by (simp add: image_iff eq_commute)
  moreover have "fs_get s (d @ [n]) \<noteq> None \<longleftrightarrow> d @ [n] \<in> fst ` set (files s)" for n
    by (simp add: fs_get_def map_of_eq_None_iff del: not_None_eq)
  ultimately show ?thesis using t by blast
qed

lemma runs_read_dir:
  assumes "t d = Some Dir" "I t" "\<And>names. distinct names \<Longrightarrow> set names = {n. t (d @ [n]) \<noteq> None} \<Longrightarrow> Q names t"
  shows "runs x nf I t (read_dir d msg) Q"
proof (rule runsI)
  fix s r s'
  assume s: "fs_get s = t" and run: "read_dir d msg s = (r, s')" and nf: "nf \<longrightarrow> faults s = []"
  have "Q (dir_entries s d) t" using assms(3) set_dir_entries [OF s] by (simp add: dir_entries_def)
  with run s assms(1,2) nf show "rest_same s s' \<and> (nf \<longrightarrow> faults s' = []) \<and> I (fs_get s') \<and>
     (case r of Done a \<Rightarrow> Q a (fs_get s') | Failed e \<Rightarrow> \<not> nf | Halted \<Rightarrow> \<not> nf)"
    by (auto simp: read_dir_def node_simps)
qed

lemma runs_read_file: "t p = Some (File c) \<Longrightarrow> I t \<Longrightarrow> Q c t \<Longrightarrow> runs x nf I t (read_file p msg) Q"
  by (auto simp: runs_def read_file_def node_simps)

section \<open>Durable helpers\<close>

lemma runs_syscall_any:
  assumes eff: "\<And>s s'. fs_get s = t \<Longrightarrow> eff s = Some s' \<Longrightarrow> I (fs_get s') \<and> Q () (fs_get s') \<and> rest_same s s' \<and> faults s' = faults s"
    and part: "\<And>q s. fs_get s = t \<Longrightarrow> I (fs_get (part q s)) \<and> rest_same s (part q s)"
    and "\<not> nf" "I t"
  shows "runs x nf I t (syscall eff part msg) Q"
proof (rule runsI)
  fix s r s'
  assume s: "fs_get s = t" "ext s = x" "nf \<longrightarrow> faults s = []" and run: "syscall eff part msg s = (r, s')"
  obtain f s1 where f: "next_fault s = (f, s1)" by force
  then have s1: "fs_get s1 = t" "rest_same s s1"
    using s by (auto simp: next_fault_def rest_same_def split: list.splits)
  show "rest_same s s' \<and> (nf \<longrightarrow> faults s' = []) \<and> I (fs_get s') \<and>
     (case r of Done a \<Rightarrow> Q a (fs_get s') | Failed e \<Rightarrow> \<not> nf | Halted \<Rightarrow> \<not> nf)"
  proof (cases f)
    case Proceed
    show ?thesis
    proof (cases "eff s1")
      case None
      with Proceed f run s1 assms(3,4) show ?thesis by (auto simp: syscall_def)
    next
      case (Some s2)
      with eff [OF s1(1) Some] Proceed f run s1 assms(3) show ?thesis
        by (auto simp: syscall_def intro: rest_same_trans)
    qed
  next
    case (Fail q)
    with part [OF s1(1), of q] f run s1 assms(3) show ?thesis by (auto simp: syscall_def intro: rest_same_trans)
  next
    case (Crash q)
    with part [OF s1(1), of q] f run s1 assms(3) show ?thesis by (auto simp: syscall_def intro: rest_same_trans)
  qed
qed

lemma runs_remove_file_any:
  "p \<noteq> [] \<Longrightarrow> \<not> nf \<Longrightarrow> I t \<Longrightarrow> I (t(p := None)) \<Longrightarrow> Q () (t(p := None)) \<Longrightarrow>
   runs x nf I t (remove_file p msg) Q"
  unfolding remove_file_def
  by (rule runs_syscall_any) (auto simp: node_simps untouched_def fun_upd_None_eq split: if_splits)

text \<open>A test of the tree, the library, or a condition, followed by the rest of the program.\<close>

lemma runs_get:
  assumes "\<And>s. fs_get s = t \<Longrightarrow> ext s = x \<Longrightarrow> g s = a" and "I t" and "runs x nf I t (f a) Q"
  shows "runs x nf I t (bind_io (gets g) f) Q"
  by (rule runs_bind [OF runs_gets [where Q = "\<lambda>b t'. b = a \<and> t' = t"]]) (use assms in auto)

lemma runs_get_exists:
  "I t \<Longrightarrow> runs x nf I t (f (t p \<noteq> None)) Q \<Longrightarrow> runs x nf I t (bind_io (gets (\<lambda>s. path_exists s p)) f) Q"
  by (rule runs_get [where a = "t p \<noteq> None"]) (auto simp: node_simps)

lemma runs_get_ext: "I t \<Longrightarrow> runs x nf I t (f x) Q \<Longrightarrow> runs x nf I t (bind_io (gets ext) f) Q"
  by (rule runs_get [where a = x]) auto

lemma runs_guard_then: "I t \<Longrightarrow> b \<Longrightarrow> runs x nf I t m Q \<Longrightarrow> runs x nf I t (then_io (guard_io b e) m) Q"
  by (rule runs_bind [OF runs_guard [where Q = "\<lambda>_ t'. t' = t"]]) auto

lemma runs_read_then:
  "t p = Some (File c) \<Longrightarrow> I t \<Longrightarrow> runs x nf I t (f c) Q \<Longrightarrow> runs x nf I t (bind_io (read_file p msg) f) Q"
  by (rule runs_bind [OF runs_read_file [where Q = "\<lambda>a t'. a = c \<and> t' = t"]]) auto

lemma bind_return [simp]: "bind_io (return a) f = f a"
  by (simp add: bind_io_def return_def fun_eq_iff)

lemma runs_try_hard_link:
  assumes "t src = Some (File c)" "dst \<noteq> []" "t (parent dst) = Some Dir" "I t" "I (t(dst \<mapsto> File c))"
    and "Q (Ok ()) (t(dst \<mapsto> File c))" "\<And>e. Q (Err e) t"
  shows "runs x nf I t (try_io (hard_link src dst)) Q"
proof (rule runsI)
  fix s r s'
  assume s: "fs_get s = t" "ext s = x" "nf \<longrightarrow> faults s = []" and run: "try_io (hard_link src dst) s = (r, s')"
  obtain f s1 where f: "next_fault s = (f, s1)" by force
  then have s1: "fs_get s1 = t" "rest_same s s1" "nf \<longrightarrow> f = Proceed \<and> faults s1 = []"
    using s by (auto simp: next_fault_def rest_same_def split: list.splits)
  show "rest_same s s' \<and> (nf \<longrightarrow> faults s' = []) \<and> I (fs_get s') \<and>
     (case r of Done a \<Rightarrow> Q a (fs_get s') | Failed e \<Rightarrow> \<not> nf | Halted \<Rightarrow> \<not> nf)"
    using run f s1 assms
    by (cases f) (auto simp: try_io_def hard_link_def syscall_def node_simps untouched_def
        split: if_splits intro: rest_same_trans)
qed

text \<open>\<open>t'\<close> is \<open>t\<close> with some missing directories on the way to \<open>p\<close> created.\<close>

definition dirs_added :: "path \<Rightarrow> tree \<Rightarrow> tree \<Rightarrow> bool" where
  "dirs_added p t t' \<longleftrightarrow>
     (\<forall>q. t' q = t q \<or>
        prefix q p \<and> q \<noteq> [] \<and> t q = None \<and> t' q = Some Dir \<and> t' (parent q) = Some Dir)"

lemma dirs_added_refl [simp]: "dirs_added p t t"
  by (simp add: dirs_added_def)

lemma runs_create_directory_existing:
  "t p = Some Dir \<Longrightarrow> I t \<Longrightarrow> Q () t \<Longrightarrow> runs x nf I t (create_directory_durable p) Q"
  by (auto simp: runs_def create_directory_durable.simps node_simps)

lemma runs_create_directory_step:
  assumes "t p \<noteq> Some Dir" "p \<noteq> []"
    and "runs x nf I t
      (bind_io (create_directory_durable (parent p)) (\<lambda>_.
       bind_io (try_io (create_dir p ''Failed to create directory'')) (\<lambda>r.
       bind_io (gets (\<lambda>s. is_dir s p)) (\<lambda>there.
       bind_io (case r of Ok _ \<Rightarrow> return () | Err e \<Rightarrow> if there then return () else throw e) (\<lambda>_.
       sync_directory (parent p)))))) Q"
  shows "runs x nf I t (create_directory_durable p) Q"
  using assms unfolding runs_def
  by (auto simp: create_directory_durable.simps [of p] node_simps)

lemma runs_create_missing:
  assumes p: "p \<noteq> []" "t (parent p) = Some Dir" "t p = None" and I: "I t" "I (t(p \<mapsto> Dir))"
  shows "runs x nf I t
      (bind_io (try_io (create_dir p msg)) (\<lambda>r.
       bind_io (gets (\<lambda>s. is_dir s p)) (\<lambda>there.
       bind_io (case r of Ok _ \<Rightarrow> return () | Err e \<Rightarrow> if there then return () else throw e) (\<lambda>_.
       sync_directory (parent p))))) (\<lambda>_ t'. t' = t(p \<mapsto> Dir))"
proof (rule runs_bind [where Q = "\<lambda>r t'. t' = t(p \<mapsto> Dir) \<or> (\<exists>e. r = Err e) \<and> \<not> nf \<and> t' = t"])
  have "runs x nf (\<lambda>t'. t' = t \<or> t' = t(p \<mapsto> Dir)) t (create_dir p msg) (\<lambda>_ t'. t' = t(p \<mapsto> Dir))"
    using p by (intro runs_create_dir) auto
  from runs_try [OF this, where R = "\<lambda>r t'. t' = t(p \<mapsto> Dir) \<or> (\<exists>e. r = Err e) \<and> \<not> nf \<and> t' = t"]
  have "runs x nf (\<lambda>t'. t' = t \<or> t' = t(p \<mapsto> Dir)) t (try_io (create_dir p msg))
      (\<lambda>r t'. t' = t(p \<mapsto> Dir) \<or> (\<exists>e. r = Err e) \<and> \<not> nf \<and> t' = t)"
    by auto
  then show "runs x nf I t (try_io (create_dir p msg))
      (\<lambda>r t'. t' = t(p \<mapsto> Dir) \<or> (\<exists>e. r = Err e) \<and> \<not> nf \<and> t' = t)"
    by (rule runs_conseq) (use I in auto)
  fix r :: "unit res" and t1
  assume t1: "t1 = t(p \<mapsto> Dir) \<or> (\<exists>e. r = Err e) \<and> \<not> nf \<and> t1 = t" and I1: "I t1"
  have "parent p \<noteq> p" using p(1) by (cases p rule: rev_cases) (auto simp: parent_def)
  then have par: "t1 (parent p) = Some Dir" using t1 p by auto
  show "runs x nf I t1
      (bind_io (gets (\<lambda>s. is_dir s p)) (\<lambda>there.
       bind_io (case r of Ok _ \<Rightarrow> return () | Err e \<Rightarrow> if there then return () else throw e) (\<lambda>_.
       sync_directory (parent p)))) (\<lambda>_ t'. t' = t(p \<mapsto> Dir))"
  proof (rule runs_bind [OF runs_gets [where Q = "\<lambda>there t'. t' = t1 \<and> there = (t1 p = Some Dir)"]])
    fix there t2
    assume t2: "t2 = t1 \<and> there = (t1 p = Some Dir)"
    show "runs x nf I t2
        (bind_io (case r of Ok _ \<Rightarrow> return () | Err e \<Rightarrow> if there then return () else throw e) (\<lambda>_.
         sync_directory (parent p))) (\<lambda>_ t'. t' = t(p \<mapsto> Dir))"
    proof (rule runs_bind [where Q = "\<lambda>_ t'. t' = t1 \<and> t1 = t(p \<mapsto> Dir)"])
      show "runs x nf I t2 (case r of Ok _ \<Rightarrow> return () | Err e \<Rightarrow> if there then return () else throw e)
          (\<lambda>_ t'. t' = t1 \<and> t1 = t(p \<mapsto> Dir))"
        using t1 t2 I1 p by (auto split: result.splits intro!: runs_return runs_throw)
    qed (use par in \<open>auto simp: sync_directory_def intro: runs_sync_path\<close>)
  qed (use I1 in \<open>auto simp: node_simps\<close>)
qed

lemma runs_create_directory:
  assumes "t [] = Some Dir" and "\<And>q c. prefix q p \<Longrightarrow> t q \<noteq> Some (File c)"
    and "\<And>t'. dirs_added p t t' \<Longrightarrow> I t'"
  shows "runs x nf I t (create_directory_durable p) (\<lambda>_ t'. dirs_added p t t' \<and> t' p = Some Dir)"
  using assms
proof (induction p rule: rev_induct)
  case Nil
  then show ?case by (intro runs_create_directory_existing) auto
next
  case (snoc c p)
  let ?p = "p @ [c]"
  have up: "dirs_added ?p t t'" if "dirs_added p t t'" for t'
    using that by (auto simp: dirs_added_def)
  have IH: "runs x nf I t (create_directory_durable p) (\<lambda>_ t'. dirs_added p t t' \<and> t' p = Some Dir)"
    using snoc.prems up by (intro snoc.IH) auto
  show ?case
  proof (cases "t ?p = Some Dir")
    case True
    with snoc.prems(3) show ?thesis by (intro runs_create_directory_existing) auto
  next
    case False
    then have missing: "t ?p = None"
      using snoc.prems(2) [of ?p] by (cases "t ?p"; cases "the (t ?p)") auto
    have par: "parent ?p = p" by (simp add: parent_def)
    show ?thesis
    proof (rule runs_create_directory_step [where t = t and p = ?p], goal_cases)
      case 3
      show ?case
        unfolding par
      proof (rule runs_bind [OF IH])
        fix t1
        assume t1: "dirs_added p t t1 \<and> t1 p = Some Dir" and "I t1"
        have "\<not> prefix ?p p" by (auto dest: prefix_length_le)
        with t1 have "t1 ?p = t ?p" unfolding dirs_added_def by blast
        with missing have "t1 ?p = None" by simp
        moreover have "dirs_added ?p t (t1(?p \<mapsto> Dir))"
          unfolding dirs_added_def
        proof
          fix q
          have "t1 q = t q \<or> prefix q p \<and> q \<noteq> [] \<and> t q = None \<and> t1 q = Some Dir \<and> t1 (parent q) = Some Dir"
            using t1 by (simp add: dirs_added_def)
          then show "(t1(?p \<mapsto> Dir)) q = t q \<or> prefix q ?p \<and> q \<noteq> [] \<and> t q = None \<and>
              (t1(?p \<mapsto> Dir)) q = Some Dir \<and> (t1(?p \<mapsto> Dir)) (parent q) = Some Dir"
            using t1 missing by (cases "q = ?p") (auto simp: parent_def)
        qed
        ultimately show "runs x nf I t1
         (bind_io (try_io (create_dir ?p ''Failed to create directory'')) (\<lambda>r.
          bind_io (gets (\<lambda>s. is_dir s ?p)) (\<lambda>there.
          bind_io (case r of Ok _ \<Rightarrow> return () | Err e \<Rightarrow> if there then return () else throw e) (\<lambda>_.
          sync_directory p)))) (\<lambda>_ t'. dirs_added ?p t t' \<and> t' ?p = Some Dir)"
          using t1 \<open>I t1\<close> snoc.prems(3)
          by (intro runs_conseq [OF runs_create_missing [where p = ?p, unfolded par]]) auto
      qed
    qed (use False in auto)
  qed
qed

text \<open>\<open>t'\<close> is \<open>t\<close> up to files of directory \<open>D\<close> whose names satisfy \<open>T\<close>.\<close>

definition tmp_eq :: "(string \<Rightarrow> bool) \<Rightarrow> path \<Rightarrow> tree \<Rightarrow> tree \<Rightarrow> bool" where
  "tmp_eq T D t t' \<longleftrightarrow> (\<forall>q. t' q = t q \<or> (\<exists>n. q = D @ [n] \<and> T n) \<and> t' q \<noteq> Some Dir)"

lemma tmp_eq_refl [simp]: "tmp_eq T D t t"
  by (simp add: tmp_eq_def)

lemma tmp_eq_trans: "tmp_eq T D t t' \<Longrightarrow> tmp_eq T D t' t'' \<Longrightarrow> tmp_eq T D t t''"
  unfolding tmp_eq_def by metis

lemma tmp_eq_mono: "tmp_eq T D t t' \<Longrightarrow> (\<And>n. T n \<Longrightarrow> T' n) \<Longrightarrow> tmp_eq T' D t t'"
  unfolding tmp_eq_def by blast

lemma tmp_eq_put: "tmp_eq T D t t' \<Longrightarrow> T n \<Longrightarrow> tmp_eq T D t (t'(D @ [n] \<mapsto> File c))"
  by (auto simp: tmp_eq_def)

lemma tmp_eq_remove: "tmp_eq T D t t' \<Longrightarrow> T n \<Longrightarrow> tmp_eq T D t (t'(D @ [n] := None))"
  by (auto simp: tmp_eq_def)

lemma tmp_eq_upd: "tmp_eq T D t t' \<Longrightarrow> tmp_eq T D (t(p := v)) (t'(p := v))"
  by (auto simp: tmp_eq_def)

lemma tmp_eq_get: "tmp_eq T D t t' \<Longrightarrow> (\<And>n. p = D @ [n] \<Longrightarrow> \<not> T n) \<Longrightarrow> t' p = t p"
  unfolding tmp_eq_def by metis

lemma tmp_eq_nodir: "tmp_eq T D t t' \<Longrightarrow> t p \<noteq> Some Dir \<Longrightarrow> t' p \<noteq> Some Dir"
  unfolding tmp_eq_def by metis

lemma snoc_neq [simp]: "p @ [n] \<noteq> p" "p \<noteq> p @ [n]" "p @ n # q \<noteq> p" "p \<noteq> p @ n # q"
  by auto

lemma parent_snoc [simp]: "parent (p @ [n]) = p"
  by (simp add: parent_def)

text \<open>
  The common end of the atomic replacements: the temporary file \<open>D/tmp\<close> holds \<open>c\<close>; it is flushed and
  renamed to \<open>D/nm\<close>. An error or an interruption leaves the old file or the new one.
\<close>

definition replacing :: "(string \<Rightarrow> bool) \<Rightarrow> path \<Rightarrow> string \<Rightarrow> content \<Rightarrow> tree \<Rightarrow> tree \<Rightarrow> bool" where
  "replacing T D nm c t t' \<longleftrightarrow> tmp_eq T D t t' \<or> tmp_eq T D (t(D @ [nm] \<mapsto> File c)) t'"

lemma replacing_remove: "replacing T D nm c t t' \<Longrightarrow> T n \<Longrightarrow> replacing T D nm c t (t'(D @ [n] := None))"
  by (auto simp: replacing_def tmp_eq_remove)

lemma runs_rename_temp:
  assumes T: "T tmp" "\<not> T nm" and t: "t D = Some Dir" "t (D @ [nm]) \<noteq> Some Dir"
    and t1: "tmp_eq T D t t1" "t1 (D @ [tmp]) = Some (File c)"
  shows "runs x nf (replacing T D nm c t) t1
      (then_io (rename (D @ [tmp]) (D @ [nm]) m2) (sync_directory D))
      (\<lambda>_. tmp_eq T D (t(D @ [nm] \<mapsto> File c)))"
proof -
  have neq: "tmp \<noteq> nm" using T by auto
  let ?t2 = "t1(D @ [tmp] := None, D @ [nm] \<mapsto> File c)"
  have new: "tmp_eq T D (t(D @ [nm] \<mapsto> File c)) ?t2"
    using tmp_eq_upd [OF tmp_eq_remove [OF t1(1) T(1)]] by simp
  have D: "t1 D = Some Dir" "t1 (D @ [nm]) \<noteq> Some Dir"
    using t tmp_eq_get [OF t1(1), of D] tmp_eq_nodir [OF t1(1)] by auto
  show ?thesis
    using D t1 neq new
    by (intro runs_bind [OF runs_rename_file [where Q = "\<lambda>_ t'. t' = ?t2" and c = c]])
      (auto simp: replacing_def sync_directory_def intro: runs_sync_path)
qed

lemma runs_commit_temp:
  assumes "T tmp" "\<not> T nm" "t D = Some Dir" "t (D @ [nm]) \<noteq> Some Dir" "tmp_eq T D t t1"
    and "t1 (D @ [tmp]) = Some (File c)"
  shows "runs x nf (replacing T D nm c t) t1
      (then_io (sync_path (D @ [tmp]) m1) (then_io (rename (D @ [tmp]) (D @ [nm]) m2) (sync_directory D)))
      (\<lambda>_. tmp_eq T D (t(D @ [nm] \<mapsto> File c)))"
  by (rule runs_bind [OF runs_sync_path [where Q = "\<lambda>_ t'. t' = t1"]])
    (use assms runs_rename_temp [OF assms] in \<open>auto simp: replacing_def\<close>)

text \<open>An action that replaces \<open>D/nm\<close>, followed by the removal of the temporary file on error.\<close>

lemma runs_cleanup:
  fixes m :: "unit io"
  assumes "runs x nf (replacing T D nm c t) t1 m (\<lambda>_. tmp_eq T D (t(D @ [nm] \<mapsto> File c)))" and "T tmp"
  shows "runs x nf (replacing T D nm c t) t1 (on_error m (remove_file (D @ [tmp]) msg))
      (\<lambda>_. tmp_eq T D (t(D @ [nm] \<mapsto> File c)))"
  unfolding on_error_def
proof (rule runs_bind [OF runs_try [OF assms(1),
      where R = "\<lambda>r t'. case r of Ok _ \<Rightarrow> tmp_eq T D (t(D @ [nm] \<mapsto> File c)) t' | Err _ \<Rightarrow> \<not> nf"]])
  fix r :: "unit res" and t'
  assume r: "case r of Ok _ \<Rightarrow> tmp_eq T D (t(D @ [nm] \<mapsto> File c)) t' | Err _ \<Rightarrow> \<not> nf"
    and I: "replacing T D nm c t t'"
  show "runs x nf (replacing T D nm c t) t' (case r of
          Ok a \<Rightarrow> return a
        | Err e \<Rightarrow> then_io (ignore_errors (remove_file (D @ [tmp]) msg)) (throw e))
      (\<lambda>_. tmp_eq T D (t(D @ [nm] \<mapsto> File c)))"
  proof (cases r)
    case (Err e)
    with r have "\<not> nf" by simp
    then have "runs x nf (replacing T D nm c t) t' (ignore_errors (remove_file (D @ [tmp]) msg)) (\<lambda>_ _. True)"
      using I replacing_remove [OF I assms(2)]
      by (intro runs_ignore runs_remove_file_any) auto
    with Err \<open>\<not> nf\<close> show ?thesis by (auto intro: runs_bind runs_throw)
  qed (use r I in \<open>auto intro: runs_return\<close>)
qed auto

lemma atomic_write_snoc:
  "atomic_write (D @ [nm]) c =
     bind_io (create_directory_durable D) (\<lambda>_.
     bind_io new_uuid (\<lambda>u.
     on_error
       (then_io (create_file (D @ [temp_name nm u]) ''Failed to create temp file'')
       (then_io (write_all (D @ [temp_name nm u]) c ''Failed to write temp file'')
       (then_io (sync_path (D @ [temp_name nm u]) ''Failed to sync temp file'')
       (then_io (rename (D @ [temp_name nm u]) (D @ [nm]) ''Failed to commit temp file'')
       (sync_directory D)))))
       (remove_file (D @ [temp_name nm u]) ''remove'')))"
  by (simp add: atomic_write_def Let_def)

lemma atomic_copy_snoc:
  "atomic_copy src (D @ [nm]) =
     bind_io (create_directory_durable D) (\<lambda>_.
     bind_io new_uuid (\<lambda>u.
     on_error
       (then_io (copy_file src (D @ [''.copy-'' @ u @ ''.tmp'']) ''Failed to copy staged payload'')
       (then_io (sync_path (D @ [''.copy-'' @ u @ ''.tmp'']) ''Failed to sync copied payload'')
       (then_io (rename (D @ [''.copy-'' @ u @ ''.tmp'']) (D @ [nm]) ''Failed to publish copied payload'')
       (sync_directory D))))
       (remove_file (D @ [''.copy-'' @ u @ ''.tmp'']) ''remove'')))"
  by (simp add: atomic_copy_def Let_def)

lemma runs_atomic_write:
  assumes T: "\<And>n. T (temp_name nm (ext_uuid x n))" "\<not> T nm" "\<And>n. T n \<Longrightarrow> t (D @ [n]) \<noteq> Some Dir"
    and t: "t D = Some Dir" "t (D @ [nm]) \<noteq> Some Dir"
    and I: "\<And>t'. replacing T D nm c t t' \<Longrightarrow> I t'"
  shows "runs x nf I t (atomic_write (D @ [nm]) c) (\<lambda>_. tmp_eq T D (t(D @ [nm] \<mapsto> File c)))"
proof (rule runs_conseq [where I = "replacing T D nm c t"])
  let ?I = "replacing T D nm c t" and ?Q = "\<lambda>_. tmp_eq T D (t(D @ [nm] \<mapsto> File c))"
  have old: "?I t" by (simp add: replacing_def)
  have body: "runs x nf ?I t
      (then_io (create_file (D @ [tmp]) m1) (then_io (write_all (D @ [tmp]) c m2)
       (then_io (sync_path (D @ [tmp]) m3) (then_io (rename (D @ [tmp]) (D @ [nm]) m4) (sync_directory D))))) ?Q"
    if tmp: "T tmp" for tmp m1 m2 m3 m4
  proof -
    let ?t = "\<lambda>b. t(D @ [tmp] \<mapsto> File b)"
    have put: "tmp_eq T D t (?t b)" for b by (rule tmp_eq_put) (simp_all add: tmp)
    have commit: "runs x nf ?I (?t c)
        (then_io (sync_path (D @ [tmp]) m3) (then_io (rename (D @ [tmp]) (D @ [nm]) m4) (sync_directory D))) ?Q"
      using put t T(2) tmp by (intro runs_commit_temp) auto
    have "runs x nf ?I (?t (Bytes [])) (write_all (D @ [tmp]) c m2) (\<lambda>_ t'. t' = ?t c)"
      using put by (intro runs_write_all) (auto simp: replacing_def)
    note wr = runs_bind [OF this, where R = ?Q and f = "\<lambda>_. then_io (sync_path (D @ [tmp]) m3)
        (then_io (rename (D @ [tmp]) (D @ [nm]) m4) (sync_directory D))"]
    have "runs x nf ?I t (create_file (D @ [tmp]) m1) (\<lambda>_ t'. t' = ?t (Bytes []))"
      using put t T(3) [OF tmp] old by (intro runs_create_file) (auto simp: replacing_def)
    from runs_bind [OF this] wr commit show ?thesis by simp
  qed
  show "runs x nf ?I t (atomic_write (D @ [nm]) c) ?Q"
    unfolding atomic_write_snoc
    by (rule runs_bind [OF runs_create_directory_existing [where Q = "\<lambda>_ t'. t' = t"]])
      (use t old T(1) in \<open>auto intro!: runs_cleanup [OF body]
         runs_bind [OF runs_new_uuid [where Q = "\<lambda>u t'. t' = t \<and> T (temp_name nm u)"]]\<close>)
qed (use I in auto)

lemma runs_atomic_copy:
  assumes T: "\<And>n. T (''.copy-'' @ ext_uuid x n @ ''.tmp'')" "\<not> T nm" "\<And>n. T n \<Longrightarrow> t (D @ [n]) \<noteq> Some Dir"
    and t: "t D = Some Dir" "t (D @ [nm]) \<noteq> Some Dir" "t src = Some (File c)"
    and I: "\<And>t'. replacing T D nm c t t' \<Longrightarrow> I t'"
  shows "runs x nf I t (atomic_copy src (D @ [nm])) (\<lambda>_. tmp_eq T D (t(D @ [nm] \<mapsto> File c)))"
proof (rule runs_conseq [where I = "replacing T D nm c t"])
  let ?I = "replacing T D nm c t" and ?Q = "\<lambda>_. tmp_eq T D (t(D @ [nm] \<mapsto> File c))"
  have old: "?I t" by (simp add: replacing_def)
  have body: "runs x nf ?I t
      (then_io (copy_file src (D @ [tmp]) m1)
       (then_io (sync_path (D @ [tmp]) m3) (then_io (rename (D @ [tmp]) (D @ [nm]) m4) (sync_directory D)))) ?Q"
    if tmp: "T tmp" for tmp m1 m3 m4
  proof -
    let ?t = "\<lambda>b. t(D @ [tmp] \<mapsto> File b)"
    have put: "tmp_eq T D t (?t b)" for b by (rule tmp_eq_put) (simp_all add: tmp)
    have commit: "runs x nf ?I (?t c)
        (then_io (sync_path (D @ [tmp]) m3) (then_io (rename (D @ [tmp]) (D @ [nm]) m4) (sync_directory D))) ?Q"
      using put t T(2) tmp by (intro runs_commit_temp) auto
    have "runs x nf ?I t (copy_file src (D @ [tmp]) m1) (\<lambda>_ t'. t' = ?t c)"
      using put t T(3) [OF tmp] old by (intro runs_copy_file) (auto simp: replacing_def)
    from runs_bind [OF this] commit show ?thesis by simp
  qed
  show "runs x nf ?I t (atomic_copy src (D @ [nm])) ?Q"
    unfolding atomic_copy_snoc
    by (rule runs_bind [OF runs_create_directory_existing [where Q = "\<lambda>_ t'. t' = t"]])
      (use t old T(1) in \<open>auto intro!: runs_cleanup [OF body]
         runs_bind [OF runs_new_uuid [where Q = "\<lambda>u t'. t' = t \<and> T (''.copy-'' @ u @ ''.tmp'')"]]\<close>)
qed (use I in auto)

end
