(* ===== verification/Crash_Phases.thy ===== *)
theory Crash_Phases
  imports Publication Fs_Logic
begin

text \<open>
  The phases of a publication, for the proof of crash safety. The argument follows the journal: before
  it exists the public files are the old ones; while it exists the staged files are intact and
  everything the publication does not concern is unchanged (\<open>mid\<close>); once it is gone the public files
  are the new ones. This theory shows that every step of \<^verbatim>\<open>apply_publication\<close> stays in the middle
  phase, whatever fails, and what each step achieves when it returns.
\<close>

section \<open>Names\<close>

definition uuids_valid :: "externs \<Rightarrow> bool" where
  "uuids_valid x \<longleftrightarrow> (\<forall>n. ext_is_uuid x (ext_uuid x n))"

lemmas name_defs = JOURNAL_def STAGE_PREFIX_def BLOB_def META_def VERSIONS_def

lemma names_distinct [simp]:
  "BLOB \<noteq> META" "BLOB \<noteq> JOURNAL" "META \<noteq> JOURNAL" "BLOB \<noteq> VERSIONS" "META \<noteq> VERSIONS" "JOURNAL \<noteq> VERSIONS"
  "META \<noteq> BLOB" "JOURNAL \<noteq> BLOB" "JOURNAL \<noteq> META" "VERSIONS \<noteq> BLOB" "VERSIONS \<noteq> META" "VERSIONS \<noteq> JOURNAL"
  by (simp_all add: name_defs)

lemma is_stage_prefix: "is_stage x n \<Longrightarrow> prefix STAGE_PREFIX n"
  by (auto simp: is_stage_def strip_prefix_def split: if_splits)

lemma not_stage [simp]:
  "\<not> is_stage x BLOB" "\<not> is_stage x META" "\<not> is_stage x JOURNAL" "\<not> is_stage x VERSIONS"
  by (auto dest!: is_stage_prefix simp: name_defs)

lemma publication_temp_prefix: "publication_temp x n \<Longrightarrow> \<exists>p \<in> set temp_prefixes. prefix p n"
  by (auto simp: publication_temp_def list_ex_iff strip_prefix_def split: if_splits)

lemma not_temp [simp]:
  "\<not> publication_temp x BLOB" "\<not> publication_temp x META" "\<not> publication_temp x JOURNAL"
  "\<not> publication_temp x VERSIONS"
  by (auto dest!: publication_temp_prefix simp: temp_prefixes_def name_defs)

lemma stage_not_temp: "is_stage x n \<Longrightarrow> \<not> publication_temp x n"
  by (auto dest!: publication_temp_prefix is_stage_prefix simp: temp_prefixes_def name_defs prefix_def)

lemma stage_names [simp]:
  "is_stage x n \<Longrightarrow> n \<noteq> BLOB" "is_stage x n \<Longrightarrow> n \<noteq> META" "is_stage x n \<Longrightarrow> n \<noteq> JOURNAL"
  "is_stage x n \<Longrightarrow> n \<noteq> VERSIONS"
  by auto

lemma temp_names:
  "publication_temp x n \<Longrightarrow> n \<noteq> BLOB" "publication_temp x n \<Longrightarrow> n \<noteq> META"
  "publication_temp x n \<Longrightarrow> n \<noteq> JOURNAL" "publication_temp x n \<Longrightarrow> n \<noteq> VERSIONS"
  "publication_temp x n \<Longrightarrow> \<not> is_stage x n"
  using stage_not_temp by auto

lemma strip_suffix_append [simp]: "strip_suffix q (a @ q) = Some a"
  by (simp add: strip_suffix_def suffix_def)

lemma temp_is_temp:
  assumes "uuids_valid x"
  shows "publication_temp x (''.published-'' @ ext_uuid x n @ ''.tmp'')"
    and "publication_temp x (''.copy-'' @ ext_uuid x n @ ''.tmp'')"
    and "nm \<in> {BLOB, META, JOURNAL} \<Longrightarrow> publication_temp x (temp_name nm (ext_uuid x n))"
  using assms
  by (auto simp: publication_temp_def temp_prefixes_def strip_prefix_def temp_name_def name_defs uuids_valid_def)

lemma stage_is_stage: "uuids_valid x \<Longrightarrow> is_stage x (STAGE_PREFIX @ ext_uuid x n)"
  by (simp add: is_stage_def strip_prefix_def uuids_valid_def)

section \<open>What a directory may hold\<close>

text \<open>Paths relative to an object directory that can only be files, and that can only be directories.\<close>

definition file_name :: "externs \<Rightarrow> string \<Rightarrow> bool" where
  "file_name x n \<longleftrightarrow> n = BLOB \<or> n = META \<or> n = JOURNAL \<or> publication_temp x n"

fun file_path :: "externs \<Rightarrow> path \<Rightarrow> bool" where
  "file_path x [n] = file_name x n"
| "file_path x [a, n] = (is_stage x a \<and> file_name x n)"
| "file_path x [a, v, n] = (a = VERSIONS \<and> file_name x n)"
| "file_path x _ = False"

fun dir_path :: "externs \<Rightarrow> path \<Rightarrow> bool" where
  "dir_path x [n] = (is_stage x n \<or> n = VERSIONS)"
| "dir_path x [a, v] = (a = VERSIONS)"
| "dir_path x _ = False"

fun node_ok :: "externs \<Rightarrow> path \<Rightarrow> node \<Rightarrow> bool" where
  "node_ok x q Dir = (\<not> file_path x q)"
| "node_ok x q (File c) = (\<not> dir_path x q)"

definition kinds_ok :: "externs \<Rightarrow> path \<Rightarrow> tree \<Rightarrow> bool" where
  "kinds_ok x d t \<longleftrightarrow>
     (\<forall>q n. t (d @ q) = Some n \<longrightarrow> node_ok x q n) \<and>
     (\<forall>v q. t (d @ VERSIONS # v # q) \<noteq> None \<longrightarrow> t (d @ [VERSIONS]) \<noteq> None \<and> t (d @ [VERSIONS, v]) \<noteq> None)"

text \<open>Private paths: staging directories with their contents, and temporary files.\<close>

fun scratch :: "externs \<Rightarrow> path \<Rightarrow> bool" where
  "scratch x [] = False"
| "scratch x (a # r) =
     (is_stage x a \<or> publication_temp x a \<or>
      a = VERSIONS \<and> (case r of [v, n] \<Rightarrow> publication_temp x n | _ \<Rightarrow> False))"

definition scratch_in :: "externs \<Rightarrow> path \<Rightarrow> path \<Rightarrow> bool" where
  "scratch_in x d p \<longleftrightarrow> (\<exists>q. p = d @ q \<and> scratch x q)"

lemma scratch_in_append [simp]: "scratch_in x d (d @ q) \<longleftrightarrow> scratch x q"
  by (simp add: scratch_in_def)

text \<open>The contents of the files of a tree.\<close>

definition fc :: "tree \<Rightarrow> path \<Rightarrow> content option" where
  "fc t p = (case t p of Some (File c) \<Rightarrow> Some c | _ \<Rightarrow> None)"

lemma fc_simps [simp]:
  "fc (t(p \<mapsto> File c)) = (fc t)(p \<mapsto> c)" "fc (t(p := None)) = (fc t)(p := None)"
  "fc (without q t) p = (if q p then None else fc t p)"
  by (auto simp: fc_def without_def fun_eq_iff)

lemma fc_Some: "fc t p = Some c \<longleftrightarrow> t p = Some (File c)"
  by (auto simp: fc_def split: option.splits node.splits)

lemma fc_None: "fc t p = None \<longleftrightarrow> t p = None \<or> t p = Some Dir"
  by (auto simp: fc_def split: option.splits node.splits)

lemma fc_dirs_added: "dirs_added p t t' \<Longrightarrow> fc t' = fc t"
  unfolding dirs_added_def fc_def fun_eq_iff by (metis (no_types, lifting) option.simps(4) option.simps(5) node.simps(4))

lemma fc_tmp_eq: "tmp_eq T D t t' \<Longrightarrow> (\<And>n. p = D @ [n] \<Longrightarrow> \<not> T n) \<Longrightarrow> fc t' p = fc t p"
  using tmp_eq_get [of T D t t' p] by (simp add: fc_def)

section \<open>Preservation of the kinds\<close>

lemma kinds_node: "kinds_ok x d t \<Longrightarrow> t (d @ q) = Some n \<Longrightarrow> node_ok x q n"
  by (simp add: kinds_ok_def)

lemma kinds_closed:
  "kinds_ok x d t \<Longrightarrow> t (d @ VERSIONS # v # q) \<noteq> None \<Longrightarrow> t (d @ [VERSIONS]) = Some Dir \<and> t (d @ [VERSIONS, v]) = Some Dir"
proof -
  assume k: "kinds_ok x d t" and "t (d @ VERSIONS # v # q) \<noteq> None"
  then have "t (d @ [VERSIONS]) \<noteq> None" "t (d @ [VERSIONS, v]) \<noteq> None" unfolding kinds_ok_def by blast+
  then obtain a b where ab: "t (d @ [VERSIONS]) = Some a" "t (d @ [VERSIONS, v]) = Some b" by blast
  with kinds_node [OF k ab(1)] kinds_node [OF k ab(2)] show ?thesis by (cases a; cases b) auto
qed

lemma kinds_change:
  assumes k: "kinds_ok x d t" and new: "\<And>q n. t' (d @ q) = Some n \<Longrightarrow> t' (d @ q) \<noteq> t (d @ q) \<Longrightarrow> node_ok x q n"
    and dirs: "\<And>v q. t' (d @ VERSIONS # v # q) \<noteq> None \<Longrightarrow> t (d @ VERSIONS # v # q) \<noteq> None \<Longrightarrow>
       t' (d @ [VERSIONS]) \<noteq> None \<and> t' (d @ [VERSIONS, v]) \<noteq> None"
    and added: "\<And>v q. t' (d @ VERSIONS # v # q) \<noteq> None \<Longrightarrow> t (d @ VERSIONS # v # q) = None \<Longrightarrow>
       t' (d @ [VERSIONS]) \<noteq> None \<and> t' (d @ [VERSIONS, v]) \<noteq> None"
  shows "kinds_ok x d t'"
  unfolding kinds_ok_def using kinds_node [OF k] new dirs added by metis

text \<open>A removal that takes a version directory only together with what it holds.\<close>

lemma kinds_without:
  assumes "kinds_ok x d t" and "\<not> P (d @ [VERSIONS])" and "\<And>v q. P (d @ [VERSIONS, v]) \<Longrightarrow> P (d @ VERSIONS # v # q)"
  shows "kinds_ok x d (without P t)"
  using assms(1)
proof (rule kinds_change)
  fix v q
  assume "without P t (d @ VERSIONS # v # q) \<noteq> None" "t (d @ VERSIONS # v # q) \<noteq> None"
  with kinds_closed [OF assms(1), of v q] assms(2,3)
  show "without P t (d @ [VERSIONS]) \<noteq> None \<and> without P t (d @ [VERSIONS, v]) \<noteq> None"
    by (auto simp: without_def split: if_splits)
qed (auto simp: without_def split: if_splits)

lemma kinds_remove:
  assumes "kinds_ok x d t" and "\<And>v. p \<noteq> d @ [VERSIONS] \<and> p \<noteq> d @ [VERSIONS, v]"
  shows "kinds_ok x d (t(p := None))"
proof -
  have "t(p := None) = without (\<lambda>q. q = p) t" by (auto simp: without_def)
  with kinds_without [OF assms(1), of "\<lambda>q. q = p"] assms(2) show ?thesis by metis
qed

lemma kinds_put:
  assumes k: "kinds_ok x d t" and "node_ok x q n" and "\<And>v r. q = VERSIONS # v # r \<Longrightarrow> t (d @ [VERSIONS, v]) \<noteq> None"
  shows "kinds_ok x d (t(d @ q \<mapsto> n))"
  using k
proof (rule kinds_change)
  fix v r
  assume "(t(d @ q \<mapsto> n)) (d @ VERSIONS # v # r) \<noteq> None" "t (d @ VERSIONS # v # r) = None"
  then have "q = VERSIONS # v # r" by (auto split: if_splits)
  with assms(3) have "t (d @ [VERSIONS, v]) \<noteq> None" by blast
  with kinds_closed [OF k, of v "[]"] show "(t(d @ q \<mapsto> n)) (d @ [VERSIONS]) \<noteq> None \<and> (t(d @ q \<mapsto> n)) (d @ [VERSIONS, v]) \<noteq> None"
    by auto
next
  fix v r
  assume "t (d @ VERSIONS # v # r) \<noteq> None"
  with kinds_closed [OF k] show "(t(d @ q \<mapsto> n)) (d @ [VERSIONS]) \<noteq> None \<and> (t(d @ q \<mapsto> n)) (d @ [VERSIONS, v]) \<noteq> None"
    by auto
qed (use assms(2) in \<open>auto split: if_splits\<close>)

lemma kinds_dirs_added:
  assumes k: "kinds_ok x d t" and add: "dirs_added (d @ q) t t'"
    and q: "q = [] \<or> (\<exists>st. q = [st] \<and> is_stage x st) \<or> (\<exists>v. q = [VERSIONS, v])"
  shows "kinds_ok x d t'"
  using k
proof (rule kinds_change)
  have cases: "t' p = t p \<or> prefix p (d @ q) \<and> t p = None \<and> t' p = Some Dir \<and> t' (parent p) = Some Dir" for p
    using add unfolding dirs_added_def by blast
  have more: "t p \<noteq> None \<Longrightarrow> t' p \<noteq> None" for p using cases [of p] by auto
  show "node_ok x r n" if "t' (d @ r) = Some n" "t' (d @ r) \<noteq> t (d @ r)" for r n
    using cases [of "d @ r"] that q by (auto simp: prefix_Cons file_name_def stage_not_temp)
  show "t' (d @ [VERSIONS]) \<noteq> None \<and> t' (d @ [VERSIONS, v]) \<noteq> None" if "t (d @ VERSIONS # v # r) \<noteq> None" for v r
    using kinds_closed [OF k, of v r] that more by auto
  show "t' (d @ [VERSIONS]) \<noteq> None \<and> t' (d @ [VERSIONS, v]) \<noteq> None"
    if "t' (d @ VERSIONS # v # r) \<noteq> None" "t (d @ VERSIONS # v # r) = None" for v r
    using cases [of "d @ VERSIONS # v # r"] that q by (auto simp: prefix_Cons parent_def butlast_append)
qed

text \<open>The directories in which files are replaced, relative to the object directory.\<close>

definition replace_dir :: "externs \<Rightarrow> path \<Rightarrow> bool" where
  "replace_dir x r \<longleftrightarrow> r = [] \<or> (\<exists>st. r = [st] \<and> is_stage x st) \<or> (\<exists>v. r = [VERSIONS, v])"

lemma replace_dir_names:
  assumes "replace_dir x r" and "file_name x n"
  shows "file_path x (r @ [n])" and "\<not> dir_path x (r @ [n])"
  using assms by (auto simp: replace_dir_def file_name_def temp_names)

lemma replace_dir_temp:
  assumes "replace_dir x r" and "publication_temp x n"
  shows "scratch x (r @ [n])"
  using assms by (auto simp: replace_dir_def)

lemma kinds_tmp_eq:
  assumes k: "kinds_ok x d t" and tmp: "tmp_eq (publication_temp x) (d @ r) t t'" and r: "replace_dir x r"
    and dir: "t (d @ r) = Some Dir"
  shows "kinds_ok x d t'"
  using k
proof (rule kinds_change)
  have cases: "t' (d @ q) = t (d @ q) \<or> (\<exists>m. q = r @ [m] \<and> publication_temp x m \<and> t' (d @ q) \<noteq> Some Dir)" for q
    using tmp unfolding tmp_eq_def by (metis append_assoc same_append_eq)
  show "node_ok x q n" if n: "t' (d @ q) = Some n" "t' (d @ q) \<noteq> t (d @ q)" for q n
  proof -
    from cases [of q] n obtain m where "q = r @ [m]" "publication_temp x m" "n \<noteq> Dir" by auto
    with replace_dir_names(2) [OF r, of m] show ?thesis by (cases n) (auto simp: file_name_def)
  qed
  have vdir: "t' (d @ [VERSIONS]) = t (d @ [VERSIONS])" "t' (d @ [VERSIONS, v]) = t (d @ [VERSIONS, v])" for v
    using cases [of "[VERSIONS]"] cases [of "[VERSIONS, v]"] r by (auto simp: replace_dir_def)
  show "t' (d @ [VERSIONS]) \<noteq> None \<and> t' (d @ [VERSIONS, v]) \<noteq> None" if "t (d @ VERSIONS # v # q) \<noteq> None" for v q
    using kinds_closed [OF k, of v q] that vdir by auto
  show "t' (d @ [VERSIONS]) \<noteq> None \<and> t' (d @ [VERSIONS, v]) \<noteq> None"
    if "t' (d @ VERSIONS # v # q) \<noteq> None" "t (d @ VERSIONS # v # q) = None" for v q
  proof -
    from that cases [of "VERSIONS # v # q"] obtain m where "VERSIONS # v # q = r @ [m]" by auto
    with r have "r = [VERSIONS, v]" by (auto simp: replace_dir_def)
    with dir have "t (d @ VERSIONS # v # []) \<noteq> None" by simp
    with kinds_closed [OF k this] vdir show ?thesis by simp
  qed
qed

lemma kinds_not_dir: "kinds_ok x d t \<Longrightarrow> file_path x q \<Longrightarrow> t (d @ q) \<noteq> Some Dir"
  using kinds_node node_ok.simps(1) by blast

lemma kinds_not_file: "kinds_ok x d t \<Longrightarrow> dir_path x q \<Longrightarrow> t (d @ q) \<noteq> Some (File c)"
  using kinds_node node_ok.simps(2) by blast

lemma fc_tmp_eq_public:
  assumes "tmp_eq (publication_temp x) (d @ r) t t'" and "replace_dir x r" and "\<not> scratch_in x d p"
  shows "fc t' p = fc t p"
  using assms(1)
proof (rule fc_tmp_eq)
  fix n
  assume "p = (d @ r) @ [n]"
  with assms(2,3) replace_dir_temp [OF assms(2), of n] show "\<not> publication_temp x n" by auto
qed

section \<open>Replacing the files of a directory\<close>

text \<open>
  The three ways in which \<open>d/r/nm\<close> is replaced: from memory, from a staged file, and by linking an
  existing one. \<open>I\<close> has to hold for the tree before and after, up to temporary files.
\<close>

lemma kinds_replace:
  assumes "kinds_ok x d t" and "replace_dir x r" and "file_name x nm"
  shows "t (d @ r @ [nm]) \<noteq> Some Dir"
  using kinds_not_dir [OF assms(1)] replace_dir_names(1) [OF assms(2,3)] by auto

lemma runs_write_in:
  assumes "uuids_valid x" "kinds_ok x d t" "replace_dir x r" "nm \<in> {BLOB, META, JOURNAL}" "t (d @ r) = Some Dir"
    and "\<And>t'. replacing (publication_temp x) (d @ r) nm c t t' \<Longrightarrow> I t'"
  shows "runs x nf I t (atomic_write (d @ r @ [nm]) c)
      (\<lambda>_. tmp_eq (publication_temp x) (d @ r) (t(d @ r @ [nm] \<mapsto> File c)))"
  using runs_atomic_write [of "publication_temp x" nm x t "d @ r" c I nf] assms
    temp_is_temp(3) [OF assms(1,4)] kinds_replace [OF assms(2,3)]
  by (auto simp: file_name_def)

lemma runs_link_or_copy:
  assumes T: "T tmp" "\<And>n. T (''.copy-'' @ ext_uuid x n @ ''.tmp'')" "\<And>n. tmp \<noteq> ''.copy-'' @ ext_uuid x n @ ''.tmp''"
    and nd: "\<And>n. T n \<Longrightarrow> t (D @ [n]) \<noteq> Some Dir"
    and t: "t D = Some Dir" "t src = Some (File c)"
    and I: "\<And>t'. tmp_eq T D t t' \<Longrightarrow> I t'"
  shows "runs x nf I t
      (bind_io (try_io (hard_link src (D @ [tmp]))) (\<lambda>linked.
       case linked of Ok _ \<Rightarrow> return () | Err _ \<Rightarrow> atomic_copy src (D @ [tmp])))
      (\<lambda>_ t'. tmp_eq T D t t' \<and> t' (D @ [tmp]) = Some (File c))"
proof -
  let ?t = "t(D @ [tmp] \<mapsto> File c)"
  have put: "tmp_eq T D t ?t" by (rule tmp_eq_put) (simp_all add: T)
  define T' where "T' n \<longleftrightarrow> T n \<and> n \<noteq> tmp" for n
  have sub: "tmp_eq T' D t t' \<Longrightarrow> tmp_eq T D t t'" for t t' by (erule tmp_eq_mono) (simp add: T'_def)
  have copied: "tmp_eq T D t t' \<and> t' (D @ [tmp]) = Some (File c)" if "tmp_eq T' D ?t t'" for t'
    using tmp_eq_trans [OF put sub [OF that]] tmp_eq_get [OF that, of "D @ [tmp]"] by (simp add: T'_def)
  have "runs x nf I t (atomic_copy src (D @ [tmp])) (\<lambda>_. tmp_eq T' D ?t)"
    using T nd t I sub copied by (intro runs_atomic_copy) (auto simp: T'_def replacing_def)
  from runs_conseq [OF this, of I "\<lambda>_ t'. tmp_eq T D t t' \<and> t' (D @ [tmp]) = Some (File c)"]
  have copy: "runs x nf I t (atomic_copy src (D @ [tmp])) (\<lambda>_ t'. tmp_eq T D t t' \<and> t' (D @ [tmp]) = Some (File c))"
    using copied by auto
  have link: "runs x nf I t (try_io (hard_link src (D @ [tmp])))
      (\<lambda>r t'. case r of Ok _ \<Rightarrow> t' = ?t | Err _ \<Rightarrow> t' = t)"
    using t put I by (intro runs_try_hard_link) auto
  show ?thesis
    by (rule runs_bind [OF link]) (use put copy I in \<open>auto split: result.splits intro!: runs_return\<close>)
qed

lemma bind_io_assoc: "bind_io (bind_io m f) g = bind_io m (\<lambda>a. bind_io (f a) g)"
  by (auto simp: bind_io_def fun_eq_iff split: prod.splits outcome.splits)

lemma publish_staged_snoc:
  "publish_staged_file src (D @ [nm]) =
     bind_io new_uuid (\<lambda>u.
     bind_io (bind_io (try_io (hard_link src (D @ [''.published-'' @ u @ ''.tmp'']))) (\<lambda>linked.
       case linked of Ok _ \<Rightarrow> return () | Err _ \<Rightarrow> atomic_copy src (D @ [''.published-'' @ u @ ''.tmp'']))) (\<lambda>_.
     then_io (rename (D @ [''.published-'' @ u @ ''.tmp'']) (D @ [nm]) ''Failed to publish staged object generation'')
       (sync_directory D)))"
  unfolding publish_staged_file_def Let_def bind_io_assoc parent_snoc ..

lemma runs_publish_staged:
  assumes x: "uuids_valid x" and k: "kinds_ok x d t" and nm: "nm \<in> {BLOB, META}"
    and t: "t d = Some Dir" "t src = Some (File c)"
    and I: "\<And>t'. replacing (publication_temp x) d nm c t t' \<Longrightarrow> I t'"
  shows "runs x nf I t (publish_staged_file src (d @ [nm]))
      (\<lambda>_. tmp_eq (publication_temp x) d (t(d @ [nm] \<mapsto> File c)))"
proof (rule runs_conseq [where I = "replacing (publication_temp x) d nm c t"])
  let ?T = "publication_temp x" and ?I = "replacing (publication_temp x) d nm c t"
  have nd: "t (d @ [n]) \<noteq> Some Dir" if "?T n \<or> n = nm" for n
    using kinds_replace [OF k, of "[]" n] that nm by (auto simp: replace_dir_def file_name_def)
  have nmT: "\<not> ?T nm" using nm by auto
  show "runs x nf ?I t (publish_staged_file src (d @ [nm])) (\<lambda>_. tmp_eq ?T d (t(d @ [nm] \<mapsto> File c)))"
    unfolding publish_staged_snoc
  proof (rule runs_bind [OF runs_new_uuid [where Q = "\<lambda>u t'. t' = t \<and> (\<exists>n. u = ext_uuid x n)"]])
    fix u t'
    assume u: "t' = t \<and> (\<exists>n. u = ext_uuid x n)"
    let ?tmp = "''.published-'' @ u @ ''.tmp''"
    have tmp: "?T ?tmp" using u temp_is_temp(1) [OF x] by auto
    have "runs x nf ?I t (bind_io (try_io (hard_link src (d @ [?tmp]))) (\<lambda>linked.
        case linked of Ok _ \<Rightarrow> return () | Err _ \<Rightarrow> atomic_copy src (d @ [?tmp])))
        (\<lambda>_ t'. tmp_eq ?T d t t' \<and> t' (d @ [?tmp]) = Some (File c))"
      using t nd tmp temp_is_temp(2) [OF x] by (intro runs_link_or_copy) (auto simp: replacing_def)
    then show "runs x nf ?I t' (bind_io (bind_io (try_io (hard_link src (d @ [?tmp]))) (\<lambda>linked.
        case linked of Ok _ \<Rightarrow> return () | Err _ \<Rightarrow> atomic_copy src (d @ [?tmp]))) (\<lambda>_.
        then_io (rename (d @ [?tmp]) (d @ [nm]) ''Failed to publish staged object generation'')
          (sync_directory d))) (\<lambda>_. tmp_eq ?T d (t(d @ [nm] \<mapsto> File c)))"
      using runs_rename_temp [of ?T ?tmp nm t d] tmp nmT t nd u by (auto intro: runs_bind)
  qed (auto simp: replacing_def)
qed (use I in auto)

section \<open>The phases of a publication\<close>

text \<open>
  \<open>r\<close> is the journal record, \<open>b\<close> and \<open>ob\<close> the staged payload and metadata (used when the record
  publishes), \<open>f\<close> the contents of the files before the publication.
\<close>

definition record_ok :: "externs \<Rightarrow> publication \<Rightarrow> content \<Rightarrow> object \<Rightarrow> bool" where
  "record_ok x r b ob \<longleftrightarrow>
     is_stage x (pub_stage r) \<and>
     (pub_publish r \<longrightarrow> \<not> pub_clear_current r \<and> pub_marker r = None \<and> content_len b = obj_size ob) \<and>
     list_all version_id_ok (pub_remove_versions r) \<and>
     (\<forall>m. pub_marker r = Some m \<longrightarrow>
        (\<exists>v. obj_version_id m = Some v \<and> version_id_ok v) \<and> obj_size m = 0 \<and> pub_clear_current r)"

text \<open>The files of the delete marker a record writes.\<close>

definition marker_file :: "path \<Rightarrow> publication \<Rightarrow> path \<Rightarrow> content option" where
  "marker_file d r p =
     (case pub_marker r of
        None \<Rightarrow> None
      | Some m \<Rightarrow>
         (case obj_version_id m of
            None \<Rightarrow> None
          | Some v \<Rightarrow>
             if p = d @ [VERSIONS, v, BLOB] then Some (Bytes [])
             else if p = d @ [VERSIONS, v, META] then Some (ObjectJson (serialize_object m))
             else None))"

definition removed_file :: "path \<Rightarrow> publication \<Rightarrow> path \<Rightarrow> bool" where
  "removed_file d r p \<longleftrightarrow> list_ex (\<lambda>v. prefix (d @ [VERSIONS, v]) p) (pub_remove_versions r)"

definition current_file :: "path \<Rightarrow> path \<Rightarrow> bool" where
  "current_file d p \<longleftrightarrow> p = d @ [BLOB] \<or> p = d @ [META]"

definition affected :: "path \<Rightarrow> publication \<Rightarrow> path \<Rightarrow> bool" where
  "affected d r p \<longleftrightarrow>
     p = d @ [JOURNAL] \<or> current_file d p \<and> (pub_publish r \<or> pub_clear_current r) \<or>
     removed_file d r p \<or> marker_file d r p \<noteq> None"

text \<open>The contents of the files after the publication.\<close>

definition new_view :: "path \<Rightarrow> publication \<Rightarrow> content \<Rightarrow> object \<Rightarrow> (path \<Rightarrow> content option) \<Rightarrow> path \<Rightarrow> content option" where
  "new_view d r b ob f p =
     (if p = d @ [JOURNAL] then None
      else if current_file d p \<and> pub_publish r then Some (if p = d @ [BLOB] then b else ObjectJson ob)
      else if current_file d p \<and> pub_clear_current r then None
      else if marker_file d r p \<noteq> None then marker_file d r p
      else if removed_file d r p then None
      else f p)"

definition base_ok :: "path \<Rightarrow> tree \<Rightarrow> bool" where
  "base_ok d t \<longleftrightarrow>
     d \<noteq> [] \<and> t [] = Some Dir \<and> (\<forall>q c. prefix q d \<longrightarrow> t q \<noteq> Some (File c)) \<and>
     (\<forall>q. \<not> strict_prefix d q \<longrightarrow> q \<noteq> [] \<longrightarrow> t q \<noteq> None \<longrightarrow> t (parent q) = Some Dir)"

text \<open>The public files are those of \<open>f\<close>.\<close>

definition settled :: "externs \<Rightarrow> path \<Rightarrow> (path \<Rightarrow> content option) \<Rightarrow> tree \<Rightarrow> bool" where
  "settled x d f t \<longleftrightarrow>
     base_ok d t \<and> kinds_ok x d t \<and> (\<forall>p. \<not> scratch_in x d p \<longrightarrow> fc t p = f p)"

text \<open>The publication is decided.\<close>

definition mid :: "externs \<Rightarrow> path \<Rightarrow> publication \<Rightarrow> content \<Rightarrow> object \<Rightarrow> (path \<Rightarrow> content option) \<Rightarrow> tree \<Rightarrow> bool" where
  "mid x d r b ob f t \<longleftrightarrow>
     base_ok d t \<and> kinds_ok x d t \<and> t d = Some Dir \<and>
     t (d @ [JOURNAL]) = Some (File (PublicationJson r)) \<and> t (d @ [pub_stage r]) = Some Dir \<and>
     (pub_publish r \<longrightarrow> t (d @ [pub_stage r, BLOB]) = Some (File b) \<and>
        t (d @ [pub_stage r, META]) = Some (File (ObjectJson ob))) \<and>
     (\<forall>p. \<not> scratch_in x d p \<longrightarrow> \<not> affected d r p \<longrightarrow> fc t p = f p)"

text \<open>A change that keeps the decision and its staged files.\<close>

definition protected :: "publication \<Rightarrow> path set" where
  "protected r = {[], [JOURNAL], [pub_stage r], [pub_stage r, BLOB], [pub_stage r, META]}"

definition harmless :: "externs \<Rightarrow> path \<Rightarrow> publication \<Rightarrow> tree \<Rightarrow> tree \<Rightarrow> bool" where
  "harmless x d r t t' \<longleftrightarrow>
     (\<forall>p. t' p = t p \<or>
        (\<exists>q. p = d @ q \<and> q \<notin> protected r \<and>
             (scratch x q \<or> affected d r p \<or> fc t' p = fc t p)))"

lemma base_ok_change:
  assumes "base_ok d t" and "\<And>p. t' p = t p \<or> (\<exists>q. p = d @ q \<and> q \<noteq> [])"
  shows "base_ok d t'"
proof -
  have "t' q = t q" if "\<not> strict_prefix d q" for q
    using assms(2) [of q] that by (auto simp: strict_prefix_def)
  moreover have "\<not> strict_prefix d (parent q)" if "\<not> strict_prefix d q" for q
    using that by (metis parent_def prefixeq_butlast prefix_order.less_le_trans)
  moreover have "\<not> strict_prefix d q" if "prefix q d" for q
    using that by (metis prefix_order.leD)
  ultimately show ?thesis using assms(1) unfolding base_ok_def by simp
qed

lemma base_ok_above:
  assumes "base_ok d t" and "t d = Some Dir" and "prefix q d"
  shows "t q = Some Dir"
proof -
  have "t (take n d) = Some Dir" if "n \<le> length d" for n
    using that
  proof (induction rule: inc_induct)
    case (step m)
    then have "parent (take (Suc m) d) = take m d" by (simp add: parent_def butlast_take)
    moreover have "take (Suc m) d \<noteq> []" using step by auto
    moreover have "\<not> strict_prefix d (take (Suc m) d)" by (metis take_is_prefix prefix_order.leD)
    ultimately show ?case
      using step assms(1) unfolding base_ok_def by (metis option.distinct(1))
  qed (simp add: assms(2))
  with assms(3) show ?thesis by (metis prefix_def append_eq_conv_conj prefix_length_le)
qed

lemma base_ok_dirs_added:
  assumes "base_ok d t" and add: "dirs_added p t t'"
  shows "base_ok d t'"
proof -
  have cases: "t' q = t q \<or> q \<noteq> [] \<and> t q = None \<and> t' q = Some Dir \<and> t' (parent q) = Some Dir" for q
    using add unfolding dirs_added_def by blast
  have "t' (parent q) = Some Dir" if "\<not> strict_prefix d q" "q \<noteq> []" "t' q \<noteq> None" for q
    using cases [of q] cases [of "parent q"] assms(1) that unfolding base_ok_def by auto
  moreover have "t' q \<noteq> Some (File c)" if "prefix q d" for q c
    using cases [of q] assms(1) that unfolding base_ok_def by auto
  moreover have "t' [] = Some Dir" using cases [of "[]"] assms(1) unfolding base_ok_def by auto
  ultimately show ?thesis using assms(1) unfolding base_ok_def by blast
qed

lemma mid_step:
  assumes m: "mid x d r b ob f t" and k: "kinds_ok x d t'" and h: "harmless x d r t t'"
  shows "mid x d r b ob f t'"
proof -
  have same: "t' (d @ q) = t (d @ q)" if "q \<in> protected r" for q
    using h that unfolding harmless_def by (metis same_append_eq)
  have "base_ok d t'"
  proof (rule base_ok_change)
    show "base_ok d t" using m by (simp add: mid_def)
    show "t' p = t p \<or> (\<exists>q. p = d @ q \<and> q \<noteq> [])" for p
      using h unfolding harmless_def protected_def by blast
  qed
  moreover have "fc t' p = f p" if "\<not> scratch_in x d p" "\<not> affected d r p" for p
  proof -
    have "fc t' p = fc t p" using h that unfolding harmless_def by (metis scratch_in_append fc_def)
    with m that show ?thesis by (simp add: mid_def)
  qed
  ultimately show ?thesis
    using m k same [of "[]"] same [of "[JOURNAL]"] same [of "[pub_stage r]"]
      same [of "[pub_stage r, BLOB]"] same [of "[pub_stage r, META]"]
    by (simp add: mid_def protected_def)
qed

lemma harmless_trans: "harmless x d r t t' \<Longrightarrow> harmless x d r t' t'' \<Longrightarrow> harmless x d r t t''"
  unfolding harmless_def
proof (intro allI)
  fix p
  assume a: "\<forall>p. t' p = t p \<or> (\<exists>q. p = d @ q \<and> q \<notin> protected r \<and>
             (scratch x q \<or> affected d r p \<or> fc t' p = fc t p))"
    and b: "\<forall>p. t'' p = t' p \<or> (\<exists>q. p = d @ q \<and> q \<notin> protected r \<and>
             (scratch x q \<or> affected d r p \<or> fc t'' p = fc t' p))"
  show "t'' p = t p \<or> (\<exists>q. p = d @ q \<and> q \<notin> protected r \<and>
             (scratch x q \<or> affected d r p \<or> fc t'' p = fc t p))"
    using spec [OF a, of p] spec [OF b, of p] unfolding fc_def by (metis same_append_eq)
qed

lemma harmless_tmp:
  assumes "is_stage x (pub_stage r)" and "tmp_eq (publication_temp x) (d @ q) t t'" and "q = [] \<or> (\<exists>v. q = [VERSIONS, v])"
  shows "harmless x d r t t'"
  unfolding harmless_def
proof (intro allI)
  fix p
  show "t' p = t p \<or> (\<exists>q. p = d @ q \<and> q \<notin> protected r \<and>
             (scratch x q \<or> affected d r p \<or> fc t' p = fc t p))"
  proof (cases "t' p = t p")
    case False
    with assms(2) obtain n where n: "p = (d @ q) @ [n]" "publication_temp x n" unfolding tmp_eq_def by blast
    with assms(1,3) show ?thesis
      by (intro disjI2 exI [of _ "q @ [n]"]) (auto simp: temp_names protected_def)
  qed simp
qed

lemma harmless_put:
  assumes "q \<notin> protected r" and "affected d r (d @ q)"
  shows "harmless x d r t (t(d @ q := v))"
  using assms by (auto simp: harmless_def)

section \<open>Applying a decided publication\<close>

lemma mid_stage: "record_ok x r b ob \<Longrightarrow> is_stage x (pub_stage r)"
  by (simp add: record_ok_def)

lemma mid_kinds: "mid x d r b ob f t \<Longrightarrow> kinds_ok x d t"
  by (simp add: mid_def)

lemma not_protected:
  assumes "is_stage x (pub_stage r)"
  shows "[BLOB] \<notin> protected r" "[META] \<notin> protected r" "VERSIONS # q \<notin> protected r"
  using assms by (auto simp: protected_def)

lemma mid_replacing:
  assumes ok: "record_ok x r b ob" and m: "mid x d r b ob f t"
    and q: "q = [] \<or> (\<exists>v. q = [VERSIONS, v])" and dir: "t (d @ q) = Some Dir"
    and nm: "nm \<in> {BLOB, META}" and aff: "affected d r (d @ q @ [nm])"
    and rep: "replacing (publication_temp x) (d @ q) nm c t t'"
  shows "mid x d r b ob f t'"
proof -
  have st: "is_stage x (pub_stage r)" using ok by (rule mid_stage)
  have k: "kinds_ok x d t" using m by (rule mid_kinds)
  have rd: "replace_dir x q" using q by (auto simp: replace_dir_def)
  let ?t = "t(d @ q @ [nm] \<mapsto> File c)"
  have k1: "kinds_ok x d ?t"
    using k
  proof (rule kinds_put)
    show "node_ok x (q @ [nm]) (File c)"
      using replace_dir_names(2) [OF rd, of nm] nm by (auto simp: file_name_def)
  qed (use q dir in auto)
  have h1: "harmless x d r t ?t"
    using not_protected [OF st] q nm aff by (intro harmless_put) auto
  have dir1: "?t (d @ q) = Some Dir" using dir by auto
  from rep show ?thesis
    unfolding replacing_def
  proof
    assume "tmp_eq (publication_temp x) (d @ q) t t'"
    with harmless_tmp [OF st this q] kinds_tmp_eq [OF k this rd dir] m show ?thesis by (intro mid_step [OF m])
  next
    assume "tmp_eq (publication_temp x) (d @ q) (t((d @ q) @ [nm] \<mapsto> File c)) t'"
    then have e: "tmp_eq (publication_temp x) (d @ q) ?t t'" by simp
    show ?thesis
      using harmless_trans [OF h1 harmless_tmp [OF st e q]] kinds_tmp_eq [OF k1 e rd dir1]
      by (intro mid_step [OF m])
  qed
qed

lemma runs_mid_publish:
  assumes x: "uuids_valid x" and ok: "record_ok x r b ob" and pub: "pub_publish r"
    and m: "mid x d r b ob f t" and nm: "nm \<in> {BLOB, META}"
    and src: "t (d @ [pub_stage r, nm]) = Some (File c)"
  shows "runs x nf (mid x d r b ob f) t (publish_staged_file (d @ [pub_stage r, nm]) (d @ [nm]))
      (\<lambda>_ t'. mid x d r b ob f t' \<and> t' (d @ [nm]) = Some (File c) \<and>
         (\<forall>n. n \<noteq> nm \<longrightarrow> \<not> publication_temp x n \<longrightarrow> t' (d @ [n]) = t (d @ [n])))"
proof (rule runs_conseq)
  have aff: "affected d r (d @ [] @ [nm])" using pub nm by (auto simp: affected_def current_file_def)
  have t: "t d = Some Dir" using m by (simp add: mid_def)
  have rep: "mid x d r b ob f t'" if "replacing (publication_temp x) d nm c t t'" for t'
    using mid_replacing [OF ok m _ _ nm aff] that t by simp
  show "runs x nf (mid x d r b ob f) t (publish_staged_file (d @ [pub_stage r, nm]) (d @ [nm]))
      (\<lambda>_. tmp_eq (publication_temp x) d (t(d @ [nm] \<mapsto> File c)))"
    using runs_publish_staged [OF x mid_kinds [OF m] nm t src] rep by blast
  show "mid x d r b ob f t' \<and> t' (d @ [nm]) = Some (File c) \<and>
         (\<forall>n. n \<noteq> nm \<longrightarrow> \<not> publication_temp x n \<longrightarrow> t' (d @ [n]) = t (d @ [n]))"
    if e: "tmp_eq (publication_temp x) d (t(d @ [nm] \<mapsto> File c)) t'" for t'
  proof -
    have "t' (d @ [n]) = (t(d @ [nm] \<mapsto> File c)) (d @ [n])" if "\<not> publication_temp x n" for n
      using tmp_eq_get [OF e, of "d @ [n]"] that by simp
    with rep e nm show ?thesis by (auto simp: replacing_def)
  qed
qed

text \<open>How far the application has come: the current files, the removed versions, the marker.\<close>

definition cur_done :: "path \<Rightarrow> publication \<Rightarrow> content \<Rightarrow> object \<Rightarrow> tree \<Rightarrow> bool" where
  "cur_done d r b ob t \<longleftrightarrow>
     (pub_publish r \<longrightarrow> t (d @ [BLOB]) = Some (File b) \<and> t (d @ [META]) = Some (File (ObjectJson ob)))"

definition gone :: "path \<Rightarrow> string \<Rightarrow> tree \<Rightarrow> bool" where
  "gone d v t \<longleftrightarrow> (\<forall>p. prefix (d @ [VERSIONS, v]) p \<longrightarrow> t p = None)"

lemma runs_mid_publish_both:
  assumes x: "uuids_valid x" and ok: "record_ok x r b ob" and m: "mid x d r b ob f t"
  shows "runs x nf (mid x d r b ob f) t
      (when_io (pub_publish r)
        (then_io (publish_staged_file (d @ [pub_stage r, BLOB]) (d @ [BLOB]))
          (publish_staged_file (d @ [pub_stage r, META]) (d @ [META]))))
      (\<lambda>_ t'. mid x d r b ob f t' \<and> cur_done d r b ob t')"
proof (rule runs_when)
  assume pub: "pub_publish r"
  have stg: "t' (d @ [pub_stage r, BLOB]) = Some (File b)" "t' (d @ [pub_stage r, META]) = Some (File (ObjectJson ob))"
    if "mid x d r b ob f t'" for t'
    using that pub by (simp_all add: mid_def)
  show "runs x nf (mid x d r b ob f) t
      (then_io (publish_staged_file (d @ [pub_stage r, BLOB]) (d @ [BLOB]))
          (publish_staged_file (d @ [pub_stage r, META]) (d @ [META])))
      (\<lambda>_ t'. mid x d r b ob f t' \<and> cur_done d r b ob t')"
  proof (rule runs_bind [OF runs_mid_publish [OF x ok pub m _ stg(1) [OF m]]])
    fix t1
    assume t1: "mid x d r b ob f t1 \<and> t1 (d @ [BLOB]) = Some (File b) \<and>
         (\<forall>n. n \<noteq> BLOB \<longrightarrow> \<not> publication_temp x n \<longrightarrow> t1 (d @ [n]) = t (d @ [n]))"
    then have m1: "mid x d r b ob f t1" and b1: "t1 (d @ [BLOB]) = Some (File b)" by auto
    show "runs x nf (mid x d r b ob f) t1 (publish_staged_file (d @ [pub_stage r, META]) (d @ [META]))
        (\<lambda>_ t'. mid x d r b ob f t' \<and> cur_done d r b ob t')"
      by (rule runs_conseq [OF runs_mid_publish [OF x ok pub m1 _ stg(2) [OF m1]]])
        (use b1 in \<open>auto simp: cur_done_def\<close>)
  qed simp
qed (use m in \<open>auto simp: cur_done_def\<close>)

lemma affected_removed: "v \<in> set (pub_remove_versions r) \<Longrightarrow> prefix (d @ [VERSIONS, v]) p \<Longrightarrow> affected d r p"
  by (auto simp: affected_def removed_file_def list_ex_iff)

lemma mid_without_version:
  assumes ok: "record_ok x r b ob" and m: "mid x d r b ob f t" and v: "v \<in> set (pub_remove_versions r)"
    and P: "\<And>p. P p \<Longrightarrow> prefix (d @ [VERSIONS, v]) p"
    and all: "P (d @ [VERSIONS, v]) \<Longrightarrow> P = prefix (d @ [VERSIONS, v])"
  shows "mid x d r b ob f (without P t)"
  using m
proof (rule mid_step)
  have not: "\<not> P (d @ [VERSIONS])" using P by (fastforce dest: prefix_length_le)
  show "kinds_ok x d (without P t)"
  proof (rule kinds_without)
    show "kinds_ok x d t" using m by (rule mid_kinds)
    show "\<not> P (d @ [VERSIONS])" by (rule not)
    fix w q
    assume "P (d @ [VERSIONS, w])"
    with P have "w = v" by (fastforce simp: prefix_def)
    with all \<open>P (d @ [VERSIONS, w])\<close> show "P (d @ VERSIONS # w # q)" by auto
  qed
  show "harmless x d r t (without P t)"
    unfolding harmless_def
  proof (intro allI)
    fix p
    show "without P t p = t p \<or> (\<exists>q. p = d @ q \<and> q \<notin> protected r \<and>
        (scratch x q \<or> affected d r p \<or> fc (without P t) p = fc t p))"
    proof (cases "P p")
      case True
      then obtain q where "p = d @ VERSIONS # v # q" using P by (force simp: prefix_def)
      with affected_removed [OF v P [OF True]] not_protected(3) [OF mid_stage [OF ok]] show ?thesis by auto
    qed (simp add: without_def)
  qed
qed

lemma without_single: "without (\<lambda>q. q = p) t = t(p := None)"
  by (auto simp: without_def)

lemma runs_retire:
  assumes ok: "record_ok x r b ob" and m: "mid x d r b ob f t" and v: "v \<in> set (pub_remove_versions r)"
    and keep: "cur_done d r b ob t" "\<And>w. w \<in> W \<Longrightarrow> gone d w t"
  shows "runs x nf (mid x d r b ob f) t (retire_version d v)
      (\<lambda>_ t'. mid x d r b ob f t' \<and> cur_done d r b ob t' \<and> (\<forall>w \<in> insert v W. gone d w t'))"
proof -
  let ?p = "d @ [VERSIONS, v]" and ?I = "mid x d r b ob f"
  let ?Q = "\<lambda>(_::unit) t'. ?I t' \<and> cur_done d r b ob t' \<and> (\<forall>w \<in> insert v W. gone d w t')"
  have k: "kinds_ok x d t" using m by (rule mid_kinds)
  have vok: "version_id_ok v" using ok v by (auto simp: record_ok_def list_all_iff)
  have mid_wo: "?I (without P t)" if "\<And>p. P p \<Longrightarrow> prefix ?p p" "P ?p \<Longrightarrow> P = prefix ?p" for P
    using mid_without_version [OF ok m v] that by blast
  have final: "?Q () (without (prefix ?p) t')" if "t' = t \<or> t' = t(?p @ [BLOB] := None)" for t'
  proof -
    have "without (prefix ?p) t' = without (prefix ?p) t" using that by (auto simp: without_def)
    moreover have "gone d w (without (prefix ?p) t)" if "w \<in> insert v W" for w
      using keep(2) [of w] that by (auto simp: gone_def without_def)
    moreover have "cur_done d r b ob (without (prefix ?p) t)"
      using keep(1) by (auto simp: cur_done_def without_def prefix_def)
    ultimately show ?thesis using mid_wo [of "prefix ?p"] by auto
  qed
  have rm: "runs x nf ?I t' (then_io (remove_dir_all ?p msg) (sync_directory (d @ [VERSIONS]))) ?Q"
    if t': "t' = t \<or> t' = t(?p @ [BLOB] := None)" and there: "t ?p \<noteq> None" for t' msg
  proof (rule runs_bind [OF runs_remove_dir_all [where Q = "\<lambda>_ t1. t1 = without (prefix ?p) t'" and I = ?I]])
    have dirs: "t (d @ [VERSIONS]) = Some Dir" "t ?p = Some Dir" using kinds_closed [OF k, of v "[]"] there by auto
    then show "t' ?p = Some Dir" using t' by auto
    show "?I (without (\<lambda>p. strict_prefix ?p p \<and> q p) t')" for q
    proof -
      have "without (\<lambda>p. strict_prefix ?p p \<and> q p) t' =
          without (\<lambda>p. strict_prefix ?p p \<and> (q p \<or> t' \<noteq> t \<and> p = ?p @ [BLOB])) t"
        using t' by (auto simp: without_def fun_eq_iff strict_prefix_def)
      then show ?thesis by (auto intro!: mid_wo simp: strict_prefix_def)
    qed
    show "?I (without (prefix ?p) t')" using final [OF t'] by auto
    fix t1
    assume t1: "t1 = without (prefix ?p) t'"
    have "t1 (d @ [VERSIONS]) \<noteq> None" using t' dirs by (auto simp: t1 without_def)
    with final [OF t'] show "runs x nf ?I t1 (sync_directory (d @ [VERSIONS])) ?Q"
      unfolding t1 sync_directory_def by (intro runs_sync_path) auto
  qed auto
  have body: "runs x nf ?I t (when_io body (then_io (remove_file (?p @ [BLOB]) msg) (sync_directory ?p)))
      (\<lambda>_ t'. t' = t \<or> t' = t(?p @ [BLOB] := None))"
    if there: "t ?p \<noteq> None" and body: "body \<longleftrightarrow> t (?p @ [BLOB]) \<noteq> None" for body msg
  proof (rule runs_when)
    assume body
    moreover have "t (?p @ [BLOB]) \<noteq> Some Dir" using kinds_not_dir [OF k, of "[VERSIONS, v, BLOB]"] by (simp add: file_name_def)
    ultimately obtain c where c: "t (?p @ [BLOB]) = Some (File c)"
      using body by (cases "t (?p @ [BLOB])"; cases "the (t (?p @ [BLOB]))") auto
    have "?I (t(?p @ [BLOB] := None))"
      using mid_wo [of "\<lambda>q. q = ?p @ [BLOB]"] by (simp add: without_single)
    then show "runs x nf ?I t (then_io (remove_file (?p @ [BLOB]) msg) (sync_directory ?p))
        (\<lambda>_ t'. t' = t \<or> t' = t(?p @ [BLOB] := None))"
      using m c there
      by (intro runs_bind [OF runs_remove_file [where c = c and Q = "\<lambda>_ t'. t' = t(?p @ [BLOB] := None)"]])
        (auto simp: sync_directory_def intro: runs_sync_path)
  qed (use m in auto)
  have absent: "?Q () t" if "t ?p = None"
  proof -
    have "gone d v t" using kinds_closed [OF k, of v] that by (fastforce simp: gone_def prefix_def)
    with keep m show ?thesis by auto
  qed
  show ?thesis
    unfolding retire_version_def Let_def validate_version_id_def
    using m vok absent
    by (intro runs_guard_then runs_get_exists runs_when runs_bind [OF body])
      (auto intro!: rm [simplified])
qed

lemma runs_retire_all:
  assumes ok: "record_ok x r b ob" and m: "mid x d r b ob f t" and c: "cur_done d r b ob t"
  shows "runs x nf (mid x d r b ob f) t (for_each (pub_remove_versions r) (retire_version d))
      (\<lambda>_ t'. mid x d r b ob f t' \<and> cur_done d r b ob t' \<and> (\<forall>v \<in> set (pub_remove_versions r). gone d v t'))"
proof -
  let ?P = "\<lambda>ys t'. mid x d r b ob f t' \<and> cur_done d r b ob t' \<and> (\<forall>v \<in> set (pub_remove_versions r) - set ys. gone d v t')"
  have "runs x nf (mid x d r b ob f) t (for_each (pub_remove_versions r) (retire_version d)) (\<lambda>_. ?P [])"
  proof (rule runs_for_each [where P = ?P])
    fix y ys t'
    assume y: "suffix (y # ys) (pub_remove_versions r)" and P: "?P (y # ys) t'"
    from y have mem: "y \<in> set (pub_remove_versions r)" by (auto simp: suffix_def)
    show "runs x nf (mid x d r b ob f) t' (retire_version d y) (\<lambda>_. ?P ys)"
      by (rule runs_conseq [OF runs_retire [OF ok _ mem, where W = "set (pub_remove_versions r) - set (y # ys)"]])
        (use P in auto)
  qed (use m c in auto)
  then show ?thesis by simp
qed

lemma harmless_dirs_added:
  assumes "is_stage x (pub_stage r)" and add: "dirs_added (d @ [VERSIONS, v]) t t'" and "base_ok d t" and "t d = Some Dir"
  shows "harmless x d r t t'"
  unfolding harmless_def
proof (intro allI)
  fix p
  show "t' p = t p \<or> (\<exists>q. p = d @ q \<and> q \<notin> protected r \<and> (scratch x q \<or> affected d r p \<or> fc t' p = fc t p))"
  proof (cases "t' p = t p")
    case False
    with add have p: "prefix p (d @ [VERSIONS, v])" "t p = None" unfolding dirs_added_def by blast+
    with base_ok_above [OF assms(3,4), of p] have "\<not> prefix p d" by auto
    with p(1) obtain q where "p = d @ q" "q = [VERSIONS] \<or> q = [VERSIONS, v]"
      by (auto simp: prefix_append prefix_Cons)
    with fc_dirs_added [OF add] not_protected(3) [OF assms(1)] show ?thesis by auto
  qed simp
qed

definition hist_done :: "externs \<Rightarrow> path \<Rightarrow> publication \<Rightarrow> tree \<Rightarrow> bool" where
  "hist_done x d r t \<longleftrightarrow>
     (\<forall>p. \<not> scratch_in x d p \<longrightarrow> removed_file d r p \<or> marker_file d r p \<noteq> None \<longrightarrow> fc t p = marker_file d r p)"

lemma mid_dirs_added:
  assumes ok: "record_ok x r b ob" and m: "mid x d r b ob f t" and add: "dirs_added (d @ [VERSIONS, v]) t t'"
  shows "mid x d r b ob f t'"
  using m kinds_dirs_added [OF mid_kinds [OF m] add] harmless_dirs_added [OF mid_stage [OF ok] add] m
  by (intro mid_step [OF m]) (auto simp: mid_def)

lemma runs_make_version_dir:
  assumes ok: "record_ok x r b ob" and m: "mid x d r b ob f t"
  shows "runs x nf (mid x d r b ob f) t (create_directory_durable (d @ [VERSIONS, v]))
      (\<lambda>_ t'. mid x d r b ob f t' \<and> fc t' = fc t \<and> t' (d @ [VERSIONS, v]) = Some Dir)"
proof (rule runs_conseq [OF runs_create_directory [where I = "mid x d r b ob f"]])
  show "t q \<noteq> Some (File c)" if "prefix q (d @ [VERSIONS, v])" for q c
  proof (cases "prefix q d")
    case True
    with m show ?thesis by (simp add: mid_def base_ok_def)
  next
    case False
    with that have "q = d @ [VERSIONS] \<or> q = d @ [VERSIONS, v]" by (auto simp: prefix_append prefix_Cons)
    with kinds_not_file [OF mid_kinds [OF m], of "[VERSIONS]"] kinds_not_file [OF mid_kinds [OF m], of "[VERSIONS, v]"]
    show ?thesis by auto
  qed
  show "t [] = Some Dir" using m by (simp add: mid_def base_ok_def)
  show "mid x d r b ob f t'" if "dirs_added (d @ [VERSIONS, v]) t t'" for t' using mid_dirs_added [OF ok m that] .
  show "mid x d r b ob f t' \<and> fc t' = fc t \<and> t' (d @ [VERSIONS, v]) = Some Dir"
    if "dirs_added (d @ [VERSIONS, v]) t t' \<and> t' (d @ [VERSIONS, v]) = Some Dir" and "mid x d r b ob f t'" for t'
    using fc_dirs_added that by blast
qed

text \<open>One file of the delete marker.\<close>

lemma runs_marker_file:
  assumes x: "uuids_valid x" and ok: "record_ok x r b ob" and m: "mid x d r b ob f t"
    and mk: "pub_marker r = Some mo" "obj_version_id mo = Some v" and nm: "nm \<in> {BLOB, META}"
    and dir: "t (d @ [VERSIONS, v]) = Some Dir"
  shows "runs x nf (mid x d r b ob f) t (atomic_write (d @ [VERSIONS, v, nm]) c)
      (\<lambda>_ t'. mid x d r b ob f t' \<and> t' (d @ [VERSIONS, v]) = Some Dir \<and>
         (\<forall>p. \<not> scratch_in x d p \<longrightarrow> fc t' p = (if p = d @ [VERSIONS, v, nm] then Some c else fc t p)))"
proof (rule runs_conseq)
  let ?q = "[VERSIONS, v]"
  have rd: "replace_dir x ?q" by (simp add: replace_dir_def)
  have "affected d r (d @ ?q @ [nm])" using mk nm by (auto simp: affected_def marker_file_def)
  note rep = mid_replacing [OF ok m _ dir nm this, simplified]
  then show "runs x nf (mid x d r b ob f) t (atomic_write (d @ [VERSIONS, v, nm]) c)
      (\<lambda>_. tmp_eq (publication_temp x) (d @ ?q) (t(d @ ?q @ [nm] \<mapsto> File c)))"
    using runs_write_in [OF x mid_kinds [OF m] rd _ dir, of nm c "mid x d r b ob f" nf] nm by auto
  fix t'
  assume e: "tmp_eq (publication_temp x) (d @ ?q) (t(d @ ?q @ [nm] \<mapsto> File c)) t'"
  have "t' (d @ ?q) = Some Dir" using tmp_eq_get [OF e, of "d @ ?q"] dir by auto
  moreover have "mid x d r b ob f t'" using rep e by (auto simp: replacing_def)
  ultimately show "mid x d r b ob f t' \<and> t' (d @ [VERSIONS, v]) = Some Dir \<and>
         (\<forall>p. \<not> scratch_in x d p \<longrightarrow> fc t' p = (if p = d @ [VERSIONS, v, nm] then Some c else fc t p))"
    using fc_tmp_eq_public [OF e rd] by auto
qed auto

lemma runs_mid_marker:
  assumes x: "uuids_valid x" and ok: "record_ok x r b ob" and m: "mid x d r b ob f t"
    and g: "\<forall>v \<in> set (pub_remove_versions r). gone d v t" and c: "cur_done d r b ob t"
  shows "runs x nf (mid x d r b ob f) t
      (case pub_marker r of None \<Rightarrow> return () | Some marker \<Rightarrow> write_marker d marker)
      (\<lambda>_ t'. mid x d r b ob f t' \<and> cur_done d r b ob t' \<and> hist_done x d r t')"
proof -
  have removed: "fc t p = None" if "removed_file d r p" for p
    using g that by (auto simp: removed_file_def list_ex_iff gone_def fc_None)
  show ?thesis
  proof (cases "pub_marker r")
    case None
    then show ?thesis using m c removed by (auto simp: hist_done_def marker_file_def intro!: runs_return)
  next
    case (Some mo)
    with ok obtain v where v: "obj_version_id mo = Some v" "version_id_ok v" and np: "\<not> pub_publish r"
      by (auto simp: record_ok_def)
    let ?I = "mid x d r b ob f" and ?D = "d @ [VERSIONS, v]"
    have "runs x nf ?I t (then_io (create_directory_durable ?D)
        (then_io (atomic_write (d @ [VERSIONS, v, BLOB]) (Bytes [])) (write_object_metadata (d @ [VERSIONS, v, META]) mo)))
        (\<lambda>_ t'. ?I t' \<and> cur_done d r b ob t' \<and> hist_done x d r t')"
    proof (rule runs_bind [OF runs_make_version_dir [OF ok m]])
      fix t1
      assume t1: "?I t1 \<and> fc t1 = fc t \<and> t1 ?D = Some Dir"
      show "runs x nf ?I t1 (then_io (atomic_write (d @ [VERSIONS, v, BLOB]) (Bytes [])) (write_object_metadata (d @ [VERSIONS, v, META]) mo))
          (\<lambda>_ t'. ?I t' \<and> cur_done d r b ob t' \<and> hist_done x d r t')"
      proof (rule runs_bind)
        show "runs x nf ?I t1 (atomic_write (d @ [VERSIONS, v, BLOB]) (Bytes [])) (\<lambda>_ t'. ?I t' \<and> t' ?D = Some Dir \<and>
            (\<forall>p. \<not> scratch_in x d p \<longrightarrow> fc t' p = (if p = d @ [VERSIONS, v, BLOB] then Some (Bytes []) else fc t1 p)))"
          using t1 by (intro runs_marker_file [OF x ok _ Some v(1)]) auto
        fix t2
        assume t2: "?I t2 \<and> t2 ?D = Some Dir \<and>
          (\<forall>p. \<not> scratch_in x d p \<longrightarrow> fc t2 p = (if p = d @ [VERSIONS, v, BLOB] then Some (Bytes []) else fc t1 p))"
        show "runs x nf ?I t2 (write_object_metadata (d @ [VERSIONS, v, META]) mo)
            (\<lambda>_ t'. ?I t' \<and> cur_done d r b ob t' \<and> hist_done x d r t')"
          unfolding write_object_metadata_def
        proof (rule runs_conseq)
          show "runs x nf ?I t2 (atomic_write (d @ [VERSIONS, v, META]) (ObjectJson (serialize_object mo)))
              (\<lambda>_ t'. ?I t' \<and> t' ?D = Some Dir \<and>
               (\<forall>p. \<not> scratch_in x d p \<longrightarrow> fc t' p = (if p = d @ [VERSIONS, v, META] then Some (ObjectJson (serialize_object mo)) else fc t2 p)))"
            using t2 by (intro runs_marker_file [OF x ok _ Some v(1)]) auto
        qed (use t1 t2 Some v(1) np removed in \<open>auto simp: hist_done_def marker_file_def cur_done_def\<close>)
      qed
    qed
    with Some v show ?thesis
      using m by (simp add: write_marker_def of_result_def validate_version_id_def Let_def) (intro runs_guard_then, auto)
  qed
qed

lemma runs_clear_one:
  assumes ok: "record_ok x r b ob" and m: "mid x d r b ob f t" and clr: "pub_clear_current r" and nm: "nm \<in> {BLOB, META}"
  shows "runs x nf (mid x d r b ob f) t
      (bind_io (gets (\<lambda>s. path_exists s (d @ [nm]))) (\<lambda>there.
       when_io there (then_io (remove_file (d @ [nm]) msg) (sync_directory d))))
      (\<lambda>_ t'. mid x d r b ob f t' \<and> t' = t(d @ [nm] := None))"
proof (rule runs_get_exists [where t = t and I = "mid x d r b ob f"], rule m, rule runs_when)
  have aff: "affected d r (d @ [nm])" using clr nm by (auto simp: affected_def current_file_def)
  have m1: "mid x d r b ob f (t(d @ [nm] := None))"
    using m
  proof (rule mid_step)
    show "kinds_ok x d (t(d @ [nm] := None))" using nm by (intro kinds_remove [OF mid_kinds [OF m]]) auto
    show "harmless x d r t (t(d @ [nm] := None))"
      using harmless_put [OF _ aff, of x t None] not_protected [OF mid_stage [OF ok]] nm by auto
  qed
  assume "t (d @ [nm]) \<noteq> None"
  moreover have "t (d @ [nm]) \<noteq> Some Dir"
    using kinds_not_dir [OF mid_kinds [OF m], of "[nm]"] nm by (auto simp: file_name_def)
  ultimately obtain c where "t (d @ [nm]) = Some (File c)" by (metis node.exhaust option.exhaust)
  then show "runs x nf (mid x d r b ob f) t (then_io (remove_file (d @ [nm]) msg) (sync_directory d))
      (\<lambda>_ t'. mid x d r b ob f t' \<and> t' = t(d @ [nm] := None))"
    using m m1
    by (intro runs_bind [OF runs_remove_file [where c = c and Q = "\<lambda>_ t'. t' = t(d @ [nm] := None)"]])
      (auto simp: sync_directory_def mid_def intro!: runs_sync_path)
qed (use m in auto)

lemma runs_clear_current:
  assumes ok: "record_ok x r b ob" and m: "mid x d r b ob f t" and clr: "pub_clear_current r"
  shows "runs x nf (mid x d r b ob f) t (clear_current_files d)
      (\<lambda>_ t'. mid x d r b ob f t' \<and> t' = t(d @ [BLOB] := None, d @ [META] := None))"
  unfolding clear_current_files_def for_each.simps
proof (rule runs_bind [OF runs_clear_one [OF ok m clr]])
  fix t1
  assume t1: "mid x d r b ob f t1 \<and> t1 = t(d @ [BLOB] := None)"
  then have m1: "mid x d r b ob f t1" ..
  show "runs x nf (mid x d r b ob f) t1
      (then_io (bind_io (gets (\<lambda>s. path_exists s (d @ [META]))) (\<lambda>there.
       when_io there (then_io (remove_file (d @ [META]) ''remove_file'') (sync_directory d)))) (return ()))
      (\<lambda>_ t'. mid x d r b ob f t' \<and> t' = t(d @ [BLOB] := None, d @ [META] := None))"
    by (rule runs_bind [OF runs_clear_one [OF ok m1 clr]]) (use t1 in \<open>auto intro: runs_return\<close>)
qed simp

definition clear_done :: "path \<Rightarrow> publication \<Rightarrow> tree \<Rightarrow> bool" where
  "clear_done d r t \<longleftrightarrow> (pub_clear_current r \<longrightarrow> t (d @ [BLOB]) = None \<and> t (d @ [META]) = None)"

definition all_done :: "externs \<Rightarrow> path \<Rightarrow> publication \<Rightarrow> content \<Rightarrow> object \<Rightarrow> tree \<Rightarrow> bool" where
  "all_done x d r b ob t \<longleftrightarrow> cur_done d r b ob t \<and> hist_done x d r t \<and> clear_done d r t"

lemma current_not_history: "current_file d p \<Longrightarrow> \<not> removed_file d r p \<and> marker_file d r p = None"
  by (auto simp: current_file_def removed_file_def list_ex_iff marker_file_def prefix_def split: option.splits)

lemma runs_history:
  assumes x: "uuids_valid x" and ok: "record_ok x r b ob" and m: "mid x d r b ob f t" and c: "cur_done d r b ob t"
  shows "runs x nf (mid x d r b ob f) t (apply_history_changes d r)
      (\<lambda>_ t'. mid x d r b ob f t' \<and> all_done x d r b ob t')"
  unfolding apply_history_changes_def
proof (rule runs_bind [OF runs_retire_all [OF ok m c]])
  fix t1
  assume t1: "mid x d r b ob f t1 \<and> cur_done d r b ob t1 \<and> (\<forall>v \<in> set (pub_remove_versions r). gone d v t1)"
  show "runs x nf (mid x d r b ob f) t1
      (then_io (case pub_marker r of None \<Rightarrow> return () | Some marker \<Rightarrow> write_marker d marker)
       (when_io (pub_clear_current r) (clear_current_files d)))
      (\<lambda>_ t'. mid x d r b ob f t' \<and> all_done x d r b ob t')"
  proof (rule runs_bind [OF runs_mid_marker [OF x ok]])
    fix t2
    assume t2: "mid x d r b ob f t2 \<and> cur_done d r b ob t2 \<and> hist_done x d r t2"
    show "runs x nf (mid x d r b ob f) t2 (when_io (pub_clear_current r) (clear_current_files d))
        (\<lambda>_ t'. mid x d r b ob f t' \<and> all_done x d r b ob t')"
    proof (rule runs_when)
      assume clr: "pub_clear_current r"
      let ?t = "t2(d @ [BLOB] := None, d @ [META] := None)"
      have "hist_done x d r ?t"
        unfolding hist_done_def
      proof (intro allI impI)
        fix p
        assume p: "\<not> scratch_in x d p" "removed_file d r p \<or> marker_file d r p \<noteq> None"
        then have "\<not> current_file d p" using current_not_history [of d p r] by auto
        then have "fc ?t p = fc t2 p" by (auto simp: current_file_def fc_def)
        also have "\<dots> = marker_file d r p" using t2 p by (auto simp: hist_done_def)
        finally show "fc ?t p = marker_file d r p" .
      qed
      moreover have "cur_done d r b ob ?t" using ok clr by (auto simp: cur_done_def record_ok_def)
      ultimately have "all_done x d r b ob ?t" by (auto simp: all_done_def clear_done_def)
      then show "runs x nf (mid x d r b ob f) t2 (clear_current_files d)
          (\<lambda>_ t'. mid x d r b ob f t' \<and> all_done x d r b ob t')"
        using t2 by (intro runs_conseq [OF runs_clear_current [OF ok _ clr]]) auto
    qed (use t2 in \<open>auto simp: all_done_def clear_done_def\<close>)
  qed (use t1 in auto)
qed

lemma all_done_settled:
  assumes m: "mid x d r b ob f t" and a: "all_done x d r b ob t"
  shows "settled x d (new_view d r b ob f) (t(d @ [JOURNAL] := None))"
proof -
  let ?t = "t(d @ [JOURNAL] := None)"
  have "base_ok d ?t"
  proof (rule base_ok_change)
    show "base_ok d t" using m by (simp add: mid_def)
    show "?t p = t p \<or> (\<exists>q. p = d @ q \<and> q \<noteq> [])" for p by simp
  qed
  moreover have "kinds_ok x d ?t" by (intro kinds_remove [OF mid_kinds [OF m]]) auto
  moreover have "fc ?t p = new_view d r b ob f p" if p: "\<not> scratch_in x d p" for p
  proof (cases "p = d @ [JOURNAL]")
    case True
    then show ?thesis by (simp add: new_view_def)
  next
    case nj: False
    show ?thesis
    proof (cases "affected d r p")
      case True
      show ?thesis
      proof (cases "current_file d p")
        case cur: True
        with current_not_history [OF this] True nj a show ?thesis
          by (auto simp: affected_def all_done_def cur_done_def clear_done_def new_view_def current_file_def fc_def)
      next
        case False
        with True nj a p show ?thesis by (auto simp: affected_def all_done_def hist_done_def new_view_def)
      qed
    next
      case False
      with m p nj show ?thesis by (auto simp: mid_def affected_def new_view_def)
    qed
  qed
  ultimately show ?thesis by (simp add: settled_def)
qed

end
