(* ===== verification/Samples.thy ===== *)
theory Samples
  imports Fs
begin

text \<open>
  Concrete libraries, objects and states on which the properties are exercised: UUIDs are words over
  one letter, the clock counts its readings, and the hashes are simple injective or length functions.
\<close>

definition sample_externs :: externs where
  "sample_externs =
     \<lparr>ext_now = (\<lambda>n. int n), ext_uuid = (\<lambda>n. replicate (Suc n) (CHR ''a'')), ext_is_uuid = (\<lambda>v. v \<noteq> [] \<and> list_all (\<lambda>c. c = CHR ''a'') v),
      ext_md5 = id, ext_sha256_hex = id, ext_hash64 = (\<lambda>a b. length a + length b), ext_crc32c_append = (\<lambda>n b. n + length b),
      ext_base64 = (\<lambda>_. []), ext_json_strmap = (\<lambda>_. None), ext_url_decode = Some, ext_to_lowercase = id,
      ext_parse_f64 = (\<lambda>_. None), ext_parse_rfc3339 = (\<lambda>_. None), ext_parse_rfc2822 = (\<lambda>_. None),
      ext_parse_ymd = (\<lambda>_. None), ext_json_cancellation = (\<lambda>_. None),
      ext_file_time = (\<lambda>_. None)\<rparr>"

definition sample_object :: "bytes \<Rightarrow> string option \<Rightarrow> object" where
  "sample_object data version =
     \<lparr>obj_key = ''k'', obj_data = data, obj_size = length data, obj_etag = ''e'', obj_content_type = ''text/plain'',
      obj_last_modified = 0, obj_version_id = version, obj_storage_class = ''STANDARD'', obj_metadata = Map.empty,
      obj_tags = Map.empty, obj_acl = None, obj_provider_metadata = Map.empty\<rparr>"

definition sample_world :: "(path \<times> node) list \<Rightarrow> fault list \<Rightarrow> world" where
  "sample_world fs oracle_calls =
     \<lparr>files = fs, faults = oracle_calls, uuid_count = 0, clock_count = 0, ext = sample_externs, base_path = [],
      st_index = index_new, uploads_cache = Map.empty, azure_protection_possible = Map.empty\<rparr>"

lemma sample_world_simps [simp]:
  "files (sample_world fs fl) = fs" "faults (sample_world fs fl) = fl" "ext (sample_world fs fl) = sample_externs"
  "base_path (sample_world fs fl) = []" "st_index (sample_world fs fl) = index_new"
  by (simp_all add: sample_world_def)

lemma sample_object_simps [simp]:
  "obj_data (sample_object b v) = b" "obj_size (sample_object b v) = length b"
  "obj_version_id (sample_object b v) = v" "obj_key (sample_object b v) = ''k''"
  by (simp_all add: sample_object_def)

end
