(* ===== verification/Crash_Safety.thy ===== *)
theory Crash_Safety
  imports Crash_Phases Samples
begin

text \<open>
  Crash safety of whole publications. For every sequence of faults, a publication followed by a
  fault-free recovery leaves the old generation or the complete new one; a publication that returns
  has left the new one. \<open>publish_crash_safe\<close> and \<open>history_crash_safe\<close> state it for the two entry
  points, \<^verbatim>\<open>publish_pair\<close> and \<^verbatim>\<open>change_history\<close>.
\<close>

section \<open>Applying a decided publication\<close>

text \<open>A computation that never fails and leaves the state alone.\<close>

lemma runs_pure:
  assumes "\<And>s. fs_get s = t \<Longrightarrow> ext s = x \<Longrightarrow> m s = (Done a, s)" and "runs x nf I t (f a) Q"
  shows "runs x nf I t (bind_io m f) Q"
  using assms by (auto simp: runs_def bind_io_def)

lemma guard_true [simp]: "guard_io True e = return ()"
  by (simp add: guard_io_def)

lemma for_each_guards: "list_all g xs \<Longrightarrow> for_each xs (\<lambda>v. guard_io (g v) e) = return ()"
  by (induction xs) auto

definition staged :: "path \<Rightarrow> publication \<Rightarrow> content \<Rightarrow> object \<Rightarrow> tree \<Rightarrow> bool" where
  "staged d r b ob t \<longleftrightarrow>
     t (d @ [pub_stage r]) = Some Dir \<and>
     (pub_publish r \<longrightarrow> t (d @ [pub_stage r, BLOB]) = Some (File b) \<and>
        t (d @ [pub_stage r, META]) = Some (File (ObjectJson ob)))"

lemma mid_staged: "mid x d r b ob f t \<Longrightarrow> staged d r b ob t"
  by (simp add: mid_def staged_def)

lemma validate_done:
  assumes ok: "record_ok x r b ob" and st: "staged d r b ob (fs_get s)"
  shows "validate_publication r (d @ [pub_stage r]) s = (Done (), s)"
proof -
  have a: "guard_io (\<not> (pub_publish r \<and> (pub_clear_current r \<or> pub_marker r \<noteq> None))) e = return ()" for e
    using ok by (auto simp: record_ok_def guard_io_def)
  have b: "for_each (pub_remove_versions r) validate_version_id = return ()"
    using ok for_each_guards by (auto simp: record_ok_def validate_version_id_def [abs_def])
  have c: "(case pub_marker r of None \<Rightarrow> return ()
        | Some marker \<Rightarrow>
            bind_io (of_result (ok_or (InternalError m1) (obj_version_id marker))) (\<lambda>v.
            then_io (validate_version_id v)
              (guard_io (\<not> (obj_size marker \<noteq> 0 \<or> \<not> pub_clear_current r)) (InternalError m2)))) = return ()" for m1 m2
    using ok by (auto simp: record_ok_def of_result_def validate_version_id_def split: option.splits)
  show ?thesis
    unfolding validate_publication_def a b c bind_return
    using ok st
    by (auto simp: when_io_def return_def staged_def record_ok_def bind_io_def read_file_def node_simps guard_io_def)
qed

lemma runs_validate:
  assumes "record_ok x r b ob" and "staged d r b ob t" and "runs x nf I t m Q"
  shows "runs x nf I t (then_io (validate_publication r (d @ [pub_stage r])) m) Q"
  by (rule runs_pure) (use assms in \<open>auto intro: validate_done\<close>)

text \<open>The object directory exists and its public files are those of \<open>f\<close>.\<close>

definition at_rest :: "externs \<Rightarrow> path \<Rightarrow> (path \<Rightarrow> content option) \<Rightarrow> tree \<Rightarrow> bool" where
  "at_rest x d f t \<longleftrightarrow> settled x d f t \<and> t d = Some Dir"

lemma at_rest_without:
  assumes a: "at_rest x d f t" and st: "is_stage x n \<or> publication_temp x n" and P: "\<And>p. P p \<Longrightarrow> prefix (d @ [n]) p"
  shows "at_rest x d f (without P t)"
proof -
  have same: "without P t p = t p \<or> (\<exists>q. p = d @ n # q)" for p
    using P [of p] by (auto simp: without_def prefix_def)
  have neq: "n \<noteq> VERSIONS" using st by (auto simp: temp_names)
  have keep: "\<not> P (d @ VERSIONS # q)" for q using P [of "d @ VERSIONS # q"] neq by (auto simp: prefix_def)
  have nd: "\<not> P d" using P [of d] by (auto simp: prefix_def)
  have "base_ok d (without P t)"
  proof (rule base_ok_change)
    show "base_ok d t" using a by (simp add: at_rest_def settled_def)
    show "without P t p = t p \<or> (\<exists>q. p = d @ q \<and> q \<noteq> [])" for p using same [of p] by blast
  qed
  moreover have "kinds_ok x d (without P t)"
    using a keep by (intro kinds_without) (auto simp: at_rest_def settled_def)
  moreover have "fc (without P t) p = f p" if "\<not> scratch_in x d p" for p
  proof -
    have "without P t p = t p" using same [of p] that st by auto
    with a that show ?thesis by (simp add: at_rest_def settled_def fc_def)
  qed
  ultimately show ?thesis using a nd by (simp add: at_rest_def settled_def without_def)
qed

lemma runs_remove_stage:
  assumes a: "at_rest x d f t" and st: "is_stage x n" "t (d @ [n]) = Some Dir"
    and Q: "at_rest x d f (without (prefix (d @ [n])) t) \<Longrightarrow> Q () (without (prefix (d @ [n])) t)"
  shows "runs x nf (at_rest x d f) t (then_io (remove_dir_all (d @ [n]) msg) (sync_directory d)) Q"
proof -
  let ?t = "without (prefix (d @ [n])) t"
  have "at_rest x d f ?t" using at_rest_without [OF a] st(1) by auto
  moreover from this have "?t d \<noteq> None" by (simp add: at_rest_def)
  moreover have "at_rest x d f (without (\<lambda>p. strict_prefix (d @ [n]) p \<and> q p) t)" for q
    using st(1) by (intro at_rest_without [OF a, of n]) (auto simp: strict_prefix_def)
  ultimately show ?thesis
    using st Q
    by (intro runs_bind [OF runs_remove_dir_all [where Q = "\<lambda>_ t'. t' = ?t"]])
      (auto simp: sync_directory_def intro!: runs_sync_path)
qed

lemma all_done_at_rest:
  "mid x d r b ob f t \<Longrightarrow> all_done x d r b ob t \<Longrightarrow> at_rest x d (new_view d r b ob f) (t(d @ [JOURNAL] := None))"
  using all_done_settled by (auto simp: at_rest_def mid_def)

definition decided :: "externs \<Rightarrow> path \<Rightarrow> publication \<Rightarrow> content \<Rightarrow> object \<Rightarrow> (path \<Rightarrow> content option) \<Rightarrow> tree \<Rightarrow> bool" where
  "decided x d r b ob f t \<longleftrightarrow> mid x d r b ob f t \<or> at_rest x d (new_view d r b ob f) t"

lemma runs_weaken: "runs x nf J t m Q \<Longrightarrow> (\<And>t'. J t' \<Longrightarrow> I t') \<Longrightarrow> runs x nf I t m Q"
  by (erule runs_conseq) auto

lemma runs_retire_journal:
  assumes ok: "record_ok x r b ob" and m: "mid x d r b ob f t" and a: "all_done x d r b ob t"
  shows "runs x nf (decided x d r b ob f) t
      (then_io (remove_file (d @ [JOURNAL]) m1)
      (then_io (sync_directory d)
      (then_io (remove_dir_all (d @ [pub_stage r]) m2) (sync_directory d))))
      (\<lambda>_. at_rest x d (new_view d r b ob f))"
proof -
  let ?t = "t(d @ [JOURNAL] := None)" and ?I = "decided x d r b ob f" and ?Q = "\<lambda>_. at_rest x d (new_view d r b ob f)"
  have rest: "at_rest x d (new_view d r b ob f) ?t" using all_done_at_rest [OF m a] .
  have st: "is_stage x (pub_stage r)" using ok by (rule mid_stage)
  have dirs: "?t (d @ [pub_stage r]) = Some Dir" "?t d \<noteq> None" using m st by (auto simp: mid_def)
  have "runs x nf (at_rest x d (new_view d r b ob f)) ?t (then_io (remove_dir_all (d @ [pub_stage r]) m2) (sync_directory d)) ?Q"
    by (rule runs_remove_stage [OF rest st dirs(1)])
  then have rm: "runs x nf ?I ?t (then_io (remove_dir_all (d @ [pub_stage r]) m2) (sync_directory d)) ?Q"
    by (rule runs_weaken) (simp add: decided_def)
  have "runs x nf ?I ?t (sync_directory d) (\<lambda>_ t'. t' = ?t)"
    using dirs rest unfolding sync_directory_def by (intro runs_sync_path) (auto simp: decided_def)
  note sync = runs_then [OF this rm]
  have "runs x nf ?I t (remove_file (d @ [JOURNAL]) m1) (\<lambda>_ t'. t' = ?t)"
    using m rest by (intro runs_remove_file [where c = "PublicationJson r"]) (auto simp: decided_def mid_def)
  from runs_then [OF this sync] show ?thesis .
qed

lemma runs_apply:
  assumes x: "uuids_valid x" and ok: "record_ok x r b ob" and m: "mid x d r b ob f t"
  shows "runs x nf (decided x d r b ob f) t (apply_publication d) (\<lambda>_. at_rest x d (new_view d r b ob f))"
proof -
  let ?I = "decided x d r b ob f" and ?Q = "\<lambda>_. at_rest x d (new_view d r b ob f)"
  have J: "t (d @ [JOURNAL]) = Some (File (PublicationJson r))" using m by (simp add: mid_def)
  have st: "is_stage x (pub_stage r)" using ok by (rule mid_stage)
  have I: "?I t" using m by (simp add: decided_def)
  have weak: "runs x nf ?I t' m' Q" if "runs x nf (mid x d r b ob f) t' m' Q" for t' and m' :: "unit io" and Q
    using that by (rule runs_weaken) (simp add: decided_def)
  have tail: "runs x nf ?I t
      (then_io (when_io (pub_publish r)
                 (then_io (publish_staged_file (d @ [pub_stage r, BLOB]) (d @ [BLOB]))
                   (publish_staged_file (d @ [pub_stage r, META]) (d @ [META]))))
      (then_io (apply_history_changes d r)
      (then_io (remove_file (d @ [JOURNAL]) m1)
      (then_io (sync_directory d)
      (then_io (remove_dir_all (d @ [pub_stage r]) m2) (sync_directory d)))))) ?Q" for m1 m2
  proof (rule runs_bind [OF weak [OF runs_mid_publish_both [OF x ok m]]])
    fix t1
    assume t1: "mid x d r b ob f t1 \<and> cur_done d r b ob t1"
    show "runs x nf ?I t1
      (then_io (apply_history_changes d r)
      (then_io (remove_file (d @ [JOURNAL]) m1)
      (then_io (sync_directory d)
      (then_io (remove_dir_all (d @ [pub_stage r]) m2) (sync_directory d))))) ?Q"
      by (rule runs_bind [OF weak [OF runs_history [OF x ok]]]) (use t1 runs_retire_journal [OF ok] in auto)
  qed
  show ?thesis
    unfolding apply_publication_def Let_def
    using J I st tail
    by (auto intro!: runs_read_then [where c = "PublicationJson r"] runs_get_ext runs_guard_then
        runs_validate [OF ok mid_staged [OF m]])
qed

section \<open>Cleaning and recovery\<close>

text \<open>No staging directory and no temporary file is left.\<close>

definition clean :: "externs \<Rightarrow> path \<Rightarrow> tree \<Rightarrow> bool" where
  "clean x d t \<longleftrightarrow> (\<forall>n. is_stage x n \<or> publication_temp x n \<longrightarrow> t (d @ [n]) = None)"

lemma at_rest_kinds: "at_rest x d f t \<Longrightarrow> kinds_ok x d t"
  by (simp add: at_rest_def settled_def)

lemma runs_remove_temp:
  assumes a: "at_rest x d f t" and n: "publication_temp x n" "t (d @ [n]) \<noteq> None"
    and Q: "at_rest x d f (t(d @ [n] := None)) \<Longrightarrow> Q () (t(d @ [n] := None))"
  shows "runs x nf (at_rest x d f) t (then_io (remove_file (d @ [n]) msg) (sync_directory d)) Q"
proof -
  let ?t = "t(d @ [n] := None)"
  have "t (d @ [n]) \<noteq> Some Dir" using kinds_not_dir [OF at_rest_kinds [OF a], of "[n]"] n(1) by (simp add: file_name_def)
  with n(2) obtain c where c: "t (d @ [n]) = Some (File c)" by (metis node.exhaust option.exhaust)
  have "at_rest x d f ?t" using at_rest_without [OF a, of n "\<lambda>q. q = d @ [n]"] n(1) by (simp add: without_single)
  moreover from this have "?t d \<noteq> None" by (simp add: at_rest_def)
  ultimately show ?thesis
    using c a Q
    by (intro runs_bind [OF runs_remove_file [where c = c and Q = "\<lambda>_ t'. t' = ?t"]])
      (auto simp: sync_directory_def intro!: runs_sync_path)
qed

lemma runs_clean:
  assumes a: "at_rest x d f t"
  shows "runs x nf (at_rest x d f) t (clean_uncommitted_stages d) (\<lambda>_ t'. at_rest x d f t' \<and> clean x d t')"
  unfolding clean_uncommitted_stages_def
proof (rule runs_bind [OF runs_read_dir [where I = "at_rest x d f" and
        Q = "\<lambda>names t'. t' = t \<and> distinct names \<and> set names = {n. t (d @ [n]) \<noteq> None}"]])
  fix names t1
  assume n: "t1 = t \<and> distinct names \<and> set names = {n. t (d @ [n]) \<noteq> None}"
  define P where "P = (\<lambda>ys t'. at_rest x d f t' \<and> distinct ys \<and> (\<forall>y \<in> set ys. t' (d @ [y]) = t (d @ [y])) \<and>
    set ys \<subseteq> {n. t (d @ [n]) \<noteq> None} \<and>
    (\<forall>y. y \<notin> set ys \<longrightarrow> is_stage x y \<or> publication_temp x y \<longrightarrow> t' (d @ [y]) = None))"
  have step: "runs x nf (at_rest x d f) t'
      (if is_stage x y then then_io (remove_dir_all (d @ [y]) m1) (sync_directory d)
       else if publication_temp x y then then_io (remove_file (d @ [y]) m2) (sync_directory d)
       else return ()) (\<lambda>_. P ys)" if p: "P (y # ys) t'" for y ys t' m1 m2
  proof -
    have r: "at_rest x d f t'" and y: "t' (d @ [y]) \<noteq> None" "y \<notin> set ys" using p by (auto simp: P_def)
    have yd: "is_stage x y \<Longrightarrow> t' (d @ [y]) = Some Dir"
      using y(1) kinds_not_file [OF at_rest_kinds [OF r], of "[y]"] by (metis dir_path.simps(1) node.exhaust option.exhaust)
    have after: "P ys t''" if "at_rest x d f t''" "\<And>n. t'' (d @ [n]) = (if n = y \<and> (is_stage x y \<or> publication_temp x y) then None else t' (d @ [n]))" for t''
      using p that y(2) by (auto simp: P_def) (metis+)
    show ?thesis
      using r y(1) yd
      by (auto intro!: runs_remove_stage runs_remove_temp runs_return after simp: without_def)
  qed
  have "P names t1" using n a by (auto simp: P_def)
  then have "runs x nf (at_rest x d f) t1 (for_each names (\<lambda>name.
       if is_stage x name then then_io (remove_dir_all (d @ [name]) ''Failed to remove uncommitted publication'') (sync_directory d)
       else if publication_temp x name then then_io (remove_file (d @ [name]) ''remove_file'') (sync_directory d)
       else return ())) (\<lambda>_. P [])"
    using step by (intro runs_for_each) (auto simp: P_def)
  then have "runs x nf (at_rest x d f) t1 (for_each names (\<lambda>name.
       if is_stage x name then then_io (remove_dir_all (d @ [name]) ''Failed to remove uncommitted publication'') (sync_directory d)
       else if publication_temp x name then then_io (remove_file (d @ [name]) ''remove_file'') (sync_directory d)
       else return ())) (\<lambda>_ t'. at_rest x d f t' \<and> clean x d t')"
    by (rule runs_conseq) (auto simp: P_def clean_def)
  with n a show "runs x nf (at_rest x d f) t1 (bind_io (gets ext) (\<lambda>x.
     for_each names (\<lambda>name.
       if is_stage x name then then_io (remove_dir_all (d @ [name]) ''Failed to remove uncommitted publication'') (sync_directory d)
       else if publication_temp x name then then_io (remove_file (d @ [name]) ''remove_file'') (sync_directory d)
       else return ()))) (\<lambda>_ t'. at_rest x d f t' \<and> clean x d t')"
    by (intro runs_get_ext) auto
qed (use a in \<open>auto simp: at_rest_def\<close>)

lemma settled_no_journal:
  assumes "settled x d f t" and "f (d @ [JOURNAL]) = None"
  shows "t (d @ [JOURNAL]) = None"
proof -
  have "fc t (d @ [JOURNAL]) = None" using assms by (simp add: settled_def)
  moreover have "t (d @ [JOURNAL]) \<noteq> Some Dir"
    using assms(1) kinds_not_dir [of x d t "[JOURNAL]"] by (simp add: settled_def file_name_def)
  ultimately show ?thesis by (auto simp: fc_None)
qed

lemma settled_dir: "settled x d f t \<Longrightarrow> t d \<noteq> None \<Longrightarrow> at_rest x d f t"
  by (auto simp: settled_def at_rest_def base_ok_def) (metis node.exhaust prefix_order.refl)

lemma runs_recover_settled:
  assumes a: "settled x d f t" and j: "f (d @ [JOURNAL]) = None"
  shows "runs x nf (settled x d f) t (recover_publication d)
      (\<lambda>_ t'. settled x d f t' \<and> (t' d \<noteq> None \<longrightarrow> clean x d t'))"
proof -
  have "runs x nf (settled x d f) t (clean_uncommitted_stages d) (\<lambda>_ t'. settled x d f t' \<and> (t' d \<noteq> None \<longrightarrow> clean x d t'))"
    if "t d \<noteq> None"
    using runs_clean [OF settled_dir [OF a that]] by (rule runs_conseq) (auto simp: at_rest_def)
  with a show ?thesis
    unfolding recover_publication_def
    by (auto intro!: runs_get_exists runs_return simp: settled_no_journal [OF a j] when_io_def)
qed

lemma new_view_journal [simp]: "new_view d r b ob f (d @ [JOURNAL]) = None"
  by (simp add: new_view_def)

lemma runs_recover_mid:
  assumes x: "uuids_valid x" and ok: "record_ok x r b ob" and m: "mid x d r b ob f t"
  shows "runs x nf (decided x d r b ob f) t (recover_publication d)
      (\<lambda>_ t'. at_rest x d (new_view d r b ob f) t' \<and> clean x d t')"
proof -
  have t: "t d \<noteq> None" "t (d @ [JOURNAL]) \<noteq> None" and I: "decided x d r b ob f t"
    using m by (auto simp: mid_def decided_def)
  have "runs x nf (decided x d r b ob f) t (then_io (apply_publication d) (clean_uncommitted_stages d))
      (\<lambda>_ t'. at_rest x d (new_view d r b ob f) t' \<and> clean x d t')"
    by (rule runs_bind [OF runs_apply [OF x ok m]])
      (auto intro: runs_weaken [OF runs_clean] simp: decided_def)
  with t I show ?thesis
    unfolding recover_publication_def by (auto intro!: runs_get_exists simp: when_io_def)
qed

section \<open>Deciding a publication\<close>

lemma at_rest_tmp:
  assumes a: "at_rest x d f t" and e: "tmp_eq (publication_temp x) (d @ q) t t'" and q: "replace_dir x q"
    and dir: "t (d @ q) = Some Dir"
  shows "at_rest x d f t'"
proof -
  have cases: "t' p = t p \<or> (\<exists>n. p = d @ q @ [n] \<and> publication_temp x n)" for p
    using e unfolding tmp_eq_def by auto
  have "base_ok d t'"
  proof (rule base_ok_change)
    show "base_ok d t" using a by (simp add: at_rest_def settled_def)
    show "t' p = t p \<or> (\<exists>q. p = d @ q \<and> q \<noteq> [])" for p using cases [of p] by blast
  qed
  moreover have "t' d = t d" using cases [of d] by auto
  ultimately show ?thesis
    using a kinds_tmp_eq [OF at_rest_kinds [OF a] e q dir] fc_tmp_eq_public [OF e q]
    by (auto simp: at_rest_def settled_def)
qed

lemma base_ok_put: "base_ok d t \<Longrightarrow> q \<noteq> [] \<Longrightarrow> base_ok d (t(d @ q := v))"
  by (erule base_ok_change) auto

lemma mid_journal:
  assumes ok: "record_ok x r b ob" and a: "at_rest x d f t" and st: "staged d r b ob t"
    and e: "tmp_eq (publication_temp x) d (t(d @ [JOURNAL] \<mapsto> File (PublicationJson r))) t'"
  shows "mid x d r b ob f t'"
proof -
  let ?t = "t(d @ [JOURNAL] \<mapsto> File (PublicationJson r))"
  have k: "kinds_ok x d t" using a by (rule at_rest_kinds)
  have stg: "is_stage x (pub_stage r)" using ok by (rule mid_stage)
  have mt: "mid x d r b ob f ?t"
  proof -
    have "base_ok d ?t"
      using a by (intro base_ok_put) (auto simp: at_rest_def settled_def)
    moreover have "kinds_ok x d ?t" by (rule kinds_put [OF k]) auto
    ultimately show ?thesis
      using a st stg by (auto simp: mid_def at_rest_def settled_def staged_def affected_def)
  qed
  then have "?t d = Some Dir" by (simp add: mid_def)
  with e have "kinds_ok x d t'" using kinds_tmp_eq [OF mid_kinds [OF mt], of "[]" t'] by (simp add: replace_dir_def)
  moreover have "harmless x d r ?t t'" using harmless_tmp [OF stg, of d "[]" ?t t'] e by simp
  ultimately show ?thesis by (rule mid_step [OF mt])
qed

definition in_progress :: "externs \<Rightarrow> path \<Rightarrow> publication \<Rightarrow> content \<Rightarrow> object \<Rightarrow> (path \<Rightarrow> content option) \<Rightarrow> tree \<Rightarrow> bool" where
  "in_progress x d r b ob f t \<longleftrightarrow> settled x d f t \<or> decided x d r b ob f t"

lemma runs_write_journal:
  assumes x: "uuids_valid x" and ok: "record_ok x r b ob" and a: "at_rest x d f t" and st: "staged d r b ob t"
  shows "runs x nf (\<lambda>t. at_rest x d f t \<or> decided x d r b ob f t) t (atomic_write (d @ [JOURNAL]) (PublicationJson r))
      (\<lambda>_. mid x d r b ob f)"
proof (rule runs_conseq)
  have rep: "at_rest x d f t' \<or> decided x d r b ob f t'" if "replacing (publication_temp x) d JOURNAL (PublicationJson r) t t'" for t'
    using that at_rest_tmp [OF a, of "[]"] mid_journal [OF ok a st] a
    by (auto simp: replacing_def replace_dir_def decided_def at_rest_def)
  show "runs x nf (\<lambda>t. at_rest x d f t \<or> decided x d r b ob f t) t (atomic_write (d @ [JOURNAL]) (PublicationJson r))
      (\<lambda>_. tmp_eq (publication_temp x) d (t(d @ [JOURNAL] \<mapsto> File (PublicationJson r))))"
    using runs_write_in [OF x at_rest_kinds [OF a], of "[]" JOURNAL] a rep
    by (simp add: replace_dir_def at_rest_def)
qed (auto intro: mid_journal [OF ok a st])

lemma serialize_publication_simps [simp]:
  "pub_stage (serialize_publication r) = pub_stage r" "pub_publish (serialize_publication r) = pub_publish r"
  "pub_clear_current (serialize_publication r) = pub_clear_current r"
  "pub_remove_versions (serialize_publication r) = pub_remove_versions r"
  "pub_marker (serialize_publication r) = map_option serialize_object (pub_marker r)"
  by (simp_all add: serialize_publication_def)

lemma serialize_object_simps [simp]:
  "obj_version_id (serialize_object ob) = obj_version_id ob" "obj_size (serialize_object ob) = obj_size ob"
  "obj_key (serialize_object ob) = obj_key ob" "obj_data (serialize_object ob) = []"
  "serialize_object (serialize_object ob) = serialize_object ob"
  by (simp_all add: serialize_object_def)

lemma record_ok_serialize: "record_ok x r b ob \<Longrightarrow> record_ok x (serialize_publication r) b ob"
  by (auto simp: record_ok_def)

lemma staged_serialize: "staged d (serialize_publication r) b ob = staged d r b ob"
  by (auto simp: staged_def)

lemma new_view_serialize: "new_view d (serialize_publication r) b ob f = new_view d r b ob f"
proof -
  have "marker_file d (serialize_publication r) p = marker_file d r p" for p
    by (simp add: marker_file_def split: option.splits)
  moreover have "removed_file d (serialize_publication r) p = removed_file d r p" for p
    by (simp add: removed_file_def)
  ultimately show ?thesis by (simp add: new_view_def fun_eq_iff)
qed

definition undecided_or :: "externs \<Rightarrow> path \<Rightarrow> publication \<Rightarrow> content \<Rightarrow> object \<Rightarrow> (path \<Rightarrow> content option) \<Rightarrow> tree \<Rightarrow> bool" where
  "undecided_or x d r b ob f t \<longleftrightarrow> at_rest x d f t \<or> decided x d r b ob f t"

lemma at_rest_no_journal: "at_rest x d f t \<Longrightarrow> f (d @ [JOURNAL]) = None \<Longrightarrow> t (d @ [JOURNAL]) = None"
  using settled_no_journal by (auto simp: at_rest_def)

lemma runs_clean_throw:
  assumes "at_rest x d g t" and "\<not> nf" and "\<And>t'. at_rest x d g t' \<Longrightarrow> I t'"
  shows "runs x nf I t (then_io (clean_uncommitted_stages d) (throw e)) Q"
  by (rule runs_bind [OF runs_weaken [OF runs_clean [OF assms(1)] assms(3)]])
    (use assms in \<open>auto intro: runs_throw\<close>)

text \<open>After an error the journal tells whether the publication was decided.\<close>

lemma runs_settle_error:
  assumes x: "uuids_valid x" and ok: "record_ok x r b ob" and j: "f (d @ [JOURNAL]) = None"
    and I: "undecided_or x d r b ob f t" and nf: "\<not> nf"
  shows "runs x nf (undecided_or x d r b ob f) t
     (if t (d @ [JOURNAL]) \<noteq> None then
        bind_io (try_io (recover_publication d)) (\<lambda>r.
        case r of Ok _ \<Rightarrow> return () | Err _ \<Rightarrow> throw e2)
      else then_io (clean_uncommitted_stages d) (throw e1))
     (\<lambda>_. at_rest x d (new_view d r b ob f))"
proof -
  consider (old) "at_rest x d f t" | (mid) "mid x d r b ob f t" | (new) "at_rest x d (new_view d r b ob f) t"
    using I by (auto simp: undecided_or_def decided_def)
  then show ?thesis
  proof cases
    case old
    with at_rest_no_journal [OF old j] nf show ?thesis
      by (auto intro!: runs_clean_throw [of x d f] simp: undecided_or_def)
  next
    case new
    with at_rest_no_journal [OF new] nf show ?thesis
      by (auto intro!: runs_clean_throw [of x d "new_view d r b ob f"] simp: undecided_or_def decided_def)
  next
    case mid
    then have t: "t (d @ [JOURNAL]) \<noteq> None" by (simp add: mid_def)
    have "runs x nf (undecided_or x d r b ob f) t (recover_publication d) (\<lambda>_. at_rest x d (new_view d r b ob f))"
      using runs_recover_mid [OF x ok mid] by (rule runs_conseq) (auto simp: undecided_or_def)
    then have "runs x nf (undecided_or x d r b ob f) t (try_io (recover_publication d))
        (\<lambda>v t'. case v of Ok _ \<Rightarrow> at_rest x d (new_view d r b ob f) t' | Err _ \<Rightarrow> \<not> nf)"
      by (rule runs_try) auto
    then show ?thesis
      unfolding if_P [OF t]
      by (rule runs_bind) (auto split: result.splits intro!: runs_return runs_throw)
  qed
qed

lemma runs_commit:
  assumes x: "uuids_valid x" and ok: "record_ok x r b ob" and a: "at_rest x d f t" and st: "staged d r b ob t"
    and j: "f (d @ [JOURNAL]) = None"
  shows "runs x nf (undecided_or x d (serialize_publication r) b ob f) t (commit_publication d r)
      (\<lambda>_. at_rest x d (new_view d r b ob f))"
proof -
  let ?r = "serialize_publication r"
  let ?I = "undecided_or x d ?r b ob f" and ?Q = "\<lambda>_. at_rest x d (new_view d ?r b ob f)"
  have ok': "record_ok x ?r b ob" using ok by (rule record_ok_serialize)
  have st': "staged d ?r b ob t" using st by (simp add: staged_serialize)
  have "runs x nf ?I t (then_io (atomic_write (d @ [JOURNAL]) (PublicationJson ?r)) (apply_publication d)) ?Q"
  proof (rule runs_bind)
    show "runs x nf ?I t (atomic_write (d @ [JOURNAL]) (PublicationJson ?r)) (\<lambda>_. mid x d ?r b ob f)"
      using runs_write_journal [OF x ok' a st'] by (rule runs_weaken) (simp add: undecided_or_def)
    show "runs x nf ?I t' (apply_publication d) ?Q" if "mid x d ?r b ob f t'" for t'
      using runs_apply [OF x ok' that] by (rule runs_weaken) (simp add: undecided_or_def)
  qed
  then have body: "runs x nf ?I t (try_io (then_io (atomic_write (d @ [JOURNAL]) (PublicationJson ?r)) (apply_publication d)))
      (\<lambda>v t'. case v of Ok _ \<Rightarrow> at_rest x d (new_view d ?r b ob f) t' | Err _ \<Rightarrow> \<not> nf)"
    by (rule runs_try) auto
  show ?thesis
    unfolding commit_publication_def new_view_serialize [symmetric, of d r]
  proof (rule runs_pure [where a = "Ok ()"])
    show "try_io (validate_publication r (d @ [pub_stage r])) s = (Done (Ok ()), s)" if "fs_get s = t" for s
      using validate_done [OF ok] st that by (simp add: try_io_def)
  next
    have after: "runs x nf ?I t' (bind_io (gets (\<lambda>s. path_exists s (d @ [JOURNAL]))) (\<lambda>journal.
         case v of
           Ok _ \<Rightarrow> return ()
         | Err e \<Rightarrow>
             if journal then
               bind_io (try_io (recover_publication d)) (\<lambda>r.
               case r of Ok _ \<Rightarrow> return () | Err _ \<Rightarrow> throw e2)
             else then_io (clean_uncommitted_stages d) (throw e))) ?Q"
      if v: "case v of Ok _ \<Rightarrow> at_rest x d (new_view d ?r b ob f) t' | Err _ \<Rightarrow> \<not> nf" and I: "?I t'"
      for v :: "unit res" and t' e2
    proof (rule runs_get_exists [where t = t' and I = ?I], rule I, cases v)
      case (Err e)
      with v show "runs x nf ?I t' (case v of Ok _ \<Rightarrow> return ()
         | Err e \<Rightarrow>
             if t' (d @ [JOURNAL]) \<noteq> None then
               bind_io (try_io (recover_publication d)) (\<lambda>r.
               case r of Ok _ \<Rightarrow> return () | Err _ \<Rightarrow> throw e2)
             else then_io (clean_uncommitted_stages d) (throw e)) ?Q"
        using runs_settle_error [where f = f and d = d, OF x ok' j I] by (simp only: result.case)
    qed (use v I in \<open>auto intro: runs_return\<close>)
    show "runs x nf ?I t (case Ok () of
       Err e \<Rightarrow> then_io (clean_uncommitted_stages d) (throw e)
     | Ok _ \<Rightarrow>
         bind_io (try_io (then_io (atomic_write (d @ [JOURNAL]) (PublicationJson ?r)) (apply_publication d))) (\<lambda>outcome.
         bind_io (gets (\<lambda>s. path_exists s (d @ [JOURNAL]))) (\<lambda>journal.
         case outcome of
           Ok _ \<Rightarrow> return ()
         | Err e \<Rightarrow>
             if journal then
               bind_io (try_io (recover_publication d)) (\<lambda>r.
               case r of Ok _ \<Rightarrow> return ()
               | Err _ \<Rightarrow> throw (InternalError ''Publication failed; recovery required before reads''))
             else then_io (clean_uncommitted_stages d) (throw e)))) ?Q"
      unfolding result.case by (rule runs_bind [OF body after])
  qed
qed

section \<open>Staging\<close>

lemma settled_dirs_added:
  assumes a: "settled x d f t" and add: "dirs_added (d @ q) t t'" and q: "q = [] \<or> (\<exists>st. q = [st] \<and> is_stage x st)"
  shows "settled x d f t'"
proof -
  have "kinds_ok x d t'" using a q by (intro kinds_dirs_added [OF _ add]) (auto simp: settled_def)
  with a base_ok_dirs_added [OF _ add] fc_dirs_added [OF add] show ?thesis by (simp add: settled_def)
qed

lemma at_rest_dirs_added:
  assumes "at_rest x d f t" and "dirs_added (d @ [st]) t t'" and "is_stage x st"
  shows "at_rest x d f t'"
proof -
  have "t' d = t d \<or> t' d = Some Dir" using assms(2) unfolding dirs_added_def by blast
  with assms settled_dirs_added [of x d f t "[st]" t'] show ?thesis by (auto simp: at_rest_def)
qed

lemma runs_make_object_dir:
  assumes a: "settled x d f t"
  shows "runs x nf (settled x d f) t (create_directory_durable d) (\<lambda>_. at_rest x d f)"
proof (rule runs_conseq [OF runs_create_directory [where I = "settled x d f"]])
  show "t [] = Some Dir" using a by (simp add: settled_def base_ok_def)
  show "t q \<noteq> Some (File c)" if "prefix q d" for q c using that a by (auto simp: settled_def base_ok_def)
  show "settled x d f t'" if "dirs_added d t t'" for t' using settled_dirs_added [OF a, of "[]"] that by simp
qed (auto simp: at_rest_def)

lemma runs_make_stage:
  assumes a: "at_rest x d f t" and st: "is_stage x st"
  shows "runs x nf (at_rest x d f) t (create_directory_durable (d @ [st]))
      (\<lambda>_ t'. at_rest x d f t' \<and> t' (d @ [st]) = Some Dir)"
proof (rule runs_conseq [OF runs_create_directory [where I = "at_rest x d f"]])
  show "t [] = Some Dir" using a by (simp add: at_rest_def settled_def base_ok_def)
  show "t q \<noteq> Some (File c)" if "prefix q (d @ [st])" for q c
    using that a kinds_not_file [OF at_rest_kinds [OF a], of "[st]" c] st
    by (auto simp: at_rest_def settled_def base_ok_def)
qed (use at_rest_dirs_added [OF a _ st] in auto)

text \<open>One staged file is in place and the other is what it was.\<close>

definition stage_has :: "path \<Rightarrow> string \<Rightarrow> string \<Rightarrow> content \<Rightarrow> tree \<Rightarrow> tree \<Rightarrow> bool" where
  "stage_has d st nm c t t' \<longleftrightarrow>
     t' (d @ [st]) = Some Dir \<and> t' (d @ [st, nm]) = Some (File c) \<and>
     (\<forall>n \<in> {BLOB, META}. n \<noteq> nm \<longrightarrow> t' (d @ [st, n]) = t (d @ [st, n]))"

lemma at_rest_stage_put:
  assumes a: "at_rest x d f t" and st: "is_stage x st" and nm: "nm \<in> {BLOB, META}"
  shows "at_rest x d f (t(d @ [st, nm] \<mapsto> File c))"
proof -
  have "kinds_ok x d (t(d @ [st, nm] \<mapsto> File c))"
    using nm st by (intro kinds_put [OF at_rest_kinds [OF a]]) auto
  with a st show ?thesis by (auto simp: at_rest_def settled_def intro: base_ok_put)
qed

lemma at_rest_replacing:
  assumes a: "at_rest x d f t" and st: "is_stage x st" "t (d @ [st]) = Some Dir" and nm: "nm \<in> {BLOB, META}"
    and rep: "replacing (publication_temp x) (d @ [st]) nm c t t'"
  shows "at_rest x d f t'"
proof -
  have rd: "replace_dir x [st]" using st by (simp add: replace_dir_def)
  let ?t = "t(d @ [st, nm] \<mapsto> File c)"
  have dir: "?t (d @ [st]) = Some Dir" using st by simp
  from rep have "tmp_eq (publication_temp x) (d @ [st]) t t' \<or> tmp_eq (publication_temp x) (d @ [st]) ?t t'"
    by (simp add: replacing_def)
  with at_rest_tmp [OF a _ rd st(2)] at_rest_tmp [OF at_rest_stage_put [OF a st(1) nm] _ rd dir]
  show ?thesis by blast
qed

lemma stage_has_tmp:
  assumes "tmp_eq (publication_temp x) (d @ [st]) (t((d @ [st]) @ [nm] \<mapsto> File c)) t'" and "nm \<in> {BLOB, META}"
    and "t (d @ [st]) = Some Dir"
  shows "stage_has d st nm c t t'"
  using tmp_eq_get [OF assms(1), of "d @ [st, BLOB]"] tmp_eq_get [OF assms(1), of "d @ [st, META]"]
    tmp_eq_get [OF assms(1), of "d @ [st]"] assms(2,3)
  by (auto simp: stage_has_def)

lemma runs_stage_file:
  assumes x: "uuids_valid x" and a: "at_rest x d f t" and st: "is_stage x st" "t (d @ [st]) = Some Dir"
    and nm: "nm \<in> {BLOB, META}"
  shows "runs x nf (at_rest x d f) t (atomic_write (d @ [st, nm]) c)
      (\<lambda>_ t'. at_rest x d f t' \<and> stage_has d st nm c t t')"
proof (rule runs_conseq)
  show "runs x nf (at_rest x d f) t (atomic_write (d @ [st, nm]) c)
      (\<lambda>_. tmp_eq (publication_temp x) (d @ [st]) (t((d @ [st]) @ [nm] \<mapsto> File c)))"
    using runs_write_in [OF x at_rest_kinds [OF a], of "[st]" nm] at_rest_replacing [OF a st nm] st nm
    by (auto simp: replace_dir_def)
qed (use stage_has_tmp [where nm = nm and t = t and d = d and st = st] nm st(2) in auto)

lemma stage_stored_snoc:
  "stage_stored_payload p (D @ [nm]) =
     bind_io (bind_io (try_io (hard_link p (D @ [nm]))) (\<lambda>linked.
       case linked of Ok _ \<Rightarrow> return () | Err _ \<Rightarrow> atomic_copy p (D @ [nm]))) (\<lambda>_.
     then_io (sync_path (D @ [nm]) ''Failed to sync stored generation'') (sync_directory D))"
  unfolding stage_stored_payload_def bind_io_assoc parent_snoc ..

lemma runs_stage_stored:
  assumes x: "uuids_valid x" and a: "at_rest x d f t" and st: "is_stage x st" "t (d @ [st]) = Some Dir"
    and src: "t p = Some (File c)"
  shows "runs x nf (at_rest x d f) t (stage_stored_payload p (d @ [st, BLOB]))
      (\<lambda>_ t'. at_rest x d f t' \<and> stage_has d st BLOB c t t')"
proof -
  let ?D = "d @ [st]" and ?Q = "\<lambda>t'. at_rest x d f t' \<and> stage_has d st BLOB c t t'"
  have linked: "?Q (t(?D @ [BLOB] \<mapsto> File c))"
    using at_rest_stage_put [OF a st(1)] st(2) by (auto simp: stage_has_def)
  have nd: "t (?D @ [n]) \<noteq> Some Dir" if "publication_temp x n \<or> n = BLOB" for n
    using kinds_replace [OF at_rest_kinds [OF a], of "[st]" n] that st by (auto simp: replace_dir_def file_name_def)
  have "runs x nf (at_rest x d f) t (atomic_copy p (?D @ [BLOB])) (\<lambda>_. tmp_eq (publication_temp x) ?D (t(?D @ [BLOB] \<mapsto> File c)))"
    using temp_is_temp(2) [OF x] nd st src at_rest_replacing [OF a st, of BLOB] by (intro runs_atomic_copy) (auto simp del: append_Cons)
  then have copy: "runs x nf (at_rest x d f) t (atomic_copy p (?D @ [BLOB])) (\<lambda>_. ?Q)"
    by (rule runs_conseq) (use stage_has_tmp [where nm = BLOB and t = t and d = d and st = st] st(2) in auto)
  have "runs x nf (at_rest x d f) t (try_io (hard_link p (?D @ [BLOB])))
      (\<lambda>v t'. case v of Ok _ \<Rightarrow> ?Q t' | Err _ \<Rightarrow> t' = t)"
    using src st a linked by (intro runs_try_hard_link) (auto simp: parent_def butlast_append)
  then have link: "runs x nf (at_rest x d f) t (bind_io (try_io (hard_link p (?D @ [BLOB]))) (\<lambda>linked.
       case linked of Ok _ \<Rightarrow> return () | Err _ \<Rightarrow> atomic_copy p (?D @ [BLOB]))) (\<lambda>_. ?Q)"
    by (rule runs_bind) (use copy in \<open>auto split: result.splits intro!: runs_return\<close>)
  have sync: "runs x nf (at_rest x d f) t' (then_io (sync_path (?D @ [BLOB]) msg) (sync_directory ?D)) (\<lambda>_. ?Q)"
    if "?Q t'" for t' msg
    using that by (auto simp: sync_directory_def stage_has_def intro!: runs_then [where ?t1.0 = t'] runs_sync_path)
  have "runs x nf (at_rest x d f) t (stage_stored_payload p (?D @ [BLOB])) (\<lambda>_. ?Q)"
    unfolding stage_stored_snoc by (rule runs_bind [OF link sync])
  then show ?thesis by simp
qed

text \<open>A spooled payload leaves its place outside the object directory.\<close>

lemma runs_try_rename:
  assumes "src \<noteq> []" "dst \<noteq> []" "src \<noteq> dst" "t (parent dst) = Some Dir" "t src = Some (File c)" "t dst \<noteq> Some Dir"
    and "I t" "I (t(src := None, dst \<mapsto> File c))" "Q (Ok ()) (t(src := None, dst \<mapsto> File c))" "\<And>e. Q (Err e) t"
  shows "runs x nf I t (try_io (rename src dst msg)) Q"
proof (rule runsI)
  fix s r s'
  assume s: "fs_get s = t" "ext s = x" "nf \<longrightarrow> faults s = []" and run: "try_io (rename src dst msg) s = (r, s')"
  obtain v s1 where f: "next_fault s = (v, s1)" by force
  then have s1: "fs_get s1 = t" "rest_same s s1" "nf \<longrightarrow> v = Proceed \<and> faults s1 = []"
    using s by (auto simp: next_fault_def rest_same_def split: list.splits)
  have "fs_get (fs_delete (\<lambda>p. p = src) s1) = t(src := None)" using assms(1) s1(1) by (simp add: fun_eq_iff)
  with run f s1 assms show "rest_same s s' \<and> (nf \<longrightarrow> faults s' = []) \<and> I (fs_get s') \<and>
     (case r of Done a \<Rightarrow> Q a (fs_get s') | Failed e \<Rightarrow> \<not> nf | Halted \<Rightarrow> \<not> nf)"
    by (cases v) (auto simp: try_io_def rename_def rename_effect_def syscall_def node_simps untouched_def
        intro: rest_same_trans rest_same_trans [OF _ rest_same_trans [OF put_rest(2) put_rest(1)]])
qed

lemma atomic_move_snoc:
  "atomic_move src (D @ [nm]) =
     then_io (create_directory_durable D)
     (then_io (sync_path src ''Failed to sync spooled payload'')
     (bind_io (bind_io (try_io (rename src (D @ [nm]) ''rename'')) (\<lambda>renamed.
        case renamed of
          Ok _ \<Rightarrow> return ()
        | Err _ \<Rightarrow> then_io (atomic_copy src (D @ [nm])) (remove_file src ''Failed to remove spooled payload''))) (\<lambda>_.
      then_io (sync_directory D)
        (when_io (src \<noteq> [] \<and> parent src \<noteq> D) (sync_directory (parent src))))))"
  unfolding atomic_move_def bind_io_assoc parent_snoc by simp

lemma at_rest_outside:
  assumes a: "at_rest x d f t" and p: "\<not> prefix d p" "t p = Some (File c)"
  shows "at_rest x d (f(p := None)) (t(p := None))"
proof -
  have b: "base_ok d t" using a by (simp add: at_rest_def settled_def)
  then have pd: "\<not> prefix p d" using p(2) by (auto simp: base_ok_def)
  have same: "(t(p := None)) (d @ q) = t (d @ q)" for q using p(1) by (auto simp: prefix_def)
  have "(t(p := None)) (parent q) = Some Dir" if "\<not> strict_prefix d q" "q \<noteq> []" "(t(p := None)) q \<noteq> None" for q
    using b that p(2) unfolding base_ok_def by (metis fun_upd_def node.distinct(1) option.inject)
  moreover have "(t(p := None)) q \<noteq> Some (File c)" if "prefix q d" for q c
    using b that unfolding base_ok_def by simp
  moreover have "(t(p := None)) [] = Some Dir" "d \<noteq> []" using b pd unfolding base_ok_def by auto
  ultimately have "base_ok d (t(p := None))" unfolding base_ok_def by blast
  moreover have "kinds_ok x d (t(p := None))"
    using at_rest_kinds [OF a] same unfolding kinds_ok_def by (simp del: fun_upd_apply)
  moreover have "(t(p := None)) d = Some Dir" using a p pd by (auto simp: at_rest_def)
  ultimately show ?thesis using a by (auto simp: at_rest_def settled_def)
qed

lemma runs_stage_spooled:
  assumes x: "uuids_valid x" and a: "at_rest x d f t" and st: "is_stage x st" "t (d @ [st]) = Some Dir"
    and src: "t p = Some (File c)" "\<not> prefix d p"
  shows "runs x nf (\<lambda>t. at_rest x d f t \<or> at_rest x d (f(p := None)) t) t (atomic_move p (d @ [st, BLOB]))
      (\<lambda>_ t'. at_rest x d (f(p := None)) t' \<and> stage_has d st BLOB c t t')"
proof -
  let ?D = "d @ [st]" and ?I = "\<lambda>t. at_rest x d f t \<or> at_rest x d (f(p := None)) t"
  let ?Q = "\<lambda>t'. at_rest x d (f(p := None)) t' \<and> stage_has d st BLOB c t t' \<and> t' (parent p) = Some Dir"
  have np: "\<not> prefix p d" using a src(1) by (auto simp: at_rest_def settled_def base_ok_def)
  have out: "d @ q \<noteq> p" for q using src(2) by auto
  have ne: "p \<noteq> []" using np by auto
  have par: "parent p \<noteq> p" using ne by (cases p rule: rev_cases) (auto simp: parent_def)
  have pdir: "t (parent p) = Some Dir"
    using a src ne by (auto simp: at_rest_def settled_def base_ok_def strict_prefix_def)
  have rep: "at_rest x d f t'" if "replacing (publication_temp x) ?D BLOB c t t'" for t'
    using at_rest_replacing [OF a st _ that] by simp
  have moved: "?Q (t'(p := None))"
    if "at_rest x d f t'" "stage_has d st BLOB c t t'" "t' (parent p) = Some Dir" "t' p = Some (File c)" for t'
    using at_rest_outside [OF that(1) src(2) that(4)] that(2,3) out par
    by (auto simp: stage_has_def)
  have put: "at_rest x d f (t(d @ [st, BLOB] \<mapsto> File c))" using at_rest_stage_put [OF a st(1)] by simp
  have pd: "parent p \<noteq> d @ [st, BLOB]"
    using out [of "[st, BLOB, last p]"] ne by (auto simp: parent_def dest: append_butlast_last_id)
  have "?Q ((t(d @ [st, BLOB] \<mapsto> File c))(p := None))"
    using st src pd pdir out [of "[st, BLOB]"] by (intro moved [OF put]) (auto simp: stage_has_def)
  then have renamed: "?Q (t(p := None, d @ [st, BLOB] \<mapsto> File c))"
    using out [of "[st, BLOB]"] by (simp add: fun_upd_twist)
  have nd: "t (?D @ [n]) \<noteq> Some Dir" if "publication_temp x n \<or> n = BLOB" for n
    using kinds_replace [OF at_rest_kinds [OF a], of "[st]" n] that st by (auto simp: replace_dir_def file_name_def)
  have "runs x nf (at_rest x d f) t (atomic_copy p (?D @ [BLOB])) (\<lambda>_. tmp_eq (publication_temp x) ?D (t(?D @ [BLOB] \<mapsto> File c)))"
    using temp_is_temp(2) [OF x] nd st src rep by (intro runs_atomic_copy) (auto simp del: append_Cons)
  then have copy: "runs x nf ?I t (atomic_copy p (?D @ [BLOB]))
      (\<lambda>_ t'. at_rest x d f t' \<and> stage_has d st BLOB c t t' \<and> t' p = Some (File c) \<and> t' (parent p) = Some Dir)"
  proof (rule runs_conseq)
    fix t'
    assume e: "tmp_eq (publication_temp x) ?D (t(?D @ [BLOB] \<mapsto> File c)) t'" and r: "at_rest x d f t'"
    have "t' q = (t(?D @ [BLOB] \<mapsto> File c)) q" if "\<And>n. q \<noteq> ?D @ [n]" for q
      using tmp_eq_get [OF e, of q] that by blast
    moreover have "parent p \<noteq> ?D @ [n]" for n
      using out [of "[st, n, last p]"] ne by (auto simp: parent_def dest: append_butlast_last_id)
    ultimately have "t' p = Some (File c)" "t' (parent p) = Some Dir" using src pdir out pd by (metis append_assoc fun_upd_other)+
    with r stage_has_tmp [OF e _ st(2)]
    show "at_rest x d f t' \<and> stage_has d st BLOB c t t' \<and> t' p = Some (File c) \<and> t' (parent p) = Some Dir" by simp
  qed simp
  have fallback: "runs x nf ?I t (then_io (atomic_copy p (?D @ [BLOB])) (remove_file p msg)) (\<lambda>_. ?Q)" for msg
    by (rule runs_bind [OF copy]) (use moved ne in \<open>auto intro!: runs_remove_file [where c = c]\<close>)
  have mv: "runs x nf ?I t (bind_io (try_io (rename p (?D @ [BLOB]) msg)) (\<lambda>renamed.
         case renamed of Ok _ \<Rightarrow> return () | Err _ \<Rightarrow> then_io (atomic_copy p (?D @ [BLOB])) (remove_file p m2))) (\<lambda>_. ?Q)" for msg m2
    by (rule runs_bind [OF runs_try_rename [where Q = "\<lambda>v t'. case v of Ok _ \<Rightarrow> ?Q t' | Err _ \<Rightarrow> t' = t" and c = c]])
      (use src st a renamed fallback nd [of BLOB] ne out [of "[st, BLOB]"] in
        \<open>auto simp: parent_def butlast_append split: result.splits intro!: runs_return\<close>)
  have sync: "runs x nf ?I t' (then_io (sync_directory ?D) (when_io b (sync_directory (parent p)))) (\<lambda>_. ?Q)"
    if "?Q t'" for t' b
    using that
    by (auto simp: sync_directory_def stage_has_def intro!: runs_then [where ?t1.0 = t'] runs_sync_path runs_when)
  have "runs x nf ?I t (atomic_move p (?D @ [BLOB])) (\<lambda>_. ?Q)"
    unfolding atomic_move_snoc
    by (rule runs_then [OF runs_create_directory_existing], rule st, simp add: a, rule refl,
        rule runs_then [OF runs_sync_path], simp add: src, simp add: a, rule refl, rule runs_bind [OF mv sync])
  then show ?thesis unfolding append_assoc append.simps by (rule runs_conseq) auto
qed

section \<open>Whole publications\<close>

text \<open>
  A publication that stages with \<open>S\<close> and commits the record \<open>R u\<close> for a fresh identifier \<open>u\<close>:
  both entry points have this form.
\<close>

definition publication_program :: "path \<Rightarrow> (string \<Rightarrow> publication) \<Rightarrow> (path \<Rightarrow> unit io) \<Rightarrow> unit io" where
  "publication_program d R S =
     then_io (recover_publication d)
     (then_io (create_directory_durable d)
     (bind_io new_uuid (\<lambda>uuid.
      then_io (create_directory_durable (d @ [pub_stage (R uuid)]))
      (then_io (S (d @ [pub_stage (R uuid)])) (commit_publication d (R uuid))))))"

text \<open>
  \<open>f\<close> are the files before, \<open>f'\<close> those after staging, \<open>N\<close> those after the publication.
\<close>

definition phases :: "externs \<Rightarrow> path \<Rightarrow> content \<Rightarrow> object \<Rightarrow> (path \<Rightarrow> content option) \<Rightarrow> (path \<Rightarrow> content option) \<Rightarrow>
    (path \<Rightarrow> content option) \<Rightarrow> tree \<Rightarrow> bool" where
  "phases x d b ob f f' N t \<longleftrightarrow>
     settled x d f t \<or> settled x d f' t \<or>
     (\<exists>r. record_ok x r b ob \<and> new_view d r b ob f' = N \<and> decided x d r b ob f' t)"

lemma runs_publication:
  assumes x: "uuids_valid x" and a: "settled x d f t" and j: "f (d @ [JOURNAL]) = None" "f' (d @ [JOURNAL]) = None"
    and R: "\<And>u. pub_stage (R u) = STAGE_PREFIX @ u" "\<And>n. record_ok x (R (ext_uuid x n)) b ob"
    and N: "\<And>u. new_view d (R u) b ob f' = N"
    and S: "\<And>u t. is_stage x (pub_stage (R u)) \<Longrightarrow> at_rest x d f t \<Longrightarrow> t (d @ [pub_stage (R u)]) = Some Dir \<Longrightarrow>
       runs x nf (\<lambda>t. at_rest x d f t \<or> at_rest x d f' t) t (S (d @ [pub_stage (R u)]))
         (\<lambda>_ t'. at_rest x d f' t' \<and> staged d (R u) b ob t')"
  shows "runs x nf (phases x d b ob f f' N) t (publication_program d R S) (\<lambda>_. at_rest x d N)"
proof -
  let ?I = "phases x d b ob f f' N"
  have settledI: "runs x nf ?I t m Q" if "runs x nf (settled x d f) t m Q" for t Q and m :: "unit io"
    using that by (rule runs_weaken) (simp add: phases_def)
  have inner: "runs x nf ?I t1 (then_io (create_directory_durable (d @ [pub_stage (R u)]))
      (then_io (S (d @ [pub_stage (R u)])) (commit_publication d (R u)))) (\<lambda>_. at_rest x d N)"
    if t1: "at_rest x d f t1" and u: "u = ext_uuid x n" for t1 u n
  proof -
    have st: "is_stage x (pub_stage (R u))" using stage_is_stage [OF x] by (simp add: R(1) u)
    have ok: "record_ok x (R u) b ob" using R(2) u by simp
    show ?thesis
    proof (rule runs_bind [OF runs_weaken [OF runs_make_stage [OF t1 st]]])
      fix t2
      assume "at_rest x d f t2 \<and> t2 (d @ [pub_stage (R u)]) = Some Dir"
      then have t2: "at_rest x d f t2" "t2 (d @ [pub_stage (R u)]) = Some Dir" by auto
      show "runs x nf ?I t2 (then_io (S (d @ [pub_stage (R u)])) (commit_publication d (R u))) (\<lambda>_. at_rest x d N)"
      proof (rule runs_bind [OF runs_weaken [OF S [OF st t2]]])
        fix t3
        assume t3: "at_rest x d f' t3 \<and> staged d (R u) b ob t3"
        have "runs x nf (undecided_or x d (serialize_publication (R u)) b ob f') t3 (commit_publication d (R u)) (\<lambda>_. at_rest x d N)"
          using runs_commit [OF x ok, of d f' t3] t3 j(2) by (simp add: N)
        then show "runs x nf ?I t3 (commit_publication d (R u)) (\<lambda>_. at_rest x d N)"
          by (rule runs_weaken)
            (use record_ok_serialize [OF ok] N in \<open>auto simp: phases_def undecided_or_def at_rest_def new_view_serialize\<close>)
      qed (auto simp: phases_def at_rest_def)
    qed (auto simp: phases_def at_rest_def)
  qed
  show ?thesis
    unfolding publication_program_def
  proof (rule runs_bind [OF settledI [OF runs_recover_settled [OF a j(1)]]])
    fix t0
    assume "settled x d f t0 \<and> (t0 d \<noteq> None \<longrightarrow> clean x d t0)"
    then have t0: "settled x d f t0" ..
    show "runs x nf ?I t0
        (then_io (create_directory_durable d)
        (bind_io new_uuid (\<lambda>uuid.
         then_io (create_directory_durable (d @ [pub_stage (R uuid)]))
         (then_io (S (d @ [pub_stage (R uuid)])) (commit_publication d (R uuid)))))) (\<lambda>_. at_rest x d N)"
    proof (rule runs_bind [OF settledI [OF runs_make_object_dir [OF t0]]])
      fix t1
      assume t1: "at_rest x d f t1"
      show "runs x nf ?I t1 (bind_io new_uuid (\<lambda>uuid.
         then_io (create_directory_durable (d @ [pub_stage (R uuid)]))
         (then_io (S (d @ [pub_stage (R uuid)])) (commit_publication d (R uuid))))) (\<lambda>_. at_rest x d N)"
        by (rule runs_bind [OF runs_new_uuid [where Q = "\<lambda>u t'. at_rest x d f t' \<and> (\<exists>n. u = ext_uuid x n)"]])
          (use t1 inner in \<open>auto simp: phases_def at_rest_def\<close>)
    qed
  qed
qed

text \<open>Recovery from any phase, without faults, settles the old files or the new ones.\<close>

lemma runs_recover_phases:
  assumes x: "uuids_valid x" and I: "phases x d b ob f f' N t" and j: "f (d @ [JOURNAL]) = None" "f' (d @ [JOURNAL]) = None"
  shows "runs x nf (\<lambda>_. True) t (recover_publication d)
      (\<lambda>_ t'. (settled x d f t' \<or> settled x d f' t' \<or> settled x d N t') \<and> (t' d \<noteq> None \<longrightarrow> clean x d t'))"
proof -
  consider (old) "settled x d f t" | (old') "settled x d f' t"
    | (mid) r where "record_ok x r b ob" "new_view d r b ob f' = N" "mid x d r b ob f' t"
    | (new) r where "new_view d r b ob f' = N" "settled x d N t"
    using I by (auto simp: phases_def decided_def at_rest_def)
  then show ?thesis
  proof cases
    case old
    show ?thesis by (rule runs_conseq [OF runs_recover_settled [OF old j(1)]]) auto
  next
    case old'
    show ?thesis by (rule runs_conseq [OF runs_recover_settled [OF old' j(2)]]) auto
  next
    case mid
    show ?thesis by (rule runs_conseq [OF runs_recover_mid [OF x mid(1,3)]]) (use mid(2) in \<open>auto simp: at_rest_def\<close>)
  next
    case new
    have "N (d @ [JOURNAL]) = None" using new(1) by auto
    from runs_recover_settled [OF new(2) this] show ?thesis by (rule runs_conseq) auto
  qed
qed

text \<open>\<open>S\<close> stages the payload \<open>b\<close> and the metadata \<open>ob\<close>.\<close>

definition stages_with :: "externs \<Rightarrow> path \<Rightarrow> (path \<Rightarrow> content option) \<Rightarrow> (path \<Rightarrow> content option) \<Rightarrow>
    (string \<Rightarrow> publication) \<Rightarrow> content \<Rightarrow> object \<Rightarrow> (path \<Rightarrow> unit io) \<Rightarrow> bool" where
  "stages_with x d f f' R b ob S \<longleftrightarrow>
     (\<forall>u t nf. is_stage x (pub_stage (R u)) \<longrightarrow> at_rest x d f t \<longrightarrow> t (d @ [pub_stage (R u)]) = Some Dir \<longrightarrow>
       runs x nf (\<lambda>t. at_rest x d f t \<or> at_rest x d f' t) t (S (d @ [pub_stage (R u)]))
         (\<lambda>_ t'. at_rest x d f' t' \<and> staged d (R u) b ob t'))"

lemma publication_outcome:
  assumes x: "uuids_valid (ext s)" and a: "settled (ext s) d f (fs_get s)" and j: "f (d @ [JOURNAL]) = None" "f' (d @ [JOURNAL]) = None"
    and R: "\<And>u. pub_stage (R u) = STAGE_PREFIX @ u" "\<And>n. record_ok (ext s) (R (ext_uuid (ext s) n)) b ob"
    and N: "\<And>u. new_view d (R u) b ob f' = N"
    and S: "stages_with (ext s) d f f' R b ob S"
    and run: "publication_program d R S s = (r, s1)"
    and recover: "recover_publication d s1' = (r', s2)" and s1': "fs_get s1' = fs_get s1" "ext s1' = ext s1" "faults s1' = []"
  shows "r' = Done ()"
    and "settled (ext s) d f (fs_get s2) \<or> settled (ext s) d f' (fs_get s2) \<or> settled (ext s) d N (fs_get s2)"
    and "r = Done () \<Longrightarrow> settled (ext s) d N (fs_get s1) \<and> settled (ext s) d N (fs_get s2)"
    and "faults s = [] \<Longrightarrow> r = Done ()"
    and "fs_get s2 d \<noteq> None \<Longrightarrow> clean (ext s) d (fs_get s2)"
    and "ext s2 = ext s" and "ext s1 = ext s" and "rest_same s s1" and "rest_same s1' s2"
proof -
  have N0: "N (d @ [JOURNAL]) = None" using N [of "[]"] by auto
  have pub: "runs (ext s) nf (phases (ext s) d b ob f f' N) (fs_get s) (publication_program d R S) (\<lambda>_. at_rest (ext s) d N)" for nf
    using x a j R N S [unfolded stages_with_def] by (intro runs_publication) auto
  note P = runsD [OF pub [of False] refl refl _ run]
  have x1: "ext s1' = ext s" using P(1) s1'(2) by (simp add: rest_same_def)
  have ph: "phases (ext s) d b ob f f' N (fs_get s1)" using P(3) by simp
  note rec = runsD [OF runs_recover_phases [OF x ph j, where nf = True] s1'(1) x1 _ recover, simplified s1'(3), simplified]
  show "r' = Done ()" using rec(5) by simp
  with rec(4) show "settled (ext s) d f (fs_get s2) \<or> settled (ext s) d f' (fs_get s2) \<or> settled (ext s) d N (fs_get s2)"
    and "fs_get s2 d \<noteq> None \<Longrightarrow> clean (ext s) d (fs_get s2)" by auto
  show "ext s2 = ext s" using rec(1) x1 by (simp add: rest_same_def)
  show "ext s1 = ext s" using x1 s1'(2) by simp
  show "rest_same s s1" using P(1) by simp
  show "rest_same s1' s2" using rec(1) .
  show "faults s = [] \<Longrightarrow> r = Done ()" using runsD(5) [OF pub [of True] refl refl _ run] by auto
  assume "r = Done ()"
  with P(4) have n: "settled (ext s) d N (fs_get s1)" by (simp add: at_rest_def)
  with runsD(4) [OF runs_recover_settled [OF n N0, where nf = True] s1'(1) x1 _ recover] s1'(3) \<open>r' = Done ()\<close>
  show "settled (ext s) d N (fs_get s1) \<and> settled (ext s) d N (fs_get s2)" by simp
qed

section \<open>Crash safety\<close>

text \<open>The public files: those a reader of the object directory may look at, and all files outside it.\<close>

definition view :: "world \<Rightarrow> path \<Rightarrow> path \<Rightarrow> content option" where
  "view s d p = (if scratch_in (ext s) d p then None else file_content s p)"

text \<open>
  A well-formed object directory with no publication pending: the names the publications use have the
  right kind of node, and the path to the directory is not blocked by a file.
\<close>

definition consistent :: "world \<Rightarrow> path \<Rightarrow> bool" where
  "consistent s d \<longleftrightarrow>
     base_ok d (fs_get s) \<and> kinds_ok (ext s) d (fs_get s) \<and> \<not> path_exists s (d @ [JOURNAL])"

lemma file_content_fc: "file_content s p = fc (fs_get s) p"
  by (simp add: file_content_def fc_def)

lemma consistent_settled: "consistent s d \<Longrightarrow> settled (ext s) d (view s d) (fs_get s)"
  by (simp add: consistent_def settled_def view_def file_content_fc)

lemma consistent_journal: "consistent s d \<Longrightarrow> view s d (d @ [JOURNAL]) = None"
  by (simp add: consistent_def view_def file_content_def path_exists_def)

lemma settled_consistent: "settled (ext s) d f (fs_get s) \<Longrightarrow> f (d @ [JOURNAL]) = None \<Longrightarrow> consistent s d"
  using settled_no_journal by (auto simp: consistent_def settled_def path_exists_def)

lemma settled_view:
  "settled (ext s) d f (fs_get s) \<Longrightarrow> view s d p = (if scratch_in (ext s) d p then None else f p)"
  by (simp add: settled_def view_def file_content_fc)

text \<open>What the payload of a publication holds, where it can be staged, and the file it uses up.\<close>

definition payload_content :: "world \<Rightarrow> path \<Rightarrow> object \<Rightarrow> object_payload \<Rightarrow> content option" where
  "payload_content s d ob payload =
     (case payload of
        InMemory \<Rightarrow> Some (Bytes (obj_data ob))
      | Spooled p \<Rightarrow> if \<not> prefix d p then file_content s p else None
      | Stored p \<Rightarrow> view s d p)"

definition used_up :: "object_payload \<Rightarrow> path \<Rightarrow> bool" where
  "used_up payload p \<longleftrightarrow> payload = Spooled p"

text \<open>The public files after \<^verbatim>\<open>publish_pair\<close>.\<close>

definition published :: "path \<Rightarrow> object \<Rightarrow> object_payload \<Rightarrow> content \<Rightarrow> (path \<Rightarrow> content option) \<Rightarrow> path \<Rightarrow> content option" where
  "published d ob payload b f p =
     (if p = d @ [BLOB] then Some b
      else if p = d @ [META] then Some (ObjectJson (serialize_object ob))
      else if obj_version_id ob = Some ''null'' \<and> current_directory d \<and> prefix (d @ [VERSIONS, ''null'']) p then None
      else if used_up payload p then None
      else f p)"

lemma staged_intro:
  assumes "stage_has d (pub_stage r) BLOB b t t1" and "stage_has d (pub_stage r) META (ObjectJson ob) t1 t2"
  shows "staged d r b ob t2"
  using assms by (auto simp: staged_def stage_has_def)

lemma runs_stage_meta:
  assumes x: "uuids_valid x" and a: "at_rest x d f t" and st: "is_stage x (pub_stage r)"
    and b: "stage_has d (pub_stage r) BLOB b t0 t"
  shows "runs x nf (at_rest x d f) t (write_object_metadata (d @ [pub_stage r, META]) ob)
      (\<lambda>_ t'. at_rest x d f t' \<and> staged d r b (serialize_object ob) t')"
  unfolding write_object_metadata_def
proof (rule runs_conseq [OF runs_stage_file [OF x a st]])
  show "t (d @ [pub_stage r]) = Some Dir" using b by (simp add: stage_has_def)
qed (use staged_intro [OF b] in auto)

definition pair_record :: "path \<Rightarrow> object \<Rightarrow> string \<Rightarrow> publication" where
  "pair_record d ob u =
     \<lparr>pub_stage = STAGE_PREFIX @ u, pub_publish = True, pub_clear_current = False,
      pub_remove_versions =
        (if obj_version_id ob = Some ''null'' \<and> current_directory d then [''null''] else []),
      pub_marker = None\<rparr>"

definition history_record :: "'a option \<Rightarrow> string list \<Rightarrow> object option \<Rightarrow> bool \<Rightarrow> string \<Rightarrow> publication" where
  "history_record promoted remove_versions marker clear_current u =
     \<lparr>pub_stage = STAGE_PREFIX @ u, pub_publish = (promoted \<noteq> None), pub_clear_current = clear_current,
      pub_remove_versions = remove_versions, pub_marker = marker\<rparr>"

lemma publish_pair_program:
  "publish_pair d ob payload =
     publication_program d (pair_record d ob)
       (\<lambda>stage. then_io (stage_payload payload ob (stage @ [BLOB])) (write_object_metadata (stage @ [META]) ob))"
  unfolding publish_pair_def publication_program_def pair_record_def Let_def bind_io_assoc by simp

lemma change_history_program:
  "change_history d promoted remove_versions marker clear_current =
     publication_program d (history_record promoted remove_versions marker clear_current)
       (\<lambda>stage.
          case promoted of
            None \<Rightarrow> return ()
          | Some (ob, p) \<Rightarrow>
              then_io (stage_stored_payload p (stage @ [BLOB])) (write_object_metadata (stage @ [META]) ob))"
  unfolding change_history_def publication_program_def history_record_def Let_def by simp

lemma at_rest_fc: "at_rest x d f t \<Longrightarrow> \<not> scratch_in x d p \<Longrightarrow> f p = Some c \<Longrightarrow> t p = Some (File c)"
  by (simp add: at_rest_def settled_def flip: fc_Some)

text \<open>The public files once the payload is staged.\<close>

definition after_staging :: "object_payload \<Rightarrow> (path \<Rightarrow> content option) \<Rightarrow> path \<Rightarrow> content option" where
  "after_staging payload f p = (if used_up payload p then None else f p)"

lemma after_staging_simps [simp]:
  "after_staging InMemory f = f" "after_staging (Stored p) f = f" "after_staging (Spooled p) f = f(p := None)"
  by (auto simp: after_staging_def used_up_def fun_eq_iff)

lemma outside_not_scratch: "\<not> prefix d p \<Longrightarrow> \<not> scratch_in x d p"
  by (auto simp: scratch_in_def)

lemma runs_stage_payload:
  assumes x: "uuids_valid (ext s)" and b: "payload_content s d ob payload = Some b"
    and a: "at_rest (ext s) d (view s d) t" and st: "is_stage (ext s) st" "t (d @ [st]) = Some Dir"
  shows "runs (ext s) nf (\<lambda>t. at_rest (ext s) d (view s d) t \<or> at_rest (ext s) d (after_staging payload (view s d)) t) t
      (stage_payload payload ob (d @ [st, BLOB]))
      (\<lambda>_ t'. at_rest (ext s) d (after_staging payload (view s d)) t' \<and> stage_has d st BLOB b t t')"
proof (cases payload)
  case InMemory
  with b runs_stage_file [OF x a st, of BLOB] show ?thesis by (simp add: payload_content_def stage_payload_def)
next
  case (Stored p)
  with b have p: "view s d p = Some b" by (simp add: payload_content_def)
  then have "\<not> scratch_in (ext s) d p" by (auto simp: view_def)
  with Stored runs_stage_stored [OF x a st at_rest_fc [OF a _ p]] show ?thesis by (simp add: stage_payload_def)
next
  case (Spooled p)
  with b have p: "\<not> prefix d p" "view s d p = Some b"
    by (auto simp: payload_content_def view_def scratch_in_def split: if_splits)
  with Spooled runs_stage_spooled [OF x a st at_rest_fc [OF a outside_not_scratch p(2)] p(1)] show ?thesis
    by (simp add: stage_payload_def)
qed

lemma new_view_pair:
  assumes "f (d @ [JOURNAL]) = None" and "payload_content s d ob payload = Some b" "\<not> used_up payload (d @ [JOURNAL])"
  shows "new_view d (pair_record d ob u) b (serialize_object ob) (after_staging payload f) = published d ob payload b f"
  using assms
  by (auto simp: fun_eq_iff new_view_def published_def pair_record_def current_file_def marker_file_def
      removed_file_def after_staging_def)

lemma view_published:
  assumes "settled (ext s1) d (published d ob payload b (view s d)) (fs_get s1)" and "ext s1 = ext s"
  shows "view s1 d = published d ob payload b (view s d)"
  using settled_view [OF assms(1)] assms(2) by (auto simp: fun_eq_iff published_def view_def)

lemma payload_not_journal: "payload_content s d ob payload = Some b \<Longrightarrow> \<not> used_up payload (d @ q)"
  by (auto simp: payload_content_def used_up_def split: if_splits)

lemma view_after_staging:
  assumes "settled (ext s2) d (view s d) (fs_get s2) \<or> settled (ext s2) d (after_staging payload (view s d)) (fs_get s2)"
    and "ext s2 = ext s"
  shows "\<forall>p. \<not> used_up payload p \<longrightarrow> view s2 d p = view s d p"
proof (intro allI impI)
  fix p
  assume "\<not> used_up payload p"
  with assms settled_view [of s2 d "view s d" p] settled_view [of s2 d "after_staging payload (view s d)" p]
  have "view s2 d p = (if scratch_in (ext s) d p then None else view s d p)" by (auto simp: after_staging_def)
  then show "view s2 d p = view s d p" by (auto simp: view_def)
qed

lemma stages_with_pair:
  assumes x: "uuids_valid (ext s)" and b: "payload_content s d ob payload = Some b"
  shows "stages_with (ext s) d (view s d) (after_staging payload (view s d)) (pair_record d ob) b (serialize_object ob)
      (\<lambda>stage. then_io (stage_payload payload ob (stage @ [BLOB])) (write_object_metadata (stage @ [META]) ob))"
  unfolding stages_with_def append_assoc append.simps
proof (intro allI impI)
  fix u t nf
  assume st: "is_stage (ext s) (pub_stage (pair_record d ob u))" and t: "at_rest (ext s) d (view s d) t"
      "t (d @ [pub_stage (pair_record d ob u)]) = Some Dir"
  show "runs (ext s) nf (\<lambda>t. at_rest (ext s) d (view s d) t \<or> at_rest (ext s) d (after_staging payload (view s d)) t) t
      (then_io (stage_payload payload ob (d @ [pub_stage (pair_record d ob u), BLOB]))
        (write_object_metadata (d @ [pub_stage (pair_record d ob u), META]) ob))
      (\<lambda>_ t'. at_rest (ext s) d (after_staging payload (view s d)) t' \<and>
        staged d (pair_record d ob u) b (serialize_object ob) t')"
    by (rule runs_bind [OF runs_stage_payload [OF x b t(1) st t(2)]])
      (auto intro: runs_weaken [OF runs_stage_meta [OF x _ st]])
qed

lemma publish_outcome:
  assumes x: "uuids_valid (ext s)" and c: "consistent s d" and b: "payload_content s d ob payload = Some b"
    and len: "content_len b = obj_size ob"
    and run: "publish_pair d ob payload s = (r, s1)"
    and recover: "recover_publication d s1' = (r', s2)" and s1': "fs_get s1' = fs_get s1" "ext s1' = ext s1" "faults s1' = []"
  shows "r' = Done () \<and> consistent s2 d \<and>
    ((\<forall>p. \<not> used_up payload p \<longrightarrow> view s2 d p = view s d p) \<or>
     view s2 d = published d ob payload b (view s d)) \<and>
    (r = Done () \<longrightarrow> view s1 d = published d ob payload b (view s d) \<and> view s2 d = view s1 d \<and> consistent s1 d) \<and>
    (faults s = [] \<longrightarrow> r = Done ()) \<and>
    (path_exists s2 d \<longrightarrow> clean (ext s) d (fs_get s2)) \<and> rest_same s s1 \<and> rest_same s1' s2"
proof -
  let ?f = "view s d" and ?N = "published d ob payload b (view s d)"
  note a = consistent_settled [OF c] and j = consistent_journal [OF c]
  have nj: "\<not> used_up payload (d @ [JOURNAL])" using payload_not_journal [OF b] .
  have j': "after_staging payload ?f (d @ [JOURNAL]) = None" using j by (simp add: after_staging_def)
  have ok: "record_ok (ext s) (pair_record d ob (ext_uuid (ext s) n)) b (serialize_object ob)" for n
    using stage_is_stage [OF x] len by (auto simp: record_ok_def pair_record_def version_id_ok_def)
  have stage: "stages_with (ext s) d ?f (after_staging payload ?f) (pair_record d ob) b (serialize_object ob)
      (\<lambda>stage. then_io (stage_payload payload ob (stage @ [BLOB])) (write_object_metadata (stage @ [META]) ob))"
    using x b by (rule stages_with_pair)
  have stg: "pub_stage (pair_record d ob u) = STAGE_PREFIX @ u" for u by (simp add: pair_record_def)
  have view: "new_view d (pair_record d ob u) b (serialize_object ob) (after_staging payload ?f) = ?N" for u
    using j b nj by (rule new_view_pair)
  note out = publication_outcome [OF x a j j' stg ok view stage
      run [unfolded publish_pair_program] recover s1']
  have N: "settled (ext s) d ?N (fs_get w) \<Longrightarrow> ext w = ext s \<Longrightarrow> view w d = ?N \<and> consistent w d" for w
    using view_published [of w d ob payload b s] settled_consistent [of w d ?N] j nj by (auto simp: published_def)
  note out2 = out(2) [folded out(6)]
  have "consistent s2 d"
    using out2 settled_consistent [of s2 d ?f] settled_consistent [of s2 d "after_staging payload ?f"] j j' N [of s2] out(6)
    by metis
  moreover have "(\<forall>p. \<not> used_up payload p \<longrightarrow> view s2 d p = ?f p) \<or> view s2 d = ?N"
    using out2 view_after_staging [OF _ out(6)] N [of s2] out(6) by metis
  moreover have "r = Done () \<longrightarrow> view s1 d = ?N \<and> view s2 d = view s1 d \<and> consistent s1 d"
    using out(3,6,7) N [of s1] N [of s2] by auto
  ultimately show ?thesis using out(1,4,5,8,9) by (auto simp: path_exists_def)
qed

text \<open>
  C1. Crash safety of \<^verbatim>\<open>publish_pair\<close>. From a consistent object directory, whatever calls fail and
  wherever the process stops, the recovery that runs before the next access succeeds and leaves
  either exactly the old public files (a spooled payload may have been consumed) or exactly the new
  ones: the payload, its metadata, the replaced null version removed, and every other file of the
  store unchanged. If the publication reports success, the files are the new ones at once; without
  faults it does report success; and no staging directory or temporary file is left.
\<close>

theorem publish_crash_safe:
  assumes x: "uuids_valid (ext s)" and c: "consistent s d" and b: "payload_content s d ob payload = Some b"
    and len: "content_len b = obj_size ob"
    and run: "publish_pair d ob payload s = (r, s1)"
    and recover: "recover_publication d (s1\<lparr>faults := []\<rparr>) = (r', s2)"
  shows "r' = Done () \<and> consistent s2 d \<and>
    ((\<forall>p. \<not> used_up payload p \<longrightarrow> view s2 d p = view s d p) \<or>
     view s2 d = published d ob payload b (view s d)) \<and>
    (r = Done () \<longrightarrow> view s1 d = published d ob payload b (view s d) \<and> view s2 d = view s1 d) \<and>
    (faults s = [] \<longrightarrow> r = Done ()) \<and>
    (path_exists s2 d \<longrightarrow> clean (ext s) d (fs_get s2))"
  using publish_outcome [OF assms] by simp

text \<open>The public files after \<^verbatim>\<open>change_history\<close>, and the requests it accepts.\<close>

definition marker_paths :: "path \<Rightarrow> object option \<Rightarrow> path \<Rightarrow> content option" where
  "marker_paths d marker p =
     (case marker of
        None \<Rightarrow> None
      | Some m \<Rightarrow>
         (case obj_version_id m of
            None \<Rightarrow> None
          | Some v \<Rightarrow>
             if p = d @ [VERSIONS, v, BLOB] then Some (Bytes [])
             else if p = d @ [VERSIONS, v, META] then Some (ObjectJson (serialize_object m))
             else None))"

definition rewritten :: "path \<Rightarrow> (object \<times> path) option \<Rightarrow> content \<Rightarrow> string list \<Rightarrow> object option \<Rightarrow> bool \<Rightarrow>
    (path \<Rightarrow> content option) \<Rightarrow> path \<Rightarrow> content option" where
  "rewritten d promoted b remove_versions marker clear_current f p =
     (if p = d @ [BLOB] \<or> p = d @ [META] then
        (case promoted of
           Some (ob, _) \<Rightarrow> Some (if p = d @ [BLOB] then b else ObjectJson (serialize_object ob))
         | None \<Rightarrow> if clear_current then None else f p)
      else if marker_paths d marker p \<noteq> None then marker_paths d marker p
      else if list_ex (\<lambda>v. prefix (d @ [VERSIONS, v]) p) remove_versions then None
      else f p)"

definition history_request :: "world \<Rightarrow> path \<Rightarrow> (object \<times> path) option \<Rightarrow> content \<Rightarrow> string list \<Rightarrow> object option \<Rightarrow> bool \<Rightarrow> bool" where
  "history_request s d promoted b remove_versions marker clear_current \<longleftrightarrow>
     (case promoted of
        None \<Rightarrow> True
      | Some (ob, p) \<Rightarrow> view s d p = Some b \<and> content_len b = obj_size ob \<and> \<not> clear_current \<and> marker = None) \<and>
     list_all version_id_ok remove_versions \<and>
     (case marker of
        None \<Rightarrow> True
      | Some m \<Rightarrow>
          (case obj_version_id m of None \<Rightarrow> False | Some v \<Rightarrow> version_id_ok v) \<and> obj_size m = 0 \<and> clear_current)"

text \<open>The promoted metadata; without a promotion any value serves, since nothing is staged.\<close>

definition promoted_object :: "(object \<times> path) option \<Rightarrow> object" where
  "promoted_object promoted =
     (case promoted of
        Some (ob, _) \<Rightarrow> serialize_object ob
      | None \<Rightarrow> \<lparr>obj_key = [], obj_data = [], obj_size = 0, obj_etag = [], obj_content_type = [],
                 obj_last_modified = 0, obj_version_id = None, obj_storage_class = [],
                 obj_metadata = Map.empty, obj_tags = Map.empty, obj_acl = None,
                 obj_provider_metadata = Map.empty\<rparr>)"

lemma new_view_history:
  assumes "f (d @ [JOURNAL]) = None"
  shows "new_view d (history_record promoted rm mk cl u) b (promoted_object promoted) f = rewritten d promoted b rm mk cl f"
proof
  fix p
  have mk: "marker_file d (history_record promoted rm mk cl u) p = marker_paths d mk p"
    by (simp add: marker_file_def marker_paths_def history_record_def)
  have "marker_paths d mk p = None" "\<not> list_ex (\<lambda>v. prefix (d @ [VERSIONS, v]) p) rm" if "p = d @ [JOURNAL]"
    using that by (auto simp: marker_paths_def list_ex_iff split: option.splits)
  with assms show "new_view d (history_record promoted rm mk cl u) b (promoted_object promoted) f p =
      rewritten d promoted b rm mk cl f p"
    using current_not_history [of d p "history_record promoted rm mk cl u"]
    unfolding new_view_def rewritten_def mk removed_file_def current_file_def
    by (auto simp: history_record_def promoted_object_def split: option.splits)
qed

lemma stages_with_history:
  assumes x: "uuids_valid (ext s)" and ok: "history_request s d promoted b rm mk cl"
  shows "stages_with (ext s) d (view s d) (view s d) (history_record promoted rm mk cl) b (promoted_object promoted)
      (\<lambda>stage. case promoted of
            None \<Rightarrow> return ()
          | Some (ob, p) \<Rightarrow>
              then_io (stage_stored_payload p (stage @ [BLOB])) (write_object_metadata (stage @ [META]) ob))"
  unfolding stages_with_def append_assoc append.simps
proof (intro allI impI)
  fix u t nf
  let ?r = "history_record promoted rm mk cl u" and ?I = "at_rest (ext s) d (view s d)"
  assume st: "is_stage (ext s) (pub_stage ?r)" and t: "?I t" "t (d @ [pub_stage ?r]) = Some Dir"
  show "runs (ext s) nf (\<lambda>t. ?I t \<or> ?I t) t
      (case promoted of
            None \<Rightarrow> return ()
          | Some (ob, p) \<Rightarrow>
              then_io (stage_stored_payload p (d @ [pub_stage ?r, BLOB])) (write_object_metadata (d @ [pub_stage ?r, META]) ob))
      (\<lambda>_ t'. ?I t' \<and> staged d ?r b (promoted_object promoted) t')"
  proof (cases promoted)
    case None
    with t show ?thesis by (auto intro!: runs_return simp: staged_def history_record_def)
  next
    case (Some pr)
    obtain ob p where pr: "pr = (ob, p)" by force
    have p: "view s d p = Some b" using ok Some pr by (simp add: history_request_def)
    then have "\<not> scratch_in (ext s) d p" by (auto simp: view_def)
    note stored = runs_stage_stored [OF x t(1) st t(2) at_rest_fc [OF t(1) this p]]
    have "runs (ext s) nf ?I t
        (then_io (stage_stored_payload p (d @ [pub_stage ?r, BLOB])) (write_object_metadata (d @ [pub_stage ?r, META]) ob))
        (\<lambda>_ t'. ?I t' \<and> staged d ?r b (serialize_object ob) t')"
      by (rule runs_bind [OF stored]) (auto intro: runs_stage_meta [OF x _ st])
    with Some pr show ?thesis by (simp add: promoted_object_def)
  qed
qed

lemma history_outcome:
  assumes x: "uuids_valid (ext s)" and c: "consistent s d"
    and ok: "history_request s d promoted b remove_versions marker clear_current"
    and run: "change_history d promoted remove_versions marker clear_current s = (r, s1)"
    and recover: "recover_publication d s1' = (r', s2)" and s1': "fs_get s1' = fs_get s1" "ext s1' = ext s1" "faults s1' = []"
  shows "r' = Done () \<and> consistent s2 d \<and>
    (view s2 d = view s d \<or>
     (\<forall>p. \<not> scratch_in (ext s) d p \<longrightarrow>
        view s2 d p = rewritten d promoted b remove_versions marker clear_current (view s d) p)) \<and>
    (r = Done () \<longrightarrow>
       (\<forall>p. \<not> scratch_in (ext s) d p \<longrightarrow>
          view s1 d p = rewritten d promoted b remove_versions marker clear_current (view s d) p) \<and>
       view s2 d = view s1 d \<and> consistent s1 d) \<and>
    (faults s = [] \<longrightarrow> r = Done ()) \<and>
    (path_exists s2 d \<longrightarrow> clean (ext s) d (fs_get s2)) \<and> rest_same s s1 \<and> rest_same s1' s2"
proof -
  let ?f = "view s d" and ?N = "rewritten d promoted b remove_versions marker clear_current (view s d)"
  let ?R = "history_record promoted remove_versions marker clear_current"
  note a = consistent_settled [OF c] and j = consistent_journal [OF c]
  have rec: "record_ok (ext s) (?R (ext_uuid (ext s) n)) b (promoted_object promoted)" for n
    using stage_is_stage [OF x] ok
    by (auto simp: record_ok_def history_record_def history_request_def promoted_object_def split: option.splits)
  have stg: "pub_stage (?R u) = STAGE_PREFIX @ u" for u by (simp add: history_record_def)
  have new: "new_view d (?R u) b (promoted_object promoted) ?f = ?N" for u using j by (rule new_view_history)
  note out = publication_outcome [OF x a j j stg rec new stages_with_history [OF x ok]
      run [unfolded change_history_program] recover s1']
  have jN: "?N (d @ [JOURNAL]) = None" using new_view_journal new by metis
  have N: "settled (ext s) d ?N (fs_get w) \<Longrightarrow> ext w = ext s \<Longrightarrow>
      (\<forall>p. view w d p = (if scratch_in (ext s) d p then None else ?N p)) \<and> consistent w d" for w
    using settled_view [of w d ?N] settled_consistent [of w d ?N] jN by auto
  have old: "settled (ext s) d ?f (fs_get s2) \<Longrightarrow> view s2 d = ?f \<and> consistent s2 d"
    using settled_view [of s2 d ?f] settled_consistent [of s2 d ?f] j out(6) by (auto simp: view_def fun_eq_iff)
  from out(2) have "consistent s2 d \<and> (view s2 d = ?f \<or> (\<forall>p. \<not> scratch_in (ext s) d p \<longrightarrow> view s2 d p = ?N p))"
    using old N [OF _ out(6)] by auto
  moreover have "r = Done () \<longrightarrow> (\<forall>p. \<not> scratch_in (ext s) d p \<longrightarrow> view s1 d p = ?N p) \<and> view s2 d = view s1 d \<and> consistent s1 d"
    using out(3) N [OF _ out(6)] N [OF _ out(7)] by (auto simp: fun_eq_iff)
  ultimately show ?thesis using out(1,4,5,8,9) by (auto simp: path_exists_def)
qed

text \<open>
  C2. Crash safety of \<^verbatim>\<open>change_history\<close>, which promotes a stored version to the current one, removes
  versions, and writes a delete marker. The request is applied completely or not at all, and reported
  success means that it was applied.
\<close>

theorem history_crash_safe:
  assumes x: "uuids_valid (ext s)" and c: "consistent s d"
    and ok: "history_request s d promoted b remove_versions marker clear_current"
    and run: "change_history d promoted remove_versions marker clear_current s = (r, s1)"
    and recover: "recover_publication d (s1\<lparr>faults := []\<rparr>) = (r', s2)"
  shows "r' = Done () \<and> consistent s2 d \<and>
    (view s2 d = view s d \<or>
     (\<forall>p. \<not> scratch_in (ext s) d p \<longrightarrow>
        view s2 d p = rewritten d promoted b remove_versions marker clear_current (view s d) p)) \<and>
    (r = Done () \<longrightarrow>
       (\<forall>p. \<not> scratch_in (ext s) d p \<longrightarrow>
          view s1 d p = rewritten d promoted b remove_versions marker clear_current (view s d) p) \<and>
       view s2 d = view s1 d) \<and>
    (faults s = [] \<longrightarrow> r = Done ()) \<and>
    (path_exists s2 d \<longrightarrow> clean (ext s) d (fs_get s2))"
  using history_outcome [OF assms] by simp

section \<open>Concrete runs\<close>

text \<open>
  An object directory with one generation; the oracle lets five calls pass, fails one, lets one pass
  and stops the process.
\<close>

definition sample_store :: world where
  "sample_store =
     sample_world
       [([''o''], Dir), ([''o'', BLOB], File (Bytes [7])),
        ([''o'', META], File (ObjectJson (serialize_object (sample_object [7] (Some ''null'')))))]
       [Proceed, Proceed, Proceed, Proceed, Proceed, Fail (\<lambda>_. False), Proceed, Crash (\<lambda>_. True)]"

lemma sample_uuids_valid: "uuids_valid sample_externs"
  by (simp add: uuids_valid_def sample_externs_def list_all_iff)

lemma sample_store_get:
  "fs_get sample_store p =
     (if p = [] \<or> p = [''o''] then Some Dir
      else if p = [''o'', BLOB] then Some (File (Bytes [7]))
      else if p = [''o'', META] then Some (File (ObjectJson (serialize_object (sample_object [7] (Some ''null'')))))
      else None)"
  by (auto simp: sample_store_def fs_get_def)

lemma sample_store_consistent: "consistent sample_store [''o'']"
proof -
  have "base_ok [''o''] (fs_get sample_store)"
    by (auto simp: base_ok_def sample_store_get prefix_Cons parent_def)
  moreover have "kinds_ok (ext sample_store) [''o''] (fs_get sample_store)"
    by (auto simp: kinds_ok_def sample_store_get split: if_splits)
  moreover have "\<not> path_exists sample_store ([''o''] @ [JOURNAL])"
    by (simp add: path_exists_def sample_store_get)
  ultimately show ?thesis by (simp add: consistent_def)
qed

lemma sample_store_ext [simp]: "ext sample_store = sample_externs"
  by (simp add: sample_store_def)

theorem publish_crash_safe_witness:
  "\<exists>r s1 r' s2. publish_pair [''o''] (sample_object [1, 2] (Some ''null'')) InMemory sample_store = (r, s1) \<and>
     recover_publication [''o''] (s1\<lparr>faults := []\<rparr>) = (r', s2) \<and> r' = Done () \<and>
     (view s2 [''o''] = view sample_store [''o''] \<or>
      view s2 [''o''] = published [''o''] (sample_object [1, 2] (Some ''null'')) InMemory (Bytes [1, 2]) (view sample_store [''o'']))"
proof -
  let ?ob = "sample_object [1, 2] (Some ''null'')"
  obtain r s1 r' s2 where run: "publish_pair [''o''] ?ob InMemory sample_store = (r, s1)"
    "recover_publication [''o''] (s1\<lparr>faults := []\<rparr>) = (r', s2)"
    by force
  have "uuids_valid (ext sample_store)" by (simp add: sample_uuids_valid)
  from publish_crash_safe [OF this sample_store_consistent _ _ run, of "Bytes [1, 2]"]
  have "r' = Done ()" "view s2 [''o''] = view sample_store [''o''] \<or>
      view s2 [''o''] = published [''o''] ?ob InMemory (Bytes [1, 2]) (view sample_store [''o''])"
    by (auto simp: payload_content_def used_up_def fun_eq_iff)
  with run show ?thesis by blast
qed

theorem history_crash_safe_witness:
  "\<exists>r s1 r' s2. change_history [''o''] None [] (Some (sample_object [] (Some ''m''))) True sample_store = (r, s1) \<and>
     recover_publication [''o''] (s1\<lparr>faults := []\<rparr>) = (r', s2) \<and> r' = Done () \<and>
     (view s2 [''o''] [''o'', BLOB] = Some (Bytes [7]) \<or>
      view s2 [''o''] [''o'', BLOB] = None \<and> view s2 [''o''] [''o'', VERSIONS, ''m'', BLOB] = Some (Bytes []))"
proof -
  let ?m = "Some (sample_object [] (Some ''m''))"
  obtain r s1 r' s2 where run: "change_history [''o''] None [] ?m True sample_store = (r, s1)"
    "recover_publication [''o''] (s1\<lparr>faults := []\<rparr>) = (r', s2)"
    by force
  have x: "uuids_valid (ext sample_store)" by (simp add: sample_uuids_valid)
  have "history_request sample_store [''o''] None (Bytes []) [] ?m True"
    by (simp add: history_request_def version_id_ok_def)
  note out = history_crash_safe [OF x sample_store_consistent this run]
  have "\<not> scratch_in sample_externs [''o''] [''o'', BLOB]" "\<not> scratch_in sample_externs [''o''] [''o'', VERSIONS, ''m'', BLOB]"
    by (auto simp: scratch_in_def)
  moreover have "view sample_store [''o''] [''o'', BLOB] = Some (Bytes [7])"
    using calculation by (simp add: view_def file_content_def sample_store_get)
  ultimately have "view s2 [''o''] [''o'', BLOB] = Some (Bytes [7]) \<or>
      view s2 [''o''] [''o'', BLOB] = None \<and> view s2 [''o''] [''o'', VERSIONS, ''m'', BLOB] = Some (Bytes [])"
    using out by (auto simp: rewritten_def marker_paths_def)
  with run out show ?thesis by blast
qed

end
