(* ===== verification/Frames.thy ===== *)
theory Frames
  imports Crash_Safety
begin

text \<open>
  What a fault-free publication leaves alone. \<open>keeps x W m\<close> says that \<open>m\<close>, run without faults, keeps
  an assertion \<open>W\<close> on the tree; for a publication at \<open>d\<close> the assertion is that every node is as
  before or is one the publication may write, and that every node has a parent directory.
\<close>

section \<open>Kept assertions\<close>

named_theorems keeps_rules \<open>rules for kept assertions\<close>

definition keeps :: "externs \<Rightarrow> (tree \<Rightarrow> bool) \<Rightarrow> 'a io \<Rightarrow> bool" where
  "keeps x W m \<longleftrightarrow>
     (\<forall>s r s'. m s = (r, s') \<longrightarrow> ext s = x \<longrightarrow> faults s = [] \<longrightarrow> W (fs_get s) \<longrightarrow>
        W (fs_get s') \<and> rest_same s s' \<and> faults s' = [])"

lemma keepsD:
  assumes "keeps x W m" "m s = (r, s')" "ext s = x" "faults s = []" "W (fs_get s)"
  shows "W (fs_get s')" "rest_same s s'" "faults s' = []"
  using assms unfolding keeps_def by blast+

lemma keeps_return [keeps_rules]: "keeps x W (return a)"
  by (simp add: keeps_def return_def)

lemma keeps_throw [keeps_rules]: "keeps x W (throw e)"
  by (simp add: keeps_def throw_def)

lemma keeps_gets: "keeps x W (gets f)"
  by (simp add: keeps_def gets_def)

lemma keeps_bind:
  assumes "keeps x W m" and "\<And>a. keeps x W (f a)"
  shows "keeps x W (bind_io m f)"
  unfolding keeps_def
proof (intro allI impI)
  fix s r s'
  assume run: "bind_io m f s = (r, s')" and s: "ext s = x" "faults s = []" "W (fs_get s)"
  obtain r1 s1 where m: "m s = (r1, s1)" by force
  note k = keepsD [OF assms(1) m s]
  have x1: "ext s1 = x" using k(2) s(1) by (simp add: rest_same_def)
  show "W (fs_get s') \<and> rest_same s s' \<and> faults s' = []"
  proof (cases r1)
    case (Done a)
    with run m have "f a s1 = (r, s')" by (simp add: bind_io_def)
    from keepsD [OF assms(2) this x1 k(3,1)] k(2) show ?thesis by (auto intro: rest_same_trans)
  qed (use run m k in \<open>auto simp: bind_io_def\<close>)
qed

lemma keeps_try [keeps_rules]: "keeps x W m \<Longrightarrow> keeps x W (try_io m)"
  unfolding keeps_def try_io_def by (fastforce split: prod.splits outcome.splits)

text \<open>Values read from the state that later steps depend on.\<close>

lemma keeps_new_uuid: "(\<And>n. keeps x W (f (ext_uuid x n))) \<Longrightarrow> keeps x W (bind_io new_uuid f)"
  unfolding keeps_def bind_io_def new_uuid_def
  by (fastforce simp: rest_same_def)

lemma keeps_gets_ext: "keeps x W (f x) \<Longrightarrow> keeps x W (bind_io (gets ext) f)"
  unfolding keeps_def bind_io_def gets_def by auto

lemma keeps_gets_bind: "(\<And>a. keeps x W (f a)) \<Longrightarrow> keeps x W (bind_io (gets g) f)"
  by (rule keeps_bind [OF keeps_gets])

lemma keeps_read_file_bind:
  assumes "\<And>c t. W t \<Longrightarrow> t p = Some (File c) \<Longrightarrow> keeps x W (f c)"
  shows "keeps x W (bind_io (read_file p msg) f)"
  unfolding keeps_def
proof (intro allI impI)
  fix s r s'
  assume "bind_io (read_file p msg) f s = (r, s')" and s: "ext s = x" "faults s = []" "W (fs_get s)"
  moreover have "keeps x W (f c)" if "file_content s p = Some c" for c
    using assms [OF s(3)] that by (simp add: file_content_fc fc_Some)
  ultimately show "W (fs_get s') \<and> rest_same s s' \<and> faults s' = []"
    by (auto simp: bind_io_def read_file_def split: option.splits dest: keepsD)
qed

lemma keeps_read_dir [keeps_rules]: "keeps x W (read_dir d msg)"
  by (simp add: keeps_def read_dir_def)

lemma keeps_read_file [keeps_rules]: "keeps x W (read_file d msg)"
  by (simp add: keeps_def read_file_def split: option.splits)

lemma keeps_guard [keeps_rules]: "keeps x W (guard_io b e)"
  by (simp add: guard_io_def keeps_rules)

lemma keeps_when [keeps_rules]: "(b \<Longrightarrow> keeps x W m) \<Longrightarrow> keeps x W (when_io b m)"
  by (simp add: when_io_def keeps_rules)

lemma keeps_for_each [keeps_rules]: "(\<And>a. a \<in> set as \<Longrightarrow> keeps x W (f a)) \<Longrightarrow> keeps x W (for_each as f)"
  by (induction as) (auto intro!: keeps_bind keeps_return)

lemma keeps_case_res [keeps_rules]:
  "(\<And>a. keeps x W (f a)) \<Longrightarrow> (\<And>e. keeps x W (g e)) \<Longrightarrow> keeps x W (case r of Ok a \<Rightarrow> f a | Err e \<Rightarrow> g e)"
  by (cases r) auto

lemma keeps_if: "keeps x W m \<Longrightarrow> keeps x W m' \<Longrightarrow> keeps x W (if b then m else m')"
  by simp

lemma keeps_ignore [keeps_rules]: "keeps x W m \<Longrightarrow> keeps x W (ignore_errors m)"
  unfolding ignore_errors_def by (intro keeps_bind keeps_rules)

lemma keeps_on_error [keeps_rules]: "keeps x W m \<Longrightarrow> keeps x W h \<Longrightarrow> keeps x W (on_error m h)"
  unfolding on_error_def by (intro keeps_bind keeps_rules)

lemma keeps_of_result [keeps_rules]: "keeps x W (of_result r)"
  by (cases r) (auto simp: of_result_def keeps_rules)

lemma keeps_syscall:
  assumes "\<And>s s'. eff s = Some s' \<Longrightarrow> W (fs_get s) \<Longrightarrow> W (fs_get s') \<and> rest_same s s' \<and> faults s' = faults s"
  shows "keeps x W (syscall eff part msg)"
  unfolding keeps_def
proof (intro allI impI)
  fix s r s'
  assume "syscall eff part msg s = (r, s')" "faults s = []" "W (fs_get s)"
  with assms [of s] show "W (fs_get s') \<and> rest_same s s' \<and> faults s' = []"
    by (auto simp: syscall_def next_fault_def split: option.splits)
qed

section \<open>Nodes that may change\<close>

definition tree_wf :: "tree \<Rightarrow> bool" where
  "tree_wf t \<longleftrightarrow> t [] = Some Dir \<and> (\<forall>q. q \<noteq> [] \<longrightarrow> t q \<noteq> None \<longrightarrow> t (parent q) = Some Dir)"

definition within :: "tree \<Rightarrow> (path \<Rightarrow> node option \<Rightarrow> bool) \<Rightarrow> tree \<Rightarrow> bool" where
  "within t0 D t \<longleftrightarrow> tree_wf t \<and> (\<forall>q. t q = t0 q \<or> D q (t q))"

lemma tree_wf_put: "tree_wf t \<Longrightarrow> p \<noteq> [] \<Longrightarrow> t (parent p) = Some Dir \<Longrightarrow> t p \<noteq> Some Dir \<Longrightarrow> tree_wf (t(p \<mapsto> n))"
  by (auto simp: tree_wf_def parent_def)

lemma tree_wf_remove_file: "tree_wf t \<Longrightarrow> p \<noteq> [] \<Longrightarrow> t p \<noteq> Some Dir \<Longrightarrow> tree_wf (t(p := None))"
  by (auto simp: tree_wf_def)

lemma tree_wf_without: "tree_wf t \<Longrightarrow> p \<noteq> [] \<Longrightarrow> tree_wf (without (prefix p) t)"
  unfolding tree_wf_def without_def by (metis append_butlast_last_id option.discI parent_def prefix_Nil prefix_snoc)

lemma within_put:
  "within t0 D t \<Longrightarrow> p \<noteq> [] \<Longrightarrow> t (parent p) = Some Dir \<Longrightarrow> t p \<noteq> Some Dir \<Longrightarrow> D p (Some n) \<Longrightarrow> within t0 D (t(p \<mapsto> n))"
  by (auto simp: within_def tree_wf_put)

lemma within_remove: "within t0 D t \<Longrightarrow> p \<noteq> [] \<Longrightarrow> t p \<noteq> Some Dir \<Longrightarrow> D p None \<Longrightarrow> within t0 D (t(p := None))"
  by (auto simp: within_def tree_wf_remove_file)

lemma within_without:
  "within t0 D t \<Longrightarrow> p \<noteq> [] \<Longrightarrow> (\<And>q. prefix p q \<Longrightarrow> D q None) \<Longrightarrow> within t0 D (without (prefix p) t)"
  by (auto simp: within_def tree_wf_without) (auto simp: without_def)

lemma keeps_sync_path [keeps_rules]: "keeps x W (sync_path p msg)"
  unfolding sync_path_def by (rule keeps_syscall) (auto split: if_splits)

lemma keeps_sync_directory [keeps_rules]: "keeps x W (sync_directory p)"
  unfolding sync_directory_def by (rule keeps_sync_path)

lemma keeps_create_dir: "D p (Some Dir) \<Longrightarrow> keeps x (within t0 D) (create_dir p msg)"
  unfolding create_dir_def by (rule keeps_syscall) (auto simp: node_simps within_put split: if_splits)

lemma keeps_create_file: "D p (Some (File (Bytes []))) \<Longrightarrow> keeps x (within t0 D) (create_file p msg)"
  unfolding create_file_def by (rule keeps_syscall) (auto simp: node_simps within_put split: if_splits)

lemma within_parent: "within t0 D t \<Longrightarrow> t p \<noteq> None \<Longrightarrow> p \<noteq> [] \<Longrightarrow> t (parent p) = Some Dir"
  by (simp add: within_def tree_wf_def)

lemma within_root: "within t0 D t \<Longrightarrow> t [] = Some Dir"
  by (simp add: within_def tree_wf_def)

lemma is_file_within: "within t0 D (fs_get s) \<Longrightarrow> is_file s p \<Longrightarrow>
    p \<noteq> [] \<and> fs_get s (parent p) = Some Dir \<and> fs_get s p \<noteq> Some Dir"
  using within_parent [of t0 D "fs_get s" p] within_root [of t0 D "fs_get s"]
  by (cases "p = []") (auto simp: node_simps split: option.splits node.splits)

lemma keeps_write_all: "D p (Some (File c)) \<Longrightarrow> keeps x (within t0 D) (write_all p c msg)"
  unfolding write_all_def
  by (rule keeps_syscall) (use is_file_within in \<open>fastforce intro!: within_put split: if_splits\<close>)

lemma keeps_copy_file: "(\<And>c. D dst (Some (File c))) \<Longrightarrow> keeps x (within t0 D) (copy_file src dst msg)"
  unfolding copy_file_def
  by (rule keeps_syscall) (auto simp: is_dir_def intro!: within_put split: if_splits option.splits)

lemma keeps_hard_link: "(\<And>c. D dst (Some (File c))) \<Longrightarrow> keeps x (within t0 D) (hard_link src dst)"
  unfolding hard_link_def
  by (rule keeps_syscall) (auto simp: is_dir_def path_exists_def intro!: within_put split: if_splits option.splits)

lemma keeps_remove_file: "D p None \<Longrightarrow> keeps x (within t0 D) (remove_file p msg)"
  unfolding remove_file_def
  by (rule keeps_syscall) (use is_file_within in \<open>fastforce simp: fun_upd_None_eq intro!: within_remove split: if_splits\<close>)

lemma keeps_remove_dir_all: "(\<And>q. prefix p q \<Longrightarrow> D q None) \<Longrightarrow> keeps x (within t0 D) (remove_dir_all p msg)"
  unfolding remove_dir_all_def
  by (rule keeps_syscall) (auto simp: without_def [symmetric] intro!: within_without split: if_splits)

lemma keeps_rename:
  assumes "\<And>t. within t0 D t \<Longrightarrow> t src \<noteq> Some Dir" and "D src None" and "\<And>c. D dst (Some (File c))"
  shows "keeps x (within t0 D) (rename src dst msg)"
  unfolding rename_def
proof (rule keeps_syscall)
  fix s s'
  assume e: "rename_effect src dst s = Some s'" and w: "within t0 D (fs_get s)"
  then obtain c where c: "fs_get s src = Some (File c)" "dst \<noteq> []" "src \<noteq> []" "fs_get s (parent dst) = Some Dir"
      "fs_get s dst \<noteq> Some Dir" "s' = (if src = dst then s else fs_put dst (File c) (fs_delete (\<lambda>p. p = src) s))"
    using assms(1) [OF w] by (auto simp: rename_effect_def is_dir_def split: if_splits option.splits node.splits)
  moreover from c w have "within t0 D ((fs_get s)(src := None))"
    by (intro within_remove) (use assms in auto)
  moreover have "parent dst \<noteq> src" using c by auto
  ultimately show "within t0 D (fs_get s') \<and> rest_same s s' \<and> faults s' = faults s"
    using w assms(3)
    by (auto simp: fun_upd_None_eq intro!: within_put intro: rest_same_trans [OF put_rest(2) put_rest(1)])
qed

section \<open>Durable helpers\<close>

lemma rest_same_put [simp]:
  "rest_same s (fs_put p n s') = rest_same s s'" "rest_same s (fs_delete q s') = rest_same s s'"
  by (auto simp: rest_same_def fs_put_def fs_delete_def)

text \<open>A path the program only ever writes files to.\<close>

definition file_slot :: "tree \<Rightarrow> (path \<Rightarrow> node option \<Rightarrow> bool) \<Rightarrow> path \<Rightarrow> bool" where
  "file_slot t0 D p \<longleftrightarrow> (\<forall>v. D p v \<longleftrightarrow> v \<noteq> Some Dir) \<and> t0 p \<noteq> Some Dir"

definition dir_slots :: "(path \<Rightarrow> node option \<Rightarrow> bool) \<Rightarrow> path \<Rightarrow> bool" where
  "dir_slots D p \<longleftrightarrow> (\<forall>q. prefix q p \<longrightarrow> D q (Some Dir))"

lemma file_slotD [simp]: "file_slot t0 D p \<Longrightarrow> v \<noteq> Some Dir \<Longrightarrow> D p v"
  by (simp add: file_slot_def)

lemma file_slot_nodir: "file_slot t0 D p \<Longrightarrow> within t0 D t \<Longrightarrow> t p \<noteq> Some Dir"
  unfolding file_slot_def within_def by metis

lemma keeps_create_directory: "dir_slots D p \<Longrightarrow> keeps x (within t0 D) (create_directory_durable p)"
proof (induction p rule: length_induct)
  case (1 p)
  let ?W = "within t0 D"
  have step: "keeps x ?W
     (bind_io (create_directory_durable (parent p)) (\<lambda>_.
           bind_io (try_io (create_dir p ''Failed to create directory'')) (\<lambda>r.
           bind_io (gets (\<lambda>s. is_dir s p)) (\<lambda>there.
           bind_io (case r of Ok _ \<Rightarrow> return () | Err e \<Rightarrow> if there then return () else throw e) (\<lambda>_.
           sync_directory (parent p))))))" if "p \<noteq> []"
  proof -
    have "length (parent p) < length p" "dir_slots D (parent p)" "D p (Some Dir)"
      using that "1.prems" by (auto simp: parent_def dir_slots_def intro: prefix_order.trans [OF _ prefixeq_butlast])
    with "1.IH" show ?thesis
      by (intro keeps_bind keeps_gets keeps_try keeps_create_dir keeps_case_res keeps_sync_directory)
        (auto simp: keeps_rules)
  qed
  show ?case
    unfolding keeps_def
  proof (intro allI impI)
    fix s r s'
    assume run: "create_directory_durable p s = (r, s')" and s: "ext s = x" "faults s = []" "?W (fs_get s)"
    show "?W (fs_get s') \<and> rest_same s s' \<and> faults s' = []"
    proof (cases "is_dir s p \<or> p = []")
      case True
      with run s show ?thesis by (auto simp: create_directory_durable.simps split: if_splits)
    next
      case False
      with run have "bind_io (create_directory_durable (parent p)) (\<lambda>_.
           bind_io (try_io (create_dir p ''Failed to create directory'')) (\<lambda>r.
           bind_io (gets (\<lambda>s. is_dir s p)) (\<lambda>there.
           bind_io (case r of Ok _ \<Rightarrow> return () | Err e \<Rightarrow> if there then return () else throw e) (\<lambda>_.
           sync_directory (parent p))))) s = (r, s')"
        by (subst (asm) create_directory_durable.simps) simp
      from keepsD [OF step this s] False show ?thesis by blast
    qed
  qed
qed

text \<open>The new file is complete before it takes its name, so only the content written appears there.\<close>

lemma keeps_commit_file:
  assumes tmp: "file_slot t0 D tmp" and p: "D p (Some (File c))" "tmp \<noteq> p"
  shows "keeps x (within t0 D)
    (then_io (create_file tmp m1) (then_io (write_all tmp c m2) (then_io (sync_path tmp m3)
      (then_io (rename tmp p m4) (sync_directory d)))))"
  unfolding keeps_def
proof (intro allI impI)
  let ?rest = "then_io (write_all tmp c m2) (then_io (sync_path tmp m3) (then_io (rename tmp p m4) (sync_directory d)))"
  fix s r s'
  assume run: "then_io (create_file tmp m1) ?rest s = (r, s')" and s: "ext s = x" "faults s = []" "within t0 D (fs_get s)"
  show "within t0 D (fs_get s') \<and> rest_same s s' \<and> faults s' = []"
  proof (cases "tmp \<noteq> [] \<and> fs_get s (parent tmp) = Some Dir \<and> fs_get s tmp \<noteq> Some Dir")
    case False
    with run s show ?thesis by (auto simp: bind_io_def create_file_def syscall_def next_fault_def node_simps split: if_splits)
  next
    case ok: True
    let ?t = "fs_get s"
    have w: "within t0 D (?t(tmp \<mapsto> File c'))" for c' using tmp ok s by (intro within_put) auto
    have moved: "within t0 D (?t(tmp := None, p \<mapsto> File c))"
      if "?t (parent p) = Some Dir" "parent p \<noteq> tmp" "?t p \<noteq> Some Dir" "p \<noteq> []"
    proof (rule within_put)
      show "within t0 D (?t(tmp := None))" using tmp ok s by (intro within_remove) auto
    qed (use that p in auto)
    let ?s1 = "fs_put tmp (File c) (fs_put tmp (File (Bytes [])) s)"
    have t1: "fs_get ?s1 = ?t(tmp \<mapsto> File c)" "rest_same s ?s1" "faults ?s1 = []"
      using ok s(2) by simp_all
    have e: "then_io (create_file tmp m1) ?rest s = then_io (rename tmp p m4) (sync_directory d) ?s1"
      using ok s(2)
      by (simp add: bind_io_def create_file_def write_all_def sync_path_def syscall_def next_fault_def node_simps)
    have "rename_effect tmp p ?s1 = None \<or> (\<exists>s2. rename_effect tmp p ?s1 = Some s2 \<and> fs_get s2 = ?t(tmp := None, p \<mapsto> File c)
        \<and> ?t (parent p) = Some Dir \<and> parent p \<noteq> tmp \<and> ?t p \<noteq> Some Dir \<and> p \<noteq> [] \<and> rest_same s s2 \<and> faults s2 = [])"
      using ok t1 p by (auto simp: rename_effect_def node_simps fun_upd_None_eq split: if_splits)
    then show ?thesis
    proof
      assume "rename_effect tmp p ?s1 = None"
      then have "then_io (rename tmp p m4) (sync_directory d) ?s1 = (Failed (InternalError m4), ?s1)"
        using t1 by (simp add: bind_io_def rename_def syscall_def next_fault_def)
      with run t1 w show ?thesis unfolding e by simp
    next
      assume "\<exists>s2. rename_effect tmp p ?s1 = Some s2 \<and> fs_get s2 = ?t(tmp := None, p \<mapsto> File c)
        \<and> ?t (parent p) = Some Dir \<and> parent p \<noteq> tmp \<and> ?t p \<noteq> Some Dir \<and> p \<noteq> [] \<and> rest_same s s2 \<and> faults s2 = []"
      then obtain s2 where s2: "rename_effect tmp p ?s1 = Some s2" "within t0 D (fs_get s2)" "rest_same s s2" "faults s2 = []"
        using moved by fastforce
      then have "then_io (rename tmp p m4) (sync_directory d) ?s1 = sync_directory d s2"
        using t1 by (simp add: bind_io_def rename_def syscall_def next_fault_def)
      with run have "sync_directory d s2 = (r, s')" unfolding e by simp
      moreover have "ext s2 = x" using s2(3) s(1) by (simp add: rest_same_def)
      ultimately show ?thesis using keepsD [where W = "within t0 D", OF keeps_sync_directory _ _ s2(4,2)] s2(3) by (metis rest_same_trans)
    qed
  qed
qed

lemma keeps_atomic_write:
  assumes "dir_slots D dir" and "\<And>n. file_slot t0 D (dir @ [temp_name nm (ext_uuid x n)])"
    and "D (dir @ [nm]) (Some (File c))" and "\<And>n. temp_name nm (ext_uuid x n) \<noteq> nm"
  shows "keeps x (within t0 D) (atomic_write (dir @ [nm]) c)"
  unfolding atomic_write_snoc
proof (rule keeps_bind [OF keeps_create_directory keeps_new_uuid])
  fix n
  show "keeps x (within t0 D)
     (on_error
       (then_io (create_file (dir @ [temp_name nm (ext_uuid x n)]) ''Failed to create temp file'')
       (then_io (write_all (dir @ [temp_name nm (ext_uuid x n)]) c ''Failed to write temp file'')
       (then_io (sync_path (dir @ [temp_name nm (ext_uuid x n)]) ''Failed to sync temp file'')
       (then_io (rename (dir @ [temp_name nm (ext_uuid x n)]) (dir @ [nm]) ''Failed to commit temp file'')
       (sync_directory dir)))))
       (remove_file (dir @ [temp_name nm (ext_uuid x n)]) ''remove''))"
    using assms file_slotD [OF assms(2) [of n], of None]
    by (intro keeps_on_error keeps_commit_file keeps_remove_file) auto
qed (rule assms(1))

lemma keeps_atomic_copy:
  assumes "dir_slots D dir" and "\<And>n. file_slot t0 D (dir @ [''.copy-'' @ ext_uuid x n @ ''.tmp''])"
    and "\<And>c. D (dir @ [nm]) (Some (File c))"
  shows "keeps x (within t0 D) (atomic_copy src (dir @ [nm]))"
  unfolding atomic_copy_snoc
proof (rule keeps_bind [OF keeps_create_directory keeps_new_uuid])
  fix n
  let ?tmp = "dir @ [''.copy-'' @ ext_uuid x n @ ''.tmp'']"
  show "keeps x (within t0 D)
     (on_error
       (then_io (copy_file src ?tmp ''Failed to copy staged payload'')
       (then_io (sync_path ?tmp ''Failed to sync copied payload'')
       (then_io (rename ?tmp (dir @ [nm]) ''Failed to publish copied payload'')
       (sync_directory dir))))
       (remove_file ?tmp ''remove''))"
    using assms(3) assms(2) [of n] file_slot_nodir [OF assms(2) [of n]]
    by (intro keeps_on_error keeps_bind keeps_copy_file keeps_sync_path keeps_rename keeps_sync_directory
        keeps_remove_file) auto
qed (rule assms(1))


section \<open>Publications\<close>

definition pub_file :: "externs \<Rightarrow> string \<Rightarrow> bool" where
  "pub_file x a \<longleftrightarrow> a = BLOB \<or> a = META \<or> publication_temp x a"

text \<open>
  The nodes a publication at \<open>d\<close> may leave: directories down to \<open>d\<close>, the public and temporary files,
  the journal, staging directories, removed versions, the files of the delete marker, and the
  spooled payload it consumes.
\<close>

definition pub_frame ::
    "externs \<Rightarrow> path \<Rightarrow> string list \<Rightarrow> string option \<Rightarrow> object_payload \<Rightarrow> path \<Rightarrow> node option \<Rightarrow> bool" where
  "pub_frame x d rm mv payload q v \<longleftrightarrow>
     (prefix q d \<and> v = Some Dir) \<or>
     (\<exists>a. q = d @ [a] \<and> v \<noteq> Some Dir \<and> pub_file x a) \<or>
     (q = d @ [JOURNAL] \<and> (v = None \<or> (\<exists>r. v = Some (File (PublicationJson r)) \<and>
        pub_remove_versions r = rm \<and> Option.bind (pub_marker r) obj_version_id = mv))) \<or>
     (\<exists>st. is_stage x st \<and> (prefix (d @ [st]) q \<and> v = None \<or> q = d @ [st] \<and> v = Some Dir \<or>
        (\<exists>a. q = d @ [st, a] \<and> v \<noteq> Some Dir \<and> pub_file x a))) \<or>
     (\<exists>w \<in> set rm. prefix (d @ [VERSIONS, w]) q \<and> v = None) \<or>
     (\<exists>w. mv = Some w \<and> ((q = d @ [VERSIONS] \<or> q = d @ [VERSIONS, w]) \<and> v = Some Dir \<or>
        (\<exists>a. q = d @ [VERSIONS, w, a] \<and> v \<noteq> Some Dir \<and> pub_file x a))) \<or>
     (payload = Spooled q \<and> v = None)"

definition frame_base :: "externs \<Rightarrow> tree \<Rightarrow> path \<Rightarrow> object_payload \<Rightarrow> bool" where
  "frame_base x t0 d payload \<longleftrightarrow>
     uuids_valid x \<and> kinds_ok x d t0 \<and> t0 (d @ [JOURNAL]) = None \<and>
     (\<forall>p. payload = Spooled p \<longrightarrow> \<not> prefix d p \<and> \<not> prefix p d \<and> t0 p \<noteq> Some Dir)"

abbreviation kept :: "externs \<Rightarrow> tree \<Rightarrow> path \<Rightarrow> string list \<Rightarrow> string option \<Rightarrow> object_payload \<Rightarrow> tree \<Rightarrow> bool" where
  "kept x t0 d rm mv payload \<equiv> within t0 (pub_frame x d rm mv payload)"

lemma pub_file_names: "pub_file x a \<Longrightarrow> a \<noteq> JOURNAL \<and> \<not> is_stage x a \<and> a \<noteq> VERSIONS \<and> file_name x a"
  by (auto simp: pub_file_def file_name_def dest: temp_names)

lemma pub_file_simps [simp]: "pub_file x BLOB" "pub_file x META"
  by (simp_all add: pub_file_def)

lemma pub_file_temp:
  assumes "frame_base x t0 d payload"
  shows "pub_file x (''.published-'' @ ext_uuid x n @ ''.tmp'')" "pub_file x (''.copy-'' @ ext_uuid x n @ ''.tmp'')"
    "nm \<in> {BLOB, META, JOURNAL} \<Longrightarrow> pub_file x (temp_name nm (ext_uuid x n))"
  using assms temp_is_temp by (auto simp: frame_base_def pub_file_def)

lemma temp_name_neq [simp]: "temp_name nm u \<noteq> nm"
proof
  assume "temp_name nm u = nm"
  then have "length (temp_name nm u) = length nm" by simp
  then show False by (simp add: temp_name_def)
qed

lemma slot_current:
  assumes b: "frame_base x t0 d payload" and a: "pub_file x a"
  shows "file_slot t0 (pub_frame x d rm mv payload) (d @ [a])"
proof -
  have k: "kinds_ok x d t0" "\<And>p. payload = Spooled p \<Longrightarrow> \<not> prefix d p" using b by (auto simp: frame_base_def)
  have "t0 (d @ [a]) \<noteq> Some Dir" using kinds_node [OF k(1), of "[a]" Dir] pub_file_names [OF a] by auto
  with pub_file_names [OF a] a k(2) [of "d @ [a]"] show ?thesis
    by (auto simp: file_slot_def pub_frame_def prefix_append)
qed

lemma slot_stage:
  assumes b: "frame_base x t0 d payload" and a: "pub_file x a" and st: "is_stage x st"
  shows "file_slot t0 (pub_frame x d rm mv payload) (d @ [st, a])"
proof -
  have k: "kinds_ok x d t0" "\<And>p. payload = Spooled p \<Longrightarrow> \<not> prefix d p" using b by (auto simp: frame_base_def)
  have "t0 (d @ [st, a]) \<noteq> Some Dir" using kinds_node [OF k(1), of "[st, a]" Dir] pub_file_names [OF a] st by auto
  with pub_file_names [OF a] a st k(2) [of "d @ [st, a]"] show ?thesis
    by (auto simp: file_slot_def pub_frame_def prefix_append)
qed

lemma slot_marker:
  assumes b: "frame_base x t0 d payload" and a: "pub_file x a"
  shows "file_slot t0 (pub_frame x d rm (Some w) payload) (d @ [VERSIONS, w, a])"
proof -
  have k: "kinds_ok x d t0" "\<And>p. payload = Spooled p \<Longrightarrow> \<not> prefix d p" using b by (auto simp: frame_base_def)
  have "t0 (d @ [VERSIONS, w, a]) \<noteq> Some Dir"
    using kinds_node [OF k(1), of "[VERSIONS, w, a]" Dir] pub_file_names [OF a] by auto
  with pub_file_names [OF a] a k(2) [of "d @ [VERSIONS, w, a]"] show ?thesis
    by (auto simp: file_slot_def pub_frame_def prefix_append)
qed

lemma dirs_current: "dir_slots (pub_frame x d rm mv payload) d"
  by (auto simp: dir_slots_def pub_frame_def)

lemma dirs_stage: "is_stage x st \<Longrightarrow> dir_slots (pub_frame x d rm mv payload) (d @ [st])"
  by (auto simp: dir_slots_def pub_frame_def prefix_snoc)

lemma dirs_marker: "dir_slots (pub_frame x d rm (Some w) payload) (d @ [VERSIONS, w])"
  using prefix_snoc [of _ "d @ [VERSIONS]" w] by (auto simp: dir_slots_def pub_frame_def prefix_snoc)

lemma keeps_write_slot:
  assumes b: "frame_base x t0 d payload" and dir: "dir_slots D dir" and nm: "nm \<in> {BLOB, META, JOURNAL}"
    and slot: "\<And>a. pub_file x a \<Longrightarrow> file_slot t0 D (dir @ [a])" and c: "D (dir @ [nm]) (Some (File c))"
  shows "keeps x (within t0 D) (atomic_write (dir @ [nm]) c)"
  using dir slot [OF pub_file_temp(3) [OF b nm]] c by (intro keeps_atomic_write) auto

lemma keeps_copy_slot:
  assumes b: "frame_base x t0 d payload" and dir: "dir_slots D dir" and nm: "pub_file x nm"
    and slot: "\<And>a. pub_file x a \<Longrightarrow> file_slot t0 D (dir @ [a])"
  shows "keeps x (within t0 D) (atomic_copy src (dir @ [nm]))"
  using dir slot [OF pub_file_temp(2) [OF b]] slot [OF nm] by (intro keeps_atomic_copy) auto

lemma keeps_stage_stored:
  assumes b: "frame_base x t0 d payload" and dir: "dir_slots D dir" and nm: "pub_file x nm"
    and slot: "\<And>a. pub_file x a \<Longrightarrow> file_slot t0 D (dir @ [a])"
  shows "keeps x (within t0 D) (stage_stored_payload src (dir @ [nm]))"
  unfolding stage_stored_payload_def
  using keeps_copy_slot [OF assms] file_slotD [OF slot [OF nm]]
  by (intro keeps_bind keeps_try keeps_hard_link keeps_case_res keeps_rules) auto

lemma keeps_link_rename:
  assumes tmp: "file_slot t0 D tmp" and dst: "file_slot t0 D dst" and copy: "keeps x (within t0 D) (atomic_copy src tmp)"
  shows "keeps x (within t0 D)
     (bind_io (try_io (hard_link src tmp)) (\<lambda>linked.
      then_io (case linked of Ok _ \<Rightarrow> return () | Err _ \<Rightarrow> atomic_copy src tmp)
      (then_io (rename tmp dst msg) (sync_directory d))))"
  using file_slotD [OF tmp] file_slotD [OF dst] file_slot_nodir [OF tmp] copy
  by (intro keeps_bind keeps_try keeps_hard_link keeps_case_res keeps_return keeps_rename keeps_sync_directory) auto

lemma keeps_publish_staged:
  assumes b: "frame_base x t0 d payload" and nm: "pub_file x nm"
  shows "keeps x (kept x t0 d rm mv payload) (publish_staged_file src (d @ [nm]))"
  unfolding publish_staged_file_def Let_def parent_snoc
  by (intro keeps_new_uuid keeps_link_rename slot_current [OF b] pub_file_temp(1) [OF b]
      keeps_copy_slot [OF b dirs_current] nm)

lemma keeps_retire:
  assumes "\<And>q. prefix (d @ [VERSIONS, w]) q \<Longrightarrow> D q None"
  shows "keeps x (within t0 D) (retire_version d w)"
  unfolding retire_version_def validate_version_id_def Let_def
  by (intro keeps_bind keeps_gets keeps_guard keeps_when keeps_remove_file keeps_remove_dir_all keeps_sync_directory)
    (auto intro: assms)

lemma bind_throw [simp]: "bind_io (throw e) f = throw e"
  by (simp add: fun_eq_iff bind_io_def throw_def)

lemma keeps_marker:
  assumes b: "frame_base x t0 d payload" and m: "obj_version_id m = mv"
  shows "keeps x (kept x t0 d rm mv payload) (write_marker d m)"
proof (cases mv)
  case None
  with m show ?thesis by (simp add: write_marker_def of_result_def keeps_rules keeps_bind)
next
  case (Some w)
  let ?D = "pub_frame x d rm (Some w) payload"
  have sl: "\<And>a. pub_file x a \<Longrightarrow> file_slot t0 ?D ((d @ [VERSIONS, w]) @ [a])" using slot_marker [OF b] by simp
  have "keeps x (within t0 ?D) (atomic_write ((d @ [VERSIONS, w]) @ [nm]) c)" if "nm = BLOB \<or> nm = META" for nm c
    using that by (intro keeps_write_slot [OF b dirs_marker _ sl] file_slotD [OF sl]) auto
  with Some m show ?thesis
    by (auto simp: write_marker_def write_object_metadata_def validate_version_id_def Let_def of_result_def
        intro!: keeps_bind keeps_guard keeps_create_directory dirs_marker)
qed

lemma keeps_clear_current:
  assumes b: "frame_base x t0 d payload"
  shows "keeps x (kept x t0 d rm mv payload) (clear_current_files d)"
  unfolding clear_current_files_def
proof (intro keeps_for_each keeps_bind keeps_gets keeps_when keeps_remove_file keeps_sync_directory)
  fix name
  assume "name \<in> set [BLOB, META]"
  then have "pub_file x name" by auto
  from file_slotD [OF slot_current [OF b this]] show "pub_frame x d rm mv payload (d @ [name]) None" by simp
qed

lemma keeps_history:
  assumes b: "frame_base x t0 d payload" and r: "pub_remove_versions r = rm" "Option.bind (pub_marker r) obj_version_id = mv"
  shows "keeps x (kept x t0 d rm mv payload) (apply_history_changes d r)"
  unfolding apply_history_changes_def
proof (intro keeps_bind keeps_for_each keeps_when keeps_clear_current [OF b] keeps_retire)
  show "keeps x (kept x t0 d rm mv payload) (case pub_marker r of None \<Rightarrow> return () | Some marker \<Rightarrow> write_marker d marker)"
    using r keeps_marker [OF b] by (auto simp: keeps_rules split: option.splits)
next
  fix w q
  assume "w \<in> set (pub_remove_versions r)" "prefix (d @ [VERSIONS, w]) q"
  with r show "pub_frame x d rm mv payload q None" by (auto simp: pub_frame_def)
qed

lemma keeps_validate: "keeps x W (validate_publication r stage)"
  unfolding validate_publication_def validate_version_id_def
  by (intro keeps_bind keeps_guard keeps_for_each keeps_when)
    (auto intro!: keeps_bind keeps_rules split: option.splits content.splits)

lemma keeps_case_content:
  assumes "\<And>r. c = PublicationJson r \<Longrightarrow> keeps x W (f r)"
  shows "keeps x W (bind_io (case c of PublicationJson r \<Rightarrow> return r | _ \<Rightarrow> throw e) f)"
  using assms by (auto simp: keeps_rules split: content.splits)

text \<open>The journal, when it is there, is the one of this publication.\<close>

lemma keeps_apply:
  assumes b: "frame_base x t0 d payload"
  shows "keeps x (kept x t0 d rm mv payload) (apply_publication d)"
  unfolding apply_publication_def Let_def
proof (intro keeps_read_file_bind keeps_case_content keeps_gets_ext)
  fix c t r
  assume "kept x t0 d rm mv payload t" "t (d @ [JOURNAL]) = Some (File c)" and c: "c = PublicationJson r"
  then have "pub_frame x d rm mv payload (d @ [JOURNAL]) (Some (File (PublicationJson r)))"
    using b by (auto simp: within_def frame_base_def) (metis option.discI)
  then have r: "pub_remove_versions r = rm" "Option.bind (pub_marker r) obj_version_id = mv"
    by (auto simp: pub_frame_def pub_file_def dest: temp_names)
  have st: "pub_frame x d rm mv payload q None" if "is_stage x (pub_stage r)" "prefix (d @ [pub_stage r]) q" for q
    using that unfolding pub_frame_def by blast
  have j: "pub_frame x d rm mv payload (d @ [JOURNAL]) None" by (simp add: pub_frame_def)
  show "keeps x (kept x t0 d rm mv payload) (then_io (guard_io (is_stage x (pub_stage r)) (InternalError ''Invalid object publication staging identity''))
         (then_io (validate_publication r (d @ [pub_stage r]))
         (then_io (when_io (pub_publish r)
            (then_io (publish_staged_file ((d @ [pub_stage r]) @ [BLOB]) (d @ [BLOB]))
              (publish_staged_file ((d @ [pub_stage r]) @ [META]) (d @ [META]))))
         (then_io (apply_history_changes d r)
         (then_io (remove_file (d @ [JOURNAL]) ''Failed to retire publication journal'')
         (then_io (sync_directory d)
         (then_io (remove_dir_all (d @ [pub_stage r]) ''Failed to clean committed publication'')
           (sync_directory d))))))))"
  proof (cases "is_stage x (pub_stage r)")
    case True
    with st j show ?thesis
      by (intro keeps_bind keeps_guard keeps_validate keeps_when keeps_publish_staged [OF b] keeps_history [OF b r]
          keeps_remove_file keeps_sync_directory keeps_remove_dir_all pub_file_simps)
  qed (simp add: guard_io_def keeps_rules)
qed

lemma keeps_clean:
  assumes b: "frame_base x t0 d payload"
  shows "keeps x (kept x t0 d rm mv payload) (clean_uncommitted_stages d)"
  unfolding clean_uncommitted_stages_def
proof (intro keeps_bind [OF keeps_read_dir] keeps_gets_ext keeps_for_each)
  fix name
  have "pub_frame x d rm mv payload q None" if "is_stage x name" "prefix (d @ [name]) q" for q
    using that unfolding pub_frame_def by blast
  moreover have "pub_frame x d rm mv payload (d @ [name]) None" if "publication_temp x name"
    using that file_slotD [OF slot_current [OF b]] by (simp add: pub_file_def)
  ultimately show "keeps x (kept x t0 d rm mv payload)
      (if is_stage x name then
         then_io (remove_dir_all (d @ [name]) ''Failed to remove uncommitted publication'') (sync_directory d)
       else if publication_temp x name then
         then_io (remove_file (d @ [name]) ''remove_file'') (sync_directory d)
       else return ())"
    by (auto intro!: keeps_bind keeps_remove_dir_all keeps_remove_file keeps_sync_directory keeps_return)
qed

lemma keeps_recover:
  assumes b: "frame_base x t0 d payload"
  shows "keeps x (kept x t0 d rm mv payload) (recover_publication d)"
  unfolding recover_publication_def
proof (rule keeps_gets_bind)
  fix there
  show "keeps x (kept x t0 d rm mv payload)
      (if \<not> there then return ()
       else bind_io (gets (\<lambda>s. path_exists s (d @ [JOURNAL]))) (\<lambda>journal.
         then_io (when_io journal (apply_publication d)) (clean_uncommitted_stages d)))"
    by (auto intro!: keeps_return keeps_gets_bind keeps_bind keeps_when keeps_apply [OF b] keeps_clean [OF b])
qed

lemma keeps_commit:
  assumes b: "frame_base x t0 d payload" and r: "pub_remove_versions r = rm" "Option.bind (pub_marker r) obj_version_id = mv"
  shows "keeps x (kept x t0 d rm mv payload) (commit_publication d r)"
proof -
  have "Option.bind (map_option serialize_object (pub_marker r)) obj_version_id = mv" using r by (cases "pub_marker r") auto
  with r have "pub_frame x d rm mv payload (d @ [JOURNAL]) (Some (File (PublicationJson (serialize_publication r))))"
    by (auto simp: pub_frame_def serialize_publication_def)
  then have j: "keeps x (kept x t0 d rm mv payload) (atomic_write (d @ [JOURNAL]) (PublicationJson (serialize_publication r)))"
    by (intro keeps_write_slot [OF b dirs_current _ slot_current [OF b]]) auto
  show ?thesis
    unfolding commit_publication_def
    by (intro keeps_bind keeps_try keeps_validate keeps_case_res j keeps_gets keeps_apply [OF b] keeps_clean [OF b]
        keeps_recover [OF b] keeps_return keeps_throw keeps_if)
qed

lemma keeps_spooled:
  assumes b: "frame_base x t0 d (Spooled p)" and st: "is_stage x st"
  shows "keeps x (kept x t0 d rm mv (Spooled p)) (atomic_move p ((d @ [st]) @ [BLOB]))"
proof -
  let ?D = "pub_frame x d rm mv (Spooled p)"
  have p: "\<not> prefix d p" "\<not> prefix p d" "t0 p \<noteq> Some Dir" using b by (auto simp: frame_base_def)
  have none: "?D p None" by (simp add: pub_frame_def)
  have "t p \<noteq> Some Dir" if "within t0 ?D t" for t
  proof -
    have "t p = t0 p \<or> ?D p (t p)" using that by (simp add: within_def)
    with p show ?thesis by (auto simp: pub_frame_def)
  qed
  moreover have sl: "\<And>a. pub_file x a \<Longrightarrow> file_slot t0 ?D ((d @ [st]) @ [a])" using slot_stage [OF b _ st] by simp
  moreover have "keeps x (within t0 ?D) (atomic_copy p ((d @ [st]) @ [BLOB]))"
    by (rule keeps_copy_slot [OF b dirs_stage [OF st] _ sl]) auto
  moreover have "?D ((d @ [st]) @ [BLOB]) (Some (File c))" for c by (rule file_slotD [OF sl]) auto
  ultimately show ?thesis
    unfolding atomic_move_def parent_snoc
    by (auto intro!: keeps_bind keeps_create_directory dirs_stage [OF st] keeps_try keeps_rename keeps_remove_file none
        keeps_sync_path keeps_sync_directory keeps_when keeps_case_res keeps_return)
qed

lemma keeps_stage_payload:
  assumes b: "frame_base x t0 d payload" and st: "is_stage x st"
  shows "keeps x (kept x t0 d rm mv payload) (stage_payload payload ob ((d @ [st]) @ [BLOB]))"
proof -
  have sl: "\<And>a. pub_file x a \<Longrightarrow> file_slot t0 (pub_frame x d rm mv payload) ((d @ [st]) @ [a])"
    using slot_stage [OF b _ st] by simp
  show ?thesis
    unfolding stage_payload_def
  proof (cases payload; simp only: object_payload.case)
    case InMemory
    show "keeps x (kept x t0 d rm mv InMemory) (atomic_write ((d @ [st]) @ [BLOB]) (Bytes (obj_data ob)))"
      unfolding InMemory [symmetric]
      by (intro keeps_write_slot [OF b dirs_stage [OF st] _ sl] file_slotD [OF sl]) auto
  next
    case (Spooled p)
    with b keeps_spooled [OF _ st] show "keeps x (kept x t0 d rm mv (Spooled p)) (atomic_move p ((d @ [st]) @ [BLOB]))" by simp
  next
    case (Stored p)
    show "keeps x (kept x t0 d rm mv (Stored p)) (stage_stored_payload p ((d @ [st]) @ [BLOB]))"
      unfolding Stored [symmetric]
      by (intro keeps_stage_stored [OF b dirs_stage [OF st] _ sl]) auto
  qed
qed

lemma keeps_stage_meta:
  assumes b: "frame_base x t0 d payload" and st: "is_stage x st"
  shows "keeps x (kept x t0 d rm mv payload) (write_object_metadata ((d @ [st]) @ [META]) ob)"
proof -
  have sl: "\<And>a. pub_file x a \<Longrightarrow> file_slot t0 (pub_frame x d rm mv payload) ((d @ [st]) @ [a])"
    using slot_stage [OF b _ st] by simp
  show ?thesis
    unfolding write_object_metadata_def
    by (intro keeps_write_slot [OF b dirs_stage [OF st] _ sl] file_slotD [OF sl]) auto
qed

lemma keeps_program:
  assumes b: "frame_base x t0 d payload"
    and R: "\<And>u. pub_stage (R u) = STAGE_PREFIX @ u" "\<And>u. pub_remove_versions (R u) = rm"
      "\<And>u. Option.bind (pub_marker (R u)) obj_version_id = mv"
    and S: "\<And>st. is_stage x st \<Longrightarrow> keeps x (kept x t0 d rm mv payload) (S (d @ [st]))"
  shows "keeps x (kept x t0 d rm mv payload) (publication_program d R S)"
proof -
  have st: "is_stage x (STAGE_PREFIX @ ext_uuid x n)" for n
    using b by (simp add: frame_base_def stage_is_stage)
  have "keeps x (kept x t0 d rm mv payload) (let stage = d @ [pub_stage (R (ext_uuid x n))] in
      then_io (create_directory_durable stage) (then_io (S stage) (commit_publication d (R (ext_uuid x n)))))" for n
    unfolding Let_def R(1)
    by (intro keeps_bind keeps_create_directory dirs_stage st S keeps_commit [OF b R(2,3)])
  then show ?thesis
    unfolding publication_program_def
    by (auto intro!: keeps_bind [OF keeps_recover [OF b]] keeps_bind [OF keeps_create_directory [OF dirs_current]]
        keeps_new_uuid simp: Let_def)
qed

lemma publish_pair_frame:
  assumes b: "frame_base (ext s) (fs_get s) d payload" and wf: "tree_wf (fs_get s)" "faults s = []"
    and run: "publish_pair d ob payload s = (r, s1)"
  shows "kept (ext s) (fs_get s) d (if obj_version_id ob = Some ''null'' \<and> current_directory d then [''null''] else [])
      None payload (fs_get s1)" and "rest_same s s1" and "faults s1 = []"
proof -
  let ?rm = "if obj_version_id ob = Some ''null'' \<and> current_directory d then [''null''] else []"
  have "keeps (ext s) (kept (ext s) (fs_get s) d ?rm None payload) (publish_pair d ob payload)"
    unfolding publish_pair_program
    by (intro keeps_program [OF b] keeps_bind keeps_stage_payload [OF b] keeps_stage_meta [OF b])
      (auto simp: pair_record_def)
  note k = keepsD [OF this run refl wf(2)]
  have "kept (ext s) (fs_get s) d ?rm None payload (fs_get s)" using wf(1) by (simp add: within_def)
  from k [OF this] show "kept (ext s) (fs_get s) d ?rm None payload (fs_get s1)" "rest_same s s1" "faults s1 = []" by blast+
qed

lemma change_history_frame:
  assumes b: "frame_base (ext s) (fs_get s) d InMemory" and wf: "tree_wf (fs_get s)" "faults s = []"
    and run: "change_history d promoted rm mk cl s = (r, s1)"
  shows "kept (ext s) (fs_get s) d rm (Option.bind mk obj_version_id) InMemory (fs_get s1)"
    and "rest_same s s1" and "faults s1 = []"
proof -
  let ?mv = "Option.bind mk obj_version_id" let ?W = "kept (ext s) (fs_get s) d rm ?mv InMemory"
  have S: "keeps (ext s) ?W (case promoted of
            None \<Rightarrow> return ()
          | Some (ob, p) \<Rightarrow>
              then_io (stage_stored_payload p ((d @ [st]) @ [BLOB])) (write_object_metadata ((d @ [st]) @ [META]) ob))"
    if st: "is_stage (ext s) st" for st
  proof -
    have sl: "\<And>a. pub_file (ext s) a \<Longrightarrow> file_slot (fs_get s) (pub_frame (ext s) d rm ?mv InMemory) ((d @ [st]) @ [a])"
      using slot_stage [OF b _ st] by simp
    show ?thesis
      by (auto split: option.splits prod.splits
          intro!: keeps_return keeps_bind keeps_stage_meta [OF b st, simplified] keeps_stage_stored [OF b dirs_stage [OF st] _ sl, simplified])
  qed
  have "keeps (ext s) ?W (change_history d promoted rm mk cl)"
    unfolding change_history_program
    by (rule keeps_program [OF b]) (simp_all only: history_record_def publication.simps S)
  note k = keepsD [OF this run refl wf(2)]
  have "?W (fs_get s)" using wf(1) by (simp add: within_def)
  from k [OF this] show "?W (fs_get s1)" "rest_same s s1" "faults s1 = []" by blast+
qed

end
