(* ===== verification/Versions.thy ===== *)
theory Versions
  imports Store "HOL-Library.Option_ord" "HOL-Library.Product_Lexorder"
begin

text \<open>
  Object versions (\<^verbatim>\<open>VersionStore\<close> of \<^verbatim>\<open>src/src/storage/filesystem.rs\<close>): the versioning state of a
  bucket, reading and listing versions, and deleting one of them. \<^verbatim>\<open>sort_unstable_by\<close> may order
  equal elements either way; the model keeps their order.
\<close>

section \<open>Versioning state\<close>

definition assign_null_version_id :: "path \<Rightarrow> string \<Rightarrow> unit io" where
  "assign_null_version_id dir name =
     bind_io (gets (\<lambda>s. is_dir s (dir @ [name]))) (\<lambda>d.
     when_io (d \<and> \<not> prefix ''.'' name)
       (bind_io (try_io (read_object_metadata (dir @ [name, META]))) (\<lambda>r.
        when_io (is_ok r)
          (then_io (recover_publication (dir @ [name]))
          (bind_io (try_io (read_object_metadata (dir @ [name, META]))) (\<lambda>c.
           case c of
             Err _ \<Rightarrow> return ()
           | Ok current \<Rightarrow>
               when_io (obj_version_id current = None)
                 (write_object_metadata (dir @ [name, META]) (current\<lparr>obj_version_id := Some ''null''\<rparr>))))))))"

definition assign_null_version_ids_to_unversioned_objects :: "string \<Rightarrow> unit io" where
  "assign_null_version_ids_to_unversioned_objects bucket =
     bind_io (gets (\<lambda>s. bucket_dir s bucket)) (\<lambda>dir.
     bind_io (read_dir dir ''Failed to scan bucket while configuring versioning'') (\<lambda>names.
     for_each names (assign_null_version_id dir)))"

definition set_versioning :: "string \<Rightarrow> string \<Rightarrow> unit io" where
  "set_versioning bucket state =
     then_io (require_bucket bucket)
     (bind_io (gets (\<lambda>s. versioning_marker s bucket)) (\<lambda>marker.
      bind_io (gets (\<lambda>s. file_content s marker \<noteq> Some (Bytes (text_bytes state)))) (\<lambda>changed.
      then_io (atomic_write marker (Bytes (text_bytes state)))
      (then_io (assign_null_version_ids_to_unversioned_objects bucket)
        (when_io changed (touch_bucket_identity bucket))))))"

definition enable_versioning :: "string \<Rightarrow> unit io" where
  "enable_versioning bucket = set_versioning bucket ''enabled''"

definition suspend_versioning :: "string \<Rightarrow> unit io" where
  "suspend_versioning bucket = set_versioning bucket ''suspended''"

section \<open>Reading a version\<close>

definition not_found_as_no_version :: "error \<Rightarrow> error" where
  "not_found_as_no_version e = (if e = KeyNotFound then NoSuchVersion else e)"

definition get_object_version :: "string \<Rightarrow> string \<Rightarrow> string \<Rightarrow> object io" where
  "get_object_version bucket key v =
     then_io (require_bucket bucket)
     (then_io (validate_version_id v)
     (bind_io (gets (\<lambda>s. object_dir s bucket key)) (\<lambda>dir.
      then_io (recover_publication dir)
      (then_io (recover_publication (dir @ [VERSIONS, v]))
      (bind_io (gets (\<lambda>s. path_exists s (dir @ [VERSIONS, v, BLOB]))) (\<lambda>there.
       if \<not> there then
         bind_io (map_error not_found_as_no_version (read_object_locked bucket key)) (\<lambda>current.
         if obj_version_id current = Some v then return current else throw NoSuchVersion)
       else
         bind_io (read_object_metadata (dir @ [VERSIONS, v, META])) (\<lambda>ob.
         bind_io (read_bytes (dir @ [VERSIONS, v, BLOB]) ''Failed to read version'') (\<lambda>data.
         return (ob\<lparr>obj_data := data, obj_version_id := Some v\<rparr>)))))))))"

definition read_version_metadata_and_path_locked :: "string \<Rightarrow> string \<Rightarrow> string \<Rightarrow> (object \<times> path) io" where
  "read_version_metadata_and_path_locked bucket key v =
     then_io (require_bucket bucket)
     (then_io (validate_version_id v)
     (bind_io (gets (\<lambda>s. object_dir s bucket key)) (\<lambda>dir.
      then_io (recover_publication dir)
      (then_io (recover_publication (dir @ [VERSIONS, v]))
      (bind_io (gets (\<lambda>s. path_exists s (dir @ [VERSIONS, v, BLOB]))) (\<lambda>there.
       bind_io
         (if there then
            bind_io (read_object_metadata (dir @ [VERSIONS, v, META])) (\<lambda>ob.
            return (ob, dir @ [VERSIONS, v, BLOB]))
          else
            bind_io (map_error not_found_as_no_version (read_object_metadata_locked bucket key)) (\<lambda>ob.
            if obj_version_id ob \<noteq> Some v then throw NoSuchVersion
            else return (ob, dir @ [BLOB]))) (\<lambda>(ob, path).
       return (ob\<lparr>obj_version_id := Some v\<rparr>, path))))))))"

definition get_object_version_metadata :: "string \<Rightarrow> string \<Rightarrow> string \<Rightarrow> object io" where
  "get_object_version_metadata bucket key v =
     bind_io (read_version_metadata_and_path_locked bucket key v) (\<lambda>r. return (fst r))"

definition get_object_version_range ::
    "string \<Rightarrow> string \<Rightarrow> string \<Rightarrow> nat \<Rightarrow> nat option \<Rightarrow> (object \<times> bytes) io" where
  "get_object_version_range bucket key v start end_opt =
     bind_io (read_version_metadata_and_path_locked bucket key v) (\<lambda>(ob, path).
     then_io (guard_io (\<not> obj_size ob \<le> start) (InvalidRequest ''Range start beyond file size''))
     (let range_end = min (case end_opt of None \<Rightarrow> obj_size ob - 1 | Some e \<Rightarrow> e) (obj_size ob - 1) in
      then_io (guard_io (\<not> range_end < start) (InvalidRequest ''Invalid range: end < start''))
      (bind_io (read_exact_at path start (range_end - start + 1)) (\<lambda>data. return (ob, data)))))"

section \<open>Listing versions\<close>

text \<open>\<^verbatim>\<open>dedup_by\<close>: an element is dropped when it matches the one kept before it.\<close>

fun dedup_by :: "('a \<Rightarrow> 'a \<Rightarrow> bool) \<Rightarrow> 'a list \<Rightarrow> 'a list" where
  "dedup_by same [] = []"
| "dedup_by same [x] = [x]"
| "dedup_by same (x # y # ys) =
     (if same y x then dedup_by same (x # ys) else x # dedup_by same (y # ys))"

text \<open>The metadata of the version directories below \<open>versions\<close> that satisfy \<open>keep\<close>.\<close>

definition collect_versions :: "path \<Rightarrow> (object \<Rightarrow> bool) \<Rightarrow> object list io" where
  "collect_versions versions keep =
     bind_io (gets (\<lambda>s. if is_dir s versions then dir_entries s versions else [])) (\<lambda>names.
     collect_io names (\<lambda>name.
       bind_io (gets (\<lambda>s. is_dir s (versions @ [name]))) (\<lambda>d.
       if \<not> d then return None
       else
         then_io (recover_publication (versions @ [name]))
         (bind_io (try_io (read_object_metadata (versions @ [name, META]))) (\<lambda>r.
          return (case r of Ok ob \<Rightarrow> if keep ob then Some ob else None | Err _ \<Rightarrow> None))))))"

text \<open>The current metadata, if it can be read and satisfies \<open>keep\<close>.\<close>

definition collect_current :: "path \<Rightarrow> (object \<Rightarrow> bool) \<Rightarrow> object list io" where
  "collect_current dir keep =
     bind_io (try_io (read_object_metadata (dir @ [META]))) (\<lambda>r.
     return (case r of Ok ob \<Rightarrow> if keep ob \<and> obj_version_id ob \<noteq> None then [ob] else [] | Err _ \<Rightarrow> []))"

definition list_object_versions_for_key :: "string \<Rightarrow> string \<Rightarrow> object list io" where
  "list_object_versions_for_key bucket key =
     then_io (require_bucket bucket)
     (bind_io (gets (\<lambda>s. object_dir s bucket key)) (\<lambda>dir.
      then_io (recover_publication dir)
      (bind_io (gets (\<lambda>s. path_exists s dir)) (\<lambda>there.
       if \<not> there then return []
       else
         bind_io (collect_current dir (\<lambda>ob. obj_key ob = key)) (\<lambda>current.
         bind_io (collect_versions (dir @ [VERSIONS]) (\<lambda>ob. obj_key ob = key)) (\<lambda>old.
         return (dedup_by (\<lambda>l r. obj_version_id l = obj_version_id r)
           (sort_key obj_version_id (current @ old)))))))))"

definition list_object_versions :: "string \<Rightarrow> string option \<Rightarrow> object list io" where
  "list_object_versions bucket prefix_opt =
     then_io (require_bucket bucket)
     (let pfx = (case prefix_opt of Some p \<Rightarrow> p | None \<Rightarrow> []) in
      bind_io (gets (\<lambda>s. bucket_dir s bucket)) (\<lambda>bucket_path.
      bind_io (gets (\<lambda>s. if is_dir s bucket_path then dir_entries s bucket_path else [])) (\<lambda>names.
      bind_io (collect_io names (\<lambda>name.
        bind_io (gets (\<lambda>s. is_dir s (bucket_path @ [name]))) (\<lambda>d.
        if \<not> d \<or> prefix ''.'' name then return None
        else
          then_io (recover_publication (bucket_path @ [name]))
          (bind_io (collect_current (bucket_path @ [name]) (\<lambda>ob. prefix pfx (obj_key ob))) (\<lambda>current.
           bind_io (collect_versions (bucket_path @ [name, VERSIONS]) (\<lambda>ob. prefix pfx (obj_key ob))) (\<lambda>old.
           return (Some (current @ old)))))))) (\<lambda>groups.
      return (dedup_by (\<lambda>l r. obj_key l = obj_key r \<and> obj_version_id l = obj_version_id r)
        (sort_key (\<lambda>ob. (obj_key ob, obj_version_id ob)) (concat groups)))))))"

section \<open>Deleting a version\<close>

text \<open>\<^verbatim>\<open>max_by\<close>: the last of the greatest elements.\<close>

fun latest_version :: "object list \<Rightarrow> object option" where
  "latest_version [] = None"
| "latest_version (ob # obs) =
     (case latest_version obs of
        None \<Rightarrow> Some ob
      | Some m \<Rightarrow>
          if (obj_last_modified ob, obj_version_id ob) \<le> (obj_last_modified m, obj_version_id m)
          then Some m else Some ob)"

definition is_delete_marker :: "object \<Rightarrow> bool" where
  "is_delete_marker ob \<longleftrightarrow> obj_provider_metadata ob ''s3_delete_marker'' = Some ''true''"

definition version_entries_exist :: "path \<Rightarrow> bool io" where
  "version_entries_exist dir =
     bind_io (gets (\<lambda>s. path_exists s (dir @ [VERSIONS]))) (\<lambda>there.
     if \<not> there then return False
     else bind_io (read_dir (dir @ [VERSIONS]) ''Failed to read versions dir'') (\<lambda>names. return (names \<noteq> [])))"

definition delete_object_version :: "string \<Rightarrow> string \<Rightarrow> string \<Rightarrow> unit io" where
  "delete_object_version bucket key v =
     then_io (require_bucket bucket)
     (then_io (validate_version_id v)
     (bind_io (gets (\<lambda>s. object_dir s bucket key)) (\<lambda>dir.
      then_io (recover_publication dir)
      (bind_io (try_io (read_object_metadata_locked bucket key)) (\<lambda>r.
       bind_io (case r of
                  Ok ob \<Rightarrow> return (Some ob)
                | Err e \<Rightarrow> if e = KeyNotFound then return None else throw e) (\<lambda>current.
       bind_io (gets (\<lambda>s. path_exists s (dir @ [VERSIONS, v, BLOB]))) (\<lambda>historical_exists.
       let deleting_current = (case current of Some ob \<Rightarrow> obj_version_id ob = Some v | None \<Rightarrow> False) in
       then_io (guard_io (historical_exists \<or> deleting_current) NoSuchVersion)
       (bind_io
         (if deleting_current \<or> current = None then
            bind_io (list_object_versions_for_key bucket key) (\<lambda>versions.
            return (latest_version (filter (\<lambda>ob. obj_version_id ob \<noteq> Some v) versions)))
          else return None) (\<lambda>latest.
        bind_io
          (case latest of
             None \<Rightarrow> return None
           | Some ob \<Rightarrow>
               if is_delete_marker ob then return None
               else
                 bind_io (of_result (ok_or (InternalError ''Historical object is missing version identity'')
                            (obj_version_id ob))) (\<lambda>i. return (Some (ob, i)))) (\<lambda>promoted.
        then_io (case promoted of Some (ob, _) \<Rightarrow> admit_azure_protection bucket ob | None \<Rightarrow> return ())
        (then_io
          (change_history dir
            (map_option (\<lambda>(ob, i). (ob, dir @ [VERSIONS, i, BLOB])) promoted)
            (v # (case promoted of Some (_, i) \<Rightarrow> [i] | None \<Rightarrow> []))
            None
            (promoted = None \<and> (deleting_current \<or> current = None)))
        (bind_io (gets (\<lambda>s. path_exists s (dir @ [BLOB]))) (\<lambda>there.
         if there then index_add bucket key
         else
           then_io (index_drop bucket key)
           (bind_io (version_entries_exist dir) (\<lambda>more.
            when_io (\<not> more)
              (then_io (remove_dir_all dir ''remove_dir_all'')
                (bind_io (gets (\<lambda>s. bucket_dir s bucket)) sync_directory)))))))))))))))))"

end
