(* ===== verification/Store_Inv.thy ===== *)
theory Store_Inv
  imports Frames Versions
begin

text \<open>
  The invariant of the storage directories and what each operation on one object leaves of the
  others. \<open>store_ok\<close> says that every object directory and every version directory is consistent
  (no publication pending, the right kind of node under each name) and holds either a payload
  with its metadata, of the recorded size, or neither; and that the UUIDs of the library are UUIDs
  and can name a version.
\<close>

section \<open>The invariant\<close>

definition paired :: "world \<Rightarrow> path \<Rightarrow> bool" where
  "paired s d \<longleftrightarrow>
     (file_content s (d @ [BLOB]) = None \<and> file_content s (d @ [META]) = None) \<or>
     (\<exists>data m. file_content s (d @ [BLOB]) = Some (Bytes data) \<and> file_content s (d @ [META]) = Some (ObjectJson m) \<and>
        obj_size m = length data \<and> serialize_object m = m)"

definition sound_dir :: "world \<Rightarrow> path \<Rightarrow> bool" where
  "sound_dir s d \<longleftrightarrow> consistent s d \<and> paired s d"

definition store_ok :: "world \<Rightarrow> bool" where
  "store_ok s \<longleftrightarrow>
     uuids_valid (ext s) \<and> (\<forall>n. version_id_ok (ext_uuid (ext s) n)) \<and> tree_wf (fs_get s) \<and>
     (\<forall>b k. sound_dir s (object_dir s b k) \<and> (\<forall>v. sound_dir s (object_dir s b k @ [VERSIONS, v])))"

text \<open>The object a directory holds: its metadata with its payload.\<close>

definition held :: "world \<Rightarrow> path \<Rightarrow> object option" where
  "held s d =
     (case (file_content s (d @ [BLOB]), file_content s (d @ [META])) of
        (Some (Bytes data), Some (ObjectJson m)) \<Rightarrow> Some (m\<lparr>obj_data := data\<rparr>)
      | _ \<Rightarrow> None)"

lemma object_dir_rest: "rest_same s s' \<Longrightarrow> object_dir s' b k = object_dir s b k"
  by (simp add: rest_same_def object_dir_def object_id_dir_def bucket_dir_def)

lemma object_dirs_apart: "prefix (object_dir s b k) q \<Longrightarrow> prefix (object_dir s b' k') q \<Longrightarrow> object_dir s b k = object_dir s b' k'"
proof -
  assume a: "prefix (object_dir s b k) q" "prefix (object_dir s b' k') q"
  have "length (object_dir s b k) = length (object_dir s b' k')"
    by (simp add: object_dir_def object_id_dir_def bucket_dir_def)
  with a show ?thesis by (metis prefix_same_cases not_equal_is_parallel parallel_def)
qed

lemma object_dir_not_Nil [simp]: "object_dir s b k \<noteq> []"
  by (simp add: object_dir_def object_id_dir_def)

text \<open>A directory whose nodes are as before stays sound.\<close>

lemma sound_dir_unchanged:
  assumes d: "sound_dir s d" and wf: "tree_wf (fs_get s1)" and x: "ext s1 = ext s"
    and below: "\<And>q. fs_get s1 (d @ q) = fs_get s (d @ q)"
    and above: "\<And>q c. prefix q d \<Longrightarrow> q \<noteq> d \<Longrightarrow> fs_get s1 q \<noteq> Some (File c)"
  shows "sound_dir s1 d" and "held s1 d = held s d"
proof -
  have c: "consistent s d" and p: "paired s d" using d by (auto simp: sound_dir_def)
  have f: "file_content s1 (d @ q) = file_content s (d @ q)" for q by (simp add: file_content_def below)
  have "fs_get s1 q \<noteq> Some (File c')" if "prefix q d" for q c'
  proof (cases "q = d")
    case True
    with below [of "[]"] c show ?thesis by (auto simp: consistent_def base_ok_def)
  qed (use above that in auto)
  then have "base_ok d (fs_get s1)"
    using c wf by (auto simp: base_ok_def consistent_def tree_wf_def)
  moreover have "kinds_ok (ext s1) d (fs_get s1)"
    using c below [of "[]"] below [of "_ # _"] by (simp add: consistent_def kinds_ok_def x below)
  moreover have "\<not> path_exists s1 (d @ [JOURNAL])" using c by (simp add: consistent_def path_exists_def below)
  ultimately show "sound_dir s1 d" using p by (simp add: sound_dir_def consistent_def paired_def f)
  show "held s1 d = held s d" by (simp add: held_def f)
qed

section \<open>Publications and the other directories\<close>

lemma kept_cases:
  assumes "kept x t d rm mv payload t1"
  shows "t1 q = t q \<or> (prefix q d \<and> t1 q = Some Dir) \<or> strict_prefix d q \<or> (payload = Spooled q \<and> t1 q = None)"
proof -
  have "t1 q = t q \<or> pub_frame x d rm mv payload q (t1 q)" using assms by (simp add: within_def)
  then show ?thesis
    unfolding pub_frame_def
    by (elim disjE conjE exE bexE) (auto simp: prefix_def strict_prefix_def)
qed

text \<open>The spooled payload lies outside the object directories.\<close>

definition spool_outside :: "world \<Rightarrow> object_payload \<Rightarrow> bool" where
  "spool_outside s payload \<longleftrightarrow>
     (\<forall>p b k. payload = Spooled p \<longrightarrow> \<not> prefix (object_dir s b k) p \<and> \<not> prefix p (object_dir s b k))"

lemma other_object_sound:
  assumes k: "kept (ext s) (fs_get s) d rm mv payload (fs_get s1)" and rest: "rest_same s s1"
    and d: "prefix (object_dir s b k) d" and d': "prefix (object_dir s b' k') d'" "object_dir s b' k' \<noteq> object_dir s b k"
    and spool: "spool_outside s payload" and sound: "sound_dir s d'"
  shows "sound_dir s1 d' \<and> held s1 d' = held s d'"
proof -
  have wf: "tree_wf (fs_get s1)" using k by (simp add: within_def)
  have apart: "\<not> prefix d q" "\<not> prefix q d" if "prefix d' q" for q
    using that d d' object_dirs_apart [of s b k q b' k'] object_dirs_apart [of s b k d b' k']
    by (metis prefix_order.trans)+
  have below: "fs_get s1 (d' @ q) = fs_get s (d' @ q)" for q
  proof -
    have "prefix (object_dir s b' k') (d' @ q)" using d'(1) by (auto simp: prefix_def)
    then have "payload \<noteq> Spooled (d' @ q)" using spool by (auto simp: spool_outside_def)
    with kept_cases [OF k, of "d' @ q"] apart [of "d' @ q"] show ?thesis by (auto simp: strict_prefix_def)
  qed
  have above: "fs_get s1 q \<noteq> Some (File c)" if "prefix q d'" "q \<noteq> d'" for q c
  proof -
    have old: "fs_get s q \<noteq> Some (File c)"
      using sound that by (auto simp: sound_dir_def consistent_def base_ok_def)
    have "\<not> strict_prefix d q"
      using that(1) apart(1) [of d'] by (auto simp: strict_prefix_def dest: prefix_order.trans)
    with kept_cases [OF k, of q] old show ?thesis by auto
  qed
  have "ext s1 = ext s" using rest by (simp add: rest_same_def)
  from sound_dir_unchanged [OF sound wf this below above] show ?thesis by blast
qed

text \<open>A version directory, after a publication at another version of the same object.\<close>

lemma other_version_sound:
  assumes k: "kept (ext s) (fs_get s) (c @ [VERSIONS, w]) rm mv payload (fs_get s1)" and rest: "rest_same s s1"
    and w: "w' \<noteq> w" and spool: "\<And>p. payload = Spooled p \<Longrightarrow> \<not> prefix c p" and sound: "sound_dir s (c @ [VERSIONS, w'])"
  shows "sound_dir s1 (c @ [VERSIONS, w']) \<and> held s1 (c @ [VERSIONS, w']) = held s (c @ [VERSIONS, w'])"
proof -
  have wf: "tree_wf (fs_get s1)" using k by (simp add: within_def)
  have below: "fs_get s1 ((c @ [VERSIONS, w']) @ q) = fs_get s ((c @ [VERSIONS, w']) @ q)" for q
    using kept_cases [OF k, of "(c @ [VERSIONS, w']) @ q"] w spool [of "(c @ [VERSIONS, w']) @ q"]
    by (auto simp: strict_prefix_def prefix_def)
  have above: "fs_get s1 q \<noteq> Some (File f)" if "prefix q (c @ [VERSIONS, w'])" "q \<noteq> c @ [VERSIONS, w']" for q f
  proof -
    have "fs_get s q \<noteq> Some (File f)"
      using sound that by (auto simp: sound_dir_def consistent_def base_ok_def)
    moreover have "\<not> strict_prefix (c @ [VERSIONS, w]) q"
      using that(1) w by (auto simp: strict_prefix_def prefix_def append_eq_append_conv2 Cons_eq_append_conv)
    ultimately show ?thesis using kept_cases [OF k, of q] by auto
  qed
  have "ext s1 = ext s" using rest by (simp add: rest_same_def)
  from sound_dir_unchanged [OF sound wf this below above] show ?thesis by blast
qed

lemma consistent_node: "consistent s d \<Longrightarrow> fs_get s (d @ q) = Some n \<Longrightarrow> node_ok (ext s) q n"
  using kinds_node [of "ext s" d "fs_get s" q n] by (simp add: consistent_def)

lemma tree_wf_ancestor_append: "tree_wf t \<Longrightarrow> t (p @ q) \<noteq> None \<Longrightarrow> t p \<noteq> None"
proof (induction q rule: rev_induct)
  case (snoc a q)
  then have "t (p @ q) = Some Dir" unfolding tree_wf_def
    by (metis append_assoc append_is_Nil_conv not_Cons_self2 parent_snoc)
  with snoc show ?case by simp
qed simp

lemma tree_wf_ancestor: "tree_wf t \<Longrightarrow> t q \<noteq> None \<Longrightarrow> prefix p q \<Longrightarrow> t p \<noteq> None"
  using tree_wf_ancestor_append by (metis prefixE)

text \<open>The object directory itself, after a publication at one of its versions.\<close>

lemma current_sound:
  assumes k: "kept (ext s) (fs_get s) (c @ [VERSIONS, w]) rm mv payload (fs_get s1)" and rest: "rest_same s s1"
    and spool: "\<And>p. payload = Spooled p \<Longrightarrow> \<not> prefix c p" and sound: "sound_dir s c"
    and v: "consistent s1 (c @ [VERSIONS, w])"
  shows "sound_dir s1 c \<and> held s1 c = held s c"
proof -
  let ?d = "c @ [VERSIONS, w]"
  have c: "consistent s c" "paired s c" using sound by (auto simp: sound_dir_def)
  have wf: "tree_wf (fs_get s1)" using k by (simp add: within_def)
  have x: "ext s1 = ext s" using rest by (simp add: rest_same_def)
  have same: "fs_get s1 (c @ q) = fs_get s (c @ q)" if "\<not> prefix [VERSIONS, w] q" "\<not> prefix q [VERSIONS, w]" for q
    using kept_cases [OF k, of "c @ q"] that spool [of "c @ q"] by (auto simp: strict_prefix_def)
  have up: "fs_get s1 q = fs_get s q \<or> fs_get s1 q = Some Dir \<or> fs_get s1 q = None" if "prefix q c" for q
    using kept_cases [OF k, of q] that by (auto simp: strict_prefix_def prefix_def)
  have v': "\<And>q n. fs_get s1 (?d @ q) = Some n \<Longrightarrow> node_ok (ext s) q n" "\<And>q f. prefix q ?d \<Longrightarrow> fs_get s1 q \<noteq> Some (File f)"
    using v x by (auto simp: consistent_def base_ok_def dest: kinds_node)
  have node: "node_ok (ext s) q n" if n: "fs_get s1 (c @ q) = Some n" for q n
  proof (cases "prefix [VERSIONS, w] q")
    case True
    then obtain r where q: "q = VERSIONS # w # r" by (auto simp: prefix_def)
    have "node_ok (ext s) r n" using v'(1) [of r n] n q by simp
    moreover have "r = [] \<Longrightarrow> n = Dir" using v'(2) [of ?d] n q by (cases n) auto
    ultimately show ?thesis unfolding q by (cases n; cases r; cases "tl r") auto
  next
    case False
    show ?thesis
    proof (cases "prefix q [VERSIONS, w]")
      case True
      with v'(2) [of "c @ q"] n have "n = Dir" by (cases n) auto
      with False True show ?thesis by (auto simp: prefix_Cons file_name_def dest: temp_names)
    next
      case other: False
      with same [OF False other] n consistent_node [OF c(1)] show ?thesis by simp
    qed
  qed
  have "kinds_ok (ext s1) c (fs_get s1)"
    unfolding kinds_ok_def x
  proof (intro conjI allI impI)
    fix u q
    assume "fs_get s1 (c @ VERSIONS # u # q) \<noteq> None"
    from tree_wf_ancestor [OF wf this, of "c @ [VERSIONS]"] tree_wf_ancestor [OF wf this, of "c @ [VERSIONS, u]"]
    show "fs_get s1 (c @ [VERSIONS]) \<noteq> None" "fs_get s1 (c @ [VERSIONS, u]) \<noteq> None" by auto
  qed (use node in auto)
  moreover have "base_ok c (fs_get s1)"
    using c(1) wf up by (fastforce simp: base_ok_def consistent_def tree_wf_def)
  moreover have f: "fs_get s1 (c @ [a]) = fs_get s (c @ [a])" if "a \<noteq> VERSIONS" for a using that by (intro same) auto
  ultimately show ?thesis
    using c f [of BLOB] f [of META] f [of JOURNAL]
    by (auto simp: sound_dir_def consistent_def paired_def held_def file_content_def path_exists_def)
qed

text \<open>A version directory, after a publication at the object directory.\<close>

lemma version_sound:
  assumes k: "kept (ext s) (fs_get s) c rm mv payload (fs_get s1)" and rest: "rest_same s s1"
    and spool: "\<And>p. payload = Spooled p \<Longrightarrow> \<not> prefix c p" and sound: "sound_dir s (c @ [VERSIONS, w])"
    and c: "consistent s1 c" and p: "paired s1 (c @ [VERSIONS, w])"
  shows "sound_dir s1 (c @ [VERSIONS, w])"
proof -
  let ?d = "c @ [VERSIONS, w]"
  have d: "consistent s ?d" using sound by (simp add: sound_dir_def)
  have wf: "tree_wf (fs_get s1)" using k by (simp add: within_def)
  have x: "ext s1 = ext s" using rest by (simp add: rest_same_def)
  have kind: "\<And>q n. fs_get s1 (c @ q) = Some n \<Longrightarrow> node_ok (ext s) q n"
    using c x by (auto simp: consistent_def dest: kinds_node)
  have cases: "fs_get s1 (?d @ q) = fs_get s (?d @ q) \<or> fs_get s1 (?d @ q) = None \<or> q = [] \<or>
      (\<exists>a. q = [a] \<and> pub_file (ext s) a)" for q
  proof -
    have "fs_get s1 (?d @ q) = fs_get s (?d @ q) \<or> pub_frame (ext s) c rm mv payload (?d @ q) (fs_get s1 (?d @ q))"
      using k by (simp add: within_def)
    with spool [of "?d @ q"] show ?thesis unfolding pub_frame_def by (auto dest: pub_file_names)
  qed
  have node: "node_ok (ext s) q n" if n: "fs_get s1 (?d @ q) = Some n" for q n
    using cases [of q]
  proof (elim disjE exE conjE)
    assume "fs_get s1 (?d @ q) = fs_get s (?d @ q)"
    with n consistent_node [OF d] show ?thesis by simp
  next
    assume "q = []"
    with n kind [of "[VERSIONS, w]" n] show ?thesis by (cases n) auto
  next
    fix a assume "q = [a]" "pub_file (ext s) a"
    with n kind [of "[VERSIONS, w, a]" n] pub_file_names [of "ext s" a] show ?thesis by (cases n) auto
  qed (use n in simp)
  have up: "fs_get s1 q \<noteq> Some (File f)" if q: "prefix q ?d" for q f
  proof (cases "prefix q c")
    case False
    with q have "q = c @ [VERSIONS] \<or> q = ?d" by (auto simp: prefix_def append_eq_append_conv2 Cons_eq_append_conv)
    with kind [of "[VERSIONS]" "File f"] kind [of "[VERSIONS, w]" "File f"] show ?thesis by auto
  qed (use c in \<open>auto simp: consistent_def base_ok_def\<close>)
  have "base_ok ?d (fs_get s1)" using up wf by (auto simp: base_ok_def tree_wf_def)
  moreover have "kinds_ok (ext s1) ?d (fs_get s1)"
    unfolding kinds_ok_def x
  proof (intro conjI allI impI)
    fix u q
    assume "fs_get s1 (?d @ VERSIONS # u # q) \<noteq> None"
    from tree_wf_ancestor [OF wf this, of "?d @ [VERSIONS]"] tree_wf_ancestor [OF wf this, of "?d @ [VERSIONS, u]"]
    show "fs_get s1 (?d @ [VERSIONS]) \<noteq> None" "fs_get s1 (?d @ [VERSIONS, u]) \<noteq> None" by auto
  qed (use node in auto)
  moreover have "\<not> path_exists s1 (?d @ [JOURNAL])"
    using cases [of "[JOURNAL]"] d pub_file_names [of "ext s" JOURNAL] by (auto simp: consistent_def path_exists_def)
  ultimately show ?thesis using p by (simp add: sound_dir_def consistent_def)
qed

section \<open>Steps\<close>

definition others_same :: "world \<Rightarrow> world \<Rightarrow> path \<Rightarrow> bool" where
  "others_same s s1 c \<longleftrightarrow>
     (\<forall>b k. object_dir s b k \<noteq> c \<longrightarrow>
        held s1 (object_dir s b k) = held s (object_dir s b k) \<and>
        (\<forall>v. held s1 (object_dir s b k @ [VERSIONS, v]) = held s (object_dir s b k @ [VERSIONS, v])))"

lemma others_same_trans: "others_same s s1 c \<Longrightarrow> others_same s1 s2 c \<Longrightarrow> rest_same s s1 \<Longrightarrow> others_same s s2 c"
  by (simp add: others_same_def object_dir_rest)

lemma others_same_refl [simp]: "others_same s s c"
  by (simp add: others_same_def)

lemma store_ok_dir: "store_ok s \<Longrightarrow> sound_dir s (object_dir s b k)" "store_ok s \<Longrightarrow> sound_dir s (object_dir s b k @ [VERSIONS, v])"
  by (simp_all add: store_ok_def)

text \<open>What a publication at or below one object directory leaves of the other objects.\<close>

lemma other_objects:
  assumes ok: "store_ok s" and k: "kept (ext s) (fs_get s) d rm mv payload (fs_get s1)" and rest: "rest_same s s1"
    and spool: "spool_outside s payload" and d: "prefix (object_dir s b k) d" and o: "object_dir s b' k' \<noteq> object_dir s b k"
  shows "sound_dir s1 (object_dir s b' k') \<and> held s1 (object_dir s b' k') = held s (object_dir s b' k')"
    and "sound_dir s1 (object_dir s b' k' @ [VERSIONS, w]) \<and>
      held s1 (object_dir s b' k' @ [VERSIONS, w]) = held s (object_dir s b' k' @ [VERSIONS, w])"
  by (rule other_object_sound [OF k rest d _ o spool]; simp add: store_ok_dir [OF ok])+

lemma store_okI:
  assumes "store_ok s" "rest_same s s1" "kept (ext s) (fs_get s) d rm mv payload (fs_get s1)"
    and "\<And>b k. sound_dir s1 (object_dir s b k)" "\<And>b k v. sound_dir s1 (object_dir s b k @ [VERSIONS, v])"
  shows "store_ok s1"
  using assms by (simp add: store_ok_def object_dir_rest within_def) (simp add: rest_same_def)

lemma store_ok_current_step:
  assumes ok: "store_ok s" and c: "c = object_dir s b k"
    and k: "kept (ext s) (fs_get s) c rm mv payload (fs_get s1)" and rest: "rest_same s s1"
    and spool: "spool_outside s payload"
    and d: "consistent s1 c" "paired s1 c" "\<And>w. paired s1 (c @ [VERSIONS, w])"
  shows "store_ok s1 \<and> others_same s s1 c"
proof -
  note dirs = store_ok_dir [OF ok]
  have pre: "prefix (object_dir s b k) c" by (simp add: c)
  note out = other_objects [OF ok k rest spool pre, folded c]
  have sp: "payload = Spooled p \<Longrightarrow> \<not> prefix c p" for p using spool c by (auto simp: spool_outside_def)
  have vs: "sound_dir s1 (c @ [VERSIONS, w])" for w
    using dirs(2) d by (intro version_sound [OF k rest sp]) (auto simp: c)
  have "sound_dir s1 (object_dir s b' k')" "sound_dir s1 (object_dir s b' k' @ [VERSIONS, v])" for b' k' v
    using out vs d(1,2) by (cases "object_dir s b' k' = c"; simp add: sound_dir_def)+
  from store_okI [OF ok rest k this] have "store_ok s1" .
  moreover have "others_same s s1 c" using out by (simp add: others_same_def)
  ultimately show ?thesis ..
qed

lemma store_ok_version_step:
  assumes ok: "store_ok s" and c: "c = object_dir s b k"
    and k: "kept (ext s) (fs_get s) (c @ [VERSIONS, w]) rm mv payload (fs_get s1)" and rest: "rest_same s s1"
    and spool: "spool_outside s payload" and d: "consistent s1 (c @ [VERSIONS, w])" "paired s1 (c @ [VERSIONS, w])"
  shows "store_ok s1 \<and> others_same s s1 c \<and> held s1 c = held s c \<and>
    (\<forall>w'. w' \<noteq> w \<longrightarrow> held s1 (c @ [VERSIONS, w']) = held s (c @ [VERSIONS, w']))"
proof -
  note dirs = store_ok_dir [OF ok]
  have pre: "prefix (object_dir s b k) (c @ [VERSIONS, w])" by (simp add: c)
  note out = other_objects [OF ok k rest spool pre, folded c]
  have sp: "payload = Spooled p \<Longrightarrow> \<not> prefix c p" for p using spool c by (auto simp: spool_outside_def)
  have cur: "sound_dir s1 c \<and> held s1 c = held s c"
    using dirs(1) d(1) by (intro current_sound [OF k rest sp]) (auto simp: c)
  have vs: "sound_dir s1 (c @ [VERSIONS, w']) \<and> held s1 (c @ [VERSIONS, w']) = held s (c @ [VERSIONS, w'])" if "w' \<noteq> w" for w'
    using dirs(2) that by (intro other_version_sound [OF k rest _ sp]) (auto simp: c)
  have "sound_dir s1 (c @ [VERSIONS, w'])" for w'
    using vs d by (cases "w' = w") (auto simp: sound_dir_def)
  with out cur have "sound_dir s1 (object_dir s b' k')" "sound_dir s1 (object_dir s b' k' @ [VERSIONS, v])" for b' k' v
    by (cases "object_dir s b' k' = c"; simp)+
  from store_okI [OF ok rest k this] have "store_ok s1" .
  moreover have "others_same s s1 c" using out by (simp add: others_same_def)
  ultimately show ?thesis using cur vs by blast
qed

end
