(* ===== verification/Store_Correct.thy ===== *)
theory Store_Correct
  imports Store_Inv
begin

text \<open>
  Functional correctness of the object operations. Without faults, each operation has the effect its
  specification gives on the object it names, keeps the invariant of \<open>Store_Inv\<close>, and leaves every
  other object, every version it does not name and the files of the bucket alone.
\<close>

section \<open>What an operation leaves alone\<close>

text \<open>
  The library, the configuration, the files that belong to no object, and the existence of buckets;
  \<open>payload\<close> is the spooled file that may be consumed.
\<close>

definition control_same :: "world \<Rightarrow> world \<Rightarrow> object_payload \<Rightarrow> bool" where
  "control_same s s1 payload \<longleftrightarrow>
     rest_same s s1 \<and> faults s1 = [] \<and> (\<forall>b. bucket_exists s b \<longrightarrow> bucket_exists s1 b) \<and>
     (\<forall>q. payload \<noteq> Spooled q \<longrightarrow> (\<forall>b k. \<not> prefix (object_dir s b k) q \<and> \<not> prefix q (object_dir s b k)) \<longrightarrow>
        fs_get s1 q = fs_get s q)"

lemma control_same_trans:
  assumes "control_same s s1 InMemory" "control_same s1 s2 payload"
  shows "control_same s s2 payload"
  using assms by (auto simp: control_same_def object_dir_rest intro: rest_same_trans)

lemma control_same_refl: "faults s = [] \<Longrightarrow> control_same s s payload"
  by (simp add: control_same_def)

lemma bucket_dir_rest: "rest_same s s1 \<Longrightarrow> bucket_dir s1 b = bucket_dir s b"
  by (simp add: rest_same_def bucket_dir_def)

lemma object_dir_bucket: "object_dir s b k = bucket_dir s b @ [lower_hex (ext_hash64 (ext s) b k)]"
  by (simp add: object_dir_def object_id_dir_def compute_object_id_def)

lemma control_same_kept:
  assumes k: "kept (ext s) (fs_get s) d rm mv payload (fs_get s1)" and rest: "rest_same s s1" "faults s1 = []"
    and d: "prefix (object_dir s b k) d" and spool: "spool_outside s payload"
    and sp: "\<And>b. payload \<noteq> Spooled (bucket_dir s b)"
  shows "control_same s s1 payload"
  unfolding control_same_def
proof (intro conjI allI impI)
  fix b' assume "bucket_exists s b'"
  moreover have "\<not> strict_prefix d (bucket_dir s b')"
    using d by (auto simp: strict_prefix_def object_dir_bucket bucket_dir_def dest!: prefix_length_le)
  ultimately show "bucket_exists s1 b'"
    using kept_cases [OF k, of "bucket_dir s b'"] sp [of b']
    by (auto simp: bucket_exists_def path_exists_def bucket_dir_rest [OF rest(1)])
next
  fix q assume q: "payload \<noteq> Spooled q" "\<forall>b k. \<not> prefix (object_dir s b k) q \<and> \<not> prefix q (object_dir s b k)"
  then have "\<not> prefix d q" using d by (metis prefix_order.trans)
  moreover have "\<not> prefix q d" using q(2) d by (metis prefix_same_cases)
  ultimately show "fs_get s1 q = fs_get s q" using kept_cases [OF k, of q] q(1) by (auto simp: strict_prefix_def)
qed (use rest in auto)

definition same_objects :: "world \<Rightarrow> world \<Rightarrow> bool" where
  "same_objects s s1 \<longleftrightarrow>
     store_ok s1 \<and>
     (\<forall>b k. held s1 (object_dir s b k) = held s (object_dir s b k) \<and>
        (\<forall>v. held s1 (object_dir s b k @ [VERSIONS, v]) = held s (object_dir s b k @ [VERSIONS, v])))"

lemma same_objects_trans: "same_objects s s1 \<Longrightarrow> same_objects s1 s2 \<Longrightarrow> rest_same s s1 \<Longrightarrow> same_objects s s2"
  by (simp add: same_objects_def object_dir_rest)

lemma not_scratch_public [simp]:
  "\<not> scratch_in x d (d @ [BLOB])" "\<not> scratch_in x d (d @ [META])"
  "\<not> scratch_in x d (d @ [VERSIONS, v, BLOB])" "\<not> scratch_in x d (d @ [VERSIONS, v, META])"
  by simp_all

section \<open>Recovery before an access\<close>

lemma frame_base_stored: "consistent s d \<Longrightarrow> uuids_valid (ext s) \<Longrightarrow> frame_base (ext s) (fs_get s) d InMemory"
  "consistent s d \<Longrightarrow> uuids_valid (ext s) \<Longrightarrow> frame_base (ext s) (fs_get s) d (Stored p)"
  by (auto simp: frame_base_def consistent_def path_exists_def)

lemma no_spool [simp]: "spool_outside s InMemory" "spool_outside s (Stored p)"
  by (simp_all add: spool_outside_def)

lemma recover_quiet:
  assumes ok: "store_ok s" and f: "faults s = []" and c: "consistent s d"
    and d: "d = object_dir s b k \<or> d = object_dir s b k @ [VERSIONS, w]"
    and run: "recover_publication d s = (r, s1)"
  shows "r = Done () \<and> same_objects s s1 \<and> control_same s s1 InMemory"
proof -
  have x: "uuids_valid (ext s)" and wf: "tree_wf (fs_get s)" using ok by (auto simp: store_ok_def)
  note rec = runsD [OF runs_recover_settled [OF consistent_settled [OF c] consistent_journal [OF c], where nf = True]
      refl refl _ run, simplified, OF f]
  have fin: "r = Done ()" using rec(5) by auto
  with rec have "settled (ext s) d (view s d) (fs_get s1)" by auto
  moreover have x1: "ext s1 = ext s" using rec(1) by (simp add: rest_same_def)
  ultimately have s1: "settled (ext s1) d (view s d) (fs_get s1)" by simp
  have c1: "consistent s1 d" using settled_consistent [OF s1 consistent_journal [OF c]] .
  have same: "file_content s1 p = file_content s p" if "\<not> scratch_in (ext s) d p" for p
    using settled_view [OF s1, of p] that x1 by (simp add: view_def)
  have k: "kept (ext s) (fs_get s) d [] None InMemory (fs_get s1)"
    using keepsD(1) [OF keeps_recover [OF frame_base_stored(1) [OF c x]] run refl f] wf by (simp add: within_def)
  have rest: "rest_same s s1" "faults s1 = []" using rec(1,2) by auto
  have ctl: "control_same s s1 InMemory"
    by (rule control_same_kept [OF k rest _ no_spool(1)]) (use d in auto)
  have cur: "held s1 d = held s d" "paired s d \<Longrightarrow> paired s1 d"
    using same [of "d @ [BLOB]"] same [of "d @ [META]"] by (simp_all add: held_def paired_def)
  from d have "same_objects s s1"
  proof
    assume d: "d = object_dir s b k"
    have v: "held s1 (d @ [VERSIONS, v]) = held s (d @ [VERSIONS, v])"
      "paired s (d @ [VERSIONS, v]) \<Longrightarrow> paired s1 (d @ [VERSIONS, v])" for v
      using same [of "d @ [VERSIONS, v, BLOB]"] same [of "d @ [VERSIONS, v, META]"] by (simp_all add: held_def paired_def)
    have "store_ok s1 \<and> others_same s s1 d"
      using store_ok_dir [OF ok] cur(2) v(2)
      by (intro store_ok_current_step [OF ok d k rest(1) no_spool(1) c1]) (auto simp: d sound_dir_def)
    with cur(1) v(1) show ?thesis
      unfolding same_objects_def others_same_def by metis
  next
    assume d: "d = object_dir s b k @ [VERSIONS, w]"
    have "store_ok s1 \<and> others_same s s1 (object_dir s b k) \<and> held s1 (object_dir s b k) = held s (object_dir s b k) \<and>
        (\<forall>w'. w' \<noteq> w \<longrightarrow> held s1 (object_dir s b k @ [VERSIONS, w']) = held s (object_dir s b k @ [VERSIONS, w']))"
      using store_ok_dir(2) [OF ok] cur(2) c1
      by (intro store_ok_version_step [OF ok refl k [unfolded d] rest(1) no_spool(1)]) (auto simp: d sound_dir_def)
    with cur(1) show ?thesis
      unfolding same_objects_def others_same_def d by metis
  qed
  with fin ctl show ?thesis by blast
qed

section \<open>Reading\<close>

lemma sound_read:
  assumes "sound_dir s d"
  obtains (Absent) "held s d = None" "\<not> path_exists s (d @ [BLOB])" "\<not> path_exists s (d @ [META])"
  | (Present) data m where "held s d = Some (m\<lparr>obj_data := data\<rparr>)" "file_content s (d @ [BLOB]) = Some (Bytes data)"
      "file_content s (d @ [META]) = Some (ObjectJson m)" "obj_size m = length data" "serialize_object m = m"
      "path_exists s (d @ [BLOB])" "path_exists s (d @ [META])"
proof -
  have c: "consistent s d" and p: "paired s d" using assms by (auto simp: sound_dir_def)
  have "path_exists s (d @ [a]) \<longleftrightarrow> file_content s (d @ [a]) \<noteq> None" if "file_name (ext s) a" for a
    using consistent_node [OF c, of "[a]" Dir] that by (auto simp: path_exists_def file_content_def split: option.splits node.splits)
  then have "path_exists s (d @ [BLOB]) \<longleftrightarrow> file_content s (d @ [BLOB]) \<noteq> None"
    "path_exists s (d @ [META]) \<longleftrightarrow> file_content s (d @ [META]) \<noteq> None" by (auto simp: file_name_def)
  with p that show ?thesis by (auto simp: paired_def held_def)
qed

definition read_outcome :: "object option \<Rightarrow> object outcome" where
  "read_outcome found = (case found of Some ob \<Rightarrow> Done ob | None \<Rightarrow> Failed KeyNotFound)"

lemma read_outcome_simps [simp]: "read_outcome None = Failed KeyNotFound" "read_outcome (Some ob) = Done ob"
  by (simp_all add: read_outcome_def)

text \<open>\<open>access s r s1 found\<close>: a read that recovered what was pending and changed nothing else.\<close>

definition undisturbed :: "world \<Rightarrow> world \<Rightarrow> bool" where
  "undisturbed s s1 \<longleftrightarrow> same_objects s s1 \<and> control_same s s1 InMemory"

lemma undisturbed_trans: "undisturbed s s1 \<Longrightarrow> undisturbed s1 s2 \<Longrightarrow> undisturbed s s2"
  unfolding undisturbed_def
  by (meson control_same_def control_same_trans same_objects_trans)

lemma undisturbed_facts:
  assumes "undisturbed s s1"
  shows "store_ok s1" "faults s1 = []" "rest_same s s1" "object_dir s1 b k = object_dir s b k"
    "held s1 (object_dir s b k) = held s (object_dir s b k)"
    "held s1 (object_dir s b k @ [VERSIONS, v]) = held s (object_dir s b k @ [VERSIONS, v])"
    "bucket_exists s b \<Longrightarrow> bucket_exists s1 b"
  using assms by (auto simp: undisturbed_def same_objects_def control_same_def object_dir_rest)

lemma recover_current:
  assumes ok: "store_ok s" and f: "faults s = []"
  obtains s1 where "recover_publication (object_dir s b k) s = (Done (), s1)" "undisturbed s s1"
    "sound_dir s1 (object_dir s b k)" "held s1 (object_dir s b k) = held s (object_dir s b k)"
proof -
  obtain r s1 where run: "recover_publication (object_dir s b k) s = (r, s1)" by force
  have "consistent s (object_dir s b k)" using store_ok_dir [OF ok] by (simp add: sound_dir_def)
  from recover_quiet [OF ok f this _ run] have "r = Done ()" "undisturbed s s1" by (auto simp: undisturbed_def)
  with run that show ?thesis
    using undisturbed_facts [OF \<open>undisturbed s s1\<close>] store_ok_dir(1) [of s1 b k] by metis
qed

lemma read_object_spec:
  assumes ok: "store_ok s" and f: "faults s = []"
  obtains s1 where "read_object_locked b k s = (read_outcome (held s (object_dir s b k)), s1)" "undisturbed s s1"
proof -
  obtain s1 where s1: "recover_publication (object_dir s b k) s = (Done (), s1)" "undisturbed s s1"
    "sound_dir s1 (object_dir s b k)" "held s1 (object_dir s b k) = held s (object_dir s b k)"
    using recover_current [OF ok f] .
  have "read_object_locked b k s = (read_outcome (held s (object_dir s b k)), s1)"
    using s1(3)
  proof (cases rule: sound_read)
    case Absent
    with s1(1,4) show ?thesis by (simp add: read_object_locked_def bind_io_def gets_def guard_io_def throw_def)
  next
    case (Present data m)
    with s1(1) show ?thesis unfolding s1(4) [symmetric]
      by (simp add: read_object_locked_def bind_io_def gets_def read_object_metadata_def read_bytes_def read_file_def return_def)
  qed
  with s1(2) that show ?thesis by blast
qed

lemma read_metadata_spec:
  assumes ok: "store_ok s" and f: "faults s = []"
  obtains s1 where
    "read_object_metadata_locked b k s = (read_outcome (map_option serialize_object (held s (object_dir s b k))), s1)"
    "undisturbed s s1"
proof -
  obtain s1 where s1: "recover_publication (object_dir s b k) s = (Done (), s1)" "undisturbed s s1"
    "sound_dir s1 (object_dir s b k)" "held s1 (object_dir s b k) = held s (object_dir s b k)"
    using recover_current [OF ok f] .
  have "read_object_metadata_locked b k s = (read_outcome (map_option serialize_object (held s (object_dir s b k))), s1)"
    using s1(3)
  proof (cases rule: sound_read)
    case Absent
    with s1(1,4) show ?thesis by (simp add: read_object_metadata_locked_def bind_io_def gets_def guard_io_def throw_def)
  next
    case (Present data m)
    from Present(5) have "serialize_object (m\<lparr>obj_data := data\<rparr>) = m" by (simp add: serialize_object_def)
    with Present s1(1) show ?thesis unfolding s1(4) [symmetric]
      by (simp add: read_object_metadata_locked_def bind_io_def gets_def read_object_metadata_def read_file_def return_def)
  qed
  with s1(2) that show ?thesis by blast
qed

section \<open>Publications\<close>

lemma current_directory_object [simp]: "current_directory (object_dir s b k)" "\<not> current_directory (c @ [VERSIONS, v])"
  by (auto simp: current_directory_def object_dir_bucket bucket_dir_def VERSIONS_def parent_def butlast_append)

lemma publish_done:
  assumes x: "uuids_valid (ext s)" and c: "consistent s d" and f: "faults s = []" and wf: "tree_wf (fs_get s)"
    and b: "payload_content s d ob payload = Some b" and len: "content_len b = obj_size ob"
    and spool: "\<forall>p. payload = Spooled p \<longrightarrow> \<not> prefix p d"
    and run: "publish_pair d ob payload s = (r, s1)"
  shows "r = Done ()" "consistent s1 d" "\<And>p. \<not> scratch_in (ext s) d p \<Longrightarrow> file_content s1 p = published d ob payload b (view s d) p"
    and "kept (ext s) (fs_get s) d (if obj_version_id ob = Some ''null'' \<and> current_directory d then [''null''] else [])
      None payload (fs_get s1)" and "rest_same s s1" and "faults s1 = []"
proof -
  obtain r' s2 where rec: "recover_publication d (s1\<lparr>faults := []\<rparr>) = (r', s2)" by force
  note out = publish_outcome [OF x c b len run rec, simplified]
  show r: "r = Done ()" and "consistent s1 d" using out f by blast+
  have "frame_base (ext s) (fs_get s) d payload"
    using c x b spool by (auto simp: frame_base_def consistent_def path_exists_def payload_content_def
        file_content_def split: object_payload.splits if_splits)
  note fr = publish_pair_frame [OF this wf f run]
  show "kept (ext s) (fs_get s) d (if obj_version_id ob = Some ''null'' \<and> current_directory d then [''null''] else [])
      None payload (fs_get s1)" "rest_same s s1" "faults s1 = []" using fr by auto
  then have "ext s1 = ext s" by (simp add: rest_same_def)
  moreover have "view s1 d = published d ob payload b (view s d)" using out r by blast
  ultimately show "file_content s1 p = published d ob payload b (view s d) p" if "\<not> scratch_in (ext s) d p" for p
    using that by (metis view_def)
qed

lemma publish_current:
  assumes ok: "store_ok s" and f: "faults s = []" and c: "c = object_dir s b k"
    and pl: "payload_content s c ob payload = Some (Bytes data)" and len: "obj_size ob = length data"
    and spool: "spool_outside s payload" "\<And>b. payload \<noteq> Spooled (bucket_dir s b)"
    and run: "publish_pair c ob payload s = (r, s1)"
  shows "r = Done () \<and> store_ok s1 \<and> control_same s s1 payload \<and> others_same s s1 c \<and>
    held s1 c = Some (ob\<lparr>obj_data := data\<rparr>) \<and>
    (\<forall>v. held s1 (c @ [VERSIONS, v]) =
       (if obj_version_id ob = Some ''null'' \<and> v = ''null'' then None else held s (c @ [VERSIONS, v])))"
proof -
  have x: "uuids_valid (ext s)" and wf: "tree_wf (fs_get s)" using ok by (auto simp: store_ok_def)
  have cons: "consistent s c" using store_ok_dir(1) [OF ok] by (simp add: c sound_dir_def)
  have sp: "\<forall>p. payload = Spooled p \<longrightarrow> \<not> prefix p c" "\<And>p. payload = Spooled p \<Longrightarrow> \<not> prefix c p" using spool(1) by (auto simp: spool_outside_def c)
  have len': "content_len (Bytes data) = obj_size ob" using len by simp
  note out = publish_done [OF x cons f wf pl len' sp(1) run]
  have pub: "file_content s1 (c @ q) = published c ob payload (Bytes data) (view s c) (c @ q)" if "\<not> scratch (ext s) q" for q
    using out(3) [of "c @ q"] that by simp
  have nu: "\<not> used_up payload (c @ q)" for q using sp(2) by (auto simp: used_up_def)
  have cur: "file_content s1 (c @ [BLOB]) = Some (Bytes data)" "file_content s1 (c @ [META]) = Some (ObjectJson (serialize_object ob))"
    using pub [of "[BLOB]"] pub [of "[META]"] by (simp_all add: published_def)
  have old: "file_content s1 (c @ [VERSIONS, v, a]) =
      (if obj_version_id ob = Some ''null'' \<and> v = ''null'' then None else file_content s (c @ [VERSIONS, v, a]))"
    if "a = BLOB \<or> a = META" for v a
    using pub [of "[VERSIONS, v, a]"] that nu by (auto simp: published_def c view_def)
  have held: "held s1 c = Some (ob\<lparr>obj_data := data\<rparr>)" and paired: "paired s1 c"
    using cur len by (simp_all add: held_def paired_def serialize_object_def)
  have vs: "held s1 (c @ [VERSIONS, v]) = (if obj_version_id ob = Some ''null'' \<and> v = ''null'' then None else held s (c @ [VERSIONS, v]))"
    and vp: "paired s1 (c @ [VERSIONS, v])" for v
    using old [of BLOB v] old [of META v] store_ok_dir(2) [OF ok, of b k v]
    by (auto simp: held_def paired_def c sound_dir_def)
  have "store_ok s1 \<and> others_same s s1 c"
    by (rule store_ok_current_step [OF ok c out(4,5) spool(1) out(2) paired vp])
  moreover have "control_same s s1 payload"
  proof (rule control_same_kept [OF out(4,5,6) _ spool])
    show "prefix (object_dir s b k) c" by (simp add: c)
  qed
  ultimately show ?thesis using out(1) held vs by blast
qed

lemma publish_version:
  assumes ok: "store_ok s" and f: "faults s = []" and c: "c = object_dir s b k" and cur: "held s c = Some ob"
    and run: "publish_pair (c @ [VERSIONS, v]) (ob'\<lparr>obj_version_id := Some v\<rparr>) (Stored (c @ [BLOB])) s = (r, s1)"
    and ob': "ob' = serialize_object ob"
  shows "r = Done () \<and> store_ok s1 \<and> control_same s s1 InMemory \<and> others_same s s1 c \<and> held s1 c = held s c \<and>
    held s1 (c @ [VERSIONS, v]) = Some (ob\<lparr>obj_version_id := Some v\<rparr>) \<and>
    (\<forall>w. w \<noteq> v \<longrightarrow> held s1 (c @ [VERSIONS, w]) = held s (c @ [VERSIONS, w]))"
proof -
  let ?d = "c @ [VERSIONS, v]" and ?ob = "ob'\<lparr>obj_version_id := Some v\<rparr>" and ?p = "Stored (c @ [BLOB])"
  have x: "uuids_valid (ext s)" and wf: "tree_wf (fs_get s)" using ok by (auto simp: store_ok_def)
  have cons: "consistent s ?d" using store_ok_dir(2) [OF ok] by (simp add: c sound_dir_def)
  obtain data m where m: "ob = m\<lparr>obj_data := data\<rparr>" "file_content s (c @ [BLOB]) = Some (Bytes data)" "obj_size m = length data"
    using sound_read [OF store_ok_dir(1) [OF ok, of b k]] cur by (metis c option.inject option.discI)
  have "\<not> prefix ?d (c @ [BLOB])" by simp
  then have "\<not> scratch_in (ext s) ?d (c @ [BLOB])" by (rule outside_not_scratch)
  with m have pl: "payload_content s ?d ?ob ?p = Some (Bytes data)" by (simp add: payload_content_def view_def)
  have len: "content_len (Bytes data) = obj_size ?ob" using m by (simp add: ob' serialize_object_def)
  have "\<forall>p. ?p = Spooled p \<longrightarrow> \<not> prefix p ?d" by simp
  note out = publish_done [OF x cons f wf pl len this run]
  have pub: "file_content s1 (?d @ [a]) = published ?d ?ob ?p (Bytes data) (view s ?d) (?d @ [a])"
    if "a = BLOB \<or> a = META" for a
    using out(3) [of "?d @ [a]"] that not_scratch_public(1,2) [of "ext s" ?d] by blast
  from pub [of BLOB] pub [of META]
  have new: "held s1 ?d = Some (ob\<lparr>obj_version_id := Some v\<rparr>)" "paired s1 ?d"
    using m len by (simp_all add: held_def paired_def published_def serialize_object_def ob')
  have sim: "store_ok s1 \<and> others_same s s1 c \<and> held s1 c = held s c \<and>
    (\<forall>w'. w' \<noteq> v \<longrightarrow> held s1 (c @ [VERSIONS, w']) = held s (c @ [VERSIONS, w']))"
    by (rule store_ok_version_step [OF ok c out(4,5) no_spool(2) out(2) new(2)])
  have "control_same s s1 ?p" by (rule control_same_kept [OF out(4,5,6) _ no_spool(2), of b k]) (simp_all add: c)
  then have "control_same s s1 InMemory" by (simp add: control_same_def)
  with sim new out(1) show ?thesis by blast
qed

section \<open>The specification\<close>

text \<open>
  An object is its current generation and its versions. A write under versioning first keeps the
  current generation as a version; the null version is replaced, not kept, when versioning is
  suspended.
\<close>

record object_state =
  current :: "object option"
  history :: "string \<Rightarrow> object option"

definition object_state :: "world \<Rightarrow> string \<Rightarrow> string \<Rightarrow> object_state" where
  "object_state s b k =
     \<lparr>current = held s (object_dir s b k), history = (\<lambda>v. held s (object_dir s b k @ [VERSIONS, v]))\<rparr>"

datatype versioning = Unversioned | Versioned | Suspended

definition versioning :: "world \<Rightarrow> string \<Rightarrow> versioning" where
  "versioning s b =
     (if is_versioning_suspended s b then Suspended else if is_versioning_enabled s b then Versioned else Unversioned)"

definition keep_current :: "bool \<Rightarrow> object_state \<Rightarrow> object_state" where
  "keep_current enabled st =
     (case current st of
        None \<Rightarrow> st
      | Some ob \<Rightarrow>
          if enabled \<or> version_name ob \<noteq> ''null'' then
            st\<lparr>history := (history st)(version_name ob \<mapsto> ob\<lparr>obj_version_id := Some (version_name ob)\<rparr>)\<rparr>
          else st)"

definition install :: "string option \<Rightarrow> object \<Rightarrow> object_state \<Rightarrow> object_state" where
  "install version ob st =
     st\<lparr>current := Some (ob\<lparr>obj_version_id := version\<rparr>),
        history := (if version = Some ''null'' then (history st)(''null'' := None) else history st)\<rparr>"

fun spec_put :: "versioning \<Rightarrow> string \<Rightarrow> object \<Rightarrow> object_state \<Rightarrow> object_state" where
  "spec_put Unversioned u ob st = install None ob st"
| "spec_put Versioned u ob st = install (Some u) ob (keep_current True st)"
| "spec_put Suspended u ob st = install (Some ''null'') ob (keep_current False st)"

text \<open>What an operation on one object leaves alone in the rest of the store.\<close>

definition only_object :: "world \<Rightarrow> world \<Rightarrow> string \<Rightarrow> string \<Rightarrow> object_payload \<Rightarrow> bool" where
  "only_object s s1 b k payload \<longleftrightarrow>
     others_same s s1 (object_dir s b k) \<and> ext s1 = ext s \<and> base_path s1 = base_path s \<and> uploads_cache s1 = uploads_cache s \<and>
     (\<forall>b'. bucket_exists s b' \<longrightarrow> bucket_exists s1 b') \<and>
     (\<forall>q. payload \<noteq> Spooled q \<longrightarrow> (\<forall>b k. \<not> prefix (object_dir s b k) q \<and> \<not> prefix q (object_dir s b k)) \<longrightarrow>
        fs_get s1 q = fs_get s q)"

lemma version_name_serialize [simp]: "version_name (serialize_object ob) = version_name ob"
  by (simp add: version_name_def)

lemma snapshot_spec:
  assumes ok: "store_ok s" and f: "faults s = []"
  obtains s1 where "snapshot_current b k enabled s = (Done (), s1)" "store_ok s1" "control_same s s1 InMemory"
    "others_same s s1 (object_dir s b k)" "object_state s1 b k = keep_current enabled (object_state s b k)"
proof -
  let ?c = "object_dir s b k"
  obtain s0 where rd: "read_object_metadata_locked b k s = (read_outcome (map_option serialize_object (held s ?c)), s0)"
    and u: "undisturbed s s0" using read_metadata_spec [OF ok f] .
  note u' = undisturbed_facts [OF u]
  have st0: "object_state s0 b k = object_state s b k" by (simp add: object_state_def u')
  have o0: "others_same s s0 ?c" by (simp add: others_same_def u')
  have c0: "control_same s s0 InMemory" using u by (simp add: undisturbed_def)
  show ?thesis
  proof (cases "\<exists>ob. held s ?c = Some ob \<and> (enabled \<or> version_name ob \<noteq> ''null'')")
    case False
    then have "snapshot_current b k enabled s = (Done (), s0)"
      using rd by (cases "held s ?c") (auto simp: snapshot_current_def bind_io_def try_io_def return_def when_io_def)
    moreover have "keep_current enabled (object_state s b k) = object_state s b k"
      using False by (auto simp: keep_current_def object_state_def split: option.splits)
    ultimately show ?thesis using that u'(1) c0 o0 st0 by metis
  next
    case True
    then obtain ob where ob: "held s ?c = Some ob" "enabled \<or> version_name ob \<noteq> ''null''" by blast
    let ?v = "version_name ob"
    obtain r s1 where run: "publish_pair (?c @ [VERSIONS, ?v]) ((serialize_object ob)\<lparr>obj_version_id := Some ?v\<rparr>) (Stored (?c @ [BLOB])) s0 = (r, s1)"
      by force
    from publish_version [OF u'(1,2) u'(4) [symmetric] _ run refl] ob
    have p: "r = Done ()" "store_ok s1" "control_same s0 s1 InMemory" "others_same s0 s1 ?c" "held s1 ?c = held s0 ?c"
      "held s1 (?c @ [VERSIONS, ?v]) = Some (ob\<lparr>obj_version_id := Some ?v\<rparr>)"
      "\<And>w. w \<noteq> ?v \<Longrightarrow> held s1 (?c @ [VERSIONS, w]) = held s0 (?c @ [VERSIONS, w])" by (auto simp: u')
    have "snapshot_current b k enabled s = (Done (), s1)"
      using rd ob run p(1)
      by (simp add: snapshot_current_def bind_io_def try_io_def when_io_def gets_def write_version_snapshot_def u')
    moreover have "object_dir s1 b k = ?c" using p(3) object_dir_rest [of s0 s1 b k] u'(4) by (simp add: control_same_def)
    then have "object_state s1 b k = keep_current enabled (object_state s b k)"
      using p(5-7) ob by (auto simp: object_state_def keep_current_def u' fun_eq_iff)
    ultimately show ?thesis
      using that p(2) control_same_trans [OF c0 p(3)] others_same_trans [OF o0 p(4) u'(3)] by blast
  qed
qed

section \<open>Writing\<close>

text \<open>Changes of the index and of the protection flags are invisible to the directories.\<close>

lemma dir_fields [simp]:
  "object_dir (s\<lparr>st_index := i\<rparr>) b k = object_dir s b k"
  "object_dir (s\<lparr>azure_protection_possible := z\<rparr>) b k = object_dir s b k"
  "object_dir (s\<lparr>uuid_count := n\<rparr>) b k = object_dir s b k"
  "object_dir (s\<lparr>clock_count := n\<rparr>) b k = object_dir s b k"
  "object_dir (s\<lparr>uploads_cache := u\<rparr>) b k = object_dir s b k"
  "object_dir (s\<lparr>faults := fl\<rparr>) b k = object_dir s b k"
  "bucket_dir (s\<lparr>st_index := i\<rparr>) b = bucket_dir s b"
  "bucket_dir (s\<lparr>azure_protection_possible := z\<rparr>) b = bucket_dir s b"
  "bucket_dir (s\<lparr>uuid_count := n\<rparr>) b = bucket_dir s b"
  "bucket_dir (s\<lparr>clock_count := n\<rparr>) b = bucket_dir s b"
  "bucket_dir (s\<lparr>uploads_cache := u\<rparr>) b = bucket_dir s b"
  "bucket_dir (s\<lparr>faults := fl\<rparr>) b = bucket_dir s b"
  "file_content (s\<lparr>st_index := i\<rparr>) = file_content s"
  "file_content (s\<lparr>azure_protection_possible := z\<rparr>) = file_content s"
  "file_content (s\<lparr>uuid_count := n\<rparr>) = file_content s"
  "file_content (s\<lparr>clock_count := n\<rparr>) = file_content s"
  "file_content (s\<lparr>uploads_cache := u\<rparr>) = file_content s"
  "file_content (s\<lparr>faults := fl\<rparr>) = file_content s"
  "path_exists (s\<lparr>st_index := i\<rparr>) = path_exists s"
  "path_exists (s\<lparr>azure_protection_possible := z\<rparr>) = path_exists s"
  "path_exists (s\<lparr>uuid_count := n\<rparr>) = path_exists s"
  "path_exists (s\<lparr>clock_count := n\<rparr>) = path_exists s"
  "path_exists (s\<lparr>uploads_cache := u\<rparr>) = path_exists s"
  "path_exists (s\<lparr>faults := fl\<rparr>) = path_exists s"
  by (simp_all add: object_dir_def object_id_dir_def bucket_dir_def file_content_def path_exists_def fun_eq_iff)

lemma store_fields [simp]:
  "held (s\<lparr>st_index := i\<rparr>) d = held s d"
  "held (s\<lparr>azure_protection_possible := z\<rparr>) d = held s d"
  "held (s\<lparr>uuid_count := n\<rparr>) d = held s d"
  "held (s\<lparr>clock_count := n\<rparr>) d = held s d"
  "held (s\<lparr>uploads_cache := u\<rparr>) d = held s d"
  "held (s\<lparr>faults := fl\<rparr>) d = held s d"
  "bucket_exists (s\<lparr>st_index := i\<rparr>) b = bucket_exists s b"
  "bucket_exists (s\<lparr>azure_protection_possible := z\<rparr>) b = bucket_exists s b"
  "bucket_exists (s\<lparr>uuid_count := n\<rparr>) b = bucket_exists s b"
  "bucket_exists (s\<lparr>clock_count := n\<rparr>) b = bucket_exists s b"
  "bucket_exists (s\<lparr>uploads_cache := u\<rparr>) b = bucket_exists s b"
  "bucket_exists (s\<lparr>faults := fl\<rparr>) b = bucket_exists s b"
  "object_state (s\<lparr>st_index := i\<rparr>) b k = object_state s b k"
  "object_state (s\<lparr>azure_protection_possible := z\<rparr>) b k = object_state s b k"
  "object_state (s\<lparr>uuid_count := n\<rparr>) b k = object_state s b k"
  "object_state (s\<lparr>clock_count := n\<rparr>) b k = object_state s b k"
  "object_state (s\<lparr>uploads_cache := u\<rparr>) b k = object_state s b k"
  "object_state (s\<lparr>faults := fl\<rparr>) b k = object_state s b k"
  "is_versioning_enabled (s\<lparr>st_index := i\<rparr>) b = is_versioning_enabled s b"
  "is_versioning_enabled (s\<lparr>azure_protection_possible := z\<rparr>) b = is_versioning_enabled s b"
  "is_versioning_enabled (s\<lparr>uuid_count := n\<rparr>) b = is_versioning_enabled s b"
  "is_versioning_enabled (s\<lparr>clock_count := n\<rparr>) b = is_versioning_enabled s b"
  "is_versioning_enabled (s\<lparr>uploads_cache := u\<rparr>) b = is_versioning_enabled s b"
  "is_versioning_enabled (s\<lparr>faults := fl\<rparr>) b = is_versioning_enabled s b"
  "is_versioning_suspended (s\<lparr>st_index := i\<rparr>) b = is_versioning_suspended s b"
  "is_versioning_suspended (s\<lparr>azure_protection_possible := z\<rparr>) b = is_versioning_suspended s b"
  "is_versioning_suspended (s\<lparr>uuid_count := n\<rparr>) b = is_versioning_suspended s b"
  "is_versioning_suspended (s\<lparr>clock_count := n\<rparr>) b = is_versioning_suspended s b"
  "is_versioning_suspended (s\<lparr>uploads_cache := u\<rparr>) b = is_versioning_suspended s b"
  "is_versioning_suspended (s\<lparr>faults := fl\<rparr>) b = is_versioning_suspended s b"
  "others_same r (s\<lparr>st_index := i\<rparr>) c = others_same r s c"
  "others_same r (s\<lparr>azure_protection_possible := z\<rparr>) c = others_same r s c"
  "others_same r (s\<lparr>uuid_count := n\<rparr>) c = others_same r s c"
  "others_same r (s\<lparr>clock_count := n\<rparr>) c = others_same r s c"
  "others_same r (s\<lparr>uploads_cache := u\<rparr>) c = others_same r s c"
  "others_same r (s\<lparr>faults := fl\<rparr>) c = others_same r s c"
  by (simp_all add: held_def bucket_exists_def object_state_def is_versioning_enabled_def is_versioning_suspended_def
      versioning_marker_def others_same_def)

lemma store_ok_fields [simp]:
  "store_ok (s\<lparr>st_index := i\<rparr>) = store_ok s"
  "store_ok (s\<lparr>azure_protection_possible := z\<rparr>) = store_ok s"
  "store_ok (s\<lparr>uuid_count := n\<rparr>) = store_ok s"
  "store_ok (s\<lparr>clock_count := n\<rparr>) = store_ok s"
  "store_ok (s\<lparr>uploads_cache := u\<rparr>) = store_ok s"
  "store_ok (s\<lparr>faults := fl\<rparr>) = store_ok s"
  by (simp_all add: store_ok_def sound_dir_def consistent_def paired_def)

lemma enabled_not_suspended: "is_versioning_enabled s b \<Longrightarrow> \<not> is_versioning_suspended s b"
  by (auto simp: is_versioning_enabled_def is_versioning_suspended_def)

text \<open>The choice of the new version, after the current generation is kept.\<close>

lemma put_version_spec:
  assumes ok: "store_ok s" and f: "faults s = []"
  obtains s1 u where
    "(if is_versioning_enabled s b \<or> is_versioning_suspended s b then
        then_io (snapshot_current b k (is_versioning_enabled s b))
          (if is_versioning_suspended s b then return (Some ''null'') else bind_io new_uuid (\<lambda>u. return (Some u)))
      else return None) s =
     (Done (case versioning s b of Unversioned \<Rightarrow> None | Versioned \<Rightarrow> Some u | Suspended \<Rightarrow> Some ''null''), s1)"
    "store_ok s1" "control_same s s1 InMemory" "others_same s s1 (object_dir s b k)"
    "\<forall>ob. install (case versioning s b of Unversioned \<Rightarrow> None | Versioned \<Rightarrow> Some u | Suspended \<Rightarrow> Some ''null'') ob
        (object_state s1 b k) = spec_put (versioning s b) u ob (object_state s b k)"
    "u \<in> range (ext_uuid (ext s))"
proof -
  obtain s0 where sn: "snapshot_current b k (is_versioning_enabled s b) s = (Done (), s0)" and s0: "store_ok s0"
    "control_same s s0 InMemory" "others_same s s0 (object_dir s b k)"
    "object_state s0 b k = keep_current (is_versioning_enabled s b) (object_state s b k)"
    using snapshot_spec [OF ok f] .
  show ?thesis
  proof (cases "versioning s b")
    case Unversioned
    then have m: "\<not> is_versioning_enabled s b" "\<not> is_versioning_suspended s b" by (auto simp: versioning_def split: if_splits)
    show ?thesis
      by (rule that [of "ext_uuid (ext s) 0" s]) (use ok Unversioned m control_same_refl [OF f] in \<open>auto simp: return_def\<close>)
  next
    case Versioned
    then have m: "is_versioning_enabled s b" "\<not> is_versioning_suspended s b" by (auto simp: versioning_def split: if_splits)
    let ?s1 = "s0\<lparr>uuid_count := uuid_count s0 + 1\<rparr>"
    have k: "store_ok ?s1" "control_same s ?s1 InMemory" "others_same s ?s1 (object_dir s b k)" "object_state ?s1 b k = object_state s0 b k"
      using s0 by (simp_all add: control_same_def rest_same_def)
    show ?thesis
      by (rule that [of "ext_uuid (ext s0) (uuid_count s0)" ?s1])
        (use Versioned m k s0(2,4) sn in \<open>simp_all add: bind_io_def new_uuid_def return_def control_same_def rest_same_def\<close>)
  next
    case Suspended
    then have m: "\<not> is_versioning_enabled s b" "is_versioning_suspended s b"
      using enabled_not_suspended [of s b] by (auto simp: versioning_def split: if_splits)
    show ?thesis
      by (rule that [of "ext_uuid (ext s) 0" s0]) (use Suspended m s0 sn in \<open>simp_all add: bind_io_def return_def\<close>)
  qed
qed

definition payload_bytes :: "world \<Rightarrow> object \<Rightarrow> object_payload \<Rightarrow> bytes option" where
  "payload_bytes s ob payload =
     (case payload of
        InMemory \<Rightarrow> Some (obj_data ob)
      | Spooled p \<Rightarrow> (case file_content s p of Some (Bytes data) \<Rightarrow> Some data | _ \<Rightarrow> None)
      | Stored p \<Rightarrow> None)"

lemma payload_fields [simp]:
  "payload_bytes (s\<lparr>azure_protection_possible := z\<rparr>) ob payload = payload_bytes s ob payload"
  "spool_outside (s\<lparr>azure_protection_possible := z\<rparr>) payload = spool_outside s payload"
  by (cases payload) (simp_all add: payload_bytes_def spool_outside_def)

lemma payload_bytes_content:
  assumes "payload_bytes s ob payload = Some data" and "spool_outside s payload" and "control_same s s1 InMemory"
  shows "payload_content s1 (object_dir s b k) (ob\<lparr>obj_version_id := v\<rparr>) payload = Some (Bytes data)"
  using assms
  by (auto simp: payload_bytes_def payload_content_def spool_outside_def control_same_def file_content_def
      split: object_payload.splits option.splits content.splits node.splits)

lemma spool_not_bucket:
  assumes ok: "store_ok s" and "payload_bytes s ob payload = Some data"
  shows "payload \<noteq> Spooled (bucket_dir s b)"
proof -
  have "consistent s (object_dir s b k)" for k using store_ok_dir(1) [OF ok] by (simp add: sound_dir_def)
  then have "file_content s (bucket_dir s b) = None"
    by (fastforce simp: consistent_def base_ok_def object_dir_bucket file_content_def split: option.splits node.splits)
  with assms(2) show ?thesis by (auto simp: payload_bytes_def)
qed

lemma put_spec_flags:
  assumes ok: "store_ok s" and f: "faults s = []" and b: "bucket_exists s b"
    and data: "payload_bytes s ob payload = Some data" "obj_size ob = length data" "spool_outside s payload"
    and run: "put_object_locked_with_payload b k ob payload s = (r, s1)"
  shows "r = Done () \<and> store_ok s1 \<and> faults s1 = [] \<and> only_object s s1 b k payload \<and>
    st_index s1 = index_insert (st_index s) b k \<and>
    (\<exists>u \<in> range (ext_uuid (ext s)).
       object_state s1 b k = spec_put (versioning s b) u (ob\<lparr>obj_data := data\<rparr>) (object_state s b k)) \<and>
    (\<not> object_has_azure_protection_metadata ob \<longrightarrow> azure_protection_possible s1 = azure_protection_possible s)"
proof -
  let ?c = "object_dir s b k"
  obtain z where adm: "admit_azure_protection b ob s = (Done (), s\<lparr>azure_protection_possible := z\<rparr>)"
    and flag: "\<not> object_has_azure_protection_metadata ob \<longrightarrow> z = azure_protection_possible s"
  proof -
    have "\<exists>z. admit_azure_protection b ob s = (Done (), s\<lparr>azure_protection_possible := z\<rparr>) \<and>
        (\<not> object_has_azure_protection_metadata ob \<longrightarrow> z = azure_protection_possible s)"
      by (cases "object_has_azure_protection_metadata ob")
        (auto simp: admit_azure_protection_def when_io_def modify_def return_def intro: exI [of _ "azure_protection_possible s"])
    with that show ?thesis by blast
  qed
  let ?s0 = "s\<lparr>azure_protection_possible := z\<rparr>"
  have ok0: "store_ok ?s0" and f0: "faults ?s0 = []" using ok f by simp_all
  obtain s2 u where ver: "(if is_versioning_enabled ?s0 b \<or> is_versioning_suspended ?s0 b then
        then_io (snapshot_current b k (is_versioning_enabled ?s0 b))
          (if is_versioning_suspended ?s0 b then return (Some ''null'') else bind_io new_uuid (\<lambda>u. return (Some u)))
      else return None) ?s0 =
     (Done (case versioning ?s0 b of Unversioned \<Rightarrow> None | Versioned \<Rightarrow> Some u | Suspended \<Rightarrow> Some ''null''), s2)"
    and s2: "store_ok s2" "control_same ?s0 s2 InMemory" "others_same ?s0 s2 (object_dir ?s0 b k)"
    "\<forall>ob. install (case versioning ?s0 b of Unversioned \<Rightarrow> None | Versioned \<Rightarrow> Some u | Suspended \<Rightarrow> Some ''null'') ob
        (object_state s2 b k) = spec_put (versioning ?s0 b) u ob (object_state ?s0 b k)" "u \<in> range (ext_uuid (ext ?s0))"
    by (rule put_version_spec [OF ok0 f0, of b k]) blast
  let ?v = "case versioning ?s0 b of Unversioned \<Rightarrow> None | Versioned \<Rightarrow> Some u | Suspended \<Rightarrow> Some ''null''"
  have rest2: "rest_same ?s0 s2" "faults s2 = []" using s2(2) by (auto simp: control_same_def)
  then have c2: "object_dir s2 b' k' = object_dir s b' k'" for b' k' using object_dir_rest [OF rest2(1)] by simp
  have sp2: "spool_outside s2 payload" "payload \<noteq> Spooled (bucket_dir s2 b')" for b'
    using data(3) spool_not_bucket [OF ok data(1)] bucket_dir_rest [OF rest2(1)] by (simp_all add: spool_outside_def c2)
  have pl: "payload_content s2 ?c (ob\<lparr>obj_version_id := ?v\<rparr>) payload = Some (Bytes data)"
    using payload_bytes_content [of ?s0 ob payload data s2] data s2(2) by simp
  obtain r3 s3 where pub: "publish_pair ?c (ob\<lparr>obj_version_id := ?v\<rparr>) payload s2 = (r3, s3)" by force
  have "obj_size (ob\<lparr>obj_version_id := ?v\<rparr>) = length data" using data(2) by simp
  note P = publish_current [OF s2(1) rest2(2) c2 [symmetric] pl this sp2 pub]
  let ?s4 = "s3\<lparr>st_index := index_insert (st_index s3) b k\<rparr>"
  have run': "put_object_locked_with_payload b k ob payload s = (Done (), ?s4)"
    using b adm ver pub P
    by (simp add: put_object_locked_with_payload_def require_bucket_def bind_io_def gets_def guard_io_def return_def
        try_io_def when_io_def index_add_def modify_def of_result_def)
  have rest3: "rest_same s2 s3" "faults s3 = []" using P by (auto simp: control_same_def)
  then have c3: "object_dir s3 b' k' = object_dir s b' k'" for b' k' using object_dir_rest c2 by simp
  have "object_state s3 b k = install ?v (ob\<lparr>obj_data := data\<rparr>) (object_state s2 b k)"
    using P by (auto simp: object_state_def install_def c2 c3 fun_eq_iff)
  moreover have "only_object s ?s4 b k payload"
    using P s2(2,3) rest2 rest3
    by (auto simp: only_object_def others_same_def control_same_def c2 rest_same_def bucket_exists_def)
  moreover have "st_index s3 = st_index s" using rest2 rest3 by (simp add: rest_same_def)
  moreover have "azure_protection_possible s3 = z" using rest2 rest3 by (simp add: rest_same_def)
  ultimately show ?thesis using run run' P s2(4,5) rest3 flag by (auto simp: versioning_def)
qed

lemma put_spec:
  assumes ok: "store_ok s" and f: "faults s = []" and b: "bucket_exists s b"
    and data: "payload_bytes s ob payload = Some data" "obj_size ob = length data" "spool_outside s payload"
    and run: "put_object_locked_with_payload b k ob payload s = (r, s1)"
  shows "r = Done () \<and> store_ok s1 \<and> faults s1 = [] \<and> only_object s s1 b k payload \<and>
    st_index s1 = index_insert (st_index s) b k \<and>
    (\<exists>u \<in> range (ext_uuid (ext s)).
       object_state s1 b k = spec_put (versioning s b) u (ob\<lparr>obj_data := data\<rparr>) (object_state s b k))"
  using put_spec_flags [OF assms] by blast

section \<open>History changes and deletes\<close>

lemma history_done:
  assumes x: "uuids_valid (ext s)" and c: "consistent s d" and f: "faults s = []" and wf: "tree_wf (fs_get s)"
    and ok: "history_request s d promoted b rm mk cl"
    and run: "change_history d promoted rm mk cl s = (r, s1)"
  shows "r = Done ()" "consistent s1 d"
    "\<And>p. \<not> scratch_in (ext s) d p \<Longrightarrow> file_content s1 p = rewritten d promoted b rm mk cl (view s d) p"
    and "kept (ext s) (fs_get s) d rm (Option.bind mk obj_version_id) InMemory (fs_get s1)" and "rest_same s s1" and "faults s1 = []"
proof -
  obtain r' s2 where rec: "recover_publication d (s1\<lparr>faults := []\<rparr>) = (r', s2)" by force
  note out = history_outcome [OF x c ok run rec, simplified]
  show r: "r = Done ()" and "consistent s1 d" using out f by blast+
  note fr = change_history_frame [OF frame_base_stored(1) [OF c x] wf f run]
  show "kept (ext s) (fs_get s) d rm (Option.bind mk obj_version_id) InMemory (fs_get s1)" "rest_same s s1" "faults s1 = []"
    using fr by auto
  then have "ext s1 = ext s" by (simp add: rest_same_def)
  then show "file_content s1 p = rewritten d promoted b rm mk cl (view s d) p" if "\<not> scratch_in (ext s) d p" for p
    using that out r by (metis view_def)
qed

definition rewrite_state :: "object option \<Rightarrow> string list \<Rightarrow> object option \<Rightarrow> bool \<Rightarrow> object_state \<Rightarrow> object_state" where
  "rewrite_state promoted rm mk cl st =
     \<lparr>current = (case promoted of Some ob \<Rightarrow> Some ob | None \<Rightarrow> if cl then None else current st),
      history = (\<lambda>v. if \<exists>m. mk = Some m \<and> obj_version_id m = Some v then map_option (obj_data_update (\<lambda>_. [])) mk
                     else if v \<in> set rm then None else history st v)\<rparr>"

lemma history_current:
  assumes ok: "store_ok s" and f: "faults s = []" and c: "c = object_dir s b k"
    and req: "history_request s c promoted (Bytes data) rm mk cl"
    and run: "change_history c promoted rm mk cl s = (r, s1)"
  shows "r = Done () \<and> store_ok s1 \<and> control_same s s1 InMemory \<and> others_same s s1 c \<and>
    (fs_get s c = Some Dir \<longrightarrow> fs_get s1 c = Some Dir) \<and>
    object_state s1 b k = rewrite_state (map_option (\<lambda>(ob, p). ob\<lparr>obj_data := data\<rparr>) promoted) rm mk cl (object_state s b k)"
proof -
  have x: "uuids_valid (ext s)" and wf: "tree_wf (fs_get s)" using ok by (auto simp: store_ok_def)
  have snd: "sound_dir s c" "\<And>v. sound_dir s (c @ [VERSIONS, v])" using store_ok_dir [OF ok] by (simp_all add: c)
  then have cons: "consistent s c" by (simp add: sound_dir_def)
  note out = history_done [OF x cons f wf req run]
  have rw: "file_content s1 (c @ q) = rewritten c promoted (Bytes data) rm mk cl (view s c) (c @ q)" if "\<not> scratch (ext s) q" for q
    using out(3) [of "c @ q"] that by simp
  have cur: "held s1 c = (case promoted of Some (ob, p) \<Rightarrow> Some (ob\<lparr>obj_data := data\<rparr>) | None \<Rightarrow> if cl then None else held s c)"
    "paired s1 c"
    using rw [of "[BLOB]"] rw [of "[META]"] snd(1) req
    by (auto simp: held_def paired_def rewritten_def view_def sound_dir_def history_request_def serialize_object_def
        split: option.splits)
  have old: "held s1 (c @ [VERSIONS, v]) = history (rewrite_state promoted' rm mk cl (object_state s b k)) v"
    "paired s1 (c @ [VERSIONS, v])" for v promoted'
    using rw [of "[VERSIONS, v, BLOB]"] rw [of "[VERSIONS, v, META]"] snd(2) [of v] req
    by (auto simp: held_def paired_def rewritten_def view_def sound_dir_def history_request_def serialize_object_def
        rewrite_state_def marker_paths_def object_state_def list_ex_iff c split: option.splits if_splits)
  have "store_ok s1 \<and> others_same s s1 c"
    by (rule store_ok_current_step [OF ok c out(4,5) no_spool(1) out(2) cur(2) old(2)])
  moreover have "control_same s s1 InMemory"
    using c by (intro control_same_kept [OF out(4,5,6) _ no_spool(1)]) auto
  moreover have "object_state s1 b k = rewrite_state (map_option (\<lambda>(ob, p). ob\<lparr>obj_data := data\<rparr>) promoted) rm mk cl (object_state s b k)"
    using cur(1) old(1) object_dir_rest [OF out(5), of b k]
    by (auto simp: object_state_def rewrite_state_def fun_eq_iff c split: option.splits)
  moreover have "fs_get s c = Some Dir \<longrightarrow> fs_get s1 c = Some Dir"
    using kept_cases [OF out(4), of c] by (auto simp: strict_prefix_def)
  ultimately show ?thesis using out(1) by blast
qed

definition no_object :: object_state where
  "no_object = \<lparr>current = None, history = (\<lambda>_. None)\<rparr>"

lemma sound_dir_empty:
  assumes d: "sound_dir s d" and x: "ext s1 = ext s" and wf: "tree_wf (fs_get s1)"
    and none: "\<And>q. prefix d q \<Longrightarrow> fs_get s1 q = None" and up: "\<And>q. prefix q d \<Longrightarrow> q \<noteq> d \<Longrightarrow> fs_get s1 q = fs_get s q \<or> fs_get s1 q = None"
  shows "sound_dir s1 d" "held s1 d = None"
proof -
  have "base_ok d (fs_get s1)"
    using d wf none [of d] up by (fastforce simp: sound_dir_def consistent_def base_ok_def tree_wf_def)
  with none show "sound_dir s1 d"
    by (simp add: sound_dir_def consistent_def paired_def file_content_def path_exists_def kinds_ok_def)
  show "held s1 d = None" using none by (simp add: held_def file_content_def)
qed

lemma remove_object_dir:
  assumes ok: "store_ok s" and f: "faults s = []" and c: "c = object_dir s b k" and there: "fs_get s c = Some Dir"
  obtains s1 where "remove_dir_all c msg s = (Done (), s1)" "store_ok s1" "control_same s s1 InMemory"
    "others_same s s1 c" "object_state s1 b k = no_object"
proof -
  let ?s1 = "fs_delete (prefix c) s"
  have ne: "c \<noteq> []" by (simp add: c)
  have g: "fs_get ?s1 = without (prefix c) (fs_get s)" using ne by (simp add: without_def)
  have run: "remove_dir_all c msg s = (Done (), ?s1)"
    using ne there f by (simp add: remove_dir_all_def syscall_def next_fault_def is_dir_def)
  have x: "ext ?s1 = ext s" by simp
  have dir: "object_dir ?s1 b' k' = object_dir s b' k'" for b' k' by (simp add: object_dir_rest)
  have wf: "tree_wf (fs_get ?s1)" unfolding g using ok ne by (intro tree_wf_without) (simp_all add: store_ok_def)
  have none: "fs_get ?s1 q = None" if "prefix c q" for q using that by (simp add: g without_def)
  have keep: "fs_get ?s1 q = fs_get s q" if "\<not> prefix c q" for q using that by (simp add: g without_def)
  have other: "sound_dir ?s1 d \<and> held ?s1 d = held s d"
    if d: "prefix (object_dir s b' k') d" "object_dir s b' k' \<noteq> c" "sound_dir s d" for b' k' d
  proof -
    have "\<not> prefix c (d @ q)" for q using d(1,2) object_dirs_apart [of s b k "d @ q" b' k'] by (auto simp: c prefix_def)
    moreover have "fs_get ?s1 q \<noteq> Some (File fc)" if "prefix q d" for q fc
    proof -
      have "fs_get s q \<noteq> Some (File fc)" using d(3) that by (simp add: sound_dir_def consistent_def base_ok_def)
      then show ?thesis using keep [of q] none [of q] by (cases "prefix c q") auto
    qed
    ultimately show ?thesis using sound_dir_unchanged [OF d(3) wf x] keep by blast
  qed
  have own: "sound_dir ?s1 d" "held ?s1 d = None" if "prefix c d" "sound_dir s d" for d
  proof -
    have "fs_get ?s1 q = None" if "prefix d q" for q using that \<open>prefix c d\<close> by (intro none) (rule prefix_order.trans)
    moreover have "fs_get ?s1 q = fs_get s q \<or> fs_get ?s1 q = None" for q
      using keep [of q] none [of q] by (cases "prefix c q") simp_all
    ultimately show "sound_dir ?s1 d" "held ?s1 d = None" using sound_dir_empty [OF that(2) x wf] by simp_all
  qed
  note dirs = store_ok_dir [OF ok]
  have "sound_dir ?s1 (object_dir s b' k')" "sound_dir ?s1 (object_dir s b' k' @ [VERSIONS, v])" for b' k' v
    using other [of b' k', OF _ _ dirs(1)] other [of b' k', OF _ _ dirs(2)] own(1) [OF _ dirs(1)] own(1) [OF _ dirs(2)]
    by (metis prefix_order.refl prefixI)+
  then have "store_ok ?s1" using ok wf by (simp add: store_ok_def dir)
  moreover have "others_same s ?s1 c"
    using other [OF prefix_order.refl _ dirs(1)] other [OF prefixI [OF refl] _ dirs(2)] unfolding others_same_def by blast
  moreover have "object_state ?s1 b k = no_object"
    using own(2) [OF _ dirs(1), of b k] own(2) [OF _ dirs(2), of b k] unfolding object_state_def no_object_def dir
    by (simp add: c)
  moreover have "control_same s ?s1 InMemory"
    unfolding control_same_def
  proof (intro conjI allI impI)
    fix b' assume "bucket_exists s b'"
    moreover have "\<not> prefix c (bucket_dir s b')"
      by (auto simp: c object_dir_bucket bucket_dir_def dest!: prefix_length_le)
    ultimately show "bucket_exists ?s1 b'" using keep by (simp add: bucket_exists_def path_exists_def bucket_dir_rest [OF put_rest(2)])
  next
    fix q assume "\<forall>b k. \<not> prefix (object_dir s b k) q \<and> \<not> prefix q (object_dir s b k)"
    then show "fs_get ?s1 q = fs_get s q" using keep c by blast
  qed (use f in auto)
  ultimately show ?thesis using that run by blast
qed

fun spec_delete :: "versioning \<Rightarrow> object \<Rightarrow> object_state \<Rightarrow> object_state option" where
  "spec_delete Unversioned marker st = (if current st = None then None else Some no_object)"
| "spec_delete Versioned marker st =
     Some (rewrite_state None [] (Some marker) True (keep_current True st))"
| "spec_delete Suspended marker st =
     Some (rewrite_state None [''null''] (Some marker) True (keep_current False st))"

lemma only_object_control:
  assumes "control_same s s1 InMemory" "others_same s s1 (object_dir s b k)"
  shows "only_object s s1 b k InMemory"
  using assms by (simp add: only_object_def control_same_def rest_same_def)

lemma delete_unversioned:
  assumes ok: "store_ok s" and f: "faults s = []" and m: "versioning s b = Unversioned"
    and run: "delete_object b k s = (r, s1)"
  shows "(case spec_delete Unversioned marker (object_state s b k) of
      None \<Rightarrow> r = Failed KeyNotFound \<and> undisturbed s s1
    | Some st \<Rightarrow> r = Done () \<and> store_ok s1 \<and> faults s1 = [] \<and> only_object s s1 b k InMemory \<and>
        st_index s1 = fst (index_remove (st_index s) b k) \<and> object_state s1 b k = st)"
proof -
  let ?c = "object_dir s b k"
  have m': "\<not> is_versioning_enabled s b" "\<not> is_versioning_suspended s b"
    using m by (auto simp: versioning_def split: if_splits)
  obtain s0 where rd: "read_object_metadata_locked b k s = (read_outcome (map_option serialize_object (held s ?c)), s0)"
    and u: "undisturbed s s0" using read_metadata_spec [OF ok f] .
  note u' = undisturbed_facts [OF u]
  show ?thesis
  proof (cases "held s ?c")
    case None
    with rd run m' u show ?thesis by (simp add: delete_object_def bind_io_def gets_def object_state_def)
  next
    case (Some ob)
    obtain r2 s2 where ch: "change_history ?c None [] None True s0 = (r2, s2)" by force
    have req: "history_request s0 ?c None (Bytes []) [] None True" by (simp add: history_request_def)
    note H = history_current [OF u'(1,2) u'(4) [symmetric] req ch]
    have c2: "object_dir s2 b' k' = object_dir s b' k'" for b' k'
      using H object_dir_rest [of s0 s2 b' k'] u'(4) by (simp add: control_same_def)
    have wf0: "tree_wf (fs_get s0)" using u'(1) by (simp add: store_ok_def)
    have "fs_get s0 ?c = Some Dir"
      using Some sound_read [OF store_ok_dir(1) [OF u'(1), of b k]] u'(4,5) [of b k] wf0
      by (metis object_dir_not_Nil option.discI parent_snoc path_exists_def snoc_eq_iff_butlast tree_wf_def)
    then have there: "fs_get s2 ?c = Some Dir" using H by blast
    have s2: "store_ok s2" "faults s2 = []" "rest_same s s2" "control_same s s2 InMemory"
      using H u u'(3) control_same_trans [of s s0 s2 InMemory]
      by (auto simp: control_same_def undisturbed_def intro: rest_same_trans)
    obtain s3 where rm: "remove_dir_all ?c ''Failed to remove retired object directory'' s2 = (Done (), s3)"
      and s3: "store_ok s3" "control_same s2 s3 InMemory" "others_same s2 s3 ?c" "object_state s3 b k = no_object"
      using remove_object_dir [OF s2(1,2) c2 [symmetric] there] .
    have "fs_get s2 (bucket_dir s b) \<noteq> None"
      using tree_wf_ancestor [of "fs_get s2" ?c "bucket_dir s b"] there s2(1) by (simp add: store_ok_def object_dir_bucket)
    then have "bucket_exists s2 b" by (simp add: bucket_exists_def path_exists_def bucket_dir_rest [OF s2(3)])
    then have "bucket_exists s3 b" "rest_same s s3" "faults s3 = []" using s3(2) s2(3) by (auto simp: control_same_def intro: rest_same_trans)
    then have sync: "bind_io (gets (\<lambda>s. bucket_dir s b)) sync_directory s3 = (Done (), s3)"
      by (simp add: bind_io_def gets_def sync_directory_def sync_path_def syscall_def next_fault_def bucket_exists_def)
    have "delete_object b k s = (Done (), s3\<lparr>st_index := fst (index_remove (st_index s3) b k)\<rparr>)"
      using rd Some m' H ch rm sync
      by (simp add: delete_object_def bind_io_def gets_def index_drop_def modify_def)
    moreover have "only_object s s3 b k InMemory"
    proof (rule only_object_control)
      show "control_same s s3 InMemory" using control_same_trans [OF s2(4) s3(2)] .
      have "others_same s s0 ?c" by (simp add: others_same_def u')
      from others_same_trans [OF this _ u'(3)] H have "others_same s s2 ?c" by blast
      from others_same_trans [OF this s3(3) s2(3)] show "others_same s s3 ?c" .
    qed
    ultimately show ?thesis
      using run s3 Some \<open>rest_same s s3\<close> \<open>faults s3 = []\<close>
      by (auto simp: object_state_def only_object_def rest_same_def)
  qed
qed

lemma delete_marker_fields [simp]:
  "obj_size (delete_marker x k v now) = 0" "obj_version_id (delete_marker x k v now) = Some v"
  "obj_data (delete_marker x k v now) = []"
  by (simp_all add: delete_marker_def new_object_def new_with_metadata_def new_with_metadata_and_etag_def)

lemma delete_versioned:
  assumes ok: "store_ok s" and f: "faults s = []" and m: "versioning s b \<noteq> Unversioned" and b: "bucket_exists s b"
    and run: "delete_object b k s = (r, s1)"
  shows "\<exists>v now. (versioning s b = Suspended \<longrightarrow> v = ''null'') \<and>
    r = Done () \<and> store_ok s1 \<and> faults s1 = [] \<and> only_object s s1 b k InMemory \<and>
    st_index s1 = fst (index_remove (st_index s) b k) \<and>
    Some (object_state s1 b k) = spec_delete (versioning s b) (delete_marker (ext s) k v now) (object_state s b k)"
proof -
  let ?c = "object_dir s b k" let ?e = "is_versioning_enabled s b" and ?sus = "is_versioning_suspended s b"
  have m': "?e \<or> ?sus" "?e \<longleftrightarrow> \<not> ?sus" "versioning s b = (if ?sus then Suspended else Versioned)"
    using m enabled_not_suspended [of s b] by (auto simp: versioning_def split: if_splits)
  obtain s0 where sn: "snapshot_current b k ?e s = (Done (), s0)" and s0: "store_ok s0" "control_same s s0 InMemory"
    "others_same s s0 ?c" "object_state s0 b k = keep_current ?e (object_state s b k)"
    using snapshot_spec [OF ok f] .
  define v where "v = (if ?sus then ''null'' else ext_uuid (ext s0) (uuid_count s0))"
  define s2 where "s2 = s0\<lparr>uuid_count := (if ?sus then uuid_count s0 else uuid_count s0 + 1)\<rparr>"
  define now where "now = ext_now (ext s0) (clock_count s0)"
  let ?s3 = "s2\<lparr>clock_count := clock_count s0 + 1\<rparr>" and ?mk = "delete_marker (ext s) k v now" and ?rm = "if ?sus then [''null''] else []"
  have s3: "store_ok ?s3" "faults ?s3 = []" "control_same s ?s3 InMemory" "others_same s ?s3 ?c" "ext ?s3 = ext s"
      "object_state ?s3 b k = keep_current ?e (object_state s b k)"
    using s0 by (auto simp: s2_def control_same_def rest_same_def)
  have c3: "object_dir ?s3 b k = ?c" using s0(2) object_dir_rest [of s s0] by (simp add: s2_def control_same_def)
  have ids: "(if ?sus then return ''null'' else new_uuid) s0 = (Done v, s2)"
    by (simp add: v_def s2_def return_def new_uuid_def)
  obtain r4 s4 where ch: "change_history ?c None ?rm (Some ?mk) True ?s3 = (r4, s4)" by force
  have "version_id_ok v" using s0(1) by (simp add: v_def store_ok_def version_id_ok_def)
  then have req: "history_request ?s3 ?c None (Bytes []) ?rm (Some ?mk) True"
    by (simp add: history_request_def version_id_ok_def)
  note H = history_current [OF s3(1,2) c3 [symmetric] req ch]
  let ?s5 = "s4\<lparr>st_index := fst (index_remove (st_index s4) b k)\<rparr>"
  have "delete_object b k s = (Done (), ?s5)"
    using m'(1) b sn ids ch H s3(5) s0(2)
    by (simp add: delete_object_def bind_io_def gets_def require_bucket_def guard_io_def return_def now_io_def now_def
        index_drop_def modify_def s2_def control_same_def rest_same_def)
  moreover have "only_object s s4 b k InMemory"
  proof (rule only_object_control)
    show "control_same s s4 InMemory" using H control_same_trans [OF s3(3)] by blast
    have "rest_same s ?s3" using s3(3) by (simp add: control_same_def)
    with H show "others_same s s4 ?c" using others_same_trans [OF s3(4)] by blast
  qed
  moreover have "st_index s4 = st_index s" using H s3(3) by (simp add: control_same_def rest_same_def)
  moreover have "object_state s4 b k = rewrite_state None ?rm (Some ?mk) True (keep_current ?e (object_state s b k))"
    using H s3(6) by simp
  moreover have "faults s4 = []" using H by (simp add: control_same_def)
  ultimately have "(versioning s b = Suspended \<longrightarrow> v = ''null'') \<and>
    r = Done () \<and> store_ok s1 \<and> faults s1 = [] \<and> only_object s s1 b k InMemory \<and>
    st_index s1 = fst (index_remove (st_index s) b k) \<and>
    Some (object_state s1 b k) = spec_delete (versioning s b) ?mk (object_state s b k)"
    using run H m'(2,3) by (auto simp: v_def only_object_def)
  then show ?thesis by blast
qed

section \<open>Reading a version\<close>

definition spec_version :: "object_state \<Rightarrow> string \<Rightarrow> object res" where
  "spec_version st v =
     (case history st v of
        Some ob \<Rightarrow> Ok (ob\<lparr>obj_version_id := Some v\<rparr>)
      | None \<Rightarrow>
         (case current st of
            Some ob \<Rightarrow> if obj_version_id ob = Some v then Ok ob else Err NoSuchVersion
          | None \<Rightarrow> Err NoSuchVersion))"

definition outcome_of :: "'a res \<Rightarrow> 'a outcome" where
  "outcome_of r = (case r of Ok a \<Rightarrow> Done a | Err e \<Rightarrow> Failed e)"

lemma outcome_of_simps [simp]: "outcome_of (Ok a) = Done a" "outcome_of (Err e) = Failed e"
  by (simp_all add: outcome_of_def)

lemma recover_version_dir:
  assumes ok: "store_ok s" and f: "faults s = []"
  obtains s1 where "recover_publication (object_dir s b k @ [VERSIONS, v]) s = (Done (), s1)" "undisturbed s s1"
proof -
  obtain r s1 where run: "recover_publication (object_dir s b k @ [VERSIONS, v]) s = (r, s1)" by force
  have "consistent s (object_dir s b k @ [VERSIONS, v])" using store_ok_dir [OF ok] by (simp add: sound_dir_def)
  from recover_quiet [OF ok f this _ run] have "r = Done ()" "undisturbed s s1" by (auto simp: undisturbed_def)
  with run that show ?thesis by blast
qed

lemma object_state_undisturbed: "undisturbed s s1 \<Longrightarrow> object_state s1 b k = object_state s b k"
  by (simp add: object_state_def undisturbed_facts)

lemma get_version_spec:
  assumes ok: "store_ok s" and f: "faults s = []" and b: "bucket_exists s b" and v: "version_id_ok v"
  obtains s1 where "get_object_version b k v s = (outcome_of (spec_version (object_state s b k) v), s1)" "undisturbed s s1"
proof -
  let ?c = "object_dir s b k"
  obtain s1 where r1: "recover_publication ?c s = (Done (), s1)" and u1: "undisturbed s s1"
    using recover_current [OF ok f] by blast
  note u1' = undisturbed_facts [OF u1]
  obtain s2 where r2: "recover_publication (?c @ [VERSIONS, v]) s1 = (Done (), s2)" and u2: "undisturbed s1 s2"
    using recover_version_dir [OF u1'(1,2), of b k v] u1'(4) by metis
  note u2' = undisturbed_facts [OF u2]
  have u: "undisturbed s s2" using undisturbed_trans [OF u1 u2] .
  obtain s3 where rd: "read_object_locked b k s2 = (read_outcome (held s ?c), s3)" and u3: "undisturbed s2 s3"
    using read_object_spec [OF u2'(1,2), of b k] by (metis u1'(4,5) u2'(4,5))
  have v2: "sound_dir s2 (?c @ [VERSIONS, v])" "held s2 (?c @ [VERSIONS, v]) = held s (?c @ [VERSIONS, v])"
    using store_ok_dir(2) [OF u2'(1), of b k v] u1'(4,6) u2'(4,6) by metis+
  show ?thesis
    using v2(1)
  proof (cases rule: sound_read)
    case Absent
    then have "get_object_version b k v s = (outcome_of (spec_version (object_state s b k) v), s3)"
      using b v r1 r2 rd v2(2)
      by (auto simp: get_object_version_def bind_io_def gets_def require_bucket_def guard_io_def validate_version_id_def return_def
          map_error_def try_io_def read_outcome_def spec_version_def object_state_def throw_def not_found_as_no_version_def
          split: option.splits)
    then show ?thesis using that undisturbed_trans [OF u u3] by blast
  next
    case (Present data m)
    then have "get_object_version b k v s = (outcome_of (spec_version (object_state s b k) v), s2)"
      using b v r1 r2 v2(2)
      by (auto simp: get_object_version_def bind_io_def gets_def require_bucket_def guard_io_def validate_version_id_def return_def
          spec_version_def object_state_def read_object_metadata_def read_bytes_def read_file_def)
    then show ?thesis using that u by blast
  qed
qed

section \<open>Metadata of the current object\<close>

lemma at_rest_meta:
  assumes a: "at_rest x d f t"
  shows "at_rest x d (f(d @ [META] \<mapsto> c)) (t(d @ [META] \<mapsto> File c))"
proof -
  have "kinds_ok x d (t(d @ [META] \<mapsto> File c))"
    by (intro kinds_put [OF at_rest_kinds [OF a]]) auto
  with a show ?thesis by (auto simp: at_rest_def settled_def intro: base_ok_put)
qed

lemma runs_write_meta:
  assumes x: "uuids_valid x" and a: "at_rest x d f t"
  shows "runs x nf (\<lambda>t'. at_rest x d f t' \<or> at_rest x d (f(d @ [META] \<mapsto> c)) t') t (atomic_write (d @ [META]) c)
      (\<lambda>_. at_rest x d (f(d @ [META] \<mapsto> c)))"
proof (rule runs_conseq)
  have rd: "replace_dir x []" by (simp add: replace_dir_def)
  have dir: "t d = Some Dir" using a by (simp add: at_rest_def)
  have new: "at_rest x d (f(d @ [META] \<mapsto> c)) t'" if "tmp_eq (publication_temp x) d (t(d @ [META] \<mapsto> File c)) t'" for t'
    using at_rest_tmp [OF at_rest_meta [OF a], of "[]"] that rd dir by simp
  have old: "at_rest x d f t'" if "tmp_eq (publication_temp x) d t t'" for t'
    using at_rest_tmp [OF a, of "[]"] that rd dir by simp
  show "runs x nf (\<lambda>t'. at_rest x d f t' \<or> at_rest x d (f(d @ [META] \<mapsto> c)) t') t (atomic_write (d @ [META]) c)
      (\<lambda>_. tmp_eq (publication_temp x) d (t(d @ [META] \<mapsto> File c)))"
    by (rule runs_write_in [OF x at_rest_kinds [OF a], of "[]" META, simplified])
      (use rd dir old new in \<open>auto simp: replacing_def\<close>)
  show "tmp_eq (publication_temp x) d (t(d @ [META] \<mapsto> File c)) t' \<Longrightarrow> at_rest x d (f(d @ [META] \<mapsto> c)) t'" for t' using new .
qed auto

lemma write_meta_step:
  assumes ok: "store_ok s" and f: "faults s = []" and c: "c = object_dir s b k" and cur: "held s c = Some ob"
    and size: "obj_size m' = obj_size ob" and run: "write_object_metadata (c @ [META]) m' s = (r, s1)"
  shows "r = Done () \<and> store_ok s1 \<and> control_same s s1 InMemory \<and> others_same s s1 c \<and>
    object_state s1 b k = (object_state s b k)\<lparr>current := Some (m'\<lparr>obj_data := obj_data ob\<rparr>)\<rparr>"
proof -
  have x: "uuids_valid (ext s)" and wf: "tree_wf (fs_get s)" using ok by (auto simp: store_ok_def)
  have snd: "sound_dir s c" "\<And>v. sound_dir s (c @ [VERSIONS, v])" using store_ok_dir [OF ok] by (simp_all add: c)
  then have cons: "consistent s c" by (simp add: sound_dir_def)
  obtain data m where m: "ob = m\<lparr>obj_data := data\<rparr>" "file_content s (c @ [BLOB]) = Some (Bytes data)" "obj_size m = length data"
    "path_exists s (c @ [BLOB])"
    using sound_read [OF snd(1)] cur by (metis option.inject option.discI)
  have "fs_get s c = Some Dir" using m(4) wf unfolding tree_wf_def path_exists_def
    by (metis append_is_Nil_conv list.discI parent_snoc)
  then have a: "at_rest (ext s) c (view s c) (fs_get s)" using consistent_settled [OF cons] by (simp add: at_rest_def)
  let ?j = "ObjectJson (serialize_object m')"
  note R = runsD [OF runs_write_meta [OF x a, where c = ?j and nf = True] refl refl _ run [unfolded write_object_metadata_def]]
  have r: "r = Done ()" using R(5) f by auto
  have rest: "rest_same s s1" "faults s1 = []" using R(1,2) f by auto
  have x1: "ext s1 = ext s" using rest(1) by (simp add: rest_same_def)
  have "at_rest (ext s) c ((view s c)(c @ [META] \<mapsto> ?j)) (fs_get s1)" using R(4) [OF _ r] f by simp
  then have set: "settled (ext s1) c ((view s c)(c @ [META] \<mapsto> ?j)) (fs_get s1)" using x1 by (simp add: at_rest_def)
  have c1: "consistent s1 c" using settled_consistent [OF set] consistent_journal [OF cons] by simp
  have fl: "file_content s1 (c @ q) = (if q = [META] then Some ?j else file_content s (c @ q))" if "\<not> scratch (ext s) q" for q
    using settled_view [OF set, of "c @ q"] that x1 by (auto simp: view_def)
  have held: "held s1 c = Some (m'\<lparr>obj_data := obj_data ob\<rparr>)" "paired s1 c"
    using fl [of "[BLOB]"] fl [of "[META]"] m size by (simp_all add: held_def paired_def serialize_object_def)
  have old: "held s1 (c @ [VERSIONS, v]) = held s (c @ [VERSIONS, v])" "paired s1 (c @ [VERSIONS, v])" for v
    using fl [of "[VERSIONS, v, BLOB]"] fl [of "[VERSIONS, v, META]"] snd(2) [of v]
    by (simp_all add: held_def paired_def sound_dir_def)
  note b0 = frame_base_stored(1) [OF cons x]
  have "keeps (ext s) (kept (ext s) (fs_get s) c [] None InMemory) (atomic_write (c @ [META]) ?j)"
    by (intro keeps_write_slot [OF b0 dirs_current _ slot_current [OF b0]] file_slotD [OF slot_current [OF b0]]) auto
  from keepsD(1) [OF this run [unfolded write_object_metadata_def] refl f]
  have k: "kept (ext s) (fs_get s) c [] None InMemory (fs_get s1)" using wf by (simp add: within_def)
  have "store_ok s1 \<and> others_same s s1 c"
    by (rule store_ok_current_step [OF ok c k rest(1) no_spool(1) c1 held(2) old(2)])
  moreover have "control_same s s1 InMemory"
    using c by (intro control_same_kept [OF k rest _ no_spool(1)]) auto
  moreover have "object_state s1 b k = (object_state s b k)\<lparr>current := Some (m'\<lparr>obj_data := obj_data ob\<rparr>)\<rparr>"
    using held old object_dir_rest [OF rest(1), of b k] by (simp add: object_state_def c)
  ultimately show ?thesis using r by blast
qed

lemma modify_spec:
  assumes ok: "store_ok s" and f: "faults s = []" and g: "\<And>m. obj_size (g m) = obj_size m"
    and run: "modify_object_metadata b k g s = (r, s1)"
  shows "case current (object_state s b k) of
      None \<Rightarrow> r = Failed KeyNotFound \<and> undisturbed s s1
    | Some ob \<Rightarrow> r = Done () \<and> store_ok s1 \<and> control_same s s1 InMemory \<and> others_same s s1 (object_dir s b k) \<and>
        object_state s1 b k = (object_state s b k)\<lparr>current := Some ((g (serialize_object ob))\<lparr>obj_data := obj_data ob\<rparr>)\<rparr>"
proof -
  let ?c = "object_dir s b k"
  obtain s0 where rec: "recover_publication ?c s = (Done (), s0)" and u: "undisturbed s s0"
    and s0: "sound_dir s0 ?c" "held s0 ?c = held s ?c"
    using recover_current [OF ok f] .
  note u' = undisturbed_facts [OF u]
  show ?thesis
    using s0(1)
  proof (cases rule: sound_read)
    case Absent
    then show ?thesis using rec run u s0(2)
      by (simp add: modify_object_metadata_def bind_io_def gets_def guard_io_def throw_def object_state_def)
  next
    case (Present data m)
    have ser: "serialize_object (m\<lparr>obj_data := data\<rparr>) = m" using Present(5) by (simp add: serialize_object_def)
    have w: "write_object_metadata (?c @ [META]) (g m) s0 = (r, s1)"
      using Present rec run
      by (simp add: modify_object_metadata_def bind_io_def gets_def return_def read_object_metadata_def read_file_def)
    have "obj_size (g m) = obj_size (m\<lparr>obj_data := data\<rparr>)" using g by simp
    note W = write_meta_step [OF u'(1,2) u'(4) [symmetric] Present(1) this w]
    moreover have "control_same s s0 InMemory" using u by (simp add: undisturbed_def)
    moreover have "others_same s s0 ?c" by (simp add: others_same_def u')
    ultimately show ?thesis
      using control_same_trans [of s s0 s1 InMemory] others_same_trans [of s s0 ?c s1] u'(3)
        object_state_undisturbed [OF u, of b k] Present(1) s0(2) ser
      by (simp add: object_state_def)
  qed
qed

section \<open>Conditions and ranges\<close>

fun holds_for :: "object_condition \<Rightarrow> object option \<Rightarrow> bool" where
  "holds_for (All conditions) st = list_all (\<lambda>c. holds_for c st) conditions"
| "holds_for Missing st = (st = None)"
| "holds_for (Etag e) st = (\<exists>ob. st = Some ob \<and> obj_etag ob = e)"
| "holds_for (EtagIn es) st = (\<exists>ob. st = Some ob \<and> obj_etag ob \<in> set es)"
| "holds_for (EtagNotIn es) st = (\<exists>ob. st = Some ob \<and> obj_etag ob \<notin> set es)"
| "holds_for (MissingOrEtagNotIn es) st = (\<forall>ob. st = Some ob \<longrightarrow> obj_etag ob \<notin> set es)"
| "holds_for (Metadata k v) st = (\<exists>ob. st = Some ob \<and> obj_metadata ob k = Some v)"
| "holds_for (MetadataNot k v) st = (\<exists>ob. st = Some ob \<and> obj_metadata ob k \<noteq> Some v)"

definition decides :: "bool io \<Rightarrow> world \<Rightarrow> bool \<Rightarrow> bool" where
  "decides m s v \<longleftrightarrow> (\<exists>s1. m s = (Done v, s1) \<and> undisturbed s s1)"

lemma undisturbed_refl: "store_ok s \<Longrightarrow> faults s = [] \<Longrightarrow> undisturbed s s"
  by (simp add: undisturbed_def same_objects_def control_same_def)

lemma decides_all:
  assumes "\<And>c s. c \<in> set cs \<Longrightarrow> store_ok s \<Longrightarrow> faults s = [] \<Longrightarrow> object_state s b k = st \<Longrightarrow> decides (f c) s (P c)"
    and "store_ok s" "faults s = []" "object_state s b k = st"
  shows "decides (all_io (map f cs)) s (list_all P cs)"
  using assms
proof (induction cs arbitrary: s)
  case Nil
  then show ?case by (simp add: decides_def return_def undisturbed_refl)
next
  case (Cons c cs)
  from Cons.prems have "decides (f c) s (P c)" by simp
  then obtain s1 where s1: "f c s = (Done (P c), s1)" "undisturbed s s1" by (auto simp: decides_def)
  note u = undisturbed_facts [OF s1(2)]
  have "decides (all_io (map f cs)) s1 (list_all P cs)"
    using Cons.prems u(1,2) object_state_undisturbed [OF s1(2), of b k] by (intro Cons.IH) simp_all
  then obtain s2 where "all_io (map f cs) s1 = (Done (list_all P cs), s2)" "undisturbed s1 s2" by (auto simp: decides_def)
  with s1 undisturbed_trans [OF s1(2)] show ?case
    by (cases "P c") (auto simp: decides_def bind_io_def return_def)
qed

lemma serialize_fields [simp]: "obj_etag (serialize_object ob) = obj_etag ob" "obj_metadata (serialize_object ob) = obj_metadata ob"
  by (simp_all add: serialize_object_def)

lemma decides_simple:
  assumes ok: "store_ok s" and f: "faults s = []" and c: "\<And>cs. cond \<noteq> All cs"
  shows "decides (object_condition_matches b k cond) s (holds_for cond (current (object_state s b k)))"
proof -
  obtain s1 where rd: "read_object_metadata_locked b k s = (read_outcome (map_option serialize_object (held s (object_dir s b k))), s1)"
    and u: "undisturbed s s1" using read_metadata_spec [OF ok f] .
  have "object_condition_matches b k cond = bind_io (try_io (read_object_metadata_locked b k)) (\<lambda>r. of_result (match_condition cond r))"
    using c by (cases cond) auto
  with rd u c show ?thesis
    by (cases "held s (object_dir s b k)"; cases cond)
      (auto simp: decides_def bind_io_def try_io_def of_result_def match_condition_def return_def object_state_def list_ex_iff)
qed

lemma condition_spec:
  assumes "store_ok s" "faults s = []"
  shows "decides (object_condition_matches b k cond) s (holds_for cond (current (object_state s b k)))"
  using assms
proof (induction cond arbitrary: s)
  case (All cs)
  show ?case
    unfolding object_condition_matches.simps holds_for.simps
  proof (rule decides_all [where st = "object_state s b k" and b = b and k = k])
    fix c s' assume "c \<in> set cs" "store_ok s'" "faults s' = []" "object_state s' b k = object_state s b k"
    with All.IH [of c s'] show "decides (object_condition_matches b k c) s' (holds_for c (current (object_state s b k)))" by simp
  qed (use All.prems in auto)
qed (rule decides_simple; simp)+

text \<open>The bytes a range request selects, or why it is refused.\<close>

definition spec_range :: "object option \<Rightarrow> nat \<Rightarrow> nat option \<Rightarrow> (object \<times> bytes) res" where
  "spec_range found start end_opt =
     (case found of
        None \<Rightarrow> Err KeyNotFound
      | Some ob \<Rightarrow>
          let len = length (obj_data ob); final = (case end_opt of None \<Rightarrow> len - 1 | Some e \<Rightarrow> min e (len - 1)) in
          if len \<le> start then Err (InvalidRequest ''Range start beyond file size'')
          else if final < start then Err (InvalidRequest ''Invalid range: end < start'')
          else Ok (serialize_object ob, drop start (take (Suc final) (obj_data ob))))"

lemma range_spec:
  assumes ok: "store_ok s" and f: "faults s = []"
  obtains s1 where "get_object_range b k start end_opt s =
      (outcome_of (spec_range (current (object_state s b k)) start end_opt), s1)" "undisturbed s s1"
proof -
  let ?c = "object_dir s b k"
  obtain s1 where s1: "recover_publication ?c s = (Done (), s1)" "undisturbed s s1" "sound_dir s1 ?c" "held s1 ?c = held s ?c"
    using recover_current [OF ok f] .
  have "get_object_range b k start end_opt s = (outcome_of (spec_range (current (object_state s b k)) start end_opt), s1)"
    using s1(3)
  proof (cases rule: sound_read)
    case Absent
    with s1(1,4) show ?thesis
      by (simp add: get_object_range_def read_object_range_locked_def bind_io_def gets_def guard_io_def throw_def
          spec_range_def object_state_def)
  next
    case (Present data m)
    then have h: "held s ?c = Some (m\<lparr>obj_data := data\<rparr>)" "serialize_object (m\<lparr>obj_data := data\<rparr>) = m"
      using s1(4) by (simp_all add: serialize_object_def)
    define final where "final = (case end_opt of None \<Rightarrow> length data - 1 | Some e \<Rightarrow> min e (length data - 1))"
    have final': "(case end_opt of None \<Rightarrow> obj_size m - 1 | Some e \<Rightarrow> min e (obj_size m - 1)) = final"
      unfolding final_def Present(4) ..
    have final: "\<not> length data \<le> start \<Longrightarrow> final < length data" by (auto simp: final_def split: option.splits)
    have "get_object_range b k start end_opt s =
        (if length data \<le> start then Failed (InvalidRequest ''Range start beyond file size'')
         else if final < start then Failed (InvalidRequest ''Invalid range: end < start'')
         else Done (m, take (final - start + 1) (drop start data)), s1)"
      using Present s1(1) final
      by (simp add: get_object_range_def read_object_range_locked_def bind_io_def gets_def guard_io_def throw_def return_def
          read_object_metadata_def read_file_def read_exact_at_def read_bytes_def Let_def final' Suc_le_eq)
    also have "\<dots> = (outcome_of (spec_range (current (object_state s b k)) start end_opt), s1)"
      using h by (simp add: spec_range_def object_state_def Let_def final_def [symmetric] drop_take Suc_diff_le)
    finally show ?thesis .
  qed
  with s1(2) that show ?thesis by blast
qed

end
