(* ===== verification/Object_Store.thy ===== *)
theory Object_Store
  imports Store_Correct Samples
begin

text \<open>
  The properties of the object operations (\<^verbatim>\<open>put_object\<close>, \<^verbatim>\<open>get_object\<close>, \<^verbatim>\<open>delete_object\<close>,
  versions, ranges, conditional and metadata updates of \<^verbatim>\<open>src/src/storage/filesystem.rs\<close>),
  with the concrete store on which they are exercised.
\<close>

section \<open>A concrete store\<close>

lemma lower_hex_dot: "CHR ''.'' \<notin> set (lower_hex n)"
proof (induction n rule: lower_hex.induct)
  case (1 n)
  have d: "hex_digit d \<noteq> CHR ''.''" if "d < 16" for d
    using hex_value_digit [OF that] by (auto simp: hex_value_def Let_def)
  show ?case
    using 1 d [of n] d [of "n mod 16"] by (subst lower_hex.simps) (auto simp: eq_commute)
qed

lemma lower_hex_not_dot [simp]: "lower_hex n \<noteq> CHR ''.'' # m" "CHR ''.'' # m \<noteq> lower_hex n"
  using lower_hex_dot [of n] by (metis list.set_intros(1))+

lemma control_outside:
  "\<not> prefix (object_dir s b' k') (bucket_dir s b @ [CHR ''.'' # m]) \<and> \<not> prefix (bucket_dir s b @ [CHR ''.'' # m]) (object_dir s b' k')"
  by (auto simp: object_dir_bucket bucket_dir_def)

text \<open>The versioning state is a file of the bucket.\<close>

lemma versioning_same:
  assumes "ext s1 = ext s" "base_path s1 = base_path s" "fs_get s1 (versioning_marker s b) = fs_get s (versioning_marker s b)"
  shows "versioning s1 b = versioning s b"
  using assms by (simp add: versioning_def is_versioning_enabled_def is_versioning_suspended_def versioning_marker_def path_exists_def
      file_content_def bucket_dir_def)

lemma only_object_versioning: "only_object s s1 b k InMemory \<Longrightarrow> versioning s1 b' = versioning s b'"
  using control_outside [of s _ _ b'] by (intro versioning_same) (simp_all add: only_object_def versioning_marker_def)

lemma undisturbed_versioning: "undisturbed s s1 \<Longrightarrow> versioning s1 b = versioning s b"
  using control_outside [of s _ _ b]
  by (intro versioning_same) (simp_all add: undisturbed_def control_same_def rest_same_def versioning_marker_def)

text \<open>A store with one bucket and no object; \<open>extra\<close> are control files.\<close>

definition sample_bucket :: "(string \<times> content) list \<Rightarrow> world" where
  "sample_bucket extra =
     sample_world (([''b-xyz''], Dir) # map (\<lambda>(n, c). ([''b-xyz'', ''.'' @ n], File c)) ((''bucket.name'', Bytes (text_bytes ''xyz'')) # extra)) []"

lemma sample_bucket_get:
  assumes "fs_get (sample_bucket extra) q = Some n"
  shows "q = [] \<and> n = Dir \<or> q = [''b-xyz''] \<and> n = Dir \<or> (\<exists>m c. q = [''b-xyz'', ''.'' @ m] \<and> n = File c)"
  using assms by (auto simp: sample_bucket_def fs_get_def split: if_splits dest!: map_of_SomeD)

lemma sample_bucket_fields [simp]: "faults (sample_bucket e) = []" "ext (sample_bucket e) = sample_externs" "base_path (sample_bucket e) = []"
  by (simp_all add: sample_bucket_def)

lemma sample_bucket_ok: "store_ok (sample_bucket extra)"
proof -
  let ?s = "sample_bucket extra"
  have root: "fs_get ?s [] = Some Dir" "fs_get ?s [''b-xyz''] = Some Dir" by (simp_all add: fs_get_def sample_bucket_def)
  have wf: "tree_wf (fs_get ?s)"
    using sample_bucket_get [of extra] root by (fastforce simp: tree_wf_def parent_def)
  have none: "fs_get ?s (object_dir ?s b k @ q) = None" for b k q
    using sample_bucket_get [of extra "object_dir ?s b k @ q"] lower_hex_dot [of "ext_hash64 sample_externs b k"]
    by (cases "fs_get ?s (object_dir ?s b k @ q)") (auto simp: object_dir_bucket bucket_dir_def)
  have sound: "sound_dir ?s d" if d: "d = object_dir ?s b k @ q" for d b k q
  proof -
    have "fs_get ?s p \<noteq> Some (File c)" if "prefix p d" for p c
    proof
      assume f: "fs_get ?s p = Some (File c)"
      then obtain m where p: "p = [''b-xyz'', ''.'' @ m]" using sample_bucket_get by fastforce
      with that have "lower_hex (ext_hash64 sample_externs b k) = ''.'' @ m"
        unfolding d by (auto simp: object_dir_bucket bucket_dir_def prefix_def)
      with lower_hex_dot [of "ext_hash64 sample_externs b k"] show False by simp
    qed
    moreover have "fs_get ?s (d @ r) = None" for r using none [of b k "q @ r"] by (simp add: d)
    ultimately show ?thesis
      using wf d by (auto simp: sound_dir_def consistent_def base_ok_def kinds_ok_def paired_def file_content_def path_exists_def tree_wf_def)
  qed
  have "version_id_ok (ext_uuid sample_externs n)" for n by (auto simp: sample_externs_def version_id_ok_def list_all_iff)
  then show ?thesis
    using wf sound [OF refl, of _ _ "[]"] sound [OF refl] sample_uuids_valid by (simp add: store_ok_def)
qed

lemma sample_bucket_exists [simp]: "bucket_exists (sample_bucket extra) ''xyz''"
  by (simp add: bucket_exists_def path_exists_def bucket_dir_def fs_get_def sample_bucket_def sample_externs_def)

abbreviation plain_bucket :: world where
  "plain_bucket \<equiv> sample_bucket []"

abbreviation versioned_bucket :: world where
  "versioned_bucket \<equiv> sample_bucket [(''versioning-enabled'', Bytes (text_bytes ''enabled''))]"

lemma sample_versioning: "versioning plain_bucket ''xyz'' = Unversioned" "versioning versioned_bucket ''xyz'' = Versioned"
  by (simp_all add: versioning_def is_versioning_enabled_def is_versioning_suspended_def versioning_marker_def path_exists_def
      bucket_dir_def fs_get_def sample_bucket_def sample_externs_def file_content_def text_bytes_def)

lemma sample_no_object: "held (sample_bucket extra) (object_dir (sample_bucket extra) b k @ q) = None"
proof -
  have "fs_get (sample_bucket extra) (object_dir (sample_bucket extra) b k @ r) = None" for r
    using sample_bucket_get [of extra "object_dir (sample_bucket extra) b k @ r"] lower_hex_dot [of "ext_hash64 sample_externs b k"]
    by (cases "fs_get (sample_bucket extra) (object_dir (sample_bucket extra) b k @ r)") (auto simp: object_dir_bucket bucket_dir_def)
  then show ?thesis by (simp add: held_def file_content_def)
qed

section \<open>Writes\<close>

text \<open>
  C3. Writing an object refines its specification. In a sound store, without faults, a write into an
  existing bucket succeeds; the object becomes what the specification says for the versioning state of
  the bucket (the current generation is kept as a version when versioning is enabled, the null version is
  replaced when it is suspended); no other object, no other version and no file of a bucket changes; the
  key is in the index; and the store stays sound. A spooled payload is consumed.
\<close>

theorem put_object_refines:
  assumes "store_ok s" "faults s = []" "bucket_exists s b"
    and "payload_bytes s ob payload = Some data" "obj_size ob = length data" "spool_outside s payload"
    and "put_object_locked_with_payload b k ob payload s = (r, s1)"
  shows "r = Done () \<and> store_ok s1 \<and> faults s1 = [] \<and> only_object s s1 b k payload \<and>
    st_index s1 = index_insert (st_index s) b k \<and>
    (\<exists>u \<in> range (ext_uuid (ext s)).
       object_state s1 b k = spec_put (versioning s b) u (ob\<lparr>obj_data := data\<rparr>) (object_state s b k))"
  using assms by (rule put_spec)

theorem put_object_refines_witness:
  "\<exists>r s1. put_object_locked_with_payload ''xyz'' ''k'' (sample_object [1, 2] None) InMemory plain_bucket = (r, s1) \<and>
     r = Done () \<and> store_ok s1 \<and> current (object_state s1 ''xyz'' ''k'') = Some (sample_object [1, 2] None)"
proof -
  let ?ob = "sample_object [1, 2] None"
  obtain r s1 where run: "put_object_locked_with_payload ''xyz'' ''k'' ?ob InMemory plain_bucket = (r, s1)" by force
  have p: "payload_bytes plain_bucket ?ob InMemory = Some [1, 2]" by (simp add: payload_bytes_def)
  from put_object_refines [OF sample_bucket_ok _ _ p _ _ run]
  have "r = Done ()" "store_ok s1" "\<exists>u. object_state s1 ''xyz'' ''k'' = spec_put Unversioned u ?ob (object_state plain_bucket ''xyz'' ''k'')"
    by (auto simp: sample_versioning sample_object_def)
  with run show ?thesis by (auto simp: install_def sample_object_def)
qed

lemma spec_put_current:
  "\<exists>v. current (spec_put m u ob st) = Some (ob\<lparr>obj_version_id := v\<rparr>) \<and> (m = Unversioned \<longrightarrow> v = None)"
  by (cases m) (auto simp: install_def)

lemma get_object_fst:
  assumes "store_ok s" "faults s = []"
  shows "fst (get_object b k s) = read_outcome (current (object_state s b k))"
proof -
  obtain s1 where "read_object_locked b k s = (read_outcome (held s (object_dir s b k)), s1)"
    using read_object_spec [OF assms] by blast
  then show ?thesis by (simp add: get_object_def object_state_def)
qed

lemma put_object_done:
  assumes "store_ok s" "faults s = []" "bucket_exists s b" "obj_size ob = length (obj_data ob)" "put_object b k ob s = (r, s1)"
  shows "r = Done () \<and> store_ok s1 \<and> faults s1 = [] \<and> only_object s s1 b k InMemory \<and>
    st_index s1 = index_insert (st_index s) b k \<and>
    (\<exists>u \<in> range (ext_uuid (ext s)). object_state s1 b k = spec_put (versioning s b) u ob (object_state s b k))"
  using put_spec [OF assms(1-3) _ assms(4) no_spool(1) assms(5) [unfolded put_object_def]]
  by (simp add: payload_bytes_def)

lemma only_object_others:
  "only_object s s1 b k p \<Longrightarrow> object_dir s b' k' \<noteq> object_dir s b k \<Longrightarrow> object_state s1 b' k' = object_state s b' k'"
  by (simp add: only_object_def others_same_def object_state_def object_dir_def object_id_dir_def bucket_dir_def)

text \<open>
  C6. Round trip: what is written is what is read, byte for byte and with its metadata, except for the
  version identifier the store assigns; and every object in another directory reads as before.
\<close>

theorem put_get_roundtrip:
  assumes ok: "store_ok s" "faults s = []" "bucket_exists s b" and len: "obj_size ob = length (obj_data ob)"
    and put: "put_object b k ob s = (r, s1)" and get: "get_object b k s1 = (r', s2)"
  shows "r = Done () \<and> (\<exists>v. r' = Done (ob\<lparr>obj_version_id := v\<rparr>) \<and> (versioning s b = Unversioned \<longrightarrow> v = None)) \<and>
    (\<forall>b' k'. object_dir s b' k' \<noteq> object_dir s b k \<longrightarrow> fst (get_object b' k' s1) = fst (get_object b' k' s))"
proof -
  note P = put_object_done [OF ok len put]
  then have s1: "store_ok s1" "faults s1 = []" "only_object s s1 b k InMemory" by auto
  from P obtain u where "object_state s1 b k = spec_put (versioning s b) u ob (object_state s b k)" by blast
  then obtain v where v: "current (object_state s1 b k) = Some (ob\<lparr>obj_version_id := v\<rparr>)" "versioning s b = Unversioned \<longrightarrow> v = None"
    using spec_put_current [of "versioning s b" u ob "object_state s b k"] by metis
  have "r' = Done (ob\<lparr>obj_version_id := v\<rparr>)" using get_object_fst [OF s1(1,2), of b k] get v(1) by simp
  moreover have "fst (get_object b' k' s1) = fst (get_object b' k' s)" if "object_dir s b' k' \<noteq> object_dir s b k" for b' k'
    using get_object_fst [OF s1(1,2)] get_object_fst [OF ok(1,2)] only_object_others [OF s1(3) that] by simp
  ultimately show ?thesis using P v(2) by blast
qed

theorem put_get_roundtrip_witness:
  "\<exists>r s1 r' s2. put_object ''xyz'' ''k'' (sample_object [1, 2] None) plain_bucket = (r, s1) \<and> get_object ''xyz'' ''k'' s1 = (r', s2) \<and>
     r = Done () \<and> r' = Done (sample_object [1, 2] None)"
proof -
  let ?ob = "sample_object [1, 2] None"
  obtain r s1 r' s2 where run: "put_object ''xyz'' ''k'' ?ob plain_bucket = (r, s1)" "get_object ''xyz'' ''k'' s1 = (r', s2)" by force
  from put_get_roundtrip [OF sample_bucket_ok _ _ _ run]
  have "r = Done ()" "r' = Done (?ob\<lparr>obj_version_id := None\<rparr>)" by (auto simp: sample_versioning)
  with run show ?thesis by (auto simp: sample_object_def)
qed

text \<open>The public files decide what a reader sees.\<close>

lemma view_held: "view s d = view s' d \<Longrightarrow> ext s' = ext s \<Longrightarrow> held s d = held s' d \<and> paired s d = paired s' d"
proof -
  assume v: "view s d = view s' d" and x: "ext s' = ext s"
  have "file_content s (d @ [a]) = file_content s' (d @ [a])" if "a = BLOB \<or> a = META" for a
    using fun_cong [OF v, of "d @ [a]"] that x by (auto simp: view_def)
  then have "file_content s (d @ [BLOB]) = file_content s' (d @ [BLOB])" "file_content s (d @ [META]) = file_content s' (d @ [META])"
    by simp_all
  then show ?thesis by (simp add: held_def paired_def)
qed

lemma read_after_recovery:
  assumes rec: "recover_publication (object_dir s b k) s = (Done (), s2)" and c: "consistent s2 (object_dir s b k)"
    and p: "paired s2 (object_dir s b k)"
  shows "get_object b k s = (read_outcome (held s2 (object_dir s b k)), s2)"
proof -
  have "sound_dir s2 (object_dir s b k)" using c p by (simp add: sound_dir_def)
  then show ?thesis
  proof (cases rule: sound_read)
    case Absent
    with rec show ?thesis
      by (simp add: get_object_def read_object_locked_def bind_io_def gets_def guard_io_def throw_def)
  next
    case (Present data m)
    with rec show ?thesis
      by (simp add: get_object_def read_object_locked_def bind_io_def gets_def read_object_metadata_def read_bytes_def read_file_def
          return_def)
  qed
qed



section \<open>Deletes and versions\<close>



text \<open>
  C7. Versions are kept. In a versioned bucket, after an object with version \<open>v\<close> is overwritten, version
  \<open>v\<close> can still be read with its payload and metadata.
\<close>

theorem overwritten_version_kept:
  assumes ok: "store_ok s" "faults s = []" "bucket_exists s b" and m: "versioning s b = Versioned"
    and uuid: "\<not> ext_is_uuid (ext s) ''null''"
    and cur: "current (object_state s b k) = Some old" "version_name old = v" "version_id_ok v"
    and len: "obj_size ob = length (obj_data ob)" and put: "put_object b k ob s = (r, s1)"
    and get: "get_object_version b k v s1 = (r', s2)"
  shows "r = Done () \<and> r' = Done (old\<lparr>obj_version_id := Some v\<rparr>)"
proof -
  note P = put_object_done [OF ok len put]
  then have s1: "store_ok s1" "faults s1 = []" "bucket_exists s1 b" using ok(3) by (auto simp: only_object_def)
  from P m obtain n where st: "object_state s1 b k = install (Some (ext_uuid (ext s) n)) ob (keep_current True (object_state s b k))"
    by auto
  have "ext_uuid (ext s) n \<noteq> ''null''" using ok(1) uuid by (metis store_ok_def uuids_valid_def)
  with st cur have "spec_version (object_state s1 b k) v = Ok (old\<lparr>obj_version_id := Some v\<rparr>)"
    by (simp add: spec_version_def install_def keep_current_def)
  moreover obtain s3 where "get_object_version b k v s1 = (outcome_of (spec_version (object_state s1 b k) v), s3)"
    using get_version_spec [OF s1 cur(3)] by blast
  ultimately show ?thesis using P get by simp
qed

theorem overwritten_version_kept_witness:
  "\<exists>v r s1 r1 s2 r2 s3. put_object ''xyz'' ''k'' (sample_object [1] None) versioned_bucket = (r, s1) \<and>
     put_object ''xyz'' ''k'' (sample_object [2, 3] None) s1 = (r1, s2) \<and> get_object_version ''xyz'' ''k'' v s2 = (r2, s3) \<and>
     r1 = Done () \<and> r2 = Done (sample_object [1] (Some v))"
proof -
  let ?o = "sample_object [1] None" and ?o2 = "sample_object [2, 3] None"
  obtain r s1 where put: "put_object ''xyz'' ''k'' ?o versioned_bucket = (r, s1)" by force
  from put_object_done [OF sample_bucket_ok _ _ _ put] obtain n where P: "store_ok s1" "faults s1 = []" "only_object versioned_bucket s1 ''xyz'' ''k'' InMemory"
    "object_state s1 ''xyz'' ''k'' = spec_put Versioned (ext_uuid sample_externs n) ?o (object_state versioned_bucket ''xyz'' ''k'')"
    by (auto simp: sample_versioning)
  let ?v = "ext_uuid sample_externs n"
  have x: "ext s1 = sample_externs" "bucket_exists s1 ''xyz''" using P(3) by (auto simp: only_object_def)
  have cur: "current (object_state s1 ''xyz'' ''k'') = Some (sample_object [1] (Some ?v))"
    using P(4) by (simp add: install_def sample_object_def)
  have vm: "versioning s1 ''xyz'' = Versioned" using only_object_versioning [OF P(3)] sample_versioning by simp
  obtain r1 s2 r2 s3 where run: "put_object ''xyz'' ''k'' ?o2 s1 = (r1, s2)" "get_object_version ''xyz'' ''k'' ?v s2 = (r2, s3)" by force
  have nn: "\<not> ext_is_uuid (ext s1) ''null''" "version_id_ok ?v" "version_name (sample_object [1] (Some ?v)) = ?v"
    using P(1) by (simp_all add: x store_ok_def) (simp_all add: sample_externs_def version_name_def)
  from overwritten_version_kept [OF P(1,2) x(2) vm nn(1) cur nn(3,2) _ run]
  have "r1 = Done ()" "r2 = Done (sample_object [1] (Some ?v))" by (auto simp: sample_object_def)
  with put run show ?thesis by blast
qed

section \<open>Ranges, conditions and metadata\<close>

text \<open>
  C19. Range reads. A range request on a sound store returns exactly the selected bytes of the payload
  together with its metadata, never reads outside the payload, and is refused when the object is missing,
  when it starts at or beyond the end, or when it ends before it starts; nothing changes.
\<close>

theorem get_object_range_bounds:
  assumes "store_ok s" "faults s = []" and "get_object_range b k start end_opt s = (r, s1)"
  shows "r = outcome_of (spec_range (current (object_state s b k)) start end_opt) \<and> undisturbed s s1 \<and>
    (\<forall>ob data. r = Done (ob, data) \<longrightarrow> data \<noteq> [] \<and> start + length data \<le> obj_size ob)"
proof -
  obtain s2 where run: "get_object_range b k start end_opt s = (outcome_of (spec_range (current (object_state s b k)) start end_opt), s2)"
    "undisturbed s s2" using range_spec [OF assms(1,2)] .
  have size: "obj_size ob = length (obj_data ob)" if h: "held s (object_dir s b k) = Some ob" for ob
    using store_ok_dir(1) [OF assms(1), of b k] by (cases rule: sound_read) (use h in auto)
  have "data \<noteq> [] \<and> start + length data \<le> obj_size ob" if r: "spec_range (current (object_state s b k)) start end_opt = Ok (ob, data)" for ob data
  proof (cases "held s (object_dir s b k)")
    case (Some ob')
    with r size [OF Some] show ?thesis
      by (auto simp: spec_range_def object_state_def Let_def split: if_splits)
  qed (use r in \<open>simp add: spec_range_def object_state_def\<close>)
  with run assms(3) show ?thesis by (auto simp: outcome_of_def split: result.splits)
qed

theorem get_object_range_bounds_witness:
  "\<exists>r s1 r' s2. put_object ''xyz'' ''k'' (sample_object [1, 2, 3, 4] None) plain_bucket = (r, s1) \<and>
     get_object_range ''xyz'' ''k'' 1 (Some 2) s1 = (r', s2) \<and> r' = Done (serialize_object (sample_object [1, 2, 3, 4] None), [2, 3])"
proof -
  let ?o = "sample_object [1, 2, 3, 4] None"
  obtain r s1 where put: "put_object ''xyz'' ''k'' ?o plain_bucket = (r, s1)" by force
  from put_object_done [OF sample_bucket_ok _ _ _ put]
  have P: "store_ok s1" "faults s1 = []" "current (object_state s1 ''xyz'' ''k'') = Some ?o"
    by (auto simp: sample_versioning install_def sample_object_def)
  obtain r' s2 where get: "get_object_range ''xyz'' ''k'' 1 (Some 2) s1 = (r', s2)" by force
  from get_object_range_bounds [OF P(1,2) get] have "r' = Done (serialize_object ?o, [2, 3])"
    by (simp add: P(3) spec_range_def)
  with put get show ?thesis by blast
qed

text \<open>
  C18. Conditional writes. The condition is decided on the current metadata of the object (missing, entity
  tags, metadata values and conjunctions of these); when it fails nothing is written and every object
  stays as it is; when it holds the write happens as without a condition.
\<close>

theorem put_object_if_decides:
  assumes ok: "store_ok s" "faults s = []" "bucket_exists s b" and len: "obj_size ob = length (obj_data ob)"
    and run: "put_object_if b k ob cond s = (r, s1)"
  shows "r = Done (holds_for cond (current (object_state s b k))) \<and> store_ok s1 \<and>
    (if holds_for cond (current (object_state s b k)) then
       \<exists>u \<in> range (ext_uuid (ext s)). object_state s1 b k = spec_put (versioning s b) u ob (object_state s b k)
     else undisturbed s s1)"
proof -
  let ?h = "holds_for cond (current (object_state s b k))"
  obtain s0 where d: "object_condition_matches b k cond s = (Done ?h, s0)" "undisturbed s s0"
    using condition_spec [OF ok(1,2)] unfolding decides_def by blast
  note u = undisturbed_facts [OF d(2)]
  show ?thesis
  proof (cases ?h)
    case False
    with run d have "r = Done False" "s1 = s0" by (auto simp: put_object_if_def bind_io_def return_def)
    with False d(2) u(1) show ?thesis by simp
  next
    case True
    obtain r2 s2 where put: "put_object b k ob s0 = (r2, s2)" by force
    note P = put_object_done [OF u(1,2) u(7) [OF ok(3)] len put]
    have "r = Done True \<and> s1 = s2" using True run d put P by (simp add: put_object_if_def bind_io_def return_def)
    moreover have "versioning s0 b = versioning s b" "ext s0 = ext s"
      using d(2) by (auto intro!: only_object_versioning [of s s0 b k] only_object_control
          simp: undisturbed_def same_objects_def others_same_def control_same_def rest_same_def)
    ultimately show ?thesis using True P object_state_undisturbed [OF d(2), of b k] by simp
  qed
qed

theorem put_object_if_decides_witness:
  "\<exists>r s1 r' s2. put_object_if ''xyz'' ''k'' (sample_object [1] None) Missing plain_bucket = (r, s1) \<and> r = Done True \<and>
     put_object_if ''xyz'' ''k'' (sample_object [2] None) Missing s1 = (r', s2) \<and>
     current (object_state s1 ''xyz'' ''k'') = Some (sample_object [1] None)"
proof -
  let ?o = "sample_object [1] None"
  obtain r s1 r' s2 where run: "put_object_if ''xyz'' ''k'' ?o Missing plain_bucket = (r, s1)"
    "put_object_if ''xyz'' ''k'' (sample_object [2] None) Missing s1 = (r', s2)" by force
  have "current (object_state plain_bucket ''xyz'' ''k'') = None"
    using sample_no_object [of "[]" "''xyz''" "''k''" "[]"] by (simp add: object_state_def)
  with put_object_if_decides [OF sample_bucket_ok _ _ _ run(1)]
  have "r = Done True" "current (object_state s1 ''xyz'' ''k'') = Some ?o"
    by (auto simp: sample_versioning install_def sample_object_def)
  with run show ?thesis by blast
qed

text \<open>
  Updating the tags of an object replaces the tags and nothing else: the payload, the other metadata,
  the versions and every other object stay, and the tags read back are the ones written; a missing
  object is reported and nothing changes.
\<close>

theorem put_object_tags_only:
  assumes ok: "store_ok s" "faults s = []" and run: "put_object_tags b k tags s = (r, s1)"
  shows "case current (object_state s b k) of
      None \<Rightarrow> r = Failed KeyNotFound \<and> undisturbed s s1
    | Some ob \<Rightarrow> r = Done () \<and> store_ok s1 \<and> only_object s s1 b k InMemory \<and> st_index s1 = st_index s \<and>
        object_state s1 b k = (object_state s b k)\<lparr>current := Some (ob\<lparr>obj_tags := tags\<rparr>)\<rparr> \<and>
        fst (get_object_tags b k s1) = Done tags"
proof (cases "current (object_state s b k)")
  case None
  with modify_spec [OF ok _ run [unfolded put_object_tags_def]] show ?thesis by simp
next
  case (Some ob)
  with modify_spec [OF ok _ run [unfolded put_object_tags_def]]
  have M: "r = Done ()" "store_ok s1" "control_same s s1 InMemory" "others_same s s1 (object_dir s b k)"
    "object_state s1 b k = (object_state s b k)\<lparr>current := Some (ob\<lparr>obj_tags := tags\<rparr>)\<rparr>"
    by (simp_all add: serialize_object_def)
  have f1: "faults s1 = []" "st_index s1 = st_index s" using M(3) by (simp_all add: control_same_def rest_same_def)
  obtain s2 where "read_object_metadata_locked b k s1 = (read_outcome (map_option serialize_object (held s1 (object_dir s1 b k))), s2)"
    using read_metadata_spec [OF M(2) f1(1)] by blast
  moreover have "held s1 (object_dir s1 b k) = Some (ob\<lparr>obj_tags := tags\<rparr>)" using M(5) by (simp add: object_state_def)
  ultimately have "fst (get_object_tags b k s1) = Done tags"
    by (simp add: get_object_tags_def bind_io_def return_def serialize_object_def)
  with Some M f1(2) only_object_control [OF M(3,4)] show ?thesis by simp
qed

theorem put_object_tags_only_witness:
  "\<exists>r s1. put_object_tags ''xyz'' ''k'' [''a'' \<mapsto> ''b''] plain_bucket = (r, s1) \<and> r = Failed KeyNotFound"
proof -
  obtain r s1 where run: "put_object_tags ''xyz'' ''k'' [''a'' \<mapsto> ''b''] plain_bucket = (r, s1)" by force
  have "current (object_state plain_bucket ''xyz'' ''k'') = None"
    using sample_no_object [of "[]" "''xyz''" "''k''" "[]"] by (simp add: object_state_def)
  with put_object_tags_only [OF sample_bucket_ok _ run] run show ?thesis by simp
qed

text \<open>
  C20. Keys are told apart only by a 64-bit hash: when the hashes of two keys of a bucket agree, writing
  one of them makes the other read as the new object, whatever it held before.
\<close>

theorem colliding_keys_alias:
  assumes ok: "store_ok s" "faults s = []" "bucket_exists s b" and len: "obj_size ob = length (obj_data ob)"
    and collide: "ext_hash64 (ext s) b k = ext_hash64 (ext s) b k'"
    and put: "put_object b k ob s = (r, s1)" and get: "get_object b k' s1 = (r', s2)"
  shows "r = Done () \<and> (\<exists>v. r' = Done (ob\<lparr>obj_version_id := v\<rparr>))"
proof -
  note P = put_object_done [OF ok len put]
  have "object_dir s1 b k' = object_dir s1 b k" using P collide by (auto simp: only_object_def object_dir_bucket)
  then have "object_state s1 b k' = object_state s1 b k" by (simp add: object_state_def)
  moreover from P obtain u where "object_state s1 b k = spec_put (versioning s b) u ob (object_state s b k)" by blast
  ultimately obtain v where "current (object_state s1 b k') = Some (ob\<lparr>obj_version_id := v\<rparr>)"
    using spec_put_current [of "versioning s b" u ob "object_state s b k"] by auto
  with get_object_fst [of s1 b k'] get P show ?thesis by auto
qed

theorem colliding_keys_alias_witness:
  "\<exists>r s1 r' s2 v. put_object ''xyz'' ''k'' (sample_object [1] None) plain_bucket = (r, s1) \<and> get_object ''xyz'' ''j'' s1 = (r', s2) \<and>
     r' = Done (sample_object [1] v)"
proof -
  let ?o = "sample_object [1] None"
  obtain r s1 r' s2 where run: "put_object ''xyz'' ''k'' ?o plain_bucket = (r, s1)" "get_object ''xyz'' ''j'' s1 = (r', s2)" by force
  have c: "ext_hash64 (ext plain_bucket) ''xyz'' ''k'' = ext_hash64 (ext plain_bucket) ''xyz'' ''j''" by (simp add: sample_externs_def)
  from colliding_keys_alias [OF sample_bucket_ok _ _ _ c run]
  obtain v where "r' = Done (?o\<lparr>obj_version_id := v\<rparr>)" by auto
  with run show ?thesis by (auto simp: sample_object_def)
qed

end
