(* ===== verification/Buckets.thy ===== *)
theory Buckets
  imports Object_Store
begin

text \<open>
  Buckets (\<^verbatim>\<open>create_bucket\<close>, \<^verbatim>\<open>delete_bucket\<close>, \<^verbatim>\<open>get_bucket\<close> of
  \<^verbatim>\<open>src/src/storage/filesystem.rs\<close>), and the invariant of the whole store: whatever sequence of
  operations a client performs, the storage directories stay sound.
\<close>

section \<open>Files of a bucket\<close>

definition control_path :: "world \<Rightarrow> path \<Rightarrow> bool" where
  "control_path s q \<longleftrightarrow> (\<exists>b m r. q = bucket_dir s b @ (CHR ''.'' # m) # r)"

lemma bucket_dirs_apart: "length (bucket_dir s b) = length (bucket_dir s b')"
  by (simp add: bucket_dir_def)

lemma control_path_outside:
  assumes "control_path s q"
  shows "\<not> prefix (object_dir s b k) q" "\<not> prefix q (object_dir s b k)"
  using assms by (auto simp: control_path_def object_dir_bucket bucket_dir_def)

text \<open>Changes of control files and new directories down to a bucket keep the objects.\<close>

lemma store_ok_control:
  assumes ok: "store_ok s" and rest: "rest_same s s1" and wf: "tree_wf (fs_get s1)"
    and ch: "\<And>q. fs_get s1 q = fs_get s q \<or> control_path s q \<or> (fs_get s1 q = Some Dir \<and> (\<exists>b. prefix q (bucket_dir s b)))"
  shows "same_objects s s1"
proof -
  have x: "ext s1 = ext s" using rest by (simp add: rest_same_def)
  have sound: "sound_dir s1 d \<and> held s1 d = held s d" if d: "prefix (object_dir s b k) d" "sound_dir s d" for b k d
  proof -
    have "\<not> prefix (d @ q) (bucket_dir s b')" for q b'
      using prefix_length_le [of "d @ q" "bucket_dir s b'"] prefix_length_le [OF d(1)] bucket_dirs_apart [of s b b']
      by (auto simp: object_dir_bucket)
    moreover have "\<not> control_path s (d @ q)" for q
    proof
      assume "control_path s (d @ q)"
      from control_path_outside(1) [OF this, of b k] d(1) show False by (auto simp: prefix_def)
    qed
    ultimately have below: "fs_get s1 (d @ q) = fs_get s (d @ q)" for q using ch by blast
    have "fs_get s1 q \<noteq> Some (File c)" if q: "prefix q d" for q c
    proof -
      have "\<not> control_path s q"
        using control_path_outside [of s q b k] prefix_same_cases [OF q d(1)] by blast
      moreover have "fs_get s q \<noteq> Some (File c)" using d(2) q by (simp add: sound_dir_def consistent_def base_ok_def)
      ultimately show ?thesis using ch [of q] by auto
    qed
    with sound_dir_unchanged [OF d(2) wf x below] show ?thesis by blast
  qed
  note dirs = store_ok_dir [OF ok]
  have "sound_dir s1 (object_dir s b k) \<and> held s1 (object_dir s b k) = held s (object_dir s b k)"
    "sound_dir s1 (object_dir s b k @ [VERSIONS, v]) \<and> held s1 (object_dir s b k @ [VERSIONS, v]) = held s (object_dir s b k @ [VERSIONS, v])"
    for b k v using sound [OF prefix_order.refl dirs(1)] sound [OF _ dirs(2), of b k b k v] by auto
  then show ?thesis using ok wf x by (simp add: same_objects_def store_ok_def object_dir_rest [OF rest])
qed

definition dot_dot :: "string \<Rightarrow> bool" where
  "dot_dot n \<longleftrightarrow> prefix ''..'' n"

lemma write_control:
  assumes ok: "store_ok s" and f: "faults s = []" and dir: "fs_get s (bucket_dir s b) = Some Dir"
    and nm: "nm = CHR ''.'' # m" "\<not> dot_dot nm" "\<And>n. dot_dot n \<Longrightarrow> fs_get s (bucket_dir s b @ [n]) \<noteq> Some Dir"
      "fs_get s (bucket_dir s b @ [nm]) \<noteq> Some Dir"
    and run: "atomic_write (bucket_dir s b @ [nm]) c s = (r, s1)"
  shows "r = Done () \<and> same_objects s s1 \<and> rest_same s s1 \<and> faults s1 = [] \<and> file_content s1 (bucket_dir s b @ [nm]) = Some c \<and>
    tmp_eq dot_dot (bucket_dir s b) ((fs_get s)(bucket_dir s b @ [nm] \<mapsto> File c)) (fs_get s1)"
proof -
  let ?D = "bucket_dir s b" and ?t' = "(fs_get s)(bucket_dir s b @ [nm] \<mapsto> File c)"
  have "dot_dot (temp_name nm (ext_uuid (ext s) n))" for n by (simp add: dot_dot_def temp_name_def nm(1))
  then have R: "runs (ext s) True (\<lambda>_. True) (fs_get s) (atomic_write (?D @ [nm]) c) (\<lambda>_. tmp_eq dot_dot ?D ?t')"
    using nm dir by (intro runs_atomic_write) auto
  note D = runsD [OF R refl refl _ run]
  have r: "r = Done ()" and rest: "rest_same s s1" "faults s1 = []" using D(1,2,5) f by auto
  have e: "tmp_eq dot_dot ?D ?t' (fs_get s1)" using D(4) [OF _ r] f by simp
  have cs: "fs_get s1 q = ?t' q \<or> (\<exists>n. q = ?D @ [n] \<and> dot_dot n)" for q using e unfolding tmp_eq_def by blast
  have D1: "fs_get s1 ?D = Some Dir" using cs [of ?D] dir by auto
  have wf: "tree_wf (fs_get s)" using ok by (simp add: store_ok_def)
  have "tree_wf (fs_get s1)"
    unfolding tree_wf_def
  proof (intro conjI allI impI)
    show "fs_get s1 [] = Some Dir" by (simp add: fs_get_def)
    fix q :: path assume q: "q \<noteq> []" "fs_get s1 q \<noteq> None"
    show "fs_get s1 (parent q) = Some Dir"
    proof (cases "\<exists>n. q = ?D @ [n]")
      case False
      then have "fs_get s q \<noteq> None" using cs [of q] q(2) by auto
      then have p: "fs_get s (parent q) = Some Dir" using wf q(1) by (simp add: tree_wf_def)
      have "parent q \<noteq> ?D @ [nm]" "\<And>n. dot_dot n \<Longrightarrow> parent q \<noteq> ?D @ [n]" using p nm(3,4) by metis+
      then show ?thesis using cs [of "parent q"] p by auto
    qed (use D1 in auto)
  qed
  moreover have "fs_get s1 q = fs_get s q \<or> control_path s q" for q
    using cs [of q] nm(1) by (fastforce simp: control_path_def dot_dot_def prefix_def)
  ultimately have "same_objects s s1" using store_ok_control [OF ok rest(1)] by blast
  moreover have "file_content s1 (?D @ [nm]) = Some c" using cs [of "?D @ [nm]"] nm(2) by (auto simp: file_content_def)
  ultimately show ?thesis using r rest e by blast
qed

lemma bucket_dir_no_file:
  assumes ok: "store_ok s" and q: "prefix q (bucket_dir s b)"
  shows "fs_get s q \<noteq> Some (File c)"
proof -
  have "consistent s (object_dir s b [])" using store_ok_dir(1) [OF ok] by (simp add: sound_dir_def)
  moreover have "prefix q (object_dir s b [])" using q by (auto simp: object_dir_bucket prefix_def)
  ultimately show ?thesis by (simp add: consistent_def base_ok_def)
qed

lemma make_bucket_dir:
  assumes ok: "store_ok s" and f: "faults s = []" and new: "\<not> bucket_exists s b"
    and run: "create_directory_durable (bucket_dir s b) s = (r, s1)"
  shows "r = Done () \<and> same_objects s s1 \<and> rest_same s s1 \<and> faults s1 = [] \<and> fs_get s1 (bucket_dir s b) = Some Dir \<and>
    dirs_added (bucket_dir s b) (fs_get s) (fs_get s1)"
proof -
  let ?D = "bucket_dir s b"
  have wf: "tree_wf (fs_get s)" using ok by (simp add: store_ok_def)
  have R: "runs (ext s) True (\<lambda>_. True) (fs_get s) (create_directory_durable ?D) (\<lambda>_ t'. dirs_added ?D (fs_get s) t' \<and> t' ?D = Some Dir)"
    using bucket_dir_no_file [OF ok] by (intro runs_create_directory) (auto simp: fs_get_def)
  note D = runsD [OF R refl refl _ run]
  have r: "r = Done ()" and rest: "rest_same s s1" "faults s1 = []" using D(1,2,5) f by auto
  have a: "dirs_added ?D (fs_get s) (fs_get s1)" "fs_get s1 ?D = Some Dir" using D(4) [OF _ r] f by auto
  have "tree_wf (fs_get s1)"
    unfolding tree_wf_def
  proof (intro conjI allI impI)
    show "fs_get s1 [] = Some Dir" by (simp add: fs_get_def)
    fix q :: path assume "q \<noteq> []" "fs_get s1 q \<noteq> None"
    with a(1) wf show "fs_get s1 (parent q) = Some Dir" unfolding dirs_added_def tree_wf_def by (metis option.discI)
  qed
  moreover have "fs_get s1 q = fs_get s q \<or> (fs_get s1 q = Some Dir \<and> prefix q ?D)" for q
    using a(1) unfolding dirs_added_def by metis
  ultimately show ?thesis using store_ok_control [OF ok rest(1)] r rest a by blast
qed

section \<open>Creating a bucket\<close>

lemma tmp_eq_bucket:
  assumes "tmp_eq dot_dot D t t'" "\<not> dot_dot n" shows "t' (D @ [n]) = t (D @ [n])"
  using assms by (auto intro: tmp_eq_get)

lemma control_names [simp]:
  "\<not> dot_dot ''.bucket.name''" "\<not> dot_dot ''.bucket.identity.json''" "\<not> dot_dot ''.versioning-enabled''"
  "\<not> dot_dot ''.bucket.meta.json''"
  by (simp_all add: dot_dot_def)

lemma same_objects_fields [simp]:
  "same_objects s (s1\<lparr>clock_count := n\<rparr>) = same_objects s s1" "same_objects s (s1\<lparr>st_index := i\<rparr>) = same_objects s s1"
  "same_objects s (s1\<lparr>azure_protection_possible := z\<rparr>) = same_objects s s1"
  by (simp_all add: same_objects_def)

lemma create_bucket_done:
  assumes ok: "store_ok s" and f: "faults s = []" and new: "\<not> bucket_exists s name"
    and run: "create_bucket name s = (r, s1)"
  obtains now where "r = Done ()" "same_objects s s1" "ext s1 = ext s" "base_path s1 = base_path s" "faults s1 = []"
    "fs_get s1 (bucket_dir s name) = Some Dir"
    "file_content s1 (bucket_dir s name @ [''.bucket.identity.json'']) = Some (IdentityJson \<lparr>id_created_at = now, id_modified_at = now\<rparr>)"
    "\<forall>n. fs_get s1 (bucket_dir s name @ [n]) \<noteq> None \<longrightarrow> n = ''.bucket.name'' \<or> n = ''.bucket.identity.json'' \<or> dot_dot n"
    "st_index s1 = get_or_create_bucket (st_index s) name"
    "\<forall>q. \<not> prefix q (bucket_dir s name) \<longrightarrow> \<not> prefix (bucket_dir s name) q \<longrightarrow> fs_get s1 q = fs_get s q"
proof -
  let ?D = "bucket_dir s name" and ?n1 = "''.bucket.name''" and ?n2 = "''.bucket.identity.json''"
  have wf: "tree_wf (fs_get s)" using ok by (simp add: store_ok_def)
  have none: "fs_get s (?D @ q) = None" for q
    using tree_wf_ancestor_append [OF wf, of ?D q] new unfolding bucket_exists_def path_exists_def by blast
  obtain r2 s2 where mk: "create_directory_durable ?D s = (r2, s2)" by force
  from make_bucket_dir [OF ok f new mk] have M: "r2 = Done ()" "same_objects s s2" "rest_same s s2" "faults s2 = []"
    "fs_get s2 ?D = Some Dir" "dirs_added ?D (fs_get s) (fs_get s2)" by auto
  have D2: "bucket_dir s2 name = ?D" using bucket_dir_rest [OF M(3)] .
  have n2: "fs_get s2 (?D @ [n]) = None" for n
    using M(6) [unfolded dirs_added_def, rule_format, of "?D @ [n]"] none [of "[n]"] prefix_length_le [of "?D @ [n]" ?D] by auto
  have ok2: "store_ok s2" using M(2) by (simp add: same_objects_def)
  obtain r3 s3 where w1: "atomic_write (?D @ [?n1]) (Bytes (text_bytes name)) s2 = (r3, s3)" by force
  from write_control [OF ok2 M(4), of name ?n1 "''bucket.name''" "Bytes (text_bytes name)" r3 s3] M(5) n2 w1
  have W: "r3 = Done ()" "same_objects s2 s3" "rest_same s2 s3" "faults s3 = []"
    "tmp_eq dot_dot ?D ((fs_get s2)(?D @ [?n1] \<mapsto> File (Bytes (text_bytes name)))) (fs_get s3)" by (auto simp: D2)
  define now where "now = ext_now (ext s3) (clock_count s3)"
  define s4 where "s4 = s3\<lparr>clock_count := clock_count s3 + 1\<rparr>"
  let ?id = "\<lparr>id_created_at = now, id_modified_at = now\<rparr>"
  have rest4: "rest_same s2 s4" "rest_same s s4" using W(3) M(3) by (simp_all add: s4_def rest_same_def)
  have D4: "bucket_dir s4 name = ?D" using bucket_dir_rest [OF rest4(2)] .
  have ok4: "store_ok s4" "faults s4 = []" using W(2,4) by (simp_all add: s4_def same_objects_def)
  have n4: "fs_get s4 (?D @ [n]) \<noteq> Some Dir" "fs_get s4 (?D @ [n]) \<noteq> None \<Longrightarrow> n = ?n1 \<or> dot_dot n" for n
    using W(5) [unfolded tmp_eq_def, rule_format, of "?D @ [n]"] n2 [of n] by (auto simp: s4_def split: if_splits)
  have d4: "fs_get s4 ?D = Some Dir" using tmp_eq_get [OF W(5), of ?D] M(5) by (simp add: s4_def)
  obtain r5 s5 where w2: "atomic_write (?D @ [?n2]) (IdentityJson ?id) s4 = (r5, s5)" by force
  from write_control [OF ok4, of name ?n2 "''bucket.identity.json''" "IdentityJson ?id" r5 s5] n4 d4 w2
  have V: "r5 = Done ()" "same_objects s4 s5" "rest_same s4 s5" "faults s5 = []" "file_content s5 (?D @ [?n2]) = Some (IdentityJson ?id)"
    "tmp_eq dot_dot ?D ((fs_get s4)(?D @ [?n2] \<mapsto> File (IdentityJson ?id))) (fs_get s5)" by (auto simp: D4)
  define s6 where "s6 = s5\<lparr>azure_protection_possible := (case azure_protection_possible s5 name of
                Some p \<Rightarrow> azure_protection_possible s5
              | None \<Rightarrow> (azure_protection_possible s5)(name \<mapsto> False)), st_index := get_or_create_bucket (st_index s5) name\<rparr>"
  have "create_bucket name s = (Done (), s6)"
    using new mk M(1) w1 W(1) w2 V(1) D4
    by (simp add: create_bucket_def bucket_exists_def bind_io_def gets_def guard_io_def return_def map_error_def try_io_def now_io_def
        write_bucket_identity_def modify_def s6_def s4_def now_def)
  then have run': "r = Done ()" "s1 = s6" using run by auto
  have "same_objects s s4" using same_objects_trans [OF M(2) W(2) M(3)] by (simp add: s4_def)
  from same_objects_trans [OF this V(2) rest4(2)] have so: "same_objects s s5" .
  show ?thesis
  proof (rule that)
    show "r = Done ()" using run' by simp
    show "same_objects s s1" using so by (simp add: run' s6_def)
    show "ext s1 = ext s" "base_path s1 = base_path s" "faults s1 = []"
      using V(3,4) rest4 by (simp_all add: run' s6_def rest_same_def)
    show "fs_get s1 ?D = Some Dir" using tmp_eq_get [OF V(6), of ?D] d4 by (simp add: run' s6_def)
    show "file_content s1 (?D @ [?n2]) = Some (IdentityJson ?id)" using V(5) by (simp add: run' s6_def)
    have "n = ?n1 \<or> n = ?n2 \<or> dot_dot n" if "fs_get s1 (?D @ [n]) \<noteq> None" for n
      using that V(6) [unfolded tmp_eq_def, rule_format, of "?D @ [n]"] n4(2) [of n] by (auto simp: run' s6_def split: if_splits) metis
    then show "\<forall>n. fs_get s1 (?D @ [n]) \<noteq> None \<longrightarrow> n = ?n1 \<or> n = ?n2 \<or> dot_dot n" by blast
    show "st_index s1 = get_or_create_bucket (st_index s) name"
      using V(3) rest4 by (simp add: run' s6_def rest_same_def)
    have "fs_get s1 q = fs_get s q" if q: "\<not> prefix q ?D" "\<not> prefix ?D q" for q
    proof -
      have "q \<noteq> ?D @ [n]" for n using q(2) by auto
      then have "fs_get s5 q = fs_get s4 q" "fs_get s3 q = fs_get s2 q"
        using tmp_eq_get [OF V(6), of q] tmp_eq_get [OF W(5), of q] by simp_all
      moreover have "fs_get s2 q = fs_get s q" using M(6) q by (auto simp: dirs_added_def)
      ultimately show ?thesis by (simp add: run' s6_def s4_def)
    qed
    then show "\<forall>q. \<not> prefix q ?D \<longrightarrow> \<not> prefix ?D q \<longrightarrow> fs_get s1 q = fs_get s q" by blast
  qed
qed

lemma bucket_exists_rest: "ext s1 = ext s \<Longrightarrow> base_path s1 = base_path s \<Longrightarrow> bucket_exists s1 b \<longleftrightarrow> path_exists s1 (bucket_dir s b)"
  by (simp add: bucket_exists_def bucket_dir_def)

text \<open>
  Creating a bucket. An existing bucket is reported and nothing changes. Otherwise the bucket exists
  afterwards, its record reads back with its creation time, no versioning and no metadata, no object of
  the store changes, and exactly this bucket is added.
\<close>

theorem create_bucket_spec:
  assumes ok: "store_ok s" "faults s = []" and run: "create_bucket name s = (r, s1)"
  shows "if bucket_exists s name then r = Failed BucketAlreadyExists \<and> s1 = s
    else r = Done () \<and> same_objects s s1 \<and> faults s1 = [] \<and> st_index s1 = get_or_create_bucket (st_index s) name \<and>
      (\<forall>b. bucket_exists s1 b \<longleftrightarrow> bucket_exists s b \<or> bucket_dir s b = bucket_dir s name) \<and>
      (\<exists>now s2. get_bucket name s1 = (Done (new_bucket name now), s2))"
proof (cases "bucket_exists s name")
  case True
  with run show ?thesis by (simp add: create_bucket_def bind_io_def gets_def guard_io_def throw_def bucket_exists_def)
next
  case False
  obtain now where C: "r = Done ()" "same_objects s s1" "ext s1 = ext s" "base_path s1 = base_path s" "faults s1 = []"
    "fs_get s1 (bucket_dir s name) = Some Dir"
    "file_content s1 (bucket_dir s name @ [''.bucket.identity.json'']) = Some (IdentityJson \<lparr>id_created_at = now, id_modified_at = now\<rparr>)"
    "\<forall>n. fs_get s1 (bucket_dir s name @ [n]) \<noteq> None \<longrightarrow> n = ''.bucket.name'' \<or> n = ''.bucket.identity.json'' \<or> dot_dot n"
    "st_index s1 = get_or_create_bucket (st_index s) name"
    "\<forall>q. \<not> prefix q (bucket_dir s name) \<longrightarrow> \<not> prefix (bucket_dir s name) q \<longrightarrow> fs_get s1 q = fs_get s q"
    using create_bucket_done [OF ok False run] .
  have D: "bucket_dir s1 b = bucket_dir s b" for b using C(3,4) by (simp add: bucket_dir_def)
  have "bucket_exists s1 b \<longleftrightarrow> bucket_exists s b \<or> bucket_dir s b = bucket_dir s name" for b
  proof (cases "bucket_dir s b = bucket_dir s name")
    case False
    then have "\<not> prefix (bucket_dir s b) (bucket_dir s name)" "\<not> prefix (bucket_dir s name) (bucket_dir s b)"
      by (auto simp: bucket_dir_def)
    from C(10) this False show ?thesis by (simp add: bucket_exists_def path_exists_def D)
  qed (use C(6) in \<open>simp add: bucket_exists_def path_exists_def D\<close>)
  moreover have "fs_get s1 (bucket_dir s name @ [''.bucket.identity.json'']) \<noteq> None"
    using C(7) by (auto simp: file_content_def split: option.splits)
  moreover have "fs_get s1 (bucket_dir s name @ [''.versioning-enabled'']) = None" "fs_get s1 (bucket_dir s name @ [''.bucket.meta.json'']) = None"
    using C(8) [THEN spec, of "''.versioning-enabled''"] C(8) [THEN spec, of "''.bucket.meta.json''"] by auto
  ultimately show ?thesis
    using False C(1,2,5,6,7,9)
    by (simp add: get_bucket_def require_bucket_def bind_io_def gets_def guard_io_def return_def read_bucket_identity_locked_def
        read_file_def now_io_def read_bucket_metadata_def bucket_metadata_path_def is_versioning_enabled_def versioning_marker_def
        path_exists_def new_bucket_def D)
qed

theorem create_bucket_spec_witness:
  "\<exists>r s1 now s2. create_bucket ''y'' plain_bucket = (r, s1) \<and> r = Done () \<and>
     get_bucket ''y'' s1 = (Done (new_bucket ''y'' now), s2)"
proof -
  obtain r s1 where run: "create_bucket ''y'' plain_bucket = (r, s1)" by force
  have "\<not> bucket_exists plain_bucket ''y''"
    by (simp add: bucket_exists_def path_exists_def bucket_dir_def fs_get_def sample_bucket_def sample_externs_def)
  with create_bucket_spec [OF sample_bucket_ok _ run] run show ?thesis by auto
qed

section \<open>Deleting a bucket\<close>

lemma object_id_not_control: "\<not> is_bucket_control_entry s d (lower_hex n)"
proof -
  have "lower_hex n \<noteq> ''bucket.acl.json''" using lower_hex_dot [of n] by auto
  then show ?thesis by (auto simp: is_bucket_control_entry_def)
qed

lemma held_exists: "held s d \<noteq> None \<Longrightarrow> fs_get s (d @ [BLOB]) \<noteq> None"
  by (auto simp: held_def file_content_def split: option.splits)

lemma delete_bucket_removes:
  assumes ok: "store_ok s" and empty: "\<And>n. fs_get s (bucket_dir s name @ [lower_hex n]) = None"
  defines "s1 \<equiv> fs_delete (prefix (bucket_dir s name)) s"
  shows "same_objects s s1" "\<not> bucket_exists s1 name"
proof -
  let ?D = "bucket_dir s name"
  have ne: "?D \<noteq> []" by (simp add: bucket_dir_def)
  have g: "fs_get s1 q = (if prefix ?D q then None else fs_get s q)" for q using ne by (simp add: s1_def)
  have rest: "rest_same s s1" by (simp add: s1_def)
  note dirs = object_dir_rest [OF rest] bucket_dir_rest [OF rest]
  have wf: "tree_wf (fs_get s1)" "tree_wf (fs_get s)"
    using ok ne tree_wf_without [of "fs_get s" ?D] by (simp_all add: store_ok_def s1_def without_def)
  have sound: "sound_dir s1 d \<and> held s1 d = held s d" if d: "prefix (object_dir s b k) d" "sound_dir s d" for b k d
  proof -
    have "fs_get s1 (d @ q) = fs_get s (d @ q)" for q
    proof (cases "prefix ?D (d @ q)")
      case True
      have p: "prefix (object_dir s b k) (d @ q)" using d(1) by (auto simp: prefix_def)
      then have "prefix (bucket_dir s b) (d @ q)" by (auto simp: object_dir_bucket prefix_def)
      with True have "bucket_dir s b = ?D" using bucket_dirs_apart [of s b name]
        by (metis prefix_same_cases not_equal_is_parallel parallel_def)
      then have "fs_get s (object_dir s b k) = None" using empty by (simp add: object_dir_bucket)
      with tree_wf_ancestor [OF wf(2) _ p] have "fs_get s (d @ q) = None" by blast
      then show ?thesis by (simp add: g)
    qed (simp add: g)
    moreover have "fs_get s1 q \<noteq> Some (File c)" if "prefix q d" for q c
      using d(2) that g [of q] by (auto simp: sound_dir_def consistent_def base_ok_def split: if_splits)
    moreover have "ext s1 = ext s" by (simp add: s1_def)
    ultimately show ?thesis using sound_dir_unchanged [OF d(2) wf(1)] by blast
  qed
  note sd = store_ok_dir [OF ok]
  have "sound_dir s1 (object_dir s b k) \<and> held s1 (object_dir s b k) = held s (object_dir s b k)"
    "sound_dir s1 (object_dir s b k @ [VERSIONS, v]) \<and> held s1 (object_dir s b k @ [VERSIONS, v]) = held s (object_dir s b k @ [VERSIONS, v])"
    for b k v using sound [OF prefix_order.refl sd(1)] sound [OF _ sd(2), of b k b k v] by auto
  then show "same_objects s s1" using ok wf by (simp add: same_objects_def store_ok_def dirs) (simp add: s1_def)
  show "\<not> bucket_exists s1 name" by (simp add: bucket_exists_def path_exists_def dirs g)
qed

lemma delete_bucket_run:
  assumes ok: "store_ok s" "faults s = []"
  shows "delete_bucket name s =
      (if \<not> bucket_exists s name then (Failed BucketNotFound, s)
       else if \<not> list_all (is_bucket_control_entry s (bucket_dir s name)) (dir_entries s (bucket_dir s name))
       then (Failed BucketNotEmpty, s)
       else (Done (), (fs_delete (prefix (bucket_dir s name)) s)\<lparr>st_index := clear_bucket (st_index s) name\<rparr>))"
proof -
  let ?D = "bucket_dir s name"
  have "fs_get s ?D = Some Dir" if "bucket_exists s name"
    using that bucket_dir_no_file [OF ok(1) prefix_order.refl, of name]
    by (cases "fs_get s ?D") (auto simp: bucket_exists_def path_exists_def intro: node.exhaust)
  then show ?thesis
    using ok(2)
    by (auto simp: delete_bucket_def bind_io_def gets_def guard_io_def return_def throw_def read_dir_def is_dir_def bucket_exists_def
        remove_dir_all_def syscall_def next_fault_def modify_def bucket_dir_def fs_delete_def)
qed

lemma delete_bucket_empty:
  "list_all (is_bucket_control_entry s (bucket_dir s name)) (dir_entries s (bucket_dir s name)) \<Longrightarrow>
   fs_get s (bucket_dir s name @ [lower_hex n]) = None"
  using object_id_not_control [of s "bucket_dir s name" n] set_dir_entries [OF refl, of s "bucket_dir s name"]
  by (auto simp: list_all_iff)

text \<open>
  C9. Deleting a bucket never loses an object: a missing bucket is reported, a bucket that holds a current
  object or a version is refused, in both cases with nothing changed; and when the deletion succeeds the
  bucket is gone and every object of the store is as before.
\<close>

theorem delete_bucket_safe:
  assumes ok: "store_ok s" "faults s = []" and run: "delete_bucket name s = (r, s1)"
  shows "(\<not> bucket_exists s name \<longrightarrow> r = Failed BucketNotFound \<and> s1 = s) \<and>
    (\<forall>k. bucket_exists s name \<and> object_state s name k \<noteq> no_object \<longrightarrow> r = Failed BucketNotEmpty \<and> s1 = s) \<and>
    (r = Done () \<longrightarrow> \<not> bucket_exists s1 name \<and> same_objects s s1)"
proof -
  let ?D = "bucket_dir s name" let ?e = "list_all (is_bucket_control_entry s ?D) (dir_entries s ?D)"
  note run = delete_bucket_run [OF ok] run and empty = delete_bucket_empty [of s name]
  have full: "\<not> ?e" if st: "object_state s name k \<noteq> no_object" for k
  proof
    assume "?e"
    then have none: "fs_get s (object_dir s name k) = None" using empty by (simp add: object_dir_bucket)
    have wf: "tree_wf (fs_get s)" using ok(1) by (simp add: store_ok_def)
    have "held s (object_dir s name k @ q) = None" for q
      using held_exists [of s "object_dir s name k @ q"] tree_wf_ancestor_append [OF wf, of "object_dir s name k" "q @ [BLOB]"] none
      by (metis append_assoc)
    from this [of "[]"] this st show False by (simp add: object_state_def no_object_def)
  qed
  have "\<not> bucket_exists s1 name \<and> same_objects s s1" if "r = Done ()"
  proof -
    have "?e" "s1 = (fs_delete (prefix ?D) s)\<lparr>st_index := clear_bucket (st_index s) name\<rparr>"
      using run that by (auto split: if_splits)
    with delete_bucket_removes [OF ok(1) empty] show ?thesis by simp
  qed
  with run full show ?thesis by (auto split: if_splits)
qed

theorem delete_bucket_safe_witness:
  "\<exists>r s1. delete_bucket ''y'' plain_bucket = (r, s1) \<and> r = Failed BucketNotFound"
proof -
  obtain r s1 where run: "delete_bucket ''y'' plain_bucket = (r, s1)" by force
  have "\<not> bucket_exists plain_bucket ''y''"
    by (simp add: bucket_exists_def path_exists_def bucket_dir_def fs_get_def sample_bucket_def sample_externs_def)
  with delete_bucket_safe [OF sample_bucket_ok _ run] run show ?thesis by auto
qed

section \<open>The invariant of the store\<close>

text \<open>One operation of a client; the payload a client passes has the size its metadata records.\<close>

inductive client_step :: "world \<Rightarrow> world \<Rightarrow> bool" where
  CreateBucket: "create_bucket name s = (r, s') \<Longrightarrow> client_step s s'"
| DeleteBucket: "delete_bucket name s = (r, s') \<Longrightarrow> client_step s s'"
| Put: "obj_size ob = length (obj_data ob) \<Longrightarrow> put_object b k ob s = (r, s') \<Longrightarrow> client_step s s'"
| PutIf: "obj_size ob = length (obj_data ob) \<Longrightarrow> put_object_if b k ob cond s = (r, s') \<Longrightarrow> client_step s s'"
| Delete: "delete_object b k s = (r, s') \<Longrightarrow> client_step s s'"
| DeleteIf: "delete_object_if b k cond s = (r, s') \<Longrightarrow> client_step s s'"
| Tags: "put_object_tags b k tags s = (r, s') \<Longrightarrow> client_step s s'"
| Acl: "put_object_acl b k a s = (r, s') \<Longrightarrow> client_step s s'"
| StorageClass: "update_object_storage_class b k c s = (r, s') \<Longrightarrow> client_step s s'"
| Get: "get_object b k s = (r, s') \<Longrightarrow> client_step s s'"
| Range: "get_object_range b k start end_opt s = (r, s') \<Longrightarrow> client_step s s'"
| GetVersion: "get_object_version b k v s = (r, s') \<Longrightarrow> client_step s s'"

definition sound_store :: "world \<Rightarrow> bool" where
  "sound_store s \<longleftrightarrow> store_ok s \<and> faults s = [] \<and> lfi_inv (st_index s)"

lemma undisturbed_sound: "undisturbed s s' \<Longrightarrow> sound_store s \<Longrightarrow> sound_store s'"
  by (auto simp: sound_store_def undisturbed_facts) (simp add: undisturbed_def control_same_def rest_same_def)

lemma put_sound:
  assumes s: "sound_store s" and len: "obj_size ob = length (obj_data ob)" and put: "put_object b k ob s = (r, s')"
  shows "sound_store s'"
proof (cases "bucket_exists s b")
  case True
  from put_object_done [OF _ _ True len put] s show ?thesis by (simp add: sound_store_def index_insert_inv)
next
  case False
  with put have "s' = s"
    by (simp add: put_object_def put_object_locked_with_payload_def require_bucket_def bind_io_def gets_def guard_io_def throw_def)
  with s show ?thesis by simp
qed

lemma versioned_bucket_exists:
  assumes "store_ok s" "versioning s b \<noteq> Unversioned"
  shows "bucket_exists s b"
proof -
  have wf: "tree_wf (fs_get s)" using assms(1) by (simp add: store_ok_def)
  have "fs_get s (versioning_marker s b) \<noteq> None"
    using assms(2) by (auto simp: versioning_def is_versioning_enabled_def is_versioning_suspended_def path_exists_def
        file_content_def split: if_splits option.splits)
  then show ?thesis
    using tree_wf_ancestor [OF wf, of "versioning_marker s b" "bucket_dir s b"]
    by (simp add: bucket_exists_def path_exists_def versioning_marker_def)
qed

lemma delete_sound:
  assumes s: "sound_store s" and del: "delete_object b k s = (r, s')"
  shows "sound_store s'"
proof (cases "versioning s b = Unversioned")
  case True
  have "store_ok s" "faults s = []" using s by (auto simp: sound_store_def)
  from delete_unversioned [OF this True del] s undisturbed_sound [of s s'] show ?thesis
    by (auto simp: sound_store_def index_remove_inv split: option.splits)
next
  case False
  have "store_ok s" "faults s = []" using s by (auto simp: sound_store_def)
  from delete_versioned [OF this False versioned_bucket_exists [OF this(1) False] del] s show ?thesis
    by (auto simp: sound_store_def index_remove_inv)
qed

lemma condition_sound:
  assumes s: "sound_store s" and m: "\<And>s r s'. sound_store s \<Longrightarrow> m s = (r, s') \<Longrightarrow> sound_store s'"
    and run: "bind_io (object_condition_matches b k cond) (\<lambda>h. if \<not> h then return False else then_io m (return True)) s = (r, s')"
  shows "sound_store s'"
proof -
  obtain h s0 where d: "object_condition_matches b k cond s = (Done h, s0)" "undisturbed s s0"
    using condition_spec [of s b k cond] s unfolding decides_def sound_store_def by blast
  obtain r1 s1 where m1: "m s0 = (r1, s1)" by force
  have s0: "sound_store s0" using undisturbed_sound [OF d(2) s] .
  with m [OF s0 m1] run d(1) m1 show ?thesis
    by (cases r1) (auto simp: bind_io_def return_def split: if_splits)
qed

lemma modify_sound:
  assumes s: "sound_store s" and g: "\<And>m. obj_size (g m) = obj_size m" and run: "modify_object_metadata b k g s = (r, s')"
  shows "sound_store s'"
proof -
  have ok: "store_ok s" "faults s = []" using s by (auto simp: sound_store_def)
  from modify_spec [OF ok g run] s undisturbed_sound [of s s'] show ?thesis
    by (auto simp: sound_store_def control_same_def rest_same_def split: option.splits)
qed

lemma create_sound:
  assumes s: "sound_store s" and run: "create_bucket name s = (r, s')"
  shows "sound_store s'"
proof -
  have ok: "store_ok s" "faults s = []" using s by (auto simp: sound_store_def)
  show ?thesis
  proof (cases "bucket_exists s name")
    case True
    with run s show ?thesis by (simp add: create_bucket_def bind_io_def gets_def guard_io_def throw_def bucket_exists_def)
  next
    case False
    from create_bucket_done [OF ok False run]
    have "same_objects s s'" "faults s' = []" "st_index s' = get_or_create_bucket (st_index s) name" by metis+
    with s show ?thesis by (simp add: sound_store_def same_objects_def get_or_create_bucket_inv)
  qed
qed

lemma delete_bucket_sound:
  assumes s: "sound_store s" and run: "delete_bucket name s = (r, s')"
  shows "sound_store s'"
proof -
  have ok: "store_ok s" "faults s = []" using s by (auto simp: sound_store_def)
  show ?thesis
  proof (cases "list_all (is_bucket_control_entry s (bucket_dir s name)) (dir_entries s (bucket_dir s name))")
    case True
    from delete_bucket_removes(1) [OF ok(1) delete_bucket_empty [OF True]] delete_bucket_run [OF ok, of name] run s
    show ?thesis by (auto simp: sound_store_def same_objects_def clear_bucket_inv split: if_splits)
  qed (use delete_bucket_run [OF ok, of name] run s in \<open>auto split: if_splits\<close>)
qed

lemma client_step_sound:
  assumes "client_step s s'" "sound_store s"
  shows "sound_store s'"
  using assms
proof (induction rule: client_step.induct)
  case (PutIf ob b k cond s r s')
  then show ?case using condition_sound [OF PutIf.prems, of "put_object b k ob" b k cond r s'] put_sound
    by (simp add: put_object_if_def)
next
  case (DeleteIf b k cond s r s')
  then show ?case using condition_sound [OF DeleteIf.prems, of "delete_object b k" b k cond r s'] delete_sound
    by (simp add: delete_object_if_def)
next
  case (Get b k s r s')
  then have "store_ok s" "faults s = []" by (auto simp: sound_store_def)
  from read_object_spec [OF this, of b k] Get undisturbed_sound [of s s'] show ?case by (fastforce simp: get_object_def)
next
  case (Range b k start end_opt s r s')
  then have "store_ok s" "faults s = []" by (auto simp: sound_store_def)
  from range_spec [OF this, of b k start end_opt] Range undisturbed_sound [of s s'] show ?case by fastforce
next
  case (GetVersion b k v s r s')
  then have ok: "store_ok s" "faults s = []" by (auto simp: sound_store_def)
  show ?case
  proof (cases "bucket_exists s b \<and> version_id_ok v")
    case True
    from get_version_spec [OF ok, of b v k] True GetVersion undisturbed_sound [of s s'] show ?thesis by fastforce
  next
    case False
    with GetVersion show ?thesis
      by (auto simp: get_object_version_def require_bucket_def bind_io_def gets_def guard_io_def throw_def return_def
          validate_version_id_def split: if_splits)
  qed
next
  case (Tags b k tags s r s')
  then show ?case by (intro modify_sound [OF Tags.prems]) (auto simp: put_object_tags_def)
next
  case (Acl b k a s r s')
  then show ?case by (intro modify_sound [OF Acl.prems]) (auto simp: put_object_acl_def)
next
  case (StorageClass b k c s r s')
  then show ?case by (intro modify_sound [OF StorageClass.prems]) (auto simp: update_object_storage_class_def)
qed (auto intro: create_sound delete_bucket_sound put_sound delete_sound)



end
