(* ===== verification/Listing.thy ===== *)
theory Listing
  imports Store
begin

text \<open>
  Object listings (\<^verbatim>\<open>ObjectListingStore\<close> of \<^verbatim>\<open>src/src/storage/filesystem.rs\<close>): flat pages from the key
  index, pages with the delimiter \<^verbatim>\<open>/\<close> from the directory index, and pages with any other delimiter
  by scanning the keys in batches.
\<close>

section \<open>Operations\<close>

text \<open>\<^verbatim>\<open>str::find\<close>: the first position of a substring.\<close>

fun find_str :: "string \<Rightarrow> string \<Rightarrow> nat option" where
  "find_str p s =
     (if prefix p s then Some 0
      else case s of [] \<Rightarrow> None | _ # r \<Rightarrow> map_option Suc (find_str p r))"

declare find_str.simps [simp del]

text \<open>The entry a key contributes below a prefix.\<close>

definition delimited_entry :: "string \<Rightarrow> string \<Rightarrow> string \<Rightarrow> directory_entry" where
  "delimited_entry pfx delim key =
     (case find_str delim (drop (length pfx) key) of
        None \<Rightarrow> \<lparr>path = key, kind = ObjectEntry\<rparr>
      | Some i \<Rightarrow> \<lparr>path = take (length pfx + i + length delim) key, kind = CommonPrefix\<rparr>)"

text \<open>
  One batch of keys: the marker follows the keys looked at, entries at or before the requested
  marker, repeated entries and objects without metadata are skipped. \<open>has_meta\<close> is the test of the
  metadata file.
\<close>

fun scan_batch ::
    "(string \<Rightarrow> bool) \<Rightarrow> string \<Rightarrow> string \<Rightarrow> string option \<Rightarrow> nat \<Rightarrow> string list \<Rightarrow>
     string option \<Rightarrow> directory_entry list \<Rightarrow> string option \<times> directory_entry list" where
  "scan_batch has_meta pfx delim marker desired [] scan_marker es = (scan_marker, es)"
| "scan_batch has_meta pfx delim marker desired (key # keys) scan_marker es =
     (let entry = delimited_entry pfx delim key in
      if (case marker of Some m \<Rightarrow> path entry \<le> m | None \<Rightarrow> False)
         \<or> (es \<noteq> [] \<and> path (last es) = path entry)
         \<or> (kind entry = ObjectEntry \<and> \<not> has_meta (path entry))
      then scan_batch has_meta pfx delim marker desired keys (Some key) es
      else if desired \<le> length es + 1 then (Some key, es @ [entry])
      else scan_batch has_meta pfx delim marker desired keys (Some key) (es @ [entry]))"

definition clamp :: "nat \<Rightarrow> nat \<Rightarrow> nat \<Rightarrow> nat" where
  "clamp lo hi n = (if n < lo then lo else if hi < n then hi else n)"

text \<open>The loop over batches; \<open>None\<close> is a loop that has not stopped within the fuel.\<close>

fun scan_loop ::
    "nat \<Rightarrow> lock_free_index \<Rightarrow> (string \<Rightarrow> bool) \<Rightarrow> string \<Rightarrow> string \<Rightarrow> string \<Rightarrow> string option \<Rightarrow> nat \<Rightarrow>
     string option \<Rightarrow> directory_entry list \<Rightarrow> directory_entry list option" where
  "scan_loop 0 ix has_meta bucket pfx delim marker desired scan_marker es = None"
| "scan_loop (Suc fuel) ix has_meta bucket pfx delim marker desired scan_marker es =
     (let size = clamp 1 1024 desired;
          keys = list_prefix_marker ix bucket (Some pfx) scan_marker (Some size)
      in if keys = [] then Some es
      else case scan_batch has_meta pfx delim marker desired keys scan_marker es of
        (scan_marker', es') \<Rightarrow>
          if desired \<le> length es' \<or> length keys < size then Some es'
          else scan_loop fuel ix has_meta bucket pfx delim marker desired scan_marker' es')"

text \<open>Every batch consumes a key, so the number of keys of the bucket bounds the rounds.\<close>

definition scan_fuel :: "lock_free_index \<Rightarrow> string \<Rightarrow> nat" where
  "scan_fuel ix bucket = Suc (length (index_list ix bucket None))"

definition has_metadata :: "world \<Rightarrow> string \<Rightarrow> string \<Rightarrow> bool" where
  "has_metadata s bucket key \<longleftrightarrow> path_exists s (object_dir s bucket key @ [META])"

definition scan_delimited_entries ::
    "world \<Rightarrow> string \<Rightarrow> string \<Rightarrow> string \<Rightarrow> string option \<Rightarrow> nat \<Rightarrow> directory_entry list option" where
  "scan_delimited_entries s bucket pfx delim marker desired =
     scan_loop (scan_fuel (st_index s) bucket) (st_index s) (has_metadata s bucket) bucket pfx delim marker
       desired marker []"

text \<open>The metadata of the listed keys; keys deleted meanwhile are left out.\<close>

definition read_listed :: "string \<Rightarrow> string list \<Rightarrow> object list io" where
  "read_listed bucket keys =
     collect_io keys (\<lambda>key.
       bind_io (try_io (read_object_metadata_locked bucket key)) (\<lambda>r.
       case r of
         Ok ob \<Rightarrow> return (Some ob)
       | Err e \<Rightarrow> if e = KeyNotFound then return None else throw e))"

definition next_page_marker :: "nat \<Rightarrow> string list \<Rightarrow> string option" where
  "next_page_marker max_keys paths =
     (if max_keys < length paths then
        (if max_keys = 0 then Some (hd paths) else Some (last (take max_keys paths)))
      else None)"

definition list_objects_with_delimiter ::
    "string \<Rightarrow> string \<Rightarrow> string \<Rightarrow> string option \<Rightarrow> nat \<Rightarrow> list_objects_result io" where
  "list_objects_with_delimiter bucket pfx delim marker max_keys =
     (let entry_limit = saturating_add_usize max_keys 1 in
      bind_io (gets (\<lambda>s.
        if delim = ''/'' \<and> (pfx = [] \<or> last pfx = CHR ''/'')
        then Some (list_child_entries (st_index s) bucket pfx marker (Some entry_limit))
        else scan_delimited_entries s bucket pfx delim marker entry_limit)) (\<lambda>scanned.
      bind_io (of_result (ok_or (InternalError ''listing did not end'') scanned)) (\<lambda>es.
      let page = take max_keys es in
      bind_io (read_listed bucket (map path (filter (\<lambda>e. kind e = ObjectEntry) page))) (\<lambda>obs.
      return \<lparr>common_prefixes = map path (filter (\<lambda>e. kind e = CommonPrefix) page), objects = obs,
              is_truncated = (max_keys < length es), next_marker = next_page_marker max_keys (map path es)\<rparr>))))"

definition list_objects ::
    "string \<Rightarrow> string option \<Rightarrow> string option \<Rightarrow> string option \<Rightarrow> nat option \<Rightarrow> list_objects_result io" where
  "list_objects bucket pfx delim marker max_keys_opt =
     then_io (require_bucket bucket)
     (let max_keys = (case max_keys_opt of Some m \<Rightarrow> m | None \<Rightarrow> 1000) in
      if (case delim of Some d \<Rightarrow> d \<noteq> [] | None \<Rightarrow> False) then
        list_objects_with_delimiter bucket (case pfx of Some p \<Rightarrow> p | None \<Rightarrow> []) (the delim) marker max_keys
      else
        bind_io (gets (\<lambda>s. list_prefix_marker (st_index s) bucket pfx marker
                             (Some (saturating_add_usize max_keys 1)))) (\<lambda>keys.
        bind_io (read_listed bucket (take max_keys keys)) (\<lambda>obs.
        return \<lparr>common_prefixes = [], objects = obs, is_truncated = (max_keys < length keys),
                next_marker = next_page_marker max_keys keys\<rparr>)))"

end
