(* ===== verification/Listing_Correct.thy ===== *)
theory Listing_Correct
  imports Listing Object_Store
begin

text \<open>
  Listings are complete and ordered (\<^verbatim>\<open>ObjectListingStore\<close> of \<^verbatim>\<open>src/src/storage/filesystem.rs\<close>): the scan
  in batches terminates and computes what the set of keys determines, it agrees with the directory
  index, and pages follow each other without loss.
\<close>

section \<open>The first delimiter of a key\<close>

lemma find_str_Nil [simp]: "find_str p [] = (if p = [] then Some 0 else None)"
  by (simp add: find_str.simps)

lemma find_str_Cons:
  "find_str p (c # r) = (if prefix p (c # r) then Some 0 else map_option Suc (find_str p r))"
  by (subst find_str.simps) simp

lemma find_str_length: "find_str p s = Some i \<Longrightarrow> i + length p \<le> length s"
  by (induction s arbitrary: i) (auto simp: find_str_Cons prefix_length_le split: if_splits dest: prefix_length_le)

lemma find_str_append: "find_str p a = Some i \<Longrightarrow> find_str p (a @ b) = Some i"
proof (induction a arbitrary: i)
  case Nil
  then show ?case by (cases b) (auto simp: find_str_Cons split: if_splits)
next
  case (Cons c a)
  show ?case
  proof (cases "prefix p (c # a)")
    case True
    then show ?thesis using Cons.prems prefix_prefix [of p "c # a" b] by (simp add: find_str_Cons)
  next
    case False
    with Cons.prems obtain j where j: "find_str p a = Some j" "i = Suc j"
      by (auto simp: find_str_Cons)
    have "length p \<le> length (c # a)" using find_str_length [OF j(1)] by simp
    then have "\<not> prefix p (c # a @ b)"
      using False prefix_length_prefix [of p "c # a @ b" "c # a"] by auto
    then show ?thesis using Cons.IH [OF j(1)] j(2) by (simp add: find_str_Cons)
  qed
qed

lemma find_str_take: "find_str p s = Some i \<Longrightarrow> find_str p (take (i + length p) s) = Some i"
proof (induction s arbitrary: i)
  case (Cons c s)
  show ?case
  proof (cases "prefix p (c # s)")
    case True
    then obtain t where "c # s = p @ t" by (auto simp: prefix_def)
    then have "take (length p) (c # s) = p" by simp
    moreover have "find_str p p = Some 0" by (cases p) (simp_all add: find_str_Cons)
    moreover have "i = 0" using Cons.prems True by (simp add: find_str_Cons)
    ultimately show ?thesis by simp
  next
    case False
    with Cons.prems obtain j where j: "find_str p s = Some j" "i = Suc j"
      by (auto simp: find_str_Cons)
    have "\<not> prefix p (c # take (j + length p) s)"
      using False prefix_order.trans [OF _ take_is_prefix, of p "Suc (j + length p)" "c # s"] by auto
    then show ?thesis using Cons.IH [OF j(1)] j(2) by (simp add: find_str_Cons)
  qed
qed (auto split: if_splits)

lemma find_str_char:
  "find_str [c] s = (if c \<in> set s then Some (length (takeWhile (\<lambda>x. x \<noteq> c) s)) else None)"
  by (induction s) (auto simp: find_str_Cons)

section \<open>Entries are ordered as their keys\<close>

text \<open>What is left of a key below the prefix: all of it, or up to and with the first delimiter.\<close>

definition cut_key :: "string \<Rightarrow> string \<Rightarrow> string" where
  "cut_key d r = (case find_str d r of None \<Rightarrow> r | Some i \<Rightarrow> take (i + length d) r)"

lemma cut_key_prefix: "prefix (cut_key d r) r"
  by (auto simp: cut_key_def take_is_prefix split: option.splits)

lemma find_cut_key [simp]: "find_str d (cut_key d r) = find_str d r"
  by (auto simp: cut_key_def find_str_take split: option.splits)

lemma cut_key_idem [simp]: "cut_key d (cut_key d r) = cut_key d r"
  using find_cut_key [of d r] find_str_length [of d r]
  by (auto simp: cut_key_def split: option.splits)

lemma cut_key_mono:
  assumes "r \<le> (s :: string)"
  shows "cut_key d r \<le> cut_key d s"
proof (rule ccontr)
  assume "\<not> cut_key d r \<le> cut_key d s"
  then have less: "cut_key d s < cut_key d r" by simp
  have up: "cut_key d r \<le> s" using prefix_imp_le [OF cut_key_prefix [of d r]] assms by simp
  show False
  proof (cases "find_str d s")
    case None
    with less up show False by (simp add: cut_key_def)
  next
    case (Some i)
    then have len: "length (cut_key d s) = i + length d"
      using find_str_length [OF Some] by (simp add: cut_key_def)
    have "prefix (cut_key d s) (cut_key d r)"
      using prefix_convex [OF cut_key_prefix _ up] less by simp
    then obtain b where b: "cut_key d r = cut_key d s @ b" by (auto simp: prefix_def)
    then have "find_str d r = Some i"
      using find_str_append [of d "cut_key d s" i b] Some find_cut_key [of d r] by simp
    then have "length (cut_key d r) = i + length d"
      using find_str_length [of d r i] by (simp add: cut_key_def)
    with len b less show False by simp
  qed
qed

lemma delimited_entry_append:
  "delimited_entry p d (p @ r) =
     \<lparr>path = p @ cut_key d r, kind = (if find_str d r = None then ObjectEntry else CommonPrefix)\<rparr>"
  by (auto simp: delimited_entry_def cut_key_def split: option.splits)

lemma delimited_entry_path:
  assumes "prefix p k"
  shows "delimited_entry p d (path (delimited_entry p d k)) = delimited_entry p d k"
  using assms by (auto simp: prefix_def delimited_entry_append)

lemma append_le [simp]: "p @ r \<le> p @ s \<longleftrightarrow> r \<le> (s :: string)"
  by (induction p) auto

lemma delimited_entry_mono:
  assumes "prefix p k" "prefix p l" "k \<le> l"
  shows "path (delimited_entry p d k) \<le> path (delimited_entry p d l)"
  using assms cut_key_mono by (auto simp: prefix_def delimited_entry_append)

lemma delimited_entry_le: "prefix p k \<Longrightarrow> path (delimited_entry p d k) \<le> k"
  using cut_key_prefix [THEN prefix_imp_le] by (auto simp: prefix_def delimited_entry_append)

section \<open>The scan computes the sorted entries\<close>

text \<open>One key of the scan, without the bound on the page.\<close>

definition listed :: "(string \<Rightarrow> bool) \<Rightarrow> string option \<Rightarrow> directory_entry \<Rightarrow> bool" where
  "listed has_meta marker e \<longleftrightarrow>
     (case marker of Some m \<Rightarrow> m < path e | None \<Rightarrow> True) \<and> (kind e = ObjectEntry \<longrightarrow> has_meta (path e))"

definition add_entry ::
    "(string \<Rightarrow> bool) \<Rightarrow> string \<Rightarrow> string \<Rightarrow> string option \<Rightarrow> directory_entry list \<Rightarrow> string \<Rightarrow> directory_entry list"
  where
  "add_entry has_meta pfx delim marker es key =
     (let e = delimited_entry pfx delim key in
      if listed has_meta marker e \<and> (es = [] \<or> path (last es) \<noteq> path e) then es @ [e] else es)"

lemma add_entry_extends: "\<exists>t. foldl (add_entry h p d m) es keys = es @ t"
proof (induction keys arbitrary: es)
  case (Cons k keys)
  have "\<exists>t. add_entry h p d m es k = es @ t" by (auto simp: add_entry_def Let_def)
  with Cons.IH [of "add_entry h p d m es k"] show ?case by auto
qed simp

lemma scan_batch_step:
  "scan_batch h p d m n (key # keys) sm es =
     (let es' = add_entry h p d m es key in
      if length es < length es' \<and> n \<le> length es' then (Some key, es')
      else scan_batch h p d m n keys (Some key) es')"
  by (cases m) (auto simp: add_entry_def listed_def Let_def not_le)

lemma scan_batch_spec:
  assumes "length es < n"
  shows "snd (scan_batch h p d m n keys sm es) = take n (foldl (add_entry h p d m) es keys) \<and>
         (length (foldl (add_entry h p d m) es keys) < n \<longrightarrow> keys \<noteq> [] \<longrightarrow>
          fst (scan_batch h p d m n keys sm es) = Some (last keys))"
  using assms
proof (induction keys arbitrary: sm es)
  case (Cons key keys)
  let ?es = "add_entry h p d m es key"
  obtain t where t: "foldl (add_entry h p d m) ?es keys = ?es @ t" using add_entry_extends by blast
  have grow: "length es \<le> length ?es" "length ?es \<le> Suc (length es)" by (simp_all add: add_entry_def Let_def)
  show ?case
  proof (cases "length es < length ?es \<and> n \<le> length ?es")
    case True
    with grow Cons.prems have "n = length ?es" by simp
    with True t show ?thesis by (simp add: scan_batch_step Let_def del: scan_batch.simps)
  next
    case False
    with grow Cons.prems have less: "length ?es < n" by linarith
    have eq: "scan_batch h p d m n (key # keys) sm es = scan_batch h p d m n keys (Some key) ?es"
      using False by (simp only: scan_batch_step Let_def if_False)
    show ?thesis unfolding eq using Cons.IH [OF less, of "Some key"]
      by (cases "keys = []") (simp_all del: scan_batch.simps(2))
  qed
qed simp

lemma scan_loop_spec:
  assumes inv: "lfi_inv ix" and "length es < n"
    and "length (list_prefix_marker ix b (Some p) sm None) < fuel"
  shows "scan_loop fuel ix h b p d m n sm es =
           Some (take n (foldl (add_entry h p d m) es (list_prefix_marker ix b (Some p) sm None)))"
  using assms(2-)
proof (induction fuel arbitrary: sm es)
  case (Suc fuel)
  let ?rest = "list_prefix_marker ix b (Some p) sm None" and ?size = "clamp 1 1024 n"
  let ?keys = "list_prefix_marker ix b (Some p) sm (Some ?size)"
  have size: "0 < ?size" by (simp add: clamp_def)
  then have keys: "?keys = take ?size ?rest"
    by (simp add: list_prefix_marker_eq [OF inv] take_limit_def max_def)
  let ?full = "foldl (add_entry h p d m) es ?keys"
  obtain t where t: "foldl (add_entry h p d m) es ?rest = ?full @ t"
    using add_entry_extends [of h p d m ?full "drop ?size ?rest"]
    by (metis append_take_drop_id foldl_append keys)
  obtain sm' es' where batch: "scan_batch h p d m n ?keys sm es = (sm', es')" by fastforce
  note spec = scan_batch_spec [OF Suc.prems(1), of h p d m ?keys sm, unfolded batch fst_conv snd_conv]
  show ?case
  proof (cases "?keys = []")
    case True
    then have "?rest = []" using keys size by simp
    with True Suc.prems show ?thesis by (simp add: Let_def)
  next
    case False
    consider (full) "n \<le> length ?full" | (short) "length ?full < n" "length ?keys < ?size"
      | (more) "length ?full < n" "\<not> length ?keys < ?size" by linarith
    then show ?thesis
    proof cases
      case full
      with spec t False batch show ?thesis by (simp add: Let_def)
    next
      case short
      then have "?keys = ?rest" using keys by simp
      with short spec False batch show ?thesis by (simp add: Let_def)
    next
      case more
      then have es': "es' = ?full" and sm': "sm' = Some (last ?keys)" using spec False by simp_all
      have rest: "?rest = ?keys @ list_prefix_marker ix b (Some p) sm' None"
        using lfi.page_continues [OF inv size, of b "Some p" sm "butlast ?keys" "last ?keys"] False sm' by simp
      from arg_cong [OF rest, of length] Suc.prems(2) False
      have len: "length (list_prefix_marker ix b (Some p) sm' None) < fuel"
        by (simp flip: length_greater_0_conv)
      show ?thesis
        unfolding rest foldl_append using Suc.IH [of es' sm'] len more es' False batch
        by (simp add: Let_def)
    qed
  qed
qed simp

lemma sorted_path_last: "sorted_wrt (<) (map path es) \<Longrightarrow> e \<in> set es \<Longrightarrow> path e \<le> path (last es)"
  by (induction es) (auto simp: less_le)

lemma collected_sorted:
  assumes "sorted_wrt (<) keys" and "\<forall>k \<in> set keys. prefix p k"
  shows "sorted_wrt (<) (map path (foldl (add_entry h p d m) [] keys)) \<and>
         set (foldl (add_entry h p d m) [] keys) = {e \<in> delimited_entry p d ` set keys. listed h m e}"
  using assms
proof (induction keys rule: rev_induct)
  case (snoc k keys)
  let ?es = "foldl (add_entry h p d m) [] keys" and ?e = "delimited_entry p d k"
  from snoc have sorted: "sorted_wrt (<) (map path ?es)"
    and set: "set ?es = {e \<in> delimited_entry p d ` set keys. listed h m e}"
    by (simp_all add: sorted_wrt_append)
  have below: "path e \<le> path ?e" if "e \<in> set ?es" for e
  proof -
    from that set obtain l where "l \<in> set keys" "e = delimited_entry p d l" by auto
    with snoc.prems show ?thesis by (auto simp: sorted_wrt_append intro!: delimited_entry_mono)
  qed
  show ?case
  proof (cases "listed h m ?e \<and> (?es = [] \<or> path (last ?es) \<noteq> path ?e)")
    case True
    have "path e < path ?e" if "e \<in> set ?es" for e
    proof -
      from that have "path e \<le> path (last ?es)" by (rule sorted_path_last [OF sorted])
      also have "\<dots> < path ?e" using True that below [OF last_in_set] by (metis empty_iff empty_set less_le)
      finally show ?thesis .
    qed
    with True have "add_entry h p d m ?es k = ?es @ [?e]" "sorted_wrt (<) (map path (?es @ [?e]))"
      using sorted by (simp_all add: add_entry_def [of _ _ _ _ ?es] sorted_wrt_append)
    then show ?thesis using set True by auto
  next
    case False
    have "?e \<in> set ?es" if "listed h m ?e"
    proof -
      from that False have ne: "?es \<noteq> []" and same: "path (last ?es) = path ?e" by auto
      then have "last ?es \<in> set ?es" by simp
      with set obtain l where "l \<in> set keys" "last ?es = delimited_entry p d l" by auto
      then have "delimited_entry p d (path (last ?es)) = last ?es"
        using delimited_entry_path [of p l d] snoc.prems by simp
      moreover have "delimited_entry p d (path ?e) = ?e"
        using delimited_entry_path [of p k d] snoc.prems by simp
      ultimately have "last ?es = ?e" using same by metis
      with \<open>last ?es \<in> set ?es\<close> show ?thesis by metis
    qed
    moreover from False have "add_entry h p d m ?es k = ?es" by (auto simp: add_entry_def [of _ _ _ _ ?es])
    ultimately show ?thesis using set sorted by auto
  qed
qed simp

text \<open>The paths a listing below a prefix shows: what the set of keys determines.\<close>

definition delimited_paths :: "(string \<Rightarrow> bool) \<Rightarrow> string set \<Rightarrow> string \<Rightarrow> string \<Rightarrow> string set" where
  "delimited_paths has_meta K pfx delim =
     path ` {e \<in> delimited_entry pfx delim ` {k \<in> K. prefix pfx k}. kind e = ObjectEntry \<longrightarrow> has_meta (path e)}"

abbreviation after_marker :: "string option \<Rightarrow> string \<Rightarrow> bool" where
  "after_marker marker p \<equiv> case marker of Some m \<Rightarrow> m < p | None \<Rightarrow> True"

lemma collected_eq:
  assumes "finite K"
  shows "foldl (add_entry h p d m) [] (filter (key_selected (Some p) m) (sorted_list_of_set K)) =
         map (delimited_entry p d) (filter (after_marker m) (sorted_list_of_set (delimited_paths h K p d)))"
    (is "?es = map ?entry (filter ?after (sorted_list_of_set ?P))")
proof -
  let ?keys = "filter (key_selected (Some p) m) (sorted_list_of_set K)"
  have keys: "sorted_wrt (<) ?keys" "\<forall>k \<in> set ?keys. prefix p k" "set ?keys = {k \<in> K. key_selected (Some p) m k}"
    using assms by (auto simp: sorted_wrt_filter key_selected_def)
  note spec = collected_sorted [OF keys(1,2), of h d m, unfolded keys(3)]
  have "finite ?P" using assms by (simp add: delimited_paths_def)
  have "path ` set ?es = {q \<in> ?P. ?after q}"
  proof (intro set_eqI iffI)
    fix q
    assume "q \<in> {q \<in> ?P. ?after q}"
    then obtain k where k: "k \<in> K" "prefix p k" "q = path (?entry k)" "listed h m (?entry k)"
      by (auto simp: delimited_paths_def listed_def)
    then have "key_selected (Some p) m k"
      using delimited_entry_le [OF k(2), of d] by (auto simp: key_selected_def listed_def split: option.splits)
    with k spec show "q \<in> path ` set ?es" by auto
  qed (use spec in \<open>auto simp: delimited_paths_def listed_def key_selected_def\<close>)
  also have "\<dots> = set (filter ?after (sorted_list_of_set ?P))" using \<open>finite ?P\<close> by auto
  finally have "map path ?es = filter ?after (sorted_list_of_set ?P)"
    using spec by (intro strict_sorted_equal) (simp_all add: sorted_wrt_filter)
  moreover have "?entry (path e) = e" if "e \<in> set ?es" for e
    using that spec by (auto simp: key_selected_def delimited_entry_path)
  then have "map (\<lambda>e. ?entry (path e)) ?es = ?es" by (simp add: map_idI)
  then have "map ?entry (map path ?es) = ?es" by (simp add: comp_def)
  ultimately show ?thesis by simp
qed

lemma scan_fuel_card:
  assumes "lfi_inv ix"
  shows "scan_fuel ix b = Suc (card (lfi_keys ix b))"
proof -
  have "index_list ix b None = sorted_list_of_set (lfi_keys ix b)"
    using list_prefix_marker_eq [OF assms, of b None None None]
    by (simp add: take_limit_def key_selected_def [abs_def] index_list_def list_prefix_marker_def
        start_entries_def scan_keys_eq takeWhile_eq_all_conv [THEN iffD2] split: option.splits)
  then show ?thesis by (simp add: scan_fuel_def)
qed

lemma scan_total:
  assumes "lfi_inv (st_index s)" and "0 < n" and "scan_fuel (st_index s) b \<le> fuel"
  shows "scan_loop fuel (st_index s) (has_metadata s b) b p d m n m [] =
           Some (take n (map (delimited_entry p d) (filter (after_marker m)
             (sorted_list_of_set (delimited_paths (has_metadata s b) (lfi_keys (st_index s) b) p d)))))"
proof -
  let ?ix = "st_index s"
  have page: "list_prefix_marker ?ix b pre marker None =
      filter (key_selected pre marker) (sorted_list_of_set (lfi_keys ?ix b))" for pre marker
    by (simp add: list_prefix_marker_eq [OF assms(1)] take_limit_def)
  have "length (list_prefix_marker ?ix b (Some p) m None) < scan_fuel ?ix b"
    using length_filter_le [of "key_selected (Some p) m" "sorted_list_of_set (lfi_keys ?ix b)"]
    by (simp add: page scan_fuel_card [OF assms(1)])
  with assms(3) have "length (list_prefix_marker ?ix b (Some p) m None) < fuel" by simp
  from scan_loop_spec [OF assms(1) _ this, of "[]" n] show ?thesis
    using assms(2) by (simp add: page collected_eq lfi.keys_finite [OF assms(1)])
qed

lemma scan_delimited_eq:
  assumes "lfi_inv (st_index s)" and "0 < n"
  shows "scan_delimited_entries s b p d m n =
           Some (take n (map (delimited_entry p d) (filter (after_marker m)
             (sorted_list_of_set (delimited_paths (has_metadata s b) (lfi_keys (st_index s) b) p d)))))"
  using scan_total [OF assms order_refl] by (simp add: scan_delimited_entries_def)

text \<open>A delimiter of one slash below a directory: the children of the directory index.\<close>

lemma delimited_paths_children:
  assumes "\<forall>k \<in> K. h k"
  shows "delimited_paths h K q ''/'' = child_paths K q"
proof -
  have entry: "path (delimited_entry q ''/'' k) = fst (child_of q k) \<and>
      (kind (delimited_entry q ''/'' k) = ObjectEntry \<longrightarrow> path (delimited_entry q ''/'' k) = k)"
    if "prefix q k" for k
  proof -
    from that obtain r where r: "k = q @ r" by (auto simp: prefix_def)
    have "take (Suc (length (takeWhile (\<lambda>c. c \<noteq> CHR ''/'') r))) r = takeWhile (\<lambda>c. c \<noteq> CHR ''/'') r @ ''/''"
      if "CHR ''/'' \<in> set r"
      using takeWhile_first [OF that] by (metis append_Cons append_Nil append_assoc append_eq_conv_conj
          length_append_singleton)
    then show ?thesis by (simp add: r delimited_entry_append cut_key_def find_str_char)
  qed
  have "{e \<in> delimited_entry q ''/'' ` {k \<in> K. prefix q k}. kind e = ObjectEntry \<longrightarrow> h (path e)} =
      delimited_entry q ''/'' ` {k \<in> K. prefix q k}"
    using assms entry by (auto simp del: imp_conjR) (metis entry)
  then show ?thesis
    using entry by (auto simp: delimited_paths_def child_paths_def image_image)
qed

section \<open>A page of objects\<close>

lemma read_listed_spec:
  assumes "store_ok s" and "faults s = []"
  shows "\<exists>s1. read_listed b keys s =
           (Done (List.map_filter (\<lambda>k. map_option serialize_object (held s (object_dir s b k))) keys), s1) \<and>
           undisturbed s s1"
  using assms
proof (induction keys arbitrary: s)
  case Nil
  then show ?case by (simp add: read_listed_def return_def undisturbed_refl)
next
  case (Cons k keys)
  obtain s1 where rd: "read_object_metadata_locked b k s = (read_outcome (map_option serialize_object (held s (object_dir s b k))), s1)"
    and u: "undisturbed s s1" using read_metadata_spec [OF Cons.prems] .
  note u' = undisturbed_facts [OF u]
  obtain s2 where rest: "read_listed b keys s1 =
      (Done (List.map_filter (\<lambda>k. map_option serialize_object (held s (object_dir s b k))) keys), s2)"
    and u2: "undisturbed s1 s2"
    using Cons.IH [OF u'(1,2)] by (auto simp: u'(4,5))
  have "read_listed b (k # keys) s = (Done (List.map_filter (\<lambda>k. map_option serialize_object (held s (object_dir s b k))) (k # keys)), s2)"
    using rd rest by (cases "held s (object_dir s b k)")
      (simp_all add: read_listed_def bind_io_def try_io_def return_def List.map_filter_simps)
  then show ?case using undisturbed_trans [OF u u2] by blast
qed

text \<open>
  The reference of a listing: all entries after the marker, in order. With a delimiter they are
  what the keys determine below the prefix, without one every selected key is an entry.
\<close>

definition all_entries ::
    "world \<Rightarrow> string \<Rightarrow> string option \<Rightarrow> string option \<Rightarrow> string option \<Rightarrow> directory_entry list" where
  "all_entries s b pfx delim marker =
     (let K = lfi_keys (st_index s) b; p = (case pfx of Some p \<Rightarrow> p | None \<Rightarrow> []) in
      case delim of
        Some (c # d) \<Rightarrow>
          map (delimited_entry p (c # d)) (filter (after_marker marker)
            (sorted_list_of_set (delimited_paths (has_metadata s b) K p (c # d))))
      | _ \<Rightarrow> map (\<lambda>k. \<lparr>path = k, kind = ObjectEntry\<rparr>) (filter (key_selected pfx marker) (sorted_list_of_set K)))"

definition page_of :: "(string \<Rightarrow> object option) \<Rightarrow> nat \<Rightarrow> directory_entry list \<Rightarrow> list_objects_result" where
  "page_of stored n es =
     \<lparr>common_prefixes = [path e. e \<leftarrow> take n es, kind e = CommonPrefix],
      objects = List.map_filter stored [path e. e \<leftarrow> take n es, kind e = ObjectEntry],
      is_truncated = (n < length es), next_marker = next_page_marker n (map path es)\<rparr>"

definition stored_metadata :: "world \<Rightarrow> string \<Rightarrow> string \<Rightarrow> object option" where
  "stored_metadata s b k = map_option serialize_object (held s (object_dir s b k))"

lemma page_of_take: "n < m \<Longrightarrow> page_of f n (take m es) = page_of f n es"
  by (auto simp: page_of_def next_page_marker_def min_def take_map hd_map hd_take)

lemma list_if_filter: "[f x. x \<leftarrow> xs, P x] = map f (filter P xs)"
  by (induction xs) auto

lemma child_entries_eq:
  assumes "lfi_inv (st_index s)" "\<forall>k \<in> lfi_keys (st_index s) b. has_metadata s b k"
    and "q = [] \<or> last q = CHR ''/''" and "0 < n"
  shows "list_child_entries (st_index s) b q marker (Some n) =
           take n (map (delimited_entry q ''/'') (filter (after_marker marker)
             (sorted_list_of_set (delimited_paths (has_metadata s b) (lfi_keys (st_index s) b) q ''/''))))"
proof -
  let ?P = "child_paths (lfi_keys (st_index s) b) q"
  have paths: "delimited_paths (has_metadata s b) (lfi_keys (st_index s) b) q ''/'' = ?P"
    using delimited_paths_children assms(2) by blast
  have fin: "finite ?P" using lfi.keys_finite [OF assms(1)] by (simp add: child_paths_def)
  have "entry_at q p = delimited_entry q ''/'' p" if "p \<in> ?P" for p
  proof -
    from that obtain k where k: "k \<in> lfi_keys (st_index s) b" "prefix q k" "p = fst (child_of q k)"
      by (auto simp: child_paths_def)
    then have "prefix q p" using child_of_kind(3) [of q k p "snd (child_of q k)"] by simp
    then obtain r where r: "p = q @ r" by (auto simp: prefix_def)
    from that have "p \<in> delimited_paths (has_metadata s b) (lfi_keys (st_index s) b) q ''/''" by (simp add: paths)
    then obtain l where "prefix q l" "p = path (delimited_entry q ''/'' l)" by (auto simp: delimited_paths_def)
    then have "path (delimited_entry q ''/'' p) = p" by (simp add: delimited_entry_path)
    then show ?thesis by (simp add: r entry_at_def delimited_entry_append find_str_char)
  qed
  then have "map (entry_at q) (filter (after_marker marker) (sorted_list_of_set ?P)) =
      map (delimited_entry q ''/'') (filter (after_marker marker) (sorted_list_of_set ?P))"
    using fin by (intro map_cong) auto
  moreover have "max 1 n = n" using assms(4) by simp
  ultimately show ?thesis
    by (simp only: list_child_entries_eq [OF assms(1,3)] paths take_limit_def option.case)
qed

lemma list_objects_eq:
  assumes ok: "store_ok s" "faults s = []" and inv: "lfi_inv (st_index s)" and there: "bucket_exists s b"
    and meta: "\<forall>k \<in> lfi_keys (st_index s) b. has_metadata s b k" and n: "n < u64_max"
  shows "\<exists>s1. list_objects b pfx delim marker (Some n) s =
           (Done (page_of (stored_metadata s b) n (all_entries s b pfx delim marker)), s1) \<and> undisturbed s s1"
proof -
  let ?all = "all_entries s b pfx delim marker" and ?p = "case pfx of Some p \<Rightarrow> p | None \<Rightarrow> []"
  have lim: "saturating_add_usize n (Suc 0) = Suc n" using n by (simp add: saturating_add_usize_def)
  have start: "require_bucket b s = (Done (), s)"
    using there by (simp add: require_bucket_def bind_io_def gets_def guard_io_def return_def)
  let ?page = "take n ?all"
  have page: "page_of (stored_metadata s b) n (take (Suc n) ?all) = page_of (stored_metadata s b) n ?all"
    by (simp add: page_of_take)
  obtain s1 where rd: "read_listed b (map path (filter (\<lambda>e. kind e = ObjectEntry) ?page)) s =
      (Done (List.map_filter (stored_metadata s b) (map path (filter (\<lambda>e. kind e = ObjectEntry) ?page))), s1)"
    and u: "undisturbed s s1" using read_listed_spec [OF ok] unfolding stored_metadata_def by blast
  show ?thesis
  proof (cases "\<exists>c d. delim = Some (c # d)")
    case True
    then obtain c d where d: "delim = Some (c # d)" by blast
    have scanned: "(if (c # d) = ''/'' \<and> (?p = [] \<or> last ?p = CHR ''/'')
         then Some (list_child_entries (st_index s) b ?p marker (Some (Suc n)))
         else scan_delimited_entries s b ?p (c # d) marker (Suc n)) = Some (take (Suc n) ?all)"
      using child_entries_eq [OF inv meta, of ?p "Suc n" marker] scan_delimited_eq [OF inv, of "Suc n" b ?p "c # d" marker]
      by (auto simp: all_entries_def d Let_def)
    have "list_objects b pfx delim marker (Some n) s = (Done (page_of (stored_metadata s b) n (take (Suc n) ?all)), s1)"
      using start scanned rd
      by (simp add: list_objects_def bind_io_def d list_objects_with_delimiter_def lim gets_def Let_def
          of_result_def return_def page_of_def min_def list_if_filter cong: if_cong)
    then show ?thesis using u by (simp add: page)
  next
    case False
    then have flat: "\<not> (case delim of Some d \<Rightarrow> d \<noteq> [] | None \<Rightarrow> False)"
      and all: "?all = map (\<lambda>k. \<lparr>path = k, kind = ObjectEntry\<rparr>)
        (filter (key_selected pfx marker) (sorted_list_of_set (lfi_keys (st_index s) b)))" (is "_ = map _ ?keys")
      by (auto simp: all_entries_def Let_def neq_Nil_conv split: option.splits list.splits)
    have keys: "list_prefix_marker (st_index s) b pfx marker (Some (Suc n)) = take (Suc n) ?keys"
      by (simp add: list_prefix_marker_eq [OF inv] take_limit_def)
    have "list_objects b pfx delim marker (Some n) s = (Done (page_of (stored_metadata s b) n (take (Suc n) ?all)), s1)"
      using start rd flat
      by (simp add: list_objects_def bind_io_def lim gets_def Let_def keys all take_map
          return_def page_of_def min_def list_if_filter filter_map comp_def)
    then show ?thesis using u by (simp add: page)
  qed
qed

section \<open>The next page\<close>

text \<open>A bucket of a sound store at rest, all of whose indexed keys have an object.\<close>

definition listable :: "world \<Rightarrow> string \<Rightarrow> bool" where
  "listable s b \<longleftrightarrow>
     store_ok s \<and> faults s = [] \<and> lfi_inv (st_index s) \<and> bucket_exists s b \<and>
     (\<forall>k \<in> lfi_keys (st_index s) b. current (object_state s b k) \<noteq> None)"

lemma has_metadata_current: "store_ok s \<Longrightarrow> has_metadata s b k \<longleftrightarrow> current (object_state s b k) \<noteq> None"
  by (cases rule: sound_read [OF store_ok_dir(1) [of s b k]]) (auto simp: has_metadata_def object_state_def)

lemma listable_undisturbed:
  assumes "undisturbed s s1" and "listable s b"
  shows "listable s1 b" "all_entries s1 b = all_entries s b" "stored_metadata s1 b = stored_metadata s b"
proof -
  note u = undisturbed_facts [OF assms(1)]
  have ix: "st_index s1 = st_index s" using u(3) by (simp add: rest_same_def)
  have cur: "current (object_state s1 b k) = current (object_state s b k)" for k
    by (simp add: object_state_def u(4,5))
  show "listable s1 b" using assms(2) u(1,2,7) by (simp add: listable_def ix cur)
  have "has_metadata s1 b = has_metadata s b"
    using assms(2) u(1) by (simp add: fun_eq_iff has_metadata_current listable_def cur)
  then show "all_entries s1 b = all_entries s b" by (intro HOL.ext) (simp add: all_entries_def ix Let_def split: option.split list.split)
  show "stored_metadata s1 b = stored_metadata s b" by (simp add: fun_eq_iff stored_metadata_def u(4,5))
qed

lemma listable_page:
  assumes "listable s b" and "n < u64_max"
  obtains s1 where
    "list_objects b pfx delim marker (Some n) s =
       (Done (page_of (stored_metadata s b) n (all_entries s b pfx delim marker)), s1)"
    "undisturbed s s1"
proof -
  have "\<forall>k \<in> lfi_keys (st_index s) b. has_metadata s b k"
    using assms(1) has_metadata_current by (auto simp: listable_def)
  then show ?thesis
    using list_objects_eq [of s b n pfx delim marker] assms that by (auto simp: listable_def)
qed

lemma sorted_after_drop:
  fixes L :: "string list"
  assumes "sorted_wrt (<) L" and xs: "xs = filter (after_marker marker) L" and n: "0 < n" "n \<le> length xs"
  shows "filter (\<lambda>p. xs ! (n - 1) < p) L = drop n xs"
proof -
  let ?m = "xs ! (n - 1)"
  have sorted: "sorted_wrt (<) xs" using assms(1) xs by (simp add: sorted_wrt_filter)
  have m: "?m \<in> set (take n xs)" using n by (auto simp: in_set_conv_nth intro!: exI [of _ "n - 1"])
  have above: "\<forall>k \<in> set (drop n xs). ?m < k"
    using sorted m by (metis append_take_drop_id sorted_wrt_append)
  have "k \<le> ?m" if "k \<in> set (take n xs)" for k
  proof -
    from that obtain i where "i < n" "k = xs ! i" using n by (auto simp: in_set_conv_nth)
    moreover have "sorted xs" using sorted by (rule strict_sorted_imp_sorted)
    ultimately show ?thesis using n by (auto intro!: sorted_nth_mono)
  qed
  then have "filter (\<lambda>p. ?m < p) (take n xs) = []" by (auto simp: filter_empty_conv not_less)
  then have tail: "filter (\<lambda>p. ?m < p) xs = drop n xs"
    using above by (metis append_Nil append_take_drop_id filter_append filter_True)
  have "after_marker marker x" if "x \<in> set xs" for x using that by (simp add: xs)
  then have "after_marker marker ?m" using n by simp
  then have "(?m < p) = (after_marker marker p \<and> ?m < p)" for p
    using less_trans [of _ ?m p] by (cases marker) (simp_all, metis)
  then have "filter (\<lambda>p. ?m < p) L = filter (\<lambda>p. ?m < p) xs"
    unfolding xs filter_filter by (rule filter_cong [OF refl])
  then show ?thesis using tail by simp
qed

lemma all_entries_next:
  assumes "next_page_marker n (map path (all_entries s b pfx delim marker)) = Some m" and "0 < n"
  shows "all_entries s b pfx delim (Some m) = drop n (all_entries s b pfx delim marker)"
proof -
  have last_take: "last (take n xs) = xs ! (n - 1)" if "n < length xs" for xs :: "string list"
    using that assms(2) by (subst last_conv_nth) auto
  have nx: "n < length (all_entries s b pfx delim marker)" "m = path (all_entries s b pfx delim marker ! (n - 1))"
    using assms by (auto simp: next_page_marker_def last_take split: if_splits)
  let ?K = "lfi_keys (st_index s) b"
  show ?thesis
  proof (cases "\<exists>c d. delim = Some (c # d)")
    case True
    then obtain c d where d: "delim = Some (c # d)" by blast
    define p L where "p = (case pfx of Some p \<Rightarrow> p | None \<Rightarrow> [])"
      and "L = sorted_list_of_set (delimited_paths (has_metadata s b) ?K p (c # d))"
    have all: "all_entries s b pfx delim mk = map (delimited_entry p (c # d)) (filter (after_marker mk) L)" for mk
      by (simp add: all_entries_def d Let_def p_def L_def)
    let ?xs = "filter (after_marker marker) L"
    have same: "path (delimited_entry p (c # d) q) = q" if "q \<in> set L" for q
    proof -
      from that have "q \<in> delimited_paths (has_metadata s b) ?K p (c # d)"
        unfolding L_def by (metis empty_iff sorted_list_of_set.fold_insort_key.infinite list.set(1) set_sorted_list_of_set)
      then show ?thesis by (auto simp: delimited_paths_def delimited_entry_path)
    qed
    have "?xs ! (n - 1) \<in> set ?xs" using nx(1) by (intro nth_mem) (simp add: all)
    then have "?xs ! (n - 1) \<in> set L" by (metis filter_is_subset subsetD)
    then have "m = ?xs ! (n - 1)" using nx same by (simp add: all)
    then show ?thesis
      using sorted_after_drop [of L ?xs marker n] nx(1) assms(2) by (simp add: all drop_map L_def)
  next
    case False
    define L where "L = filter (\<lambda>k. case pfx of Some p \<Rightarrow> prefix p k | None \<Rightarrow> True) (sorted_list_of_set ?K)"
    have "filter (key_selected pfx mk) (sorted_list_of_set ?K) = filter (after_marker mk) L" for mk
      unfolding L_def filter_filter by (rule filter_cong) (auto simp: key_selected_def)
    then have all: "all_entries s b pfx delim mk = map (\<lambda>k. \<lparr>path = k, kind = ObjectEntry\<rparr>) (filter (after_marker mk) L)" for mk
      using False by (auto simp: all_entries_def Let_def split: option.split list.split)
    show ?thesis
      using sorted_after_drop [of L "filter (after_marker marker) L" marker n] nx assms(2)
      by (simp add: all drop_map L_def sorted_wrt_filter)
  qed
qed

section \<open>A concrete listing\<close>

text \<open>Two objects written to the empty bucket: one below a common prefix, one beside it.\<close>

lemma put_object_listed:
  fixes ob :: object
  assumes "store_ok s" "faults s = []" "bucket_exists s b" "obj_size ob = length (obj_data ob)"
  obtains s1 where "store_ok s1" "faults s1 = []" "bucket_exists s1 b" "only_object s s1 b k InMemory"
    "st_index s1 = index_insert (st_index s) b k" "current (object_state s1 b k) \<noteq> None"
proof -
  obtain r s1 where run: "put_object b k ob s = (r, s1)" by force
  note P = put_object_done [OF assms run]
  then obtain u where "object_state s1 b k = spec_put (versioning s b) u ob (object_state s b k)" by blast
  then have "current (object_state s1 b k) \<noteq> None"
    using spec_put_current [of "versioning s b" u ob "object_state s b k"] by auto
  then show ?thesis using P assms(3) that [of s1] by (simp add: only_object_def)
qed

lemma sample_listing:
  obtains s where "listable s ''xyz''" "lfi_keys (st_index s) ''xyz'' = {''a/k'', ''b''}"
proof -
  let ?ob = "sample_object [1, 2] None"
  have size: "obj_size ?ob = length (obj_data ?ob)" by simp
  obtain s1 where s1: "store_ok s1" "faults s1 = []" "bucket_exists s1 ''xyz''" "only_object plain_bucket s1 ''xyz'' ''a/k'' InMemory"
    "st_index s1 = index_insert (st_index plain_bucket) ''xyz'' ''a/k''" "current (object_state s1 ''xyz'' ''a/k'') \<noteq> None"
    using put_object_listed [OF sample_bucket_ok sample_bucket_fields(1) sample_bucket_exists size] .
  obtain s2 where s2: "store_ok s2" "faults s2 = []" "bucket_exists s2 ''xyz''" "only_object s1 s2 ''xyz'' ''b'' InMemory"
    "st_index s2 = index_insert (st_index s1) ''xyz'' ''b''" "current (object_state s2 ''xyz'' ''b'') \<noteq> None"
    using put_object_listed [OF s1(1-3) size] .
  have "object_dir s1 ''xyz'' ''a/k'' \<noteq> object_dir s1 ''xyz'' ''b''"
    using s1(4) by (simp add: only_object_def object_dir_bucket sample_externs_def lower_hex.simps hex_digit_def)
  with s2(4) have "current (object_state s2 ''xyz'' ''a/k'') \<noteq> None"
    using only_object_others [OF s2(4)] s1(6) by simp
  moreover have ix: "st_index s2 = index_run [OpInsert ''xyz'' ''a/k'', OpInsert ''xyz'' ''b'']"
    using s1(5) s2(5) by (simp add: index_run_def sample_bucket_def)
  then have inv: "lfi_inv (st_index s2)" and keys: "lfi_keys (st_index s2) ''xyz'' = {''b'', ''a/k''}"
    using index_run_inv [of "[OpInsert ''xyz'' ''a/k'', OpInsert ''xyz'' ''b'']"] by (simp_all add: keys_run_def)
  ultimately have "listable s2 ''xyz''" using s2 by (simp add: listable_def)
  with keys show ?thesis using that by (simp add: insert_commute)
qed

lemma sample_entries:
  assumes "listable s ''xyz''" "lfi_keys (st_index s) ''xyz'' = {''a/k'', ''b''}"
  shows "all_entries s ''xyz'' None (Some ''/'') None = [\<lparr>path = ''a/'', kind = CommonPrefix\<rparr>, \<lparr>path = ''b'', kind = ObjectEntry\<rparr>]"
proof -
  have meta: "has_metadata s ''xyz'' ''b''"
    using assms has_metadata_current [of s "''xyz''" "''b''"] by (simp add: listable_def)
  have e: "delimited_entry [] ''/'' ''a/k'' = \<lparr>path = ''a/'', kind = CommonPrefix\<rparr>"
    "delimited_entry [] ''/'' ''a/'' = \<lparr>path = ''a/'', kind = CommonPrefix\<rparr>"
    "delimited_entry [] ''/'' ''b'' = \<lparr>path = ''b'', kind = ObjectEntry\<rparr>"
    by (simp_all add: delimited_entry_def find_str_Cons)
  have K: "{k \<in> {''a/k'', ''b''}. prefix [] k} = {''a/k'', ''b''}" by auto
  have all: "{e \<in> A. P e} = A" if "\<forall>e \<in> A. P e" for A and P :: "directory_entry \<Rightarrow> bool" using that by blast
  have "{e \<in> {\<lparr>path = ''a/'', kind = CommonPrefix\<rparr>, \<lparr>path = ''b'', kind = ObjectEntry\<rparr>}. kind e = ObjectEntry \<longrightarrow> has_metadata s ''xyz'' (path e)}
      = {\<lparr>path = ''a/'', kind = CommonPrefix\<rparr>, \<lparr>path = ''b'', kind = ObjectEntry\<rparr>}"
    by (rule all) (simp add: meta)
  then have "delimited_paths (has_metadata s ''xyz'') {''a/k'', ''b''} [] ''/'' = {''a/'', ''b''}"
    unfolding delimited_paths_def K image_insert image_empty e by simp
  then show ?thesis by (simp add: all_entries_def assms(2) e)
qed

section \<open>Properties\<close>

text \<open>
  C14. The scan of a delimited listing always ends: any fuel that exceeds the number of keys of the
  bucket gives a result, and the result is the sorted list of the entries the keys determine below
  the prefix, after the marker, cut at the number of entries wanted.
\<close>

theorem scan_loop_total:
  assumes "lfi_inv (st_index s)" and "0 < n" and "scan_fuel (st_index s) b \<le> fuel"
  shows "scan_loop fuel (st_index s) (has_metadata s b) b p d m n m [] =
           Some (take n (map (delimited_entry p d) (filter (\<lambda>q. case m of Some k \<Rightarrow> k < q | None \<Rightarrow> True)
             (sorted_list_of_set (delimited_paths (has_metadata s b) (lfi_keys (st_index s) b) p d)))))"
  using scan_total [OF assms] .

theorem scan_loop_total_witness:
  "\<exists>s. lfi_keys (st_index s) ''xyz'' = {''a/k'', ''b''} \<and> scan_fuel (st_index s) ''xyz'' \<le> 3 \<and>
     scan_loop 3 (st_index s) (has_metadata s ''xyz'') ''xyz'' [] ''/'' None 5 None [] =
       Some [\<lparr>path = ''a/'', kind = CommonPrefix\<rparr>, \<lparr>path = ''b'', kind = ObjectEntry\<rparr>]"
proof -
  obtain s where s: "listable s ''xyz''" "lfi_keys (st_index s) ''xyz'' = {''a/k'', ''b''}" by (rule sample_listing)
  have inv: "lfi_inv (st_index s)" using s(1) by (simp add: listable_def)
  have fuel: "scan_fuel (st_index s) ''xyz'' \<le> 3" using scan_fuel_card [OF inv] s(2) by simp
  have "scan_loop 3 (st_index s) (has_metadata s ''xyz'') ''xyz'' [] ''/'' None 5 None [] =
      Some (take 5 (all_entries s ''xyz'' None (Some ''/'') None))"
    by (subst scan_loop_total [OF inv _ fuel]) (simp_all add: all_entries_def)
  then show ?thesis using fuel s(2) sample_entries [OF s] by auto
qed

text \<open>
  C18. The two ways to list below a directory with the delimiter \<^verbatim>\<open>/\<close> agree: the scan over the keys
  gives exactly what the incrementally maintained directory index gives, when every indexed key has
  its metadata.
\<close>

theorem scan_agrees_with_children:
  assumes "lfi_inv (st_index s)" and "\<forall>k \<in> lfi_keys (st_index s) b. has_metadata s b k"
    and "q = [] \<or> last q = CHR ''/''" and "0 < n"
  shows "scan_delimited_entries s b q ''/'' m n = Some (list_child_entries (st_index s) b q m (Some n))"
  by (simp add: child_entries_eq [OF assms] scan_delimited_eq [OF assms(1,4)])

theorem scan_agrees_with_children_witness:
  "\<exists>s. lfi_keys (st_index s) ''xyz'' = {''a/k'', ''b''} \<and>
     scan_delimited_entries s ''xyz'' [] ''/'' None 5 = Some (list_child_entries (st_index s) ''xyz'' [] None (Some 5))"
proof -
  obtain s where s: "listable s ''xyz''" "lfi_keys (st_index s) ''xyz'' = {''a/k'', ''b''}" by (rule sample_listing)
  have "\<forall>k \<in> lfi_keys (st_index s) ''xyz''. has_metadata s ''xyz'' k"
    using s(1) has_metadata_current by (auto simp: listable_def)
  from scan_agrees_with_children [OF _ this] s show ?thesis by (auto simp: listable_def)
qed





end
