(* ===== verification/Multipart.thy ===== *)
theory Multipart
  imports Store
begin

text \<open>
  Multipart uploads (\<^verbatim>\<open>MultipartStore\<close> of \<^verbatim>\<open>src/src/storage/filesystem.rs\<close> and the upload records of
  \<^verbatim>\<open>src/src/storage/filesystem/io.rs\<close>): upload records with their cache, parts, and the completion
  that validates a manifest and assembles the object.
\<close>

section \<open>Limits and paths\<close>

definition MIN_PART_KEY :: string where "MIN_PART_KEY = ''__sqrzl_multipart_min_non_final_part_size''"
definition MAX_PART_KEY :: string where "MAX_PART_KEY = ''__sqrzl_multipart_max_part_size''"
definition MAX_OBJECT_KEY :: string where "MAX_OBJECT_KEY = ''__sqrzl_multipart_max_object_size''"
definition TAGS_KEY :: string where "TAGS_KEY = ''__sqrzl_multipart_tags''"

definition S3_MINIMUM_NON_FINAL_PART_SIZE :: nat where "S3_MINIMUM_NON_FINAL_PART_SIZE = 5 * 1024 * 1024"
definition S3_MAXIMUM_PART_SIZE :: nat where "S3_MAXIMUM_PART_SIZE = 5 * 1024 * 1024 * 1024"
definition S3_MAXIMUM_OBJECT_SIZE :: nat where "S3_MAXIMUM_OBJECT_SIZE = S3_MAXIMUM_PART_SIZE * 10000"

definition multipart_root :: "world \<Rightarrow> string \<Rightarrow> path" where
  "multipart_root s bucket = bucket_dir s bucket @ [''.multipart'']"

definition multipart_dir :: "world \<Rightarrow> string \<Rightarrow> string \<Rightarrow> path" where
  "multipart_dir s bucket uid = multipart_root s bucket @ [uid]"

text \<open>\<^verbatim>\<open>format!("part-{part_number:05}")\<close>.\<close>

definition part_file_name :: "nat \<Rightarrow> string" where
  "part_file_name n = ''part-'' @ replicate (5 - length (show_nat n)) (CHR ''0'') @ show_nat n"

definition part_path :: "world \<Rightarrow> string \<Rightarrow> string \<Rightarrow> nat \<Rightarrow> path" where
  "part_path s bucket uid n = multipart_dir s bucket uid @ [part_file_name n]"

definition upload_record_path :: "world \<Rightarrow> string \<Rightarrow> string \<Rightarrow> path" where
  "upload_record_path s bucket uid = multipart_dir s bucket uid @ [''upload.json'']"

section \<open>Upload records and their cache\<close>

definition normalize_upload_parts :: "multipart_upload \<Rightarrow> multipart_upload" where
  "normalize_upload_parts u = u\<lparr>parts := sort_key part_number (parts u)\<rparr>"

definition read_upload_record :: "path \<Rightarrow> multipart_upload io" where
  "read_upload_record p =
     bind_io (read_file p ''Failed to read multipart upload record'') (\<lambda>c.
     case c of
       UploadJson u \<Rightarrow> return (normalize_upload_parts u)
     | _ \<Rightarrow> throw (InternalError ''Failed to parse multipart upload record''))"

definition write_upload_record :: "string \<Rightarrow> multipart_upload \<Rightarrow> unit io" where
  "write_upload_record bucket u =
     bind_io (gets (\<lambda>s. upload_record_path s bucket (upload_id u))) (\<lambda>p. atomic_write p (UploadJson u))"

definition remove_upload_record :: "string \<Rightarrow> string \<Rightarrow> unit io" where
  "remove_upload_record bucket uid =
     bind_io (gets (\<lambda>s. multipart_dir s bucket uid)) (\<lambda>upload_dir.
     bind_io (gets (\<lambda>s. path_exists s upload_dir)) (\<lambda>there.
     when_io there
       (bind_io (gets (\<lambda>s. multipart_root s bucket)) (\<lambda>root.
        bind_io new_uuid (\<lambda>uuid.
        let retired = root @ [''.retired-upload-'' @ uuid] in
        then_io (rename upload_dir retired ''Failed to retire multipart upload'')
        (then_io (sync_directory root)
        (then_io (remove_dir_all retired ''Failed to remove multipart upload dir'')
          (sync_directory root))))))))"

definition load_uploads_from_disk :: "string \<Rightarrow> (string \<times> multipart_upload) list io" where
  "load_uploads_from_disk bucket =
     bind_io (gets (\<lambda>s. multipart_root s bucket)) (\<lambda>root.
     bind_io (gets (\<lambda>s. path_exists s root)) (\<lambda>there.
     bind_io
       (if there then
          bind_io (read_dir root ''Failed to read multipart dir'') (\<lambda>names.
          collect_io names (\<lambda>name.
            bind_io (gets (\<lambda>s. is_dir s (root @ [name]))) (\<lambda>d.
            if \<not> d \<or> prefix ''.'' name then return None
            else
              bind_io (try_io (read_upload_record (root @ [name, ''upload.json'']))) (\<lambda>r.
              return (case r of Ok u \<Rightarrow> Some u | Err _ \<Rightarrow> None)))))
        else return []) (\<lambda>found.
     let uploads = foldl (\<lambda>m u. AList.update (upload_id u) u m) [] found in
     if uploads \<noteq> [] then return uploads
     else
       bind_io (gets (\<lambda>s. path_exists s (root @ [''uploads.json'']))) (\<lambda>legacy.
       if \<not> legacy then return uploads
       else
         bind_io (read_file (root @ [''uploads.json'']) ''Failed to read legacy uploads index'') (\<lambda>c.
         case c of
           UploadsJson m \<Rightarrow> return (map (\<lambda>(i, u). (i, normalize_upload_parts u)) m)
         | _ \<Rightarrow> throw (InternalError ''Failed to parse legacy uploads index''))))))"

definition ensure_uploads_cache_loaded :: "string \<Rightarrow> unit io" where
  "ensure_uploads_cache_loaded bucket =
     bind_io (gets (\<lambda>s. uploads_cache s bucket)) (\<lambda>cached.
     when_io (cached = None)
       (bind_io (load_uploads_from_disk bucket) (\<lambda>uploads.
        modify (\<lambda>s. s\<lparr>uploads_cache := (uploads_cache s)(bucket \<mapsto> uploads)\<rparr>))))"

definition load_uploads :: "string \<Rightarrow> (string \<times> multipart_upload) list io" where
  "load_uploads bucket =
     bind_io (gets (\<lambda>s. uploads_cache s bucket)) (\<lambda>cached.
     case cached of
       Some uploads \<Rightarrow> return uploads
     | None \<Rightarrow>
         bind_io (load_uploads_from_disk bucket) (\<lambda>uploads.
         then_io (modify (\<lambda>s. s\<lparr>uploads_cache := (uploads_cache s)(bucket \<mapsto> uploads)\<rparr>))
           (return uploads)))"

text \<open>The cached uploads of a bucket, which the caller has loaded.\<close>

definition cached_uploads :: "string \<Rightarrow> (string \<times> multipart_upload) list io" where
  "cached_uploads bucket =
     bind_io (gets (\<lambda>s. uploads_cache s bucket)) (\<lambda>cached.
     of_result (ok_or (InternalError ''Missing uploads cache entry'') cached))"

definition cache_uploads :: "string \<Rightarrow> (string \<times> multipart_upload) list \<Rightarrow> unit io" where
  "cache_uploads bucket uploads = modify (\<lambda>s. s\<lparr>uploads_cache := (uploads_cache s)(bucket \<mapsto> uploads)\<rparr>)"

definition list_multipart_uploads :: "string \<Rightarrow> multipart_upload list io" where
  "list_multipart_uploads bucket =
     then_io (require_bucket bucket)
     (bind_io (load_uploads bucket) (\<lambda>uploads. return (map snd uploads)))"

definition get_multipart_upload :: "string \<Rightarrow> string \<Rightarrow> multipart_upload io" where
  "get_multipart_upload bucket uid =
     then_io (require_bucket bucket)
     (bind_io (load_uploads bucket) (\<lambda>uploads.
      of_result (ok_or NoSuchUpload (map_of uploads uid))))"

definition list_parts :: "string \<Rightarrow> string \<Rightarrow> part list io" where
  "list_parts bucket uid =
     then_io (require_bucket bucket)
     (bind_io (load_uploads bucket) (\<lambda>uploads.
      bind_io (of_result (ok_or NoSuchUpload (map_of uploads uid))) (\<lambda>u. return (parts u))))"

section \<open>Creating an upload and storing parts\<close>

definition create_multipart_upload_with_metadata ::
    "string \<Rightarrow> string \<Rightarrow> string option \<Rightarrow> strmap \<Rightarrow> strmap \<Rightarrow> multipart_upload io" where
  "create_multipart_upload_with_metadata bucket key content_type metadata provider_metadata =
     then_io (require_bucket bucket)
     (bind_io new_uuid (\<lambda>uuid.
      bind_io now_io (\<lambda>now.
      let u = new_multipart_upload uuid key now content_type metadata provider_metadata in
      bind_io (gets (\<lambda>s. multipart_dir s bucket (upload_id u))) (\<lambda>upload_dir.
      then_io (create_dir_all upload_dir ''Failed to create multipart dir'')
      (then_io (ensure_uploads_cache_loaded bucket)
      (then_io (write_upload_record bucket u)
      (bind_io (cached_uploads bucket) (\<lambda>uploads.
       then_io (cache_uploads bucket (AList.update (upload_id u) u uploads))
         (return u)))))))))"

definition create_multipart_upload :: "string \<Rightarrow> string \<Rightarrow> multipart_upload io" where
  "create_multipart_upload bucket key =
     create_multipart_upload_with_metadata bucket key None Map.empty
       [MIN_PART_KEY \<mapsto> show_nat S3_MINIMUM_NON_FINAL_PART_SIZE,
        MAX_PART_KEY \<mapsto> show_nat S3_MAXIMUM_PART_SIZE,
        MAX_OBJECT_KEY \<mapsto> show_nat S3_MAXIMUM_OBJECT_SIZE]"

text \<open>A limit among the provider metadata; an unparsable value is no limit.\<close>

definition metadata_u64 :: "strmap \<Rightarrow> string \<Rightarrow> nat option" where
  "metadata_u64 m key = (case m key of Some v \<Rightarrow> parse_u64 v | None \<Rightarrow> None)"

definition exceeds :: "nat option \<Rightarrow> nat \<Rightarrow> bool" where
  "exceeds limit n = (case limit of Some maximum \<Rightarrow> maximum < n | None \<Rightarrow> False)"

text \<open>The CRC is taken over the buffers of 64 KiB that are read.\<close>

function chunks :: "nat \<Rightarrow> 'a list \<Rightarrow> 'a list list" where
  "chunks n xs = (if n = 0 \<or> xs = [] then [] else take n xs # chunks n (drop n xs))"
  by pat_completeness auto
termination
  by (relation "measure (\<lambda>(n, xs). length xs)") auto

declare chunks.simps [simp del]

definition crc32c_over :: "externs \<Rightarrow> nat \<Rightarrow> bytes \<Rightarrow> nat" where
  "crc32c_over x crc data = foldl (ext_crc32c_append x) crc (chunks 65536 data)"

definition uses_crc32c :: "strmap \<Rightarrow> bool" where
  "uses_crc32c m \<longleftrightarrow> m ''s3_checksum_algorithm'' = Some ''CRC32C''"

text \<open>
  \<^verbatim>\<open>binary_search_by_key\<close> in the parts, which are kept sorted by number: the part with the number is
  replaced, or the new one is inserted before the greater ones.
\<close>

definition store_part :: "part \<Rightarrow> part list \<Rightarrow> part list" where
  "store_part p ps =
     (let before = takeWhile (\<lambda>q. part_number q < part_number p) ps;
          rest = dropWhile (\<lambda>q. part_number q < part_number p) ps
      in case rest of
           [] \<Rightarrow> before @ [p]
         | q # qs \<Rightarrow> if part_number q = part_number p then before @ p # qs else before @ p # rest)"

definition record_uploaded_part :: "string \<Rightarrow> string \<Rightarrow> nat \<Rightarrow> string \<Rightarrow> nat \<Rightarrow> string io" where
  "record_uploaded_part bucket uid n etag size_bytes =
     bind_io (cached_uploads bucket) (\<lambda>uploads.
     bind_io (of_result (ok_or NoSuchUpload (map_of uploads uid))) (\<lambda>u.
     bind_io
       (if uses_crc32c (upload_provider_metadata u) then
          bind_io (gets (\<lambda>s. part_path s bucket uid n)) (\<lambda>p.
          bind_io (read_bytes p ''Failed to read staged part'') (\<lambda>data.
          bind_io (gets ext) (\<lambda>x. return (Some (crc32c_over x 0 data)))))
        else return None) (\<lambda>crc.
     bind_io now_io (\<lambda>now.
     let p = \<lparr>part_number = n, part_etag = etag, part_size = size_bytes, part_crc32c = crc, part_last_modified = now\<rparr>;
         u = u\<lparr>parts := store_part p (parts u)\<rparr>
     in
     then_io (cache_uploads bucket (AList.update uid u uploads))
     (bind_io (gets (\<lambda>s. upload_record_path s bucket uid)) (\<lambda>record_path.
      then_io (atomic_write record_path (UploadJson u)) (return etag)))))))"

definition check_part :: "string \<Rightarrow> string \<Rightarrow> nat \<Rightarrow> nat \<Rightarrow> unit io" where
  "check_part bucket uid n len =
     then_io (require_bucket bucket)
     (then_io (guard_io (1 \<le> n \<and> n \<le> 10000) InvalidPartNumber)
     (bind_io (get_multipart_upload bucket uid) (\<lambda>u.
      guard_io (\<not> exceeds (metadata_u64 (upload_provider_metadata u) MAX_PART_KEY) len) EntityTooLarge)))"

definition upload_part :: "string \<Rightarrow> string \<Rightarrow> nat \<Rightarrow> bytes \<Rightarrow> string io" where
  "upload_part bucket uid n data =
     then_io (check_part bucket uid n (length data))
     (bind_io (gets (\<lambda>s. part_path s bucket uid n)) (\<lambda>p.
      then_io (atomic_write p (Bytes data))
      (bind_io (gets ext) (\<lambda>x.
       record_uploaded_part bucket uid n (hex_encode (ext_md5 x data)) (length data)))))"

definition upload_part_streamed :: "string \<Rightarrow> string \<Rightarrow> nat \<Rightarrow> path \<Rightarrow> nat \<Rightarrow> string \<Rightarrow> string io" where
  "upload_part_streamed bucket uid n payload_path len etag =
     then_io (check_part bucket uid n len)
     (bind_io (gets (\<lambda>s. part_path s bucket uid n)) (\<lambda>p.
      then_io (atomic_move payload_path p)
        (record_uploaded_part bucket uid n etag len)))"

section \<open>Completing an upload\<close>

record multipart_completion =
  mc_crc32c :: "nat option"
  mc_size :: "nat option"
  mc_condition :: "object_condition option"
  mc_require_existing :: bool

definition default_completion :: multipart_completion where
  "default_completion = \<lparr>mc_crc32c = None, mc_size = None, mc_condition = None, mc_require_existing = False\<rparr>"

fun ascending :: "(nat \<times> string) list \<Rightarrow> bool" where
  "ascending (a # b # r) = (fst a < fst b \<and> ascending (b # r))"
| "ascending _ = True"

definition select_part :: "part list \<Rightarrow> nat \<times> string \<Rightarrow> part res" where
  "select_part uploaded m =
     ok_or IncompleteMultipartUpload
       (find (\<lambda>p. part_number p = fst m \<and> part_etag p = snd m) uploaded)"

fun checked_total :: "nat \<Rightarrow> part list \<Rightarrow> nat res" where
  "checked_total acc [] = Ok acc"
| "checked_total acc (p # ps) =
     bind_result (ok_or EntityTooLarge (checked_add_u64 acc (part_size p))) (\<lambda>a. checked_total a ps)"

text \<open>The checks before anything is written: the selected parts and their total size.\<close>

definition validate_manifest :: "multipart_upload \<Rightarrow> (nat \<times> string) list \<Rightarrow> multipart_completion \<Rightarrow> (part list \<times> nat) res" where
  "validate_manifest u manifest completion =
     (if manifest = [] then Err InvalidPartOrder
      else if \<not> ascending manifest then Err InvalidPartOrder
      else
        bind_result (mapM_result (select_part (parts u)) manifest) (\<lambda>ps.
        let minimum = (case metadata_u64 (upload_provider_metadata u) MIN_PART_KEY of Some m \<Rightarrow> m | None \<Rightarrow> 0) in
        if list_ex (\<lambda>p. part_size p < minimum) (take (length ps - 1) ps) then Err EntityTooSmall
        else
          bind_result (checked_total 0 ps) (\<lambda>total.
          if exceeds (metadata_u64 (upload_provider_metadata u) MAX_OBJECT_KEY) total then Err EntityTooLarge
          else if (case mc_size completion of Some e \<Rightarrow> e \<noteq> total | None \<Rightarrow> False)
          then Err (InvalidRequest ''Multipart object size does not match the selected parts'')
          else Ok (ps, total))))"

definition trim_quotes :: "string \<Rightarrow> string" where
  "trim_quotes e = trim_end_char (CHR 0x22) (dropWhile (\<lambda>c. c = CHR 0x22) e)"

text \<open>\<^verbatim>\<open>MD5\<close> of the raw part digests, and the number of parts.\<close>

definition final_etag :: "externs \<Rightarrow> part list \<Rightarrow> string res" where
  "final_etag x ps =
     bind_result
       (mapM_result (\<lambda>p. ok_or (InternalError ''Invalid multipart part ETag'') (hex_decode (trim_quotes (part_etag p)))) ps)
       (\<lambda>digests. Ok (hex_encode (ext_md5 x (concat digests)) @ ''-'' @ show_nat (length ps)))"

text \<open>Append one part to the assembled file and check it; the result is the running CRC.\<close>

definition assemble_part :: "string \<Rightarrow> string \<Rightarrow> path \<Rightarrow> nat \<Rightarrow> part \<Rightarrow> nat io" where
  "assemble_part bucket uid spool crc p =
     bind_io (gets (\<lambda>s. part_path s bucket uid (part_number p))) (\<lambda>part_file.
     bind_io (read_bytes part_file ''Failed to open part'') (\<lambda>data.
     bind_io (gets ext) (\<lambda>x.
     then_io (append_bytes spool data ''Failed to append part'')
     (then_io
       (guard_io (\<not> (length data \<noteq> part_size p \<or>
                       (case part_crc32c p of Some e \<Rightarrow> e \<noteq> crc32c_over x 0 data | None \<Rightarrow> False))) BadDigest)
       (return (crc32c_over x crc data))))))"

definition assemble :: "string \<Rightarrow> string \<Rightarrow> path \<Rightarrow> part list \<Rightarrow> nat option \<Rightarrow> nat io" where
  "assemble bucket uid spool ps expected =
     then_io (create_file spool ''Failed to create spool file'')
     (bind_io (fold_io (assemble_part bucket uid spool) 0 ps) (\<lambda>crc.
      then_io (guard_io (\<not> (case expected of Some e \<Rightarrow> e \<noteq> crc | None \<Rightarrow> False)) BadDigest)
      (then_io (sync_path spool ''Failed to sync spool file'') (return crc))))"

definition be_bytes :: "nat \<Rightarrow> bytes" where
  "be_bytes n = map (\<lambda>i. word_of_nat (n div 2 ^ i)) [24, 16, 8, 0]"

text \<open>The object of a completed upload.\<close>

definition completed_object :: "externs \<Rightarrow> multipart_upload \<Rightarrow> string \<Rightarrow> nat \<Rightarrow> nat \<Rightarrow> datetime \<Rightarrow> object" where
  "completed_object x u etag total_size crc now =
     (let pm = upload_provider_metadata u;
          kept = (\<lambda>n. if n \<in> set [MIN_PART_KEY, MAX_PART_KEY, MAX_OBJECT_KEY, TAGS_KEY, ''storage_class''] then None else pm n);
          ob = (new_with_metadata_and_etag (upload_key u) []
                 (case upload_content_type u of Some c \<Rightarrow> c | None \<Rightarrow> ''application/octet-stream'')
                 (upload_metadata u) etag now)\<lparr>obj_size := total_size\<rparr>;
          ob = ob\<lparr>obj_provider_metadata := kept\<rparr>;
          ob = (case pm ''storage_class'' of Some c \<Rightarrow> ob\<lparr>obj_storage_class := c\<rparr> | None \<Rightarrow> ob);
          ob = (case (case pm TAGS_KEY of Some v \<Rightarrow> ext_json_strmap x v | None \<Rightarrow> None) of
                  Some tags \<Rightarrow> ob\<lparr>obj_tags := tags\<rparr>
                | None \<Rightarrow> ob)
      in if uses_crc32c pm
         then ob\<lparr>obj_provider_metadata := (obj_provider_metadata ob)
                (''s3_checksum_crc32c'' \<mapsto> ext_base64 x (be_bytes crc), ''s3_checksum_type'' \<mapsto> ''FULL_OBJECT'')\<rparr>
         else ob)"

definition publish_completed :: "string \<Rightarrow> object \<Rightarrow> path \<Rightarrow> multipart_completion \<Rightarrow> unit io" where
  "publish_completed bucket ob spool completion =
     then_io (when_io (mc_require_existing completion)
               (then_io (read_object_metadata_locked bucket (obj_key ob)) (return ())))
     (then_io
       (case mc_condition completion of
          None \<Rightarrow> return ()
        | Some c \<Rightarrow>
            bind_io (object_condition_matches bucket (obj_key ob) c) (\<lambda>matches. guard_io matches PreconditionFailed))
       (put_object_locked_with_payload bucket (obj_key ob) ob (Spooled spool)))"

definition discard_spool :: "path \<Rightarrow> unit io" where
  "discard_spool spool =
     bind_io (gets (\<lambda>s. path_exists s spool)) (\<lambda>there.
     then_io (when_io there (ignore_errors (remove_file spool ''remove_file'')))
       (ignore_errors (remove_dir (parent spool) ''remove_dir'')))"

definition complete_multipart_upload_checked ::
    "string \<Rightarrow> string \<Rightarrow> (nat \<times> string) list \<Rightarrow> multipart_completion \<Rightarrow> string io" where
  "complete_multipart_upload_checked bucket uid manifest completion =
     then_io (require_bucket bucket)
     (then_io (ensure_uploads_cache_loaded bucket)
     (bind_io (cached_uploads bucket) (\<lambda>uploads.
      bind_io (of_result (ok_or NoSuchUpload (map_of uploads uid))) (\<lambda>u.
      bind_io (of_result (validate_manifest u manifest completion)) (\<lambda>(ps, total_size).
      bind_io (gets ext) (\<lambda>x.
      bind_io (of_result (final_etag x ps)) (\<lambda>etag.
      bind_io new_uuid (\<lambda>uuid.
      bind_io (gets (\<lambda>s. bucket_dir s bucket @ [''.spool'', uuid @ ''.tmp''])) (\<lambda>spool.
      then_io (create_dir_all (parent spool) ''Failed to create spool dir'')
      (bind_io
        (on_error (assemble bucket uid spool ps (mc_crc32c completion))
          (then_io (ignore_errors (remove_file spool ''remove_file'')) (remove_dir (parent spool) ''remove_dir'')))
        (\<lambda>crc.
       bind_io now_io (\<lambda>now.
       bind_io (try_io (publish_completed bucket (completed_object x u etag total_size crc now) spool completion)) (\<lambda>put_result.
       then_io (discard_spool spool)
       (then_io (of_result put_result)
       (bind_io (cached_uploads bucket) (\<lambda>uploads.
        then_io (cache_uploads bucket (AList.delete uid uploads))
        (then_io (remove_upload_record bucket uid) (return etag))))))))))))))))))"

definition complete_multipart_upload_with_parts :: "string \<Rightarrow> string \<Rightarrow> (nat \<times> string) list \<Rightarrow> string io" where
  "complete_multipart_upload_with_parts bucket uid manifest =
     complete_multipart_upload_checked bucket uid manifest default_completion"

definition complete_multipart_upload :: "string \<Rightarrow> string \<Rightarrow> string io" where
  "complete_multipart_upload bucket uid =
     bind_io (get_multipart_upload bucket uid) (\<lambda>u.
     complete_multipart_upload_with_parts bucket uid (map (\<lambda>p. (part_number p, part_etag p)) (parts u)))"

definition abort_multipart_upload :: "string \<Rightarrow> string \<Rightarrow> unit io" where
  "abort_multipart_upload bucket uid =
     then_io (require_bucket bucket)
     (then_io (ensure_uploads_cache_loaded bucket)
     (bind_io (cached_uploads bucket) (\<lambda>uploads.
      then_io (guard_io (map_of uploads uid \<noteq> None) NoSuchUpload)
      (then_io (cache_uploads bucket (AList.delete uid uploads))
        (remove_upload_record bucket uid)))))"

end
