(* ===== verification/Multipart_Correct.thy ===== *)
theory Multipart_Correct
  imports Multipart Buckets
begin

text \<open>
  Multipart uploads are correct (\<^verbatim>\<open>MultipartStore\<close> of \<^verbatim>\<open>src/src/storage/filesystem.rs\<close>): the parts of
  an upload form an ordered map, a manifest is accepted exactly when it describes an object that can
  be assembled, and completing an upload publishes the concatenation of its parts.
\<close>

section \<open>The parts of an upload\<close>

definition parts_ok :: "part list \<Rightarrow> bool" where
  "parts_ok ps \<longleftrightarrow> sorted_wrt (<) (map part_number ps)"

definition find_part :: "part list \<Rightarrow> nat \<Rightarrow> part option" where
  "find_part ps n = find (\<lambda>p. part_number p = n) ps"

lemma store_part_Nil [simp]: "store_part p [] = [p]"
  by (simp add: store_part_def)

lemma store_part_Cons [simp]:
  "store_part p (q # qs) =
     (if part_number q < part_number p then q # store_part p qs
      else if part_number q = part_number p then p # qs else p # q # qs)"
  by (cases "dropWhile (\<lambda>q. part_number q < part_number p) qs") 
    (simp_all add: store_part_def Let_def del: dropWhile_eq_Nil_conv)

lemma set_store_part:
  "parts_ok ps \<Longrightarrow> set (store_part p ps) = insert p {q \<in> set ps. part_number q \<noteq> part_number p}"
  by (induction ps) (auto simp: parts_ok_def)

lemma store_part_ok: "parts_ok ps \<Longrightarrow> parts_ok (store_part p ps)"
proof (induction ps)
  case (Cons q qs)
  then have "parts_ok qs" by (simp add: parts_ok_def)
  with Cons show ?case by (auto simp: parts_ok_def set_store_part)
qed (simp add: parts_ok_def)

lemma find_part_store: "parts_ok ps \<Longrightarrow> find_part (store_part p ps) = (find_part ps)(part_number p \<mapsto> p)"
proof (induction ps)
  case (Cons q qs)
  then have "parts_ok qs" and "\<And>r. r \<in> set qs \<Longrightarrow> part_number q < part_number r" by (auto simp: parts_ok_def)
  with Cons.IH show ?case by (fastforce simp: find_part_def fun_eq_iff)
qed (simp add: find_part_def fun_eq_iff)

lemma parts_ok_unique: "parts_ok ps \<Longrightarrow> p \<in> set ps \<Longrightarrow> q \<in> set ps \<Longrightarrow> part_number p = part_number q \<Longrightarrow> p = q"
  by (induction ps) (auto simp: parts_ok_def)

section \<open>The manifest\<close>

lemma ascending_sorted: "ascending m \<longleftrightarrow> sorted_wrt (<) (map fst m)"
proof (induction m rule: ascending.induct)
  case (1 a b r)
  then show ?case by (auto dest: less_trans)
qed auto

lemma checked_total_eq:
  "acc \<le> u64_max \<Longrightarrow> checked_total acc ps =
     (if acc + sum_list (map part_size ps) \<le> u64_max then Ok (acc + sum_list (map part_size ps)) else Err EntityTooLarge)"
  by (induction ps arbitrary: acc) (auto simp: checked_add_u64_def add.assoc)

text \<open>The parts a manifest names.\<close>

definition selects :: "part list \<Rightarrow> nat \<times> string \<Rightarrow> part \<Rightarrow> bool" where
  "selects uploaded m p \<longleftrightarrow> p \<in> set uploaded \<and> part_number p = fst m \<and> part_etag p = snd m"

lemma select_part_Ok: "parts_ok ps \<Longrightarrow> select_part ps m = Ok p \<longleftrightarrow> selects ps m p"
proof -
  assume ok: "parts_ok ps"
  let ?P = "\<lambda>p. part_number p = fst m \<and> part_etag p = snd m"
  have "find ?P ps = Some p \<longleftrightarrow> selects ps m p"
  proof
    assume "find ?P ps = Some p"
    then show "selects ps m p" by (auto simp: find_Some_iff selects_def)
  next
    assume p: "selects ps m p"
    then have "find ?P ps \<noteq> None" by (auto simp: find_None_iff selects_def)
    then obtain q where q: "find ?P ps = Some q" by auto
    then have "q \<in> set ps" "part_number q = fst m" by (auto simp: find_Some_iff)
    with p parts_ok_unique [OF ok, of p q] q show "find ?P ps = Some p" by (simp add: selects_def)
  qed
  then show ?thesis by (cases "find ?P ps") (auto simp: select_part_def)
qed

lemma select_part_Err: "select_part ps m = Err e \<longleftrightarrow> e = IncompleteMultipartUpload \<and> (\<forall>p. \<not> selects ps m p)"
proof (cases "find (\<lambda>p. part_number p = fst m \<and> part_etag p = snd m) ps")
  case None
  then have "\<not> selects ps m p" for p by (auto simp: find_None_iff selects_def)
  with None show ?thesis by (auto simp: select_part_def)
next
  case (Some p)
  then have "selects ps m p" by (auto simp: find_Some_iff selects_def)
  with Some show ?thesis by (auto simp: select_part_def)
qed

abbreviation minimum_of :: "multipart_upload \<Rightarrow> nat" where
  "minimum_of u \<equiv> case metadata_u64 (upload_provider_metadata u) MIN_PART_KEY of Some m \<Rightarrow> m | None \<Rightarrow> 0"

text \<open>What the checks of a completion establish, and which check refuses it.\<close>

definition acceptable :: "multipart_upload \<Rightarrow> (nat \<times> string) list \<Rightarrow> multipart_completion \<Rightarrow> part list \<Rightarrow> nat \<Rightarrow> bool" where
  "acceptable u m c ps n \<longleftrightarrow>
     m \<noteq> [] \<and> sorted_wrt (<) (map fst m) \<and> list_all2 (selects (parts u)) m ps \<and>
     (\<forall>p \<in> set (butlast ps). minimum_of u \<le> part_size p) \<and>
     n = sum_list (map part_size ps) \<and> n \<le> u64_max \<and>
     \<not> exceeds (metadata_u64 (upload_provider_metadata u) MAX_OBJECT_KEY) n \<and>
     (case mc_size c of Some e \<Rightarrow> e = n | None \<Rightarrow> True)"

lemma validate_Ok:
  assumes "parts_ok (parts u)"
  shows "validate_manifest u m c = Ok (ps, n) \<longleftrightarrow> acceptable u m c ps n"
proof -
  have sel: "mapM_result (select_part (parts u)) m = Ok qs \<longleftrightarrow> list_all2 (selects (parts u)) m qs" for qs
    using select_part_Ok [OF assms] by (simp add: mapM_result_Ok)
  show ?thesis
    by (auto simp: validate_manifest_def acceptable_def ascending_sorted bind_result_Ok sel checked_total_eq Let_def
        list_ex_iff not_less butlast_conv_take split: if_splits option.splits)
qed

lemma validate_errors:
  assumes "validate_manifest u m c = Err e"
  shows "e = InvalidPartOrder \<and> (m = [] \<or> \<not> sorted_wrt (<) (map fst m)) \<or>
     e = IncompleteMultipartUpload \<and> (\<exists>entry \<in> set m. \<forall>p. \<not> selects (parts u) entry p) \<or>
     (\<exists>ps. mapM_result (select_part (parts u)) m = Ok ps \<and>
       (e = EntityTooSmall \<and> (\<exists>p \<in> set (butlast ps). part_size p < minimum_of u) \<or>
        e = EntityTooLarge \<and> (u64_max < sum_list (map part_size ps) \<or>
          exceeds (metadata_u64 (upload_provider_metadata u) MAX_OBJECT_KEY) (sum_list (map part_size ps))) \<or>
        e = InvalidRequest ''Multipart object size does not match the selected parts'' \<and> mc_size c \<noteq> Some (sum_list (map part_size ps))))"
proof -
  have sel: "mapM_result (select_part (parts u)) m = Err e' \<longleftrightarrow>
      e' = IncompleteMultipartUpload \<and> (\<exists>entry \<in> set m. \<forall>p. \<not> selects (parts u) entry p)" for e'
    using mapM_result_Err [of "select_part (parts u)" IncompleteMultipartUpload m e'] select_part_Err by auto
  show ?thesis
    using assms
    by (auto simp: validate_manifest_def ascending_sorted bind_result_Err sel checked_total_eq Let_def
        list_ex_iff not_less not_le butlast_conv_take split: if_splits option.splits)
qed

section \<open>Assembling the parts\<close>

lemma syscall_quiet:
  "faults s = [] \<Longrightarrow> syscall eff part msg s =
     (case eff s of Some s2 \<Rightarrow> (Done (), s2) | None \<Rightarrow> (Failed (InternalError msg), s))"
  by (simp add: syscall_def next_fault_def)

lemma put_counts [simp]: "uuid_count (fs_put p n s) = uuid_count s" "uuid_count (fs_delete q s) = uuid_count s"
  by (simp_all add: fs_put_def fs_delete_def)

lemma for_each_append: "for_each (xs @ ys) f = then_io (for_each xs f) (for_each ys f)"
proof (induction xs)
  case Nil
  then show ?case by simp
next
  case (Cons x xs)
  have assoc: "bind_io (bind_io m f) g = bind_io m (\<lambda>a. bind_io (f a) g)"
    for m :: "unit io" and f :: "unit \<Rightarrow> unit io" and g :: "unit \<Rightarrow> unit io"
    by (rule HOL.ext) (simp add: bind_io_def split: prod.splits outcome.splits)
  show ?case by (simp add: Cons assoc)
qed

lemma create_dir_all_child:
  assumes wf: "tree_wf (fs_get s)" and f: "faults s = []" and d: "fs_get s d = Some Dir"
    and c: "fs_get s (d @ [n]) = None \<or> fs_get s (d @ [n]) = Some Dir"
  shows "\<exists>s1. create_dir_all (d @ [n]) msg s = (Done (), s1) \<and> fs_get s1 = (fs_get s)(d @ [n] \<mapsto> Dir) \<and>
    rest_same s s1 \<and> faults s1 = [] \<and> uuid_count s1 = uuid_count s"
proof -
  let ?step = "\<lambda>q. bind_io (gets (\<lambda>s. is_dir s q)) (\<lambda>there. when_io (\<not> there) (create_dir q msg))"
  have skip: "for_each qs ?step s = (Done (), s)" if "\<forall>q \<in> set qs. fs_get s q = Some Dir" for qs
    using that by (induction qs) (simp_all add: return_def bind_io_def gets_def when_io_def is_dir_def)
  have pre: "\<forall>q \<in> set (tl (prefixes d)). fs_get s q = Some Dir"
  proof
    fix q
    assume "q \<in> set (tl (prefixes d))"
    then have "q \<in> set (prefixes d)" by (metis list.set_sel(2) prefixes_not_Nil)
    then have "prefix q d" by (simp add: in_set_prefixes)
    then obtain e where e: "d = q @ e" by (auto simp: prefix_def)
    show "fs_get s q = Some Dir"
    proof (cases e)
      case (Cons a r)
      then have "fs_get s (q @ [a]) \<noteq> None"
        using tree_wf_ancestor [OF wf, of d "q @ [a]"] d e by (auto simp: prefix_def)
      then show ?thesis using wf by (metis parent_snoc snoc_eq_iff_butlast tree_wf_def)
    qed (use d e in simp)
  qed
  have "tl (prefixes (d @ [n])) = tl (prefixes d) @ [d @ [n]]" by (simp add: prefixes_snoc)
  then have run: "create_dir_all (d @ [n]) msg s = ?step (d @ [n]) s"
    using skip [OF pre] by (simp add: create_dir_all_def for_each_append bind_io_def return_def split: prod.splits outcome.splits)
  show ?thesis
  proof (cases "fs_get s (d @ [n])")
    case None
    then have "?step (d @ [n]) s = (Done (), fs_put (d @ [n]) Dir s)"
      using d f by (simp add: bind_io_def gets_def when_io_def is_dir_def create_dir_def syscall_quiet path_exists_def parent_def)
    with run show ?thesis using f by simp
  next
    case (Some m)
    with c have "?step (d @ [n]) s = (Done (), s)" by (simp add: bind_io_def gets_def when_io_def is_dir_def return_def)
    moreover have "(fs_get s)(d @ [n] \<mapsto> Dir) = fs_get s" using Some c by auto
    ultimately show ?thesis using run f by simp
  qed
qed

text \<open>The part files hold the data the upload records describe.\<close>

definition part_data :: "world \<Rightarrow> string \<Rightarrow> string \<Rightarrow> part \<Rightarrow> bytes \<Rightarrow> bool" where
  "part_data s b uid p data \<longleftrightarrow>
     file_content s (part_path s b uid (part_number p)) = Some (Bytes data) \<and> part_size p = length data \<and>
     (case part_crc32c p of Some e \<Rightarrow> e = crc32c_over (ext s) 0 data | None \<Rightarrow> True)"

lemma part_path_rest: "rest_same s s1 \<Longrightarrow> part_path s1 b uid n = part_path s b uid n"
  by (simp add: part_path_def multipart_dir_def multipart_root_def bucket_dir_def rest_same_def)

lemma assemble_parts:
  assumes "list_all2 (part_data s b uid) ps datas" and "faults s = []" and "fs_get s spool = Some (File (Bytes acc))"
    and "\<forall>p \<in> set ps. part_path s b uid (part_number p) \<noteq> spool" and "spool \<noteq> []"
  shows "\<exists>s1. fold_io (assemble_part b uid spool) crc ps s = (Done (foldl (crc32c_over (ext s)) crc datas), s1) \<and>
    fs_get s1 = (fs_get s)(spool \<mapsto> File (Bytes (acc @ concat datas))) \<and>
    rest_same s s1 \<and> faults s1 = [] \<and> uuid_count s1 = uuid_count s"
  using assms
proof (induction ps arbitrary: datas s crc acc)
  case Nil
  then have "(fs_get s)(spool \<mapsto> File (Bytes acc)) = fs_get s" by auto
  with Nil show ?case by (simp add: return_def)
next
  case (Cons p ps ds)
  then obtain data datas where ds: "ds = data # datas" and p: "part_data s b uid p data"
    and ps: "list_all2 (part_data s b uid) ps datas" by (auto simp: list_all2_Cons1)
  let ?s1 = "fs_put spool (File (Bytes (acc @ data))) s"
  have step: "assemble_part b uid spool crc p s = (Done (crc32c_over (ext s) crc data), ?s1)"
    using p Cons.prems
    by (auto simp: assemble_part_def bind_io_def gets_def read_bytes_def read_file_def part_data_def return_def append_bytes_def
        syscall_quiet guard_io_def file_content_def split: option.splits)
  have same: "part_data ?s1 b uid q d" if "part_data s b uid q d" "q \<in> set ps" for q d
    using that Cons.prems(4,5)
    by (cases "part_crc32c q") (simp_all add: part_data_def part_path_rest [OF put_rest(1)] file_content_def)
  have rest: "list_all2 (part_data ?s1 b uid) ps datas"
    using ps same by (auto simp: list_all2_conv_all_nth)
  have pre: "faults ?s1 = []" "fs_get ?s1 spool = Some (File (Bytes (acc @ data)))"
    "\<forall>p \<in> set ps. part_path ?s1 b uid (part_number p) \<noteq> spool"
    using Cons.prems by (simp_all add: part_path_rest [OF put_rest(1)])
  obtain s2 where run: "fold_io (assemble_part b uid spool) (crc32c_over (ext s) crc data) ps ?s1 =
      (Done (foldl (crc32c_over (ext ?s1)) (crc32c_over (ext s) crc data) datas), s2)"
    and s2: "fs_get s2 = (fs_get ?s1)(spool \<mapsto> File (Bytes ((acc @ data) @ concat datas)))"
      "rest_same ?s1 s2" "faults s2 = []" "uuid_count s2 = uuid_count ?s1"
    using Cons.IH [OF rest pre Cons.prems(5)] by blast
  have "rest_same s s2" using rest_same_trans [OF put_rest(1) s2(2)] .
  moreover have "fs_get s2 = (fs_get s)(spool \<mapsto> File (Bytes (acc @ concat ds)))"
    using s2(1) Cons.prems(5) by (auto simp: ds)
  moreover have "fold_io (assemble_part b uid spool) crc (p # ps) s = (Done (foldl (crc32c_over (ext s)) crc ds), s2)"
    using run step by (simp add: bind_io_def ds)
  ultimately show ?case using s2(3,4) by (intro exI [of _ s2] conjI) simp_all
qed

lemma assemble_run:
  assumes "list_all2 (part_data s b uid) ps datas" and "faults s = []" and "spool \<noteq> []"
    and "fs_get s (parent spool) = Some Dir" and "fs_get s spool \<noteq> Some Dir"
    and "\<forall>p \<in> set ps. part_path s b uid (part_number p) \<noteq> spool"
  shows "\<exists>s1. assemble b uid spool ps None s = (Done (foldl (crc32c_over (ext s)) 0 datas), s1) \<and>
    fs_get s1 = (fs_get s)(spool \<mapsto> File (Bytes (concat datas))) \<and> rest_same s s1 \<and> faults s1 = []"
proof -
  let ?s1 = "fs_put spool (File (Bytes [])) s"
  have c: "create_file spool ''Failed to create spool file'' s = (Done (), ?s1)"
    using assms(2-5) by (simp add: create_file_def syscall_quiet is_dir_def)
  have "part_data ?s1 b uid p d" if "part_data s b uid p d" "p \<in> set ps" for p d
    using that assms(3,6)
    by (cases "part_crc32c p") (simp_all add: part_data_def part_path_rest [OF put_rest(1)] file_content_def)
  then have parts: "list_all2 (part_data ?s1 b uid) ps datas"
    using assms(1) by (auto simp: list_all2_conv_all_nth)
  have pre: "faults ?s1 = []" "fs_get ?s1 spool = Some (File (Bytes []))"
    "\<forall>p \<in> set ps. part_path ?s1 b uid (part_number p) \<noteq> spool"
    using assms by (simp_all add: part_path_rest [OF put_rest(1)])
  obtain s2 where run: "fold_io (assemble_part b uid spool) 0 ps ?s1 = (Done (foldl (crc32c_over (ext ?s1)) 0 datas), s2)"
    and s2: "fs_get s2 = (fs_get ?s1)(spool \<mapsto> File (Bytes ([] @ concat datas)))" "rest_same ?s1 s2" "faults s2 = []"
    using assemble_parts [OF parts pre assms(3)] by blast
  have "assemble b uid spool ps None s = (Done (foldl (crc32c_over (ext s)) 0 datas), s2)"
    using c run s2 assms(3) by (simp add: assemble_def bind_io_def guard_io_def return_def sync_path_def syscall_quiet path_exists_def)
  moreover have "fs_get s2 = (fs_get s)(spool \<mapsto> File (Bytes (concat datas)))" using s2(1) assms(3) by auto
  ultimately show ?thesis using s2 rest_same_trans [OF put_rest(1) s2(2)] by blast
qed

section \<open>Cleaning up\<close>

text \<open>Calls whose errors are ignored.\<close>

lemma ignore_quiet:
  "faults s = [] \<Longrightarrow> ignore_errors (syscall eff part msg) s = (Done (), case eff s of Some s2 \<Rightarrow> s2 | None \<Rightarrow> s)"
  by (simp add: ignore_errors_def bind_io_def try_io_def syscall_quiet return_def split: option.splits)

lemma fs_delete_one: "p \<noteq> [] \<Longrightarrow> fs_get (fs_delete (\<lambda>q. q = p) s) = (fs_get s)(p := None)"
  by (auto simp: fun_eq_iff)

lemma remove_empty_dir_wf:
  assumes "tree_wf (fs_get s)" "p \<noteq> []" "dir_entries s p = []"
  shows "tree_wf ((fs_get s)(p := None))"
proof -
  have "fs_get s (p @ [n]) = None" for n using set_dir_entries [OF refl, of s p] assms(3) by auto
  then have "parent q \<noteq> p" if "q \<noteq> []" "fs_get s q \<noteq> None" for q
    using that by (metis append_butlast_last_id parent_def)
  with assms(1,2) show ?thesis unfolding tree_wf_def by (metis fun_upd_apply)
qed

lemma discard_spool_run:
  assumes wf: "tree_wf (fs_get s)" and f: "faults s = []" and p: "spool \<noteq> []" "parent spool \<noteq> []"
  shows "\<exists>s1. discard_spool spool s = (Done (), s1) \<and> tree_wf (fs_get s1) \<and> rest_same s s1 \<and> faults s1 = [] \<and>
    (\<forall>q. q \<noteq> spool \<longrightarrow> q \<noteq> parent spool \<longrightarrow> fs_get s1 q = fs_get s q)"
proof -
  let ?s1 = "if path_exists s spool \<and> is_file s spool then fs_delete (\<lambda>q. q = spool) s else s"
  have s1: "when_io (path_exists s spool) (ignore_errors (remove_file spool ''remove_file'')) s = (Done (), ?s1)"
    using f by (simp add: when_io_def return_def remove_file_def ignore_quiet)
  have t1: "fs_get ?s1 = (if is_file s spool then (fs_get s)(spool := None) else fs_get s)"
    using fs_delete_one [OF p(1)] by (auto simp: path_exists_def is_file_def file_content_def split: option.splits)
  have wf1: "tree_wf (fs_get ?s1)"
    using t1 wf p(1) by (auto simp: is_file_def file_content_def intro: tree_wf_remove_file)
  have f1: "faults ?s1 = []" using f by simp
  let ?s2 = "if parent spool \<noteq> [] \<and> is_dir ?s1 (parent spool) \<and> dir_entries ?s1 (parent spool) = []
    then fs_delete (\<lambda>q. q = parent spool) ?s1 else ?s1"
  have "ignore_errors (remove_dir (parent spool) ''remove_dir'') ?s1 = (Done (), ?s2)"
    unfolding remove_dir_def ignore_quiet [OF f1] by simp
  then have run: "discard_spool spool s = (Done (), ?s2)"
    using s1 by (simp only: discard_spool_def bind_io_def gets_def prod.case outcome.case)
  have "tree_wf (fs_get ?s2)"
    using wf1 remove_empty_dir_wf [OF wf1 p(2)] fs_delete_one [OF p(2), of ?s1] by simp
  moreover have "rest_same s ?s2 \<and> faults ?s2 = []" using f by simp
  moreover have "fs_get ?s2 q = fs_get s q" if "q \<noteq> spool" "q \<noteq> parent spool" for q
    using that t1 fs_delete_one [OF p(2), of ?s1] by simp
  ultimately show ?thesis using run by blast
qed

text \<open>A directory that moves to a free path takes along everything below it.\<close>

lemma map_of_moved:
  "(\<forall>e \<in> set xs. f (fst e) = q \<longleftrightarrow> fst e = k) \<Longrightarrow> map_of (map (\<lambda>(p, n). (f p, n)) xs) q = map_of xs k"
  by (induction xs) auto

lemma rename_dir_get:
  assumes wf: "tree_wf (fs_get s)" and "src \<noteq> []" "dst \<noteq> []" and free: "fs_get s dst = None" and apart: "\<not> prefix src dst"
    and q: "\<not> prefix dst q"
  shows "fs_get (s\<lparr>files := map (\<lambda>(p, n). (move_path src dst p, n)) (files s)\<rparr>) q =
     (if prefix src q then None else fs_get s q)"
proof (cases "q = []")
  case False
  have keys: "\<not> prefix dst (fst e)" if "e \<in> set (files s)" for e
  proof
    assume "prefix dst (fst e)"
    moreover from this have "fst e \<noteq> []" using assms(3) by auto
    moreover have "map_of (files s) (fst e) \<noteq> None" using that by (metis map_of_eq_None_iff imageI)
    ultimately show False using tree_wf_ancestor [OF wf, of "fst e" dst] free by (auto simp: fs_get_def)
  qed
  have low: "prefix dst (move_path src dst p)" if "prefix src p" for p using that by (simp add: move_path_def)
  show ?thesis
  proof (cases "prefix src q")
    case True
    have "move_path src dst p \<noteq> q" for p using low [of p] q True by (cases "prefix src p") (auto simp: move_path_def)
    then have "map_of (map (\<lambda>(p, n). (move_path src dst p, n)) (files s)) q = None"
      unfolding map_of_eq_None_iff by force
    with False True show ?thesis by (simp add: fs_get_def)
  next
    case out: False
    have "move_path src dst p = q \<longleftrightarrow> p = q" for p using low [of p] q out by (cases "prefix src p") (auto simp: move_path_def)
    then have "map_of (map (\<lambda>(p, n). (move_path src dst p, n)) (files s)) q = map_of (files s) q"
      by (intro map_of_moved) auto
    with False out show ?thesis by (simp add: fs_get_def)
  qed
qed (use assms(2) in \<open>simp add: fs_get_def\<close>)

lemma remove_upload_record_run:
  assumes wf: "tree_wf (fs_get s)" and f: "faults s = []" and dir: "fs_get s (multipart_dir s b uid) = Some Dir"
    and free: "\<And>n. fs_get s (multipart_root s b @ [''.retired-upload-'' @ ext_uuid (ext s) n]) = None"
  shows "\<exists>s1. remove_upload_record b uid s = (Done (), s1) \<and>
    fs_get s1 = without (prefix (multipart_dir s b uid)) (fs_get s) \<and> rest_same s s1 \<and> faults s1 = []"
proof -
  let ?root = "multipart_root s b" and ?src = "multipart_dir s b uid"
  let ?s0 = "s\<lparr>uuid_count := uuid_count s + 1\<rparr>"
  define nm where "nm = ''.retired-upload-'' @ ext_uuid (ext s) (uuid_count s)"
  let ?dst = "?root @ [nm]"
  have free: "fs_get s ?dst = None" using free unfolding nm_def .
  have src: "?src = ?root @ [uid]" by (simp add: multipart_dir_def)
  have root: "fs_get s ?root = Some Dir"
    using wf dir unfolding src by (metis option.discI parent_snoc snoc_eq_iff_butlast tree_wf_def)
  have apart: "\<not> prefix ?src ?dst" using dir free by (auto simp: src prefix_def)
  let ?s1 = "?s0\<lparr>files := map (\<lambda>(p, n). (move_path ?src ?dst p, n)) (files s)\<rparr>"
  have get1: "fs_get ?s1 q = (if prefix ?src q then None else fs_get s q)" if "\<not> prefix ?dst q" for q
    using rename_dir_get [of ?s0 ?src ?dst q] wf that free apart by (simp add: src)
  have dst1: "fs_get ?s1 ?dst = Some Dir"
  proof -
    have "map_of (map (\<lambda>(p, n). (move_path ?src ?dst p, n)) (files s)) ?dst = map_of (files s) ?src"
    proof (rule map_of_moved, intro ballI iffI)
      fix e assume e: "e \<in> set (files s)" and m: "move_path ?src ?dst (fst e) = ?dst"
      have "fst e \<noteq> ?dst" using e free by (force simp: fs_get_def map_of_eq_None_iff)
      with m show "fst e = ?src" by (auto simp: move_path_def prefix_def split: if_splits)
    qed (simp add: move_path_def)
    then show ?thesis using dir by (simp add: fs_get_def src)
  qed
  have root1: "fs_get ?s1 ?root = Some Dir" using get1 [of ?root] root by (auto simp: src prefix_def)
  let ?s2 = "fs_delete (prefix ?dst) ?s1"
  have get2: "fs_get ?s2 = without (prefix ?src) (fs_get s)"
  proof
    fix q
    show "fs_get ?s2 q = without (prefix ?src) (fs_get s) q"
    proof (cases "prefix ?dst q")
      case True
      then have "fs_get s q = None" using tree_wf_ancestor [OF wf, of q ?dst] free by metis
      with True show ?thesis by (simp add: without_def)
    next
      case False
      then have "fs_get ?s2 q = fs_get ?s1 q" by simp
      with get1 [OF False] show ?thesis by (simp only: without_def)
    qed
  qed
  have root2: "fs_get ?s2 ?root = Some Dir" using get2 root by (auto simp: without_def src prefix_def)
  have ren: "rename ?src ?dst ''Failed to retire multipart upload'' ?s0 = (Done (), ?s1)"
    using f dir root free apart
    by (simp add: rename_def syscall_quiet rename_effect_def is_dir_def path_exists_def src parent_def)
  have "remove_upload_record b uid s = (Done (), ?s2)"
    using ren [unfolded nm_def] f dir root1 root2 dst1
    by (simp add: nm_def remove_upload_record_def bind_io_def gets_def when_io_def path_exists_def new_uuid_def Let_def
        sync_directory_def sync_path_def syscall_quiet remove_dir_all_def is_dir_def)
  then show ?thesis using get2 f by (auto simp: rest_same_def fs_delete_def)
qed

section \<open>Completing an upload\<close>

text \<open>
  An upload that can be completed: it is in the cache, the part files hold what the records say, its
  directory exists, and the names that completion uses for scratch files are free.
\<close>

definition spool_dir :: "world \<Rightarrow> string \<Rightarrow> path" where
  "spool_dir s b = bucket_dir s b @ [''.spool'']"

definition upload_ready ::
    "world \<Rightarrow> string \<Rightarrow> string \<Rightarrow> multipart_upload \<Rightarrow> part list \<Rightarrow> bytes list \<Rightarrow> bool" where
  "upload_ready s b uid u ps datas \<longleftrightarrow>
     (\<exists>ups. uploads_cache s b = Some ups \<and> map_of ups uid = Some u) \<and>
     list_all2 (part_data s b uid) ps datas \<and>
     fs_get s (multipart_dir s b uid) = Some Dir \<and>
     fs_get s (spool_dir s b) \<in> {None, Some Dir} \<and>
     (\<forall>n. fs_get s (spool_dir s b @ [ext_uuid (ext s) n @ ''.tmp'']) \<noteq> Some Dir) \<and>
     (\<forall>n. fs_get s (multipart_root s b @ [''.retired-upload-'' @ ext_uuid (ext s) n]) = None)"

lemma upload_control_names: "control_path s (spool_dir s b @ q)" "control_path s (multipart_root s b @ q)"
  "control_path s (multipart_dir s b uid @ q)"
  by (auto simp: control_path_def spool_dir_def multipart_root_def multipart_dir_def)

lemma upload_control_simple [simp]: "control_path s (spool_dir s b)" "control_path s (multipart_root s b)"
  "control_path s (multipart_dir s b uid)" "control_path s (spool_dir s b @ [n])"
  using upload_control_names [of s b "[]"] upload_control_names(3) [of s b uid "[]"] upload_control_names(1) [of s b "[n]"] by simp_all

lemma names_apart [simp]:
  "multipart_root s b @ q \<noteq> spool_dir s b @ r" "part_path s b uid n \<noteq> spool_dir s b @ r"
  "multipart_root s b @ q \<noteq> spool_dir s b" "multipart_root s b \<noteq> spool_dir s b" "multipart_dir s b uid \<noteq> spool_dir s b @ r" "multipart_dir s b uid \<noteq> spool_dir s b"
  by (simp_all add: multipart_root_def spool_dir_def part_path_def multipart_dir_def)

lemma paths_rest:
  assumes "ext s1 = ext s" "base_path s1 = base_path s"
  shows "bucket_dir s1 b = bucket_dir s b" "multipart_root s1 b = multipart_root s b"
    "multipart_dir s1 b uid = multipart_dir s b uid" "spool_dir s1 b = spool_dir s b" "control_path s1 = control_path s"
  using assms by (simp_all add: bucket_dir_def multipart_root_def multipart_dir_def spool_dir_def control_path_def fun_eq_iff)

text \<open>Changes of control files only.\<close>

lemma control_step:
  assumes "store_ok s" "rest_same s s1" "tree_wf (fs_get s1)" "\<And>q. fs_get s1 q = fs_get s q \<or> control_path s q"
  shows "store_ok s1" "object_state s1 b k = object_state s b k" "bucket_exists s b' \<Longrightarrow> bucket_exists s1 b'"
proof -
  have so: "same_objects s s1" using store_ok_control [OF assms(1-3)] assms(4) by blast
  have "object_dir s1 b k = object_dir s b k" using object_dir_rest assms(2) by blast
  with so show "store_ok s1" "object_state s1 b k = object_state s b k"
    by (simp_all add: same_objects_def object_state_def)
  have "\<not> control_path s (bucket_dir s b')" by (auto simp: control_path_def bucket_dir_def)
  then have "fs_get s1 (bucket_dir s b') = fs_get s (bucket_dir s b')" using assms(4) by blast
  moreover have "bucket_dir s1 b' = bucket_dir s b'" using assms(2) by (simp add: bucket_dir_def rest_same_def)
  ultimately show "bucket_exists s1 b'" if "bucket_exists s b'" using that by (simp add: bucket_exists_def path_exists_def)
qed

lemma spool_parts:
  assumes ok: "store_ok s" and f: "faults s = []" and b: "bucket_exists s b" and ready: "upload_ready s b uid u ps datas"
    and spool: "spool = spool_dir s b @ [ext_uuid (ext s) n @ ''.tmp'']"
  shows "\<exists>s1 s2. create_dir_all (parent spool) msg s = (Done (), s1) \<and>
    assemble b uid spool ps None s1 = (Done (foldl (crc32c_over (ext s)) 0 datas), s2) \<and>
    fs_get s2 = (fs_get s)(spool_dir s b \<mapsto> Dir, spool \<mapsto> File (Bytes (concat datas))) \<and> rest_same s s2 \<and> faults s2 = []"
proof -
  have wf: "tree_wf (fs_get s)" using ok by (simp add: store_ok_def)
  have dir: "fs_get s (bucket_dir s b) = Some Dir"
    using b bucket_dir_no_file [OF ok, of "bucket_dir s b"]
    by (metis bucket_exists_def node.exhaust not_None_eq path_exists_def prefix_order.refl)
  obtain s1 where s1: "create_dir_all (spool_dir s b) msg s = (Done (), s1)" "fs_get s1 = (fs_get s)(spool_dir s b \<mapsto> Dir)"
    "rest_same s s1" "faults s1 = []"
    using create_dir_all_child [OF wf f dir, of "''.spool''" msg] ready by (auto simp: upload_ready_def spool_dir_def)
  have "part_data s1 b uid p d" if "part_data s b uid p d" for p d
    using that s1(2,3) names_apart(2) [of s b uid "part_number p" "[]"]
    by (cases "part_crc32c p") (simp_all add: part_data_def part_path_rest [OF s1(3)] file_content_def rest_same_def)
  then have parts: "list_all2 (part_data s1 b uid) ps datas"
    using ready by (auto simp: upload_ready_def intro: list_all2_mono)
  have "\<exists>s2. assemble b uid spool ps None s1 = (Done (foldl (crc32c_over (ext s1)) 0 datas), s2) \<and>
      fs_get s2 = (fs_get s1)(spool \<mapsto> File (Bytes (concat datas))) \<and> rest_same s1 s2 \<and> faults s2 = []"
    using ready s1(2) by (intro assemble_run [OF parts s1(4)]) (auto simp: spool upload_ready_def part_path_rest [OF s1(3)])
  moreover have "ext s1 = ext s" using s1(3) by (simp add: rest_same_def)
  ultimately show ?thesis using s1 rest_same_trans [OF s1(3)] by (auto simp: spool)
qed

text \<open>The object a completed upload becomes.\<close>

definition assembled_object :: "externs \<Rightarrow> multipart_upload \<Rightarrow> string \<Rightarrow> bytes list \<Rightarrow> datetime \<Rightarrow> object" where
  "assembled_object x u etag datas now =
     (completed_object x u etag (length (concat datas)) (foldl (crc32c_over x) 0 datas) now)\<lparr>obj_data := concat datas\<rparr>"

lemma completed_object_fields [simp]:
  "obj_size (completed_object x u etag n crc now) = n" "obj_key (completed_object x u etag n crc now) = upload_key u"
  by (simp_all add: completed_object_def Let_def new_with_metadata_and_etag_def split: option.splits)

lemma validate_total:
  assumes "validate_manifest u m c = Ok (ps, n)" and "list_all2 (part_data s b uid) ps datas"
  shows "n = length (concat datas)"
proof -
  have "n = sum_list (map part_size ps)"
    using assms(1) by (auto simp: validate_manifest_def bind_result_Ok checked_total_eq Let_def split: if_splits option.splits)
  also have "map part_size ps = map length datas"
    using assms(2) by (auto simp: list_all2_conv_all_nth part_data_def intro: nth_equalityI)
  finally show ?thesis by (simp add: length_concat)
qed

lemma part_data_counts [simp]: "part_data (s\<lparr>uuid_count := n\<rparr>) = part_data s" "part_data (s\<lparr>clock_count := n\<rparr>) = part_data s"
  by (simp_all add: fun_eq_iff part_data_def part_path_def multipart_dir_def multipart_root_def bucket_dir_def file_content_def
      split: option.splits)

lemma spool_names [simp]:
  "parent (spool_dir s b @ [n]) = spool_dir s b" "spool_dir s b \<noteq> []" "parent (spool_dir s b) = bucket_dir s b"
  by (rule parent_snoc) (simp_all add: spool_dir_def)

text \<open>The assembled payload lies outside the objects.\<close>

lemma spool_written:
  assumes ok: "store_ok s" and b: "bucket_exists s b" and rest: "rest_same s s2"
    and dirs: "fs_get s (spool_dir s b) \<in> {None, Some Dir}" "fs_get s (spool_dir s b @ [nm]) \<noteq> Some Dir"
    and get: "fs_get s2 = (fs_get s)(spool_dir s b \<mapsto> Dir, spool_dir s b @ [nm] \<mapsto> File c)"
  shows "store_ok s2" "bucket_exists s2 b" "object_state s2 b' k' = object_state s b' k'" "versioning s2 b = versioning s b"
    "spool_outside s2 (Spooled (spool_dir s b @ [nm]))"
proof -
  have dir: "fs_get s (bucket_dir s b) = Some Dir"
    using b bucket_dir_no_file [OF ok, of "bucket_dir s b"]
    by (metis bucket_exists_def node.exhaust not_None_eq path_exists_def prefix_order.refl)
  have wf: "tree_wf (fs_get s)" using ok by (simp add: store_ok_def)
  have "tree_wf ((fs_get s)(spool_dir s b \<mapsto> Dir))"
  proof (cases "fs_get s (spool_dir s b)")
    case None
    with wf dir show ?thesis by (intro tree_wf_put) auto
  next
    case (Some m)
    then have "(fs_get s)(spool_dir s b \<mapsto> Dir) = fs_get s" using dirs(1) by auto
    with wf show ?thesis by simp
  qed
  from tree_wf_put [OF this, of "spool_dir s b @ [nm]"] dirs(2) have wf2: "tree_wf (fs_get s2)" unfolding get by simp
  have ch: "fs_get s2 q = fs_get s q \<or> control_path s q" for q by (simp add: get)
  note c = control_step [OF ok rest wf2 ch]
  show "store_ok s2" "bucket_exists s2 b" "object_state s2 b' k' = object_state s b' k'" using c b by blast+
  show "versioning s2 b = versioning s b"
    using rest by (intro versioning_same) (simp_all add: rest_same_def get versioning_marker_def spool_dir_def)
  show "spool_outside s2 (Spooled (spool_dir s b @ [nm]))"
    using control_path_outside [of s "spool_dir s b @ [nm]"] object_dir_rest [OF rest] by (simp add: spool_outside_def)
qed

text \<open>After the publication: the scratch file, the cached upload and its directory are removed.\<close>

lemma finish_completion:
  assumes ok: "store_ok s" and f: "faults s = []" and ups: "uploads_cache s b = Some ups"
    and dir: "fs_get s (multipart_dir s b uid) = Some Dir"
    and free: "\<And>n. fs_get s (multipart_root s b @ [''.retired-upload-'' @ ext_uuid (ext s) n]) = None"
  shows "\<exists>s1. then_io (discard_spool (spool_dir s b @ [nm]))
       (bind_io (cached_uploads b) (\<lambda>uploads. then_io (cache_uploads b (AList.delete uid uploads))
          (then_io (remove_upload_record b uid) (return e)))) s = (Done e, s1) \<and>
     store_ok s1 \<and> faults s1 = [] \<and> (\<forall>b' k'. object_state s1 b' k' = object_state s b' k') \<and>
     uploads_cache s1 b = Some (AList.delete uid ups) \<and> fs_get s1 (multipart_dir s b uid) = None"
proof -
  have wf: "tree_wf (fs_get s)" using ok by (simp add: store_ok_def)
  obtain s2 where s2: "discard_spool (spool_dir s b @ [nm]) s = (Done (), s2)" "tree_wf (fs_get s2)" "rest_same s s2" "faults s2 = []"
    "\<And>q. q \<noteq> spool_dir s b @ [nm] \<Longrightarrow> q \<noteq> spool_dir s b \<Longrightarrow> fs_get s2 q = fs_get s q"
    using discard_spool_run [OF wf f, of "spool_dir s b @ [nm]"] by auto
  have ch2: "fs_get s2 q = fs_get s q \<or> control_path s q" for q using s2(5) [of q] upload_control_simple by metis
  note c2 = control_step [OF ok s2(3,2) ch2]
  let ?s3 = "s2\<lparr>uploads_cache := (uploads_cache s2)(b \<mapsto> AList.delete uid ups)\<rparr>"
  have x: "ext ?s3 = ext s" "base_path ?s3 = base_path s" "uploads_cache s2 = uploads_cache s" using s2(3) by (simp_all add: rest_same_def)
  note p3 = paths_rest [OF x(1,2)]
  have get3: "fs_get ?s3 q = fs_get s q" if "q \<noteq> spool_dir s b @ [nm]" "q \<noteq> spool_dir s b" for q using s2(5) that by simp
  have dir3: "fs_get ?s3 (multipart_dir ?s3 b uid) = Some Dir" unfolding p3 using dir by (subst get3) simp_all
  have free3: "fs_get ?s3 (multipart_root ?s3 b @ [''.retired-upload-'' @ ext_uuid (ext ?s3) n]) = None" for n
    unfolding p3 x(1) using free [of n] by (subst get3) simp_all
  have st3: "store_ok ?s3" using c2(1) by simp
  obtain s4 where s4: "remove_upload_record b uid ?s3 = (Done (), s4)"
    "fs_get s4 = without (prefix (multipart_dir s b uid)) (fs_get ?s3)" "rest_same ?s3 s4" "faults s4 = []"
    using remove_upload_record_run [OF _ _ dir3 free3] s2(2,4) unfolding p3 by auto
  have wf4: "tree_wf (fs_get s4)" unfolding s4(2) using s2(2) by (intro tree_wf_without) (simp_all add: multipart_dir_def)
  have ch4: "fs_get s4 q = fs_get ?s3 q \<or> control_path ?s3 q" for q
    unfolding p3 s4(2) using upload_control_names(3) [of s b uid] by (auto simp: without_def prefix_def)
  note c4 = control_step [OF st3 s4(3) wf4 ch4]
  have "object_state s4 b' k' = object_state s b' k'" for b' k'
    using c4(2) [of b' k'] c2(2) [of b' k'] by (simp add: object_state_def held_def file_content_def)
  moreover have "uploads_cache s4 b = Some (AList.delete uid ups)" using s4(3) by (simp add: rest_same_def)
  moreover have "fs_get s4 (multipart_dir s b uid) = None" by (simp add: s4(2) without_def)
  ultimately show ?thesis
    using s2(1) s4(1,4) ups x(3) c4(1)
    by (intro exI [of _ s4]) (simp add: bind_io_def cached_uploads_def gets_def of_result_def cache_uploads_def modify_def return_def)
qed

lemma only_object_frame:
  "only_object s s1 b k p \<Longrightarrow> p \<noteq> Spooled q \<Longrightarrow> control_path s q \<Longrightarrow> fs_get s1 q = fs_get s q"
  using control_path_outside [of s q] by (simp add: only_object_def)

lemma complete_run:
  assumes ok: "store_ok s" and f: "faults s = []" and b: "bucket_exists s b" and ready: "upload_ready s b uid u ps datas"
    and valid: "validate_manifest u m default_completion = Ok (ps, n)" and etag: "final_etag (ext s) ps = Ok e"
    and run: "complete_multipart_upload_with_parts b uid m s = (r, s1)"
  shows "r = Done e \<and> store_ok s1 \<and> faults s1 = [] \<and>
    (\<exists>now. \<exists>v \<in> range (ext_uuid (ext s)). object_state s1 b (upload_key u) =
       spec_put (versioning s b) v (assembled_object (ext s) u e datas now) (object_state s b (upload_key u))) \<and>
    (\<forall>b' k'. object_dir s b' k' \<noteq> object_dir s b (upload_key u) \<longrightarrow> object_state s1 b' k' = object_state s b' k') \<and>
    Option.bind (uploads_cache s1 b) (\<lambda>ups. map_of ups uid) = None \<and> fs_get s1 (multipart_dir s b uid) = None"
proof -
  obtain ups where ups: "uploads_cache s b = Some ups" "map_of ups uid = Some u" using ready by (auto simp: upload_ready_def)
  have n: "n = length (concat datas)" using validate_total [OF valid] ready by (auto simp: upload_ready_def)
  let ?s0 = "s\<lparr>uuid_count := uuid_count s + 1\<rparr>" and ?k = "upload_key u" and ?crc = "foldl (crc32c_over (ext s)) 0 datas"
  define nm spool where "nm = ext_uuid (ext s) (uuid_count s) @ ''.tmp''" and "spool = spool_dir s b @ [nm]"
  have r0: "rest_same s ?s0" by (simp add: rest_same_def)
  note p0 = paths_rest [of ?s0 s, simplified]
  have "store_ok ?s0" "upload_ready ?s0 b uid u ps datas" "bucket_exists ?s0 b"
    using ok ready b by (simp_all add: upload_ready_def p0 bucket_exists_def path_exists_def)
  then obtain t1 s2 where t1: "create_dir_all (parent spool) ''Failed to create spool dir'' ?s0 = (Done (), t1)"
    and s2: "assemble b uid spool ps None t1 = (Done ?crc, s2)"
      "fs_get s2 = (fs_get s)(spool_dir s b \<mapsto> Dir, spool \<mapsto> File (Bytes (concat datas)))" "rest_same ?s0 s2" "faults s2 = []"
    using spool_parts [of ?s0 b uid u ps datas spool "uuid_count s" "''Failed to create spool dir''"] f
    by (auto simp: p0 spool_def nm_def)
  let ?s3 = "s2\<lparr>clock_count := clock_count s2 + 1\<rparr>" and ?now = "ext_now (ext s) (clock_count s2)"
  have rest2: "ext s2 = ext s" using s2(3) by (simp add: rest_same_def)
  have rest3: "rest_same s ?s3" using rest_same_trans [OF r0 s2(3)] by (simp add: rest_same_def)
  have spool: "bucket_dir s b @ [''.spool'', ext_uuid (ext s) (uuid_count s) @ ''.tmp''] = spool"
    by (simp add: spool_def nm_def spool_dir_def)
  have get3: "fs_get ?s3 = (fs_get s)(spool_dir s b \<mapsto> Dir, spool_dir s b @ [nm] \<mapsto> File (Bytes (concat datas)))"
    using s2(2) by (simp add: spool_def)
  have free: "fs_get s (spool_dir s b) \<in> {None, Some Dir}" "fs_get s (spool_dir s b @ [nm]) \<noteq> Some Dir"
    using ready by (simp_all add: upload_ready_def nm_def)
  note c3 = spool_written [OF ok b rest3 free get3]
  let ?ob = "completed_object (ext s) u e n ?crc ?now"
  have pl: "payload_bytes ?s3 ?ob (Spooled spool) = Some (concat datas)"
    using s2(2) by (simp add: payload_bytes_def file_content_def)
  obtain r4 s4 where put: "put_object_locked_with_payload b ?k ?ob (Spooled spool) ?s3 = (r4, s4)" by force
  have f3: "faults ?s3 = []" and size: "obj_size ?ob = length (concat datas)" using s2(4) by (simp_all add: n)
  note P = put_spec [OF c3(1) f3 c3(2) pl size c3(5) [folded spool_def] put]
  have o: "only_object ?s3 s4 b ?k (Spooled spool)" using P by blast
  have x: "ext s4 = ext s" "base_path s4 = base_path s" "uploads_cache s4 b = Some ups"
    using o rest3 ups(1) by (simp_all add: only_object_def rest_same_def)
  note p4 = paths_rest [OF x(1,2)]
  have get4: "fs_get s4 q = fs_get s q" if "control_path s q" "q \<noteq> spool_dir s b @ [nm]" "q \<noteq> spool_dir s b" for q
  proof -
    have "control_path ?s3 q" using that(1) paths_rest(5) [of ?s3 s] rest3 by (simp add: rest_same_def)
    with only_object_frame [OF o] that(2) have "fs_get s4 q = fs_get ?s3 q" by (simp add: spool_def)
    then show ?thesis using that(2,3) by (simp only: get3 fun_upd_apply if_False)
  qed
  have ok4: "store_ok s4" "faults s4 = []" "r4 = Done ()" using P by blast+
  have up: "fs_get s4 (multipart_dir s b uid) = Some Dir"
    using get4 [OF upload_control_simple(3)] ready by (simp add: upload_ready_def)
  have retired: "fs_get s4 (multipart_root s b @ [''.retired-upload-'' @ ext_uuid (ext s) n]) = None" for n
    using get4 [OF upload_control_names(2) names_apart(1) names_apart(3)] ready unfolding upload_ready_def by simp
  obtain s5 where fin: "then_io (discard_spool spool)
       (bind_io (cached_uploads b) (\<lambda>uploads. then_io (cache_uploads b (AList.delete uid uploads))
          (then_io (remove_upload_record b uid) (return e)))) s4 = (Done e, s5)"
    and s5: "store_ok s5" "faults s5 = []" "\<And>b' k'. object_state s5 b' k' = object_state s4 b' k'"
      "uploads_cache s5 b = Some (AList.delete uid ups)" "fs_get s5 (multipart_dir s b uid) = None"
    using finish_completion [OF ok4(1,2) x(3), of uid nm e, unfolded p4 x(1)] up retired unfolding spool_def by blast
  have pub: "publish_completed b ?ob spool default_completion ?s3 = (Done (), s4)"
    using put ok4(3) by (simp add: publish_completed_def default_completion_def when_io_def)
  have "ensure_uploads_cache_loaded b s = (Done (), s)" "cached_uploads b s = (Done ups, s)"
    using ups by (simp_all add: ensure_uploads_cache_loaded_def cached_uploads_def bind_io_def gets_def when_io_def return_def of_result_def)
  moreover obtain sd where "discard_spool spool s4 = (Done (), sd)"
    using discard_spool_run [of s4 spool] ok4 by (auto simp: store_ok_def spool_def)
  ultimately have "complete_multipart_upload_with_parts b uid m s = (Done e, s5)"
    using b ups valid etag t1 s2(1) pub fin rest2
    by (simp add: complete_multipart_upload_with_parts_def complete_multipart_upload_checked_def require_bucket_def
        bind_io_def gets_def guard_io_def return_def of_result_def
        new_uuid_def spool [symmetric] on_error_def try_io_def now_io_def default_completion_def)
  then have "r = Done e" "s1 = s5" using run by simp_all
  moreover have "object_state s5 b' k' = object_state s b' k'" if "object_dir s b' k' \<noteq> object_dir s b ?k" for b' k'
    using s5(3) only_object_others [OF o] that c3(3) object_dir_rest [OF rest3] by simp
  moreover have "\<exists>v \<in> range (ext_uuid (ext s)). object_state s5 b ?k =
      spec_put (versioning s b) v (assembled_object (ext s) u e datas ?now) (object_state s b ?k)"
    using P s5(3) c3(3,4) rest3 by (simp add: assembled_object_def n rest_same_def)
  ultimately show ?thesis using s5 by (auto simp: delete_conv')
qed

section \<open>Storing a part\<close>

text \<open>An open upload: cached, and its directory holds files only.\<close>

definition upload_open :: "world \<Rightarrow> string \<Rightarrow> string \<Rightarrow> multipart_upload \<Rightarrow> bool" where
  "upload_open s b uid u \<longleftrightarrow>
     (\<exists>ups. uploads_cache s b = Some ups \<and> map_of ups uid = Some u) \<and> parts_ok (parts u) \<and>
     fs_get s (multipart_dir s b uid) = Some Dir \<and> (\<forall>n. fs_get s (multipart_dir s b uid @ [n]) \<noteq> Some Dir)"

definition hidden :: "string \<Rightarrow> bool" where
  "hidden n \<longleftrightarrow> prefix ''.'' n"

lemma hidden_names [simp]: "hidden (temp_name nm u)" "\<not> hidden (part_file_name n)" "\<not> hidden ''upload.json''"
  by (simp_all add: hidden_def temp_name_def part_file_name_def)

lemma write_upload_file:
  assumes ok: "store_ok s" and f: "faults s = []" and d: "d = multipart_dir s b uid" "fs_get s d = Some Dir"
    and files: "\<forall>n. fs_get s (d @ [n]) \<noteq> Some Dir" and nm: "\<not> hidden nm"
  shows "\<exists>s1. atomic_write (d @ [nm]) c s = (Done (), s1) \<and> store_ok s1 \<and> faults s1 = [] \<and> rest_same s s1 \<and>
    (\<forall>b k. object_state s1 b k = object_state s b k) \<and> (\<forall>b. bucket_exists s b \<longrightarrow> bucket_exists s1 b) \<and>
    fs_get s1 d = Some Dir \<and> (\<forall>n. fs_get s1 (d @ [n]) \<noteq> Some Dir) \<and>
    (\<forall>n. \<not> hidden n \<longrightarrow> fs_get s1 (d @ [n]) = (if n = nm then Some (File c) else fs_get s (d @ [n]))) \<and>
    (\<forall>q. \<not> prefix d q \<longrightarrow> fs_get s1 q = fs_get s q)"
proof -
  let ?t' = "(fs_get s)(d @ [nm] \<mapsto> File c)"
  obtain r s1 where run: "atomic_write (d @ [nm]) c s = (r, s1)" by force
  have R: "runs (ext s) True (\<lambda>_. True) (fs_get s) (atomic_write (d @ [nm]) c) (\<lambda>_. tmp_eq hidden d ?t')"
    using nm d files by (intro runs_atomic_write) auto
  note D = runsD [OF R refl refl _ run]
  have r: "r = Done ()" and rest: "rest_same s s1" "faults s1 = []" using D(1,2,5) f by auto
  have cs: "fs_get s1 q = ?t' q \<or> (\<exists>n. q = d @ [n] \<and> hidden n) \<and> fs_get s1 q \<noteq> Some Dir" for q
    using D(4) [OF _ r] f unfolding tmp_eq_def by blast
  have dir: "fs_get s1 d = Some Dir" using cs [of d] d by auto
  have low: "fs_get s1 (d @ [n]) \<noteq> Some Dir" for n using cs [of "d @ [n]"] files by (auto split: if_splits)
  have wf: "tree_wf (fs_get s)" using ok by (simp add: store_ok_def)
  have "tree_wf (fs_get s1)"
    unfolding tree_wf_def
  proof (intro conjI allI impI)
    show "fs_get s1 [] = Some Dir" by (simp add: fs_get_def)
    fix q :: path assume q: "q \<noteq> []" "fs_get s1 q \<noteq> None"
    show "fs_get s1 (parent q) = Some Dir"
    proof (cases "\<exists>n. q = d @ [n]")
      case False
      then have "fs_get s q \<noteq> None" using cs [of q] q(2) by auto
      then have p: "fs_get s (parent q) = Some Dir" using wf q(1) by (simp add: tree_wf_def)
      then have "parent q \<noteq> d @ [n]" for n using files by metis
      then show ?thesis using cs [of "parent q"] p by auto
    qed (use dir in auto)
  qed
  moreover have "fs_get s1 q = fs_get s q \<or> control_path s q" for q
    using cs [of q] upload_control_names(3) [of s b uid] by (auto simp: d(1) split: if_splits)
  ultimately have c: "store_ok s1" "object_state s1 b k = object_state s b k" "bucket_exists s b \<Longrightarrow> bucket_exists s1 b" for b k
    using control_step [OF ok rest(1)] by blast+
  have "fs_get s1 (d @ [n]) = (if n = nm then Some (File c) else fs_get s (d @ [n]))" if "\<not> hidden n" for n
    using cs [of "d @ [n]"] that by auto
  moreover have "fs_get s1 q = fs_get s q" if "\<not> prefix d q" for q using cs [of q] that by auto
  ultimately show ?thesis using run r rest c dir low by blast
qed

lemma part_file_name_inj: "part_file_name n = part_file_name m \<Longrightarrow> n = m"
  using digits_value_zeros show_nat_digits unfolding part_file_name_def by (metis same_append_eq)

definition new_part :: "externs \<Rightarrow> multipart_upload \<Rightarrow> nat \<Rightarrow> bytes \<Rightarrow> datetime \<Rightarrow> part" where
  "new_part x u n data now =
     \<lparr>part_number = n, part_etag = hex_encode (ext_md5 x data), part_size = length data,
      part_crc32c = (if uses_crc32c (upload_provider_metadata u) then Some (crc32c_over x 0 data) else None),
      part_last_modified = now\<rparr>"

lemma part_data_kept:
  assumes "rest_same s s1" "part_data s b uid q d"
    and "fs_get s1 (part_path s b uid (part_number q)) = fs_get s (part_path s b uid (part_number q))"
  shows "part_data s1 b uid q d"
  using assms by (cases "part_crc32c q") (simp_all add: part_data_def part_path_rest [OF assms(1)] file_content_def rest_same_def)

lemma upload_part_run:
  assumes ok: "store_ok s" "faults s = []" "bucket_exists s b" and up: "upload_open s b uid u"
    and n: "1 \<le> n" "n \<le> 10000" and small: "\<not> exceeds (metadata_u64 (upload_provider_metadata u) MAX_PART_KEY) (length data)"
  shows "\<exists>s1 now. upload_part b uid n data s = (Done (hex_encode (ext_md5 (ext s) data)), s1) \<and>
    store_ok s1 \<and> faults s1 = [] \<and> bucket_exists s1 b \<and> (\<forall>b k. object_state s1 b k = object_state s b k) \<and>
    ext s1 = ext s \<and> base_path s1 = base_path s \<and> (\<forall>q. \<not> prefix (multipart_dir s b uid) q \<longrightarrow> fs_get s1 q = fs_get s q) \<and>
    upload_open s1 b uid (u\<lparr>parts := store_part (new_part (ext s) u n data now) (parts u)\<rparr>) \<and>
    file_content s1 (upload_record_path s b uid) =
      Some (UploadJson (u\<lparr>parts := store_part (new_part (ext s) u n data now) (parts u)\<rparr>)) \<and>
    part_data s1 b uid (new_part (ext s) u n data now) data \<and>
    (\<forall>q d. part_number q \<noteq> n \<longrightarrow> part_data s b uid q d \<longrightarrow> part_data s1 b uid q d)"
proof -
  let ?d = "multipart_dir s b uid" and ?etag = "hex_encode (ext_md5 (ext s) data)"
  obtain ups where ups: "uploads_cache s b = Some ups" "map_of ups uid = Some u" using up by (auto simp: upload_open_def)
  have d: "fs_get s ?d = Some Dir" "\<forall>n. fs_get s (?d @ [n]) \<noteq> Some Dir" using up by (auto simp: upload_open_def)
  obtain s1 where s1: "atomic_write (?d @ [part_file_name n]) (Bytes data) s = (Done (), s1)" "store_ok s1" "faults s1 = []"
    "rest_same s s1" "\<forall>b k. object_state s1 b k = object_state s b k" "\<forall>b. bucket_exists s b \<longrightarrow> bucket_exists s1 b"
    "fs_get s1 ?d = Some Dir" "\<forall>n. fs_get s1 (?d @ [n]) \<noteq> Some Dir"
    "\<forall>m. \<not> hidden m \<longrightarrow> fs_get s1 (?d @ [m]) = (if m = part_file_name n then Some (File (Bytes data)) else fs_get s (?d @ [m]))"
    "\<forall>q. \<not> prefix ?d q \<longrightarrow> fs_get s1 q = fs_get s q"
    using write_upload_file [OF ok(1,2) refl d, of "part_file_name n" "Bytes data"] by auto
  have x1: "ext s1 = ext s" "base_path s1 = base_path s" "uploads_cache s1 = uploads_cache s" using s1(4) by (simp_all add: rest_same_def)
  let ?now = "ext_now (ext s) (clock_count s1)"
  let ?p = "new_part (ext s) u n data ?now"
  let ?u = "u\<lparr>parts := store_part ?p (parts u)\<rparr>"
  let ?s2 = "s1\<lparr>clock_count := clock_count s1 + 1, uploads_cache := (uploads_cache s1)(b \<mapsto> AList.update uid ?u ups)\<rparr>"
  have p2: "multipart_dir ?s2 b uid = ?d" using paths_rest [of ?s2 s] x1 by simp
  obtain s3 where s3: "atomic_write (?d @ [''upload.json'']) (UploadJson ?u) ?s2 = (Done (), s3)" "store_ok s3" "faults s3 = []"
    "rest_same ?s2 s3" "\<forall>b k. object_state s3 b k = object_state ?s2 b k" "\<forall>b. bucket_exists ?s2 b \<longrightarrow> bucket_exists s3 b"
    "fs_get s3 ?d = Some Dir" "\<forall>n. fs_get s3 (?d @ [n]) \<noteq> Some Dir"
    "\<forall>m. \<not> hidden m \<longrightarrow> fs_get s3 (?d @ [m]) = (if m = ''upload.json'' then Some (File (UploadJson ?u)) else fs_get ?s2 (?d @ [m]))"
    "\<forall>q. \<not> prefix ?d q \<longrightarrow> fs_get s3 q = fs_get ?s2 q"
    using write_upload_file [of ?s2 ?d b uid "''upload.json''" "UploadJson ?u"] s1(2,3,7,8) p2 by auto
  have x3: "ext s3 = ext s" "base_path s3 = base_path s" "uploads_cache s3 b = Some (AList.update uid ?u ups)"
    using s3(4) x1 by (simp_all add: rest_same_def)
  have name: "part_file_name m \<noteq> ''upload.json''" for m by (simp add: part_file_name_def)
  have stored: "fs_get s3 (part_path s b uid m) = (if m = n then Some (File (Bytes data)) else fs_get s (part_path s b uid m))" for m
    using s1(9) s3(9) name part_file_name_inj [of m n] by (auto simp: part_path_def)
  have check: "check_part b uid n (length data) s = (Done (), s)"
    using ok(3) ups n small
    by (simp add: check_part_def require_bucket_def bind_io_def gets_def guard_io_def return_def get_multipart_upload_def
        load_uploads_def of_result_def)
  have crc: "read_bytes (part_path s b uid n) ''Failed to read staged part'' s1 = (Done data, s1)"
    using s1(9) by (simp add: read_bytes_def bind_io_def read_file_def file_content_def part_path_def return_def)
  have run: "upload_part b uid n data s = (Done ?etag, s3)"
    using check s1(1) s3(1) ups x1 crc
    by (cases "uses_crc32c (upload_provider_metadata u)") (simp_all add: upload_part_def bind_io_def gets_def part_path_def multipart_dir_def multipart_root_def bucket_dir_def return_def
        record_uploaded_part_def cached_uploads_def of_result_def now_io_def Let_def cache_uploads_def modify_def
        upload_record_path_def new_part_def)
  have st: "object_state s3 b' k' = object_state s b' k'" for b' k'
    using s3(5) s1(5) by (simp add: object_state_def held_def file_content_def)
  have "upload_open s3 b uid ?u"
    using up s3(7,8) x3 paths_rest [OF x3(1,2)] by (auto simp: upload_open_def store_part_ok update_conv')
  moreover have "file_content s3 (upload_record_path s b uid) = Some (UploadJson ?u)"
    using s3(9) by (simp add: upload_record_path_def file_content_def)
  moreover have pp: "part_path s3 b uid m = part_path s b uid m" for m
    using paths_rest [OF x3(1,2)] by (simp add: part_path_def)
  then have "part_data s3 b uid ?p data"
    by (simp add: part_data_def new_part_def file_content_def stored x3(1))
  moreover have "part_data s3 b uid q c" if "part_number q \<noteq> n" "part_data s b uid q c" for q c
    using that stored [of "part_number q"]
    by (cases "part_crc32c q") (simp_all add: part_data_def pp file_content_def x3(1))
  ultimately show ?thesis
    using run s3(2,3,6) s1(6) ok(3) st x3(1,2) s3(10) s1(10) by (intro exI [of _ s3] exI [of _ ?now]) (simp add: bucket_exists_def path_exists_def bucket_dir_def)
qed

section \<open>A concrete upload\<close>

definition sample_upload :: multipart_upload where
  "sample_upload = new_multipart_upload ''u'' ''k'' 0 None Map.empty Map.empty"

definition upload_world :: world where
  "upload_world =
     (fs_put [''b-xyz'', ''.multipart'', ''u''] Dir (fs_put [''b-xyz'', ''.multipart''] Dir plain_bucket))
       \<lparr>uploads_cache := [''xyz'' \<mapsto> [(''u'', sample_upload)]]\<rparr>"

lemma upload_world_paths [simp]:
  "bucket_dir upload_world ''xyz'' = [''b-xyz'']" "multipart_root upload_world ''xyz'' = [''b-xyz'', ''.multipart'']"
  "multipart_dir upload_world ''xyz'' ''u'' = [''b-xyz'', ''.multipart'', ''u'']" "spool_dir upload_world ''xyz'' = [''b-xyz'', ''.spool'']"
  "ext upload_world = sample_externs" "faults upload_world = []"
  "uploads_cache upload_world ''xyz'' = Some [(''u'', sample_upload)]"
  by (simp_all add: upload_world_def bucket_dir_def multipart_root_def multipart_dir_def spool_dir_def sample_bucket_def
      sample_world_def fs_put_def sample_externs_def)

lemma upload_world_get:
  "fs_get upload_world = (fs_get plain_bucket)([''b-xyz'', ''.multipart''] \<mapsto> Dir, [''b-xyz'', ''.multipart'', ''u''] \<mapsto> Dir)"
  by (simp add: upload_world_def)

lemma upload_world_ok: "store_ok upload_world" "bucket_exists upload_world ''xyz''"
proof -
  let ?s1 = "fs_put [''b-xyz'', ''.multipart''] Dir plain_bucket"
  let ?s2 = "fs_put [''b-xyz'', ''.multipart'', ''u''] Dir ?s1"
  have wf: "tree_wf (fs_get plain_bucket)" using sample_bucket_ok [of "[]"] by (simp add: store_ok_def)
  have dirs: "fs_get plain_bucket [''b-xyz''] = Some Dir" "fs_get plain_bucket [''b-xyz'', ''.multipart''] = None"
    "fs_get plain_bucket [''b-xyz'', ''.multipart'', ''u''] = None"
    by (simp_all add: fs_get_def sample_bucket_def)
  have "tree_wf (fs_get ?s1)" using tree_wf_put [OF wf, of "[''b-xyz'', ''.multipart'']"] dirs by (simp add: parent_def)
  from tree_wf_put [OF this, of "[''b-xyz'', ''.multipart'', ''u'']"] dirs have wf2: "tree_wf (fs_get ?s2)" by (simp add: parent_def)
  have b: "bucket_dir plain_bucket ''xyz'' = [''b-xyz'']" by (simp add: bucket_dir_def sample_bucket_def sample_externs_def)
  have "control_path plain_bucket [''b-xyz'', ''.multipart'']" "control_path plain_bucket [''b-xyz'', ''.multipart'', ''u'']"
    unfolding control_path_def by (rule exI [of _ "''xyz''"], simp add: b)+
  then have ch: "fs_get ?s2 q = fs_get plain_bucket q \<or> control_path plain_bucket q" for q by auto
  have rest: "rest_same plain_bucket ?s2" by simp
  note c = control_step [OF sample_bucket_ok rest wf2 ch]
  show "store_ok upload_world" using c(1) by (simp add: upload_world_def)
  show "bucket_exists upload_world ''xyz''"
    using upload_world_get dirs(1) by (simp add: bucket_exists_def path_exists_def)
qed

lemma upload_world_open: "upload_open upload_world ''xyz'' ''u'' sample_upload"
proof -
  have "fs_get upload_world [''b-xyz'', ''.multipart'', ''u'', n] = None" for n
    using sample_bucket_get [of "[]" "[''b-xyz'', ''.multipart'', ''u'', n]"]
    by (cases "fs_get plain_bucket [''b-xyz'', ''.multipart'', ''u'', n]") (auto simp: upload_world_get)
  then show ?thesis
    by (simp add: upload_open_def parts_ok_def sample_upload_def new_multipart_upload_def upload_world_get)
qed

section \<open>Properties\<close>

text \<open>
  Storing a part keeps the parts of an upload strictly ordered by number, so every number has at
  most one part; the new part is found under its number and every other part as before.
\<close>

theorem store_part_map:
  assumes "parts_ok ps"
  shows "parts_ok (store_part p ps) \<and> find_part (store_part p ps) = (find_part ps)(part_number p \<mapsto> p)"
  using assms by (simp add: store_part_ok find_part_store)

theorem store_part_map_witness:
  "parts_ok (store_part (new_part sample_externs sample_upload 1 [] 0) (store_part (new_part sample_externs sample_upload 2 [] 0) []))"
  using store_part_map [of "store_part (new_part sample_externs sample_upload 2 [] 0) []"] by (simp add: parts_ok_def)

text \<open>
  The checks before a completion accept a manifest exactly when it is not empty, its part numbers
  ascend strictly, every entry names an uploaded part with its ETag, every part but the last has
  the minimum size, the total size fits 64 bits and the limit of the upload, and the expected size
  agrees; then the result is the parts named and their total size. A refusal names its reason.
\<close>

theorem validate_manifest_spec:
  assumes "parts_ok (parts u)"
  shows "(validate_manifest u m c = Ok (ps, n) \<longleftrightarrow> acceptable u m c ps n) \<and>
    (validate_manifest u m c = Err e \<longrightarrow>
       e = InvalidPartOrder \<and> (m = [] \<or> \<not> sorted_wrt (<) (map fst m)) \<or>
       e = IncompleteMultipartUpload \<and> (\<exists>entry \<in> set m. \<forall>p. \<not> selects (parts u) entry p) \<or>
       (\<exists>ps. list_all2 (selects (parts u)) m ps \<and>
         (e = EntityTooSmall \<and> (\<exists>p \<in> set (butlast ps). part_size p < minimum_of u) \<or>
          e = EntityTooLarge \<and> (u64_max < sum_list (map part_size ps) \<or>
            exceeds (metadata_u64 (upload_provider_metadata u) MAX_OBJECT_KEY) (sum_list (map part_size ps))) \<or>
          e = InvalidRequest ''Multipart object size does not match the selected parts'' \<and>
            mc_size c \<noteq> Some (sum_list (map part_size ps)))))"
proof -
  have "mapM_result (select_part (parts u)) m = Ok qs \<longleftrightarrow> list_all2 (selects (parts u)) m qs" for qs
    using select_part_Ok [OF assms] by (simp add: mapM_result_Ok)
  with validate_Ok [OF assms] validate_errors [of u m c e] show ?thesis by simp
qed

theorem validate_manifest_spec_witness:
  "parts_ok (parts sample_upload) \<and> validate_manifest sample_upload [(1, ''e'')] default_completion = Err IncompleteMultipartUpload \<and>
   (\<exists>entry \<in> set [(1, ''e'')]. \<forall>p. \<not> selects (parts sample_upload) entry p)"
proof -
  have ok: "parts_ok (parts sample_upload)" by (simp add: parts_ok_def sample_upload_def new_multipart_upload_def)
  have "validate_manifest sample_upload [(1, ''e'')] default_completion = Err IncompleteMultipartUpload"
    by (simp add: validate_manifest_def select_part_def sample_upload_def new_multipart_upload_def)
  with validate_manifest_spec [OF ok, of "[(1, ''e'')]" default_completion _ _ IncompleteMultipartUpload] ok
  show ?thesis by simp
qed

text \<open>
  Uploading a part: with a valid part number and size, in a sound store without faults, the part
  file holds the data, the record of the upload in the cache and on disk contains the new part with
  the digest of the data, the other parts keep their data, and no object changes.
\<close>

theorem upload_part_stores:
  assumes "store_ok s" "faults s = []" "bucket_exists s b" and "upload_open s b uid u"
    and "1 \<le> n" "n \<le> 10000" and "\<not> exceeds (metadata_u64 (upload_provider_metadata u) MAX_PART_KEY) (length data)"
  shows "\<exists>s1 now. upload_part b uid n data s = (Done (hex_encode (ext_md5 (ext s) data)), s1) \<and>
    store_ok s1 \<and> (\<forall>b k. object_state s1 b k = object_state s b k) \<and>
    upload_open s1 b uid (u\<lparr>parts := store_part (new_part (ext s) u n data now) (parts u)\<rparr>) \<and>
    file_content s1 (upload_record_path s b uid) =
      Some (UploadJson (u\<lparr>parts := store_part (new_part (ext s) u n data now) (parts u)\<rparr>)) \<and>
    part_data s1 b uid (new_part (ext s) u n data now) data \<and>
    (\<forall>q d. part_number q \<noteq> n \<longrightarrow> part_data s b uid q d \<longrightarrow> part_data s1 b uid q d)"
  using upload_part_run [OF assms] by blast

theorem upload_part_stores_witness:
  "\<exists>s1 p. upload_part ''xyz'' ''u'' 1 [1, 2] upload_world = (Done ''0102'', s1) \<and> store_ok s1 \<and>
     upload_open s1 ''xyz'' ''u'' (sample_upload\<lparr>parts := [p]\<rparr>) \<and> part_data s1 ''xyz'' ''u'' p [1, 2]"
proof -
  have md5: "hex_encode (ext_md5 sample_externs [1, 2]) = ''0102''" by (simp add: sample_externs_def) code_simp
  have "parts sample_upload = []" "\<not> exceeds (metadata_u64 (upload_provider_metadata sample_upload) MAX_PART_KEY) (length [1, 2 :: byte])"
    by (simp_all add: sample_upload_def new_multipart_upload_def metadata_u64_def exceeds_def)
  with upload_part_stores [OF upload_world_ok(1) _ upload_world_ok(2) upload_world_open, of 1 "[1, 2]"] show ?thesis
    by (auto simp: md5)
qed

text \<open>
  C10. Completing an upload: when the checks accept the manifest and the part files hold what the
  records say, the object becomes the concatenation of the selected parts in manifest order with the
  attributes of the upload, published under the versioning rules of a write; no other object changes,
  the upload is gone from the cache and from disk, and the store stays sound.
\<close>

theorem complete_multipart_assembles:
  assumes "store_ok s" "faults s = []" "bucket_exists s b" and "upload_ready s b uid u ps datas"
    and "validate_manifest u m default_completion = Ok (ps, n)" and "final_etag (ext s) ps = Ok e"
    and "complete_multipart_upload_with_parts b uid m s = (r, s1)"
  shows "r = Done e \<and> store_ok s1 \<and>
    (\<exists>now. \<exists>v \<in> range (ext_uuid (ext s)). object_state s1 b (upload_key u) =
       spec_put (versioning s b) v (assembled_object (ext s) u e datas now) (object_state s b (upload_key u))) \<and>
    (\<forall>b' k'. object_dir s b' k' \<noteq> object_dir s b (upload_key u) \<longrightarrow> object_state s1 b' k' = object_state s b' k') \<and>
    Option.bind (uploads_cache s1 b) (\<lambda>ups. map_of ups uid) = None \<and> fs_get s1 (multipart_dir s b uid) = None"
  using complete_run [OF assms] by blast

theorem complete_multipart_assembles_witness:
  "\<exists>s m s1. complete_multipart_upload_with_parts ''xyz'' ''u'' m s = (Done ''0102-1'', s1) \<and> store_ok s1 \<and>
     map_option obj_data (current (object_state s1 ''xyz'' ''k'')) = Some [1, 2]"
proof -
  have md5: "hex_encode (ext_md5 sample_externs [1, 2]) = ''0102''" by (simp add: sample_externs_def) code_simp
  have none: "parts sample_upload = []" "\<not> exceeds (metadata_u64 (upload_provider_metadata sample_upload) MAX_PART_KEY) (length [1, 2 :: byte])"
    by (simp_all add: sample_upload_def new_multipart_upload_def metadata_u64_def exceeds_def)
  obtain s now where s: "store_ok s" "faults s = []" "bucket_exists s ''xyz''" "ext s = sample_externs" "base_path s = base_path upload_world"
    and up: "upload_open s ''xyz'' ''u'' (sample_upload\<lparr>parts := [new_part sample_externs sample_upload 1 [1, 2] now]\<rparr>)"
    and part: "part_data s ''xyz'' ''u'' (new_part sample_externs sample_upload 1 [1, 2] now) [1, 2]"
    and frame: "\<And>q. \<not> prefix [''b-xyz'', ''.multipart'', ''u''] q \<Longrightarrow> fs_get s q = fs_get upload_world q"
    using upload_part_run [OF upload_world_ok(1) _ upload_world_ok(2) upload_world_open, of 1 "[1, 2]"] none by auto
  let ?p = "new_part sample_externs sample_upload 1 [1, 2] now" and ?u = "sample_upload\<lparr>parts := [new_part sample_externs sample_upload 1 [1, 2] now]\<rparr>"
  note p = paths_rest [of s upload_world, simplified, OF s(4,5)]
  have world: "fs_get upload_world [''b-xyz'', ''.spool''] = None"
    "fs_get upload_world [''b-xyz'', ''.spool'', n] = None" "fs_get upload_world [''b-xyz'', ''.multipart'', CHR ''.'' # n] = None" for n
    by (simp_all add: upload_world_get) (simp_all add: fs_get_def sample_bucket_def)
  have free: "fs_get s [''b-xyz'', ''.spool''] = None" "fs_get s [''b-xyz'', ''.spool'', n] = None"
    "fs_get s [''b-xyz'', ''.multipart'', CHR ''.'' # n] = None" for n
    using frame [of "[''b-xyz'', ''.spool'']"] frame [of "[''b-xyz'', ''.spool'', n]"] frame [of "[''b-xyz'', ''.multipart'', CHR ''.'' # n]"] world
    by simp_all
  have ready: "upload_ready s ''xyz'' ''u'' ?u [?p] [[1, 2]]"
    using up part by (simp add: upload_ready_def upload_open_def p free)
  have pm: "upload_provider_metadata sample_upload = Map.empty" by (simp add: sample_upload_def new_multipart_upload_def)
  have p1: "part_number ?p = 1" "part_etag ?p = ''0102''" "part_size ?p = 2" by (simp_all add: new_part_def md5)
  have valid: "validate_manifest ?u [(1, ''0102'')] default_completion = Ok ([?p], 2)"
    using p1 by (simp add: validate_manifest_def select_part_def checked_add_u64_def u64_max_def default_completion_def exceeds_def
        metadata_u64_def pm)
  have "final_etag sample_externs [\<lparr>part_number = 1, part_etag = ''0102'', part_size = 2, part_crc32c = None, part_last_modified = 0\<rparr>] = Ok ''0102-1''"
    by code_simp
  then have etag: "final_etag (ext s) [?p] = Ok ''0102-1''"
    using s(4) p1 by (simp add: final_etag_def)
  obtain r s1 where run: "complete_multipart_upload_with_parts ''xyz'' ''u'' [(1, ''0102'')] s = (r, s1)" by force
  note C = complete_multipart_assembles [OF s(1-3) ready valid etag run]
  have k: "upload_key ?u = ''k''" by (simp add: sample_upload_def new_multipart_upload_def)
  from C obtain now' v where "object_state s1 ''xyz'' ''k'' =
      spec_put (versioning s ''xyz'') v (assembled_object (ext s) ?u ''0102-1'' [[1, 2]] now') (object_state s ''xyz'' ''k'')"
    unfolding k by blast
  then have "map_option obj_data (current (object_state s1 ''xyz'' ''k'')) = Some [1, 2]"
    using spec_put_current [of "versioning s ''xyz''" v "assembled_object (ext s) ?u ''0102-1'' [[1, 2]] now'" "object_state s ''xyz'' ''k''"]
    by (auto simp: assembled_object_def)
  with C run show ?thesis by blast
qed

end
