(* ===== verification/Lifecycle.thy ===== *)
theory Lifecycle
  imports Listing_Correct Versions Store_Config
begin

text \<open>
  The lifecycle executor (\<^verbatim>\<open>src/src/lifecycle.rs\<close>): data protection by holds, retention and leases, the
  eager check of one object's expiration, and the periodic pass that expires objects, moves them
  to other storage classes and removes noncurrent versions. Log calls are left out; the shared
  operation gate orders passes and has no counterpart in a sequential model.
\<close>

section \<open>Data protection\<close>

definition GCS_SOFT_DELETE_SECONDS_KEY :: string where "GCS_SOFT_DELETE_SECONDS_KEY = ''gcs_soft_delete_seconds''"
definition GCS_RETENTION_SECONDS_KEY :: string where "GCS_RETENTION_SECONDS_KEY = ''gcs_retention_seconds''"
definition AZURE_VERSIONING_KEY :: string where "AZURE_VERSIONING_KEY = ''azure_versioning_enabled''"
definition AZURE_SOFT_DELETE_DAYS_KEY :: string where "AZURE_SOFT_DELETE_DAYS_KEY = ''azure_soft_delete_days''"
definition S3_OBJECT_LOCK_MODE_KEY :: string where "S3_OBJECT_LOCK_MODE_KEY = ''s3_object_lock_mode''"
definition S3_OBJECT_LOCK_UNTIL_KEY :: string where "S3_OBJECT_LOCK_UNTIL_KEY = ''s3_object_lock_until''"
definition S3_OBJECT_LOCK_LEGAL_HOLD_KEY :: string where "S3_OBJECT_LOCK_LEGAL_HOLD_KEY = ''s3_object_lock_legal_hold''"
definition AZURE_IMMUTABILITY_UNTIL_KEY :: string where "AZURE_IMMUTABILITY_UNTIL_KEY = ''azure_immutability_until''"
definition AZURE_LEGAL_HOLD_KEY :: string where "AZURE_LEGAL_HOLD_KEY = ''azure_legal_hold''"
definition AZURE_IMMUTABILITY_MODE_KEY :: string where "AZURE_IMMUTABILITY_MODE_KEY = ''azure_immutability_mode''"
definition AZURE_LEASE_STATUS_KEY :: string where "AZURE_LEASE_STATUS_KEY = ''azure_lease_status''"

definition is_some_and :: "'a option \<Rightarrow> ('a \<Rightarrow> bool) \<Rightarrow> bool" where
  "is_some_and v P = (case v of Some a \<Rightarrow> P a | None \<Rightarrow> False)"

definition positive_duration_or_invalid :: "strmap \<Rightarrow> string \<Rightarrow> bool" where
  "positive_duration_or_invalid metadata key =
     is_some_and (metadata key) (\<lambda>value. case parse_u64 value of None \<Rightarrow> True | Some v \<Rightarrow> 0 < v)"

definition foreign_protection :: "strmap \<Rightarrow> bool" where
  "foreign_protection metadata \<longleftrightarrow>
     positive_duration_or_invalid metadata GCS_SOFT_DELETE_SECONDS_KEY
     \<or> positive_duration_or_invalid metadata GCS_RETENTION_SECONDS_KEY
     \<or> is_some_and (metadata AZURE_VERSIONING_KEY) (\<lambda>value. \<not> eq_ignore_ascii_case value ''false'')
     \<or> positive_duration_or_invalid metadata AZURE_SOFT_DELETE_DAYS_KEY"

definition foreign_provider_data_protection_active :: "string \<Rightarrow> bool io" where
  "foreign_provider_data_protection_active bucket =
     bind_io (get_bucket bucket) (\<lambda>b. return (foreign_protection (bucket_metadata b)))"

definition parse_lock_timestamp :: "externs \<Rightarrow> string \<Rightarrow> datetime option" where
  "parse_lock_timestamp x value =
     (case ext_parse_rfc3339 x value of Some t \<Rightarrow> Some t | None \<Rightarrow> ext_parse_rfc2822 x value)"

text \<open>A retention date that cannot be read counts as not yet reached.\<close>

definition retained_until :: "externs \<Rightarrow> strmap \<Rightarrow> string \<Rightarrow> datetime \<Rightarrow> bool" where
  "retained_until x metadata key now =
     is_some_and (metadata key) (\<lambda>value. case parse_lock_timestamp x value of None \<Rightarrow> True | Some until \<Rightarrow> now < until)"

definition object_has_active_azure_protection :: "externs \<Rightarrow> object \<Rightarrow> datetime \<Rightarrow> bool" where
  "object_has_active_azure_protection x ob now =
     (let pm = obj_provider_metadata ob;
          azure_legal_hold = is_some_and (pm AZURE_LEGAL_HOLD_KEY) (\<lambda>value. \<not> eq_ignore_ascii_case value ''false'');
          azure_retention = retained_until x pm AZURE_IMMUTABILITY_UNTIL_KEY now;
          incomplete_azure_retention = (pm AZURE_IMMUTABILITY_MODE_KEY \<noteq> None \<and> pm AZURE_IMMUTABILITY_UNTIL_KEY = None);
          azure_lease = is_some_and (pm AZURE_LEASE_STATUS_KEY) (\<lambda>status. status \<noteq> ''unlocked'')
      in azure_legal_hold \<or> azure_retention \<or> incomplete_azure_retention \<or> azure_lease)"

definition object_has_active_data_protection :: "externs \<Rightarrow> object \<Rightarrow> datetime \<Rightarrow> bool" where
  "object_has_active_data_protection x ob now =
     (let pm = obj_provider_metadata ob;
          s3_legal_hold = is_some_and (pm S3_OBJECT_LOCK_LEGAL_HOLD_KEY) (\<lambda>value. \<not> eq_ignore_ascii_case value ''OFF'');
          s3_retention = retained_until x pm S3_OBJECT_LOCK_UNTIL_KEY now;
          incomplete_s3_retention = (pm S3_OBJECT_LOCK_MODE_KEY \<noteq> None \<and> pm S3_OBJECT_LOCK_UNTIL_KEY = None)
      in s3_legal_hold \<or> s3_retention \<or> incomplete_s3_retention \<or> object_has_active_azure_protection x ob now)"

section \<open>Ages and dates\<close>

definition nanos_per_day :: int where
  "nanos_per_day = 86400 * 1000000000"

text \<open>\<^verbatim>\<open>TimeDelta::num_days\<close> truncates towards zero.\<close>

definition num_days :: "int \<Rightarrow> int" where
  "num_days d = (if 0 \<le> d then d div nanos_per_day else - ((- d) div nanos_per_day))"

definition date_reached :: "externs \<Rightarrow> string option \<Rightarrow> datetime \<Rightarrow> bool" where
  "date_reached x date now =
     is_some_and date (\<lambda>date_str. is_some_and (ext_parse_ymd x date_str) (\<lambda>expire_dt. expire_dt \<le> now))"

definition should_expire :: "externs \<Rightarrow> datetime \<Rightarrow> expiration \<Rightarrow> datetime \<Rightarrow> bool" where
  "should_expire x last_modified e now \<longleftrightarrow>
     is_some_and (exp_days e) (\<lambda>days. int days \<le> num_days (now - last_modified)) \<or> date_reached x (exp_date e) now"

definition should_expire_noncurrent_version :: "datetime \<Rightarrow> nat \<Rightarrow> datetime \<Rightarrow> bool" where
  "should_expire_noncurrent_version last_modified noncurrent_days_limit now \<longleftrightarrow>
     int noncurrent_days_limit \<le> num_days (now - last_modified)"

definition should_transition :: "externs \<Rightarrow> datetime \<Rightarrow> transition \<Rightarrow> datetime \<Rightarrow> bool" where
  "should_transition x last_modified t now \<longleftrightarrow>
     is_some_and (tr_days t) (\<lambda>days. int days \<le> num_days (now - last_modified)) \<or> date_reached x (tr_date t) now"

fun storage_class_to_str :: "storage_class \<Rightarrow> string" where
  "storage_class_to_str Standard = ''STANDARD''"
| "storage_class_to_str Glacier = ''GLACIER''"
| "storage_class_to_str DeepArchive = ''DEEP_ARCHIVE''"

definition rule_matches_filter :: "rule \<Rightarrow> string \<Rightarrow> strmap \<Rightarrow> bool" where
  "rule_matches_filter r key tags = (case rule_filter r of None \<Rightarrow> True | Some f \<Rightarrow> filter_matches f key tags)"

section \<open>The eager check of one object\<close>

text \<open>The loop over the rules: the first enabled rule that matches and has expired deletes the object.\<close>

fun expire_by_rules :: "externs \<Rightarrow> string \<Rightarrow> string \<Rightarrow> object \<Rightarrow> strmap \<Rightarrow> datetime \<Rightarrow> rule list \<Rightarrow> bool io" where
  "expire_by_rules x bucket key ob tags now [] = return False"
| "expire_by_rules x bucket key ob tags now (r # rs) =
     (if rule_status r \<noteq> Enabled then expire_by_rules x bucket key ob tags now rs
      else if \<not> rule_matches_filter r key tags then expire_by_rules x bucket key ob tags now rs
      else
        case rule_expiration r of
          None \<Rightarrow> expire_by_rules x bucket key ob tags now rs
        | Some e \<Rightarrow>
            if should_expire x (obj_last_modified ob) e now
            then then_io (delete_object bucket key) (return True)
            else expire_by_rules x bucket key ob tags now rs)"

definition check_object_expiration :: "string \<Rightarrow> string \<Rightarrow> bool io" where
  "check_object_expiration bucket key =
     bind_io (gets ext) (\<lambda>x.
     bind_io now_io (\<lambda>now.
     bind_io (try_io (get_bucket_lifecycle bucket)) (\<lambda>r.
     case r of
       Err e \<Rightarrow> if e = KeyNotFound then return False else throw e
     | Ok config \<Rightarrow>
         bind_io (foreign_provider_data_protection_active bucket) (\<lambda>foreign.
         if foreign then return False
         else
           bind_io (get_object_metadata bucket key) (\<lambda>ob.
           if object_has_active_data_protection x ob now then return False
           else
             bind_io (try_io (get_object_tags bucket key)) (\<lambda>t.
             let tags = (case t of Ok m \<Rightarrow> m | Err _ \<Rightarrow> Map.empty) in
             expire_by_rules x bucket key ob tags now (rules config)))))))"

section \<open>The periodic pass\<close>

definition object_tags :: "string \<Rightarrow> string \<Rightarrow> strmap io" where
  "object_tags bucket key =
     bind_io (try_io (get_object_tags bucket key)) (\<lambda>t. return (case t of Ok m \<Rightarrow> m | Err _ \<Rightarrow> Map.empty))"

definition current_version_id :: "string \<Rightarrow> string \<Rightarrow> string option io" where
  "current_version_id bucket key =
     bind_io (try_io (get_object bucket key)) (\<lambda>r. return (case r of Ok ob \<Rightarrow> obj_version_id ob | Err _ \<Rightarrow> None))"

definition apply_transition :: "string \<Rightarrow> rule \<Rightarrow> object \<Rightarrow> datetime \<Rightarrow> unit io" where
  "apply_transition bucket r ob now =
     bind_io (gets ext) (\<lambda>x.
     case find (\<lambda>t. should_transition x (obj_last_modified ob) t now) (rule_transitions r) of
       None \<Rightarrow> return ()
     | Some t \<Rightarrow>
         let class = storage_class_to_str (tr_storage_class t) in
         if obj_storage_class ob = class then return ()
         else ignore_errors (update_object_storage_class bucket (obj_key ob) class))"

definition apply_rule_to_object :: "string \<Rightarrow> rule \<Rightarrow> datetime \<Rightarrow> object \<Rightarrow> unit io" where
  "apply_rule_to_object bucket r now ob =
     bind_io (gets ext) (\<lambda>x.
     bind_io (object_tags bucket (obj_key ob)) (\<lambda>tags.
     if \<not> rule_matches_filter r (obj_key ob) tags then return ()
     else if is_some_and (rule_expiration r) (\<lambda>e. should_expire x (obj_last_modified ob) e now) then
       (if object_has_active_data_protection x ob now then return ()
        else ignore_errors (delete_object bucket (obj_key ob)))
     else apply_transition bucket r ob now))"

definition apply_current_object_rule :: "string \<Rightarrow> rule \<Rightarrow> datetime \<Rightarrow> unit io" where
  "apply_current_object_rule bucket r now =
     bind_io (list_objects bucket None None None None) (\<lambda>result.
     for_each (objects result) (apply_rule_to_object bucket r now))"

text \<open>The versions that match the filter, by key; the order of the keys is left open by the code.\<close>

definition filtered_versions_by_key :: "string \<Rightarrow> rule \<Rightarrow> (string \<times> object list) list io" where
  "filtered_versions_by_key bucket r =
     bind_io (list_object_versions bucket None) (\<lambda>versions.
     fold_io (\<lambda>groups version.
       bind_io (object_tags bucket (obj_key version)) (\<lambda>tags.
       return (if rule_matches_filter r (obj_key version) tags
               then AList.update (obj_key version)
                      ((case map_of groups (obj_key version) of Some vs \<Rightarrow> vs | None \<Rightarrow> []) @ [version]) groups
               else groups))) [] versions)"

definition expire_noncurrent_version ::
    "string \<Rightarrow> nat \<Rightarrow> datetime \<Rightarrow> string \<Rightarrow> string option \<Rightarrow> object \<Rightarrow> unit io" where
  "expire_noncurrent_version bucket days now key current_id version =
     bind_io (gets ext) (\<lambda>x.
     if current_id = obj_version_id version then return ()
     else if \<not> should_expire_noncurrent_version (obj_last_modified version) days now then return ()
     else if object_has_active_data_protection x version now then return ()
     else
       case obj_version_id version of
         Some version_id \<Rightarrow> ignore_errors (delete_object_version bucket key version_id)
       | None \<Rightarrow> return ())"

definition expire_noncurrent_versions ::
    "string \<Rightarrow> nat \<Rightarrow> datetime \<Rightarrow> string \<Rightarrow> string option \<Rightarrow> object list \<Rightarrow> unit io" where
  "expire_noncurrent_versions bucket days now key current_id versions =
     for_each versions (expire_noncurrent_version bucket days now key current_id)"

definition apply_noncurrent_version_rule :: "string \<Rightarrow> rule \<Rightarrow> datetime \<Rightarrow> unit io" where
  "apply_noncurrent_version_rule bucket r now =
     (case rule_noncurrent r of
        None \<Rightarrow> return ()
      | Some n \<Rightarrow>
          bind_io (filtered_versions_by_key bucket r) (\<lambda>groups.
          for_each groups (\<lambda>(key, versions).
            let versions = sort_key (\<lambda>v. (- obj_last_modified v, obj_version_id v)) versions in
            bind_io (current_version_id bucket key) (\<lambda>current_id.
            expire_noncurrent_versions bucket (noncurrent_days n) now key current_id versions))))"

definition apply_lifecycle_rules :: "string \<Rightarrow> lifecycle_configuration \<Rightarrow> datetime \<Rightarrow> unit io" where
  "apply_lifecycle_rules bucket config now =
     bind_io (foreign_provider_data_protection_active bucket) (\<lambda>foreign.
     if foreign then return ()
     else
       for_each (rules config) (\<lambda>r.
         if rule_status r \<noteq> Enabled then return ()
         else
           then_io (apply_current_object_rule bucket r now)
             (apply_noncurrent_version_rule bucket r now)))"

definition execute_lifecycle_rules :: "unit io" where
  "execute_lifecycle_rules =
     bind_io now_io (\<lambda>now.
     bind_io list_buckets (\<lambda>bs.
     for_each bs (\<lambda>b.
       bind_io (try_io (get_bucket_lifecycle (bucket_name b))) (\<lambda>r.
       case r of
         Ok config \<Rightarrow> apply_lifecycle_rules (bucket_name b) config now
       | Err _ \<Rightarrow> return ()))))"

section \<open>Reading the configuration\<close>

text \<open>The documents of a bucket as the rules see them.\<close>

definition bucket_documents :: "world \<Rightarrow> string \<Rightarrow> strmap \<Rightarrow> lifecycle_configuration \<Rightarrow> bool" where
  "bucket_documents s b md config \<longleftrightarrow>
     bucket_exists s b \<and>
     (\<exists>identity. file_content s (bucket_dir s b @ [''.bucket.identity.json'']) = Some (IdentityJson identity)) \<and>
     (if path_exists s (bucket_metadata_path s b) then file_content s (bucket_metadata_path s b) = Some (StrMapJson md)
      else md = Map.empty) \<and>
     file_content s (lifecycle_path s b) = Some (LifecycleJson config)"

lemma file_content_exists: "file_content s p = Some c \<Longrightarrow> path_exists s p"
  by (auto simp: file_content_def path_exists_def split: option.splits)

lemma get_bucket_lifecycle_run:
  "bucket_documents s b md config \<Longrightarrow> get_bucket_lifecycle b s = (Done config, s)"
  by (auto simp: bucket_documents_def get_bucket_lifecycle_def require_bucket_def bind_io_def gets_def guard_io_def return_def
      read_file_def file_content_exists)

lemma foreign_protection_run:
  assumes "bucket_documents s b md config"
  shows "foreign_provider_data_protection_active b s = (Done (foreign_protection md), s\<lparr>clock_count := clock_count s + 1\<rparr>)"
proof -
  let ?s1 = "s\<lparr>clock_count := clock_count s + 1\<rparr>"
  have "read_bucket_metadata b ?s1 = (Done md, ?s1)"
    using assms by (auto simp: bucket_documents_def read_bucket_metadata_def bucket_metadata_path_def bucket_dir_def bind_io_def gets_def
        return_def read_file_def file_content_def path_exists_def split: if_splits)
  with assms show ?thesis
    by (auto simp: bucket_documents_def foreign_provider_data_protection_active_def get_bucket_def require_bucket_def bind_io_def gets_def
        guard_io_def return_def read_bucket_identity_locked_def read_file_def file_content_exists now_io_def)
qed

section \<open>The eager check\<close>

definition expires :: "externs \<Rightarrow> string \<Rightarrow> object \<Rightarrow> strmap \<Rightarrow> datetime \<Rightarrow> rule \<Rightarrow> bool" where
  "expires x key ob tags now r \<longleftrightarrow>
     rule_status r = Enabled \<and> rule_matches_filter r key tags \<and>
     is_some_and (rule_expiration r) (\<lambda>e. should_expire x (obj_last_modified ob) e now)"

lemma expire_by_rules_eq:
  "expire_by_rules x b k ob tags now rs =
     (if list_ex (expires x k ob tags now) rs then then_io (delete_object b k) (return True) else return False)"
  by (induction rs) (auto simp: expires_def is_some_and_def split: option.splits)

lemma protection_serialize [simp]:
  "object_has_active_data_protection x (serialize_object ob) now = object_has_active_data_protection x ob now"
  by (simp add: object_has_active_data_protection_def object_has_active_azure_protection_def serialize_object_def)

text \<open>The verdict on a current object.\<close>

definition to_expire :: "externs \<Rightarrow> lifecycle_configuration \<Rightarrow> string \<Rightarrow> object \<Rightarrow> datetime \<Rightarrow> bool" where
  "to_expire x config key ob now \<longleftrightarrow>
     \<not> object_has_active_data_protection x ob now \<and> list_ex (expires x key ob (obj_tags ob) now) (rules config)"

lemma check_expiration_cases:
  assumes ok: "store_ok s" "faults s = []" and docs: "bucket_documents s b md config"
    and run: "check_object_expiration b k s = (r, s1)" and now: "now = ext_now (ext s) (clock_count s)"
  obtains (Foreign) "foreign_protection md" "r = Done False" "undisturbed s s1"
  | (Missing) "\<not> foreign_protection md" "current (object_state s b k) = None" "r = Failed KeyNotFound" "undisturbed s s1"
  | (Keep) ob where "\<not> foreign_protection md" "current (object_state s b k) = Some ob" "\<not> to_expire (ext s) config k ob now"
      "r = Done False" "undisturbed s s1"
  | (Expire) ob s2 where "\<not> foreign_protection md" "current (object_state s b k) = Some ob" "to_expire (ext s) config k ob now"
      "undisturbed s s2" "then_io (delete_object b k) (return True) s2 = (r, s1)"
proof -
  let ?t = "s\<lparr>clock_count := clock_count s + 1\<rparr>" and ?s0 = "s\<lparr>clock_count := clock_count s + 2\<rparr>"
  have docs': "bucket_documents ?t b md config"
    using docs by (simp add: bucket_documents_def bucket_exists_def path_exists_def file_content_def bucket_dir_def
        bucket_metadata_path_def lifecycle_path_def split: if_splits)
  have u0: "undisturbed s ?s0"
    using ok by (simp add: undisturbed_def same_objects_def control_same_def rest_same_def held_def file_content_def
        bucket_exists_def path_exists_def bucket_dir_def)
  note facts0 = undisturbed_facts [OF u0]
  have start: "check_object_expiration b k s =
    (if foreign_protection md then return False
     else bind_io (get_object_metadata b k) (\<lambda>ob.
       if object_has_active_data_protection (ext s) ob now then return False
       else bind_io (try_io (get_object_tags b k)) (\<lambda>t.
         expire_by_rules (ext s) b k ob (case t of Ok m \<Rightarrow> m | Err _ \<Rightarrow> Map.empty) now (rules config)))) ?s0"
    using get_bucket_lifecycle_run [OF docs'] foreign_protection_run [OF docs'] unfolding check_object_expiration_def Let_def now
    by (simp add: bind_io_def [of "gets ext"] bind_io_def [of now_io] bind_io_def [of "try_io (get_bucket_lifecycle b)"]
        bind_io_def [of "foreign_provider_data_protection_active b"] gets_def now_io_def try_io_def)
  show thesis
  proof (cases "foreign_protection md")
    case True
    then show ?thesis using Foreign start run u0 by (simp add: return_def)
  next
    case False
    obtain s2 where s2: "read_object_metadata_locked b k ?s0 =
        (read_outcome (map_option serialize_object (held ?s0 (object_dir ?s0 b k))), s2)" "undisturbed ?s0 s2"
      using read_metadata_spec [OF facts0(1,2)] .
    have held: "held ?s0 (object_dir ?s0 b k) = current (object_state s b k)"
      using facts0(4,5) by (simp add: object_state_def)
    have u2: "undisturbed s s2" using undisturbed_trans [OF u0 s2(2)] .
    note facts2 = undisturbed_facts [OF u2]
    show ?thesis
    proof (cases "current (object_state s b k)")
      case None
      then show ?thesis using Missing False start run u2 s2(1) held by (simp add: get_object_metadata_def bind_io_def)
    next
      case (Some ob)
      obtain s3 where s3: "read_object_metadata_locked b k s2 =
          (read_outcome (map_option serialize_object (held s2 (object_dir s2 b k))), s3)" "undisturbed s2 s3"
        using read_metadata_spec [OF facts2(1,2)] .
      have "held s2 (object_dir s2 b k) = Some ob" using facts2(4,5) Some by (simp add: object_state_def)
      then have tags: "try_io (get_object_tags b k) s2 = (Done (Ok (obj_tags ob)), s3)"
        using s3(1) by (simp add: try_io_def get_object_tags_def bind_io_def return_def serialize_object_def)
      have u3: "undisturbed s s3" using undisturbed_trans [OF u2 s3(2)] .
      have md: "get_object_metadata b k ?s0 = (Done (serialize_object ob), s2)"
        using s2(1) held Some by (simp add: get_object_metadata_def)
      have lm: "expires (ext s) k (serialize_object ob) t now = expires (ext s) k ob t now" for t
        by (simp add: fun_eq_iff expires_def serialize_object_def)
      show ?thesis
      proof (cases "object_has_active_data_protection (ext s) ob now")
        case True
        then show ?thesis using Keep False Some start run md u2 by (simp add: bind_io_def return_def to_expire_def)
      next
        case np: False
        have "(r, s1) = (if list_ex (expires (ext s) k ob (obj_tags ob) now) (rules config)
            then then_io (delete_object b k) (return True) else return False) s3"
          using start run False md np tags by (simp add: bind_io_def expire_by_rules_eq lm)
        then show ?thesis
          using Keep Expire [of ob s3] False Some np u3 by (auto simp: to_expire_def return_def split: if_splits)
      qed
    qed
  qed
qed

lemma delete_present:
  assumes "store_ok s" "faults s = []" "bucket_exists s b" "current (object_state s b k) \<noteq> None" "delete_object b k s = (r, s1)"
  shows "r = Done () \<and> store_ok s1 \<and> only_object s s1 b k InMemory \<and> current (object_state s1 b k) = None \<and>
    (\<exists>v now. Some (object_state s1 b k) = spec_delete (versioning s b) (delete_marker (ext s) k v now) (object_state s b k))"
proof (cases "versioning s b = Unversioned")
  case True
  from delete_unversioned [OF assms(1,2) True assms(5)] True assms(4) show ?thesis by (auto simp: no_object_def)
next
  case False
  from delete_versioned [OF assms(1,2) False assms(3,5)] show ?thesis
    using False by (cases "versioning s b") (auto simp: rewrite_state_def)
qed

section \<open>The pass over the current objects\<close>

text \<open>
  What one step of the pass may do: it stays in a sound store, works on one object only, and what it
  does to a protected object is at most a change of the storage class.
\<close>

definition same_but_class :: "object option \<Rightarrow> object option \<Rightarrow> bool" where
  "same_but_class a c \<longleftrightarrow> (case a of None \<Rightarrow> True | Some ob \<Rightarrow> \<exists>class. c = Some (ob\<lparr>obj_storage_class := class\<rparr>))"

definition tame :: "string \<Rightarrow> string \<Rightarrow> bool \<Rightarrow> world \<Rightarrow> world \<Rightarrow> bool" where
  "tame b k safe s s1 \<longleftrightarrow>
     store_ok s1 \<and> faults s1 = [] \<and> bucket_exists s1 b \<and> ext s1 = ext s \<and> base_path s1 = base_path s \<and>
     (\<forall>b' k'. object_dir s b' k' \<noteq> object_dir s b k \<longrightarrow> object_state s1 b' k' = object_state s b' k') \<and>
     (safe \<longrightarrow> same_but_class (current (object_state s b k)) (current (object_state s1 b k)))"

lemma same_but_class_refl [simp]: "same_but_class a a"
proof (cases a)
  case (Some ob)
  have "\<exists>c. ob = ob\<lparr>obj_storage_class := c\<rparr>" by (rule exI [of _ "obj_storage_class ob"]) simp
  with Some show ?thesis by (simp add: same_but_class_def)
qed (simp add: same_but_class_def)

lemma same_but_class_trans: "same_but_class a c \<Longrightarrow> same_but_class c d \<Longrightarrow> same_but_class a d"
  by (cases a) (auto simp: same_but_class_def)

lemma tame_undisturbed: "undisturbed s s1 \<Longrightarrow> bucket_exists s b \<Longrightarrow> tame b k p s s1"
  using undisturbed_facts [of s s1] object_state_undisturbed by (auto simp: tame_def rest_same_def)

lemma object_dir_tame: "tame b k p s s1 \<Longrightarrow> object_dir s1 b' k' = object_dir s b' k'"
  by (simp add: tame_def object_dir_bucket bucket_dir_def)

lemma tame_trans:
  assumes "tame b k p s s1" "tame b k p s1 s2"
  shows "tame b k p s s2"
  using assms object_dir_tame [OF assms(1)] same_but_class_trans by (auto simp: tame_def)

lemma delete_tame:
  assumes "store_ok s" "faults s = []" "bucket_exists s b"
  shows "\<exists>s1. ignore_errors (delete_object b k) s = (Done (), s1) \<and> tame b k False s s1"
proof -
  obtain r s1 where run: "delete_object b k s = (r, s1)" by force
  consider "r = Failed KeyNotFound" "undisturbed s s1" | "r = Done ()" "store_ok s1" "faults s1 = []" "only_object s s1 b k InMemory"
  proof (cases "versioning s b = Unversioned")
    case True
    from delete_unversioned [OF assms(1,2) True run] show ?thesis using that by (auto split: if_splits)
  next
    case False
    from delete_versioned [OF assms(1,2) False assms(3) run] show ?thesis using that by blast
  qed
  then show ?thesis
  proof cases
    case 1
    then show ?thesis using run tame_undisturbed assms(3) by (simp add: ignore_errors_def bind_io_def try_io_def return_def)
  next
    case 2
    then have "tame b k False s s1" using only_object_others [OF 2(4)] assms(3) by (simp add: tame_def only_object_def)
    with 2 run show ?thesis by (simp add: ignore_errors_def bind_io_def try_io_def return_def)
  qed
qed

lemma transition_tame:
  assumes ok: "store_ok s" "faults s = []" and b: "bucket_exists s b"
  shows "\<exists>s1. ignore_errors (update_object_storage_class b k class) s = (Done (), s1) \<and> tame b k p s s1"
proof -
  obtain r s1 where run: "update_object_storage_class b k class s = (r, s1)" by force
  have size: "obj_size ((obj_storage_class_update (\<lambda>_. class)) m) = obj_size m" for m :: object by simp
  note M = modify_spec [OF ok size run [unfolded update_object_storage_class_def]]
  show ?thesis
  proof (cases "current (object_state s b k)")
    case None
    with M run b show ?thesis using tame_undisturbed by (auto simp: ignore_errors_def bind_io_def try_io_def return_def)
  next
    case (Some ob)
    with M have m: "r = Done ()" "store_ok s1" "control_same s s1 InMemory" "others_same s s1 (object_dir s b k)"
      "current (object_state s1 b k) = Some (ob\<lparr>obj_storage_class := class\<rparr>)"
      by (auto simp: serialize_object_def)
    have o: "only_object s s1 b k InMemory" using only_object_control [OF m(3,4)] .
    then have "tame b k p s s1"
      using only_object_others [OF o] m b Some by (auto simp: tame_def only_object_def control_same_def same_but_class_def)
    with m(1) run show ?thesis by (simp add: ignore_errors_def bind_io_def try_io_def return_def)
  qed
qed

lemma object_tags_run:
  assumes "store_ok s" "faults s = []"
  obtains t s1 where "object_tags b k s = (Done t, s1)" "undisturbed s s1"
proof -
  obtain s1 where "read_object_metadata_locked b k s = (read_outcome (map_option serialize_object (held s (object_dir s b k))), s1)"
    and u: "undisturbed s s1" using read_metadata_spec [OF assms] .
  then show ?thesis
    using that by (cases "held s (object_dir s b k)")
      (auto simp: object_tags_def get_object_tags_def bind_io_def try_io_def return_def)
qed

lemma apply_rule_tame:
  assumes ok: "store_ok s" "faults s = []" and b: "bucket_exists s b"
  shows "\<exists>s1. apply_rule_to_object b r now ob s = (Done (), s1) \<and>
    tame b (obj_key ob) (object_has_active_data_protection (ext s) ob now) s s1"
proof -
  let ?p = "object_has_active_data_protection (ext s) ob now"
  obtain t s1 where tags: "object_tags b (obj_key ob) s = (Done t, s1)" and u: "undisturbed s s1"
    using object_tags_run [OF ok] .
  note f = undisturbed_facts [OF u]
  have t1: "tame b (obj_key ob) p s s1" for p using tame_undisturbed [OF u b] .
  have b1: "bucket_exists s1 b" using f(7) b by blast
  have done1: "\<exists>s2. return () s1 = (Done (), s2) \<and> tame b (obj_key ob) ?p s s2" using t1 by (simp add: return_def)
  have up: "\<exists>s2. ignore_errors (update_object_storage_class b (obj_key ob) cls) s1 = (Done (), s2) \<and> tame b (obj_key ob) ?p s s2"
    for cls using transition_tame [OF f(1,2) b1, of "obj_key ob" cls ?p] tame_trans [OF t1] by metis
  have trans: "\<exists>s2. apply_transition b r ob now s1 = (Done (), s2) \<and> tame b (obj_key ob) ?p s s2"
    using up done1 by (simp add: apply_transition_def bind_io_def gets_def Let_def split: option.split)
  have del: "\<exists>s2. ignore_errors (delete_object b (obj_key ob)) s1 = (Done (), s2) \<and> tame b (obj_key ob) ?p s s2" if "\<not> ?p"
    using delete_tame [OF f(1,2) b1, of "obj_key ob"] tame_trans [OF t1 [of False]] that by simp metis
  show ?thesis
    using tags done1 trans del by (auto simp: apply_rule_to_object_def bind_io_def gets_def)
qed

lemma sweep_protects:
  assumes "store_ok s" "faults s = []" "bucket_exists s b"
    and "\<forall>ob \<in> set obs. object_dir s b (obj_key ob) = object_dir s b k \<longrightarrow> object_has_active_data_protection (ext s) ob now"
  shows "\<exists>s1. for_each obs (apply_rule_to_object b r now) s = (Done (), s1) \<and> store_ok s1 \<and>
    same_but_class (current (object_state s b k)) (current (object_state s1 b k))"
  using assms
proof (induction obs arbitrary: s)
  case Nil
  then show ?case by (simp add: return_def)
next
  case (Cons ob obs)
  obtain s1 where step: "apply_rule_to_object b r now ob s = (Done (), s1)"
    and t: "tame b (obj_key ob) (object_has_active_data_protection (ext s) ob now) s s1"
    using apply_rule_tame [OF Cons.prems(1-3)] by blast
  note dirs = object_dir_tame [OF t]
  have s1: "store_ok s1" "faults s1 = []" "bucket_exists s1 b" "ext s1 = ext s" using t by (auto simp: tame_def)
  have here: "same_but_class (current (object_state s b k)) (current (object_state s1 b k))"
  proof (cases "object_dir s b (obj_key ob) = object_dir s b k")
    case True
    then have "object_state s' b (obj_key ob) = object_state s' b k" if "object_dir s' b (obj_key ob) = object_dir s' b k" for s'
      using that by (simp add: object_state_def)
    with True Cons.prems(4) t dirs show ?thesis by (auto simp: tame_def)
  next
    case False
    with t have "object_state s1 b k = object_state s b k" by (auto simp: tame_def)
    then show ?thesis by simp
  qed
  obtain s2 where "for_each obs (apply_rule_to_object b r now) s1 = (Done (), s2)" "store_ok s2"
    "same_but_class (current (object_state s1 b k)) (current (object_state s2 b k))"
    using Cons.IH [OF s1(1-3)] Cons.prems(4) dirs s1(4) by auto
  with step here show ?case using same_but_class_trans by (fastforce simp: bind_io_def)
qed

section \<open>Properties\<close>

text \<open>
  The eager expiration check deletes an object exactly when the bucket has no active protection of
  another provider, the object is under no hold, retention or lease, and an enabled rule whose filter
  matches the key and tags has expired it; then the object is deleted under the versioning rules of the
  bucket and the answer is true. Otherwise the answer is false (or the error of a missing object)
  and no object changes.
\<close>

theorem check_object_expiration_spec:
  assumes "store_ok s" "faults s = []" and "bucket_documents s b md config"
    and "check_object_expiration b k s = (r, s1)" and "now = ext_now (ext s) (clock_count s)"
  shows "case current (object_state s b k) of
      None \<Rightarrow> r = (if foreign_protection md then Done False else Failed KeyNotFound) \<and> undisturbed s s1
    | Some ob \<Rightarrow>
        if foreign_protection md \<or> \<not> to_expire (ext s) config k ob now then r = Done False \<and> undisturbed s s1
        else r = Done True \<and> store_ok s1 \<and> current (object_state s1 b k) = None \<and>
          (\<exists>v now. Some (object_state s1 b k) = spec_delete (versioning s b) (delete_marker (ext s) k v now) (object_state s b k)) \<and>
          (\<forall>b' k'. object_dir s b' k' \<noteq> object_dir s b k \<longrightarrow> object_state s1 b' k' = object_state s b' k')"
  using assms
proof (cases rule: check_expiration_cases)
  case (Expire ob s2)
  note u = undisturbed_facts [OF Expire(4)]
  obtain r2 s3 where del: "delete_object b k s2 = (r2, s3)" by force
  have b: "bucket_exists s b" using assms(3) by (simp add: bucket_documents_def)
  have st: "object_state s2 b' k' = object_state s b' k'" for b' k' using u(4-6) by (simp add: object_state_def)
  have ver: "versioning s2 b = versioning s b" "ext s2 = ext s"
    using undisturbed_versioning [OF Expire(4)] u(3) by (simp_all add: rest_same_def)
  have present: "current (object_state s2 b k) \<noteq> None" using Expire(2) st by simp
  note D = delete_present [OF u(1,2) u(7) [OF b] present del]
  then have "r = Done True" "s1 = s3" using Expire(5) del by (simp_all add: bind_io_def return_def)
  moreover have "object_state s3 b' k' = object_state s b' k'" if "object_dir s b' k' \<noteq> object_dir s b k" for b' k'
    using only_object_others [of s2 s3 b k InMemory b' k'] D that u(4) st by simp
  ultimately show ?thesis using D Expire st ver by simp
qed (auto split: option.split)




text \<open>A bucket with one object and a rule that expires everything at once.\<close>

definition expire_all :: rule where
  "expire_all = \<lparr>rule_id = None, rule_status = Enabled, rule_filter = None,
     rule_expiration = Some \<lparr>exp_days = Some 0, exp_date = None, exp_delete_marker = None\<rparr>, rule_noncurrent = None, rule_transitions = []\<rparr>"

abbreviation expiring_bucket :: world where
  "expiring_bucket \<equiv> sample_bucket [(''bucket.identity.json'', IdentityJson \<lparr>id_created_at = 0, id_modified_at = 0\<rparr>),
     (''lifecycle.json'', LifecycleJson \<lparr>rules = [expire_all]\<rparr>)]"

lemma expiring_object:
  fixes ob :: object
  assumes "obj_size ob = length (obj_data ob)"
  obtains s v where "listable s ''xyz''" "lfi_keys (st_index s) ''xyz'' = {''k''}" "ext s = sample_externs"
    "bucket_documents s ''xyz'' Map.empty \<lparr>rules = [expire_all]\<rparr>" "current (object_state s ''xyz'' ''k'') = Some (ob\<lparr>obj_version_id := v\<rparr>)"
proof -
  obtain r s where run: "put_object ''xyz'' ''k'' ob expiring_bucket = (r, s)" by force
  note P = put_object_done [OF sample_bucket_ok sample_bucket_fields(1) sample_bucket_exists assms run]
  obtain v where v: "current (object_state s ''xyz'' ''k'') = Some (ob\<lparr>obj_version_id := v\<rparr>)"
    using P spec_put_current [of _ _ ob] by metis
  have ix: "st_index s = index_run [OpInsert ''xyz'' ''k'']" using P by (simp add: index_run_def sample_bucket_def)
  then have inv: "lfi_inv (st_index s)" and keys: "lfi_keys (st_index s) ''xyz'' = {''k''}"
    using index_run_inv [of "[OpInsert ''xyz'' ''k'']"] by (simp_all add: keys_run_def)
  have ok: "store_ok s" "faults s = []" "bucket_exists s ''xyz''" "ext s = sample_externs" "base_path s = []"
    using P by (auto simp: only_object_def)
  have same: "fs_get s (bucket_dir expiring_bucket ''xyz'' @ [''.'' @ m]) = fs_get expiring_bucket (bucket_dir expiring_bucket ''xyz'' @ [''.'' @ m])" for m
    using P control_outside [of expiring_bucket _ _ "''xyz''" m] by (simp add: only_object_def)
  have dir: "bucket_dir s ''xyz'' = bucket_dir expiring_bucket ''xyz''" using ok by (simp add: bucket_dir_def)
  have "bucket_documents s ''xyz'' Map.empty \<lparr>rules = [expire_all]\<rparr>"
    using ok(3) same [of "''bucket.identity.json''"] same [of "''lifecycle.json''"] same [of "''bucket.meta.json''"]
    by (simp add: bucket_documents_def dir bucket_metadata_path_def lifecycle_path_def file_content_def path_exists_def)
      (simp add: fs_get_def sample_bucket_def bucket_dir_def sample_externs_def)
  moreover have "listable s ''xyz''" using ok inv keys v by (simp add: listable_def)
  ultimately show ?thesis using that keys v ok(4) by blast
qed

theorem check_object_expiration_spec_witness:
  "\<exists>s s1. current (object_state s ''xyz'' ''k'') \<noteq> None \<and> check_object_expiration ''xyz'' ''k'' s = (Done True, s1) \<and>
     current (object_state s1 ''xyz'' ''k'') = None"
proof -
  obtain s v where s: "listable s ''xyz''" "ext s = sample_externs" "bucket_documents s ''xyz'' Map.empty \<lparr>rules = [expire_all]\<rparr>"
    "current (object_state s ''xyz'' ''k'') = Some (sample_object [1] None\<lparr>obj_version_id := v\<rparr>)"
    using expiring_object [of "sample_object [1] None"] by (metis sample_object_simps(1,2))
  obtain r s1 where run: "check_object_expiration ''xyz'' ''k'' s = (r, s1)" by force
  have verdict: "to_expire sample_externs \<lparr>rules = [expire_all]\<rparr> ''k'' (sample_object [1] None\<lparr>obj_version_id := v\<rparr>) (int n)" for n
    by (simp add: to_expire_def expires_def expire_all_def rule_matches_filter_def is_some_and_def should_expire_def num_days_def
        nanos_per_day_def pos_imp_zdiv_nonneg_iff sample_object_def object_has_active_data_protection_def object_has_active_azure_protection_def retained_until_def)
  have "\<not> foreign_protection Map.empty" by (simp add: foreign_protection_def is_some_and_def positive_duration_or_invalid_def)
  with check_object_expiration_spec [OF _ _ s(3) run refl] s verdict have "r = Done True" "current (object_state s1 ''xyz'' ''k'') = None"
    by (simp_all add: listable_def sample_externs_def)
  with run s(4) show ?thesis by blast
qed


end
