(* ===== verification/Opening.thy ===== *)
theory Opening
  imports Store_Config
begin

text \<open>
  Opening a storage root (\<^verbatim>\<open>src/src/storage/filesystem/io.rs\<close>): the format marker, recovery of
  publications and of half-created buckets, the reconstruction of the key index from the metadata on
  disk, and the retirement of cancelled uploads. The fields of \<^verbatim>\<open>FilesystemStorage\<close> are set only when
  everything succeeds.
\<close>

definition FORMAT_MARKER :: string where "FORMAT_MARKER = ''.sqrzl-storage-format-v2''"
definition WRITER_LOCK_FILE :: string where "WRITER_LOCK_FILE = ''.sqrzl-writer.lock''"
definition GCS_XML_CANCELLATION_STATE :: string where "GCS_XML_CANCELLATION_STATE = ''gcs-resumable-cancelled-v1''"
definition GCS_ACTIVE_SESSION_STATE :: string where "GCS_ACTIVE_SESSION_STATE = ''gcs-resumable-session-v2''"

definition purge_obsolete_vendor_upload_state :: "path \<Rightarrow> unit io" where
  "purge_obsolete_vendor_upload_state base =
     for_each [''azure-block-session'', ''azure-committed-blocks'', ''gcs-resumable-session''] (\<lambda>provider.
       bind_io (gets (\<lambda>s. path_exists s (base @ [''.provider-state'', provider]))) (\<lambda>there.
       when_io there
         (remove_dir_all (base @ [''.provider-state'', provider]) ''Failed to remove obsolete vendor upload state'')))"

definition is_hex_lower :: "char \<Rightarrow> bool" where
  "is_hex_lower c \<longleftrightarrow> is_digit c \<or> (97 \<le> (of_char c :: nat) \<and> (of_char c :: nat) \<le> 102)"

definition is_bucket_name_temp :: "externs \<Rightarrow> string \<Rightarrow> bool" where
  "is_bucket_name_temp x name =
     (case strip_prefix ''..bucket.name.'' name of
        None \<Rightarrow> False
      | Some rest \<Rightarrow>
         (case strip_suffix ''.tmp'' rest of
            None \<Rightarrow> False
          | Some sfx \<Rightarrow> ext_is_uuid x sfx))"

text \<open>Whether the directory was a bucket whose creation had not been decided; then it is removed.\<close>

definition recover_uncommitted_bucket :: "path \<Rightarrow> bool io" where
  "recover_uncommitted_bucket directory =
     (case strip_prefix ''b-'' (if directory = [] then [] else last directory) of
        None \<Rightarrow> return False
      | Some digest \<Rightarrow>
         if length digest \<noteq> 64 \<or> \<not> list_all is_hex_lower digest then return False
         else
           bind_io (read_dir directory ''Failed to recover uncommitted bucket'') (\<lambda>names.
           bind_io (gets (\<lambda>s. list_all (\<lambda>n. is_file s (directory @ [n]) \<and> is_bucket_name_temp (ext s) n) names)) (\<lambda>temporary.
           if \<not> temporary then return False
           else
             then_io (for_each names (\<lambda>n. remove_file (directory @ [n]) ''Failed to recover uncommitted bucket''))
             (then_io (remove_dir directory ''Failed to recover uncommitted bucket'')
             (then_io (sync_directory (parent directory)) (return True))))))"

text \<open>One object directory: the index with its key, and whether protection metadata was seen.\<close>

definition rebuild_object ::
    "string \<Rightarrow> path \<Rightarrow> lock_free_index \<times> bool \<Rightarrow> string \<Rightarrow> (lock_free_index \<times> bool) io" where
  "rebuild_object bucket directory acc name =
     bind_io (gets (\<lambda>s. is_dir s (directory @ [name]))) (\<lambda>d.
     if \<not> d \<or> prefix ''.'' name then return acc
     else
       bind_io (gets (\<lambda>s. path_exists s (directory @ [name, BLOB]))) (\<lambda>has_payload.
       bind_io (gets (\<lambda>s. path_exists s (directory @ [name, META]))) (\<lambda>has_meta.
       if \<not> has_payload \<and> \<not> has_meta then return acc
       else if \<not> has_payload then throw (InternalError ''Current object metadata has no payload'')
       else
         bind_io (read_object_metadata (directory @ [name, META])) (\<lambda>ob.
         bind_io (gets ext) (\<lambda>x.
         if name \<noteq> compute_object_id x bucket (obj_key ob)
         then throw (InternalError ''Current object metadata has an invalid key identity'')
         else return (index_insert (fst acc) bucket (obj_key ob),
                      snd acc \<or> object_has_azure_protection_metadata ob))))))"

definition rebuild_bucket_index :: "lock_free_index \<Rightarrow> string \<Rightarrow> path \<Rightarrow> (lock_free_index \<times> bool) io" where
  "rebuild_bucket_index ix bucket directory =
     bind_io (read_dir directory ''Failed to rebuild bucket metadata index'') (\<lambda>names.
     fold_io (rebuild_object bucket directory) (ix, False) names)"

definition rebuild_bucket ::
    "path \<Rightarrow> lock_free_index \<times> (string \<rightharpoonup> bool) \<Rightarrow> string \<Rightarrow> (lock_free_index \<times> (string \<rightharpoonup> bool)) io" where
  "rebuild_bucket base acc name =
     bind_io (gets (\<lambda>s. is_dir s (base @ [name]))) (\<lambda>d.
     if \<not> d \<or> prefix ''.'' name then return acc
     else
       bind_io (gets (\<lambda>s. path_exists s (base @ [name, ''.bucket.name'']))) (\<lambda>named.
       if \<not> named then
         (if \<not> prefix ''b-'' name then return acc
          else
            bind_io (recover_uncommitted_bucket (base @ [name])) (\<lambda>recovered.
            if recovered then return acc
            else throw (InternalError ''Failed to rebuild storage metadata index'')))
       else
         bind_io (read_bytes (base @ [name, ''.bucket.name'']) ''Failed to rebuild storage metadata index'') (\<lambda>b.
         let bucket = bytes_text b in
         bind_io (gets ext) (\<lambda>x.
         if name \<noteq> ''b-'' @ ext_sha256_hex x bucket
         then throw (InternalError ''Bucket metadata has an invalid namespace identity'')
         else
           bind_io (rebuild_bucket_index (get_or_create_bucket (fst acc) bucket) bucket (base @ [name])) (\<lambda>(ix, possible).
           return (ix, (snd acc)(bucket \<mapsto> possible)))))))"

section \<open>Cancelled uploads\<close>

definition recover_gcs_cancellation :: "path \<Rightarrow> string \<Rightarrow> unit io" where
  "recover_gcs_cancellation directory name =
     when_io (suffix ''.json'' name \<and> name \<noteq> ''.json'')
       (bind_io (read_bytes (directory @ [name]) ''read'') (\<lambda>b.
        bind_io (gets (\<lambda>s. ext_json_cancellation (ext s) b)) (\<lambda>parsed.
        bind_io (of_result (ok_or (InternalError ''Invalid upload cancellation decision'') parsed)) (\<lambda>decision.
        bind_io (gets (\<lambda>s. provider_state_path s GCS_XML_CANCELLATION_STATE (uc_session_id decision))) (\<lambda>expected.
        then_io (guard_io (directory @ [name] = expected)
                  (InternalError ''Upload cancellation decision has an invalid session identity''))
        (then_io (delete_provider_state GCS_ACTIVE_SESSION_STATE (uc_session_id decision))
        (then_io (delete_upload_session ''gcs'' (uc_session_id decision))
        (bind_io (try_io (get_bucket (uc_bucket decision))) (\<lambda>r.
         bind_io (case r of
                    Ok b \<Rightarrow> return (Some b)
                  | Err e \<Rightarrow> if e = BucketNotFound then return None else throw e) (\<lambda>current.
         bind_io now_io (\<lambda>now.
         when_io (uc_expires_at decision \<le> now \<or>
                  (case current of None \<Rightarrow> True | Some b \<Rightarrow> created_at b \<noteq> uc_bucket_created_at decision))
           (delete_provider_state GCS_XML_CANCELLATION_STATE (uc_session_id decision)))))))))))))"

definition recover_gcs_cancellations :: "unit io" where
  "recover_gcs_cancellations =
     bind_io (gets (\<lambda>s. base_path s @ [''.provider-state'', GCS_XML_CANCELLATION_STATE])) (\<lambda>directory.
     bind_io (gets (\<lambda>s. path_exists s directory)) (\<lambda>there.
     when_io there
       (bind_io (read_dir directory ''read_dir'') (\<lambda>names.
        for_each names (recover_gcs_cancellation directory)))))"

section \<open>Opening\<close>

definition try_new :: "path \<Rightarrow> unit io" where
  "try_new base =
     then_io (create_directory_durable base)
     (then_io (recover_publications base)
     (bind_io (read_dir base ''Failed to rebuild storage metadata index'') (\<lambda>names.
      bind_io (fold_io (rebuild_bucket base) (index_new, Map.empty) names) (\<lambda>(ix, protection).
      then_io (modify (\<lambda>s. s\<lparr>base_path := base, st_index := ix, uploads_cache := Map.empty,
                               azure_protection_possible := protection\<rparr>))
        recover_gcs_cancellations))))"

definition open_storage :: "path \<Rightarrow> unit io" where
  "open_storage base =
     then_io (create_directory_durable base)
     (bind_io (gets (\<lambda>s. path_exists s (base @ [FORMAT_MARKER]))) (\<lambda>marked.
      then_io
        (when_io (\<not> marked)
          (bind_io (read_dir base ''Failed to inspect storage root'') (\<lambda>names.
           then_io (guard_io (\<not> list_ex (\<lambda>n. n \<noteq> WRITER_LOCK_FILE) names)
                     (InvalidRequest ''Legacy nonempty storage detected''))
             (map_error (\<lambda>_. InternalError ''Failed to write storage format marker'')
               (atomic_write (base @ [FORMAT_MARKER]) (Bytes (text_bytes ''2'' @ [10])))))))
        (then_io (purge_obsolete_vendor_upload_state base) (try_new base))))"

end
