(* ===== verification/Capture.thy ===== *)
theory Capture
  imports Fs_Logic
begin

text \<open>
  Durable publication of captured messages and replay records (\<^verbatim>\<open>src/src/capture.rs\<close>) and the
  admission limit of captures (\<^verbatim>\<open>src/src/capture/budget.rs\<close>).

  A capture writes an intent that names its destinations, publishes every destination by a rename,
  and then one commit marker. Readers look at the marker only, and opening a store removes the
  files of transactions that have none. Relative paths are the component lists that
  \<^verbatim>\<open>Path::components\<close> yields. The first half of the intent that is written before the rest is \<open>Torn\<close>.
  The test hooks are left out.
\<close>

section \<open>Names\<close>

definition TRANSACTION_METADATA :: string where "TRANSACTION_METADATA = ''__sqrzl_capture_transaction''"
definition TRANSACTIONS :: string where "TRANSACTIONS = ''.capture-transactions''"
definition RECORDS :: string where "RECORDS = ''.repeatability''"

definition capture_io_error :: string where "capture_io_error = ''I/O error''"

definition new_transaction_id :: "string io" where
  "new_transaction_id = new_uuid"

definition record_path :: "externs \<Rightarrow> path \<Rightarrow> string \<Rightarrow> path" where
  "record_path x root key = root @ [RECORDS, ext_sha256_hex x key @ ''.json'']"

definition record_file :: "externs \<Rightarrow> path \<Rightarrow> repeatability_record \<Rightarrow> path \<times> content" where
  "record_file x root rr = (record_path x root (rr_key rr), RecordJson rr)"

definition pending_path :: "path \<Rightarrow> string \<Rightarrow> path" where
  "pending_path p tid = (if p = [] then [''.pending-'' @ tid] else parent p @ [last p @ ''.pending-'' @ tid])"

text \<open>The components that are \<^verbatim>\<open>Component::Normal\<close>.\<close>

definition normal_component :: "string \<Rightarrow> bool" where
  "normal_component n \<longleftrightarrow> n \<noteq> [] \<and> n \<noteq> ''.'' \<and> n \<noteq> ''..'' \<and> n \<noteq> ''/''"

definition validate_relative :: "path \<Rightarrow> unit res" where
  "validate_relative p =
     (if p = [] \<or> \<not> list_all normal_component p then Err (InvalidRequest ''invalid capture journal path'') else Ok ())"

section \<open>Reading\<close>

definition transaction_committed :: "world \<Rightarrow> path \<Rightarrow> string \<Rightarrow> bool" where
  "transaction_committed s root tid \<longleftrightarrow> is_file s (root @ [TRANSACTIONS, tid, ''committed''])"

definition is_committed :: "world \<Rightarrow> path \<Rightarrow> string \<Rightarrow> bool" where
  "is_committed s root tid \<longleftrightarrow> tid = [] \<or> (ext_is_uuid (ext s) tid \<and> transaction_committed s root tid)"

definition load_record :: "path \<Rightarrow> string \<Rightarrow> repeatability_record option io" where
  "load_record root key =
     bind_io (gets (\<lambda>s. record_path (ext s) root key)) (\<lambda>p.
     bind_io (gets (\<lambda>s. fs_get s p)) (\<lambda>n.
     case n of
       None \<Rightarrow> return None
     | Some Dir \<Rightarrow> throw (InternalError capture_io_error)
     | Some (File (RecordJson rr)) \<Rightarrow>
         if rr_key rr \<noteq> key then throw (InternalError ''repeatability storage key collision'')
         else gets (\<lambda>s. if is_committed s root (rr_transaction_id rr) then Some rr else None)
     | Some (File _) \<Rightarrow> throw (InternalError ''serialization'')))"

definition committed_snapshot :: "path \<Rightarrow> string list io" where
  "committed_snapshot root =
     bind_io (gets (\<lambda>s. fs_get s (root @ [TRANSACTIONS]))) (\<lambda>n.
     case n of
       None \<Rightarrow> return []
     | Some Dir \<Rightarrow>
         gets (\<lambda>s. filter (transaction_committed s root) (dir_entries s (root @ [TRANSACTIONS])))
     | Some (File _) \<Rightarrow> throw (InternalError capture_io_error))"

section \<open>Writing\<close>

definition remove_if_present :: "path \<Rightarrow> unit io" where
  "remove_if_present p =
     syscall (\<lambda>s. case fs_get s p of
                    None \<Rightarrow> Some s
                  | Some (File _) \<Rightarrow> Some (fs_delete (\<lambda>q. q = p) s)
                  | Some Dir \<Rightarrow> None)
       untouched capture_io_error"

text \<open>\<^verbatim>\<open>OpenOptions::new().write(true).create_new(true).open(_)\<close>\<close>

definition create_new_file :: "path \<Rightarrow> string \<Rightarrow> unit io" where
  "create_new_file p msg =
     syscall (\<lambda>s. if p \<noteq> [] \<and> is_dir s (parent p) \<and> \<not> path_exists s p then Some (fs_put p (File (Bytes [])) s) else None)
       untouched msg"

definition write_new_synced :: "path \<Rightarrow> content \<Rightarrow> unit io" where
  "write_new_synced p data =
     then_io (create_new_file p capture_io_error)
     (then_io (write_all p data capture_io_error)
       (sync_path p capture_io_error))"

definition recover_transaction :: "path \<Rightarrow> string \<Rightarrow> unit io" where
  "recover_transaction root entry =
     bind_io (gets (\<lambda>s. \<not> is_dir s (root @ [TRANSACTIONS, entry]) \<or> transaction_committed s root entry)) (\<lambda>skip.
     if skip then return ()
     else
       bind_io (gets (\<lambda>s. is_file s (root @ [TRANSACTIONS, entry, ''intent.json'']))) (\<lambda>there.
       then_io
         (when_io there
            (bind_io (read_file (root @ [TRANSACTIONS, entry, ''intent.json'']) capture_io_error) (\<lambda>c.
             case c of
               IntentJson paths \<Rightarrow>
                 for_each paths (\<lambda>p. then_io (of_result (validate_relative p)) (remove_if_present (root @ p)))
             | _ \<Rightarrow> throw (InternalError ''serialization''))))
         (remove_dir_all (root @ [TRANSACTIONS, entry]) capture_io_error)))"

definition recover :: "path \<Rightarrow> unit io" where
  "recover root =
     then_io (create_dir_all (root @ [TRANSACTIONS]) capture_io_error)
     (bind_io (read_dir (root @ [TRANSACTIONS]) capture_io_error) (\<lambda>entries.
      then_io (for_each entries (recover_transaction root))
        (sync_path (root @ [TRANSACTIONS]) capture_io_error)))"

text \<open>The checks of the destinations, collecting the paths of the intent.\<close>

fun check_destinations ::
    "path \<Rightarrow> string \<Rightarrow> path list \<Rightarrow> (path \<times> content) list \<Rightarrow> path list \<Rightarrow> path list io" where
  "check_destinations root tid seen [] acc = return acc"
| "check_destinations root tid seen ((p, _) # rest) acc =
     (if \<not> prefix root p then throw (InvalidRequest ''capture path escapes store'')
      else
        let relative = drop (length root) p in
        then_io (of_result (validate_relative relative))
        (bind_io (gets (\<lambda>s. path_exists s p)) (\<lambda>there.
         if there \<or> p \<in> set seen then throw (InvalidRequest ''capture destination already exists'')
         else check_destinations root tid (p # seen) rest (acc @ [relative, pending_path relative tid]))))"

definition write_intent :: "path \<Rightarrow> path list \<Rightarrow> unit io" where
  "write_intent dir paths =
     then_io (create_new_file (dir @ [''intent.pending'']) capture_io_error)
     (then_io (write_all (dir @ [''intent.pending'']) Torn capture_io_error)
     (then_io (write_all (dir @ [''intent.pending'']) (IntentJson paths) capture_io_error)
     (then_io (sync_path (dir @ [''intent.pending'']) capture_io_error)
     (then_io (rename (dir @ [''intent.pending'']) (dir @ [''intent.json'']) capture_io_error)
       (sync_path dir capture_io_error)))))"

definition publish_file :: "string \<Rightarrow> path \<times> content \<Rightarrow> unit io" where
  "publish_file tid pd =
     (case pd of (p, data) \<Rightarrow>
       then_io (when_io (p \<noteq> []) (create_dir_all (parent p) capture_io_error))
       (then_io (write_new_synced (pending_path p tid) data)
       (then_io (rename (pending_path p tid) p capture_io_error)
         (when_io (p \<noteq> []) (sync_path (parent p) capture_io_error)))))"

definition publish_all :: "path \<Rightarrow> string \<Rightarrow> (path \<times> content) list \<Rightarrow> path list \<Rightarrow> unit io" where
  "publish_all root tid fs paths =
     (let dir = root @ [TRANSACTIONS, tid] in
      then_io (write_intent dir paths)
      (then_io (sync_path (root @ [TRANSACTIONS]) capture_io_error)
      (then_io (for_each fs (publish_file tid))
      (then_io (write_new_synced (dir @ [''committed'']) (Bytes []))
        (sync_path dir capture_io_error)))))"

definition withdraw :: "path \<Rightarrow> string \<Rightarrow> (path \<times> content) list \<Rightarrow> unit io" where
  "withdraw root tid fs =
     then_io (for_each fs (\<lambda>(p, _). then_io (remove_if_present p) (remove_if_present (pending_path p tid))))
     (then_io (remove_dir_all (root @ [TRANSACTIONS, tid]) capture_io_error)
       (sync_path (root @ [TRANSACTIONS]) capture_io_error))"

definition commit :: "path \<Rightarrow> string \<Rightarrow> (path \<times> content) list \<Rightarrow> unit io" where
  "commit root tid fs =
     then_io (recover root)
     (bind_io (check_destinations root tid [] fs []) (\<lambda>paths.
      then_io (create_dir_all (root @ [TRANSACTIONS, tid]) capture_io_error)
      (bind_io (try_io (publish_all root tid fs paths)) (\<lambda>result.
       bind_io (gets (\<lambda>s. transaction_committed s root tid)) (\<lambda>there.
       then_io (when_io (\<not> is_ok result \<and> \<not> there) (withdraw root tid fs))
         (of_result result))))))"

section \<open>Admission\<close>

definition MAX_CAPTURE_BYTES :: nat where "MAX_CAPTURE_BYTES = 64 * 1024 * 1024"
definition ENVELOPE_BYTES :: nat where "ENVELOPE_BYTES = 1024"

text \<open>A budget is the number of bytes admitted so far.\<close>

definition budget_add :: "nat \<Rightarrow> nat \<Rightarrow> nat res" where
  "budget_add used bytes =
     ok_or CaptureTooLarge
       (case checked_add_u64 used bytes of
          Some t \<Rightarrow> if t \<le> MAX_CAPTURE_BYTES then Some t else None
        | None \<Rightarrow> None)"

definition budget_copies :: "nat \<Rightarrow> nat \<Rightarrow> nat \<Rightarrow> nat res" where
  "budget_copies used bytes copies =
     bind_result (ok_or CaptureTooLarge (checked_mul_u64 bytes copies)) (budget_add used)"

text \<open>
  \<^verbatim>\<open>serde_json::to_writer\<close> into a budget: \<open>len\<close> is the length of the rendered JSON, which the writer
  passes on in pieces; the sum of the pieces is refused once it passes the limit.
\<close>

definition json_bytes :: "nat \<Rightarrow> nat res" where
  "json_bytes len = budget_add 0 len"

fun budget_records :: "(repeatability_record \<Rightarrow> nat) \<Rightarrow> nat \<Rightarrow> repeatability_record list \<Rightarrow> nat res" where
  "budget_records len used [] = Ok used"
| "budget_records len used (rr # rrs) =
     bind_result (json_bytes (len rr)) (\<lambda>n.
     bind_result (budget_copies used n 3) (\<lambda>used.
     bind_result (budget_add used ENVELOPE_BYTES) (\<lambda>used.
     budget_records len used rrs)))"

end
