(* ===== verification/Mail.thy ===== *)
theory Mail
  imports Capture "HOL-Library.Product_Lexorder"
begin

text \<open>
  The mail store (\<^verbatim>\<open>src/src/mail/filesystem.rs\<close>), its admission limit
  (\<^verbatim>\<open>src/src/mail/budget.rs\<close>) and the fan-out of one message into the mailboxes of its
  recipients (\<^verbatim>\<open>src/src/mail/mod.rs\<close>). Every operation takes the root of the mail tree. The
  lengths of rendered JSON, which the library decides, are a parameter. The capture lock orders the
  operations, which run one at a time here. The fan-out of stores that cannot publish a batch is
  left out: the file-system store always can.
\<close>

section \<open>Admission\<close>

record json_sizes =
  js_message :: "message \<Rightarrow> nat"
  js_record :: "repeatability_record \<Rightarrow> nat"

definition ALL_MAILBOX :: string where "ALL_MAILBOX = ''_all''"

definition sorted_mailboxes :: "message \<Rightarrow> string list" where
  "sorted_mailboxes m = remdups (sort (map mailbox_key (recipients m)))"

fun charge_targets :: "nat \<Rightarrow> nat \<Rightarrow> nat \<Rightarrow> string list \<Rightarrow> nat res" where
  "charge_targets bytes raw_bytes used [] = Ok used"
| "charge_targets bytes raw_bytes used (target # rest) =
     bind_result (budget_add used bytes) (\<lambda>used.
     bind_result (budget_add used (ENVELOPE_BYTES + length target)) (\<lambda>used.
     bind_result (budget_add used raw_bytes) (\<lambda>used.
     bind_result (if target \<noteq> ALL_MAILBOX then budget_add used bytes else Ok used) (\<lambda>used.
     charge_targets bytes raw_bytes used rest))))"

definition add_message :: "json_sizes \<Rightarrow> nat \<Rightarrow> message \<Rightarrow> nat \<Rightarrow> string list \<Rightarrow> nat res" where
  "add_message js used m raw_bytes targets =
     bind_result (json_bytes (js_message js m)) (\<lambda>bytes.
     bind_result (budget_copies used bytes 3) (\<lambda>used.
     charge_targets bytes raw_bytes used (targets @ [ALL_MAILBOX])))"

definition raw_length :: "message \<Rightarrow> nat" where
  "raw_length m = (case msg_raw_mime m of Some raw \<Rightarrow> length raw | None \<Rightarrow> 0)"

fun add_messages :: "json_sizes \<Rightarrow> nat \<Rightarrow> message list \<Rightarrow> nat res" where
  "add_messages js used [] = Ok used"
| "add_messages js used (m # ms) =
     bind_result (add_message js used m (raw_length m) (sorted_mailboxes m)) (\<lambda>used. add_messages js used ms)"

definition check_messages :: "json_sizes \<Rightarrow> message list \<Rightarrow> repeatability_record list \<Rightarrow> nat res" where
  "check_messages js ms rrs =
     bind_result (add_messages js 0 ms) (\<lambda>used. budget_records (js_record js) used rrs)"

definition check_single_copy :: "json_sizes \<Rightarrow> message \<Rightarrow> string \<Rightarrow> string \<Rightarrow> nat res" where
  "check_single_copy js m mailbox mid =
     bind_result (json_bytes (js_message js m)) (\<lambda>n.
     bind_result (budget_copies 0 n 3) (\<lambda>used.
     bind_result (budget_add used (raw_length m)) (\<lambda>used.
     budget_add used (ENVELOPE_BYTES + length mailbox + length mid))))"

section \<open>Layout\<close>

definition RAW_SUFFIX :: string where "RAW_SUFFIX = ''.raw''"
definition MAILBOX_METADATA :: string where "MAILBOX_METADATA = ''.mailbox''"
definition MAILBOX_DIRECTORY_PREFIX :: string where "MAILBOX_DIRECTORY_PREFIX = ''mbx-''"

definition mailbox_storage_key :: "externs \<Rightarrow> string \<Rightarrow> string" where
  "mailbox_storage_key x mailbox = MAILBOX_DIRECTORY_PREFIX @ ext_sha256_hex x mailbox"

definition validate_segment :: "string \<Rightarrow> unit res" where
  "validate_segment value =
     (if value = [] \<or> CHR ''/'' \<in> set value \<or> CHR 0x5C \<in> set value \<or> sublist ''..'' value
      then Err (InvalidRequest (''invalid mail path segment: '' @ value)) else Ok ())"

definition mailbox_dir :: "world \<Rightarrow> path \<Rightarrow> string \<Rightarrow> path res" where
  "mailbox_dir s root mailbox =
     (if mailbox = [] then Err (InvalidRequest ''mailbox address must not be empty'')
      else if is_ok (validate_segment mailbox) \<and> is_dir s (root @ [mailbox]) then Ok (root @ [mailbox])
      else Ok (root @ [mailbox_storage_key (ext s) mailbox]))"

definition message_path :: "world \<Rightarrow> path \<Rightarrow> string \<Rightarrow> string \<Rightarrow> path res" where
  "message_path s root mailbox mid =
     bind_result (validate_segment mid) (\<lambda>_.
     bind_result (mailbox_dir s root mailbox) (\<lambda>dir. Ok (dir @ [mid @ ''.json''])))"

definition raw_message_path :: "world \<Rightarrow> path \<Rightarrow> string \<Rightarrow> string \<Rightarrow> path res" where
  "raw_message_path s root mailbox mid =
     bind_result (validate_segment mid) (\<lambda>_.
     bind_result (mailbox_dir s root mailbox) (\<lambda>dir. Ok (dir @ [mid @ RAW_SUFFIX])))"

text \<open>A value computed from the state that may be an error.\<close>

definition eval :: "(world \<Rightarrow> 'a res) \<Rightarrow> 'a io" where
  "eval f = bind_io (gets f) of_result"

section \<open>Writing\<close>

definition write_atomic :: "path \<Rightarrow> content \<Rightarrow> unit io" where
  "write_atomic p data =
     then_io (when_io (p \<noteq> []) (create_dir_all (parent p) capture_io_error))
     (if p = [] then throw (InternalError ''message path has no file name'')
      else
        let tmp_path = parent p @ [last p @ ''.tmp''] in
        then_io (create_file tmp_path capture_io_error)
        (then_io (write_all tmp_path data capture_io_error)
          (rename tmp_path p capture_io_error)))"

definition ensure_mailbox_dir :: "path \<Rightarrow> string \<Rightarrow> path io" where
  "ensure_mailbox_dir root mailbox =
     bind_io (eval (\<lambda>s. mailbox_dir s root mailbox)) (\<lambda>dir.
     then_io (create_dir_all dir capture_io_error)
     (bind_io (gets (\<lambda>s. fs_get s (dir @ [MAILBOX_METADATA]))) (\<lambda>n.
      then_io
        (case n of
           None \<Rightarrow> write_atomic (dir @ [MAILBOX_METADATA]) (Bytes (text_bytes mailbox))
         | Some (File (Bytes stored_mailbox)) \<Rightarrow>
             guard_io (bytes_text stored_mailbox = mailbox) (InternalError ''mailbox storage key collision'')
         | _ \<Rightarrow> throw (InternalError capture_io_error))
        (return dir))))"

definition prepare_copy :: "path \<Rightarrow> string \<Rightarrow> string \<Rightarrow> message \<Rightarrow> string \<Rightarrow> (stored_message \<times> (path \<times> content) list) io" where
  "prepare_copy root mailbox mid m tid =
     then_io (ensure_mailbox_dir root mailbox)
     (bind_io (eval (\<lambda>s. message_path s root mailbox mid)) (\<lambda>p.
      bind_io now_io (\<lambda>received_at.
      let stored = \<lparr>stm_message_id = mid, stm_mailbox = mailbox,
                    stm_message = m\<lparr>msg_provider_metadata := (msg_provider_metadata m)(TRANSACTION_METADATA \<mapsto> JString tid)\<rparr>,
                    stm_delivery_status = accepted received_at, stm_received_at = received_at\<rparr> in
      case msg_raw_mime m of
        None \<Rightarrow> return (stored, [(p, MailJson stored)])
      | Some raw_mime \<Rightarrow>
          bind_io (eval (\<lambda>s. raw_message_path s root mailbox mid)) (\<lambda>raw_path.
          return (stored, [(p, MailJson stored), (raw_path, Bytes raw_mime)])))))"

text \<open>The copies of one message, and the files of a batch of messages.\<close>

fun prepare_copies ::
    "path \<Rightarrow> string \<Rightarrow> message \<Rightarrow> string \<Rightarrow> string list \<Rightarrow> (stored_message list \<times> (path \<times> content) list) io" where
  "prepare_copies root mid m tid [] = return ([], [])"
| "prepare_copies root mid m tid (mailbox # rest) =
     bind_io (prepare_copy root mailbox mid m tid) (\<lambda>(stored, copy_files).
     bind_io (prepare_copies root mid m tid rest) (\<lambda>(copies, fs).
     return (if mailbox \<noteq> ALL_MAILBOX then stored # copies else copies, copy_files @ fs)))"

fun prepare_batch ::
    "path \<Rightarrow> string \<Rightarrow> (string \<times> message) list \<Rightarrow> (stored_message list list \<times> (path \<times> content) list) io" where
  "prepare_batch root tid [] = return ([], [])"
| "prepare_batch root tid ((mid, m) # rest) =
     then_io (guard_io (sorted_mailboxes m \<noteq> []) (InvalidRequest ''message has no recipients''))
     (bind_io (prepare_copies root mid m tid (ALL_MAILBOX # sorted_mailboxes m)) (\<lambda>(copies, fs).
      bind_io (prepare_batch root tid rest) (\<lambda>(result, fs').
      return (copies # result, fs @ fs'))))"

definition capture_batch ::
    "json_sizes \<Rightarrow> path \<Rightarrow> (string \<times> message) list \<Rightarrow> repeatability_record list \<Rightarrow> stored_message list list io" where
  "capture_batch js root messages records =
     then_io (of_result (check_messages js (map snd messages) records))
     (bind_io new_transaction_id (\<lambda>tid.
      bind_io (prepare_batch root tid messages) (\<lambda>(result, fs).
      bind_io (gets (\<lambda>s. map (\<lambda>rr. record_file (ext s) root (rr\<lparr>rr_transaction_id := tid\<rparr>)) records)) (\<lambda>record_files.
      then_io (commit root tid (fs @ record_files))
        (return result)))))"

definition store_message :: "json_sizes \<Rightarrow> path \<Rightarrow> string \<Rightarrow> string \<Rightarrow> message \<Rightarrow> stored_message io" where
  "store_message js root mailbox mid m =
     then_io (of_result (check_single_copy js m mailbox mid))
     (bind_io new_transaction_id (\<lambda>tid.
      bind_io (prepare_copy root mailbox mid m tid) (\<lambda>(stored, fs).
      then_io (commit root tid fs) (return stored))))"

section \<open>Reading\<close>

definition transaction_of :: "jsonmap \<Rightarrow> string" where
  "transaction_of metadata = (case metadata TRANSACTION_METADATA of Some (JString t) \<Rightarrow> t | _ \<Rightarrow> [])"

definition visible :: "world \<Rightarrow> path \<Rightarrow> stored_message \<Rightarrow> bool" where
  "visible s root stored \<longleftrightarrow> is_committed s root (transaction_of (msg_provider_metadata (stm_message stored)))"

definition read_stored :: "world \<Rightarrow> path \<Rightarrow> stored_message res" where
  "read_stored s p =
     (case fs_get s p of
        None \<Rightarrow> Err MessageNotFound
      | Some (File (MailJson stored)) \<Rightarrow> Ok stored
      | Some (File _) \<Rightarrow> Err (InternalError ''serialization'')
      | Some Dir \<Rightarrow> Err (InternalError capture_io_error))"

definition read_raw :: "world \<Rightarrow> path \<Rightarrow> bytes option" where
  "read_raw s p = (case file_content s p of Some (Bytes raw) \<Rightarrow> Some raw | _ \<Rightarrow> None)"

definition get_message :: "world \<Rightarrow> path \<Rightarrow> string \<Rightarrow> string \<Rightarrow> stored_message res" where
  "get_message s root mailbox mid =
     bind_result (message_path s root mailbox mid) (\<lambda>p.
     bind_result (read_stored s p) (\<lambda>stored.
     if \<not> visible s root stored then Err MessageNotFound
     else
       bind_result (raw_message_path s root mailbox mid) (\<lambda>raw_path.
       Ok (case read_raw s raw_path of
             Some raw \<Rightarrow> stored\<lparr>stm_message := (stm_message stored)\<lparr>msg_raw_mime := Some raw\<rparr>\<rparr>
           | None \<Rightarrow> stored))))"

fun first_matching :: "world \<Rightarrow> path \<Rightarrow> string \<Rightarrow> string \<Rightarrow> string list \<Rightarrow> stored_message res" where
  "first_matching s root mailbox mid [] = Err MessageNotFound"
| "first_matching s root mailbox mid (name # names) =
     (case strip_suffix ''.json'' name of
        None \<Rightarrow> first_matching s root mailbox mid names
      | Some candidate \<Rightarrow>
          if eq_ignore_ascii_case candidate mid then
            (case get_message s root mailbox candidate of
               Err MessageNotFound \<Rightarrow> first_matching s root mailbox mid names
             | result \<Rightarrow> result)
          else first_matching s root mailbox mid names)"

definition get_message_case_insensitive :: "world \<Rightarrow> path \<Rightarrow> string \<Rightarrow> string \<Rightarrow> stored_message res" where
  "get_message_case_insensitive s root mailbox mid =
     (case get_message s root mailbox mid of
        Err MessageNotFound \<Rightarrow>
          bind_result (mailbox_dir s root mailbox) (\<lambda>dir.
          case fs_get s dir of
            None \<Rightarrow> Err MessageNotFound
          | Some (File _) \<Rightarrow> Err (InternalError capture_io_error)
          | Some Dir \<Rightarrow> first_matching s root mailbox mid (dir_entries s dir))
      | result \<Rightarrow> result)"

text \<open>\<^verbatim>\<open>Path::extension\<close> of a directory entry.\<close>

definition has_extension :: "string \<Rightarrow> string \<Rightarrow> bool" where
  "has_extension e name \<longleftrightarrow> suffix (CHR ''.'' # e) name \<and> name \<noteq> CHR ''.'' # e"

fun collect_stored :: "world \<Rightarrow> string list \<Rightarrow> path \<Rightarrow> string list \<Rightarrow> stored_message list res" where
  "collect_stored s committed dir [] = Ok []"
| "collect_stored s committed dir (name # names) =
     (if \<not> has_extension ''json'' name then collect_stored s committed dir names
      else
        case read_stored s (dir @ [name]) of
          Err MessageNotFound \<Rightarrow> collect_stored s committed dir names
        | Err e \<Rightarrow> Err e
        | Ok stored \<Rightarrow>
            let tid = transaction_of (msg_provider_metadata (stm_message stored)) in
            bind_result (collect_stored s committed dir names) (\<lambda>rest.
            Ok (if tid = [] \<or> tid \<in> set committed then stored # rest else rest)))"

fun position :: "('a \<Rightarrow> bool) \<Rightarrow> 'a list \<Rightarrow> nat option" where
  "position P [] = None"
| "position P (x # xs) = (if P x then Some 0 else map_option Suc (position P xs))"

text \<open>The page of a sorted list after the marker, for any kind of item with an identifier.\<close>

definition page_after :: "('a \<Rightarrow> string) \<Rightarrow> string option \<Rightarrow> nat option \<Rightarrow> 'a list \<Rightarrow> 'a list \<times> string option" where
  "page_after ident marker limit items =
     (let start = (case marker of
                     Some m \<Rightarrow> (case position (\<lambda>i. ident i = m) items of Some i \<Rightarrow> i + 1 | None \<Rightarrow> 0)
                   | None \<Rightarrow> 0);
          lim = (case limit of Some l \<Rightarrow> l | None \<Rightarrow> u64_max);
          page = drop start items
      in if lim < length page
         then (take lim page, if take lim page = [] then None else Some (ident (last (take lim page))))
         else (page, None))"

definition sort_stored :: "stored_message list \<Rightarrow> stored_message list" where
  "sort_stored = sort_key (\<lambda>m. (stm_received_at m, stm_message_id m))"

definition list_messages_snapshot ::
    "world \<Rightarrow> path \<Rightarrow> string \<Rightarrow> list_messages_params \<Rightarrow> string list \<Rightarrow> list_messages_result res" where
  "list_messages_snapshot s root mailbox params committed =
     bind_result (mailbox_dir s root mailbox) (\<lambda>dir.
     if \<not> is_dir s dir then Ok \<lparr>lmr_messages = [], lmr_next_marker = None\<rparr>
     else
       bind_result (collect_stored s committed dir (dir_entries s dir)) (\<lambda>messages.
       let (page, next) = page_after stm_message_id (lmp_marker params) (lmp_limit params) (sort_stored messages) in
       Ok \<lparr>lmr_messages = page, lmr_next_marker = next\<rparr>))"

definition list_messages :: "path \<Rightarrow> string \<Rightarrow> list_messages_params \<Rightarrow> list_messages_result io" where
  "list_messages root mailbox params =
     bind_io (committed_snapshot root) (\<lambda>committed.
     eval (\<lambda>s. list_messages_snapshot s root mailbox params committed))"

definition mailbox_address :: "world \<Rightarrow> path \<Rightarrow> string \<Rightarrow> string res" where
  "mailbox_address s root name =
     (case fs_get s (root @ [name, MAILBOX_METADATA]) of
        None \<Rightarrow> Ok name
      | Some (File (Bytes b)) \<Rightarrow> Ok (bytes_text b)
      | _ \<Rightarrow> Err (InternalError capture_io_error))"

fun collect_mailboxes :: "world \<Rightarrow> path \<Rightarrow> string list \<Rightarrow> string list \<Rightarrow> mailbox_info list res" where
  "collect_mailboxes s root committed [] = Ok []"
| "collect_mailboxes s root committed (name # names) =
     (if \<not> is_dir s (root @ [name]) then collect_mailboxes s root committed names
      else
        bind_result (mailbox_address s root name) (\<lambda>address.
        if address = ALL_MAILBOX \<or> prefix ''.'' name then collect_mailboxes s root committed names
        else
          bind_result (list_messages_snapshot s root address \<lparr>lmp_marker = None, lmp_limit = None\<rparr> committed) (\<lambda>result.
          bind_result (collect_mailboxes s root committed names) (\<lambda>rest.
          Ok (if lmr_messages result = [] then rest
              else \<lparr>mbi_address = address, mbi_message_count = length (lmr_messages result),
                    mbi_last_received_at = Some (stm_received_at (last (lmr_messages result)))\<rparr> # rest)))))"

definition list_mailboxes :: "path \<Rightarrow> mailbox_info list io" where
  "list_mailboxes root =
     bind_io (committed_snapshot root) (\<lambda>committed.
     bind_io (gets (\<lambda>s. is_dir s root)) (\<lambda>there.
     if \<not> there then return []
     else
       bind_io (eval (\<lambda>s. collect_mailboxes s root committed (dir_entries s root))) (\<lambda>mailboxes.
       return (sort_key mbi_address mailboxes))))"

section \<open>Changing and removing\<close>

definition delete_message :: "path \<Rightarrow> string \<Rightarrow> string \<Rightarrow> unit io" where
  "delete_message root mailbox mid =
     bind_io (eval (\<lambda>s. message_path s root mailbox mid)) (\<lambda>p.
     bind_io (eval (\<lambda>s. raw_message_path s root mailbox mid)) (\<lambda>raw_path.
     then_io (remove_if_present p) (remove_if_present raw_path)))"

definition remove_dir_if_present :: "path \<Rightarrow> unit io" where
  "remove_dir_if_present p =
     bind_io (gets (\<lambda>s. path_exists s p)) (\<lambda>there. when_io there (remove_dir_all p capture_io_error))"

definition delete_mailbox :: "path \<Rightarrow> string \<Rightarrow> unit io" where
  "delete_mailbox root mailbox =
     bind_io (eval (\<lambda>s. mailbox_dir s root mailbox)) remove_dir_if_present"

definition update_delivery_status :: "path \<Rightarrow> string \<Rightarrow> string \<Rightarrow> delivery_status \<Rightarrow> unit io" where
  "update_delivery_status root mailbox mid status =
     bind_io (eval (\<lambda>s. message_path s root mailbox mid)) (\<lambda>p.
     bind_io (eval (\<lambda>s. read_stored s p)) (\<lambda>stored.
     write_atomic p (MailJson (stored\<lparr>stm_delivery_status := status\<rparr>))))"

definition ensure_mailbox :: "path \<Rightarrow> string \<Rightarrow> unit io" where
  "ensure_mailbox root mailbox = then_io (ensure_mailbox_dir root mailbox) (return ())"

definition open_mail_store :: "path \<Rightarrow> path io" where
  "open_mail_store blobs_path =
     then_io (create_dir_all (blobs_path @ [''_mail'']) capture_io_error)
     (then_io (recover (blobs_path @ [''_mail'']))
       (return (blobs_path @ [''_mail''])))"

section \<open>Fan-out\<close>

definition generate_message_id :: "string io" where
  "generate_message_id = bind_io new_uuid (\<lambda>u. return (''msg-'' @ u))"

definition fan_out_with_id :: "json_sizes \<Rightarrow> path \<Rightarrow> message \<Rightarrow> string \<Rightarrow> stored_message list io" where
  "fan_out_with_id js root m mid =
     then_io (of_result (check_messages js [m] []))
     (bind_io (capture_batch js root [(mid, m)] []) (\<lambda>captured. return (hd captured)))"

definition fan_out :: "json_sizes \<Rightarrow> path \<Rightarrow> message \<Rightarrow> stored_message list io" where
  "fan_out js root m = bind_io generate_message_id (fan_out_with_id js root m)"

fun assign_ids :: "message list \<Rightarrow> (string \<times> message) list io" where
  "assign_ids [] = return []"
| "assign_ids (m # ms) =
     bind_io generate_message_id (\<lambda>mid. bind_io (assign_ids ms) (\<lambda>rest. return ((mid, m) # rest)))"

definition fan_out_batch :: "json_sizes \<Rightarrow> path \<Rightarrow> message list \<Rightarrow> stored_message list list io" where
  "fan_out_batch js root messages =
     then_io (of_result (check_messages js messages []))
     (bind_io (assign_ids messages) (\<lambda>requests. capture_batch js root requests []))"

end
