(* ===== verification/Text_Messages.thy ===== *)
theory Text_Messages
  imports Mail
begin

text \<open>
  The store of text messages (\<^verbatim>\<open>src/src/sms/filesystem.rs\<close>) and its admission limit
  (\<^verbatim>\<open>src/src/sms/budget.rs\<close>): messages with their media, an index of the messages of each peer,
  callback destinations and recorded callback attempts. Operations take the root of the tree.
\<close>

section \<open>Admission\<close>

record sms_json_sizes =
  sjs_fields :: "new_sms_message \<Rightarrow> nat"
  sjs_media :: "new_sms_media \<Rightarrow> nat"
  sjs_record :: "repeatability_record \<Rightarrow> nat"

fun charge_media :: "sms_json_sizes \<Rightarrow> nat \<Rightarrow> new_sms_media list \<Rightarrow> nat res" where
  "charge_media js used [] = Ok used"
| "charge_media js used (media # rest) =
     bind_result (json_bytes (sjs_media js media)) (\<lambda>n.
     bind_result (budget_copies used n 4) (\<lambda>used.
     bind_result (budget_add used ENVELOPE_BYTES) (\<lambda>used.
     bind_result (budget_copies used (case nmed_content media of Some b \<Rightarrow> length b | None \<Rightarrow> 0) 2) (\<lambda>used.
     charge_media js used rest))))"

fun charge_sms :: "sms_json_sizes \<Rightarrow> nat \<Rightarrow> new_sms_message list \<Rightarrow> nat res" where
  "charge_sms js used [] = Ok used"
| "charge_sms js used (m # ms) =
     bind_result (json_bytes (sjs_fields js m)) (\<lambda>n.
     bind_result (budget_copies used n 4) (\<lambda>used.
     bind_result (budget_copies used ENVELOPE_BYTES 4) (\<lambda>used.
     bind_result (charge_media js used (nsms_media m)) (\<lambda>used.
     charge_sms js used ms))))"

definition check_sms_messages :: "sms_json_sizes \<Rightarrow> new_sms_message list \<Rightarrow> repeatability_record list \<Rightarrow> nat res" where
  "check_sms_messages js ms rrs =
     bind_result (charge_sms js 0 ms) (\<lambda>used. budget_records (sjs_record js) used rrs)"

section \<open>Layout\<close>

definition validate_id :: "string \<Rightarrow> unit res" where
  "validate_id value =
     (if value = [] \<or> CHR ''/'' \<in> set value \<or> CHR 0x5C \<in> set value \<or> sublist ''..'' value
      then Err (InvalidRequest (''invalid SMS storage identifier: '' @ value)) else Ok ())"

definition sms_message_path :: "path \<Rightarrow> string \<Rightarrow> path res" where
  "sms_message_path root mid = bind_result (validate_id mid) (\<lambda>_. Ok (root @ [''messages'', mid @ ''.json'']))"

definition peer_hash :: "externs \<Rightarrow> string \<Rightarrow> string res" where
  "peer_hash x peer =
     (if str_trim peer = [] then Err (InvalidRequest ''peer must not be empty'') else Ok (ext_sha256_hex x peer))"

definition peer_sidecar :: "externs \<Rightarrow> path \<Rightarrow> string \<Rightarrow> path res" where
  "peer_sidecar x root peer = bind_result (peer_hash x peer) (\<lambda>h. Ok (root @ [''conversations'', h @ ''.peer'']))"

definition peer_index_dir :: "externs \<Rightarrow> path \<Rightarrow> string \<Rightarrow> path res" where
  "peer_index_dir x root peer = bind_result (peer_hash x peer) (\<lambda>h. Ok (root @ [''conversations'', h]))"

definition media_path :: "path \<Rightarrow> string \<Rightarrow> string \<Rightarrow> path res" where
  "media_path root mid media_id =
     bind_result (validate_id mid) (\<lambda>_. bind_result (validate_id media_id) (\<lambda>_. Ok (root @ [''media'', mid, media_id])))"

definition destination_path :: "externs \<Rightarrow> path \<Rightarrow> sms_provider \<Rightarrow> string \<Rightarrow> path res" where
  "destination_path x root provider local_number =
     bind_result (peer_hash x local_number) (\<lambda>h.
     Ok (root @ [''destinations'', sms_provider_as_str provider, h @ ''.json'']))"

definition callback_path :: "path \<Rightarrow> string \<Rightarrow> path res" where
  "callback_path root attempt_id = bind_result (validate_id attempt_id) (\<lambda>_. Ok (root @ [''callbacks'', attempt_id @ ''.json'']))"

definition sms_write_atomic :: "path \<Rightarrow> content \<Rightarrow> unit io" where
  "sms_write_atomic p data =
     then_io (when_io (p \<noteq> []) (create_dir_all (parent p) capture_io_error))
     (if p = [] then throw (InternalError ''SMS path has no filename'')
      else
        bind_io new_uuid (\<lambda>u.
        let temporary = parent p @ [last p @ ''.'' @ u @ ''.tmp''] in
        then_io (create_file temporary capture_io_error)
        (then_io (write_all temporary data capture_io_error)
          (rename temporary p capture_io_error))))"

section \<open>Reading\<close>

definition read_message_path :: "world \<Rightarrow> path \<Rightarrow> sms_message res" where
  "read_message_path s p =
     (case fs_get s p of
        None \<Rightarrow> Err MessageNotFound
      | Some (File (SmsJson m)) \<Rightarrow> Ok m
      | Some (File _) \<Rightarrow> Err (InternalError ''serialization'')
      | Some Dir \<Rightarrow> Err (InternalError capture_io_error))"

definition sms_visible :: "world \<Rightarrow> path \<Rightarrow> sms_message \<Rightarrow> bool" where
  "sms_visible s root m \<longleftrightarrow> is_committed s root (transaction_of (sms_metadata m))"

definition get_sms_message :: "world \<Rightarrow> path \<Rightarrow> string \<Rightarrow> sms_message res" where
  "get_sms_message s root mid =
     bind_result (sms_message_path root mid) (\<lambda>p.
     bind_result (read_message_path s p) (\<lambda>m.
     if sms_visible s root m then Ok m else Err MessageNotFound))"

fun find_by_provider_id :: "world \<Rightarrow> path \<Rightarrow> string \<Rightarrow> string list \<Rightarrow> sms_message res" where
  "find_by_provider_id s root pid [] = Err MessageNotFound"
| "find_by_provider_id s root pid (name # names) =
     (if \<not> has_extension ''json'' name then find_by_provider_id s root pid names
      else
        bind_result (read_message_path s (root @ [''messages'', name])) (\<lambda>m.
        if sms_provider_message_id m = pid \<and> sms_visible s root m then Ok m
        else find_by_provider_id s root pid names))"

definition get_message_by_provider_id :: "world \<Rightarrow> path \<Rightarrow> string \<Rightarrow> sms_message res" where
  "get_message_by_provider_id s root pid =
     (if is_dir s (root @ [''messages''])
      then find_by_provider_id s root pid (dir_entries s (root @ [''messages'']))
      else Err (InternalError capture_io_error))"

text \<open>The stems of the \<^verbatim>\<open>.idx\<close> files of a peer; an unreadable directory counts as empty.\<close>

definition message_ids_for_peer :: "world \<Rightarrow> path \<Rightarrow> string \<Rightarrow> string list res" where
  "message_ids_for_peer s root peer =
     bind_result (peer_index_dir (ext s) root peer) (\<lambda>dir.
     Ok (if is_dir s dir
         then sort (map (\<lambda>n. take (length n - 4) n) (filter (has_extension ''idx'') (dir_entries s dir)))
         else []))"

text \<open>An identifier that is no valid path segment is skipped, as the code skips it.\<close>

fun collect_sms :: "world \<Rightarrow> string list \<Rightarrow> path \<Rightarrow> string list \<Rightarrow> sms_message list res" where
  "collect_sms s committed root [] = Ok []"
| "collect_sms s committed root (mid # mids) =
     (case sms_message_path root mid of
        Err _ \<Rightarrow> collect_sms s committed root mids
      | Ok p \<Rightarrow>
          (case read_message_path s p of
             Err MessageNotFound \<Rightarrow> collect_sms s committed root mids
           | Err e \<Rightarrow> Err e
           | Ok m \<Rightarrow>
               let tid = transaction_of (sms_metadata m) in
               bind_result (collect_sms s committed root mids) (\<lambda>rest.
               Ok (if tid = [] \<or> tid \<in> set committed then m # rest else rest))))"

definition sort_sms :: "sms_message list \<Rightarrow> sms_message list" where
  "sort_sms = sort_key (\<lambda>m. (sms_created_at m, sms_message_id m))"

definition list_sms_snapshot ::
    "world \<Rightarrow> path \<Rightarrow> string \<Rightarrow> list_sms_params \<Rightarrow> string list \<Rightarrow> list_sms_messages_result res" where
  "list_sms_snapshot s root peer params committed =
     bind_result (message_ids_for_peer s root peer) (\<lambda>ids.
     bind_result (collect_sms s committed root ids) (\<lambda>messages.
     let (page, next) = page_after sms_message_id (lsp_marker params) (lsp_limit params) (sort_sms messages) in
     Ok \<lparr>lsr_messages = page, lsr_next_marker = next\<rparr>))"

definition list_sms_messages :: "path \<Rightarrow> string \<Rightarrow> list_sms_params \<Rightarrow> list_sms_messages_result io" where
  "list_sms_messages root peer params =
     bind_io (committed_snapshot root) (\<lambda>committed.
     eval (\<lambda>s. list_sms_snapshot s root peer params committed))"

fun collect_conversations :: "world \<Rightarrow> path \<Rightarrow> string list \<Rightarrow> string list \<Rightarrow> sms_conversation list res" where
  "collect_conversations s root committed [] = Ok []"
| "collect_conversations s root committed (name # names) =
     (if \<not> has_extension ''peer'' name then collect_conversations s root committed names
      else
        case fs_get s (root @ [''conversations'', name]) of
          Some (File (Bytes b)) \<Rightarrow>
            (let peer = bytes_text b in
             bind_result (list_sms_snapshot s root peer \<lparr>lsp_marker = None, lsp_limit = None\<rparr> committed) (\<lambda>result.
             bind_result (collect_conversations s root committed names) (\<lambda>rest.
             Ok (if lsr_messages result = [] then rest
                 else
                   let m = last (lsr_messages result) in
                   \<lparr>conv_peer = peer, conv_message_count = length (lsr_messages result),
                    conv_last_message_at = sms_created_at m, conv_last_message_body = sms_body m,
                    conv_last_direction = sms_direction_of m, conv_provider = sms_provider_of m\<rparr> # rest))))
        | _ \<Rightarrow> Err (InternalError capture_io_error))"

definition list_conversations :: "path \<Rightarrow> sms_conversation list io" where
  "list_conversations root =
     bind_io (committed_snapshot root) (\<lambda>committed.
     bind_io (read_dir (root @ [''conversations'']) capture_io_error) (\<lambda>names.
     bind_io (eval (\<lambda>s. collect_conversations s root committed names)) (\<lambda>conversations.
     return (sort_key (\<lambda>c. (- conv_last_message_at c, conv_peer c)) conversations))))"

section \<open>Capturing\<close>

definition generate_sms_message_id :: "string io" where
  "generate_sms_message_id = bind_io new_uuid (\<lambda>u. return (''txt-'' @ u))"

text \<open>\<^verbatim>\<open>simple()\<close> renders a UUID without its hyphens.\<close>

definition generate_provider_message_id :: "sms_provider \<Rightarrow> string io" where
  "generate_provider_message_id provider =
     bind_io new_uuid (\<lambda>u. return (if provider = Twilio then ''SM'' @ filter (\<lambda>c. c \<noteq> CHR ''-'') u else u))"

fun prepare_media :: "new_sms_media list \<Rightarrow> (sms_media list \<times> (string \<times> bytes) list) io" where
  "prepare_media [] = return ([], [])"
| "prepare_media (item # items) =
     bind_io new_uuid (\<lambda>u.
     let media_id = ''media-'' @ u;
         media = \<lparr>med_media_id = media_id, med_filename = nmed_filename item, med_content_type = nmed_content_type item,
                  med_size = map_option length (nmed_content item), med_external_url = nmed_external_url item\<rparr> in
     bind_io (prepare_media items) (\<lambda>(rest, contents).
     return (media # rest, (case nmed_content item of Some b \<Rightarrow> (media_id, b) # contents | None \<Rightarrow> contents))))"

definition prepare_message :: "new_sms_message \<Rightarrow> string \<Rightarrow> (sms_message \<times> (string \<times> bytes) list) io" where
  "prepare_message new tid =
     then_io (guard_io (\<not> (str_trim (nsms_from new) = [] \<or> str_trim (nsms_to new) = []))
               (InvalidRequest ''from and to must not be empty''))
     (let peer = (case nsms_direction new of Outbound \<Rightarrow> nsms_to new | Inbound \<Rightarrow> nsms_from new) in
      bind_io generate_sms_message_id (\<lambda>mid.
      bind_io (case nsms_provider_message_id new of Some p \<Rightarrow> return p | None \<Rightarrow> generate_provider_message_id (nsms_provider new)) (\<lambda>pid.
      bind_io now_io (\<lambda>now.
      bind_io (prepare_media (nsms_media new)) (\<lambda>(media, media_content).
      return
        (\<lparr>sms_message_id = mid, sms_batch_id = nsms_batch_id new, sms_provider_of = nsms_provider new,
          sms_provider_message_id = pid, sms_direction_of = nsms_direction new, sms_channel_of = nsms_channel new,
          sms_from = nsms_from new, sms_to = nsms_to new, sms_body = nsms_body new, sms_media_of = media,
          sms_metadata = (nsms_metadata new)(TRANSACTION_METADATA \<mapsto> JString tid), sms_peer = peer,
          sms_delivery_state_of = SmsAccepted, sms_created_at = now, sms_updated_at = now\<rparr>,
         media_content))))))"

definition ensure_peer :: "path \<Rightarrow> string \<Rightarrow> path io" where
  "ensure_peer root peer =
     bind_io (eval (\<lambda>s. peer_index_dir (ext s) root peer)) (\<lambda>peer_dir.
     then_io (create_dir_all peer_dir capture_io_error)
     (bind_io (eval (\<lambda>s. peer_sidecar (ext s) root peer)) (\<lambda>sidecar.
      bind_io (gets (\<lambda>s. fs_get s sidecar)) (\<lambda>n.
      then_io
        (case n of
           None \<Rightarrow> sms_write_atomic sidecar (Bytes (text_bytes peer))
         | Some (File (Bytes b)) \<Rightarrow> guard_io (bytes_text b = peer) (InternalError ''SMS peer storage key collision'')
         | _ \<Rightarrow> throw (InternalError capture_io_error))
        (return peer_dir)))))"

fun media_files :: "path \<Rightarrow> string \<Rightarrow> (string \<times> bytes) list \<Rightarrow> (path \<times> content) list res" where
  "media_files root mid [] = Ok []"
| "media_files root mid ((media_id, b) # rest) =
     bind_result (media_path root mid media_id) (\<lambda>p.
     bind_result (media_files root mid rest) (\<lambda>fs. Ok ((p, Bytes b) # fs)))"

fun prepare_sms_batch :: "path \<Rightarrow> string \<Rightarrow> new_sms_message list \<Rightarrow> (sms_message list \<times> (path \<times> content) list) io" where
  "prepare_sms_batch root tid [] = return ([], [])"
| "prepare_sms_batch root tid (new # rest) =
     bind_io (prepare_message new tid) (\<lambda>(m, media_content).
     bind_io (ensure_peer root (sms_peer m)) (\<lambda>peer_dir.
     bind_io (of_result (sms_message_path root (sms_message_id m))) (\<lambda>p.
     bind_io (of_result (media_files root (sms_message_id m) media_content)) (\<lambda>mfs.
     bind_io (prepare_sms_batch root tid rest) (\<lambda>(ms, fs).
     return (m # ms, (p, SmsJson m) # (peer_dir @ [sms_message_id m @ ''.idx''], Bytes []) # mfs @ fs))))))"

definition capture_messages ::
    "sms_json_sizes \<Rightarrow> path \<Rightarrow> new_sms_message list \<Rightarrow> repeatability_record list \<Rightarrow> sms_message list io" where
  "capture_messages js root messages records =
     then_io (of_result (check_sms_messages js messages records))
     (bind_io new_transaction_id (\<lambda>tid.
      bind_io (prepare_sms_batch root tid messages) (\<lambda>(result, fs).
      bind_io (gets (\<lambda>s. map (\<lambda>rr. record_file (ext s) root (rr\<lparr>rr_transaction_id := tid\<rparr>)) records)) (\<lambda>record_files.
      then_io (commit root tid (fs @ record_files))
        (return result)))))"

definition store_sms_message :: "sms_json_sizes \<Rightarrow> path \<Rightarrow> new_sms_message \<Rightarrow> sms_message io" where
  "store_sms_message js root new = bind_io (capture_messages js root [new] []) (\<lambda>ms. return (hd ms))"

section \<open>Delivery and media\<close>

definition transition_delivery :: "path \<Rightarrow> string \<Rightarrow> sms_delivery_state \<Rightarrow> sms_message io" where
  "transition_delivery root mid state =
     (if state = SmsAccepted then throw (InvalidRequest ''delivery transition must be delivered or failed'')
      else
        bind_io (of_result (sms_message_path root mid)) (\<lambda>p.
        bind_io (eval (\<lambda>s. read_message_path s p)) (\<lambda>m.
        if sms_delivery_state_of m = SmsAccepted then
          bind_io now_io (\<lambda>now.
          let m' = m\<lparr>sms_delivery_state_of := state, sms_updated_at := now\<rparr> in
          then_io (sms_write_atomic p (SmsJson m')) (return m'))
        else if sms_delivery_state_of m = state then return m
        else throw (InvalidRequest ''terminal delivery states are immutable''))))"

definition read_media :: "world \<Rightarrow> path \<Rightarrow> string \<Rightarrow> string \<Rightarrow> (sms_media \<times> bytes) res" where
  "read_media s root mid media_id =
     bind_result (get_sms_message s root mid) (\<lambda>m.
     bind_result (ok_or MessageNotFound (find (\<lambda>x. med_media_id x = media_id) (sms_media_of m))) (\<lambda>media.
     if med_external_url media \<noteq> None then Err (InvalidRequest ''external media is referenced, not stored locally'')
     else
       bind_result (media_path root mid media_id) (\<lambda>p.
       case fs_get s p of
         Some (File (Bytes b)) \<Rightarrow> Ok (media, b)
       | None \<Rightarrow> Err MessageNotFound
       | _ \<Rightarrow> Err (InternalError capture_io_error))))"

section \<open>Destinations and callbacks\<close>

definition put_destination :: "path \<Rightarrow> sms_provider \<Rightarrow> string \<Rightarrow> string \<Rightarrow> text_destination io" where
  "put_destination root provider local_number callback_url =
     then_io (guard_io (\<not> (str_trim local_number = [] \<or> str_trim callback_url = []))
               (InvalidRequest ''local_number and callback_url must not be empty''))
     (bind_io (eval (\<lambda>s. destination_path (ext s) root provider local_number)) (\<lambda>p.
      bind_io now_io (\<lambda>now.
      bind_io (gets (\<lambda>s. case file_content s p of Some (DestinationJson d) \<Rightarrow> td_created_at d | _ \<Rightarrow> now)) (\<lambda>created_at.
      let destination = \<lparr>td_provider = provider, td_local_number = local_number, td_callback_url = callback_url,
                         td_created_at = created_at, td_updated_at = now\<rparr> in
      then_io (sms_write_atomic p (DestinationJson destination)) (return destination)))))"

definition get_destination :: "world \<Rightarrow> path \<Rightarrow> sms_provider \<Rightarrow> string \<Rightarrow> text_destination res" where
  "get_destination s root provider local_number =
     bind_result (destination_path (ext s) root provider local_number) (\<lambda>p.
     case fs_get s p of
       None \<Rightarrow> Err MessageNotFound
     | Some (File (DestinationJson d)) \<Rightarrow> Ok d
     | Some (File _) \<Rightarrow> Err (InternalError ''serialization'')
     | Some Dir \<Rightarrow> Err (InternalError capture_io_error))"

definition delete_destination :: "path \<Rightarrow> sms_provider \<Rightarrow> string \<Rightarrow> unit io" where
  "delete_destination root provider local_number =
     bind_io (eval (\<lambda>s. destination_path (ext s) root provider local_number)) remove_if_present"

definition record_callback :: "path \<Rightarrow> callback_attempt \<Rightarrow> unit io" where
  "record_callback root attempt =
     bind_io (of_result (callback_path root (cb_attempt_id attempt))) (\<lambda>p.
     bind_io (gets (\<lambda>s. path_exists s p)) (\<lambda>there.
     if there then throw (InvalidRequest ''callback attempt already exists'')
     else sms_write_atomic p (CallbackJson attempt)))"

definition read_callback :: "world \<Rightarrow> path \<Rightarrow> error \<Rightarrow> callback_attempt res" where
  "read_callback s p missing =
     (case fs_get s p of
        None \<Rightarrow> Err missing
      | Some (File (CallbackJson a)) \<Rightarrow> Ok a
      | Some (File _) \<Rightarrow> Err (InternalError ''serialization'')
      | Some Dir \<Rightarrow> Err (InternalError capture_io_error))"

definition get_callback :: "world \<Rightarrow> path \<Rightarrow> string \<Rightarrow> callback_attempt res" where
  "get_callback s root attempt_id =
     bind_result (callback_path root attempt_id) (\<lambda>p. read_callback s p MessageNotFound)"

definition list_callbacks :: "world \<Rightarrow> path \<Rightarrow> string \<Rightarrow> callback_attempt list res" where
  "list_callbacks s root mid =
     (if \<not> is_dir s (root @ [''callbacks'']) then Err (InternalError capture_io_error)
      else
        bind_result
          (mapM_result (\<lambda>n. read_callback s (root @ [''callbacks'', n]) (InternalError capture_io_error))
            (filter (has_extension ''json'') (dir_entries s (root @ [''callbacks''])))) (\<lambda>attempts.
        Ok (sort_key (\<lambda>a. (cb_attempted_at a, cb_attempt_id a)) (filter (\<lambda>a. cb_message_id a = mid) attempts))))"

section \<open>Removing\<close>

definition delete_message_locked :: "path \<Rightarrow> string \<Rightarrow> string \<Rightarrow> unit io" where
  "delete_message_locked root peer mid =
     bind_io (of_result (sms_message_path root mid)) (\<lambda>p.
     bind_io (gets (\<lambda>s. read_message_path s p)) (\<lambda>r.
     then_io (case r of Ok m \<Rightarrow> guard_io (sms_peer m = peer) MessageNotFound | Err _ \<Rightarrow> return ())
     (then_io (remove_if_present p)
     (bind_io (eval (\<lambda>s. peer_index_dir (ext s) root peer)) (\<lambda>dir.
      then_io (remove_if_present (dir @ [mid @ ''.idx'']))
      (then_io (remove_dir_if_present (root @ [''media'', mid]))
      (bind_io (eval (\<lambda>s. list_callbacks s root mid)) (\<lambda>attempts.
       then_io (for_each attempts (\<lambda>a. bind_io (of_result (callback_path root (cb_attempt_id a))) remove_if_present))
       (bind_io (eval (\<lambda>s. message_ids_for_peer s root peer)) (\<lambda>ids.
        when_io (ids = [])
          (bind_io (eval (\<lambda>s. peer_index_dir (ext s) root peer)) (\<lambda>dir.
           then_io (remove_dir_if_present dir)
             (bind_io (eval (\<lambda>s. peer_sidecar (ext s) root peer)) remove_if_present)))))))))))))"

definition delete_sms_message :: "path \<Rightarrow> string \<Rightarrow> string \<Rightarrow> unit io" where
  "delete_sms_message root peer mid = delete_message_locked root peer mid"

definition delete_conversation :: "path \<Rightarrow> string \<Rightarrow> unit io" where
  "delete_conversation root peer =
     bind_io (eval (\<lambda>s. message_ids_for_peer s root peer)) (\<lambda>ids.
     for_each ids (delete_message_locked root peer))"

definition open_sms_store :: "path \<Rightarrow> path io" where
  "open_sms_store blobs_path =
     (let root = blobs_path @ [''_sms''] in
      then_io (for_each [''messages'', ''conversations'', ''media'', ''destinations'', ''callbacks'']
                 (\<lambda>child. create_dir_all (root @ [child]) capture_io_error))
      (then_io (recover root) (return root)))"

end
