(* ===== verification/Capture_Correct.thy ===== *)
theory Capture_Correct
  imports Capture Samples
begin

text \<open>
  Captures are atomic: whatever fails while a batch is published and wherever the process stops,
  the next recovery leaves all of its files or none of them.
\<close>

section \<open>Calls\<close>

lemma for_each_snoc: "for_each (xs @ [y]) f = then_io (for_each xs f) (f y)"
proof (induction xs)
  case Nil
  then show ?case by (simp add: fun_eq_iff bind_io_def return_def split: prod.split outcome.split)
next
  case (Cons a xs)
  then show ?case by (simp add: fun_eq_iff bind_io_def split: prod.split outcome.split)
qed

lemma runs_remove_dir_all_any:
  assumes "p \<noteq> []" "\<not> nf" "I t" "\<And>q. I (without (\<lambda>r. strict_prefix p r \<and> q r) t)"
    and "I (without (prefix p) t)" "Q () (without (prefix p) t)"
  shows "runs x nf I t (remove_dir_all p msg) Q"
  unfolding remove_dir_all_def
  by (rule runs_syscall_any) (use assms in \<open>auto simp: without_def [abs_def] split: if_splits\<close>)

lemma runs_sync_any: "\<not> nf \<Longrightarrow> I t \<Longrightarrow> Q () t \<Longrightarrow> runs x nf I t (sync_path p msg) Q"
  unfolding sync_path_def by (rule runs_syscall_any) (auto simp: untouched_def split: if_splits)

lemma runs_remove_if_present:
  assumes "p \<noteq> []" "t p \<noteq> Some Dir" "I t" "I (t(p := None))" "Q () (t(p := None))"
  shows "runs x nf I t (remove_if_present p) Q"
  unfolding remove_if_present_def
proof (rule runs_syscall [where t' = "t(p := None)"])
  fix s
  assume s: "fs_get s = t"
  show "\<exists>s'. (case fs_get s p of None \<Rightarrow> Some s | Some (File _) \<Rightarrow> Some (fs_delete (\<lambda>q. q = p) s) | Some Dir \<Rightarrow> None) = Some s' \<and>
      fs_get s' = t(p := None) \<and> rest_same s s' \<and> faults s' = faults s"
    using assms(1,2) s by (cases "t p") (auto simp: fun_upd_None_eq split: node.splits)
qed (use assms in \<open>auto simp: untouched_def\<close>)

lemma runs_create_new:
  "p \<noteq> [] \<Longrightarrow> t (parent p) = Some Dir \<Longrightarrow> t p = None \<Longrightarrow> I t \<Longrightarrow> I (t(p \<mapsto> File (Bytes []))) \<Longrightarrow>
   Q () (t(p \<mapsto> File (Bytes []))) \<Longrightarrow> runs x nf I t (create_new_file p msg) Q"
  unfolding create_new_file_def
  by (rule runs_syscall [where t' = "t(p \<mapsto> File (Bytes []))"]) (auto simp: node_simps untouched_def)

lemma runs_write_new:
  assumes p: "p \<noteq> []" "t (parent p) = Some Dir" "t p = None" and I: "I t" "\<And>c. I (t(p \<mapsto> File c))"
    and Q: "Q () (t(p \<mapsto> File data))"
  shows "runs x nf I t (write_new_synced p data) Q"
  unfolding write_new_synced_def
proof (rule runs_bind [OF runs_create_new [where Q = "\<lambda>_ t'. t' = t(p \<mapsto> File (Bytes []))"]])
  fix t1
  assume t1: "t1 = t(p \<mapsto> File (Bytes []))"
  have "runs x nf I t1 (write_all p data capture_io_error) (\<lambda>_ t'. t' = t(p \<mapsto> File data))"
    unfolding t1 using p I by (intro runs_write_all) auto
  then show "runs x nf I t1 (then_io (write_all p data capture_io_error) (sync_path p capture_io_error)) Q"
    by (rule runs_bind) (use p I Q in \<open>auto intro!: runs_sync_path\<close>)
qed (use assms in auto)

lemma runs_create_dir_all:
  assumes "t [] = Some Dir" and "\<And>q c. prefix q p \<Longrightarrow> t q \<noteq> Some (File c)"
    and "\<And>t'. dirs_added p t t' \<Longrightarrow> I t'"
  shows "runs x nf I t (create_dir_all p msg) (\<lambda>_ t'. dirs_added p t t' \<and> t' p = Some Dir)"
  using assms
proof (induction p rule: rev_induct)
  case Nil
  then show ?case by (auto simp: create_dir_all_def intro: runs_return)
next
  case (snoc c p)
  let ?p = "p @ [c]"
  have tl: "tl (prefixes ?p) = tl (prefixes p) @ [?p]" by (cases p) (simp_all add: prefixes_snoc)
  have up: "dirs_added ?p t t'" if "dirs_added p t t'" for t' using that by (auto simp: dirs_added_def)
  have IH: "runs x nf I t (create_dir_all p msg) (\<lambda>_ t'. dirs_added p t t' \<and> t' p = Some Dir)"
    using snoc.prems up by (intro snoc.IH) auto
  show ?case
    unfolding create_dir_all_def tl for_each_snoc
  proof (rule runs_bind [OF IH [unfolded create_dir_all_def]])
    fix t1
    assume t1: "dirs_added p t t1 \<and> t1 p = Some Dir" and I1: "I t1"
    have "\<not> prefix ?p p" by (auto dest: prefix_length_le)
    then have same: "t1 ?p = t ?p" using t1 unfolding dirs_added_def by blast
    have new: "dirs_added ?p t (t1(?p \<mapsto> Dir))" if "t ?p = None"
      using t1 that unfolding dirs_added_def by (auto simp: parent_def)
    show "runs x nf I t1 (bind_io (gets (\<lambda>s. is_dir s ?p)) (\<lambda>there. when_io (\<not> there) (create_dir ?p msg)))
        (\<lambda>_ t'. dirs_added ?p t t' \<and> t' ?p = Some Dir)"
    proof (rule runs_get [where a = "t1 ?p = Some Dir"])
      show "runs x nf I t1 (when_io (t1 ?p \<noteq> Some Dir) (create_dir ?p msg)) (\<lambda>_ t'. dirs_added ?p t t' \<and> t' ?p = Some Dir)"
      proof (rule runs_when)
        assume "t1 ?p \<noteq> Some Dir"
        then have none: "t ?p = None" using same snoc.prems(2) [of ?p] by (cases "t ?p"; cases "the (t ?p)") auto
        then show "runs x nf I t1 (create_dir ?p msg) (\<lambda>_ t'. dirs_added ?p t t' \<and> t' ?p = Some Dir)"
          using t1 I1 same new snoc.prems(3) by (intro runs_create_dir) auto
      qed (use t1 I1 up in auto)
    qed (use I1 in \<open>auto simp: node_simps\<close>)
  qed
qed


section \<open>What recovery means for the tree\<close>

definition committed_in :: "path \<Rightarrow> tree \<Rightarrow> string \<Rightarrow> bool" where
  "committed_in root t e \<longleftrightarrow> (\<exists>c. t (root @ [TRANSACTIONS, e, ''committed'']) = Some (File c))"

definition uncommitted :: "path \<Rightarrow> tree \<Rightarrow> string \<Rightarrow> bool" where
  "uncommitted root t e \<longleftrightarrow> t (root @ [TRANSACTIONS, e]) = Some Dir \<and> \<not> committed_in root t e"

definition intent_of :: "path \<Rightarrow> tree \<Rightarrow> string \<Rightarrow> path list" where
  "intent_of root t e =
     (case t (root @ [TRANSACTIONS, e, ''intent.json'']) of Some (File (IntentJson ps)) \<Rightarrow> ps | _ \<Rightarrow> [])"

definition doomed :: "path \<Rightarrow> tree \<Rightarrow> path \<Rightarrow> bool" where
  "doomed root t q \<longleftrightarrow>
     (\<exists>e. uncommitted root t e \<and>
        (prefix (root @ [TRANSACTIONS, e]) q \<or> (\<exists>p \<in> set (intent_of root t e). q = root @ p)))"

definition recovered :: "path \<Rightarrow> tree \<Rightarrow> tree" where
  "recovered root t q = (if doomed root t q then None else t q)"

text \<open>
  The journal of an opened store: its directory exists, and every intent that recovery will read is
  complete and names files outside the journal.
\<close>

definition intent_path_ok :: "path \<Rightarrow> tree \<Rightarrow> path \<Rightarrow> bool" where
  "intent_path_ok root t p \<longleftrightarrow>
     p \<noteq> [] \<and> list_all normal_component p \<and> \<not> prefix (root @ [TRANSACTIONS]) (root @ p) \<and> t (root @ p) \<noteq> Some Dir"

definition journal_ok :: "path \<Rightarrow> tree \<Rightarrow> bool" where
  "journal_ok root t \<longleftrightarrow>
     (\<forall>q. prefix q (root @ [TRANSACTIONS]) \<longrightarrow> t q = Some Dir) \<and>
     (\<forall>e c. uncommitted root t e \<longrightarrow> t (root @ [TRANSACTIONS, e, ''intent.json'']) = Some (File c) \<longrightarrow>
        (\<exists>ps. c = IntentJson ps \<and> list_all (intent_path_ok root t) ps))"

text \<open>\<open>t\<close> is \<open>t0\<close> after part of a recovery.\<close>

definition shrunk :: "path \<Rightarrow> tree \<Rightarrow> tree \<Rightarrow> bool" where
  "shrunk root t0 t \<longleftrightarrow>
     (\<forall>q. t q = t0 q \<or> doomed root t0 q \<and> t q = None) \<and>
     (\<forall>e. uncommitted root t0 e \<longrightarrow>
        (t (root @ [TRANSACTIONS, e]) = None \<longrightarrow> (\<forall>q. prefix (root @ [TRANSACTIONS, e]) q \<longrightarrow> t q = None)) \<and>
        (t (root @ [TRANSACTIONS, e, ''intent.json'']) = t0 (root @ [TRANSACTIONS, e, ''intent.json'']) \<or>
         (\<forall>p \<in> set (intent_of root t0 e). t (root @ p) = None)))"

lemma journal_okD:
  assumes "journal_ok root t"
  shows "prefix q (root @ [TRANSACTIONS]) \<Longrightarrow> t q = Some Dir"
    "uncommitted root t e \<Longrightarrow> t (root @ [TRANSACTIONS, e, ''intent.json'']) = Some (File c) \<Longrightarrow>
       \<exists>ps. c = IntentJson ps \<and> list_all (intent_path_ok root t) ps"
  using assms unfolding journal_ok_def by blast+

lemma in_intent:
  assumes "p \<in> set (intent_of root t e)"
  obtains ps where "t (root @ [TRANSACTIONS, e, ''intent.json'']) = Some (File (IntentJson ps))" "p \<in> set ps"
  using assms unfolding intent_of_def by (auto split: option.splits node.splits content.splits dest: sym)

lemma intent_paths_ok:
  assumes "journal_ok root t" "uncommitted root t e" "p \<in> set (intent_of root t e)"
  shows "intent_path_ok root t p"
proof -
  obtain ps where ps: "t (root @ [TRANSACTIONS, e, ''intent.json'']) = Some (File (IntentJson ps))" "p \<in> set ps"
    using in_intent [OF assms(3)] .
  from journal_okD(2) [OF assms(1,2) ps(1)] ps(2) show ?thesis by (auto simp: list_all_iff)
qed

lemma shrunkD:
  assumes "shrunk root t0 t"
  shows "t q = t0 q \<or> doomed root t0 q \<and> t q = None"
    "uncommitted root t0 e \<Longrightarrow> t (root @ [TRANSACTIONS, e]) = None \<Longrightarrow> prefix (root @ [TRANSACTIONS, e]) q \<Longrightarrow> t q = None"
    "uncommitted root t0 e \<Longrightarrow> t (root @ [TRANSACTIONS, e, ''intent.json'']) = t0 (root @ [TRANSACTIONS, e, ''intent.json'']) \<or>
       (\<forall>p \<in> set (intent_of root t0 e). t (root @ p) = None)"
  using assms unfolding shrunk_def by blast+

lemma shrunk_refl:
  assumes "journal_ok root t"
  shows "shrunk root t t"
  by (auto simp: shrunk_def uncommitted_def)

lemma doomed_outside_journal:
  assumes "journal_ok root t" "doomed root t (root @ TRANSACTIONS # e # q)"
  shows "uncommitted root t e"
  using assms intent_paths_ok [OF assms(1)] by (fastforce simp: doomed_def intent_path_ok_def)

lemma shrunk_committed:
  assumes "journal_ok root t0" "shrunk root t0 t"
  shows "committed_in root t e \<longleftrightarrow> committed_in root t0 e"
proof -
  let ?c = "root @ [TRANSACTIONS, e, ''committed'']"
  have "t ?c = t0 ?c \<or> uncommitted root t0 e \<and> t ?c = None"
    using assms(2) doomed_outside_journal [OF assms(1), of e] unfolding shrunk_def by blast
  then show ?thesis unfolding committed_in_def uncommitted_def by (metis option.distinct(1))
qed

lemma shrunk_uncommitted:
  assumes "journal_ok root t0" "shrunk root t0 t"
  shows "uncommitted root t e \<longleftrightarrow> uncommitted root t0 e \<and> t (root @ [TRANSACTIONS, e]) \<noteq> None"
proof -
  have "t (root @ [TRANSACTIONS, e]) = t0 (root @ [TRANSACTIONS, e]) \<or> t (root @ [TRANSACTIONS, e]) = None"
    using assms(2) by (auto simp: shrunk_def)
  then show ?thesis unfolding uncommitted_def using shrunk_committed [OF assms] by (metis option.distinct(1))
qed

lemma shrunk_intent:
  assumes "journal_ok root t0" "shrunk root t0 t" "uncommitted root t0 e"
  shows "intent_of root t e = intent_of root t0 e \<or>
    intent_of root t e = [] \<and> (\<forall>p \<in> set (intent_of root t0 e). t (root @ p) = None)"
  using assms(2,3) unfolding shrunk_def intent_of_def by (smt (verit, best) option.case_eq_if)

lemma shrunk_doomed:
  assumes "journal_ok root t0" "shrunk root t0 t" "doomed root t q"
  shows "doomed root t0 q"
proof -
  from assms(3) obtain e where e: "uncommitted root t e"
    and q: "prefix (root @ [TRANSACTIONS, e]) q \<or> (\<exists>p \<in> set (intent_of root t e). q = root @ p)"
    by (auto simp: doomed_def)
  have e0: "uncommitted root t0 e" using e shrunk_uncommitted [OF assms(1,2)] by blast
  have "set (intent_of root t e) \<subseteq> set (intent_of root t0 e)"
    using shrunk_intent [OF assms(1,2) e0] by auto
  with e0 q show ?thesis unfolding doomed_def by blast
qed

lemma shrunk_recovered:
  assumes ok: "journal_ok root t0" and sh: "shrunk root t0 t"
  shows "recovered root t = recovered root t0"
proof
  fix q
  have keep: "t q = t0 q \<or> doomed root t0 q \<and> t q = None" using sh by (simp add: shrunk_def)
  have "t q = None" if d0: "doomed root t0 q" and nd: "\<not> doomed root t q"
  proof -
    from d0 obtain e where e: "uncommitted root t0 e"
      and q: "prefix (root @ [TRANSACTIONS, e]) q \<or> (\<exists>p \<in> set (intent_of root t0 e). q = root @ p)"
      by (auto simp: doomed_def)
    show ?thesis
    proof (cases "t (root @ [TRANSACTIONS, e]) = None")
      case True
      then have below: "\<forall>q. prefix (root @ [TRANSACTIONS, e]) q \<longrightarrow> t q = None" using sh e by (auto simp: shrunk_def)
      then have "intent_of root t e = []" by (simp add: intent_of_def)
      with below q shrunk_intent [OF ok sh e] show ?thesis by auto
    next
      case False
      then have "uncommitted root t e" using shrunk_uncommitted [OF ok sh] e by blast
      with nd q shrunk_intent [OF ok sh e] show ?thesis unfolding doomed_def by metis
    qed
  qed
  with keep shrunk_doomed [OF ok sh] show "recovered root t q = recovered root t0 q"
    by (auto simp: recovered_def)
qed

lemma shrunk_journal:
  assumes ok: "journal_ok root t0" and sh: "shrunk root t0 t"
  shows "journal_ok root t"
  unfolding journal_ok_def
proof (intro conjI allI impI)
  fix q
  assume "prefix q (root @ [TRANSACTIONS])"
  moreover from this have "t0 q = Some Dir" by (rule journal_okD(1) [OF ok])
  moreover have "\<not> doomed root t0 q"
  proof
    assume "doomed root t0 q"
    then obtain e where e: "uncommitted root t0 e"
      and "prefix (root @ [TRANSACTIONS, e]) q \<or> (\<exists>p \<in> set (intent_of root t0 e). q = root @ p)"
      by (auto simp: doomed_def)
    moreover have "\<not> prefix (root @ [TRANSACTIONS, e]) q"
      using \<open>prefix q (root @ [TRANSACTIONS])\<close> by (fastforce dest: prefix_length_le)
    ultimately show False using intent_paths_ok [OF ok e] \<open>t0 q = Some Dir\<close> by (auto simp: intent_path_ok_def)
  qed
  ultimately show "t q = Some Dir" using shrunkD(1) [OF sh, of q] by metis
next
  fix e c
  assume e: "uncommitted root t e" and c: "t (root @ [TRANSACTIONS, e, ''intent.json'']) = Some (File c)"
  have e0: "uncommitted root t0 e" using e shrunk_uncommitted [OF ok sh] by blast
  have "t0 (root @ [TRANSACTIONS, e, ''intent.json'']) = Some (File c)"
    using shrunkD(1) [OF sh, of "root @ [TRANSACTIONS, e, ''intent.json'']"] c by auto
  then obtain ps where ps: "c = IntentJson ps" "list_all (intent_path_ok root t0) ps"
    using journal_okD(2) [OF ok e0] by blast
  have "intent_path_ok root t p" if "intent_path_ok root t0 p" for p
  proof -
    have "t (root @ p) = t0 (root @ p) \<or> t (root @ p) = None" using sh by (auto simp: shrunk_def)
    with that show ?thesis by (auto simp: intent_path_ok_def)
  qed
  with ps show "\<exists>ps. c = IntentJson ps \<and> list_all (intent_path_ok root t) ps" by (auto simp: list_all_iff)
qed


section \<open>Recovery\<close>

lemma committed_in_world: "transaction_committed s root e \<longleftrightarrow> committed_in root (fs_get s) e"
  by (auto simp: transaction_committed_def committed_in_def node_simps split: option.splits node.splits)

text \<open>Removing a doomed file, or part of a transaction whose files are gone, is a step of recovery.\<close>

lemma shrunk_remove:
  assumes "journal_ok root t0" "shrunk root t0 t" "uncommitted root t0 e" "p \<in> set (intent_of root t0 e)"
  shows "shrunk root t0 (t(root @ p := None))"
proof -
  have d: "doomed root t0 (root @ p)" using assms(3,4) by (auto simp: doomed_def)
  have out: "\<not> prefix (root @ [TRANSACTIONS]) (root @ p)"
    using intent_paths_ok [OF assms(1,3,4)] by (simp add: intent_path_ok_def)
  then have n: "root @ TRANSACTIONS # q \<noteq> root @ p" for q by auto
  show ?thesis
    unfolding shrunk_def
  proof (intro conjI allI impI)
    fix e' q
    assume "uncommitted root t0 e'" "(t(root @ p := None)) (root @ [TRANSACTIONS, e']) = None" "prefix (root @ [TRANSACTIONS, e']) q"
    then show "(t(root @ p := None)) q = None" using shrunkD(2) [OF assms(2), of e' q] n by auto
  next
    fix e'
    let ?i = "root @ [TRANSACTIONS, e', ''intent.json'']"
    assume "uncommitted root t0 e'"
    then show "(t(root @ p := None)) ?i = t0 ?i \<or> (\<forall>pa \<in> set (intent_of root t0 e'). (t(root @ p := None)) (root @ pa) = None)"
      using shrunkD(3) [OF assms(2), of e'] n by auto
  qed (use shrunkD(1) [OF assms(2)] d in auto)
qed

lemma shrunk_without:
  assumes "shrunk root t0 t" "uncommitted root t0 e" "\<forall>p \<in> set (intent_of root t0 e). t (root @ p) = None"
    and cut: "\<And>q. r q \<Longrightarrow> prefix (root @ [TRANSACTIONS, e]) q" "r (root @ [TRANSACTIONS, e]) \<Longrightarrow> r = prefix (root @ [TRANSACTIONS, e])"
  shows "shrunk root t0 (without r t)"
  unfolding shrunk_def
proof (intro conjI allI impI)
  fix q
  show "without r t q = t0 q \<or> doomed root t0 q \<and> without r t q = None"
    using assms(1,2) cut(1) [of q] unfolding shrunk_def without_def doomed_def by auto
next
  fix e' q
  assume e': "uncommitted root t0 e'" and gone: "without r t (root @ [TRANSACTIONS, e']) = None"
    and q: "prefix (root @ [TRANSACTIONS, e']) q"
  show "without r t q = None"
  proof (cases "t (root @ [TRANSACTIONS, e']) = None")
    case True
    then show ?thesis using assms(1) e' q unfolding shrunk_def without_def by auto
  next
    case False
    then have r: "r (root @ [TRANSACTIONS, e'])" using gone by (simp add: without_def split: if_splits)
    then have "e' = e" using cut(1) [OF r] by (auto simp: prefix_def)
    with r q cut(2) show ?thesis by (simp add: without_def)
  qed
next
  fix e'
  let ?i = "root @ [TRANSACTIONS, e', ''intent.json'']"
  assume e': "uncommitted root t0 e'"
  show "without r t ?i = t0 ?i \<or> (\<forall>p \<in> set (intent_of root t0 e'). without r t (root @ p) = None)"
  proof (cases "e' = e")
    case True
    then show ?thesis using assms(3) by (simp add: without_def)
  next
    case False
    then have "\<not> r ?i" using cut(1) [of ?i] by (auto simp: prefix_def)
    then show ?thesis using assms(1) e' unfolding shrunk_def without_def by auto
  qed
qed

lemma validate_relative_ok: "intent_path_ok root t p \<Longrightarrow> validate_relative p = Ok ()"
  by (simp add: validate_relative_def intent_path_ok_def)

lemma runs_remove_intent:
  assumes ok: "journal_ok root t0" and e: "uncommitted root t0 e" and ps: "intent_of root t0 e = ps" and sh: "shrunk root t0 t"
    and dir: "t (root @ [TRANSACTIONS, e]) = Some Dir"
  shows "runs x nf (shrunk root t0) t
    (for_each ps (\<lambda>p. then_io (of_result (validate_relative p)) (remove_if_present (root @ p))))
    (\<lambda>_ t'. shrunk root t0 t' \<and> t' (root @ [TRANSACTIONS, e]) = Some Dir \<and> (\<forall>q. t q = None \<longrightarrow> t' q = None) \<and>
      (\<forall>p \<in> set ps. t' (root @ p) = None))"
proof -
  let ?P = "\<lambda>ys t'. shrunk root t0 t' \<and> t' (root @ [TRANSACTIONS, e]) = Some Dir \<and> (\<forall>q. t q = None \<longrightarrow> t' q = None) \<and>
    (\<forall>p \<in> set ps - set ys. t' (root @ p) = None)"
  have "runs x nf (shrunk root t0) t
    (for_each ps (\<lambda>p. then_io (of_result (validate_relative p)) (remove_if_present (root @ p)))) (\<lambda>_. ?P [])"
  proof (rule runs_for_each)
    fix y ys t1
    assume suf: "suffix (y # ys) ps" and P: "?P (y # ys) t1"
    then have y: "y \<in> set ps" by (meson list.set_intros(1) set_mono_suffix subsetD)
    then have oky: "intent_path_ok root t0 y" using intent_paths_ok [OF ok e] ps by simp
    have sh1: "shrunk root t0 (t1(root @ y := None))" using shrunk_remove [OF ok _ e] P y ps by simp
    have nd: "t1 (root @ y) \<noteq> Some Dir"
      using P oky unfolding shrunk_def intent_path_ok_def by (metis option.distinct(1))
    have "root @ y \<noteq> root @ [TRANSACTIONS, e]" "y \<noteq> []" using oky by (auto simp: intent_path_ok_def)
    then have "runs x nf (shrunk root t0) t1 (remove_if_present (root @ y)) (\<lambda>_. ?P ys)"
      using nd sh1 P by (intro runs_remove_if_present) auto
    then show "runs x nf (shrunk root t0) t1
        (then_io (of_result (validate_relative y)) (remove_if_present (root @ y))) (\<lambda>_. ?P ys)"
      by (simp add: validate_relative_ok [OF oky] of_result_def)
  qed (use sh dir in auto)
  then show ?thesis by simp
qed


lemma runs_recover_transaction:
  assumes ok: "journal_ok root t0" and sh: "shrunk root t0 t"
  shows "runs x nf (shrunk root t0) t (recover_transaction root e)
    (\<lambda>_ t'. shrunk root t0 t' \<and> (\<forall>e'. t (root @ [TRANSACTIONS, e']) = None \<longrightarrow> t' (root @ [TRANSACTIONS, e']) = None) \<and>
       (uncommitted root t0 e \<longrightarrow> t' (root @ [TRANSACTIONS, e]) = None))" (is "runs x nf ?I t _ ?Q")
proof -
  let ?d = "root @ [TRANSACTIONS, e]"
  let ?i = "root @ [TRANSACTIONS, e, ''intent.json'']"
  let ?rd = "bind_io (read_file ?i capture_io_error) (\<lambda>c. case c of
      IntentJson paths \<Rightarrow> for_each paths (\<lambda>p. then_io (of_result (validate_relative p)) (remove_if_present (root @ p)))
    | _ \<Rightarrow> throw (InternalError ''serialization''))"
  have finish: "runs x nf ?I t1 (remove_dir_all ?d capture_io_error) ?Q"
    if e: "uncommitted root t0 e" and t1: "shrunk root t0 t1" "t1 ?d = Some Dir" "\<forall>p \<in> set (intent_of root t0 e). t1 (root @ p) = None"
      and below: "\<forall>q. t q = None \<longrightarrow> t1 q = None" for t1
  proof (rule runs_remove_dir_all)
    show "shrunk root t0 (without (\<lambda>r. strict_prefix ?d r \<and> q r) t1)" for q
      by (rule shrunk_without [OF t1(1) e t1(3)]) auto
    show sh': "shrunk root t0 (without (prefix ?d) t1)" by (rule shrunk_without [OF t1(1) e t1(3)]) auto
    then show "?Q () (without (prefix ?d) t1)" using below by (simp add: without_def)
  qed (use t1 in auto)
  show ?thesis
    unfolding recover_transaction_def
  proof (rule runs_get [where a = "t ?d \<noteq> Some Dir \<or> committed_in root t e"])
    show "runs x nf ?I t (if t ?d \<noteq> Some Dir \<or> committed_in root t e then return ()
       else bind_io (gets (\<lambda>s. is_file s ?i)) (\<lambda>there. then_io (when_io there ?rd) (remove_dir_all ?d capture_io_error))) ?Q"
    proof (cases "t ?d \<noteq> Some Dir \<or> committed_in root t e")
      case True
      then have "uncommitted root t0 e \<longrightarrow> t ?d = None"
        using shrunkD(1) [OF sh, of ?d] shrunk_committed [OF ok sh] unfolding uncommitted_def by metis
      with True sh show ?thesis by (auto intro: runs_return)
    next
      case False
      then have e: "uncommitted root t0 e" using shrunk_uncommitted [OF ok sh] by (auto simp: uncommitted_def)
      have dir: "t ?d = Some Dir" using False by simp
      show ?thesis
      proof (cases "\<exists>c. t ?i = Some (File c)")
        case True
        then obtain c where c: "t ?i = Some (File c)" by blast
        then have c0: "t0 ?i = Some (File c)" using shrunkD(1) [OF sh, of ?i] by auto
        then obtain ps where ps: "c = IntentJson ps" using journal_okD(2) [OF ok e] by blast
        have intent: "intent_of root t0 e = ps" by (simp add: intent_of_def c0 ps)
        note loop = runs_remove_intent [OF ok e intent sh dir, of x nf]
        have "runs x nf ?I t ?rd (\<lambda>_ t'. shrunk root t0 t' \<and> t' ?d = Some Dir \<and> (\<forall>q. t q = None \<longrightarrow> t' q = None) \<and>
            (\<forall>p \<in> set ps. t' (root @ p) = None))"
          by (rule runs_read_then [where c = c], rule c, rule sh) (simp add: ps, rule loop)
        then have "runs x nf ?I t (then_io ?rd (remove_dir_all ?d capture_io_error)) ?Q"
          by (rule runs_bind) (use finish [OF e] intent in auto)
        with False c sh show ?thesis
          by (auto simp: when_io_def node_simps intro!: runs_get [where a = True])
      next
        case no: False
        have "\<forall>p \<in> set (intent_of root t0 e). t (root @ p) = None"
          using shrunkD(3) [OF sh e] no by (metis in_intent)
        moreover have "\<not> is_file s ?i" if "fs_get s = t" for s
          using no that by (cases "t ?i"; cases "the (t ?i)") (simp_all add: is_file_def file_content_def)
        ultimately show ?thesis
          using finish [OF e sh dir] False sh by (auto simp: when_io_def intro!: runs_get [where a = False])
      qed
    qed
  qed (use sh in \<open>auto simp: node_simps committed_in_world\<close>)
qed


lemma recovered_none: "(\<And>e. \<not> uncommitted root t e) \<Longrightarrow> recovered root t = t"
  by (simp add: fun_eq_iff recovered_def doomed_def)

lemma runs_recover:
  assumes ok: "journal_ok root t0"
  shows "runs x nf (shrunk root t0) t0 (recover root) (\<lambda>_ t'. t' = recovered root t0)"
proof -
  let ?T = "root @ [TRANSACTIONS]"
  let ?P = "\<lambda>ys t. shrunk root t0 t \<and> (\<forall>e. uncommitted root t0 e \<and> e \<notin> set ys \<longrightarrow> t (root @ [TRANSACTIONS, e]) = None)"
  have dirs: "t0 q = Some Dir" if "prefix q ?T" for q using journal_okD(1) [OF ok that] .
  have same: "t' = t0" if "dirs_added ?T t0 t'" for t' using that dirs unfolding dirs_added_def by fastforce
  have sh0: "shrunk root t0 t0" using shrunk_refl [OF ok] .
  have loop: "runs x nf (shrunk root t0) t0 (for_each es (recover_transaction root)) (\<lambda>_. ?P [])"
    if es: "set es = {n. t0 (?T @ [n]) \<noteq> None}" for es
  proof (rule runs_for_each [where P = ?P])
    show "?P es t0" using sh0 es by (auto simp: uncommitted_def)
  next
    fix y ys t
    assume "?P (y # ys) t"
    then show "runs x nf (shrunk root t0) t (recover_transaction root y) (\<lambda>_. ?P ys)"
      by (intro runs_conseq [OF runs_recover_transaction [OF ok]]) auto
  qed simp
  have fin: "t = recovered root t0" if "?P [] t" for t
  proof -
    have "\<not> uncommitted root t e" for e using that shrunk_uncommitted [OF ok, of t e] by auto
    then have "recovered root t = t" by (rule recovered_none)
    then show ?thesis using shrunk_recovered [OF ok] that by metis
  qed
  have sync: "runs x nf (shrunk root t0) t (sync_path ?T capture_io_error) (\<lambda>_ t'. t' = recovered root t0)" if "?P [] t" for t
    using that fin [OF that] journal_okD(1) [OF shrunk_journal [OF ok], of t ?T] by (intro runs_sync_path) auto
  show ?thesis
    unfolding recover_def
  proof (rule runs_bind [OF runs_conseq [OF runs_create_dir_all [where I = "\<lambda>t. t = t0"]]])
    fix a :: unit and t1
    assume "t1 = t0"
    then show "runs x nf (shrunk root t0) t1 (bind_io (read_dir ?T capture_io_error) (\<lambda>entries.
        then_io (for_each entries (recover_transaction root)) (sync_path ?T capture_io_error))) (\<lambda>_ t'. t' = recovered root t0)"
      using dirs [of ?T] sh0
      by (intro runs_bind [OF runs_read_dir [where Q = "\<lambda>es t. t = t0 \<and> set es = {n. t0 (?T @ [n]) \<noteq> None}"]])
        (auto intro!: runs_bind [OF loop] sync)
  qed (use dirs same sh0 in fastforce)+
qed


section \<open>Batches\<close>

abbreviation journal :: "path \<Rightarrow> path" where
  "journal root \<equiv> root @ [TRANSACTIONS]"

abbreviation tx_dir :: "path \<Rightarrow> string \<Rightarrow> path" where
  "tx_dir root tid \<equiv> root @ [TRANSACTIONS, tid]"

abbreviation destinations :: "(path \<times> content) list \<Rightarrow> path set" where
  "destinations fs \<equiv> fst ` set fs"

definition targets :: "string \<Rightarrow> (path \<times> content) list \<Rightarrow> path set" where
  "targets tid fs = destinations fs \<union> (\<lambda>p. pending_path p tid) ` destinations fs"

text \<open>
  A batch the capture accepts in the tree \<open>b\<close>: a new transaction, new files below the root that do
  not stand in each other's way, in directories that exist or can be created.
\<close>

definition batch_ok :: "path \<Rightarrow> string \<Rightarrow> (path \<times> content) list \<Rightarrow> tree \<Rightarrow> bool" where
  "batch_ok root tid fs b \<longleftrightarrow>
     (\<forall>q. prefix (tx_dir root tid) q \<longrightarrow> b q = None) \<and> distinct (map fst fs) \<and>
     (\<forall>p \<in> destinations fs.
        prefix root p \<and> drop (length root) p \<noteq> [] \<and> list_all normal_component (drop (length root) p) \<and>
        \<not> prefix (journal root) p \<and> b p = None \<and> b (pending_path p tid) = None \<and>
        (\<forall>q c. strict_prefix q p \<longrightarrow> b q \<noteq> Some (File c)) \<and>
        (\<forall>p' \<in> destinations fs. \<not> strict_prefix p p' \<and> \<not> prefix (pending_path p tid) p'))"

definition intent_paths :: "path \<Rightarrow> string \<Rightarrow> (path \<times> content) list \<Rightarrow> path list" where
  "intent_paths root tid fs =
     concat (map (\<lambda>(p, c). [drop (length root) p, pending_path (drop (length root) p) tid]) fs)"

lemma file_targets: "(p, c) \<in> set fs \<Longrightarrow> p \<in> targets tid fs" "(p, c) \<in> set fs \<Longrightarrow> pending_path p tid \<in> targets tid fs"
  by (force simp: targets_def)+

lemma parent_tx [simp]: "parent (root @ [T, tid, n]) = root @ [T, tid]" "parent (root @ [T, tid]) = root @ [T]"
  by (simp_all add: parent_def butlast_append)

lemma parent_neq: "p \<noteq> [] \<Longrightarrow> parent p \<noteq> p"
  by (cases p rule: rev_cases) (simp_all add: parent_def)

lemma batch_okD:
  assumes "batch_ok root tid fs b"
  shows "prefix (tx_dir root tid) q \<Longrightarrow> b q = None" "distinct (map fst fs)"
    "p \<in> destinations fs \<Longrightarrow> p = root @ drop (length root) p \<and> drop (length root) p \<noteq> [] \<and>
       list_all normal_component (drop (length root) p)"
    "p \<in> destinations fs \<Longrightarrow> \<not> prefix (journal root) p"
    "p \<in> destinations fs \<Longrightarrow> b p = None" "p \<in> destinations fs \<Longrightarrow> b (pending_path p tid) = None"
    "p \<in> destinations fs \<Longrightarrow> strict_prefix q p \<Longrightarrow> b q \<noteq> Some (File c)"
    "p \<in> destinations fs \<Longrightarrow> p' \<in> destinations fs \<Longrightarrow> \<not> strict_prefix p p'"
    "p \<in> destinations fs \<Longrightarrow> p' \<in> destinations fs \<Longrightarrow> \<not> prefix (pending_path p tid) p'"
proof -
  note unf = assms [unfolded batch_ok_def]
  show "prefix (tx_dir root tid) q \<Longrightarrow> b q = None" "distinct (map fst fs)" using unf by blast+
  assume "p \<in> destinations fs"
  with unf have P: "prefix root p" "drop (length root) p \<noteq> []" "list_all normal_component (drop (length root) p)"
    "\<not> prefix (journal root) p" "b p = None" "b (pending_path p tid) = None"
    "\<And>q c. strict_prefix q p \<Longrightarrow> b q \<noteq> Some (File c)"
    "\<And>p'. p' \<in> destinations fs \<Longrightarrow> \<not> strict_prefix p p' \<and> \<not> prefix (pending_path p tid) p'"
    by (meson bspec)+
  from P(1) have "p = root @ drop (length root) p" by (auto simp: prefix_def)
  then show "p = root @ drop (length root) p \<and> drop (length root) p \<noteq> [] \<and> list_all normal_component (drop (length root) p)"
    using P by simp
  show "\<not> prefix (journal root) p" "b p = None" "b (pending_path p tid) = None" using P by blast+
  show "strict_prefix q p \<Longrightarrow> b q \<noteq> Some (File c)" using P by blast
  show "p' \<in> destinations fs \<Longrightarrow> \<not> strict_prefix p p'" "p' \<in> destinations fs \<Longrightarrow> \<not> prefix (pending_path p tid) p'"
    using P by blast+
qed

lemma pending_append: "p \<noteq> [] \<Longrightarrow> pending_path (root @ p) tid = root @ pending_path p tid"
  by (simp add: pending_path_def parent_def butlast_append)

lemma pending_not_journal: "last p @ ''.pending-'' @ tid \<noteq> TRANSACTIONS"
proof
  assume "last p @ ''.pending-'' @ tid = TRANSACTIONS"
  then have "CHR ''d'' \<in> set TRANSACTIONS" by (metis (no_types, lifting) Un_iff list.set_intros set_append)
  then show False by (simp add: TRANSACTIONS_def)
qed

lemma pending_inj: "p \<noteq> [] \<Longrightarrow> p' \<noteq> [] \<Longrightarrow> pending_path p tid = pending_path p' tid \<Longrightarrow> p = p'"
  by (simp add: pending_path_def parent_def) (metis append_butlast_last_id)

lemma normal_pending: "normal_component (n @ ''.pending-'' @ tid)"
  by (auto simp: normal_component_def append_eq_Cons_conv)

lemma target_outside:
  assumes ok: "batch_ok root tid fs b" and q: "q \<in> targets tid fs"
  shows "\<not> prefix (journal root) q" "b q = None" "q \<noteq> []" "q = root @ drop (length root) q"
    "drop (length root) q \<noteq> []" "list_all normal_component (drop (length root) q)"
proof -
  from q obtain p where p: "p \<in> destinations fs" "q = p \<or> q = pending_path p tid" by (auto simp: targets_def)
  note P = batch_okD(3-6) [OF ok p(1)]
  let ?r = "drop (length root) p"
  have ne: "p \<noteq> []" using P(1) by auto
  have pend: "pending_path p tid = root @ butlast ?r @ [last p @ ''.pending-'' @ tid]"
    using P(1) ne by (metis append_assoc butlast_append parent_def pending_path_def)
  have out: "\<not> prefix (journal root) (pending_path p tid)"
  proof
    assume a: "prefix (journal root) (pending_path p tid)"
    have "prefix (journal root) (parent p)"
      using a ne pending_not_journal [of p tid] unfolding pending_path_def by (auto simp: prefix_snoc)
    then have "prefix (journal root) p" using ne by (metis append_butlast_last_id parent_def prefix_snoc)
    then show False using P(2) by simp
  qed
  have comps: "list_all normal_component (butlast ?r)" using P(1) by (metis in_set_butlastD list_all_iff)
  show "\<not> prefix (journal root) q" using p(2) P(2) out by blast
  show "b q = None" using p(2) P(3,4) by blast
  show "q \<noteq> []" "q = root @ drop (length root) q" "drop (length root) q \<noteq> []" "list_all normal_component (drop (length root) q)"
    using p(2) P(1) ne comps normal_pending by (auto simp: pend)
qed


section \<open>Publishing a batch\<close>

text \<open>
  What a capture may leave behind at any point, over the tree \<open>b\<close> it started from: its own journal
  entry, its files, whose names are in the journal while any of them exists, and new directories.
\<close>

definition new_dir :: "(path \<times> content) list \<Rightarrow> tree \<Rightarrow> tree \<Rightarrow> path \<Rightarrow> bool" where
  "new_dir fs b t q \<longleftrightarrow> b q = None \<and> t q = Some Dir \<and> (\<exists>p \<in> destinations fs. strict_prefix q p)"

definition intent_written :: "path \<Rightarrow> string \<Rightarrow> (path \<times> content) list \<Rightarrow> tree \<Rightarrow> bool" where
  "intent_written root tid fs t \<longleftrightarrow>
     t (root @ [TRANSACTIONS, tid, ''intent.json'']) = Some (File (IntentJson (intent_paths root tid fs)))"

definition in_flight :: "path \<Rightarrow> string \<Rightarrow> (path \<times> content) list \<Rightarrow> tree \<Rightarrow> tree \<Rightarrow> bool" where
  "in_flight root tid fs b t \<longleftrightarrow>
     (\<forall>q. t q = b q \<or> prefix (tx_dir root tid) q \<or> q \<in> targets tid fs \<and> t q \<noteq> Some Dir \<or> new_dir fs b t q) \<and>
     (t (tx_dir root tid) = Some Dir \<or> (\<forall>q. prefix (tx_dir root tid) q \<longrightarrow> t q = None)) \<and>
     (intent_written root tid fs t \<or>
      t (root @ [TRANSACTIONS, tid, ''intent.json'']) = None \<and> (\<forall>q \<in> targets tid fs. t q = None)) \<and>
     (committed_in root t tid \<longrightarrow> (\<forall>(p, c) \<in> set fs. t p = Some (File c)))"

lemma in_flightI:
  assumes "\<And>q. t q = b q \<or> prefix (tx_dir root tid) q \<or> q \<in> targets tid fs \<and> t q \<noteq> Some Dir \<or> new_dir fs b t q"
    "t (tx_dir root tid) = Some Dir \<or> (\<forall>q. prefix (tx_dir root tid) q \<longrightarrow> t q = None)"
    "intent_written root tid fs t \<or> t (root @ [TRANSACTIONS, tid, ''intent.json'']) = None \<and> (\<forall>q \<in> targets tid fs. t q = None)"
    "\<And>p c. committed_in root t tid \<Longrightarrow> (p, c) \<in> set fs \<Longrightarrow> t p = Some (File c)"
  shows "in_flight root tid fs b t"
  using assms unfolding in_flight_def by (intro conjI allI impI ballI) auto

lemma in_flightD:
  assumes "in_flight root tid fs b t"
  shows "t q = b q \<or> prefix (tx_dir root tid) q \<or> q \<in> targets tid fs \<and> t q \<noteq> Some Dir \<or> new_dir fs b t q"
    "t (tx_dir root tid) = Some Dir \<or> (\<forall>q. prefix (tx_dir root tid) q \<longrightarrow> t q = None)"
    "intent_written root tid fs t \<or> t (root @ [TRANSACTIONS, tid, ''intent.json'']) = None \<and> (\<forall>q \<in> targets tid fs. t q = None)"
    "committed_in root t tid \<Longrightarrow> (p, c) \<in> set fs \<Longrightarrow> t p = Some (File c)"
  using assms unfolding in_flight_def by blast+

lemma target_not_above:
  assumes "batch_ok root tid fs b" "q \<in> targets tid fs" "p \<in> destinations fs"
  shows "\<not> strict_prefix q p"
proof -
  from assms(2) obtain p' where p': "p' \<in> destinations fs" "q = p' \<or> q = pending_path p' tid" unfolding targets_def by blast
  from p'(2) show ?thesis
    using batch_okD(8,9) [OF assms(1) p'(1) assms(3)] by (auto simp: strict_prefix_def)
qed

lemma target_not_new: "batch_ok root tid fs b \<Longrightarrow> q \<in> targets tid fs \<Longrightarrow> \<not> new_dir fs b t q"
  using target_not_above unfolding new_dir_def by blast

lemma intent_has_dir:
  assumes "in_flight root tid fs b t" "intent_written root tid fs t"
  shows "t (tx_dir root tid) = Some Dir"
proof -
  have "prefix (tx_dir root tid) (root @ [TRANSACTIONS, tid, ''intent.json''])" by (simp add: prefix_def)
  with assms(2) in_flightD(2) [OF assms(1)] show ?thesis unfolding intent_written_def by (metis option.distinct(1))
qed

lemma journal_path_same:
  assumes "batch_ok root tid fs b" "in_flight root tid fs b t" "e \<noteq> tid"
  shows "t (root @ TRANSACTIONS # e # r) = b (root @ TRANSACTIONS # e # r)"
proof -
  let ?q = "root @ TRANSACTIONS # e # r"
  have "\<not> prefix (tx_dir root tid) ?q" using assms(3) by (auto simp: prefix_def)
  moreover have "?q \<notin> targets tid fs" using target_outside(1) [OF assms(1), of ?q] by (auto simp: prefix_def)
  moreover have "\<not> new_dir fs b t ?q"
    unfolding new_dir_def using batch_okD(4) [OF assms(1)] by (auto simp: strict_prefix_def prefix_def)
  ultimately show ?thesis using in_flightD(1) [OF assms(2), of ?q] by blast
qed

lemma only_own_uncommitted:
  assumes "batch_ok root tid fs b" "in_flight root tid fs b t" "\<And>e. \<not> uncommitted root b e" "uncommitted root t e"
  shows "e = tid"
proof (rule ccontr)
  assume "e \<noteq> tid"
  then have "t (root @ TRANSACTIONS # e # r) = b (root @ TRANSACTIONS # e # r)" for r
    using journal_path_same [OF assms(1,2)] by blast
  from this [of "[]"] this [of "[''committed'']"] assms(4) have "uncommitted root b e"
    by (simp add: uncommitted_def committed_in_def)
  with assms(3) show False by blast
qed

lemma set_intent_paths:
  "set (intent_paths root tid fs) =
     (\<Union>p \<in> destinations fs. {drop (length root) p, pending_path (drop (length root) p) tid})"
  by (induction fs) (auto simp: intent_paths_def)

lemma intent_paths_targets:
  assumes "batch_ok root tid fs b"
  shows "(\<lambda>p. root @ p) ` set (intent_paths root tid fs) = targets tid fs"
proof -
  have pend: "pending_path p tid = root @ pending_path (drop (length root) p) tid" if "p \<in> destinations fs" for p
    using batch_okD(3) [OF assms that] pending_append by metis
  have "(\<lambda>p. root @ p) ` set (intent_paths root tid fs) =
      (\<Union>p \<in> destinations fs. {root @ drop (length root) p, root @ pending_path (drop (length root) p) tid})"
    unfolding set_intent_paths by auto
  also have "\<dots> = (\<Union>p \<in> destinations fs. {p, pending_path p tid})"
    using pend batch_okD(3) [OF assms] by (intro SUP_cong refl) metis
  also have "\<dots> = targets tid fs" by (auto simp: targets_def)
  finally show ?thesis .
qed

lemma in_flight_journal:
  assumes ok: "journal_ok root b" "batch_ok root tid fs b" "\<And>e. \<not> uncommitted root b e" and fl: "in_flight root tid fs b t"
  shows "journal_ok root t"
  unfolding journal_ok_def
proof (intro conjI allI impI)
  fix q
  assume q: "prefix q (journal root)"
  have "b q = Some Dir" using journal_okD(1) [OF ok(1) q] .
  moreover have "\<not> prefix (tx_dir root tid) q" using q by (fastforce dest: prefix_length_le)
  moreover have "q \<notin> targets tid fs" using target_outside(2) [OF ok(2)] calculation(1) by fastforce
  ultimately show "t q = Some Dir" using in_flightD(1) [OF fl, of q] by (auto simp: new_dir_def)
next
  fix e c
  assume e: "uncommitted root t e" and c: "t (root @ [TRANSACTIONS, e, ''intent.json'']) = Some (File c)"
  have e: "e = tid" using only_own_uncommitted [OF ok(2) fl ok(3) e] .
  have "intent_path_ok root t p" if "p \<in> set (intent_paths root tid fs)" for p
  proof -
    have q: "root @ p \<in> targets tid fs" using intent_paths_targets [OF ok(2)] that by blast
    have "\<not> new_dir fs b t (root @ p)" "\<not> prefix (tx_dir root tid) (root @ p)"
    proof -
      show "\<not> prefix (tx_dir root tid) (root @ p)" using target_outside(1) [OF ok(2) q] by (auto simp: prefix_def)
      show "\<not> new_dir fs b t (root @ p)"
        using target_not_new [OF ok(2) q] .
    qed
    then have "t (root @ p) \<noteq> Some Dir" using in_flightD(1) [OF fl, of "root @ p"] target_outside(2) [OF ok(2) q] by auto
    with target_outside [OF ok(2) q] show ?thesis by (simp add: intent_path_ok_def)
  qed
  moreover have "c = IntentJson (intent_paths root tid fs)"
    using in_flightD(3) [OF fl] c e by (auto simp: intent_written_def)
  ultimately show "\<exists>ps. c = IntentJson ps \<and> list_all (intent_path_ok root t) ps" by (auto simp: list_all_iff)
qed

text \<open>After recovery, a batch without its marker has left at most directories.\<close>

lemma in_flight_recovered:
  assumes ok: "journal_ok root b" "batch_ok root tid fs b" "\<And>e. \<not> uncommitted root b e" and fl: "in_flight root tid fs b t"
    and un: "\<not> committed_in root t tid"
  shows "recovered root t q = b q \<or> new_dir fs b (recovered root t) q"
proof (cases "doomed root t q")
  case True
  have "b q = None"
  proof -
    from True obtain e where e: "uncommitted root t e"
      and q: "prefix (root @ [TRANSACTIONS, e]) q \<or> (\<exists>p \<in> set (intent_of root t e). q = root @ p)" by (auto simp: doomed_def)
    have e: "e = tid" using only_own_uncommitted [OF ok(2) fl ok(3) e] .
    have "set (intent_of root t tid) \<subseteq> set (intent_paths root tid fs)"
      using in_flightD(3) [OF fl] by (auto simp: intent_of_def intent_written_def)
    then have "prefix (tx_dir root tid) q \<or> q \<in> targets tid fs" using q e intent_paths_targets [OF ok(2)] by blast
    then show ?thesis using batch_okD(1) [OF ok(2)] target_outside(2) [OF ok(2)] by blast
  qed
  with True show ?thesis by (simp add: recovered_def)
next
  case False
  then have t: "recovered root t q = t q" by (simp add: recovered_def)
  have below: "t q = None" if "prefix (tx_dir root tid) q"
    using in_flightD(2) [OF fl] un False that unfolding doomed_def uncommitted_def by blast
  have "t q = None" if q: "q \<in> targets tid fs"
  proof (rule ccontr)
    assume "t q \<noteq> None"
    with q in_flightD(3) [OF fl] have w: "intent_written root tid fs t" by metis
    then have "t (tx_dir root tid) = Some Dir" by (rule intent_has_dir [OF fl])
    then have "uncommitted root t tid" using un by (simp add: uncommitted_def)
    moreover have "q \<in> (\<lambda>p. root @ p) ` set (intent_of root t tid)"
      using w q intent_paths_targets [OF ok(2)] by (simp add: intent_of_def intent_written_def)
    then obtain p where "p \<in> set (intent_of root t tid)" "q = root @ p" by (rule imageE)
    ultimately show False using False unfolding doomed_def by blast
  qed
  with below t in_flightD(1) [OF fl, of q] batch_okD(1) [OF ok(2)] target_outside(2) [OF ok(2)] show ?thesis
    unfolding new_dir_def by metis
qed


text \<open>The ways in which publication changes the tree.\<close>

lemma in_flight_start:
  assumes "batch_ok root tid fs b"
  shows "in_flight root tid fs b b"
proof -
  have "b (root @ TRANSACTIONS # tid # r) = None" for r using batch_okD(1) [OF assms] by (simp add: prefix_def)
  then show ?thesis
    using target_outside(2) [OF assms] unfolding in_flight_def committed_in_def by (auto simp: prefix_def)
qed

lemma parent_strict: "prefix q (parent p) \<Longrightarrow> p \<noteq> [] \<Longrightarrow> strict_prefix q p"
  by (cases p rule: rev_cases) (auto simp: parent_def strict_prefix_def)

lemma in_flight_target:
  assumes ok: "batch_ok root tid fs b" and fl: "in_flight root tid fs b t" and q: "q \<in> targets tid fs" "v \<noteq> Some Dir"
    and w: "intent_written root tid fs t \<or> v = None" and un: "\<not> committed_in root t tid"
  shows "in_flight root tid fs b (t(q := v))"
proof -
  have out: "\<not> prefix (tx_dir root tid) q" using target_outside(1) [OF ok q(1)] by (auto simp: prefix_def)
  then have same: "(t(q := v)) (root @ TRANSACTIONS # tid # r) = t (root @ TRANSACTIONS # tid # r)" for r
    by (auto simp: prefix_def)
  have new: "new_dir fs b t r \<Longrightarrow> new_dir fs b (t(q := v)) r" for r
    using target_not_new [OF ok q(1)] by (cases "r = q") (auto simp: new_dir_def)
  have "(t(q := v)) r = b r \<or> prefix (tx_dir root tid) r \<or> r \<in> targets tid fs \<and> (t(q := v)) r \<noteq> Some Dir \<or> new_dir fs b (t(q := v)) r" for r
    using in_flightD(1) [OF fl, of r] new [of r] q by auto
  moreover have "(t(q := v)) (tx_dir root tid) = Some Dir \<or> (\<forall>r. prefix (tx_dir root tid) r \<longrightarrow> (t(q := v)) r = None)"
    using in_flightD(2) [OF fl] same out by auto
  moreover have "intent_written root tid fs (t(q := v)) \<or>
      (t(q := v)) (root @ [TRANSACTIONS, tid, ''intent.json'']) = None \<and> (\<forall>q' \<in> targets tid fs. (t(q := v)) q' = None)"
    using in_flightD(3) [OF fl] w same unfolding intent_written_def by auto
  ultimately show ?thesis using un same unfolding in_flight_def committed_in_def by auto
qed

lemma in_flight_journal_file:
  assumes fl: "in_flight root tid fs b t" and q: "q = root @ [TRANSACTIONS, tid, n]" and d: "t (tx_dir root tid) = Some Dir"
    and w: "n = ''intent.json'' \<Longrightarrow> v = Some (File (IntentJson (intent_paths root tid fs)))"
    and c: "n = ''committed'' \<Longrightarrow> \<forall>(p, c) \<in> set fs. t p = Some (File c)"
    and out: "batch_ok root tid fs b"
  shows "in_flight root tid fs b (t(q := v))"
proof -
  have nt: "q \<notin> targets tid fs" using target_outside(1) [OF out, of q] by (auto simp: q prefix_def)
  have nd: "p \<noteq> q" if "(p, c) \<in> set fs" for p c using nt that by (force simp: targets_def)
  have new: "new_dir fs b (t(q := v)) r" if "new_dir fs b t r" for r
  proof -
    from that obtain p where p: "p \<in> destinations fs" "strict_prefix r p" "b r = None" "t r = Some Dir" by (auto simp: new_dir_def)
    have "r \<noteq> q" using p batch_okD(4) [OF out p(1)] by (auto simp: q strict_prefix_def prefix_def)
    with p show ?thesis by (auto simp: new_dir_def)
  qed
  show ?thesis
  proof (rule in_flightI)
    fix r
    show "(t(q := v)) r = b r \<or> prefix (tx_dir root tid) r \<or> r \<in> targets tid fs \<and> (t(q := v)) r \<noteq> Some Dir \<or>
        new_dir fs b (t(q := v)) r"
      using in_flightD(1) [OF fl, of r] new [of r] nt by (cases "r = q") (auto simp: q prefix_def)
  next
    show "(t(q := v)) (tx_dir root tid) = Some Dir \<or> (\<forall>r. prefix (tx_dir root tid) r \<longrightarrow> (t(q := v)) r = None)"
      using d by (simp add: q)
  next
    show "intent_written root tid fs (t(q := v)) \<or>
        (t(q := v)) (root @ [TRANSACTIONS, tid, ''intent.json'']) = None \<and> (\<forall>q' \<in> targets tid fs. (t(q := v)) q' = None)"
    proof (cases "n = ''intent.json''")
      case True
      then show ?thesis using w by (simp add: intent_written_def q)
    next
      case False
      then have "(t(q := v)) (root @ [TRANSACTIONS, tid, ''intent.json'']) = t (root @ [TRANSACTIONS, tid, ''intent.json''])"
        by (simp add: q)
      moreover have "(t(q := v)) q' = t q'" if "q' \<in> targets tid fs" for q' using nt that by (metis fun_upd_other)
      ultimately show ?thesis using in_flightD(3) [OF fl] unfolding intent_written_def by metis
    qed
  next
    fix p c
    assume com: "committed_in root (t(q := v)) tid" and pc: "(p, c) \<in> set fs"
    have "t p = Some (File c)"
    proof (cases "n = ''committed''")
      case True
      then show ?thesis using assms(5) pc by fast
    next
      case False
      with com have "committed_in root t tid" by (simp add: committed_in_def q)
      then show ?thesis using in_flightD(4) [OF fl] pc by simp
    qed
    then show "(t(q := v)) p = Some (File c)" using nd [OF pc] by simp
  qed
qed

lemma in_flight_dirs:
  assumes ok: "batch_ok root tid fs b" and fl: "in_flight root tid fs b t" and p: "p \<in> destinations fs"
    and add: "dirs_added (parent p) t t'"
  shows "in_flight root tid fs b t'" "\<And>q. \<not> strict_prefix q p \<Longrightarrow> t' q = t q"
    "\<And>q. q \<in> targets tid fs \<Longrightarrow> t' q = t q" "\<And>r. t' (root @ TRANSACTIONS # r) = t (root @ TRANSACTIONS # r)"
proof -
  have ne: "p \<noteq> []" using batch_okD(3) [OF ok p] by auto
  have step: "t' q = t q \<or> strict_prefix q p \<and> t q = None \<and> t' q = Some Dir" for q
    using add parent_strict [OF _ ne] unfolding dirs_added_def by metis
  show far: "t' q = t q" if "\<not> strict_prefix q p" for q using step [of q] that by blast
  show tg: "t' q = t q" if "q \<in> targets tid fs" for q using far target_not_above [OF ok that p] by blast
  show jr: "t' (root @ TRANSACTIONS # r) = t (root @ TRANSACTIONS # r)" for r
    using far batch_okD(4) [OF ok p] by (auto simp: strict_prefix_def prefix_def)
  have below: "t' q = t q" if "prefix (tx_dir root tid) q" for q using that jr by (auto simp: prefix_def)
  have com: "committed_in root t' tid \<longleftrightarrow> committed_in root t tid"
    and wr: "intent_written root tid fs t' \<longleftrightarrow> intent_written root tid fs t"
    by (simp_all add: committed_in_def intent_written_def jr)
  show "in_flight root tid fs b t'"
  proof (rule in_flightI)
    fix q
    consider "t' q = t q" | "strict_prefix q p" "t q = None" "t' q = Some Dir" using step [of q] by metis
    then show "t' q = b q \<or> prefix (tx_dir root tid) q \<or> q \<in> targets tid fs \<and> t' q \<noteq> Some Dir \<or> new_dir fs b t' q"
    proof cases
      case 1
      then show ?thesis using in_flightD(1) [OF fl, of q] by (auto simp: new_dir_def)
    next
      case 2
      have "\<not> prefix (tx_dir root tid) q" using 2(1) batch_okD(4) [OF ok p] by (auto simp: strict_prefix_def prefix_def)
      moreover have "q \<notin> targets tid fs" using target_not_above [OF ok _ p] 2(1) by blast
      ultimately have "b q = None" using in_flightD(1) [OF fl, of q] 2(2) by (auto simp: new_dir_def)
      then show ?thesis using 2 p by (auto simp: new_dir_def)
    qed
  next
    show "t' (tx_dir root tid) = Some Dir \<or> (\<forall>q. prefix (tx_dir root tid) q \<longrightarrow> t' q = None)"
      using in_flightD(2) [OF fl] below by (metis prefix_order.refl)
  next
    show "intent_written root tid fs t' \<or> t' (root @ [TRANSACTIONS, tid, ''intent.json'']) = None \<and> (\<forall>q \<in> targets tid fs. t' q = None)"
      using in_flightD(3) [OF fl] wr tg jr by metis
  next
    fix p' c
    assume "committed_in root t' tid" "(p', c) \<in> set fs"
    then show "t' p' = Some (File c)" using in_flightD(4) [OF fl] com tg [of p'] by (force simp: targets_def)
  qed
qed


section \<open>The commit\<close>

text \<open>The state between two files: the intent is written, the files of \<open>ys\<close> are still to come.\<close>

definition publishing :: "path \<Rightarrow> string \<Rightarrow> (path \<times> content) list \<Rightarrow> tree \<Rightarrow> (path \<times> content) list \<Rightarrow> tree \<Rightarrow> bool" where
  "publishing root tid fs b ys t \<longleftrightarrow>
     in_flight root tid fs b t \<and> intent_written root tid fs t \<and> t (root @ [TRANSACTIONS, tid, ''committed'']) = None \<and>
     (\<forall>p c. (p, c) \<in> set fs \<longrightarrow>
        t (pending_path p tid) = None \<and> t p = (if (p, c) \<in> set ys then None else Some (File c)))"

lemma publishing_target:
  assumes ok: "batch_ok root tid fs b" and pub: "publishing root tid fs b ys t"
    and q: "q \<in> targets tid fs" "v \<noteq> Some Dir"
  shows "in_flight root tid fs b (t(q := v))" "intent_written root tid fs (t(q := v))"
    "(t(q := v)) (root @ [TRANSACTIONS, tid, ''committed'']) = None"
proof -
  have ne: "root @ TRANSACTIONS # r \<noteq> q" for r using target_outside(1) [OF ok q(1)] by (auto simp: prefix_def)
  have "\<not> committed_in root t tid" using pub by (simp add: publishing_def committed_in_def)
  then show "in_flight root tid fs b (t(q := v))" using in_flight_target [OF ok _ q] pub by (simp add: publishing_def)
  show "intent_written root tid fs (t(q := v))" "(t(q := v)) (root @ [TRANSACTIONS, tid, ''committed'']) = None"
    using pub ne by (simp_all add: publishing_def intent_written_def)
qed

lemma publish_file_eq:
  "p \<noteq> [] \<Longrightarrow> publish_file tid (p, c) =
     then_io (create_dir_all (parent p) capture_io_error)
     (then_io (write_new_synced (pending_path p tid) c)
     (then_io (rename (pending_path p tid) p capture_io_error) (sync_path (parent p) capture_io_error)))"
  by (simp add: publish_file_def when_io_def)

lemma runs_publish_file:
  assumes ok: "batch_ok root tid fs b" and root: "journal_ok root b" and suf: "suffix ((p, c) # ys) fs"
    and pub: "publishing root tid fs b ((p, c) # ys) t"
  shows "runs x nf (in_flight root tid fs b) t (publish_file tid (p, c)) (\<lambda>_. publishing root tid fs b ys)"
proof -
  let ?I = "in_flight root tid fs b"
  let ?pp = "pending_path p tid"
  have mem: "(p, c) \<in> set fs" using suf by (meson list.set_intros(1) set_mono_suffix subsetD)
  then have d: "p \<in> destinations fs" by force
  have tp: "p \<in> targets tid fs" "?pp \<in> targets tid fs" using d by (auto simp: targets_def)
  have ne: "p \<noteq> []" using target_outside(3) [OF ok tp(1)] .
  have par: "parent ?pp = parent p" by (simp add: pending_path_def ne)
  have fl: "?I t" using pub by (simp add: publishing_def)
  have top: "t [] = Some Dir"
    using journal_okD(1) [OF root, of "[]"] in_flightD(1) [OF fl, of "[]"] target_outside(3) [OF ok, of "[]"]
    by (auto simp: new_dir_def)
  have nofile: "t q \<noteq> Some (File f)" if "prefix q (parent p)" for q f
  proof -
    have q: "strict_prefix q p" using parent_strict [OF that ne] .
    then have "\<not> prefix (tx_dir root tid) q" using batch_okD(4) [OF ok d] by (auto simp: strict_prefix_def prefix_def)
    moreover have "q \<notin> targets tid fs" using target_not_above [OF ok _ d] q by blast
    ultimately show ?thesis
      using in_flightD(1) [OF fl, of q] batch_okD(7) [OF ok d q, of f] by (auto simp: new_dir_def)
  qed
  have pub1: "publishing root tid fs b ((p, c) # ys) t1" if "dirs_added (parent p) t t1" for t1
  proof -
    note D = in_flight_dirs [OF ok fl d that]
    have "t1 p' = t p'" "t1 (pending_path p' tid) = t (pending_path p' tid)" if "(p', c') \<in> set fs" for p' c'
      using that D(3) by (force simp: targets_def)+
    then show ?thesis using pub D(1,4) unfolding publishing_def intent_written_def by simp
  qed
  have dist: "distinct (map fst ((p, c) # ys))" 
  proof -
    obtain zs where "fs = zs @ (p, c) # ys" using suf unfolding suffix_def by auto
    then have "map fst fs = map fst zs @ map fst ((p, c) # ys)" by simp
    then show ?thesis using batch_okD(2) [OF ok] by (metis distinct_append)
  qed
  have uniq: "c' = c" if "(p, c') \<in> set fs" for c' using mem that batch_okD(2) [OF ok] by (metis eq_key_imp_eq_value)
  have published: "publishing root tid fs b ys (t1(p \<mapsto> File c))" if P: "publishing root tid fs b ((p, c) # ys) t1" for t1
  proof -
    have pend: "pending_path p' tid \<noteq> p" if "(p', c') \<in> set fs" for p' c'
      using batch_okD(9) [OF ok _ d, of p'] that by force
    have "(t1(p \<mapsto> File c)) (pending_path p' tid) = None \<and>
        (t1(p \<mapsto> File c)) p' = (if (p', c') \<in> set ys then None else Some (File c'))" if m: "(p', c') \<in> set fs" for p' c'
    proof (cases "p' = p")
      case True
      then have "(p', c') \<notin> set ys" "c' = c" using dist uniq m by force+
      then show ?thesis using P m pend [OF m] True unfolding publishing_def by simp
    next
      case False
      then show ?thesis using P m pend [OF m] unfolding publishing_def by simp
    qed
    then show ?thesis
      using publishing_target [OF ok P tp(1), of "Some (File c)"] unfolding publishing_def by simp
  qed
  show ?thesis
    unfolding publish_file_eq [OF ne]
  proof (rule runs_bind [OF runs_create_dir_all [where I = ?I]])
    fix t1
    assume t1: "dirs_added (parent p) t t1 \<and> t1 (parent p) = Some Dir"
    let ?t2 = "t1(?pp \<mapsto> File c)"
    let ?t3 = "t1(p \<mapsto> File c)"
    note P1 = pub1 [OF conjunct1 [OF t1]]
    note tg = publishing_target(1) [OF ok P1]
    have free: "t1 p = None" "t1 ?pp = None" using P1 mem by (auto simp: publishing_def)
    have pne: "?pp \<noteq> p" "?pp \<noteq> []" "parent p \<noteq> ?pp" "parent p \<noteq> p"
      using batch_okD(9) [OF ok d d] target_outside(3) [OF ok tp(2)] par parent_neq [OF ne] parent_neq [of ?pp] by auto
    have t3: "?t2(?pp := None, p \<mapsto> File c) = ?t3" using free by (auto simp: fun_eq_iff)
    have I3: "?I ?t3" "publishing root tid fs b ys ?t3" using published [OF P1] by (simp_all add: publishing_def)
    show "runs x nf ?I t1 (then_io (write_new_synced ?pp c)
        (then_io (rename ?pp p capture_io_error) (sync_path (parent p) capture_io_error))) (\<lambda>_. publishing root tid fs b ys)"
    proof (rule runs_bind [OF runs_write_new [where Q = "\<lambda>_ t'. t' = ?t2"]])
      fix t2
      assume t2: "t2 = ?t2"
      have "runs x nf ?I ?t2 (rename ?pp p capture_io_error) (\<lambda>_ t'. t' = ?t3)"
      proof (rule runs_rename_file)
        show "?I (?t2(?pp := None, p \<mapsto> File c))" unfolding t3 by (rule I3(1))
        show "?t2(?pp := None, p \<mapsto> File c) = ?t3" by (rule t3)
      qed (use pne ne t1 free tg [OF tp(2), of "Some (File c)"] in simp_all)
      then show "runs x nf ?I t2 (then_io (rename ?pp p capture_io_error) (sync_path (parent p) capture_io_error))
          (\<lambda>_. publishing root tid fs b ys)"
        unfolding t2 by (rule runs_bind) (use I3 t1 pne in \<open>auto intro!: runs_sync_path\<close>)
    qed (use pne par t1 free tg [OF tp(2)] P1 in \<open>auto simp: publishing_def\<close>)
  qed (use top nofile in_flight_dirs(1) [OF ok fl d] in auto)
qed


lemma runs_write_intent:
  assumes ok: "batch_ok root tid fs b" and fl: "in_flight root tid fs b t" and d: "t (tx_dir root tid) = Some Dir"
    and clean: "\<And>n. t (root @ [TRANSACTIONS, tid, n]) = None" "\<And>q. q \<in> targets tid fs \<Longrightarrow> t q = None"
  shows "runs x nf (in_flight root tid fs b) t (write_intent (tx_dir root tid) (intent_paths root tid fs))
    (\<lambda>_. publishing root tid fs b fs)"
proof -
  let ?I = "in_flight root tid fs b"
  let ?s = "tx_dir root tid @ [''intent.pending'']"
  let ?i = "tx_dir root tid @ [''intent.json'']"
  let ?c = "IntentJson (intent_paths root tid fs)"
  let ?t1 = "t(?s \<mapsto> File (Bytes []))"
  let ?t2 = "t(?s \<mapsto> File Torn)"
  let ?t3 = "t(?s \<mapsto> File ?c)"
  let ?t4 = "t(?i \<mapsto> File ?c)"
  have stage: "?I (t(?s \<mapsto> File c))" for c by (rule in_flight_journal_file [OF fl _ d _ _ ok, where n = "''intent.pending''"]) auto
  have I4: "?I ?t4" by (rule in_flight_journal_file [OF fl _ d _ _ ok, where n = "''intent.json''"]) auto
  have free: "t ?s = None" "t ?i = None" using clean(1) by simp_all
  have t4: "?t3(?s := None, ?i \<mapsto> File ?c) = ?t4" using free by (auto simp: fun_eq_iff)
  have pub: "publishing root tid fs b fs ?t4"
  proof -
    have "p \<noteq> ?i" if "p \<in> targets tid fs" for p using target_outside(1) [OF ok that] by (auto simp: prefix_def)
    then have "?t4 p = None" if "p \<in> targets tid fs" for p using clean(2) that by simp
    then have "?t4 p = None \<and> ?t4 (pending_path p tid) = None" if "(p, c) \<in> set fs" for p c
      using that file_targets by metis
    then show ?thesis using I4 clean(1) by (simp add: publishing_def intent_written_def)
  qed
  have r1: "runs x nf ?I t (create_new_file ?s capture_io_error) (\<lambda>_ t'. t' = ?t1)"
    using d free fl stage by (intro runs_create_new) simp_all
  have r2: "runs x nf ?I ?t1 (write_all ?s Torn capture_io_error) (\<lambda>_ t'. t' = ?t2)"
    using stage by (intro runs_write_all) simp_all
  have r3: "runs x nf ?I ?t2 (write_all ?s ?c capture_io_error) (\<lambda>_ t'. t' = ?t3)"
    using stage by (intro runs_write_all) simp_all
  have r4: "runs x nf ?I ?t3 (sync_path ?s capture_io_error) (\<lambda>_ t'. t' = ?t3)"
    using stage by (intro runs_sync_path) simp_all
  have r5: "runs x nf ?I ?t3 (rename ?s ?i capture_io_error) (\<lambda>_ t'. t' = ?t4)"
  proof (rule runs_rename_file)
    show "?I (?t3(?s := None, ?i \<mapsto> File ?c))" unfolding t4 by (rule I4)
    show "?t3(?s := None, ?i \<mapsto> File ?c) = ?t4" by (rule t4)
    show "?I ?t3" by (rule stage)
  qed (use d free in simp_all)
  have r6: "runs x nf ?I ?t4 (sync_path (tx_dir root tid) capture_io_error) (\<lambda>_. publishing root tid fs b fs)"
    using d I4 pub by (intro runs_sync_path) simp_all
  show ?thesis
    unfolding write_intent_def
    by (intro runs_then [OF r1] runs_then [OF r2] runs_then [OF r3] runs_then [OF r4] runs_then [OF r5] r6)
qed


lemma runs_publish_all:
  assumes ok: "batch_ok root tid fs b" and root: "journal_ok root b"
    and fl: "in_flight root tid fs b t" and d: "t (tx_dir root tid) = Some Dir"
    and clean: "\<And>n. t (root @ [TRANSACTIONS, tid, n]) = None" "\<And>q. q \<in> targets tid fs \<Longrightarrow> t q = None"
  shows "runs x nf (in_flight root tid fs b) t (publish_all root tid fs (intent_paths root tid fs))
    (\<lambda>_ t'. committed_in root t' tid)"
proof -
  let ?I = "in_flight root tid fs b"
  have jr: "t' (journal root) = Some Dir" if "?I t'" for t'
  proof -
    have q: "prefix (journal root) (journal root)" by simp
    have "\<not> prefix (tx_dir root tid) (journal root)" by (auto dest: prefix_length_le)
    moreover have "journal root \<notin> targets tid fs" using target_outside(1) [OF ok, of "journal root"] by auto
    ultimately show ?thesis
      using in_flightD(1) [OF that, of "journal root"] journal_okD(1) [OF root q] by (auto simp: new_dir_def)
  qed
  have sync: "runs x nf ?I t' (sync_path (journal root) capture_io_error) (\<lambda>_. publishing root tid fs b fs)"
    if "publishing root tid fs b fs t'" for t'
    using that jr [of t'] by (intro runs_sync_path) (simp_all add: publishing_def)
  have loop: "runs x nf ?I t' (for_each fs (publish_file tid)) (\<lambda>_. publishing root tid fs b [])"
    if "publishing root tid fs b fs t'" for t'
  proof (rule runs_for_each [where P = "publishing root tid fs b"])
    fix y ys t1
    assume "suffix (y # ys) fs" "publishing root tid fs b (y # ys) t1"
    then show "runs x nf ?I t1 (publish_file tid y) (\<lambda>_. publishing root tid fs b ys)"
      using runs_publish_file [OF ok root] by (cases y) simp
  qed (use that in \<open>simp_all add: publishing_def\<close>)
  have mark: "runs x nf ?I t' (then_io (write_new_synced (tx_dir root tid @ [''committed'']) (Bytes [])) (sync_path (tx_dir root tid) capture_io_error))
      (\<lambda>_ t'. committed_in root t' tid)" if P: "publishing root tid fs b [] t'" for t'
  proof -
    let ?c = "root @ [TRANSACTIONS, tid, ''committed'']"
    have t': "?I t'" "t' ?c = None" "t' (tx_dir root tid) = Some Dir" using P intent_has_dir by (auto simp: publishing_def)
    have I: "?I (t'(?c \<mapsto> File c))" for c
      by (rule in_flight_journal_file [OF t'(1) _ t'(3) _ _ ok, where n = "''committed''"]) (use P in \<open>auto simp: publishing_def\<close>)
    have "runs x nf ?I t' (write_new_synced ?c (Bytes [])) (\<lambda>_ t''. t'' = t'(?c \<mapsto> File (Bytes [])))"
      using t' I by (intro runs_write_new) simp_all
    then show ?thesis
      unfolding append_assoc append.simps
      by (rule runs_then) (use t' I in \<open>auto intro!: runs_sync_path simp: committed_in_def\<close>)
  qed
  show ?thesis
    unfolding publish_all_def Let_def
  proof (rule runs_bind [OF runs_write_intent [OF ok fl d clean]])
    fix t1
    assume p1: "publishing root tid fs b fs t1"
    have "runs x nf ?I t1 (then_io (for_each fs (publish_file tid))
        (then_io (write_new_synced (tx_dir root tid @ [''committed'']) (Bytes [])) (sync_path (tx_dir root tid) capture_io_error)))
        (\<lambda>_ t'. committed_in root t' tid)" if "publishing root tid fs b fs t1" for t1
      by (rule runs_bind [OF loop [OF that]]) (rule mark)
    then show "runs x nf ?I t1 (then_io (sync_path (journal root) capture_io_error) (then_io (for_each fs (publish_file tid))
        (then_io (write_new_synced (tx_dir root tid @ [''committed'']) (Bytes [])) (sync_path (tx_dir root tid) capture_io_error))))
        (\<lambda>_ t'. committed_in root t' tid)"
      by (intro runs_bind [OF sync [OF p1]])
  qed
qed

lemma in_flight_without:
  assumes ok: "batch_ok root tid fs b" and fl: "in_flight root tid fs b t" and none: "\<And>q. q \<in> targets tid fs \<Longrightarrow> t q = None"
    and un: "\<not> committed_in root t tid"
    and cut: "\<And>q. r q \<Longrightarrow> prefix (tx_dir root tid) q" "r (tx_dir root tid) \<Longrightarrow> r = prefix (tx_dir root tid)"
  shows "in_flight root tid fs b (without r t)"
proof (rule in_flightI)
  fix q
  have "\<not> r q" if "new_dir fs b t q" using that cut(1) [of q] batch_okD(4) [OF ok] by (fastforce simp: new_dir_def strict_prefix_def prefix_def)
  then show "without r t q = b q \<or> prefix (tx_dir root tid) q \<or> q \<in> targets tid fs \<and> without r t q \<noteq> Some Dir \<or> new_dir fs b (without r t) q"
    using in_flightD(1) [OF fl, of q] cut(1) [of q] by (auto simp: without_def new_dir_def)
next
  show "without r t (tx_dir root tid) = Some Dir \<or> (\<forall>q. prefix (tx_dir root tid) q \<longrightarrow> without r t q = None)"
    using in_flightD(2) [OF fl] cut(2) by (auto simp: without_def)
next
  show "intent_written root tid fs (without r t) \<or>
      without r t (root @ [TRANSACTIONS, tid, ''intent.json'']) = None \<and> (\<forall>q \<in> targets tid fs. without r t q = None)"
    using in_flightD(3) [OF fl] none unfolding intent_written_def without_def by auto
next
  fix p c
  assume "committed_in root (without r t) tid"
  then have "committed_in root t tid" by (auto simp: committed_in_def without_def split: if_splits)
  with un show "without r t p = Some (File c)" by simp
qed

lemma runs_withdraw:
  assumes ok: "batch_ok root tid fs b" and root: "journal_ok root b" and fl: "in_flight root tid fs b t"
    and un: "\<not> committed_in root t tid" and nf: "\<not> nf"
  shows "runs x nf (\<lambda>t. in_flight root tid fs b t \<and> \<not> committed_in root t tid) t (withdraw root tid fs) (\<lambda>_ _. True)"
proof -
  let ?I = "\<lambda>t. in_flight root tid fs b t \<and> \<not> committed_in root t tid"
  let ?P = "\<lambda>ys t. ?I t \<and> (\<forall>p c. (p, c) \<in> set fs - set ys \<longrightarrow> t p = None \<and> t (pending_path p tid) = None)"
  have nd: "t' q \<noteq> Some Dir" if "?I t'" "q \<in> targets tid fs" for t' q
    using in_flightD(1) [of root tid fs b t' q] that target_outside(1,2) [OF ok that(2)] target_not_new [OF ok that(2)]
    by (auto simp: prefix_def)
  have rm: "?I (t'(q := None))" if I: "?I t'" and q: "q \<in> targets tid fs" for t' q
  proof -
    have "root @ TRANSACTIONS # r \<noteq> q" for r using target_outside(1) [OF ok q] by (auto simp: prefix_def)
    then show ?thesis using in_flight_target [OF ok _ q, of t' None] I by (simp add: committed_in_def)
  qed
  have step: "runs x nf ?I t' (then_io (remove_if_present p) (remove_if_present (pending_path p tid))) (\<lambda>_. ?P ys)"
    if P: "?P ((p, c) # ys) t'" and m: "(p, c) \<in> set fs" for p c ys t'
  proof -
    note tg = file_targets [OF m, where tid = tid]
    have r1: "runs x nf ?I t' (remove_if_present p) (\<lambda>_ t''. t'' = t'(p := None))"
      using P tg rm [of t' p] nd [of t' p] target_outside(3) [OF ok tg(1)] by (intro runs_remove_if_present) auto
    have I1: "?I (t'(p := None))" using rm P tg(1) by blast
    show ?thesis
      by (rule runs_then [OF r1], rule runs_remove_if_present)
        (use P I1 tg rm [OF I1 tg(2)] nd [OF I1 tg(2)] target_outside(3) [OF ok tg(2)] in auto)
  qed
  have loop: "runs x nf ?I t (for_each fs (\<lambda>(p, _). then_io (remove_if_present p) (remove_if_present (pending_path p tid)))) (\<lambda>_. ?P [])"
  proof (rule runs_for_each [where P = ?P])
    fix y ys t'
    assume s: "suffix (y # ys) fs" and "?P (y # ys) t'"
    moreover have "y \<in> set fs" using s by (meson list.set_intros(1) set_mono_suffix subsetD)
    ultimately show "runs x nf ?I t' (case y of (p, _) \<Rightarrow> then_io (remove_if_present p) (remove_if_present (pending_path p tid))) (\<lambda>_. ?P ys)"
      using step by (cases y) simp
  qed (use fl un in auto)
  have cut: "?I (without r t')" if P: "?P [] t'"
    and r: "\<And>q. r q \<Longrightarrow> prefix (tx_dir root tid) q" "r (tx_dir root tid) \<Longrightarrow> r = prefix (tx_dir root tid)" for r t'
  proof -
    have "t' q = None" if "q \<in> targets tid fs" for q using P that by (auto simp: targets_def)
    then have "in_flight root tid fs b (without r t')" using in_flight_without [OF ok _ _ _ r] P by simp
    then show ?thesis using P by (auto simp: committed_in_def without_def)
  qed
  have del: "runs x nf ?I t' (remove_dir_all (tx_dir root tid) capture_io_error) (\<lambda>_ _. True)" if "?P [] t'" for t'
  proof (rule runs_remove_dir_all_any)
    show "?I (without (\<lambda>r. strict_prefix (tx_dir root tid) r \<and> q r) t')" for q by (rule cut [OF that]) auto
    show "?I (without (prefix (tx_dir root tid)) t')" by (rule cut [OF that]) auto
  qed (use that nf in auto)
  show ?thesis
    unfolding withdraw_def
    by (intro runs_bind [OF loop] runs_bind [OF del]) (auto intro!: runs_sync_any nf)
qed


lemma runs_check_destinations:
  assumes "I t" and "\<And>p c. (p, c) \<in> set fs \<Longrightarrow> prefix root p \<and> validate_relative (drop (length root) p) = Ok () \<and> t p = None \<and> p \<notin> set seen"
    and "distinct (map fst fs)"
  shows "runs x nf I t (check_destinations root tid seen fs acc)
    (\<lambda>paths t'. t' = t \<and> paths = acc @ intent_paths root tid fs)"
  using assms
proof (induction fs arbitrary: seen acc)
  case Nil
  then show ?case by (auto simp: intent_paths_def intro: runs_return)
next
  case (Cons a fs)
  obtain p c where a: "a = (p, c)" by force
  have p: "prefix root p" "validate_relative (drop (length root) p) = Ok ()" "t p = None" "p \<notin> set seen"
    using Cons.prems(2) [of p c] a by auto
  have "p' \<notin> set (p # seen)" if "(p', c') \<in> set fs" for p' c' using Cons.prems(2,3) that a by force
  then have IH: "runs x nf I t (check_destinations root tid (p # seen) fs
      (acc @ [drop (length root) p, pending_path (drop (length root) p) tid]))
      (\<lambda>paths t'. t' = t \<and> paths = acc @ intent_paths root tid (a # fs))"
    using Cons.IH [of "p # seen" "acc @ [drop (length root) p, pending_path (drop (length root) p) tid]"] Cons.prems a
    by (simp add: intent_paths_def)
  show ?case
    using p IH Cons.prems(1)
    by (auto simp: a Let_def of_result_def node_simps intro!: runs_get [where a = False])
qed

lemma recovered_shrunk: "shrunk root t0 (recovered root t0)"
  unfolding shrunk_def recovered_def doomed_def by auto

lemma recovered_clean:
  assumes "journal_ok root t0"
  shows "\<not> uncommitted root (recovered root t0) e"
proof
  assume "uncommitted root (recovered root t0) e"
  then have "uncommitted root t0 e" "recovered root t0 (tx_dir root e) \<noteq> None"
    using shrunk_uncommitted [OF assms recovered_shrunk] by blast+
  then show False by (auto simp: recovered_def doomed_def split: if_splits)
qed

lemma runs_create_tx:
  assumes rb: "journal_ok root b" and ok: "batch_ok root tid fs b"
  shows "runs x nf (in_flight root tid fs b) b (create_dir_all (tx_dir root tid) capture_io_error)
    (\<lambda>_ t. in_flight root tid fs b t \<and> t = b(tx_dir root tid \<mapsto> Dir))"
proof -
  let ?d = "tx_dir root tid"
  let ?t = "b(?d \<mapsto> Dir)"
  have none: "b (root @ TRANSACTIONS # tid # r) = None" for r using batch_okD(1) [OF ok] by (simp add: prefix_def)
  have pre: "prefix q ?d \<longleftrightarrow> q = ?d \<or> prefix q (journal root)" for q
    using prefix_snoc [of q "journal root" tid] by simp
  have dirs: "b q = Some Dir" if "prefix q (journal root)" for q using journal_okD(1) [OF rb that] .
  have two: "t' = b \<or> t' = ?t" if "dirs_added ?d b t'" for t'
  proof -
    have same: "t' q = b q" if "q \<noteq> ?d" for q
      using \<open>dirs_added ?d b t'\<close> dirs pre that unfolding dirs_added_def by (metis option.distinct(1))
    have "t' ?d = b ?d \<or> t' ?d = Some Dir" using that unfolding dirs_added_def by metis
    then show ?thesis using same unfolding fun_eq_iff by (metis fun_upd_apply)
  qed
  have nt: "?d \<notin> targets tid fs" using target_outside(1) [OF ok, of ?d] by (auto simp: prefix_def)
  have I: "in_flight root tid fs b ?t"
  proof (rule in_flightI)
    show "intent_written root tid fs ?t \<or> ?t (root @ [TRANSACTIONS, tid, ''intent.json'']) = None \<and> (\<forall>q \<in> targets tid fs. ?t q = None)"
      using none nt target_outside(2) [OF ok] by auto
  qed (use none in \<open>auto simp: committed_in_def\<close>)
  have "runs x nf (\<lambda>t. t = b \<or> t = ?t) b (create_dir_all ?d capture_io_error) (\<lambda>_ t'. dirs_added ?d b t' \<and> t' ?d = Some Dir)"
  proof (rule runs_create_dir_all)
    show "b [] = Some Dir" using dirs by simp
    show "b q \<noteq> Some (File c)" if "prefix q ?d" for q c using that dirs none [of "[]"] unfolding pre by auto
  qed (use two in blast)
  then show ?thesis
    by (rule runs_conseq) (use I in_flight_start [OF ok] none [of "[]"] in auto)
qed

lemma runs_capture_commit:
  assumes jok: "journal_ok root t0" and b: "b = recovered root t0" and ok: "batch_ok root tid fs b"
  shows "runs x nf (\<lambda>t. shrunk root t0 t \<or> in_flight root tid fs b t) t0 (commit root tid fs)
    (\<lambda>_ t. in_flight root tid fs b t \<and> committed_in root t tid)"
proof -
  let ?I = "in_flight root tid fs b"
  let ?J = "\<lambda>t. shrunk root t0 t \<or> ?I t"
  let ?Q = "\<lambda>_ t. ?I t \<and> committed_in root t tid"
  have weaken: "runs x nf ?J t m Q" if "runs x nf ?I t m Q" for t and m :: "'a io" and Q
    using that by (rule runs_conseq) auto
  have rb: "journal_ok root b" unfolding b by (rule shrunk_journal [OF jok recovered_shrunk])
  have Ib: "?I b" using in_flight_start [OF ok] .
  have check: "runs x nf ?J b (check_destinations root tid [] fs []) (\<lambda>paths t'. t' = b \<and> paths = intent_paths root tid fs)"
  proof -
    have "prefix root p \<and> validate_relative (drop (length root) p) = Ok () \<and> b p = None" if "(p, c) \<in> set fs" for p c
    proof -
      have d: "p \<in> destinations fs" using that by force
      then have "prefix root p" using batch_okD(3) [OF ok d] by (metis prefixI)
      then show ?thesis using batch_okD(3,5) [OF ok d] by (simp add: validate_relative_def)
    qed
    then show ?thesis using runs_check_destinations [of ?J b fs root "[]" x nf tid "[]"] Ib batch_okD(2) [OF ok] by simp
  qed
  have tail: "runs x nf ?J t (bind_io (gets (\<lambda>s. transaction_committed s root tid)) (\<lambda>there.
       then_io (when_io (\<not> is_ok result \<and> \<not> there) (withdraw root tid fs)) (of_result result))) ?Q"
    if t: "?I t" and r: "\<And>u. result = Ok u \<Longrightarrow> committed_in root t tid" "\<And>e. result = Err e \<Longrightarrow> \<not> nf" for t and result :: "unit res"
  proof (rule runs_get [where a = "committed_in root t tid"])
    show "runs x nf ?J t (then_io (when_io (\<not> is_ok result \<and> \<not> committed_in root t tid) (withdraw root tid fs)) (of_result result)) ?Q"
    proof (cases result)
      case (Ok u)
      then show ?thesis using t r by (auto simp: when_io_def of_result_def intro: runs_return)
    next
      case (Err e)
      have nf: "\<not> nf" using r(2) Err by blast
      have "runs x nf ?I t (when_io (\<not> is_ok result \<and> \<not> committed_in root t tid) (withdraw root tid fs)) (\<lambda>_ _. True)"
      proof (rule runs_when)
        assume "\<not> is_ok result \<and> \<not> committed_in root t tid"
        then show "runs x nf ?I t (withdraw root tid fs) (\<lambda>_ _. True)"
          using runs_withdraw [OF ok rb t _ nf] by (auto intro: runs_conseq)
      qed (use t in auto)
      then have "runs x nf ?I t (then_io (when_io (\<not> is_ok result \<and> \<not> committed_in root t tid) (withdraw root tid fs)) (of_result result)) ?Q"
        by (rule runs_bind) (auto simp: Err of_result_def intro!: runs_throw nf)
      then show ?thesis by (rule weaken)
    qed
  qed (use t in \<open>auto simp: committed_in_world\<close>)
  have pub: "runs x nf ?J t (bind_io (try_io (publish_all root tid fs (intent_paths root tid fs))) (\<lambda>result.
      bind_io (gets (\<lambda>s. transaction_committed s root tid)) (\<lambda>there.
       then_io (when_io (\<not> is_ok result \<and> \<not> there) (withdraw root tid fs)) (of_result result)))) ?Q"
    if t: "?I t" "t = b(tx_dir root tid \<mapsto> Dir)" for t
  proof -
    have "t (root @ [TRANSACTIONS, tid, n]) = None" for n using t(2) batch_okD(1) [OF ok] by (simp add: prefix_def)
    moreover have "t q = None" if "q \<in> targets tid fs" for q
      using t(2) target_outside(1,2) [OF ok that] by (auto simp: prefix_def)
    moreover have "t (tx_dir root tid) = Some Dir" using t(2) by simp
    ultimately have "runs x nf ?I t (publish_all root tid fs (intent_paths root tid fs)) (\<lambda>_ t'. committed_in root t' tid)"
      by (intro runs_publish_all [OF ok rb t(1)])
    then have "runs x nf ?I t (try_io (publish_all root tid fs (intent_paths root tid fs)))
        (\<lambda>r t'. ?I t' \<and> (\<forall>u. r = Ok u \<longrightarrow> committed_in root t' tid) \<and> (\<forall>e. r = Err e \<longrightarrow> \<not> nf))"
      by (rule runs_try) auto
    then show ?thesis by (rule runs_bind [OF weaken]) (rule tail; blast)
  qed
  have rec: "runs x nf ?J t0 (recover root) (\<lambda>_ t'. t' = b)"
    using runs_recover [OF jok, of x nf] b by (auto intro: runs_conseq)
  have dir: "runs x nf ?J b (create_dir_all (tx_dir root tid) capture_io_error) (\<lambda>_ t. ?I t \<and> t = b(tx_dir root tid \<mapsto> Dir))"
    by (rule runs_conseq [OF runs_create_tx [OF rb ok]]) auto
  show ?thesis
    unfolding commit_def
    by (rule runs_then [OF rec], rule runs_bind [OF check], clarify, rule runs_bind [OF dir]) (auto intro: pub)
qed


text \<open>The store after the next recovery, for each way in which a commit can have ended.\<close>

lemma recover_run:
  assumes "journal_ok root (fs_get s1)" "recover root (s1\<lparr>faults := []\<rparr>) = (r2, s2)"
  shows "r2 = Done ()" "fs_get s2 = recovered root (fs_get s1)" "ext s2 = ext s1"
proof -
  note d = runsD [OF runs_recover [OF assms(1), of "ext s1" True], of "s1\<lparr>faults := []\<rparr>" r2 s2]
  show "ext s2 = ext s1" using d(1) assms(2) by (simp add: rest_same_def)
  show "r2 = Done ()" using d(5) assms(2) by simp
  then show "fs_get s2 = recovered root (fs_get s1)" using d(4) assms(2) by simp
qed

lemma shrunk_outcome:
  assumes "journal_ok root t0" "batch_ok root tid fs (recovered root t0)" "shrunk root t0 t1"
  shows "\<not> committed_in root t1 tid" "recovered root t1 = recovered root t0" "q \<in> targets tid fs \<Longrightarrow> recovered root t1 q = None"
proof -
  have "\<not> committed_in root (recovered root t0) tid"
    using batch_okD(1) [OF assms(2)] by (simp add: committed_in_def prefix_def)
  then show "\<not> committed_in root t1 tid"
    using shrunk_committed [OF assms(1,3)] shrunk_committed [OF assms(1) recovered_shrunk] by blast
  show eq: "recovered root t1 = recovered root t0" using shrunk_recovered [OF assms(1,3)] .
  show "recovered root t1 q = None" if "q \<in> targets tid fs" unfolding eq using target_outside(2) [OF assms(2) that] .
qed

lemma in_flight_committed:
  assumes "batch_ok root tid fs b" "in_flight root tid fs b t" "\<And>e. \<not> uncommitted root b e" "committed_in root t tid"
  shows "recovered root t = t"
proof (rule recovered_none)
  fix e
  show "\<not> uncommitted root t e" using only_own_uncommitted [OF assms(1-3), of e] assms(4) by (auto simp: uncommitted_def)
qed

lemma commit_outcome:
  assumes "journal_ok root (fs_get s)" and "b = recovered root (fs_get s)" and "batch_ok root tid fs b"
    and "commit root tid fs s = (r, s1)" and "recover root (s1\<lparr>faults := []\<rparr>) = (r2, s2)"
  shows "r2 = Done () \<and>
    (if transaction_committed s1 root tid
     then \<forall>(p, c) \<in> set fs. fs_get s2 p = Some (File c)
     else \<forall>q \<in> targets tid fs. fs_get s2 q = None) \<and>
    (\<forall>q. q \<notin> targets tid fs \<and> \<not> prefix (tx_dir root tid) q \<longrightarrow> fs_get s2 q = b q \<or> new_dir fs b (fs_get s2) q) \<and>
    (r = Done () \<longrightarrow> transaction_committed s1 root tid) \<and> (faults s = [] \<longrightarrow> r = Done ()) \<and>
    (transaction_committed s1 root tid \<longrightarrow> fs_get s2 = fs_get s1) \<and> ext s2 = ext s"
proof -
  let ?t1 = "fs_get s1"
  note ok = assms(3)
  have jb: "journal_ok root b" unfolding assms(2) by (rule shrunk_journal [OF assms(1) recovered_shrunk])
  have cb: "\<not> uncommitted root b e" for e unfolding assms(2) by (rule recovered_clean [OF assms(1)])
  note d = runsD [OF runs_capture_commit [OF assms(1,2) ok, of "ext s" "faults s = []"] refl refl _ assms(4)]
  have res: "(r = Done () \<longrightarrow> committed_in root ?t1 tid) \<and> (faults s = [] \<longrightarrow> r = Done ())"
    using d(4,5) by auto
  have inv: "shrunk root (fs_get s) ?t1 \<or> in_flight root tid fs b ?t1" using d(3) by simp
  then have j1: "journal_ok root ?t1" using shrunk_journal [OF assms(1)] in_flight_journal [OF jb ok cb] by blast
  note rec = recover_run [OF j1 assms(5)]
  have "ext s2 = ext s" using d(1) rec(3) by (simp add: rest_same_def)
  note res = res this
  show ?thesis
  proof (cases "shrunk root (fs_get s) ?t1")
    case True
    note sh = shrunk_outcome [OF assms(1) ok [unfolded assms(2)] True]
    show ?thesis using sh(1) sh(3) rec res by (simp add: committed_in_world sh(2) assms(2))
  next
    case False
    with inv have fl: "in_flight root tid fs b ?t1" by blast
    show ?thesis
    proof (cases "committed_in root ?t1 tid")
      case True
      then have "fs_get s2 = ?t1" using rec(2) in_flight_committed [OF ok fl cb] by simp
      moreover have "\<forall>(p, c) \<in> set fs. ?t1 p = Some (File c)" using in_flightD(4) [OF fl True] by auto
      moreover have "?t1 q = b q \<or> new_dir fs b ?t1 q" if "q \<notin> targets tid fs" "\<not> prefix (tx_dir root tid) q" for q
        using in_flightD(1) [OF fl, of q] that by metis
      ultimately show ?thesis using True rec(1) res by (simp add: committed_in_world)
    next
      case nc: False
      have all: "fs_get s2 q = b q \<or> new_dir fs b (fs_get s2) q" for q
        unfolding rec(2) by (rule in_flight_recovered [OF jb ok cb fl nc])
      have "fs_get s2 q = None" if "q \<in> targets tid fs" for q
        using all [of q] target_not_new [OF ok that] target_outside(2) [OF ok that] by metis
      then show ?thesis using nc rec(1) res all by (simp add: committed_in_world)
    qed
  qed
qed

text \<open>A store with an empty journal, and batches for it.\<close>

abbreviation capture_world :: "fault list \<Rightarrow> world" where
  "capture_world fl \<equiv> sample_world [([''m''], Dir), ([''m'', TRANSACTIONS], Dir)] fl"

lemma capture_world_get:
  "fs_get (capture_world fl) q = (if q = [] \<or> q = [''m''] \<or> q = [''m'', TRANSACTIONS] then Some Dir else None)"
  by (auto simp: fs_get_def)

lemma capture_world_journal: "journal_ok [''m''] (fs_get (capture_world fl))" "recovered [''m''] (fs_get (capture_world fl)) = fs_get (capture_world fl)"
proof -
  have un: "\<not> uncommitted [''m''] (fs_get (capture_world fl)) e" for e by (simp add: uncommitted_def capture_world_get)
  then show "recovered [''m''] (fs_get (capture_world fl)) = fs_get (capture_world fl)" by (rule recovered_none)
  have "prefix q [''m'', TRANSACTIONS] \<longleftrightarrow> q = [] \<or> q = [''m''] \<or> q = [''m'', TRANSACTIONS]" for q
    by (auto simp: prefix_Cons)
  then show "journal_ok [''m''] (fs_get (capture_world fl))" using un by (auto simp: journal_ok_def capture_world_get)
qed

lemma capture_world_batch:
  assumes "normal_component n" "n \<noteq> TRANSACTIONS"
  shows "batch_ok [''m''] tid [([''m'', n], c)] (fs_get (capture_world fl))"
proof -
  have p: "pending_path [''m'', n] tid = [''m'', n @ ''.pending-'' @ tid]" by (simp add: pending_path_def parent_def)
  have t: "n @ ''.pending-'' @ tid \<noteq> TRANSACTIONS" using pending_not_journal [of "[n]" tid] by simp
  have "b = [] \<or> b = [''m'']" if "strict_prefix b [''m'', n]" for b :: path
    using that by (auto simp: strict_prefix_def prefix_Cons)
  then show ?thesis
    using assms t by (auto simp: batch_ok_def p capture_world_get prefix_Cons)
qed

section \<open>Properties\<close>

text \<open>
  C21. A capture is atomic. For every sequence of failing calls and every point at which the
  process stops, opening the store again succeeds, and then either the transaction is committed and
  every file of the batch holds its data, or no file of the batch exists; in both cases nothing
  else differs from the store before, apart from the journal entry of the batch and directories
  created for its files. A capture that reports success is committed, and one that meets no
  failure succeeds.
\<close>

theorem capture_commit_atomic:
  assumes "journal_ok root (fs_get s)" and "b = recovered root (fs_get s)" and "batch_ok root tid fs b"
    and "commit root tid fs s = (r, s1)" and "recover root (s1\<lparr>faults := []\<rparr>) = (r2, s2)"
  shows "r2 = Done () \<and>
    (if transaction_committed s1 root tid
     then \<forall>(p, c) \<in> set fs. fs_get s2 p = Some (File c)
     else \<forall>q \<in> targets tid fs. fs_get s2 q = None) \<and>
    (\<forall>q. q \<notin> targets tid fs \<and> \<not> prefix (tx_dir root tid) q \<longrightarrow> fs_get s2 q = b q \<or> new_dir fs b (fs_get s2) q) \<and>
    (r = Done () \<longrightarrow> transaction_committed s1 root tid) \<and> (faults s = [] \<longrightarrow> r = Done ())"
  using commit_outcome [OF assms] by blast

theorem capture_commit_atomic_witness:
  "\<exists>r s1 s2. commit [''m''] ''aa'' [([''m'', ''k''], Bytes [7])] (capture_world [Proceed, Proceed, Proceed, Crash (\<lambda>_. True)]) = (r, s1) \<and>
     recover [''m''] (s1\<lparr>faults := []\<rparr>) = (Done (), s2) \<and>
     (if transaction_committed s1 [''m''] ''aa'' then fs_get s2 [''m'', ''k''] = Some (File (Bytes [7])) else fs_get s2 [''m'', ''k''] = None)"
proof -
  let ?s = "capture_world [Proceed, Proceed, Proceed, Crash (\<lambda>_. True)]"
  let ?fs = "[([''m'', ''k''], Bytes [7])]"
  obtain r s1 where run: "commit [''m''] ''aa'' ?fs ?s = (r, s1)" by force
  obtain r2 s2 where rec: "recover [''m''] (s1\<lparr>faults := []\<rparr>) = (r2, s2)" by force
  have "batch_ok [''m''] ''aa'' ?fs (fs_get ?s)"
    by (rule capture_world_batch) (simp_all add: normal_component_def TRANSACTIONS_def)
  from capture_commit_atomic [OF capture_world_journal(1) capture_world_journal(2) [symmetric] this run rec]
  have "r2 = Done ()" "if transaction_committed s1 [''m''] ''aa'' then fs_get s2 [''m'', ''k''] = Some (File (Bytes [7])) else fs_get s2 [''m'', ''k''] = None"
    using file_targets(1) [of "[''m'', ''k'']" "Bytes [7]" ?fs "''aa''"] by (auto split: if_splits)
  with run rec show ?thesis by blast
qed


text \<open>
  A replay record published with a batch is found by its key after a restart exactly when the
  transaction was committed; it then comes back unchanged. A batch that failed or was interrupted
  before its commit marker leaves no record.
\<close>

theorem load_record_replays:
  assumes "journal_ok root (fs_get s)" and "b = recovered root (fs_get s)" and "batch_ok root tid fs b"
    and "commit root tid fs s = (r, s1)" and "recover root (s1\<lparr>faults := []\<rparr>) = (r2, s2)"
    and "record_file (ext s) root rr \<in> set fs" and "rr_transaction_id rr = tid" and "tid \<noteq> []" and "ext_is_uuid (ext s) tid"
  shows "load_record root (rr_key rr) s2 = (Done (if transaction_committed s1 root tid then Some rr else None), s2)"
proof -
  note out = commit_outcome [OF assms(1-5)]
  let ?p = "record_path (ext s) root (rr_key rr)"
  have m: "(?p, RecordJson rr) \<in> set fs" using assms(6) by (simp add: record_file_def)
  have x: "ext s2 = ext s" using out by blast
  show ?thesis
  proof (cases "transaction_committed s1 root tid")
    case True
    then have "fs_get s2 = fs_get s1" "fs_get s2 ?p = Some (File (RecordJson rr))" using out m by auto
    moreover from this(1) True have "is_committed s2 root tid"
      using assms(9) x by (simp add: is_committed_def committed_in_world)
    ultimately show ?thesis
      using True assms(7) x by (simp add: load_record_def bind_io_def gets_def)
  next
    case False
    then have "fs_get s2 ?p = None" using out file_targets(1) [OF m] by auto
    then show ?thesis using False x by (simp add: load_record_def bind_io_def gets_def return_def)
  qed
qed

theorem load_record_replays_witness:
  "\<exists>rr r s1 s2. rr_key rr = ''k'' \<and>
     commit [''m''] ''aa'' [([''m'', ''.repeatability'', ''k.json''], RecordJson rr)]
       (sample_world [([''m''], Dir), ([''m'', ''.capture-transactions''], Dir)] [Proceed]) = (r, s1) \<and>
     load_record [''m''] ''k'' s2 = (Done (if transaction_committed s1 [''m''] ''aa'' then Some rr else None), s2)"
proof -
  let ?s = "capture_world [Proceed]"
  let ?p = "[''m'', ''.repeatability'', ''k.json'']"
  define rr :: repeatability_record where
    "rr = \<lparr>rr_key = ''k'', rr_request_hash = [], rr_first_sent = [], rr_status = 202, rr_result = JNull, rr_transaction_id = ''aa''\<rparr>"
  let ?fs = "[(?p, RecordJson rr)]"
  obtain r s1 where run: "commit [''m''] ''aa'' ?fs ?s = (r, s1)" by force
  obtain r2 s2 where rec: "recover [''m''] (s1\<lparr>faults := []\<rparr>) = (r2, s2)" by force
  have pend: "pending_path ?p ''aa'' = [''m'', ''.repeatability'', ''k.json.pending-aa'']" by (simp add: pending_path_def parent_def)
  have "b = [] \<or> b = [''m''] \<or> b = [''m'', ''.repeatability'']" if "strict_prefix b ?p" for b :: path
    using that by (auto simp: strict_prefix_def prefix_Cons)
  then have ok: "batch_ok [''m''] ''aa'' ?fs (fs_get ?s)"
    by (auto simp: batch_ok_def pend capture_world_get [unfolded TRANSACTIONS_def] prefix_Cons normal_component_def TRANSACTIONS_def)
  have "record_file (ext ?s) [''m''] rr \<in> set ?fs"
    by (simp add: record_file_def record_path_def rr_def sample_externs_def RECORDS_def)
  from load_record_replays [OF capture_world_journal(1) capture_world_journal(2) [symmetric] ok run rec this]
  have "load_record [''m''] ''k'' s2 = (Done (if transaction_committed s1 [''m''] ''aa'' then Some rr else None), s2)"
    by (simp add: rr_def sample_externs_def)
  moreover have "rr_key rr = ''k''" by (simp add: rr_def)
  ultimately show ?thesis using run unfolding TRANSACTIONS_def by blast
qed

text \<open>
  C22. The admission limit: the replay records of a capture are admitted exactly when the rendered
  records fit, three copies of each plus an envelope, on top of what was admitted before; sums that
  do not fit into 64 bits are refused like any other excess, and an admitted sum never exceeds the
  limit.
\<close>

theorem budget_records_exact:
  assumes "used \<le> MAX_CAPTURE_BYTES"
  shows "budget_records len used rrs =
    (let n = used + (\<Sum>rr \<leftarrow> rrs. 3 * len rr + ENVELOPE_BYTES) in
     if n \<le> MAX_CAPTURE_BYTES then Ok n else Err CaptureTooLarge)"
  using assms
proof (induction rrs arbitrary: used)
  case (Cons rr rrs)
  have max: "MAX_CAPTURE_BYTES \<le> u64_max" by (simp add: MAX_CAPTURE_BYTES_def u64_max_def)
  have step: "budget_add u n = (if u + n \<le> MAX_CAPTURE_BYTES then Ok (u + n) else Err CaptureTooLarge)"
    if "u \<le> MAX_CAPTURE_BYTES" for u n
    using that max by (auto simp: budget_add_def checked_add_u64_def)
  have mul: "budget_copies u n 3 = budget_add u (3 * n)" if "u \<le> MAX_CAPTURE_BYTES" for u n
    using that max step [OF that, of "3 * n"]
    by (auto simp: budget_copies_def checked_mul_u64_def mult.commute)
  show ?case
    using Cons by (auto simp: json_bytes_def step mul Let_def)
qed simp


theorem budget_records_exact_witness:
  "budget_records (\<lambda>_. 100) (MAX_CAPTURE_BYTES - 1324)
     [\<lparr>rr_key = ''k'', rr_request_hash = [], rr_first_sent = [], rr_status = 202, rr_result = JNull, rr_transaction_id = []\<rparr>] = Ok MAX_CAPTURE_BYTES
   \<and> budget_records (\<lambda>_. u64_max) 0
     [\<lparr>rr_key = ''k'', rr_request_hash = [], rr_first_sent = [], rr_status = 202, rr_result = JNull, rr_transaction_id = []\<rparr>] = Err CaptureTooLarge"
  by (subst (1 2) budget_records_exact) (simp_all add: MAX_CAPTURE_BYTES_def ENVELOPE_BYTES_def u64_max_def)

end
