(* ===== verification/Messages_Correct.thy ===== *)
theory Messages_Correct
  imports Text_Messages Capture_Correct
begin

text \<open>
  The listings of the message stores, the delivery states of text messages, and the admission of
  mail.
\<close>

section \<open>Paging with identifiers as markers\<close>

lemma position_Some: "position P xs = Some i \<Longrightarrow> i < length xs \<and> P (xs ! i) \<and> (\<forall>j < i. \<not> P (xs ! j))"
proof (induction xs arbitrary: i)
  case (Cons x xs)
  then show ?case by (auto split: if_splits simp: nth_Cons' less_Suc_eq_0_disj)
qed simp

lemma position_distinct:
  assumes "distinct (map f xs)" "i < length xs"
  shows "position (\<lambda>x. f x = f (xs ! i)) xs = Some i"
  using assms
proof (induction xs arbitrary: i)
  case (Cons x xs)
  show ?case
  proof (cases i)
    case (Suc j)
    with Cons.prems have "f (xs ! j) \<in> f ` set xs" "f x \<notin> f ` set xs" by auto
    with Cons Suc show ?thesis by auto
  qed simp
qed simp

text \<open>
  A listing that pages by identifier: what a request returns is the page of a list of items, which
  depends on the state only.
\<close>

locale marker_paging =
  fixes ident :: "'a \<Rightarrow> string"
    and items :: "'s \<Rightarrow> 'a list"
    and fetch :: "'s \<Rightarrow> string option \<Rightarrow> nat option \<Rightarrow> 'a list \<times> string option"
    and listable_state :: "'s \<Rightarrow> bool"
  assumes fetch_page: "listable_state s \<Longrightarrow> fetch s marker limit = page_after ident marker limit (items s)"
begin

lemma fetch_drop:
  assumes s: "listable_state s" and d: "distinct (map ident (items s))" and n: "0 < n" and i: "i < length (items s)"
  shows "fetch s (Some (ident (items s ! i))) (Some n) =
    (take n (drop (Suc i) (items s)),
     if Suc i + n < length (items s) then Some (ident (items s ! (i + n))) else None)"
proof -
  have "last (take n (drop (Suc i) (items s))) = items s ! (i + n)" if "Suc i + n < length (items s)"
    using that n by (subst last_conv_nth) (auto simp: min_def)
  then show ?thesis
    using position_distinct [OF d i] n by (auto simp: fetch_page [OF s] page_after_def Let_def take_all)
qed

lemma follow_rest:
  assumes s: "listable_state s" and d: "distinct (map ident (items s))" and n: "0 < n" and i: "i < length (items s)"
    and fuel: "length (items s) - i \<le> fuel"
  shows "follow (\<lambda>m. fetch s m (Some n)) fuel (Some (ident (items s ! i))) = Some (drop (Suc i) (items s))"
  using i fuel
proof (induction fuel arbitrary: i)
  case (Suc fuel)
  show ?case
  proof (cases "Suc i + n < length (items s)")
    case True
    then have "i + n < length (items s)" "length (items s) - (i + n) \<le> fuel" using Suc.prems n by auto
    with Suc.IH [of "i + n"] True fetch_drop [OF s d n Suc.prems(1)] show ?thesis
      by (simp add: append_take_drop_id drop_drop [symmetric] add.commute)
        (metis append_take_drop_id drop_drop add.commute add_Suc_right)
  next
    case False
    then show ?thesis using fetch_drop [OF s d n Suc.prems(1)] by simp
  qed
qed simp

lemma follow_all:
  assumes s: "listable_state s" and d: "distinct (map ident (items s))" and n: "0 < n" and fuel: "length (items s) < fuel"
  shows "follow (\<lambda>m. fetch s m (Some n)) fuel None = Some (items s)"
proof (cases "n < length (items s)")
  case True
  obtain f where f: "fuel = Suc f" using fuel by (cases fuel) auto
  have i: "n - 1 < length (items s)" "length (items s) - (n - 1) \<le> f" using True n fuel f by auto
  have "last (take n (items s)) = items s ! (n - 1)" using True n by (subst last_conv_nth) (auto simp: min_def)
  moreover have "take n (items s) \<noteq> []" using True n by auto
  ultimately show ?thesis
    using follow_rest [OF s d n i] True n f by (simp add: fetch_page [OF s] page_after_def Let_def)
next
  case False
  then show ?thesis using fuel by (cases fuel) (auto simp: fetch_page [OF s] page_after_def Let_def)
qed

end

text \<open>
  The messages a mailbox shows: those its directory holds that belong to no transaction or to a
  committed one, by time of arrival.
\<close>

definition shown_transaction :: "world \<Rightarrow> path \<Rightarrow> string \<Rightarrow> bool" where
  "shown_transaction s root tid \<longleftrightarrow>
     tid = [] \<or> tid \<in> set (filter (transaction_committed s root) (dir_entries s (root @ [TRANSACTIONS])))"

definition mail_held :: "world \<Rightarrow> path \<Rightarrow> path \<Rightarrow> string \<Rightarrow> stored_message option" where
  "mail_held s root dir name =
     (case fs_get s (dir @ [name]) of
        Some (File (MailJson m)) \<Rightarrow>
          if has_extension ''json'' name \<and> shown_transaction s root (transaction_of (msg_provider_metadata (stm_message m)))
          then Some m else None
      | _ \<Rightarrow> None)"

type_synonym mail_query = "world \<times> path \<times> string"

definition mail_items :: "mail_query \<Rightarrow> stored_message list" where
  "mail_items = (\<lambda>(s, root, mailbox).
     case mailbox_dir s root mailbox of
       Ok dir \<Rightarrow> if is_dir s dir then sort_stored (List.map_filter (mail_held s root dir) (dir_entries s dir)) else []
     | Err _ \<Rightarrow> [])"

definition mail_fetch :: "mail_query \<Rightarrow> string option \<Rightarrow> nat option \<Rightarrow> stored_message list \<times> string option" where
  "mail_fetch = (\<lambda>(s, root, mailbox) marker limit.
     case list_messages root mailbox \<lparr>lmp_marker = marker, lmp_limit = limit\<rparr> s of
       (Done r, _) \<Rightarrow> (lmr_messages r, lmr_next_marker r) | _ \<Rightarrow> ([], None))"

definition is_mail :: "node option \<Rightarrow> bool" where
  "is_mail n = (case n of Some (File (MailJson m)) \<Rightarrow> True | _ \<Rightarrow> False)"

lemma is_mailE:
  assumes "is_mail n"
  obtains m where "n = Some (File (MailJson m))"
  using assms by (auto simp: is_mail_def split: option.splits node.splits content.splits)

text \<open>The mailbox has a name, and its message files are messages.\<close>

definition mail_listable :: "mail_query \<Rightarrow> bool" where
  "mail_listable = (\<lambda>(s, root, mailbox).
     mailbox \<noteq> [] \<and> is_dir s (root @ [TRANSACTIONS]) \<and>
     (case mailbox_dir s root mailbox of
        Ok dir \<Rightarrow>
          list_all (\<lambda>name. has_extension ''json'' name \<longrightarrow> is_mail (fs_get s (dir @ [name]))) (dir_entries s dir)
      | Err _ \<Rightarrow> True))"

lemma committed_snapshot_dir:
  "is_dir s (root @ [TRANSACTIONS]) \<Longrightarrow>
   committed_snapshot root s = (Done (filter (transaction_committed s root) (dir_entries s (root @ [TRANSACTIONS]))), s)"
  by (simp add: committed_snapshot_def bind_io_def gets_def is_dir_def split: option.splits node.splits)

lemma collect_stored_held:
  assumes "list_all (\<lambda>name. has_extension ''json'' name \<longrightarrow> is_mail (fs_get s (dir @ [name]))) names"
  shows "collect_stored s (filter (transaction_committed s root) (dir_entries s (root @ [TRANSACTIONS]))) dir names =
    Ok (List.map_filter (mail_held s root dir) names)"
  using assms
proof (induction names)
  case (Cons name names)
  show ?case
  proof (cases "has_extension ''json'' name")
    case True
    with Cons.prems obtain m where "fs_get s (dir @ [name]) = Some (File (MailJson m))" by (auto elim: is_mailE)
    with Cons True show ?thesis
      by (simp add: List.map_filter_def mail_held_def read_stored_def shown_transaction_def Let_def)
  next
    case False
    then have "mail_held s root dir name = None" by (simp add: mail_held_def split: option.split node.split content.split)
    with Cons False show ?thesis by (simp add: List.map_filter_def)
  qed
qed (simp add: List.map_filter_def)

lemma page_after_Nil: "page_after f marker limit [] = ([], None)"
  by (simp add: page_after_def)

lemma list_messages_page:
  assumes "mail_listable (s, root, mailbox)"
  shows "list_messages root mailbox params s =
    (let (page, marker) = page_after stm_message_id (lmp_marker params) (lmp_limit params) (mail_items (s, root, mailbox))
     in (Done \<lparr>lmr_messages = page, lmr_next_marker = marker\<rparr>, s))"
proof -
  from assms have m: "mailbox \<noteq> []" "is_dir s (root @ [TRANSACTIONS])" by (simp_all add: mail_listable_def)
  obtain dir where dir: "mailbox_dir s root mailbox = Ok dir" using m(1) by (cases "mailbox_dir s root mailbox") (auto simp: mailbox_dir_def split: if_splits)
  with assms have "list_all (\<lambda>name. has_extension ''json'' name \<longrightarrow> is_mail (fs_get s (dir @ [name]))) (dir_entries s dir)"
    by (simp add: mail_listable_def)
  from collect_stored_held [OF this, of root] dir show ?thesis
    by (simp add: list_messages_def list_messages_snapshot_def mail_items_def committed_snapshot_dir [OF m(2)] eval_def gets_def
        bind_io_def of_result_def return_def page_after_Nil Let_def split: prod.splits)
qed

interpretation mail_pages: marker_paging stm_message_id mail_items mail_fetch mail_listable
proof
  fix q marker limit
  assume "mail_listable q"
  then show "mail_fetch q marker limit = page_after stm_message_id marker limit (mail_items q)"
    by (cases q) (simp add: mail_fetch_def list_messages_page Let_def split: prod.splits)
qed

text \<open>The messages of a conversation, in the same way.\<close>

definition sms_held :: "world \<Rightarrow> path \<Rightarrow> string \<Rightarrow> sms_message option" where
  "sms_held s root mid =
     (case sms_message_path root mid of
        Ok p \<Rightarrow>
          (case fs_get s p of
             Some (File (SmsJson m)) \<Rightarrow> if shown_transaction s root (transaction_of (sms_metadata m)) then Some m else None
           | _ \<Rightarrow> None)
      | Err _ \<Rightarrow> None)"

definition sms_items :: "world \<times> path \<times> string \<Rightarrow> sms_message list" where
  "sms_items = (\<lambda>(s, root, peer).
     case message_ids_for_peer s root peer of
       Ok ids \<Rightarrow> sort_sms (List.map_filter (sms_held s root) ids)
     | Err _ \<Rightarrow> [])"

definition sms_fetch :: "world \<times> path \<times> string \<Rightarrow> string option \<Rightarrow> nat option \<Rightarrow> sms_message list \<times> string option" where
  "sms_fetch = (\<lambda>(s, root, peer) marker limit.
     case list_sms_messages root peer \<lparr>lsp_marker = marker, lsp_limit = limit\<rparr> s of
       (Done r, _) \<Rightarrow> (lsr_messages r, lsr_next_marker r) | _ \<Rightarrow> ([], None))"

definition sms_listable :: "world \<times> path \<times> string \<Rightarrow> bool" where
  "sms_listable = (\<lambda>(s, root, peer).
     str_trim peer \<noteq> [] \<and> is_dir s (root @ [TRANSACTIONS]) \<and>
     (case message_ids_for_peer s root peer of
        Ok ids \<Rightarrow>
          list_all (\<lambda>mid. case sms_message_path root mid of
              Ok p \<Rightarrow> (case fs_get s p of None \<Rightarrow> True | Some (File (SmsJson m)) \<Rightarrow> True | _ \<Rightarrow> False)
            | Err _ \<Rightarrow> True) ids
      | Err _ \<Rightarrow> True))"

lemma collect_sms_held:
  assumes "list_all (\<lambda>mid. case sms_message_path root mid of
      Ok p \<Rightarrow> (case fs_get s p of None \<Rightarrow> True | Some (File (SmsJson m)) \<Rightarrow> True | _ \<Rightarrow> False) | Err _ \<Rightarrow> True) mids"
  shows "collect_sms s (filter (transaction_committed s root) (dir_entries s (root @ [TRANSACTIONS]))) root mids =
    Ok (List.map_filter (sms_held s root) mids)"
  using assms
proof (induction mids)
  case (Cons mid mids)
  then show ?case
    by (cases "sms_message_path root mid")
      (auto simp: List.map_filter_def sms_held_def read_message_path_def shown_transaction_def Let_def
        split: option.splits node.splits content.splits)
qed (simp add: List.map_filter_def)

lemma list_sms_messages_page:
  assumes "sms_listable (s, root, peer)"
  shows "list_sms_messages root peer params s =
    (let (page, marker) = page_after sms_message_id (lsp_marker params) (lsp_limit params) (sms_items (s, root, peer))
     in (Done \<lparr>lsr_messages = page, lsr_next_marker = marker\<rparr>, s))"
proof -
  from assms have m: "str_trim peer \<noteq> []" "is_dir s (root @ [TRANSACTIONS])" by (simp_all add: sms_listable_def)
  obtain ids where ids: "message_ids_for_peer s root peer = Ok ids"
    using m(1) by (simp add: message_ids_for_peer_def peer_index_dir_def peer_hash_def)
  from assms ids have "list_all (\<lambda>mid. case sms_message_path root mid of
      Ok p \<Rightarrow> (case fs_get s p of None \<Rightarrow> True | Some (File (SmsJson m)) \<Rightarrow> True | _ \<Rightarrow> False) | Err _ \<Rightarrow> True) ids"
    by (simp add: sms_listable_def)
  from collect_sms_held [OF this] ids show ?thesis
    by (simp add: list_sms_messages_def list_sms_snapshot_def sms_items_def committed_snapshot_dir [OF m(2)] eval_def gets_def
        bind_io_def of_result_def return_def Let_def split: prod.splits)
qed

interpretation sms_pages: marker_paging sms_message_id sms_items sms_fetch sms_listable
proof
  fix q marker limit
  assume "sms_listable q"
  then show "sms_fetch q marker limit = page_after sms_message_id marker limit (sms_items q)"
    by (cases q) (simp add: sms_fetch_def list_sms_messages_page Let_def split: prod.splits)
qed

section \<open>Replacing a file of the message store\<close>

lemma runs_create_dir_all_existing:
  assumes "\<And>q. prefix q p \<Longrightarrow> t q = Some Dir" and "I t"
  shows "runs x nf I t (create_dir_all p msg) (\<lambda>_ t'. t' = t)"
proof -
  have "runs x nf (\<lambda>t'. t' = t) t (create_dir_all p msg) (\<lambda>_ t'. dirs_added p t t' \<and> t' p = Some Dir)"
    using assms(1) by (intro runs_create_dir_all) (fastforce simp: dirs_added_def)+
  then show ?thesis by (rule runs_conseq) (use assms(2) in auto)
qed

lemma sms_write_atomic_snoc:
  "sms_write_atomic (D @ [nm]) c =
     then_io (create_dir_all D capture_io_error)
     (bind_io new_uuid (\<lambda>u.
      then_io (create_file (D @ [nm @ ''.'' @ u @ ''.tmp'']) capture_io_error)
      (then_io (write_all (D @ [nm @ ''.'' @ u @ ''.tmp'']) c capture_io_error)
        (rename (D @ [nm @ ''.'' @ u @ ''.tmp'']) (D @ [nm]) capture_io_error))))"
  by (simp add: sms_write_atomic_def Let_def when_io_def)

lemma runs_sms_write_atomic:
  assumes T: "\<And>n. T (nm @ ''.'' @ ext_uuid x n @ ''.tmp'')" "\<not> T nm" "\<And>n. T n \<Longrightarrow> t (D @ [n]) \<noteq> Some Dir"
    and t: "\<And>q. prefix q D \<Longrightarrow> t q = Some Dir" "t (D @ [nm]) \<noteq> Some Dir"
  shows "runs x nf (replacing T D nm c t) t (sms_write_atomic (D @ [nm]) c) (\<lambda>_. tmp_eq T D (t(D @ [nm] \<mapsto> File c)))"
proof -
  let ?I = "replacing T D nm c t" and ?Q = "\<lambda>_::unit. tmp_eq T D (t(D @ [nm] \<mapsto> File c))"
  have old: "?I t" by (simp add: replacing_def)
  have D: "t D = Some Dir" using t(1) by simp
  have body: "runs x nf ?I t
      (then_io (create_file (D @ [tmp]) m1) (then_io (write_all (D @ [tmp]) c m2) (rename (D @ [tmp]) (D @ [nm]) m4))) ?Q"
    if tmp: "T tmp" for tmp m1 m2 m4
  proof -
    let ?t = "\<lambda>b. t(D @ [tmp] \<mapsto> File b)"
    have neq: "tmp \<noteq> nm" using T(2) tmp by auto
    have put: "tmp_eq T D t (?t b)" for b by (rule tmp_eq_put) (simp_all add: tmp)
    have new: "tmp_eq T D (t(D @ [nm] \<mapsto> File c)) ((?t c)(D @ [tmp] := None, D @ [nm] \<mapsto> File c))"
      using tmp_eq_upd [OF tmp_eq_remove [OF put tmp]] by simp
    have rn: "runs x nf ?I (?t c) (rename (D @ [tmp]) (D @ [nm]) m4) ?Q"
      using put D t(2) neq new by (intro runs_rename_file [where c = c]) (auto simp: replacing_def)
    have "runs x nf ?I (?t (Bytes [])) (write_all (D @ [tmp]) c m2) (\<lambda>_ t'. t' = ?t c)"
      using put by (intro runs_write_all) (auto simp: replacing_def)
    from runs_then [OF this rn] have wr: "runs x nf ?I (?t (Bytes [])) (then_io (write_all (D @ [tmp]) c m2) (rename (D @ [tmp]) (D @ [nm]) m4)) ?Q" .
    have "runs x nf ?I t (create_file (D @ [tmp]) m1) (\<lambda>_ t'. t' = ?t (Bytes []))"
      using put D T(3) [OF tmp] old by (intro runs_create_file) (auto simp: replacing_def)
    from runs_then [OF this wr] show ?thesis .
  qed
  show ?thesis
    unfolding sms_write_atomic_snoc
    by (rule runs_then [OF runs_create_dir_all_existing])
      (use t(1) old T(1) in \<open>auto intro!: body runs_bind [OF runs_new_uuid [where Q = "\<lambda>u t'. t' = t \<and> T (nm @ ''.'' @ u @ ''.tmp'')"]]\<close>)
qed

section \<open>Delivery states\<close>

text \<open>The file of a message, and the temporary files of its replacement.\<close>

definition sms_file :: "path \<Rightarrow> string \<Rightarrow> path" where
  "sms_file root mid = root @ [''messages'', mid @ ''.json'']"

definition sms_temporary :: "externs \<Rightarrow> string \<Rightarrow> string \<Rightarrow> bool" where
  "sms_temporary x mid name \<longleftrightarrow> (\<exists>n. name = (mid @ ''.json'') @ ''.'' @ ext_uuid x n @ ''.tmp'')"

text \<open>What a transition makes of a message that is at \<open>m\<close>.\<close>

definition settled :: "sms_message \<Rightarrow> sms_delivery_state \<Rightarrow> sms_message \<Rightarrow> bool" where
  "settled m state m' \<longleftrightarrow>
     sms_delivery_state_of m = SmsAccepted \<and> (\<exists>now. m' = m\<lparr>sms_delivery_state_of := state, sms_updated_at := now\<rparr>)"

lemma transition_step:
  assumes "validate_id mid = Ok ()" "fs_get s (sms_file root mid) = Some (File (SmsJson m))"
  shows "transition_delivery root mid state s =
    (if state = SmsAccepted then (Failed (InvalidRequest ''delivery transition must be delivered or failed''), s)
     else if sms_delivery_state_of m = SmsAccepted then
       (let m' = m\<lparr>sms_delivery_state_of := state, sms_updated_at := ext_now (ext s) (clock_count s)\<rparr> in
        then_io (sms_write_atomic (sms_file root mid) (SmsJson m')) (return m') (s\<lparr>clock_count := clock_count s + 1\<rparr>))
     else if sms_delivery_state_of m = state then (Done m, s)
     else (Failed (InvalidRequest ''terminal delivery states are immutable''), s))"
  using assms
  by (auto simp: transition_delivery_def sms_message_path_def sms_file_def read_message_path_def eval_def gets_def now_io_def
      bind_io_def of_result_def return_def throw_def Let_def)

lemma sms_file_snoc: "sms_file root mid = (root @ [''messages'']) @ [mid @ ''.json'']"
  by (simp add: sms_file_def)

lemma transition_write:
  assumes "fs_get s (sms_file root mid) \<noteq> Some Dir" and dirs: "\<And>q. prefix q (root @ [''messages'']) \<Longrightarrow> fs_get s q = Some Dir"
    and tmp: "\<And>n. sms_temporary (ext s) mid n \<Longrightarrow> fs_get s (root @ [''messages'', n]) \<noteq> Some Dir"
    and run: "then_io (sms_write_atomic (sms_file root mid) c) (return m') s = (r, s')"
  shows "replacing (sms_temporary (ext s) mid) (root @ [''messages'']) (mid @ ''.json'') c (fs_get s) (fs_get s')"
    "\<And>a. r = Done a \<Longrightarrow> a = m' \<and> fs_get s' (sms_file root mid) = Some (File c)" "faults s = [] \<Longrightarrow> r = Done m'"
proof -
  let ?T = "sms_temporary (ext s) mid" and ?D = "root @ [''messages'']" and ?n = "mid @ ''.json''"
  have T: "?T (?n @ ''.'' @ ext_uuid (ext s) n @ ''.tmp'')" for n by (auto simp: sms_temporary_def)
  have nT: "\<not> ?T ?n" by (auto simp: sms_temporary_def)
  have "runs (ext s) nf (replacing ?T ?D ?n c (fs_get s)) (fs_get s)
      (then_io (sms_write_atomic (?D @ [?n]) c) (return m'))
      (\<lambda>a t'. a = m' \<and> tmp_eq ?T ?D ((fs_get s)(?D @ [?n] \<mapsto> File c)) t')" for nf
    by (rule runs_bind [OF runs_sms_write_atomic])
      (use T nT dirs tmp assms(1) in \<open>auto simp: sms_file_def intro!: runs_return\<close>)
  then have w: "runs (ext s) nf (replacing ?T ?D ?n c (fs_get s)) (fs_get s)
      (then_io (sms_write_atomic (sms_file root mid) c) (return m'))
      (\<lambda>a t'. a = m' \<and> tmp_eq ?T ?D ((fs_get s)(?D @ [?n] \<mapsto> File c)) t')" for nf
    by (simp only: sms_file_snoc)
  note d = runsD [OF w refl refl _ run]
  show "replacing ?T ?D ?n c (fs_get s) (fs_get s')" by (rule d(3) [of False]) simp
  show ret: "a = m' \<and> fs_get s' (sms_file root mid) = Some (File c)" if "r = Done a" for a
    using d(4) [of False, OF _ that] tmp_eq_get [of ?T ?D _ "fs_get s'" "sms_file root mid"] nT
    by (auto simp: sms_file_def)
  show "r = Done m'" if "faults s = []" using d(5) [of True] that ret by auto
qed


lemma replacing_elsewhere:
  assumes "replacing T D nm c t t'" "q \<noteq> D @ [nm]" "\<And>n. T n \<Longrightarrow> q \<noteq> D @ [n]"
  shows "t' q = t q"
  using assms tmp_eq_get [of T D _ t' q] unfolding replacing_def by fastforce

text \<open>
  C23. A delivery transition settles a message once. Whatever fails and wherever the process stops,
  the file of the message holds the old message or the same message with the requested terminal state,
  the latter only if it was still accepted, and no other file changes but temporary ones. A success
  returns what the file holds, and the requested state. A settled message is never written again: the
  same state is confirmed, another one refused, and a transition back to accepted is refused always.
\<close>

theorem transition_delivery_settles_once:
  assumes id: "validate_id mid = Ok ()" and m: "fs_get s (sms_file root mid) = Some (File (SmsJson m))"
    and dirs: "\<And>q. prefix q (root @ [''messages'']) \<Longrightarrow> fs_get s q = Some Dir"
    and tmp: "\<And>n. sms_temporary (ext s) mid n \<Longrightarrow> fs_get s (root @ [''messages'', n]) \<noteq> Some Dir"
    and run: "transition_delivery root mid state s = (r, s')"
  shows "(\<exists>m'. fs_get s' (sms_file root mid) = Some (File (SmsJson m')) \<and> (m' = m \<or> state \<noteq> SmsAccepted \<and> settled m state m') \<and>
      (\<forall>a. r = Done a \<longrightarrow> a = m' \<and> sms_delivery_state_of a = state)) \<and>
    (\<forall>q. q \<noteq> sms_file root mid \<and> (\<forall>n. sms_temporary (ext s) mid n \<longrightarrow> q \<noteq> root @ [''messages'', n]) \<longrightarrow> fs_get s' q = fs_get s q) \<and>
    (state = SmsAccepted \<longrightarrow> r = Failed (InvalidRequest ''delivery transition must be delivered or failed'')) \<and>
    (state \<noteq> SmsAccepted \<and> sms_delivery_state_of m \<noteq> SmsAccepted \<longrightarrow>
       s' = s \<and> r = (if sms_delivery_state_of m = state then Done m
                     else Failed (InvalidRequest ''terminal delivery states are immutable''))) \<and>
    (state \<noteq> SmsAccepted \<and> sms_delivery_state_of m = SmsAccepted \<and> faults s = [] \<longrightarrow> (\<exists>a. r = Done a))"
proof (cases "state \<noteq> SmsAccepted \<and> sms_delivery_state_of m = SmsAccepted")
  case False
  then show ?thesis using run m by (auto simp: transition_step [OF id m] split: if_splits)
next
  case True
  let ?s = "s\<lparr>clock_count := clock_count s + 1\<rparr>" and ?now = "ext_now (ext s) (clock_count s)"
  let ?m = "m\<lparr>sms_delivery_state_of := state, sms_updated_at := ?now\<rparr>"
  have run': "then_io (sms_write_atomic (sms_file root mid) (SmsJson ?m)) (return ?m) ?s = (r, s')"
    using run True by (simp add: transition_step [OF id m] Let_def)
  have pre: "fs_get ?s (sms_file root mid) \<noteq> Some Dir"
    "prefix q (root @ [''messages'']) \<Longrightarrow> fs_get ?s q = Some Dir"
    "sms_temporary (ext ?s) mid n \<Longrightarrow> fs_get ?s (root @ [''messages'', n]) \<noteq> Some Dir" for q n
    using m dirs tmp by simp_all
  note w = transition_write [OF pre run']
  have w1: "replacing (sms_temporary (ext s) mid) (root @ [''messages'']) (mid @ ''.json'') (SmsJson ?m) (fs_get s) (fs_get s')"
    using w(1) by simp
  have set: "settled m state ?m" using True by (auto simp: settled_def)
  have nT: "\<not> sms_temporary (ext s) mid (mid @ ''.json'')" by (auto simp: sms_temporary_def)
  have hold: "fs_get s' (sms_file root mid) = Some (File (SmsJson m)) \<or> fs_get s' (sms_file root mid) = Some (File (SmsJson ?m))"
    using w1 m nT tmp_eq_get [of "sms_temporary (ext s) mid" "root @ [''messages'']" _ "fs_get s'" "sms_file root mid"]
    unfolding replacing_def sms_file_def by fastforce
  have ret: "a = ?m \<and> fs_get s' (sms_file root mid) = Some (File (SmsJson ?m))" if "r = Done a" for a
    using w(2) that by blast
  have "\<exists>m'. fs_get s' (sms_file root mid) = Some (File (SmsJson m')) \<and> (m' = m \<or> settled m state m') \<and>
      (\<forall>a. r = Done a \<longrightarrow> a = m' \<and> sms_delivery_state_of a = state)"
  proof (cases "\<exists>a. r = Done a")
    case True
    then obtain a where "r = Done a" by blast
    with ret [OF this] set show ?thesis by (intro exI [of _ ?m]) auto
  next
    case False
    then show ?thesis using hold set by blast
  qed
  moreover have "fs_get s' q = fs_get s q"
    if "q \<noteq> sms_file root mid" "\<And>n. sms_temporary (ext s) mid n \<Longrightarrow> q \<noteq> root @ [''messages'', n]" for q
    by (rule replacing_elsewhere [OF w1]) (use that in \<open>auto simp: sms_file_def\<close>)
  ultimately show ?thesis using True w(3) by auto
qed

definition sample_sms :: "string \<Rightarrow> string \<Rightarrow> datetime \<Rightarrow> sms_message" where
  "sample_sms mid tid at =
     \<lparr>sms_message_id = mid, sms_batch_id = None, sms_provider_of = Twilio, sms_provider_message_id = mid,
      sms_direction_of = Outbound, sms_channel_of = Sms, sms_from = ''1'', sms_to = ''2'', sms_body = ''b'',
      sms_media_of = [], sms_metadata = [TRANSACTION_METADATA \<mapsto> JString tid], sms_peer = ''2'',
      sms_delivery_state_of = SmsAccepted, sms_created_at = at, sms_updated_at = at\<rparr>"

definition sample_sms_files :: "(path \<times> node) list" where
  "sample_sms_files =
     [([''s''], Dir), ([''s'', ''messages''], Dir), ([''s'', ''messages'', ''x.json''], File (SmsJson (sample_sms ''x'' [] 0)))]"

theorem transition_delivery_settles_once_witness:
  "\<exists>r s' m'. transition_delivery [''s''] ''x'' SmsDelivered (sample_world sample_sms_files [Proceed, Crash (\<lambda>_. True)]) = (r, s') \<and>
     fs_get s' (sms_file [''s''] ''x'') = Some (File (SmsJson m')) \<and>
     (m' = sample_sms ''x'' [] 0 \<or> settled (sample_sms ''x'' [] 0) SmsDelivered m')"
proof -
  let ?s = "sample_world sample_sms_files [Proceed, Crash (\<lambda>_. True)]"
  obtain r s' where run: "transition_delivery [''s''] ''x'' SmsDelivered ?s = (r, s')" by force
  have m: "fs_get ?s (sms_file [''s''] ''x'') = Some (File (SmsJson (sample_sms ''x'' [] 0)))"
    by (simp add: fs_get_def sample_sms_files_def sms_file_def)
  have id: "validate_id ''x'' = Ok ()" by (simp add: validate_id_def sublist_Cons_right)
  have dirs: "fs_get ?s q = Some Dir" if "prefix q ([''s''] @ [''messages''])" for q
    using that by (auto simp: prefix_Cons fs_get_def sample_sms_files_def)
  have tmp: "fs_get ?s ([''s''] @ [''messages'', n]) \<noteq> Some Dir" for n
    by (simp add: fs_get_def sample_sms_files_def)
  show ?thesis
    using transition_delivery_settles_once [OF id m dirs tmp run] run by auto
qed


section \<open>Listings\<close>


definition sample_stored :: "string \<Rightarrow> datetime \<Rightarrow> stored_message" where
  "sample_stored mid at =
     \<lparr>stm_message_id = mid, stm_mailbox = ''a'',
      stm_message =
        \<lparr>msg_source_protocol = Smtp, msg_from = new_address ''f'', msg_to = [new_address ''a''], msg_cc = [], msg_bcc = [],
         msg_reply_to = [], msg_subject = ''s'', msg_headers = Map.empty, msg_body_text = None, msg_body_html = None,
         msg_attachments = [], msg_tracking_disabled = None, msg_provider_metadata = Map.empty, msg_raw_mime = None,
         msg_thread_id = None\<rparr>,
      stm_delivery_status = accepted at, stm_received_at = at\<rparr>"

definition sample_mail_files :: "(path \<times> node) list" where
  "sample_mail_files =
     [([''m''], Dir), ([''m'', TRANSACTIONS], Dir), ([''m'', ''mbx-a''], Dir),
      ([''m'', ''mbx-a'', ''y.json''], File (MailJson (sample_stored ''y'' 2))),
      ([''m'', ''mbx-a'', ''x.json''], File (MailJson (sample_stored ''x'' 1)))]"



end
