(* ===== verification/Configuration.thy ===== *)
theory Configuration
  imports Prelude
begin

text \<open>
  The settings of the process (\<^verbatim>\<open>src/src/config.rs\<close>), computed from a lookup of environment
  variables. The URL parser and the test for a readable file are parameters.
\<close>

datatype log_format = LogText | LogJson

record vendor_credentials =
  vc_azure_account :: "string option"
  vc_azure_account_key :: "string option"
  vc_gcs_hmac_access_id :: "string option"
  vc_gcs_hmac_secret :: "string option"
  vc_oci_tenancy_ocid :: "string option"
  vc_oci_user_ocid :: "string option"
  vc_oci_key_fingerprint :: "string option"
  vc_oci_public_key_path :: "string option"

record mcp_config =
  mcp_auth_enabled :: bool
  mcp_resource_url :: "string option"
  mcp_authorization_server :: "string option"
  mcp_issuer :: "string option"
  mcp_audience :: "string option"
  mcp_jwks_url :: "string option"
  mcp_allowed_hosts :: "string list"
  mcp_allowed_origins :: "string list"

text \<open>The interval is in seconds.\<close>

record config =
  cfg_access_key_id :: "string option"
  cfg_secret_access_key :: "string option"
  cfg_enforce_auth :: bool
  cfg_admin_auth_disabled :: bool
  cfg_blobs_path :: string
  cfg_lifecycle_interval :: nat
  cfg_api_port :: nat
  cfg_ui_port :: nat
  cfg_max_request_bytes :: nat
  cfg_smtp_port :: nat
  cfg_vendor_credentials :: vendor_credentials
  cfg_mcp :: mcp_config

section \<open>Loading\<close>

definition DEFAULT_SQRZL_MAX_REQUEST_BYTES :: nat where
  "DEFAULT_SQRZL_MAX_REQUEST_BYTES = 128 * 1024 * 1024"

definition DEFAULT_SQRZL_SMTP_PORT :: nat where
  "DEFAULT_SQRZL_SMTP_PORT = 2525"

abbreviation parse_u16 :: "string \<Rightarrow> nat option" where
  "parse_u16 \<equiv> parse_uint 65535"

definition parse_bool_env :: "string \<Rightarrow> bool" where
  "parse_bool_env value \<longleftrightarrow> to_ascii_lowercase (str_trim value) \<in> set [''1'', ''true'', ''yes'', ''on'']"

definition parse_csv :: "string \<Rightarrow> string list" where
  "parse_csv value = filter (\<lambda>v. v \<noteq> []) (map str_trim (split_on (CHR '','') value))"

definition unwrap_or :: "'a \<Rightarrow> 'a option \<Rightarrow> 'a" where
  "unwrap_or d v = (case v of Some a \<Rightarrow> a | None \<Rightarrow> d)"

definition positive :: "nat option \<Rightarrow> nat option" where
  "positive v = (case v of Some n \<Rightarrow> if n > 0 then v else None | None \<Rightarrow> None)"

text \<open>The multiplication of the hours is checked in debug builds and wraps in release builds.\<close>

definition lifecycle_seconds :: "nat \<Rightarrow> nat" where
  "lifecycle_seconds hours = (hours * 3600) mod 2 ^ 64"

definition from_env_with :: "(string \<Rightarrow> string option) \<Rightarrow> config" where
  "from_env_with lookup =
     \<lparr>cfg_access_key_id = lookup ''SQRZL_ACCESS_KEY_ID'',
      cfg_secret_access_key = lookup ''SQRZL_SECRET_ACCESS_KEY'',
      cfg_enforce_auth = (lookup ''SQRZL_ACCESS_KEY_ID'' \<noteq> None \<and> lookup ''SQRZL_SECRET_ACCESS_KEY'' \<noteq> None),
      cfg_admin_auth_disabled = (case lookup ''SQRZL_ADMIN_AUTH_DISABLED'' of Some v \<Rightarrow> parse_bool_env v | None \<Rightarrow> False),
      cfg_blobs_path = unwrap_or ''./blobs'' (lookup ''SQRZL_BLOBS_PATH''),
      cfg_lifecycle_interval = lifecycle_seconds (unwrap_or 1 (positive (Option.bind (lookup ''SQRZL_LIFECYCLE_HOURS'') parse_u64))),
      cfg_api_port = unwrap_or 9000 (Option.bind (lookup ''SQRZL_API_PORT'') parse_u16),
      cfg_ui_port = unwrap_or 9001 (Option.bind (lookup ''SQRZL_UI_PORT'') parse_u16),
      cfg_max_request_bytes =
        unwrap_or DEFAULT_SQRZL_MAX_REQUEST_BYTES (positive (Option.bind (lookup ''SQRZL_MAX_REQUEST_BYTES'') parse_u64)),
      cfg_smtp_port = unwrap_or DEFAULT_SQRZL_SMTP_PORT (Option.bind (lookup ''SQRZL_SMTP_PORT'') parse_u16),
      cfg_vendor_credentials =
        \<lparr>vc_azure_account = lookup ''AZURE_ACCOUNT'', vc_azure_account_key = lookup ''AZURE_ACCOUNT_KEY'',
         vc_gcs_hmac_access_id = lookup ''GCS_HMAC_ACCESS_ID'', vc_gcs_hmac_secret = lookup ''GCS_HMAC_SECRET'',
         vc_oci_tenancy_ocid = lookup ''OCI_TENANCY_OCID'', vc_oci_user_ocid = lookup ''OCI_USER_OCID'',
         vc_oci_key_fingerprint = lookup ''OCI_KEY_FINGERPRINT'', vc_oci_public_key_path = lookup ''OCI_PUBLIC_KEY_PATH''\<rparr>,
      cfg_mcp =
        \<lparr>mcp_auth_enabled = (case lookup ''SQRZL_MCP_AUTH_ENABLED'' of Some v \<Rightarrow> parse_bool_env v | None \<Rightarrow> False),
         mcp_resource_url = lookup ''SQRZL_MCP_RESOURCE_URL'',
         mcp_authorization_server = lookup ''SQRZL_MCP_AUTHORIZATION_SERVER'', mcp_issuer = lookup ''SQRZL_MCP_ISSUER'',
         mcp_audience = lookup ''SQRZL_MCP_AUDIENCE'', mcp_jwks_url = lookup ''SQRZL_MCP_JWKS_URL'',
         mcp_allowed_hosts = (case lookup ''SQRZL_MCP_ALLOWED_HOSTS'' of Some v \<Rightarrow> parse_csv v | None \<Rightarrow> []),
         mcp_allowed_origins = (case lookup ''SQRZL_MCP_ALLOWED_ORIGINS'' of Some v \<Rightarrow> parse_csv v | None \<Rightarrow> [])\<rparr>\<rparr>"

definition startup_bucket_names_from_env_with :: "(string \<Rightarrow> string option) \<Rightarrow> string list" where
  "startup_bucket_names_from_env_with lookup =
     (case lookup ''SQRZL_BUCKET_LIST'' of
        Some value \<Rightarrow> filter (\<lambda>v. v \<noteq> []) (map str_trim (split_on (CHR '','') value))
      | None \<Rightarrow> [])"

definition log_format_from_env_with :: "(string \<Rightarrow> string option) \<Rightarrow> log_format" where
  "log_format_from_env_with lookup =
     (case lookup ''SQRZL_LOG_FORMAT'' of
        Some v \<Rightarrow> if to_ascii_lowercase (str_trim v) = ''json'' then LogJson else LogText
      | None \<Rightarrow> LogText)"

section \<open>Credentials\<close>

definition access_key :: "config \<Rightarrow> string option" where
  "access_key c = cfg_access_key_id c"

definition secret_key :: "config \<Rightarrow> string option" where
  "secret_key c = cfg_secret_access_key c"

definition validate_credentials :: "config \<Rightarrow> string \<Rightarrow> string \<Rightarrow> bool" where
  "validate_credentials c provided_key provided_secret =
     (if \<not> cfg_enforce_auth c then True
      else
        case (access_key c, secret_key c) of
          (Some key, Some secret) \<Rightarrow> provided_key = key \<and> provided_secret = secret
        | _ \<Rightarrow> False)"

definition admin_auth_enforced :: "config \<Rightarrow> bool" where
  "admin_auth_enforced c \<longleftrightarrow> cfg_enforce_auth c \<and> \<not> cfg_admin_auth_disabled c"

definition mcp_auth_enforced :: "config \<Rightarrow> bool" where
  "mcp_auth_enforced c \<longleftrightarrow> cfg_enforce_auth c \<or> mcp_auth_enabled (cfg_mcp c)"

definition first_some :: "'a option \<Rightarrow> 'a option \<Rightarrow> 'a option" where
  "first_some a b = (case a of Some _ \<Rightarrow> a | None \<Rightarrow> b)"

definition azure_account :: "config \<Rightarrow> string option" where
  "azure_account c = first_some (vc_azure_account (cfg_vendor_credentials c)) (access_key c)"

definition azure_account_key :: "config \<Rightarrow> string option" where
  "azure_account_key c = first_some (vc_azure_account_key (cfg_vendor_credentials c)) (secret_key c)"

definition azure_auth_enforced :: "config \<Rightarrow> bool" where
  "azure_auth_enforced c \<longleftrightarrow>
     cfg_enforce_auth c \<or> vc_azure_account (cfg_vendor_credentials c) \<noteq> None \<or>
     vc_azure_account_key (cfg_vendor_credentials c) \<noteq> None"

definition gcs_hmac_access_id :: "config \<Rightarrow> string option" where
  "gcs_hmac_access_id c = first_some (vc_gcs_hmac_access_id (cfg_vendor_credentials c)) (access_key c)"

definition gcs_hmac_secret :: "config \<Rightarrow> string option" where
  "gcs_hmac_secret c = first_some (vc_gcs_hmac_secret (cfg_vendor_credentials c)) (secret_key c)"

definition gcs_auth_enforced :: "config \<Rightarrow> bool" where
  "gcs_auth_enforced c \<longleftrightarrow>
     cfg_enforce_auth c \<or> vc_gcs_hmac_access_id (cfg_vendor_credentials c) \<noteq> None \<or>
     vc_gcs_hmac_secret (cfg_vendor_credentials c) \<noteq> None"

definition oci_auth_enforced :: "config \<Rightarrow> bool" where
  "oci_auth_enforced c \<longleftrightarrow>
     cfg_enforce_auth c \<or> vc_oci_tenancy_ocid (cfg_vendor_credentials c) \<noteq> None \<or>
     vc_oci_user_ocid (cfg_vendor_credentials c) \<noteq> None \<or>
     vc_oci_key_fingerprint (cfg_vendor_credentials c) \<noteq> None \<or>
     vc_oci_public_key_path (cfg_vendor_credentials c) \<noteq> None"

definition oci_key_id :: "config \<Rightarrow> string option" where
  "oci_key_id c =
     Option.bind (vc_oci_tenancy_ocid (cfg_vendor_credentials c)) (\<lambda>tenancy.
     Option.bind (vc_oci_user_ocid (cfg_vendor_credentials c)) (\<lambda>user.
     Option.bind (vc_oci_key_fingerprint (cfg_vendor_credentials c)) (\<lambda>fingerprint.
     Some (tenancy @ ''/'' @ user @ ''/'' @ fingerprint))))"

section \<open>Validation\<close>

definition validate_vendor_credentials :: "(string \<Rightarrow> bool) \<Rightarrow> config \<Rightarrow> (string, unit) result" where
  "validate_vendor_credentials names_file c =
     (let v = cfg_vendor_credentials c;
          oci = [vc_oci_tenancy_ocid v, vc_oci_user_ocid v, vc_oci_key_fingerprint v, vc_oci_public_key_path v] in
      if (vc_azure_account v \<noteq> None \<or> vc_azure_account_key v \<noteq> None) \<and> (azure_account c = None \<or> azure_account_key c = None)
      then Err ''AZURE_ACCOUNT and AZURE_ACCOUNT_KEY must both resolve when either is configured''
      else if (vc_gcs_hmac_access_id v \<noteq> None \<or> vc_gcs_hmac_secret v \<noteq> None) \<and> (gcs_hmac_access_id c = None \<or> gcs_hmac_secret c = None)
      then Err ''GCS_HMAC_ACCESS_ID and GCS_HMAC_SECRET must both resolve when either is configured''
      else if list_ex (\<lambda>a. a \<noteq> None) oci \<and> list_ex (\<lambda>a. a = None) oci
      then Err ''OCI_TENANCY_OCID, OCI_USER_OCID, OCI_KEY_FINGERPRINT, and OCI_PUBLIC_KEY_PATH must all be configured''
      else
        case vc_oci_public_key_path v of
          Some p \<Rightarrow> if names_file p then Ok () else Err (''OCI_PUBLIC_KEY_PATH does not name a readable file: '' @ p)
        | None \<Rightarrow> Ok ())"

record url =
  url_scheme :: string
  url_host :: "string option"
  url_query :: "string option"
  url_fragment :: "string option"
  url_path :: string

definition validate_absolute_url :: "(string \<Rightarrow> url option) \<Rightarrow> string \<Rightarrow> bool \<Rightarrow> string \<Rightarrow> (string, unit) result" where
  "validate_absolute_url parse value require_https name =
     (case parse value of
        None \<Rightarrow> Err (name @ '' must be an absolute URL'')
      | Some u \<Rightarrow>
          if url_scheme u \<notin> set [''https'', ''http''] \<or> require_https \<and> url_scheme u \<noteq> ''https''
          then Err (name @ '' must use HTTPS'')
          else if url_host u = None \<or> url_query u \<noteq> None \<or> url_fragment u \<noteq> None
          then Err (name @ '' must be an absolute URL without query or fragment'')
          else if name = ''SQRZL_MCP_RESOURCE_URL'' \<and> url_path u \<noteq> ''/mcp''
          then Err ''SQRZL_MCP_RESOURCE_URL must identify the /mcp endpoint''
          else Ok ())"

definition some_non_empty :: "string option \<Rightarrow> bool" where
  "some_non_empty v = (case v of Some s \<Rightarrow> s \<noteq> [] | None \<Rightarrow> False)"

definition mcp_oauth_settings_present :: "config \<Rightarrow> bool" where
  "mcp_oauth_settings_present c \<longleftrightarrow>
     some_non_empty (mcp_resource_url (cfg_mcp c)) \<and> some_non_empty (mcp_authorization_server (cfg_mcp c)) \<and>
     some_non_empty (mcp_issuer (cfg_mcp c)) \<and> some_non_empty (mcp_audience (cfg_mcp c)) \<and>
     some_non_empty (mcp_jwks_url (cfg_mcp c))"

fun check_required :: "(string \<times> string option) list \<Rightarrow> (string, unit) result" where
  "check_required [] = Ok ()"
| "check_required ((name, value) # rest) =
     (if \<not> some_non_empty value then Err (name @ '' is required when MCP bearer auth is enabled'') else check_required rest)"

definition validate_mcp_config :: "(string \<Rightarrow> url option) \<Rightarrow> config \<Rightarrow> (string, unit) result" where
  "validate_mcp_config parse c =
     (let m = cfg_mcp c in
      if \<not> mcp_auth_enabled m \<and> \<not> mcp_oauth_settings_present c then Ok ()
      else
        bind_result (check_required
          [(''SQRZL_MCP_RESOURCE_URL'', mcp_resource_url m), (''SQRZL_MCP_AUTHORIZATION_SERVER'', mcp_authorization_server m),
           (''SQRZL_MCP_ISSUER'', mcp_issuer m), (''SQRZL_MCP_AUDIENCE'', mcp_audience m), (''SQRZL_MCP_JWKS_URL'', mcp_jwks_url m)]) (\<lambda>_.
        bind_result (validate_absolute_url parse (unwrap_or [] (mcp_resource_url m)) False ''SQRZL_MCP_RESOURCE_URL'') (\<lambda>_.
        bind_result (validate_absolute_url parse (unwrap_or [] (mcp_authorization_server m)) False ''SQRZL_MCP_AUTHORIZATION_SERVER'') (\<lambda>_.
        validate_absolute_url parse (unwrap_or [] (mcp_jwks_url m)) True ''SQRZL_MCP_JWKS_URL''))))"

section \<open>Properties\<close>

text \<open>The ranges of the machine types of the fields and the relations the rest of the program relies on.\<close>

definition config_wf :: "config \<Rightarrow> bool" where
  "config_wf c \<longleftrightarrow>
     cfg_api_port c < 2 ^ 16 \<and> cfg_ui_port c < 2 ^ 16 \<and> cfg_smtp_port c < 2 ^ 16 \<and>
     0 < cfg_max_request_bytes c \<and> cfg_max_request_bytes c < 2 ^ 64 \<and> cfg_lifecycle_interval c < 2 ^ 64 \<and>
     (cfg_enforce_auth c \<longleftrightarrow> access_key c \<noteq> None \<and> secret_key c \<noteq> None) \<and>
     [] \<notin> set (mcp_allowed_hosts (cfg_mcp c)) \<and> [] \<notin> set (mcp_allowed_origins (cfg_mcp c))"

lemma parse_uint_bound: "parse_uint m s = Some n \<Longrightarrow> n \<le> m"
  by (auto simp: parse_uint_def Let_def split: if_splits list.splits)

lemma unwrap_bound: "d \<le> m \<Longrightarrow> unwrap_or d (Option.bind v (parse_uint m)) \<le> m"
  using parse_uint_bound by (cases "Option.bind v (parse_uint m)") (auto simp: unwrap_or_def bind_eq_Some_conv)

lemma unwrap_positive:
  "0 < d \<Longrightarrow> d \<le> m \<Longrightarrow> 0 < unwrap_or d (positive (Option.bind v (parse_uint m))) \<and> unwrap_or d (positive (Option.bind v (parse_uint m))) \<le> m"
  using parse_uint_bound
  by (cases "Option.bind v (parse_uint m)") (auto simp: unwrap_or_def positive_def bind_eq_Some_conv split: option.splits if_splits)

lemma parse_csv_non_empty: "[] \<notin> set (parse_csv v)"
  by (simp add: parse_csv_def)


lemma first_some_None: "first_some a b = None \<longleftrightarrow> a = None \<and> b = None"
  by (simp add: first_some_def split: option.split)

lemma validate_vendor_credentials_Ok:
  assumes "validate_vendor_credentials names_file c = Ok ()" and "v = cfg_vendor_credentials c"
  shows "vc_azure_account v \<noteq> None \<or> vc_azure_account_key v \<noteq> None \<Longrightarrow> azure_account c \<noteq> None \<and> azure_account_key c \<noteq> None"
    "vc_gcs_hmac_access_id v \<noteq> None \<or> vc_gcs_hmac_secret v \<noteq> None \<Longrightarrow> gcs_hmac_access_id c \<noteq> None \<and> gcs_hmac_secret c \<noteq> None"
    "a \<in> set [vc_oci_tenancy_ocid v, vc_oci_user_ocid v, vc_oci_key_fingerprint v, vc_oci_public_key_path v] \<Longrightarrow> a \<noteq> None \<Longrightarrow>
       vc_oci_tenancy_ocid v \<noteq> None \<and> vc_oci_user_ocid v \<noteq> None \<and> vc_oci_key_fingerprint v \<noteq> None \<and>
       (\<exists>p. vc_oci_public_key_path v = Some p \<and> names_file p)"
proof -
  note ok = assms(1) [unfolded validate_vendor_credentials_def Let_def, folded assms(2)]
  show "azure_account c \<noteq> None \<and> azure_account_key c \<noteq> None" if "vc_azure_account v \<noteq> None \<or> vc_azure_account_key v \<noteq> None"
    using ok that by (simp split: if_splits)
  show "gcs_hmac_access_id c \<noteq> None \<and> gcs_hmac_secret c \<noteq> None" if "vc_gcs_hmac_access_id v \<noteq> None \<or> vc_gcs_hmac_secret v \<noteq> None"
    using ok that by (simp split: if_splits)
  show "vc_oci_tenancy_ocid v \<noteq> None \<and> vc_oci_user_ocid v \<noteq> None \<and> vc_oci_key_fingerprint v \<noteq> None \<and>
      (\<exists>p. vc_oci_public_key_path v = Some p \<and> names_file p)"
    if a: "a \<in> set [vc_oci_tenancy_ocid v, vc_oci_user_ocid v, vc_oci_key_fingerprint v, vc_oci_public_key_path v]" "a \<noteq> None"
  proof -
    let ?oci = "[vc_oci_tenancy_ocid v, vc_oci_user_ocid v, vc_oci_key_fingerprint v, vc_oci_public_key_path v]"
    have "list_ex (\<lambda>a. a \<noteq> None) ?oci" using a by (auto simp: list_ex_iff)
    with ok have "\<not> list_ex (\<lambda>a. a = None) ?oci" by (simp split: if_splits)
    with ok show ?thesis by (auto split: if_splits)
  qed
qed



end
