(* ===== verification/Requests.thy ===== *)
theory Requests
  imports Configuration Fs
begin

text \<open>
  Requests as the handlers see them (\<^verbatim>\<open>src/src/server/http.rs\<close>), the helpers of
  \<^verbatim>\<open>src/src/utils/request.rs\<close> and \<^verbatim>\<open>src/src/utils/headers.rs\<close>, and the settings of the process
  (\<^verbatim>\<open>src/src/config.rs\<close>).

  A header map is the list of its entries in the order in which it is read, names in lower case;
  a value is the text it has, if it has one. Hash maps that the code enumerates are ordered
  association lists: the code sorts what it reads from them, or does not depend on the order.
\<close>

section \<open>Requests\<close>

record digests =
  dg_sha384 :: "bytes \<Rightarrow> bytes"
  dg_sha256 :: "bytes \<Rightarrow> bytes"
  dg_sha1 :: "bytes \<Rightarrow> bytes"
  dg_crc32 :: "bytes \<Rightarrow> nat"
  dg_crc32c :: "bytes \<Rightarrow> nat"
  dg_crc64_nvme :: "bytes \<Rightarrow> nat"
  dg_hex_decode :: "string \<Rightarrow> bytes option"

record spooled_payload =
  sp_path :: path
  sp_len :: nat
  sp_md5 :: bytes
  sp_sha256_hex :: string
  sp_sha384 :: bytes
  sp_sha1 :: bytes
  sp_crc32 :: nat
  sp_crc32c :: nat
  sp_crc64_nvme :: nat

record request =
  req_method :: string
  req_path :: string
  req_query :: "string option"
  req_headers :: "(string \<times> string option) list"
  req_body :: bytes
  req_spooled_body :: "spooled_payload option"

definition header :: "request \<Rightarrow> string \<Rightarrow> string option" where
  "header r name = (case map_of (req_headers r) (to_ascii_lowercase name) of Some v \<Rightarrow> v | None \<Rightarrow> None)"

definition headers :: "request \<Rightarrow> (string \<times> string) list" where
  "headers r = List.map_filter (\<lambda>(n, v). map_option (\<lambda>t. (to_ascii_lowercase n, t)) v) (req_headers r)"

definition content_sha256_hint :: "request \<Rightarrow> string option" where
  "content_sha256_hint r = map_option sp_sha256_hex (req_spooled_body r)"

definition payload_len :: "request \<Rightarrow> nat" where
  "payload_len r = (case req_spooled_body r of Some p \<Rightarrow> sp_len p | None \<Rightarrow> length (req_body r))"

definition payload_is_empty :: "request \<Rightarrow> bool" where
  "payload_is_empty r \<longleftrightarrow> payload_len r = 0"

definition payload_md5 :: "externs \<Rightarrow> request \<Rightarrow> bytes" where
  "payload_md5 x r = (case req_spooled_body r of Some p \<Rightarrow> sp_md5 p | None \<Rightarrow> ext_md5 x (req_body r))"

definition payload_sha384 :: "digests \<Rightarrow> request \<Rightarrow> bytes" where
  "payload_sha384 d r = (case req_spooled_body r of Some p \<Rightarrow> sp_sha384 p | None \<Rightarrow> dg_sha384 d (req_body r))"

definition payload_sha256 :: "digests \<Rightarrow> request \<Rightarrow> bytes" where
  "payload_sha256 d r =
     (case req_spooled_body r of
        Some p \<Rightarrow>
          let decoded = (case dg_hex_decode d (sp_sha256_hex p) of Some b \<Rightarrow> b | None \<Rightarrow> [])
          in if length decoded = 32 then decoded else replicate 32 0
      | None \<Rightarrow> dg_sha256 d (req_body r))"

definition payload_sha1 :: "digests \<Rightarrow> request \<Rightarrow> bytes" where
  "payload_sha1 d r = (case req_spooled_body r of Some p \<Rightarrow> sp_sha1 p | None \<Rightarrow> dg_sha1 d (req_body r))"

definition payload_crc32 :: "digests \<Rightarrow> request \<Rightarrow> nat" where
  "payload_crc32 d r = (case req_spooled_body r of Some p \<Rightarrow> sp_crc32 p | None \<Rightarrow> dg_crc32 d (req_body r))"

definition payload_crc32c :: "digests \<Rightarrow> request \<Rightarrow> nat" where
  "payload_crc32c d r = (case req_spooled_body r of Some p \<Rightarrow> sp_crc32c p | None \<Rightarrow> dg_crc32c d (req_body r))"

definition payload_crc64_nvme :: "digests \<Rightarrow> request \<Rightarrow> nat" where
  "payload_crc64_nvme d r = (case req_spooled_body r of Some p \<Rightarrow> sp_crc64_nvme p | None \<Rightarrow> dg_crc64_nvme d (req_body r))"

text \<open>Query parameters: later values replace earlier ones; what does not decode counts as empty.\<close>

definition decode_or_default :: "(string \<Rightarrow> string option) \<Rightarrow> string \<Rightarrow> string" where
  "decode_or_default decode s = (case decode s of Some t \<Rightarrow> t | None \<Rightarrow> [])"

definition decode_param :: "(string \<Rightarrow> string option) \<Rightarrow> string \<Rightarrow> string \<times> string" where
  "decode_param decode param =
     (case split_once (CHR ''='') param of
        Some (key, value) \<Rightarrow> (decode_or_default decode key, decode_or_default decode value)
      | None \<Rightarrow> (decode_or_default decode param, []))"

fun insert_params :: "(string \<Rightarrow> string option) \<Rightarrow> string list \<Rightarrow> (string, string) smap \<Rightarrow> (string, string) smap" where
  "insert_params decode [] m = m"
| "insert_params decode (param # rest) m =
     (if param = [] then insert_params decode rest m
      else case decode_param decode param of (k, v) \<Rightarrow> insert_params decode rest (sm_insert k v m))"

definition parse_query_params :: "(string \<Rightarrow> string option) \<Rightarrow> string option \<Rightarrow> (string, string) smap" where
  "parse_query_params decode query =
     (case query of None \<Rightarrow> [] | Some q \<Rightarrow> insert_params decode (split_on (CHR ''&'') q) [])"

definition query_param :: "(string \<Rightarrow> string option) \<Rightarrow> request \<Rightarrow> string \<Rightarrow> string option" where
  "query_param decode r name = sm_get (parse_query_params decode (req_query r)) name"

definition has_query_param :: "(string \<Rightarrow> string option) \<Rightarrow> request \<Rightarrow> string \<Rightarrow> bool" where
  "has_query_param decode r name \<longleftrightarrow> query_param decode r name \<noteq> None"

section \<open>Bodies\<close>

text \<open>
  The frames of a body as the transport yields them. A body without a limit is collected by the
  transport library, which returns all data and the last trailers it saw.
\<close>

datatype body_frame = DataFrame bytes | TrailerFrame "string list" | FrameError string

datatype collect_body_error = BodyRead string | BodyTooLarge nat

definition reject_s3_checksum_trailers :: "string list option \<Rightarrow> (collect_body_error, unit) result" where
  "reject_s3_checksum_trailers trailers =
     (case trailers of
        Some names \<Rightarrow>
          if list_ex (prefix ''x-amz-checksum-'') names then Err (BodyRead ''S3 checksum trailers are unsupported'') else Ok ()
      | None \<Rightarrow> Ok ())"

fun collect_frames :: "nat \<Rightarrow> bytes \<Rightarrow> body_frame list \<Rightarrow> (collect_body_error, bytes) result" where
  "collect_frames max_request_bytes acc [] = Ok acc"
| "collect_frames max_request_bytes acc (FrameError err # rest) = Err (BodyRead err)"
| "collect_frames max_request_bytes acc (TrailerFrame names # rest) =
     bind_result (reject_s3_checksum_trailers (Some names)) (\<lambda>_. collect_frames max_request_bytes acc rest)"
| "collect_frames max_request_bytes acc (DataFrame data # rest) =
     (if saturating_add_usize (length acc) (length data) > max_request_bytes then Err (BodyTooLarge max_request_bytes)
      else collect_frames max_request_bytes (acc @ data) rest)"

section \<open>Byte ranges and paths\<close>

definition parse_byte_range :: "string \<Rightarrow> (nat \<times> nat option) option" where
  "parse_byte_range value =
     Option.bind (strip_prefix ''bytes='' value) (\<lambda>spec.
     Option.bind (split_once (CHR ''-'') spec) (\<lambda>(first, final).
     Option.bind (parse_u64 first) (\<lambda>start.
     Option.bind (if final = [] then Some None else map_option Some (parse_u64 final)) (\<lambda>stop.
     case stop of
       Some e \<Rightarrow> if e < start then None else Some (start, stop)
     | None \<Rightarrow> Some (start, stop)))))"

definition is_hexdigit :: "char \<Rightarrow> bool" where
  "is_hexdigit c \<longleftrightarrow> is_digit c \<or> c \<in> set ''abcdefABCDEF''"

fun escapes_ok :: "string \<Rightarrow> bool" where
  "escapes_ok [] = True"
| "escapes_ok (c # s) =
     (if c = CHR ''%'' then
        (case s of a # b # rest \<Rightarrow> is_hexdigit a \<and> is_hexdigit b \<and> escapes_ok rest | _ \<Rightarrow> False)
      else escapes_ok s)"

definition decode_uri_path :: "(string \<Rightarrow> string option) \<Rightarrow> string \<Rightarrow> (string, string) result" where
  "decode_uri_path decode value =
     (if \<not> escapes_ok value then Err ''URI path contains an invalid percent escape''
      else ok_or ''URI path is not valid UTF-8'' (decode value))"

section \<open>Origin\<close>

text \<open>The URI parser yields the scheme and the authority of a text, where it has them.\<close>

type_synonym uri_parser = "string \<Rightarrow> (string option \<times> string option) option"

definition normalize_origin :: "uri_parser \<Rightarrow> string \<Rightarrow> string option" where
  "normalize_origin parse_uri origin =
     (if eq_ignore_ascii_case origin ''null'' then None
      else
        Option.bind (parse_uri origin) (\<lambda>(scheme, authority).
        Option.bind scheme (\<lambda>s. Option.bind authority (\<lambda>a. Some (s @ ''://'' @ a)))))"

definition trim_quotes :: "string \<Rightarrow> string" where
  "trim_quotes s = rev (dropWhile (\<lambda>c. c = CHR 0x22) (rev (dropWhile (\<lambda>c. c = CHR 0x22) s)))"

definition non_empty :: "string option \<Rightarrow> string option" where
  "non_empty v = (case v of Some [] \<Rightarrow> None | _ \<Rightarrow> v)"

fun find_directive :: "string \<Rightarrow> string list \<Rightarrow> string option" where
  "find_directive key [] = None"
| "find_directive key (part # rest) =
     (case split_once (CHR ''='') (str_trim part) of
        Some (name, value) \<Rightarrow>
          if eq_ignore_ascii_case (str_trim name) key then Some (trim_quotes (str_trim value)) else find_directive key rest
      | None \<Rightarrow> find_directive key rest)"

definition forwarded_directive :: "string \<Rightarrow> string \<Rightarrow> string option" where
  "forwarded_directive value key = non_empty (find_directive key (split_on (CHR '';'') (hd (split_on (CHR '','') value))))"

definition first_header_value :: "request \<Rightarrow> string \<Rightarrow> string option" where
  "first_header_value r name = non_empty (map_option (\<lambda>v. str_trim (hd (split_on (CHR '','') v))) (header r name))"

definition request_scheme :: "request \<Rightarrow> string" where
  "request_scheme r =
     (case Option.bind (header r ''forwarded'') (\<lambda>v. forwarded_directive v ''proto'') of
        Some v \<Rightarrow> v
      | None \<Rightarrow>
          (case first_some (first_header_value r ''x-forwarded-proto'') (first_header_value r ''x-forwarded-scheme'') of
             Some v \<Rightarrow> v
           | None \<Rightarrow>
               (case header r ''x-forwarded-ssl'' of
                  Some v \<Rightarrow>
                    if to_ascii_lowercase (str_trim v) \<in> set [''on'', ''1'', ''true'', ''yes''] then ''https'' else ''http''
                | None \<Rightarrow> ''http'')))"

definition is_default_port :: "string \<Rightarrow> string \<Rightarrow> bool" where
  "is_default_port scheme port \<longleftrightarrow> scheme = ''http'' \<and> port = ''80'' \<or> scheme = ''https'' \<and> port = ''443''"

definition append_forwarded_port :: "string \<Rightarrow> request \<Rightarrow> string \<Rightarrow> string" where
  "append_forwarded_port authority r scheme =
     (if CHR '':'' \<in> set authority \<or> prefix ''['' authority then authority
      else
        case first_header_value r ''x-forwarded-port'' of
          None \<Rightarrow> authority
        | Some port \<Rightarrow> if is_default_port scheme port then authority else authority @ '':'' @ port)"

definition request_authority :: "request \<Rightarrow> string \<Rightarrow> string" where
  "request_authority r scheme =
     (case Option.bind (header r ''forwarded'') (\<lambda>v. forwarded_directive v ''host'') of
        Some a \<Rightarrow> append_forwarded_port a r scheme
      | None \<Rightarrow>
          (case first_some (first_header_value r ''x-forwarded-host'') (first_header_value r ''host'') of
             Some a \<Rightarrow> append_forwarded_port a r scheme
           | None \<Rightarrow> ''localhost''))"

definition request_origin :: "uri_parser \<Rightarrow> request \<Rightarrow> string" where
  "request_origin parse_uri r =
     (case Option.bind (header r ''origin'') (normalize_origin parse_uri) of
        Some origin \<Rightarrow> origin
      | None \<Rightarrow> request_scheme r @ ''://'' @ request_authority r (request_scheme r))"

section \<open>Metadata headers\<close>

definition extract_metadata_from_http_headers :: "request \<Rightarrow> strmap" where
  "extract_metadata_from_http_headers r =
     map_of (rev (List.map_filter (\<lambda>(n, v). map_option (\<lambda>k. (k, v)) (strip_prefix ''x-amz-meta-'' n)) (headers r)))"

end
