(* ===== verification/Signing.thy ===== *)
theory Signing
  imports Requests "HOL-Library.Product_Lexorder"
begin

text \<open>
  Request signatures: Signature Version 4 in headers (\<^verbatim>\<open>src/src/auth/sigv4.rs\<close>,
  \<^verbatim>\<open>src/src/server/handlers/auth/sigv4.rs\<close>) and in query strings
  (\<^verbatim>\<open>src/src/auth/presigned.rs\<close>), and the principal of a request
  (\<^verbatim>\<open>src/src/auth/authenticator.rs\<close>).

  Hashes, the keyed hash, the text of dates and percent decoding are library functions, collected in
  a record of parameters. The clock reading of a check is its argument \<open>now\<close>. An error response
  is its status, code and message; the random request and host identifiers it also carries are left out.
\<close>

section \<open>Libraries and errors\<close>

record sign_lib =
  sl_sha256_hex :: "bytes \<Rightarrow> string"
  sl_hmac_sha256 :: "bytes \<Rightarrow> bytes \<Rightarrow> bytes"
  sl_hex :: "bytes \<Rightarrow> string"
  sl_header_name :: "string \<Rightarrow> bool"
  sl_parse_stamp :: "string \<Rightarrow> datetime option"   \<comment> \<open>\<open>%Y%m%dT%H%M%SZ\<close>\<close>
  sl_stamp :: "datetime \<Rightarrow> string"
  sl_day :: "datetime \<Rightarrow> string"                   \<comment> \<open>\<open>%Y%m%d\<close>\<close>
  sl_url_decode :: "string \<Rightarrow> string option"
  sl_to_lowercase :: "string \<Rightarrow> string"

record xml_error =
  xe_status :: nat
  xe_code :: string
  xe_message :: string

definition xml_error_response :: "nat \<Rightarrow> string \<Rightarrow> string \<Rightarrow> xml_error" where
  "xml_error_response status code msg = \<lparr>xe_status = status, xe_code = code, xe_message = msg\<rparr>"

definition seconds :: "int \<Rightarrow> datetime" where
  "seconds n = n * 10 ^ 9"

definition minutes :: "int \<Rightarrow> datetime" where
  "minutes n = seconds (60 * n)"

section \<open>Header signatures\<close>

datatype request_validation_error =
  InvalidDate | ClockSkew | InvalidScope | InvalidSignedHeaders | PayloadMismatch | InvalidPayloadHash | UnsupportedPayload

definition valid_signed_header_names :: "sign_lib \<Rightarrow> string list \<Rightarrow> bool" where
  "valid_signed_header_names L names \<longleftrightarrow>
     names \<noteq> [] \<and>
     list_all (\<lambda>name. name \<noteq> [] \<and> \<not> list_ex is_upper name \<and> sl_header_name L name) names \<and>
     list_all (\<lambda>(a, b). a < b) (zip names (tl names))"

fun fold_xor :: "8 word \<Rightarrow> bytes \<Rightarrow> bytes \<Rightarrow> 8 word" where
  "fold_xor acc (x # a) (y # b) = fold_xor (or acc (xor x y)) a b"
| "fold_xor acc _ _ = acc"

definition constant_time_compare :: "bytes \<Rightarrow> bytes \<Rightarrow> bool" where
  "constant_time_compare a b = (if length a \<noteq> length b then False else fold_xor 0 a b = 0)"

definition validate_payload :: "sign_lib \<Rightarrow> request \<Rightarrow> string \<Rightarrow> (request_validation_error, unit) result" where
  "validate_payload L r service =
     (case header r ''x-amz-content-sha256'' of
        None \<Rightarrow> Ok ()
      | Some provided \<Rightarrow>
          if provided = ''UNSIGNED-PAYLOAD'' \<and> service = ''s3'' then Ok ()
          else if length provided \<noteq> 64 \<or> \<not> list_all is_hexdigit provided then
            Err (if provided \<in> set [''UNSIGNED-PAYLOAD'', ''STREAMING-AWS4-HMAC-SHA256-PAYLOAD'',
                   ''STREAMING-AWS4-HMAC-SHA256-PAYLOAD-TRAILER'', ''STREAMING-UNSIGNED-PAYLOAD-TRAILER'']
                 then UnsupportedPayload else InvalidPayloadHash)
          else
            let actual = (case content_sha256_hint r of Some h \<Rightarrow> h | None \<Rightarrow> sl_sha256_hex L (req_body r)) in
            if \<not> constant_time_compare (text_bytes (to_ascii_lowercase provided)) (text_bytes actual)
            then Err PayloadMismatch else Ok ())"

definition request_date :: "request \<Rightarrow> (string \<times> string) option" where
  "request_date r =
     (case header r ''x-amz-date'' of
        Some v \<Rightarrow> Some (''x-amz-date'', v)
      | None \<Rightarrow> map_option (\<lambda>v. (''date'', v)) (header r ''date''))"

definition exact_stamp :: "sign_lib \<Rightarrow> string \<Rightarrow> datetime option" where
  "exact_stamp L raw =
     (case sl_parse_stamp L raw of Some d \<Rightarrow> if sl_stamp L d = raw then Some d else None | None \<Rightarrow> None)"

definition validate_request_at ::
    "sign_lib \<Rightarrow> request \<Rightarrow> string \<Rightarrow> string list \<Rightarrow> string \<Rightarrow> datetime \<Rightarrow> (request_validation_error, unit) result" where
  "validate_request_at L r credential_scope signed_headers service now =
     bind_result (ok_or InvalidDate (request_date r)) (\<lambda>(date_header, raw_date).
     bind_result (ok_or InvalidDate (exact_stamp L raw_date)) (\<lambda>date.
     let window = minutes (if service = ''s3'' then 15 else 5) in
     if date < now - window \<or> date > now + window then Err ClockSkew
     else
       let scope = split_on (CHR ''/'') credential_scope in
       if length scope \<noteq> 4 \<or> scope ! 0 \<noteq> sl_day L date \<or> scope ! 1 = [] \<or> scope ! 2 \<noteq> service \<or> scope ! 3 \<noteq> ''aws4_request''
       then Err InvalidScope
       else if ''host'' \<notin> set signed_headers \<or> date_header \<notin> set signed_headers \<or>
           \<not> valid_signed_header_names L signed_headers \<or>
           list_ex (\<lambda>name. header r name = None) signed_headers \<or>
           list_ex (\<lambda>(name, _). prefix ''x-amz-'' name \<and> name \<noteq> ''x-amz-content-sha256'' \<and> name \<notin> set signed_headers) (headers r)
       then Err InvalidSignedHeaders
       else validate_payload L r service))"

definition get_signature_key :: "sign_lib \<Rightarrow> string \<Rightarrow> string \<Rightarrow> string \<Rightarrow> string \<Rightarrow> bytes" where
  "get_signature_key L secret date_stamp region service =
     (let k_date = sl_hmac_sha256 L (text_bytes (''AWS4'' @ secret)) (text_bytes date_stamp);
          k_region = sl_hmac_sha256 L k_date (text_bytes region);
          k_service = sl_hmac_sha256 L k_region (text_bytes service)
      in sl_hmac_sha256 L k_service (text_bytes ''aws4_request''))"

definition newline :: string where "newline = [CHR 0x0A]"

definition string_to_sign :: "sign_lib \<Rightarrow> string \<Rightarrow> string \<Rightarrow> string \<Rightarrow> string" where
  "string_to_sign L amz_date credential_scope canonical_request =
     ''AWS4-HMAC-SHA256'' @ newline @ amz_date @ newline @ credential_scope @ newline @ sl_sha256_hex L (text_bytes canonical_request)"

definition hmac_sha256_hex :: "sign_lib \<Rightarrow> bytes \<Rightarrow> string \<Rightarrow> string" where
  "hmac_sha256_hex L key data = sl_hex L (sl_hmac_sha256 L key (text_bytes data))"

definition verify :: "sign_lib \<Rightarrow> string \<Rightarrow> string \<Rightarrow> string \<Rightarrow> string \<Rightarrow> string \<Rightarrow> bool" where
  "verify L signature canonical_request amz_date credential_scope secret =
     (let segments = split_on (CHR ''/'') credential_scope in
      if length segments < 2 then False
      else
        let date_stamp = segments ! 0;
            region = segments ! 1;
            service = (if length segments > 2 then segments ! 2 else ''s3'');
            signing_key = get_signature_key L secret date_stamp region service;
            expected = hmac_sha256_hex L signing_key (string_to_sign L amz_date credential_scope canonical_request)
        in constant_time_compare (text_bytes signature) (text_bytes expected))"

section \<open>Canonical requests\<close>

definition hex_upper :: "nat \<Rightarrow> char" where
  "hex_upper n = ''0123456789ABCDEF'' ! n"

definition unreserved :: "char \<Rightarrow> bool" where
  "unreserved c \<longleftrightarrow> is_alphanumeric c \<or> c \<in> set ''-_.~''"

definition encode_char :: "char \<Rightarrow> string" where
  "encode_char c =
     (if unreserved c then [c] else [CHR ''%'', hex_upper (of_char c div 16), hex_upper (of_char c mod 16)])"

definition uri_encode :: "string \<Rightarrow> string" where
  "uri_encode s = concat (map encode_char s)"

definition decode_or_keep :: "sign_lib \<Rightarrow> string \<Rightarrow> string" where
  "decode_or_keep L s = (case sl_url_decode L s of Some t \<Rightarrow> t | None \<Rightarrow> s)"

fun join :: "string \<Rightarrow> string list \<Rightarrow> string" where
  "join sep [] = []"
| "join sep [s] = s"
| "join sep (s # t # rest) = s @ sep @ join sep (t # rest)"

definition canonical_uri :: "sign_lib \<Rightarrow> string \<Rightarrow> string" where
  "canonical_uri L p =
     join ''/'' (map (\<lambda>segment. uri_encode (decode_or_keep L segment)) (split_on (CHR ''/'') (if p = [] then ''/'' else p)))"

definition render_param :: "string \<times> string \<Rightarrow> string" where
  "render_param = (\<lambda>(k, v). k @ ''='' @ v)"

definition canonical_query_string :: "sign_lib \<Rightarrow> string option \<Rightarrow> string" where
  "canonical_query_string L query =
     (case query of
        None \<Rightarrow> []
      | Some q \<Rightarrow>
          join ''&'' (map render_param (sort (map
            (\<lambda>part. case (case split_once (CHR ''='') part of Some kv \<Rightarrow> kv | None \<Rightarrow> (part, [])) of
               (k, v) \<Rightarrow> (uri_encode (decode_or_keep L k), uri_encode (decode_or_keep L v)))
            (filter (\<lambda>part. part \<noteq> []) (split_on (CHR ''&'') q))))))"

text \<open>\<^verbatim>\<open>value.split_whitespace().collect::<Vec<_>>().join(" ")\<close>\<close>

fun words_of :: "string list \<Rightarrow> string \<Rightarrow> string list" where
  "words_of [] acc = (if acc = [] then [] else [acc])"
| "words_of (g # gs) acc =
     (if is_whitespace g then (if acc = [] then words_of gs [] else acc # words_of gs []) else words_of gs (acc @ g))"

definition normalize_header_value :: "string \<Rightarrow> string" where
  "normalize_header_value v = join '' '' (words_of (utf8_chars v) [])"

definition build_canonical_request :: "sign_lib \<Rightarrow> request \<Rightarrow> string list \<Rightarrow> string" where
  "build_canonical_request L r signed_headers =
     (let names = sort signed_headers;
          canonical_headers = map (\<lambda>name. name @ '':'' @
            normalize_header_value (case header r name of Some v \<Rightarrow> v | None \<Rightarrow> [])) names;
          payload_hash =
            (case non_empty (header r ''x-amz-content-sha256'') of
               Some h \<Rightarrow> h
             | None \<Rightarrow> (case content_sha256_hint r of Some h \<Rightarrow> h | None \<Rightarrow> sl_sha256_hex L (req_body r)))
      in req_method r @ newline @ canonical_uri L (req_path r) @ newline @ canonical_query_string L (req_query r) @ newline @
         join newline canonical_headers @ newline @ newline @ join '';'' names @ newline @ payload_hash)"

section \<open>Presigned URLs\<close>

datatype presigned_error = PresignedInvalid string | PresignedSkew | PresignedMismatch string

definition SERVICE :: string where "SERVICE = ''s3''"
definition REGION :: string where "REGION = ''us-east-1''"

record presigned_url =
  pu_bucket :: string
  pu_key :: string
  pu_method :: string
  pu_date :: datetime
  pu_expires_in :: int
  pu_signature :: string
  pu_credential :: string
  pu_query_params :: "(string, string) smap"

text \<open>\<^verbatim>\<open>str::parse::<i64>\<close>\<close>

definition parse_i64 :: "string \<Rightarrow> int option" where
  "parse_i64 s =
     (case s of
        [] \<Rightarrow> None
      | c # r \<Rightarrow>
          if c = CHR ''-''
          then if r = [] \<or> \<not> list_all is_digit r \<or> digits_value 0 r > 2 ^ 63 then None else Some (- int (digits_value 0 r))
          else map_option int (parse_uint (2 ^ 63 - 1) s))"

definition from_query_params :: "sign_lib \<Rightarrow> string \<Rightarrow> string \<Rightarrow> string \<Rightarrow> (string, string) smap \<Rightarrow> (string, presigned_url) result" where
  "from_query_params L bucket key meth params =
     bind_result (ok_or ''Missing signature'' (first_some (sm_get params ''X-Amz-Signature'') (sm_get params ''Signature''))) (\<lambda>signature.
     bind_result (ok_or ''Missing or invalid expires parameter''
       (Option.bind (first_some (sm_get params ''X-Amz-Expires'') (sm_get params ''Expires'')) parse_i64)) (\<lambda>expires_in.
     bind_result (ok_or ''Missing X-Amz-Date parameter'' (sm_get params ''X-Amz-Date'')) (\<lambda>amz_date.
     bind_result (ok_or ''Missing X-Amz-Credential parameter'' (sm_get params ''X-Amz-Credential'')) (\<lambda>credential.
     bind_result (ok_or ''Invalid X-Amz-Date format'' (exact_stamp L amz_date)) (\<lambda>date.
     Ok \<lparr>pu_bucket = bucket, pu_key = key, pu_method = meth, pu_date = date, pu_expires_in = expires_in,
         pu_signature = signature, pu_credential = credential, pu_query_params = params\<rparr>)))))"

record credential_scope =
  cs_access_key :: string
  cs_date :: string
  cs_region :: string
  cs_service :: string
  cs_terminator :: string

definition parse_credential_scope :: "string \<Rightarrow> (string, credential_scope) result" where
  "parse_credential_scope credential =
     (let segments = split_on (CHR ''/'') credential in
      if length segments \<noteq> 5 \<or> list_ex (\<lambda>s. s = []) segments then Err ''Invalid X-Amz-Credential''
      else Ok \<lparr>cs_access_key = segments ! 0, cs_date = segments ! 1, cs_region = segments ! 2,
               cs_service = segments ! 3, cs_terminator = segments ! 4\<rparr>)"

definition presigned_query_string :: "(string, string) smap \<Rightarrow> string" where
  "presigned_query_string params =
     join ''&'' (map render_param (sort (map (\<lambda>(n, v). (uri_encode n, uri_encode v))
       (filter (\<lambda>(n, _). n \<noteq> ''X-Amz-Signature'') params))))"

fun presigned_headers :: "(string, string) smap \<Rightarrow> string list \<Rightarrow> (presigned_error, string) result" where
  "presigned_headers hs [] = Ok []"
| "presigned_headers hs (name # names) =
     bind_result (ok_or (PresignedMismatch (''Missing signed header: '' @ name)) (sm_get hs name)) (\<lambda>value.
     bind_result (presigned_headers hs names) (\<lambda>rest.
     Ok (name @ '':'' @ normalize_header_value value @ newline @ rest)))"

definition map_err :: "('e \<Rightarrow> 'f) \<Rightarrow> ('e, 'a) result \<Rightarrow> ('f, 'a) result" where
  "map_err f r = (case r of Ok a \<Rightarrow> Ok a | Err e \<Rightarrow> Err (f e))"

definition presigned_canonical_request :: "string \<Rightarrow> string \<Rightarrow> string \<Rightarrow> string \<Rightarrow> string list \<Rightarrow> string" where
  "presigned_canonical_request meth uri query canonical_headers signed_header_names =
     meth @ newline @ uri @ newline @ query @ newline @ canonical_headers @ newline @
     join '';'' signed_header_names @ newline @ ''UNSIGNED-PAYLOAD''"

definition validate_components ::
    "sign_lib \<Rightarrow> datetime \<Rightarrow> presigned_url \<Rightarrow> string \<Rightarrow> string \<Rightarrow> (string, string) smap \<Rightarrow> string \<Rightarrow> string \<Rightarrow>
     (presigned_error, unit) result" where
  "validate_components L now u meth p hs key secret =
     (let params = pu_query_params u in
      if sm_get params ''X-Amz-Algorithm'' \<noteq> Some ''AWS4-HMAC-SHA256''
      then Err (PresignedMismatch ''Unsupported or missing X-Amz-Algorithm'')
      else if \<not> (1 \<le> pu_expires_in u \<and> pu_expires_in u \<le> 604800)
      then Err (PresignedMismatch ''X-Amz-Expires must be between 1 and 604800 seconds'')
      else if pu_date u > now + minutes 15 then Err PresignedSkew
      else if now > pu_date u + seconds (pu_expires_in u) then Err (PresignedMismatch ''Presigned URL has expired'')
      else
        bind_result (map_err PresignedMismatch (parse_credential_scope (pu_credential u))) (\<lambda>scope.
        if cs_access_key scope \<noteq> key then Err (PresignedMismatch ''Presigned URL access key does not match'')
        else if cs_date scope \<noteq> sl_day L (pu_date u) \<or> cs_service scope \<noteq> SERVICE \<or> cs_terminator scope \<noteq> ''aws4_request''
        then Err (PresignedMismatch ''Invalid credential scope'')
        else
          let amz_date = sl_stamp L (pu_date u);
              scope_text = cs_date scope @ ''/'' @ cs_region scope @ ''/'' @ cs_service scope @ ''/'' @ cs_terminator scope in
          bind_result (ok_or (PresignedMismatch ''Missing X-Amz-SignedHeaders'') (sm_get params ''X-Amz-SignedHeaders'')) (\<lambda>signed_headers.
          let names = split_on (CHR '';'') signed_headers in
          if \<not> valid_signed_header_names L names \<or> ''host'' \<notin> set names \<or>
             list_ex (\<lambda>(name, _). prefix ''x-amz-'' name \<and> name \<notin> set names) hs
          then Err (PresignedMismatch ''X-Amz-SignedHeaders must contain sorted unique lowercase names including host and every x-amz header'')
          else
            case find (\<lambda>(n, v). to_ascii_lowercase n \<in> set names \<and>
                (case sm_get hs (to_ascii_lowercase n) of Some value \<Rightarrow> value \<noteq> v | None \<Rightarrow> False)) params of
              Some (n, _) \<Rightarrow> Err (PresignedInvalid (''Conflicting signed query parameter and header: '' @ n))
            | None \<Rightarrow>
                bind_result (presigned_headers hs names) (\<lambda>canonical_headers.
                let canonical_request = presigned_canonical_request meth (canonical_uri L p) (presigned_query_string params) canonical_headers names;
                    signing_key = get_signature_key L secret (cs_date scope) (cs_region scope) (cs_service scope);
                    expected = hmac_sha256_hex L signing_key (string_to_sign L amz_date scope_text canonical_request)
                in if pu_signature u \<noteq> expected then Err (PresignedMismatch ''Invalid signature'') else Ok ()))))"

fun collect_headers :: "(string \<times> string) list \<Rightarrow> (string, string) smap \<Rightarrow> (string, string) smap" where
  "collect_headers [] m = m"
| "collect_headers ((n, v) # rest) m = collect_headers rest (sm_insert (to_ascii_lowercase n) v m)"

definition validate_request_contract ::
    "sign_lib \<Rightarrow> datetime \<Rightarrow> presigned_url \<Rightarrow> request \<Rightarrow> string \<Rightarrow> string \<Rightarrow> (presigned_error, unit) result" where
  "validate_request_contract L now u r key secret =
     validate_components L now u (req_method r) (req_path r) (collect_headers (headers r) []) key secret"

definition validate_presigned :: "sign_lib \<Rightarrow> datetime \<Rightarrow> presigned_url \<Rightarrow> string \<Rightarrow> string \<Rightarrow> string \<Rightarrow> (presigned_error, unit) result" where
  "validate_presigned L now u host key secret =
     validate_components L now u (pu_method u) (''/'' @ pu_bucket u @ ''/'' @ pu_key u) [(''host'', host)] key secret"

definition show_int :: "int \<Rightarrow> string" where
  "show_int n = (if n < 0 then ''-'' @ show_nat (nat (- n)) else show_nat (nat n))"

text \<open>The parts of a generated URL: its base, its path, its query without the signature, and the signature.\<close>

definition url_host_of :: "string \<Rightarrow> string" where
  "url_host_of base_url = trim_end_char (CHR ''/'') (trim_start_matches ''https://'' (trim_start_matches ''http://'' base_url))"

definition generated_params :: "sign_lib \<Rightarrow> datetime \<Rightarrow> int \<Rightarrow> string \<Rightarrow> (string \<times> string) list" where
  "generated_params L now expires_in_seconds key =
     sort_key fst
       [(''X-Amz-Algorithm'', ''AWS4-HMAC-SHA256''),
        (''X-Amz-Credential'', key @ ''/'' @ sl_day L now @ ''/'' @ REGION @ ''/'' @ SERVICE @ ''/aws4_request''),
        (''X-Amz-Date'', sl_stamp L now),
        (''X-Amz-Expires'', show_int expires_in_seconds),
        (''X-Amz-SignedHeaders'', ''host'')]"

definition generated_query :: "sign_lib \<Rightarrow> datetime \<Rightarrow> int \<Rightarrow> string \<Rightarrow> string" where
  "generated_query L now expires_in_seconds key =
     join ''&'' (map (\<lambda>(k, v). k @ ''='' @ uri_encode v) (generated_params L now expires_in_seconds key))"

definition generated_signature :: "sign_lib \<Rightarrow> datetime \<Rightarrow> string \<Rightarrow> string \<Rightarrow> string \<Rightarrow> int \<Rightarrow> string \<Rightarrow> string \<Rightarrow> string \<Rightarrow> string" where
  "generated_signature L now bucket key meth expires_in_seconds base_url access secret =
     (let scope = sl_day L now @ ''/'' @ REGION @ ''/'' @ SERVICE @ ''/aws4_request'';
          canonical_request = meth @ newline @ canonical_uri L (''/'' @ bucket @ ''/'' @ key) @ newline @
            generated_query L now expires_in_seconds access @ newline @
            (''host:'' @ url_host_of base_url @ newline) @ newline @ ''host'' @ newline @ ''UNSIGNED-PAYLOAD''
      in hmac_sha256_hex L (get_signature_key L secret (sl_day L now) REGION SERVICE)
           (string_to_sign L (sl_stamp L now) scope canonical_request))"

definition generate_url :: "sign_lib \<Rightarrow> datetime \<Rightarrow> string \<Rightarrow> string \<Rightarrow> string \<Rightarrow> int \<Rightarrow> string \<Rightarrow> string \<Rightarrow> string \<Rightarrow> string" where
  "generate_url L now bucket key meth expires_in_seconds base_url access secret =
     trim_end_char (CHR ''/'') base_url @ ''/'' @ dropWhile (\<lambda>c. c = CHR ''/'') (canonical_uri L (''/'' @ bucket @ ''/'' @ key)) @
     ''?'' @ generated_query L now expires_in_seconds access @ ''&X-Amz-Signature='' @
     generated_signature L now bucket key meth expires_in_seconds base_url access secret"

definition generate_get_url :: "sign_lib \<Rightarrow> datetime \<Rightarrow> string \<Rightarrow> string \<Rightarrow> int \<Rightarrow> string \<Rightarrow> string \<Rightarrow> string \<Rightarrow> string" where
  "generate_get_url L now bucket key = generate_url L now bucket key ''GET''"

definition generate_put_url :: "sign_lib \<Rightarrow> datetime \<Rightarrow> string \<Rightarrow> string \<Rightarrow> int \<Rightarrow> string \<Rightarrow> string \<Rightarrow> string \<Rightarrow> string" where
  "generate_put_url L now bucket key = generate_url L now bucket key ''PUT''"

end
