(* ===== verification/Authorization.thy ===== *)
theory Authorization
  imports Signing Policy Store_Config
begin

text \<open>
  Who a request comes from and what it may do: the principal of a request
  (\<^verbatim>\<open>src/src/auth/authenticator.rs\<close>), the verification of its signature
  (\<^verbatim>\<open>src/src/server/handlers/auth/sigv4.rs\<close>), the authorization of an action
  (\<^verbatim>\<open>src/src/server/handlers/auth.rs\<close>) and access control lists given in headers
  (\<^verbatim>\<open>src/src/server/handlers/acl.rs\<close>).
\<close>

section \<open>Principals\<close>

record auth_info =
  ai_principal :: string
  ai_is_authenticated :: bool

definition auth_anonymous :: auth_info where
  "auth_anonymous = \<lparr>ai_principal = ''*'', ai_is_authenticated = False\<rparr>"

definition auth_authenticated :: "string \<Rightarrow> auth_info" where
  "auth_authenticated p = \<lparr>ai_principal = p, ai_is_authenticated = True\<rparr>"

definition user_arn :: "string \<Rightarrow> string" where
  "user_arn key = ''arn:aws:iam::000000000000:user/'' @ key"

text \<open>The text after the first occurrence of a pattern (\<^verbatim>\<open>str::find\<close>).\<close>

fun after_first :: "string \<Rightarrow> string \<Rightarrow> string option" where
  "after_first pat [] = (if pat = [] then Some [] else None)"
| "after_first pat (c # s) = (if prefix pat (c # s) then Some (drop (length pat) (c # s)) else after_first pat s)"

fun sigv4_principal_parts :: "config \<Rightarrow> string list \<Rightarrow> string option" where
  "sigv4_principal_parts cfg [] = None"
| "sigv4_principal_parts cfg (part # rest) =
     (case after_first ''Credential='' (str_trim part) of
        Some credential \<Rightarrow>
          if access_key cfg = Some (hd (split_on (CHR ''/'') credential))
          then Some (user_arn (hd (split_on (CHR ''/'') credential)))
          else sigv4_principal_parts cfg rest
      | None \<Rightarrow> sigv4_principal_parts cfg rest)"

definition extract_sigv4_principal :: "string \<Rightarrow> config \<Rightarrow> string option" where
  "extract_sigv4_principal auth_str cfg = sigv4_principal_parts cfg (split_on (CHR '','') auth_str)"

definition extract_v2_principal :: "string \<Rightarrow> config \<Rightarrow> string option" where
  "extract_v2_principal auth_str cfg =
     Option.bind (strip_prefix ''AWS '' auth_str) (\<lambda>rest.
     let key = hd (split_on (CHR '':'') rest) in
     if access_key cfg = Some key then Some (user_arn key) else None)"

text \<open>A parameter without an equals sign ends the search.\<close>

fun presigned_principal_params :: "sign_lib \<Rightarrow> config \<Rightarrow> string list \<Rightarrow> string option" where
  "presigned_principal_params L cfg [] = None"
| "presigned_principal_params L cfg (param # rest) =
     (case split_once (CHR ''='') param of
        None \<Rightarrow> None
      | Some (key, raw_value) \<Rightarrow>
          let value = decode_or_keep L raw_value in
          if key = ''X-Amz-Credential'' \<and> access_key cfg = Some (hd (split_on (CHR ''/'') value))
          then Some (user_arn (hd (split_on (CHR ''/'') value)))
          else if key = ''AWSAccessKeyId'' \<and> access_key cfg = Some value then Some (user_arn value)
          else presigned_principal_params L cfg rest)"

definition extract_presigned_principal :: "sign_lib \<Rightarrow> string \<Rightarrow> config \<Rightarrow> string option" where
  "extract_presigned_principal L query cfg = presigned_principal_params L cfg (split_on (CHR ''&'') query)"

definition principal_from_header :: "string \<Rightarrow> config \<Rightarrow> string option" where
  "principal_from_header auth_str cfg =
     (if prefix ''AWS4-HMAC-SHA256'' auth_str \<and> sublist ''Signature='' auth_str \<and> sublist ''SignedHeaders='' auth_str
      then extract_sigv4_principal auth_str cfg
      else if prefix ''AWS '' auth_str \<and> split_once (CHR '':'') auth_str \<noteq> None
      then extract_v2_principal auth_str cfg
      else None)"

definition principal_from_query :: "sign_lib \<Rightarrow> string \<Rightarrow> config \<Rightarrow> string option" where
  "principal_from_query L query cfg =
     (if sublist ''X-Amz-Credential'' query \<and> sublist ''X-Amz-Signature'' query \<or>
         sublist ''AWSAccessKeyId'' query \<and> sublist ''Signature='' query
      then extract_presigned_principal L query cfg else None)"

definition from_request :: "sign_lib \<Rightarrow> request \<Rightarrow> config \<Rightarrow> auth_info" where
  "from_request L r cfg =
     (if \<not> cfg_enforce_auth cfg then auth_authenticated ''sqrzl-emulator''
      else
        case Option.bind (header r ''authorization'') (\<lambda>a. principal_from_header a cfg) of
          Some p \<Rightarrow> auth_authenticated p
        | None \<Rightarrow>
            (case Option.bind (req_query r) (\<lambda>q. principal_from_query L q cfg) of
               Some p \<Rightarrow> auth_authenticated p
             | None \<Rightarrow> auth_anonymous))"

section \<open>Signatures\<close>

fun find_part :: "string \<Rightarrow> string list \<Rightarrow> string option" where
  "find_part name [] = None"
| "find_part name (part # rest) =
     (case strip_prefix name (str_trim part) of Some v \<Rightarrow> Some v | None \<Rightarrow> find_part name rest)"

definition extract_sigv4_signature :: "string \<Rightarrow> string option" where
  "extract_sigv4_signature auth_header = find_part ''Signature='' (split_on (CHR '','') auth_header)"

definition extract_signed_headers :: "string \<Rightarrow> string list option" where
  "extract_signed_headers auth_header =
     map_option (split_on (CHR '';'')) (find_part ''SignedHeaders='' (split_on (CHR '','') auth_header))"

text \<open>Parts are split at commas already, so the scope has none.\<close>

fun credential_scope_parts :: "string list \<Rightarrow> string option" where
  "credential_scope_parts [] = None"
| "credential_scope_parts (part # rest) =
     (case Option.bind (after_first ''Credential='' (str_trim part)) (split_once (CHR ''/'')) of
        Some (_, scope) \<Rightarrow> Some (hd (split_on (CHR '','') scope))
      | None \<Rightarrow> credential_scope_parts rest)"

definition extract_credential_scope :: "string \<Rightarrow> string option" where
  "extract_credential_scope auth_header = credential_scope_parts (split_on (CHR '','') auth_header)"

fun presigned_validation_failure :: "presigned_error \<Rightarrow> xml_error" where
  "presigned_validation_failure (PresignedInvalid msg) = xml_error_response 400 ''InvalidRequest'' msg"
| "presigned_validation_failure PresignedSkew =
     xml_error_response 403 ''RequestTimeTooSkewed'' ''Presigned URL date is too far in the future''"
| "presigned_validation_failure (PresignedMismatch msg) = xml_error_response 403 ''SignatureDoesNotMatch'' msg"

fun request_validation_failure :: "request_validation_error \<Rightarrow> xml_error" where
  "request_validation_failure InvalidDate = xml_error_response 400 ''InvalidRequest'' ''Invalid request date''"
| "request_validation_failure ClockSkew =
     xml_error_response 403 ''RequestTimeTooSkewed'' ''The difference between the request time and the current time is too large''"
| "request_validation_failure PayloadMismatch =
     xml_error_response 400 ''XAmzContentSHA256Mismatch'' ''The provided x-amz-content-sha256 does not match the request body''"
| "request_validation_failure InvalidPayloadHash =
     xml_error_response 400 ''InvalidArgument''
       ''The x-amz-content-sha256 header must be a valid SHA-256 hash or a supported payload signing mode''"
| "request_validation_failure UnsupportedPayload =
     xml_error_response 501 ''NotImplemented'' ''This payload signing mode is not supported''"
| "request_validation_failure InvalidScope =
     xml_error_response 403 ''SignatureDoesNotMatch'' ''The credential scope or signed headers do not match the request''"
| "request_validation_failure InvalidSignedHeaders =
     xml_error_response 403 ''SignatureDoesNotMatch'' ''The credential scope or signed headers do not match the request''"

definition verify_query_signature :: "sign_lib \<Rightarrow> datetime \<Rightarrow> request \<Rightarrow> config \<Rightarrow> (xml_error, bool) result" where
  "verify_query_signature L now r cfg =
     (let query = (case req_query r of Some q \<Rightarrow> q | None \<Rightarrow> []);
          has_credential = sublist ''X-Amz-Credential='' query \<or> sublist ''AWSAccessKeyId='' query;
          complete_presign = sublist ''X-Amz-Credential='' query \<and> sublist ''X-Amz-Signature='' query \<or>
                             sublist ''AWSAccessKeyId='' query \<and> sublist ''Signature='' query
      in
      if complete_presign then
        bind_result (map_err (xml_error_response 400 ''InvalidRequest'')
          (from_query_params L [] [] (req_method r) (parse_query_params (sl_url_decode L) (Some query)))) (\<lambda>presigned.
        case access_key cfg of
          None \<Rightarrow> Ok True
        | Some key \<Rightarrow>
            (case secret_key cfg of
               None \<Rightarrow> Ok True
             | Some secret \<Rightarrow>
                 bind_result (map_err presigned_validation_failure (validate_request_contract L now presigned r key secret)) (\<lambda>_.
                 bind_result (map_err request_validation_failure (validate_payload L r ''s3'')) (\<lambda>_. Ok True))))
      else if \<not> has_credential then Ok True
      else Err (xml_error_response 403 ''AccessDenied'' ''A complete request signature is required''))"

definition verify_header_signature :: "sign_lib \<Rightarrow> datetime \<Rightarrow> request \<Rightarrow> string \<Rightarrow> config \<Rightarrow> (xml_error, bool) result" where
  "verify_header_signature L now r auth_header cfg =
     (if \<not> prefix ''AWS4-HMAC-SHA256'' auth_header
      then Err (xml_error_response 403 ''InvalidRequest'' ''Only AWS Signature Version 4 is accepted when authentication is enforced'')
      else
        bind_result (ok_or (xml_error_response 400 ''InvalidRequest'' ''Missing date header'') (map_option snd (request_date r))) (\<lambda>amz_date.
        bind_result (ok_or (xml_error_response 400 ''InvalidRequest'' ''Missing signature in authorization header'')
          (extract_sigv4_signature auth_header)) (\<lambda>signature.
        bind_result (ok_or (xml_error_response 400 ''InvalidRequest'' ''Missing signed headers in authorization header'')
          (case extract_signed_headers auth_header of Some (n # ns) \<Rightarrow> Some (n # ns) | _ \<Rightarrow> None)) (\<lambda>signed_headers.
        bind_result (ok_or (xml_error_response 400 ''InvalidRequest'' ''Missing credential in authorization header'')
          (extract_credential_scope auth_header)) (\<lambda>scope.
        case secret_key cfg of
          None \<Rightarrow> Ok True
        | Some secret \<Rightarrow>
            if access_key cfg = None then Ok True
            else if extract_sigv4_principal auth_header cfg = None
            then Err (xml_error_response 403 ''InvalidAccessKeyId'' ''The AWS Access Key Id you provided does not exist in our records'')
            else
              bind_result (map_err request_validation_failure (validate_request_at L r scope signed_headers ''s3'' now)) (\<lambda>_.
              if \<not> verify L signature (build_canonical_request L r signed_headers) amz_date scope secret
              then Err (xml_error_response 403 ''SignatureDoesNotMatch'' ''The provided signature does not match'')
              else Ok True))))))"

definition verify_sigv4_signature :: "sign_lib \<Rightarrow> datetime \<Rightarrow> request \<Rightarrow> config \<Rightarrow> (xml_error, bool) result" where
  "verify_sigv4_signature L now r cfg =
     (if \<not> cfg_enforce_auth cfg then Ok True
      else
        case header r ''authorization'' of
          None \<Rightarrow> verify_query_signature L now r cfg
        | Some auth_header \<Rightarrow> verify_header_signature L now r auth_header cfg)"

definition verify_presigned_url :: "sign_lib \<Rightarrow> datetime \<Rightarrow> request \<Rightarrow> string \<Rightarrow> string \<Rightarrow> config \<Rightarrow> (xml_error, bool) result" where
  "verify_presigned_url L now r bucket key cfg =
     (if \<not> cfg_enforce_auth cfg then Ok True
      else
        let params = parse_query_params (sl_url_decode L) (req_query r) in
        if sm_get params ''X-Amz-Signature'' = None \<and> sm_get params ''Signature'' = None then Ok True
        else
          case from_query_params L bucket key (req_method r) params of
            Err e \<Rightarrow> Err (xml_error_response 400 ''InvalidRequest'' (''Invalid presigned URL parameters: '' @ e))
          | Ok presigned \<Rightarrow>
              (case secret_key cfg of
                 None \<Rightarrow> Ok True
               | Some secret \<Rightarrow>
                   bind_result (map_err presigned_validation_failure
                     (validate_request_contract L now presigned r
                       (case access_key cfg of Some k \<Rightarrow> k | None \<Rightarrow> ''sqrzl-emulator'') secret)) (\<lambda>_. Ok True)))"

section \<open>Authorization\<close>

definition default_owner :: "config \<Rightarrow> string" where
  "default_owner cfg = (case access_key cfg of Some k \<Rightarrow> k | None \<Rightarrow> ''sqrzl-emulator'')"

definition build_request_headers :: "request \<Rightarrow> strmap" where
  "build_request_headers r = map_of (rev (map (\<lambda>(n, v). (to_ascii_lowercase n, v)) (headers r)))"

fun context_params :: "sign_lib \<Rightarrow> string list \<Rightarrow> strmap \<Rightarrow> strmap" where
  "context_params L [] m = m"
| "context_params L (param # rest) m =
     (if param = [] then context_params L rest m
      else
        case decode_param (sl_url_decode L) param of
          (k, v) \<Rightarrow> context_params L rest (m(sl_to_lowercase L k \<mapsto> v)))"

definition context_query_params :: "sign_lib \<Rightarrow> string option \<Rightarrow> strmap" where
  "context_query_params L query =
     (case query of None \<Rightarrow> Map.empty | Some q \<Rightarrow> context_params L (split_on (CHR ''&'') q) Map.empty)"

definition arn_of :: "string \<Rightarrow> string option \<Rightarrow> string" where
  "arn_of bucket key = (case key of Some k \<Rightarrow> ''arn:aws:s3:::'' @ bucket @ ''/'' @ k | None \<Rightarrow> ''arn:aws:s3:::'' @ bucket)"

definition request_context :: "sign_lib \<Rightarrow> request \<Rightarrow> config \<Rightarrow> auth_info \<Rightarrow> string \<Rightarrow> string option \<Rightarrow> string \<Rightarrow> strmap \<Rightarrow> auth_context" where
  "request_context L r cfg info bucket key act tags =
     \<lparr>ctx_principal = ai_principal info, ctx_is_authenticated = ai_is_authenticated info, ctx_action = act,
      ctx_resource = arn_of bucket key, ctx_bucket_owner = Some (default_owner cfg),
      ctx_object_owner = Some (default_owner cfg), ctx_request_headers = build_request_headers r,
      ctx_query_params = context_query_params L (req_query r), ctx_existing_object_tags = tags\<rparr>"

definition final_decision :: "policy_effect \<Rightarrow> bool \<Rightarrow> auth_info \<Rightarrow> string \<Rightarrow> bool" where
  "final_decision eff acl_allowed info owner_id =
     (case eff of
        Deny \<Rightarrow> False
      | Allow \<Rightarrow> True
      | Neutral \<Rightarrow> acl_allowed \<or> (ai_is_authenticated info \<and> sublist owner_id (ai_principal info)))"

definition check_authorization ::
    "sign_lib \<Rightarrow> datetime \<Rightarrow> request \<Rightarrow> config \<Rightarrow> string \<Rightarrow> string option \<Rightarrow> string \<Rightarrow> (xml_error, auth_info) result io" where
  "check_authorization L now r cfg bucket key act =
     (case verify_sigv4_signature L now r cfg of
        Err e \<Rightarrow> return (Err e)
      | Ok _ \<Rightarrow>
          let info = from_request L r cfg in
          if \<not> cfg_enforce_auth cfg then return (Ok info)
          else
            bind_io (case key of
                       Some k \<Rightarrow> bind_io (try_io (get_object_tags bucket k)) (\<lambda>t. return (case t of Ok tags \<Rightarrow> tags | Err _ \<Rightarrow> Map.empty))
                     | None \<Rightarrow> return Map.empty) (\<lambda>tags.
            bind_io (gets ext) (\<lambda>x.
            let owner_id = default_owner cfg;
                ctx = request_context L r cfg info bucket key act tags in
            bind_io (try_io (case key of Some k \<Rightarrow> get_object_acl bucket k | None \<Rightarrow> get_bucket_acl bucket)) (\<lambda>a.
            let acl_allowed = (case a of Ok acl \<Rightarrow> check_acl_permission acl owner_id ctx | Err _ \<Rightarrow> False) in
            bind_io (try_io (get_bucket_policy bucket)) (\<lambda>p.
            let policy_result = (case p of Ok policy \<Rightarrow> evaluate_policy x policy ctx | Err _ \<Rightarrow> Neutral) in
            return (if final_decision policy_result acl_allowed info owner_id then Ok info
                    else Err (xml_error_response 403 ''AccessDenied'' ''Access Denied'')))))))"

section \<open>Access control lists in headers\<close>

definition OWNER_ID :: string where "OWNER_ID = ''sqrzl-emulator''"

definition owner_full_control_grant :: grant where
  "owner_full_control_grant = \<lparr>grantee = CanonicalUser OWNER_ID None, permission = FullControl\<rparr>"

definition is_owner_grant :: "grant \<Rightarrow> bool" where
  "is_owner_grant g = (case (grantee g, permission g) of (CanonicalUser i _, FullControl) \<Rightarrow> i = OWNER_ID | _ \<Rightarrow> False)"

definition normalize_acl :: "acl \<Rightarrow> acl" where
  "normalize_acl a =
     (if grants a \<noteq> [] \<and> \<not> list_ex is_owner_grant (grants a) then a\<lparr>grants := owner_full_control_grant # grants a\<rparr> else a)"

definition parse_quoted_value :: "string \<Rightarrow> string \<Rightarrow> string option" where
  "parse_quoted_value input key =
     Option.bind (strip_prefix (key @ ''='' @ [CHR 0x22]) input) (strip_suffix [CHR 0x22])"

fun parse_grantees :: "string list \<Rightarrow> (string, grantee list) result" where
  "parse_grantees [] = Ok []"
| "parse_grantees (raw_part # rest) =
     (let part = str_trim raw_part in
      if part = [] then parse_grantees rest
      else
        case parse_quoted_value part ''id'' of
          Some i \<Rightarrow> bind_result (parse_grantees rest) (\<lambda>gs. Ok (CanonicalUser i None # gs))
        | None \<Rightarrow>
            (case parse_quoted_value part ''uri'' of
               Some uri \<Rightarrow> bind_result (parse_grantees rest) (\<lambda>gs. Ok (Group uri # gs))
             | None \<Rightarrow> Err (''Unsupported ACL grantee expression: '' @ part)))"

definition parse_grantee_header_value :: "string \<Rightarrow> (string, grantee list) result" where
  "parse_grantee_header_value value =
     bind_result (parse_grantees (split_on (CHR '','') value)) (\<lambda>gs.
     if gs = [] then Err ''ACL grant header did not include any grantees'' else Ok gs)"

text \<open>The names of the canned lists as \<^verbatim>\<open>serde\<close> renames them; an unknown name is the default.\<close>

definition canned_acl_named :: "string \<Rightarrow> canned_acl" where
  "canned_acl_named name =
     (if name = ''public-read'' then PublicRead
      else if name = ''public-read-write'' then PublicReadWrite
      else if name = ''authenticated-read'' then AuthenticatedRead
      else if name = ''bucket-owner-read'' then BucketOwnerRead
      else if name = ''bucket-owner-full-control'' then BucketOwnerFullControl
      else Private)"

definition grant_headers :: "(string \<times> permission) list" where
  "grant_headers =
     [(''x-amz-grant-read'', Read), (''x-amz-grant-write'', Write), (''x-amz-grant-read-acp'', ReadAcp),
      (''x-amz-grant-write-acp'', WriteAcp), (''x-amz-grant-full-control'', FullControl)]"

fun header_grants :: "request \<Rightarrow> (string \<times> permission) list \<Rightarrow> grant list \<Rightarrow> bool \<Rightarrow> (string, grant list) result" where
  "header_grants r [] gs saw = Ok gs"
| "header_grants r ((name, perm) # rest) gs saw =
     (case header r name of
        None \<Rightarrow> header_grants r rest gs saw
      | Some value \<Rightarrow>
          bind_result (parse_grantee_header_value value) (\<lambda>parsed.
          header_grants r rest
            ((if saw then gs else gs @ [owner_full_control_grant]) @ map (\<lambda>g. \<lparr>grantee = g, permission = perm\<rparr>) parsed) True))"

definition acl_from_headers :: "request \<Rightarrow> (string, acl) result" where
  "acl_from_headers r =
     bind_result (header_grants r grant_headers [] False) (\<lambda>gs.
     Ok (normalize_acl \<lparr>canned = canned_acl_named (case header r ''x-amz-acl'' of Some v \<Rightarrow> v | None \<Rightarrow> ''private''), grants = gs\<rparr>))"

end
