(* ===== verification/Texts.thy ===== *)
theory Texts
  imports Prelude
begin

text \<open>
  More of the text functions of the standard library: validity and lossy decoding of UTF-8, ASCII case,
  lines, words and control characters. A text is the list of its UTF-8 bytes.
\<close>

section \<open>UTF-8\<close>

text \<open>The encodings of one, two, three and four bytes that \<^verbatim>\<open>String::from_utf8\<close> accepts.\<close>

definition in_bytes :: "nat \<Rightarrow> nat \<Rightarrow> char \<Rightarrow> bool" where
  "in_bytes lo hi c \<longleftrightarrow> lo \<le> of_char c \<and> of_char c \<le> hi"

fun utf8_valid :: "string \<Rightarrow> bool" where
  "utf8_valid [] = True"
| "utf8_valid (a # s) =
     (if in_bytes 0 0x7F a then utf8_valid s
      else case s of
        [] \<Rightarrow> False
      | b # s \<Rightarrow>
          if in_bytes 0xC2 0xDF a then in_bytes 0x80 0xBF b \<and> utf8_valid s
          else case s of
            [] \<Rightarrow> False
          | c # s \<Rightarrow>
              if in_bytes 0xE0 0xEF a
              then in_bytes (if of_char a = (0xE0::nat) then 0xA0 else 0x80)
                            (if of_char a = (0xED::nat) then 0x9F else 0xBF) b \<and>
                   in_bytes 0x80 0xBF c \<and> utf8_valid s
              else case s of
                [] \<Rightarrow> False
              | d # s \<Rightarrow>
                  in_bytes 0xF0 0xF4 a \<and>
                  in_bytes (if of_char a = (0xF0::nat) then 0x90 else 0x80)
                           (if of_char a = (0xF4::nat) then 0x8F else 0xBF) b \<and>
                  in_bytes 0x80 0xBF c \<and> in_bytes 0x80 0xBF d \<and> utf8_valid s)"

text \<open>
  The first sequence of a text and whether it is the encoding of a character; if not, it is the longest
  beginning of one, or one byte (the chunks of \<^verbatim>\<open>String::from_utf8_lossy\<close>).
\<close>

definition first_in :: "nat \<Rightarrow> nat \<Rightarrow> string \<Rightarrow> bool" where
  "first_in lo hi s \<longleftrightarrow> (case s of [] \<Rightarrow> False | c # _ \<Rightarrow> in_bytes lo hi c)"

definition utf8_step :: "char \<Rightarrow> string \<Rightarrow> nat \<times> bool" where
  "utf8_step a s =
     (if in_bytes 0 0x7F a then (1, True)
      else if in_bytes 0xC2 0xDF a then (if first_in 0x80 0xBF s then (2, True) else (1, False))
      else if in_bytes 0xE0 0xEF a then
        (if \<not> first_in (if of_char a = (0xE0::nat) then 0xA0 else 0x80) (if of_char a = (0xED::nat) then 0x9F else 0xBF) s
         then (1, False)
         else if \<not> first_in 0x80 0xBF (drop 1 s) then (2, False)
         else (3, True))
      else if in_bytes 0xF0 0xF4 a then
        (if \<not> first_in (if of_char a = (0xF0::nat) then 0x90 else 0x80) (if of_char a = (0xF4::nat) then 0x8F else 0xBF) s
         then (1, False)
         else if \<not> first_in 0x80 0xBF (drop 1 s) then (2, False)
         else if \<not> first_in 0x80 0xBF (drop 2 s) then (3, False)
         else (4, True))
      else (1, False))"

lemma utf8_step_pos [simp]: "0 < fst (utf8_step a s)"
  by (simp add: utf8_step_def)

function utf8_lossy :: "string \<Rightarrow> string" where
  "utf8_lossy [] = []"
| "utf8_lossy (a # s) =
     (let n = fst (utf8_step a s) in
      (if snd (utf8_step a s) then take n (a # s) else [CHR 0xEF, CHR 0xBF, CHR 0xBD]) @ utf8_lossy (drop n (a # s)))"
  by pat_completeness auto
termination
  by (relation "measure length") (auto simp: drop_Cons' diff_less_Suc)

text \<open>Text of ASCII characters decodes to itself.\<close>

lemma utf8_lossy_ascii: "list_all (in_bytes 0 0x7F) s \<Longrightarrow> utf8_lossy s = s"
  by (induction s) (simp_all add: utf8_step_def)

lemma utf8_valid_ascii: "list_all (in_bytes 0 0x7F) a \<Longrightarrow> utf8_valid (a @ s) = utf8_valid s"
  by (induction a) auto

lemma utf8_chars_ascii: "list_all (\<lambda>c. (of_char c :: nat) < 128) s \<Longrightarrow> utf8_chars s = map (\<lambda>c. [c]) s"
proof (induction s)
  case (Cons c s)
  then have "takeWhile is_utf8_cont s = []" "dropWhile is_utf8_cont s = s" by (cases s; simp add: is_utf8_cont_def)+
  with Cons show ?case by simp
qed simp

section \<open>Case, lines and words\<close>

definition to_ascii_uppercase :: "string \<Rightarrow> string" where
  "to_ascii_uppercase = map (\<lambda>c. if is_lower c then char_of ((of_char c :: nat) - 32) else c)"

text \<open>\<^verbatim>\<open>char::is_control\<close>: the control characters of the first two blocks.\<close>

definition is_control :: "string \<Rightarrow> bool" where
  "is_control g \<longleftrightarrow>
     (case map (\<lambda>c. of_char c :: nat) g of
        [n] \<Rightarrow> n < 0x20 \<or> n = 0x7F
      | [m, n] \<Rightarrow> m = 0xC2 \<and> 0x80 \<le> n \<and> n \<le> 0x9F
      | _ \<Rightarrow> False)"

text \<open>
  \<^verbatim>\<open>str::lines\<close>: the pieces between line feeds, without a final empty piece; a carriage return before
  a line feed belongs to the line break.
\<close>

definition str_lines :: "string \<Rightarrow> string list" where
  "str_lines s =
     (let ps = split_on (CHR 0x0A) s in
      map (\<lambda>l. if l \<noteq> [] \<and> last l = CHR 0x0D then butlast l else l) (butlast ps)
      @ (if last ps = [] then [] else [last ps]))"

text \<open>\<^verbatim>\<open>str::split_once\<close> with a text as the pattern.\<close>

fun split_once_str :: "string \<Rightarrow> string \<Rightarrow> (string \<times> string) option" where
  "split_once_str p [] = (if p = [] then Some ([], []) else None)"
| "split_once_str p (c # s) =
     (if prefix p (c # s) then Some ([], drop (length p) (c # s))
      else map_option (\<lambda>(a, b). (c # a, b)) (split_once_str p s))"

end
