(* ===== verification/Auth_Correct.thy ===== *)
theory Auth_Correct
  imports Authorization Buckets Texts
begin

text \<open>
  Requests count as authenticated only with a valid signature, and access decisions follow the policy,
  the access control list and the owner, in this order.
\<close>

section \<open>Comparison of digests\<close>

lemma fold_xor_zero: "length a = length b \<Longrightarrow> fold_xor acc a b = 0 \<longleftrightarrow> acc = 0 \<and> a = b"
proof (induction acc a b rule: fold_xor.induct)
  case (1 acc x a y b)
  have "or acc (xor x y) = 0 \<longleftrightarrow> acc = 0 \<and> x = y"
    by (auto simp: bit_eq_iff bit_or_iff bit_xor_iff)
  with 1 show ?case by auto
qed auto

lemma constant_time_compare_eq: "constant_time_compare a b \<longleftrightarrow> a = b"
  by (auto simp: constant_time_compare_def fold_xor_zero)

lemma text_bytes_eq: "text_bytes a = text_bytes b \<longleftrightarrow> a = b"
  by (metis bytes_text_bytes)

lemmas compare_simps = constant_time_compare_eq text_bytes_eq

section \<open>Principals\<close>

lemma sigv4_principal_parts_key: "sigv4_principal_parts cfg ps = Some p \<Longrightarrow> \<exists>k. access_key cfg = Some k \<and> p = user_arn k"
  by (induction ps) (auto split: option.splits if_splits)

lemma presigned_principal_params_key:
  "presigned_principal_params L cfg ps = Some p \<Longrightarrow> \<exists>k. access_key cfg = Some k \<and> p = user_arn k"
  by (induction ps) (auto simp: Let_def split: option.splits if_splits)

lemma principal_key:
  "principal_from_header a cfg = Some p \<Longrightarrow> \<exists>k. access_key cfg = Some k \<and> p = user_arn k"
  "principal_from_query L q cfg = Some p \<Longrightarrow> \<exists>k. access_key cfg = Some k \<and> p = user_arn k"
  using sigv4_principal_parts_key presigned_principal_params_key
  by (auto simp: principal_from_header_def principal_from_query_def extract_sigv4_principal_def extract_v2_principal_def
      extract_presigned_principal_def Let_def bind_eq_Some_conv split: if_splits)

text \<open>A parameter found by splitting is a piece of the query.\<close>

lemma split_on_head: "\<exists>rest. s = hd (split_on c s) @ rest"
proof (induction s)
  case (Cons x s)
  then show ?case by (cases "split_on c s") (auto split: list.splits)
qed simp

lemma split_on_sublist: "part \<in> set (split_on c s) \<Longrightarrow> sublist part s"
proof (induction s)
  case (Cons x s)
  obtain y ys where sp: "split_on c s = y # ys" using split_on_not_Nil [of c s] by (cases "split_on c s") auto
  have "sublist y s" "\<exists>rest. s = y @ rest" using Cons.IH split_on_head [of s c] sp by (auto intro!: Cons.IH)
  show ?case
  proof (cases "x = c \<or> part \<in> set ys")
    case True
    then show ?thesis using Cons sp by (auto intro: sublist_Cons_right [THEN iffD2] split: if_splits)
  next
    case False
    then have "part = x # y" using Cons.prems sp by auto
    then show ?thesis using \<open>\<exists>rest. s = y @ rest\<close> by (auto simp: sublist_Cons_right prefix_def)
  qed
qed simp

lemma presigned_principal_credential:
  "presigned_principal_params L cfg ps = Some p \<Longrightarrow>
   \<exists>part \<in> set ps. sublist ''X-Amz-Credential='' part \<or> sublist ''AWSAccessKeyId='' part"
proof (induction ps)
  case (Cons param ps)
  have "sublist (k @ ''='') param" if "split_once (CHR ''='') param = Some (k, v)" for k v
    using split_once_Some [OF that] by (auto simp: sublist_def)
  with Cons show ?case by (fastforce simp: Let_def split: option.splits if_splits)
qed simp

lemma principal_has_credential:
  assumes "principal_from_query L q cfg = Some p"
  shows "sublist ''X-Amz-Credential='' q \<or> sublist ''AWSAccessKeyId='' q"
proof -
  from assms obtain part where "part \<in> set (split_on (CHR ''&'') q)"
    "sublist ''X-Amz-Credential='' part \<or> sublist ''AWSAccessKeyId='' part"
    using presigned_principal_credential
    by (fastforce simp: principal_from_query_def extract_presigned_principal_def split: if_splits)
  with split_on_sublist show ?thesis by (meson sublist_order.order.trans)
qed

section \<open>What a signature vouches for\<close>

text \<open>The content hash a request declares, if any, is that of its payload, unless it is declared unsigned.\<close>

definition payload_vouched :: "sign_lib \<Rightarrow> request \<Rightarrow> bool" where
  "payload_vouched L r \<longleftrightarrow>
     (\<forall>h. header r ''x-amz-content-sha256'' = Some h \<longrightarrow>
        h = ''UNSIGNED-PAYLOAD'' \<or>
        to_ascii_lowercase h = (case content_sha256_hint r of Some d \<Rightarrow> d | None \<Rightarrow> sl_sha256_hex L (req_body r)))"

text \<open>The keyed hash of a request under a secret: the signature of the date, the scope and the canonical request.\<close>

definition expected_signature :: "sign_lib \<Rightarrow> string \<Rightarrow> datetime \<Rightarrow> string \<Rightarrow> string \<Rightarrow> string" where
  "expected_signature L secret date region canonical_request =
     hmac_sha256_hex L (get_signature_key L secret (sl_day L date) region ''s3'')
       (string_to_sign L (sl_stamp L date) (sl_day L date @ ''/'' @ region @ ''/s3/aws4_request'') canonical_request)"

text \<open>
  Signed in its headers: the \<open>Authorization\<close> header carries the expected signature of the canonical request
  over header names that include the host, the date and every \<open>x-amz\<close> header but the content hash, dated at
  most a quarter of an hour from \<open>now\<close>.
\<close>

definition header_signed :: "sign_lib \<Rightarrow> datetime \<Rightarrow> request \<Rightarrow> string \<Rightarrow> bool" where
  "header_signed L now r secret \<longleftrightarrow>
     (\<exists>auth names date region.
        header r ''authorization'' = Some auth \<and> prefix ''AWS4-HMAC-SHA256'' auth \<and>
        extract_signed_headers auth = Some names \<and> valid_signed_header_names L names \<and> ''host'' \<in> set names \<and>
        (\<forall>(n, _) \<in> set (headers r). prefix ''x-amz-'' n \<and> n \<noteq> ''x-amz-content-sha256'' \<longrightarrow> n \<in> set names) \<and>
        (\<exists>d. request_date r = Some (d, sl_stamp L date) \<and> d \<in> set names) \<and>
        \<bar>date - now\<bar> \<le> minutes 15 \<and> region \<noteq> [] \<and> payload_vouched L r \<and>
        extract_sigv4_signature auth = Some (expected_signature L secret date region (build_canonical_request L r names)))"

text \<open>
  Signed in its query: the parameters carry the expected signature of the method, the path, the other parameters
  and the signed headers, and \<open>now\<close> lies in the period for which the URL was issued.
\<close>

definition query_signed :: "sign_lib \<Rightarrow> datetime \<Rightarrow> request \<Rightarrow> string \<Rightarrow> string \<Rightarrow> bool" where
  "query_signed L now r key secret \<longleftrightarrow>
     (\<exists>params names date region period canonical_headers.
        params = parse_query_params (sl_url_decode L) (req_query r) \<and>
        sm_get params ''X-Amz-Algorithm'' = Some ''AWS4-HMAC-SHA256'' \<and>
        sm_get params ''X-Amz-Date'' = Some (sl_stamp L date) \<and>
        sm_get params ''X-Amz-Credential'' = Some (key @ ''/'' @ sl_day L date @ ''/'' @ region @ ''/s3/aws4_request'') \<and>
        map_option (split_on (CHR '';'')) (sm_get params ''X-Amz-SignedHeaders'') = Some names \<and>
        valid_signed_header_names L names \<and> ''host'' \<in> set names \<and>
        1 \<le> period \<and> period \<le> 604800 \<and> date - minutes 15 \<le> now \<and> now \<le> date + seconds period \<and> payload_vouched L r \<and>
        presigned_headers (collect_headers (headers r) []) names = Ok canonical_headers \<and>
        first_some (sm_get params ''X-Amz-Signature'') (sm_get params ''Signature'') =
          Some (expected_signature L secret date region
            (presigned_canonical_request (req_method r) (canonical_uri L (req_path r)) (presigned_query_string params) canonical_headers names)))"

lemma join_split: "join [c] (split_on c s) = s"
proof (induction s)
  case (Cons x s)
  obtain y ys where sp: "split_on c s = y # ys" using split_on_not_Nil [of c s] by (cases "split_on c s") auto
  with Cons show ?case by (cases ys) auto
qed simp

lemma list4:
  assumes "length xs = 4"
  shows "xs = [xs ! 0, xs ! 1, xs ! 2, xs ! 3]"
  using assms by (intro nth_equalityI) (auto simp: nth_Cons' less_Suc_eq numeral_eq_Suc)

lemma list5:
  assumes "length xs = 5"
  shows "xs = [xs ! 0, xs ! 1, xs ! 2, xs ! 3, xs ! 4]"
  using assms by (intro nth_equalityI) (auto simp: nth_Cons' less_Suc_eq numeral_eq_Suc)

lemma split4: "split_on c s = [a, b, d, e] \<Longrightarrow> s = a @ [c] @ b @ [c] @ d @ [c] @ e"
  using join_split [of c s] by simp

lemma split5: "split_on c s = [a, b, d, e, f] \<Longrightarrow> s = a @ [c] @ b @ [c] @ d @ [c] @ e @ [c] @ f"
  using join_split [of c s] by simp

lemma exact_stamp_Some: "exact_stamp L raw = Some d \<Longrightarrow> raw = sl_stamp L d"
  by (auto simp: exact_stamp_def split: option.splits if_splits)

lemma validate_payload_Ok: "validate_payload L r ''s3'' = Ok () \<Longrightarrow> payload_vouched L r"
  by (auto simp: validate_payload_def payload_vouched_def compare_simps Let_def split: option.splits if_splits)

lemma validate_request_at_Ok:
  assumes "validate_request_at L r scope names ''s3'' now = Ok ()"
  obtains date region d where "request_date r = Some (d, sl_stamp L date)" "d \<in> set names" "\<bar>date - now\<bar> \<le> minutes 15"
    "scope = sl_day L date @ ''/'' @ region @ ''/s3/aws4_request''" "split_on (CHR ''/'') scope = [sl_day L date, region, ''s3'', ''aws4_request'']"
    "region \<noteq> []" "valid_signed_header_names L names" "''host'' \<in> set names"
    "\<forall>(n, _) \<in> set (headers r). prefix ''x-amz-'' n \<and> n \<noteq> ''x-amz-content-sha256'' \<longrightarrow> n \<in> set names" "payload_vouched L r"
proof -
  let ?scope = "split_on (CHR ''/'') scope"
  from assms obtain d raw where rd: "request_date r = Some (d, raw)"
    by (cases "request_date r") (auto simp: validate_request_at_def)
  with assms obtain date where ds: "exact_stamp L raw = Some date"
    by (cases "exact_stamp L raw") (auto simp: validate_request_at_def)
  note raw = exact_stamp_Some [OF ds]
  from assms rd ds have ok: "\<not> (date < now - minutes 15 \<or> date > now + minutes 15)"
    "length ?scope = 4 \<and> ?scope ! 0 = sl_day L date \<and> ?scope ! 1 \<noteq> [] \<and> ?scope ! 2 = ''s3'' \<and> ?scope ! 3 = ''aws4_request''"
    "''host'' \<in> set names" "d \<in> set names" "valid_signed_header_names L names"
    "\<not> list_ex (\<lambda>(name, _). prefix ''x-amz-'' name \<and> name \<noteq> ''x-amz-content-sha256'' \<and> name \<notin> set names) (headers r)"
    "validate_payload L r ''s3'' = Ok ()"
    by (auto simp: validate_request_at_def Let_def split: if_splits)
  have sp: "?scope = [sl_day L date, ?scope ! 1, ''s3'', ''aws4_request'']" using ok(2) list4 [of ?scope] by metis
  show ?thesis
  proof (rule that [where d = d and date = date and region = "?scope ! 1"])
    show "scope = sl_day L date @ ''/'' @ ?scope ! 1 @ ''/s3/aws4_request''" using split4 [OF sp] by simp
    show "\<forall>(n, _) \<in> set (headers r). prefix ''x-amz-'' n \<and> n \<noteq> ''x-amz-content-sha256'' \<longrightarrow> n \<in> set names"
      using ok(6) by (auto simp: list_ex_iff)
    show "\<bar>date - now\<bar> \<le> minutes 15" using ok(1) by auto
  qed (use ok rd raw sp validate_payload_Ok in auto)
qed

lemma verify_header_signature_Ok:
  assumes ok: "verify_header_signature L now r auth cfg = Ok b" and h: "header r ''authorization'' = Some auth"
    and k: "access_key cfg = Some key" "secret_key cfg = Some secret"
  shows "header_signed L now r secret"
proof -
  from ok have p: "prefix ''AWS4-HMAC-SHA256'' auth" by (auto simp: verify_header_signature_def split: if_splits)
  from ok p obtain dd where d: "map_option snd (request_date r) = Some dd"
    by (cases "map_option snd (request_date r)") (auto simp: verify_header_signature_def)
  from ok p d obtain sig where sg: "extract_sigv4_signature auth = Some sig"
    by (cases "extract_sigv4_signature auth") (auto simp: verify_header_signature_def)
  from ok p d sg obtain names where nm: "extract_signed_headers auth = Some names" "names \<noteq> []"
    by (cases "extract_signed_headers auth") (auto simp: verify_header_signature_def split: list.splits)
  then have nm': "(case extract_signed_headers auth of Some (n # ns) \<Rightarrow> Some (n # ns) | _ \<Rightarrow> None) = Some names"
    by (auto split: list.splits)
  from ok p d sg nm' obtain scope where sc: "extract_credential_scope auth = Some scope"
    by (cases "extract_credential_scope auth") (auto simp: verify_header_signature_def)
  from ok p d sg nm' sc k have v: "validate_request_at L r scope names ''s3'' now = Ok ()"
    "verify L sig (build_canonical_request L r names) dd scope secret"
    by (cases "validate_request_at L r scope names ''s3'' now"; auto simp: verify_header_signature_def map_err_def split: if_splits)+
  from validate_request_at_Ok [OF v(1)] obtain date region n where
    f: "request_date r = Some (n, sl_stamp L date)" "n \<in> set names" "\<bar>date - now\<bar> \<le> minutes 15"
      "scope = sl_day L date @ ''/'' @ region @ ''/s3/aws4_request''" "split_on (CHR ''/'') scope = [sl_day L date, region, ''s3'', ''aws4_request'']"
      "region \<noteq> []" "valid_signed_header_names L names" "''host'' \<in> set names"
      "\<forall>(n, _) \<in> set (headers r). prefix ''x-amz-'' n \<and> n \<noteq> ''x-amz-content-sha256'' \<longrightarrow> n \<in> set names" "payload_vouched L r" .
  have "sig = expected_signature L secret date region (build_canonical_request L r names)"
    using v(2) d f(1,4,5) by (simp add: verify_def expected_signature_def compare_simps)
  with f p sg nm(1) h show ?thesis unfolding header_signed_def by blast
qed


lemma validate_components_Ok:
  assumes ok: "validate_components L now u meth p hs key secret = Ok ()"
  obtains region names ch where "sm_get (pu_query_params u) ''X-Amz-Algorithm'' = Some ''AWS4-HMAC-SHA256''"
    "1 \<le> pu_expires_in u" "pu_expires_in u \<le> 604800" "pu_date u - minutes 15 \<le> now" "now \<le> pu_date u + seconds (pu_expires_in u)"
    "pu_credential u = key @ ''/'' @ sl_day L (pu_date u) @ ''/'' @ region @ ''/s3/aws4_request''"
    "map_option (split_on (CHR '';'')) (sm_get (pu_query_params u) ''X-Amz-SignedHeaders'') = Some names"
    "valid_signed_header_names L names" "''host'' \<in> set names" "presigned_headers hs names = Ok ch"
    "pu_signature u = expected_signature L secret (pu_date u) region
       (presigned_canonical_request meth (canonical_uri L p) (presigned_query_string (pu_query_params u)) ch names)"
proof -
  let ?params = "pu_query_params u" and ?seg = "split_on (CHR ''/'') (pu_credential u)"
  have a: "sm_get ?params ''X-Amz-Algorithm'' = Some ''AWS4-HMAC-SHA256''"
    "1 \<le> pu_expires_in u" "pu_expires_in u \<le> 604800" "\<not> pu_date u > now + minutes 15" "\<not> now > pu_date u + seconds (pu_expires_in u)"
    using ok by (auto simp: validate_components_def Let_def split: if_splits)
  from ok a have seg: "length ?seg = 5" "\<not> list_ex (\<lambda>s. s = []) ?seg"
    by (auto simp: validate_components_def parse_credential_scope_def map_err_def Let_def split: if_splits)
  let ?scope = "\<lparr>cs_access_key = ?seg ! 0, cs_date = ?seg ! 1, cs_region = ?seg ! 2, cs_service = ?seg ! 3, cs_terminator = ?seg ! 4\<rparr>"
  have sc: "parse_credential_scope (pu_credential u) = Ok ?scope"
    using seg by (simp add: parse_credential_scope_def Let_def)
  from ok a sc have s: "?seg ! 0 = key" "?seg ! 1 = sl_day L (pu_date u)" "?seg ! 3 = ''s3''" "?seg ! 4 = ''aws4_request''"
    by (auto simp: validate_components_def map_err_def SERVICE_def Let_def split: if_splits)
  note cred = split5 [OF list5 [OF seg(1)], unfolded s]
  from ok a sc s obtain sh where sh: "sm_get ?params ''X-Amz-SignedHeaders'' = Some sh"
    by (cases "sm_get ?params ''X-Amz-SignedHeaders''") (auto simp: validate_components_def map_err_def SERVICE_def Let_def)
  let ?names = "split_on (CHR '';'') sh"
  from ok a sc s sh have n: "valid_signed_header_names L ?names" "''host'' \<in> set ?names"
    by (auto simp: validate_components_def map_err_def SERVICE_def Let_def split: if_splits)
  from ok a sc s sh n obtain ch where ch: "presigned_headers hs ?names = Ok ch"
    by (cases "presigned_headers hs ?names") (auto simp: validate_components_def map_err_def SERVICE_def Let_def split: if_splits option.splits)
  from ok a sc s sh n ch have "pu_signature u = expected_signature L secret (pu_date u) (?seg ! 2)
       (presigned_canonical_request meth (canonical_uri L p) (presigned_query_string ?params) ch ?names)"
    by (auto simp: validate_components_def map_err_def SERVICE_def Let_def expected_signature_def split: if_splits option.splits)
  then show ?thesis
    using a sh n ch cred by (intro that [where region = "?seg ! 2" and names = ?names and ch = ch]) auto
qed

lemma ok_or_Ok: "ok_or e v = Ok a \<longleftrightarrow> v = Some a"
  by (cases v) auto

lemma from_query_params_Ok:
  assumes "from_query_params L bucket key meth params = Ok u"
  shows "pu_query_params u = params" "first_some (sm_get params ''X-Amz-Signature'') (sm_get params ''Signature'') = Some (pu_signature u)"
    "sm_get params ''X-Amz-Date'' = Some (sl_stamp L (pu_date u))" "sm_get params ''X-Amz-Credential'' = Some (pu_credential u)"
  using assms exact_stamp_Some
  by (auto simp: from_query_params_def bind_result_Ok ok_or_Ok)


lemma verify_query_signature_Ok:
  assumes ok: "verify_query_signature L now r cfg = Ok b" and q: "req_query r = Some q"
    and c: "sublist ''X-Amz-Credential='' q \<or> sublist ''AWSAccessKeyId='' q"
    and k: "access_key cfg = Some key" "secret_key cfg = Some secret"
  shows "query_signed L now r key secret"
proof -
  let ?params = "parse_query_params (sl_url_decode L) (req_query r)"
  have comp: "sublist ''X-Amz-Credential='' q \<and> sublist ''X-Amz-Signature='' q \<or> sublist ''AWSAccessKeyId='' q \<and> sublist ''Signature='' q"
    using ok q c by (auto simp: verify_query_signature_def Let_def split: if_splits)
  with ok q obtain u where u: "from_query_params L [] [] (req_method r) ?params = Ok u"
    by (cases "from_query_params L [] [] (req_method r) ?params") (auto simp: verify_query_signature_def map_err_def)
  from ok q comp u k have v: "validate_request_contract L now u r key secret = Ok ()" "validate_payload L r ''s3'' = Ok ()"
    by (cases "validate_request_contract L now u r key secret"; cases "validate_payload L r ''s3''";
        auto simp: verify_query_signature_def map_err_def)+
  note p = from_query_params_Ok [OF u]
  from validate_components_Ok [OF v(1) [unfolded validate_request_contract_def]] p validate_payload_Ok [OF v(2)]
  show ?thesis unfolding query_signed_def by metis
qed

lemma from_request_authenticated:
  assumes "ai_is_authenticated (from_request L r cfg)" "cfg_enforce_auth cfg"
  shows "\<exists>k. access_key cfg = Some k \<and> ai_principal (from_request L r cfg) = user_arn k"
    "header r ''authorization'' = None \<Longrightarrow>
       \<exists>q. req_query r = Some q \<and> (sublist ''X-Amz-Credential='' q \<or> sublist ''AWSAccessKeyId='' q)"
  using assms principal_key principal_has_credential [of L _ cfg]
  by (auto simp: from_request_def auth_authenticated_def auth_anonymous_def bind_eq_Some_conv split: option.splits if_splits)

lemma verified_signed:
  assumes "cfg_enforce_auth cfg" "access_key cfg = Some key" "secret_key cfg = Some secret"
    and "verify_sigv4_signature L now r cfg = Ok b" "ai_is_authenticated (from_request L r cfg)"
  shows "header_signed L now r secret \<or> query_signed L now r key secret"
proof (cases "header r ''authorization''")
  case None
  with assms from_request_authenticated(2) [OF assms(5,1)] show ?thesis
    by (auto simp: verify_sigv4_signature_def dest: verify_query_signature_Ok)
next
  case (Some auth)
  with assms show ?thesis by (auto simp: verify_sigv4_signature_def dest: verify_header_signature_Ok)
qed

lemma check_authorization_Ok:
  assumes "check_authorization L now r cfg bucket key act s = (Done (Ok info), s')"
  shows "\<exists>b. verify_sigv4_signature L now r cfg = Ok b" "info = from_request L r cfg"
proof -
  from assms obtain b where b: "verify_sigv4_signature L now r cfg = Ok b"
    by (cases "verify_sigv4_signature L now r cfg") (auto simp: check_authorization_def return_def)
  then show "\<exists>b. verify_sigv4_signature L now r cfg = Ok b" by blast
  from assms b show "info = from_request L r cfg"
    by (auto simp: check_authorization_def bind_io_def return_def gets_def Let_def split: if_splits prod.splits outcome.splits option.splits)
qed

section \<open>Authentication\<close>

text \<open>
  C28. No authentication without a signature. When both keys are configured, a request that is
  admitted as authenticated acts for the configured user and is signed with the secret key: either
  its headers carry the keyed hash of the canonical request, dated within a quarter of an hour, with
  the host, the date and all \<open>x-amz\<close> headers but the content hash covered; or its query carries the keyed hash of a URL that is
  in its period of validity. In both cases a declared content hash is the hash of the payload.
\<close>

theorem authenticated_requests_signed:
  assumes "cfg_enforce_auth cfg" and "access_key cfg = Some k" and "secret_key cfg = Some secret"
    and "check_authorization L now r cfg bucket key act s = (Done (Ok info), s')" and "ai_is_authenticated info"
  shows "ai_principal info = user_arn k \<and> (header_signed L now r secret \<or> query_signed L now r k secret)"
proof -
  obtain b where b: "verify_sigv4_signature L now r cfg = Ok b" and i: "info = from_request L r cfg"
    using check_authorization_Ok [OF assms(4)] by blast
  from verified_signed [OF assms(1-3) b] from_request_authenticated(1) [of L r cfg] assms(1,2,5) i show ?thesis by auto
qed

definition sample_lib :: sign_lib where
  "sample_lib =
     \<lparr>sl_sha256_hex = (\<lambda>_. ''0''), sl_hmac_sha256 = (\<lambda>k d. d), sl_hex = (\<lambda>_. ''f''), sl_header_name = (\<lambda>_. True),
      sl_parse_stamp = (\<lambda>t. if t = ''T'' then Some 0 else None), sl_stamp = (\<lambda>_. ''T''), sl_day = (\<lambda>_. ''d''),
      sl_url_decode = Some, sl_to_lowercase = to_ascii_lowercase\<rparr>"

definition sample_config :: config where
  "sample_config = from_env_with [''SQRZL_ACCESS_KEY_ID'' \<mapsto> ''k'', ''SQRZL_SECRET_ACCESS_KEY'' \<mapsto> ''z'']"

definition sample_request :: request where
  "sample_request =
     \<lparr>req_method = ''GET'', req_path = ''/x'', req_query = None,
      req_headers =
        [(''authorization'', Some ''AWS4-HMAC-SHA256 Credential=k/d/r/s3/aws4_request,SignedHeaders=date;host,Signature=f''),
         (''date'', Some ''T''), (''host'', Some ''h'')],
      req_body = [], req_spooled_body = None\<rparr>"

lemma sample_config_fields: "cfg_enforce_auth sample_config" "access_key sample_config = Some ''k''" "secret_key sample_config = Some ''z''"
  by (simp_all add: sample_config_def from_env_with_def access_key_def secret_key_def)

abbreviation sample_auth :: string where
  "sample_auth \<equiv> ''AWS4-HMAC-SHA256 Credential=k/d/r/s3/aws4_request,SignedHeaders=date;host,Signature=f''"

lemma sample_auth_parts: "split_on (CHR '','') sample_auth =
    [''AWS4-HMAC-SHA256 Credential=k/d/r/s3/aws4_request'', ''SignedHeaders=date;host'', ''Signature=f'']"
  by simp

lemma trim_graphic:
  assumes "list_all (\<lambda>c. 32 < (of_char c :: nat) \<and> (of_char c :: nat) < 128) [hd s, last s]" "list_all (\<lambda>c. (of_char c :: nat) < 128) s" "s \<noteq> []"
  shows "str_trim s = s"
proof -
  have ws: "\<not> is_whitespace [c]" if "32 < (of_char c :: nat)" "(of_char c :: nat) < 128" for c
    using that by (auto simp: is_whitespace_def)
  have "dropWhile is_whitespace (map (\<lambda>c. [c]) s) = map (\<lambda>c. [c]) s"
    using assms ws [of "hd s"] by (cases s) auto
  moreover have "dropWhile is_whitespace (rev (map (\<lambda>c. [c]) s)) = rev (map (\<lambda>c. [c]) s)"
    using assms ws [of "last s"] by (cases s rule: rev_cases) auto
  ultimately show ?thesis by (simp add: str_trim_def utf8_chars_ascii [OF assms(2)])
qed

lemma sample_trims:
  "str_trim ''AWS4-HMAC-SHA256 Credential=k/d/r/s3/aws4_request'' = ''AWS4-HMAC-SHA256 Credential=k/d/r/s3/aws4_request''"
  "str_trim ''SignedHeaders=date;host'' = ''SignedHeaders=date;host''" "str_trim ''Signature=f'' = ''Signature=f''"
  by (rule trim_graphic; simp)+

lemma sample_auth_fields:
  "extract_sigv4_signature sample_auth = Some ''f''" "extract_signed_headers sample_auth = Some [''date'', ''host'']"
  "extract_credential_scope sample_auth = Some ''d/r/s3/aws4_request''" "extract_sigv4_principal sample_auth sample_config = Some (user_arn ''k'')"
  unfolding extract_sigv4_signature_def extract_signed_headers_def extract_credential_scope_def extract_sigv4_principal_def sample_auth_parts
  by (simp_all add: sample_trims strip_prefix_def sample_config_fields)

lemma sample_request_fields:
  "header sample_request ''authorization'' = Some sample_auth" "header sample_request ''date'' = Some ''T''"
  "header sample_request ''host'' = Some ''h''" "header sample_request ''x-amz-date'' = None"
  "header sample_request ''x-amz-content-sha256'' = None" "req_query sample_request = None"
  "headers sample_request = [(''authorization'', sample_auth), (''date'', ''T''), (''host'', ''h'')]"
  by (simp_all add: sample_request_def header_def headers_def List.map_filter_def to_ascii_lowercase_def ascii_lower_char_def is_upper_def)

lemma sample_request_verified:
  "verify_sigv4_signature sample_lib 0 sample_request sample_config = Ok True"
proof -
  have "validate_request_at sample_lib sample_request ''d/r/s3/aws4_request'' [''date'', ''host''] ''s3'' 0 = Ok ()"
    by (simp add: validate_request_at_def sample_request_fields request_date_def exact_stamp_def sample_lib_def minutes_def seconds_def
        valid_signed_header_names_def is_upper_def Cons_less_Cons less_char_def validate_payload_def)
  moreover have "verify sample_lib ''f'' cr ''T'' ''d/r/s3/aws4_request'' ''z''" for cr
    by (simp add: verify_def compare_simps hmac_sha256_hex_def sample_lib_def)
  moreover have "request_date sample_request = Some (''date'', ''T'')" by (simp add: request_date_def sample_request_fields)
  ultimately show ?thesis
    by (simp add: verify_sigv4_signature_def verify_header_signature_def sample_config_fields sample_request_fields sample_auth_fields map_err_def)
qed

lemma sample_request_principal: "from_request sample_lib sample_request sample_config = auth_authenticated (user_arn ''k'')"
proof -
  have "sublist ''Signature='' sample_auth" "sublist ''SignedHeaders='' sample_auth"
    using split_on_sublist [of "''Signature=f''" "CHR '',''" sample_auth] split_on_sublist [of "''SignedHeaders=date;host''" "CHR '',''" sample_auth]
    unfolding sample_auth_parts by (auto intro: sublist_order.order.trans simp: sublist_Cons_right)
  then show ?thesis
    by (simp add: from_request_def sample_config_fields sample_request_fields principal_from_header_def sample_auth_fields)
qed

lemma sample_authorized:
  "check_authorization sample_lib 0 sample_request sample_config ''x'' None ''s3:ListBucket'' (sample_world [] []) =
     (Done (Ok (auth_authenticated (user_arn ''k''))), sample_world [] [])"
proof -
  have owner: "sublist ''k'' (user_arn ''k'')" by (simp add: user_arn_def sublist_Cons_right)
  have none: "\<not> bucket_exists (sample_world [] []) ''x''"
    by (simp add: bucket_exists_def path_exists_def bucket_dir_def fs_get_def)
  show ?thesis
    using owner none
    by (simp add: check_authorization_def sample_request_verified sample_request_principal sample_config_fields bind_io_def return_def gets_def try_io_def
        get_bucket_acl_def get_bucket_policy_def require_bucket_def guard_io_def throw_def default_owner_def final_decision_def
        auth_authenticated_def Let_def)
qed

theorem authenticated_requests_signed_witness:
  "check_authorization sample_lib 0 sample_request sample_config ''x'' None ''s3:ListBucket'' (sample_world [] []) =
     (Done (Ok (auth_authenticated (user_arn ''k''))), sample_world [] []) \<and>
   (header_signed sample_lib 0 sample_request ''z'' \<or> query_signed sample_lib 0 sample_request ''k'' ''z'')"
  using authenticated_requests_signed [OF sample_config_fields sample_authorized] sample_authorized by (simp add: auth_authenticated_def)


section \<open>Access decisions\<close>

text \<open>What the store holds about the target of a request: its policy statements, its access control list, its tags.\<close>

definition policy_in_force :: "world \<Rightarrow> string \<Rightarrow> bucket_policy_document option" where
  "policy_in_force s b = (case fs_get s (policy_path s b) of Some (File (PolicyJson p)) \<Rightarrow> Some p | _ \<Rightarrow> None)"

definition policy_statements :: "world \<Rightarrow> string \<Rightarrow> policy_statement_document list" where
  "policy_statements s b = (case policy_in_force s b of Some p \<Rightarrow> statement p | None \<Rightarrow> [])"

definition acl_in_force :: "world \<Rightarrow> string \<Rightarrow> string option \<Rightarrow> acl option" where
  "acl_in_force s b key =
     (case key of
        Some k \<Rightarrow> map_option (\<lambda>ob. case obj_acl ob of Some a \<Rightarrow> a | None \<Rightarrow> acl_default) (held s (object_dir s b k))
      | None \<Rightarrow>
          (case fs_get s (bucket_acl_path s b) of
             None \<Rightarrow> Some acl_default | Some (File (AclJson a)) \<Rightarrow> Some a | _ \<Rightarrow> None))"

definition tags_in_force :: "world \<Rightarrow> string \<Rightarrow> string option \<Rightarrow> strmap" where
  "tags_in_force s b key =
     (case Option.bind key (\<lambda>k. held s (object_dir s b k)) of Some ob \<Rightarrow> obj_tags ob | None \<Rightarrow> Map.empty)"

definition authorized :: "sign_lib \<Rightarrow> request \<Rightarrow> config \<Rightarrow> world \<Rightarrow> string \<Rightarrow> string option \<Rightarrow> string \<Rightarrow> bool" where
  "authorized L r cfg s b key act \<longleftrightarrow>
     (let info = from_request L r cfg;
          ctx = request_context L r cfg info b key act (tags_in_force s b key);
          says = (\<lambda>e. \<exists>st \<in> set (policy_statements s b). statement_applies (ext s) st ctx \<and> effect st = e)
      in \<not> says ''Deny'' \<and>
         (says ''Allow'' \<or>
          (\<exists>a. acl_in_force s b key = Some a \<and> check_acl_permission a (default_owner cfg) ctx) \<or>
          (ai_is_authenticated info \<and> sublist (default_owner cfg) (ai_principal info))))"

lemma get_bucket_policy_result:
  assumes "bucket_exists s b"
  shows "\<exists>e. try_io (get_bucket_policy b) s = (Done (case policy_in_force s b of Some p \<Rightarrow> Ok p | None \<Rightarrow> Err e), s)"
  using assms
  by (auto simp: get_bucket_policy_def require_bucket_def bind_io_def gets_def guard_io_def throw_def return_def try_io_def
      policy_in_force_def path_exists_def read_file_def file_content_def split: option.splits node.splits content.splits)

lemma policy_effect:
  "(case (case policy_in_force s b of Some p \<Rightarrow> Ok p | None \<Rightarrow> Err e) of Ok p \<Rightarrow> evaluate_policy x p ctx | Err _ \<Rightarrow> Neutral) =
     (if \<exists>st \<in> set (policy_statements s b). statement_applies x st ctx \<and> effect st = ''Deny'' then Deny
      else if \<exists>st \<in> set (policy_statements s b). statement_applies x st ctx \<and> effect st = ''Allow'' then Allow else Neutral)"
  by (cases "policy_in_force s b") (auto simp: policy_statements_def evaluate_policy_def evaluate_statements_eq)

lemma get_bucket_acl_result:
  assumes "bucket_exists s b"
  shows "\<exists>e. try_io (get_bucket_acl b) s = (Done (case acl_in_force s b None of Some a \<Rightarrow> Ok a | None \<Rightarrow> Err e), s)"
  using assms
  by (auto simp: get_bucket_acl_def require_bucket_def bind_io_def gets_def guard_io_def throw_def return_def try_io_def
      path_exists_def read_file_def file_content_def acl_in_force_def split: option.splits node.splits content.splits)

lemma metadata_serialized [simp]: "obj_tags (serialize_object ob) = obj_tags ob" "obj_acl (serialize_object ob) = obj_acl ob"
  by (simp_all add: serialize_object_def)

lemma read_object_facts:
  assumes "store_ok s" "faults s = []"
  obtains s1 where "undisturbed s s1"
    "try_io (get_object_tags b k) s = (Done (case held s (object_dir s b k) of Some ob \<Rightarrow> Ok (obj_tags ob) | None \<Rightarrow> Err KeyNotFound), s1)"
    "try_io (get_object_acl b k) s =
       (Done (case acl_in_force s b (Some k) of Some a \<Rightarrow> Ok a | None \<Rightarrow> Err KeyNotFound), s1)"
proof -
  obtain s1 where "read_object_metadata_locked b k s = (read_outcome (map_option serialize_object (held s (object_dir s b k))), s1)"
    "undisturbed s s1" using read_metadata_spec [OF assms] .
  then show ?thesis
    by (intro that) (auto simp: get_object_tags_def get_object_acl_def try_io_def bind_io_def return_def acl_in_force_def split: option.split)
qed


lemma policy_undisturbed:
  assumes "undisturbed s s1"
  shows "policy_statements s1 b = policy_statements s b"
proof -
  have "fs_get s1 (policy_path s b) = fs_get s (policy_path s b)" "policy_path s1 b = policy_path s b"
    using assms control_outside [of s _ _ b] bucket_dir_rest [of s s1 b]
    by (auto simp: undisturbed_def control_same_def policy_path_def)
  then show ?thesis by (simp add: policy_statements_def policy_in_force_def)
qed

text \<open>The common end: the list is read, then the policy, in a store that holds the same.\<close>

lemma decide_access:
  assumes a: "try_io ra s1 = (Done (case acl_in_force s b key of Some a \<Rightarrow> Ok a | None \<Rightarrow> Err e), s2)"
    and s: "bucket_exists s2 b" "policy_statements s2 b = policy_statements s b"
    and ctx: "ctx = request_context L r cfg (from_request L r cfg) b key act (tags_in_force s b key)" and x: "x = ext s"
  shows "bind_io (try_io ra) (\<lambda>a.
      bind_io (try_io (get_bucket_policy b)) (\<lambda>p.
      return (if final_decision (case p of Ok policy \<Rightarrow> evaluate_policy x policy ctx | Err _ \<Rightarrow> Neutral)
                   (case a of Ok acl \<Rightarrow> check_acl_permission acl (default_owner cfg) ctx | Err _ \<Rightarrow> False)
                   (from_request L r cfg) (default_owner cfg)
              then Ok (from_request L r cfg) else Err err))) s1 =
    (Done (if authorized L r cfg s b key act then Ok (from_request L r cfg) else Err err), s2)"
proof -
  obtain e' where p: "try_io (get_bucket_policy b) s2 = (Done (case policy_in_force s2 b of Some p \<Rightarrow> Ok p | None \<Rightarrow> Err e'), s2)"
    using get_bucket_policy_result [OF s(1)] by blast
  have acl: "(case (case acl_in_force s b key of Some a \<Rightarrow> Ok a | None \<Rightarrow> Err e) of Ok acl \<Rightarrow> check_acl_permission acl (default_owner cfg) ctx | Err _ \<Rightarrow> False) \<longleftrightarrow>
      (\<exists>a. acl_in_force s b key = Some a \<and> check_acl_permission a (default_owner cfg) ctx)"
    by (cases "acl_in_force s b key") auto
  show ?thesis
    unfolding bind_io_def a prod.case outcome.case p return_def policy_effect acl
    by (auto simp: s(2) x ctx authorized_def final_decision_def Let_def)
qed

text \<open>
  C29. Access decisions. For a request whose signature was accepted, without faults, the action is
  admitted exactly when no applying statement of the bucket policy denies it and an applying statement
  allows it, or the access control list of the target grants it, or the request is authenticated as
  the owner; otherwise it is refused with status 403. The decision changes nothing that is stored. A
  request whose signature was not accepted is refused with that error, before the store is consulted.
\<close>

theorem check_authorization_decides:
  assumes "store_ok s" and "faults s = []" and "bucket_exists s b" and "cfg_enforce_auth cfg"
  shows "\<exists>s'. undisturbed s s' \<and>
    check_authorization L now r cfg b key act s =
      (Done (case verify_sigv4_signature L now r cfg of
               Err e \<Rightarrow> Err e
             | Ok _ \<Rightarrow> if authorized L r cfg s b key act then Ok (from_request L r cfg)
                       else Err (xml_error_response 403 ''AccessDenied'' ''Access Denied'')), s')"
proof (cases "verify_sigv4_signature L now r cfg")
  case (Err e)
  then show ?thesis using undisturbed_refl [OF assms(1,2)] by (auto simp: check_authorization_def return_def)
next
  case (Ok v)
  show ?thesis
  proof (cases key)
    case None
    obtain e where acl: "try_io (get_bucket_acl b) s = (Done (case acl_in_force s b None of Some a \<Rightarrow> Ok a | None \<Rightarrow> Err e), s)"
      using get_bucket_acl_result [OF assms(3)] by blast
    have tags: "tags_in_force s b None = Map.empty" by (simp add: tags_in_force_def)
    have "check_authorization L now r cfg b None act s =
      (Done (if authorized L r cfg s b None act then Ok (from_request L r cfg) else Err (xml_error_response 403 ''AccessDenied'' ''Access Denied'')), s)"
      unfolding check_authorization_def Ok result.case Let_def option.case
      using decide_access [OF acl assms(3) refl refl refl, of L r cfg act "xml_error_response 403 ''AccessDenied'' ''Access Denied''", unfolded tags] assms(4)
      by (simp add: bind_io_def [of "gets ext"] gets_def tags)
    with None Ok show ?thesis using undisturbed_refl [OF assms(1,2)] by auto
  next
    case (Some k)
    obtain s1 where s1: "undisturbed s s1"
      "try_io (get_object_tags b k) s = (Done (case held s (object_dir s b k) of Some ob \<Rightarrow> Ok (obj_tags ob) | None \<Rightarrow> Err KeyNotFound), s1)"
      using read_object_facts [OF assms(1,2)] by blast
    note f1 = undisturbed_facts [OF s1(1)]
    obtain s2 where s2: "undisturbed s1 s2"
      "try_io (get_object_acl b k) s1 = (Done (case acl_in_force s1 b (Some k) of Some a \<Rightarrow> Ok a | None \<Rightarrow> Err KeyNotFound), s2)"
      using read_object_facts [OF f1(1,2)] by blast
    have acl: "acl_in_force s1 b (Some k) = acl_in_force s b (Some k)" by (simp add: acl_in_force_def f1(4,5))
    have tags: "(case (case held s (object_dir s b k) of Some ob \<Rightarrow> Ok (obj_tags ob) | None \<Rightarrow> Err KeyNotFound) of Ok tags \<Rightarrow> tags | Err _ \<Rightarrow> Map.empty) =
        tags_in_force s b (Some k)" by (simp add: tags_in_force_def split: option.split)
    have b2: "bucket_exists s2 b" "policy_statements s2 b = policy_statements s b" "ext s1 = ext s"
      using f1 undisturbed_facts [OF s2(1)] assms(3) policy_undisturbed [OF s1(1)] policy_undisturbed [OF s2(1)] by (auto simp: rest_same_def)
    have "check_authorization L now r cfg b (Some k) act s =
      (Done (if authorized L r cfg s b (Some k) act then Ok (from_request L r cfg) else Err (xml_error_response 403 ''AccessDenied'' ''Access Denied'')), s2)"
      unfolding check_authorization_def Ok result.case Let_def option.case
      using decide_access [OF s2(2) [unfolded acl] b2(1,2) refl b2(3) [THEN sym, THEN sym], of L r cfg act "xml_error_response 403 ''AccessDenied'' ''Access Denied''"] assms(4) s1(2)
      by (simp add: bind_io_def [of "gets ext"] bind_io_def [of "try_io (get_object_tags b k)"] bind_io_def [of "bind_io (try_io (get_object_tags b k)) f" for f]
          gets_def return_def tags)
    with Some Ok show ?thesis using undisturbed_trans [OF s1(1) s2(1)] by auto
  qed
qed

theorem check_authorization_decides_witness:
  "\<exists>s'. undisturbed plain_bucket s' \<and>
     check_authorization sample_lib 0 sample_request sample_config ''xyz'' None ''s3:ListBucket'' plain_bucket =
       (Done (Ok (auth_authenticated (user_arn ''k''))), s')"
proof -
  have none: "policy_statements plain_bucket ''xyz'' = []"
    by (simp add: policy_statements_def policy_in_force_def policy_path_def bucket_dir_def fs_get_def sample_bucket_def sample_externs_def)
  have "authorized sample_lib sample_request sample_config plain_bucket ''xyz'' None ''s3:ListBucket''"
    unfolding authorized_def sample_request_principal none
    by (simp add: auth_authenticated_def default_owner_def sample_config_fields user_arn_def sublist_Cons_right)
  with check_authorization_decides [OF sample_bucket_ok _ sample_bucket_exists sample_config_fields(1),
      of "[]" sample_lib 0 sample_request None "''s3:ListBucket''"] show ?thesis
    by (simp add: sample_request_verified sample_request_principal)
qed

end
