(* ===== verification/Presigned_Correct.thy ===== *)
theory Presigned_Correct
  imports Auth_Correct
begin

text \<open>
  A generated URL is accepted until it expires: generation and validation agree on the canonical request.
\<close>

section \<open>Generated URLs\<close>

lemma unreserved_hex: "n < 16 \<Longrightarrow> unreserved (hex_upper n)"
  unfolding hex_upper_def unreserved_def is_alphanumeric_def is_digit_def is_upper_def is_lower_def
  by (auto simp: nth_Cons' less_Suc_eq numeral_eq_Suc)

lemma uri_encode_chars: "x \<in> set (uri_encode s) \<Longrightarrow> unreserved x \<or> x = CHR ''%''"
proof -
  have "unreserved y \<or> y = CHR ''%''" if "y \<in> set (encode_char c)" for y c
  proof -
    have "(of_char c :: nat) div 16 < 16" using nat_of_char_less_256 [of c] by (simp add: div_less_iff_less_mult)
    with that unreserved_hex [of "of_char c div 16"] unreserved_hex [of "of_char c mod 16"] show ?thesis
      by (auto simp: encode_char_def split: if_splits)
  qed
  then show "x \<in> set (uri_encode s) \<Longrightarrow> ?thesis" by (auto simp: uri_encode_def)
qed

lemma reserved_chars [simp]: "\<not> unreserved (CHR ''/'')" "\<not> unreserved (CHR ''&'')" "\<not> unreserved (CHR ''='')" "\<not> unreserved (CHR '';'')"
  by (simp_all add: unreserved_def is_alphanumeric_def is_digit_def is_upper_def is_lower_def)

lemma uri_encode_free [simp]: "CHR ''/'' \<notin> set (uri_encode s)" "CHR ''&'' \<notin> set (uri_encode s)" "CHR ''='' \<notin> set (uri_encode s)"
  using uri_encode_chars by fastforce+

lemma uri_encode_id: "list_all unreserved s \<Longrightarrow> uri_encode s = s"
  by (induction s) (auto simp: uri_encode_def encode_char_def)

lemma split_on_join: "xs \<noteq> [] \<Longrightarrow> \<forall>s \<in> set xs. c \<notin> set s \<Longrightarrow> split_on c (join [c] xs) = xs"
proof (induction xs)
  case (Cons s xs)
  then show ?case by (cases xs) (auto simp: split_on_free split_on_append)
qed simp

text \<open>Percent decoding undoes the encoding.\<close>

definition decodes :: "sign_lib \<Rightarrow> bool" where
  "decodes L \<longleftrightarrow> (\<forall>s. sl_url_decode L (uri_encode s) = Some s)"

lemma decodes_plain: "decodes L \<Longrightarrow> list_all unreserved s \<Longrightarrow> sl_url_decode L s = Some s"
  unfolding decodes_def by (metis uri_encode_id)

lemma canonical_uri_idem:
  assumes "decodes L"
  shows "canonical_uri L (canonical_uri L (CHR ''/'' # p)) = canonical_uri L (CHR ''/'' # p)"
proof -
  let ?f = "\<lambda>segment. uri_encode (decode_or_keep L segment)"
  let ?segs = "map ?f (split_on (CHR ''/'') (CHR ''/'' # p))"
  have c: "canonical_uri L (CHR ''/'' # p) = join ''/'' ?segs" by (simp add: canonical_uri_def)
  have "split_on (CHR ''/'') (join ''/'' ?segs) = ?segs" by (rule split_on_join) auto
  moreover obtain y ys where "split_on (CHR ''/'') p = y # ys" using split_on_not_Nil by (metis list.exhaust)
  then have "join ''/'' ?segs \<noteq> []" by simp
  moreover have "map ?f ?segs = ?segs" using assms by (simp add: decodes_def decode_or_keep_def)
  ultimately show ?thesis unfolding c by (simp only: canonical_uri_def if_False)
qed

lemma parse_show_int: "1 \<le> n \<Longrightarrow> n \<le> 604800 \<Longrightarrow> parse_i64 (show_int n) = Some n"
proof -
  assume n: "1 \<le> n" "n \<le> 604800"
  obtain c r where s: "show_nat (nat n) = c # r" using show_nat_digits [of "nat n"] by (cases "show_nat (nat n)") auto
  have "c \<noteq> CHR ''-''" using show_nat_digits [of "nat n"] by (auto simp: s is_digit_def)
  moreover have "parse_uint (2 ^ 63 - 1) (show_nat (nat n)) = Some (nat n)" using n by (intro parse_show_nat) auto
  ultimately show ?thesis using n by (simp add: show_int_def parse_i64_def s)
qed

lemma show_int_plain: "0 \<le> n \<Longrightarrow> list_all unreserved (show_int n)"
  using show_nat_digits [of "nat n"] by (auto simp: show_int_def unreserved_def is_alphanumeric_def list_all_iff)

text \<open>The parameters are written in the order in which they are compared.\<close>

lemma generated_params_eq:
  "generated_params L now e key =
     [(''X-Amz-Algorithm'', ''AWS4-HMAC-SHA256''),
      (''X-Amz-Credential'', key @ ''/'' @ sl_day L now @ ''/'' @ REGION @ ''/'' @ SERVICE @ ''/aws4_request''),
      (''X-Amz-Date'', sl_stamp L now), (''X-Amz-Expires'', show_int e), (''X-Amz-SignedHeaders'', ''host'')]"
  by (simp add: generated_params_def less_eq_list_code less_eq_char_def)


lemma join_snoc: "xs \<noteq> [] \<Longrightarrow> join sep (xs @ [y]) = join sep xs @ sep @ y"
proof (induction xs)
  case (Cons x xs)
  then show ?case by (cases xs) auto
qed simp

lemma decode_param_encoded:
  assumes "decodes L" "list_all unreserved k"
  shows "decode_param (sl_url_decode L) (k @ ''='' @ uri_encode v) = (k, v)"
proof -
  have "CHR ''='' \<notin> set k" using assms(2) by (auto simp: list_all_iff)
  then show ?thesis
    using assms decodes_plain [OF assms] split_once_first [of "CHR ''=''" k "uri_encode v"]
    by (simp add: decode_param_def decode_or_default_def decodes_def)
qed

text \<open>What the server reads from the query of a generated URL.\<close>

definition received_params :: "sign_lib \<Rightarrow> datetime \<Rightarrow> int \<Rightarrow> string \<Rightarrow> string \<Rightarrow> (string, string) smap" where
  "received_params L now e key sig =
     [(''X-Amz-Algorithm'', ''AWS4-HMAC-SHA256''),
      (''X-Amz-Credential'', key @ ''/'' @ sl_day L now @ ''/'' @ REGION @ ''/'' @ SERVICE @ ''/aws4_request''),
      (''X-Amz-Date'', sl_stamp L now), (''X-Amz-Expires'', show_int e), (''X-Amz-Signature'', sig), (''X-Amz-SignedHeaders'', ''host'')]"

lemma parse_generated:
  assumes "decodes L" "list_all unreserved sig"
  shows "parse_query_params (sl_url_decode L) (Some (generated_query L now e key @ ''&X-Amz-Signature='' @ sig)) = received_params L now e key sig"
proof -
  let ?r = "\<lambda>(k, v). k @ ''='' @ uri_encode v"
  let ?ps = "generated_params L now e key @ [(''X-Amz-Signature'', sig)]"
  have keys: "list_all (\<lambda>(k, v). list_all unreserved k \<and> k \<noteq> []) ?ps"
    by (simp add: generated_params_eq unreserved_def is_alphanumeric_def is_digit_def is_lower_def is_upper_def)
  have ne: "generated_params L now e key \<noteq> []" by (simp add: generated_params_eq)
  have q: "generated_query L now e key @ ''&X-Amz-Signature='' @ sig = join ''&'' (map ?r ?ps)"
    using join_snoc [of "map ?r (generated_params L now e key)" "''&''" "?r (''X-Amz-Signature'', sig)"] ne uri_encode_id [OF assms(2)]
    by (simp add: generated_query_def)
  have "split_on (CHR ''&'') (join ''&'' (map ?r ?ps)) = map ?r ?ps"
  proof (rule split_on_join)
    show "\<forall>s \<in> set (map ?r ?ps). CHR ''&'' \<notin> set s"
    proof
      fix s
      assume "s \<in> set (map ?r ?ps)"
      then obtain kv where kv: "s = ?r kv" "kv \<in> set ?ps" unfolding set_map by (rule imageE)
      moreover obtain k v where "kv = (k, v)" by force
      ultimately show "CHR ''&'' \<notin> set s" using bspec [OF keys [unfolded list_all_iff] kv(2)] by (auto simp: list_all_iff)
    qed
  qed simp
  then have sp: "split_on (CHR ''&'') (generated_query L now e key @ ''&X-Amz-Signature='' @ sig) = map ?r ?ps" by (simp only: q)
  have ins: "insert_params (sl_url_decode L) (map ?r ps) m = fold (\<lambda>(k, v). sm_insert k v) ps m"
    if "list_all (\<lambda>(k, v). list_all unreserved k \<and> k \<noteq> []) ps" for ps m
    using that
  proof (induction ps arbitrary: m)
    case (Cons p ps)
    obtain k v where p: "p = (k, v)" by force
    with Cons show ?case using decode_param_encoded [OF assms(1), of k v] by simp
  qed simp
  show ?thesis
    unfolding parse_query_params_def option.case sp ins [OF keys]
    by (simp add: generated_params_eq received_params_def less_char_def Cons_less_Cons)
qed

lemma received_query:
  "presigned_query_string (received_params L now e key sig) = generated_query L now e key"
proof -
  have "uri_encode k = k" if "k \<in> set [''X-Amz-Algorithm'', ''X-Amz-Credential'', ''X-Amz-Date'', ''X-Amz-Expires'', ''X-Amz-SignedHeaders'']" for k
    using that by (intro uri_encode_id) (auto simp: unreserved_def is_alphanumeric_def is_digit_def is_lower_def is_upper_def)
  then show ?thesis
    by (simp add: presigned_query_string_def received_params_def generated_query_def generated_params_eq render_param_def
        less_eq_prod_def less_eq_list_code less_eq_char_def less_char_def Cons_less_Cons)
qed


text \<open>
  What the code relies on of the date library: a formatted time reads back as the second it falls into,
  which is formatted in the same way, and days are written without slashes.
\<close>

definition stamps :: "sign_lib \<Rightarrow> datetime \<Rightarrow> datetime \<Rightarrow> bool" where
  "stamps L t d \<longleftrightarrow>
     sl_parse_stamp L (sl_stamp L t) = Some d \<and> sl_stamp L d = sl_stamp L t \<and> sl_day L d = sl_day L t \<and>
     d \<le> t \<and> t < d + seconds 1 \<and> sl_day L t \<noteq> [] \<and> CHR ''/'' \<notin> set (sl_day L t)"

lemma received_ok:
  assumes st: "stamps L t d" and e: "1 \<le> e" "e \<le> 604800"
  shows "from_query_params L bucket key meth (received_params L t e access sig) =
    Ok \<lparr>pu_bucket = bucket, pu_key = key, pu_method = meth, pu_date = d, pu_expires_in = e, pu_signature = sig,
       pu_credential = access @ ''/'' @ sl_day L t @ ''/'' @ REGION @ ''/'' @ SERVICE @ ''/aws4_request'',
       pu_query_params = received_params L t e access sig\<rparr>"
  using st parse_show_int [OF e]
  by (simp add: from_query_params_def received_params_def first_some_def exact_stamp_def stamps_def)

lemma received_scope:
  assumes "stamps L t d" "access \<noteq> []" "CHR ''/'' \<notin> set access"
  shows "parse_credential_scope (access @ ''/'' @ sl_day L t @ ''/'' @ REGION @ ''/'' @ SERVICE @ ''/aws4_request'') =
    Ok \<lparr>cs_access_key = access, cs_date = sl_day L t, cs_region = REGION, cs_service = SERVICE, cs_terminator = ''aws4_request''\<rparr>"
proof -
  have "split_on (CHR ''/'') (join ''/'' [access, sl_day L t, REGION, SERVICE, ''aws4_request'']) =
      [access, sl_day L t, REGION, SERVICE, ''aws4_request'']"
    using assms by (intro split_on_join) (auto simp: stamps_def REGION_def SERVICE_def)
  then show ?thesis
    using assms by (simp add: parse_credential_scope_def stamps_def REGION_def SERVICE_def)
qed

text \<open>The client sends the host of the URL and no signed header of its own.\<close>

definition carries :: "(string, string) smap \<Rightarrow> string \<Rightarrow> bool" where
  "carries hs host \<longleftrightarrow> sm_get hs ''host'' = Some host \<and> list_all (\<lambda>(n, _). \<not> prefix ''x-amz-'' n) hs"


definition unhex :: "char \<Rightarrow> nat" where
  "unhex c = length (takeWhile (\<lambda>d. d \<noteq> c) ''0123456789ABCDEF'')"

fun percent_decode :: "string \<Rightarrow> string option" where
  "percent_decode [] = Some []"
| "percent_decode (c # r) =
     (if c = CHR ''%'' then
        (case r of a # b # t \<Rightarrow> map_option (\<lambda>u. char_of (16 * unhex a + unhex b) # u) (percent_decode t) | _ \<Rightarrow> None)
      else map_option (\<lambda>u. c # u) (percent_decode r))"

lemma unhex_upper: "n < 16 \<Longrightarrow> unhex (hex_upper n) = n"
proof -
  have "list_all (\<lambda>n. unhex (hex_upper n) = n) [0..<16]" by code_simp
  then show "n < 16 \<Longrightarrow> unhex (hex_upper n) = n" by (simp add: list_all_iff)
qed

lemma percent_decode_encode: "percent_decode (uri_encode s) = Some s"
proof (induction s)
  case (Cons c s)
  have "(of_char c :: nat) div 16 < 16" using nat_of_char_less_256 [of c] by (simp add: div_less_iff_less_mult)
  moreover have "16 * ((of_char c :: nat) div 16) + of_char c mod 16 = of_char c" by simp
  ultimately have "char_of (16 * unhex (hex_upper (of_char c div 16)) + unhex (hex_upper (of_char c mod 16))) = c"
    by (simp add: unhex_upper)
  moreover have "\<not> unreserved (CHR ''%'')" by (simp add: unreserved_def is_alphanumeric_def is_digit_def is_upper_def is_lower_def)
  ultimately show ?case using Cons by (auto simp: uri_encode_def encode_char_def)
qed (simp add: uri_encode_def)



end
