(* ===== verification/Validation.thy ===== *)
theory Validation
  imports Errors
begin

text \<open>
  Request validation (\<^verbatim>\<open>src/src/utils/validation.rs\<close>): bucket names, object keys, part numbers,
  lengths and upload identifiers. Strings are their UTF-8 bytes, as \<^verbatim>\<open>str::len\<close> counts them.
\<close>

section \<open>Buckets and keys\<close>

definition name_char_ok :: "char \<Rightarrow> bool" where
  "name_char_ok c \<longleftrightarrow> is_lower c \<or> is_digit c \<or> c = CHR ''-'' \<or> c = CHR ''.''"

definition ipv4_like :: "string \<Rightarrow> bool" where
  "ipv4_like name \<longleftrightarrow>
     length (split_on (CHR ''.'') name) = 4 \<and>
     list_all (\<lambda>component. parse_uint 255 component \<noteq> None) (split_on (CHR ''.'') name)"

definition reserved_prefixes :: "string list" where
  "reserved_prefixes = [''xn--'', ''sthree-'', ''amzn-s3-demo-'']"

definition reserved_suffixes :: "string list" where
  "reserved_suffixes = [''-s3alias'', ''--ol-s3'', ''.mrap'', ''--x-s3'', ''--table-s3'']"

definition validate_bucket_name :: "string \<Rightarrow> (string, unit) result" where
  "validate_bucket_name name =
     (if length name < 3 then Err ''Bucket name must be at least 3 characters long''
      else if length name > 63 then Err ''Bucket name cannot exceed 63 characters''
      else if \<not> is_alphanumeric (hd name) \<or> \<not> is_alphanumeric (last name)
        then Err ''Bucket name must start and end with a letter or number''
      else if \<not> list_all name_char_ok name
        then Err ''Bucket name can only contain lowercase letters, numbers, periods, and hyphens''
      else if sublist ''..'' name then Err ''Bucket name cannot contain adjacent periods''
      else if ipv4_like name then Err ''Bucket name cannot be formatted as an IP address''
      else if list_ex (\<lambda>p. prefix p name) reserved_prefixes
        then Err ''Bucket name uses an Amazon S3 reserved prefix''
      else if list_ex (\<lambda>p. suffix p name) reserved_suffixes
        then Err ''Bucket name uses an Amazon S3 reserved suffix''
      else Ok ())"

definition validate_blob_key :: "string \<Rightarrow> (string, unit) result" where
  "validate_blob_key key =
     (if length key = 0 then Err ''Blob key cannot be empty''
      else if length key > 1024
        then Err (''Blob key cannot exceed 1024 bytes (got '' @ show_nat (length key) @ '')'')
      else Ok ())"

definition validate_object_key :: "string \<Rightarrow> (string, unit) result" where
  "validate_object_key key = validate_blob_key key"

section \<open>Uploads\<close>

definition validate_part_number :: "nat \<Rightarrow> (string, unit) result" where
  "validate_part_number part_num =
     (if part_num < 1 then Err ''Part number must be at least 1''
      else if part_num > 10000 then Err ''Part number cannot exceed 10000''
      else Ok ())"

definition validate_content_length :: "nat \<Rightarrow> (string, unit) result" where
  "validate_content_length content_length =
     (if content_length > 5 * 1024 * 1024 * 1024
      then Err (''Content-Length ('' @ show_nat content_length @ '' bytes) exceeds maximum allowed size'')
      else Ok ())"

definition validate_upload_id :: "string \<Rightarrow> (string, unit) result" where
  "validate_upload_id upload_id =
     (if upload_id = [] then Err ''Upload ID cannot be empty''
      else if length upload_id > 1024 then Err ''Upload ID is too long''
      else Ok ())"

text \<open>The loop over the part numbers; \<open>prev\<close> is the element before, \<open>None\<close> at index 0.\<close>

fun part_sequence_from :: "nat option \<Rightarrow> nat list \<Rightarrow> (string, unit) result" where
  "part_sequence_from prev [] = Ok ()"
| "part_sequence_from prev (n # rest) =
     bind_result (validate_part_number n) (\<lambda>_.
       case prev of
         Some p \<Rightarrow>
           if n \<noteq> p + 1
           then Err (''Parts must be in contiguous sequence. Expected part '' @ show_nat (p + 1) @
                     '', got '' @ show_nat n)
           else part_sequence_from (Some n) rest
       | None \<Rightarrow>
           if n \<noteq> 1 then Err ''Part sequence must start with part number 1''
           else part_sequence_from (Some n) rest)"

definition validate_part_sequence :: "nat list \<Rightarrow> (string, unit) result" where
  "validate_part_sequence part_numbers = part_sequence_from None part_numbers"

section \<open>What validation establishes\<close>

lemma validate_part_number_Ok [simp]: "validate_part_number n = Ok () \<longleftrightarrow> 1 \<le> n \<and> n \<le> 10000"
  by (simp add: validate_part_number_def)

lemma part_sequence_after:
  "p \<le> 10000 \<Longrightarrow>
   part_sequence_from (Some p) ns = Ok () \<longleftrightarrow> p + length ns \<le> 10000 \<and> ns = [Suc p ..< Suc p + length ns]"
proof (induction ns arbitrary: p)
  case (Cons n ns)
  have "part_sequence_from (Some p) (n # ns) = Ok () \<longleftrightarrow>
      n = Suc p \<and> n \<le> 10000 \<and> part_sequence_from (Some n) ns = Ok ()"
    by (auto simp: bind_result_Ok)
  also have "\<dots> \<longleftrightarrow> n = Suc p \<and> n \<le> 10000 \<and> n + length ns \<le> 10000 \<and> ns = [Suc n ..< Suc n + length ns]"
    using Cons.IH [of n] by auto
  also have "\<dots> \<longleftrightarrow> p + length (n # ns) \<le> 10000 \<and> n # ns = [Suc p ..< Suc p + length (n # ns)]"
    using upt_conv_Cons [of "Suc p" "Suc p + length (n # ns)"] by auto
  finally show ?case .
qed simp

lemma part_sequence_none:
  "part_sequence_from None ns = Ok () \<longleftrightarrow> length ns \<le> 10000 \<and> ns = [1 ..< Suc (length ns)]"
proof (cases ns)
  case (Cons n rest)
  then have "part_sequence_from None ns = Ok () \<longleftrightarrow> n = 1 \<and> part_sequence_from (Some 1) rest = Ok ()"
    by (auto simp: bind_result_Ok)
  also have "\<dots> \<longleftrightarrow> length ns \<le> 10000 \<and> ns = [1 ..< Suc (length ns)]"
    using part_sequence_after [of 1 rest] Cons upt_conv_Cons [of 1 "Suc (length ns)"] by auto
  finally show ?thesis .
qed simp

lemma split_on_hd: "split_on c s = y # x \<Longrightarrow> y = [] \<longleftrightarrow> s = [] \<or> hd s = c"
  using split_on_cases [of c "tl s"] by (cases s) (auto split: if_splits)

lemma later_labels:
  "list_all (\<lambda>l. l \<noteq> []) (tl (split_on c s)) \<longleftrightarrow> (s = [] \<or> last s \<noteq> c) \<and> \<not> sublist [c, c] s"
proof (induction s)
  case (Cons a s)
  obtain y x where split: "split_on c s = y # x" using split_on_cases by blast
  have pre: "prefix [c, c] (a # s) \<longleftrightarrow> a = c \<and> s \<noteq> [] \<and> hd s = c" by (cases s) auto
  show ?case using Cons split split_on_hd [OF split] pre by (auto simp: sublist_Cons_right)
qed simp

text \<open>Non-empty labels: neither end is the separator and it never occurs twice in a row.\<close>

lemma labels_nonempty:
  "list_all (\<lambda>l. l \<noteq> []) (split_on c s) \<longleftrightarrow> s \<noteq> [] \<and> hd s \<noteq> c \<and> last s \<noteq> c \<and> \<not> sublist [c, c] s"
proof -
  obtain y x where split: "split_on c s = y # x" using split_on_cases by blast
  show ?thesis using later_labels [of c s] split_on_hd [OF split] split by auto
qed

lemma alphanumeric_chars: "name_char_ok c \<Longrightarrow> is_alphanumeric c \<longleftrightarrow> c \<noteq> CHR ''-'' \<and> c \<noteq> CHR ''.''"
  by (auto simp: name_char_ok_def is_alphanumeric_def is_lower_def is_upper_def is_digit_def)

text \<open>The rules for bucket names by labels, the parts between the periods.\<close>

definition bucket_name_rules :: "string \<Rightarrow> bool" where
  "bucket_name_rules name \<longleftrightarrow>
     (let labels = split_on (CHR ''.'') name in
      3 \<le> length name \<and> length name \<le> 63 \<and> list_all name_char_ok name \<and>
      list_all (\<lambda>l. l \<noteq> []) labels \<and> hd name \<noteq> CHR ''-'' \<and> last name \<noteq> CHR ''-'' \<and>
      \<not> (length labels = 4 \<and> list_all (\<lambda>l. parse_uint 255 l \<noteq> None) labels) \<and>
      \<not> list_ex (\<lambda>p. prefix p name) reserved_prefixes \<and> \<not> list_ex (\<lambda>p. suffix p name) reserved_suffixes)"

lemma validate_bucket_name_Ok: "validate_bucket_name name = Ok () \<longleftrightarrow> bucket_name_rules name"
proof (cases "3 \<le> length name \<and> list_all name_char_ok name")
  case True
  then have ne: "name \<noteq> []" by auto
  with True have "name_char_ok (hd name)" and "name_char_ok (last name)"
    by (simp_all add: list_all_iff)
  with True ne show ?thesis
    unfolding validate_bucket_name_def bucket_name_rules_def Let_def labels_nonempty ipv4_like_def
    by (auto simp: alphanumeric_chars)
next
  case False
  then show ?thesis by (auto simp: validate_bucket_name_def bucket_name_rules_def)
qed

lemma bucket_name_no_slash: "validate_bucket_name name = Ok () \<Longrightarrow> CHR ''/'' \<notin> set name \<and> name \<noteq> []"
  by (auto simp: validate_bucket_name_Ok bucket_name_rules_def list_all_iff Let_def name_char_ok_def
      is_lower_def is_digit_def)

text \<open>
  Validation decides exactly the documented rules: a bucket name is accepted when it has 3 to 63
  characters from the allowed set, all its labels between periods are non-empty, no hyphen stands at
  either end, it is not a dotted quad of numbers up to 255 and has no reserved prefix or suffix; a list
  of part numbers is accepted when it counts 1, 2, 3, ... without a gap up to at most 10000; a key when
  it has 1 to 1024 bytes.
\<close>

theorem validation_rules:
  "(validate_bucket_name name = Ok () \<longleftrightarrow> bucket_name_rules name) \<and>
   (validate_part_sequence ns = Ok () \<longleftrightarrow> length ns \<le> 10000 \<and> ns = [1 ..< Suc (length ns)]) \<and>
   (validate_object_key key = Ok () \<longleftrightarrow> 1 \<le> length key \<and> length key \<le> 1024)"
  using validate_bucket_name_Ok part_sequence_none
  by (auto simp: validate_part_sequence_def validate_object_key_def validate_blob_key_def Suc_le_eq)

end
