(* ===== verification/Admin_Routes.thy ===== *)
theory Admin_Routes
  imports Validation Texts
begin

text \<open>
  The URLs of the admin interface: query parameters, page tokens and pages
  (\<^verbatim>\<open>src/src/api/admin/pagination.rs\<close>) and the routes of buckets, objects, versions and uploads
  (\<^verbatim>\<open>src/src/api/admin/route.rs\<close>). Percent-decoding and the URL-safe Base64 alphabet come from
  libraries and are parameters; \<^verbatim>\<open>String::from_utf8\<close> is \<open>utf8_valid\<close>.
\<close>

section \<open>Pages\<close>

record page_params =
  pp_next :: nat
  pp_limit :: nat
  pp_search :: "string option"

record object_page_params =
  op_next :: "string option"
  op_limit :: nat
  op_prefix :: "string option"
  op_search :: "string option"

datatype page_token_kind =
    KBuckets | KObjects | KVersions | KMultipartUploads | KMailboxes | KMessages
  | KTextConversations | KTextMessages

fun kind_str :: "page_token_kind \<Rightarrow> string" where
  "kind_str KBuckets = ''buckets''"
| "kind_str KObjects = ''objects''"
| "kind_str KVersions = ''versions''"
| "kind_str KMultipartUploads = ''multipart-uploads''"
| "kind_str KMailboxes = ''mailboxes''"
| "kind_str KMessages = ''messages''"
| "kind_str KTextConversations = ''text-conversations''"
| "kind_str KTextMessages = ''text-messages''"

type_synonym decoder = "string \<Rightarrow> string option"

definition decode_component :: "decoder \<Rightarrow> string \<Rightarrow> string" where
  "decode_component decode input = (case decode input of Some t \<Rightarrow> t | None \<Rightarrow> input)"

fun insert_query_pairs :: "decoder \<Rightarrow> string list \<Rightarrow> (string, string) smap \<Rightarrow> (string, string) smap" where
  "insert_query_pairs decode [] out = out"
| "insert_query_pairs decode (pair # rest) out =
     (case split_once (CHR ''='') pair of
        Some (key, value) \<Rightarrow>
          insert_query_pairs decode rest (sm_insert (decode_component decode key) (decode_component decode value) out)
      | None \<Rightarrow> insert_query_pairs decode rest out)"

definition parse_query_map :: "decoder \<Rightarrow> string \<Rightarrow> (string, string) smap" where
  "parse_query_map decode query =
     insert_query_pairs decode (filter (\<lambda>pair. pair \<noteq> []) (split_on (CHR ''&'') query)) []"

record base64 =
  b64_encode :: "string \<Rightarrow> string"
  b64_decode :: "string \<Rightarrow> string option"

abbreviation invalid_next :: error where
  "invalid_next \<equiv> InvalidRequest ''invalid next token''"

definition decode_token :: "base64 \<Rightarrow> page_token_kind \<Rightarrow> string \<Rightarrow> (error, string) result" where
  "decode_token B kind token =
     bind_result (ok_or invalid_next (b64_decode B token)) (\<lambda>decoded.
     if \<not> utf8_valid decoded then Err invalid_next
     else bind_result (ok_or invalid_next (split_once (CHR '':'') decoded)) (\<lambda>(token_kind, rest).
     if token_kind \<noteq> kind_str kind then Err invalid_next else Ok rest))"

definition parse_next_token :: "base64 \<Rightarrow> string \<Rightarrow> page_token_kind \<Rightarrow> (error, nat) result" where
  "parse_next_token B token kind =
     bind_result (decode_token B kind token) (\<lambda>offset. ok_or invalid_next (parse_u64 offset))"

definition parse_object_next_token :: "base64 \<Rightarrow> string \<Rightarrow> page_token_kind \<Rightarrow> (error, string) result" where
  "parse_object_next_token B token kind = decode_token B kind token"

definition transpose_opt :: "('e, 'a) result option \<Rightarrow> ('e, 'a option) result" where
  "transpose_opt r = (case r of None \<Rightarrow> Ok None | Some (Ok a) \<Rightarrow> Ok (Some a) | Some (Err e) \<Rightarrow> Err e)"

definition parse_limit :: "(string, string) smap \<Rightarrow> (error, nat) result" where
  "parse_limit params =
     bind_result
       (transpose_opt (map_option (\<lambda>v. ok_or (InvalidRequest ''invalid limit'') (parse_u64 v))
                                  (sm_get params ''limit''))) (\<lambda>l.
     let limit = (case l of Some n \<Rightarrow> n | None \<Rightarrow> 50) in
     if limit < 1 \<or> limit > 500 then Err (InvalidRequest ''limit must be between 1 and 500'') else Ok limit)"

definition parse_search :: "(string, string) smap \<Rightarrow> string option" where
  "parse_search params =
     (case sm_get params ''search'' of
        Some v \<Rightarrow> let t = to_ascii_lowercase (str_trim v) in if t = [] then None else Some t
      | None \<Rightarrow> None)"

definition parse_page_params :: "base64 \<Rightarrow> decoder \<Rightarrow> string \<Rightarrow> page_token_kind \<Rightarrow> (error, page_params) result" where
  "parse_page_params B decode query kind =
     (let params = parse_query_map decode query in
      bind_result (transpose_opt (map_option (\<lambda>v. parse_next_token B v kind) (sm_get params ''next''))) (\<lambda>next_page.
      bind_result (parse_limit params) (\<lambda>limit.
      Ok \<lparr>pp_next = (case next_page of Some n \<Rightarrow> n | None \<Rightarrow> 0), pp_limit = limit, pp_search = parse_search params\<rparr>)))"

definition parse_object_page_params ::
    "base64 \<Rightarrow> decoder \<Rightarrow> string \<Rightarrow> page_token_kind \<Rightarrow> (error, object_page_params) result" where
  "parse_object_page_params B decode query kind =
     (let params = parse_query_map decode query in
      bind_result (transpose_opt (map_option (\<lambda>v. parse_object_next_token B v kind) (sm_get params ''next''))) (\<lambda>next_page.
      bind_result (parse_limit params) (\<lambda>limit.
      Ok \<lparr>op_next = next_page, op_limit = limit, op_prefix = sm_get params ''prefix'', op_search = parse_search params\<rparr>)))"

text \<open>\<open>start + limit\<close> cannot overflow: the first is at most the length of a vector, the second at most 500.\<close>

definition paginate :: "'a list \<Rightarrow> page_params \<Rightarrow> 'a list \<times> nat option" where
  "paginate items page =
     (let start = min (pp_next page) (length items);
          stop = min (start + pp_limit page) (length items)
      in (take (pp_limit page) (drop start items), if stop < length items then Some stop else None))"

definition encode_next :: "base64 \<Rightarrow> nat option \<Rightarrow> page_token_kind \<Rightarrow> string option" where
  "encode_next B next_page kind =
     map_option (\<lambda>offset. b64_encode B (kind_str kind @ '':'' @ show_nat offset)) next_page"

definition encode_object_next :: "base64 \<Rightarrow> string option \<Rightarrow> page_token_kind \<Rightarrow> string option" where
  "encode_object_next B next_page kind =
     map_option (\<lambda>marker. b64_encode B (kind_str kind @ '':'' @ marker)) next_page"

definition contains_search :: "string \<Rightarrow> string option \<Rightarrow> bool" where
  "contains_search v search = (case search of Some s \<Rightarrow> sublist s (to_ascii_lowercase v) | None \<Rightarrow> True)"

section \<open>Routes\<close>

datatype object_resource =
    RMetadata | RContent | RVersions | RVersion string | RTags | RAcl

datatype bucket_resource =
    BRoot | BVersioning | BAcl | BPolicy | BLifecycle | BMultipartUploads
  | BMultipartUpload string | BObjects | BObject string object_resource

datatype route = RouteBuckets | RouteBucket string bucket_resource

fun str_split_once :: "string \<Rightarrow> string \<Rightarrow> (string \<times> string) option" where
  "str_split_once pat [] = (if pat = [] then Some ([], []) else None)"
| "str_split_once pat (c # s) =
     (if prefix pat (c # s) then Some ([], drop (length pat) (c # s))
      else map_option (\<lambda>(a, b). (c # a, b)) (str_split_once pat s))"

definition str_rsplit_once :: "string \<Rightarrow> string \<Rightarrow> (string \<times> string) option" where
  "str_rsplit_once pat s =
     map_option (\<lambda>(a, b). (rev b, rev a)) (str_split_once (rev pat) (rev s))"

definition parse_bucket_and_remainder :: "decoder \<Rightarrow> string \<Rightarrow> (error, string \<times> string option) result" where
  "parse_bucket_and_remainder decode rest =
     (let (raw, remainder) =
        (case split_once (CHR ''/'') rest of
           Some (bucket, remainder) \<Rightarrow> (bucket, Some remainder)
         | None \<Rightarrow> (rest, None));
        bucket = decode_component decode raw
      in if bucket = [] then Err (InvalidRequest ''Missing bucket'')
         else case validate_bucket_name bucket of
           Err message \<Rightarrow> Err (InvalidRequest message)
         | Ok _ \<Rightarrow> Ok (bucket, remainder))"

definition parse_multipart_upload_resource :: "decoder \<Rightarrow> string \<Rightarrow> string \<Rightarrow> (error, bucket_resource) result" where
  "parse_multipart_upload_resource decode remainder path =
     bind_result (ok_or (RouteNotFound path) (strip_prefix ''multipart-uploads/'' remainder)) (\<lambda>raw.
     let upload_id = decode_component decode raw in
     if upload_id = [] then Err (InvalidRequest ''Missing upload id'') else Ok (BMultipartUpload upload_id))"

text \<open>The version of \<open>key/versions/id\<close>, when both parts are non-empty after decoding.\<close>

definition version_route :: "decoder \<Rightarrow> string \<Rightarrow> (string \<times> string) option" where
  "version_route decode object_rest =
     (case str_rsplit_once ''/versions/'' object_rest of
        Some (k, v) \<Rightarrow>
          let key = decode_component decode k; version_id = decode_component decode v in
          if key \<noteq> [] \<and> version_id \<noteq> [] then Some (key, version_id) else None
      | None \<Rightarrow> None)"

definition parse_object_resource :: "decoder \<Rightarrow> string \<Rightarrow> (error, bucket_resource) result" where
  "parse_object_resource decode object_rest =
     (if object_rest = [] then Err (InvalidRequest ''Missing object key'')
      else case strip_suffix ''/content'' object_rest of
        Some key \<Rightarrow> Ok (BObject (decode_component decode key) RContent)
      | None \<Rightarrow> (case strip_suffix ''/versions'' object_rest of
        Some key \<Rightarrow> Ok (BObject (decode_component decode key) RVersions)
      | None \<Rightarrow> (case version_route decode object_rest of
        Some (key, version_id) \<Rightarrow> Ok (BObject key (RVersion version_id))
      | None \<Rightarrow> (case strip_suffix ''/tags'' object_rest of
        Some key \<Rightarrow> Ok (BObject (decode_component decode key) RTags)
      | None \<Rightarrow> (case strip_suffix ''/acl'' object_rest of
        Some key \<Rightarrow> Ok (BObject (decode_component decode key) RAcl)
      | None \<Rightarrow> Ok (BObject (decode_component decode object_rest) RMetadata))))))"

definition parse_bucket_resource :: "decoder \<Rightarrow> string option \<Rightarrow> string \<Rightarrow> (error, bucket_resource) result" where
  "parse_bucket_resource decode remainder path =
     (case remainder of
        None \<Rightarrow> Ok BRoot
      | Some r \<Rightarrow>
          if r = ''versioning'' then Ok BVersioning
          else if r = ''acl'' then Ok BAcl
          else if r = ''policy'' then Ok BPolicy
          else if r = ''lifecycle'' then Ok BLifecycle
          else if r = ''multipart-uploads'' then Ok BMultipartUploads
          else if r = ''objects'' then Ok BObjects
          else if prefix ''multipart-uploads/'' r then parse_multipart_upload_resource decode r path
          else if prefix ''objects/'' r then parse_object_resource decode (trim_start_matches ''objects/'' r)
          else Err (RouteNotFound path))"

definition parse_route :: "decoder \<Rightarrow> string \<Rightarrow> (error, route) result" where
  "parse_route decode path =
     bind_result (ok_or (RouteNotFound path) (strip_prefix ''/admin/v1'' path)) (\<lambda>admin_path.
     if admin_path = ''/buckets'' then Ok RouteBuckets
     else bind_result (ok_or (RouteNotFound path) (strip_prefix ''/buckets/'' admin_path)) (\<lambda>rest.
       bind_result (parse_bucket_and_remainder decode rest) (\<lambda>(bucket, remainder).
       bind_result (parse_bucket_resource decode remainder path) (\<lambda>resource.
       Ok (RouteBucket bucket resource)))))"

section \<open>Tokens and pages\<close>

text \<open>What the page tokens rely on: the encoder of the library can be undone and emits URL-safe characters.\<close>

definition url_safe :: "char \<Rightarrow> bool" where
  "url_safe c \<longleftrightarrow> is_lower c \<or> is_upper c \<or> is_digit c \<or> c = CHR ''-'' \<or> c = CHR ''_''"

definition base64_ok :: "base64 \<Rightarrow> bool" where
  "base64_ok B \<longleftrightarrow> (\<forall>s. b64_decode B (b64_encode B s) = Some s \<and> list_all url_safe (b64_encode B s))"

text \<open>Percent-decoding leaves text without escapes alone.\<close>

definition plain_decodes :: "decoder \<Rightarrow> bool" where
  "plain_decodes decode \<longleftrightarrow> (\<forall>s. CHR ''%'' \<notin> set s \<longrightarrow> decode s = Some s)"

lemma digits_ascii: "list_all is_digit s \<Longrightarrow> utf8_valid s"
  using utf8_valid_ascii [of s "[]"] by (fastforce simp: list_all_iff is_digit_def in_bytes_def)

lemma kind_str_plain: "CHR '':'' \<notin> set (kind_str k)" "list_all (in_bytes 0 0x7F) (kind_str k @ '':'')"
  by (cases k; simp add: in_bytes_def)+

lemma kind_str_inj: "kind_str k = kind_str k' \<Longrightarrow> k = k'"
  by (cases k; cases k'; simp)

lemma decode_token_encoded:
  assumes "base64_ok B" and "utf8_valid rest"
  shows "decode_token B k (b64_encode B (kind_str k' @ '':'' @ rest)) = (if k = k' then Ok rest else Err invalid_next)"
  using assms kind_str_plain [of k'] utf8_valid_ascii [OF kind_str_plain(2) [of k'], of rest] kind_str_inj [of k k']
  by (auto simp: decode_token_def base64_ok_def split_once_first)

lemma parse_next_encoded:
  assumes "base64_ok B" and "n \<le> u64_max"
  shows "parse_next_token B (b64_encode B (kind_str k @ '':'' @ show_nat n)) k = Ok n"
  using decode_token_encoded [OF assms(1) digits_ascii] show_nat_digits [of n] parse_show_nat [OF assms(2)]
  by (simp add: parse_next_token_def)

text \<open>The query of a client that asks for \<open>n\<close> entries after a token.\<close>

definition page_query :: "string option \<Rightarrow> nat \<Rightarrow> string" where
  "page_query token n =
     (case token of None \<Rightarrow> [] | Some t \<Rightarrow> ''next='' @ t @ ''&'') @ ''limit='' @ show_nat n"

lemma digits_plain: "list_all is_digit s \<Longrightarrow> x \<in> set s \<Longrightarrow> x \<noteq> CHR ''&'' \<and> x \<noteq> CHR ''='' \<and> x \<noteq> CHR ''%''"
  by (auto simp: list_all_iff is_digit_def)

lemma url_safe_plain: "list_all url_safe s \<Longrightarrow> x \<in> set s \<Longrightarrow> x \<noteq> CHR ''&'' \<and> x \<noteq> CHR ''='' \<and> x \<noteq> CHR ''%''"
  by (auto simp: list_all_iff url_safe_def is_digit_def is_lower_def is_upper_def)

lemma insert_pair_plain:
  assumes "plain_decodes decode" and "CHR ''='' \<notin> set key" and "CHR ''%'' \<notin> set key" and "CHR ''%'' \<notin> set v"
  shows "insert_query_pairs decode ((key @ CHR ''='' # v) # rest) out = insert_query_pairs decode rest (sm_insert key v out)"
  using assms by (simp add: split_once_first plain_decodes_def decode_component_def)

lemma parse_page_query:
  assumes B: "base64_ok B" and D: "plain_decodes decode"
    and tok: "case token of None \<Rightarrow> m = 0 | Some t \<Rightarrow> t = b64_encode B (kind_str k @ '':'' @ show_nat m)"
    and m: "m \<le> u64_max" and n: "1 \<le> n" "n \<le> 500"
  shows "parse_page_params B decode (page_query token n) k = Ok \<lparr>pp_next = m, pp_limit = n, pp_search = None\<rparr>"
proof -
  have digits: "list_all is_digit (show_nat n)" using show_nat_digits by blast
  note dp = digits_plain [OF digits]
  have lim: "CHR ''&'' \<notin> set (''limit='' @ show_nat n)" using dp by auto
  have pl: "insert_query_pairs decode [''limit='' @ show_nat n] out = sm_insert ''limit'' (show_nat n) out" for out
    using insert_pair_plain [OF D, of "''limit''" "show_nat n" "[]" out] dp by auto
  have parsed: "parse_u64 (show_nat n) = Some n" using n by (intro parse_show_nat) (simp add: u64_max_def)
  show ?thesis
  proof (cases token)
    case None
    then have "parse_query_map decode (page_query token n) = [(''limit'', show_nat n)]"
      using pl [of "[]"] split_on_free [OF lim] by (simp add: parse_query_map_def page_query_def)
    with None tok parsed n show ?thesis
      by (simp add: parse_page_params_def parse_limit_def parse_search_def transpose_opt_def)
  next
    case (Some t)
    then have t: "t = b64_encode B (kind_str k @ '':'' @ show_nat m)" using tok by simp
    then have "list_all url_safe t" using B by (simp add: base64_ok_def)
    note tp = url_safe_plain [OF this]
    have amp: "CHR ''&'' \<notin> set (''next='' @ t)" using tp by auto
    have "split_on (CHR ''&'') (page_query token n) = [''next='' @ t, ''limit='' @ show_nat n]"
      using split_on_append [OF amp, of "''limit='' @ show_nat n"] split_on_free [OF lim] Some by (simp add: page_query_def)
    moreover have "insert_query_pairs decode [''next='' @ t, ''limit='' @ show_nat n] [] =
        sm_insert ''limit'' (show_nat n) [(''next'', t)]"
      using insert_pair_plain [OF D, of "''next''" t "[''limit='' @ show_nat n]" "[]"] tp
        pl [of "sm_insert ''next'' t []"] by (simp del: insert_query_pairs.simps) blast
    ultimately have "parse_query_map decode (page_query token n) = sm_insert ''limit'' (show_nat n) [(''next'', t)]"
      by (simp add: parse_query_map_def)
    with parsed n parse_next_encoded [OF B m, of k] t show ?thesis
      by (simp add: parse_page_params_def parse_limit_def parse_search_def transpose_opt_def)
  qed
qed

text \<open>What a list handler does with a query: parse it, cut the page, encode the token of the next one.\<close>

definition serve_page :: "base64 \<Rightarrow> decoder \<Rightarrow> page_token_kind \<Rightarrow> 'a list \<Rightarrow> string \<Rightarrow> 'a list \<times> string option" where
  "serve_page B decode k items query =
     (case parse_page_params B decode query k of
        Ok page \<Rightarrow> (case paginate items page of (xs, next_page) \<Rightarrow> (xs, encode_next B next_page k))
      | Err _ \<Rightarrow> ([], None))"

lemma follow_from:
  assumes B: "base64_ok B" and D: "plain_decodes decode" and n: "1 \<le> n" "n \<le> 500" and len: "length items \<le> u64_max"
    and tok: "case token of None \<Rightarrow> m = 0 | Some t \<Rightarrow> t = b64_encode B (kind_str k @ '':'' @ show_nat m)"
    and m: "m \<le> length items" and fuel: "length items < m + fuel * n" "0 < fuel"
  shows "follow (\<lambda>t. serve_page B decode k items (page_query t n)) fuel token = Some (drop m items)"
  using tok m fuel
proof (induction fuel arbitrary: m token)
  case (Suc fuel)
  have page: "serve_page B decode k items (page_query token n) =
      (take n (drop m items), if m + n < length items then Some (b64_encode B (kind_str k @ '':'' @ show_nat (m + n))) else None)"
    using parse_page_query [OF B D Suc.prems(1) _ n] Suc.prems(2) len
    by (auto simp: serve_page_def paginate_def encode_next_def min_def Let_def)
  show ?case
  proof (cases "m + n < length items")
    case True
    then have "0 < fuel" using Suc.prems(3) by (cases fuel) auto
    with Suc.IH [of "m + n" "Some (b64_encode B (kind_str k @ '':'' @ show_nat (m + n)))"] True Suc.prems(3)
    have "follow (\<lambda>t. serve_page B decode k items (page_query t n)) fuel
        (Some (b64_encode B (kind_str k @ '':'' @ show_nat (m + n)))) = Some (drop (m + n) items)"
      by (simp add: algebra_simps)
    moreover have "take n (drop m items) @ drop (m + n) items = drop m items"
      by (metis append_take_drop_id drop_drop add.commute)
    ultimately show ?thesis using page True by simp
  next
    case False
    then show ?thesis using page by simp
  qed
qed simp

section \<open>Printed routes\<close>

fun print_object_resource :: "(string \<Rightarrow> string) \<Rightarrow> object_resource \<Rightarrow> string" where
  "print_object_resource enc RMetadata = []"
| "print_object_resource enc RContent = ''/content''"
| "print_object_resource enc RVersions = ''/versions''"
| "print_object_resource enc (RVersion v) = ''/versions/'' @ enc v"
| "print_object_resource enc RTags = ''/tags''"
| "print_object_resource enc RAcl = ''/acl''"

fun print_bucket_resource :: "(string \<Rightarrow> string) \<Rightarrow> bucket_resource \<Rightarrow> string" where
  "print_bucket_resource enc BRoot = []"
| "print_bucket_resource enc BVersioning = ''/versioning''"
| "print_bucket_resource enc BAcl = ''/acl''"
| "print_bucket_resource enc BPolicy = ''/policy''"
| "print_bucket_resource enc BLifecycle = ''/lifecycle''"
| "print_bucket_resource enc BMultipartUploads = ''/multipart-uploads''"
| "print_bucket_resource enc (BMultipartUpload u) = ''/multipart-uploads/'' @ enc u"
| "print_bucket_resource enc BObjects = ''/objects''"
| "print_bucket_resource enc (BObject k r) = ''/objects/'' @ enc k @ print_object_resource enc r"

fun print_route :: "(string \<Rightarrow> string) \<Rightarrow> route \<Rightarrow> string" where
  "print_route enc RouteBuckets = ''/admin/v1/buckets''"
| "print_route enc (RouteBucket b r) = ''/admin/v1/buckets/'' @ enc b @ print_bucket_resource enc r"

text \<open>An encoder of URL components that the decoder undoes and that encodes the slash.\<close>

definition url_codec :: "(string \<Rightarrow> string) \<Rightarrow> decoder \<Rightarrow> bool" where
  "url_codec enc decode \<longleftrightarrow>
     decode [] = Some [] \<and> (\<forall>s. decode (enc s) = Some s \<and> CHR ''/'' \<notin> set (enc s))"

fun object_resource_ok :: "(string \<Rightarrow> string) \<Rightarrow> object_resource \<Rightarrow> bool" where
  "object_resource_ok enc (RVersion v) = (v \<noteq> [] \<and> enc v \<noteq> ''content'' \<and> enc v \<noteq> ''versions'')"
| "object_resource_ok enc _ = True"

fun bucket_resource_ok :: "(string \<Rightarrow> string) \<Rightarrow> bucket_resource \<Rightarrow> bool" where
  "bucket_resource_ok enc (BMultipartUpload u) = (u \<noteq> [])"
| "bucket_resource_ok enc (BObject k r) = (k \<noteq> [] \<and> (enc k = ''objects'' \<longrightarrow> r = RMetadata) \<and> object_resource_ok enc r)"
| "bucket_resource_ok enc _ = True"

fun route_ok :: "(string \<Rightarrow> string) \<Rightarrow> route \<Rightarrow> bool" where
  "route_ok enc RouteBuckets = True"
| "route_ok enc (RouteBucket b r) = (validate_bucket_name b = Ok () \<and> bucket_resource_ok enc r)"

text \<open>The last separator of a text decides where a suffix can begin.\<close>

lemma separator_eq:
  assumes "(c :: char) \<notin> set a" and "c \<notin> set a'"
  shows "a @ c # b = a' @ c # b' \<longleftrightarrow> a = a' \<and> b = b'"
proof
  assume "a @ c # b = a' @ c # b'"
  then have "split_once c (a @ c # b) = split_once c (a' @ c # b')" by simp
  with assms show "a = a' \<and> b = b'" by (simp add: split_once_first)
qed simp

lemma strip_suffix_last:
  assumes "(c :: char) \<notin> set t" and "c \<notin> set w"
  shows "strip_suffix (c # t) (s @ c # w) = (if t = w then Some s else None)"
proof -
  have "s @ c # w = u @ c # t \<longleftrightarrow> u = s \<and> w = t" for u
  proof -
    have "s @ c # w = u @ c # t \<longleftrightarrow> rev w @ c # rev s = rev t @ c # rev u"
      by (metis append_assoc append_Cons append_Nil rev.simps(2) rev_append rev_rev_ident)
    also have "\<dots> \<longleftrightarrow> w = t \<and> s = u"
      using separator_eq [of c "rev w" "rev t" "rev s" "rev u"] assms by simp
    finally show ?thesis by auto
  qed
  then show ?thesis by (auto simp: strip_suffix_def suffix_def)
qed

lemma strip_suffix_free: "c \<in> set t \<Longrightarrow> c \<notin> set s \<Longrightarrow> strip_suffix t s = None"
  by (auto simp: strip_suffix_def suffix_def)

lemma str_split_once_first: "c \<notin> set a \<Longrightarrow> str_split_once (c # p) (a @ (c # p) @ b) = Some (a, b)"
  by (induction a) auto

lemma str_split_once_Some: "str_split_once pat s = Some (a, b) \<Longrightarrow> s = a @ pat @ b"
  by (induction s arbitrary: a b) (auto split: if_splits simp: prefix_def)

lemma str_rsplit_once_Some: "str_rsplit_once pat s = Some (a, b) \<Longrightarrow> s = a @ pat @ b"
  unfolding str_rsplit_once_def by (auto dest!: str_split_once_Some) (metis append_assoc rev_append rev_rev_ident)

lemma rsplit_versions: "CHR ''/'' \<notin> set v \<Longrightarrow> str_rsplit_once ''/versions/'' (k @ ''/versions/'' @ v) = Some (k, v)"
  using str_split_once_first [of "CHR ''/''" "rev v" "rev ''/versions''" "rev k"] by (simp add: str_rsplit_once_def)

lemma rsplit_versions_None: "count_list s (CHR ''/'') \<le> 1 \<Longrightarrow> str_rsplit_once ''/versions/'' s = None"
  by (cases "str_rsplit_once ''/versions/'' s") (auto dest!: str_rsplit_once_Some)

lemma trim_objects: "\<not> prefix ''objects/'' s \<Longrightarrow> trim_start_matches ''objects/'' (''objects/'' @ s) = s"
  by (subst trim_start_matches.simps, subst trim_start_matches.simps) simp

lemma objects_prefix:
  assumes k: "CHR ''/'' \<notin> set k" and r: "r = [] \<or> hd r = CHR ''/''" and pre: "prefix ''objects/'' (k @ r)"
  shows "k = ''objects'' \<and> r \<noteq> []"
proof -
  obtain z where z: "k @ r = ''objects'' @ CHR ''/'' # z" using pre by (auto simp: prefix_def)
  then have "CHR ''/'' \<in> set (k @ r)" by simp
  then obtain r' where r': "r = CHR ''/'' # r'" using k r by (cases r) auto
  with z separator_eq [OF k, of "''objects''" r' z] show ?thesis by simp
qed

lemma url_codecD:
  assumes "url_codec enc decode"
  shows "decode_component decode (enc s) = s" and "CHR ''/'' \<notin> set (enc s)" and "s \<noteq> [] \<Longrightarrow> enc s \<noteq> []"
  using assms by (auto simp: url_codec_def decode_component_def) (metis option.inject)

lemma parse_object_printed:
  assumes U: "url_codec enc decode" and k: "k \<noteq> []" and r: "object_resource_ok enc r"
  shows "parse_object_resource decode (enc k @ print_object_resource enc r) = Ok (BObject k r)"
proof -
  note E = url_codecD [OF U]
  have n0: "count_list (enc k) (CHR ''/'') = 0" by (simp add: count_list_0_iff E(2))
  have last: "strip_suffix (''/'' @ t) (enc k @ ''/'' @ w) = (if t = w then Some (enc k) else None)"
    if "CHR ''/'' \<notin> set t" "CHR ''/'' \<notin> set w" for t w
    using strip_suffix_last [OF that, of "enc k"] by simp
  note last' = last [of "''content''"] last [of "''versions''"] last [of "''tags''"] last [of "''acl''"]
  note nov = rsplit_versions_None
  show ?thesis
  proof (cases r)
    case RMetadata
    then show ?thesis using k E n0 nov [of "enc k"]
      by (auto simp: parse_object_resource_def version_route_def strip_suffix_free [of "CHR ''/''"])
  next
    case (RVersion v)
    have vv: "strip_suffix (''/'' @ t) ((enc k @ ''/versions'') @ ''/'' @ enc v) =
        (if t = enc v then Some (enc k @ ''/versions'') else None)" if "CHR ''/'' \<notin> set t" for t
      using strip_suffix_last [OF that E(2), of "enc k @ ''/versions''" v] by simp
    have "version_route decode (enc k @ ''/versions/'' @ enc v) = Some (k, v)"
      using rsplit_versions [OF E(2) [of v], of "enc k"] E(1) k r RVersion by (simp add: version_route_def)
    with vv [of "''content''"] vv [of "''versions''"] RVersion r show ?thesis
      by (auto simp: parse_object_resource_def)
  qed (use E n0 last' nov [of "enc k @ ''/content''"] nov [of "enc k @ ''/versions''"] nov [of "enc k @ ''/tags''"]
        nov [of "enc k @ ''/acl''"] in \<open>simp_all add: parse_object_resource_def version_route_def\<close>)
qed

lemma parse_bucket_resource_objects:
  "\<not> prefix ''objects/'' s \<Longrightarrow>
   parse_bucket_resource decode (Some (''objects/'' @ s)) path = parse_object_resource decode s"
  unfolding parse_bucket_resource_def option.case by (subst trim_objects) simp_all

lemma parse_bucket_resource_printed:
  assumes U: "url_codec enc decode" and r: "bucket_resource_ok enc r"
  shows "parse_bucket_resource decode
      (if r = BRoot then None else Some (tl (print_bucket_resource enc r))) path = Ok r"
proof (cases r)
  case (BMultipartUpload u)
  then show ?thesis using url_codecD [OF U] r
    by (simp add: parse_bucket_resource_def parse_multipart_upload_resource_def strip_prefix_def)
next
  case (BObject k res)
  have head: "print_object_resource enc res = [] \<or> hd (print_object_resource enc res) = CHR ''/''" by (cases res) auto
  have "\<not> prefix ''objects/'' (enc k @ print_object_resource enc res)"
  proof
    assume "prefix ''objects/'' (enc k @ print_object_resource enc res)"
    from objects_prefix [OF url_codecD(2) [OF U] head this] r BObject show False by simp
  qed
  moreover have ok: "k \<noteq> []" "object_resource_ok enc res" using r BObject by simp_all
  ultimately have "parse_bucket_resource decode (Some (''objects/'' @ enc k @ print_object_resource enc res)) path = Ok (BObject k res)"
    by (metis parse_bucket_resource_objects parse_object_printed [OF U ok])
  moreover have "tl (print_bucket_resource enc (BObject k res)) = ''objects/'' @ enc k @ print_object_resource enc res" by simp
  ultimately show ?thesis unfolding BObject by (simp only: bucket_resource.simps if_False)
qed (simp_all add: parse_bucket_resource_def)

lemma split_once_free: "c \<notin> set s \<Longrightarrow> split_once c s = None"
  by (induction s) auto

lemma parse_bucket_printed:
  assumes U: "url_codec enc decode" and b: "validate_bucket_name b = Ok ()"
  shows "parse_bucket_and_remainder decode (enc b @ print_bucket_resource enc r) =
    Ok (b, if r = BRoot then None else Some (tl (print_bucket_resource enc r)))"
proof -
  note E = url_codecD [OF U, of b]
  have free: "split_once (CHR ''/'') (enc b) = None" using E(2) by (rule split_once_free)
  have "b \<noteq> []" using bucket_name_no_slash [OF b] by simp
  moreover have "(case split_once (CHR ''/'') (enc b @ print_bucket_resource enc r) of
       Some (bucket, remainder) \<Rightarrow> (bucket, Some remainder) | None \<Rightarrow> (enc b @ print_bucket_resource enc r, None)) =
     (enc b, if r = BRoot then None else Some (tl (print_bucket_resource enc r)))"
    using split_once_first [OF E(2)] free by (cases r) auto
  ultimately show ?thesis using E(1) b by (simp add: parse_bucket_and_remainder_def)
qed

lemma parse_bucket_valid: "parse_bucket_and_remainder decode rest = Ok (b, rem) \<Longrightarrow> validate_bucket_name b = Ok ()"
  by (cases "split_once (CHR ''/'') rest")
    (auto simp: parse_bucket_and_remainder_def Let_def split: if_splits result.splits)

lemma parse_route_bucket: "parse_route decode p = Ok (RouteBucket b r) \<Longrightarrow> validate_bucket_name b = Ok ()"
  by (auto simp: parse_route_def bind_result_Ok dest: parse_bucket_valid split: if_splits)

text \<open>
  Following the pages of an admin listing loses nothing. With any page size the interface
  accepts, a client that starts without a token and sends the token of each answer back receives every
  item, each once and in order, in at most one request per page.
\<close>

theorem admin_pages_follow:
  assumes "base64_ok B" and "plain_decodes decode" and "1 \<le> n" and "n \<le> 500" and "length items \<le> u64_max"
  shows "follow (\<lambda>t. serve_page B decode k items (page_query t n)) (length items div n + 1) None = Some items"
proof -
  have "length items < (length items div n + 1) * n"
    using assms(3) dividend_less_div_times [of n "length items"] by (simp add: algebra_simps)
  with follow_from [OF assms, where token = None and m = 0 and k = k and fuel = "length items div n + 1"]
  show ?thesis by simp
qed

text \<open>
  Routes. The path that a well-formed route prints to is parsed back to that route, for every
  resource of the interface; and whatever a client sends, an accepted path names a valid bucket.
\<close>

theorem admin_route_roundtrip:
  "(url_codec enc decode \<longrightarrow> route_ok enc r \<longrightarrow> parse_route decode (print_route enc r) = Ok r) \<and>
   (parse_route decode p = Ok (RouteBucket b res) \<longrightarrow> validate_bucket_name b = Ok ())"
proof (intro conjI impI)
  assume U: "url_codec enc decode" and r: "route_ok enc r"
  show "parse_route decode (print_route enc r) = Ok r"
  proof (cases r)
    case RouteBuckets
    then show ?thesis by (simp add: parse_route_def strip_prefix_def)
  next
    case (RouteBucket b res)
    then show ?thesis using r parse_bucket_printed [OF U, of b res] parse_bucket_resource_printed [OF U, of res]
      by (simp add: parse_route_def strip_prefix_def)
  qed
qed (rule parse_route_bucket)

text \<open>
  The prefix \<^verbatim>\<open>objects/\<close> is trimmed as often as it occurs: below the key \<open>objects\<close> itself, a path names a
  different object.
\<close>

lemma objects_key_misrouted:
  "parse_route Some ''/admin/v1/buckets/demo/objects/objects/versions/v1'' =
     Ok (RouteBucket ''demo'' (BObject ''versions/v1'' RMetadata))"
  by code_simp

text \<open>A concrete encoder: two letters for each byte.\<close>

definition to_letters :: "string \<Rightarrow> string" where
  "to_letters = concat \<circ> map (\<lambda>c. [char_of (97 + of_char c div (16::nat)), char_of (97 + of_char c mod (16::nat))])"

fun of_letters :: "string \<Rightarrow> string option" where
  "of_letters [] = Some []"
| "of_letters [a] = None"
| "of_letters (a # b # s) =
     map_option (\<lambda>t. char_of ((of_char a - 97) * 16 + (of_char b - (97::nat))) # t) (of_letters s)"

definition sample_base64 :: base64 where
  "sample_base64 = \<lparr>b64_encode = to_letters, b64_decode = of_letters\<rparr>"

lemma char_below: "(of_char c :: nat) < 256"
  by (metis nat_of_char_less_256)

lemma letter_of: "n < 16 \<Longrightarrow> (of_char (char_of (97 + n :: nat)) :: nat) = 97 + n"
  by simp

lemma letters_inverse: "of_letters (to_letters s) = Some s"
proof (induction s)
  case (Cons c s)
  have "(of_char c :: nat) div 16 < 16" using char_below [of c] by (simp add: less_mult_imp_div_less)
  with Cons letter_of [of "of_char c div 16"] letter_of [of "of_char c mod 16"] show ?case
    by (simp add: to_letters_def)
qed (simp add: to_letters_def)

lemma letters_safe: "x \<in> set (to_letters s) \<Longrightarrow> is_lower x"
proof -
  assume "x \<in> set (to_letters s)"
  then obtain c :: char and n :: nat where n: "n = of_char c div 16 \<or> n = of_char c mod 16" "x = char_of (97 + n)"
    by (auto simp: to_letters_def)
  have "(of_char c :: nat) div 16 < 16" using char_below [of c] by (simp add: less_mult_imp_div_less)
  with n have "n < 16" by auto
  with n show ?thesis using letter_of [of n] by (simp add: is_lower_def)
qed

lemma sample_base64_ok: "base64_ok sample_base64"
  using letters_inverse letters_safe by (auto simp: base64_ok_def sample_base64_def list_all_iff url_safe_def)

lemma letters_codec: "url_codec to_letters of_letters"
  using letters_inverse letters_safe by (auto simp: url_codec_def is_lower_def dest!: letters_safe)

theorem admin_pages_follow_witness:
  "follow (\<lambda>t. serve_page sample_base64 Some KBuckets ''abcde'' (page_query t 2)) 3 None = Some ''abcde''"
proof -
  have "length ''abcde'' div 2 + 1 = (3 :: nat)" by simp
  with admin_pages_follow [OF sample_base64_ok, of Some 2 "''abcde''" KBuckets] show ?thesis
    by (simp add: plain_decodes_def u64_max_def numeral_3_eq_3 del: follow.simps)
qed

theorem admin_route_roundtrip_witness:
  "parse_route of_letters (print_route to_letters (RouteBucket ''demo'' (BObject ''k'' (RVersion ''v1'')))) =
     Ok (RouteBucket ''demo'' (BObject ''k'' (RVersion ''v1'')))"
proof -
  have "validate_bucket_name ''demo'' = Ok ()" by code_simp
  moreover have "length (to_letters ''v1'') = 4" "length (to_letters ''k'') = 2" by (simp_all add: to_letters_def)
  ultimately have "route_ok to_letters (RouteBucket ''demo'' (BObject ''k'' (RVersion ''v1'')))" by auto
  from admin_route_roundtrip [THEN conjunct1, rule_format, OF letters_codec this] show ?thesis .
qed

end
