(* ===== verification/Services.thy ===== *)
theory Services
  imports Lifecycle Multipart Store_Config
begin

text \<open>
  The service layer (\<^verbatim>\<open>src/src/services/bucket.rs\<close> and \<^verbatim>\<open>src/src/services/object.rs\<close>) between the HTTP
  interfaces and the storage traits. Most services hand their arguments to the storage operation of
  the same name and need no definition of their own; these are the ones that decide something.
\<close>

definition service_set_versioning :: "string \<Rightarrow> bool \<Rightarrow> unit io" where
  "service_set_versioning bucket enabled =
     (if enabled then enable_versioning bucket else suspend_versioning bucket)"

definition service_versioning_enabled :: "bucket \<Rightarrow> bool" where
  "service_versioning_enabled b = versioning_enabled b"

definition create_s3_multipart_upload_with_metadata ::
    "string \<Rightarrow> string \<Rightarrow> string option \<Rightarrow> strmap \<Rightarrow> strmap \<Rightarrow> multipart_upload io" where
  "create_s3_multipart_upload_with_metadata bucket key content_type metadata provider_metadata =
     create_multipart_upload_with_metadata bucket key content_type metadata
       (provider_metadata
          (MIN_PART_KEY \<mapsto> show_nat S3_MINIMUM_NON_FINAL_PART_SIZE,
           MAX_PART_KEY \<mapsto> show_nat S3_MAXIMUM_PART_SIZE,
           MAX_OBJECT_KEY \<mapsto> show_nat S3_MAXIMUM_OBJECT_SIZE))"

end
