(* ===== verification/Admin_Api.thy ===== *)
theory Admin_Api
  imports Admin_Routes Services Requests Listing
begin

text \<open>
  The admin interface over the store (\<^verbatim>\<open>src/src/api/admin.rs\<close>, the transfer objects of
  \<^verbatim>\<open>src/src/api/admin/dto.rs\<close> and \<^verbatim>\<open>src/src/api/models.rs\<close>): one definition per handler and the
  dispatch on route and method.

  A response is its status and the value that is rendered as JSON. The decoders of the request
  bodies and the rendering of times belong to libraries and are the fields of \<open>admin_lib\<close>; a body
  that cannot be read or decoded carries the message of the library. The gate that admits one
  request at a time is left out, as each operation of the model runs alone.
\<close>

section \<open>Transfer objects\<close>

record bucket_info =
  bi_name :: string
  bi_created_at :: string
  bi_versioning_enabled :: bool

record object_info =
  oi_key :: string
  oi_size :: nat
  oi_last_modified :: string
  oi_etag :: string
  oi_content_type :: "string option"
  oi_storage_class :: string

record object_folder_info =
  fi_name :: string
  fi_prefix :: string

record object_metadata =
  om_key :: string
  om_size :: nat
  om_last_modified :: string
  om_etag :: string
  om_content_type :: "string option"
  om_metadata :: strmap
  om_version_id :: "string option"
  om_storage_class :: string

record object_version_info =
  vi_key :: string
  vi_version_id :: string
  vi_size :: nat
  vi_last_modified :: string
  vi_etag :: string
  vi_is_latest :: bool

record error_details =
  ed_error :: string
  ed_code :: string
  ed_details :: "string option"

datatype admin_body =
    ListBuckets "bucket_info list" "string option"
  | BucketDetails bucket_info
  | VersioningStatus bool
  | AclBody acl
  | PolicyBody bucket_policy_document
  | LifecycleBody lifecycle_configuration
  | ListObjects "object_folder_info list" "object_info list" "string option"
  | ListMultipartUploads "multipart_upload list" "string option"
  | UploadBody multipart_upload
  | ObjectMetadata object_metadata
  | ListVersions "object_version_info list" "string option"
  | Tags strmap
  | ErrorBody error_details

datatype admin_response =
    Json nat admin_body
  | Empty nat
  | Content nat string bytes

record admin_lib =
  al_base64 :: base64
  al_decode :: decoder
  al_rfc3339 :: "datetime \<Rightarrow> string"
  al_json_name :: "bytes \<Rightarrow> (string, string) result"
  al_json_enabled :: "bytes \<Rightarrow> (string, bool) result"
  al_json_acl :: "bytes \<Rightarrow> (string, acl) result"
  al_json_policy :: "bytes \<Rightarrow> (string, bucket_policy_document) result"
  al_json_lifecycle :: "bytes \<Rightarrow> (string, lifecycle_configuration) result"
  al_json_tags :: "bytes \<Rightarrow> (string, strmap) result"

record admin_request =
  ar_method :: string
  ar_path :: string
  ar_query :: "string option"
  ar_headers :: "(string \<times> string option) list"
  ar_body :: "(string, bytes) result"

definition object_to_metadata :: "admin_lib \<Rightarrow> object \<Rightarrow> object_metadata" where
  "object_to_metadata L ob =
     \<lparr>om_key = obj_key ob, om_size = obj_size ob, om_last_modified = al_rfc3339 L (obj_last_modified ob),
      om_etag = obj_etag ob, om_content_type = Some (obj_content_type ob), om_metadata = obj_metadata ob,
      om_version_id = obj_version_id ob, om_storage_class = obj_storage_class ob\<rparr>"

definition bucket_to_details :: "admin_lib \<Rightarrow> bucket \<Rightarrow> bucket_info" where
  "bucket_to_details L b =
     \<lparr>bi_name = bucket_name b, bi_created_at = al_rfc3339 L (created_at b),
      bi_versioning_enabled = service_versioning_enabled b\<rparr>"

definition bucket_to_info :: "admin_lib \<Rightarrow> bucket \<Rightarrow> bucket_info" where
  "bucket_to_info L b =
     \<lparr>bi_name = bucket_name b, bi_created_at = al_rfc3339 L (created_at b),
      bi_versioning_enabled = service_versioning_enabled b\<rparr>"

definition object_to_info :: "admin_lib \<Rightarrow> object \<Rightarrow> object_info" where
  "object_to_info L ob =
     \<lparr>oi_key = obj_key ob, oi_size = obj_size ob, oi_last_modified = al_rfc3339 L (obj_last_modified ob),
      oi_etag = obj_etag ob, oi_content_type = Some (obj_content_type ob), oi_storage_class = obj_storage_class ob\<rparr>"

definition common_prefix_to_folder_info :: "string \<Rightarrow> string \<Rightarrow> object_folder_info" where
  "common_prefix_to_folder_info pfx path_prefix =
     \<lparr>fi_name = (case strip_prefix path_prefix pfx of Some n \<Rightarrow> n | None \<Rightarrow> pfx), fi_prefix = pfx\<rparr>"

definition error_response :: "error \<Rightarrow> admin_response" where
  "error_response err =
     Json (status_code err)
       (ErrorBody \<lparr>ed_error = error_text err, ed_code = error_code err,
         ed_details = (case err of
            InvalidRequest details \<Rightarrow> Some details
          | MethodNotAllowed details \<Rightarrow> Some details
          | RouteNotFound details \<Rightarrow> Some details
          | _ \<Rightarrow> None)\<rparr>)"

definition read_json :: "(bytes \<Rightarrow> (string, 'a) result) \<Rightarrow> admin_request \<Rightarrow> 'a io" where
  "read_json decode req =
     (case ar_body req of
        Err e \<Rightarrow> throw (InvalidRequest e)
      | Ok body \<Rightarrow> (case decode body of Err e \<Rightarrow> throw (InvalidRequest e) | Ok v \<Rightarrow> return v))"

definition validated :: "(string, unit) result \<Rightarrow> unit io" where
  "validated r = (case r of Err message \<Rightarrow> throw (InvalidRequest message) | Ok _ \<Rightarrow> return ())"

section \<open>Guards\<close>

definition ensure_admin_bucket_mutable :: "string \<Rightarrow> unit io" where
  "ensure_admin_bucket_mutable bucket =
     bind_io (foreign_provider_data_protection_active bucket) (\<lambda>active.
     if active then throw AccessDenied else return ())"

definition ensure_admin_object_mutable :: "string \<Rightarrow> string \<Rightarrow> bool \<Rightarrow> unit io" where
  "ensure_admin_object_mutable bucket key include_versions =
     then_io (ensure_admin_bucket_mutable bucket)
     (bind_io now_io (\<lambda>now.
      bind_io (gets ext) (\<lambda>x.
      then_io
        (bind_io (try_io (get_object_metadata bucket key)) (\<lambda>r.
         case r of
           Ok ob \<Rightarrow> if object_has_active_data_protection x ob now then throw AccessDenied else return ()
         | Err e \<Rightarrow> if e = KeyNotFound then return () else throw e))
        (if include_versions
         then bind_io (list_object_versions_for_key bucket key) (\<lambda>versions.
              if list_ex (\<lambda>version. object_has_active_data_protection x version now) versions
              then throw AccessDenied else return ())
         else return ()))))"

section \<open>Buckets\<close>

definition admin_list_buckets :: "admin_lib \<Rightarrow> string \<Rightarrow> admin_response io" where
  "admin_list_buckets L query =
     bind_io (of_result (parse_page_params (al_base64 L) (al_decode L) query KBuckets)) (\<lambda>page.
     bind_io list_buckets (\<lambda>bs.
     let found = map (bucket_to_info L)
           (filter (\<lambda>b. contains_search (bucket_name b) (pp_search page)) (sort_key bucket_name bs));
         (items, next_page) = paginate found page
     in return (Json 200 (ListBuckets items (encode_next (al_base64 L) next_page KBuckets)))))"

definition admin_create_bucket :: "admin_lib \<Rightarrow> admin_request \<Rightarrow> admin_response io" where
  "admin_create_bucket L req =
     bind_io (read_json (al_json_name L) req) (\<lambda>name.
     then_io (validated (validate_bucket_name name))
     (then_io (create_bucket name)
     (bind_io (get_bucket name) (\<lambda>b.
      return (Json 201 (BucketDetails (bucket_to_details L b)))))))"

definition admin_get_bucket :: "admin_lib \<Rightarrow> string \<Rightarrow> admin_response io" where
  "admin_get_bucket L bucket =
     bind_io (get_bucket bucket) (\<lambda>b. return (Json 200 (BucketDetails (bucket_to_details L b))))"

definition admin_delete_bucket :: "string \<Rightarrow> admin_response io" where
  "admin_delete_bucket bucket =
     then_io (ensure_admin_bucket_mutable bucket)
     (then_io (delete_bucket bucket) (return (Empty 204)))"

definition admin_get_bucket_versioning :: "string \<Rightarrow> admin_response io" where
  "admin_get_bucket_versioning bucket =
     bind_io (get_bucket bucket) (\<lambda>b. return (Json 200 (VersioningStatus (service_versioning_enabled b))))"

definition admin_set_bucket_versioning :: "admin_lib \<Rightarrow> string \<Rightarrow> admin_request \<Rightarrow> admin_response io" where
  "admin_set_bucket_versioning L bucket req =
     bind_io (read_json (al_json_enabled L) req) (\<lambda>enabled.
     then_io (ensure_admin_bucket_mutable bucket)
     (then_io (service_set_versioning bucket enabled) (return (Json 200 (VersioningStatus enabled)))))"

definition admin_get_bucket_acl :: "string \<Rightarrow> admin_response io" where
  "admin_get_bucket_acl bucket = bind_io (get_bucket_acl bucket) (\<lambda>a. return (Json 200 (AclBody a)))"

definition admin_set_bucket_acl :: "admin_lib \<Rightarrow> string \<Rightarrow> admin_request \<Rightarrow> admin_response io" where
  "admin_set_bucket_acl L bucket req =
     bind_io (read_json (al_json_acl L) req) (\<lambda>a.
     then_io (put_bucket_acl bucket a) (return (Json 200 (AclBody a))))"

definition admin_get_bucket_policy :: "string \<Rightarrow> admin_response io" where
  "admin_get_bucket_policy bucket =
     bind_io (get_bucket_policy bucket) (\<lambda>p. return (Json 200 (PolicyBody p)))"

definition admin_set_bucket_policy :: "admin_lib \<Rightarrow> string \<Rightarrow> admin_request \<Rightarrow> admin_response io" where
  "admin_set_bucket_policy L bucket req =
     bind_io (read_json (al_json_policy L) req) (\<lambda>p.
     then_io (put_bucket_policy bucket p) (return (Json 200 (PolicyBody p))))"

definition admin_delete_bucket_policy :: "string \<Rightarrow> admin_response io" where
  "admin_delete_bucket_policy bucket = then_io (delete_bucket_policy bucket) (return (Empty 204))"

definition admin_get_bucket_lifecycle :: "string \<Rightarrow> admin_response io" where
  "admin_get_bucket_lifecycle bucket =
     bind_io (get_bucket_lifecycle bucket) (\<lambda>c. return (Json 200 (LifecycleBody c)))"

definition admin_set_bucket_lifecycle :: "admin_lib \<Rightarrow> string \<Rightarrow> admin_request \<Rightarrow> admin_response io" where
  "admin_set_bucket_lifecycle L bucket req =
     bind_io (read_json (al_json_lifecycle L) req) (\<lambda>c.
     then_io (put_bucket_lifecycle bucket c) (return (Json 200 (LifecycleBody c))))"

definition admin_delete_bucket_lifecycle :: "string \<Rightarrow> admin_response io" where
  "admin_delete_bucket_lifecycle bucket = then_io (delete_bucket_lifecycle bucket) (return (Empty 204))"

section \<open>Object listings\<close>

text \<open>
  The fuel of the two listing loops. A round that does not end the loop moves the marker past at
  least one key, so a number above the number of indexed keys is enough; running out of fuel is the
  value \<open>None\<close>.
\<close>

definition listing_fuel :: "world \<Rightarrow> string \<Rightarrow> nat" where
  "listing_fuel s bucket = Suc (Suc (length (list_prefix_marker (st_index s) bucket None None None)))"

fun take_while_room :: "nat \<Rightarrow> ('a \<Rightarrow> bool) \<Rightarrow> 'a list \<Rightarrow> 'a list" where
  "take_while_room room P [] = []"
| "take_while_room room P (x # xs) =
     (if room = 0 then []
      else if P x then x # take_while_room (room - 1) P xs
      else take_while_room room P xs)"

definition page_full :: "object_page_params \<Rightarrow> object_folder_info list \<Rightarrow> object_info list \<Rightarrow> bool" where
  "page_full page folders items \<longleftrightarrow> length folders + length items \<ge> op_limit page"

text \<open>The folders and objects of one listing that still fit on the page.\<close>

definition add_listed ::
    "admin_lib \<Rightarrow> object_page_params \<Rightarrow> list_objects_result \<Rightarrow> object_folder_info list \<Rightarrow> object_info list \<Rightarrow>
     object_folder_info list \<times> object_info list" where
  "add_listed L page result folders items =
     (let path_prefix = (case op_prefix page of Some p \<Rightarrow> p | None \<Rightarrow> []);
          folders' = folders @ take_while_room (op_limit page - (length folders + length items))
            (\<lambda>f. contains_search (fi_name f) (op_search page) \<or> contains_search (fi_prefix f) (op_search page))
            (map (\<lambda>c. common_prefix_to_folder_info c path_prefix) (common_prefixes result));
          items' = items @ map (object_to_info L)
            (take_while_room (op_limit page - (length folders' + length items))
              (\<lambda>ob. contains_search (obj_key ob) (op_search page)) (objects result))
      in (folders', items'))"

primrec page_loop ::
    "nat \<Rightarrow> admin_lib \<Rightarrow> string \<Rightarrow> object_page_params \<Rightarrow> object_folder_info list \<Rightarrow> object_info list \<Rightarrow>
     string option \<Rightarrow> string option \<Rightarrow> (object_folder_info list \<times> object_info list \<times> string option) option io" where
  "page_loop 0 L bucket page folders items marker next_mark =
     return (if page_full page folders items then Some (folders, items, next_mark) else None)"
| "page_loop (Suc fuel) L bucket page folders items marker next_mark =
     (if page_full page folders items then return (Some (folders, items, next_mark))
      else
        bind_io (list_objects bucket (op_prefix page) (Some ''/'') marker
                  (Some (op_limit page - length folders - length items))) (\<lambda>result.
        case add_listed L page result folders items of (folders, items) \<Rightarrow>
          if page_full page folders items \<or> \<not> is_truncated result
          then return (Some (folders, items,
                 if page_full page folders items \<and> is_truncated result then next_marker result else None))
          else if next_marker result = None then return (Some (folders, items, next_mark))
          else page_loop fuel L bucket page folders items (next_marker result) (next_marker result)))"

text \<open>The objects of one round of a search: \<open>Inl\<close> when the page is full and another object matches.\<close>

fun add_matching ::
    "admin_lib \<Rightarrow> object_page_params \<Rightarrow> object list \<Rightarrow> object_info list \<Rightarrow> string option \<Rightarrow>
     (object_info list \<times> string option) + (object_info list \<times> string option)" where
  "add_matching L page [] items last_included = Inr (items, last_included)"
| "add_matching L page (ob # obs) items last_included =
     (if \<not> contains_search (obj_key ob) (op_search page) then add_matching L page obs items last_included
      else if length items \<ge> op_limit page then Inl (items, last_included)
      else add_matching L page obs (items @ [object_to_info L ob]) (Some (obj_key ob)))"

fun matching_loop ::
    "nat \<Rightarrow> admin_lib \<Rightarrow> string \<Rightarrow> object_page_params \<Rightarrow> object_info list \<Rightarrow> string option \<Rightarrow> string option \<Rightarrow>
     (object_info list \<times> string option) option io" where
  "matching_loop 0 L bucket page items marker last_included = return None"
| "matching_loop (Suc fuel) L bucket page items marker last_included =
     bind_io (list_objects bucket (op_prefix page) None marker (Some (op_limit page + 1))) (\<lambda>result.
     let marker = next_marker result in
     case add_matching L page (objects result) items last_included of
       Inl (items, last_included) \<Rightarrow> return (Some (items, last_included))
     | Inr (items, last_included) \<Rightarrow>
         if \<not> is_truncated result \<or> marker = None then return (Some (items, None))
         else matching_loop fuel L bucket page items marker last_included)"

definition list_matching_objects ::
    "admin_lib \<Rightarrow> string \<Rightarrow> object_page_params \<Rightarrow> (object_info list \<times> string option) io" where
  "list_matching_objects L bucket page =
     bind_io (gets (\<lambda>s. listing_fuel s bucket)) (\<lambda>fuel.
     bind_io (matching_loop fuel L bucket page [] (op_next page) None) (\<lambda>r.
     of_result (ok_or (InternalError ''listing did not end'') r)))"

definition admin_list_objects :: "admin_lib \<Rightarrow> string \<Rightarrow> string \<Rightarrow> admin_response io" where
  "admin_list_objects L bucket query =
     bind_io (of_result (parse_object_page_params (al_base64 L) (al_decode L) query KObjects)) (\<lambda>page.
     if op_search page \<noteq> None then
       bind_io (list_matching_objects L bucket page) (\<lambda>(items, next_page).
       return (Json 200 (ListObjects [] items (encode_object_next (al_base64 L) next_page KObjects))))
     else
       bind_io (gets (\<lambda>s. listing_fuel s bucket)) (\<lambda>fuel.
       bind_io (page_loop fuel L bucket page [] [] (op_next page) None) (\<lambda>r.
       bind_io (of_result (ok_or (InternalError ''listing did not end'') r)) (\<lambda>(folders, items, next_mark).
       let next_page = (if page_full page folders items then next_mark else None) in
       return (Json 200 (ListObjects folders items (encode_object_next (al_base64 L) next_page KObjects)))))))"

section \<open>Uploads\<close>

definition admin_list_multipart_uploads :: "admin_lib \<Rightarrow> string \<Rightarrow> string \<Rightarrow> admin_response io" where
  "admin_list_multipart_uploads L bucket query =
     bind_io (of_result (parse_page_params (al_base64 L) (al_decode L) query KMultipartUploads)) (\<lambda>page.
     bind_io (list_multipart_uploads bucket) (\<lambda>us.
     let found = filter (\<lambda>u. contains_search (upload_key u) (pp_search page) \<or> contains_search (upload_id u) (pp_search page))
           (sort_key (\<lambda>u. - initiated u) us);
         (items, next_page) = paginate found page
     in return (Json 200 (ListMultipartUploads items (encode_next (al_base64 L) next_page KMultipartUploads)))))"

definition admin_get_multipart_upload :: "string \<Rightarrow> string \<Rightarrow> admin_response io" where
  "admin_get_multipart_upload bucket uid =
     bind_io (get_multipart_upload bucket uid) (\<lambda>u. return (Json 200 (UploadBody u)))"

definition admin_abort_multipart_upload :: "string \<Rightarrow> string \<Rightarrow> admin_response io" where
  "admin_abort_multipart_upload bucket uid =
     then_io (abort_multipart_upload bucket uid) (return (Empty 204))"

section \<open>Objects\<close>

definition admin_get_object_metadata :: "admin_lib \<Rightarrow> string \<Rightarrow> string \<Rightarrow> admin_response io" where
  "admin_get_object_metadata L bucket key =
     bind_io (get_object bucket key) (\<lambda>ob. return (Json 200 (ObjectMetadata (object_to_metadata L ob))))"

definition admin_delete_object :: "string \<Rightarrow> string \<Rightarrow> admin_response io" where
  "admin_delete_object bucket key =
     then_io (ensure_admin_object_mutable bucket key True)
     (then_io (delete_object bucket key)
     (bind_io (list_object_versions_for_key bucket key) (\<lambda>versions.
      then_io (for_each (List.map_filter obj_version_id versions) (\<lambda>version_id.
        delete_object_version bucket key version_id))
      (return (Empty 204)))))"

definition admin_download_object_content :: "string \<Rightarrow> string \<Rightarrow> admin_response io" where
  "admin_download_object_content bucket key =
     bind_io (get_object bucket key) (\<lambda>ob. return (Content 200 (obj_content_type ob) (obj_data ob)))"

text \<open>User metadata from the headers; a header that repeats is overwritten by its last value.\<close>

definition admin_metadata :: "(string \<times> string option) list \<Rightarrow> strmap" where
  "admin_metadata hs =
     fold (\<lambda>(name, value) m.
       case (strip_prefix ''x-amz-meta-'' name, value) of
         (Some stripped, Some v) \<Rightarrow> m(stripped \<mapsto> v)
       | _ \<Rightarrow> m) hs Map.empty"

definition admin_content_type :: "(string \<times> string option) list \<Rightarrow> string" where
  "admin_content_type hs =
     (case map_of hs ''content-type'' of Some (Some v) \<Rightarrow> v | _ \<Rightarrow> ''application/octet-stream'')"

definition admin_put_object_content :: "admin_lib \<Rightarrow> string \<Rightarrow> string \<Rightarrow> admin_request \<Rightarrow> admin_response io" where
  "admin_put_object_content L bucket key req =
     then_io (validated (validate_blob_key key))
     (then_io (ensure_admin_object_mutable bucket key False)
     (bind_io (object_exists bucket key) (\<lambda>existed.
      case ar_body req of
        Err e \<Rightarrow> throw (InvalidRequest e)
      | Ok body \<Rightarrow>
          bind_io (gets ext) (\<lambda>x.
          bind_io now_io (\<lambda>now.
          then_io (put_object bucket key
            (new_with_metadata x key body (admin_content_type (ar_headers req)) (admin_metadata (ar_headers req)) now))
          (bind_io (get_object bucket key) (\<lambda>stored.
           return (Json (if existed then 200 else 201) (ObjectMetadata (object_to_metadata L stored)))))))))) "

definition version_info :: "admin_lib \<Rightarrow> string option \<Rightarrow> object \<Rightarrow> object_version_info" where
  "version_info L current_id ob =
     (let version_id = (case obj_version_id ob of Some v \<Rightarrow> v | None \<Rightarrow> []) in
      \<lparr>vi_key = obj_key ob, vi_version_id = version_id, vi_size = obj_size ob,
       vi_last_modified = al_rfc3339 L (obj_last_modified ob), vi_etag = obj_etag ob,
       vi_is_latest = (current_id = Some version_id)\<rparr>)"

definition admin_list_object_versions :: "admin_lib \<Rightarrow> string \<Rightarrow> string \<Rightarrow> string \<Rightarrow> admin_response io" where
  "admin_list_object_versions L bucket key query =
     bind_io (of_result (parse_page_params (al_base64 L) (al_decode L) query KVersions)) (\<lambda>page.
     bind_io (try_io (get_object bucket key)) (\<lambda>r.
     let current_id = (case r of Ok ob \<Rightarrow> obj_version_id ob | Err _ \<Rightarrow> None) in
     bind_io (list_object_versions_for_key bucket key) (\<lambda>vs.
     let found = map (version_info L current_id)
           (filter (\<lambda>ob. contains_search (obj_key ob) (pp_search page) \<or>
               is_some_and (obj_version_id ob) (\<lambda>v. contains_search v (pp_search page)))
             (sort_key (\<lambda>v. - obj_last_modified v) vs));
         (items, next_page) = paginate found page
     in return (Json 200 (ListVersions items (encode_next (al_base64 L) next_page KVersions))))))"

definition admin_get_object_tags :: "string \<Rightarrow> string \<Rightarrow> admin_response io" where
  "admin_get_object_tags bucket key = bind_io (get_object_tags bucket key) (\<lambda>t. return (Json 200 (Tags t)))"

definition admin_put_object_tags :: "admin_lib \<Rightarrow> string \<Rightarrow> string \<Rightarrow> admin_request \<Rightarrow> admin_response io" where
  "admin_put_object_tags L bucket key req =
     then_io (validated (validate_blob_key key))
     (bind_io (read_json (al_json_tags L) req) (\<lambda>tags.
      then_io (put_object_tags bucket key tags) (return (Json 200 (Tags tags)))))"

definition admin_get_object_acl :: "string \<Rightarrow> string \<Rightarrow> admin_response io" where
  "admin_get_object_acl bucket key = bind_io (get_object_acl bucket key) (\<lambda>a. return (Json 200 (AclBody a)))"

definition admin_set_object_acl :: "admin_lib \<Rightarrow> string \<Rightarrow> string \<Rightarrow> admin_request \<Rightarrow> admin_response io" where
  "admin_set_object_acl L bucket key req =
     then_io (validated (validate_blob_key key))
     (bind_io (read_json (al_json_acl L) req) (\<lambda>a.
      then_io (put_object_acl bucket key a) (return (Json 200 (AclBody a)))))"

definition admin_delete_object_version :: "string \<Rightarrow> string \<Rightarrow> string \<Rightarrow> admin_response io" where
  "admin_delete_object_version bucket key version_id =
     then_io (ensure_admin_object_mutable bucket key True)
     (then_io (delete_object_version bucket key version_id) (return (Empty 204)))"

section \<open>Dispatch\<close>

definition dispatch_object :: "admin_lib \<Rightarrow> admin_request \<Rightarrow> string \<Rightarrow> string \<Rightarrow> string \<Rightarrow> object_resource \<Rightarrow> admin_response io" where
  "dispatch_object L req query bucket key res =
     (let m = ar_method req;
          refuse = throw (MethodNotAllowed (m @ '' '' @ ar_path req))
      in case res of
        RContent \<Rightarrow>
          if m = ''GET'' then admin_download_object_content bucket key
          else if m = ''PUT'' then admin_put_object_content L bucket key req
          else refuse
      | RVersions \<Rightarrow> if m = ''GET'' then admin_list_object_versions L bucket key query else refuse
      | RVersion version_id \<Rightarrow> if m = ''DELETE'' then admin_delete_object_version bucket key version_id else refuse
      | RTags \<Rightarrow>
          if m = ''GET'' then admin_get_object_tags bucket key
          else if m = ''PUT'' then admin_put_object_tags L bucket key req
          else refuse
      | RAcl \<Rightarrow>
          if m = ''GET'' then admin_get_object_acl bucket key
          else if m = ''PUT'' then admin_set_object_acl L bucket key req
          else refuse
      | RMetadata \<Rightarrow>
          if m = ''GET'' then admin_get_object_metadata L bucket key
          else if m = ''DELETE'' then admin_delete_object bucket key
          else refuse)"

definition dispatch_bucket :: "admin_lib \<Rightarrow> admin_request \<Rightarrow> string \<Rightarrow> string \<Rightarrow> bucket_resource \<Rightarrow> admin_response io" where
  "dispatch_bucket L req query bucket res =
     (let m = ar_method req;
          refuse = throw (MethodNotAllowed (m @ '' '' @ ar_path req))
      in case res of
        BRoot \<Rightarrow>
          if m = ''GET'' then admin_get_bucket L bucket
          else if m = ''DELETE'' then admin_delete_bucket bucket
          else refuse
      | BVersioning \<Rightarrow>
          if m = ''GET'' then admin_get_bucket_versioning bucket
          else if m = ''PUT'' then admin_set_bucket_versioning L bucket req
          else refuse
      | BAcl \<Rightarrow>
          if m = ''GET'' then admin_get_bucket_acl bucket
          else if m = ''PUT'' then admin_set_bucket_acl L bucket req
          else refuse
      | BPolicy \<Rightarrow>
          if m = ''GET'' then admin_get_bucket_policy bucket
          else if m = ''PUT'' then admin_set_bucket_policy L bucket req
          else if m = ''DELETE'' then admin_delete_bucket_policy bucket
          else refuse
      | BLifecycle \<Rightarrow>
          if m = ''GET'' then admin_get_bucket_lifecycle bucket
          else if m = ''PUT'' then admin_set_bucket_lifecycle L bucket req
          else if m = ''DELETE'' then admin_delete_bucket_lifecycle bucket
          else refuse
      | BMultipartUploads \<Rightarrow> if m = ''GET'' then admin_list_multipart_uploads L bucket query else refuse
      | BMultipartUpload uid \<Rightarrow>
          if m = ''GET'' then admin_get_multipart_upload bucket uid
          else if m = ''DELETE'' then admin_abort_multipart_upload bucket uid
          else refuse
      | BObjects \<Rightarrow> if m = ''GET'' then admin_list_objects L bucket query else refuse
      | BObject key r \<Rightarrow> dispatch_object L req query bucket key r)"

definition admin_handle_request :: "admin_lib \<Rightarrow> admin_request \<Rightarrow> admin_response io" where
  "admin_handle_request L req =
     (let query = (case ar_query req of Some q \<Rightarrow> q | None \<Rightarrow> []) in
      bind_io (of_result (parse_route (al_decode L) (ar_path req))) (\<lambda>route.
      case route of
        RouteBuckets \<Rightarrow>
          if ar_method req = ''GET'' then admin_list_buckets L query
          else if ar_method req = ''POST'' then admin_create_bucket L req
          else throw (MethodNotAllowed (ar_path req))
      | RouteBucket bucket res \<Rightarrow> dispatch_bucket L req query bucket res))"

end
