(* ===== verification/Admin_Correct.thy ===== *)
theory Admin_Correct
  imports Admin_Api Lifecycle
begin

text \<open>
  The admin interface over the store: protected objects are refused, what is uploaded is what is
  downloaded, and listings show exactly the entries of the bucket, page by page.
\<close>

section \<open>Guards\<close>

text \<open>A bucket whose identity and metadata documents can be read.\<close>

definition bucket_readable :: "world \<Rightarrow> string \<Rightarrow> strmap \<Rightarrow> bool" where
  "bucket_readable s b md \<longleftrightarrow>
     bucket_exists s b \<and>
     (\<exists>identity. file_content s (bucket_dir s b @ [''.bucket.identity.json'']) = Some (IdentityJson identity)) \<and>
     (if path_exists s (bucket_metadata_path s b) then file_content s (bucket_metadata_path s b) = Some (StrMapJson md)
      else md = Map.empty)"

lemma documents_readable: "bucket_documents s b md config \<Longrightarrow> bucket_readable s b md"
  by (simp add: bucket_documents_def bucket_readable_def)

abbreviation tick :: "nat \<Rightarrow> world \<Rightarrow> world" where
  "tick n s \<equiv> s\<lparr>clock_count := clock_count s + n\<rparr>"

lemma undisturbed_tick: "store_ok s \<Longrightarrow> faults s = [] \<Longrightarrow> undisturbed s (tick n s)"
  by (simp add: undisturbed_def same_objects_def control_same_def rest_same_def)

lemma bucket_guard_run:
  assumes "bucket_readable s b md"
  shows "ensure_admin_bucket_mutable b s =
    (if foreign_protection md then Failed AccessDenied else Done (), tick 1 s)"
proof -
  have "read_bucket_metadata b (tick 1 s) = (Done md, tick 1 s)"
    using assms by (auto simp: bucket_readable_def read_bucket_metadata_def bucket_metadata_path_def bucket_dir_def bind_io_def gets_def
        return_def read_file_def file_content_def path_exists_def split: if_splits)
  with assms show ?thesis
    by (auto simp: ensure_admin_bucket_mutable_def bucket_readable_def foreign_provider_data_protection_active_def get_bucket_def
        require_bucket_def bind_io_def gets_def guard_io_def return_def throw_def read_bucket_identity_locked_def read_file_def
        file_content_exists now_io_def)
qed

text \<open>The verdict of the guard on the current object.\<close>

lemma object_guard_run:
  assumes ok: "store_ok s" "faults s = []" and doc: "bucket_readable s b md"
    and now: "now = ext_now (ext s) (Suc (clock_count s))"
  obtains s1 where "undisturbed s s1"
    "ensure_admin_object_mutable b k False s =
      (if foreign_protection md \<or> is_some_and (current (object_state s b k)) (\<lambda>ob. object_has_active_data_protection (ext s) ob now)
       then Failed AccessDenied else Done (), s1)"
    "foreign_protection md \<or> is_some_and (current (object_state s b k)) (\<lambda>ob. object_has_active_data_protection (ext s) ob now) \<Longrightarrow>
      ensure_admin_object_mutable b k True s = (Failed AccessDenied, s1)"
proof (cases "foreign_protection md")
  case True
  then show ?thesis
    using that [of "tick 1 s"] bucket_guard_run [OF doc] undisturbed_tick [OF ok, of 1]
    by (simp add: ensure_admin_object_mutable_def bind_io_def)
next
  case False
  let ?t = "tick 2 s"
  have u0: "undisturbed s ?t" using undisturbed_tick [OF ok] .
  obtain s1 where s1: "read_object_metadata_locked b k ?t =
      (read_outcome (map_option serialize_object (held ?t (object_dir ?t b k))), s1)" "undisturbed ?t s1"
    using read_metadata_spec [OF undisturbed_facts(1,2) [OF u0]] .
  have held: "held ?t (object_dir ?t b k) = current (object_state s b k)"
    using undisturbed_facts(4,5) [OF u0] by (simp add: object_state_def)
  have start: "ensure_admin_object_mutable b k v s =
      then_io (bind_io (try_io (get_object_metadata b k)) (\<lambda>r.
         case r of
           Ok ob \<Rightarrow> if object_has_active_data_protection (ext s) ob now then throw AccessDenied else return ()
         | Err e \<Rightarrow> if e = KeyNotFound then return () else throw e))
        (if v
         then bind_io (list_object_versions_for_key b k) (\<lambda>versions.
              if list_ex (\<lambda>version. object_has_active_data_protection (ext s) version now) versions
              then throw AccessDenied else return ())
         else return ()) ?t" for v
    using bucket_guard_run [OF doc] False unfolding now
    by (simp add: ensure_admin_object_mutable_def bind_io_def [of "ensure_admin_bucket_mutable b"] bind_io_def [of now_io]
        bind_io_def [of "gets ext"] gets_def now_io_def)
  have u: "undisturbed s s1" using undisturbed_trans [OF u0 s1(2)] .
  show ?thesis
    by (rule that [OF u]; cases "current (object_state s b k)")
      (use False s1(1) held in \<open>simp_all add: start get_object_metadata_def try_io_def bind_io_def return_def throw_def is_some_and_def\<close>)
qed

text \<open>
  C33. Protected data survives the admin interface. While an object is under a legal hold, a retention
  period or a lease, or its bucket under the protection of another provider, every admin request that
  would overwrite it, delete it or delete one of its versions is answered with access denied and
  changes no object, version or document.
\<close>

theorem admin_protected_refused:
  assumes "store_ok s" and "faults s = []" and "bucket_readable s b md"
    and "foreign_protection md \<or>
      is_some_and (current (object_state s b k))
        (\<lambda>ob. object_has_active_data_protection (ext s) ob (ext_now (ext s) (Suc (clock_count s))))"
    and "parse_route (al_decode L) (ar_path req) = Ok (RouteBucket b (BObject k res))" and "validate_blob_key k = Ok ()"
    and "(ar_method req, res) \<in> {(''PUT'', RContent), (''DELETE'', RMetadata)} \<union> {''DELETE''} \<times> range RVersion"
  shows "\<exists>s1. admin_handle_request L req s = (Failed AccessDenied, s1) \<and> undisturbed s s1"
proof -
  obtain s1 where u: "undisturbed s s1" and g: "ensure_admin_object_mutable b k False s = (Failed AccessDenied, s1)"
    "ensure_admin_object_mutable b k True s = (Failed AccessDenied, s1)"
    by (rule object_guard_run [OF assms(1-3) refl, of k]) (use assms(4) in \<open>simp only: if_True simp_thms\<close>)
  have put: "admin_put_object_content L b k req s = (Failed AccessDenied, s1)"
    using assms(6) g by (simp add: admin_put_object_content_def validated_def bind_io_def return_def)
  have del: "admin_delete_object b k s = (Failed AccessDenied, s1)" "admin_delete_object_version b k v s = (Failed AccessDenied, s1)" for v
    using g by (simp_all add: admin_delete_object_def admin_delete_object_version_def bind_io_def)
  from assms(7) consider "ar_method req = ''PUT''" "res = RContent" | "ar_method req = ''DELETE''" "res = RMetadata"
    | v where "ar_method req = ''DELETE''" "res = RVersion v" by blast
  then have "dispatch_object L req q b k res s = (Failed AccessDenied, s1)" for q
    by cases (simp_all add: dispatch_object_def put del)
  then have "admin_handle_request L req s = (Failed AccessDenied, s1)"
    by (simp add: admin_handle_request_def assms(5) dispatch_bucket_def of_result_def bind_io_def return_def)
  with u show ?thesis by blast
qed

section \<open>Uploads and downloads\<close>

lemma object_exists_run:
  assumes "store_ok s" and "faults s = []"
  obtains s1 where "object_exists b k s = (Done (current (object_state s b k) \<noteq> None), s1)" "undisturbed s s1"
proof -
  obtain s1 where s1: "recover_publication (object_dir s b k) s = (Done (), s1)" "undisturbed s s1"
    "sound_dir s1 (object_dir s b k)" "held s1 (object_dir s b k) = held s (object_dir s b k)"
    using recover_current [OF assms] .
  have "path_exists s1 (object_dir s b k @ [BLOB]) \<longleftrightarrow> held s (object_dir s b k) \<noteq> None"
    using s1(3) by (cases rule: sound_read) (simp_all add: s1(4) [symmetric])
  with s1 show ?thesis using that by (simp add: object_exists_def bind_io_def gets_def object_state_def)
qed

lemma get_object_run:
  assumes "store_ok s" and "faults s = []"
  obtains s1 where "get_object b k s = (read_outcome (current (object_state s b k)), s1)" "undisturbed s s1"
  using read_object_spec [OF assms, of b k] by (auto simp: get_object_def object_state_def)

text \<open>What an upload stores, up to the version identifier.\<close>

abbreviation uploaded :: "externs \<Rightarrow> admin_request \<Rightarrow> string \<Rightarrow> bytes \<Rightarrow> datetime \<Rightarrow> object" where
  "uploaded x req k data now \<equiv>
     new_with_metadata x k data (admin_content_type (ar_headers req)) (admin_metadata (ar_headers req)) now"

lemma admin_put_run:
  assumes ok: "store_ok s" "faults s = []" and doc: "bucket_readable s b md" "\<not> foreign_protection md"
    and free: "\<not> is_some_and (current (object_state s b k)) (\<lambda>ob. object_has_active_data_protection (ext s) ob (ext_now (ext s) (Suc (clock_count s))))"
    and key: "validate_blob_key k = Ok ()" and body: "ar_body req = Ok data"
  obtains s1 ob now v where "ob = (uploaded (ext s) req k data now)\<lparr>obj_version_id := v\<rparr>"
    "admin_put_object_content L b k req s =
      (Done (Json (if current (object_state s b k) = None then 201 else 200) (ObjectMetadata (object_to_metadata L ob))), s1)"
    "store_ok s1" "faults s1 = []" "current (object_state s1 b k) = Some ob"
    "\<forall>b' k'. object_dir s b' k' \<noteq> object_dir s b k \<longrightarrow> object_state s1 b' k' = object_state s b' k'"
proof -
  obtain t1 where t1: "undisturbed s t1" "ensure_admin_object_mutable b k False s = (Done (), t1)"
    by (rule object_guard_run [OF ok doc(1) refl, of k]) (use doc(2) free in simp)
  note f1 = undisturbed_facts [OF t1(1)]
  obtain t2 where t2: "object_exists b k t1 = (Done (current (object_state s b k) \<noteq> None), t2)" "undisturbed t1 t2"
    using object_exists_run [OF f1(1,2), of b k] object_state_undisturbed [OF t1(1)] by metis
  have u2: "undisturbed s t2" using undisturbed_trans [OF t1(1) t2(2)] .
  note f2 = undisturbed_facts [OF u2]
  let ?now = "ext_now (ext s) (clock_count t2)" and ?t3 = "tick 1 t2"
  have x: "ext t2 = ext s" using f2(3) by (simp add: rest_same_def)
  let ?ob = "uploaded (ext s) req k data ?now"
  have u3: "undisturbed s ?t3" using undisturbed_trans [OF u2 undisturbed_tick [OF f2(1,2)]] .
  note f3 = undisturbed_facts [OF u3]
  obtain r t4 where put: "put_object b k ?ob ?t3 = (r, t4)" by force
  have ex: "bucket_exists ?t3 b" using f3(7) doc(1) by (simp add: bucket_readable_def)
  have len: "obj_size ?ob = length (obj_data ?ob)" by (simp add: new_with_metadata_def new_with_metadata_and_etag_def)
  note P = put_object_done [OF f3(1,2) ex len put]
  then obtain v where v: "current (object_state t4 b k) = Some (?ob\<lparr>obj_version_id := v\<rparr>)"
    using spec_put_current by metis
  obtain t5 where get: "get_object b k t4 = (Done (?ob\<lparr>obj_version_id := v\<rparr>), t5)" "undisturbed t4 t5"
    using get_object_run [of t4 b k] P v by auto
  note f5 = undisturbed_facts [OF get(2)]
  have run: "admin_put_object_content L b k req s =
      (Done (Json (if current (object_state s b k) = None then 201 else 200) (ObjectMetadata (object_to_metadata L (?ob\<lparr>obj_version_id := v\<rparr>)))), t5)"
    using key t1(2) t2(1) body put P get(1)
    by (simp add: admin_put_object_content_def validated_def bind_io_def return_def gets_def now_io_def x)
  have cur: "current (object_state t5 b k) = Some (?ob\<lparr>obj_version_id := v\<rparr>)" using v object_state_undisturbed [OF get(2)] by simp
  have others: "object_state t5 b' k' = object_state s b' k'" if "object_dir s b' k' \<noteq> object_dir s b k" for b' k'
  proof -
    have "object_dir ?t3 b' k' \<noteq> object_dir ?t3 b k" using that f3(4) by simp
    then have "object_state t4 b' k' = object_state ?t3 b' k'" using P only_object_others by blast
    then show ?thesis using object_state_undisturbed [OF get(2)] object_state_undisturbed [OF u3] by simp
  qed
  show ?thesis by (rule that [OF refl run f5(1,2) cur]) (use others in blast)
qed

text \<open>
  C34. Upload and download. An upload through the admin interface to an unprotected key succeeds with
  status 201 for a new object and 200 for a replaced one, reports the metadata it stored, and leaves
  every other object alone; a download of the same path then returns exactly the uploaded bytes with
  the content type of the request.
\<close>

theorem admin_put_download:
  assumes "store_ok s" and "faults s = []" and "bucket_readable s b md" and "\<not> foreign_protection md"
    and "\<not> is_some_and (current (object_state s b k))
        (\<lambda>ob. object_has_active_data_protection (ext s) ob (ext_now (ext s) (Suc (clock_count s))))"
    and "validate_blob_key k = Ok ()" and "parse_route (al_decode L) pth = Ok (RouteBucket b (BObject k RContent))"
    and "ar_path req = pth" and "ar_method req = ''PUT''" and "ar_body req = Ok data"
    and "ar_path req' = pth" and "ar_method req' = ''GET''"
  shows "\<exists>s1 s2 ob. admin_handle_request L req s =
      (Done (Json (if current (object_state s b k) = None then 201 else 200) (ObjectMetadata (object_to_metadata L ob))), s1) \<and>
    obj_size ob = length data \<and> obj_etag ob = compute_etag (ext s) data \<and> obj_metadata ob = admin_metadata (ar_headers req) \<and>
    admin_handle_request L req' s1 = (Done (Content 200 (admin_content_type (ar_headers req)) data), s2) \<and>
    (\<forall>b' k'. object_dir s b' k' \<noteq> object_dir s b k \<longrightarrow> object_state s2 b' k' = object_state s b' k')"
proof -
  obtain s1 ob now v where R: "ob = (uploaded (ext s) req k data now)\<lparr>obj_version_id := v\<rparr>"
    "admin_put_object_content L b k req s =
      (Done (Json (if current (object_state s b k) = None then 201 else 200) (ObjectMetadata (object_to_metadata L ob))), s1)"
    "store_ok s1" "faults s1 = []" "current (object_state s1 b k) = Some ob"
    "\<forall>b' k'. object_dir s b' k' \<noteq> object_dir s b k \<longrightarrow> object_state s1 b' k' = object_state s b' k'"
    using admin_put_run [OF assms(1-6,10), where L = L] .
  obtain s2 where s2: "get_object b k s1 = (Done ob, s2)" "undisturbed s1 s2"
    using get_object_run [OF R(3,4), of b k] R(5) by auto
  have "admin_handle_request L req s = admin_put_object_content L b k req s"
    by (simp add: admin_handle_request_def assms dispatch_bucket_def dispatch_object_def of_result_def bind_io_def return_def)
  moreover have "admin_handle_request L req' s1 = admin_download_object_content b k s1"
    by (simp add: admin_handle_request_def assms dispatch_bucket_def dispatch_object_def of_result_def bind_io_def return_def)
  moreover have "admin_download_object_content b k s1 = (Done (Content 200 (admin_content_type (ar_headers req)) data), s2)"
    using s2(1) by (simp add: admin_download_object_content_def bind_io_def return_def R(1) new_with_metadata_def new_with_metadata_and_etag_def)
  ultimately show ?thesis
    using R(2,6) object_state_undisturbed [OF s2(2)] by (auto simp: R(1) new_with_metadata_def new_with_metadata_and_etag_def)
qed

section \<open>Listings\<close>

text \<open>
  What a search shows: the objects whose key contains the text, up to the size of the page, and the
  last shown key as the token when another object matches.
\<close>

definition search_page ::
    "admin_lib \<Rightarrow> object_page_params \<Rightarrow> object list \<Rightarrow> object_info list \<times> string option" where
  "search_page L page obs =
     (let found = filter (\<lambda>ob. contains_search (obj_key ob) (op_search page)) obs in
      (map (object_to_info L) (take (op_limit page) found),
       if op_limit page < length found then Some (obj_key (found ! (op_limit page - 1))) else None))"

text \<open>The key of the last object found so far.\<close>

definition last_key :: "object list \<Rightarrow> string option" where
  "last_key found = (if found = [] then None else Some (obj_key (last found)))"

lemma add_matching_eq:
  assumes "length seen \<le> op_limit page"
  shows "add_matching L page obs (map (object_to_info L) seen) (last_key seen) =
    (let found = seen @ filter (\<lambda>ob. contains_search (obj_key ob) (op_search page)) obs in
     if op_limit page < length found
     then Inl (map (object_to_info L) (take (op_limit page) found), last_key (take (op_limit page) found))
     else Inr (map (object_to_info L) found, last_key found))"
  using assms
proof (induction obs arbitrary: seen)
  case (Cons ob obs)
  let ?P = "\<lambda>ob. contains_search (obj_key ob) (op_search page)"
  show ?case
  proof (cases "?P ob")
    case True
    show ?thesis
    proof (cases "length seen < op_limit page")
      case room: True
      with Cons.IH [of "seen @ [ob]"] True show ?thesis by (simp add: last_key_def Let_def)
    next
      case False
      with Cons.prems have "length seen = op_limit page" by simp
      with True show ?thesis by (simp add: Let_def)
    qed
  next
    case False
    with Cons show ?thesis by (simp add: Let_def)
  qed
qed (simp add: Let_def)

lemma map_filter_append: "List.map_filter f (xs @ ys) = List.map_filter f xs @ List.map_filter f ys"
  by (simp add: List.map_filter_def)

lemma listed_objects: "objects (page_of f n (map (\<lambda>k. \<lparr>path = k, kind = ObjectEntry\<rparr>) ks)) = List.map_filter f (take n ks)"
  by (simp add: page_of_def list_if_filter take_map comp_def)

lemma matching_loop_run:
  assumes "listable s b" and "length seen \<le> op_limit page" and "op_limit page + 1 < u64_max"
    and "length (all_entries s b (op_prefix page) None marker) < fuel"
  shows "\<exists>s1. undisturbed s s1 \<and>
    matching_loop fuel L b page (map (object_to_info L) seen) marker (last_key seen) s =
      (let found = seen @ filter (\<lambda>ob. contains_search (obj_key ob) (op_search page))
             (List.map_filter (stored_metadata s b) (map path (all_entries s b (op_prefix page) None marker)))
       in Done (Some (if op_limit page < length found
                      then (map (object_to_info L) (take (op_limit page) found), last_key (take (op_limit page) found))
                      else (map (object_to_info L) found, None))), s1)"
  using assms
proof (induction fuel arbitrary: s seen marker)
  case (Suc fuel)
  let ?es = "all_entries s b (op_prefix page) None marker" and ?n = "op_limit page + 1"
  let ?P = "\<lambda>ob. contains_search (obj_key ob) (op_search page)"
  let ?f = "\<lambda>es. filter ?P (List.map_filter (stored_metadata s b) (map path es))"
  obtain s1 where s1: "list_objects b (op_prefix page) None marker (Some ?n) s = (Done (page_of (stored_metadata s b) ?n ?es), s1)"
    "undisturbed s s1"
    using listable_page [OF Suc.prems(1,3)] .
  obtain ks where ks: "?es = map (\<lambda>k. \<lparr>path = k, kind = ObjectEntry\<rparr>) ks" by (simp add: all_entries_def)
  then have objs: "objects (page_of (stored_metadata s b) ?n ?es) = List.map_filter (stored_metadata s b) (map path (take ?n ?es))"
    by (simp add: listed_objects take_map comp_def)
  let ?here = "seen @ ?f (take ?n ?es)" and ?all = "seen @ ?f ?es"
  have split: "?all = ?here @ ?f (drop ?n ?es)"
    by (metis append_assoc append_take_drop_id filter_append map_append map_filter_append)
  note add = add_matching_eq [OF Suc.prems(2), of L "List.map_filter (stored_metadata s b) (map path (take ?n ?es))"]
  show ?case
  proof (cases "op_limit page < length ?here")
    case True
    then have "op_limit page < length ?all" "take (op_limit page) ?all = take (op_limit page) ?here" unfolding split by simp_all
    then show ?thesis using True s1 add objs
      by (auto simp: bind_io_def return_def Let_def simp del: append_assoc)
  next
    case full: False
    show ?thesis
    proof (cases "?n < length ?es")
      case True
      obtain m where m: "next_marker (page_of (stored_metadata s b) ?n ?es) = Some m"
        using True by (simp add: page_of_def next_page_marker_def)
      have nx: "all_entries s b (op_prefix page) None (Some m) = drop ?n ?es"
        using all_entries_next [of ?n s b "op_prefix page" None marker m] m by (simp add: page_of_def)
      note same = listable_undisturbed [OF s1(2) Suc.prems(1)]
      have "length (all_entries s1 b (op_prefix page) None (Some m)) < fuel"
        using Suc.prems(4) True by (simp add: same nx)
      from Suc.IH [OF same(1) _ Suc.prems(3) this, of ?here] full obtain s2 where
        s2: "undisturbed s1 s2" "matching_loop fuel L b page (map (object_to_info L) ?here) (Some m) (last_key ?here) s1 =
          (Done (Some (if op_limit page < length ?all
                      then (map (object_to_info L) (take (op_limit page) ?all), last_key (take (op_limit page) ?all))
                      else (map (object_to_info L) ?all, None))), s2)"
        unfolding same nx split Let_def by (auto simp del: append_assoc)
      have "matching_loop (Suc fuel) L b page (map (object_to_info L) seen) marker (last_key seen) s =
          matching_loop fuel L b page (map (object_to_info L) ?here) (Some m) (last_key ?here) s1"
        using s1(1) add full objs m True by (simp add: bind_io_def Let_def page_of_def)
      with s2 undisturbed_trans [OF s1(2) s2(1)] show ?thesis by (auto simp: Let_def)
    next
      case False
      then have "take ?n ?es = ?es" by simp
      with full s1 add objs False show ?thesis
        by (auto simp: bind_io_def return_def Let_def page_of_def)
    qed
  qed
qed simp

lemma all_entries_fuel:
  assumes "listable s b"
  shows "length (all_entries s b pfx None marker) < listing_fuel s b"
proof -
  have "length (filter Q (sorted_list_of_set (lfi_keys (st_index s) b))) \<le> length (list_prefix_marker (st_index s) b None None None)" for Q
    using list_prefix_marker_eq [of "st_index s" b None None None] assms
    by (simp add: listable_def take_limit_def key_selected_def length_filter_le [THEN order_trans])
  from this [of "key_selected pfx marker"] show ?thesis by (simp add: all_entries_def listing_fuel_def)
qed

lemma list_matching_run:
  assumes "listable s b" and "0 < op_limit page" and "op_limit page + 1 < u64_max"
  obtains s1 where "undisturbed s s1" "list_matching_objects L b page s =
    (Done (search_page L page (List.map_filter (stored_metadata s b) (map path (all_entries s b (op_prefix page) None (op_next page))))), s1)"
proof -
  let ?found = "filter (\<lambda>ob. contains_search (obj_key ob) (op_search page))
    (List.map_filter (stored_metadata s b) (map path (all_entries s b (op_prefix page) None (op_next page))))"
  have last: "last_key (take (op_limit page) ?found) = Some (obj_key (?found ! (op_limit page - 1)))"
    if "op_limit page < length ?found"
  proof -
    have "take (op_limit page) ?found \<noteq> []" using that assms(2) by (cases ?found) auto
    moreover have "last (take (op_limit page) ?found) = ?found ! (op_limit page - 1)"
      using that assms(2) by (subst last_conv_nth) auto
    ultimately show ?thesis by (simp add: last_key_def)
  qed
  obtain s1 where "undisturbed s s1" "matching_loop (listing_fuel s b) L b page [] (op_next page) None s =
      (Done (Some (if op_limit page < length ?found
                   then (map (object_to_info L) (take (op_limit page) ?found), last_key (take (op_limit page) ?found))
                   else (map (object_to_info L) ?found, None))), s1)"
    using matching_loop_run [OF assms(1) _ assms(3) all_entries_fuel [OF assms(1)], of "[]" L]
    by (auto simp: last_key_def Let_def)
  then show ?thesis
    using that last by (auto simp: list_matching_objects_def bind_io_def gets_def of_result_def return_def search_page_def Let_def)
qed

text \<open>What a folder view shows: the folders and objects among the next entries, and the token of the last one.\<close>

definition folder_page ::
    "admin_lib \<Rightarrow> object_page_params \<Rightarrow> (string \<Rightarrow> object option) \<Rightarrow> directory_entry list \<Rightarrow>
     object_folder_info list \<times> object_info list \<times> string option" where
  "folder_page L page stored es =
     (let shown = take (op_limit page) es in
      (map (\<lambda>e. common_prefix_to_folder_info (path e) (case op_prefix page of Some p \<Rightarrow> p | None \<Rightarrow> []))
         (filter (\<lambda>e. kind e = CommonPrefix) shown),
       map (object_to_info L) (List.map_filter stored (map path (filter (\<lambda>e. kind e = ObjectEntry) shown))),
       if op_limit page < length es then Some (path (es ! (op_limit page - 1))) else None))"

lemma take_while_room_all: "(\<And>x. x \<in> set xs \<Longrightarrow> P x) \<Longrightarrow> take_while_room n P xs = take n xs"
proof (induction n P xs rule: take_while_room.induct)
  case (2 room P x xs)
  then show ?case by (cases room) auto
qed simp

lemma entries_split: "length (filter (\<lambda>e. kind e = CommonPrefix) es) + length (filter (\<lambda>e. kind e = ObjectEntry) es) = length es"
proof (induction es)
  case (Cons e es)
  then show ?case by (cases "kind e") auto
qed simp

lemma stored_entries:
  assumes "listable s b" and "e \<in> set (all_entries s b pfx (Some ''/'') marker)" and "kind e = ObjectEntry"
  shows "stored_metadata s b (path e) \<noteq> None"
proof -
  let ?p = "case pfx of Some p \<Rightarrow> p | None \<Rightarrow> []" and ?K = "lfi_keys (st_index s) b"
  let ?D = "delimited_paths (has_metadata s b) ?K ?p ''/''"
  obtain q where q: "e = delimited_entry ?p ''/'' q" "q \<in> set (sorted_list_of_set ?D)"
    using assms(2) by (auto simp: all_entries_def Let_def)
  then have "q \<in> ?D" by (metis empty_iff sorted_list_of_set.fold_insort_key.infinite list.set(1) set_sorted_list_of_set)
  then obtain k where "prefix ?p k" "q = path (delimited_entry ?p ''/'' k)"
    "kind (delimited_entry ?p ''/'' k) = ObjectEntry \<longrightarrow> has_metadata s b q"
    by (auto simp: delimited_paths_def)
  then have "has_metadata s b (path e)" using q(1) assms(3) delimited_entry_path [of ?p k "''/''"] by simp
  then show ?thesis
    using assms(1) has_metadata_current by (auto simp: listable_def stored_metadata_def object_state_def)
qed

lemma length_map_filter: "(\<And>x. x \<in> set xs \<Longrightarrow> f x \<noteq> None) \<Longrightarrow> length (List.map_filter f xs) = length xs"
  by (induction xs) (auto simp: List.map_filter_def)

text \<open>Without a search one round of the loop fills the page or ends the listing.\<close>

lemma page_loop_run:
  assumes "listable s b" and "0 < op_limit page" and "op_limit page < u64_max" and "op_search page = None"
  obtains s1 where "undisturbed s s1" "page_loop (Suc fuel) L b page [] [] (op_next page) None s =
    (Done (Some (folder_page L page (stored_metadata s b) (all_entries s b (op_prefix page) (Some ''/'') (op_next page)))), s1)"
proof -
  let ?es = "all_entries s b (op_prefix page) (Some ''/'') (op_next page)" and ?n = "op_limit page"
  let ?f = "stored_metadata s b" and ?res = "page_of (stored_metadata s b) (op_limit page) (all_entries s b (op_prefix page) (Some ''/'') (op_next page))"
  obtain s1 where s1: "list_objects b (op_prefix page) (Some ''/'') (op_next page) (Some ?n) s = (Done ?res, s1)" "undisturbed s s1"
    using listable_page [OF assms(1,3)] .
  let ?c = "filter (\<lambda>e. kind e = CommonPrefix) (take ?n ?es)" and ?o = "filter (\<lambda>e. kind e = ObjectEntry) (take ?n ?es)"
  have len: "length ?c + length ?o = min ?n (length ?es)" using entries_split [of "take ?n ?es"] by simp
  have stored: "length (List.map_filter ?f (map path ?o)) = length ?o"
    using stored_entries [OF assms(1)] by (subst length_map_filter) (auto dest: in_set_takeD)
  obtain fs os nx where fp: "folder_page L page ?f ?es = (fs, os, nx)" by (metis prod_cases3)
  have add: "add_listed L page ?res [] [] = (fs, os)"
    using fp len stored assms(4)
    by (simp add: add_listed_def page_of_def list_if_filter take_while_room_all contains_search_def folder_page_def Let_def comp_def)
  have full: "page_full page fs os \<longleftrightarrow> ?n \<le> length ?es"
    using fp len stored by (auto simp: page_full_def folder_page_def Let_def)
  have "last (take ?n (map path ?es)) = path (?es ! (?n - 1))" if "?n < length ?es"
    using that assms(2) by (subst last_conv_nth) auto
  then have nx: "nx = (if ?n < length ?es then next_marker ?res else None)"
    using fp assms(2) by (auto simp: folder_page_def page_of_def next_page_marker_def Let_def)
  have "\<not> page_full page [] []" using assms(2) by (simp add: page_full_def)
  then have "page_loop (Suc fuel) L b page [] [] (op_next page) None s = (Done (Some (fs, os, nx)), s1)"
    using s1(1) add full nx by (auto simp: bind_io_def return_def page_of_def)
  then show ?thesis using that s1(2) fp by simp
qed

text \<open>
  C35. Object listings of the admin interface. For a bucket at rest and a well-formed query, a search
  answers with the first objects below the prefix whose key contains the text, wherever they stand in
  the bucket; without a search the answer holds the next folders and objects of the folder view. A
  token is sent exactly when something is left, and it names the last entry shown. The listing always
  ends and changes nothing that is stored.
\<close>

theorem admin_list_objects_spec:
  assumes "listable s b" and "parse_object_page_params (al_base64 L) (al_decode L) query KObjects = Ok page"
  shows "\<exists>s1. undisturbed s s1 \<and> admin_list_objects L b query s =
    (Done (Json 200
      (if op_search page = None
       then case folder_page L page (stored_metadata s b) (all_entries s b (op_prefix page) (Some ''/'') (op_next page)) of
         (folders, items, tok) \<Rightarrow> ListObjects folders items (encode_object_next (al_base64 L) tok KObjects)
       else case search_page L page (List.map_filter (stored_metadata s b)
              (map path (all_entries s b (op_prefix page) None (op_next page)))) of
         (items, tok) \<Rightarrow> ListObjects [] items (encode_object_next (al_base64 L) tok KObjects))), s1)"
proof -
  have lim: "0 < op_limit page" "op_limit page + 1 < u64_max" "op_limit page < u64_max"
    using assms(2) by (auto simp: parse_object_page_params_def parse_limit_def bind_result_Ok u64_max_def Let_def split: if_splits)
  show ?thesis
  proof (cases "op_search page = None")
    case True
    obtain n where n: "listing_fuel s b = Suc n" by (simp add: listing_fuel_def)
    let ?es = "all_entries s b (op_prefix page) (Some ''/'') (op_next page)"
    obtain s1 where s1: "undisturbed s s1" "page_loop (listing_fuel s b) L b page [] [] (op_next page) None s =
        (Done (Some (folder_page L page (stored_metadata s b) ?es)), s1)"
      using page_loop_run [OF assms(1) lim(1,3) True, of n L] n by metis
    obtain fs os tok where fp: "folder_page L page (stored_metadata s b) ?es = (fs, os, tok)" by (metis prod_cases3)
    have "tok \<noteq> None \<Longrightarrow> page_full page fs os"
    proof -
      assume "tok \<noteq> None"
      then have more: "op_limit page < length ?es" using fp by (auto simp: folder_page_def Let_def split: if_splits)
      let ?o = "filter (\<lambda>e. kind e = ObjectEntry) (take (op_limit page) ?es)"
      have "length (List.map_filter (stored_metadata s b) (map path ?o)) = length ?o"
        using stored_entries [OF assms(1)] by (subst length_map_filter) (auto dest: in_set_takeD)
      then show ?thesis using fp more entries_split [of "take (op_limit page) ?es"]
        by (auto simp: page_full_def folder_page_def Let_def)
    qed
    then have "(if page_full page fs os then tok else None) = tok" by (cases tok) auto
    with s1 True fp show ?thesis
      by (auto simp: admin_list_objects_def assms(2) bind_io_def of_result_def return_def gets_def Let_def)
  next
    case False
    obtain s1 where s1: "undisturbed s s1" "list_matching_objects L b page s =
        (Done (search_page L page (List.map_filter (stored_metadata s b) (map path (all_entries s b (op_prefix page) None (op_next page))))), s1)"
      using list_matching_run [OF assms(1) lim(1,2)] .
    with False show ?thesis
      by (auto simp: admin_list_objects_def assms(2) bind_io_def of_result_def return_def split: prod.split)
  qed
qed

section \<open>Concrete requests\<close>

definition sample_admin_lib :: admin_lib where
  "sample_admin_lib =
     \<lparr>al_base64 = sample_base64, al_decode = Some, al_rfc3339 = (\<lambda>_. ''t''), al_json_name = (\<lambda>_. Err ''json''),
      al_json_enabled = (\<lambda>_. Err ''json''), al_json_acl = (\<lambda>_. Err ''json''), al_json_policy = (\<lambda>_. Err ''json''),
      al_json_lifecycle = (\<lambda>_. Err ''json''), al_json_tags = (\<lambda>_. Err ''json'')\<rparr>"

definition sample_admin_request :: "string \<Rightarrow> string \<Rightarrow> bytes \<Rightarrow> admin_request" where
  "sample_admin_request m p data =
     \<lparr>ar_method = m, ar_path = p, ar_query = None, ar_headers = [(''content-type'', Some ''text/plain'')], ar_body = Ok data\<rparr>"

lemma sample_request_simps [simp]:
  "al_decode sample_admin_lib = Some" "ar_method (sample_admin_request m p d) = m" "ar_path (sample_admin_request m p d) = p"
  "ar_body (sample_admin_request m p d) = Ok d" "ar_headers (sample_admin_request m p d) = [(''content-type'', Some ''text/plain'')]"
  by (simp_all add: sample_admin_lib_def sample_admin_request_def)

lemma sample_routes:
  "parse_route Some ''/admin/v1/buckets/xyz/objects/k'' = Ok (RouteBucket ''xyz'' (BObject ''k'' RMetadata))"
  "parse_route Some ''/admin/v1/buckets/xyz/objects/k/content'' = Ok (RouteBucket ''xyz'' (BObject ''k'' RContent))"
  by code_simp+

lemma sample_key: "validate_blob_key ''k'' = Ok ()"
  by (simp add: validate_blob_key_def)

lemma not_foreign_empty: "\<not> foreign_protection Map.empty"
  by (simp add: foreign_protection_def is_some_and_def positive_duration_or_invalid_def)

theorem admin_protected_refused_witness:
  "\<exists>s s1. current (object_state s ''xyz'' ''k'') \<noteq> None \<and>
     admin_handle_request sample_admin_lib (sample_admin_request ''DELETE'' ''/admin/v1/buckets/xyz/objects/k'' []) s = (Failed AccessDenied, s1) \<and>
     current (object_state s1 ''xyz'' ''k'') \<noteq> None"
proof -
  let ?held = "sample_object [1] None\<lparr>obj_provider_metadata := [''s3_object_lock_legal_hold'' \<mapsto> ''ON'']\<rparr>"
  obtain s v where s: "listable s ''xyz''" "bucket_documents s ''xyz'' Map.empty \<lparr>rules = [expire_all]\<rparr>"
    "current (object_state s ''xyz'' ''k'') = Some (?held\<lparr>obj_version_id := v\<rparr>)"
    by (rule expiring_object [of ?held]) simp_all
  have "\<not> eq_ignore_ascii_case ''ON'' ''OFF''" by code_simp
  then have held: "is_some_and (current (object_state s ''xyz'' ''k'')) (\<lambda>ob. object_has_active_data_protection (ext s) ob t)" for t
    by (simp add: s(3) object_has_active_data_protection_def S3_OBJECT_LOCK_LEGAL_HOLD_KEY_def is_some_and_def Let_def)
  let ?req = "sample_admin_request ''DELETE'' ''/admin/v1/buckets/xyz/objects/k'' []"
  have ok: "store_ok s" "faults s = []" using s(1) by (simp_all add: listable_def)
  have route: "parse_route (al_decode sample_admin_lib) (ar_path ?req) = Ok (RouteBucket ''xyz'' (BObject ''k'' RMetadata))"
    unfolding sample_request_simps by (rule sample_routes)
  have "(ar_method ?req, RMetadata) \<in> {(''PUT'', RContent), (''DELETE'', RMetadata)} \<union> {''DELETE''} \<times> range RVersion" by simp
  from admin_protected_refused [OF ok documents_readable [OF s(2)] disjI2 [OF held] route sample_key this]
  obtain s1 where "admin_handle_request sample_admin_lib ?req s = (Failed AccessDenied, s1)" "undisturbed s s1" by blast
  with s(3) object_state_undisturbed [of s s1 "''xyz''" "''k''"] show ?thesis by auto
qed

abbreviation identified_bucket :: world where
  "identified_bucket \<equiv> sample_bucket [(''bucket.identity.json'', IdentityJson \<lparr>id_created_at = 0, id_modified_at = 0\<rparr>)]"

lemma identified_readable: "bucket_readable identified_bucket ''xyz'' Map.empty"
  by (simp add: bucket_readable_def bucket_metadata_path_def file_content_def path_exists_def fs_get_def sample_bucket_def
      bucket_dir_def sample_externs_def bucket_exists_def)

theorem admin_put_download_witness:
  "\<exists>s1 s2. fst (admin_handle_request sample_admin_lib (sample_admin_request ''PUT'' ''/admin/v1/buckets/xyz/objects/k/content'' [1, 2]) identified_bucket) \<noteq> Halted \<and>
     s1 = snd (admin_handle_request sample_admin_lib (sample_admin_request ''PUT'' ''/admin/v1/buckets/xyz/objects/k/content'' [1, 2]) identified_bucket) \<and>
     admin_handle_request sample_admin_lib (sample_admin_request ''GET'' ''/admin/v1/buckets/xyz/objects/k/content'' []) s1 =
       (Done (Content 200 ''text/plain'' [1, 2]), s2)"
proof -
  have none: "current (object_state identified_bucket ''xyz'' ''k'') = None"
    using sample_no_object [of _ "''xyz''" "''k''" "[]"] by (simp add: object_state_def)
  then have free: "\<not> is_some_and (current (object_state identified_bucket ''xyz'' ''k'')) Q" for Q by (simp add: is_some_and_def)
  let ?p = "''/admin/v1/buckets/xyz/objects/k/content''"
  have route: "parse_route (al_decode sample_admin_lib) ?p = Ok (RouteBucket ''xyz'' (BObject ''k'' RContent))"
    unfolding sample_request_simps by (rule sample_routes)
  have ct: "admin_content_type [(''content-type'', Some ''text/plain'')] = ''text/plain''" by (simp add: admin_content_type_def)
  from admin_put_download [OF sample_bucket_ok sample_bucket_fields(1) identified_readable not_foreign_empty free sample_key route
      sample_request_simps(3) sample_request_simps(2) sample_request_simps(4) sample_request_simps(3) sample_request_simps(2),
      of "[1, 2]" "[]", unfolded sample_request_simps ct]
  show ?thesis by (metis fst_conv outcome.distinct(3) snd_conv)
qed

theorem admin_list_objects_spec_witness:
  "\<exists>s s1. lfi_keys (st_index s) ''xyz'' = {''a/k'', ''b''} \<and>
     admin_list_objects sample_admin_lib ''xyz'' ''limit=1'' s =
       (Done (Json 200 (ListObjects [\<lparr>fi_name = ''a/'', fi_prefix = ''a/''\<rparr>] []
          (encode_object_next sample_base64 (Some ''a/'') KObjects))), s1)"
proof -
  obtain s where s: "listable s ''xyz''" "lfi_keys (st_index s) ''xyz'' = {''a/k'', ''b''}" by (rule sample_listing)
  have q: "parse_object_page_params sample_base64 Some ''limit=1'' KObjects =
      Ok \<lparr>op_next = None, op_limit = 1, op_prefix = None, op_search = None\<rparr>"
    by (simp add: parse_object_page_params_def parse_query_map_def decode_component_def transpose_opt_def parse_limit_def
        parse_search_def parse_uint_def is_digit_def u64_max_def)
  have "admin_lib.al_base64 sample_admin_lib = sample_base64" by (simp add: sample_admin_lib_def)
  with admin_list_objects_spec [OF s(1), of sample_admin_lib "''limit=1''"] q s(2) show ?thesis
    by (auto simp: folder_page_def sample_entries [OF s] common_prefix_to_folder_info_def strip_prefix_def List.map_filter_simps)
qed

end
