(* ===== verification/Xml_Render.thy ===== *)
theory Xml_Render
  imports Models Multipart
begin

text \<open>
  The XML documents the S3 interface answers with (\<^verbatim>\<open>src/src/utils/xml.rs\<close>): one definition per
  document, each the text the code writes. The rendering of times and the URL encoder belong to
  libraries and are the fields of \<open>xml_lib\<close>, together with the reader that
  \<open>Xml_Parse\<close> is about.
\<close>

datatype xml_event =
    StartTag string string "string option list" \<comment> \<open>qualified and local name; attribute names, \<open>None\<close> for one that is malformed\<close>
  | EndTag string string
  | EmptyTag string string
  | CharText string                 \<comment> \<open>raw character data, not unescaped\<close>
  | CDataText string
  | GeneralRef string               \<comment> \<open>an entity or character reference\<close>
  | CommentMark | DeclMark | DocTypeMark | OtherMark
  | ReadError string

text \<open>
  \<open>xl_events trim text\<close> are the events the reader yields before the end of the document or up to its
  first error, with \<^verbatim>\<open>trim_text\<close> set to \<open>trim\<close>.
\<close>

record xml_lib =
  xl_events :: "bool \<Rightarrow> string \<Rightarrow> xml_event list"
  xl_unescape :: "string \<Rightarrow> (string, string) result"
  xl_rfc3339 :: "datetime \<Rightarrow> string"
  xl_millis :: "datetime \<Rightarrow> string"
  xl_url_encode :: "string \<Rightarrow> string"

section \<open>Building blocks\<close>

definition escape_char :: "char \<Rightarrow> string" where
  "escape_char c =
     (if c = CHR ''&'' then ''&amp;''
      else if c = CHR ''<'' then ''&lt;''
      else if c = CHR ''>'' then ''&gt;''
      else if c = CHR 0x22 then ''&quot;''
      else if c = CHR 0x27 then ''&apos;''
      else [c])"

text \<open>
  The loop of \<^verbatim>\<open>push_escaped_xml\<close> copies the bytes between two replaced characters in one piece:
  \<open>pending\<close> is \<^verbatim>\<open>s[start..index]\<close>, the bytes not yet copied.
\<close>

fun push_escaped_from :: "string \<Rightarrow> string \<Rightarrow> string \<Rightarrow> string" where
  "push_escaped_from out pending [] = out @ pending"
| "push_escaped_from out pending (c # s) =
     (if escape_char c \<noteq> [c] then push_escaped_from (out @ pending @ escape_char c) [] s
      else push_escaped_from out (pending @ [c]) s)"

definition push_escaped_xml :: "string \<Rightarrow> string \<Rightarrow> string" where
  "push_escaped_xml out s = push_escaped_from out [] s"

definition escape_xml :: "string \<Rightarrow> string" where
  "escape_xml s = push_escaped_xml [] s"

definition line :: "string \<Rightarrow> string" where
  "line s = CHR 0x0A # s"

definition open_tag :: "string \<Rightarrow> string" where
  "open_tag name = CHR ''<'' # name @ ''>''"

definition close_tag :: "string \<Rightarrow> string" where
  "close_tag name = CHR ''<'' # CHR ''/'' # name @ ''>''"

definition element :: "string \<Rightarrow> string \<Rightarrow> string" where
  "element name body = open_tag name @ body @ close_tag name"

definition quoted :: "string \<Rightarrow> string" where
  "quoted s = CHR 0x22 # s @ [CHR 0x22]"

definition namespaced :: "string \<Rightarrow> string" where
  "namespaced name =
     CHR ''<'' # name @ '' xmlns='' @ quoted ''http://s3.amazonaws.com/doc/2006-03-01/''"

definition show_bool :: "bool \<Rightarrow> string" where
  "show_bool b = (if b then ''true'' else ''false'')"

definition optional :: "'a option \<Rightarrow> ('a \<Rightarrow> string) \<Rightarrow> string" where
  "optional v f = (case v of Some a \<Rightarrow> f a | None \<Rightarrow> [])"

definition xml_declaration :: string where
  "xml_declaration = ''<?xml version='' @ quoted ''1.0'' @ '' encoding='' @ quoted ''UTF-8'' @ ''?>''"

section \<open>Buckets and errors\<close>

definition list_buckets_xml :: "xml_lib \<Rightarrow> bucket list \<Rightarrow> string" where
  "list_buckets_xml L bs =
     xml_declaration
     @ line (namespaced ''ListAllMyBucketsResult'' @ ''>'')
     @ line (''    '' @ open_tag ''Owner'')
     @ line (''        '' @ element ''ID'' ''sqrzl-emulator'')
     @ line (''        '' @ element ''DisplayName'' ''Sqrzl Emulator'')
     @ line (''    '' @ close_tag ''Owner'')
     @ line (''    '' @ open_tag ''Buckets'')
     @ concat (map (\<lambda>b.
           line (''        '' @ open_tag ''Bucket'')
         @ line (''            '' @ element ''Name'' (escape_xml (bucket_name b)))
         @ line (''            '' @ element ''CreationDate'' (xl_rfc3339 L (created_at b)))
         @ line (''        '' @ close_tag ''Bucket'')) bs)
     @ line (''    '' @ close_tag ''Buckets'')
     @ line (close_tag ''ListAllMyBucketsResult'')"

text \<open>The entries of a map, sorted by key.\<close>

definition map_entries :: "strmap \<Rightarrow> (string \<times> string) list" where
  "map_entries m = map (\<lambda>k. (k, the (m k))) (sorted_list_of_set (dom m))"

definition tagging_xml :: "strmap \<Rightarrow> string" where
  "tagging_xml tags =
     xml_declaration
     @ line (namespaced ''Tagging'' @ ''>'')
     @ line (''  '' @ open_tag ''TagSet'')
     @ concat (map (\<lambda>(k, v).
           line (''    '' @ open_tag ''Tag'' @ element ''Key'' (escape_xml k) @ element ''Value'' (escape_xml v)
             @ close_tag ''Tag'')) (map_entries tags))
     @ line (''  '' @ close_tag ''TagSet'')
     @ line (close_tag ''Tagging'')"

definition error_xml_with_host_id :: "string \<Rightarrow> string \<Rightarrow> string \<Rightarrow> string \<Rightarrow> string" where
  "error_xml_with_host_id code message request_id host_id =
     xml_declaration
     @ line (open_tag ''Error'')
     @ line (''  '' @ element ''Code'' (escape_xml code))
     @ line (''  '' @ element ''Message'' (escape_xml message))
     @ line (''  '' @ element ''RequestId'' (escape_xml request_id))
     @ (if host_id = [] then [] else line (''  '' @ element ''HostId'' (escape_xml host_id)))
     @ line (close_tag ''Error'')"

definition error_xml :: "string \<Rightarrow> string \<Rightarrow> string \<Rightarrow> string" where
  "error_xml code message request_id = error_xml_with_host_id code message request_id []"

definition versioning_status_xml :: "string option \<Rightarrow> string" where
  "versioning_status_xml status =
     (case status of
        None \<Rightarrow> xml_declaration @ line (namespaced ''VersioningConfiguration'' @ ''/>'')
      | Some s \<Rightarrow>
          xml_declaration
          @ line (namespaced ''VersioningConfiguration'' @ ''>'')
          @ line (''  '' @ element ''Status'' (escape_xml s))
          @ line (close_tag ''VersioningConfiguration''))"

definition location_xml :: "string \<Rightarrow> string" where
  "location_xml region =
     xml_declaration
     @ line (namespaced ''LocationConstraint'' @ ''>'')
     @ (if region = ''us-east-1'' then [] else line (''  '' @ escape_xml region))
     @ line (close_tag ''LocationConstraint'')"

section \<open>Object listings\<close>

definition list_objects_xml ::
    "xml_lib \<Rightarrow> object list \<Rightarrow> string list \<Rightarrow> string \<Rightarrow> string \<Rightarrow> string option \<Rightarrow> string option \<Rightarrow> nat \<Rightarrow>
     bool \<Rightarrow> string option \<Rightarrow> string" where
  "list_objects_xml L obs folders bucket pfx delimiter marker max_keys truncated next_mark =
     xml_declaration
     @ line (namespaced ''ListBucketResult'' @ ''>'')
     @ line (''  '' @ element ''Name'' (escape_xml bucket))
     @ line (''  '' @ element ''Prefix'' (escape_xml pfx))
     @ optional delimiter (\<lambda>d. line (''  '' @ element ''Delimiter'' (escape_xml d)))
     @ optional marker (\<lambda>m. line (''  '' @ element ''Marker'' (escape_xml m)))
     @ line (''  '' @ element ''MaxKeys'' (show_nat max_keys))
     @ line (''  '' @ element ''IsTruncated'' (show_bool truncated))
     @ concat (map (\<lambda>ob.
           line (''  '' @ open_tag ''Contents'')
         @ line (''    '' @ element ''Key'' (escape_xml (obj_key ob)))
         @ line (''    '' @ element ''LastModified'' (xl_rfc3339 L (obj_last_modified ob)))
         @ line (''    '' @ element ''ETag'' (quoted (escape_xml (obj_etag ob))))
         @ line (''    '' @ element ''Size'' (show_nat (obj_size ob)))
         @ line (''    '' @ element ''StorageClass'' ''STANDARD'')
         @ line (''  '' @ close_tag ''Contents'')) obs)
     @ concat (map (\<lambda>p.
           line (''  '' @ open_tag ''CommonPrefixes'')
         @ line (''    '' @ element ''Prefix'' (escape_xml p))
         @ line (''  '' @ close_tag ''CommonPrefixes'')) folders)
     @ (if truncated then optional next_mark (\<lambda>m. line (''  '' @ element ''NextMarker'' (escape_xml m))) else [])
     @ line (close_tag ''ListBucketResult'')"

datatype list_objects_v2_entry = ObjectEntryV2 object | CommonPrefixV2 string

fun v2_token :: "list_objects_v2_entry \<Rightarrow> string" where
  "v2_token (ObjectEntryV2 ob) = obj_key ob"
| "v2_token (CommonPrefixV2 p) = p"

definition url_encoding :: "string option \<Rightarrow> bool" where
  "url_encoding encoding_type = (case encoding_type of Some e \<Rightarrow> eq_ignore_ascii_case e ''url'' | None \<Rightarrow> False)"

definition render_v2_value :: "xml_lib \<Rightarrow> string \<Rightarrow> string option \<Rightarrow> string" where
  "render_v2_value L value encoding_type =
     escape_xml (if url_encoding encoding_type then xl_url_encode L value else value)"

definition owner_element :: string where
  "owner_element =
     element ''Owner'' (element ''ID'' ''sqrzl-emulator'' @ element ''DisplayName'' ''Sqrzl Emulator'')"

fun v2_entry_xml :: "xml_lib \<Rightarrow> string option \<Rightarrow> bool \<Rightarrow> list_objects_v2_entry \<Rightarrow> string" where
  "v2_entry_xml L encoding_type fetch_owner (ObjectEntryV2 ob) =
       line (''  '' @ open_tag ''Contents'')
     @ line (''    '' @ element ''Key'' (render_v2_value L (obj_key ob) encoding_type))
     @ line (''    '' @ element ''LastModified'' (xl_rfc3339 L (obj_last_modified ob)))
     @ line (''    '' @ element ''ETag'' (quoted (escape_xml (obj_etag ob))))
     @ line (''    '' @ element ''Size'' (show_nat (obj_size ob)))
     @ line (''    '' @ (if fetch_owner then owner_element @ line ''    '' else [])
         @ element ''StorageClass'' (escape_xml (obj_storage_class ob)))
     @ line (''  '' @ close_tag ''Contents'')"
| "v2_entry_xml L encoding_type fetch_owner (CommonPrefixV2 p) =
       line (''  '' @ open_tag ''CommonPrefixes'')
     @ line (''    '' @ element ''Prefix'' (render_v2_value L p encoding_type))
     @ line (''  '' @ close_tag ''CommonPrefixes'')"

definition list_objects_v2_xml ::
    "xml_lib \<Rightarrow> list_objects_v2_entry list \<Rightarrow> string \<Rightarrow> string \<Rightarrow> string option \<Rightarrow> nat \<Rightarrow> nat \<Rightarrow> bool \<Rightarrow>
     string option \<Rightarrow> string option \<Rightarrow> string option \<Rightarrow> string option \<Rightarrow> bool \<Rightarrow> string" where
  "list_objects_v2_xml L entries bucket pfx delimiter max_keys key_count truncated continuation_token
      next_continuation_token start_after encoding_type fetch_owner =
     xml_declaration
     @ line (namespaced ''ListBucketResult'' @ ''>'')
     @ line (''  '' @ element ''Name'' (escape_xml bucket))
     @ line (''  '' @ element ''Prefix'' (render_v2_value L pfx encoding_type))
     @ optional delimiter (\<lambda>d. line (''  '' @ element ''Delimiter'' (render_v2_value L d encoding_type)))
     @ optional continuation_token (\<lambda>t. line (''  '' @ element ''ContinuationToken'' (render_v2_value L t encoding_type)))
     @ optional start_after (\<lambda>a. line (''  '' @ element ''StartAfter'' (render_v2_value L a encoding_type)))
     @ line (''  '' @ element ''MaxKeys'' (show_nat max_keys))
     @ line (''  '' @ element ''KeyCount'' (show_nat key_count))
     @ line (''  '' @ element ''IsTruncated'' (show_bool truncated))
     @ (if url_encoding encoding_type then line (''  '' @ element ''EncodingType'' ''url'') else [])
     @ concat (map (v2_entry_xml L encoding_type fetch_owner) entries)
     @ optional next_continuation_token
         (\<lambda>t. line (''  '' @ element ''NextContinuationToken'' (render_v2_value L t encoding_type)))
     @ line (close_tag ''ListBucketResult'')"

section \<open>Versions\<close>

definition owner_lines :: string where
  "owner_lines =
       line (''    '' @ open_tag ''Owner'')
     @ line (''      '' @ element ''ID'' ''sqrzl-emulator'')
     @ line (''      '' @ element ''DisplayName'' ''Sqrzl Emulator'')
     @ line (''    '' @ close_tag ''Owner'')"

definition version_xml :: "xml_lib \<Rightarrow> object \<Rightarrow> bool \<Rightarrow> string" where
  "version_xml L ob is_latest =
     (let version_id = (case obj_version_id ob of Some v \<Rightarrow> v | None \<Rightarrow> ''null'') in
      if obj_provider_metadata ob ''s3_delete_marker'' = Some ''true'' then
          line (''  '' @ open_tag ''DeleteMarker'')
        @ line (''    '' @ element ''Key'' (escape_xml (obj_key ob)))
        @ line (''    '' @ element ''VersionId'' (escape_xml version_id))
        @ line (''    '' @ element ''IsLatest'' (show_bool is_latest))
        @ line (''    '' @ element ''LastModified'' (xl_millis L (obj_last_modified ob)))
        @ owner_lines
        @ line (''  '' @ close_tag ''DeleteMarker'')
      else
          line (''  '' @ open_tag ''Version'')
        @ line (''    '' @ element ''Key'' (escape_xml (obj_key ob)))
        @ line (''    '' @ element ''VersionId'' (escape_xml version_id))
        @ line (''    '' @ element ''IsLatest'' (show_bool is_latest))
        @ line (''    '' @ element ''LastModified'' (xl_millis L (obj_last_modified ob)))
        @ line (''    '' @ element ''ETag'' (escape_xml (quoted (trim_quotes (obj_etag ob)))))
        @ line (''    '' @ element ''Size'' (show_nat (obj_size ob)))
        @ owner_lines
        @ line (''    '' @ element ''StorageClass'' (escape_xml (obj_storage_class ob)))
        @ line (''  '' @ close_tag ''Version''))"

text \<open>
  The recorded flag says which version is the latest; without it the first version of a key that
  has none recorded counts. \<open>seen\<close> are the keys met so far without a recorded flag.
\<close>

fun versions_xml :: "xml_lib \<Rightarrow> string list \<Rightarrow> object list \<Rightarrow> string" where
  "versions_xml L seen [] = []"
| "versions_xml L seen (ob # obs) =
     (case obj_provider_metadata ob ''s3_is_latest'' of
        Some value \<Rightarrow> version_xml L ob (value = ''true'') @ versions_xml L seen obs
      | None \<Rightarrow> version_xml L ob (obj_key ob \<notin> set seen) @ versions_xml L (obj_key ob # seen) obs)"

definition text_or_empty :: "string option \<Rightarrow> string" where
  "text_or_empty v = (case v of Some s \<Rightarrow> s | None \<Rightarrow> [])"

definition list_versions_xml ::
    "xml_lib \<Rightarrow> string \<Rightarrow> object list \<Rightarrow> string \<Rightarrow> string option \<Rightarrow> string option \<Rightarrow> nat \<Rightarrow> bool \<Rightarrow>
     string option \<Rightarrow> string option \<Rightarrow> string" where
  "list_versions_xml L bucket versions pfx key_marker version_id_marker max_keys truncated next_key_marker
      next_version_id_marker =
     xml_declaration
     @ line (namespaced ''ListVersionsResult'' @ ''>'')
     @ line (''  '' @ element ''Name'' (escape_xml bucket))
     @ line (''  '' @ element ''Prefix'' (escape_xml pfx))
     @ line (''  '' @ element ''KeyMarker'' (escape_xml (text_or_empty key_marker)))
     @ line (''  '' @ element ''VersionIdMarker'' (escape_xml (text_or_empty version_id_marker)))
     @ line (''  '' @ element ''MaxKeys'' (show_nat max_keys))
     @ line (''  '' @ element ''IsTruncated'' (show_bool truncated))
     @ versions_xml L [] versions
     @ (if truncated then
            optional next_key_marker (\<lambda>m. line (''  '' @ element ''NextKeyMarker'' (escape_xml m)))
          @ optional next_version_id_marker (\<lambda>m. line (''  '' @ element ''NextVersionIdMarker'' (escape_xml m)))
        else [])
     @ close_tag ''ListVersionsResult''"

section \<open>Multipart uploads\<close>

definition initiate_multipart_xml :: "string \<Rightarrow> string \<Rightarrow> string \<Rightarrow> string" where
  "initiate_multipart_xml bucket key uid =
     xml_declaration
     @ line (namespaced ''InitiateMultipartUploadResult'' @ ''>'')
     @ line (''  '' @ element ''Bucket'' (escape_xml bucket))
     @ line (''  '' @ element ''Key'' (escape_xml key))
     @ line (''  '' @ element ''UploadId'' (escape_xml uid))
     @ line (close_tag ''InitiateMultipartUploadResult'')"

record list_multipart_uploads_result =
  mu_uploads :: "multipart_upload list"
  mu_common_prefixes :: "string list"
  mu_bucket :: string
  mu_key_marker :: "string option"
  mu_upload_id_marker :: "string option"
  mu_next_key_marker :: "string option"
  mu_next_upload_id_marker :: "string option"
  mu_prefix :: string
  mu_delimiter :: "string option"
  mu_encoding_type :: "string option"
  mu_max_uploads :: nat
  mu_is_truncated :: bool

definition initiator_element :: string where
  "initiator_element =
     element ''Initiator'' (element ''ID'' ''sqrzl-emulator'' @ element ''DisplayName'' ''Sqrzl Emulator'')"

definition upload_entry_xml :: "xml_lib \<Rightarrow> string option \<Rightarrow> multipart_upload \<Rightarrow> string" where
  "upload_entry_xml L encoding_type u =
       line (''  '' @ open_tag ''Upload'')
     @ line (''    '' @ element ''Key'' (render_v2_value L (upload_key u) encoding_type))
     @ line (''    '' @ element ''UploadId'' (escape_xml (upload_id u)))
     @ line (''    '' @ initiator_element)
     @ line (''    '' @ owner_element)
     @ line (''    '' @ element ''Initiated'' (xl_rfc3339 L (initiated u)))
     @ line (''    '' @ element ''StorageClass''
         (escape_xml (case upload_provider_metadata u ''storage_class'' of Some c \<Rightarrow> c | None \<Rightarrow> ''STANDARD'')))
     @ line (''  '' @ close_tag ''Upload'')"

definition list_multipart_uploads_xml :: "xml_lib \<Rightarrow> list_multipart_uploads_result \<Rightarrow> string" where
  "list_multipart_uploads_xml L r =
     (let enc = mu_encoding_type r in
      xml_declaration
      @ line (namespaced ''ListMultipartUploadsResult'' @ ''>'')
      @ line (''  '' @ element ''Bucket'' (escape_xml (mu_bucket r)))
      @ line (''  '' @ element ''KeyMarker'' (render_v2_value L (text_or_empty (mu_key_marker r)) enc))
      @ line (''  '' @ element ''UploadIdMarker'' (escape_xml (text_or_empty (mu_upload_id_marker r))))
      @ line (''  '' @ element ''Prefix'' (render_v2_value L (mu_prefix r) enc))
      @ optional (mu_next_key_marker r) (\<lambda>m. line (''  '' @ element ''NextKeyMarker'' (render_v2_value L m enc)))
      @ optional (mu_next_upload_id_marker r) (\<lambda>m. line (''  '' @ element ''NextUploadIdMarker'' (escape_xml m)))
      @ optional (mu_delimiter r) (\<lambda>d. line (''  '' @ element ''Delimiter'' (render_v2_value L d enc)))
      @ (if url_encoding enc then line (''  '' @ element ''EncodingType'' ''url'') else [])
      @ line (''  '' @ element ''MaxUploads'' (show_nat (mu_max_uploads r)))
      @ line (''  '' @ element ''IsTruncated'' (show_bool (mu_is_truncated r)))
      @ concat (map (upload_entry_xml L enc) (mu_uploads r))
      @ concat (map (\<lambda>p. line (''  '' @ element ''CommonPrefixes'' (element ''Prefix'' (render_v2_value L p enc))))
          (mu_common_prefixes r))
      @ line (close_tag ''ListMultipartUploadsResult''))"

record list_parts_result =
  lp_bucket :: string
  lp_key :: string
  lp_upload_id :: string
  lp_storage_class :: string
  lp_part_number_marker :: nat
  lp_next_part_number_marker :: "nat option"
  lp_max_parts :: nat
  lp_is_truncated :: bool
  lp_parts :: "part list"

definition part_entry_xml :: "xml_lib \<Rightarrow> externs \<Rightarrow> part \<Rightarrow> string" where
  "part_entry_xml L x p =
       line (''  '' @ open_tag ''Part'')
     @ line (''    '' @ element ''PartNumber'' (show_nat (part_number p)))
     @ line (''    '' @ element ''LastModified'' (xl_rfc3339 L (part_last_modified p)))
     @ line (''    '' @ element ''ETag'' (quoted (escape_xml (part_etag p))))
     @ line (''    '' @ element ''Size'' (show_nat (part_size p)))
     @ optional (part_crc32c p) (\<lambda>c. line (''    '' @ element ''ChecksumCRC32C'' (ext_base64 x (be_bytes c))))
     @ line (''  '' @ close_tag ''Part'')"

definition list_parts_xml :: "xml_lib \<Rightarrow> externs \<Rightarrow> list_parts_result \<Rightarrow> string" where
  "list_parts_xml L x r =
     xml_declaration
     @ line (namespaced ''ListPartsResult'' @ ''>'')
     @ line (''  '' @ element ''Bucket'' (escape_xml (lp_bucket r)))
     @ line (''  '' @ element ''Key'' (escape_xml (lp_key r)))
     @ line (''  '' @ element ''UploadId'' (escape_xml (lp_upload_id r)))
     @ line (''  '' @ initiator_element)
     @ line (''  '' @ owner_element)
     @ line (''  '' @ element ''StorageClass'' (escape_xml (lp_storage_class r)))
     @ line (''  '' @ element ''PartNumberMarker'' (show_nat (lp_part_number_marker r)))
     @ optional (lp_next_part_number_marker r) (\<lambda>m. line (''  '' @ element ''NextPartNumberMarker'' (show_nat m)))
     @ line (''  '' @ element ''MaxParts'' (show_nat (lp_max_parts r)))
     @ line (''  '' @ element ''IsTruncated'' (show_bool (lp_is_truncated r)))
     @ concat (map (part_entry_xml L x) (lp_parts r))
     @ line (close_tag ''ListPartsResult'')"

definition complete_multipart_upload_xml :: "string \<Rightarrow> string \<Rightarrow> string \<Rightarrow> string" where
  "complete_multipart_upload_xml bucket key etag =
     xml_declaration
     @ line (namespaced ''CompleteMultipartUploadResult'' @ ''>'')
     @ line (''  '' @ element ''Location'' (''http://s3.amazonaws.com/'' @ escape_xml bucket @ ''/'' @ escape_xml key))
     @ line (''  '' @ element ''Bucket'' (escape_xml bucket))
     @ line (''  '' @ element ''Key'' (escape_xml key))
     @ line (''  '' @ element ''ETag'' (quoted (escape_xml etag)))
     @ line (close_tag ''CompleteMultipartUploadResult'')"

section \<open>Access control lists\<close>

definition typed_grantee :: "string \<Rightarrow> string" where
  "typed_grantee ty =
     ''<Grantee xmlns:xsi='' @ quoted ''http://www.w3.org/2001/XMLSchema-instance'' @ '' xsi:type='' @ quoted ty @ ''>''"

fun permission_xml_value :: "permission \<Rightarrow> string" where
  "permission_xml_value Read = ''READ''"
| "permission_xml_value Write = ''WRITE''"
| "permission_xml_value ReadAcp = ''READ_ACP''"
| "permission_xml_value WriteAcp = ''WRITE_ACP''"
| "permission_xml_value FullControl = ''FULL_CONTROL''"

fun grantee_xml :: "grantee \<Rightarrow> string" where
  "grantee_xml (CanonicalUser i display_name) =
     typed_grantee ''CanonicalUser'' @ element ''ID'' (escape_xml i)
     @ optional display_name (\<lambda>n. element ''DisplayName'' (escape_xml n)) @ close_tag ''Grantee''"
| "grantee_xml (Group uri) = typed_grantee ''Group'' @ element ''URI'' (escape_xml uri) @ close_tag ''Grantee''"

definition explicit_acl_grants :: "acl \<Rightarrow> string" where
  "explicit_acl_grants a =
     concat (map (\<lambda>g.
         line (''        '' @ open_tag ''Grant'')
       @ line (''            '' @ grantee_xml (grantee g))
       @ line (''            '' @ element ''Permission'' (permission_xml_value (permission g)))
       @ line (''        '' @ close_tag ''Grant'')) (grants a))"

definition group_grant :: "string \<Rightarrow> string \<Rightarrow> string" where
  "group_grant uri perm =
       line (''        '' @ open_tag ''Grant'')
     @ line (''            '' @ typed_grantee ''Group'')
     @ line (''                '' @ element ''URI'' uri)
     @ line (''            '' @ close_tag ''Grantee'')
     @ line (''            '' @ element ''Permission'' perm)
     @ line (''        '' @ close_tag ''Grant'')"

definition all_users_uri :: string where
  "all_users_uri = ''http://acs.amazonaws.com/groups/global/AllUsers''"

definition authenticated_users_uri :: string where
  "authenticated_users_uri = ''http://acs.amazonaws.com/groups/global/AuthenticatedUsers''"

fun canned_grants :: "canned_acl \<Rightarrow> string" where
  "canned_grants Private = []"
| "canned_grants BucketOwnerRead = []"
| "canned_grants BucketOwnerFullControl = []"
| "canned_grants PublicRead = group_grant all_users_uri ''READ''"
| "canned_grants PublicReadWrite = group_grant all_users_uri ''READ'' @ group_grant all_users_uri ''WRITE''"
| "canned_grants AuthenticatedRead = group_grant authenticated_users_uri ''READ''"

text \<open>The owner is given by its identifier and its display name.\<close>

definition default_acl_grants :: "string \<times> string \<Rightarrow> canned_acl \<Rightarrow> string" where
  "default_acl_grants owner c =
       line (''        '' @ open_tag ''Grant'')
     @ line (''            '' @ typed_grantee ''CanonicalUser'')
     @ line (''                '' @ element ''ID'' (escape_xml (fst owner)))
     @ line (''                '' @ element ''DisplayName'' (escape_xml (snd owner)))
     @ line (''            '' @ close_tag ''Grantee'')
     @ line (''            '' @ element ''Permission'' ''FULL_CONTROL'')
     @ line (''        '' @ close_tag ''Grant'')
     @ canned_grants c"

definition acl_xml :: "string \<times> string \<Rightarrow> acl \<Rightarrow> string" where
  "acl_xml owner a =
     xml_declaration
     @ line (namespaced ''AccessControlPolicy'' @ ''>'')
     @ line (''    '' @ open_tag ''Owner'')
     @ line (''        '' @ element ''ID'' (escape_xml (fst owner)))
     @ line (''        '' @ element ''DisplayName'' (escape_xml (snd owner)))
     @ line (''    '' @ close_tag ''Owner'')
     @ line (''    '' @ open_tag ''AccessControlList'')
     @ (if grants a = [] then default_acl_grants owner (canned a) else explicit_acl_grants a)
     @ line (''    '' @ close_tag ''AccessControlList'')
     @ line (close_tag ''AccessControlPolicy'')"

section \<open>Lifecycle configurations\<close>

text \<open>Here every line ends with its newline.\<close>

definition written :: "string \<Rightarrow> string" where
  "written s = s @ [CHR 0x0A]"

fun storage_class_xml :: "storage_class \<Rightarrow> string" where
  "storage_class_xml Standard = ''STANDARD''"
| "storage_class_xml Glacier = ''GLACIER''"
| "storage_class_xml DeepArchive = ''DEEP_ARCHIVE''"

definition lifecycle_filter_xml :: "lifecycle_filter \<Rightarrow> string" where
  "lifecycle_filter_xml f =
       written (''    '' @ open_tag ''Filter'')
     @ optional (filter_prefix f) (\<lambda>p. written (''      '' @ element ''Prefix'' (escape_xml p)))
     @ concat (map (\<lambda>t.
           written (''      '' @ open_tag ''Tag'')
         @ written (''        '' @ element ''Key'' (escape_xml (tag_key t)))
         @ written (''        '' @ element ''Value'' (escape_xml (tag_value t)))
         @ written (''      '' @ close_tag ''Tag'')) (filter_tags f))
     @ written (''    '' @ close_tag ''Filter'')"

definition lifecycle_expiration_xml :: "expiration \<Rightarrow> string" where
  "lifecycle_expiration_xml e =
       written (''    '' @ open_tag ''Expiration'')
     @ optional (exp_days e) (\<lambda>d. written (''      '' @ element ''Days'' (show_nat d)))
     @ optional (exp_date e) (\<lambda>d. written (''      '' @ element ''Date'' (escape_xml d)))
     @ optional (exp_delete_marker e)
         (\<lambda>m. written (''      '' @ element ''ExpiredObjectDeleteMarker'' (show_bool m)))
     @ written (''    '' @ close_tag ''Expiration'')"

definition lifecycle_noncurrent_xml :: "noncurrent_version_expiration \<Rightarrow> string" where
  "lifecycle_noncurrent_xml n =
       written (''    '' @ open_tag ''NoncurrentVersionExpiration'')
     @ written (''      '' @ element ''NoncurrentDays'' (show_nat (noncurrent_days n)))
     @ written (''    '' @ close_tag ''NoncurrentVersionExpiration'')"

definition lifecycle_transition_xml :: "transition \<Rightarrow> string" where
  "lifecycle_transition_xml t =
       written (''    '' @ open_tag ''Transition'')
     @ optional (tr_days t) (\<lambda>d. written (''      '' @ element ''Days'' (show_nat d)))
     @ optional (tr_date t) (\<lambda>d. written (''      '' @ element ''Date'' (escape_xml d)))
     @ written (''      '' @ element ''StorageClass'' (storage_class_xml (tr_storage_class t)))
     @ written (''    '' @ close_tag ''Transition'')"

definition lifecycle_rule_xml :: "rule \<Rightarrow> string" where
  "lifecycle_rule_xml r =
       written (''  '' @ open_tag ''Rule'')
     @ optional (rule_id r) (\<lambda>i. written (''    '' @ element ''ID'' (escape_xml i)))
     @ written (''    '' @ element ''Status'' (if rule_status r = Enabled then ''Enabled'' else ''Disabled''))
     @ optional (rule_filter r) lifecycle_filter_xml
     @ optional (rule_expiration r) lifecycle_expiration_xml
     @ optional (rule_noncurrent r) lifecycle_noncurrent_xml
     @ concat (map lifecycle_transition_xml (rule_transitions r))
     @ written (''  '' @ close_tag ''Rule'')"

definition lifecycle_xml :: "lifecycle_configuration \<Rightarrow> string" where
  "lifecycle_xml c =
     written xml_declaration
     @ written (open_tag ''LifecycleConfiguration'')
     @ concat (map lifecycle_rule_xml (rules c))
     @ close_tag ''LifecycleConfiguration''"

section \<open>Escaping\<close>

lemma push_escaped_from_eq: "push_escaped_from out pending s = out @ pending @ concat (map escape_char s)"
  by (induction out pending s rule: push_escaped_from.induct) auto

lemma escape_xml_eq: "escape_xml s = concat (map escape_char s)"
  by (simp add: escape_xml_def push_escaped_xml_def push_escaped_from_eq)

definition special_chars :: "char set" where
  "special_chars = {CHR ''&'', CHR ''<'', CHR ''>'', CHR 0x22, CHR 0x27}"

lemma escape_xml_plain:
  assumes "set s \<inter> special_chars = {}"
  shows "escape_xml s = s"
proof -
  have "concat (map escape_char s) = concat (map (\<lambda>c. [c]) s)"
    using assms by (intro arg_cong [where f = concat] map_cong) (auto simp: escape_char_def special_chars_def)
  then show ?thesis by (simp add: escape_xml_eq)
qed

text \<open>Nothing a client stores can open or close an element, an attribute or a reference of the answer.\<close>

lemma escape_xml_safe: "set (escape_xml s) \<inter> {CHR ''<'', CHR ''>'', CHR 0x22, CHR 0x27} = {}"
proof -
  have "set (escape_char c) \<inter> {CHR ''<'', CHR ''>'', CHR 0x22, CHR 0x27} = {}" for c
    by (simp add: escape_char_def)
  then show ?thesis by (auto simp: escape_xml_eq)
qed

end
