(* ===== verification/Xml_Parse.thy ===== *)
theory Xml_Parse
  imports Xml_Render
begin

text \<open>
  The parsers of the XML documents clients send (\<^verbatim>\<open>src/src/utils/xml/parse.rs\<close>), each a loop over the
  events of the reader with the local variables of the code as its state. The reader ends with the
  end of the document or with its first error.
\<close>

definition read_failed :: "string \<Rightarrow> string" where
  "read_failed e = ''XML parse error: '' @ e"

definition parse_u32 :: "string \<Rightarrow> nat option" where
  "parse_u32 = parse_uint (2 ^ 32 - 1)"

section \<open>Completion manifests\<close>

record manifest_state =
  ms_parts :: "(nat \<times> string) list"
  ms_current_tag :: "string option"
  ms_text :: string
  ms_part_number :: "nat option"
  ms_etag :: "string option"

definition manifest_field :: "manifest_state \<Rightarrow> (string, manifest_state) result" where
  "manifest_field st =
     (if ms_current_tag st = Some ''PartNumber'' then
        (case parse_u32 (ms_text st) of
           Some n \<Rightarrow> Ok (st\<lparr>ms_part_number := Some n\<rparr>)
         | None \<Rightarrow> Err ''Invalid PartNumber'')
      else if ms_current_tag st = Some ''ETag'' then Ok (st\<lparr>ms_etag := Some (trim_quotes (ms_text st))\<rparr>)
      else Ok st)"

definition manifest_part :: "string \<Rightarrow> manifest_state \<Rightarrow> (string, manifest_state) result" where
  "manifest_part name st =
     (if name = ''Part'' then
        (case ms_part_number st of
           None \<Rightarrow> Err ''Missing PartNumber''
         | Some n \<Rightarrow>
             (case ms_etag st of
                None \<Rightarrow> Err ''Missing ETag''
              | Some e \<Rightarrow> Ok (st\<lparr>ms_parts := ms_parts st @ [(n, e)], ms_part_number := None, ms_etag := None\<rparr>)))
      else Ok st)"

fun manifest_event :: "xml_lib \<Rightarrow> manifest_state \<Rightarrow> xml_event \<Rightarrow> (string, manifest_state) result" where
  "manifest_event L st (StartTag name _ _) = Ok (st\<lparr>ms_current_tag := Some name, ms_text := []\<rparr>)"
| "manifest_event L st (CharText t) =
     bind_result (xl_unescape L t) (\<lambda>v. Ok (st\<lparr>ms_text := ms_text st @ v\<rparr>))"
| "manifest_event L st (CDataText t) = Ok (st\<lparr>ms_text := ms_text st @ t\<rparr>)"
| "manifest_event L st (GeneralRef r) =
     bind_result (xl_unescape L (CHR ''&'' # r @ '';'')) (\<lambda>v. Ok (st\<lparr>ms_text := ms_text st @ v\<rparr>))"
| "manifest_event L st (EndTag name _) =
     bind_result (manifest_field st) (\<lambda>st.
     bind_result (manifest_part name st) (\<lambda>st. Ok (st\<lparr>ms_current_tag := None, ms_text := []\<rparr>)))"
| "manifest_event L st (ReadError e) = Err (read_failed e)"
| "manifest_event L st _ = Ok st"

text \<open>A loop over the events of a document.\<close>

fun event_loop :: "('s \<Rightarrow> xml_event \<Rightarrow> (string, 's) result) \<Rightarrow> 's \<Rightarrow> xml_event list \<Rightarrow> (string, 's) result" where
  "event_loop step st [] = Ok st"
| "event_loop step st (e # es) = bind_result (step st e) (\<lambda>st'. event_loop step st' es)"

definition parse_complete_multipart_upload_xml :: "xml_lib \<Rightarrow> string \<Rightarrow> (string, (nat \<times> string) list) result" where
  "parse_complete_multipart_upload_xml L body =
     bind_result
       (event_loop (manifest_event L)
         \<lparr>ms_parts = [], ms_current_tag = None, ms_text = [], ms_part_number = None, ms_etag = None\<rparr>
         (xl_events L True body)) (\<lambda>st.
     if ms_parts st = [] then Err ''CompleteMultipartUpload requires at least one Part'' else Ok (ms_parts st))"

section \<open>Versioning\<close>

record versioning_state =
  vs_in_status :: bool
  vs_enabled :: bool

fun versioning_event :: "xml_lib \<Rightarrow> versioning_state \<Rightarrow> xml_event \<Rightarrow> (string, versioning_state) result" where
  "versioning_event L st (StartTag name _ _) = Ok (if name = ''Status'' then st\<lparr>vs_in_status := True\<rparr> else st)"
| "versioning_event L st (EndTag name _) = Ok (if name = ''Status'' then st\<lparr>vs_in_status := False\<rparr> else st)"
| "versioning_event L st (CharText t) =
     (if vs_in_status st then bind_result (xl_unescape L t) (\<lambda>v. Ok (st\<lparr>vs_enabled := (v = ''Enabled'')\<rparr>))
      else Ok st)"
| "versioning_event L st (ReadError e) = Err (read_failed e)"
| "versioning_event L st _ = Ok st"

definition parse_versioning_xml :: "xml_lib \<Rightarrow> string \<Rightarrow> (string, bool) result" where
  "parse_versioning_xml L body =
     bind_result (event_loop (versioning_event L) \<lparr>vs_in_status = False, vs_enabled = False\<rparr> (xl_events L True body))
       (\<lambda>st. Ok (vs_enabled st))"

section \<open>Tags\<close>

record tagging_state =
  ts_in_key :: bool
  ts_in_value :: bool
  ts_current_key :: "string option"
  ts_tags :: "(string, string) smap"

definition set_tag_flag :: "string \<Rightarrow> bool \<Rightarrow> tagging_state \<Rightarrow> tagging_state" where
  "set_tag_flag name b st =
     (if name = ''Key'' then st\<lparr>ts_in_key := b\<rparr> else if name = ''Value'' then st\<lparr>ts_in_value := b\<rparr> else st)"

fun tagging_event :: "xml_lib \<Rightarrow> tagging_state \<Rightarrow> xml_event \<Rightarrow> (string, tagging_state) result" where
  "tagging_event L st (StartTag name _ _) = Ok (set_tag_flag name True st)"
| "tagging_event L st (EndTag name _) = Ok (set_tag_flag name False st)"
| "tagging_event L st (CharText t) =
     bind_result (xl_unescape L t) (\<lambda>v.
     if ts_in_key st then Ok (st\<lparr>ts_current_key := Some v\<rparr>)
     else if ts_in_value st then
       (case ts_current_key st of
          Some k \<Rightarrow> Ok (st\<lparr>ts_current_key := None, ts_tags := sm_insert k v (ts_tags st)\<rparr>)
        | None \<Rightarrow> Err ''InvalidTagKey'')
     else Ok st)"
| "tagging_event L st (ReadError e) = Err e"
| "tagging_event L st _ = Ok st"

fun check_tags :: "(string \<times> string) list \<Rightarrow> (string, unit) result" where
  "check_tags [] = Ok ()"
| "check_tags ((k, v) # rest) =
     (if k = [] then Err ''InvalidTagKey''
      else if length k > 128 then Err ''InvalidTagKey''
      else if length v > 256 then Err ''InvalidTagValue''
      else check_tags rest)"

definition parse_tagging_xml :: "xml_lib \<Rightarrow> string \<Rightarrow> (string, (string, string) smap) result" where
  "parse_tagging_xml L body =
     bind_result
       (event_loop (tagging_event L)
         \<lparr>ts_in_key = False, ts_in_value = False, ts_current_key = None, ts_tags = []\<rparr> (xl_events L True body)) (\<lambda>st.
     if length (ts_tags st) > 10 then Err ''TooManyTags''
     else bind_result (check_tags (ts_tags st)) (\<lambda>_. Ok (ts_tags st)))"

section \<open>Access control lists\<close>

record acl_state =
  as_grants :: "grant list"
  as_in_grant :: bool
  as_current_tag :: "string option"
  as_id :: "string option"
  as_display_name :: "string option"
  as_uri :: "string option"
  as_permission :: "permission option"

definition parse_permission :: "string \<Rightarrow> (string, permission) result" where
  "parse_permission t =
     (if t = ''READ'' then Ok Read
      else if t = ''WRITE'' then Ok Write
      else if t = ''READ_ACP'' then Ok ReadAcp
      else if t = ''WRITE_ACP'' then Ok WriteAcp
      else if t = ''FULL_CONTROL'' then Ok FullControl
      else Err (''Unsupported ACL permission: '' @ t))"

definition close_grant :: "acl_state \<Rightarrow> (string, acl_state) result" where
  "close_grant st =
     (case as_permission st of
        None \<Rightarrow> Err ''Missing ACL permission''
      | Some p \<Rightarrow>
          (case as_id st of
             Some i \<Rightarrow> Ok (st\<lparr>as_grants := as_grants st @ [\<lparr>grantee = CanonicalUser i (as_display_name st), permission = p\<rparr>],
                              as_permission := None, as_id := None, as_display_name := None, as_in_grant := False\<rparr>)
           | None \<Rightarrow>
               (case as_uri st of
                  Some u \<Rightarrow> Ok (st\<lparr>as_grants := as_grants st @ [\<lparr>grantee = Group u, permission = p\<rparr>],
                                   as_permission := None, as_uri := None, as_in_grant := False\<rparr>)
                | None \<Rightarrow> Err ''Missing ACL grantee'')))"

definition acl_text :: "acl_state \<Rightarrow> string \<Rightarrow> (string, acl_state) result" where
  "acl_text st t =
     (if as_current_tag st = Some ''ID'' then Ok (st\<lparr>as_id := Some t\<rparr>)
      else if as_current_tag st = Some ''DisplayName'' then Ok (st\<lparr>as_display_name := Some t\<rparr>)
      else if as_current_tag st = Some ''URI'' then Ok (st\<lparr>as_uri := Some t\<rparr>)
      else if as_current_tag st = Some ''Permission'' then
        bind_result (parse_permission t) (\<lambda>p. Ok (st\<lparr>as_permission := Some p\<rparr>))
      else Ok st)"

fun acl_event :: "xml_lib \<Rightarrow> acl_state \<Rightarrow> xml_event \<Rightarrow> (string, acl_state) result" where
  "acl_event L st (StartTag name _ _) =
     Ok ((if name = ''Grant''
          then st\<lparr>as_in_grant := True, as_id := None, as_display_name := None, as_uri := None, as_permission := None\<rparr>
          else st)\<lparr>as_current_tag := Some name\<rparr>)"
| "acl_event L st (EndTag name _) =
     bind_result (if name = ''Grant'' then close_grant st else Ok st) (\<lambda>st. Ok (st\<lparr>as_current_tag := None\<rparr>))"
| "acl_event L st (CharText t) =
     (if \<not> as_in_grant st then Ok st else bind_result (xl_unescape L t) (\<lambda>v. acl_text st v))"
| "acl_event L st (ReadError e) = Err (read_failed e)"
| "acl_event L st _ = Ok st"

definition parse_acl_xml :: "xml_lib \<Rightarrow> string \<Rightarrow> (string, acl) result" where
  "parse_acl_xml L body =
     bind_result
       (event_loop (acl_event L)
         \<lparr>as_grants = [], as_in_grant = False, as_current_tag = None, as_id = None, as_display_name = None,
          as_uri = None, as_permission = None\<rparr> (xl_events L True body)) (\<lambda>st.
     Ok \<lparr>canned = Private, grants = as_grants st\<rparr>)"

section \<open>Lifecycle configurations\<close>

record lifecycle_parse_state =
  ls_rules :: "rule list"
  ls_rule :: "rule option"
  ls_filter :: "lifecycle_filter option"
  ls_expiration :: "expiration option"
  ls_noncurrent :: "noncurrent_version_expiration option"
  ls_transition :: "transition option"
  ls_tag :: "(string \<times> string) option"
  ls_text :: string

definition ls_new_rule :: rule where
  "ls_new_rule =
     \<lparr>rule_id = None, rule_status = Disabled, rule_filter = None, rule_expiration = None, rule_noncurrent = None,
      rule_transitions = []\<rparr>"

definition ls_new_expiration :: expiration where
  "ls_new_expiration = \<lparr>exp_days = None, exp_date = None, exp_delete_marker = None\<rparr>"

definition ls_new_transition :: transition where
  "ls_new_transition = \<lparr>tr_days = None, tr_date = None, tr_storage_class = Standard\<rparr>"

definition ls_start :: "string \<Rightarrow> lifecycle_parse_state \<Rightarrow> lifecycle_parse_state" where
  "ls_start name st =
     (if name = ''Rule'' then st\<lparr>ls_rule := Some ls_new_rule\<rparr>
      else if name = ''Filter'' then st\<lparr>ls_filter := Some \<lparr>filter_prefix = None, filter_tags = []\<rparr>\<rparr>
      else if name = ''Expiration'' then st\<lparr>ls_expiration := Some ls_new_expiration\<rparr>
      else if name = ''NoncurrentVersionExpiration'' then st\<lparr>ls_noncurrent := Some \<lparr>noncurrent_days = 0\<rparr>\<rparr>
      else if name = ''Transition'' then st\<lparr>ls_transition := Some ls_new_transition\<rparr>
      else if name = ''Tag'' then st\<lparr>ls_tag := Some ([], [])\<rparr>
      else st)\<lparr>ls_text := []\<rparr>"

definition end_rule_field :: "string \<Rightarrow> lifecycle_parse_state \<Rightarrow> lifecycle_parse_state" where
  "end_rule_field name st =
     (case ls_rule st of
        None \<Rightarrow> st
      | Some r \<Rightarrow>
          if name = ''ID'' then st\<lparr>ls_rule := Some (r\<lparr>rule_id := Some (ls_text st)\<rparr>)\<rparr>
          else if name = ''Status''
          then st\<lparr>ls_rule := Some (r\<lparr>rule_status := (if ls_text st = ''Enabled'' then Enabled else Disabled)\<rparr>)\<rparr>
          else st)"

definition finish_tag :: "lifecycle_parse_state \<Rightarrow> lifecycle_parse_state" where
  "finish_tag st =
     (case (ls_filter st, ls_tag st) of
        (Some f, Some (k, v)) \<Rightarrow>
          st\<lparr>ls_tag := None, ls_filter := Some (f\<lparr>filter_tags := filter_tags f @ [\<lparr>tag_key = k, tag_value = v\<rparr>]\<rparr>)\<rparr>
      | _ \<Rightarrow> st\<lparr>ls_tag := None\<rparr>)"

definition end_filter_field :: "string \<Rightarrow> lifecycle_parse_state \<Rightarrow> lifecycle_parse_state" where
  "end_filter_field name st =
     (if name = ''Prefix'' then
        st\<lparr>ls_filter := map_option (\<lambda>f. f\<lparr>filter_prefix := Some (ls_text st)\<rparr>) (ls_filter st)\<rparr>
      else if name = ''Key'' then st\<lparr>ls_tag := map_option (\<lambda>(k, v). (ls_text st, v)) (ls_tag st)\<rparr>
      else if name = ''Value'' then st\<lparr>ls_tag := map_option (\<lambda>(k, v). (k, ls_text st)) (ls_tag st)\<rparr>
      else if name = ''Tag'' then finish_tag st
      else st)"

definition set_days :: "lifecycle_parse_state \<Rightarrow> lifecycle_parse_state" where
  "set_days st =
     (case parse_u32 (ls_text st) of
        None \<Rightarrow> st
      | Some days \<Rightarrow>
          (case ls_expiration st of
             Some e \<Rightarrow> st\<lparr>ls_expiration := Some (e\<lparr>exp_days := Some days\<rparr>)\<rparr>
           | None \<Rightarrow> st\<lparr>ls_transition := map_option (\<lambda>t. t\<lparr>tr_days := Some days\<rparr>) (ls_transition st)\<rparr>))"

definition set_noncurrent_days :: "lifecycle_parse_state \<Rightarrow> lifecycle_parse_state" where
  "set_noncurrent_days st =
     (case (parse_u32 (ls_text st), ls_noncurrent st) of
        (Some days, Some n) \<Rightarrow> st\<lparr>ls_noncurrent := Some (n\<lparr>noncurrent_days := days\<rparr>)\<rparr>
      | _ \<Rightarrow> st)"

definition set_date :: "lifecycle_parse_state \<Rightarrow> lifecycle_parse_state" where
  "set_date st =
     (case ls_expiration st of
        Some e \<Rightarrow> st\<lparr>ls_expiration := Some (e\<lparr>exp_date := Some (ls_text st)\<rparr>)\<rparr>
      | None \<Rightarrow> st\<lparr>ls_transition := map_option (\<lambda>t. t\<lparr>tr_date := Some (ls_text st)\<rparr>) (ls_transition st)\<rparr>)"

definition set_expired_marker :: "lifecycle_parse_state \<Rightarrow> lifecycle_parse_state" where
  "set_expired_marker st =
     st\<lparr>ls_expiration := map_option (\<lambda>e. e\<lparr>exp_delete_marker := Some (ls_text st = ''true'')\<rparr>) (ls_expiration st)\<rparr>"

definition set_storage_class :: "lifecycle_parse_state \<Rightarrow> lifecycle_parse_state" where
  "set_storage_class st =
     st\<lparr>ls_transition := map_option (\<lambda>t. t\<lparr>tr_storage_class :=
          (if ls_text st = ''GLACIER'' then Glacier
           else if ls_text st = ''DEEP_ARCHIVE'' then DeepArchive else Standard)\<rparr>) (ls_transition st)\<rparr>"

definition end_action_field :: "string \<Rightarrow> lifecycle_parse_state \<Rightarrow> lifecycle_parse_state" where
  "end_action_field name st =
     (if name = ''Days'' then set_days st
      else if name = ''NoncurrentDays'' then set_noncurrent_days st
      else if name = ''Date'' then set_date st
      else if name = ''ExpiredObjectDeleteMarker'' then set_expired_marker st
      else if name = ''StorageClass'' then set_storage_class st
      else st)"

text \<open>What is being closed is taken out of the state even when no rule is open to receive it.\<close>

definition finish_noncurrent_expiration :: "lifecycle_parse_state \<Rightarrow> lifecycle_parse_state" where
  "finish_noncurrent_expiration st =
     (case (ls_rule st, ls_noncurrent st) of
        (Some r, Some n) \<Rightarrow> st\<lparr>ls_rule := Some (r\<lparr>rule_noncurrent := Some n\<rparr>), ls_noncurrent := None\<rparr>
      | _ \<Rightarrow> st\<lparr>ls_noncurrent := None\<rparr>)"

definition finish_transition :: "lifecycle_parse_state \<Rightarrow> lifecycle_parse_state" where
  "finish_transition st =
     (case (ls_rule st, ls_transition st) of
        (Some r, Some t) \<Rightarrow>
          st\<lparr>ls_rule := Some (r\<lparr>rule_transitions := rule_transitions r @ [t]\<rparr>), ls_transition := None\<rparr>
      | _ \<Rightarrow> st\<lparr>ls_transition := None\<rparr>)"

definition close_element :: "string \<Rightarrow> lifecycle_parse_state \<Rightarrow> lifecycle_parse_state" where
  "close_element name st =
     (if name = ''Filter'' then
        (case (ls_rule st, ls_filter st) of
           (Some r, Some f) \<Rightarrow> st\<lparr>ls_rule := Some (r\<lparr>rule_filter := Some f\<rparr>), ls_filter := None\<rparr>
         | _ \<Rightarrow> st\<lparr>ls_filter := None\<rparr>)
      else if name = ''Expiration'' then
        (case (ls_rule st, ls_expiration st) of
           (Some r, Some e) \<Rightarrow> st\<lparr>ls_rule := Some (r\<lparr>rule_expiration := Some e\<rparr>), ls_expiration := None\<rparr>
         | _ \<Rightarrow> st\<lparr>ls_expiration := None\<rparr>)
      else if name = ''NoncurrentVersionExpiration'' then finish_noncurrent_expiration st
      else if name = ''Transition'' then finish_transition st
      else if name = ''Rule'' then
        (case ls_rule st of
           Some r \<Rightarrow> st\<lparr>ls_rules := ls_rules st @ [r], ls_rule := None\<rparr>
         | None \<Rightarrow> st)
      else st)"

definition ls_end :: "string \<Rightarrow> lifecycle_parse_state \<Rightarrow> lifecycle_parse_state" where
  "ls_end name st =
     (close_element name (end_action_field name (end_filter_field name (end_rule_field name st))))\<lparr>ls_text := []\<rparr>"

fun lifecycle_event :: "xml_lib \<Rightarrow> lifecycle_parse_state \<Rightarrow> xml_event \<Rightarrow> (string, lifecycle_parse_state) result" where
  "lifecycle_event L st (StartTag name _ _) = Ok (ls_start name st)"
| "lifecycle_event L st (CharText t) =
     Ok (st\<lparr>ls_text := (case xl_unescape L t of Ok v \<Rightarrow> v | Err _ \<Rightarrow> [])\<rparr>)"
| "lifecycle_event L st (EndTag name _) = Ok (ls_end name st)"
| "lifecycle_event L st (ReadError e) = Err (read_failed e)"
| "lifecycle_event L st _ = Ok st"

definition ls_initial :: lifecycle_parse_state where
  "ls_initial =
     \<lparr>ls_rules = [], ls_rule = None, ls_filter = None, ls_expiration = None, ls_noncurrent = None,
      ls_transition = None, ls_tag = None, ls_text = []\<rparr>"

definition parse_lifecycle_xml :: "xml_lib \<Rightarrow> string \<Rightarrow> (string, lifecycle_configuration) result" where
  "parse_lifecycle_xml L body =
     bind_result (event_loop (lifecycle_event L) ls_initial (xl_events L True body))
       (\<lambda>st. Ok \<lparr>rules = ls_rules st\<rparr>)"

end
