(* ===== verification/S3_Responses.thy ===== *)
theory S3_Responses
  imports Xml_Parse Authorization Services Listing Validation
begin

text \<open>
  What the S3 interface answers with, and how a request finds its handler: the response builder and
  the router of \<^verbatim>\<open>src/src/server/http.rs\<close>, and the response helpers of \<^verbatim>\<open>src/src/services/mod.rs\<close>.

  A response is its status, its headers and its body; a body is the payload of an object or a
  document, kept as the value it is rendered from. The two correlation identifiers
  (\<^verbatim>\<open>x-amz-request-id\<close> and \<^verbatim>\<open>x-amz-id-2\<close>), fresh UUIDs on every response, are left out, and so is
  the length header of a document, which is the length of its rendering. The library functions the
  handlers call are the fields of \<open>s3_lib\<close>.
\<close>

record s3_lib =
  s3_sign :: sign_lib
  s3_xml :: xml_lib
  s3_digests :: digests
  s3_base64_decode :: "string \<Rightarrow> bytes option"
  s3_header_ok :: "string \<Rightarrow> string \<Rightarrow> bool"    \<comment> \<open>name and value are accepted as a header\<close>
  s3_http_date :: "datetime \<Rightarrow> string"             \<comment> \<open>\<open>format_last_modified_at\<close>\<close>
  s3_utf8 :: "bytes \<Rightarrow> (string, string) result"
  s3_json_tags :: "strmap \<Rightarrow> string"
  s3_token_encode :: "string \<Rightarrow> string"            \<comment> \<open>URL-safe base64 of a text\<close>
  s3_token_decode :: "string \<Rightarrow> string option"
  s3_parse_policy :: "string \<Rightarrow> (string, bucket_policy_document) result"
  s3_show_policy :: "bucket_policy_document \<Rightarrow> string"
  s3_decode_error :: "string \<Rightarrow> string"             \<comment> \<open>the text of a failed URL decoding\<close>

abbreviation s3_decode :: "s3_lib \<Rightarrow> string \<Rightarrow> string option" where
  "s3_decode L \<equiv> sl_url_decode (s3_sign L)"

section \<open>Documents\<close>

datatype s3_document =
    ErrorDocument string string
  | TaggingDocument strmap
  | AclDocument "string \<times> string" acl
  | PartsDocument list_parts_result
  | CopyPartDocument datetime string
  | CopyObjectDocument string datetime
  | CompleteDocument string string string "string option"
  | InitiateDocument string string string
  | BucketsDocument "bucket list"
  | ObjectsDocument "object list" "string list" string string "string option" "string option" nat bool "string option"
  | ObjectsV2Document "list_objects_v2_entry list" string string "string option" nat nat bool "string option"
      "string option" "string option" "string option" bool
  | VersionsDocument string "object list" string "string option" "string option" nat bool "string option" "string option"
  | VersioningDocument "string option"
  | LocationDocument string
  | UploadsDocument list_multipart_uploads_result
  | LifecycleDocument lifecycle_configuration
  | TextDocument string

definition copy_part_xml :: "xml_lib \<Rightarrow> datetime \<Rightarrow> string \<Rightarrow> string" where
  "copy_part_xml L now etag =
     xml_declaration
     @ line (element ''CopyPartResult'' (element ''LastModified'' (xl_rfc3339 L now) @ element ''ETag'' etag))"

definition copy_object_xml :: "s3_lib \<Rightarrow> string \<Rightarrow> datetime \<Rightarrow> string" where
  "copy_object_xml L etag modified =
     xml_declaration
     @ line (namespaced ''CopyObjectResult'' @ ''>'')
     @ line (''    '' @ element ''ETag'' etag)
     @ line (''    '' @ element ''LastModified'' (s3_http_date L modified))
     @ line (close_tag ''CopyObjectResult'')"

text \<open>The checksum is spliced in before the closing tag, which the document has once at its end.\<close>

definition complete_with_checksum_xml :: "string \<Rightarrow> string \<Rightarrow> string \<Rightarrow> string option \<Rightarrow> string" where
  "complete_with_checksum_xml bucket key etag crc =
     (let xml = complete_multipart_upload_xml bucket key etag; tail = close_tag ''CompleteMultipartUploadResult'' in
      case crc of
        None \<Rightarrow> xml
      | Some c \<Rightarrow>
          take (length xml - length tail) xml
          @ element ''ChecksumCRC32C'' c @ element ''ChecksumType'' ''FULL_OBJECT'' @ tail)"

fun render_document :: "s3_lib \<Rightarrow> externs \<Rightarrow> string \<Rightarrow> string \<Rightarrow> s3_document \<Rightarrow> string" where
  "render_document L x req_id host_id (ErrorDocument code message) = error_xml_with_host_id code message req_id host_id"
| "render_document L x req_id host_id (TaggingDocument tags) = tagging_xml tags"
| "render_document L x req_id host_id (AclDocument owner a) = acl_xml owner a"
| "render_document L x req_id host_id (PartsDocument r) = list_parts_xml (s3_xml L) x r"
| "render_document L x req_id host_id (CopyPartDocument now etag) = copy_part_xml (s3_xml L) now etag"
| "render_document L x req_id host_id (CopyObjectDocument etag modified) = copy_object_xml L etag modified"
| "render_document L x req_id host_id (CompleteDocument bucket key etag crc) = complete_with_checksum_xml bucket key etag crc"
| "render_document L x req_id host_id (InitiateDocument bucket key uid) = initiate_multipart_xml bucket key uid"
| "render_document L x req_id host_id (BucketsDocument bs) = list_buckets_xml (s3_xml L) bs"
| "render_document L x req_id host_id (ObjectsDocument obs folders bucket pfx delimiter marker max_keys truncated next_mark) =
     list_objects_xml (s3_xml L) obs folders bucket pfx delimiter marker max_keys truncated next_mark"
| "render_document L x req_id host_id
     (ObjectsV2Document entries bucket pfx delimiter max_keys key_count truncated token next_token start_after enc owner) =
     list_objects_v2_xml (s3_xml L) entries bucket pfx delimiter max_keys key_count truncated token next_token start_after enc owner"
| "render_document L x req_id host_id (VersionsDocument bucket vs pfx km vm max_keys truncated nkm nvm) =
     list_versions_xml (s3_xml L) bucket vs pfx km vm max_keys truncated nkm nvm"
| "render_document L x req_id host_id (VersioningDocument status) = versioning_status_xml status"
| "render_document L x req_id host_id (LocationDocument region) = location_xml region"
| "render_document L x req_id host_id (UploadsDocument r) = list_multipart_uploads_xml (s3_xml L) r"
| "render_document L x req_id host_id (LifecycleDocument c) = lifecycle_xml c"
| "render_document L x req_id host_id (TextDocument t) = t"

section \<open>Responses\<close>

datatype s3_body = NoBody | Payload bytes | Document s3_document

record s3_response =
  sr_status :: nat
  sr_headers :: "(string \<times> string) list"
  sr_body :: s3_body

definition new_response :: "nat \<Rightarrow> s3_response" where
  "new_response status = \<lparr>sr_status = status, sr_headers = [], sr_body = NoBody\<rparr>"

text \<open>A header that is not valid is dropped; a repeated name replaces the value.\<close>

definition with_header :: "s3_lib \<Rightarrow> string \<Rightarrow> string \<Rightarrow> s3_response \<Rightarrow> s3_response" where
  "with_header L name value r =
     (if s3_header_ok L name value
      then r\<lparr>sr_headers := AList.update (to_ascii_lowercase name) value (sr_headers r)\<rparr> else r)"

definition with_optional_header :: "s3_lib \<Rightarrow> string \<Rightarrow> string option \<Rightarrow> s3_response \<Rightarrow> s3_response" where
  "with_optional_header L name value r = (case value of Some v \<Rightarrow> with_header L name v r | None \<Rightarrow> r)"

definition content_type_header :: "s3_lib \<Rightarrow> string \<Rightarrow> s3_response \<Rightarrow> s3_response" where
  "content_type_header L ct = with_header L ''content-type'' ct"

definition with_payload :: "s3_lib \<Rightarrow> bytes \<Rightarrow> s3_response \<Rightarrow> s3_response" where
  "with_payload L data r =
     (if data \<noteq> [] \<and> map_of (sr_headers r) ''content-length'' = None
      then r\<lparr>sr_headers := AList.update ''content-length'' (show_nat (length data)) (sr_headers r), sr_body := Payload data\<rparr>
      else r\<lparr>sr_body := Payload data\<rparr>)"

definition with_document :: "s3_document \<Rightarrow> s3_response \<Rightarrow> s3_response" where
  "with_document d r = r\<lparr>sr_body := Document d\<rparr>"

definition xml_type :: string where
  "xml_type = ''application/xml; charset=utf-8''"

definition s3_error :: "s3_lib \<Rightarrow> nat \<Rightarrow> string \<Rightarrow> string \<Rightarrow> s3_response" where
  "s3_error L status code message =
     with_document (ErrorDocument code message) (content_type_header L xml_type (new_response status))"

definition s3_of_xml_error :: "s3_lib \<Rightarrow> xml_error \<Rightarrow> s3_response" where
  "s3_of_xml_error L e = s3_error L (xe_status e) (xe_code e) (xe_message e)"

definition xml_success_response :: "s3_lib \<Rightarrow> nat \<Rightarrow> s3_document \<Rightarrow> s3_response" where
  "xml_success_response L status d = with_document d (content_type_header L xml_type (new_response status))"

definition empty_success_response :: "nat \<Rightarrow> s3_response" where
  "empty_success_response status = new_response status"

definition storage_error_response :: "s3_lib \<Rightarrow> error \<Rightarrow> s3_response" where
  "storage_error_response L e = s3_error L (status_code e) (error_code e) (error_text e)"

definition internal_error_response :: "s3_lib \<Rightarrow> error \<Rightarrow> s3_response" where
  "internal_error_response L e = s3_error L 500 ''InternalError'' (error_text e)"

section \<open>Routes\<close>

datatype route_match =
    RListBuckets
  | RBucketGet string | RBucketPut string | RBucketDelete string | RBucketHead string | RBucketPost string
  | RObjectGet string string | RObjectPut string string | RObjectDelete string string | RObjectHead string string
  | RObjectPost string string
  | RInvalidObjectPath
  | RNotFound

definition aws_endpoint :: "string \<Rightarrow> bool" where
  "aws_endpoint endpoint \<longleftrightarrow>
     endpoint = ''s3.amazonaws.com'' \<or>
     ((suffix ''.amazonaws.com'' endpoint \<or> suffix ''.amazonaws.com.cn'' endpoint) \<and>
      (prefix ''s3.'' endpoint \<or> prefix ''s3-'' endpoint \<or> prefix ''s3-accelerate.'' endpoint) \<and>
      \<not> prefix ''s3-accesspoint'' endpoint \<and> \<not> prefix ''s3-control'' endpoint \<and>
      \<not> prefix ''s3-object-lambda'' endpoint \<and> \<not> prefix ''s3-outposts'' endpoint)"

definition bucket_from_host :: "string \<Rightarrow> string option" where
  "bucket_from_host host =
     (let host_without_port = hd (split_on (CHR '':'') host);
          lowercase = to_ascii_lowercase host_without_port
      in
      case strip_suffix ''.localhost'' lowercase of
        Some bucket \<Rightarrow> if bucket = [] then None else Some (take (length bucket) host_without_port)
      | None \<Rightarrow>
          (case find_str ''.s3'' lowercase of
             None \<Rightarrow> None
           | Some marker \<Rightarrow>
               if 0 < marker \<and> aws_endpoint (drop (marker + 1) lowercase) then Some (take marker host_without_port)
               else None))"

definition bucket_route :: "string \<Rightarrow> string \<Rightarrow> route_match" where
  "bucket_route meth bucket =
     (if meth = ''GET'' \<or> meth = ''OPTIONS'' then RBucketGet bucket
      else if meth = ''PUT'' then RBucketPut bucket
      else if meth = ''DELETE'' then RBucketDelete bucket
      else if meth = ''HEAD'' then RBucketHead bucket
      else if meth = ''POST'' then RBucketPost bucket
      else RNotFound)"

definition object_route :: "s3_lib \<Rightarrow> string \<Rightarrow> string \<Rightarrow> string \<Rightarrow> route_match" where
  "object_route L meth bucket encoded_key =
     (case decode_uri_path (s3_decode L) encoded_key of
        Err _ \<Rightarrow> RInvalidObjectPath
      | Ok key \<Rightarrow>
          if meth = ''GET'' \<or> meth = ''OPTIONS'' then RObjectGet bucket key
          else if meth = ''PUT'' then RObjectPut bucket key
          else if meth = ''DELETE'' then RObjectDelete bucket key
          else if meth = ''HEAD'' then RObjectHead bucket key
          else if meth = ''POST'' then RObjectPost bucket key
          else RNotFound)"

definition route_from_parts :: "s3_lib \<Rightarrow> string \<Rightarrow> string \<Rightarrow> string option \<Rightarrow> route_match" where
  "route_from_parts L meth uri_path host =
     (let p = (case strip_prefix ''/'' uri_path of Some q \<Rightarrow> q | None \<Rightarrow> uri_path) in
      case Option.bind host bucket_from_host of
        Some bucket \<Rightarrow> if p = [] then bucket_route meth bucket else object_route L meth bucket p
      | None \<Rightarrow>
          if p = [] then (if meth = ''GET'' then RListBuckets else RNotFound)
          else
            (case split_once (CHR ''/'') p of
               Some (bucket, key) \<Rightarrow>
                 if bucket \<noteq> [] \<and> key \<noteq> [] then object_route L meth bucket key
                 else if bucket \<noteq> [] then bucket_route meth bucket
                 else RNotFound
             | None \<Rightarrow> bucket_route meth p))"

definition s3_route :: "s3_lib \<Rightarrow> request \<Rightarrow> route_match" where
  "s3_route L req = route_from_parts L (req_method req) (req_path req) (header req ''host'')"

end
