(* ===== verification/Cors.thy ===== *)
theory Cors
  imports S3_Responses
begin

text \<open>
  Cross-origin requests (\<^verbatim>\<open>src/src/server/handlers/cors.rs\<close>): the rules stored with a bucket, the match of
  a request against them, and the headers of an answer.
\<close>

definition S3_CORS_XML_KEY :: string where "S3_CORS_XML_KEY = ''s3_cors_xml''"

record cors_rule =
  cr_allowed_origins :: "string list"
  cr_allowed_methods :: "string list"
  cr_allowed_headers :: "string list"
  cr_expose_headers :: "string list"
  cr_max_age_seconds :: "string option"

datatype cors_field = AllowedOrigin | AllowedMethod | AllowedHeader | ExposeHeader | MaxAgeSeconds

definition cors_rule_default :: cors_rule where
  "cors_rule_default =
     \<lparr>cr_allowed_origins = [], cr_allowed_methods = [], cr_allowed_headers = [], cr_expose_headers = [],
      cr_max_age_seconds = None\<rparr>"

section \<open>The stored rules\<close>

record cors_state =
  cs_rules :: "cors_rule list"
  cs_current_rule :: "cors_rule option"
  cs_current_field :: "cors_field option"

definition cors_field_named :: "string \<Rightarrow> cors_field option" where
  "cors_field_named name =
     (if name = ''AllowedOrigin'' then Some AllowedOrigin
      else if name = ''AllowedMethod'' then Some AllowedMethod
      else if name = ''AllowedHeader'' then Some AllowedHeader
      else if name = ''ExposeHeader'' then Some ExposeHeader
      else if name = ''MaxAgeSeconds'' then Some MaxAgeSeconds
      else None)"

fun cors_set_field :: "cors_field option \<Rightarrow> string \<Rightarrow> cors_rule \<Rightarrow> cors_rule" where
  "cors_set_field (Some AllowedOrigin) v r = r\<lparr>cr_allowed_origins := cr_allowed_origins r @ [v]\<rparr>"
| "cors_set_field (Some AllowedMethod) v r = r\<lparr>cr_allowed_methods := cr_allowed_methods r @ [v]\<rparr>"
| "cors_set_field (Some AllowedHeader) v r = r\<lparr>cr_allowed_headers := cr_allowed_headers r @ [v]\<rparr>"
| "cors_set_field (Some ExposeHeader) v r = r\<lparr>cr_expose_headers := cr_expose_headers r @ [v]\<rparr>"
| "cors_set_field (Some MaxAgeSeconds) v r = r\<lparr>cr_max_age_seconds := Some v\<rparr>"
| "cors_set_field None v r = r"

fun cors_event :: "xml_lib \<Rightarrow> cors_state \<Rightarrow> xml_event \<Rightarrow> (string, cors_state) result" where
  "cors_event L st (StartTag name _ _) =
     Ok (if name = ''CORSRule'' then st\<lparr>cs_current_rule := Some cors_rule_default\<rparr>
         else case cors_field_named name of Some f \<Rightarrow> st\<lparr>cs_current_field := Some f\<rparr> | None \<Rightarrow> st)"
| "cors_event L st (EndTag name _) =
     Ok (if name = ''CORSRule'' then
           (case cs_current_rule st of
              Some r \<Rightarrow> st\<lparr>cs_rules := cs_rules st @ [r], cs_current_rule := None\<rparr>
            | None \<Rightarrow> st)
         else if cors_field_named name \<noteq> None then st\<lparr>cs_current_field := None\<rparr> else st)"
| "cors_event L st (CharText t) =
     (case cs_current_rule st of
        None \<Rightarrow> Ok st
      | Some r \<Rightarrow>
          bind_result (xl_unescape L t) (\<lambda>v.
          Ok (st\<lparr>cs_current_rule := Some (cors_set_field (cs_current_field st) v r)\<rparr>)))"
| "cors_event L st (ReadError e) = Err (''Invalid CORS XML: '' @ e)"
| "cors_event L st _ = Ok st"

definition parse_cors_rules :: "xml_lib \<Rightarrow> string \<Rightarrow> cors_rule list res" where
  "parse_cors_rules L xml =
     (case event_loop (cors_event L) \<lparr>cs_rules = [], cs_current_rule = None, cs_current_field = None\<rparr> (xl_events L True xml) of
        Ok st \<Rightarrow> Ok (cs_rules st)
      | Err message \<Rightarrow> Err (InvalidRequest message))"

definition load_rules :: "s3_lib \<Rightarrow> string \<Rightarrow> cors_rule list io" where
  "load_rules L bucket =
     bind_io (get_bucket bucket) (\<lambda>b.
     case bucket_metadata b S3_CORS_XML_KEY of
       None \<Rightarrow> return []
     | Some xml \<Rightarrow> of_result (parse_cors_rules (s3_xml L) xml))"

section \<open>Matching\<close>

definition allowed_origin :: "cors_rule \<Rightarrow> string \<Rightarrow> string option" where
  "allowed_origin r origin =
     (if ''*'' \<in> set (cr_allowed_origins r) then Some ''*''
      else if list_ex (\<lambda>v. eq_ignore_ascii_case v origin) (cr_allowed_origins r) then Some origin
      else None)"

definition allows_method :: "cors_rule \<Rightarrow> string \<Rightarrow> bool" where
  "allows_method r meth \<longleftrightarrow>
     list_ex (\<lambda>v. eq_ignore_ascii_case v meth \<or> (eq_ignore_ascii_case meth ''HEAD'' \<and> eq_ignore_ascii_case v ''GET''))
       (cr_allowed_methods r)"

definition allows_headers :: "cors_rule \<Rightarrow> string option \<Rightarrow> bool" where
  "allows_headers r requested =
     (case requested of
        None \<Rightarrow> True
      | Some value \<Rightarrow>
          if str_trim value = [] then True
          else if ''*'' \<in> set (cr_allowed_headers r) then True
          else
            list_all (\<lambda>part. let name = str_trim part in
                name \<noteq> [] \<and> list_ex (\<lambda>allowed. eq_ignore_ascii_case allowed name) (cr_allowed_headers r))
              (split_on (CHR '','') value))"

fun first_allowed :: "cors_rule list \<Rightarrow> string \<Rightarrow> string \<Rightarrow> string option \<Rightarrow> (cors_rule \<times> string) option" where
  "first_allowed [] origin meth requested = None"
| "first_allowed (r # rest) origin meth requested =
     (case allowed_origin r origin of
        None \<Rightarrow> first_allowed rest origin meth requested
      | Some allow_origin \<Rightarrow>
          if \<not> allows_method r meth then first_allowed rest origin meth requested
          else if \<not> allows_headers r requested then first_allowed rest origin meth requested
          else Some (r, allow_origin))"

definition matching_rule :: "s3_lib \<Rightarrow> string \<Rightarrow> string \<Rightarrow> string \<Rightarrow> string option \<Rightarrow> (cors_rule \<times> string) option io" where
  "matching_rule L bucket origin meth requested =
     bind_io (try_io (load_rules L bucket)) (\<lambda>loaded.
     return (case loaded of Ok found \<Rightarrow> first_allowed found origin meth requested | Err _ \<Rightarrow> None))"

definition matching_rule_from_xml :: "s3_lib \<Rightarrow> string \<Rightarrow> string \<Rightarrow> string \<Rightarrow> string option \<Rightarrow> (cors_rule \<times> string) option" where
  "matching_rule_from_xml L cors_xml origin meth requested =
     (case parse_cors_rules (s3_xml L) cors_xml of Ok found \<Rightarrow> first_allowed found origin meth requested | Err _ \<Rightarrow> None)"

section \<open>Headers\<close>

fun join_comma :: "string list \<Rightarrow> string" where
  "join_comma [] = []"
| "join_comma [s] = s"
| "join_comma (s # t # rest) = s @ '', '' @ join_comma (t # rest)"

definition apply_rule_headers :: "s3_lib \<Rightarrow> cors_rule \<Rightarrow> string \<Rightarrow> string option \<Rightarrow> bool \<Rightarrow> s3_response \<Rightarrow> s3_response" where
  "apply_rule_headers L r allow_origin requested preflight resp =
     (let resp = with_header L ''Access-Control-Allow-Origin'' allow_origin resp;
          resp = (if allow_origin \<noteq> ''*'' then with_header L ''Vary'' ''Origin'' resp else resp)
      in
      if preflight then
        let resp = with_header L ''Access-Control-Allow-Methods'' (join_comma (cr_allowed_methods r)) resp;
            resp = (case requested of
                      Some value \<Rightarrow>
                        if str_trim value \<noteq> [] then with_header L ''Access-Control-Allow-Headers'' value resp
                        else if cr_allowed_headers r \<noteq> []
                        then with_header L ''Access-Control-Allow-Headers'' (join_comma (cr_allowed_headers r)) resp
                        else resp
                    | None \<Rightarrow>
                        if cr_allowed_headers r \<noteq> []
                        then with_header L ''Access-Control-Allow-Headers'' (join_comma (cr_allowed_headers r)) resp
                        else resp)
        in with_optional_header L ''Access-Control-Max-Age'' (cr_max_age_seconds r) resp
      else if cr_expose_headers r \<noteq> []
      then with_header L ''Access-Control-Expose-Headers'' (join_comma (cr_expose_headers r)) resp
      else resp)"

definition is_preflight :: "request \<Rightarrow> bool" where
  "is_preflight req \<longleftrightarrow>
     req_method req = ''OPTIONS'' \<and> header req ''origin'' \<noteq> None \<and> header req ''access-control-request-method'' \<noteq> None"

definition apply_actual_request_headers :: "s3_lib \<Rightarrow> string \<Rightarrow> request \<Rightarrow> s3_response \<Rightarrow> s3_response io" where
  "apply_actual_request_headers L bucket req resp =
     (case header req ''origin'' of
        None \<Rightarrow> return resp
      | Some origin \<Rightarrow>
          bind_io (matching_rule L bucket origin (req_method req) None) (\<lambda>m.
          return (case m of
                    None \<Rightarrow> resp
                  | Some (r, allow_origin) \<Rightarrow> apply_rule_headers L r allow_origin None False resp)))"

definition apply_actual_request_headers_from_xml :: "s3_lib \<Rightarrow> request \<Rightarrow> string \<Rightarrow> s3_response \<Rightarrow> s3_response" where
  "apply_actual_request_headers_from_xml L req cors_xml resp =
     (case header req ''origin'' of
        None \<Rightarrow> resp
      | Some origin \<Rightarrow>
          (case matching_rule_from_xml L cors_xml origin (req_method req) None of
             None \<Rightarrow> resp
           | Some (r, allow_origin) \<Rightarrow> apply_rule_headers L r allow_origin None False resp))"

definition preflight_response :: "s3_lib \<Rightarrow> string \<Rightarrow> request \<Rightarrow> s3_response io" where
  "preflight_response L bucket req =
     (case header req ''origin'' of
        None \<Rightarrow> return (new_response 403)
      | Some origin \<Rightarrow>
          (case header req ''access-control-request-method'' of
             None \<Rightarrow> return (new_response 403)
           | Some requested_method \<Rightarrow>
               let requested = header req ''access-control-request-headers'' in
               bind_io (matching_rule L bucket origin requested_method requested) (\<lambda>m.
               return (case m of
                         None \<Rightarrow> new_response 403
                       | Some (r, allow_origin) \<Rightarrow>
                           apply_rule_headers L r allow_origin requested True (new_response 200)))))"

section \<open>What a match means\<close>

definition rule_allows :: "cors_rule \<Rightarrow> string \<Rightarrow> string \<Rightarrow> string option \<Rightarrow> bool" where
  "rule_allows r origin meth requested \<longleftrightarrow>
     allowed_origin r origin \<noteq> None \<and> allows_method r meth \<and> allows_headers r requested"

lemma first_allowed_find:
  "first_allowed rs origin meth requested =
     map_option (\<lambda>r. (r, the (allowed_origin r origin))) (List.find (\<lambda>r. rule_allows r origin meth requested) rs)"
  by (induction rs) (auto simp: rule_allows_def split: option.split)

lemma first_allowed_None:
  "first_allowed rs origin meth requested = None \<longleftrightarrow> (\<forall>r \<in> set rs. \<not> rule_allows r origin meth requested)"
  by (auto simp: first_allowed_find find_None_iff)

end
