(* ===== verification/S3_Helpers.thy ===== *)
theory S3_Helpers
  imports Cors Texts
begin

text \<open>
  The parts the object handlers share: conditions, locks, encryption headers and the headers of an
  answer (\<^verbatim>\<open>src/src/server/handlers/object/helpers.rs\<close>), bounded reads
  (\<^verbatim>\<open>src/src/server/handlers/object/bounded.rs\<close>), and the protection another provider has claimed
  (\<^verbatim>\<open>src/src/server/handlers/mod.rs\<close>, \<^verbatim>\<open>src/src/providers/mod.rs\<close>).
\<close>

definition CONTENT_PROPERTIES :: "(string \<times> string) list" where
  "CONTENT_PROPERTIES =
     [(''cache-control'', ''s3_cache_control''), (''content-encoding'', ''s3_content_encoding''),
      (''content-language'', ''s3_content_language''), (''content-disposition'', ''s3_content_disposition'')]"

definition S3_SSE_MODE_KEY :: string where "S3_SSE_MODE_KEY = ''s3_sse_mode''"
definition S3_SSE_KMS_KEY_ID :: string where "S3_SSE_KMS_KEY_ID = ''s3_sse_kms_key_id''"
definition S3_SSE_C_ALGORITHM_KEY :: string where "S3_SSE_C_ALGORITHM_KEY = ''s3_sse_c_algorithm''"
definition S3_SSE_C_KEY_MD5_KEY :: string where "S3_SSE_C_KEY_MD5_KEY = ''s3_sse_c_key_md5''"

definition set_provider_metadata :: "string \<Rightarrow> string option \<Rightarrow> object \<Rightarrow> object" where
  "set_provider_metadata key value ob = ob\<lparr>obj_provider_metadata := (obj_provider_metadata ob)(key := value)\<rparr>"

definition replace_content_properties :: "request \<Rightarrow> object \<Rightarrow> object" where
  "replace_content_properties req ob =
     fold (\<lambda>(name, key). set_provider_metadata key (header req name)) CONTENT_PROPERTIES ob"

definition upload_key_mismatch_response :: "s3_lib \<Rightarrow> s3_response" where
  "upload_key_mismatch_response L =
     s3_error L 400 ''InvalidRequest'' ''The upload ID is not valid for the specified object''"

section \<open>Parsing headers\<close>

definition parse_range :: "string \<Rightarrow> (nat \<times> nat option) option" where
  "parse_range range_header =
     Option.bind (strip_prefix ''bytes='' range_header) (\<lambda>range.
     Option.bind (split_once (CHR ''-'') range) (\<lambda>(start_str, end_str_opt).
     Option.bind (parse_u64 start_str) (\<lambda>start.
     Some (start, parse_u64 (case strip_prefix '' '' end_str_opt of Some e \<Rightarrow> e | None \<Rightarrow> end_str_opt)))))"

fun parse_tag_pairs :: "s3_lib \<Rightarrow> string list \<Rightarrow> strmap \<Rightarrow> (string, strmap) result" where
  "parse_tag_pairs L [] tags = Ok tags"
| "parse_tag_pairs L (pair # rest) tags =
     (if pair = [] then parse_tag_pairs L rest tags
      else
        bind_result (ok_or ''Invalid tagging format'' (split_once (CHR ''='') pair)) (\<lambda>(k, v).
        bind_result (ok_or (s3_decode_error L k) (s3_decode L k)) (\<lambda>key.
        bind_result (ok_or (s3_decode_error L v) (s3_decode L v)) (\<lambda>value.
        parse_tag_pairs L rest (tags(key \<mapsto> value))))))"

definition parse_tagging_header :: "s3_lib \<Rightarrow> string \<Rightarrow> (string, strmap) result" where
  "parse_tagging_header L tag_header = parse_tag_pairs L (split_on (CHR ''&'') tag_header) Map.empty"

definition add_version_header :: "s3_lib \<Rightarrow> string option \<Rightarrow> s3_response \<Rightarrow> s3_response" where
  "add_version_header L version_id = with_optional_header L ''x-amz-version-id'' version_id"

section \<open>Entity tags and conditions\<close>

definition normalize_weak_etag :: "string \<Rightarrow> string" where
  "normalize_weak_etag value =
     (let v = str_trim value in trim_quotes (case strip_prefix ''W/'' v of Some w \<Rightarrow> w | None \<Rightarrow> v))"

definition normalize_strong_etag :: "string \<Rightarrow> string option" where
  "normalize_strong_etag value =
     (let v = str_trim value in if prefix ''W/'' v then None else Some (trim_quotes v))"

definition quoted_etag :: "string \<Rightarrow> string" where
  "quoted_etag value = quoted (normalize_weak_etag value)"

definition if_match_condition :: "string \<Rightarrow> object_condition" where
  "if_match_condition value =
     (if str_trim value = ''*'' then EtagNotIn []
      else EtagIn (List.map_filter normalize_strong_etag (split_on (CHR '','') value)))"

definition mutation_condition :: "request \<Rightarrow> object_condition option" where
  "mutation_condition req =
     (case header req ''if-match'' of
        Some value \<Rightarrow> Some (if_match_condition value)
      | None \<Rightarrow>
          map_option (\<lambda>value.
            if str_trim value = ''*'' then Missing
            else MissingOrEtagNotIn (map normalize_weak_etag (split_on (CHR '','') value))) (header req ''if-none-match''))"

definition mutation_if_match_condition :: "request \<Rightarrow> object_condition option" where
  "mutation_if_match_condition req = map_option if_match_condition (header req ''if-match'')"

definition strong_etag_list_matches :: "string \<Rightarrow> string \<Rightarrow> bool" where
  "strong_etag_list_matches header_value etag =
     (case normalize_strong_etag etag of
        None \<Rightarrow> False
      | Some normalized \<Rightarrow>
          list_ex (\<lambda>candidate. str_trim candidate = ''*'' \<or> normalize_strong_etag candidate = Some normalized)
            (split_on (CHR '','') header_value))"

definition weak_etag_list_matches :: "string \<Rightarrow> string \<Rightarrow> bool" where
  "weak_etag_list_matches header_value etag =
     list_ex (\<lambda>candidate. candidate = ''*'' \<or> candidate = normalize_weak_etag etag)
       (map normalize_weak_etag (split_on (CHR '','') header_value))"

section \<open>Headers of an object\<close>

definition object_response_headers :: "s3_lib \<Rightarrow> object \<Rightarrow> s3_response \<Rightarrow> s3_response" where
  "object_response_headers L ob resp =
     (let pm = obj_provider_metadata ob;
          resp = with_header L ''ETag'' (quoted_etag (obj_etag ob)) resp;
          resp = with_header L ''Last-Modified'' (s3_http_date L (obj_last_modified ob)) resp;
          resp = with_header L ''x-amz-storage-class'' (obj_storage_class ob) resp;
          resp = with_header L ''Accept-Ranges'' ''bytes'' resp;
          resp = add_version_header L (obj_version_id ob) resp;
          resp = fold (\<lambda>(name, key). with_optional_header L name (pm key)) CONTENT_PROPERTIES resp;
          resp = fold (\<lambda>(k, v). with_header L (''x-amz-meta-'' @ k) v) (map_entries (obj_metadata ob)) resp;
          resp = with_optional_header L ''x-amz-server-side-encryption'' (pm S3_SSE_MODE_KEY) resp;
          resp = with_optional_header L ''x-amz-server-side-encryption-aws-kms-key-id'' (pm S3_SSE_KMS_KEY_ID) resp;
          resp = with_optional_header L ''x-amz-server-side-encryption-customer-algorithm'' (pm S3_SSE_C_ALGORITHM_KEY) resp;
          resp = with_optional_header L ''x-amz-server-side-encryption-customer-key-MD5'' (pm S3_SSE_C_KEY_MD5_KEY) resp;
          resp = with_optional_header L ''x-amz-object-lock-mode'' (pm S3_OBJECT_LOCK_MODE_KEY) resp;
          resp = with_optional_header L ''x-amz-object-lock-retain-until-date'' (pm S3_OBJECT_LOCK_UNTIL_KEY) resp
      in with_optional_header L ''x-amz-object-lock-legal-hold'' (pm S3_OBJECT_LOCK_LEGAL_HOLD_KEY) resp)"

section \<open>Locks and encryption\<close>

definition object_is_locked :: "externs \<Rightarrow> datetime \<Rightarrow> object \<Rightarrow> bool" where
  "object_is_locked x now ob \<longleftrightarrow>
     is_some_and (obj_provider_metadata ob S3_OBJECT_LOCK_LEGAL_HOLD_KEY) (\<lambda>value. eq_ignore_ascii_case value ''ON'') \<or>
     is_some_and (Option.bind (obj_provider_metadata ob S3_OBJECT_LOCK_UNTIL_KEY) (parse_lock_timestamp x)) (\<lambda>until. now < until)"

definition clear_object_lock_metadata :: "object \<Rightarrow> object" where
  "clear_object_lock_metadata ob =
     set_provider_metadata S3_OBJECT_LOCK_LEGAL_HOLD_KEY None
       (set_provider_metadata S3_OBJECT_LOCK_UNTIL_KEY None (set_provider_metadata S3_OBJECT_LOCK_MODE_KEY None ob))"

definition locked_object_response :: "s3_lib \<Rightarrow> s3_response" where
  "locked_object_response L =
     s3_error L 403 ''AccessDenied'' ''Object is protected by an active retention policy or legal hold''"

definition validate_get_sse_headers :: "s3_lib \<Rightarrow> request \<Rightarrow> object \<Rightarrow> s3_response option" where
  "validate_get_sse_headers L req ob =
     (case obj_provider_metadata ob S3_SSE_C_ALGORITHM_KEY of
        None \<Rightarrow> None
      | Some expected_algorithm \<Rightarrow>
          (case header req ''x-amz-server-side-encryption-customer-algorithm'' of
             None \<Rightarrow> Some (s3_error L 400 ''InvalidRequest'' ''Missing SSE-C algorithm for customer encrypted object'')
           | Some provided_algorithm \<Rightarrow>
               (case header req ''x-amz-server-side-encryption-customer-key-MD5'' of
                  None \<Rightarrow> Some (s3_error L 400 ''InvalidRequest'' ''Missing SSE-C key MD5 for customer encrypted object'')
                | Some provided_md5 \<Rightarrow>
                    if provided_algorithm \<noteq> expected_algorithm \<or>
                       obj_provider_metadata ob S3_SSE_C_KEY_MD5_KEY \<noteq> Some provided_md5
                    then Some (s3_error L 403 ''AccessDenied'' ''The provided SSE-C headers do not match the stored object'')
                    else None)))"

definition apply_sse :: "s3_lib \<Rightarrow> request \<Rightarrow> object \<Rightarrow> (s3_response, object) result" where
  "apply_sse L req ob =
     (case header req ''x-amz-server-side-encryption'' of
        None \<Rightarrow> Ok ob
      | Some mode \<Rightarrow>
          if mode \<noteq> ''AES256'' \<and> mode \<noteq> ''aws:kms''
          then Err (s3_error L 400 ''InvalidArgument'' ''Unsupported server-side encryption mode'')
          else
            let ob = set_provider_metadata S3_SSE_MODE_KEY (Some mode) ob in
            if mode = ''aws:kms'' then
              (case header req ''x-amz-server-side-encryption-aws-kms-key-id'' of
                 Some key_id \<Rightarrow> Ok (set_provider_metadata S3_SSE_KMS_KEY_ID (Some key_id) ob)
               | None \<Rightarrow> Ok ob)
            else Ok (set_provider_metadata S3_SSE_KMS_KEY_ID None ob))"

definition apply_sse_c :: "s3_lib \<Rightarrow> request \<Rightarrow> object \<Rightarrow> (s3_response, object) result" where
  "apply_sse_c L req ob =
     (case (header req ''x-amz-server-side-encryption-customer-algorithm'',
            header req ''x-amz-server-side-encryption-customer-key'',
            header req ''x-amz-server-side-encryption-customer-key-MD5'') of
        (None, None, None) \<Rightarrow> Ok ob
      | (Some algorithm, Some _, Some md5) \<Rightarrow>
          Ok (set_provider_metadata S3_SSE_KMS_KEY_ID None
               (set_provider_metadata S3_SSE_MODE_KEY None
                 (set_provider_metadata S3_SSE_C_KEY_MD5_KEY (Some md5)
                   (set_provider_metadata S3_SSE_C_ALGORITHM_KEY (Some algorithm) ob))))
      | _ \<Rightarrow> Err (s3_error L 400 ''InvalidRequest'' ''SSE-C requests must include algorithm, key, and key MD5 headers''))"

definition apply_lock_headers :: "s3_lib \<Rightarrow> externs \<Rightarrow> request \<Rightarrow> object \<Rightarrow> (s3_response, object) result" where
  "apply_lock_headers L x req ob =
     bind_result
       (case header req ''x-amz-object-lock-mode'' of
          None \<Rightarrow> Ok ob
        | Some mode \<Rightarrow>
            if mode \<noteq> ''GOVERNANCE'' \<and> mode \<noteq> ''COMPLIANCE''
            then Err (s3_error L 400 ''InvalidRequest'' ''Unsupported object lock mode'')
            else Ok (set_provider_metadata S3_OBJECT_LOCK_MODE_KEY (Some mode) ob)) (\<lambda>ob.
     bind_result
       (case header req ''x-amz-object-lock-retain-until-date'' of
          None \<Rightarrow> Ok ob
        | Some until \<Rightarrow>
            if parse_lock_timestamp x until = None
            then Err (s3_error L 400 ''InvalidRequest'' ''Invalid object lock retain-until date'')
            else Ok (set_provider_metadata S3_OBJECT_LOCK_UNTIL_KEY (Some until) ob)) (\<lambda>ob.
     case header req ''x-amz-object-lock-legal-hold'' of
       None \<Rightarrow> Ok ob
     | Some legal_hold \<Rightarrow>
         if \<not> eq_ignore_ascii_case legal_hold ''ON'' \<and> \<not> eq_ignore_ascii_case legal_hold ''OFF''
         then Err (s3_error L 400 ''InvalidRequest'' ''Invalid object lock legal hold value'')
         else Ok (set_provider_metadata S3_OBJECT_LOCK_LEGAL_HOLD_KEY (Some (to_ascii_uppercase legal_hold)) ob)))"

definition apply_s3_request_contracts :: "s3_lib \<Rightarrow> externs \<Rightarrow> request \<Rightarrow> object \<Rightarrow> (s3_response, object) result" where
  "apply_s3_request_contracts L x req ob =
     bind_result (apply_sse L req ob) (\<lambda>ob.
     bind_result (apply_sse_c L req ob) (\<lambda>ob.
     apply_lock_headers L x req ob))"

section \<open>Conditional requests\<close>

definition precondition_failed_response :: "s3_lib \<Rightarrow> s3_response" where
  "precondition_failed_response L =
     s3_error L 412 ''PreconditionFailed'' ''At least one of the pre-conditions you specified did not hold''"

definition not_modified_response :: "s3_lib \<Rightarrow> object \<Rightarrow> s3_response" where
  "not_modified_response L ob = object_response_headers L ob (new_response 304)"

text \<open>A date header that cannot be read is ignored.\<close>

definition header_date :: "externs \<Rightarrow> request \<Rightarrow> string \<Rightarrow> datetime option" where
  "header_date x req name = Option.bind (header req name) (ext_parse_rfc2822 x)"

definition check_object_conditionals :: "s3_lib \<Rightarrow> externs \<Rightarrow> request \<Rightarrow> object \<Rightarrow> s3_response option" where
  "check_object_conditionals L x req ob =
     (if is_some_and (header req ''if-match'') (\<lambda>v. \<not> strong_etag_list_matches v (obj_etag ob))
      then Some (precondition_failed_response L)
      else if is_some_and (header_date x req ''if-unmodified-since'') (\<lambda>since. since < obj_last_modified ob)
      then Some (precondition_failed_response L)
      else if is_some_and (header req ''if-none-match'') (\<lambda>v. weak_etag_list_matches v (obj_etag ob))
      then Some (not_modified_response L ob)
      else if is_some_and (header_date x req ''if-modified-since'') (\<lambda>since. obj_last_modified ob \<le> since)
      then Some (not_modified_response L ob)
      else None)"

definition check_put_conditionals :: "s3_lib \<Rightarrow> externs \<Rightarrow> request \<Rightarrow> object option \<Rightarrow> s3_response option" where
  "check_put_conditionals L x req existing =
     (case existing of
        Some ob \<Rightarrow>
          if is_some_and (header req ''if-match'') (\<lambda>v. \<not> strong_etag_list_matches v (obj_etag ob))
          then Some (precondition_failed_response L)
          else if is_some_and (header_date x req ''if-unmodified-since'') (\<lambda>since. since < obj_last_modified ob)
          then Some (precondition_failed_response L)
          else if is_some_and (header req ''if-none-match'') (\<lambda>v. weak_etag_list_matches v (obj_etag ob))
          then Some (precondition_failed_response L)
          else None
      | None \<Rightarrow>
          if header req ''if-match'' \<noteq> None
          then Some (s3_error L 404 ''NoSuchKey'' ''The specified key does not exist.'')
          else None)"

definition check_copy_conditionals :: "s3_lib \<Rightarrow> externs \<Rightarrow> request \<Rightarrow> object \<Rightarrow> s3_response option" where
  "check_copy_conditionals L x req src =
     (let satisfied = is_some_and (header req ''x-amz-copy-source-if-match'') (\<lambda>v. strong_etag_list_matches v (obj_etag src)) in
      if is_some_and (header req ''x-amz-copy-source-if-match'') (\<lambda>v. \<not> strong_etag_list_matches v (obj_etag src))
      then Some (precondition_failed_response L)
      else if is_some_and (header req ''x-amz-copy-source-if-none-match'') (\<lambda>v. weak_etag_list_matches v (obj_etag src))
      then Some (precondition_failed_response L)
      else if is_some_and (header_date x req ''x-amz-copy-source-if-modified-since'') (\<lambda>since. obj_last_modified src \<le> since)
      then Some (precondition_failed_response L)
      else if \<not> satisfied \<and>
              is_some_and (header_date x req ''x-amz-copy-source-if-unmodified-since'') (\<lambda>since. since < obj_last_modified src)
      then Some (precondition_failed_response L)
      else None)"

section \<open>Bounded reads\<close>

definition MATERIALIZATION_LIMIT :: nat where
  "MATERIALIZATION_LIMIT = 64 * 1024 * 1024"

definition extent_response :: "s3_lib \<Rightarrow> s3_response" where
  "extent_response L =
     s3_error L 501 ''NotImplemented''
       ''This emulator materializes at most 64 MiB per S3 GET or copy. Use a smaller byte range; streamed PUT remains supported.''"

definition invalid_range :: "s3_lib \<Rightarrow> s3_response" where
  "invalid_range L = s3_error L 416 ''InvalidRange'' ''The requested range is not satisfiable.''"

definition s3_metadata :: "string \<Rightarrow> string \<Rightarrow> string option \<Rightarrow> object io" where
  "s3_metadata bucket key version =
     (case version of
        Some v \<Rightarrow> get_object_version_metadata bucket key v
      | None \<Rightarrow> get_object_metadata bucket key)"

definition selected_len :: "nat \<Rightarrow> (nat \<times> nat option) option \<Rightarrow> nat option" where
  "selected_len extent rng =
     (case rng of
        None \<Rightarrow> Some extent
      | Some (start, stop) \<Rightarrow>
          if start < extent then
            let e = min (case stop of Some e \<Rightarrow> e | None \<Rightarrow> extent - 1) (extent - 1) in
            if e < start then None else checked_add_u64 (e - start) 1
          else None)"

definition is_s3_delete_marker :: "object \<Rightarrow> bool" where
  "is_s3_delete_marker ob \<longleftrightarrow> obj_provider_metadata ob ''s3_delete_marker'' = Some ''true''"

definition range_error :: "s3_lib \<Rightarrow> error \<Rightarrow> s3_response" where
  "range_error L e = (case e of InvalidRequest _ \<Rightarrow> invalid_range L | _ \<Rightarrow> storage_error_response L e)"

definition payload_end :: "nat \<times> nat option \<Rightarrow> nat option" where
  "payload_end rng =
     (let capped_end = saturating_add_usize (fst rng) (MATERIALIZATION_LIMIT - 1) in
      Some (case snd rng of None \<Rightarrow> capped_end | Some e \<Rightarrow> min e capped_end))"

definition s3_payload ::
    "s3_lib \<Rightarrow> string \<Rightarrow> string \<Rightarrow> string option \<Rightarrow> (nat \<times> nat option) option \<Rightarrow> (s3_response, object) result io" where
  "s3_payload L bucket key version rng =
     bind_io (try_io (s3_metadata bucket key version)) (\<lambda>r.
     case r of
       Err e \<Rightarrow> return (Err (storage_error_response L e))
     | Ok initial \<Rightarrow>
         if is_s3_delete_marker initial then return (Ok initial)
         else
           case selected_len (obj_size initial) rng of
             None \<Rightarrow> return (Err (invalid_range L))
           | Some len \<Rightarrow>
               if MATERIALIZATION_LIMIT < len then return (Err (extent_response L))
               else if len = 0 then return (Ok initial)
               else
                 let span = (case rng of Some r \<Rightarrow> r | None \<Rightarrow> (0, None)) in
                 bind_io (try_io (case version of
                            Some v \<Rightarrow> get_object_version_range bucket key v (fst span) (payload_end span)
                          | None \<Rightarrow> get_object_range bucket key (fst span) (payload_end span))) (\<lambda>res.
                 return (case res of
                           Err e \<Rightarrow> Err (range_error L e)
                         | Ok (ob, data) \<Rightarrow>
                             (case selected_len (obj_size ob) rng of
                                None \<Rightarrow> Err (invalid_range L)
                              | Some actual \<Rightarrow>
                                  if MATERIALIZATION_LIMIT < actual \<or> actual \<noteq> length data
                                  then Err (extent_response L)
                                  else Ok (ob\<lparr>obj_data := data\<rparr>)))))"

section \<open>Protection by another provider\<close>

definition positive_u64 :: "strmap \<Rightarrow> string \<Rightarrow> bool" where
  "positive_u64 metadata key = is_some_and (Option.bind (metadata key) parse_u64) (\<lambda>n. 0 < n)"

definition bucket_has_foreign_data_protection :: "bucket \<Rightarrow> bool" where
  "bucket_has_foreign_data_protection b \<longleftrightarrow>
     positive_u64 (bucket_metadata b) GCS_SOFT_DELETE_SECONDS_KEY \<or>
     positive_u64 (bucket_metadata b) GCS_RETENTION_SECONDS_KEY \<or>
     bucket_metadata b AZURE_VERSIONING_KEY = Some ''true'' \<or>
     positive_u64 (bucket_metadata b) AZURE_SOFT_DELETE_DAYS_KEY"

text \<open>
  The scan of a namespace for protected objects, a thousand at a time. Every round that does not end
  the scan moves the marker past a key; \<open>None\<close> is a scan that ran out of rounds.
\<close>

primrec protection_scan :: "nat \<Rightarrow> string \<Rightarrow> datetime \<Rightarrow> string option \<Rightarrow> bool option io" where
  "protection_scan 0 bucket now marker = return None"
| "protection_scan (Suc fuel) bucket now marker =
     bind_io (try_io (list_objects bucket None None marker (Some 1000))) (\<lambda>r.
     case r of
       Err e \<Rightarrow> return (Some (e \<noteq> BucketNotFound))
     | Ok page \<Rightarrow>
         bind_io (gets ext) (\<lambda>x.
         if list_ex (\<lambda>ob. object_has_active_azure_protection x ob now) (objects page) then return (Some True)
         else if \<not> is_truncated page then return (Some False)
         else
           case next_marker page of
             None \<Rightarrow> return (Some True)
           | Some next_mark \<Rightarrow>
               if marker = Some next_mark then return (Some True)
               else protection_scan fuel bucket now (Some next_mark)))"

definition azure_object_protection_active :: "string \<Rightarrow> bool io" where
  "azure_object_protection_active bucket =
     bind_io (gets (\<lambda>s. azure_object_protection_absent s bucket)) (\<lambda>absent.
     if absent then return False
     else
       bind_io now_io (\<lambda>now.
       bind_io (gets (\<lambda>s. Suc (Suc (length (list_prefix_marker (st_index s) bucket None None None))))) (\<lambda>fuel.
       bind_io (protection_scan fuel bucket now None) (\<lambda>r.
       of_result (ok_or (InternalError ''scan did not end'') r)))))"

definition foreign_data_protection_mode_active :: "string \<Rightarrow> bool io" where
  "foreign_data_protection_mode_active bucket =
     bind_io (azure_object_protection_active bucket) (\<lambda>active.
     if active then return True
     else
       bind_io (try_io (get_bucket bucket)) (\<lambda>r.
       return (case r of Ok b \<Rightarrow> bucket_has_foreign_data_protection b | Err _ \<Rightarrow> False)))"

definition s3_foreign_history_conflict :: "string \<Rightarrow> bool io" where
  "s3_foreign_history_conflict bucket = foreign_data_protection_mode_active bucket"

definition s3_foreign_history_conflict_response :: "s3_lib \<Rightarrow> s3_response" where
  "s3_foreign_history_conflict_response L =
     s3_error L 409 ''InvalidBucketState''
       ''S3 versioning and object mutations are unavailable while a foreign-provider data-protection mode is active.''"

end
