(* ===== verification/S3_Checksums.thy ===== *)
theory S3_Checksums
  imports S3_Helpers
begin

text \<open>
  The checksums of the S3 interface: admission of a payload and the identity stored with it
  (\<^verbatim>\<open>src/src/server/handlers/object/checksums.rs\<close>), and the CRC32C profile of multipart uploads
  (\<^verbatim>\<open>src/src/server/handlers/object/multipart_checksums.rs\<close>).
\<close>

definition ALGORITHMS :: "(string \<times> string) list" where
  "ALGORITHMS =
     [(''CRC32'', ''crc32''), (''CRC32C'', ''crc32c''), (''CRC64NVME'', ''crc64nvme''), (''SHA1'', ''sha1''),
      (''SHA256'', ''sha256''), (''MD5'', ''md5'')]"

definition be_bytes64 :: "nat \<Rightarrow> bytes" where
  "be_bytes64 n = map (\<lambda>i. word_of_nat (n div 2 ^ i)) [56, 48, 40, 32, 24, 16, 8, 0]"

text \<open>Only the supported algorithms have a digest; the last of them is MD5.\<close>

definition payload_digest :: "s3_lib \<Rightarrow> externs \<Rightarrow> request \<Rightarrow> string \<Rightarrow> bytes" where
  "payload_digest L x req algorithm =
     (let d = s3_digests L in
      if algorithm = ''CRC32'' then be_bytes (payload_crc32 d req)
      else if algorithm = ''CRC32C'' then be_bytes (payload_crc32c d req)
      else if algorithm = ''CRC64NVME'' then be_bytes64 (payload_crc64_nvme d req)
      else if algorithm = ''SHA1'' then payload_sha1 d req
      else if algorithm = ''SHA256'' then payload_sha256 d req
      else payload_md5 x req)"

definition header_names :: "request \<Rightarrow> string list" where
  "header_names req = remdups (map fst (req_headers req))"

definition header_count :: "request \<Rightarrow> string \<Rightarrow> nat" where
  "header_count req name = length (filter (\<lambda>(n, v). n = name) (req_headers req))"

definition aws_chunked :: "request \<Rightarrow> bool" where
  "aws_chunked req =
     is_some_and (header req ''content-encoding'')
       (\<lambda>value. list_ex (\<lambda>part. eq_ignore_ascii_case (str_trim part) ''aws-chunked'') (split_on (CHR '','') value))"

definition streaming_payload :: "request \<Rightarrow> bool" where
  "streaming_payload req = is_some_and (header req ''x-amz-content-sha256'') (prefix ''STREAMING-'')"

definition checksums_requested :: "request \<Rightarrow> bool" where
  "checksums_requested req \<longleftrightarrow>
     list_ex (prefix ''x-amz-checksum-'') (header_names req) \<or>
     header req ''x-amz-sdk-checksum-algorithm'' \<noteq> None \<or>
     header req ''x-amz-trailer'' \<noteq> None \<or>
     aws_chunked req \<or> streaming_payload req"

definition checksums_unsupported :: "s3_lib \<Rightarrow> s3_response" where
  "checksums_unsupported L =
     s3_error L 501 ''NotImplemented''
       ''This S3 checksum algorithm, multipart, copy, or trailer variant is not supported by this emulator subset.''"

definition known_checksum_header :: "string \<Rightarrow> bool" where
  "known_checksum_header name \<longleftrightarrow> list_ex (\<lambda>(_, suffix). name = ''x-amz-checksum-'' @ suffix) ALGORITHMS"

fun check_checksum_headers :: "s3_lib \<Rightarrow> request \<Rightarrow> (string \<times> string option) list \<Rightarrow> s3_response option" where
  "check_checksum_headers L req [] = None"
| "check_checksum_headers L req ((name, value) # rest) =
     (if prefix ''x-amz-checksum-'' name \<or> name = ''x-amz-sdk-checksum-algorithm'' then
        if header_count req name \<noteq> 1
        then Some (s3_error L 400 ''InvalidRequest'' ''Checksum headers must occur once.'')
        else if value = None
        then Some (s3_error L 400 ''InvalidDigest'' ''Checksum headers must be ASCII.'')
        else check_checksum_headers L req rest
      else check_checksum_headers L req rest)"

definition supplied_checksums :: "request \<Rightarrow> (string \<times> string) list" where
  "supplied_checksums req =
     List.map_filter (\<lambda>(algorithm, suffix). map_option (\<lambda>value. (algorithm, value)) (header req (''x-amz-checksum-'' @ suffix)))
       ALGORITHMS"

fun check_supplied :: "s3_lib \<Rightarrow> externs \<Rightarrow> request \<Rightarrow> (string \<times> string) list \<Rightarrow> s3_response option" where
  "check_supplied L x req [] = None"
| "check_supplied L x req ((algorithm, value) # rest) =
     (let expected = payload_digest L x req algorithm in
      case s3_base64_decode L value of
        None \<Rightarrow> Some (s3_error L 400 ''InvalidDigest'' ''The checksum is not a valid Base64 digest for the selected algorithm.'')
      | Some decoded \<Rightarrow>
          if length decoded \<noteq> length expected
          then Some (s3_error L 400 ''InvalidDigest'' ''The checksum is not a valid Base64 digest for the selected algorithm.'')
          else if decoded \<noteq> expected
          then Some (s3_error L 400 ''BadDigest'' ''The checksum does not match the request payload.'')
          else check_supplied L x req rest)"

definition check_declared :: "s3_lib \<Rightarrow> string option \<Rightarrow> (string \<times> string) list \<Rightarrow> s3_response option" where
  "check_declared L declared supplied =
     (case declared of
        None \<Rightarrow> None
      | Some d \<Rightarrow>
          (case supplied of
             [] \<Rightarrow> Some (s3_error L 400 ''InvalidRequest''
                     ''The SDK checksum algorithm requires its corresponding checksum header.'')
           | (a, _) # _ \<Rightarrow>
               if a \<noteq> d
               then Some (s3_error L 400 ''BadDigest'' ''The checksum header does not match the SDK checksum algorithm.'')
               else None))"

definition or_else :: "'a option \<Rightarrow> 'a option \<Rightarrow> 'a option" where
  "or_else a b = (case a of Some v \<Rightarrow> Some v | None \<Rightarrow> b)"

definition checksums_validate_put :: "s3_lib \<Rightarrow> externs \<Rightarrow> request \<Rightarrow> s3_response option" where
  "checksums_validate_put L x req =
     (if header req ''x-amz-trailer'' \<noteq> None \<or> aws_chunked req \<or> streaming_payload req \<or>
         list_ex (\<lambda>name. prefix ''x-amz-checksum-'' name \<and> \<not> known_checksum_header name) (header_names req)
      then Some (checksums_unsupported L)
      else
        or_else (check_checksum_headers L req (req_headers req))
        (let declared = header req ''x-amz-sdk-checksum-algorithm''; supplied = supplied_checksums req in
         if is_some_and declared (\<lambda>d. d \<notin> fst ` set ALGORITHMS) then Some (checksums_unsupported L)
         else if length supplied > 1
         then Some (s3_error L 400 ''InvalidRequest'' ''Only one additional checksum algorithm may be supplied.'')
         else or_else (check_declared L declared supplied) (check_supplied L x req supplied)))"

definition replace_identity :: "s3_lib \<Rightarrow> externs \<Rightarrow> request \<Rightarrow> object \<Rightarrow> object" where
  "replace_identity L x req ob =
     (let kept = ob\<lparr>obj_provider_metadata :=
            (\<lambda>k. if prefix ''s3_checksum_'' k then None else obj_provider_metadata ob k)\<rparr>
      in fold (\<lambda>(algorithm, suffix) ob.
           if header req (''x-amz-checksum-'' @ suffix) \<noteq> None
           then set_provider_metadata ''s3_checksum_type'' (Some ''FULL_OBJECT'')
                 (set_provider_metadata (''s3_checksum_'' @ suffix)
                   (Some (ext_base64 x (payload_digest L x req algorithm))) ob)
           else ob) ALGORITHMS kept)"

definition checksum_response_headers :: "s3_lib \<Rightarrow> object \<Rightarrow> s3_response \<Rightarrow> s3_response" where
  "checksum_response_headers L ob resp =
     with_optional_header L ''x-amz-checksum-type'' (obj_provider_metadata ob ''s3_checksum_type'')
       (fold (\<lambda>(_, suffix).
          with_optional_header L (''x-amz-checksum-'' @ suffix) (obj_provider_metadata ob (''s3_checksum_'' @ suffix)))
          ALGORITHMS resp)"

definition retrieval_headers :: "s3_lib \<Rightarrow> request \<Rightarrow> object \<Rightarrow> s3_response \<Rightarrow> s3_response" where
  "retrieval_headers L req ob resp =
     (if header req ''x-amz-checksum-mode'' = Some ''ENABLED'' \<and> header req ''range'' = None
      then checksum_response_headers L ob resp else resp)"

fun requests_checksum :: "xml_event list \<Rightarrow> bool" where
  "requests_checksum [] = False"
| "requests_checksum (StartTag _ local _ # es) = (prefix ''Checksum'' local \<or> requests_checksum es)"
| "requests_checksum (EmptyTag _ local # es) = (prefix ''Checksum'' local \<or> requests_checksum es)"
| "requests_checksum (ReadError _ # es) = False"
| "requests_checksum (_ # es) = requests_checksum es"

definition manifest_requests_checksum :: "s3_lib \<Rightarrow> bytes \<Rightarrow> bool" where
  "manifest_requests_checksum L body = requests_checksum (xl_events (s3_xml L) False (bytes_text body))"

section \<open>Multipart uploads\<close>

definition checksum_enabled :: "multipart_upload \<Rightarrow> bool" where
  "checksum_enabled u \<longleftrightarrow> upload_provider_metadata u ''s3_checksum_algorithm'' = Some ''CRC32C''"

definition checksum_headers_allowed :: "request \<Rightarrow> string list \<Rightarrow> bool" where
  "checksum_headers_allowed req names \<longleftrightarrow>
     \<not> list_ex (\<lambda>name. (prefix ''x-amz-checksum-'' name \<or> name = ''x-amz-sdk-checksum-algorithm'') \<and>
                  (name \<notin> set names \<or> header_count req name \<noteq> 1)) (header_names req) \<and>
     header req ''x-amz-trailer'' = None \<and> \<not> aws_chunked req \<and> \<not> streaming_payload req"

fun check_multipart_headers :: "s3_lib \<Rightarrow> request \<Rightarrow> string list \<Rightarrow> s3_response option" where
  "check_multipart_headers L req [] = None"
| "check_multipart_headers L req (name # rest) =
     (let checksum = prefix ''x-amz-checksum-'' name in
      if \<not> checksum \<and> name \<notin> set [''x-amz-sdk-checksum-algorithm'', ''x-amz-mp-object-size'', ''if-match'', ''if-none-match'']
      then check_multipart_headers L req rest
      else if header_count req name \<noteq> 1 \<or> list_ex (\<lambda>(n, v). n = name \<and> v = None) (req_headers req)
      then Some (s3_error L 400
             (if checksum \<and> name \<notin> set [''x-amz-checksum-algorithm'', ''x-amz-checksum-type''] then ''InvalidDigest''
              else ''InvalidRequest'')
             ''Multipart integrity and publication headers must contain one ASCII value.'')
      else check_multipart_headers L req rest)"

definition multipart_validate_headers :: "s3_lib \<Rightarrow> request \<Rightarrow> s3_response option" where
  "multipart_validate_headers L req = check_multipart_headers L req (header_names req)"

definition multipart_initiate :: "s3_lib \<Rightarrow> request \<Rightarrow> (s3_response, bool) result" where
  "multipart_initiate L req =
     (case multipart_validate_headers L req of
        Some resp \<Rightarrow> Err resp
      | None \<Rightarrow>
          if \<not> checksums_requested req then Ok False
          else if \<not> checksum_headers_allowed req [''x-amz-checksum-algorithm'', ''x-amz-checksum-type''] \<or>
                  header req ''x-amz-checksum-algorithm'' \<noteq> Some ''CRC32C'' \<or>
                  header req ''x-amz-checksum-type'' \<noteq> Some ''FULL_OBJECT''
          then Err (checksums_unsupported L)
          else Ok True)"

fun be_value :: "nat \<Rightarrow> bytes \<Rightarrow> nat" where
  "be_value acc [] = acc"
| "be_value acc (b # bs) = be_value (acc * 256 + unat b) bs"

definition decode_crc32c :: "s3_lib \<Rightarrow> string \<Rightarrow> nat option" where
  "decode_crc32c L value =
     (case s3_base64_decode L value of
        Some bs \<Rightarrow> if length bs = 4 then Some (be_value 0 bs) else None
      | None \<Rightarrow> None)"

definition validate_part :: "s3_lib \<Rightarrow> request \<Rightarrow> multipart_upload \<Rightarrow> s3_response option" where
  "validate_part L req u =
     or_else (multipart_validate_headers L req)
     (if \<not> checksum_enabled u then (if checksums_requested req then Some (checksums_unsupported L) else None)
      else if \<not> checksum_headers_allowed req [''x-amz-checksum-crc32c'', ''x-amz-sdk-checksum-algorithm'']
      then Some (checksums_unsupported L)
      else if header req ''x-amz-sdk-checksum-algorithm'' \<noteq> None \<and> header req ''x-amz-checksum-crc32c'' = None
      then Some (s3_error L 400 ''InvalidRequest'' ''The SDK checksum selector requires a checksum header.'')
      else
        case header req ''x-amz-checksum-crc32c'' of
          None \<Rightarrow> None
        | Some value \<Rightarrow>
            (case decode_crc32c L value of
               Some crc \<Rightarrow>
                 if crc = payload_crc32c (s3_digests L) req then None
                 else Some (s3_error L 400 ''BadDigest'' ''The part checksum does not match the payload.'')
             | None \<Rightarrow> Some (s3_error L 400 ''InvalidDigest'' ''CRC32C must be a Base64 encoded 32-bit digest.'')))"

definition part_headers :: "s3_lib \<Rightarrow> externs \<Rightarrow> request \<Rightarrow> multipart_upload \<Rightarrow> s3_response \<Rightarrow> s3_response" where
  "part_headers L x req u resp =
     (if checksum_enabled u
      then with_header L ''x-amz-checksum-crc32c'' (ext_base64 x (be_bytes (payload_crc32c (s3_digests L) req))) resp
      else resp)"

section \<open>The manifest of a checksummed completion\<close>

record manifest_check =
  mk_path :: "string list"      \<comment> \<open>innermost element first\<close>
  mk_fields :: "string list"
  mk_index :: nat
  mk_root_seen :: bool
  mk_checksum :: string

definition malformed_manifest :: "s3_lib \<Rightarrow> s3_response" where
  "malformed_manifest L = s3_error L 400 ''MalformedXML'' ''Invalid completion manifest schema.''"

definition validate_manifest_part ::
    "s3_lib \<Rightarrow> multipart_upload \<Rightarrow> (nat \<times> string) list \<Rightarrow> manifest_check \<Rightarrow> (s3_response, manifest_check) result" where
  "validate_manifest_part L u manifest st =
     (if mk_index st \<ge> length manifest then Err (malformed_manifest L)
      else if ''PartNumber'' \<notin> set (mk_fields st) \<or> ''ETag'' \<notin> set (mk_fields st) then Err (malformed_manifest L)
      else
        let number = fst (manifest ! mk_index st);
            expected = decode_crc32c L (mk_checksum st);
            stored = Option.bind (List.find (\<lambda>p. part_number p = number) (parts u)) part_crc32c
        in
        if ''ChecksumCRC32C'' \<in> set (mk_fields st) \<and> (expected = None \<or> expected \<noteq> stored)
        then Err (s3_error L 400 ''InvalidPart'' ''The part checksum differs from the stored part.'')
        else Ok (st\<lparr>mk_index := mk_index st + 1, mk_fields := [], mk_checksum := []\<rparr>))"

definition start_valid :: "s3_lib \<Rightarrow> manifest_check \<Rightarrow> string \<Rightarrow> (s3_response, bool \<times> string list) result" where
  "start_valid L st name =
     (if length (mk_path st) = 0 then Ok (\<not> mk_root_seen st \<and> name = ''CompleteMultipartUpload'', mk_fields st)
      else if length (mk_path st) = 1 then Ok (name = ''Part'', mk_fields st)
      else if length (mk_path st) = 2 then
        if prefix ''Checksum'' name \<and> name \<noteq> ''ChecksumCRC32C'' then Err (checksums_unsupported L)
        else if name \<in> set [''PartNumber'', ''ETag'', ''ChecksumCRC32C'']
        then Ok (name \<notin> set (mk_fields st), name # mk_fields st)
        else Ok (False, mk_fields st)
      else Ok (False, mk_fields st))"

definition in_checksum :: "manifest_check \<Rightarrow> bool" where
  "in_checksum st \<longleftrightarrow> (case mk_path st of n # _ \<Rightarrow> n = ''ChecksumCRC32C'' | [] \<Rightarrow> False)"

definition ascii_whitespace :: "char \<Rightarrow> bool" where
  "ascii_whitespace c \<longleftrightarrow> c \<in> set [CHR 0x20, CHR 0x09, CHR 0x0A, CHR 0x0C, CHR 0x0D]"

definition push_checksum :: "s3_lib \<Rightarrow> manifest_check \<Rightarrow> (string, string) result \<Rightarrow> (s3_response, manifest_check) result" where
  "push_checksum L st decoded =
     (case decoded of
        Err _ \<Rightarrow> Err (malformed_manifest L)
      | Ok v \<Rightarrow> Ok (if in_checksum st then st\<lparr>mk_checksum := mk_checksum st @ v\<rparr> else st))"

fun manifest_check_event ::
    "s3_lib \<Rightarrow> multipart_upload \<Rightarrow> (nat \<times> string) list \<Rightarrow> manifest_check \<Rightarrow> xml_event \<Rightarrow> (s3_response, manifest_check) result" where
  "manifest_check_event L u manifest st (StartTag _ name _) =
     bind_result (start_valid L st name) (\<lambda>(valid, fields).
     if valid then Ok (st\<lparr>mk_root_seen := True, mk_path := name # mk_path st, mk_fields := fields\<rparr>)
     else Err (malformed_manifest L))"
| "manifest_check_event L u manifest st (CharText value) =
     (if in_checksum st then push_checksum L st (xl_unescape (s3_xml L) value)
      else if length (mk_path st) < 3 \<and> \<not> list_all ascii_whitespace value then Err (malformed_manifest L)
      else Ok st)"
| "manifest_check_event L u manifest st (GeneralRef r) =
     (if length (mk_path st) = 3 then push_checksum L st (xl_unescape (s3_xml L) (CHR ''&'' # r @ '';''))
      else Err (malformed_manifest L))"
| "manifest_check_event L u manifest st (CDataText value) =
     (if length (mk_path st) = 3 then push_checksum L st (Ok value) else Err (malformed_manifest L))"
| "manifest_check_event L u manifest st (EndTag _ name) =
     (case mk_path st of
        [] \<Rightarrow> Err (malformed_manifest L)
      | n # outer \<Rightarrow>
          if n \<noteq> name then Err (malformed_manifest L)
          else if name = ''Part'' then validate_manifest_part L u manifest (st\<lparr>mk_path := outer\<rparr>)
          else Ok (st\<lparr>mk_path := outer\<rparr>))"
| "manifest_check_event L u manifest st CommentMark = Ok st"
| "manifest_check_event L u manifest st DeclMark = Ok st"
| "manifest_check_event L u manifest st _ = Err (malformed_manifest L)"

fun manifest_check_loop ::
    "s3_lib \<Rightarrow> multipart_upload \<Rightarrow> (nat \<times> string) list \<Rightarrow> manifest_check \<Rightarrow> xml_event list \<Rightarrow> (s3_response, unit) result" where
  "manifest_check_loop L u manifest st [] =
     (if mk_root_seen st \<and> mk_path st = [] \<and> mk_index st = length manifest then Ok () else Err (malformed_manifest L))"
| "manifest_check_loop L u manifest st (e # es) =
     bind_result (manifest_check_event L u manifest st e) (\<lambda>st'. manifest_check_loop L u manifest st' es)"

definition multipart_validate_manifest ::
    "s3_lib \<Rightarrow> request \<Rightarrow> multipart_upload \<Rightarrow> (nat \<times> string) list \<Rightarrow> (s3_response, unit) result" where
  "multipart_validate_manifest L req u manifest =
     manifest_check_loop L u manifest
       \<lparr>mk_path = [], mk_fields = [], mk_index = 0, mk_root_seen = False, mk_checksum = []\<rparr>
       (xl_events (s3_xml L) True (bytes_text (req_body req)))"

definition optional_value :: "string option \<Rightarrow> (string \<Rightarrow> 'a option) \<Rightarrow> 'e \<Rightarrow> ('e, 'a option) result" where
  "optional_value v f e =
     (case v of None \<Rightarrow> Ok None | Some s \<Rightarrow> (case f s of Some a \<Rightarrow> Ok (Some a) | None \<Rightarrow> Err e))"

fun consecutive_from :: "nat \<Rightarrow> (nat \<times> string) list \<Rightarrow> bool" where
  "consecutive_from n [] = True"
| "consecutive_from n ((number, _) # rest) = (number = n \<and> consecutive_from (n + 1) rest)"

definition multipart_completion_of ::
    "s3_lib \<Rightarrow> request \<Rightarrow> multipart_upload \<Rightarrow> (nat \<times> string) list \<Rightarrow> (s3_response, multipart_completion) result" where
  "multipart_completion_of L req u manifest =
     (case multipart_validate_headers L req of
        Some resp \<Rightarrow> Err resp
      | None \<Rightarrow>
          if \<not> checksum_headers_allowed req [''x-amz-checksum-crc32c'', ''x-amz-checksum-type''] \<or>
             (\<not> checksum_enabled u \<and> (checksums_requested req \<or> manifest_requests_checksum L (req_body req)))
          then Err (checksums_unsupported L)
          else if is_some_and (header req ''x-amz-checksum-type'') (\<lambda>v. v \<noteq> ''FULL_OBJECT'')
          then Err (s3_error L 400 ''BadDigest'' ''The checksum type differs from multipart initiation.'')
          else
            bind_result (optional_value (header req ''x-amz-checksum-crc32c'') (decode_crc32c L)
              (s3_error L 400 ''InvalidDigest'' ''CRC32C must be a Base64 encoded 32-bit digest.'')) (\<lambda>crc.
            bind_result (optional_value (header req ''x-amz-mp-object-size'') parse_u64
              (s3_error L 400 ''InvalidRequest'' ''The multipart object size must be an unsigned integer.'')) (\<lambda>extent.
            bind_result
              (if checksum_enabled u then
                 if \<not> consecutive_from 1 manifest
                 then Err (s3_error L 400 ''InvalidPartOrder'' ''Checksum part numbers must start at one and be consecutive.'')
                 else multipart_validate_manifest L req u manifest
               else Ok ()) (\<lambda>_.
            if is_some_and (header req ''if-none-match'') (\<lambda>v. v \<noteq> ''*'')
            then Err (s3_error L 400 ''InvalidRequest'' ''If-None-Match must be an asterisk.'')
            else if header req ''if-none-match'' \<noteq> None \<and> header req ''if-match'' \<noteq> None
            then Err (s3_error L 400 ''InvalidRequest'' ''Use one multipart publication condition.'')
            else Ok \<lparr>mc_crc32c = crc, mc_size = extent, mc_condition = mutation_condition req,
                     mc_require_existing = (''if-match'' \<in> set (header_names req))\<rparr>))))"

end
