(* ===== verification/S3_Objects.thy ===== *)
theory S3_Objects
  imports S3_Checksums
begin

text \<open>
  The object operations of the S3 interface (\<^verbatim>\<open>src/src/server/handlers/object.rs\<close>): one definition per
  handler and per part of it, over the operations of the store.

  A storage error becomes a response where the code turns it into one. The outer error of a handler
  (\<^verbatim>\<open>Result<_, String>\<close>) is a failure of the run. The clock is read where the code may read it, also
  on the paths on which the value is not needed.
\<close>

section \<open>Guards\<close>

text \<open>The early returns of the handlers: a response ends the handler.\<close>

definition respond_if :: "s3_response option \<Rightarrow> s3_response io \<Rightarrow> s3_response io" where
  "respond_if r k = (case r of Some resp \<Rightarrow> return resp | None \<Rightarrow> k)"

definition respond_if_io :: "s3_response option io \<Rightarrow> s3_response io \<Rightarrow> s3_response io" where
  "respond_if_io m k = bind_io m (\<lambda>r. respond_if r k)"

definition authorize :: "s3_lib \<Rightarrow> config \<Rightarrow> request \<Rightarrow> string \<Rightarrow> string option \<Rightarrow> string \<Rightarrow> s3_response option io" where
  "authorize L cfg req bucket key act =
     bind_io now_io (\<lambda>now.
     bind_io (check_authorization (s3_sign L) now req cfg bucket key act) (\<lambda>r.
     return (case r of Ok _ \<Rightarrow> None | Err e \<Rightarrow> Some (s3_of_xml_error L e))))"

definition check_presigned :: "s3_lib \<Rightarrow> config \<Rightarrow> request \<Rightarrow> string \<Rightarrow> string \<Rightarrow> s3_response option io" where
  "check_presigned L cfg req bucket key =
     bind_io now_io (\<lambda>now.
     return (case verify_presigned_url (s3_sign L) now req bucket key cfg of
               Ok _ \<Rightarrow> None
             | Err e \<Rightarrow> Some (s3_of_xml_error L e)))"

definition has_param :: "s3_lib \<Rightarrow> request \<Rightarrow> string \<Rightarrow> bool" where
  "has_param L req name = has_query_param (s3_decode L) req name"

definition param :: "s3_lib \<Rightarrow> request \<Rightarrow> string \<Rightarrow> string option" where
  "param L req name = query_param (s3_decode L) req name"

definition missing_object_bucket_response :: "s3_lib \<Rightarrow> bool \<Rightarrow> s3_response" where
  "missing_object_bucket_response L head =
     (if head then new_response 404 else s3_error L 404 ''NoSuchBucket'' ''The specified bucket does not exist.'')"

definition object_bucket_error_response :: "s3_lib \<Rightarrow> string \<Rightarrow> bool \<Rightarrow> s3_response option io" where
  "object_bucket_error_response L bucket head =
     bind_io (try_io (get_bucket bucket)) (\<lambda>r.
     return (case r of
               Ok _ \<Rightarrow> None
             | Err e \<Rightarrow>
                 if e = BucketNotFound then Some (missing_object_bucket_response L head)
                 else Some (if head then new_response 500 else storage_error_response L e)))"

definition unsupported_object_lock_subresource_response :: "s3_lib \<Rightarrow> request \<Rightarrow> s3_response option" where
  "unsupported_object_lock_subresource_response L req =
     map_option (\<lambda>parameter.
         s3_error L 501 ''NotImplemented''
           (''The S3 object '' @ parameter @ '' subresource is not supported by this emulator.''))
       (List.find (has_param L req) [''retention'', ''legal-hold''])"

definition unsupported_version_tagging_response :: "s3_lib \<Rightarrow> s3_response" where
  "unsupported_version_tagging_response L =
     s3_error L 501 ''NotImplemented'' ''Version-scoped object tagging is not supported by this emulator subset.''"

definition version_tagging :: "s3_lib \<Rightarrow> request \<Rightarrow> s3_response option" where
  "version_tagging L req =
     (if has_param L req ''tagging'' \<and> has_param L req ''versionId'' then Some (unsupported_version_tagging_response L)
      else None)"

definition foreign_conflict :: "s3_lib \<Rightarrow> string \<Rightarrow> s3_response option io" where
  "foreign_conflict L bucket =
     bind_io (s3_foreign_history_conflict bucket) (\<lambda>active.
     return (if active then Some (s3_foreign_history_conflict_response L) else None))"

definition ok_empty_object_response :: "s3_lib \<Rightarrow> string \<Rightarrow> request \<Rightarrow> s3_response io" where
  "ok_empty_object_response L bucket req = apply_actual_request_headers L bucket req (new_response 200)"

definition no_content_object_response :: "s3_lib \<Rightarrow> string \<Rightarrow> request \<Rightarrow> s3_response io" where
  "no_content_object_response L bucket req = apply_actual_request_headers L bucket req (new_response 204)"

definition bare_no_content_response :: s3_response where
  "bare_no_content_response = new_response 204"

definition no_such_key :: "s3_lib \<Rightarrow> s3_response" where
  "no_such_key L = s3_error L 404 ''NoSuchKey'' ''Key not found''"

definition key_missing :: "s3_lib \<Rightarrow> s3_response" where
  "key_missing L = s3_error L 404 ''NoSuchKey'' ''The specified key does not exist.''"

section \<open>Reading\<close>

definition object_expired :: "string \<Rightarrow> string \<Rightarrow> bool io" where
  "object_expired bucket key =
     bind_io (try_io (check_object_expiration bucket key)) (\<lambda>r. return (case r of Ok b \<Rightarrow> b | Err _ \<Rightarrow> False))"

definition object_tagging_response :: "s3_lib \<Rightarrow> string \<Rightarrow> string \<Rightarrow> s3_response io" where
  "object_tagging_response L bucket key =
     bind_io (try_io (get_object_tags bucket key)) (\<lambda>r.
     return (case r of
               Ok tags \<Rightarrow> xml_success_response L 200 (TaggingDocument tags)
             | Err e \<Rightarrow> storage_error_response L e))"

definition object_acl_response :: "s3_lib \<Rightarrow> string \<Rightarrow> string \<Rightarrow> s3_response io" where
  "object_acl_response L bucket key =
     bind_io (try_io (get_object_acl bucket key)) (\<lambda>r.
     return (case r of
               Ok a \<Rightarrow> xml_success_response L 200 (AclDocument (''sqrzl-emulator'', ''S3 Emulator'') a)
             | Err e \<Rightarrow> storage_error_response L e))"

definition read_admission_conditions :: "s3_lib \<Rightarrow> string \<Rightarrow> string \<Rightarrow> string option \<Rightarrow> request \<Rightarrow> s3_response option io" where
  "read_admission_conditions L bucket key version req =
     bind_io (try_io (s3_metadata bucket key version)) (\<lambda>r.
     bind_io (gets ext) (\<lambda>x.
     return (case r of
               Err _ \<Rightarrow> None
             | Ok ob \<Rightarrow>
                 if is_s3_delete_marker ob then None
                 else or_else (validate_get_sse_headers L req ob) (check_object_conditionals L x req ob))))"

definition object_payload_response ::
    "s3_lib \<Rightarrow> string \<Rightarrow> request \<Rightarrow> object \<Rightarrow> nat \<Rightarrow> (bytes \<times> nat \<times> string) option \<Rightarrow> s3_response io" where
  "object_payload_response L bucket req ob status selected =
     bind_io (gets ext) (\<lambda>x.
     respond_if (validate_get_sse_headers L req ob)
     (respond_if (check_object_conditionals L x req ob)
      (let (data, content_length, content_range) =
             (case selected of
                Some (data, len, cr) \<Rightarrow> (data, len, Some cr)
              | None \<Rightarrow> (obj_data ob, obj_size ob, None));
           resp = content_type_header L (obj_content_type ob) (new_response status);
           resp = with_header L ''Content-Length'' (show_nat content_length) resp;
           resp = with_optional_header L ''Content-Range'' content_range resp;
           resp = retrieval_headers L req ob (object_response_headers L ob resp)
       in bind_io (apply_actual_request_headers L bucket req resp) (\<lambda>resp. return (with_payload L data resp)))))"

definition content_range_text :: "nat \<Rightarrow> nat \<Rightarrow> nat \<Rightarrow> string" where
  "content_range_text start len extent =
     ''bytes '' @ show_nat start @ ''-'' @ show_nat (start + (len - 1)) @ ''/'' @ show_nat extent"

definition delete_marker_response :: "s3_lib \<Rightarrow> string \<Rightarrow> request \<Rightarrow> object \<Rightarrow> bool \<Rightarrow> bool \<Rightarrow> s3_response io" where
  "delete_marker_response L bucket req marker version_specific head =
     (let resp = new_response (if version_specific then 405 else 404);
          resp = with_header L ''x-amz-delete-marker'' ''true'' resp;
          resp = with_optional_header L ''x-amz-version-id'' (obj_version_id marker) resp;
          resp = (if version_specific
                  then with_header L ''Last-Modified'' (s3_http_date L (obj_last_modified marker)) resp else resp)
      in
      bind_io (apply_actual_request_headers L bucket req resp) (\<lambda>resp.
      return (if head then resp
              else
                with_document
                  (if version_specific
                   then ErrorDocument ''MethodNotAllowed'' ''The specified method is not allowed against this resource.''
                   else ErrorDocument ''NoSuchKey'' ''The specified key does not exist.'')
                  (content_type_header L xml_type resp))))"

definition current_delete_marker :: "string \<Rightarrow> string \<Rightarrow> object option io" where
  "current_delete_marker bucket key =
     bind_io (try_io (list_object_versions_for_key bucket key)) (\<lambda>r.
     return (case r of
               Err _ \<Rightarrow> None
             | Ok versions \<Rightarrow>
                 (case latest_version versions of
                    Some ob \<Rightarrow> if is_s3_delete_marker ob then Some ob else None
                  | None \<Rightarrow> None)))"

definition object_version_response :: "s3_lib \<Rightarrow> string \<Rightarrow> string \<Rightarrow> string \<Rightarrow> request \<Rightarrow> s3_response io" where
  "object_version_response L bucket key version_id req =
     (case (case header req ''range'' of None \<Rightarrow> Some None | Some value \<Rightarrow> map_option Some (parse_range value)) of
        None \<Rightarrow> return (invalid_range L)
      | Some rng \<Rightarrow>
          respond_if_io (read_admission_conditions L bucket key (Some version_id) req)
          (bind_io (s3_payload L bucket key (Some version_id) rng) (\<lambda>r.
           case r of
             Err resp \<Rightarrow> return resp
           | Ok ob \<Rightarrow>
               if is_s3_delete_marker ob then delete_marker_response L bucket req ob True False
               else
                 (case rng of
                    Some (start, _) \<Rightarrow>
                      object_payload_response L bucket req (ob\<lparr>obj_data := []\<rparr>) 206
                        (Some (obj_data ob, length (obj_data ob),
                               content_range_text start (length (obj_data ob)) (obj_size ob)))
                  | None \<Rightarrow> object_payload_response L bucket req ob 200 None))))"

definition or_delete_marker :: "s3_lib \<Rightarrow> string \<Rightarrow> string \<Rightarrow> request \<Rightarrow> s3_response \<Rightarrow> s3_response io" where
  "or_delete_marker L bucket key req resp =
     bind_io (current_delete_marker bucket key) (\<lambda>m.
     case m of
       None \<Rightarrow> return resp
     | Some marker \<Rightarrow> delete_marker_response L bucket req marker False False)"

definition object_range_response :: "s3_lib \<Rightarrow> string \<Rightarrow> string \<Rightarrow> request \<Rightarrow> string \<Rightarrow> s3_response io" where
  "object_range_response L bucket key req range_header =
     (case parse_range range_header of
        None \<Rightarrow> return (invalid_range L)
      | Some rng \<Rightarrow>
          respond_if_io (read_admission_conditions L bucket key None req)
          (bind_io (s3_payload L bucket key None (Some rng)) (\<lambda>r.
           case r of
             Ok ob \<Rightarrow>
               object_payload_response L bucket req (ob\<lparr>obj_data := []\<rparr>) 206
                 (Some (obj_data ob, length (obj_data ob),
                        content_range_text (fst rng) (length (obj_data ob)) (obj_size ob)))
           | Err resp \<Rightarrow> or_delete_marker L bucket key req resp)))"

definition object_full_response :: "s3_lib \<Rightarrow> string \<Rightarrow> string \<Rightarrow> request \<Rightarrow> s3_response io" where
  "object_full_response L bucket key req =
     respond_if_io (read_admission_conditions L bucket key None req)
     (bind_io (s3_payload L bucket key None None) (\<lambda>r.
      case r of
        Ok ob \<Rightarrow> object_payload_response L bucket req ob 200 None
      | Err resp \<Rightarrow> or_delete_marker L bucket key req resp))"

text \<open>One page of the parts of an upload.\<close>

definition parts_page :: "part list \<Rightarrow> nat \<Rightarrow> nat \<Rightarrow> part list \<times> bool \<times> nat option" where
  "parts_page ps marker max_parts =
     (let matching = filter (\<lambda>p. marker < part_number p) (sort_key part_number ps);
          page = take max_parts matching;
          truncated = drop max_parts matching \<noteq> []
      in (page, truncated, if truncated \<and> page \<noteq> [] then Some (part_number (last page)) else None))"

definition object_parts_response :: "s3_lib \<Rightarrow> string \<Rightarrow> string \<Rightarrow> string \<Rightarrow> request \<Rightarrow> s3_response io" where
  "object_parts_response L bucket key uid req =
     bind_io (try_io (get_multipart_upload bucket uid)) (\<lambda>r.
     return (case r of
       Err e \<Rightarrow> storage_error_response L e
     | Ok u \<Rightarrow>
         if upload_key u \<noteq> key then upload_key_mismatch_response L
         else
           case (case param L req ''part-number-marker'' of None \<Rightarrow> Some 0 | Some v \<Rightarrow> parse_u32 v) of
             None \<Rightarrow> s3_error L 400 ''InvalidArgument'' ''part-number-marker must be a non-negative integer.''
           | Some marker \<Rightarrow>
               (case (case param L req ''max-parts'' of None \<Rightarrow> Some 1000 | Some v \<Rightarrow> map_option (min 1000) (parse_u32 v)) of
                  None \<Rightarrow> s3_error L 400 ''InvalidArgument'' ''max-parts must be a non-negative integer.''
                | Some max_parts \<Rightarrow>
                    (case parts_page (parts u) marker max_parts of
                       (page, truncated, next_mark) \<Rightarrow>
                         xml_success_response L 200 (PartsDocument
                           \<lparr>lp_bucket = bucket, lp_key = key, lp_upload_id = uid,
                            lp_storage_class =
                              (case upload_provider_metadata u ''storage_class'' of Some c \<Rightarrow> c | None \<Rightarrow> ''STANDARD''),
                            lp_part_number_marker = marker, lp_next_part_number_marker = next_mark,
                            lp_max_parts = max_parts, lp_is_truncated = truncated, lp_parts = page\<rparr>)))))"

definition object_get :: "s3_lib \<Rightarrow> config \<Rightarrow> string \<Rightarrow> string \<Rightarrow> request \<Rightarrow> s3_response io" where
  "object_get L cfg bucket key req =
     (if is_preflight req then preflight_response L bucket req
      else
        respond_if_io (authorize L cfg req bucket (Some key) ''s3:GetObject'')
        (respond_if_io (check_presigned L cfg req bucket key)
        (respond_if_io (object_bucket_error_response L bucket False)
        (respond_if (unsupported_object_lock_subresource_response L req)
        (respond_if (version_tagging L req)
        (respond_if_io (foreign_conflict L bucket)
        (bind_io (object_expired bucket key) (\<lambda>expired.
         if expired then return (no_such_key L)
         else if has_param L req ''tagging'' then object_tagging_response L bucket key
         else if has_param L req ''acl'' then object_acl_response L bucket key
         else
           case param L req ''versionId'' of
             Some version_id \<Rightarrow> object_version_response L bucket key version_id req
           | None \<Rightarrow>
               (case param L req ''uploadId'' of
                  Some uid \<Rightarrow> object_parts_response L bucket key uid req
                | None \<Rightarrow>
                    (case header req ''range'' of
                       Some value \<Rightarrow> object_range_response L bucket key req value
                     | None \<Rightarrow> object_full_response L bucket key req))))))))))"

section \<open>Writing\<close>

definition s3_mutation_preserves_current_version :: "string \<Rightarrow> object \<Rightarrow> bool io" where
  "s3_mutation_preserves_current_version bucket ob =
     bind_io (try_io (get_bucket bucket)) (\<lambda>r.
     return (case r of
               Err _ \<Rightarrow> False
             | Ok b \<Rightarrow>
                 versioning_enabled b \<or>
                 (bucket_metadata b ''s3_versioning_status'' = Some ''Suspended'' \<and> obj_version_id ob \<noteq> Some ''null'')))"

definition object_lock_headers_requested :: "request \<Rightarrow> bool" where
  "object_lock_headers_requested req \<longleftrightarrow>
     list_ex (\<lambda>name. header req name \<noteq> None)
       [''x-amz-object-lock-mode'', ''x-amz-object-lock-retain-until-date'', ''x-amz-object-lock-legal-hold'']"

definition lock_digest_missing :: "s3_lib \<Rightarrow> request \<Rightarrow> s3_response option" where
  "lock_digest_missing L req =
     (if header req ''x-amz-copy-source'' = None \<and> header req ''content-md5'' = None then
        Some (if header req ''x-amz-sdk-checksum-algorithm'' \<noteq> None
              then s3_error L 501 ''NotImplemented''
                     ''SDK checksum algorithms for Object Lock PUT are not supported by this emulator subset.''
              else s3_error L 400 ''InvalidRequest'' ''Content-MD5 is required when Object Lock parameters are supplied.'')
      else None)"

definition lock_retention_invalid :: "s3_lib \<Rightarrow> externs \<Rightarrow> datetime \<Rightarrow> request \<Rightarrow> s3_response option" where
  "lock_retention_invalid L x now req =
     (let mode = header req ''x-amz-object-lock-mode''; retain_until = header req ''x-amz-object-lock-retain-until-date'' in
      if (mode \<noteq> None) \<noteq> (retain_until \<noteq> None)
      then Some (s3_error L 400 ''InvalidRequest'' ''Object Lock mode and retain-until date must be supplied together.'')
      else
        case mode of
          None \<Rightarrow> None
        | Some m \<Rightarrow>
            if m \<noteq> ''GOVERNANCE'' \<and> m \<noteq> ''COMPLIANCE''
            then Some (s3_error L 400 ''InvalidRequest'' ''Unsupported object lock mode'')
            else if \<not> is_some_and (Option.bind retain_until (parse_lock_timestamp x)) (\<lambda>until. now < until)
            then Some (s3_error L 400 ''InvalidRequest'' ''Object Lock retain-until date must be a valid future timestamp.'')
            else None)"

definition validate_object_lock_put_request :: "s3_lib \<Rightarrow> string \<Rightarrow> request \<Rightarrow> s3_response option io" where
  "validate_object_lock_put_request L bucket req =
     (if \<not> object_lock_headers_requested req then return None
      else
        bind_io (try_io (get_bucket bucket)) (\<lambda>r.
        let lock_enabled = (case r of Ok b \<Rightarrow> bucket_metadata b ''s3_object_lock_enabled'' = Some ''true'' | Err _ \<Rightarrow> False) in
        if \<not> lock_enabled
        then return (Some (s3_error L 400 ''InvalidRequest'' ''Bucket is missing an Object Lock configuration.''))
        else
          bind_io now_io (\<lambda>now.
          bind_io (gets ext) (\<lambda>x.
          return (or_else (lock_retention_invalid L x now req) (lock_digest_missing L req))))))"

definition validate_content_md5 :: "s3_lib \<Rightarrow> externs \<Rightarrow> request \<Rightarrow> s3_response option" where
  "validate_content_md5 L x req =
     (if ''content-md5'' \<notin> set (header_names req) then None
      else
        case (if header_count req ''content-md5'' = 1 then header req ''content-md5'' else None) of
          None \<Rightarrow> Some (s3_error L 400 ''InvalidDigest'' ''Content-MD5 must occur once and contain an ASCII digest.'')
        | Some supplied \<Rightarrow>
            (case s3_base64_decode L supplied of
               None \<Rightarrow> Some (s3_error L 400 ''InvalidDigest'' ''The Content-MD5 value is not valid base64.'')
             | Some decoded \<Rightarrow>
                 if length decoded \<noteq> 16
                 then Some (s3_error L 400 ''InvalidDigest'' ''The Content-MD5 value is not a valid MD5 digest.'')
                 else if decoded \<noteq> payload_md5 x req
                 then Some (s3_error L 400 ''BadDigest'' ''The Content-MD5 value does not match the request body.'')
                 else None))"

text \<open>Is the current object locked? An object that cannot be read is not.\<close>

definition current_locked :: "string \<Rightarrow> string \<Rightarrow> bool io" where
  "current_locked bucket key =
     bind_io (try_io (get_object_metadata bucket key)) (\<lambda>r.
     bind_io now_io (\<lambda>now.
     bind_io (gets ext) (\<lambda>x.
     return (case r of Ok ob \<Rightarrow> object_is_locked x now ob | Err _ \<Rightarrow> False))))"

definition not_found_or_internal :: "s3_lib \<Rightarrow> error \<Rightarrow> s3_response" where
  "not_found_or_internal L e = (if e = KeyNotFound then no_such_key L else internal_error_response L e)"

definition put_object_tagging :: "s3_lib \<Rightarrow> string \<Rightarrow> string \<Rightarrow> request \<Rightarrow> s3_response io" where
  "put_object_tagging L bucket key req =
     bind_io (current_locked bucket key) (\<lambda>locked.
     if locked then return (locked_object_response L)
     else
       case s3_utf8 L (req_body req) of
         Err e \<Rightarrow> throw (InternalError (''Invalid UTF-8 body: '' @ e))
       | Ok body \<Rightarrow>
           (case parse_tagging_xml (s3_xml L) body of
              Err message \<Rightarrow> return (s3_error L 400 ''MalformedXML'' message)
            | Ok tags \<Rightarrow>
                bind_io (try_io (put_object_tags bucket key (sm_get tags))) (\<lambda>r.
                case r of
                  Ok _ \<Rightarrow> ok_empty_object_response L bucket req
                | Err e \<Rightarrow> return (not_found_or_internal L e))))"

definition acl_from_xml_body :: "s3_lib \<Rightarrow> bytes \<Rightarrow> (string, acl) result" where
  "acl_from_xml_body L body =
     bind_result (map_err (\<lambda>e. ''Invalid UTF-8 body: '' @ e) (s3_utf8 L body)) (\<lambda>text.
     bind_result (parse_acl_xml (s3_xml L) text) (\<lambda>a. Ok (normalize_acl a)))"

definition s3_put_object_acl :: "s3_lib \<Rightarrow> string \<Rightarrow> string \<Rightarrow> request \<Rightarrow> s3_response io" where
  "s3_put_object_acl L bucket key req =
     (case (if req_body req = [] then map_err (\<lambda>m. (''InvalidArgument'', m)) (acl_from_headers req)
            else map_err (\<lambda>m. (''MalformedXML'', m)) (acl_from_xml_body L (req_body req))) of
        Err (code, message) \<Rightarrow> return (s3_error L 400 code message)
      | Ok a \<Rightarrow>
          bind_io (try_io (put_object_acl bucket key a)) (\<lambda>r.
          case r of
            Ok _ \<Rightarrow> ok_empty_object_response L bucket req
          | Err e \<Rightarrow> return (not_found_or_internal L e)))"

definition requested_part_number :: "s3_lib \<Rightarrow> request \<Rightarrow> nat" where
  "requested_part_number L req =
     (case Option.bind (param L req ''partNumber'') parse_u32 of Some n \<Rightarrow> n | None \<Rightarrow> 0)"

definition requested_upload_id :: "s3_lib \<Rightarrow> request \<Rightarrow> string" where
  "requested_upload_id L req = (case param L req ''uploadId'' of Some u \<Rightarrow> u | None \<Rightarrow> [])"

definition store_uploaded_part :: "string \<Rightarrow> string \<Rightarrow> nat \<Rightarrow> request \<Rightarrow> string io" where
  "store_uploaded_part bucket uid n req =
     (case req_spooled_body req of
        Some spooled \<Rightarrow> upload_part_streamed bucket uid n (sp_path spooled) (sp_len spooled) (hex_encode (sp_md5 spooled))
      | None \<Rightarrow> upload_part bucket uid n (req_body req))"

definition upload_multipart_part :: "s3_lib \<Rightarrow> string \<Rightarrow> string \<Rightarrow> request \<Rightarrow> s3_response io" where
  "upload_multipart_part L bucket key req =
     bind_io (try_io (get_multipart_upload bucket (requested_upload_id L req))) (\<lambda>r.
     case r of
       Err e \<Rightarrow> return (storage_error_response L e)
     | Ok u \<Rightarrow>
         if upload_key u \<noteq> key then return (upload_key_mismatch_response L)
         else
           bind_io (gets ext) (\<lambda>x.
           respond_if (or_else (validate_part L req u) (validate_content_md5 L x req))
           (bind_io (try_io (store_uploaded_part bucket (requested_upload_id L req) (requested_part_number L req) req)) (\<lambda>stored.
            case stored of
              Ok etag \<Rightarrow>
                apply_actual_request_headers L bucket req
                  (part_headers L x req u (with_header L ''ETag'' (quoted_etag etag) (new_response 200)))
            | Err e \<Rightarrow> return (storage_error_response L e)))))"

definition find_version_param :: "string list \<Rightarrow> string option" where
  "find_version_param params =
     (case List.map_filter (\<lambda>p. case split_once (CHR ''='') p of
                Some (name, value) \<Rightarrow> if name = ''versionId'' then Some value else None
              | None \<Rightarrow> None) params of
        [] \<Rightarrow> None
      | v # _ \<Rightarrow> Some v)"

definition parse_copy_source_header ::
    "s3_lib \<Rightarrow> string \<Rightarrow> (s3_response, string \<times> string \<times> string option) result" where
  "parse_copy_source_header L copy_source =
     (case split_once (CHR ''/'') (dropWhile (\<lambda>c. c = CHR ''/'') copy_source) of
        None \<Rightarrow> Err (s3_error L 400 ''InvalidArgument'' ''Invalid copy source format'')
      | Some (source_bucket, key_and_query) \<Rightarrow>
          let (source_key, version_id) =
                (case split_once (CHR ''?'') key_and_query of
                   None \<Rightarrow> (key_and_query, None)
                 | Some (key, query) \<Rightarrow> (key, find_version_param (split_on (CHR ''&'') query)));
              decode = (\<lambda>value. map_err (\<lambda>_. s3_error L 400 ''InvalidArgument''
                  ''The x-amz-copy-source header contains invalid percent encoding.'') (decode_uri_path (s3_decode L) value))
          in
          bind_result (decode source_bucket) (\<lambda>b.
          bind_result (decode source_key) (\<lambda>k.
          bind_result (case version_id of None \<Rightarrow> Ok None | Some v \<Rightarrow> bind_result (decode v) (\<lambda>d. Ok (Some d))) (\<lambda>v.
          Ok (b, k, v)))))"

definition copy_source_conditions :: "s3_lib \<Rightarrow> request \<Rightarrow> string \<times> string \<times> string option \<Rightarrow> s3_response option io" where
  "copy_source_conditions L req source =
     (case source of (b, k, v) \<Rightarrow>
        bind_io (try_io (s3_metadata b k v)) (\<lambda>r.
        bind_io (gets ext) (\<lambda>x.
        return (case r of Ok src \<Rightarrow> check_copy_conditionals L x req src | Err _ \<Rightarrow> None))))"

definition copy_marker_response :: "s3_lib \<Rightarrow> s3_response" where
  "copy_marker_response L =
     s3_error L 400 ''InvalidRequest'' ''The source of a copy request may not refer to a delete marker.''"

definition upload_part_copy :: "s3_lib \<Rightarrow> string \<Rightarrow> string \<Rightarrow> string \<Rightarrow> request \<Rightarrow> s3_response io" where
  "upload_part_copy L bucket key copy_source req =
     bind_io (try_io (get_multipart_upload bucket (requested_upload_id L req))) (\<lambda>r.
     case r of
       Err e \<Rightarrow> return (storage_error_response L e)
     | Ok u \<Rightarrow>
         if upload_key u \<noteq> key then return (upload_key_mismatch_response L)
         else if checksum_enabled u then return (checksums_unsupported L)
         else
           case parse_copy_source_header L copy_source of
             Err resp \<Rightarrow> return resp
           | Ok source \<Rightarrow>
               respond_if_io (foreign_conflict L (fst source))
               (case (case header req ''x-amz-copy-source-range'' of
                        None \<Rightarrow> Some None
                      | Some value \<Rightarrow> map_option Some (parse_range value)) of
                  None \<Rightarrow> return (s3_error L 400 ''InvalidArgument'' ''Invalid x-amz-copy-source-range value.'')
                | Some rng \<Rightarrow>
                    respond_if_io (copy_source_conditions L req source)
                    (bind_io (s3_payload L (fst source) (fst (snd source)) (snd (snd source)) rng) (\<lambda>p.
                     case p of
                       Err resp \<Rightarrow> return resp
                     | Ok src \<Rightarrow>
                         if is_s3_delete_marker src then return (copy_marker_response L)
                         else
                           bind_io (gets ext) (\<lambda>x.
                           respond_if (check_copy_conditionals L x req src)
                           (bind_io (try_io (upload_part bucket (requested_upload_id L req) (requested_part_number L req)
                                      (obj_data src))) (\<lambda>stored.
                            case stored of
                              Err e \<Rightarrow> return (storage_error_response L e)
                            | Ok etag \<Rightarrow>
                                bind_io now_io (\<lambda>now.
                                bind_io (apply_actual_request_headers L bucket req
                                  (content_type_header L xml_type (new_response 200))) (\<lambda>resp.
                                return (with_document (CopyPartDocument now (quoted_etag etag)) resp)))))))))) "

section \<open>Copying\<close>

definition copy_object_replaces_metadata :: "request \<Rightarrow> bool" where
  "copy_object_replaces_metadata req \<longleftrightarrow>
     eq_ignore_ascii_case (case header req ''x-amz-metadata-directive'' of Some v \<Rightarrow> v | None \<Rightarrow> ''COPY'') ''REPLACE''"

definition copy_object_metadata :: "request \<Rightarrow> object \<Rightarrow> strmap" where
  "copy_object_metadata req src =
     (if copy_object_replaces_metadata req then extract_metadata_from_http_headers req else obj_metadata src)"

definition copy_object_tags :: "s3_lib \<Rightarrow> request \<Rightarrow> object \<Rightarrow> (string, strmap option) result" where
  "copy_object_tags L req src =
     (let directive = (case header req ''x-amz-tagging-directive'' of Some v \<Rightarrow> v | None \<Rightarrow> ''COPY'') in
      case header req ''x-amz-tagging'' of
        Some tagging_header \<Rightarrow>
          if eq_ignore_ascii_case directive ''REPLACE''
          then bind_result (map_err (\<lambda>e. ''Invalid tags: '' @ e) (parse_tagging_header L tagging_header)) (\<lambda>t. Ok (Some t))
          else Err ''x-amz-tagging requires x-amz-tagging-directive: REPLACE''
      | None \<Rightarrow> if eq_ignore_ascii_case directive ''COPY'' then Ok (Some (obj_tags src)) else Ok (Some Map.empty))"

definition copy_directive_invalid :: "s3_lib \<Rightarrow> request \<Rightarrow> string \<Rightarrow> s3_response option" where
  "copy_directive_invalid L req name =
     (if is_some_and (header req name) (\<lambda>v. \<not> eq_ignore_ascii_case v ''COPY'' \<and> \<not> eq_ignore_ascii_case v ''REPLACE'')
      then Some (s3_error L 400 ''InvalidArgument'' (name @ '' must be COPY or REPLACE.''))
      else None)"

definition validate_copy_request_contract :: "s3_lib \<Rightarrow> request \<Rightarrow> s3_response option" where
  "validate_copy_request_contract L req =
     (if is_some_and (header req ''if-none-match'') (\<lambda>v. str_trim v \<noteq> ''*'')
      then Some (s3_error L 400 ''InvalidArgument''
             (''If-None-Match for CopyObject only supports the '' @ CHR 0x27 # ''*'' @ CHR 0x27 # '' value.''))
      else if header req ''x-amz-copy-source-range'' \<noteq> None
      then Some (s3_error L 400 ''InvalidRequest'' ''x-amz-copy-source-range is valid only for UploadPartCopy.'')
      else or_else (copy_directive_invalid L req ''x-amz-metadata-directive'')
             (copy_directive_invalid L req ''x-amz-tagging-directive''))"

definition stored_version_id :: "string \<Rightarrow> string \<Rightarrow> string option io" where
  "stored_version_id bucket key =
     bind_io (try_io (get_object_metadata bucket key)) (\<lambda>r.
     return (case r of Ok ob \<Rightarrow> obj_version_id ob | Err _ \<Rightarrow> None))"

definition copy_object_response :: "s3_lib \<Rightarrow> string \<Rightarrow> string \<Rightarrow> request \<Rightarrow> string \<Rightarrow> datetime \<Rightarrow> s3_response io" where
  "copy_object_response L bucket key req etag modified =
     bind_io (stored_version_id bucket key) (\<lambda>version_id.
     bind_io (apply_actual_request_headers L bucket req
       (add_version_header L version_id (content_type_header L xml_type (new_response 200)))) (\<lambda>resp.
     return (with_document (CopyObjectDocument (quoted_etag etag) modified) resp)))"

text \<open>A conditional or unconditional write; \<open>Some False\<close> is a condition that does not hold.\<close>

definition store_object :: "string \<Rightarrow> object \<Rightarrow> object_condition option \<Rightarrow> path option \<Rightarrow> bool option io" where
  "store_object bucket ob cond spooled =
     (case (cond, spooled) of
        (Some c, Some p) \<Rightarrow> bind_io (put_object_streamed_if bucket (obj_key ob) ob p c) (\<lambda>b. return (Some b))
      | (Some c, None) \<Rightarrow> bind_io (put_object_if bucket (obj_key ob) ob c) (\<lambda>b. return (Some b))
      | (None, Some p) \<Rightarrow> then_io (put_object_streamed bucket (obj_key ob) ob p) (return None)
      | (None, None) \<Rightarrow> then_io (put_object bucket (obj_key ob) ob) (return None))"

definition store_copied_object :: "s3_lib \<Rightarrow> string \<Rightarrow> string \<Rightarrow> request \<Rightarrow> object \<Rightarrow> s3_response io" where
  "store_copied_object L bucket key req dest =
     bind_io (try_io (store_object bucket dest (mutation_condition req) None)) (\<lambda>r.
     case r of
       Err e \<Rightarrow> return (internal_error_response L e)
     | Ok (Some False) \<Rightarrow> return (precondition_failed_response L)
     | Ok _ \<Rightarrow> copy_object_response L bucket key req (obj_etag dest) (obj_last_modified dest))"

definition copied_object :: "externs \<Rightarrow> request \<Rightarrow> string \<Rightarrow> object \<Rightarrow> datetime \<Rightarrow> object" where
  "copied_object x req key src now =
     (let content_type =
            (if copy_object_replaces_metadata req
             then (case header req ''content-type'' of Some c \<Rightarrow> c | None \<Rightarrow> ''application/octet-stream'')
             else obj_content_type src);
          dest = (new_with_metadata x key (obj_data src) content_type (copy_object_metadata req src) now)
                   \<lparr>obj_provider_metadata := obj_provider_metadata src\<rparr>;
          dest = clear_object_lock_metadata dest
      in if copy_object_replaces_metadata req then replace_content_properties req dest else dest)"

definition copy_loaded_object :: "s3_lib \<Rightarrow> string \<Rightarrow> string \<Rightarrow> request \<Rightarrow> object \<Rightarrow> s3_response io" where
  "copy_loaded_object L bucket key req src =
     (if is_s3_delete_marker src then return (copy_marker_response L)
      else
        bind_io (gets ext) (\<lambda>x.
        respond_if (check_copy_conditionals L x req src)
        (respond_if (validate_copy_request_contract L req)
         (case copy_object_tags L req src of
            Err message \<Rightarrow> return (s3_error L 400 ''InvalidTag'' message)
          | Ok tags \<Rightarrow>
              bind_io now_io (\<lambda>now.
              case apply_s3_request_contracts L x req (copied_object x req key src now) of
                Err resp \<Rightarrow> return resp
              | Ok dest \<Rightarrow>
                  store_copied_object L bucket key req
                    (dest\<lparr>obj_tags := (case tags of Some t \<Rightarrow> t | None \<Rightarrow> obj_tags src)\<rparr>))))))"

definition copy_object :: "s3_lib \<Rightarrow> string \<Rightarrow> string \<Rightarrow> string \<Rightarrow> request \<Rightarrow> s3_response io" where
  "copy_object L bucket key copy_source req =
     (case parse_copy_source_header L copy_source of
        Err resp \<Rightarrow> return resp
      | Ok source \<Rightarrow>
          respond_if_io (foreign_conflict L (fst source))
          (respond_if_io (copy_source_conditions L req source)
           (bind_io (s3_payload L (fst source) (fst (snd source)) (snd (snd source)) None) (\<lambda>p.
            case p of
              Err resp \<Rightarrow> return resp
            | Ok src \<Rightarrow> copy_loaded_object L bucket key req src))))"

section \<open>Storing a body\<close>

definition validate_put_target :: "s3_lib \<Rightarrow> string \<Rightarrow> string \<Rightarrow> s3_response option" where
  "validate_put_target L bucket key =
     (case validate_bucket_name bucket of
        Err message \<Rightarrow> Some (s3_error L 400 ''InvalidBucketName'' message)
      | Ok _ \<Rightarrow>
          (case validate_blob_key key of
             Err message \<Rightarrow> Some (s3_error L 400 ''InvalidKey'' message)
           | Ok _ \<Rightarrow> None))"

definition parse_optional_tagging_header :: "s3_lib \<Rightarrow> request \<Rightarrow> (string, strmap option) result" where
  "parse_optional_tagging_header L req =
     (case header req ''x-amz-tagging'' of
        None \<Rightarrow> Ok None
      | Some value \<Rightarrow> bind_result (parse_tagging_header L value) (\<lambda>t. Ok (Some t)))"

definition put_object_response :: "s3_lib \<Rightarrow> string \<Rightarrow> string \<Rightarrow> request \<Rightarrow> string \<Rightarrow> s3_response io" where
  "put_object_response L bucket key req etag =
     bind_io (stored_version_id bucket key) (\<lambda>version_id.
     bind_io (gets ext) (\<lambda>x.
     bind_io now_io (\<lambda>now.
     let resp = with_header L ''Content-Length'' ''0'' (new_response 200);
         resp = with_header L ''ETag'' (quoted_etag etag) resp;
         resp = add_version_header L version_id resp;
         identity = replace_identity L x req (new_object x key [] ''application/octet-stream'' now)
     in apply_actual_request_headers L bucket req (checksum_response_headers L identity resp))))"

definition store_put_object :: "s3_lib \<Rightarrow> string \<Rightarrow> string \<Rightarrow> request \<Rightarrow> object \<Rightarrow> s3_response io" where
  "store_put_object L bucket key req ob =
     (if is_some_and (header req ''if-none-match'') (\<lambda>v. str_trim v \<noteq> ''*'')
      then return (s3_error L 400 ''InvalidArgument''
             (''If-None-Match for PutObject only supports the '' @ CHR 0x27 # ''*'' @ CHR 0x27 # '' value.''))
      else
        bind_io (if header req ''if-match'' \<noteq> None
                 then bind_io (try_io (get_object_metadata bucket key)) (\<lambda>r. return (\<not> is_ok r))
                 else return False) (\<lambda>absent.
        if absent then return (key_missing L)
        else
          bind_io (try_io (store_object bucket ob (mutation_condition req)
                    (map_option sp_path (req_spooled_body req)))) (\<lambda>r.
          case r of
            Err e \<Rightarrow> return (internal_error_response L e)
          | Ok (Some False) \<Rightarrow> return (precondition_failed_response L)
          | Ok _ \<Rightarrow> put_object_response L bucket key req (obj_etag ob))))"

definition body_object :: "externs \<Rightarrow> request \<Rightarrow> string \<Rightarrow> datetime \<Rightarrow> object" where
  "body_object x req key now =
     (let content_type = (case header req ''content-type'' of Some c \<Rightarrow> c | None \<Rightarrow> ''application/octet-stream'');
          metadata = extract_metadata_from_http_headers req
      in
      case req_spooled_body req of
        Some spooled \<Rightarrow>
          (new_with_metadata_and_etag key [] content_type metadata (hex_encode (sp_md5 spooled)) now)\<lparr>obj_size := sp_len spooled\<rparr>
      | None \<Rightarrow> new_with_metadata x key (req_body req) content_type metadata now)"

text \<open>A replaced object passes its provider metadata on, without its lock when its version is kept.\<close>

definition inherit_provider_metadata :: "string \<Rightarrow> object option \<Rightarrow> object \<Rightarrow> object io" where
  "inherit_provider_metadata bucket existing ob =
     (case existing of
        None \<Rightarrow> return ob
      | Some old \<Rightarrow>
          bind_io (s3_mutation_preserves_current_version bucket old) (\<lambda>preserved.
          let ob = ob\<lparr>obj_provider_metadata := obj_provider_metadata old\<rparr> in
          return (if preserved then clear_object_lock_metadata ob else ob)))"

definition put_object_body :: "s3_lib \<Rightarrow> string \<Rightarrow> string \<Rightarrow> request \<Rightarrow> object option \<Rightarrow> s3_response io" where
  "put_object_body L bucket key req existing =
     bind_io (gets ext) (\<lambda>x.
     respond_if (checksums_validate_put L x req)
     (respond_if (validate_content_md5 L x req)
     (respond_if (validate_put_target L bucket key)
      (case parse_optional_tagging_header L req of
         Err message \<Rightarrow> return (s3_error L 400 ''InvalidTag'' message)
       | Ok tags \<Rightarrow>
           bind_io now_io (\<lambda>now.
           bind_io (inherit_provider_metadata bucket existing (body_object x req key now)) (\<lambda>ob.
           case apply_s3_request_contracts L x req (replace_identity L x req (replace_content_properties req ob)) of
             Err resp \<Rightarrow> return resp
           | Ok ob \<Rightarrow>
               store_put_object L bucket key req (case tags of Some t \<Rightarrow> ob\<lparr>obj_tags := t\<rparr> | None \<Rightarrow> ob)))))))"

definition object_put :: "s3_lib \<Rightarrow> config \<Rightarrow> string \<Rightarrow> string \<Rightarrow> request \<Rightarrow> s3_response io" where
  "object_put L cfg bucket key req =
     respond_if_io (authorize L cfg req bucket (Some key) ''s3:PutObject'')
     (respond_if_io (check_presigned L cfg req bucket key)
     (respond_if_io (object_bucket_error_response L bucket False)
     (respond_if (unsupported_object_lock_subresource_response L req)
     (respond_if (version_tagging L req)
     (respond_if_io (foreign_conflict L bucket)
     (if checksums_requested req \<and> header req ''x-amz-copy-source'' \<noteq> None then return (checksums_unsupported L)
      else
        bind_io (gets ext) (\<lambda>x.
        respond_if
          (if has_param L req ''tagging'' \<or> has_param L req ''acl''
           then or_else (checksums_validate_put L x req) (validate_content_md5 L x req) else None)
        (respond_if_io (validate_object_lock_put_request L bucket req)
        (bind_io (try_io (get_object_metadata bucket key)) (\<lambda>r.
         let existing = (case r of Ok ob \<Rightarrow> Some ob | Err _ \<Rightarrow> None) in
         bind_io now_io (\<lambda>now.
         bind_io (case existing of
                    Some ob \<Rightarrow>
                      if object_is_locked x now ob
                      then bind_io (s3_mutation_preserves_current_version bucket ob) (\<lambda>kept. return (\<not> kept))
                      else return False
                  | None \<Rightarrow> return False) (\<lambda>refused.
         if refused then return (locked_object_response L)
         else
           respond_if (check_put_conditionals L x req existing)
           (if has_param L req ''tagging'' then put_object_tagging L bucket key req
            else if has_param L req ''acl'' then s3_put_object_acl L bucket key req
            else if has_param L req ''uploadId'' \<and> param L req ''partNumber'' \<noteq> None then
              (case header req ''x-amz-copy-source'' of
                 Some copy_source \<Rightarrow> upload_part_copy L bucket key copy_source req
               | None \<Rightarrow> upload_multipart_part L bucket key req)
            else
              case header req ''x-amz-copy-source'' of
                Some copy_source \<Rightarrow> copy_object L bucket key copy_source req
              | None \<Rightarrow> put_object_body L bucket key req existing)))))))))))))"

section \<open>Deleting\<close>

definition delete_multipart_upload :: "s3_lib \<Rightarrow> config \<Rightarrow> string \<Rightarrow> string \<Rightarrow> request \<Rightarrow> s3_response io" where
  "delete_multipart_upload L cfg bucket key req =
     bind_io (try_io (get_multipart_upload bucket (requested_upload_id L req))) (\<lambda>r.
     case r of
       Err e \<Rightarrow> return (if e = NoSuchUpload then bare_no_content_response else storage_error_response L e)
     | Ok u \<Rightarrow>
         if upload_key u \<noteq> key then return (upload_key_mismatch_response L)
         else
           respond_if_io (authorize L cfg req bucket (Some (upload_key u)) ''s3:DeleteObject'')
           (respond_if_io (check_presigned L cfg req bucket (upload_key u))
           (bind_io (try_io (abort_multipart_upload bucket (requested_upload_id L req))) (\<lambda>aborted.
            case aborted of
              Ok _ \<Rightarrow> no_content_object_response L bucket req
            | Err e \<Rightarrow>
                if e = NoSuchUpload then no_content_object_response L bucket req
                else return (storage_error_response L e)))))"

definition governance_locked :: "externs \<Rightarrow> datetime \<Rightarrow> object \<Rightarrow> bool" where
  "governance_locked x now ob \<longleftrightarrow>
     obj_provider_metadata ob ''s3_object_lock_mode'' = Some ''GOVERNANCE'' \<and>
     \<not> is_some_and (obj_provider_metadata ob ''s3_object_lock_legal_hold'') (\<lambda>hold. eq_ignore_ascii_case hold ''ON'') \<and>
     object_is_locked x now ob"

definition bypass_refused :: "s3_lib \<Rightarrow> request \<Rightarrow> bool \<Rightarrow> s3_response option" where
  "bypass_refused L req governance =
     (case header req ''x-amz-bypass-governance-retention'' of
        None \<Rightarrow> None
      | Some value \<Rightarrow>
          if \<not> eq_ignore_ascii_case value ''true'' \<and> \<not> eq_ignore_ascii_case value ''false''
          then Some (s3_error L 400 ''InvalidArgument'' ''x-amz-bypass-governance-retention must be true or false.'')
          else if eq_ignore_ascii_case value ''true'' \<and> governance
          then Some (s3_error L 501 ''NotImplemented'' ''Permission-aware governance retention bypass is not supported.'')
          else None)"

definition ok_and :: "'a res \<Rightarrow> ('a \<Rightarrow> bool) \<Rightarrow> bool" where
  "ok_and r P = (case r of Ok a \<Rightarrow> P a | Err _ \<Rightarrow> False)"

definition version_deleted_response :: "s3_lib \<Rightarrow> string \<Rightarrow> bool \<Rightarrow> s3_response" where
  "version_deleted_response L version_id deleting_marker =
     (let resp = with_header L ''x-amz-version-id'' version_id (new_response 204) in
      if deleting_marker then with_header L ''x-amz-delete-marker'' ''true'' resp else resp)"

definition delete_object_version_request :: "s3_lib \<Rightarrow> string \<Rightarrow> string \<Rightarrow> request \<Rightarrow> s3_response io" where
  "delete_object_version_request L bucket key req =
     (let version_id = (case param L req ''versionId'' of Some v \<Rightarrow> v | None \<Rightarrow> []) in
      bind_io (try_io (get_object_version_metadata bucket key version_id)) (\<lambda>target.
      bind_io now_io (\<lambda>now.
      bind_io (gets ext) (\<lambda>x.
      respond_if (bypass_refused L req (ok_and target (governance_locked x now)))
      (if ok_and target (object_is_locked x now) then return (locked_object_response L)
       else
         bind_io (try_io (delete_object_version bucket key version_id)) (\<lambda>r.
         case r of
           Err e \<Rightarrow>
             if e = KeyNotFound \<or> e = NoSuchVersion
             then apply_actual_request_headers L bucket req
                    (version_deleted_response L version_id (ok_and target is_s3_delete_marker))
             else return (internal_error_response L e)
         | Ok _ \<Rightarrow>
             apply_actual_request_headers L bucket req
               (version_deleted_response L version_id (ok_and target is_s3_delete_marker))))))))"

definition delete_object_tagging :: "s3_lib \<Rightarrow> string \<Rightarrow> string \<Rightarrow> request \<Rightarrow> s3_response io" where
  "delete_object_tagging L bucket key req =
     bind_io (current_locked bucket key) (\<lambda>locked.
     if locked then return (locked_object_response L)
     else
       bind_io (try_io (delete_object_tags bucket key)) (\<lambda>r.
       case r of
         Ok _ \<Rightarrow> no_content_object_response L bucket req
       | Err e \<Rightarrow>
           if e = KeyNotFound then no_content_object_response L bucket req else return (internal_error_response L e)))"

text \<open>\<^verbatim>\<open>max_by_key\<close> returns the last of the greatest elements.\<close>

fun latest_modified :: "object list \<Rightarrow> object option" where
  "latest_modified [] = None"
| "latest_modified (ob # obs) =
     (case latest_modified obs of
        None \<Rightarrow> Some ob
      | Some m \<Rightarrow> if obj_last_modified ob \<le> obj_last_modified m then Some m else Some ob)"

definition delete_current_success_response :: "s3_lib \<Rightarrow> string \<Rightarrow> string \<Rightarrow> request \<Rightarrow> s3_response io" where
  "delete_current_success_response L bucket key req =
     bind_io (try_io (list_object_versions_for_key bucket key)) (\<lambda>r.
     let marker_version =
           (case r of
              Err _ \<Rightarrow> None
            | Ok versions \<Rightarrow> Option.bind (latest_modified (filter is_s3_delete_marker versions)) obj_version_id)
     in
     apply_actual_request_headers L bucket req
       (case marker_version of
          None \<Rightarrow> new_response 204
        | Some v \<Rightarrow> with_header L ''x-amz-version-id'' v (with_header L ''x-amz-delete-marker'' ''true'' (new_response 204))))"

text \<open>The deletion itself; a locked object whose version would be lost is refused.\<close>

definition delete_unless_locked :: "string \<Rightarrow> string \<Rightarrow> object_condition option \<Rightarrow> bool option io" where
  "delete_unless_locked bucket key cond =
     bind_io (try_io (get_object_metadata bucket key)) (\<lambda>r.
     bind_io now_io (\<lambda>now.
     bind_io (gets ext) (\<lambda>x.
     bind_io (case r of
                Ok ob \<Rightarrow>
                  if object_is_locked x now ob
                  then bind_io (s3_mutation_preserves_current_version bucket ob) (\<lambda>kept. return (\<not> kept))
                  else return False
              | Err _ \<Rightarrow> return False) (\<lambda>refused.
     if refused then throw AccessDenied
     else
       case cond of
         Some c \<Rightarrow> bind_io (delete_object_if bucket key c) (\<lambda>b. return (Some b))
       | None \<Rightarrow> then_io (delete_object bucket key) (return None)))))"

definition delete_current_object :: "s3_lib \<Rightarrow> string \<Rightarrow> string \<Rightarrow> request \<Rightarrow> s3_response io" where
  "delete_current_object L bucket key req =
     bind_io (if header req ''if-match'' \<noteq> None
              then bind_io (try_io (get_object_metadata bucket key)) (\<lambda>r. return (r = Err KeyNotFound))
              else return False) (\<lambda>absent.
     if absent then
       bind_io (current_delete_marker bucket key) (\<lambda>m.
       return (case m of Some _ \<Rightarrow> precondition_failed_response L | None \<Rightarrow> key_missing L))
     else
       bind_io (try_io (delete_unless_locked bucket key (mutation_if_match_condition req))) (\<lambda>r.
       case r of
         Ok (Some False) \<Rightarrow> return (precondition_failed_response L)
       | Ok _ \<Rightarrow> delete_current_success_response L bucket key req
       | Err e \<Rightarrow>
           if e = KeyNotFound then no_content_object_response L bucket req
           else if e = AccessDenied then return (locked_object_response L)
           else return (internal_error_response L e)))"

definition object_delete :: "s3_lib \<Rightarrow> config \<Rightarrow> string \<Rightarrow> string \<Rightarrow> request \<Rightarrow> s3_response io" where
  "object_delete L cfg bucket key req =
     (if has_param L req ''uploadId'' then delete_multipart_upload L cfg bucket key req
      else
        respond_if_io (authorize L cfg req bucket (Some key) ''s3:DeleteObject'')
        (respond_if_io (check_presigned L cfg req bucket key)
        (respond_if_io (object_bucket_error_response L bucket False)
        (respond_if (version_tagging L req)
        (respond_if_io (foreign_conflict L bucket)
         (if has_param L req ''tagging'' then delete_object_tagging L bucket key req
          else if has_param L req ''versionId'' then delete_object_version_request L bucket key req
          else delete_current_object L bucket key req))))))"

section \<open>Head\<close>

definition head_object_response :: "s3_lib \<Rightarrow> string \<Rightarrow> request \<Rightarrow> object \<Rightarrow> s3_response io" where
  "head_object_response L bucket req ob =
     bind_io (gets ext) (\<lambda>x.
     respond_if (validate_get_sse_headers L req ob)
     (respond_if (check_object_conditionals L x req ob)
      (apply_actual_request_headers L bucket req
        (retrieval_headers L req ob (object_response_headers L ob
          (with_header L ''Content-Length'' (show_nat (obj_size ob))
            (content_type_header L (obj_content_type ob) (new_response 200))))))))"

definition object_head :: "s3_lib \<Rightarrow> config \<Rightarrow> string \<Rightarrow> string \<Rightarrow> request \<Rightarrow> s3_response io" where
  "object_head L cfg bucket key req =
     respond_if_io (authorize L cfg req bucket (Some key) ''s3:GetObject'')
     (respond_if_io (object_bucket_error_response L bucket True)
     (respond_if_io (foreign_conflict L bucket)
      (case param L req ''versionId'' of
         Some version_id \<Rightarrow>
           bind_io (try_io (get_object_version_metadata bucket key version_id)) (\<lambda>r.
           case r of
             Ok ob \<Rightarrow>
               if is_s3_delete_marker ob then delete_marker_response L bucket req ob True True
               else head_object_response L bucket req ob
           | Err e \<Rightarrow>
               if e = KeyNotFound \<or> e = NoSuchVersion then apply_actual_request_headers L bucket req (new_response 404)
               else return (internal_error_response L e))
       | None \<Rightarrow>
           bind_io (try_io (get_object_metadata bucket key)) (\<lambda>r.
           case r of
             Ok ob \<Rightarrow> head_object_response L bucket req ob
           | Err _ \<Rightarrow>
               bind_io (current_delete_marker bucket key) (\<lambda>m.
               case m of
                 None \<Rightarrow> apply_actual_request_headers L bucket req (new_response 404)
               | Some marker \<Rightarrow> delete_marker_response L bucket req marker False True)))))"

section \<open>Multipart requests\<close>

definition complete_multipart_upload_response :: "s3_lib \<Rightarrow> string \<Rightarrow> string \<Rightarrow> request \<Rightarrow> string \<Rightarrow> s3_response io" where
  "complete_multipart_upload_response L bucket key req etag =
     bind_io (try_io (get_object_metadata bucket key)) (\<lambda>stored.
     let crc = (case stored of Ok ob \<Rightarrow> obj_provider_metadata ob ''s3_checksum_crc32c'' | Err _ \<Rightarrow> None) in
     bind_io (stored_version_id bucket key) (\<lambda>version_id.
     bind_io (apply_actual_request_headers L bucket req
       (add_version_header L version_id (content_type_header L xml_type (new_response 200)))) (\<lambda>resp.
     return (with_document (CompleteDocument bucket key etag crc) resp))))"

definition manifest_known :: "multipart_upload \<Rightarrow> (nat \<times> string) list \<Rightarrow> bool" where
  "manifest_known u manifest \<longleftrightarrow>
     list_all (\<lambda>(number, etag). list_ex (\<lambda>p. part_number p = number \<and> part_etag p = etag) (parts u)) manifest"

definition complete_multipart_upload_request :: "s3_lib \<Rightarrow> config \<Rightarrow> string \<Rightarrow> string \<Rightarrow> request \<Rightarrow> s3_response io" where
  "complete_multipart_upload_request L cfg bucket key req =
     (let uid = requested_upload_id L req in
      bind_io (try_io (get_multipart_upload bucket uid)) (\<lambda>r.
      case r of
        Err e \<Rightarrow> return (if e = NoSuchUpload then s3_error L 404 ''NoSuchUpload'' ''Upload not found'' else storage_error_response L e)
      | Ok u \<Rightarrow>
          if upload_key u \<noteq> key then return (upload_key_mismatch_response L)
          else
            respond_if_io (authorize L cfg req bucket (Some (upload_key u)) ''s3:PutObject'')
            (respond_if_io (check_presigned L cfg req bucket (upload_key u))
            (respond_if_io
              (if ''if-match'' \<in> set (header_names req) then authorize L cfg req bucket (Some (upload_key u)) ''s3:GetObject''
               else return None)
            (respond_if_io (foreign_conflict L bucket)
             (case bind_result (s3_utf8 L (req_body req)) (parse_complete_multipart_upload_xml (s3_xml L)) of
                Err message \<Rightarrow> return (s3_error L 400 ''MalformedXML'' message)
              | Ok manifest \<Rightarrow>
                  if \<not> ascending manifest
                  then return (s3_error L 400 ''InvalidPartOrder'' ''The list of parts was not in ascending order.'')
                  else if \<not> manifest_known u manifest
                  then return (s3_error L 400 ''InvalidPart'' ''One or more of the specified parts could not be found.'')
                  else
                    (case multipart_completion_of L req u manifest of
                       Err resp \<Rightarrow> return resp
                     | Ok completion \<Rightarrow>
                         bind_io (try_io (complete_multipart_upload_checked bucket uid manifest completion)) (\<lambda>res.
                         case res of
                           Ok etag \<Rightarrow> complete_multipart_upload_response L bucket key req etag
                         | Err e \<Rightarrow> return (storage_error_response L e)))))))))"

definition multipart_template ::
    "s3_lib \<Rightarrow> externs \<Rightarrow> request \<Rightarrow> string \<Rightarrow> bool \<Rightarrow> strmap option \<Rightarrow> datetime \<Rightarrow> (s3_response, strmap) result" where
  "multipart_template L x req key enabled tags now =
     (let ob = new_with_metadata x key []
            (case header req ''content-type'' of Some c \<Rightarrow> c | None \<Rightarrow> ''application/octet-stream'')
            (extract_metadata_from_http_headers req) now;
          ob = (if enabled
                then set_provider_metadata ''s3_checksum_type'' (Some ''FULL_OBJECT'')
                       (set_provider_metadata ''s3_checksum_algorithm'' (Some ''CRC32C'') ob)
                else ob)
      in
      bind_result (apply_s3_request_contracts L x req (replace_content_properties req ob)) (\<lambda>ob.
      let ob = (case header req ''x-amz-storage-class'' of
                  Some c \<Rightarrow> set_provider_metadata ''storage_class'' (Some c) ob | None \<Rightarrow> ob);
          ob = (case tags of Some t \<Rightarrow> set_provider_metadata TAGS_KEY (Some (s3_json_tags L t)) ob | None \<Rightarrow> ob)
      in Ok (obj_provider_metadata ob)))"

definition initiate_multipart_upload_request :: "s3_lib \<Rightarrow> string \<Rightarrow> string \<Rightarrow> request \<Rightarrow> s3_response io" where
  "initiate_multipart_upload_request L bucket key req =
     (case multipart_initiate L req of
        Err resp \<Rightarrow> return resp
      | Ok enabled \<Rightarrow>
          if object_lock_headers_requested req
          then return (s3_error L 501 ''NotImplemented''
                 ''Object Lock parameters on multipart upload initiation are not supported by this emulator subset.'')
          else
            case parse_optional_tagging_header L req of
              Err message \<Rightarrow> return (s3_error L 400 ''InvalidTag'' message)
            | Ok tags \<Rightarrow>
                bind_io (gets ext) (\<lambda>x.
                bind_io now_io (\<lambda>now.
                case multipart_template L x req key enabled tags now of
                  Err resp \<Rightarrow> return resp
                | Ok provider_metadata \<Rightarrow>
                    bind_io (try_io (create_s3_multipart_upload_with_metadata bucket key (header req ''content-type'')
                      (extract_metadata_from_http_headers req) provider_metadata)) (\<lambda>r.
                    case r of
                      Err e \<Rightarrow> return (internal_error_response L e)
                    | Ok u \<Rightarrow>
                        let resp = content_type_header L xml_type (new_response 200);
                            resp = (if enabled
                                    then with_header L ''x-amz-checksum-type'' ''FULL_OBJECT''
                                           (with_header L ''x-amz-checksum-algorithm'' ''CRC32C'' resp)
                                    else resp)
                        in
                        bind_io (apply_actual_request_headers L bucket req resp) (\<lambda>resp.
                        return (with_document (InitiateDocument bucket (upload_key u) (upload_id u)) resp))))))"

definition object_post :: "s3_lib \<Rightarrow> config \<Rightarrow> string \<Rightarrow> string \<Rightarrow> request \<Rightarrow> s3_response io" where
  "object_post L cfg bucket key req =
     (if has_param L req ''uploadId'' then complete_multipart_upload_request L cfg bucket key req
      else
        respond_if_io (authorize L cfg req bucket (Some key) ''s3:PutObject'')
        (respond_if_io (check_presigned L cfg req bucket key)
        (respond_if_io (foreign_conflict L bucket)
         (if has_param L req ''uploads'' then initiate_multipart_upload_request L bucket key req
          else return (s3_error L 501 ''NotImplemented'' ''Object POST operations not yet implemented'')))))"

end
