(* ===== verification/S3_Buckets.thy ===== *)
theory S3_Buckets
  imports S3_Objects
begin

text \<open>
  The bucket operations of the S3 interface (\<^verbatim>\<open>src/src/server/handlers/bucket.rs\<close> with its modules
  \<^verbatim>\<open>bucket/get.rs\<close>, \<^verbatim>\<open>bucket/put.rs\<close> and \<^verbatim>\<open>bucket/helpers.rs\<close>) and the dispatch of a request
  (\<^verbatim>\<open>src/src/server/handlers/mod.rs\<close>). The lock that orders activations of data protection is left out,
  as each operation of the model runs alone.
\<close>

definition S3_REQUEST_PAYMENT_KEY :: string where "S3_REQUEST_PAYMENT_KEY = ''s3_requester_pays''"
definition S3_WEBSITE_XML_KEY :: string where "S3_WEBSITE_XML_KEY = ''s3_website_xml''"
definition S3_VERSIONING_STATUS_KEY :: string where "S3_VERSIONING_STATUS_KEY = ''s3_versioning_status''"
definition S3_OBJECT_LOCK_ENABLED_KEY :: string where "S3_OBJECT_LOCK_ENABLED_KEY = ''s3_object_lock_enabled''"

section \<open>Helpers\<close>

definition replace_char :: "char \<Rightarrow> string \<Rightarrow> string \<Rightarrow> string" where
  "replace_char c r s = concat (map (\<lambda>d. if d = c then r else [d]) s)"

definition escape_xml_str :: "string \<Rightarrow> string" where
  "escape_xml_str input =
     replace_char (CHR 0x27) ''&apos;'' (replace_char (CHR 0x22) ''&quot;'' (replace_char (CHR ''>'') ''&gt;''
       (replace_char (CHR ''<'') ''&lt;'' (replace_char (CHR ''&'') ''&amp;'' input))))"

type_synonym delete_object_entry = "string \<times> string option \<times> string option"

record delete_state =
  ds_root_closed :: bool
  ds_stack :: "string list"        \<comment> \<open>innermost element first\<close>
  ds_key :: "string option"
  ds_version :: "string option"
  ds_etag :: "string option"
  ds_quiet :: "string option"
  ds_quiet_seen :: bool
  ds_objects :: "delete_object_entry list"

definition delete_attributes_valid :: "delete_state \<Rightarrow> string \<Rightarrow> string option list \<Rightarrow> bool" where
  "delete_attributes_valid st name attributes \<longleftrightarrow>
     list_all (\<lambda>a. is_some_and a (\<lambda>k. ds_stack st = [] \<and> name = ''Delete'' \<and> prefix ''xmlns'' k)) attributes"

definition delete_start :: "delete_state \<Rightarrow> string \<Rightarrow> (string, delete_state) result" where
  "delete_start st name =
     (if ds_stack st = [] then
        (if name \<noteq> ''Delete'' then Err ''Delete must be the document root'' else Ok st)
      else if ds_stack st = [''Delete''] then
        (if name = ''Object'' then
           if length (ds_objects st) \<ge> 1000 then Err ''Delete requests may contain at most 1000 objects''
           else Ok (st\<lparr>ds_key := None, ds_version := None, ds_etag := None\<rparr>)
         else if name = ''Quiet'' \<and> \<not> ds_quiet_seen st then Ok (st\<lparr>ds_quiet_seen := True, ds_quiet := Some []\<rparr>)
         else Err ''Delete may contain only Object entries and one Quiet element'')
      else if ds_stack st = [''Object'', ''Delete''] then
        (if name = ''Key'' \<and> ds_key st = None then Ok (st\<lparr>ds_key := Some []\<rparr>)
         else if name = ''VersionId'' \<and> ds_version st = None then Ok (st\<lparr>ds_version := Some []\<rparr>)
         else if name = ''ETag'' \<and> ds_etag st = None then Ok (st\<lparr>ds_etag := Some []\<rparr>)
         else Err ''Object may contain one Key, VersionId, and ETag element'')
      else Err ''Delete request elements have invalid nesting'')"

definition append_text :: "string option \<Rightarrow> string \<Rightarrow> string \<Rightarrow> (string, string option) result" where
  "append_text cur name value =
     (case cur of
        Some t \<Rightarrow> Ok (Some (t @ value))
      | None \<Rightarrow> Err (''Malformed Delete request '' @ name))"

definition delete_text :: "delete_state \<Rightarrow> string \<Rightarrow> string \<Rightarrow> (string, delete_state) result" where
  "delete_text st value unexpected =
     (case ds_stack st of
        [] \<Rightarrow> if str_trim value = [] then Ok st else Err unexpected
      | name # _ \<Rightarrow>
          if name = ''Key'' then bind_result (append_text (ds_key st) name value) (\<lambda>t. Ok (st\<lparr>ds_key := t\<rparr>))
          else if name = ''VersionId'' then bind_result (append_text (ds_version st) name value) (\<lambda>t. Ok (st\<lparr>ds_version := t\<rparr>))
          else if name = ''ETag'' then bind_result (append_text (ds_etag st) name value) (\<lambda>t. Ok (st\<lparr>ds_etag := t\<rparr>))
          else if name = ''Quiet'' then bind_result (append_text (ds_quiet st) name value) (\<lambda>t. Ok (st\<lparr>ds_quiet := t\<rparr>))
          else if str_trim value = [] then Ok st
          else Err unexpected)"

definition blank :: "string option \<Rightarrow> bool" where
  "blank v \<longleftrightarrow> v = None \<or> v = Some []"

definition delete_end :: "delete_state \<Rightarrow> string \<Rightarrow> (string, delete_state) result" where
  "delete_end st name =
     bind_result
       (if name = ''Key'' then (if blank (ds_key st) then Err ''Each Object must contain a non-empty Key'' else Ok st)
        else if name = ''VersionId'' then (if blank (ds_version st) then Err ''VersionId must not be empty'' else Ok st)
        else if name = ''ETag'' then (if blank (ds_etag st) then Err ''ETag must not be empty'' else Ok st)
        else if name = ''Quiet'' then
          (if ds_quiet st \<noteq> Some ''true'' \<and> ds_quiet st \<noteq> Some ''false'' then Err ''Quiet must be true or false'' else Ok st)
        else if name = ''Object'' then
          (case ds_key st of
             Some (c # k) \<Rightarrow>
               Ok (st\<lparr>ds_objects := ds_objects st @ [(c # k, ds_version st, ds_etag st)], ds_key := None, ds_version := None,
                      ds_etag := None\<rparr>)
           | _ \<Rightarrow> Err ''Each Object must contain a non-empty Key'')
        else if name = ''Delete'' then
          (if ds_objects st = [] then Err ''Delete must contain at least one Object'' else Ok (st\<lparr>ds_root_closed := True\<rparr>))
        else Ok st) (\<lambda>st. Ok (st\<lparr>ds_stack := tl (ds_stack st)\<rparr>))"

fun delete_event :: "xml_lib \<Rightarrow> delete_state \<Rightarrow> xml_event \<Rightarrow> (string, delete_state) result" where
  "delete_event L st (StartTag name _ attributes) =
     (if ds_root_closed st then Err ''Unexpected XML after the Delete document''
      else if \<not> delete_attributes_valid st name attributes
      then Err ''Delete request elements contain unsupported attributes''
      else bind_result (delete_start st name) (\<lambda>st. Ok (st\<lparr>ds_stack := name # ds_stack st\<rparr>)))"
| "delete_event L st (EmptyTag _ _) = Err ''Delete request elements must not be empty''"
| "delete_event L st (CharText t) =
     bind_result (xl_unescape L t) (\<lambda>value. delete_text st value ''Unexpected text in Delete request'')"
| "delete_event L st (CDataText t) = delete_text st t ''Unexpected CDATA in Delete request''"
| "delete_event L st (EndTag name _) =
     (if take 1 (ds_stack st) \<noteq> [name] then Err ''Delete request elements are not properly nested''
      else delete_end st name)"
| "delete_event L st DocTypeMark = Err ''Delete requests must not contain a document type''"
| "delete_event L st (ReadError e) = Err e"
| "delete_event L st _ = Ok st"

definition parse_delete_keys :: "xml_lib \<Rightarrow> string \<Rightarrow> (string, delete_object_entry list) result" where
  "parse_delete_keys L xml =
     bind_result
       (event_loop (delete_event L)
         \<lparr>ds_root_closed = False, ds_stack = [], ds_key = None, ds_version = None, ds_etag = None, ds_quiet = None,
          ds_quiet_seen = False, ds_objects = []\<rparr> (xl_events L False xml)) (\<lambda>st.
     if \<not> ds_root_closed st \<or> ds_stack st \<noteq> [] then Err ''Malformed Delete request XML'' else Ok (ds_objects st))"

definition bucket_get_action :: "s3_lib \<Rightarrow> request \<Rightarrow> string" where
  "bucket_get_action L req =
     (if has_param L req ''requestPayment'' then ''s3:GetBucketRequestPayment''
      else if has_param L req ''website'' then ''s3:GetBucketWebsite''
      else if has_param L req ''cors'' then ''s3:GetBucketCors''
      else if has_param L req ''lifecycle'' then ''s3:GetLifecycleConfiguration''
      else if has_param L req ''policy'' then ''s3:GetBucketPolicy''
      else if has_param L req ''acl'' then ''s3:GetBucketAcl''
      else if has_param L req ''versioning'' then ''s3:GetBucketVersioning''
      else if has_param L req ''object-lock'' then ''s3:GetBucketObjectLockConfiguration''
      else if has_param L req ''uploads'' then ''s3:ListBucketMultipartUploads''
      else if has_param L req ''versions'' then ''s3:ListBucketVersions''
      else ''s3:ListBucket'')"

fun find_tag_text :: "xml_lib \<Rightarrow> string \<Rightarrow> bool \<Rightarrow> xml_event list \<Rightarrow> string option" where
  "find_tag_text L tag in_tag [] = None"
| "find_tag_text L tag in_tag (StartTag name _ _ # es) = find_tag_text L tag (name = tag \<or> in_tag) es"
| "find_tag_text L tag in_tag (EndTag name _ # es) = find_tag_text L tag (name \<noteq> tag \<and> in_tag) es"
| "find_tag_text L tag in_tag (CharText t # es) =
     (if in_tag then Some (case xl_unescape L t of Ok v \<Rightarrow> v | Err _ \<Rightarrow> []) else find_tag_text L tag in_tag es)"
| "find_tag_text L tag in_tag (ReadError _ # es) = None"
| "find_tag_text L tag in_tag (_ # es) = find_tag_text L tag in_tag es"

definition metadata_value :: "xml_lib \<Rightarrow> string \<Rightarrow> string \<Rightarrow> string option" where
  "metadata_value L xml tag = find_tag_text L tag False (xl_events L True xml)"

definition bucket_cors_snapshot :: "string \<Rightarrow> string option io" where
  "bucket_cors_snapshot bucket =
     bind_io (try_io (get_bucket bucket)) (\<lambda>r.
     return (case r of Ok b \<Rightarrow> bucket_metadata b S3_CORS_XML_KEY | Err _ \<Rightarrow> None))"

definition apply_bucket_cors_headers :: "s3_lib \<Rightarrow> string \<Rightarrow> request \<Rightarrow> string option \<Rightarrow> s3_response \<Rightarrow> s3_response io" where
  "apply_bucket_cors_headers L bucket req snapshot resp =
     (case snapshot of
        Some cors_xml \<Rightarrow> return (apply_actual_request_headers_from_xml L req cors_xml resp)
      | None \<Rightarrow> apply_actual_request_headers L bucket req resp)"

definition with_bucket_metadata :: "string \<Rightarrow> (strmap \<Rightarrow> strmap) \<Rightarrow> bucket io" where
  "with_bucket_metadata bucket update =
     bind_io (get_bucket bucket) (\<lambda>b. update_bucket_metadata bucket (update (bucket_metadata b)))"

definition token_digest :: "externs \<Rightarrow> string \<Rightarrow> string" where
  "token_digest x marker = ext_sha256_hex x (''sqrzl-list-v2:'' @ marker)"

definition encode_list_objects_v2_token :: "s3_lib \<Rightarrow> externs \<Rightarrow> string \<Rightarrow> string" where
  "encode_list_objects_v2_token L x marker = s3_token_encode L (marker @ CHR 0x00 # token_digest x marker)"

text \<open>\<^verbatim>\<open>str::rsplit_once\<close>.\<close>

definition rsplit_once :: "char \<Rightarrow> string \<Rightarrow> (string \<times> string) option" where
  "rsplit_once c s = map_option (\<lambda>(a, b). (rev b, rev a)) (split_once c (rev s))"

definition decode_list_objects_v2_token :: "s3_lib \<Rightarrow> externs \<Rightarrow> string \<Rightarrow> string option" where
  "decode_list_objects_v2_token L x token =
     Option.bind (s3_token_decode L token) (\<lambda>decoded.
     Option.bind (rsplit_once (CHR 0x00) decoded) (\<lambda>(marker, supplied).
     if marker = [] then None else if supplied = token_digest x marker then Some marker else None))"

section \<open>Form uploads\<close>

fun find_subslice :: "'a list \<Rightarrow> 'a list \<Rightarrow> nat option" where
  "find_subslice [] needle = (if needle = [] then Some 0 else None)"
| "find_subslice (c # h) needle =
     (if prefix needle (c # h) then Some 0 else map_option Suc (find_subslice h needle))"

lemma find_subslice_fits: "find_subslice h n = Some i \<Longrightarrow> i + length n \<le> length h"
proof (induction h arbitrary: i)
  case (Cons c h)
  then show ?case by (auto split: if_splits dest: prefix_length_le)
qed (simp split: if_splits)

lemma find_subslice_advances:
  assumes "n \<noteq> []" "find_subslice h n = Some i"
  shows "length h - (i + length n) < length h"
  using find_subslice_fits [OF assms(2)] assms(1) by (cases n) auto

text \<open>The code never searches for an empty separator, on which its loop would not end.\<close>

function split_bytes :: "'a list \<Rightarrow> 'a list \<Rightarrow> 'a list list" where
  "split_bytes haystack needle =
     (case (if needle = [] then None else find_subslice haystack needle) of
        None \<Rightarrow> [haystack]
      | Some offset \<Rightarrow> take offset haystack # split_bytes (drop (offset + length needle) haystack) needle)"
  by pat_completeness auto

termination
  by (relation "measure (\<lambda>(h, n). length h)") (auto split: if_splits dest: find_subslice_advances)

declare split_bytes.simps [simp del]

definition split_once_bytes :: "'a list \<Rightarrow> 'a list \<Rightarrow> ('a list \<times> 'a list) option" where
  "split_once_bytes haystack needle =
     map_option (\<lambda>i. (take i haystack, drop (i + length needle) haystack)) (find_subslice haystack needle)"

definition crlf :: string where
  "crlf = [CHR 0x0D, CHR 0x0A]"

definition strip_bytes_prefix :: "bytes \<Rightarrow> bytes \<Rightarrow> bytes" where
  "strip_bytes_prefix p b = (if prefix p b then drop (length p) b else b)"

definition strip_bytes_suffix :: "bytes \<Rightarrow> bytes \<Rightarrow> bytes option" where
  "strip_bytes_suffix p b = (if suffix p b then Some (take (length b - length p) b) else None)"

record form_field =
  ff_name :: "string option"
  ff_filename :: "string option"
  ff_content_type :: string

fun disposition_tokens :: "string list \<Rightarrow> form_field \<Rightarrow> form_field" where
  "disposition_tokens [] f = f"
| "disposition_tokens (token # rest) f =
     disposition_tokens rest
       (case strip_prefix (''name='' @ [CHR 0x22]) token of
          Some name \<Rightarrow> f\<lparr>ff_name := Some (trim_end_char (CHR 0x22) name)\<rparr>
        | None \<Rightarrow>
            (case strip_prefix (''filename='' @ [CHR 0x22]) token of
               Some name \<Rightarrow> f\<lparr>ff_filename := Some (trim_end_char (CHR 0x22) name)\<rparr>
             | None \<Rightarrow> f))"

fun form_headers :: "string list \<Rightarrow> form_field \<Rightarrow> form_field" where
  "form_headers [] f = f"
| "form_headers (h # rest) f =
     form_headers rest
       (let lower = to_ascii_lowercase h in
        if prefix ''content-disposition:'' lower
        then disposition_tokens (map str_trim (drop 1 (split_on (CHR '';'') h))) f
        else if prefix ''content-type:'' lower
        then f\<lparr>ff_content_type := (case split_once (CHR '':'') h of Some (_, v) \<Rightarrow> str_trim v | None \<Rightarrow> ''application/octet-stream'')\<rparr>
        else f)"

record form_upload =
  fu_key :: "string option"
  fu_file :: "bytes option"
  fu_content_type :: string

definition form_part :: "s3_lib \<Rightarrow> bytes \<Rightarrow> form_upload \<Rightarrow> form_upload option" where
  "form_part L raw_part acc =
     (let part = strip_bytes_prefix (text_bytes crlf) raw_part;
          dashes = text_bytes ''--''; dashes_crlf = text_bytes (''--'' @ crlf)
      in
      if part = [] \<or> part = dashes_crlf \<or> part = dashes then Some acc
      else
        let part = (case strip_bytes_suffix dashes_crlf part of
                      Some p \<Rightarrow> p
                    | None \<Rightarrow> (case strip_bytes_suffix dashes part of Some p \<Rightarrow> p | None \<Rightarrow> part))
        in
        case split_once_bytes part (text_bytes (crlf @ crlf)) of
          None \<Rightarrow> Some acc
        | Some (raw_headers, raw_body) \<Rightarrow>
            let field_body = (case strip_bytes_suffix (text_bytes crlf) raw_body of Some p \<Rightarrow> p | None \<Rightarrow> raw_body) in
            (case s3_utf8 L raw_headers of
               Err _ \<Rightarrow> None
             | Ok text \<Rightarrow>
                 let f = form_headers (split_bytes text crlf)
                           \<lparr>ff_name = None, ff_filename = None, ff_content_type = fu_content_type acc\<rparr>;
                     acc = acc\<lparr>fu_content_type := ff_content_type f\<rparr>
                 in
                 if ff_name f = Some ''key'' then
                   (case s3_utf8 L field_body of
                      Err _ \<Rightarrow> None
                    | Ok key \<Rightarrow> Some (acc\<lparr>fu_key := Some key\<rparr>))
                 else if ff_name f = Some ''file'' \<and> ff_filename f \<noteq> None then Some (acc\<lparr>fu_file := Some field_body\<rparr>)
                 else Some acc))"

fun form_parts :: "s3_lib \<Rightarrow> bytes list \<Rightarrow> form_upload \<Rightarrow> form_upload option" where
  "form_parts L [] acc = Some acc"
| "form_parts L (p # ps) acc = Option.bind (form_part L p acc) (form_parts L ps)"

definition form_boundary :: "string \<Rightarrow> string option" where
  "form_boundary content_type = find_part ''boundary='' (split_on (CHR '';'') content_type)"

definition parse_multipart_form_upload :: "s3_lib \<Rightarrow> string \<Rightarrow> bytes \<Rightarrow> (string \<times> bytes \<times> string) option" where
  "parse_multipart_form_upload L content_type body =
     Option.bind (form_boundary content_type) (\<lambda>boundary.
     Option.bind
       (form_parts L (split_bytes body (text_bytes (''--'' @ boundary)))
         \<lparr>fu_key = None, fu_file = None, fu_content_type = ''application/octet-stream''\<rparr>) (\<lambda>acc.
     Option.bind (fu_key acc) (\<lambda>key.
     Option.bind (fu_file acc) (\<lambda>file. Some (key, file, fu_content_type acc)))))"

section \<open>Responses\<close>

definition no_such_bucket_response :: "s3_lib \<Rightarrow> s3_response" where
  "no_such_bucket_response L = s3_error L 404 ''NoSuchBucket'' ''Bucket not found''"

definition bucket_not_found_or_internal_error :: "s3_lib \<Rightarrow> error \<Rightarrow> s3_response" where
  "bucket_not_found_or_internal_error L e =
     (if e = BucketNotFound then no_such_bucket_response L else internal_error_response L e)"

definition bucket_body_response :: "s3_lib \<Rightarrow> string \<Rightarrow> request \<Rightarrow> nat \<Rightarrow> string \<Rightarrow> s3_document \<Rightarrow> s3_response io" where
  "bucket_body_response L bucket req status content_type d =
     bind_io (apply_actual_request_headers L bucket req (content_type_header L content_type (new_response status))) (\<lambda>resp.
     return (with_document d resp))"

definition bucket_xml_response :: "s3_lib \<Rightarrow> string \<Rightarrow> request \<Rightarrow> nat \<Rightarrow> s3_document \<Rightarrow> s3_response io" where
  "bucket_xml_response L bucket req status d = bucket_body_response L bucket req status xml_type d"

definition bucket_write_response :: "s3_lib \<Rightarrow> string \<Rightarrow> request \<Rightarrow> 'a res \<Rightarrow> s3_response io" where
  "bucket_write_response L bucket req r =
     (case r of
        Ok _ \<Rightarrow> apply_bucket_cors_headers L bucket req None (new_response 200)
      | Err e \<Rightarrow> return (bucket_not_found_or_internal_error L e))"

definition bucket_delete_response :: "s3_lib \<Rightarrow> string \<Rightarrow> request \<Rightarrow> string option \<Rightarrow> 'a res \<Rightarrow> s3_response io" where
  "bucket_delete_response L bucket req snapshot r =
     (case r of
        Ok _ \<Rightarrow> apply_bucket_cors_headers L bucket req snapshot (new_response 204)
      | Err e \<Rightarrow> return (storage_error_response L e))"

section \<open>Reading bucket resources\<close>

definition object_lock_document :: s3_document where
  "object_lock_document =
     TextDocument (xml_declaration
       @ line (namespaced ''ObjectLockConfiguration'' @ ''>'' @ element ''ObjectLockEnabled'' ''Enabled''
               @ close_tag ''ObjectLockConfiguration''))"

definition get_object_lock_configuration :: "s3_lib \<Rightarrow> string \<Rightarrow> request \<Rightarrow> s3_response io" where
  "get_object_lock_configuration L bucket req =
     bind_io (try_io (get_bucket bucket)) (\<lambda>r.
     case r of
       Err e \<Rightarrow> return (storage_error_response L e)
     | Ok b \<Rightarrow>
         if bucket_metadata b S3_OBJECT_LOCK_ENABLED_KEY = Some ''true''
         then bucket_xml_response L bucket req 200 object_lock_document
         else return (s3_error L 404 ''ObjectLockConfigurationNotFoundError''
                ''Object Lock configuration does not exist for this bucket.''))"

definition request_payment_document :: "string \<Rightarrow> s3_document" where
  "request_payment_document payer =
     TextDocument (xml_declaration
       @ line (namespaced ''RequestPaymentConfiguration'' @ ''>'')
       @ line (''  '' @ element ''Payer'' payer)
       @ line (close_tag ''RequestPaymentConfiguration''))"

definition get_request_payment :: "s3_lib \<Rightarrow> string \<Rightarrow> request \<Rightarrow> s3_response io" where
  "get_request_payment L bucket req =
     bind_io (try_io (get_bucket bucket)) (\<lambda>r.
     case r of
       Err e \<Rightarrow> return (bucket_not_found_or_internal_error L e)
     | Ok b \<Rightarrow>
         bucket_xml_response L bucket req 200 (request_payment_document
           (case bucket_metadata b S3_REQUEST_PAYMENT_KEY of Some p \<Rightarrow> p | None \<Rightarrow> ''BucketOwner'')))"

definition get_bucket_metadata_xml :: "s3_lib \<Rightarrow> string \<Rightarrow> request \<Rightarrow> string \<Rightarrow> string \<Rightarrow> string \<Rightarrow> s3_response io" where
  "get_bucket_metadata_xml L bucket req metadata_key missing_code missing_message =
     bind_io (try_io (get_bucket bucket)) (\<lambda>r.
     case r of
       Err e \<Rightarrow> return (bucket_not_found_or_internal_error L e)
     | Ok b \<Rightarrow>
         (case bucket_metadata b metadata_key of
            Some xml \<Rightarrow> bucket_xml_response L bucket req 200 (TextDocument xml)
          | None \<Rightarrow> return (s3_error L 404 missing_code missing_message)))"

definition get_lifecycle :: "s3_lib \<Rightarrow> string \<Rightarrow> request \<Rightarrow> s3_response io" where
  "get_lifecycle L bucket req =
     bind_io (try_io (get_bucket_lifecycle bucket)) (\<lambda>r.
     case r of
       Ok config \<Rightarrow> bucket_xml_response L bucket req 200 (LifecycleDocument config)
     | Err e \<Rightarrow>
         return (if e = BucketNotFound then no_such_bucket_response L
                 else if e = KeyNotFound
                 then s3_error L 404 ''NoSuchLifecycleConfiguration'' ''No lifecycle configuration present''
                 else internal_error_response L e))"

definition get_policy :: "s3_lib \<Rightarrow> string \<Rightarrow> request \<Rightarrow> s3_response io" where
  "get_policy L bucket req =
     bind_io (try_io (get_bucket_policy bucket)) (\<lambda>r.
     case r of
       Ok policy \<Rightarrow>
         bucket_body_response L bucket req 200 ''application/json; charset=utf-8'' (TextDocument (s3_show_policy L policy))
     | Err e \<Rightarrow>
         return (if e = BucketNotFound then no_such_bucket_response L
                 else if e = KeyNotFound then s3_error L 404 ''NoSuchBucketPolicy'' ''The bucket policy does not exist''
                 else internal_error_response L e))"

definition get_acl :: "s3_lib \<Rightarrow> string \<Rightarrow> request \<Rightarrow> s3_response io" where
  "get_acl L bucket req =
     bind_io (try_io (get_bucket_acl bucket)) (\<lambda>r.
     case r of
       Ok a \<Rightarrow> bucket_xml_response L bucket req 200 (AclDocument (''sqrzl-emulator'', ''S3 Emulator'') a)
     | Err e \<Rightarrow> return (bucket_not_found_or_internal_error L e))"

definition get_versioning :: "s3_lib \<Rightarrow> string \<Rightarrow> request \<Rightarrow> s3_response io" where
  "get_versioning L bucket req =
     bind_io (try_io (get_bucket bucket)) (\<lambda>r.
     case r of
       Ok b \<Rightarrow>
         bucket_xml_response L bucket req 200 (VersioningDocument
           (case bucket_metadata b S3_VERSIONING_STATUS_KEY of
              Some status \<Rightarrow> if status = ''Enabled'' \<or> status = ''Suspended'' then Some status else None
            | None \<Rightarrow> None))
     | Err e \<Rightarrow> return (bucket_not_found_or_internal_error L e))"

section \<open>Listings\<close>

definition max_keys_or_error :: "s3_lib \<Rightarrow> request \<Rightarrow> (s3_response, nat) result" where
  "max_keys_or_error L req =
     (case param L req ''max-keys'' of
        None \<Rightarrow> Ok 1000
      | Some raw \<Rightarrow>
          (case parse_u32 raw of
             Some n \<Rightarrow> Ok (min n 1000)
           | None \<Rightarrow> Err (s3_error L 400 ''InvalidArgument'' ''max-keys must be a non-negative integer.'')))"

datatype upload_entry = UploadEntry multipart_upload | UploadPrefix string

fun upload_entry_key :: "upload_entry \<Rightarrow> string" where
  "upload_entry_key (UploadEntry u) = upload_key u"
| "upload_entry_key (UploadPrefix p) = p"

fun upload_entry_id :: "upload_entry \<Rightarrow> string option" where
  "upload_entry_id (UploadEntry u) = Some (upload_id u)"
| "upload_entry_id (UploadPrefix p) = None"

text \<open>The entries of a listing in the order of the uploads; \<open>seen\<close> are the prefixes listed already.\<close>

fun upload_entries :: "string \<Rightarrow> string option \<Rightarrow> string list \<Rightarrow> multipart_upload list \<Rightarrow> upload_entry list" where
  "upload_entries pfx delimiter seen [] = []"
| "upload_entries pfx delimiter seen (u # us) =
     (if \<not> prefix pfx (upload_key u) then upload_entries pfx delimiter seen us
      else
        case delimiter of
          None \<Rightarrow> UploadEntry u # upload_entries pfx delimiter seen us
        | Some d \<Rightarrow>
            (case find_str d (drop (length pfx) (upload_key u)) of
               None \<Rightarrow> UploadEntry u # upload_entries pfx delimiter seen us
             | Some i \<Rightarrow>
                 let folder = take (length pfx + i + length d) (upload_key u) in
                 if folder \<in> set seen then upload_entries pfx delimiter seen us
                 else UploadPrefix folder # upload_entries pfx delimiter (folder # seen) us))"

definition after_upload_marker :: "string option \<Rightarrow> string option \<Rightarrow> upload_entry \<Rightarrow> bool" where
  "after_upload_marker key_marker upload_id_marker e =
     (case key_marker of
        None \<Rightarrow> True
      | Some marker \<Rightarrow>
          if marker < upload_entry_key e then True
          else if upload_entry_key e = marker
          then is_some_and upload_id_marker (\<lambda>i. is_some_and (upload_entry_id e) (\<lambda>j. i < j))
          else False)"

definition uploads_page ::
    "string \<Rightarrow> string option \<Rightarrow> string option \<Rightarrow> string option \<Rightarrow> nat \<Rightarrow> multipart_upload list \<Rightarrow> upload_entry list \<times> bool" where
  "uploads_page pfx delimiter key_marker upload_id_marker max_uploads us =
     (let entries = filter (after_upload_marker key_marker upload_id_marker)
            (sort_key (\<lambda>e. (upload_entry_key e, upload_entry_id e)) (upload_entries pfx delimiter [] us))
      in (take max_uploads entries, length entries > max_uploads))"

definition last_option :: "'a list \<Rightarrow> 'a option" where
  "last_option xs = (if xs = [] then None else Some (last xs))"

definition uploads_result ::
    "string \<Rightarrow> string \<Rightarrow> string option \<Rightarrow> string option \<Rightarrow> string option \<Rightarrow> string option \<Rightarrow> nat \<Rightarrow> multipart_upload list \<Rightarrow>
     list_multipart_uploads_result" where
  "uploads_result bucket pfx delimiter key_marker upload_id_marker encoding_type max_uploads us =
     (case uploads_page pfx delimiter key_marker upload_id_marker max_uploads us of
        (page, truncated) \<Rightarrow>
          \<lparr>mu_uploads = List.map_filter (\<lambda>e. case e of UploadEntry u \<Rightarrow> Some u | _ \<Rightarrow> None) page,
           mu_common_prefixes = List.map_filter (\<lambda>e. case e of UploadPrefix p \<Rightarrow> Some p | _ \<Rightarrow> None) page,
           mu_bucket = bucket, mu_key_marker = key_marker, mu_upload_id_marker = upload_id_marker,
           mu_next_key_marker = (if truncated then map_option upload_entry_key (last_option page) else None),
           mu_next_upload_id_marker = (if truncated then Option.bind (last_option page) upload_entry_id else None),
           mu_prefix = pfx, mu_delimiter = delimiter, mu_encoding_type = encoding_type, mu_max_uploads = max_uploads,
           mu_is_truncated = truncated\<rparr>)"

definition non_empty_param :: "s3_lib \<Rightarrow> request \<Rightarrow> string \<Rightarrow> string option" where
  "non_empty_param L req name = non_empty (param L req name)"

definition param_or_empty :: "s3_lib \<Rightarrow> request \<Rightarrow> string \<Rightarrow> string" where
  "param_or_empty L req name = (case param L req name of Some v \<Rightarrow> v | None \<Rightarrow> [])"

definition s3_list_multipart_uploads :: "s3_lib \<Rightarrow> string \<Rightarrow> request \<Rightarrow> s3_response io" where
  "s3_list_multipart_uploads L bucket req =
     (let key_marker = non_empty_param L req ''key-marker''; upload_id_marker = non_empty_param L req ''upload-id-marker'' in
      if upload_id_marker \<noteq> None \<and> key_marker = None
      then return (s3_error L 400 ''InvalidArgument'' ''upload-id-marker requires key-marker.'')
      else
        case (case param L req ''max-uploads'' of None \<Rightarrow> Some 1000 | Some v \<Rightarrow> map_option (min 1000) (parse_u32 v)) of
          None \<Rightarrow> return (s3_error L 400 ''InvalidArgument'' ''max-uploads must be a non-negative integer.'')
        | Some max_uploads \<Rightarrow>
            if is_some_and (param L req ''encoding-type'') (\<lambda>v. \<not> eq_ignore_ascii_case v ''url'')
            then return (s3_error L 400 ''InvalidArgument'' ''encoding-type must be url when provided.'')
            else
              bind_io (try_io (list_multipart_uploads bucket)) (\<lambda>r.
              case r of
                Ok us \<Rightarrow>
                  bucket_xml_response L bucket req 200 (UploadsDocument
                    (uploads_result bucket (param_or_empty L req ''prefix'') (non_empty_param L req ''delimiter'')
                      key_marker upload_id_marker (param L req ''encoding-type'') max_uploads us))
              | Err e \<Rightarrow>
                  return (if e = BucketNotFound then no_such_bucket_response L
                          else if e = NoSuchUpload then s3_error L 404 ''NoSuchUpload'' ''Upload not found''
                          else internal_error_response L e)))"

definition sort_versions :: "object list \<Rightarrow> object list" where
  "sort_versions vs = sort_key (\<lambda>ob. (obj_key ob, - obj_last_modified ob, obj_version_id ob)) vs"

fun mark_latest :: "string option \<Rightarrow> object list \<Rightarrow> object list" where
  "mark_latest latest_key [] = []"
| "mark_latest latest_key (ob # obs) =
     (let is_latest = (latest_key \<noteq> Some (obj_key ob)) in
      set_provider_metadata ''s3_is_latest'' (Some (show_bool is_latest)) ob
      # mark_latest (if is_latest then Some (obj_key ob) else latest_key) obs)"

fun version_position :: "('a \<Rightarrow> bool) \<Rightarrow> 'a list \<Rightarrow> nat option" where
  "version_position P [] = None"
| "version_position P (x # xs) = (if P x then Some 0 else map_option Suc (version_position P xs))"

definition partition_point :: "string \<Rightarrow> object list \<Rightarrow> nat" where
  "partition_point key vs = length (takeWhile (\<lambda>ob. obj_key ob \<le> key) vs)"

definition versions_start :: "string option \<Rightarrow> string option \<Rightarrow> object list \<Rightarrow> nat option" where
  "versions_start key_marker version_id_marker vs =
     (case (key_marker, version_id_marker) of
        (None, Some _) \<Rightarrow> None
      | (Some key, Some version) \<Rightarrow>
          Some (case version_position (\<lambda>ob. obj_key ob = key \<and> obj_version_id ob = Some version) vs of
                  Some i \<Rightarrow> i + 1
                | None \<Rightarrow> partition_point key vs)
      | (Some key, None) \<Rightarrow> Some (partition_point key vs)
      | (None, None) \<Rightarrow> Some 0)"

definition s3_list_object_versions :: "s3_lib \<Rightarrow> string \<Rightarrow> request \<Rightarrow> s3_response io" where
  "s3_list_object_versions L bucket req =
     respond_if_io (foreign_conflict L bucket)
     (let pfx = param L req ''prefix''; key_marker = param L req ''key-marker'';
          version_id_marker = param L req ''version-id-marker''
      in
      case max_keys_or_error L req of
        Err resp \<Rightarrow> return resp
      | Ok max_keys \<Rightarrow>
          bind_io (try_io (list_object_versions bucket pfx)) (\<lambda>r.
          case r of
            Err e \<Rightarrow> return (bucket_not_found_or_internal_error L e)
          | Ok vs \<Rightarrow>
              let marked = mark_latest None (sort_versions vs) in
              (case versions_start key_marker version_id_marker marked of
                 None \<Rightarrow> return (s3_error L 400 ''InvalidArgument''
                           ''A version-id-marker cannot be specified without a key-marker.'')
               | Some start \<Rightarrow>
                   let rest = drop start marked; truncated = length rest > max_keys; page = take max_keys rest in
                   bucket_xml_response L bucket req 200
                     (VersionsDocument bucket page (case pfx of Some p \<Rightarrow> p | None \<Rightarrow> []) key_marker version_id_marker max_keys
                       truncated
                       (if truncated then map_option obj_key (last_option page) else None)
                       (if truncated then Option.bind (last_option page) obj_version_id else None)))))"

definition list_objects_v2 :: "s3_lib \<Rightarrow> string \<Rightarrow> request \<Rightarrow> s3_response io" where
  "list_objects_v2 L bucket req =
     bind_io (gets ext) (\<lambda>x.
     let pfx = param_or_empty L req ''prefix''; delimiter = non_empty_param L req ''delimiter'';
         token = non_empty_param L req ''continuation-token''; start_after = non_empty_param L req ''start-after''
     in
     case (case token of None \<Rightarrow> Some None | Some t \<Rightarrow> map_option Some (decode_list_objects_v2_token L x t)) of
       None \<Rightarrow> return (s3_error L 400 ''InvalidArgument'' ''The continuation token provided is incorrect.'')
     | Some continuation_marker \<Rightarrow>
         (case max_keys_or_error L req of
            Err resp \<Rightarrow> return resp
          | Ok max_keys \<Rightarrow>
              bind_io (try_io (list_objects bucket (Some pfx) delimiter (or_else continuation_marker start_after) (Some max_keys))) (\<lambda>r.
              case r of
                Err e \<Rightarrow> return (bucket_not_found_or_internal_error L e)
              | Ok result \<Rightarrow>
                  let entries = sort_key v2_token
                        (map ObjectEntryV2 (objects result) @ map CommonPrefixV2 (common_prefixes result));
                      next_token = (if is_truncated result
                        then map_option (encode_list_objects_v2_token L x) (next_marker result) else None);
                      fetch_owner = is_some_and (param L req ''fetch-owner'') (\<lambda>v. v = [] \<or> eq_ignore_ascii_case v ''true'')
                  in
                  bucket_xml_response L bucket req 200
                    (ObjectsV2Document entries bucket pfx delimiter max_keys (length entries) (is_truncated result) token
                      next_token start_after (param L req ''encoding-type'') fetch_owner))))"

definition keep_unexpired :: "string \<Rightarrow> object \<Rightarrow> object option io" where
  "keep_unexpired bucket ob =
     bind_io (object_expired bucket (obj_key ob)) (\<lambda>expired. return (if expired then None else Some ob))"

definition list_objects_v1 :: "s3_lib \<Rightarrow> string \<Rightarrow> request \<Rightarrow> s3_response io" where
  "list_objects_v1 L bucket req =
     (case max_keys_or_error L req of
        Err resp \<Rightarrow> return resp
      | Ok max_keys \<Rightarrow>
          bind_io (try_io (list_objects bucket (param L req ''prefix'') (param L req ''delimiter'') (param L req ''marker'')
                     (Some max_keys))) (\<lambda>r.
          case r of
            Err e \<Rightarrow> return (bucket_not_found_or_internal_error L e)
          | Ok result \<Rightarrow>
              bind_io (collect_io (objects result) (keep_unexpired bucket)) (\<lambda>kept.
              bucket_xml_response L bucket req 200
                (ObjectsDocument kept (common_prefixes result) bucket (param_or_empty L req ''prefix'')
                  (param L req ''delimiter'') (param L req ''marker'') (length kept) (is_truncated result)
                  (next_marker result)))))"

definition bucket_subresource_response :: "s3_lib \<Rightarrow> string \<Rightarrow> request \<Rightarrow> s3_response io option" where
  "bucket_subresource_response L bucket req =
     (if has_param L req ''requestPayment'' then Some (get_request_payment L bucket req)
      else if has_param L req ''website'' then
        Some (get_bucket_metadata_xml L bucket req S3_WEBSITE_XML_KEY ''NoSuchWebsiteConfiguration''
          ''The specified bucket does not have a website configuration'')
      else if has_param L req ''cors'' then
        Some (get_bucket_metadata_xml L bucket req S3_CORS_XML_KEY ''NoSuchCORSConfiguration''
          ''The CORS configuration does not exist'')
      else if has_param L req ''lifecycle'' then Some (get_lifecycle L bucket req)
      else if has_param L req ''policy'' then Some (get_policy L bucket req)
      else if has_param L req ''acl'' then Some (get_acl L bucket req)
      else if has_param L req ''versioning'' then Some (get_versioning L bucket req)
      else if has_param L req ''object-lock'' then Some (get_object_lock_configuration L bucket req)
      else if has_param L req ''uploads'' then Some (s3_list_multipart_uploads L bucket req)
      else if has_param L req ''versions'' then Some (s3_list_object_versions L bucket req)
      else None)"

definition bucket_get_or_list_objects :: "s3_lib \<Rightarrow> config \<Rightarrow> string \<Rightarrow> request \<Rightarrow> s3_response io" where
  "bucket_get_or_list_objects L cfg bucket req =
     (if is_preflight req then preflight_response L bucket req
      else
        respond_if_io (authorize L cfg req bucket None (bucket_get_action L req))
        (case bucket_subresource_response L bucket req of
           Some m \<Rightarrow> m
         | None \<Rightarrow>
             if param L req ''list-type'' = Some ''2'' then list_objects_v2 L bucket req
             else list_objects_v1 L bucket req))"

section \<open>Changing a bucket\<close>

definition bucket_put_action :: "s3_lib \<Rightarrow> request \<Rightarrow> string" where
  "bucket_put_action L req =
     (if has_param L req ''versioning'' then ''s3:PutBucketVersioning''
      else if has_param L req ''object-lock'' then ''s3:PutBucketObjectLockConfiguration''
      else if has_param L req ''lifecycle'' then ''s3:PutLifecycleConfiguration''
      else if has_param L req ''requestPayment'' then ''s3:PutBucketRequestPayment''
      else if has_param L req ''website'' then ''s3:PutBucketWebsite''
      else if has_param L req ''cors'' then ''s3:PutBucketCors''
      else if has_param L req ''acl'' then ''s3:PutBucketAcl''
      else if has_param L req ''policy'' then ''s3:PutBucketPolicy''
      else ''s3:CreateBucket'')"

definition request_body_text :: "s3_lib \<Rightarrow> request \<Rightarrow> string io" where
  "request_body_text L req =
     (case s3_utf8 L (req_body req) of
        Ok text \<Rightarrow> return text
      | Err e \<Rightarrow> throw (InternalError (''Invalid UTF-8 body: '' @ e)))"

definition put_lifecycle :: "s3_lib \<Rightarrow> string \<Rightarrow> request \<Rightarrow> s3_response io" where
  "put_lifecycle L bucket req =
     bind_io (request_body_text L req) (\<lambda>body.
     case parse_lifecycle_xml (s3_xml L) body of
       Err message \<Rightarrow> return (s3_error L 400 ''MalformedXML'' message)
     | Ok config \<Rightarrow>
         bind_io (try_io (put_bucket_lifecycle bucket config)) (bucket_write_response L bucket req))"

definition put_request_payment :: "s3_lib \<Rightarrow> string \<Rightarrow> request \<Rightarrow> s3_response io" where
  "put_request_payment L bucket req =
     bind_io (request_body_text L req) (\<lambda>body.
     let payer = (case metadata_value (s3_xml L) body ''Payer'' of Some p \<Rightarrow> p | None \<Rightarrow> []) in
     if payer \<noteq> ''Requester'' \<and> payer \<noteq> ''BucketOwner''
     then return (s3_error L 400 ''MalformedXML'' ''RequestPaymentConfiguration must contain a valid Payer value'')
     else
       bind_io (try_io (with_bucket_metadata bucket (\<lambda>m. m(S3_REQUEST_PAYMENT_KEY \<mapsto> payer)))) (bucket_write_response L bucket req))"

definition put_metadata_document :: "s3_lib \<Rightarrow> string \<Rightarrow> request \<Rightarrow> string \<Rightarrow> s3_response io" where
  "put_metadata_document L bucket req metadata_key =
     bind_io (request_body_text L req) (\<lambda>body.
     bind_io (try_io (with_bucket_metadata bucket (\<lambda>m. m(metadata_key \<mapsto> body)))) (bucket_write_response L bucket req))"

definition change_versioning :: "string \<Rightarrow> bool \<Rightarrow> bucket io" where
  "change_versioning bucket enabled =
     then_io (service_set_versioning bucket enabled)
     (with_bucket_metadata bucket (\<lambda>m. m(S3_VERSIONING_STATUS_KEY \<mapsto> if enabled then ''Enabled'' else ''Suspended'')))"

definition put_versioning :: "s3_lib \<Rightarrow> string \<Rightarrow> request \<Rightarrow> s3_response io" where
  "put_versioning L bucket req =
     bind_io (request_body_text L req) (\<lambda>body.
     case parse_versioning_xml (s3_xml L) body of
       Err message \<Rightarrow> return (s3_error L 400 ''MalformedXML'' message)
     | Ok enabled \<Rightarrow>
         bind_io (if enabled then return False
                  else
                    bind_io (try_io (get_bucket bucket)) (\<lambda>r.
                    return (ok_and r (\<lambda>b. bucket_metadata b S3_OBJECT_LOCK_ENABLED_KEY = Some ''true'')))) (\<lambda>locked.
         if locked
         then return (s3_error L 409 ''InvalidBucketState'' ''Versioning cannot be suspended on an Object Lock enabled bucket.'')
         else
           respond_if_io (foreign_conflict L bucket)
           (bind_io (try_io (change_versioning bucket enabled)) (bucket_write_response L bucket req))))"

definition put_acl :: "s3_lib \<Rightarrow> string \<Rightarrow> request \<Rightarrow> s3_response io" where
  "put_acl L bucket req =
     (case (if req_body req = [] then map_err (\<lambda>m. (''InvalidArgument'', m)) (acl_from_headers req)
            else map_err (\<lambda>m. (''MalformedXML'', m)) (acl_from_xml_body L (req_body req))) of
        Err (code, message) \<Rightarrow> return (s3_error L 400 code message)
      | Ok a \<Rightarrow> bind_io (try_io (put_bucket_acl bucket a)) (bucket_write_response L bucket req))"

definition put_policy :: "s3_lib \<Rightarrow> string \<Rightarrow> request \<Rightarrow> s3_response io" where
  "put_policy L bucket req =
     bind_io (request_body_text L req) (\<lambda>body.
     case s3_parse_policy L body of
       Err e \<Rightarrow> throw (InternalError (''Invalid JSON policy: '' @ e))
     | Ok policy \<Rightarrow> bind_io (try_io (put_bucket_policy bucket policy)) (bucket_write_response L bucket req))"

definition create_locked_bucket :: "string \<Rightarrow> bool \<Rightarrow> unit io" where
  "create_locked_bucket bucket object_lock =
     then_io (create_bucket bucket)
     (if object_lock then
        then_io (service_set_versioning bucket True)
        (then_io (with_bucket_metadata bucket
                   (\<lambda>m. m(S3_OBJECT_LOCK_ENABLED_KEY \<mapsto> ''true'', S3_VERSIONING_STATUS_KEY \<mapsto> ''Enabled'')))
         (return ()))
      else return ())"

definition s3_create_bucket :: "s3_lib \<Rightarrow> string \<Rightarrow> request \<Rightarrow> s3_response io" where
  "s3_create_bucket L bucket req =
     (case (case header req ''x-amz-bucket-object-lock-enabled'' of
              None \<Rightarrow> Some False
            | Some v \<Rightarrow> if eq_ignore_ascii_case v ''true'' then Some True else None) of
        None \<Rightarrow> return (s3_error L 400 ''InvalidArgument'' ''x-amz-bucket-object-lock-enabled must be true when supplied.'')
      | Some object_lock \<Rightarrow>
          bind_io (try_io (create_locked_bucket bucket object_lock)) (\<lambda>r.
          case r of
            Ok _ \<Rightarrow> return (with_header L ''Location'' (CHR ''/'' # bucket) (new_response 200))
          | Err e \<Rightarrow>
              if e = BucketAlreadyExists
              then return (s3_error L 409 ''BucketAlreadyOwnedByYou''
                     ''Your previous request to create the named bucket succeeded and you already own it.'')
              else throw e))"

definition bucket_put :: "s3_lib \<Rightarrow> config \<Rightarrow> string \<Rightarrow> request \<Rightarrow> s3_response io" where
  "bucket_put L cfg bucket req =
     respond_if_io (authorize L cfg req bucket None (bucket_put_action L req))
     (case validate_bucket_name bucket of
        Err message \<Rightarrow> return (s3_error L 400 ''InvalidBucketName'' message)
      | Ok _ \<Rightarrow>
          if has_param L req ''lifecycle'' then put_lifecycle L bucket req
          else if has_param L req ''requestPayment'' then put_request_payment L bucket req
          else if has_param L req ''website'' then put_metadata_document L bucket req S3_WEBSITE_XML_KEY
          else if has_param L req ''cors'' then put_metadata_document L bucket req S3_CORS_XML_KEY
          else if has_param L req ''versioning'' then put_versioning L bucket req
          else if has_param L req ''object-lock''
          then return (s3_error L 501 ''NotImplemented'' ''PutObjectLockConfiguration is not supported by this emulator subset.'')
          else if has_param L req ''acl'' then put_acl L bucket req
          else if has_param L req ''policy'' then put_policy L bucket req
          else s3_create_bucket L bucket req)"

definition s3_list_buckets :: "s3_lib \<Rightarrow> config \<Rightarrow> request \<Rightarrow> s3_response io" where
  "s3_list_buckets L cfg req =
     respond_if_io (authorize L cfg req ''*'' None ''s3:ListAllMyBuckets'')
     (bind_io list_buckets (\<lambda>bs. return (xml_success_response L 200 (BucketsDocument bs))))"

definition bucket_head :: "s3_lib \<Rightarrow> config \<Rightarrow> string \<Rightarrow> request \<Rightarrow> s3_response io" where
  "bucket_head L cfg bucket req =
     respond_if_io (authorize L cfg req bucket None ''s3:ListBucket'')
     (bind_io (try_io (get_bucket bucket)) (\<lambda>r.
      case r of
        Ok _ \<Rightarrow> apply_actual_request_headers L bucket req (new_response 200)
      | Err e \<Rightarrow> return (storage_error_response L e)))"

definition bucket_delete_action :: "s3_lib \<Rightarrow> request \<Rightarrow> string" where
  "bucket_delete_action L req =
     (if has_param L req ''lifecycle'' then ''s3:DeleteLifecycleConfiguration''
      else if has_param L req ''policy'' then ''s3:DeleteBucketPolicy''
      else if has_param L req ''website'' then ''s3:DeleteBucketWebsite''
      else if has_param L req ''cors'' then ''s3:DeleteBucketCors''
      else ''s3:DeleteBucket'')"

definition bucket_delete :: "s3_lib \<Rightarrow> config \<Rightarrow> string \<Rightarrow> request \<Rightarrow> s3_response io" where
  "bucket_delete L cfg bucket req =
     bind_io
       (if has_param L req ''cors'' \<or>
           (\<not> has_param L req ''website'' \<and> \<not> has_param L req ''lifecycle'' \<and> \<not> has_param L req ''policy'')
        then bucket_cors_snapshot bucket else return None) (\<lambda>snapshot.
     respond_if_io (authorize L cfg req bucket None (bucket_delete_action L req))
     (if has_param L req ''website'' then
        bind_io (try_io (with_bucket_metadata bucket (\<lambda>m. m(S3_WEBSITE_XML_KEY := None)))) (bucket_delete_response L bucket req None)
      else if has_param L req ''cors'' then
        bind_io (try_io (with_bucket_metadata bucket (\<lambda>m. m(S3_CORS_XML_KEY := None)))) (bucket_delete_response L bucket req snapshot)
      else if has_param L req ''lifecycle'' then
        bind_io (try_io (delete_bucket_lifecycle bucket)) (bucket_delete_response L bucket req None)
      else if has_param L req ''policy'' then
        bind_io (try_io (delete_bucket_policy bucket)) (bucket_delete_response L bucket req None)
      else if has_param L req ''versioning'' \<or> has_param L req ''acl''
      then return (s3_error L 400 ''InvalidRequest'' ''Cannot delete versioning or ACL via DELETE'')
      else
        respond_if_io (foreign_conflict L bucket)
        (bind_io (try_io (delete_bucket bucket)) (bucket_delete_response L bucket req snapshot))))"

section \<open>Deleting many objects\<close>

record multi_delete_failure =
  mf_code :: string
  mf_message :: string

definition multi_delete_storage_failure :: "error \<Rightarrow> multi_delete_failure" where
  "multi_delete_storage_failure e = \<lparr>mf_code = error_code e, mf_message = error_text e\<rparr>"

definition multi_delete_locked :: multi_delete_failure where
  "multi_delete_locked =
     \<lparr>mf_code = ''AccessDenied'', mf_message = ''Object is protected by an active retention policy or legal hold''\<rparr>"

definition multi_delete_precondition :: multi_delete_failure where
  "multi_delete_precondition =
     \<lparr>mf_code = ''PreconditionFailed'', mf_message = ''At least one of the pre-conditions you specified did not hold''\<rparr>"

definition multi_delete_etag_matches :: "string \<Rightarrow> string \<Rightarrow> bool" where
  "multi_delete_etag_matches expected actual =
     (let e = str_trim expected in e = ''*'' \<or> (\<not> prefix ''W/'' e \<and> trim_quotes e = trim_quotes actual))"

text \<open>The lock and the kept version are decided as for a single deletion.\<close>

definition multi_delete_object_is_locked :: "externs \<Rightarrow> datetime \<Rightarrow> object \<Rightarrow> bool" where
  "multi_delete_object_is_locked x now ob \<longleftrightarrow>
     is_some_and (obj_provider_metadata ob ''s3_object_lock_legal_hold'') (\<lambda>value. eq_ignore_ascii_case value ''ON'') \<or>
     is_some_and (Option.bind (obj_provider_metadata ob ''s3_object_lock_until'')
        (\<lambda>value. case ext_parse_rfc3339 x value of Some t \<Rightarrow> Some t | None \<Rightarrow> ext_parse_rfc2822 x value)) (\<lambda>until. now < until)"

definition multi_delete_preserves_current_version :: "string \<Rightarrow> object \<Rightarrow> bool io" where
  "multi_delete_preserves_current_version bucket ob =
     bind_io (try_io (get_bucket bucket)) (\<lambda>r.
     return (ok_and r (\<lambda>b. versioning_enabled b \<or>
       (bucket_metadata b ''s3_versioning_status'' = Some ''Suspended'' \<and> obj_version_id ob \<noteq> Some ''null''))))"

definition missing_version :: "error \<Rightarrow> bool" where
  "missing_version e \<longleftrightarrow> e = KeyNotFound \<or> e = NoSuchVersion"

definition multi_delete_version ::
    "string \<Rightarrow> string \<Rightarrow> string \<Rightarrow> string option \<Rightarrow> (multi_delete_failure, unit) result io" where
  "multi_delete_version bucket key version etag =
     bind_io (try_io (get_object_version bucket key version)) (\<lambda>r.
     case r of
       Err e \<Rightarrow> return (if missing_version e \<and> etag = None then Ok () else Err (multi_delete_storage_failure e))
     | Ok target \<Rightarrow>
         if is_some_and etag (\<lambda>e. \<not> multi_delete_etag_matches e (obj_etag target))
         then return (Err multi_delete_precondition)
         else
           bind_io now_io (\<lambda>now.
           bind_io (gets ext) (\<lambda>x.
           if multi_delete_object_is_locked x now target then return (Err multi_delete_locked)
           else
             bind_io (try_io (delete_object_version bucket key version)) (\<lambda>d.
             return (case d of
                       Ok _ \<Rightarrow> Ok ()
                     | Err e \<Rightarrow>
                         if missing_version e \<and> etag = None then Ok () else Err (multi_delete_storage_failure e))))))"

definition multi_delete_current :: "string \<Rightarrow> string \<Rightarrow> (multi_delete_failure, unit) result io" where
  "multi_delete_current bucket key =
     bind_io (try_io (delete_object bucket key)) (\<lambda>d.
     return (case d of
               Ok _ \<Rightarrow> Ok ()
             | Err e \<Rightarrow> if e = KeyNotFound then Ok () else Err (multi_delete_storage_failure e)))"

definition multi_delete_if_current :: "string \<Rightarrow> string \<Rightarrow> object \<Rightarrow> (multi_delete_failure, unit) result io" where
  "multi_delete_if_current bucket key ob =
     bind_io (try_io (delete_object_if bucket key (Etag (obj_etag ob)))) (\<lambda>d.
     return (case d of
               Ok True \<Rightarrow> Ok ()
             | Ok False \<Rightarrow> Err \<lparr>mf_code = ''Conflict'', mf_message = ''A conflicting mutation changed the object.''\<rparr>
             | Err e \<Rightarrow> Err (multi_delete_storage_failure e)))"

definition multi_delete_object :: "string \<Rightarrow> delete_object_entry \<Rightarrow> (multi_delete_failure, unit) result io" where
  "multi_delete_object bucket entry =
     (case entry of
        (key, Some version, etag) \<Rightarrow> multi_delete_version bucket key version etag
      | (key, None, etag) \<Rightarrow>
          bind_io (try_io (get_object bucket key)) (\<lambda>r.
          case r of
            Err _ \<Rightarrow>
              if etag \<noteq> None then return (Err (multi_delete_storage_failure KeyNotFound)) else multi_delete_current bucket key
          | Ok ob \<Rightarrow>
              bind_io now_io (\<lambda>now.
              bind_io (gets ext) (\<lambda>x.
              bind_io (if multi_delete_object_is_locked x now ob
                       then bind_io (multi_delete_preserves_current_version bucket ob) (\<lambda>kept. return (\<not> kept))
                       else return False) (\<lambda>refused.
              if refused then return (Err multi_delete_locked)
              else
                case etag of
                  None \<Rightarrow> multi_delete_current bucket key
                | Some e \<Rightarrow>
                    if \<not> multi_delete_etag_matches e (obj_etag ob) then return (Err multi_delete_precondition)
                    else multi_delete_if_current bucket key ob)))))"

type_synonym multi_delete_outcome = "string \<times> string option \<times> multi_delete_failure option"

definition multi_delete_outcome_xml :: "multi_delete_outcome \<Rightarrow> string" where
  "multi_delete_outcome_xml outcome =
     (case outcome of (key, version, failure) \<Rightarrow>
        let name = (if failure \<noteq> None then ''Error'' else ''Deleted'') in
        element name
          (element ''Key'' (escape_xml_str key)
           @ optional version (\<lambda>v. element ''VersionId'' (escape_xml_str v))
           @ optional failure (\<lambda>f. element ''Code'' (mf_code f) @ element ''Message'' (escape_xml_str (mf_message f)))))"

definition multi_delete_result_xml :: "multi_delete_outcome list \<Rightarrow> string" where
  "multi_delete_result_xml outcomes =
     xml_declaration @ namespaced ''DeleteResult'' @ ''>'' @ concat (map multi_delete_outcome_xml outcomes)
     @ close_tag ''DeleteResult''"

definition multi_delete_request_objects :: "s3_lib \<Rightarrow> externs \<Rightarrow> request \<Rightarrow> (s3_response, delete_object_entry list) result" where
  "multi_delete_request_objects L x req =
     (case header req ''content-md5'' of
        None \<Rightarrow> Err (s3_error L 400 ''MissingContentMD5'' ''The Content-MD5 header is required for DeleteObjects requests.'')
      | Some content_md5 \<Rightarrow>
          (case s3_base64_decode L content_md5 of
             None \<Rightarrow> Err (s3_error L 400 ''InvalidDigest'' ''The Content-MD5 value is not a valid MD5 digest.'')
           | Some supplied \<Rightarrow>
               if length supplied \<noteq> 16
               then Err (s3_error L 400 ''InvalidDigest'' ''The Content-MD5 value is not a valid MD5 digest.'')
               else if supplied \<noteq> ext_md5 x (req_body req)
               then Err (s3_error L 400 ''BadDigest'' ''The Content-MD5 value does not match the request body.'')
               else
                 map_err (s3_error L 200 ''MalformedXML'')
                   (bind_result (s3_utf8 L (req_body req)) (parse_delete_keys (s3_xml L)))))"

fun multi_delete_authorization_error ::
    "s3_lib \<Rightarrow> config \<Rightarrow> string \<Rightarrow> request \<Rightarrow> delete_object_entry list \<Rightarrow> s3_response option io" where
  "multi_delete_authorization_error L cfg bucket req [] = return None"
| "multi_delete_authorization_error L cfg bucket req (entry # rest) =
     bind_io (authorize L cfg req bucket (Some (fst entry)) ''s3:DeleteObject'') (\<lambda>r.
     case r of
       Some resp \<Rightarrow> return (Some resp)
     | None \<Rightarrow> multi_delete_authorization_error L cfg bucket req rest)"

definition multi_delete_one :: "string \<Rightarrow> delete_object_entry \<Rightarrow> multi_delete_outcome option io" where
  "multi_delete_one bucket entry =
     bind_io (multi_delete_object bucket entry) (\<lambda>r.
     return (Some (fst entry, fst (snd entry), case r of Ok _ \<Rightarrow> None | Err f \<Rightarrow> Some f)))"

definition bucket_post_multi_object_delete :: "s3_lib \<Rightarrow> config \<Rightarrow> string \<Rightarrow> request \<Rightarrow> s3_response io" where
  "bucket_post_multi_object_delete L cfg bucket req =
     bind_io (gets (\<lambda>s. bucket_exists s bucket)) (\<lambda>exists.
     if \<not> exists then return (no_such_bucket_response L)
     else
       bind_io (gets ext) (\<lambda>x.
       case multi_delete_request_objects L x req of
         Err resp \<Rightarrow> return resp
       | Ok entries \<Rightarrow>
           respond_if_io (multi_delete_authorization_error L cfg bucket req entries)
           (respond_if_io (foreign_conflict L bucket)
            (bind_io (collect_io entries (multi_delete_one bucket)) (\<lambda>outcomes.
             bind_io (apply_bucket_cors_headers L bucket req None (content_type_header L xml_type (new_response 200))) (\<lambda>resp.
             return (with_document (TextDocument (multi_delete_result_xml outcomes)) resp)))))))"

definition bucket_post_browser_upload :: "s3_lib \<Rightarrow> config \<Rightarrow> string \<Rightarrow> request \<Rightarrow> string \<Rightarrow> s3_response io" where
  "bucket_post_browser_upload L cfg bucket req content_type =
     bind_io (gets (\<lambda>s. bucket_exists s bucket)) (\<lambda>exists.
     if \<not> exists then return (no_such_bucket_response L)
     else
       case parse_multipart_form_upload L content_type (req_body req) of
         None \<Rightarrow> return (s3_error L 400 ''InvalidRequest'' ''Unable to parse multipart form upload'')
       | Some (key, data, file_content_type) \<Rightarrow>
           respond_if_io (authorize L cfg req bucket (Some key) ''s3:PutObject'')
           (respond_if_io (foreign_conflict L bucket)
            (bind_io (gets ext) (\<lambda>x.
             bind_io now_io (\<lambda>now.
             then_io (put_object bucket key (new_object x key data file_content_type now))
             (apply_actual_request_headers L bucket req
               (with_header L ''Location'' (''/'' @ bucket @ ''/'' @ key) (new_response 204))))))))"

definition bucket_post :: "s3_lib \<Rightarrow> config \<Rightarrow> string \<Rightarrow> request \<Rightarrow> s3_response io" where
  "bucket_post L cfg bucket req =
     (if has_param L req ''delete'' then bucket_post_multi_object_delete L cfg bucket req
      else
        case header req ''content-type'' of
          Some content_type \<Rightarrow>
            if prefix ''multipart/form-data'' content_type then bucket_post_browser_upload L cfg bucket req content_type
            else return (s3_error L 501 ''NotImplemented'' ''Bucket POST operations not yet implemented'')
        | None \<Rightarrow> return (s3_error L 501 ''NotImplemented'' ''Bucket POST operations not yet implemented''))"

section \<open>Dispatch\<close>

fun handle_route :: "s3_lib \<Rightarrow> config \<Rightarrow> request \<Rightarrow> route_match \<Rightarrow> s3_response io" where
  "handle_route L cfg req RListBuckets = s3_list_buckets L cfg req"
| "handle_route L cfg req (RBucketGet bucket) = bucket_get_or_list_objects L cfg bucket req"
| "handle_route L cfg req (RBucketPut bucket) = bucket_put L cfg bucket req"
| "handle_route L cfg req (RBucketDelete bucket) = bucket_delete L cfg bucket req"
| "handle_route L cfg req (RBucketHead bucket) = bucket_head L cfg bucket req"
| "handle_route L cfg req (RBucketPost bucket) = bucket_post L cfg bucket req"
| "handle_route L cfg req (RObjectGet bucket key) = object_get L cfg bucket key req"
| "handle_route L cfg req (RObjectPut bucket key) = object_put L cfg bucket key req"
| "handle_route L cfg req (RObjectDelete bucket key) = object_delete L cfg bucket key req"
| "handle_route L cfg req (RObjectHead bucket key) = object_head L cfg bucket key req"
| "handle_route L cfg req (RObjectPost bucket key) = object_post L cfg bucket key req"
| "handle_route L cfg req RInvalidObjectPath =
     return (s3_error L 400 ''InvalidURI'' (''Couldn'' @ CHR 0x27 # ''t parse the specified URI.''))"
| "handle_route L cfg req RNotFound = return (s3_error L 404 ''NotFound'' ''Not Found'')"

definition handle_s3_request :: "s3_lib \<Rightarrow> config \<Rightarrow> request \<Rightarrow> s3_response io" where
  "handle_s3_request L cfg req = handle_route L cfg req (s3_route L req)"

section \<open>Framing\<close>

text \<open>The checks of the S3 adapter before a request is handled (\<^verbatim>\<open>src/src/providers/s3.rs\<close>).\<close>

definition payload_too_large_response :: "s3_lib \<Rightarrow> nat \<Rightarrow> s3_response" where
  "payload_too_large_response L max_request_bytes =
     s3_error L 413 ''EntityTooLarge''
       (''Request body exceeds SQRZL_MAX_REQUEST_BYTES ('' @ show_nat max_request_bytes @ '' bytes)'')"

definition incomplete_body_response :: "s3_lib \<Rightarrow> s3_response" where
  "incomplete_body_response L =
     s3_error L 400 ''IncompleteBody'' ''The request body did not contain the declared number of bytes.''"

definition content_length_mismatch :: "request \<Rightarrow> bool" where
  "content_length_mismatch req =
     is_some_and (Option.bind (header req ''content-length'') parse_u64) (\<lambda>declared. declared \<noteq> payload_len req)"

definition plain_object_put :: "s3_lib \<Rightarrow> request \<Rightarrow> bool" where
  "plain_object_put L req \<longleftrightarrow>
     (case s3_route L req of RObjectPut _ _ \<Rightarrow> True | _ \<Rightarrow> False) \<and> header req ''x-amz-copy-source'' = None \<and>
     \<not> list_ex (has_param L req)
         [''acl'', ''legal-hold'', ''retention'', ''tagging'', ''uploadId'', ''uploads'', ''versionId'']"

definition validate_request_framing :: "s3_lib \<Rightarrow> request \<Rightarrow> s3_response option" where
  "validate_request_framing L req =
     (if plain_object_put L req \<and> payload_is_empty req \<and> header req ''content-length'' = None
      then Some (s3_error L 411 ''MissingContentLength'' ''You must provide the Content-Length HTTP header.'')
      else if content_length_mismatch req then Some (incomplete_body_response L)
      else None)"

definition serve_s3 :: "s3_lib \<Rightarrow> config \<Rightarrow> request \<Rightarrow> s3_response io" where
  "serve_s3 L cfg req = respond_if (validate_request_framing L req) (handle_s3_request L cfg req)"

end
