(* ===== verification/Xml_Correct.thy ===== *)
theory Xml_Correct
  imports Xml_Parse
begin

text \<open>
  The lifecycle document is read back as the configuration it was written from.

  The reader is a library; what is assumed of it is \<open>reads_trees\<close>: it reports the tags of a document in
  their order, text without references as one event, and, with trimming on, no text for white space
  between tags. \<open>sample_events\<close> is a reader that does.
\<close>

section \<open>Documents as trees\<close>

datatype xml_tree = Elem string "xml_tree list" | Leaf string string | Space string

fun print_tree :: "xml_tree \<Rightarrow> string" and print_trees :: "xml_tree list \<Rightarrow> string" where
  "print_tree (Elem n ts) = open_tag n @ print_trees ts @ close_tag n"
| "print_tree (Leaf n s) = element n s"
| "print_tree (Space w) = w"
| "print_trees [] = []"
| "print_trees (t # ts) = print_tree t @ print_trees ts"

fun tree_events :: "xml_tree \<Rightarrow> xml_event list" and trees_events :: "xml_tree list \<Rightarrow> xml_event list" where
  "tree_events (Elem n ts) = StartTag n n [] # trees_events ts @ [EndTag n n]"
| "tree_events (Leaf n s) = StartTag n n [] # (if s = [] then [] else [CharText s]) @ [EndTag n n]"
| "tree_events (Space w) = []"
| "trees_events [] = []"
| "trees_events (t # ts) = tree_events t @ trees_events ts"

definition xml_space :: "char \<Rightarrow> bool" where
  "xml_space c \<longleftrightarrow> c \<in> set [CHR 0x20, CHR 0x09, CHR 0x0A, CHR 0x0D]"

definition tag_name :: "string \<Rightarrow> bool" where
  "tag_name n \<longleftrightarrow> n \<noteq> [] \<and> list_all is_alphanumeric n"

text \<open>Text that is written as it is and that trimming does not touch.\<close>

definition plain_text :: "string \<Rightarrow> bool" where
  "plain_text s \<longleftrightarrow>
     set s \<inter> special_chars = {} \<and> (s \<noteq> [] \<longrightarrow> \<not> xml_space (hd s) \<and> \<not> xml_space (last s))"

fun plain_tree :: "xml_tree \<Rightarrow> bool" and plain_trees :: "xml_tree list \<Rightarrow> bool" where
  "plain_tree (Elem n ts) \<longleftrightarrow> tag_name n \<and> plain_trees ts"
| "plain_tree (Leaf n s) \<longleftrightarrow> tag_name n \<and> plain_text s"
| "plain_tree (Space w) \<longleftrightarrow> list_all xml_space w"
| "plain_trees [] \<longleftrightarrow> True"
| "plain_trees (t # ts) \<longleftrightarrow> plain_tree t \<and> plain_trees ts"

definition reads_trees :: "xml_lib \<Rightarrow> bool" where
  "reads_trees L \<longleftrightarrow>
     (\<forall>t. plain_tree t \<longrightarrow> xl_events L True (written xml_declaration @ print_tree t) = DeclMark # tree_events t) \<and>
     (\<forall>s. CHR ''&'' \<notin> set s \<longrightarrow> xl_unescape L s = Ok s)"

lemma print_trees_append [simp]: "print_trees (ts @ us) = print_trees ts @ print_trees us"
  by (induction ts) auto

lemma trees_events_append [simp]: "trees_events (ts @ us) = trees_events ts @ trees_events us"
  by (induction ts) auto

lemma plain_trees_append [simp]: "plain_trees (ts @ us) \<longleftrightarrow> plain_trees ts \<and> plain_trees us"
  by (induction ts) auto

lemma print_trees_concat: "print_trees (concat tss) = concat (map print_trees tss)"
  by (induction tss) auto

lemma trees_events_concat: "trees_events (concat tss) = concat (map trees_events tss)"
  by (induction tss) auto

lemma plain_trees_concat: "plain_trees (concat tss) \<longleftrightarrow> (\<forall>ts \<in> set tss. plain_trees ts)"
  by (induction tss) auto

lemma event_loop_append:
  "event_loop step st (es @ fs) = bind_result (event_loop step st es) (\<lambda>st'. event_loop step st' fs)"
proof (induction es arbitrary: st)
  case (Cons e es)
  then show ?case by (cases "step st e") auto
qed simp

section \<open>The lifecycle document\<close>

definition indented :: "nat \<Rightarrow> xml_tree \<Rightarrow> xml_tree list" where
  "indented n t = [Space (replicate n (CHR '' '')), t, Space [CHR 0x0A]]"

definition block :: "nat \<Rightarrow> string \<Rightarrow> xml_tree list \<Rightarrow> xml_tree list" where
  "block n name ts = indented n (Elem name (Space [CHR 0x0A] # ts @ [Space (replicate n (CHR '' ''))]))"

definition optional_trees :: "'a option \<Rightarrow> ('a \<Rightarrow> xml_tree list) \<Rightarrow> xml_tree list" where
  "optional_trees v f = (case v of Some a \<Rightarrow> f a | None \<Rightarrow> [])"

definition tag_trees :: "tag \<Rightarrow> xml_tree list" where
  "tag_trees t = block 6 ''Tag'' (indented 8 (Leaf ''Key'' (tag_key t)) @ indented 8 (Leaf ''Value'' (tag_value t)))"

definition filter_trees :: "lifecycle_filter \<Rightarrow> xml_tree list" where
  "filter_trees f =
     block 4 ''Filter''
       (optional_trees (filter_prefix f) (\<lambda>p. indented 6 (Leaf ''Prefix'' p)) @ concat (map tag_trees (filter_tags f)))"

definition expiration_trees :: "expiration \<Rightarrow> xml_tree list" where
  "expiration_trees e =
     block 4 ''Expiration''
       (optional_trees (exp_days e) (\<lambda>d. indented 6 (Leaf ''Days'' (show_nat d)))
        @ optional_trees (exp_date e) (\<lambda>d. indented 6 (Leaf ''Date'' d))
        @ optional_trees (exp_delete_marker e) (\<lambda>m. indented 6 (Leaf ''ExpiredObjectDeleteMarker'' (show_bool m))))"

definition noncurrent_trees :: "noncurrent_version_expiration \<Rightarrow> xml_tree list" where
  "noncurrent_trees n =
     block 4 ''NoncurrentVersionExpiration'' (indented 6 (Leaf ''NoncurrentDays'' (show_nat (noncurrent_days n))))"

definition transition_trees :: "transition \<Rightarrow> xml_tree list" where
  "transition_trees t =
     block 4 ''Transition''
       (optional_trees (tr_days t) (\<lambda>d. indented 6 (Leaf ''Days'' (show_nat d)))
        @ optional_trees (tr_date t) (\<lambda>d. indented 6 (Leaf ''Date'' d))
        @ indented 6 (Leaf ''StorageClass'' (storage_class_xml (tr_storage_class t))))"

definition rule_trees :: "rule \<Rightarrow> xml_tree list" where
  "rule_trees r =
     block 2 ''Rule''
       (optional_trees (rule_id r) (\<lambda>i. indented 4 (Leaf ''ID'' i))
        @ indented 4 (Leaf ''Status'' (if rule_status r = Enabled then ''Enabled'' else ''Disabled''))
        @ optional_trees (rule_filter r) filter_trees
        @ optional_trees (rule_expiration r) expiration_trees
        @ optional_trees (rule_noncurrent r) noncurrent_trees
        @ concat (map transition_trees (rule_transitions r)))"

definition lifecycle_tree :: "lifecycle_configuration \<Rightarrow> xml_tree" where
  "lifecycle_tree c =
     Elem ''LifecycleConfiguration'' (Space [CHR 0x0A] # concat (map rule_trees (rules c)))"

text \<open>Configurations whose texts are plain and whose numbers have 32 bits, as the type of the code gives.\<close>

definition plain_option :: "string option \<Rightarrow> bool" where
  "plain_option v \<longleftrightarrow> (case v of Some s \<Rightarrow> plain_text s | None \<Rightarrow> True)"

definition days_option :: "nat option \<Rightarrow> bool" where
  "days_option v \<longleftrightarrow> (case v of Some n \<Rightarrow> n < 2 ^ 32 | None \<Rightarrow> True)"

definition plain_rule :: "rule \<Rightarrow> bool" where
  "plain_rule r \<longleftrightarrow>
     plain_option (rule_id r) \<and>
     (case rule_filter r of
        Some f \<Rightarrow> plain_option (filter_prefix f) \<and>
                  list_all (\<lambda>t. plain_text (tag_key t) \<and> plain_text (tag_value t)) (filter_tags f)
      | None \<Rightarrow> True) \<and>
     (case rule_expiration r of Some e \<Rightarrow> days_option (exp_days e) \<and> plain_option (exp_date e) | None \<Rightarrow> True) \<and>
     (case rule_noncurrent r of Some n \<Rightarrow> noncurrent_days n < 2 ^ 32 | None \<Rightarrow> True) \<and>
     list_all (\<lambda>t. days_option (tr_days t) \<and> plain_option (tr_date t)) (rule_transitions r)"

definition plain_lifecycle :: "lifecycle_configuration \<Rightarrow> bool" where
  "plain_lifecycle c \<longleftrightarrow> list_all plain_rule (rules c)"

lemma plain_text_escape: "plain_text s \<Longrightarrow> escape_xml s = s"
  by (simp add: plain_text_def escape_xml_plain)

lemma print_indented [simp]: "print_trees (indented n t) = written (replicate n (CHR '' '') @ print_tree t)"
  by (simp add: indented_def written_def)

lemma print_block [simp]:
  "print_trees (block n name ts) =
     written (replicate n (CHR '' '') @ open_tag name) @ print_trees ts
     @ written (replicate n (CHR '' '') @ close_tag name)"
  by (simp add: block_def indented_def written_def)

lemma print_optional [simp]: "print_trees (optional_trees v f) = optional v (\<lambda>a. print_trees (f a))"
  by (simp add: optional_trees_def optional_def split: option.split)

lemma optional_cong: "(\<And>a. v = Some a \<Longrightarrow> f a = g a) \<Longrightarrow> optional v f = optional v g"
  by (simp add: optional_def split: option.split)

lemma concat_map_cong: "(\<And>x. x \<in> set xs \<Longrightarrow> f x = g x) \<Longrightarrow> concat (map f xs) = concat (map g xs)"
  by (rule arg_cong [where f = concat]) (auto intro: map_cong)

lemma replicate_spaces:
  "replicate 2 (CHR '' '') = ''  ''" "replicate 4 (CHR '' '') = ''    ''" "replicate 6 (CHR '' '') = ''      ''"
  "replicate 8 (CHR '' '') = ''        ''"
  by (simp_all add: numeral_nat)

lemma print_rule_trees:
  assumes "plain_rule r"
  shows "print_trees (rule_trees r) = lifecycle_rule_xml r"
proof -
  have f: "print_trees (filter_trees f) = lifecycle_filter_xml f" if "rule_filter r = Some f" for f
    using assms that
    by (auto simp: filter_trees_def lifecycle_filter_xml_def plain_rule_def plain_option_def tag_trees_def
        print_trees_concat replicate_spaces plain_text_escape list_all_iff
        intro!: arg_cong2 [where f = "(@)"] optional_cong concat_map_cong)
  have e: "print_trees (expiration_trees e) = lifecycle_expiration_xml e" if "rule_expiration r = Some e" for e
    using assms that
    by (auto simp: expiration_trees_def lifecycle_expiration_xml_def plain_rule_def plain_option_def
        replicate_spaces plain_text_escape intro!: optional_cong)
  have n: "print_trees (noncurrent_trees n) = lifecycle_noncurrent_xml n" for n
    by (simp add: noncurrent_trees_def lifecycle_noncurrent_xml_def replicate_spaces)
  have t: "print_trees (transition_trees t) = lifecycle_transition_xml t" if "t \<in> set (rule_transitions r)" for t
    using assms that
    by (auto simp: transition_trees_def lifecycle_transition_xml_def plain_rule_def plain_option_def
        replicate_spaces plain_text_escape list_all_iff intro!: optional_cong)
  show ?thesis
    unfolding rule_trees_def lifecycle_rule_xml_def using assms
    by (auto simp: f e n t replicate_spaces print_trees_concat plain_rule_def plain_option_def plain_text_escape
        intro!: arg_cong2 [where f = "(@)"] optional_cong concat_map_cong)
qed

lemma print_lifecycle_tree:
  assumes "plain_lifecycle c"
  shows "lifecycle_xml c = written xml_declaration @ print_tree (lifecycle_tree c)"
proof -
  have "concat (map (\<lambda>r. print_trees (rule_trees r)) (rules c)) = concat (map lifecycle_rule_xml (rules c))"
    using assms by (intro concat_map_cong) (auto simp: plain_lifecycle_def list_all_iff print_rule_trees)
  then show ?thesis
    by (simp add: lifecycle_xml_def lifecycle_tree_def print_trees_concat written_def o_def)
qed

section \<open>Plainness\<close>

lemma digit_plain: "is_digit c \<Longrightarrow> c \<notin> special_chars \<and> \<not> xml_space c"
  by (auto simp: is_digit_def special_chars_def xml_space_def)

lemma show_nat_plain: "plain_text (show_nat n)"
proof -
  have d: "\<forall>c \<in> set (show_nat n). is_digit c" and ne: "show_nat n \<noteq> []"
    using show_nat_digits [of n] by (auto simp: list_all_iff)
  show ?thesis using d ne digit_plain by (auto simp: plain_text_def)
qed

lemma constant_plain:
  "plain_text ''true''" "plain_text ''false''" "plain_text ''Enabled''" "plain_text ''Disabled''"
  "plain_text ''STANDARD''" "plain_text ''GLACIER''" "plain_text ''DEEP_ARCHIVE''"
  by (simp_all add: plain_text_def special_chars_def xml_space_def)

lemma show_bool_plain: "plain_text (show_bool b)"
  by (simp add: show_bool_def constant_plain)

lemma storage_class_plain: "plain_text (storage_class_xml c)"
  by (cases c) (simp_all add: constant_plain)

lemma spaces_plain: "list_all xml_space (replicate n (CHR '' ''))" "list_all xml_space [CHR 0x0A]"
  by (simp_all add: xml_space_def list_all_iff)

lemma plain_indented [simp]: "plain_trees (indented n t) \<longleftrightarrow> plain_tree t"
  by (simp add: indented_def spaces_plain(1) xml_space_def)

lemma plain_block [simp]: "plain_trees (block n name ts) \<longleftrightarrow> tag_name name \<and> plain_trees ts"
  by (simp add: block_def spaces_plain(1) xml_space_def)

lemma plain_optional [simp]: "plain_trees (optional_trees v f) \<longleftrightarrow> (\<forall>a. v = Some a \<longrightarrow> plain_trees (f a))"
  by (simp add: optional_trees_def split: option.split)

lemma lifecycle_names:
  "tag_name ''Tag''" "tag_name ''Key''" "tag_name ''Value''" "tag_name ''Filter''" "tag_name ''Prefix''"
  "tag_name ''Expiration''" "tag_name ''Days''" "tag_name ''Date''" "tag_name ''ExpiredObjectDeleteMarker''"
  "tag_name ''NoncurrentVersionExpiration''" "tag_name ''NoncurrentDays''" "tag_name ''Transition''"
  "tag_name ''StorageClass''" "tag_name ''Rule''" "tag_name ''ID''" "tag_name ''Status''"
  "tag_name ''LifecycleConfiguration''"
  by (simp_all add: tag_name_def is_alphanumeric_def is_digit_def is_lower_def is_upper_def)

lemma plain_optionD: "plain_option v \<Longrightarrow> v = Some s \<Longrightarrow> plain_text s"
  by (simp add: plain_option_def)

lemma plain_rule_trees: "plain_rule r \<Longrightarrow> plain_trees (rule_trees r)"
  unfolding rule_trees_def filter_trees_def expiration_trees_def noncurrent_trees_def transition_trees_def tag_trees_def
  by (auto simp: lifecycle_names plain_trees_concat show_nat_plain show_bool_plain storage_class_plain constant_plain
      plain_rule_def list_all_iff dest: plain_optionD)

lemma plain_lifecycle_tree: "plain_lifecycle c \<Longrightarrow> plain_tree (lifecycle_tree c)"
  using spaces_plain(2)
  by (auto simp: lifecycle_tree_def lifecycle_names plain_trees_concat plain_lifecycle_def list_all_iff plain_rule_trees)

section \<open>Reading the document back\<close>

lemma events_indented [simp]: "trees_events (indented n t) = tree_events t"
  by (simp add: indented_def)

lemma events_block [simp]:
  "trees_events (block n name ts) = StartTag name name [] # trees_events ts @ [EndTag name name]"
  by (simp add: block_def)

text \<open>The state of the parser between two elements.\<close>

definition between ::
    "rule list \<Rightarrow> rule option \<Rightarrow> lifecycle_filter option \<Rightarrow> expiration option \<Rightarrow>
     noncurrent_version_expiration option \<Rightarrow> transition option \<Rightarrow> lifecycle_parse_state" where
  "between rs r f e n t =
     \<lparr>ls_rules = rs, ls_rule = r, ls_filter = f, ls_expiration = e, ls_noncurrent = n, ls_transition = t,
      ls_tag = None, ls_text = []\<rparr>"

lemmas ls_defs =
  between_def ls_start_def ls_end_def end_rule_field_def end_filter_field_def end_action_field_def close_element_def
  finish_tag_def set_days_def set_date_def set_noncurrent_days_def set_expired_marker_def set_storage_class_def
  finish_noncurrent_expiration_def finish_transition_def ls_new_rule_def ls_new_expiration_def ls_new_transition_def

lemma unescape_plain: "reads_trees L \<Longrightarrow> plain_text s \<Longrightarrow> xl_unescape L s = Ok s"
  by (auto simp: reads_trees_def plain_text_def special_chars_def)

lemma run_leaf:
  assumes "reads_trees L" "plain_text s"
  shows "event_loop (lifecycle_event L) st (tree_events (Leaf n s)) = Ok (ls_end n ((ls_start n st)\<lparr>ls_text := s\<rparr>))"
proof -
  have "ls_start n st = (ls_start n st)\<lparr>ls_text := []\<rparr>" by (simp add: ls_start_def)
  then show ?thesis using unescape_plain [OF assms] by (cases "s = []") simp_all
qed

lemma run_tag:
  assumes "reads_trees L" "plain_text (tag_key t)" "plain_text (tag_value t)"
  shows "event_loop (lifecycle_event L) (between rs r (Some f) e n tr) (trees_events (tag_trees t)) =
     Ok (between rs r (Some (f\<lparr>filter_tags := filter_tags f @ [t]\<rparr>)) e n tr)"
  using assms by (cases r) (simp_all add: tag_trees_def event_loop_append run_leaf ls_defs del: tree_events.simps)

lemma run_tags:
  assumes "reads_trees L" "list_all (\<lambda>t. plain_text (tag_key t) \<and> plain_text (tag_value t)) ts"
  shows "event_loop (lifecycle_event L) (between rs r (Some f) e n tr) (concat (map (\<lambda>t. trees_events (tag_trees t)) ts)) =
     Ok (between rs r (Some (f\<lparr>filter_tags := filter_tags f @ ts\<rparr>)) e n tr)"
  using assms(2)
proof (induction ts arbitrary: f)
  case (Cons t ts)
  then show ?case using run_tag [OF assms(1), of t] by (simp add: event_loop_append)
qed simp

lemma run_filter:
  assumes "reads_trees L" "plain_option (filter_prefix f)"
    and "list_all (\<lambda>t. plain_text (tag_key t) \<and> plain_text (tag_value t)) (filter_tags f)"
  shows "event_loop (lifecycle_event L) (between rs (Some r) None e n tr) (trees_events (filter_trees f)) =
     Ok (between rs (Some (r\<lparr>rule_filter := Some f\<rparr>)) None e n tr)"
proof -
  have tags: "event_loop (lifecycle_event L) (between rs (Some r) (Some \<lparr>filter_prefix = p, filter_tags = []\<rparr>) e n tr)
      (concat (map (\<lambda>t. trees_events (tag_trees t)) (filter_tags f))) =
      Ok (between rs (Some r) (Some \<lparr>filter_prefix = p, filter_tags = filter_tags f\<rparr>) e n tr)" for p
    using run_tags [OF assms(1,3), where f = "\<lparr>filter_prefix = p, filter_tags = []\<rparr>"] by simp
  have start: "ls_start ''Filter'' (between rs (Some r) None e n tr) =
      between rs (Some r) (Some \<lparr>filter_prefix = None, filter_tags = []\<rparr>) e n tr"
    by (simp add: ls_defs)
  have fin: "ls_end ''Filter'' (between rs (Some r) (Some f) e n tr) =
      between rs (Some (r\<lparr>rule_filter := Some f\<rparr>)) None e n tr"
    by (simp add: ls_defs)
  have pre: "ls_end ''Prefix'' ((ls_start ''Prefix'' (between rs (Some r) (Some \<lparr>filter_prefix = None, filter_tags = []\<rparr>) e n tr))\<lparr>ls_text := p\<rparr>) =
      between rs (Some r) (Some \<lparr>filter_prefix = Some p, filter_tags = []\<rparr>) e n tr" for p
    by (simp add: ls_defs)
  show ?thesis
  proof (cases "filter_prefix f")
    case None
    then have "f = \<lparr>filter_prefix = None, filter_tags = filter_tags f\<rparr>" by simp
    with None tags [of None] start fin show ?thesis
      by (simp add: filter_trees_def optional_trees_def event_loop_append trees_events_concat o_def del: tree_events.simps)
  next
    case (Some p)
    then have "f = \<lparr>filter_prefix = Some p, filter_tags = filter_tags f\<rparr>" by simp
    with Some assms(1,2) tags [of "Some p"] start fin show ?thesis
      by (simp add: filter_trees_def optional_trees_def event_loop_append trees_events_concat o_def run_leaf pre
          plain_option_def del: tree_events.simps)
  qed
qed

lemma parse_show_u32: "n < 2 ^ 32 \<Longrightarrow> parse_u32 (show_nat n) = Some n"
  by (simp add: parse_u32_def parse_show_nat)

lemma run_days:
  assumes "reads_trees L" "days_option d"
  shows "event_loop (lifecycle_event L) (between rs r f (Some e) n tr)
      (trees_events (optional_trees d (\<lambda>d. indented 6 (Leaf ''Days'' (show_nat d))))) =
     Ok (between rs r f (Some (case d of Some x \<Rightarrow> e\<lparr>exp_days := Some x\<rparr> | None \<Rightarrow> e)) n tr)"
    "event_loop (lifecycle_event L) (between rs r f None n (Some t))
      (trees_events (optional_trees d (\<lambda>d. indented 6 (Leaf ''Days'' (show_nat d))))) =
     Ok (between rs r f None n (Some (case d of Some x \<Rightarrow> t\<lparr>tr_days := Some x\<rparr> | None \<Rightarrow> t)))"
  using assms
  by (cases r; cases d; simp add: optional_trees_def run_leaf show_nat_plain ls_defs days_option_def parse_show_u32
      del: tree_events.simps)+

lemma run_date:
  assumes "reads_trees L" "plain_option d"
  shows "event_loop (lifecycle_event L) (between rs r f (Some e) n tr)
      (trees_events (optional_trees d (\<lambda>d. indented 6 (Leaf ''Date'' d)))) =
     Ok (between rs r f (Some (case d of Some x \<Rightarrow> e\<lparr>exp_date := Some x\<rparr> | None \<Rightarrow> e)) n tr)"
    "event_loop (lifecycle_event L) (between rs r f None n (Some t))
      (trees_events (optional_trees d (\<lambda>d. indented 6 (Leaf ''Date'' d)))) =
     Ok (between rs r f None n (Some (case d of Some x \<Rightarrow> t\<lparr>tr_date := Some x\<rparr> | None \<Rightarrow> t)))"
  using assms
  by (cases r; cases d; simp add: optional_trees_def run_leaf ls_defs plain_option_def del: tree_events.simps)+

lemma run_marker:
  assumes "reads_trees L"
  shows "event_loop (lifecycle_event L) (between rs r f (Some e) n tr)
      (trees_events (optional_trees m (\<lambda>m. indented 6 (Leaf ''ExpiredObjectDeleteMarker'' (show_bool m))))) =
     Ok (between rs r f (Some (case m of Some x \<Rightarrow> e\<lparr>exp_delete_marker := Some x\<rparr> | None \<Rightarrow> e)) n tr)"
  using assms
  by (cases r; cases m; simp add: optional_trees_def run_leaf show_bool_plain ls_defs del: tree_events.simps)
    (simp_all add: show_bool_def)

lemma run_expiration:
  assumes "reads_trees L" "days_option (exp_days x)" "plain_option (exp_date x)"
  shows "event_loop (lifecycle_event L) (between rs (Some r) None None n tr) (trees_events (expiration_trees x)) =
     Ok (between rs (Some (r\<lparr>rule_expiration := Some x\<rparr>)) None None n tr)"
proof -
  have start: "ls_start ''Expiration'' (between rs (Some r) None None n tr) = between rs (Some r) None (Some ls_new_expiration) n tr"
    by (simp add: ls_defs)
  have fin: "ls_end ''Expiration'' (between rs (Some r) None (Some x) n tr) =
      between rs (Some (r\<lparr>rule_expiration := Some x\<rparr>)) None None n tr" for x
    by (simp add: ls_defs)
  have eq: "(case exp_delete_marker x of Some z \<Rightarrow>
        (case exp_date x of Some y \<Rightarrow> (case exp_days x of Some d \<Rightarrow> ls_new_expiration\<lparr>exp_days := Some d\<rparr> | None \<Rightarrow> ls_new_expiration)\<lparr>exp_date := Some y\<rparr>
         | None \<Rightarrow> (case exp_days x of Some d \<Rightarrow> ls_new_expiration\<lparr>exp_days := Some d\<rparr> | None \<Rightarrow> ls_new_expiration))\<lparr>exp_delete_marker := Some z\<rparr>
      | None \<Rightarrow> (case exp_date x of Some y \<Rightarrow> (case exp_days x of Some d \<Rightarrow> ls_new_expiration\<lparr>exp_days := Some d\<rparr> | None \<Rightarrow> ls_new_expiration)\<lparr>exp_date := Some y\<rparr>
         | None \<Rightarrow> (case exp_days x of Some d \<Rightarrow> ls_new_expiration\<lparr>exp_days := Some d\<rparr> | None \<Rightarrow> ls_new_expiration))) = x"
    by (cases x; cases "exp_days x"; cases "exp_date x"; cases "exp_delete_marker x") (simp_all add: ls_new_expiration_def)
  show ?thesis
    by (simp add: expiration_trees_def event_loop_append start fin run_days [OF assms(1,2)] run_date [OF assms(1,3)]
        run_marker [OF assms(1)] eq)
qed

lemma run_noncurrent:
  assumes "reads_trees L" "noncurrent_days x < 2 ^ 32"
  shows "event_loop (lifecycle_event L) (between rs (Some r) None None None tr) (trees_events (noncurrent_trees x)) =
     Ok (between rs (Some (r\<lparr>rule_noncurrent := Some x\<rparr>)) None None None tr)"
  using assms
  by (simp add: noncurrent_trees_def event_loop_append run_leaf show_nat_plain ls_defs parse_show_u32 del: tree_events.simps)

lemma run_transition:
  assumes "reads_trees L" "days_option (tr_days x)" "plain_option (tr_date x)"
  shows "event_loop (lifecycle_event L) (between rs (Some r) None None None None) (trees_events (transition_trees x)) =
     Ok (between rs (Some (r\<lparr>rule_transitions := rule_transitions r @ [x]\<rparr>)) None None None None)"
proof -
  have start: "ls_start ''Transition'' (between rs (Some r) None None None None) =
      between rs (Some r) None None None (Some ls_new_transition)"
    by (simp add: ls_defs)
  have fin: "ls_end ''Transition'' (between rs (Some r) None None None (Some x)) =
      between rs (Some (r\<lparr>rule_transitions := rule_transitions r @ [x]\<rparr>)) None None None None" for x
    by (simp add: ls_defs)
  have cls: "event_loop (lifecycle_event L) (between rs (Some r) None None None (Some t))
      (tree_events (Leaf ''StorageClass'' (storage_class_xml c))) =
      Ok (between rs (Some r) None None None (Some (t\<lparr>tr_storage_class := c\<rparr>)))" for t c
    by (cases c) (simp_all add: run_leaf [OF assms(1)] constant_plain ls_defs del: tree_events.simps)
  have eq: "(case tr_date x of Some y \<Rightarrow> (case tr_days x of Some d \<Rightarrow> ls_new_transition\<lparr>tr_days := Some d\<rparr> | None \<Rightarrow> ls_new_transition)\<lparr>tr_date := Some y\<rparr>
      | None \<Rightarrow> (case tr_days x of Some d \<Rightarrow> ls_new_transition\<lparr>tr_days := Some d\<rparr> | None \<Rightarrow> ls_new_transition))
      \<lparr>tr_storage_class := tr_storage_class x\<rparr> = x"
    by (cases x; cases "tr_days x"; cases "tr_date x") (simp_all add: ls_new_transition_def)
  show ?thesis
    by (simp add: transition_trees_def event_loop_append start fin run_days [OF assms(1,2)] run_date [OF assms(1,3)]
        cls eq del: tree_events.simps)
qed

lemma run_transitions:
  assumes "reads_trees L" "list_all (\<lambda>t. days_option (tr_days t) \<and> plain_option (tr_date t)) ts"
  shows "event_loop (lifecycle_event L) (between rs (Some r) None None None None)
      (concat (map (\<lambda>t. trees_events (transition_trees t)) ts)) =
     Ok (between rs (Some (r\<lparr>rule_transitions := rule_transitions r @ ts\<rparr>)) None None None None)"
  using assms(2)
proof (induction ts arbitrary: r)
  case (Cons t ts)
  then show ?case using run_transition [OF assms(1), of t] by (simp add: event_loop_append)
qed simp

lemma run_rule:
  assumes L: "reads_trees L" and r: "plain_rule r"
  shows "event_loop (lifecycle_event L) (between rs None None None None None) (trees_events (rule_trees r)) =
     Ok (between (rs @ [r]) None None None None None)"
proof -
  let ?run = "event_loop (lifecycle_event L)"
  let ?st = "\<lambda>q. between rs (Some q) None None None None"
  let ?with = "\<lambda>v upd q. case v of Some a \<Rightarrow> upd a q | None \<Rightarrow> (q :: rule)"
  have start: "ls_start ''Rule'' (between rs None None None None None) = ?st ls_new_rule"
    by (simp add: ls_defs)
  have fin: "ls_end ''Rule'' (?st q) = between (rs @ [q]) None None None None None" for q
    by (simp add: ls_defs)
  have ident: "?run (?st q) (trees_events (optional_trees (rule_id r) (\<lambda>i. indented 4 (Leaf ''ID'' i)))) =
      Ok (?st (?with (rule_id r) (\<lambda>i q. q\<lparr>rule_id := Some i\<rparr>) q))" for q
    using r run_leaf [OF L, of _ _ "''ID''"]
    by (cases "rule_id r") (simp_all add: optional_trees_def plain_rule_def plain_option_def ls_defs del: tree_events.simps)
  have status: "?run (?st q) (tree_events (Leaf ''Status'' (if rule_status r = Enabled then ''Enabled'' else ''Disabled''))) =
      Ok (?st (q\<lparr>rule_status := rule_status r\<rparr>))" for q
    by (cases "rule_status r") (simp_all add: run_leaf [OF L] constant_plain ls_defs del: tree_events.simps)
  have filt: "?run (?st q) (trees_events (optional_trees (rule_filter r) filter_trees)) =
      Ok (?st (?with (rule_filter r) (\<lambda>f q. q\<lparr>rule_filter := Some f\<rparr>) q))" for q
    using r run_filter [OF L] by (cases "rule_filter r") (simp_all add: optional_trees_def plain_rule_def)
  have expi: "?run (?st q) (trees_events (optional_trees (rule_expiration r) expiration_trees)) =
      Ok (?st (?with (rule_expiration r) (\<lambda>e q. q\<lparr>rule_expiration := Some e\<rparr>) q))" for q
    using r run_expiration [OF L] by (cases "rule_expiration r") (simp_all add: optional_trees_def plain_rule_def)
  have nonc: "?run (?st q) (trees_events (optional_trees (rule_noncurrent r) noncurrent_trees)) =
      Ok (?st (?with (rule_noncurrent r) (\<lambda>n q. q\<lparr>rule_noncurrent := Some n\<rparr>) q))" for q
    using r run_noncurrent [OF L] by (cases "rule_noncurrent r") (simp_all add: optional_trees_def plain_rule_def)
  have trans: "?run (?st q) (trees_events (concat (map transition_trees (rule_transitions r)))) =
      Ok (?st (q\<lparr>rule_transitions := rule_transitions q @ rule_transitions r\<rparr>))" for q
    using r run_transitions [OF L] by (simp add: plain_rule_def trees_events_concat o_def)
  have built: "?run (between rs None None None None None) (trees_events (rule_trees r)) =
      Ok (between (rs @ [let q = ?with (rule_noncurrent r) (\<lambda>n q. q\<lparr>rule_noncurrent := Some n\<rparr>)
             (?with (rule_expiration r) (\<lambda>e q. q\<lparr>rule_expiration := Some e\<rparr>)
             (?with (rule_filter r) (\<lambda>f q. q\<lparr>rule_filter := Some f\<rparr>)
             ((?with (rule_id r) (\<lambda>i q. q\<lparr>rule_id := Some i\<rparr>) ls_new_rule)\<lparr>rule_status := rule_status r\<rparr>)))
           in q\<lparr>rule_transitions := rule_transitions q @ rule_transitions r\<rparr>]) None None None None None)"
    by (simp add: rule_trees_def event_loop_append start fin ident status filt expi nonc trans Let_def
        del: tree_events.simps)
  have "(let q = ?with (rule_noncurrent r) (\<lambda>n q. q\<lparr>rule_noncurrent := Some n\<rparr>)
             (?with (rule_expiration r) (\<lambda>e q. q\<lparr>rule_expiration := Some e\<rparr>)
             (?with (rule_filter r) (\<lambda>f q. q\<lparr>rule_filter := Some f\<rparr>)
             ((?with (rule_id r) (\<lambda>i q. q\<lparr>rule_id := Some i\<rparr>) ls_new_rule)\<lparr>rule_status := rule_status r\<rparr>)))
           in q\<lparr>rule_transitions := rule_transitions q @ rule_transitions r\<rparr>) = r"
    by (cases "rule_id r"; cases "rule_filter r"; cases "rule_expiration r"; cases "rule_noncurrent r")
      (simp_all add: Let_def ls_new_rule_def)
  with built show ?thesis by simp
qed

lemma run_rules:
  assumes "reads_trees L" "list_all plain_rule qs"
  shows "event_loop (lifecycle_event L) (between rs None None None None None)
      (concat (map (\<lambda>r. trees_events (rule_trees r)) qs)) = Ok (between (rs @ qs) None None None None None)"
  using assms(2)
proof (induction qs arbitrary: rs)
  case (Cons q qs)
  then show ?case using run_rule [OF assms(1), of q] by (simp add: event_loop_append)
qed simp

lemma ls_rules_between: "ls_rules (between rs r f e n t) = rs"
  by (simp add: between_def)

lemma lifecycle_read_back:
  assumes L: "reads_trees L" and c: "plain_lifecycle c"
  shows "parse_lifecycle_xml L (lifecycle_xml c) = Ok c"
proof -
  have ev: "xl_events L True (lifecycle_xml c) = DeclMark # tree_events (lifecycle_tree c)"
    using L plain_lifecycle_tree [OF c] by (simp add: reads_trees_def print_lifecycle_tree [OF c])
  have start: "ls_start ''LifecycleConfiguration'' ls_initial = between [] None None None None None"
    by (simp add: ls_start_def ls_initial_def between_def)
  have fin: "ls_end ''LifecycleConfiguration'' (between qs None None None None None) = between qs None None None None None" for qs
    by (simp add: ls_defs)
  show ?thesis
    using c run_rules [OF L, of "rules c" "[]"]
    by (simp add: parse_lifecycle_xml_def ev lifecycle_tree_def event_loop_append start fin trees_events_concat o_def
        plain_lifecycle_def ls_rules_between)
qed

section \<open>A reader\<close>

function sample_read :: "string \<Rightarrow> xml_event list" where
  "sample_read [] = []"
| "sample_read (c # s) =
     (if c = CHR ''<'' then
        (let name = takeWhile (\<lambda>d. d \<noteq> CHR ''>'') s; rest = drop (Suc (length name)) s
         in (if take 1 name = ''?'' then DeclMark
             else if take 1 name = ''/'' then EndTag (drop 1 name) (drop 1 name)
             else StartTag name name []) # sample_read rest)
      else if xml_space c then sample_read s
      else
        CharText (c # rev (dropWhile xml_space (rev (takeWhile (\<lambda>d. d \<noteq> CHR ''<'') s))))
        # sample_read (dropWhile (\<lambda>d. d \<noteq> CHR ''<'') s))"
  by pat_completeness auto
termination
  by (relation "measure length") (auto simp: le_imp_less_Suc length_dropWhile_le)

declare sample_read.simps(2) [simp del]

definition sample_xml :: xml_lib where
  "sample_xml =
     \<lparr>xl_events = (\<lambda>trim text. sample_read text), xl_unescape = Ok, xl_rfc3339 = (\<lambda>t. []), xl_millis = (\<lambda>t. []),
      xl_url_encode = (\<lambda>s. s)\<rparr>"

lemma sample_read_tag:
  assumes "CHR ''>'' \<notin> set n"
  shows "sample_read (CHR ''<'' # n @ CHR ''>'' # rest) =
     (if take 1 n = ''?'' then DeclMark
      else if take 1 n = ''/'' then EndTag (drop 1 n) (drop 1 n)
      else StartTag n n []) # sample_read rest"
proof -
  have "takeWhile (\<lambda>d. d \<noteq> CHR ''>'') (n @ CHR ''>'' # rest) = n"
    using assms by (induction n) auto
  then show ?thesis by (simp add: sample_read.simps(2) Let_def)
qed

lemma tag_name_chars:
  assumes "tag_name n"
  shows "CHR ''>'' \<notin> set n \<and> take 1 n \<noteq> ''?'' \<and> take 1 n \<noteq> ''/''"
proof -
  have "\<not> is_alphanumeric (CHR ''>'')" "\<not> is_alphanumeric (CHR ''?'')" "\<not> is_alphanumeric (CHR ''/'')"
    by (simp_all add: is_alphanumeric_def is_digit_def is_lower_def is_upper_def)
  with assms show ?thesis by (cases n) (auto simp: tag_name_def list_all_iff)
qed

lemma sample_read_open: "tag_name n \<Longrightarrow> sample_read (open_tag n @ rest) = StartTag n n [] # sample_read rest"
  using tag_name_chars [of n] sample_read_tag [of n rest] by (simp add: open_tag_def)

lemma sample_read_close: "tag_name n \<Longrightarrow> sample_read (close_tag n @ rest) = EndTag n n # sample_read rest"
  using tag_name_chars [of n] sample_read_tag [of "CHR ''/'' # n" rest] by (simp add: close_tag_def)

lemma sample_read_space: "list_all xml_space w \<Longrightarrow> sample_read (w @ rest) = sample_read rest"
proof (induction w)
  case (Cons c w)
  moreover from Cons have "c \<noteq> CHR ''<''" by (auto simp: xml_space_def)
  ultimately show ?case by (simp add: sample_read.simps(2))
qed simp

lemma sample_read_text:
  assumes "plain_text s" "s \<noteq> []"
  shows "sample_read (s @ CHR ''<'' # rest) = CharText s # sample_read (CHR ''<'' # rest)"
proof -
  obtain c t where s: "s = c # t" using assms(2) by (cases s) auto
  have free: "CHR ''<'' \<notin> set s" using assms(1) by (auto simp: plain_text_def special_chars_def)
  then have tw: "takeWhile (\<lambda>d. d \<noteq> CHR ''<'') (t @ CHR ''<'' # rest) = t"
      "dropWhile (\<lambda>d. d \<noteq> CHR ''<'') (t @ CHR ''<'' # rest) = CHR ''<'' # rest"
    by (auto simp: s takeWhile_append dropWhile_append)
  have "rev (dropWhile xml_space (rev t)) = t"
  proof (cases t rule: rev_cases)
    case (snoc u d)
    then have "\<not> xml_space d" using assms by (simp add: plain_text_def s)
    with snoc show ?thesis by simp
  qed simp
  moreover have "\<not> xml_space c" "c \<noteq> CHR ''<''" using assms free by (auto simp: plain_text_def s)
  ultimately show ?thesis by (simp add: s sample_read.simps(2) tw)
qed

lemma sample_read_tree:
  "plain_tree t \<Longrightarrow> sample_read (print_tree t @ rest) = tree_events t @ sample_read rest"
  "plain_trees ts \<Longrightarrow> sample_read (print_trees ts @ rest) = trees_events ts @ sample_read rest"
proof (induction t and ts arbitrary: rest and rest rule: print_tree_print_trees.induct)
  case (2 n s)
  have "sample_read (s @ close_tag n @ rest) = (if s = [] then [] else [CharText s]) @ sample_read (close_tag n @ rest)"
    using 2 sample_read_text [of s "CHR ''/'' # n @ ''>'' @ rest"] by (auto simp: close_tag_def)
  then show ?case using 2 by (simp add: element_def sample_read_open sample_read_close)
qed (simp_all add: sample_read_open sample_read_close sample_read_space)

lemma sample_reads_trees: "reads_trees sample_xml"
proof -
  have "sample_read (written xml_declaration @ r) = DeclMark # sample_read r" for r
  proof -
    let ?n = "''?xml version='' @ quoted ''1.0'' @ '' encoding='' @ quoted ''UTF-8'' @ ''?''"
    have "sample_read (CHR ''<'' # ?n @ CHR ''>'' # [CHR 0x0A] @ r) = DeclMark # sample_read ([CHR 0x0A] @ r)"
      by (subst sample_read_tag) (simp_all add: quoted_def)
    moreover have "sample_read ([CHR 0x0A] @ r) = sample_read r"
      by (rule sample_read_space) (simp add: xml_space_def)
    ultimately show ?thesis by (simp add: written_def xml_declaration_def)
  qed
  then show ?thesis
    using sample_read_tree(1) [where rest = "[]"] by (simp add: reads_trees_def sample_xml_def)
qed

section \<open>The properties\<close>


definition sample_lifecycle :: lifecycle_configuration where
  "sample_lifecycle =
     \<lparr>rules = [\<lparr>rule_id = Some ''logs'', rule_status = Enabled,
        rule_filter = Some \<lparr>filter_prefix = Some ''a/'', filter_tags = [\<lparr>tag_key = ''k'', tag_value = ''v''\<rparr>]\<rparr>,
        rule_expiration = Some \<lparr>exp_days = Some 30, exp_date = None, exp_delete_marker = Some True\<rparr>,
        rule_noncurrent = Some \<lparr>noncurrent_days = 7\<rparr>,
        rule_transitions = [\<lparr>tr_days = Some 3, tr_date = None, tr_storage_class = Glacier\<rparr>]\<rparr>]\<rparr>"

lemma sample_lifecycle_plain: "plain_lifecycle sample_lifecycle"
  by (simp add: sample_lifecycle_def plain_lifecycle_def plain_rule_def plain_option_def days_option_def plain_text_def
      special_chars_def xml_space_def)


text \<open>
  Text that does need escaping does not survive. The reader reports a reference as an event of its
  own between two pieces of text; the lifecycle parser keeps the last piece only, and the tagging
  parser takes the second piece of a value for a value without a key.
\<close>

lemma lifecycle_reference_drops_text:
  assumes "xl_unescape L a = Ok a" "xl_unescape L b = Ok b" "ls_filter st = Some f"
  shows "\<exists>st' f'. event_loop (lifecycle_event L) st
      [StartTag ''Prefix'' ''Prefix'' [], CharText a, GeneralRef r, CharText b, EndTag ''Prefix'' ''Prefix''] = Ok st' \<and>
      ls_filter st' = Some f' \<and> filter_prefix f' = Some b"
  using assms by (cases "ls_rule st") (simp_all add: ls_defs)

lemma tagging_reference_rejected:
  assumes "xl_unescape L a = Ok a" "xl_unescape L b = Ok b" "\<not> ts_in_key st" "ts_current_key st = Some k"
  shows "event_loop (tagging_event L) st
      [StartTag ''Value'' ''Value'' [], CharText a, GeneralRef r, CharText b, EndTag ''Value'' ''Value''] =
      Err ''InvalidTagKey''"
  using assms by (simp add: set_tag_flag_def)

end
