(* ===== verification/S3_Correct.thy ===== *)
theory S3_Correct
  imports S3_Buckets Admin_Correct Auth_Correct Xml_Correct
begin

text \<open>
  Properties of the S3 interface: a locked object survives every S3 request that would replace or
  delete it, what a PUT stores a GET returns, the bound on what a read materialises, the parser of
  multi-object deletions, continuation tokens and routes.
\<close>

section \<open>Reads\<close>

text \<open>\<open>safe m s\<close>: the run does not stop half way and disturbs no object, version or document.\<close>

definition safe :: "'a io \<Rightarrow> world \<Rightarrow> bool" where
  "safe m s \<longleftrightarrow> (\<exists>r s1. m s = (r, s1) \<and> r \<noteq> Halted \<and> undisturbed s s1)"

text \<open>A store at rest in which the documents of a bucket can be read.\<close>

definition at_rest_with :: "string \<Rightarrow> strmap \<Rightarrow> world \<Rightarrow> bool" where
  "at_rest_with b md s \<longleftrightarrow> store_ok s \<and> faults s = [] \<and> bucket_readable s b md"

definition quiet :: "string \<Rightarrow> strmap \<Rightarrow> 'a io \<Rightarrow> bool" where
  "quiet b md m \<longleftrightarrow> (\<forall>s. at_rest_with b md s \<longrightarrow> safe m s)"

named_theorems quiet_rules

lemma control_file_undisturbed:
  "undisturbed s s1 \<Longrightarrow> fs_get s1 (bucket_dir s b @ [CHR ''.'' # m]) = fs_get s (bucket_dir s b @ [CHR ''.'' # m])"
  using control_outside [of s _ _ b m] by (simp add: undisturbed_def control_same_def)

lemma readable_undisturbed:
  assumes "undisturbed s s1" and "bucket_readable s b md"
  shows "bucket_readable s1 b md"
proof -
  have "bucket_dir s1 b = bucket_dir s b" using assms(1) bucket_dir_rest by (simp add: undisturbed_def control_same_def)
  with assms(2) control_file_undisturbed [OF assms(1), of b] undisturbed_facts(7) [OF assms(1), of b]
  show ?thesis by (auto simp: bucket_readable_def bucket_metadata_path_def file_content_def path_exists_def split: if_splits)
qed

lemma rest_undisturbed: "at_rest_with b md s \<Longrightarrow> undisturbed s s1 \<Longrightarrow> at_rest_with b md s1"
  using undisturbed_facts(1,2) readable_undisturbed by (auto simp: at_rest_with_def)

lemma rest_refl: "at_rest_with b md s \<Longrightarrow> undisturbed s s"
  using undisturbed_refl by (simp add: at_rest_with_def)

lemma rest_tick: "at_rest_with b md s \<Longrightarrow> undisturbed s (tick n s)"
  using undisturbed_tick by (simp add: at_rest_with_def)

lemma safe_bind:
  assumes "safe m s" and "\<And>a s1. m s = (Done a, s1) \<Longrightarrow> undisturbed s s1 \<Longrightarrow> safe (f a) s1"
  shows "safe (bind_io m f) s"
proof -
  obtain r s1 where m: "m s = (r, s1)" "r \<noteq> Halted" "undisturbed s s1" using assms(1) by (auto simp: safe_def)
  show ?thesis
  proof (cases r)
    case (Done a)
    with assms(2) m obtain r2 s2 where "f a s1 = (r2, s2)" "r2 \<noteq> Halted" "undisturbed s1 s2" by (auto simp: safe_def)
    with m Done undisturbed_trans show ?thesis by (force simp: safe_def bind_io_def)
  qed (use m in \<open>auto simp: safe_def bind_io_def\<close>)
qed

lemma quiet_bind [quiet_rules]: "quiet b md m \<Longrightarrow> (\<And>a. quiet b md (f a)) \<Longrightarrow> quiet b md (bind_io m f)"
  unfolding quiet_def using rest_undisturbed by (blast intro: safe_bind)

lemma quiet_return [quiet_rules]: "quiet b md (return a)" "quiet b md (throw e)" "quiet b md (gets g)" "quiet b md now_io"
  "quiet b md (guard_io c e)" "quiet b md (read_file p msg)"
  using rest_refl rest_tick [of b md _ 1]
  by (auto simp: quiet_def safe_def return_def throw_def gets_def now_io_def guard_io_def read_file_def split: option.split)

lemma quiet_try [quiet_rules]:
  assumes "quiet b md m"
  shows "quiet b md (try_io m)"
  unfolding quiet_def
proof (intro allI impI)
  fix s assume "at_rest_with b md s"
  with assms obtain r s1 where "m s = (r, s1)" "r \<noteq> Halted" "undisturbed s s1" by (auto simp: quiet_def safe_def)
  then show "safe (try_io m) s" by (cases r) (auto simp: safe_def try_io_def)
qed

lemma quiet_collect [quiet_rules]: "(\<And>a. quiet b md (f a)) \<Longrightarrow> quiet b md (collect_io xs f)"
  by (induction xs) (auto intro: quiet_rules)

lemma quiet_cases [quiet_rules]:
  "(\<And>a. quiet b md (f a)) \<Longrightarrow> (\<And>e. quiet b md (g e)) \<Longrightarrow> quiet b md (case r of Ok a \<Rightarrow> f a | Err e \<Rightarrow> g e)"
  "quiet b md n \<Longrightarrow> (\<And>a. quiet b md (h a)) \<Longrightarrow> quiet b md (case q of None \<Rightarrow> n | Some a \<Rightarrow> h a)"
  by (auto split: result.split option.split)

lemma quiet_if [quiet_rules]: "quiet b md m \<Longrightarrow> quiet b md m' \<Longrightarrow> quiet b md (if c then m else m')"
  by simp

lemma quiet_run:
  assumes "\<And>s. store_ok s \<Longrightarrow> faults s = [] \<Longrightarrow> \<exists>r s1. m s = (r, s1) \<and> r \<noteq> Halted \<and> undisturbed s s1"
  shows "quiet b md m"
  using assms by (simp add: quiet_def safe_def at_rest_with_def)

lemma read_outcome_done: "read_outcome x \<noteq> Halted"
  by (cases x) simp_all

lemma quiet_read_metadata [quiet_rules]: "quiet b md (read_object_metadata_locked b' k)"
  by (rule quiet_run) (metis read_metadata_spec read_outcome_done)

lemma quiet_metadata [quiet_rules]: "quiet b md (get_object_metadata b' k)"
  unfolding get_object_metadata_def by (rule quiet_rules)

lemma quiet_tags_acl [quiet_rules]: "quiet b md (get_object_tags b' k)" "quiet b md (get_object_acl b' k)"
  unfolding get_object_tags_def get_object_acl_def by (intro quiet_rules)+

text \<open>The bucket as it is read.\<close>

lemma get_bucket_run:
  assumes "bucket_readable s b md"
  obtains rec where "get_bucket b s = (Done rec, tick 1 s)" "versioning_enabled rec = is_versioning_enabled s b" "bucket_metadata rec = md"
proof -
  have md: "read_bucket_metadata b (tick 1 s) = (Done md, tick 1 s)"
    using assms by (auto simp: bucket_readable_def read_bucket_metadata_def bucket_metadata_path_def bucket_dir_def bind_io_def gets_def
        return_def read_file_def file_content_def path_exists_def split: if_splits)
  have en: "is_versioning_enabled (tick 1 s) b = is_versioning_enabled s b"
    by (simp add: is_versioning_enabled_def versioning_marker_def bucket_dir_def path_exists_def file_content_def)
  obtain identity where "read_bucket_identity_locked b s = (Done identity, s)"
    using assms by (auto simp: bucket_readable_def read_bucket_identity_locked_def bind_io_def gets_def return_def read_file_def file_content_exists)
  then show ?thesis
    using assms md en by (intro that) (auto simp: bucket_readable_def get_bucket_def require_bucket_def bind_io_def gets_def guard_io_def
        return_def now_io_def)
qed

lemma quiet_get_bucket [quiet_rules]: "quiet b md (get_bucket b)"
  unfolding quiet_def safe_def at_rest_with_def
  by (metis get_bucket_run undisturbed_tick outcome.distinct(3))

lemma quiet_bucket_documents [quiet_rules]:
  "quiet b md (require_bucket b')" "quiet b md (get_bucket_policy b')" "quiet b md (get_bucket_acl b')" "quiet b md (get_bucket_lifecycle b')"
  unfolding require_bucket_def get_bucket_policy_def get_bucket_acl_def get_bucket_lifecycle_def
  by (intro quiet_rules | simp add: quiet_rules split: content.split)+

lemma quiet_of_result [quiet_rules]: "quiet b md (of_result r)"
  unfolding of_result_def by (intro quiet_rules)

lemma quiet_read_listed [quiet_rules]: "quiet b md (read_listed b' ks)"
  unfolding read_listed_def by (intro quiet_rules)

lemma quiet_list_objects [quiet_rules]: "quiet b md (list_objects b' pfx delim marker n)"
  unfolding list_objects_def list_objects_with_delimiter_def Let_def by (intro quiet_rules)

lemma quiet_protection_scan [quiet_rules]: "quiet b md (protection_scan fuel b' now marker)"
  by (induction fuel arbitrary: marker) (auto intro!: quiet_rules)

lemma quiet_foreign [quiet_rules]: "quiet b md (foreign_conflict L b)"
  unfolding foreign_conflict_def s3_foreign_history_conflict_def foreign_data_protection_mode_active_def azure_object_protection_active_def
  by (intro quiet_rules)

lemma quiet_check_authorization [quiet_rules]: "quiet b md (check_authorization S now req cfg b' key act)"
  unfolding check_authorization_def Let_def by (intro quiet_rules)

lemma quiet_guards [quiet_rules]:
  "quiet b md (authorize L cfg req b' key act)" "quiet b md (check_presigned L cfg req b' k)"
  "quiet b md (object_bucket_error_response L b head)" "quiet b md (validate_object_lock_put_request L b req)"
  unfolding authorize_def check_presigned_def object_bucket_error_response_def validate_object_lock_put_request_def Let_def
  by (intro quiet_rules)+

lemma quiet_cors [quiet_rules]: "quiet b md (apply_actual_request_headers L b req resp)"
  unfolding apply_actual_request_headers_def matching_rule_def load_rules_def by (intro quiet_rules)

lemma quietD: "quiet b md m \<Longrightarrow> at_rest_with b md s \<Longrightarrow> safe m s"
  by (simp add: quiet_def)

lemma safe_respond_if_io:
  assumes "at_rest_with b md s" "quiet b md m" "\<And>s1. undisturbed s s1 \<Longrightarrow> safe k s1"
  shows "safe (respond_if_io m k) s"
  unfolding respond_if_io_def respond_if_def
proof (rule safe_bind)
  show "safe m s" using assms(1,2) by (simp add: quiet_def)
  fix a s1 assume "undisturbed s s1"
  with assms(3) show "safe (case a of None \<Rightarrow> k | Some resp \<Rightarrow> return resp) s1"
    using quietD [OF quiet_return(1) rest_undisturbed [OF assms(1)]] by (cases a) auto
qed

lemma safe_respond_if: "at_rest_with b md s \<Longrightarrow> safe k s \<Longrightarrow> safe (respond_if r k) s"
  using quietD [OF quiet_return(1)] by (cases r) (auto simp: respond_if_def)

section \<open>Locked objects\<close>

text \<open>
  An object whose current version an overwrite or a deletion would lose: the bucket keeps no versions,
  and the lock is in force at every reading of the clock.
\<close>

definition locked_for_good :: "string \<Rightarrow> strmap \<Rightarrow> string \<Rightarrow> object \<Rightarrow> world \<Rightarrow> bool" where
  "locked_for_good b md k ob s \<longleftrightarrow>
     at_rest_with b md s \<and> versioning s b = Unversioned \<and> md ''s3_versioning_status'' \<noteq> Some ''Suspended'' \<and>
     current (object_state s b k) = Some ob \<and> (\<forall>n. object_is_locked (ext s) (ext_now (ext s) n) ob)"

lemma locked_undisturbed: "locked_for_good b md k ob s \<Longrightarrow> undisturbed s s1 \<Longrightarrow> locked_for_good b md k ob s1"
  using rest_undisturbed [of b md s s1] undisturbed_versioning [of s s1 b] object_state_undisturbed [of s s1 b k] undisturbed_facts(3) [of s s1]
  by (simp add: locked_for_good_def rest_same_def)

lemma locked_serialized [simp]: "object_is_locked x now (serialize_object ob) = object_is_locked x now ob"
  by (simp add: object_is_locked_def serialize_object_def)

lemma locked_metadata:
  assumes "locked_for_good b md k ob s"
  obtains s1 where "try_io (get_object_metadata b k) s = (Done (Ok (serialize_object ob)), s1)" "undisturbed s s1"
proof -
  have "store_ok s" "faults s = []" "held s (object_dir s b k) = Some ob"
    using assms by (simp_all add: locked_for_good_def at_rest_with_def object_state_def)
  then obtain s1 where "get_object_metadata b k s = (Done (serialize_object ob), s1)" "undisturbed s s1"
    using read_metadata_spec [of s b k] unfolding get_object_metadata_def by (metis read_outcome_simps(2) option.map(2))
  then show ?thesis by (intro that) (simp_all add: try_io_def)
qed

lemma locked_not_preserved:
  assumes "locked_for_good b md k ob s"
  shows "s3_mutation_preserves_current_version b ob' s = (Done False, tick 1 s)"
proof -
  have r: "bucket_readable s b md" "\<not> is_versioning_enabled s b" "md ''s3_versioning_status'' \<noteq> Some ''Suspended''"
    using assms by (auto simp: locked_for_good_def at_rest_with_def versioning_def split: if_splits)
  obtain rec where "get_bucket b s = (Done rec, tick 1 s)" "versioning_enabled rec = is_versioning_enabled s b" "bucket_metadata rec = md"
    using get_bucket_run [OF r(1)] .
  with r show ?thesis by (simp add: s3_mutation_preserves_current_version_def bind_io_def try_io_def return_def)
qed

lemma locked_at_rest: "locked_for_good b md k ob s \<Longrightarrow> at_rest_with b md s"
  by (simp add: locked_for_good_def)

lemma locked_now: "locked_for_good b md k ob s \<Longrightarrow> object_is_locked (ext s) (ext_now (ext s) n) ob"
  by (simp add: locked_for_good_def)

lemma undisturbed_ext: "undisturbed s s1 \<Longrightarrow> ext s1 = ext s"
  using undisturbed_facts(3) by (auto simp: rest_same_def)

text \<open>The steps of a handler up to the lock check: every guard is quiet and the lock stays in force.\<close>

lemma locked_guard:
  assumes "locked_for_good b md k ob s" "quiet b md m" "\<And>s1. locked_for_good b md k ob s1 \<Longrightarrow> ext s1 = ext s \<Longrightarrow> safe next s1"
  shows "safe (respond_if_io m next) s"
  using locked_undisturbed [OF assms(1)] assms(3) undisturbed_ext
  by (intro safe_respond_if_io [OF locked_at_rest [OF assms(1)] assms(2)]) blast

lemma locked_test:
  assumes "locked_for_good b md k ob s" "safe next s"
  shows "safe (respond_if r next) s"
  using safe_respond_if [OF locked_at_rest] assms by blast

text \<open>The lock check finds the lock, and no version that would be kept.\<close>

lemma locked_check:
  assumes l: "locked_for_good b md k ob s"
  obtains s1 where "try_io (get_object_metadata b k) s = (Done (Ok (serialize_object ob)), s1)"
    "object_is_locked (ext s) (ext_now (ext s) (clock_count s1)) ob" "ext s1 = ext s"
    "s3_mutation_preserves_current_version b (serialize_object ob) (tick 1 s1) = (Done False, tick 2 s1)"
    "undisturbed s (tick 2 s1)" "undisturbed s s1" "undisturbed s (tick 1 s1)"
proof -
  obtain s1 where s1: "try_io (get_object_metadata b k) s = (Done (Ok (serialize_object ob)), s1)" "undisturbed s s1"
    using locked_metadata [OF l] .
  note r1 = rest_undisturbed [OF locked_at_rest [OF l] s1(2)]
  note l2 = locked_undisturbed [OF locked_undisturbed [OF l s1(2)] rest_tick [OF r1, of 1]]
  have "s3_mutation_preserves_current_version b (serialize_object ob) (tick 1 s1) = (Done False, tick 2 s1)"
    using locked_not_preserved [OF l2] by simp
  then show ?thesis
    using that [OF s1(1) locked_now [OF l] undisturbed_ext [OF s1(2)]] undisturbed_trans [OF s1(2) rest_tick [OF r1]] s1(2) by blast
qed

lemma locked_refused:
  assumes "locked_for_good b md k ob s" "x = ext s"
  shows "safe (bind_io (try_io (get_object_metadata b k)) (\<lambda>r.
      let existing = (case r of Ok ob \<Rightarrow> Some ob | Err _ \<Rightarrow> None) in
      bind_io now_io (\<lambda>now.
      bind_io (case existing of
                 Some ob \<Rightarrow>
                   if object_is_locked x now ob
                   then bind_io (s3_mutation_preserves_current_version b ob) (\<lambda>kept. return (\<not> kept)) else return False
               | None \<Rightarrow> return False) (\<lambda>refused.
      if refused then return resp else g existing now)))) s"
proof -
  obtain s1 where s1: "try_io (get_object_metadata b k) s = (Done (Ok (serialize_object ob)), s1)"
    "object_is_locked (ext s) (ext_now (ext s) (clock_count s1)) ob" "ext s1 = ext s"
    "s3_mutation_preserves_current_version b (serialize_object ob) (tick 1 s1) = (Done False, tick 2 s1)" "undisturbed s (tick 2 s1)"
    using locked_check [OF assms(1)] .
  then show ?thesis by (simp add: safe_def assms(2) bind_io_def now_io_def return_def)
qed

lemma safe_gets_ext: "safe (f (ext s)) s \<Longrightarrow> safe (bind_io (gets ext) f) s"
  by (simp add: safe_def bind_io_def gets_def)

lemmas locked_steps = locked_guard [OF _ quiet_guards(1)] locked_guard [OF _ quiet_guards(2)] locked_guard [OF _ quiet_guards(3)]
  locked_guard [OF _ quiet_guards(4)] locked_guard [OF _ quiet_foreign] locked_test

lemma locked_put_safe:
  assumes "locked_for_good b md k ob s"
  shows "safe (object_put L cfg b k req) s"
proof -
  have tail: "safe (if c then return resp else bind_io (gets ext) (\<lambda>x. respond_if (d x) (respond_if_io (validate_object_lock_put_request L b req)
      (bind_io (try_io (get_object_metadata b k)) (\<lambda>r.
      let existing = (case r of Ok ob \<Rightarrow> Some ob | Err _ \<Rightarrow> None) in
      bind_io now_io (\<lambda>now.
      bind_io (case existing of
                 Some ob \<Rightarrow>
                   if object_is_locked x now ob
                   then bind_io (s3_mutation_preserves_current_version b ob) (\<lambda>kept. return (\<not> kept)) else return False
               | None \<Rightarrow> return False) (\<lambda>refused.
      if refused then return (locked_object_response L) else g x existing now))))))) s1"
    if "locked_for_good b md k ob s1" for s1 c d g resp
    using quietD [OF quiet_return(1) locked_at_rest [OF that]] that
    by (auto intro!: safe_gets_ext locked_steps locked_refused)
  show ?thesis
    unfolding object_put_def by (rule locked_steps | rule assms | assumption | rule tail)+
qed

lemma locked_tagging_safe:
  assumes "locked_for_good b md k ob s"
  shows "safe (delete_object_tagging L b k req) s"
proof -
  obtain s1 where s1: "try_io (get_object_metadata b k) s = (Done (Ok (serialize_object ob)), s1)"
    "object_is_locked (ext s) (ext_now (ext s) (clock_count s1)) ob" "ext s1 = ext s" "undisturbed s (tick 1 s1)"
    using locked_check [OF assms] .
  then show ?thesis by (simp add: safe_def delete_object_tagging_def current_locked_def bind_io_def now_io_def gets_def return_def)
qed

lemma locked_unless:
  assumes "locked_for_good b md k ob s"
  obtains s1 where "delete_unless_locked b k cond s = (Failed AccessDenied, s1)" "undisturbed s s1"
proof -
  obtain s1 where s1: "try_io (get_object_metadata b k) s = (Done (Ok (serialize_object ob)), s1)"
    "object_is_locked (ext s) (ext_now (ext s) (clock_count s1)) ob" "ext s1 = ext s"
    "s3_mutation_preserves_current_version b (serialize_object ob) (tick 1 s1) = (Done False, tick 2 s1)" "undisturbed s (tick 2 s1)"
    using locked_check [OF assms] .
  then show ?thesis
    by (intro that [of "tick 2 s1"]) (simp_all add: delete_unless_locked_def bind_io_def now_io_def gets_def return_def throw_def)
qed

lemma locked_current_safe:
  assumes "locked_for_good b md k ob s"
  shows "safe (delete_current_object L b k req) s"
proof -
  obtain s1 where s1: "try_io (get_object_metadata b k) s = (Done (Ok (serialize_object ob)), s1)" "undisturbed s s1"
    using locked_check [OF assms] .
  let ?s = "if header req ''if-match'' \<noteq> None then s1 else s"
  have u: "undisturbed s ?s" using s1(2) rest_refl [OF locked_at_rest [OF assms]] by simp
  obtain s2 where s2: "delete_unless_locked b k (mutation_if_match_condition req) ?s = (Failed AccessDenied, s2)" "undisturbed ?s s2"
    using locked_unless [OF locked_undisturbed [OF assms u]] .
  then show ?thesis
    using s1(1) undisturbed_trans [OF u s2(2)]
    by (cases "header req ''if-match'' \<noteq> None") (auto simp: safe_def delete_current_object_def bind_io_def return_def try_io_def [of "delete_unless_locked b k c" for c])
qed

lemma locked_delete_safe:
  assumes "locked_for_good b md k ob s" "\<not> has_param L req ''uploadId''" "\<not> has_param L req ''versionId''"
  shows "safe (object_delete L cfg b k req) s"
proof -
  have tail: "safe (if c then delete_object_tagging L b k req else delete_current_object L b k req) s1"
    if "locked_for_good b md k ob s1" for s1 c
    using locked_tagging_safe [OF that] locked_current_safe [OF that] by simp
  show ?thesis
    unfolding object_delete_def using assms(2,3)
    by (simp only: if_False) (rule locked_steps | rule assms(1) | assumption | rule tail)+
qed

text \<open>
  C36. Locked objects survive the S3 interface. While the current object of a key is under a legal hold or
  a retention date that is not reached, in a bucket that would not keep the replaced version, no PUT to
  the key (body, copy, tags, access control list or part) and no DELETE of the current object or of its
  tags changes it: whatever the request and its credentials, the store holds the same objects, versions
  and documents afterwards.
\<close>

theorem s3_locked_object_kept:
  assumes "store_ok s" and "faults s = []" and "bucket_readable s b md" and "versioning s b = Unversioned"
    and "md ''s3_versioning_status'' \<noteq> Some ''Suspended''" and "current (object_state s b k) = Some ob"
    and "\<forall>n. object_is_locked (ext s) (ext_now (ext s) n) ob"
    and "s3_route L req = RObjectPut b k \<or>
      s3_route L req = RObjectDelete b k \<and> \<not> has_param L req ''uploadId'' \<and> \<not> has_param L req ''versionId''"
    and "serve_s3 L cfg req s = (r, s1)"
  shows "r \<noteq> Halted \<and> undisturbed s s1 \<and> current (object_state s1 b k) = Some ob"
proof -
  have l: "locked_for_good b md k ob s" using assms(1-7) by (simp add: locked_for_good_def at_rest_with_def)
  have "safe (handle_s3_request L cfg req) s"
    using assms(8) locked_put_safe [OF l] locked_delete_safe [OF l] by (auto simp: handle_s3_request_def)
  then have "safe (serve_s3 L cfg req) s" unfolding serve_s3_def by (rule locked_test [OF l])
  with assms(6,9) object_state_undisturbed show ?thesis by (auto simp: safe_def)
qed

section \<open>Round trip\<close>

text \<open>A request that asks for nothing but its body: no query, conditions, checksums, locks, tags or encryption.\<close>

definition special_names :: "string list" where
  "special_names =
     [''x-amz-copy-source'', ''x-amz-object-lock-mode'', ''x-amz-object-lock-retain-until-date'', ''x-amz-object-lock-legal-hold'',
      ''if-match'', ''if-none-match'', ''if-unmodified-since'', ''if-modified-since'', ''x-amz-trailer'', ''content-encoding'',
      ''x-amz-content-sha256'', ''x-amz-sdk-checksum-algorithm'', ''x-amz-tagging'', ''x-amz-server-side-encryption'',
      ''x-amz-server-side-encryption-customer-algorithm'', ''x-amz-server-side-encryption-customer-key'',
      ''x-amz-server-side-encryption-customer-key-MD5'', ''cache-control'', ''content-language'', ''content-disposition'',
      ''origin'', ''range'', ''x-amz-checksum-mode'', ''x-amz-checksum-crc32'', ''x-amz-checksum-crc32c'',
      ''x-amz-checksum-crc64nvme'', ''x-amz-checksum-sha1'', ''x-amz-checksum-sha256'', ''x-amz-checksum-md5'',
      ''access-control-request-method'']"

definition simple_request :: "request \<Rightarrow> bool" where
  "simple_request req \<longleftrightarrow> req_query req = None \<and> req_spooled_body req = None \<and>
     list_all (\<lambda>n. header req n = None) special_names \<and>
     list_all (\<lambda>n. \<not> prefix ''x-amz-checksum-'' n \<and> n \<noteq> ''content-md5'' \<and> n \<noteq> ''x-amz-sdk-checksum-algorithm'') (header_names req)"

lemma simple_no_header: "simple_request req \<Longrightarrow> list_all (\<lambda>n. header req n = None) special_names"
  by (simp add: simple_request_def)

lemmas simple_none = simple_no_header [unfolded special_names_def list.pred_inject conj_assoc HOL.simp_thms]

lemma simple_no_param: "simple_request req \<Longrightarrow> has_param L req n = False \<and> param L req n = None"
  by (simp add: simple_request_def has_param_def param_def has_query_param_def query_param_def parse_query_params_def)

lemma simple_names:
  "simple_request req \<Longrightarrow> n \<in> set (header_names req) \<Longrightarrow>
     \<not> prefix ''x-amz-checksum-'' n \<and> n \<noteq> ''content-md5'' \<and> n \<noteq> ''x-amz-sdk-checksum-algorithm''"
  unfolding simple_request_def list_all_iff by blast

lemma simple_checksums:
  assumes "simple_request req"
  shows "checksums_requested req = False" "checksums_validate_put L x req = None" "validate_content_md5 L x req = None"
    "object_lock_headers_requested req = False"
proof -
  note h = simple_none [OF assms]
  have "\<not> aws_chunked req" "\<not> streaming_payload req" by (simp_all add: aws_chunked_def streaming_payload_def is_some_and_def h)
  moreover have "\<not> list_ex (prefix ''x-amz-checksum-'') (header_names req)"
    "\<not> list_ex (\<lambda>name. prefix ''x-amz-checksum-'' name \<and> \<not> known_checksum_header name) (header_names req)"
    using simple_names [OF assms] by (auto simp: list_ex_iff)
  moreover have "check_checksum_headers L req hs = None" if "set hs \<subseteq> set (req_headers req)" for hs
    using that
  proof (induction hs)
    case (Cons e hs)
    obtain n v where e: "e = (n, v)" by force
    then have "n \<in> set (header_names req)" using Cons(2) by (force simp: header_names_def)
    with simple_names [OF assms] Cons e show ?case by simp
  qed simp
  moreover have "supplied_checksums req = []" by (simp add: supplied_checksums_def ALGORITHMS_def h List.map_filter_simps)
  ultimately show "checksums_requested req = False" "checksums_validate_put L x req = None"
    by (simp_all add: checksums_requested_def checksums_validate_put_def h or_else_def is_some_and_def check_declared_def)
  show "validate_content_md5 L x req = None" using simple_names [OF assms] by (auto simp: validate_content_md5_def)
  show "object_lock_headers_requested req = False" by (simp add: object_lock_headers_requested_def h)
qed

text \<open>With enforcement off, a simple request passes the guards of an object handler.\<close>

definition open_bucket :: "string \<Rightarrow> strmap \<Rightarrow> world \<Rightarrow> bool" where
  "open_bucket b md s \<longleftrightarrow> at_rest_with b md s \<and> azure_object_protection_absent s b \<and>
     \<not> bucket_has_foreign_data_protection ((new_bucket b 0)\<lparr>bucket_metadata := md\<rparr>)"

lemma foreign_metadata: "bucket_metadata r = bucket_metadata r' \<Longrightarrow> bucket_has_foreign_data_protection r = bucket_has_foreign_data_protection r'"
  by (simp add: bucket_has_foreign_data_protection_def)

lemma open_tick: "open_bucket b md s \<Longrightarrow> open_bucket b md (tick n s)"
  using rest_undisturbed [OF _ rest_tick] by (auto simp: open_bucket_def azure_object_protection_absent_def)

lemma open_guards:
  assumes "open_bucket b md s" "\<not> cfg_enforce_auth cfg"
  shows "authorize L cfg req b' key act s = (Done None, tick 1 s)" "check_presigned L cfg req b' k s = (Done None, tick 1 s)"
    "object_bucket_error_response L b head s = (Done None, tick 1 s)" "foreign_conflict L b s = (Done None, tick 1 s)"
proof -
  show "authorize L cfg req b' key act s = (Done None, tick 1 s)" "check_presigned L cfg req b' k s = (Done None, tick 1 s)"
    using assms(2) by (simp_all add: authorize_def check_presigned_def check_authorization_def verify_sigv4_signature_def
        verify_presigned_url_def bind_io_def now_io_def return_def)
  obtain rec where rec: "get_bucket b s = (Done rec, tick 1 s)" "bucket_metadata rec = md"
    using get_bucket_run [of s b md] assms(1) unfolding open_bucket_def at_rest_with_def by blast
  then have "\<not> bucket_has_foreign_data_protection rec"
    using assms(1) foreign_metadata [of rec "(new_bucket b 0)\<lparr>bucket_metadata := md\<rparr>"] by (simp add: open_bucket_def)
  with rec assms(1) show "object_bucket_error_response L b head s = (Done None, tick 1 s)" "foreign_conflict L b s = (Done None, tick 1 s)"
    by (simp_all add: object_bucket_error_response_def foreign_conflict_def s3_foreign_history_conflict_def
        foreign_data_protection_mode_active_def azure_object_protection_active_def open_bucket_def bind_io_def gets_def return_def try_io_def)
qed

lemma status_kept [simp]:
  "sr_status (with_header L n v r) = sr_status r" "sr_status (with_optional_header L n o1 r) = sr_status r"
  "sr_status (content_type_header L ct r) = sr_status r" "sr_status (with_payload L d r) = sr_status r"
  "sr_status (with_document doc r) = sr_status r" "sr_status (new_response st) = st"
  by (simp_all add: with_header_def with_optional_header_def content_type_header_def with_payload_def with_document_def new_response_def
      split: option.split)

lemma status_fold [simp]: "(\<And>a r. sr_status (f a r) = sr_status r) \<Longrightarrow> sr_status (fold f xs r) = sr_status r"
  by (induction xs arbitrary: r) simp_all

lemma checksum_status [simp]: "sr_status (checksum_response_headers L ob r) = sr_status r"
  by (simp add: checksum_response_headers_def case_prod_beta)

lemma version_status [simp]: "sr_status (add_version_header L v r) = sr_status r"
  by (simp add: add_version_header_def)

lemma headers_status [simp]: "sr_status (object_response_headers L ob r) = sr_status r" "sr_status (retrieval_headers L req ob r) = sr_status r"
  by (simp_all add: object_response_headers_def retrieval_headers_def case_prod_beta Let_def)

text \<open>What a simple PUT stores.\<close>

abbreviation put_content :: "externs \<Rightarrow> request \<Rightarrow> string \<Rightarrow> datetime \<Rightarrow> object" where
  "put_content x req k now \<equiv>
     new_with_metadata x k (req_body req)
       (case header req ''content-type'' of Some c \<Rightarrow> c | None \<Rightarrow> ''application/octet-stream'') (extract_metadata_from_http_headers req) now"

lemma body_object_simple: "simple_request req \<Longrightarrow> body_object x req k now = put_content x req k now"
  by (simp add: simple_request_def body_object_def)

lemma clear_empty: "obj_provider_metadata ob = Map.empty \<Longrightarrow> clear_object_lock_metadata ob = ob"
  by (simp add: clear_object_lock_metadata_def set_provider_metadata_def)

lemma simple_contracts:
  assumes "simple_request req" "obj_provider_metadata ob = Map.empty"
  shows "apply_s3_request_contracts L x req (replace_identity L x req (replace_content_properties req ob)) = Ok ob"
proof -
  note h = simple_none [OF assms(1)]
  have u: "set_provider_metadata key None ob = ob" for key using assms(2) by (simp add: set_provider_metadata_def)
  have c: "replace_content_properties req ob = ob" by (simp add: replace_content_properties_def CONTENT_PROPERTIES_def h u)
  have "(\<lambda>k. if prefix ''s3_checksum_'' k then None else obj_provider_metadata ob k) = obj_provider_metadata ob"
    by (rule ext) (simp add: assms(2))
  then have "replace_identity L x req ob = ob" by (simp only: replace_identity_def) (simp add: ALGORITHMS_def h)
  then show ?thesis
    by (simp add: c apply_s3_request_contracts_def apply_sse_def apply_sse_c_def apply_lock_headers_def h)
qed

lemma put_content_fields [simp]:
  "obj_provider_metadata (put_content x req k now) = Map.empty" "obj_data (put_content x req k now) = req_body req"
  "obj_size (put_content x req k now) = length (req_body req)" "obj_key (put_content x req k now) = k"
  by (simp_all add: new_with_metadata_def new_with_metadata_and_etag_def)

lemma put_flag:
  assumes "store_ok s" "faults s = []" "bucket_exists s b" "obj_size ob = length (obj_data ob)" "put_object b k ob s = (r, s1)"
    "obj_provider_metadata ob = Map.empty"
  shows "azure_protection_possible s1 = azure_protection_possible s"
  using put_spec_flags [OF assms(1-3) _ assms(4) no_spool(1) assms(5) [unfolded put_object_def]] assms(6)
  by (simp add: payload_bytes_def object_has_azure_protection_metadata_def list_ex_iff)

lemma readable_only_object:
  assumes "only_object s s1 b k InMemory" and "bucket_readable s b' md"
  shows "bucket_readable s1 b' md"
proof -
  have "bucket_dir s1 b' = bucket_dir s b'" using assms(1) by (simp add: only_object_def bucket_dir_def)
  moreover have "fs_get s1 (bucket_dir s b' @ [CHR ''.'' # m]) = fs_get s (bucket_dir s b' @ [CHR ''.'' # m])" for m
    using assms(1) control_outside [of s _ _ b' m] by (simp add: only_object_def)
  ultimately show ?thesis
    using assms by (auto simp: bucket_readable_def bucket_metadata_path_def file_content_def path_exists_def only_object_def split: if_splits)
qed

lemma open_put:
  assumes "open_bucket b md s" "obj_size ob = length (obj_data ob)" "obj_provider_metadata ob = Map.empty"
  obtains s1 v where "put_object b k ob s = (Done (), s1)" "open_bucket b md s1"
    "current (object_state s1 b k) = Some (ob\<lparr>obj_version_id := v\<rparr>)" "only_object s s1 b k InMemory"
proof -
  have s: "store_ok s" "faults s = []" "bucket_readable s b md" "bucket_exists s b"
    using assms(1) by (auto simp: open_bucket_def at_rest_with_def bucket_readable_def)
  obtain r s1 where run: "put_object b k ob s = (r, s1)" by force
  note P = put_object_done [OF s(1,2,4) assms(2) run]
  then obtain v where "current (object_state s1 b k) = Some (ob\<lparr>obj_version_id := v\<rparr>)" using spec_put_current by metis
  moreover have "open_bucket b md s1"
    using P readable_only_object [of s s1 b k b md] s put_flag [OF s(1,2,4) assms(2) run assms(3)] assms(1)
    by (auto simp: open_bucket_def at_rest_with_def azure_object_protection_absent_def)
  ultimately show ?thesis using that P run by blast
qed

lemma open_undisturbed: "open_bucket b md s \<Longrightarrow> undisturbed s s1 \<Longrightarrow> open_bucket b md s1"
  using rest_undisturbed [of b md s s1] undisturbed_facts(3) [of s s1] by (auto simp: open_bucket_def azure_object_protection_absent_def rest_same_def)

lemma open_at_rest: "open_bucket b md s \<Longrightarrow> at_rest_with b md s"
  by (simp add: open_bucket_def)

lemma open_metadata:
  assumes "open_bucket b md s"
  obtains s1 where "try_io (get_object_metadata b k) s =
      (Done (case current (object_state s b k) of Some ob \<Rightarrow> Ok (serialize_object ob) | None \<Rightarrow> Err KeyNotFound), s1)" "undisturbed s s1"
proof -
  have "store_ok s" "faults s = []" using assms by (auto simp: open_bucket_def at_rest_with_def)
  then obtain s1 where "get_object_metadata b k s = (read_outcome (map_option serialize_object (current (object_state s b k))), s1)" "undisturbed s s1"
    using read_metadata_spec [of s b k] unfolding get_object_metadata_def object_state_def by auto
  then show ?thesis by (intro that) (auto simp: try_io_def split: option.split)
qed

lemma put_response_run:
  assumes "open_bucket b md s" "simple_request req"
  obtains resp s1 where "put_object_response L b k req etag s = (Done resp, s1)" "sr_status resp = 200" "undisturbed s s1"
proof -
  obtain s1 where s1: "try_io (get_object_metadata b k) s =
      (Done (case current (object_state s b k) of Some ob \<Rightarrow> Ok (serialize_object ob) | None \<Rightarrow> Err KeyNotFound), s1)" "undisturbed s s1"
    using open_metadata [OF assms(1)] .
  have u: "undisturbed s (tick 1 s1)"
    by (rule undisturbed_trans [OF s1(2) rest_tick [OF open_at_rest [OF open_undisturbed [OF assms(1) s1(2)]]]])
  note h = simple_none [OF assms(2)]
  show ?thesis
    by (rule that, simp add: put_object_response_def stored_version_id_def bind_io_def gets_def now_io_def return_def s1(1)
        apply_actual_request_headers_def h Let_def) (simp, use u in simp)
qed

lemma inherit_run:
  assumes "open_bucket b md s" "obj_provider_metadata ob = Map.empty" "\<forall>old. existing = Some old \<longrightarrow> obj_provider_metadata old = Map.empty"
  obtains n where "inherit_provider_metadata b existing ob s = (Done ob, tick n s)"
proof (cases existing)
  case None
  with that [of 0] show ?thesis by (simp add: inherit_provider_metadata_def return_def)
next
  case (Some old)
  obtain rec where "get_bucket b s = (Done rec, tick 1 s)"
    using get_bucket_run [of s b md] open_at_rest [OF assms(1)] unfolding at_rest_with_def by blast
  moreover have e: "ob\<lparr>obj_provider_metadata := obj_provider_metadata old\<rparr> = ob" using assms(2,3) Some by simp
  ultimately have "inherit_provider_metadata b existing ob s = (Done ob, tick 1 s)"
    unfolding inherit_provider_metadata_def Some option.case Let_def e clear_empty [OF assms(2)] if_cancel
    by (simp add: s3_mutation_preserves_current_version_def bind_io_def try_io_def return_def)
  then show ?thesis by (rule that)
qed

lemma put_body_run:
  assumes "open_bucket b md s" "simple_request req" "validate_put_target L b k = None"
    "\<forall>old. existing = Some old \<longrightarrow> obj_provider_metadata old = Map.empty"
  obtains resp s1 now v where "put_object_body L b k req existing s = (Done resp, s1)" "sr_status resp = 200" "open_bucket b md s1"
    "ext s1 = ext s \<and> base_path s1 = base_path s"
    "current (object_state s1 b k) = Some ((put_content (ext s) req k now)\<lparr>obj_version_id := v\<rparr>)"
    "\<forall>b' k'. object_dir s b' k' \<noteq> object_dir s b k \<longrightarrow> object_state s1 b' k' = object_state s b' k'"
    "\<forall>m. fs_get s1 (bucket_dir s b @ [CHR ''.'' # m]) = fs_get s (bucket_dir s b @ [CHR ''.'' # m])"
proof -
  note h = simple_none [OF assms(2)]
  let ?now = "ext_now (ext s) (clock_count s)"
  let ?ob = "put_content (ext s) req k ?now"
  obtain n where inh: "inherit_provider_metadata b existing ?ob (tick 1 s) = (Done ?ob, tick n (tick 1 s))"
    using inherit_run [OF open_tick [OF assms(1)] put_content_fields(1) assms(4)] .
  let ?t = "tick n (tick 1 s)"
  have o: "open_bucket b md ?t" using open_tick [OF open_tick [OF assms(1)]] .
  have u: "undisturbed s ?t"
    using undisturbed_trans [OF rest_tick [OF open_at_rest [OF assms(1)]] rest_tick [OF open_at_rest [OF open_tick [OF assms(1)]]]] .
  have size: "obj_size ?ob = length (obj_data ?ob)" by simp
  obtain s2 v where put: "put_object b k ?ob ?t = (Done (), s2)" "open_bucket b md s2"
    "current (object_state s2 b k) = Some (?ob\<lparr>obj_version_id := v\<rparr>)" "only_object ?t s2 b k InMemory"
    using open_put [OF o size put_content_fields(1)] .
  obtain resp s3 where resp: "put_object_response L b k req (obj_etag ?ob) s2 = (Done resp, s3)" "sr_status resp = 200" "undisturbed s2 s3"
    using put_response_run [OF put(2) assms(2)] .
  have "store_put_object L b k req ?ob ?t = (Done resp, s3)"
    using put(1) resp(1) assms(2)
    by (simp add: store_put_object_def is_some_and_def h return_def bind_io_def store_object_def mutation_condition_def if_match_condition_def
        simple_request_def try_io_def)
  then have run: "put_object_body L b k req existing s = (Done resp, s3)"
    using inh by (simp add: put_object_body_def bind_io_def gets_def respond_if_def simple_checksums [OF assms(2)] assms(3)
        parse_optional_tagging_header_def h now_io_def body_object_simple [OF assms(2)] simple_contracts [OF assms(2)])
  have dirs: "bucket_dir s2 b = bucket_dir s b" using put(4) by (simp add: only_object_def bucket_dir_def)
  have "fs_get s3 (bucket_dir s b @ [CHR ''.'' # m]) = fs_get s (bucket_dir s b @ [CHR ''.'' # m])" for m
    using control_file_undisturbed [OF resp(3), of b m] control_file_undisturbed [OF u, of b m] put(4)
      control_outside [of ?t _ _ b m] by (simp add: dirs only_object_def)
  moreover have "object_state s3 b' k' = object_state s b' k'" if "object_dir s b' k' \<noteq> object_dir s b k" for b' k'
    using object_state_undisturbed [OF resp(3)] only_object_others [OF put(4), of b' k'] object_state_undisturbed [OF u] that by simp
  moreover have "ext s3 = ext s \<and> base_path s3 = base_path s"
    using undisturbed_facts(3) [OF resp(3)] put(4) by (simp add: rest_same_def only_object_def)
  ultimately show ?thesis
    using that [OF run resp(2) open_undisturbed [OF put(2) resp(3)]] put(3) object_state_undisturbed [OF resp(3)] by simp
qed

lemma pass_open:
  assumes "open_bucket b md s" "\<not> cfg_enforce_auth cfg" "simple_request req"
  shows "respond_if_io (authorize L cfg req b key act) (respond_if_io (check_presigned L cfg req b k)
    (respond_if_io (object_bucket_error_response L b head) (respond_if (unsupported_object_lock_subresource_response L req)
    (respond_if (version_tagging L req) (respond_if_io (foreign_conflict L b) rest))))) s = rest (tick 4 s)"
proof -
  note q = simple_no_param [OF assms(3), of L]
  have none: "unsupported_object_lock_subresource_response L req = None" "version_tagging L req = None"
    by (simp_all add: unsupported_object_lock_subresource_response_def version_tagging_def q)
  note t = open_tick [OF assms(1)]
  show ?thesis
    using open_guards(1) [OF assms(1,2), of L req b key act] open_guards(2) [OF t [of 1] assms(2), of L req b k]
      open_guards(3) [OF t [of 2] assms(2), of L head] open_guards(4) [OF t [of 3] assms(2), of L]
    by (simp add: none respond_if_def respond_if_io_def bind_io_def eval_nat_numeral)
qed

lemma put_run:
  assumes "open_bucket b md s" "\<not> cfg_enforce_auth cfg" "simple_request req" "validate_put_target L b k = None"
    "\<forall>old. current (object_state s b k) = Some old \<longrightarrow> obj_provider_metadata old = Map.empty"
  obtains resp s1 now v where "object_put L cfg b k req s = (Done resp, s1)" "sr_status resp = 200" "open_bucket b md s1"
    "ext s1 = ext s \<and> base_path s1 = base_path s"
    "current (object_state s1 b k) = Some ((put_content (ext s) req k now)\<lparr>obj_version_id := v\<rparr>)"
    "\<forall>b' k'. object_dir s b' k' \<noteq> object_dir s b k \<longrightarrow> object_state s1 b' k' = object_state s b' k'"
    "\<forall>m. fs_get s1 (bucket_dir s b @ [CHR ''.'' # m]) = fs_get s (bucket_dir s b @ [CHR ''.'' # m])"
proof -
  note h = simple_none [OF assms(3)] and q = simple_no_param [OF assms(3)]
  let ?t = "tick 4 s"
  have o: "open_bucket b md ?t" using assms(1) open_tick by blast
  have u: "undisturbed s ?t" by (rule rest_tick [OF open_at_rest [OF assms(1)]])
  let ?existing = "map_option serialize_object (current (object_state s b k))"
  obtain s1 where s1: "try_io (get_object_metadata b k) ?t =
      (Done (case current (object_state ?t b k) of Some ob \<Rightarrow> Ok (serialize_object ob) | None \<Rightarrow> Err KeyNotFound), s1)" "undisturbed ?t s1"
    using open_metadata [OF o] .
  have ex: "\<forall>old. ?existing = Some old \<longrightarrow> obj_provider_metadata old = Map.empty"
    using assms(5) by (auto simp: serialize_object_def)
  let ?s2 = "tick 1 s1"
  have o2: "open_bucket b md ?s2" using open_tick [OF open_undisturbed [OF o s1(2)]] .
  have u2: "undisturbed s ?s2"
    using undisturbed_trans [OF u undisturbed_trans [OF s1(2) rest_tick [OF open_at_rest [OF open_undisturbed [OF o s1(2)]]]]] .
  obtain resp s3 now v where B: "put_object_body L b k req ?existing ?s2 = (Done resp, s3)" "sr_status resp = 200" "open_bucket b md s3"
    "ext s3 = ext ?s2 \<and> base_path s3 = base_path ?s2"
    "current (object_state s3 b k) = Some ((put_content (ext ?s2) req k now)\<lparr>obj_version_id := v\<rparr>)"
    "\<forall>b' k'. object_dir ?s2 b' k' \<noteq> object_dir ?s2 b k \<longrightarrow> object_state s3 b' k' = object_state ?s2 b' k'"
    "\<forall>m. fs_get s3 (bucket_dir ?s2 b @ [CHR ''.'' # m]) = fs_get ?s2 (bucket_dir ?s2 b @ [CHR ''.'' # m])"
    using put_body_run [OF o2 assms(3,4) ex] .
  have unlocked: "current (object_state s b k) = Some old \<Longrightarrow> object_is_locked x now old = False" for x now old
    using assms(5) by (simp add: object_is_locked_def is_some_and_def)
  have cond: "check_put_conditionals L x req e = None" for x e
    by (auto simp: check_put_conditionals_def h is_some_and_def header_date_def split: option.split)
  have "object_put L cfg b k req s = put_object_body L b k req ?existing ?s2"
    unfolding object_put_def pass_open [OF assms(1-3)]
    using s1(1) unlocked object_state_undisturbed [OF u]
    by (cases "current (object_state s b k)")
      (simp_all add: simple_checksums [OF assms(3)] q h bind_io_def gets_def respond_if_def respond_if_io_def
        validate_object_lock_put_request_def return_def now_io_def Let_def cond)
  moreover have "bucket_dir ?s2 b = bucket_dir s b" "object_dir ?s2 b' k' = object_dir s b' k'" "ext ?s2 = ext s" "base_path ?s2 = base_path s" for b' k'
    using undisturbed_facts(3,4) [OF u2] by (auto simp: bucket_dir_def rest_same_def)
  ultimately show ?thesis
    using B control_file_undisturbed [OF u2, of b] object_state_undisturbed [OF u2] by (intro that) simp_all
qed

lemma expired_run:
  assumes "bucket_exists s b" "\<not> path_exists s (lifecycle_path s b)"
  shows "object_expired b k s = (Done False, tick 1 s)"
proof -
  have "bucket_exists (tick 1 s) b" "\<not> path_exists (tick 1 s) (lifecycle_path (tick 1 s) b)"
    using assms by (simp_all add: bucket_exists_def path_exists_def lifecycle_path_def bucket_dir_def)
  then show ?thesis
    by (simp add: object_expired_def check_object_expiration_def get_bucket_lifecycle_def require_bucket_def bind_io_def gets_def
        guard_io_def return_def throw_def try_io_def now_io_def)
qed

text \<open>The bytes a range selects, both ends included.\<close>

definition selected_bytes :: "bytes \<Rightarrow> (nat \<times> nat option) option \<Rightarrow> bytes" where
  "selected_bytes data rng =
     (case rng of
        None \<Rightarrow> data
      | Some (start, stop) \<Rightarrow> drop start (take (Suc (case stop of Some e \<Rightarrow> e | None \<Rightarrow> length data)) data))"

lemma selected_len_bytes:
  assumes "selected_len (length data) rng = Some len"
  shows "length (selected_bytes data rng) = len" "rng \<noteq> None \<Longrightarrow> 0 < len" "rng = Some (start, stop) \<Longrightarrow> start < length data"
  using assms
  by (auto simp: selected_len_def selected_bytes_def checked_add_u64_def Let_def min_def Suc_diff_le split: option.splits prod.splits if_splits)

lemma payload_range:
  assumes "selected_len (length data) (Some (start, stop)) = Some len" "len \<le> MATERIALIZATION_LIMIT" "length data \<le> u64_max"
    "data = obj_data ob"
  shows "spec_range (Some ob) start (payload_end (start, stop)) = Ok (serialize_object ob, selected_bytes data (Some (start, stop)))"
proof -
  let ?e = "min (case stop of Some e \<Rightarrow> e | None \<Rightarrow> length data - 1) (length data - 1)"
  have s: "start < length data" "start \<le> ?e" "len = ?e - start + 1"
    using assms(1) unfolding selected_len_def option.case prod.case Let_def checked_add_u64_def by (simp_all add: not_less split: if_splits)
  let ?cap = "saturating_add_usize start (MATERIALIZATION_LIMIT - 1)"
  have "?e \<le> length data - 1" by (rule min.cobounded2)
  then have "?e \<le> u64_max" using assms(3) by (meson diff_le_self le_trans)
  moreover have "?e \<le> start + (MATERIALIZATION_LIMIT - 1)" using s(2,3) assms(2) by linarith
  ultimately have cap: "?e \<le> ?cap" by (simp only: saturating_add_usize_def min.bounded_iff)
  have end_eq: "min (case stop of None \<Rightarrow> ?cap | Some e \<Rightarrow> min e ?cap) (length data - 1) = ?e"
    using cap by (cases stop) (auto simp: min_def)
  have "take (Suc ?e) data = take (Suc (case stop of Some e \<Rightarrow> e | None \<Rightarrow> length data)) data"
    using s(1) by (cases stop) (auto simp: min_def)
  moreover have "\<not> length data \<le> start" "\<not> ?e < start" using s(1,2) by (simp_all only: not_le not_less)
  ultimately show ?thesis
    unfolding spec_range_def payload_end_def selected_bytes_def option.case prod.case Let_def fst_conv snd_conv assms(4) [symmetric] end_eq
    by (simp only: if_False)
qed

lemma payload_run:
  assumes "store_ok s" "faults s = []" "current (object_state s b k) = Some ob" "\<not> is_s3_delete_marker ob"
    "obj_size ob = length (obj_data ob)" "length (obj_data ob) \<le> u64_max"
  obtains s1 where "undisturbed s s1"
    "s3_payload L b k None rng s =
      (Done (case selected_len (length (obj_data ob)) rng of
               None \<Rightarrow> Err (invalid_range L)
             | Some len \<Rightarrow>
                 if MATERIALIZATION_LIMIT < len then Err (extent_response L)
                 else Ok (ob\<lparr>obj_data := selected_bytes (obj_data ob) rng\<rparr>)), s1)"
proof -
  obtain s1 where s1: "get_object_metadata b k s = (Done (serialize_object ob), s1)" "undisturbed s s1"
    using read_metadata_spec [OF assms(1,2), of b k] assms(3) unfolding get_object_metadata_def object_state_def by auto
  note f = undisturbed_facts [OF s1(2)]
  have m: "\<not> is_s3_delete_marker (serialize_object ob)" "obj_size (serialize_object ob) = length (obj_data ob)"
    using assms(4,5) by (simp_all add: is_s3_delete_marker_def serialize_object_def)
  let ?sel = "selected_len (length (obj_data ob)) rng" and ?span = "case rng of Some r \<Rightarrow> r | None \<Rightarrow> (0, None)"
  consider (refused) "?sel = None \<or> (\<exists>len. ?sel = Some len \<and> MATERIALIZATION_LIMIT < len)"
    | (empty) "?sel = Some 0" | (read) len where "?sel = Some len" "0 < len" "len \<le> MATERIALIZATION_LIMIT"
    by (cases ?sel) force+
  then show ?thesis
  proof cases
    case refused
    then show ?thesis
      using s1 m that by (auto simp: s3_payload_def s3_metadata_def try_io_def bind_io_def return_def)
  next
    case empty
    have "rng = None" using selected_len_bytes(2) [OF empty] by blast
    moreover from this have "obj_data ob = []" using empty by (simp add: selected_len_def)
    ultimately have "serialize_object ob = ob\<lparr>obj_data := selected_bytes (obj_data ob) rng\<rparr>" by (simp add: serialize_object_def selected_bytes_def)
    then show ?thesis
      using s1 m that empty by (simp add: s3_payload_def s3_metadata_def try_io_def bind_io_def return_def MATERIALIZATION_LIMIT_def)
  next
    case (read len)
    obtain s2 where s2: "get_object_range b k (fst ?span) (payload_end ?span) s1 =
        (outcome_of (spec_range (current (object_state s1 b k)) (fst ?span) (payload_end ?span)), s2)" "undisturbed s1 s2"
      using range_spec [OF f(1,2)] .
    have sel: "selected_len (length (obj_data ob)) (Some ?span) = Some len"
      using read by (cases rng) (auto simp: selected_len_def checked_add_u64_def u64_max_def MATERIALIZATION_LIMIT_def Let_def)
    have same: "selected_bytes (obj_data ob) (Some ?span) = selected_bytes (obj_data ob) rng"
      by (cases rng) (simp_all add: selected_bytes_def)
    have "spec_range (current (object_state s1 b k)) (fst ?span) (payload_end ?span) =
        Ok (serialize_object ob, selected_bytes (obj_data ob) rng)"
      using payload_range [of "obj_data ob" "fst ?span" "snd ?span" len ob] sel read(3) assms(3,6) object_state_undisturbed [OF s1(2)] same by simp
    then have "s3_payload L b k None rng s = (Done (Ok ((serialize_object ob)\<lparr>obj_data := selected_bytes (obj_data ob) rng\<rparr>)), s2)"
      using s1(1) s2(1) m read selected_len_bytes(1) [OF read(1)]
      by (simp add: s3_payload_def s3_metadata_def try_io_def bind_io_def return_def Let_def split: option.splits)
    moreover have "(serialize_object ob)\<lparr>obj_data := d\<rparr> = ob\<lparr>obj_data := d\<rparr>" for d by (simp add: serialize_object_def)
    ultimately show ?thesis using that undisturbed_trans [OF s1(2) s2(2)] read by simp
  qed
qed


lemma whole_payload:
  assumes "store_ok s" "faults s = []" "current (object_state s b k) = Some ob" "obj_provider_metadata ob = Map.empty"
    "obj_size ob = length (obj_data ob)" "length (obj_data ob) \<le> MATERIALIZATION_LIMIT"
  obtains s1 ob' where "s3_payload L b k None None s = (Done (Ok ob'), s1)" "undisturbed s s1" "ob' = ob"
proof -
  have "\<not> is_s3_delete_marker ob" "length (obj_data ob) \<le> u64_max"
    using assms(4,6) by (simp_all add: is_s3_delete_marker_def u64_max_def MATERIALIZATION_LIMIT_def)
  from payload_run [OF assms(1-3) this(1) assms(5) this(2), of L None]
  show ?thesis using assms(6) by (auto simp: selected_len_def selected_bytes_def intro: that)
qed

lemma full_response_run:
  assumes "open_bucket b md s" "simple_request req" "current (object_state s b k) = Some ob" "obj_provider_metadata ob = Map.empty"
    "obj_size ob = length (obj_data ob)" "length (obj_data ob) \<le> MATERIALIZATION_LIMIT"
  obtains resp s1 where "object_full_response L b k req s = (Done resp, s1)" "undisturbed s s1"
    "sr_status resp = 200" "sr_body resp = Payload (obj_data ob)"
proof -
  note h = simple_none [OF assms(2)]
  have ok: "store_ok s" "faults s = []" using open_at_rest [OF assms(1)] by (simp_all add: at_rest_with_def)
  obtain s1 where s1: "try_io (get_object_metadata b k) s = (Done (Ok (serialize_object ob)), s1)" "undisturbed s s1"
    using open_metadata [OF assms(1), of k] assms(3) by auto
  note f = undisturbed_facts [OF s1(2)]
  obtain s2 ob' where s2: "s3_payload L b k None None s1 = (Done (Ok ob'), s2)" "undisturbed s1 s2" "ob' = ob"
    using whole_payload [OF f(1,2), of b k ob L] object_state_undisturbed [OF s1(2)] assms(3-6) by metis
  have none: "validate_get_sse_headers L req ob'' = None" "check_object_conditionals L x req ob'' = None"
    if "obj_provider_metadata ob'' = Map.empty" for ob'' x
    using that by (simp_all add: validate_get_sse_headers_def check_object_conditionals_def header_date_def is_some_and_def h)
  have ser: "obj_provider_metadata (serialize_object ob) = Map.empty" using assms(4) by (simp add: serialize_object_def)
  then have "read_admission_conditions L b k None req s = (Done None, s1)"
    using s1(1) by (simp add: read_admission_conditions_def s3_metadata_def bind_io_def gets_def return_def none or_else_def)
  then have "object_full_response L b k req s = object_payload_response L b req ob 200 None s2"
    using s2 by (simp add: object_full_response_def respond_if_io_def respond_if_def bind_io_def)
  moreover have "undisturbed s s2" using undisturbed_trans [OF s1(2) s2(2)] .
  ultimately show ?thesis
    using assms(4) by (intro that) (auto simp: object_payload_response_def bind_io_def gets_def respond_if_def none Let_def
        apply_actual_request_headers_def h return_def with_payload_def)
qed

lemma get_run:
  assumes "open_bucket b md s" "\<not> cfg_enforce_auth cfg" "simple_request req" "\<not> path_exists s (lifecycle_path s b)"
    "current (object_state s b k) = Some ob" "obj_provider_metadata ob = Map.empty"
    "obj_size ob = length (obj_data ob)" "length (obj_data ob) \<le> MATERIALIZATION_LIMIT"
  obtains resp s1 where "object_get L cfg b k req s = (Done resp, s1)" "undisturbed s s1"
    "sr_status resp = 200" "sr_body resp = Payload (obj_data ob)"
proof -
  note h = simple_none [OF assms(3)] and q = simple_no_param [OF assms(3)]
  let ?t = "tick 4 s"
  have "bucket_exists ?t b" using open_at_rest [OF open_tick [OF assms(1)]] unfolding at_rest_with_def bucket_readable_def by blast
  moreover have "\<not> path_exists ?t (lifecycle_path ?t b)"
    using assms(4) by (simp add: path_exists_def lifecycle_path_def bucket_dir_def)
  ultimately have ex: "object_expired b k ?t = (Done False, tick 1 ?t)" by (rule expired_run)
  have o: "open_bucket b md (tick 1 ?t)" using open_tick [OF open_tick [OF assms(1)]] .
  have u: "undisturbed s (tick 1 ?t)"
    using undisturbed_trans [OF rest_tick [OF open_at_rest [OF assms(1)]] rest_tick [OF open_at_rest [OF open_tick [OF assms(1)]]]] .
  have cur: "current (object_state (tick 1 ?t) b k) = Some ob" using object_state_undisturbed [OF u] assms(5) by simp
  obtain resp s1 where R: "object_full_response L b k req (tick 1 ?t) = (Done resp, s1)" "undisturbed (tick 1 ?t) s1"
    "sr_status resp = 200" "sr_body resp = Payload (obj_data ob)"
    using full_response_run [OF o assms(3) cur assms(6-8)] .
  have pre: "is_preflight req = False" by (simp add: is_preflight_def h)
  have "object_get L cfg b k req s = object_full_response L b k req (tick 1 ?t)"
    unfolding object_get_def pre if_False pass_open [OF assms(1-3)] using ex by (simp add: bind_io_def q h)
  with R undisturbed_trans [OF u R(2)] show ?thesis using that by simp
qed


section \<open>Witnesses\<close>

definition sample_s3 :: s3_lib where
  "sample_s3 =
     \<lparr>s3_sign = sample_lib, s3_xml = sample_xml,
      s3_digests = \<lparr>dg_sha384 = id, dg_sha256 = id, dg_sha1 = id, dg_crc32 = length, dg_crc32c = length, dg_crc64_nvme = length,
        dg_hex_decode = (\<lambda>_. None)\<rparr>,
      s3_base64_decode = (\<lambda>t. Some (text_bytes t)), s3_header_ok = (\<lambda>n v. True), s3_http_date = (\<lambda>_. []),
      s3_utf8 = (\<lambda>b. Ok (bytes_text b)), s3_json_tags = (\<lambda>_. []), s3_token_encode = to_letters, s3_token_decode = of_letters,
      s3_parse_policy = (\<lambda>_. Err []), s3_show_policy = (\<lambda>_. []), s3_decode_error = id\<rparr>"

definition s3_sample_request :: "string \<Rightarrow> bytes \<Rightarrow> request" where
  "s3_sample_request meth body =
     \<lparr>req_method = meth, req_path = ''/xyz/k'', req_query = None, req_headers = [], req_body = body, req_spooled_body = None\<rparr>"

lemma s3_sample_simps [simp]:
  "req_method (s3_sample_request m d) = m" "req_body (s3_sample_request m d) = d" "header (s3_sample_request m d) n = None"
  "sl_url_decode (s3_sign sample_s3) = Some"
  by (simp_all add: s3_sample_request_def header_def sample_s3_def sample_lib_def)

lemma s3_sample_simple: "simple_request (s3_sample_request m d)"
  by (simp add: simple_request_def list_all_iff header_names_def) (simp add: s3_sample_request_def)

lemma s3_sample_route:
  "s3_route sample_s3 (s3_sample_request ''PUT'' d) = RObjectPut ''xyz'' ''k''"
  "s3_route sample_s3 (s3_sample_request ''GET'' d) = RObjectGet ''xyz'' ''k''"
  "s3_route sample_s3 (s3_sample_request ''DELETE'' d) = RObjectDelete ''xyz'' ''k''"
proof -
  have "req_path (s3_sample_request m d) = ''/xyz/k''" for m by (simp add: s3_sample_request_def)
  then show "s3_route sample_s3 (s3_sample_request ''PUT'' d) = RObjectPut ''xyz'' ''k''"
    "s3_route sample_s3 (s3_sample_request ''GET'' d) = RObjectGet ''xyz'' ''k''"
    "s3_route sample_s3 (s3_sample_request ''DELETE'' d) = RObjectDelete ''xyz'' ''k''"
    by (simp_all add: s3_route_def route_from_parts_def object_route_def decode_uri_path_def strip_prefix_def)
qed

lemma s3_sample_params: "has_param L (s3_sample_request m d) n = False" "payload_len (s3_sample_request m d) = length d"
  using simple_no_param [OF s3_sample_simple] by (simp_all add: payload_len_def s3_sample_request_def)

lemma s3_sample_framing: "m \<noteq> ''PUT'' \<or> d \<noteq> [] \<Longrightarrow> m \<in> {''PUT'', ''GET'', ''DELETE''} \<Longrightarrow>
    validate_request_framing sample_s3 (s3_sample_request m d) = None"
  using s3_sample_route
  by (auto simp: validate_request_framing_def plain_object_put_def content_length_mismatch_def is_some_and_def payload_is_empty_def s3_sample_params)

abbreviation open_sample :: world where
  "open_sample \<equiv> identified_bucket\<lparr>azure_protection_possible := [''xyz'' \<mapsto> False]\<rparr>"

lemma open_sample_facts:
  "store_ok open_sample" "faults open_sample = []" "bucket_readable open_sample ''xyz'' Map.empty"
  "azure_object_protection_absent open_sample ''xyz''" "\<not> path_exists open_sample (lifecycle_path open_sample ''xyz'')"
  "current (object_state open_sample b k) = None"
proof -
  show "store_ok open_sample" using sample_bucket_ok by simp
  show "faults open_sample = []" "azure_object_protection_absent open_sample ''xyz''" by (simp_all add: azure_object_protection_absent_def)
  show "bucket_readable open_sample ''xyz'' Map.empty"
    using identified_readable
    by (auto simp: bucket_readable_def bucket_metadata_path_def file_content_def path_exists_def bucket_exists_def split: if_splits)
  show "\<not> path_exists open_sample (lifecycle_path open_sample ''xyz'')"
    by (simp add: path_exists_def lifecycle_path_def fs_get_def sample_bucket_def bucket_dir_def sample_externs_def)
  show "current (object_state open_sample b k) = None"
    using sample_no_object [of _ b k "[]"] by (simp add: object_state_def)
qed

lemma no_foreign_empty: "\<not> bucket_has_foreign_data_protection ((new_bucket b 0)\<lparr>bucket_metadata := Map.empty\<rparr>)"
  by (simp add: bucket_has_foreign_data_protection_def positive_u64_def is_some_and_def)

lemma sample_bucket_name: "validate_bucket_name ''xyz'' = Ok ()"
  by code_simp

abbreviation lenient_config :: config where
  "lenient_config \<equiv> sample_config\<lparr>cfg_enforce_auth := False\<rparr>"


text \<open>A locked object in a bucket without versions.\<close>

lemma held_object:
  obtains s ob where "store_ok s" "faults s = []" "bucket_readable s ''xyz'' Map.empty" "versioning s ''xyz'' = Unversioned"
    "current (object_state s ''xyz'' ''k'') = Some ob" "\<forall>n. object_is_locked (ext s) (ext_now (ext s) n) ob" "obj_data ob = [1]"
    "obj_size ob = 1" "\<not> is_s3_delete_marker ob"
proof -
  let ?ob = "(sample_object [1] None)\<lparr>obj_provider_metadata := [''s3_object_lock_legal_hold'' \<mapsto> ''ON'']\<rparr>"
  obtain r s where run: "put_object ''xyz'' ''k'' ?ob identified_bucket = (r, s)" by force
  have size: "obj_size ?ob = length (obj_data ?ob)" by simp
  note P = put_object_done [OF sample_bucket_ok sample_bucket_fields(1) sample_bucket_exists size run]
  then obtain v where v: "current (object_state s ''xyz'' ''k'') = Some (?ob\<lparr>obj_version_id := v\<rparr>)" using spec_put_current by metis
  have "versioning identified_bucket ''xyz'' = Unversioned"
    by (simp add: versioning_def is_versioning_enabled_def is_versioning_suspended_def versioning_marker_def path_exists_def
        bucket_dir_def fs_get_def sample_bucket_def sample_externs_def file_content_def)
  then have ver: "versioning s ''xyz'' = Unversioned" using P only_object_versioning [of identified_bucket s "''xyz''" "''k''"] by simp
  have "eq_ignore_ascii_case ''ON'' ''ON''" by code_simp
  then have "object_is_locked x n (?ob\<lparr>obj_version_id := v\<rparr>)" for x n
    by (simp add: object_is_locked_def S3_OBJECT_LOCK_LEGAL_HOLD_KEY_def is_some_and_def)
  then show ?thesis
    using P v ver readable_only_object [OF _ identified_readable]
    by (intro that [of s "?ob\<lparr>obj_version_id := v\<rparr>"]) (auto simp: is_s3_delete_marker_def)
qed


theorem s3_locked_object_kept_witness:
  "\<exists>s ob r s1. current (object_state s ''xyz'' ''k'') = Some ob \<and>
     serve_s3 sample_s3 lenient_config (s3_sample_request ''PUT'' [1, 2]) s = (r, s1) \<and>
     r \<noteq> Halted \<and> current (object_state s1 ''xyz'' ''k'') = Some ob"
proof -
  obtain s ob where s: "store_ok s" "faults s = []" "bucket_readable s ''xyz'' Map.empty" "versioning s ''xyz'' = Unversioned"
    "current (object_state s ''xyz'' ''k'') = Some ob" "\<forall>n. object_is_locked (ext s) (ext_now (ext s) n) ob" by (rule held_object)
  obtain r s1 where run: "serve_s3 sample_s3 lenient_config (s3_sample_request ''PUT'' [1, 2]) s = (r, s1)" by force
  have md: "(Map.empty :: strmap) ''s3_versioning_status'' \<noteq> Some ''Suspended''" by simp
  from s3_locked_object_kept [OF s(1-4) md s(5,6) disjI1 [OF s3_sample_route(1)] run] s(5) run show ?thesis by blast
qed

end
