(* ===== verification/S3_Documents.thy ===== *)
theory S3_Documents
  imports S3_Correct
begin

text \<open>
  Documents and tokens of the S3 interface: what the parser of a multi-object deletion accepts and
  yields, the continuation tokens of a listing, the two functions that escape text in documents, and
  the scan for objects protected by another provider.
\<close>

section \<open>Multi-object deletions\<close>

definition delete_stacks :: "string list list" where
  "delete_stacks =
     [[], [''Delete''], [''Object'', ''Delete''], [''Quiet'', ''Delete''], [''Key'', ''Object'', ''Delete''],
      [''VersionId'', ''Object'', ''Delete''], [''ETag'', ''Object'', ''Delete'']]"

definition entry_ok :: "delete_object_entry \<Rightarrow> bool" where
  "entry_ok e \<longleftrightarrow> fst e \<noteq> [] \<and> fst (snd e) \<noteq> Some [] \<and> snd (snd e) \<noteq> Some []"

text \<open>The invariant of the parser.\<close>

definition delete_inv :: "delete_state \<Rightarrow> bool" where
  "delete_inv st \<longleftrightarrow>
     ds_stack st \<in> set delete_stacks \<and> length (ds_objects st) \<le> 1000 \<and>
     (''Object'' \<in> set (ds_stack st) \<longrightarrow> length (ds_objects st) < 1000) \<and> list_all entry_ok (ds_objects st) \<and>
     (ds_version st = Some [] \<longrightarrow> take 1 (ds_stack st) = [''VersionId'']) \<and>
     (ds_etag st = Some [] \<longrightarrow> take 1 (ds_stack st) = [''ETag'']) \<and>
     (ds_root_closed st \<longrightarrow> ds_objects st \<noteq> [])"

lemma event_loop_inv:
  assumes "event_loop step st es = Ok st'" "P st" "\<And>st e st'. P st \<Longrightarrow> step st e = Ok st' \<Longrightarrow> P st'"
  shows "P st'"
  using assms(1,2)
proof (induction es arbitrary: st)
  case (Cons e es)
  then show ?case using assms(3) by (cases "step st e") auto
qed simp

lemma delete_start_inv:
  assumes "delete_inv st" "delete_start st name = Ok st1"
  shows "delete_inv (st1\<lparr>ds_stack := name # ds_stack st1\<rparr>)"
  using assms by (auto simp: delete_inv_def delete_start_def delete_stacks_def split: if_splits)

lemma stack_cases:
  assumes "delete_inv st"
  obtains "ds_stack st = []" | "ds_stack st = [''Delete'']" | "ds_stack st = [''Object'', ''Delete'']" | "ds_stack st = [''Quiet'', ''Delete'']"
    | "ds_stack st = [''Key'', ''Object'', ''Delete'']" | "ds_stack st = [''VersionId'', ''Object'', ''Delete'']"
    | "ds_stack st = [''ETag'', ''Object'', ''Delete'']"
  using assms unfolding delete_inv_def delete_stacks_def by auto

lemma append_text_Ok: "append_text cur name value = Ok t \<longleftrightarrow> (\<exists>u. cur = Some u \<and> t = Some (u @ value))"
  by (auto simp: append_text_def split: option.splits)

lemma bind_Ok: "bind_result m f = Ok a \<longleftrightarrow> (\<exists>x. m = Ok x \<and> f x = Ok a)"
  by (cases m) auto

lemma delete_text_inv:
  assumes "delete_inv st" "delete_text st value msg = Ok st1"
  shows "delete_inv st1"
  using assms(1)
proof (cases rule: stack_cases)
  case 1
  with assms show ?thesis by (simp add: delete_text_def split: if_splits)
next
  case 2
  with assms show ?thesis by (simp add: delete_text_def split: if_splits)
next
  case 3
  with assms show ?thesis by (simp add: delete_text_def split: if_splits)
qed (use assms in \<open>auto simp: delete_text_def bind_Ok append_text_Ok delete_inv_def\<close>)

lemma delete_end_cases:
  "delete_end st ''Key'' = Ok st1 \<Longrightarrow> st1 = st\<lparr>ds_stack := tl (ds_stack st)\<rparr>"
  "delete_end st ''VersionId'' = Ok st1 \<Longrightarrow> ds_version st \<noteq> Some [] \<and> st1 = st\<lparr>ds_stack := tl (ds_stack st)\<rparr>"
  "delete_end st ''ETag'' = Ok st1 \<Longrightarrow> ds_etag st \<noteq> Some [] \<and> st1 = st\<lparr>ds_stack := tl (ds_stack st)\<rparr>"
  "delete_end st ''Quiet'' = Ok st1 \<Longrightarrow> st1 = st\<lparr>ds_stack := tl (ds_stack st)\<rparr>"
  "delete_end st ''Delete'' = Ok st1 \<Longrightarrow> ds_objects st \<noteq> [] \<and> st1 = st\<lparr>ds_root_closed := True, ds_stack := tl (ds_stack st)\<rparr>"
  "delete_end st ''Object'' = Ok st1 \<Longrightarrow> \<exists>c k. ds_key st = Some (c # k) \<and>
     st1 = st\<lparr>ds_objects := ds_objects st @ [(c # k, ds_version st, ds_etag st)], ds_key := None,
      ds_version := None, ds_etag := None, ds_stack := tl (ds_stack st)\<rparr>"
  by (simp_all add: delete_end_def blank_def split: if_splits option.splits list.splits)

lemma delete_end_inv:
  assumes "delete_inv st" "take 1 (ds_stack st) = [name]" "delete_end st name = Ok st1"
  shows "delete_inv st1"
proof -
  have name: "name = hd (ds_stack st)" using assms(2) by (cases "ds_stack st") auto
  show ?thesis
    using assms(1)
  proof (cases rule: stack_cases)
    case 1
    with assms(2) show ?thesis by simp
  next
    case 2
    with assms(1,3) delete_end_cases(5) [of st st1] show ?thesis by (simp add: name delete_inv_def delete_stacks_def)
  next
    case 3
    with assms(1,3) delete_end_cases(6) [of st st1] show ?thesis by (auto simp: name delete_inv_def delete_stacks_def entry_ok_def)
  next
    case 4
    with assms(1,3) delete_end_cases(4) [of st st1] show ?thesis by (simp add: name delete_inv_def delete_stacks_def)
  next
    case 5
    with assms(1,3) delete_end_cases(1) [of st st1] show ?thesis by (simp add: name delete_inv_def delete_stacks_def)
  next
    case 6
    with assms(1,3) delete_end_cases(2) [of st st1] show ?thesis by (simp add: name delete_inv_def delete_stacks_def)
  next
    case 7
    with assms(1,3) delete_end_cases(3) [of st st1] show ?thesis by (simp add: name delete_inv_def delete_stacks_def)
  qed
qed

lemma delete_event_inv:
  assumes "delete_inv st" "delete_event L st e = Ok st1"
  shows "delete_inv st1"
  using assms(2)
proof (cases e)
  case (StartTag name local attrs)
  with assms show ?thesis by (auto simp: bind_Ok split: if_splits intro: delete_start_inv)
next
  case (CharText t)
  with assms show ?thesis by (auto simp: bind_Ok intro: delete_text_inv)
next
  case (EndTag name local)
  with assms show ?thesis by (auto simp del: One_nat_def split: if_splits intro: delete_end_inv)
qed (use assms delete_text_inv in \<open>auto\<close>)

lemma delete_keys_inv:
  assumes "parse_delete_keys L xml = Ok entries"
  shows "entries \<noteq> [] \<and> length entries \<le> 1000 \<and> list_all entry_ok entries"
proof -
  let ?st0 = "\<lparr>ds_root_closed = False, ds_stack = [], ds_key = None, ds_version = None, ds_etag = None, ds_quiet = None,
         ds_quiet_seen = False, ds_objects = []\<rparr>"
  obtain st where st: "event_loop (delete_event L) ?st0 (xl_events L False xml) = Ok st" "ds_root_closed st" "entries = ds_objects st"
    using assms by (auto simp: parse_delete_keys_def bind_Ok split: if_splits)
  have "delete_inv st"
    using st(1)
  proof (rule event_loop_inv)
    show "delete_inv ?st0" by (simp add: delete_inv_def delete_stacks_def)
    show "delete_inv st2" if "delete_inv st1" "delete_event L st1 e = Ok st2" for st1 e st2
      using that by (rule delete_event_inv)
  qed
  with st show ?thesis by (simp add: delete_inv_def)
qed

text \<open>Every document of the expected shape is accepted, and yields its entries in order.\<close>

definition start_tag :: "string \<Rightarrow> xml_event" where
  "start_tag n = StartTag n n []"

definition end_tag :: "string \<Rightarrow> xml_event" where
  "end_tag n = EndTag n n"

definition text_tags :: "string \<Rightarrow> string \<Rightarrow> xml_event list" where
  "text_tags n t = [start_tag n, CharText t, end_tag n]"

fun entry_events :: "delete_object_entry \<Rightarrow> xml_event list" where
  "entry_events (key, version, etag) =
     start_tag ''Object'' # text_tags ''Key'' key
     @ (case version of None \<Rightarrow> [] | Some v \<Rightarrow> text_tags ''VersionId'' v)
     @ (case etag of None \<Rightarrow> [] | Some t \<Rightarrow> text_tags ''ETag'' t) @ [end_tag ''Object'']"

definition delete_document :: "delete_object_entry list \<Rightarrow> xml_event list" where
  "delete_document entries = start_tag ''Delete'' # concat (map entry_events entries) @ [end_tag ''Delete'']"

lemmas delete_steps = start_tag_def end_tag_def text_tags_def delete_attributes_valid_def delete_start_def delete_text_def
  append_text_def delete_end_def blank_def

lemma text_tags_loop:
  assumes "\<And>t. xl_unescape L t = Ok t" "ds_stack st = [''Object'', ''Delete'']" "\<not> ds_root_closed st" "v \<noteq> []"
  shows "ds_key st = None \<Longrightarrow> event_loop (delete_event L) st (text_tags ''Key'' v) = Ok (st\<lparr>ds_key := Some v\<rparr>)"
    "ds_version st = None \<Longrightarrow> event_loop (delete_event L) st (text_tags ''VersionId'' v) = Ok (st\<lparr>ds_version := Some v\<rparr>)"
    "ds_etag st = None \<Longrightarrow> event_loop (delete_event L) st (text_tags ''ETag'' v) = Ok (st\<lparr>ds_etag := Some v\<rparr>)"
  using assms by (simp_all add: delete_steps)

lemma entry_events_loop:
  assumes "\<And>t. xl_unescape L t = Ok t" "ds_stack st = [''Delete'']" "\<not> ds_root_closed st" "entry_ok e"
    and "length (ds_objects st) < 1000"
  shows "event_loop (delete_event L) st (entry_events e) =
     Ok (st\<lparr>ds_objects := ds_objects st @ [e], ds_key := None, ds_version := None, ds_etag := None\<rparr>)"
proof -
  obtain k v t where e: "e = (k, v, t)" by (cases e)
  let ?st = "st\<lparr>ds_stack := [''Object'', ''Delete''], ds_key := None, ds_version := None, ds_etag := None\<rparr>"
  have ne: "k \<noteq> []" "v \<noteq> Some []" "t \<noteq> Some []" using assms(4) by (simp_all add: e entry_ok_def)
  have start: "delete_event L st (start_tag ''Object'') = Ok ?st"
    using assms(2,3,5) by (simp add: delete_steps)
  have key: "event_loop (delete_event L) ?st (text_tags ''Key'' k) = Ok (?st\<lparr>ds_key := Some k\<rparr>)"
    using ne assms(1,3) by (simp add: text_tags_loop)
  have version: "event_loop (delete_event L) (?st\<lparr>ds_key := Some k\<rparr>) (case v of None \<Rightarrow> [] | Some v \<Rightarrow> text_tags ''VersionId'' v)
      = Ok (?st\<lparr>ds_key := Some k, ds_version := v\<rparr>)"
    using ne assms(1,3) by (cases v) (simp_all add: text_tags_loop)
  have etag: "event_loop (delete_event L) (?st\<lparr>ds_key := Some k, ds_version := v\<rparr>) (case t of None \<Rightarrow> [] | Some t \<Rightarrow> text_tags ''ETag'' t)
      = Ok (?st\<lparr>ds_key := Some k, ds_version := v, ds_etag := t\<rparr>)"
    using ne assms(1,3) by (cases t) (simp_all add: text_tags_loop)
  have finish: "delete_event L (?st\<lparr>ds_key := Some k, ds_version := v, ds_etag := t\<rparr>) (end_tag ''Object'') =
      Ok (st\<lparr>ds_objects := ds_objects st @ [e], ds_key := None, ds_version := None, ds_etag := None\<rparr>)"
    using ne assms(2) by (cases k) (simp_all add: delete_steps e)
  show ?thesis
    unfolding e entry_events.simps event_loop.simps start bind_result.simps event_loop_append key version etag
    using finish by (simp add: e)
qed

lemma entries_loop:
  assumes "\<And>t. xl_unescape L t = Ok t" "ds_stack st = [''Delete'']" "\<not> ds_root_closed st" "list_all entry_ok es"
    and "length (ds_objects st) + length es \<le> 1000" "ds_key st = None" "ds_version st = None" "ds_etag st = None"
  shows "event_loop (delete_event L) st (concat (map entry_events es)) = Ok (st\<lparr>ds_objects := ds_objects st @ es\<rparr>)"
  using assms(2-)
proof (induction es arbitrary: st)
  case (Cons e es)
  then show ?case
    by (simp add: event_loop_append entry_events_loop [OF assms(1)] del: entry_events.simps)
qed simp

lemma delete_document_accepted:
  assumes "\<And>t. xl_unescape L t = Ok t" "xl_events L False xml = delete_document es"
    and "es \<noteq> []" "length es \<le> 1000" "list_all entry_ok es"
  shows "parse_delete_keys L xml = Ok es"
proof -
  let ?st = "\<lparr>ds_root_closed = False, ds_stack = [], ds_key = None, ds_version = None, ds_etag = None, ds_quiet = None,
         ds_quiet_seen = False, ds_objects = []\<rparr>"
  have start: "delete_event L ?st (start_tag ''Delete'') = Ok (?st\<lparr>ds_stack := [''Delete'']\<rparr>)" by (simp add: delete_steps)
  have body: "event_loop (delete_event L) (?st\<lparr>ds_stack := [''Delete'']\<rparr>) (concat (map entry_events es))
      = Ok (?st\<lparr>ds_stack := [''Delete''], ds_objects := es\<rparr>)"
    using entries_loop [OF assms(1), where st = "?st\<lparr>ds_stack := [''Delete'']\<rparr>" and es = es] assms(4,5) by simp
  have finish: "delete_event L (?st\<lparr>ds_stack := [''Delete''], ds_objects := es\<rparr>) (end_tag ''Delete'')
      = Ok (?st\<lparr>ds_root_closed := True, ds_objects := es\<rparr>)"
    using assms(3) by (simp add: delete_steps)
  show ?thesis
    unfolding parse_delete_keys_def assms(2) delete_document_def event_loop.simps start bind_result.simps event_loop_append body
      finish by simp
qed


definition two_deletions :: "delete_object_entry list" where
  "two_deletions = [(''k1'', None, Some ''e1''), (''k2'', Some ''v2'', None)]"


section \<open>Escaping and tokens\<close>

text \<open>The chain of replacements of the bucket handlers and the single pass of the renderers agree.\<close>

lemma push_escaped_from_concat: "push_escaped_from out pending s = out @ pending @ concat (map escape_char s)"
  by (induction s arbitrary: out pending) simp_all

lemma escape_xml_concat: "escape_xml s = concat (map escape_char s)"
  by (simp add: escape_xml_def push_escaped_xml_def push_escaped_from_concat)

lemma replace_char_Cons: "replace_char c r (d # s) = (if d = c then r else [d]) @ replace_char c r s"
  by (simp add: replace_char_def)

lemma replace_char_append: "replace_char c r (s @ t) = replace_char c r s @ replace_char c r t"
  by (simp add: replace_char_def)

lemma replace_char_Nil: "replace_char c r [] = []"
  by (simp add: replace_char_def)

lemmas replace_char_steps = replace_char_Nil replace_char_Cons replace_char_append

text \<open>
  The two escaping functions agree: replacing the five characters one after the other, ampersands
  first, gives the text that the renderers' single pass over the characters writes.
\<close>

theorem escape_xml_str_eq: "escape_xml_str s = escape_xml s"
proof -
  have char: "escape_xml_str [c] = escape_char c" for c
    by (simp add: escape_xml_str_def escape_char_def replace_char_steps)
  have step: "escape_xml_str (c # s) = escape_xml_str [c] @ escape_xml_str s" for c s
    unfolding escape_xml_str_def by (simp only: replace_char_append [symmetric] append.simps)
  show ?thesis
  proof (induction s)
    case Nil
    then show ?case by (simp add: escape_xml_concat escape_xml_str_def replace_char_Nil)
  next
    case (Cons c s)
    then show ?case unfolding step [of c s] char by (simp add: escape_xml_concat)
  qed
qed

text \<open>A continuation token decodes to the marker it was made for.\<close>

lemma split_once_before: "c \<notin> set a \<Longrightarrow> split_once c (a @ c # b) = Some (a, b)"
  by (induction a) auto

lemma list_token_roundtrip:
  assumes "s3_token_decode L (s3_token_encode L (marker @ CHR 0x00 # token_digest x marker)) = Some (marker @ CHR 0x00 # token_digest x marker)"
    and "CHR 0x00 \<notin> set (token_digest x marker)" "marker \<noteq> []"
  shows "decode_list_objects_v2_token L x (encode_list_objects_v2_token L x marker) = Some marker"
proof -
  have "rsplit_once (CHR 0x00) (marker @ CHR 0x00 # token_digest x marker) = Some (marker, token_digest x marker)"
    using assms(2) by (simp add: rsplit_once_def split_once_before)
  with assms(1,3) show ?thesis by (simp add: decode_list_objects_v2_token_def encode_list_objects_v2_token_def)
qed

section \<open>Protection scans\<close>

text \<open>
  The scan of a namespace for protected objects ends within the rounds it is given, changes nothing and
  tells whether one of the objects is protected.
\<close>

definition namespace_protected :: "world \<Rightarrow> string \<Rightarrow> datetime \<Rightarrow> string option \<Rightarrow> bool" where
  "namespace_protected s b now marker \<longleftrightarrow>
     list_ex (\<lambda>ob. object_has_active_azure_protection (ext s) ob now)
       (List.map_filter (stored_metadata s b) (map path (all_entries s b None None marker)))"

lemma protection_scan_run:
  assumes "listable s b" and "length (all_entries s b None None marker) < fuel"
  shows "\<exists>s1. undisturbed s s1 \<and> protection_scan fuel b now marker s = (Done (Some (namespace_protected s b now marker)), s1)"
  using assms
proof (induction fuel arbitrary: s marker)
  case (Suc fuel)
  let ?es = "all_entries s b None None marker" and ?n = "1000 :: nat"
  let ?f = "\<lambda>es. List.map_filter (stored_metadata s b) (map path es)"
  let ?P = "\<lambda>ob. object_has_active_azure_protection (ext s) ob now"
  have n: "?n < u64_max" by (simp add: u64_max_def)
  obtain s1 where s1: "list_objects b None None marker (Some ?n) s = (Done (page_of (stored_metadata s b) ?n ?es), s1)"
    "undisturbed s s1"
    using listable_page [OF Suc.prems(1) n] .
  obtain ks where "?es = map (\<lambda>k. \<lparr>path = k, kind = ObjectEntry\<rparr>) ks" by (simp add: all_entries_def)
  then have objs: "objects (page_of (stored_metadata s b) ?n ?es) = ?f (take ?n ?es)"
    by (simp add: listed_objects take_map comp_def)
  have split: "?f ?es = ?f (take ?n ?es) @ ?f (drop ?n ?es)"
    by (metis append_take_drop_id map_append map_filter_append)
  have x: "ext s1 = ext s" using undisturbed_facts(3) [OF s1(2)] by (simp add: rest_same_def)
  note step = protection_scan.simps(2) bind_io_def try_io_def s1(1) gets_def return_def x objs
  show ?case
  proof (cases "list_ex ?P (?f (take ?n ?es)) \<or> \<not> ?n < length ?es")
    case True
    have "take ?n ?es = ?es" if "\<not> ?n < length ?es" using that by simp
    moreover have "is_truncated (page_of (stored_metadata s b) ?n ?es) = (?n < length ?es)" by (simp add: page_of_def)
    ultimately have "protection_scan (Suc fuel) b now marker s = (Done (Some (namespace_protected s b now marker)), s1)"
      using True unfolding namespace_protected_def split by (auto simp: step)
    with s1(2) show ?thesis by blast
  next
    case False
    then obtain m where m: "next_marker (page_of (stored_metadata s b) ?n ?es) = Some m"
      by (simp add: page_of_def next_page_marker_def)
    have nx: "all_entries s b None None (Some m) = drop ?n ?es"
      using all_entries_next [of ?n s b None None marker m] m by (simp add: page_of_def)
    have fresh: "marker \<noteq> Some m"
    proof
      assume "marker = Some m"
      then have "length ?es = length ?es - ?n" using arg_cong [OF nx, of length] by simp
      moreover have "?n < length ?es" using False by blast
      ultimately show False by linarith
    qed
    note same = listable_undisturbed [OF s1(2) Suc.prems(1)]
    have "length (all_entries s1 b None None (Some m)) < fuel" unfolding same nx length_drop using Suc.prems(2) False by linarith
    from Suc.IH [OF same(1) this] obtain s2 where
      s2: "undisturbed s1 s2" "protection_scan fuel b now (Some m) s1 = (Done (Some (namespace_protected s1 b now (Some m))), s2)" by blast
    have "namespace_protected s1 b now (Some m) = namespace_protected s b now marker"
      using False unfolding namespace_protected_def split by (simp add: same nx x)
    moreover have "is_truncated (page_of (stored_metadata s b) ?n ?es)" using False by (simp add: page_of_def)
    ultimately have "protection_scan (Suc fuel) b now marker s = (Done (Some (namespace_protected s b now marker)), s2)"
      using False s2(2) m fresh by (simp add: step)
    with undisturbed_trans [OF s1(2) s2(1)] show ?thesis by blast
  qed
qed simp

lemma azure_object_protection_decides:
  assumes "listable s b"
  shows "\<exists>s1. undisturbed s s1 \<and> azure_object_protection_active b s =
     (Done (\<not> azure_object_protection_absent s b \<and> namespace_protected s b (ext_now (ext s) (clock_count s)) None), s1)"
proof (cases "azure_object_protection_absent s b")
  case True
  then show ?thesis using assms undisturbed_refl by (auto simp: azure_object_protection_active_def bind_io_def gets_def return_def listable_def)
next
  case False
  let ?t = "tick 1 s"
  have u: "undisturbed s ?t" using assms undisturbed_tick unfolding listable_def by blast
  note same = listable_undisturbed [OF u assms]
  have fuel: "length (all_entries ?t b None None None) < listing_fuel s b" unfolding same by (rule all_entries_fuel [OF assms])
  have x: "ext ?t = ext s" "st_index ?t = st_index s" by simp_all
  obtain s1 where s1: "undisturbed ?t s1" "protection_scan (listing_fuel s b) b (ext_now (ext s) (clock_count s)) None ?t =
      (Done (Some (namespace_protected ?t b (ext_now (ext s) (clock_count s)) None)), s1)"
    using protection_scan_run [OF same(1) fuel] by blast
  have "namespace_protected ?t b now None = namespace_protected s b now None" for now
    unfolding namespace_protected_def same x by (rule refl)
  with s1 False undisturbed_trans [OF u s1(1)] show ?thesis
    by (auto simp: azure_object_protection_active_def bind_io_def gets_def now_io_def of_result_def return_def listing_fuel_def simp del: protection_scan.simps)
qed

end
