(* ===== verification/Smtp_Session.thy ===== *)
theory Smtp_Session
  imports Mail Texts
begin

text \<open>
  The SMTP server that captures mail (\<^verbatim>\<open>src/src/mail/smtp.rs\<close>): command lines, envelope addresses, the
  payload of \<^verbatim>\<open>DATA\<close>, the message built from it, and the session that ties them together.

  A connection is the bytes that will still arrive, the error that follows them (none at the end of the
  stream), the lines sent so far, and how many more lines can be written before writing fails.
\<close>

record connection =
  cn_input :: bytes
  cn_read_error :: "string option"
  cn_sent :: "string list"
  cn_writes :: "(nat \<times> string) option"

record transaction =
  tx_from :: "address option"
  tx_recipients :: "address list"

definition default_transaction :: transaction where
  "default_transaction = \<lparr>tx_from = None, tx_recipients = []\<rparr>"

definition write_line :: "connection \<Rightarrow> string \<Rightarrow> connection res" where
  "write_line c text =
     (case cn_writes c of
        None \<Rightarrow> Ok (c\<lparr>cn_sent := cn_sent c @ [text]\<rparr>)
      | Some (0, e) \<Rightarrow> Err (InternalError e)
      | Some (Suc n, e) \<Rightarrow> Ok (c\<lparr>cn_sent := cn_sent c @ [text], cn_writes := Some (n, e)\<rparr>))"

section \<open>Command lines\<close>

datatype command_line = Valid string | Invalid string

definition LF :: byte where "LF = 10"
definition CR :: byte where "CR = 13"
definition DOT :: byte where "DOT = 46"

text \<open>The bytes of one line: what is kept of it, whether more came, and what follows the line feed.\<close>

fun take_line :: "bytes \<Rightarrow> bool \<Rightarrow> bytes \<Rightarrow> (bytes \<times> bool \<times> bytes) option" where
  "take_line line too_long [] = None"
| "take_line line too_long (b # input) =
     (let full = \<not> length line < 512;
          line = (if full then line else line @ [b]);
          too_long = (too_long \<or> full) in
      if b = LF then Some (line, too_long, input) else take_line line too_long input)"

definition end_of_input :: "connection \<Rightarrow> 'a option res" where
  "end_of_input c = (case cn_read_error c of None \<Rightarrow> Ok None | Some e \<Rightarrow> Err (InternalError e))"

definition next_line :: "connection \<Rightarrow> (command_line \<times> connection) option res" where
  "next_line c =
     (case take_line [] False (cn_input c) of
        None \<Rightarrow> end_of_input c
      | Some (line, too_long, input) \<Rightarrow>
          let c = c\<lparr>cn_input := input\<rparr> in
          if too_long then Ok (Some (Invalid ''500 Command line too long'', c))
          else if \<not> suffix [CR, LF] line then Ok (Some (Invalid ''501 Command must end with CRLF'', c))
          else
            let text = bytes_text (take (length line - 2) line) in
            Ok (Some (if utf8_valid text then Valid text else Invalid ''500 Command is not valid UTF-8'', c)))"

definition split_command :: "string \<Rightarrow> (string \<times> string) option" where
  "split_command line =
     (if line = [] \<or> take 1 line = '' '' \<or> list_ex is_control (utf8_chars line) then None
      else
        let (command, rest) = (case split_once (CHR '' '') line of None \<Rightarrow> (line, []) | Some p \<Rightarrow> p) in
        Some (to_ascii_uppercase command, str_trim rest))"

definition command_argument_error :: "string \<Rightarrow> string \<Rightarrow> bool \<Rightarrow> string option" where
  "command_argument_error command rest has_parameters =
     (if (command = ''EHLO'' \<or> command = ''HELO'') \<and> (rest = [] \<or> list_ex is_whitespace (utf8_chars rest))
      then Some ''501 Domain/address required''
      else if (command = ''DATA'' \<or> command = ''RSET'' \<or> command = ''QUIT'') \<and> has_parameters
      then Some ''501 Command does not accept arguments''
      else None)"

section \<open>Envelope addresses\<close>

definition unsupported_envelope_parameters :: "string \<Rightarrow> bool" where
  "unsupported_envelope_parameters rest =
     (case split_once (CHR ''>'') rest of
        None \<Rightarrow> False
      | Some (_, parameters) \<Rightarrow> take 1 parameters = '' '' \<and> str_trim parameters \<noteq> [])"

definition parse_address :: "string \<Rightarrow> string \<Rightarrow> bool \<Rightarrow> address option" where
  "parse_address rest pfx allow_null =
     (let rest = str_trim rest in
      if length rest < length pfx \<or> \<not> eq_ignore_ascii_case (take (length pfx) rest) pfx then None
      else
        Option.bind (strip_prefix ''<'' (str_trim (drop (length pfx) rest))) (\<lambda>after.
        Option.bind (split_once (CHR ''>'') after) (\<lambda>(inside, parameters).
        let email = str_trim inside in
        if str_trim parameters \<noteq> [] then None
        else if allow_null \<and> email = [] then Some (new_address [])
        else if email = [] \<or> CHR ''<'' \<in> set email \<or> CHR ''>'' \<in> set email \<or> list_ex is_whitespace (utf8_chars email) then None
        else Some (new_address email))))"

section \<open>The payload\<close>

definition unescape_line :: "bytes \<Rightarrow> bytes" where
  "unescape_line line = (case line of [] \<Rightarrow> [] | b # rest \<Rightarrow> if b = DOT then rest else line)"

text \<open>
  The loop of \<^verbatim>\<open>read_data\<close> over the bytes that arrive: the text so far, the current line as far as it is kept,
  and whether the limit was exceeded. The result is the text, whether it was too large, and the input after
  the line with the single dot.
\<close>

fun read_lines :: "nat \<Rightarrow> bytes \<Rightarrow> bytes \<Rightarrow> bool \<Rightarrow> bytes \<Rightarrow> (bytes \<times> bool \<times> bytes) option" where
  "read_lines limit raw line too_large [] = None"
| "read_lines limit raw line too_large (b # input) =
     (let line_limit = (if too_large then 3 else saturating_add_usize limit 3);
          full = \<not> length line < line_limit;
          line = (if full then line else line @ [b]);
          raw = (if full then [] else raw);
          too_large = (too_large \<or> full) in
      if b \<noteq> LF then read_lines limit raw line too_large input
      else
        let ended = suffix [CR, LF] line;
            line = (if ended then take (length line - 2) line else butlast line) in
        if ended \<and> line = [DOT] then Some (raw, too_large, input)
        else if too_large then read_lines limit raw [] True input
        else
          let unescaped = unescape_line line;
              added = saturating_add_usize (length unescaped) 1 in
          if saturating_add_usize (length raw) added > limit then read_lines limit [] [] True input
          else read_lines limit (raw @ unescaped @ [LF]) [] False input)"

definition raw_capture_limit :: nat where
  "raw_capture_limit = MAX_CAPTURE_BYTES div 14"

definition read_data :: "connection \<Rightarrow> nat \<Rightarrow> bytes res option res \<times> connection" where
  "read_data c max_message_bytes =
     (let input_limit = min max_message_bytes raw_capture_limit in
      case read_lines input_limit [] [] False (cn_input c) of
        None \<Rightarrow> (end_of_input c, c\<lparr>cn_input := []\<rparr>)
      | Some (raw, too_large, input) \<Rightarrow>
          (Ok (Some (if too_large \<and> input_limit < max_message_bytes then Err CaptureTooLarge
                     else if too_large
                     then Err (InvalidRequest (''message exceeds the '' @ show_nat max_message_bytes @ ''-byte emulator limit''))
                     else Ok raw)), c\<lparr>cn_input := input\<rparr>))"

section \<open>The message\<close>

text \<open>
  The text between the first opening and the last closing bracket. Where the closing bracket comes first
  the slice \<^verbatim>\<open>value[start + 1..end]\<close> panics: the value \<open>None\<close>.
\<close>

definition between_brackets :: "string \<Rightarrow> string option" where
  "between_brackets value =
     (if CHR ''<'' \<in> set value \<and> CHR ''>'' \<in> set value
      then
        let start = length (takeWhile (\<lambda>c. c \<noteq> CHR ''<'') value);
            stop = length value - Suc (length (takeWhile (\<lambda>c. c \<noteq> CHR ''>'') (rev value)))
        in if start + 1 \<le> stop then Some (take (stop - (start + 1)) (drop (start + 1) value)) else None
      else Some value)"

definition parse_header_address :: "string \<Rightarrow> address option option" where
  "parse_header_address value =
     (let value = str_trim value in
      if value = [] then Some None
      else map_option (\<lambda>v. if v = [] then None else Some (new_address (str_trim v))) (between_brackets value))"

fun parse_addresses :: "string list \<Rightarrow> address list option" where
  "parse_addresses [] = Some []"
| "parse_addresses (value # rest) =
     Option.bind (parse_header_address value) (\<lambda>r.
     map_option (\<lambda>out. (case r of Some a \<Rightarrow> a # out | None \<Rightarrow> out)) (parse_addresses rest))"

definition parse_header_address_list :: "string \<Rightarrow> address list option" where
  "parse_header_address_list value = parse_addresses (split_on (CHR '','') value)"

fun header_map :: "string list \<Rightarrow> strmap \<Rightarrow> strmap" where
  "header_map [] m = m"
| "header_map (line # rest) m =
     (case split_once (CHR '':'') line of
        Some (name, value) \<Rightarrow> header_map rest (m(to_ascii_lowercase (str_trim name) \<mapsto> str_trim value))
      | None \<Rightarrow> header_map rest m)"

definition or_default :: "'a \<Rightarrow> 'a option \<Rightarrow> 'a" where
  "or_default d v = (case v of Some a \<Rightarrow> a | None \<Rightarrow> d)"

text \<open>The value is \<open>None\<close> when the parser of a header address panics.\<close>

definition build_message :: "transaction \<Rightarrow> bytes \<Rightarrow> message option" where
  "build_message tx raw =
     (let text = utf8_lossy (bytes_text raw);
          (header_block, body) =
            (case split_once_str [CHR 0x0A, CHR 0x0A] text of Some p \<Rightarrow> p | None \<Rightarrow> (text, []));
          hs = header_map (str_lines header_block) Map.empty;
          get = (\<lambda>a b d. case hs a of Some v \<Rightarrow> v | None \<Rightarrow> or_default d (hs b)) in
      Option.bind (parse_header_address (get ''from'' ''x-envelope-from'' ''unknown@localhost'')) (\<lambda>from_header.
      Option.bind (parse_header_address_list (get ''to'' ''x-envelope-to'' [])) (\<lambda>to_header.
      Option.bind (parse_header_address_list (or_default [] (hs ''cc''))) (\<lambda>cc.
      Option.bind (parse_header_address_list (or_default [] (hs ''bcc''))) (\<lambda>bcc.
      Some
        \<lparr>msg_source_protocol = Smtp,
         msg_from = or_default (or_default (new_address ''unknown@localhost'') from_header) (tx_from tx),
         msg_to = (if tx_recipients tx = [] then to_header else tx_recipients tx),
         msg_cc = cc, msg_bcc = bcc, msg_reply_to = [],
         msg_subject = or_default [] (hs ''subject''), msg_headers = hs,
         msg_body_text = Some (str_trim body), msg_body_html = None, msg_attachments = [],
         msg_tracking_disabled = None, msg_provider_metadata = Map.empty,
         msg_raw_mime = Some raw, msg_thread_id = None\<rparr>)))))"

section \<open>The session\<close>

text \<open>
  The store is the function \<open>capture\<close> that files a message. A session ends when the client leaves or the
  stream ends (\<open>Closed\<close>), when the socket fails (\<open>Broken\<close>), or when building a message panics.
\<close>

record smtp_session =
  ss_connection :: connection
  ss_transaction :: transaction
  ss_greeted :: bool

datatype smtp_flow = Again | Closed | Broken error | Panicked

type_synonym smtp_step = "(smtp_session \<times> smtp_flow) io"

definition reply :: "smtp_session \<Rightarrow> string \<Rightarrow> smtp_flow \<Rightarrow> smtp_session \<times> smtp_flow" where
  "reply ss text flow =
     (case write_line (ss_connection ss) text of
        Ok c \<Rightarrow> (ss\<lparr>ss_connection := c\<rparr>, flow)
      | Err e \<Rightarrow> (ss, Broken e))"

definition reset :: "smtp_session \<Rightarrow> smtp_session" where
  "reset ss = ss\<lparr>ss_transaction := default_transaction\<rparr>"

definition smtp_mail :: "smtp_session \<Rightarrow> string \<Rightarrow> smtp_session \<times> smtp_flow" where
  "smtp_mail ss rest =
     (if \<not> ss_greeted ss \<or> tx_from (ss_transaction ss) \<noteq> None then reply ss ''503 Bad sequence of commands'' Again
      else
        case parse_address rest ''FROM:'' True of
          Some a \<Rightarrow> reply (ss\<lparr>ss_transaction := (ss_transaction ss)\<lparr>tx_from := Some a\<rparr>\<rparr>) ''250 OK'' Again
        | None \<Rightarrow>
            if unsupported_envelope_parameters rest then reply ss ''555 MAIL FROM parameters not supported'' Again
            else reply ss ''501 Syntax error in MAIL FROM'' Again)"

definition smtp_rcpt :: "smtp_session \<Rightarrow> string \<Rightarrow> smtp_session \<times> smtp_flow" where
  "smtp_rcpt ss rest =
     (let tx = ss_transaction ss in
      if tx_from tx = None then reply ss ''503 Bad sequence of commands'' Again
      else
        case parse_address rest ''TO:'' False of
          Some a \<Rightarrow> reply (ss\<lparr>ss_transaction := tx\<lparr>tx_recipients := tx_recipients tx @ [a]\<rparr>\<rparr>) ''250 OK'' Again
        | None \<Rightarrow>
            if unsupported_envelope_parameters rest then reply ss ''555 RCPT TO parameters not supported'' Again
            else reply ss ''501 Syntax error in RCPT TO'' Again)"

text \<open>A message handed to the store, and the answer.\<close>

definition smtp_file :: "(message \<Rightarrow> unit io) \<Rightarrow> smtp_session \<Rightarrow> message \<Rightarrow> smtp_step" where
  "smtp_file capture ss m =
     bind_io (try_io (capture m)) (\<lambda>r.
     return
       (case r of
          Ok _ \<Rightarrow> reply (reset ss) ''250 OK: message accepted'' Again
        | Err e \<Rightarrow> reply (reset ss) ((if e = CaptureTooLarge then ''552 '' else ''451 '') @ error_text e) Again))"

definition smtp_payload :: "(message \<Rightarrow> unit io) \<Rightarrow> transaction \<Rightarrow> bytes res option res \<Rightarrow> smtp_session \<Rightarrow> smtp_step" where
  "smtp_payload capture tx r ss =
     (case r of
        Err e \<Rightarrow> return (ss, Broken e)
      | Ok None \<Rightarrow> return (ss, Closed)
      | Ok (Some (Err e)) \<Rightarrow>
          return
            (case e of
               InvalidRequest m \<Rightarrow> reply (reset ss) (''552 '' @ m) Again
             | CaptureTooLarge \<Rightarrow> reply (reset ss) (''552 '' @ error_text CaptureTooLarge) Again
             | _ \<Rightarrow> (ss, Broken e))
      | Ok (Some (Ok raw)) \<Rightarrow>
          (case build_message tx raw of
             None \<Rightarrow> return (ss, Panicked)
           | Some m \<Rightarrow> smtp_file capture ss m))"

definition smtp_data :: "(message \<Rightarrow> unit io) \<Rightarrow> nat \<Rightarrow> smtp_session \<Rightarrow> smtp_step" where
  "smtp_data capture max_message_bytes ss =
     (let tx = ss_transaction ss in
      if tx_from tx = None \<or> tx_recipients tx = [] then return (reply ss ''503 Bad sequence of commands'' Again)
      else
        let (ss, flow) = reply ss ''354 Start mail input; end with <CRLF>.<CRLF>'' Again in
        if flow \<noteq> Again then return (ss, flow)
        else
          let (r, c) = read_data (ss_connection ss) max_message_bytes in
          smtp_payload capture tx r (ss\<lparr>ss_connection := c\<rparr>))"

definition smtp_command :: "(message \<Rightarrow> unit io) \<Rightarrow> nat \<Rightarrow> smtp_session \<Rightarrow> string \<Rightarrow> smtp_step" where
  "smtp_command capture max_message_bytes ss line =
     (case split_command line of
        None \<Rightarrow> return (reply ss ''500 Command not recognized'' Again)
      | Some (command, rest) \<Rightarrow>
          case command_argument_error command rest (CHR '' '' \<in> set line) of
            Some e \<Rightarrow> return (reply ss e Again)
          | None \<Rightarrow>
              if command = ''EHLO'' \<or> command = ''HELO''
              then return (reply (reset (ss\<lparr>ss_greeted := True\<rparr>)) ''250 sqrzl-emulator'' Again)
              else if command = ''MAIL'' then return (smtp_mail ss rest)
              else if command = ''RCPT'' then return (smtp_rcpt ss rest)
              else if command = ''DATA'' then smtp_data capture max_message_bytes ss
              else if command = ''RSET'' then return (reply (reset ss) ''250 OK'' Again)
              else if command = ''NOOP'' then return (reply ss ''250 OK'' Again)
              else if command = ''QUIT'' then return (reply ss ''221 Bye'' Closed)
              else return (reply ss ''502 Command not implemented'' Again))"

text \<open>One round of the loop of \<^verbatim>\<open>handle_session\<close>.\<close>

definition smtp_round :: "(message \<Rightarrow> unit io) \<Rightarrow> nat \<Rightarrow> smtp_session \<Rightarrow> smtp_step" where
  "smtp_round capture max_message_bytes ss =
     (case next_line (ss_connection ss) of
        Err e \<Rightarrow> return (ss, Broken e)
      | Ok None \<Rightarrow> return (ss, Closed)
      | Ok (Some (Invalid text, c)) \<Rightarrow> return (reply (ss\<lparr>ss_connection := c\<rparr>) text Again)
      | Ok (Some (Valid line, c)) \<Rightarrow> smtp_command capture max_message_bytes (ss\<lparr>ss_connection := c\<rparr>) line)"

subsection \<open>Every round consumes input\<close>

abbreviation pending :: "smtp_session \<Rightarrow> nat" where
  "pending ss \<equiv> length (cn_input (ss_connection ss))"

lemma take_line_shrinks: "take_line line too_long input = Some (l, t, rest) \<Longrightarrow> length rest < length input"
  by (induction input arbitrary: line too_long) (auto simp: Let_def split: if_splits dest: less_SucI)

lemma read_lines_shrinks: "read_lines limit raw line too_large input = Some (r, t, rest) \<Longrightarrow> length rest < length input"
proof (induction input arbitrary: raw line too_large)
  case (Cons b input)
  then show ?case by (auto simp: Let_def split: if_splits dest: less_SucI)
qed simp

lemma reply_input [simp]: "cn_input (ss_connection (fst (reply ss text flow))) = cn_input (ss_connection ss)"
  by (simp add: reply_def write_line_def split: option.split prod.split nat.split)

lemma read_data_input: "length (cn_input (snd (read_data c n))) \<le> length (cn_input c)"
  using read_lines_shrinks by (fastforce simp: read_data_def Let_def split: option.split prod.split)

lemma reset_connection [simp]: "ss_connection (reset ss) = ss_connection ss"
  by (simp add: reset_def)

lemma smtp_mail_input [simp]: "cn_input (ss_connection (fst (smtp_mail ss rest))) = cn_input (ss_connection ss)"
  by (simp add: smtp_mail_def split: option.split)

lemma smtp_rcpt_input [simp]: "cn_input (ss_connection (fst (smtp_rcpt ss rest))) = cn_input (ss_connection ss)"
  by (simp add: smtp_rcpt_def Let_def split: option.split)

text \<open>\<open>yields P m\<close>: whenever \<open>m\<close> returns, its value satisfies \<open>P\<close>.\<close>

definition yields :: "('a \<Rightarrow> bool) \<Rightarrow> 'a io \<Rightarrow> bool" where
  "yields P m \<longleftrightarrow> (\<forall>s a s'. m s = (Done a, s') \<longrightarrow> P a)"

lemma yields_return [simp]: "yields P (return a) \<longleftrightarrow> P a"
  by (simp add: yields_def return_def)

lemma yields_bind: "(\<And>a. yields P (f a)) \<Longrightarrow> yields P (bind_io m f)"
  by (auto simp: yields_def bind_io_def split: prod.splits outcome.splits)

lemma smtp_file_input: "yields (\<lambda>p. pending (fst p) = pending ss) (smtp_file capture ss m)"
  unfolding smtp_file_def by (rule yields_bind) (simp add: case_prod_unfold split: result.split)

lemma smtp_payload_input: "yields (\<lambda>p. pending (fst p) = pending ss) (smtp_payload capture tx r ss)"
  unfolding smtp_payload_def
  by (simp add: smtp_file_input case_prod_unfold split: result.split option.split error.split)

lemma smtp_data_input: "yields (\<lambda>p. pending (fst p) \<le> pending ss) (smtp_data capture n ss)"
proof -
  obtain ss' flow where rep: "reply ss ''354 Start mail input; end with <CRLF>.<CRLF>'' Again = (ss', flow)" by force
  have same: "pending ss' = pending ss" using reply_input [of ss] rep by (metis fst_conv)
  obtain r c where read: "read_data (ss_connection ss') n = (r, c)" by force
  have le: "length (cn_input c) \<le> pending ss" using read_data_input [of "ss_connection ss'" n] read same by simp
  have "yields (\<lambda>p. pending (fst p) \<le> pending ss) (smtp_payload capture tx r (ss'\<lparr>ss_connection := c\<rparr>))" for tx
    using smtp_payload_input [of "ss'\<lparr>ss_connection := c\<rparr>" capture tx r] le by (fastforce simp: yields_def)
  then show ?thesis by (simp add: smtp_data_def Let_def rep read same case_prod_unfold)
qed

lemma smtp_command_input: "yields (\<lambda>p. pending (fst p) \<le> pending ss) (smtp_command capture n ss line)"
proof (cases "split_command line")
  case (Some p)
  obtain command rest where p: "p = (command, rest)" by force
  show ?thesis
    by (cases "command_argument_error command rest (CHR '' '' \<in> set line)")
      (simp_all add: smtp_command_def Some p smtp_data_input)
qed (simp add: smtp_command_def)

lemma next_line_shrinks: "next_line c = Ok (Some (l, c1)) \<Longrightarrow> length (cn_input c1) < length (cn_input c)"
  by (auto simp: next_line_def end_of_input_def Let_def dest: take_line_shrinks split: option.splits if_splits prod.splits)

lemma smtp_round_shrinks:
  assumes "smtp_round capture n ss s = (Done (ss1, Again), s1)"
  shows "pending ss1 < pending ss"
proof -
  from assms obtain l c where l: "next_line (ss_connection ss) = Ok (Some (l, c))"
    by (auto simp: smtp_round_def return_def split: result.splits option.splits)
  have "yields (\<lambda>p. pending (fst p) \<le> length (cn_input c)) (smtp_round capture n ss)"
    using smtp_command_input [of "ss\<lparr>ss_connection := c\<rparr>" capture n]
    by (cases l) (simp_all add: smtp_round_def l case_prod_unfold)
  with assms have "pending ss1 \<le> length (cn_input c)" by (auto simp: yields_def)
  with next_line_shrinks [OF l] show ?thesis by simp
qed

text \<open>The loop, and a session on the store of \<open>Mail\<close>.\<close>

function smtp_loop :: "(message \<Rightarrow> unit io) \<Rightarrow> nat \<Rightarrow> smtp_session \<Rightarrow> smtp_step" where
  "smtp_loop capture n ss s =
     (case smtp_round capture n ss s of
        (Done (ss1, flow), s1) \<Rightarrow> if flow = Again then smtp_loop capture n ss1 s1 else (Done (ss1, flow), s1)
      | (r, s1) \<Rightarrow> (r, s1))"
  by pat_completeness auto
termination
  by (relation "measure (\<lambda>(capture, n, ss, s). pending ss)") (auto dest: smtp_round_shrinks [OF sym])

declare smtp_loop.simps [simp del]

definition smtp_serve :: "(message \<Rightarrow> unit io) \<Rightarrow> nat \<Rightarrow> connection \<Rightarrow> smtp_step" where
  "smtp_serve capture max_message_bytes c =
     (let (ss, flow) = reply \<lparr>ss_connection = c, ss_transaction = default_transaction, ss_greeted = False\<rparr>
            ''220 sqrzl-emulator SMTP ready'' Again in
      if flow = Again then smtp_loop capture max_message_bytes ss else return (ss, flow))"

definition handle_session :: "json_sizes \<Rightarrow> path \<Rightarrow> connection \<Rightarrow> nat \<Rightarrow> smtp_step" where
  "handle_session js root c max_message_bytes =
     smtp_serve (\<lambda>m. then_io (fan_out js root m) (return ())) max_message_bytes c"

end
