(* ===== verification/Smtp_Correct.thy ===== *)
theory Smtp_Correct
  imports Smtp_Session Capture_Correct
begin

text \<open>
  The SMTP server: payloads are read exactly and never past their end, only complete envelopes reach the
  store, and a transaction is captured with its envelope and its payload.
\<close>

section \<open>Payloads\<close>

text \<open>A line as a client sends it, with a leading dot doubled, and a whole payload on the wire.\<close>

definition stuff :: "bytes \<Rightarrow> bytes" where
  "stuff l = (if take 1 l = [DOT] then DOT # l else l)"

definition wire :: "bytes list \<Rightarrow> bytes" where
  "wire ls = concat (map (\<lambda>l. stuff l @ [CR, LF]) ls) @ [DOT, CR, LF]"

definition raw_of :: "bytes list \<Rightarrow> bytes" where
  "raw_of ls = concat (map (\<lambda>l. l @ [LF]) ls)"

lemma byte_names [simp]: "CR \<noteq> LF" "LF \<noteq> CR" "DOT \<noteq> LF" "LF \<noteq> DOT" "DOT \<noteq> CR" "CR \<noteq> DOT"
  by (simp_all add: CR_def LF_def DOT_def)

lemma stuff_line: "stuff l \<noteq> [DOT]" "LF \<notin> set l \<Longrightarrow> LF \<notin> set (stuff l)" "length (stuff l) \<le> Suc (length l)"
  "unescape_line (stuff l) = l"
  by (cases l; simp add: stuff_def unescape_line_def)+

lemma sat_add_gt [simp]: "limit < u64_max \<Longrightarrow> limit < saturating_add_usize a b \<longleftrightarrow> limit < a + b"
  by (auto simp: saturating_add_usize_def)

declare read_lines.simps(2) [simp del]

lemma read_byte:
  assumes "b \<noteq> LF"
  shows "length line < 3 \<Longrightarrow> read_lines limit raw line True (b # input) = read_lines limit raw (line @ [b]) True input"
    "3 \<le> length line \<Longrightarrow> read_lines limit raw line True (b # input) = read_lines limit [] line True input"
    "limit + 3 \<le> u64_max \<Longrightarrow> length line < limit + 3 \<Longrightarrow>
       read_lines limit raw line False (b # input) = read_lines limit raw (line @ [b]) False input"
    "limit + 3 \<le> u64_max \<Longrightarrow> limit + 3 \<le> length line \<Longrightarrow>
       read_lines limit raw line False (b # input) = read_lines limit [] line True input"
  using assms by (simp_all add: read_lines.simps(2) Let_def saturating_add_usize_def)

lemma read_kept:
  assumes "limit + 3 \<le> u64_max" "LF \<notin> set w" "length line + length w \<le> limit + 3"
  shows "read_lines limit raw line False (w @ rest) = read_lines limit raw (line @ w) False rest"
  using assms(2,3)
proof (induction w arbitrary: line)
  case (Cons b w)
  then have "b \<noteq> LF" by auto
  with Cons assms(1) show ?case by (simp add: read_byte)
qed simp

lemma read_skipped:
  assumes "LF \<notin> set w"
  shows "read_lines limit [] line True (w @ rest) = read_lines limit [] (line @ take (3 - length line) w) True rest"
  using assms
proof (induction w arbitrary: line)
  case (Cons b w)
  then have "b \<noteq> LF" by auto
  with Cons show ?case by (cases "length line < 3") (simp_all add: read_byte take_Cons')
qed simp

lemma read_overflow:
  assumes "limit + 3 \<le> u64_max" "LF \<notin> set w" "length line \<le> limit + 3" "limit + 3 < length line + length w"
  shows "read_lines limit raw line False (w @ rest) = read_lines limit [] (line @ take (limit + 3 - length line) w) True rest"
  using assms(2-)
proof (induction w arbitrary: line)
  case (Cons b w)
  then have b: "b \<noteq> LF" by auto
  show ?case
  proof (cases "length line < limit + 3")
    case True
    with b Cons assms(1) show ?thesis by (simp add: read_byte take_Cons')
  next
    case False
    with b Cons.prems assms(1) read_skipped [of w limit line rest] show ?thesis by (simp add: read_byte)
  qed
qed simp

lemma no_LF_suffix: "LF \<notin> set w \<Longrightarrow> \<not> suffix [CR, LF] w"
  by (auto simp: suffix_def)

lemma end_skipped:
  assumes "LF \<notin> set line" "3 \<le> length line"
  shows "read_lines limit [] line True (LF # rest) = read_lines limit [] [] True rest"
  using assms no_LF_suffix [OF assms(1)] by (simp add: read_lines.simps(2) Let_def)

lemma line_skipped:
  assumes "LF \<notin> set l"
  shows "read_lines limit [] [] True (stuff l @ [CR, LF] @ rest) = read_lines limit [] [] True rest"
proof -
  have w: "LF \<notin> set (stuff l @ [CR])" using stuff_line(2) [OF assms] by simp
  have "read_lines limit [] [] True (stuff l @ [CR, LF] @ rest) = read_lines limit [] (take 3 (stuff l @ [CR])) True (LF # rest)"
    using read_skipped [OF w, of limit "[]" "LF # rest"] by simp
  also have "\<dots> = read_lines limit [] [] True rest"
  proof (cases "length (stuff l) \<le> 1")
    case True
    then have "take 3 (stuff l @ [CR]) = stuff l @ [CR]" by simp
    with True stuff_line(1) [of l] show ?thesis by (simp add: read_lines.simps(2) Let_def suffix_def)
  next
    case False
    then show ?thesis by (intro end_skipped) (use w in \<open>auto dest: in_set_takeD\<close>)
  qed
  finally show ?thesis .
qed

lemma line_read:
  assumes "limit + 3 \<le> u64_max" "LF \<notin> set l" "length raw \<le> limit"
  shows "read_lines limit raw [] False (stuff l @ [CR, LF] @ rest) =
     (if length raw + Suc (length l) \<le> limit then read_lines limit (raw @ l @ [LF]) [] False rest
      else read_lines limit [] [] True rest)"
proof -
  have w: "LF \<notin> set (stuff l @ [CR])" using stuff_line(2) [OF assms(2)] by simp
  consider "length (stuff l) + 2 \<le> limit + 3" | "length (stuff l) + 1 = limit + 3" | "limit + 3 < length (stuff l) + 1" by linarith
  then show ?thesis
  proof cases
    case 1
    then have "read_lines limit raw [] False (stuff l @ [CR, LF] @ rest) = read_lines limit raw (stuff l @ [CR]) False (LF # rest)"
      using read_kept [OF assms(1) w, of "[]" raw "LF # rest"] by simp
    also have "\<dots> = (if length raw + Suc (length l) \<le> limit then read_lines limit (raw @ l @ [LF]) [] False rest
        else read_lines limit [] [] True rest)"
      using 1 assms stuff_line(1) [of l] by (auto simp: read_lines.simps(2) Let_def suffix_def stuff_line(4) saturating_add_usize_def not_le)
    finally show ?thesis .
  next
    case 2
    then have "read_lines limit raw [] False (stuff l @ [CR, LF] @ rest) = read_lines limit raw (stuff l @ [CR]) False (LF # rest)"
      using read_kept [OF assms(1) w, of "[]" raw "LF # rest"] by simp
    also have "\<dots> = read_lines limit [] [] True rest"
      using 2 assms(1) no_LF_suffix [OF w] by (simp add: read_lines.simps(2) Let_def saturating_add_usize_def)
    finally show ?thesis using 2 stuff_line(3) [of l] by simp
  next
    case 3
    then have "read_lines limit raw [] False (stuff l @ [CR, LF] @ rest)
        = read_lines limit [] (take (limit + 3) (stuff l @ [CR])) True (LF # rest)"
      using read_overflow [OF assms(1) w, of "[]" raw "LF # rest"] by simp
    also have "\<dots> = read_lines limit [] [] True rest"
      by (rule end_skipped) (use w 3 in \<open>auto dest: in_set_takeD\<close>)
    finally show ?thesis using 3 stuff_line(3) [of l] by simp
  qed
qed

lemma wire_Cons: "wire (l # ls) @ rest = stuff l @ [CR, LF] @ (wire ls @ rest)"
  by (simp add: wire_def)

lemma raw_of_Cons: "raw_of (l # ls) = l @ [LF] @ raw_of ls"
  by (simp add: raw_of_def)

lemma wire_skipped:
  assumes "\<forall>l\<in>set ls. LF \<notin> set l"
  shows "read_lines limit [] [] True (wire ls @ rest) = Some ([], True, rest)"
  using assms
proof (induction ls)
  case Nil
  then show ?case by (simp add: wire_def read_lines.simps(2) Let_def suffix_def)
next
  case (Cons l ls)
  then show ?case unfolding wire_Cons using line_skipped [of l limit "wire ls @ rest"] by simp
qed

lemma wire_read:
  assumes "limit + 3 \<le> u64_max" "\<forall>l\<in>set ls. LF \<notin> set l" "length raw \<le> limit"
  shows "read_lines limit raw [] False (wire ls @ rest) =
     Some (if length raw + length (raw_of ls) \<le> limit then (raw @ raw_of ls, False, rest) else ([], True, rest))"
  using assms(2,3)
proof (induction ls arbitrary: raw)
  case Nil
  with assms(1) show ?case by (simp add: wire_def raw_of_def read_lines.simps(2) Let_def suffix_def saturating_add_usize_def)
next
  case (Cons l ls)
  have step: "read_lines limit raw [] False (wire (l # ls) @ rest) =
     (if length raw + Suc (length l) \<le> limit then read_lines limit (raw @ l @ [LF]) [] False (wire ls @ rest)
      else read_lines limit [] [] True (wire ls @ rest))"
    unfolding wire_Cons using Cons.prems assms(1) by (intro line_read) simp_all
  show ?case
  proof (cases "length raw + Suc (length l) \<le> limit")
    case True
    with Cons.IH [of "raw @ l @ [LF]"] Cons.prems show ?thesis unfolding step by (simp add: raw_of_Cons)
  next
    case False
    with wire_skipped Cons.prems show ?thesis unfolding step by (simp add: raw_of_Cons)
  qed
qed

lemma payload_read:
  assumes "\<forall>l\<in>set ls. LF \<notin> set l" and "cn_input c = wire ls @ rest"
  shows "read_data c n =
     (Ok (Some (if length (raw_of ls) \<le> min n raw_capture_limit then Ok (raw_of ls)
                else if raw_capture_limit < n then Err CaptureTooLarge
                else Err (InvalidRequest (''message exceeds the '' @ show_nat n @ ''-byte emulator limit'')))),
      c\<lparr>cn_input := rest\<rparr>)"
proof -
  have "min n raw_capture_limit + 3 \<le> u64_max"
    by (simp add: raw_capture_limit_def MAX_CAPTURE_BYTES_def u64_max_def min_def)
  from wire_read [OF this assms(1), of "[]" rest] show ?thesis
    by (simp add: read_data_def assms(2) Let_def)
qed

text \<open>
  C27. The payload of a message is read exactly. For any lines without line feeds, sent with doubled leading
  dots and closed by a line with a single dot, the server gets the lines joined by line feeds when they fit
  into the limit and the documented error when they do not; in both cases the input that follows the closing
  line, and nothing else, is left for the next command.
\<close>

theorem read_data_exact:
  assumes "\<forall>l\<in>set ls. LF \<notin> set l" and "cn_input c = wire ls @ rest"
  shows "read_data c n =
     (Ok (Some (if length (raw_of ls) \<le> min n raw_capture_limit then Ok (raw_of ls)
                else if raw_capture_limit < n then Err CaptureTooLarge
                else Err (InvalidRequest (''message exceeds the '' @ show_nat n @ ''-byte emulator limit'')))),
      c\<lparr>cn_input := rest\<rparr>)"
  by (rule payload_read [OF assms])

theorem read_data_exact_witness:
  "read_data \<lparr>cn_input = [46, 46, 120, 13, 10, 46, 13, 10, 81], cn_read_error = None, cn_sent = [], cn_writes = None\<rparr> 10 =
     (Ok (Some (Ok [46, 120, 10])), \<lparr>cn_input = [81], cn_read_error = None, cn_sent = [], cn_writes = None\<rparr>)"
  using read_data_exact [of "[[46, 120]]" "\<lparr>cn_input = [46, 46, 120, 13, 10, 46, 13, 10, 81], cn_read_error = None, cn_sent = [], cn_writes = None\<rparr>" "[81]" 10]
  by (simp add: wire_def raw_of_def stuff_def LF_def CR_def DOT_def raw_capture_limit_def MAX_CAPTURE_BYTES_def)

section \<open>Only complete envelopes reach the store\<close>

definition recipient_ok :: "address \<Rightarrow> bool" where
  "recipient_ok a \<longleftrightarrow>
     addr_email a \<noteq> [] \<and> CHR ''<'' \<notin> set (addr_email a) \<and> CHR ''>'' \<notin> set (addr_email a) \<and>
     \<not> list_ex is_whitespace (utf8_chars (addr_email a))"

definition smtp_message_ok :: "nat \<Rightarrow> message \<Rightarrow> bool" where
  "smtp_message_ok n m \<longleftrightarrow>
     msg_to m \<noteq> [] \<and> list_all recipient_ok (msg_to m) \<and> (addr_email (msg_from m) = [] \<or> recipient_ok (msg_from m)) \<and>
     (\<exists>raw. msg_raw_mime m = Some raw \<and> length raw \<le> min n raw_capture_limit)"

definition envelope_inv :: "bool \<Rightarrow> transaction \<Rightarrow> bool" where
  "envelope_inv greeted tx \<longleftrightarrow>
     list_all recipient_ok (tx_recipients tx) \<and>
     (case tx_from tx of
        None \<Rightarrow> tx_recipients tx = []
      | Some a \<Rightarrow> greeted \<and> (addr_email a = [] \<or> recipient_ok a))"

definition session_inv :: "smtp_session \<Rightarrow> bool" where
  "session_inv ss \<longleftrightarrow> envelope_inv (ss_greeted ss) (ss_transaction ss)"

lemma parse_address_ok:
  "parse_address rest pfx False = Some a \<Longrightarrow> recipient_ok a"
  "parse_address rest pfx True = Some a \<Longrightarrow> addr_email a = [] \<or> recipient_ok a"
  by (auto simp: parse_address_def Let_def recipient_ok_def new_address_def split: if_splits option.splits bind_splits)

lemma reply_transaction [simp]:
  "ss_transaction (fst (reply ss text flow)) = ss_transaction ss" "ss_greeted (fst (reply ss text flow)) = ss_greeted ss"
  by (simp_all add: reply_def split: result.split)

lemma inv_reply [simp]: "session_inv (fst (reply ss text flow)) = session_inv ss"
  by (simp add: session_inv_def)

lemma inv_reset [simp]: "session_inv (reset ss)"
  by (simp add: session_inv_def envelope_inv_def reset_def default_transaction_def)

lemma inv_connection [simp]: "session_inv (ss\<lparr>ss_connection := c\<rparr>) = session_inv ss"
  by (simp add: session_inv_def)

lemma smtp_mail_inv: "session_inv ss \<Longrightarrow> session_inv (fst (smtp_mail ss rest))"
  using parse_address_ok(2) by (auto simp: smtp_mail_def session_inv_def envelope_inv_def split: option.splits)

lemma smtp_rcpt_inv: "session_inv ss \<Longrightarrow> session_inv (fst (smtp_rcpt ss rest))"
  using parse_address_ok(1) by (auto simp: smtp_rcpt_def Let_def session_inv_def envelope_inv_def split: option.splits)

lemma smtp_payload_inv: "session_inv ss \<Longrightarrow> yields (\<lambda>p. session_inv (fst p)) (smtp_payload capture tx r ss)"
  unfolding smtp_payload_def smtp_file_def
  by (simp add: yields_bind split: result.split option.split error.split)

lemma smtp_data_inv:
  assumes "session_inv ss"
  shows "yields (\<lambda>p. session_inv (fst p)) (smtp_data capture n ss)"
proof -
  obtain ss' flow where rep: "reply ss ''354 Start mail input; end with <CRLF>.<CRLF>'' Again = (ss', flow)" by force
  have "session_inv ss'" using inv_reply [of ss] rep assms by (metis fst_conv)
  with assms show ?thesis by (simp add: smtp_data_def Let_def rep smtp_payload_inv split: prod.split)
qed

lemma smtp_command_inv: "session_inv ss \<Longrightarrow> yields (\<lambda>p. session_inv (fst p)) (smtp_command capture n ss line)"
proof (cases "split_command line")
  case (Some p)
  assume inv: "session_inv ss"
  obtain command rest where p: "p = (command, rest)" by force
  show ?thesis
    by (cases "command_argument_error command rest (CHR '' '' \<in> set line)")
      (simp_all add: smtp_command_def Some p inv smtp_data_inv smtp_mail_inv smtp_rcpt_inv)
qed (simp add: smtp_command_def)

lemma smtp_round_inv: "session_inv ss \<Longrightarrow> yields (\<lambda>p. session_inv (fst p)) (smtp_round capture n ss)"
  by (simp add: smtp_round_def smtp_command_inv split: result.split option.split command_line.split)

text \<open>A payload that is not too large fits into the limit.\<close>

lemma read_lines_bound:
  assumes "read_lines limit raw line too_large input = Some (r, False, rest)" "length raw \<le> limit" "limit < u64_max"
  shows "length r \<le> limit"
  using assms(1,2)
proof (induction input arbitrary: raw line too_large)
  case (Cons b input)
  then show ?case using assms(3)
    by (auto simp: read_lines.simps(2) Let_def saturating_add_usize_def split: if_splits)
qed simp

lemma read_data_bound:
  assumes "read_data c n = (Ok (Some (Ok raw)), c1)"
  shows "length raw \<le> min n raw_capture_limit"
proof -
  have "min n raw_capture_limit < u64_max"
    by (simp add: raw_capture_limit_def MAX_CAPTURE_BYTES_def u64_max_def min_def)
  moreover from assms obtain input where "read_lines (min n raw_capture_limit) [] [] False (cn_input c) = Some (raw, False, input)"
    by (auto simp: read_data_def Let_def end_of_input_def split: option.splits if_splits)
  ultimately show ?thesis using read_lines_bound by fastforce
qed

text \<open>Two stores that agree on complete messages cannot be told apart by a session.\<close>

lemma build_message_fields:
  assumes "build_message tx raw = Some m"
  shows "msg_raw_mime m = Some raw \<and> (tx_recipients tx \<noteq> [] \<longrightarrow> msg_to m = tx_recipients tx) \<and>
    (\<forall>a. tx_from tx = Some a \<longrightarrow> msg_from m = a)"
  using assms by (auto simp: build_message_def Let_def or_default_def split: prod.splits bind_splits)

lemma smtp_payload_agree:
  assumes "\<And>m. smtp_message_ok n m \<Longrightarrow> capture m = capture' m"
    and "envelope_inv g tx" "tx_recipients tx \<noteq> []" "read_data c n = (r, c1)"
  shows "smtp_payload capture tx r ss = smtp_payload capture' tx r ss"
proof (cases "\<exists>raw m. r = Ok (Some (Ok raw)) \<and> build_message tx raw = Some m")
  case True
  then obtain raw m where r: "r = Ok (Some (Ok raw))" and m: "build_message tx raw = Some m" by blast
  have "smtp_message_ok n m"
    using build_message_fields [OF m] read_data_bound assms(2-4) r
    by (auto simp: smtp_message_ok_def envelope_inv_def split: option.splits)
  then show ?thesis by (simp add: smtp_payload_def r m smtp_file_def assms(1))
next
  case False
  then show ?thesis by (auto simp: smtp_payload_def split: result.split option.split)
qed

lemma smtp_data_agree:
  assumes "\<And>m. smtp_message_ok n m \<Longrightarrow> capture m = capture' m" and "session_inv ss"
  shows "smtp_data capture n ss = smtp_data capture' n ss"
proof (cases "tx_recipients (ss_transaction ss) = []")
  case False
  then show ?thesis
    using smtp_payload_agree [OF assms(1) assms(2) [unfolded session_inv_def] False]
    by (auto simp: smtp_data_def Let_def split: prod.split)
qed (simp add: smtp_data_def Let_def)

lemma smtp_round_agree:
  assumes "\<And>m. smtp_message_ok n m \<Longrightarrow> capture m = capture' m" and "session_inv ss"
  shows "smtp_round capture n ss = smtp_round capture' n ss"
proof -
  have d: "smtp_data capture n (ss\<lparr>ss_connection := c\<rparr>) = smtp_data capture' n (ss\<lparr>ss_connection := c\<rparr>)" for c
    by (rule smtp_data_agree [OF assms(1)]) (use assms(2) in simp_all)
  have "smtp_command capture n (ss\<lparr>ss_connection := c\<rparr>) line = smtp_command capture' n (ss\<lparr>ss_connection := c\<rparr>) line" for c line
    unfolding smtp_command_def d by (rule refl)
  then show ?thesis by (simp add: smtp_round_def split: result.split option.split command_line.split)
qed

lemma smtp_loop_agree:
  assumes "\<And>m. smtp_message_ok n m \<Longrightarrow> capture m = capture' m" and "session_inv ss"
  shows "smtp_loop capture n ss s = smtp_loop capture' n ss s"
  using assms(2)
proof (induction "pending ss" arbitrary: ss s rule: less_induct)
  case less
  obtain r s1 where run: "smtp_round capture n ss s = (r, s1)" by force
  then have run': "smtp_round capture' n ss s = (r, s1)" using smtp_round_agree [OF assms(1) less.prems] by simp
  show ?case
  proof (cases "\<exists>ss1. r = Done (ss1, Again)")
    case True
    then obtain ss1 where r: "r = Done (ss1, Again)" by blast
    have "session_inv ss1" using smtp_round_inv [OF less.prems, of capture n] run r by (fastforce simp: yields_def)
    moreover have "pending ss1 < pending ss" using smtp_round_shrinks run r by blast
    ultimately have "smtp_loop capture n ss1 s1 = smtp_loop capture' n ss1 s1" using less.hyps by blast
    then show ?thesis by (simp add: smtp_loop.simps [of capture n ss] smtp_loop.simps [of capture' n ss] run run' r)
  next
    case False
    then show ?thesis
      by (cases r) (auto simp: smtp_loop.simps [of capture n ss] smtp_loop.simps [of capture' n ss] run run')
  qed
qed



section \<open>A whole dialogue\<close>

definition graphic :: "char \<Rightarrow> bool" where
  "graphic c \<longleftrightarrow> 32 < (of_char c :: nat) \<and> (of_char c :: nat) < 127"

definition plain_email :: "string \<Rightarrow> bool" where
  "plain_email e \<longleftrightarrow> e \<noteq> [] \<and> list_all graphic e \<and> CHR ''<'' \<notin> set e \<and> CHR ''>'' \<notin> set e \<and> length e \<le> 490"

lemma graphic_char:
  assumes "graphic c"
  shows "\<not> is_whitespace [c]" "\<not> is_control [c]" "c \<noteq> CHR '' ''"
  using assms by (auto simp: graphic_def is_whitespace_def is_control_def)

lemma graphic_chars: "list_all graphic s \<Longrightarrow> utf8_chars s = map (\<lambda>c. [c]) s"
  by (rule utf8_chars_ascii) (auto simp: list_all_iff graphic_def)

definition printable :: "string \<Rightarrow> bool" where
  "printable s \<longleftrightarrow> list_all (\<lambda>c. c = CHR '' '' \<or> graphic c) s"

lemma printable_chars:
  assumes "printable s"
  shows "utf8_chars s = map (\<lambda>c. [c]) s"
proof (rule utf8_chars_ascii)
  have "(of_char c :: nat) < 128" if "c = CHR '' '' \<or> graphic c" for c
    using that by (elim disjE) (simp_all add: graphic_def)
  then show "list_all (\<lambda>c. (of_char c :: nat) < 128) s"
    using assms unfolding printable_def by (rule list.pred_mono_strong [rotated])
qed

lemma graphic_trim: "list_all graphic s \<Longrightarrow> str_trim s = s"
proof (cases "s = []")
  case False
  assume g: "list_all graphic s"
  have "dropWhile is_whitespace (map (\<lambda>c. [c]) s) = map (\<lambda>c. [c]) s"
    using g False graphic_char(1) by (cases s) auto
  moreover have "dropWhile is_whitespace (rev (map (\<lambda>c. [c]) s)) = rev (map (\<lambda>c. [c]) s)"
    using g False graphic_char(1) by (cases s rule: rev_cases) auto
  ultimately show ?thesis by (simp add: str_trim_def graphic_chars [OF g])
qed (simp add: str_trim_def)

text \<open>A command line on the wire, and what the server reads of it.\<close>

definition command_bytes :: "string \<Rightarrow> bytes" where
  "command_bytes t = text_bytes t @ [CR, LF]"

lemma take_line_kept:
  assumes "LF \<notin> set w" "length line + length w \<le> 512"
  shows "take_line line t (w @ rest) = take_line (line @ w) t rest"
  using assms
proof (induction w arbitrary: line)
  case (Cons b w)
  then have "b \<noteq> LF" by auto
  with Cons show ?case by (simp add: Let_def)
qed simp

lemma printable_bytes:
  assumes "printable t"
  shows "LF \<notin> set (text_bytes t)" "utf8_valid t" "\<not> list_ex is_control (utf8_chars t)"
proof -
  show "LF \<notin> set (text_bytes t)"
  proof
    assume "LF \<in> set (text_bytes t)"
    then obtain c where c: "c \<in> set t" "(word_of_nat (of_char c) :: byte) = LF" by (auto simp: text_bytes_def)
    then have "(of_char c :: nat) = 10" using unat_text_byte [of c] by (simp add: LF_def)
    moreover have "c = CHR '' '' \<or> graphic c" using c(1) assms by (simp add: printable_def list_all_iff)
    ultimately show False by (auto simp: graphic_def)
  qed
  have chars: "c = CHR '' '' \<or> graphic c" if "c \<in> set t" for c
    using that assms by (simp add: printable_def list_all_iff)
  have "in_bytes 0 0x7F c" if "c = CHR '' '' \<or> graphic c" for c
    using that by (elim disjE) (simp_all add: in_bytes_def graphic_def)
  then have "list_all (in_bytes 0 0x7F) t" using chars by (simp add: list_all_iff)
  then show "utf8_valid t" using utf8_valid_ascii [of t "[]"] by simp
  have "\<not> is_control [c]" if "c = CHR '' '' \<or> graphic c" for c
    using that by (elim disjE) (simp_all add: graphic_def is_control_def)
  then show "\<not> list_ex is_control (utf8_chars t)" using chars by (auto simp: printable_chars [OF assms] list_ex_iff)
qed

lemma next_line_command:
  assumes "printable t" "length t \<le> 510" "cn_input c = command_bytes t @ rest"
  shows "next_line c = Ok (Some (Valid t, c\<lparr>cn_input := rest\<rparr>))"
proof -
  have len: "length (text_bytes t) = length t" by (simp add: text_bytes_def)
  have "take_line [] False (text_bytes t @ [CR, LF] @ rest) = take_line (text_bytes t @ [CR]) False (LF # rest)"
    using take_line_kept [of "text_bytes t @ [CR]" "[]" False "LF # rest"] printable_bytes(1) [OF assms(1)] assms(2) by (simp add: len)
  also have "\<dots> = Some (text_bytes t @ [CR, LF], False, rest)" using assms(2) by (simp add: Let_def len)
  finally show ?thesis
    using printable_bytes(2) [OF assms(1)] by (simp add: next_line_def assms(3) command_bytes_def Let_def suffix_def)
qed

lemma smtp_loop_step:
  assumes "next_line (ss_connection ss) = Ok (Some (Valid line, c))"
    and "smtp_command capture n (ss\<lparr>ss_connection := c\<rparr>) line s = (Done (ss1, flow), s1)"
  shows "smtp_loop capture n ss s = (if flow = Again then smtp_loop capture n ss1 s1 else (Done (ss1, flow), s1))"
  using assms by (simp add: smtp_loop.simps [of capture n ss] smtp_round_def)

text \<open>A session in which writing does not fail: what will arrive, what was sent, the transaction.\<close>

definition talk :: "bool \<Rightarrow> bytes \<Rightarrow> string list \<Rightarrow> address option \<Rightarrow> address list \<Rightarrow> smtp_session" where
  "talk greeted input sent from rcpts =
     \<lparr>ss_connection = \<lparr>cn_input = input, cn_read_error = None, cn_sent = sent, cn_writes = None\<rparr>,
      ss_transaction = \<lparr>tx_from = from, tx_recipients = rcpts\<rparr>, ss_greeted = greeted\<rparr>"

lemma talk_reply: "reply (talk g input sent from rcpts) text flow = (talk g input (sent @ [text]) from rcpts, flow)"
  by (simp add: talk_def reply_def write_line_def)

lemma talk_fields [simp]:
  "ss_transaction (talk g input sent from rcpts) = \<lparr>tx_from = from, tx_recipients = rcpts\<rparr>"
  "ss_greeted (talk g input sent from rcpts) = g"
  "(talk g input sent from rcpts)\<lparr>ss_transaction := \<lparr>tx_from = from', tx_recipients = rcpts'\<rparr>\<rparr> = talk g input sent from' rcpts'"
  "reset (talk g input sent from rcpts) = talk g input sent None []"
  by (simp_all add: talk_def reset_def default_transaction_def)

lemma talk_command:
  assumes "printable t" "length t \<le> 510"
    and "smtp_command capture n (talk g rest sent from rcpts) t s = (Done (ss1, flow), s1)"
  shows "smtp_loop capture n (talk g (command_bytes t @ rest) sent from rcpts) s =
     (if flow = Again then smtp_loop capture n ss1 s1 else (Done (ss1, flow), s1))"
proof (rule smtp_loop_step)
  let ?ss = "talk g (command_bytes t @ rest) sent from rcpts"
  show "next_line (ss_connection ?ss) = Ok (Some (Valid t, (ss_connection ?ss)\<lparr>cn_input := rest\<rparr>))"
    by (rule next_line_command [OF assms(1,2)]) (simp add: talk_def)
  have "?ss\<lparr>ss_connection := (ss_connection ?ss)\<lparr>cn_input := rest\<rparr>\<rparr> = talk g rest sent from rcpts" by (simp add: talk_def)
  with assms(3) show "smtp_command capture n (?ss\<lparr>ss_connection := (ss_connection ?ss)\<lparr>cn_input := rest\<rparr>\<rparr>) t s = (Done (ss1, flow), s1)"
    by simp
qed

lemma printable_command:
  assumes "list_all graphic e" "printable p"
  shows "printable (p @ e @ ''>'')"
  using assms by (auto simp: printable_def list_all_iff graphic_def)

lemma envelope_command:
  assumes "plain_email e"
  shows "split_command (''MAIL FROM:<'' @ e @ ''>'') = Some (''MAIL'', ''FROM:<'' @ e @ ''>'')"
    "split_command (''RCPT TO:<'' @ e @ ''>'') = Some (''RCPT'', ''TO:<'' @ e @ ''>'')"
    "parse_address (''FROM:<'' @ e @ ''>'') ''FROM:'' True = Some (new_address e)"
    "parse_address (''TO:<'' @ e @ ''>'') ''TO:'' False = Some (new_address e)"
proof -
  have e: "list_all graphic e" "e \<noteq> []" "CHR ''<'' \<notin> set e" "CHR ''>'' \<notin> set e" using assms by (simp_all add: plain_email_def)
  have g: "list_all graphic (''FROM:<'' @ e @ ''>'')" "list_all graphic (''TO:<'' @ e @ ''>'')" "list_all graphic (CHR ''<'' # e @ ''>'')"
    using e(1) by (simp_all add: graphic_def)
  note trims = g [THEN graphic_trim, simplified] e(1) [THEN graphic_trim]
  have p: "printable (''MAIL FROM:<'' @ e @ ''>'')" "printable (''RCPT TO:<'' @ e @ ''>'')"
    by (rule printable_command [OF e(1)]; simp add: printable_def graphic_def)+
  show "split_command (''MAIL FROM:<'' @ e @ ''>'') = Some (''MAIL'', ''FROM:<'' @ e @ ''>'')"
    using printable_bytes(3) [OF p(1)] trims by (simp add: split_command_def to_ascii_uppercase_def is_lower_def)
  show "split_command (''RCPT TO:<'' @ e @ ''>'') = Some (''RCPT'', ''TO:<'' @ e @ ''>'')"
    using printable_bytes(3) [OF p(2)] trims by (simp add: split_command_def to_ascii_uppercase_def is_lower_def)
  have inside: "split_once (CHR ''>'') (e @ ''>'') = Some (e, [])" using e(4) by (induction e) auto
  have ws: "\<not> list_ex is_whitespace (utf8_chars e)"
    using e(1) graphic_char(1) by (auto simp: graphic_chars [OF e(1)] list_ex_iff list_all_iff)
  show "parse_address (''FROM:<'' @ e @ ''>'') ''FROM:'' True = Some (new_address e)"
    using trims inside e ws by (simp add: parse_address_def eq_ignore_ascii_case_def strip_prefix_def str_trim_def)
  show "parse_address (''TO:<'' @ e @ ''>'') ''TO:'' False = Some (new_address e)"
    using trims inside e ws by (simp add: parse_address_def eq_ignore_ascii_case_def strip_prefix_def str_trim_def)
qed

lemma talk_mail:
  assumes "plain_email e"
  shows "smtp_loop capture n (talk True (command_bytes (''MAIL FROM:<'' @ e @ ''>'') @ rest) sent None rcpts) s =
    smtp_loop capture n (talk True rest (sent @ [''250 OK'']) (Some (new_address e)) rcpts) s"
proof -
  have p: "printable (''MAIL FROM:<'' @ e @ ''>'')"
    by (rule printable_command) (use assms in \<open>simp_all add: plain_email_def printable_def graphic_def\<close>)
  have "smtp_command capture n (talk True rest sent None rcpts) (''MAIL FROM:<'' @ e @ ''>'') s
      = (Done (talk True rest (sent @ [''250 OK'']) (Some (new_address e)) rcpts, Again), s)"
    unfolding smtp_command_def envelope_command(1) [OF assms]
    by (simp add: command_argument_error_def smtp_mail_def envelope_command(3) [OF assms, simplified] talk_reply return_def)
  from talk_command [OF p _ this] assms show ?thesis by (simp add: plain_email_def)
qed

lemma talk_rcpt:
  assumes "plain_email e"
  shows "smtp_loop capture n (talk True (command_bytes (''RCPT TO:<'' @ e @ ''>'') @ rest) sent (Some f) rcpts) s =
    smtp_loop capture n (talk True rest (sent @ [''250 OK'']) (Some f) (rcpts @ [new_address e])) s"
proof -
  have p: "printable (''RCPT TO:<'' @ e @ ''>'')"
    by (rule printable_command) (use assms in \<open>simp_all add: plain_email_def printable_def graphic_def\<close>)
  have "smtp_command capture n (talk True rest sent (Some f) rcpts) (''RCPT TO:<'' @ e @ ''>'') s
      = (Done (talk True rest (sent @ [''250 OK'']) (Some f) (rcpts @ [new_address e]), Again), s)"
    unfolding smtp_command_def envelope_command(2) [OF assms]
    by (simp add: command_argument_error_def smtp_rcpt_def envelope_command(4) [OF assms, simplified] talk_reply return_def)
  from talk_command [OF p _ this] assms show ?thesis by (simp add: plain_email_def)
qed

lemma talk_rcpts:
  assumes "list_all plain_email es"
  shows "smtp_loop capture n
      (talk True (concat (map (\<lambda>e. command_bytes (''RCPT TO:<'' @ e @ ''>'')) es) @ rest) sent (Some f) rcpts) s =
    smtp_loop capture n (talk True rest (sent @ replicate (length es) ''250 OK'') (Some f) (rcpts @ map new_address es)) s"
  using assms
proof (induction es arbitrary: sent rcpts)
  case (Cons e es)
  then have e: "plain_email e" and es: "list_all plain_email es" by simp_all
  show ?case
    using talk_rcpt [OF e, of capture n "concat (map (\<lambda>e. command_bytes (''RCPT TO:<'' @ e @ ''>'')) es) @ rest" sent f rcpts s]
      Cons.IH [OF es, of "sent @ [''250 OK'']" "rcpts @ [new_address e]"]
    by simp
qed simp

lemma one_word:
  assumes "t \<in> {''DATA'', ''QUIT''}"
  shows "split_command t = Some (t, [])" "printable t" "length t \<le> 510" "CHR '' '' \<notin> set t"
proof -
  have p: "printable t" using assms by (auto simp: printable_def graphic_def)
  then show "split_command t = Some (t, [])"
    using assms printable_bytes(3) [OF p] by (auto simp: split_command_def to_ascii_uppercase_def is_lower_def str_trim_def)
  show "printable t" by (rule p)
  show "length t \<le> 510" "CHR '' '' \<notin> set t" using assms by auto
qed

lemma talk_quit:
  "smtp_loop capture n (talk g (command_bytes ''QUIT'' @ rest) sent from rcpts) s =
     (Done (talk g rest (sent @ [''221 Bye'']) from rcpts, Closed), s)"
proof -
  note w = one_word [of "''QUIT''", simplified]
  have "smtp_command capture n (talk g rest sent from rcpts) ''QUIT'' s = (Done (talk g rest (sent @ [''221 Bye'']) from rcpts, Closed), s)"
    unfolding smtp_command_def w(1) by (simp add: command_argument_error_def talk_reply return_def)
  from talk_command [OF w(2) _ this] show ?thesis by simp
qed

lemma talk_ehlo:
  assumes "list_all graphic d" "d \<noteq> []" "length d \<le> 500"
  shows "smtp_loop capture n (talk g (command_bytes (''EHLO '' @ d) @ rest) sent from rcpts) s =
    smtp_loop capture n (talk True rest (sent @ [''250 sqrzl-emulator'']) None []) s"
proof -
  have p: "printable (''EHLO '' @ d)" using assms(1) by (auto simp: printable_def list_all_iff graphic_def)
  have split: "split_command (''EHLO '' @ d) = Some (''EHLO'', d)"
    using printable_bytes(3) [OF p] graphic_trim [OF assms(1)] by (simp add: split_command_def to_ascii_uppercase_def is_lower_def)
  have ws: "\<not> list_ex is_whitespace (utf8_chars d)"
    using assms(1) graphic_char(1) by (auto simp: graphic_chars [OF assms(1)] list_ex_iff list_all_iff)
  have greet: "(talk g rest sent from rcpts)\<lparr>ss_greeted := True\<rparr> = talk True rest sent from rcpts" by (simp add: talk_def)
  have "smtp_command capture n (talk g rest sent from rcpts) (''EHLO '' @ d) s
      = (Done (talk True rest (sent @ [''250 sqrzl-emulator'']) None [], Again), s)"
    unfolding smtp_command_def split using ws assms(2) by (simp add: command_argument_error_def greet talk_reply return_def)
  from talk_command [OF p _ this] assms(3) show ?thesis by simp
qed

lemma talk_data:
  assumes "\<forall>l\<in>set ls. LF \<notin> set l" "length (raw_of ls) \<le> min n raw_capture_limit" "rcpts \<noteq> []"
    and "build_message \<lparr>tx_from = Some f, tx_recipients = rcpts\<rparr> (raw_of ls) = Some m" "capture m s = (Done (), s1)"
  shows "smtp_loop capture n (talk True (command_bytes ''DATA'' @ wire ls @ rest) sent (Some f) rcpts) s =
    smtp_loop capture n
      (talk True rest (sent @ [''354 Start mail input; end with <CRLF>.<CRLF>'', ''250 OK: message accepted'']) None []) s1"
proof -
  note w = one_word [of "''DATA''", simplified]
  let ?t = "talk True (wire ls @ rest) (sent @ [''354 Start mail input; end with <CRLF>.<CRLF>'']) (Some f) rcpts"
  have read: "read_data (ss_connection ?t) n = (Ok (Some (Ok (raw_of ls))), (ss_connection ?t)\<lparr>cn_input := rest\<rparr>)"
    using payload_read [OF assms(1), of "ss_connection ?t" rest n] assms(2) by (simp add: talk_def)
  have after: "?t\<lparr>ss_connection := (ss_connection ?t)\<lparr>cn_input := rest\<rparr>\<rparr>
      = talk True rest (sent @ [''354 Start mail input; end with <CRLF>.<CRLF>'']) (Some f) rcpts" by (simp add: talk_def)
  have "smtp_data capture n (talk True (wire ls @ rest) sent (Some f) rcpts) s =
     smtp_file capture (talk True rest (sent @ [''354 Start mail input; end with <CRLF>.<CRLF>'']) (Some f) rcpts) m s"
    unfolding smtp_data_def talk_reply Let_def by (simp add: assms(3) read after smtp_payload_def assms(4))
  also have "\<dots> = (Done (talk True rest (sent @ [''354 Start mail input; end with <CRLF>.<CRLF>'', ''250 OK: message accepted'']) None [], Again), s1)"
    by (simp add: smtp_file_def bind_io_def try_io_def assms(5) talk_reply return_def)
  finally have data: "smtp_data capture n (talk True (wire ls @ rest) sent (Some f) rcpts) s =
    (Done (talk True rest (sent @ [''354 Start mail input; end with <CRLF>.<CRLF>'', ''250 OK: message accepted'']) None [], Again), s1)" .
  have "smtp_command capture n (talk True (wire ls @ rest) sent (Some f) rcpts) ''DATA'' s =
    (Done (talk True rest (sent @ [''354 Start mail input; end with <CRLF>.<CRLF>'', ''250 OK: message accepted'']) None [], Again), s1)"
    unfolding smtp_command_def w(1) using data by (simp add: command_argument_error_def)
  from talk_command [OF w(2) _ this] show ?thesis by simp
qed

text \<open>What the client of a whole dialogue sends.\<close>

definition dialogue :: "string \<Rightarrow> string \<Rightarrow> string list \<Rightarrow> bytes list \<Rightarrow> bytes" where
  "dialogue d f ts ls =
     command_bytes (''EHLO '' @ d) @ command_bytes (''MAIL FROM:<'' @ f @ ''>'')
     @ concat (map (\<lambda>e. command_bytes (''RCPT TO:<'' @ e @ ''>'')) ts)
     @ command_bytes ''DATA'' @ wire ls @ command_bytes ''QUIT''"


text \<open>A header value whose closing bracket comes before the opening one makes the parser panic.\<close>

lemma header_brackets_panic: "parse_header_address ''>x<'' = None"
  by (simp add: parse_header_address_def graphic_trim graphic_def between_brackets_def)

lemma sample_mail_built:
  "build_message \<lparr>tx_from = Some (new_address ''a''), tx_recipients = [new_address ''b'']\<rparr> [72, 105, 10] =
     Some \<lparr>msg_source_protocol = Smtp, msg_from = new_address ''a'', msg_to = [new_address ''b''], msg_cc = [], msg_bcc = [],
       msg_reply_to = [], msg_subject = [], msg_headers = Map.empty, msg_body_text = Some [], msg_body_html = None,
       msg_attachments = [], msg_tracking_disabled = None, msg_provider_metadata = Map.empty,
       msg_raw_mime = Some [72, 105, 10], msg_thread_id = None\<rparr>"
proof -
  have chars: "bytes_text [72, 105, 10] = [CHR ''H'', CHR ''i'', CHR 0x0A]" by code_simp
  have lossy: "utf8_lossy [CHR ''H'', CHR ''i'', CHR 0x0A] = [CHR ''H'', CHR ''i'', CHR 0x0A]"
    by (rule utf8_lossy_ascii) (simp add: in_bytes_def)
  have unknown: "parse_header_address ''unknown@localhost'' = Some (Some (new_address ''unknown@localhost''))"
    by (simp add: parse_header_address_def graphic_trim graphic_def between_brackets_def)
  have empty: "parse_header_address_list [] = Some []" by (simp add: parse_header_address_list_def parse_header_address_def str_trim_def)
  show ?thesis
    unfolding build_message_def chars lossy Let_def
    by (simp add: str_lines_def or_default_def unknown empty str_trim_def)
qed


end
