(* ===== verification/Spec2Isabelle.thy ===== *)
theory Spec2Isabelle
  imports Policy Key_Index Store_Config Buckets Listing_Correct Multipart_Correct Lifecycle Opening Messages_Correct
    Presigned_Correct Admin_Correct S3_Documents Smtp_Correct
begin

text \<open>
  A verification development for the sqrzl emulator, a process that stands in for the object storage, mail and
  text-message services of several cloud providers. Sources are named below \<^verbatim>\<open>src/src/\<close>.

  \<^bold>\<open>The program.\<close> Requests of the S3 interface enter through the adapter of \<^verbatim>\<open>providers/s3.rs\<close>, are routed by
  \<^verbatim>\<open>server/http.rs\<close> and \<^verbatim>\<open>server/handlers/mod.rs\<close>, authenticated and authorized (\<^verbatim>\<open>auth/\<close>,
  \<^verbatim>\<open>server/handlers/auth.rs\<close>, \<^verbatim>\<open>models/policy.rs\<close>) and carried out by the object and bucket handlers, which
  call the services of \<^verbatim>\<open>services/\<close> and through them the store of \<^verbatim>\<open>storage/filesystem.rs\<close>. The admin interface
  (\<^verbatim>\<open>api/admin.rs\<close>) reaches the same store. The store keeps one directory per object and version, publishes
  payload and metadata together through a journal (\<^verbatim>\<open>storage/filesystem/publication.rs\<close>) and keeps an ordered
  index of the keys in memory (\<^verbatim>\<open>storage/lockfree_index.rs\<close>). The lifecycle executor (\<^verbatim>\<open>lifecycle.rs\<close>) expires
  and transitions objects, in periodic passes and when an object is read. Mail and text messages are captured by
  stores of their own (\<^verbatim>\<open>mail/\<close>, \<^verbatim>\<open>sms/\<close>) over a common transaction (\<^verbatim>\<open>capture.rs\<close>). Settings come
  from the environment (\<^verbatim>\<open>config.rs\<close>).

  \<^bold>\<open>State and faults.\<close> \<open>Fs\<close> defines the state \<open>world\<close>: the file tree (a map from paths to directories and
  files with typed contents), the key index, the caches of the store, the counters behind the clock and the UUIDs, and
  a list of faults still to come. A computation is a function on \<open>world\<close> that ends with a value, with an error of the
  datatype of \<open>Errors\<close>, or \<open>Halted\<close>. Every call that changes the file system consumes one fault: \<open>Proceed\<close> lets it
  succeed, \<open>Fail\<close> makes it report an error after part of its effect, \<open>Crash\<close> stops the process after part of its
  effect. A theorem about all fault lists covers every sequence of failing calls and every point at which the process
  can stop; an empty list means that no call fails. Operations run one at a time: the locks of
  \<^verbatim>\<open>storage/coordination.rs\<close> give each of them the directories it works on, and the model takes this as given.

  \<^bold>\<open>Theories.\<close>
  \<^item> \<open>Texts\<close>: validity and lossy decoding of UTF-8, lines and character classes of the standard library.
  \<^item> \<open>Prelude\<close>: results, ordered association lists with their laws as the locale \<open>ordered_map\<close>, 64-bit arithmetic,
    the string operations of the standard library on UTF-8 bytes, and \<open>follow\<close>, the client that follows page markers.
  \<^item> \<open>Errors\<close> (\<^verbatim>\<open>error.rs\<close>), \<open>Models\<close> (\<^verbatim>\<open>models/\<close>), \<open>Capture_Models\<close>: the data.
  \<^item> \<open>Policy\<close> (\<^verbatim>\<open>models/policy.rs\<close>): ACLs, policy evaluation, conditions, the wildcard matcher. An applying Deny
    wins; the matcher decides the declarative relation \<open>glob_matches\<close> on values without a literal star.
  \<^item> \<open>Key_Index\<close> (\<^verbatim>\<open>storage/lockfree_index.rs\<close>): the index with its directory entries; the locale \<open>key_index\<close>
    states what the store relies on, and its interpretation shows the refinement of sets of keys.
  \<^item> \<open>Fs\<close>, \<open>Publication\<close> (\<^verbatim>\<open>storage/filesystem/publication.rs\<close>), \<open>Fs_Logic\<close> (a program logic with an assertion
    that holds at every point where the process can stop), \<open>Crash_Phases\<close>, \<open>Crash_Safety\<close>: after recovery
    a publication has happened completely or not at all.
  \<^item> \<open>Store\<close>, \<open>Versions\<close>, \<open>Listing\<close>, \<open>Multipart\<close>, \<open>Store_Config\<close>, \<open>Opening\<close> (\<^verbatim>\<open>storage/filesystem.rs\<close>,
    \<^verbatim>\<open>storage/filesystem/io.rs\<close>): the operations of the store, one definition each.
  \<^item> \<open>Frames\<close>, \<open>Store_Inv\<close>, \<open>Store_Correct\<close>, \<open>Object_Store\<close>, \<open>Buckets\<close>, \<open>Listing_Correct\<close>,
    \<open>Multipart_Correct\<close>: the invariant \<open>store_ok\<close> of the directories and the index, its preservation by every step
    of a client (\<open>client_step\<close>), the effect of each operation as a function on the abstract state of one object
    (its current content and its versions), and what it leaves alone.
  \<^item> \<open>Lifecycle\<close> (\<^verbatim>\<open>lifecycle.rs\<close>): data protection, rules, passes; protected objects survive.
  \<^item> \<open>Capture\<close> (\<^verbatim>\<open>capture.rs\<close>), \<open>Mail\<close>, \<open>Text_Messages\<close>, with \<open>Capture_Correct\<close> and \<open>Messages_Correct\<close>:
    captures are atomic, budgets exact, deliveries settle once; the locale \<open>marker_paging\<close> gives the completeness of
    paged listings for both stores.
  \<^item> \<open>Smtp_Session\<close> (\<^verbatim>\<open>mail/smtp.rs\<close>), with \<open>Smtp_Correct\<close>: the SMTP session over a connection whose reads and writes
    may fail, as a loop that consumes input in every round; payloads are read exactly up to their closing line, only
    complete envelopes reach the store, and a whole dialogue is captured.
  \<^item> \<open>Configuration\<close> (\<^verbatim>\<open>config.rs\<close>), \<open>Requests\<close> (\<^verbatim>\<open>server/http.rs\<close>, \<^verbatim>\<open>utils/\<close>), \<open>Signing\<close>
    (\<^verbatim>\<open>auth/sigv4.rs\<close>, \<^verbatim>\<open>auth/presigned.rs\<close>), \<open>Authorization\<close> (\<^verbatim>\<open>auth/authenticator.rs\<close>,
    \<^verbatim>\<open>server/handlers/auth.rs\<close>), with \<open>Auth_Correct\<close> and \<open>Presigned_Correct\<close>: well-formed settings, granted
    requests are signed, the decision procedure, presigned URLs.
  \<^item> \<open>Validation\<close> (\<^verbatim>\<open>utils/validation.rs\<close>), \<open>Services\<close> (\<^verbatim>\<open>services/\<close>), \<open>Admin_Routes\<close>, \<open>Admin_Api\<close>
    (\<^verbatim>\<open>api/admin.rs\<close> and its modules), with \<open>Admin_Correct\<close>: guards, round trips and listings of the admin
    interface.
  \<^item> \<open>Xml_Render\<close>, \<open>Xml_Parse\<close> (\<^verbatim>\<open>utils/xml.rs\<close>, \<^verbatim>\<open>utils/xml/parse.rs\<close>), with \<open>Xml_Correct\<close>: the documents,
    and that a lifecycle configuration survives writing and parsing.
  \<^item> \<open>S3_Responses\<close>, \<open>Cors\<close>, \<open>S3_Helpers\<close>, \<open>S3_Checksums\<close>, \<open>S3_Objects\<close>, \<open>S3_Buckets\<close>
    (\<^verbatim>\<open>server/handlers/\<close>, \<^verbatim>\<open>providers/s3.rs\<close>), with \<open>S3_Correct\<close> and \<open>S3_Documents\<close>: every handler of the S3
    interface; locked objects survive, what is put is returned, reads are bounded, multi-object deletions are read
    exactly.
  \<^item> \<open>Samples\<close>: concrete libraries, objects and states on which the theorems are applied.

  \<^bold>\<open>Library parameters.\<close> Code outside the repository is a parameter. \<open>externs\<close> holds the hashes, the random identifiers,
  the clock and the date parsers the store uses; \<open>sign_lib\<close> HMAC and SHA-256; \<open>xml_lib\<close> the events of the XML reader and
  the date formats; \<open>admin_lib\<close> Base64 and the JSON decoders of the admin interface; \<open>s3_lib\<close> these together with the
  digests and the token codec. Theorems name what they need of them: UUIDs are distinct and have the syntax of UUIDs, a
  decoder inverts its encoder, the reader reports the tags and text of a tree in order (\<open>reads_trees\<close>). JSON files are
  the values they encode, and a file whose write was cut off is \<open>Torn\<close> and cannot be parsed.

  \<^bold>\<open>Bounds.\<close> Loops over data recurse on the data. Loops whose end depends on the state carry fuel: \<open>scan_fuel\<close> and
  \<open>listing_fuel\<close> (also the rounds of \<open>protection_scan\<close>) exceed the number of indexed keys, and since each round that does not end the loop moves a marker past
  at least one key they are shown to be enough; \<open>follow\<close>, the client of the paging theorems, is shown to end within one
  request per page. Sizes, offsets and budgets are natural numbers with the checked 64-bit operations of the source
  written out (\<open>checked_add_u64\<close>), status codes and ports are numbers, payloads are lists of 8-bit words.

  \<^bold>\<open>Not modelled.\<close> The dialects of Azure, GCS and OCI (\<^verbatim>\<open>providers/azure.rs\<close>, \<^verbatim>\<open>gcs.rs\<close>, \<^verbatim>\<open>oci.rs\<close>), which
  parse requests and render answers around the same storage calls; sockets, asynchronous streams and connection limits
  (\<^verbatim>\<open>server/mod.rs\<close>, \<^verbatim>\<open>server/streaming.rs\<close>, \<^verbatim>\<open>body.rs\<close>), for which payloads are whole values; the HTTP front ends of the mail
  and text-message providers and the delivery simulator; the fault injector (\<^verbatim>\<open>providers/faults.rs\<close>), the sessions,
  ACS and MCP authentication and the MCP server; the
  concurrency of the locks and of the skip list; metrics, logging, process start-up and the static capability table.
\<close>

end
